(* ===== verification/Prelude.thy ===== *)
theory Prelude
  imports Complex_Main
begin

text \<open>
  Shared vocabulary of the development: the built-in Python operations the program uses
  (dictionary lookups with a default, string trimming, lower-casing, substring tests, the
  truthiness of \<open>or\<close>), the names of the shared types, and the lemmas about lists,
  maps and sums that the component theories rest on.

  Conventions. A Python \<open>dict\<close> is a map \<open>'k \<rightharpoonup> 'v\<close>; where its insertion order is
  observed it is an association list. A Python \<open>int\<close> is \<open>int\<close> (or \<open>nat\<close> for a counter that
  starts at zero and only grows). A Python \<open>float\<close> is \<open>real\<close>: rounding of binary floating
  point is not modelled. A raised exception is the \<open>Inl\<close> side of a sum. Clocks are read
  through parameters, so every definition says which instants it depends on.
\<close>

subsection \<open>Collections of facts\<close>

named_theorems py_defs "definitions of the Python built-ins"
named_theorems op_defs "definitions of the operations of the components"
named_theorems inv_intros "preservation of the components' invariants"

subsection \<open>Types\<close>

type_synonym phase = string
type_synonym time = real
type_synonym ('e, 'a) result = "'e + 'a"

abbreviation Err :: "'e \<Rightarrow> ('e, 'a) result" where
  "Err \<equiv> Inl"

abbreviation Ok :: "'a \<Rightarrow> ('e, 'a) result" where
  "Ok \<equiv> Inr"

definition map_result :: "('a \<Rightarrow> 'b) \<Rightarrow> ('e, 'a) result \<Rightarrow> ('e, 'b) result" where
  "map_result f r = (case r of Inl e \<Rightarrow> Err e | Inr x \<Rightarrow> Ok (f x))"

definition bind_result :: "('e, 'a) result \<Rightarrow> ('a \<Rightarrow> ('e, 'b) result) \<Rightarrow> ('e, 'b) result" where
  "bind_result r f = (case r of Inl e \<Rightarrow> Err e | Inr x \<Rightarrow> f x)"

fun all_results :: "('e, 'a) result list \<Rightarrow> ('e, 'a list) result" where
  "all_results [] = Ok []"
| "all_results (r # rs) = bind_result r (\<lambda>x. map_result (Cons x) (all_results rs))"

lemma map_result_Ok [simp]: "map_result f r = Ok y \<longleftrightarrow> (\<exists>x. r = Ok x \<and> y = f x)"
  by (auto simp: map_result_def split: sum.splits)

lemma bind_result_Ok [simp]: "bind_result (Ok x) f = f x" "bind_result (Err e) f = Err e"
  by (simp_all add: bind_result_def)

lemma bind_result_eq_Ok: "bind_result r f = Ok y \<longleftrightarrow> (\<exists>x. r = Ok x \<and> f x = Ok y)"
  by (cases r) simp_all

lemma map_result_simps [simp]: "map_result f (Ok x) = Ok (f x)" "map_result f (Err e) = Err e"
  by (simp_all add: map_result_def)

lemma all_results_map: "(\<And>x. x \<in> set xs \<Longrightarrow> f x = Ok (g x)) \<Longrightarrow> all_results (map f xs) = Ok (map g xs)"
  by (induction xs) simp_all

text \<open>
  JSON values, as \<open>json.loads\<close> returns them: objects keep their member order.
\<close>

datatype jval =
    JNull
  | JBool bool
  | JInt int
  | JNum real
  | JStr string
  | JList "jval list"
  | JObj "(string \<times> jval) list"

subsection \<open>Dictionaries\<close>

definition dict_get :: "('k \<rightharpoonup> 'v) \<Rightarrow> 'k \<Rightarrow> 'v \<Rightarrow> 'v" where
  "dict_get m k d = (case m k of None \<Rightarrow> d | Some v \<Rightarrow> v)"

definition opt_or :: "'v option \<Rightarrow> 'v \<Rightarrow> 'v" where
  "opt_or x d = (case x of None \<Rightarrow> d | Some v \<Rightarrow> v)"

definition setdefault :: "('k \<rightharpoonup> 'v) \<Rightarrow> 'k \<Rightarrow> 'v \<Rightarrow> ('k \<rightharpoonup> 'v)" where
  "setdefault m k d = (if m k = None then m(k \<mapsto> d) else m)"

lemma dict_get_upd [simp]: "dict_get (m(k \<mapsto> v)) k' d = (if k' = k then v else dict_get m k' d)"
  by (simp add: dict_get_def)

lemma dict_get_empty [simp]: "dict_get Map.empty k d = d"
  by (simp add: dict_get_def)

lemma dict_get_Some: "m k = Some v \<Longrightarrow> dict_get m k d = v"
  by (simp add: dict_get_def)

lemma opt_or_simps [simp]: "opt_or None d = d" "opt_or (Some v) d = v"
  by (simp_all add: opt_or_def)

lemma dom_setdefault [simp]: "dom (setdefault m k d) = insert k (dom m)"
  by (auto simp: setdefault_def)

subsection \<open>Strings\<close>

text \<open>
  Strings are ASCII: \<open>py_lower\<close> and \<open>py_isspace\<close> agree with \<open>str.lower\<close> and
  \<open>str.isspace\<close> on code points below 128.
\<close>

definition code :: "char \<Rightarrow> nat" where
  "code c = of_char c"

definition py_isspace :: "char \<Rightarrow> bool" where
  "py_isspace c \<longleftrightarrow> code c \<in> {9, 10, 11, 12, 13, 28, 29, 30, 31, 32}"

definition lower_char :: "char \<Rightarrow> char" where
  "lower_char c = (if 65 \<le> code c \<and> code c \<le> 90 then char_of (code c + 32) else c)"

definition py_lower :: "string \<Rightarrow> string" where
  "py_lower s = map lower_char s"

definition py_lstrip :: "string \<Rightarrow> string" where
  "py_lstrip s = dropWhile py_isspace s"

definition py_rstrip :: "string \<Rightarrow> string" where
  "py_rstrip s = rev (dropWhile py_isspace (rev s))"

definition py_strip :: "string \<Rightarrow> string" where
  "py_strip s = py_rstrip (py_lstrip s)"

definition starts_with :: "'a list \<Rightarrow> 'a list \<Rightarrow> bool" where
  "starts_with p s \<longleftrightarrow> take (length p) s = p"

definition ends_with :: "'a list \<Rightarrow> 'a list \<Rightarrow> bool" where
  "ends_with p s \<longleftrightarrow> starts_with (rev p) (rev s)"

fun contains :: "'a list \<Rightarrow> 'a list \<Rightarrow> bool" where
  "contains p [] \<longleftrightarrow> p = []"
| "contains p (c # cs) \<longleftrightarrow> starts_with p (c # cs) \<or> contains p cs"

definition py_or :: "'a list \<Rightarrow> 'a list \<Rightarrow> 'a list" where
  "py_or a b = (if a = [] then b else a)"

fun split_first :: "char \<Rightarrow> string \<Rightarrow> (string \<times> string) option" where
  "split_first sep [] = None"
| "split_first sep (c # cs) =
     (if c = sep then Some ([], cs)
      else map_option (\<lambda>(a, b). (c # a, b)) (split_first sep cs))"

lemma py_or_simps [simp]: "py_or [] b = b" "a \<noteq> [] \<Longrightarrow> py_or a b = a"
  by (simp_all add: py_or_def)

lemma py_or_eq_Nil [simp]: "py_or a b = [] \<longleftrightarrow> a = [] \<and> b = []"
  by (simp add: py_or_def)

lemma starts_with_append [simp]: "starts_with p (p @ s)"
  by (simp add: starts_with_def)

lemma ends_with_append [simp]: "ends_with p (s @ p)"
  by (simp add: ends_with_def starts_with_def)

lemma starts_with_iff: "starts_with p s \<longleftrightarrow> (\<exists>t. s = p @ t)"
  unfolding starts_with_def by (metis append_eq_conv_conj append_take_drop_id)

lemma contains_iff: "contains p s \<longleftrightarrow> (\<exists>a b. s = a @ p @ b)"
proof (induction s)
  case Nil
  then show ?case by simp
next
  case (Cons c cs)
  show ?case
  proof
    assume "contains p (c # cs)"
    then consider "starts_with p (c # cs)" | "contains p cs" by auto
    then show "\<exists>a b. c # cs = a @ p @ b"
    proof cases
      case 1
      then obtain b where "c # cs = p @ b" by (auto simp: starts_with_iff)
      then have "c # cs = [] @ p @ b" by simp
      then show ?thesis by blast
    next
      case 2
      with Cons.IH obtain a b where "cs = a @ p @ b" by blast
      then have "c # cs = (c # a) @ p @ b" by simp
      then show ?thesis by blast
    qed
  next
    assume "\<exists>a b. c # cs = a @ p @ b"
    then obtain a b where ab: "c # cs = a @ p @ b" by blast
    show "contains p (c # cs)"
    proof (cases a)
      case Nil
      with ab have "starts_with p (c # cs)" by simp
      then show ?thesis by simp
    next
      case (Cons d ds)
      with ab have "cs = ds @ p @ b" by simp
      with Cons.IH show ?thesis by auto
    qed
  qed
qed

lemma split_first_Some:
  "split_first sep s = Some (a, b) \<Longrightarrow> s = a @ sep # b \<and> sep \<notin> set a"
  by (induction s arbitrary: a b) (auto split: if_splits)

lemma split_first_None: "split_first sep s = None \<longleftrightarrow> sep \<notin> set s"
  by (induction s) auto

fun join_with :: "string \<Rightarrow> string list \<Rightarrow> string" where
  "join_with sep [] = []"
| "join_with sep [x] = x"
| "join_with sep (x # y # ys) = x @ sep @ join_with sep (y # ys)"

text \<open>Texts without the separator are found again in their join.\<close>

lemma split_at_sep:
  "x @ c # a = y @ c # b \<Longrightarrow> c \<notin> set x \<Longrightarrow> c \<notin> set y \<Longrightarrow> x = y \<and> a = b"
proof (induction x arbitrary: y)
  case Nil
  then show ?case by (cases y) auto
next
  case (Cons d ds)
  then obtain ys where "y = d # ys" by (cases y) auto
  with Cons show ?case by auto
qed

lemma join_with_inj:
  assumes "length xs = length ys" "\<And>x. x \<in> set xs \<union> set ys \<Longrightarrow> sep \<notin> set x"
    and "join_with [sep] xs = join_with [sep] ys"
  shows "xs = ys"
  using assms
proof (induction xs ys rule: list_induct2)
  case (Cons x xs y ys)
  show ?case
  proof (cases xs)
    case Nil
    with Cons show ?thesis by simp
  next
    case (Cons x' xs')
    then obtain y' ys' where ys: "ys = y' # ys'" using \<open>length xs = length ys\<close> by (cases ys) auto
    have "x @ sep # join_with [sep] xs = y @ sep # join_with [sep] ys"
      using \<open>join_with [sep] (x # xs) = join_with [sep] (y # ys)\<close> Cons ys by simp
    moreover have "sep \<notin> set x" "sep \<notin> set y" using Cons.prems(1) by auto
    ultimately have "x = y \<and> join_with [sep] xs = join_with [sep] ys" by (rule split_at_sep)
    with Cons.IH Cons.prems(1) show ?thesis by auto
  qed
qed simp

lemma join_with_set: "set (join_with sep xs) \<subseteq> set sep \<union> \<Union> (set ` set xs)"
  by (induction sep xs rule: join_with.induct) auto

definition hex_digit :: "nat \<Rightarrow> char" where
  "hex_digit n = char_of (if n < 10 then 48 + n else 87 + n)"

text \<open>\<open>repr\<close> of a string and of a list of strings (ASCII escapes).\<close>

definition hex2 :: "nat \<Rightarrow> string" where
  "hex2 n = [hex_digit (n div 16), hex_digit (n mod 16)]"

definition repr_char :: "char \<Rightarrow> char \<Rightarrow> string" where
  "repr_char quote c =
     (if c = quote \<or> c = CHR 0x5C then [CHR 0x5C, c]
      else if code c = 10 then [CHR 0x5C, CHR ''n'']
      else if code c = 13 then [CHR 0x5C, CHR ''r'']
      else if code c = 9 then [CHR 0x5C, CHR ''t'']
      else if code c < 32 \<or> code c = 127 then [CHR 0x5C, CHR ''x''] @ hex2 (code c)
      else [c])"

definition py_repr :: "string \<Rightarrow> string" where
  "py_repr s =
     (let quote = (if CHR 0x27 \<in> set s \<and> CHR 0x22 \<notin> set s then CHR 0x22 else CHR 0x27)
      in [quote] @ concat (map (repr_char quote) s) @ [quote])"

definition py_repr_list :: "string list \<Rightarrow> string" where
  "py_repr_list xs = ''['' @ join_with '', '' (map py_repr xs) @ '']''"

definition upper_char :: "char \<Rightarrow> char" where
  "upper_char c = (if 97 \<le> code c \<and> code c \<le> 122 then char_of (code c - 32) else c)"

definition py_upper :: "string \<Rightarrow> string" where
  "py_upper s = map upper_char s"

subsection \<open>Lists\<close>

text \<open>Decimal digits, as \<open>str\<close> renders an integer.\<close>

fun nat_digits :: "nat \<Rightarrow> string" where
  "nat_digits n =
     (if n < 10 then [char_of (48 + n)] else nat_digits (n div 10) @ [char_of (48 + n mod 10)])"

declare nat_digits.simps [simp del]

definition py_str_int :: "int \<Rightarrow> string" where
  "py_str_int i = (if i < 0 then CHR ''-'' # nat_digits (nat (- i)) else nat_digits (nat i))"

text \<open>The elements strictly after the first occurrence of \<open>x\<close> (\<open>xs[xs.index(x)+1:]\<close>).\<close>

definition after :: "'a \<Rightarrow> 'a list \<Rightarrow> 'a list" where
  "after x xs = tl (dropWhile (\<lambda>y. y \<noteq> x) xs)"

lemma after_Nil [simp]: "after x [] = []"
  by (simp add: after_def)

lemma after_Cons [simp]: "after x (y # ys) = (if y = x then ys else after x ys)"
  by (simp add: after_def)

lemma set_after: "set (after x xs) \<subseteq> set xs"
  by (induction xs) auto

lemma distinct_after: "distinct xs \<Longrightarrow> distinct (after x xs)"
  by (induction xs) auto

lemma notin_after: "distinct xs \<Longrightarrow> x \<notin> set (after x xs)"
proof (induction xs)
  case (Cons y ys)
  then show ?case using set_after [of x ys] by auto
qed simp

lemma after_append: "x \<notin> set xs \<Longrightarrow> after x (xs @ x # ys) = ys"
  by (induction xs) auto

lemma after_notin: "x \<notin> set xs \<Longrightarrow> after x xs = []"
  by (induction xs) auto

lemma after_split: "x \<in> set xs \<Longrightarrow> \<exists>ys. x \<notin> set ys \<and> xs = ys @ x # after x xs"
proof (induction xs)
  case (Cons y ys)
  show ?case
  proof (cases "y = x")
    case True
    then have "y # ys = [] @ x # after x (y # ys)" by simp
    then show ?thesis by (intro exI [of _ "[]"]) simp
  next
    case False
    with Cons obtain zs where "x \<notin> set zs" "ys = zs @ x # after x ys" by auto
    with False have "x \<notin> set (y # zs) \<and> y # ys = (y # zs) @ x # after x (y # ys)" by simp
    then show ?thesis by blast
  qed
qed simp

text \<open>Keeping the first of each key, as a loop over a \<open>seen\<close> set does.\<close>

fun dedupe_key :: "('a \<Rightarrow> 'k) \<Rightarrow> 'k set \<Rightarrow> 'a list \<Rightarrow> 'a list" where
  "dedupe_key f seen [] = []"
| "dedupe_key f seen (x # xs) =
     (if f x \<in> seen then dedupe_key f seen xs
      else x # dedupe_key f (insert (f x) seen) xs)"

lemma dedupe_key_keys: "f ` set (dedupe_key f seen xs) = f ` set xs - seen"
  by (induction xs arbitrary: seen) auto

lemma dedupe_key_subset: "set (dedupe_key f seen xs) \<subseteq> set xs"
  by (induction xs arbitrary: seen) (auto split: if_splits)

lemma dedupe_key_distinct: "distinct (map f (dedupe_key f seen xs))"
proof (induction xs arbitrary: seen)
  case (Cons x xs)
  have "f x \<notin> f ` set (dedupe_key f (insert (f x) seen) xs)"
    by (simp add: dedupe_key_keys)
  with Cons show ?case by simp
qed simp

lemma dedupe_key_hd: "xs \<noteq> [] \<Longrightarrow> f (hd xs) \<notin> seen \<Longrightarrow> hd (dedupe_key f seen xs) = hd xs"
  by (cases xs) auto

lemma dedupe_key_id:
  "distinct (map f xs) \<Longrightarrow> f ` set xs \<inter> seen = {} \<Longrightarrow> dedupe_key f seen xs = xs"
  by (induction xs arbitrary: seen) auto

subsection \<open>Sums over lists\<close>

lemma sum_list_nonneg_real: "(\<And>x. x \<in> set xs \<Longrightarrow> 0 \<le> f x) \<Longrightarrow> 0 \<le> (\<Sum>x\<leftarrow>xs. f x :: real)"
  by (induction xs) (auto intro: add_nonneg_nonneg)

lemma sum_list_le_length:
  "(\<And>x. x \<in> set xs \<Longrightarrow> f x \<le> (1::real)) \<Longrightarrow> (\<Sum>x\<leftarrow>xs. f x) \<le> real (length xs)"
proof (induction xs)
  case (Cons a xs)
  then have "f a \<le> 1" "(\<Sum>x\<leftarrow>xs. f x) \<le> real (length xs)" by auto
  then show ?case by simp
qed simp

end
