(* ===== verification/Workflow.thy ===== *)
theory Workflow
  imports Prelude
begin

text \<open>
  The workflow templates (\<open>mas/workflow_templates.py\<close>): the two phase sequences, the
  project types with their aliases, template lookup and the phases downstream of a phase.
  Phase names and project types are strings, as in the code; a value that is neither a
  string nor \<open>None\<close> is the third constructor of \<open>pt_arg\<close>.
\<close>

subsection \<open>Phase sequences and project types\<close>

definition DEFAULT_PROJECT_TYPE :: string where
  "DEFAULT_PROJECT_TYPE = ''strategic_audit''"

definition TECHNOLOGY_READINESS_PROJECT_TYPE :: string where
  "TECHNOLOGY_READINESS_PROJECT_TYPE = ''technology_readiness''"

definition STRATEGIC_AUDIT_PHASE_SEQUENCE :: "phase list" where
  "STRATEGIC_AUDIT_PHASE_SEQUENCE =
     [''classify'', ''hypotheses'', ''gauntlet'', ''audit'', ''strategy'', ''sqi'',
      ''monitor'', ''report'']"

definition TECHNOLOGY_READINESS_PHASE_SEQUENCE :: "phase list" where
  "TECHNOLOGY_READINESS_PHASE_SEQUENCE =
     [''scope'', ''scientific_inventory'', ''trl_diagnosis'',
      ''research_industry_alignment'', ''ip_protection_axis'',
      ''next_level_recommendations'', ''technical_validation_plan'',
      ''industrial_transfer_plan'', ''readiness_roadmap'', ''executive_summary'']"

datatype pt_arg = PT_None | PT_Str string | PT_Other

text \<open>The exception \<open>ValueError\<close> of an unsupported project type.\<close>

datatype workflow_error = Unsupported_project_type pt_arg

fun PROJECT_TYPE_ALIASES :: "pt_arg \<Rightarrow> string option" where
  "PROJECT_TYPE_ALIASES PT_None = Some DEFAULT_PROJECT_TYPE"
| "PROJECT_TYPE_ALIASES (PT_Str k) =
     map_of
       [('''', DEFAULT_PROJECT_TYPE),
        (''default'', DEFAULT_PROJECT_TYPE),
        (''strategic'', DEFAULT_PROJECT_TYPE),
        (''strategic_audit'', DEFAULT_PROJECT_TYPE),
        (''ai_readiness'', ''ai_readiness''),
        (''automation_roi'', ''automation_roi''),
        (''technology_readiness'', TECHNOLOGY_READINESS_PROJECT_TYPE),
        (''technology_readiness_transfer'', TECHNOLOGY_READINESS_PROJECT_TYPE),
        (''technology_readiness_and_transfer'', TECHNOLOGY_READINESS_PROJECT_TYPE)] k"
| "PROJECT_TYPE_ALIASES PT_Other = None"

subsection \<open>Templates\<close>

record workflow_template =
  template_project_type :: string
  template_id :: string
  label :: string
  phase_sequence :: "phase list"
  prompt_dir :: string

definition WORKFLOW_TEMPLATES :: "(string \<times> workflow_template) list" where
  "WORKFLOW_TEMPLATES =
     [(DEFAULT_PROJECT_TYPE,
       \<lparr>template_project_type = DEFAULT_PROJECT_TYPE, template_id = DEFAULT_PROJECT_TYPE,
        label = ''Strategic Audit'', phase_sequence = STRATEGIC_AUDIT_PHASE_SEQUENCE,
        prompt_dir = ''prompts/phases''\<rparr>),
      (''ai_readiness'',
       \<lparr>template_project_type = ''ai_readiness'', template_id = ''ai_readiness'',
        label = ''AI Readiness Audit'', phase_sequence = STRATEGIC_AUDIT_PHASE_SEQUENCE,
        prompt_dir = ''prompts/phases''\<rparr>),
      (''automation_roi'',
       \<lparr>template_project_type = ''automation_roi'', template_id = ''automation_roi'',
        label = ''Automation ROI Audit'', phase_sequence = STRATEGIC_AUDIT_PHASE_SEQUENCE,
        prompt_dir = ''prompts/phases''\<rparr>),
      (TECHNOLOGY_READINESS_PROJECT_TYPE,
       \<lparr>template_project_type = TECHNOLOGY_READINESS_PROJECT_TYPE,
        template_id = TECHNOLOGY_READINESS_PROJECT_TYPE,
        label = ''Technology Readiness & Transfer Audit'',
        phase_sequence = TECHNOLOGY_READINESS_PHASE_SEQUENCE,
        prompt_dir = ''prompts/technology_readiness''\<rparr>)]"

definition normalize_project_type :: "pt_arg \<Rightarrow> (workflow_error, string) result" where
  "normalize_project_type pt =
     (let key = (case pt of PT_Str s \<Rightarrow> PT_Str (py_lower (py_strip s)) | _ \<Rightarrow> pt)
      in case PROJECT_TYPE_ALIASES key of
           None \<Rightarrow> Err (Unsupported_project_type pt)
         | Some normalized \<Rightarrow>
             if map_of WORKFLOW_TEMPLATES normalized = None
             then Err (Unsupported_project_type pt) else Ok normalized)"

definition get_workflow_template :: "pt_arg \<Rightarrow> (workflow_error, workflow_template) result" where
  "get_workflow_template pt =
     (case normalize_project_type pt of
        Inl e \<Rightarrow> Err e
      | Inr normalized \<Rightarrow>
          (case map_of WORKFLOW_TEMPLATES normalized of
             None \<Rightarrow> Err (Unsupported_project_type pt)
           | Some t \<Rightarrow> Ok t))"

definition list_workflow_templates :: "(workflow_error, workflow_template) result list" where
  "list_workflow_templates =
     map (\<lambda>p. get_workflow_template (PT_Str p))
       [DEFAULT_PROJECT_TYPE, ''ai_readiness'', ''automation_roi'',
        TECHNOLOGY_READINESS_PROJECT_TYPE]"

definition get_workflow_phase_sequence :: "pt_arg \<Rightarrow> (workflow_error, phase list) result" where
  "get_workflow_phase_sequence pt =
     (case get_workflow_template pt of Inl e \<Rightarrow> Err e | Inr t \<Rightarrow> Ok (phase_sequence t))"

definition get_downstream_phases :: "pt_arg \<Rightarrow> phase \<Rightarrow> (workflow_error, phase list) result" where
  "get_downstream_phases pt changed =
     (case get_workflow_phase_sequence pt of
        Inl e \<Rightarrow> Err e
      | Inr sequence \<Rightarrow>
          if changed \<notin> set sequence then Ok [] else Ok (after changed sequence))"

definition all_editable_phases :: "phase set" where
  "all_editable_phases = (\<Union>(_, t) \<in> set WORKFLOW_TEMPLATES. set (phase_sequence t))"

subsection \<open>Lemmas\<close>

lemmas workflow_consts =
  DEFAULT_PROJECT_TYPE_def TECHNOLOGY_READINESS_PROJECT_TYPE_def
  STRATEGIC_AUDIT_PHASE_SEQUENCE_def TECHNOLOGY_READINESS_PHASE_SEQUENCE_def

lemma distinct_STRATEGIC [simp]: "distinct STRATEGIC_AUDIT_PHASE_SEQUENCE"
  by (simp add: STRATEGIC_AUDIT_PHASE_SEQUENCE_def)

lemma distinct_TECHNOLOGY [simp]: "distinct TECHNOLOGY_READINESS_PHASE_SEQUENCE"
  by (simp add: TECHNOLOGY_READINESS_PHASE_SEQUENCE_def)

lemma WORKFLOW_TEMPLATES_wf:
  "map_of WORKFLOW_TEMPLATES k = Some t \<Longrightarrow>
     template_project_type t = k \<and> phase_sequence t \<noteq> [] \<and> distinct (phase_sequence t) \<and>
     (phase_sequence t = STRATEGIC_AUDIT_PHASE_SEQUENCE \<or>
      phase_sequence t = TECHNOLOGY_READINESS_PHASE_SEQUENCE)"
  by (auto simp: WORKFLOW_TEMPLATES_def workflow_consts split: if_splits)

lemma alias_registered:
  "PROJECT_TYPE_ALIASES k = Some p \<Longrightarrow>
     map_of WORKFLOW_TEMPLATES p \<noteq> None \<and> PROJECT_TYPE_ALIASES (PT_Str p) = Some p \<and>
     py_lower (py_strip p) = p"
  by (cases k rule: PROJECT_TYPE_ALIASES.cases)
     (auto simp: WORKFLOW_TEMPLATES_def workflow_consts py_lower_def py_strip_def py_rstrip_def
        py_lstrip_def py_isspace_def lower_char_def code_def split: if_splits)

declare PROJECT_TYPE_ALIASES.simps [simp del]

lemmas alias_template = alias_registered [THEN conjunct1]

lemma normalize_Ok_iff:
  "normalize_project_type pt = Ok p \<longleftrightarrow>
     PROJECT_TYPE_ALIASES
       (case pt of PT_Str s \<Rightarrow> PT_Str (py_lower (py_strip s)) | _ \<Rightarrow> pt) = Some p"
  by (auto simp: normalize_project_type_def Let_def dest: alias_template split: option.splits)

lemma normalize_registered:
  "normalize_project_type pt = Ok p \<Longrightarrow> map_of WORKFLOW_TEMPLATES p \<noteq> None"
  using alias_registered normalize_Ok_iff by blast

lemma normalize_idem:
  assumes "normalize_project_type pt = Ok p"
  shows "normalize_project_type (PT_Str p) = Ok p"
proof -
  obtain k where "PROJECT_TYPE_ALIASES k = Some p"
    using assms normalize_Ok_iff by blast
  then show ?thesis by (simp add: normalize_Ok_iff alias_registered)
qed

lemma get_sequence_Ok:
  "get_workflow_phase_sequence pt = Ok ps \<Longrightarrow>
     ps \<noteq> [] \<and> distinct ps \<and>
     (ps = STRATEGIC_AUDIT_PHASE_SEQUENCE \<or> ps = TECHNOLOGY_READINESS_PHASE_SEQUENCE)"
  unfolding get_workflow_phase_sequence_def get_workflow_template_def
  by (auto dest: WORKFLOW_TEMPLATES_wf split: sum.splits option.splits)

lemma get_sequence_Ok_iff:
  "(\<exists>ps. get_workflow_phase_sequence pt = Ok ps) \<longleftrightarrow> (\<exists>p. normalize_project_type pt = Ok p)"
  unfolding get_workflow_phase_sequence_def get_workflow_template_def
  using normalize_registered by (fastforce split: sum.splits option.splits)

lemma sequence_of_default [simp]:
  "get_workflow_phase_sequence (PT_Str ''strategic_audit'') = Ok STRATEGIC_AUDIT_PHASE_SEQUENCE"
  by (simp add: get_workflow_phase_sequence_def get_workflow_template_def
      normalize_project_type_def PROJECT_TYPE_ALIASES.simps WORKFLOW_TEMPLATES_def workflow_consts py_lower_def
      py_strip_def py_rstrip_def py_lstrip_def py_isspace_def lower_char_def code_def)

lemma sequence_of_technology [simp]:
  "get_workflow_phase_sequence (PT_Str ''technology_readiness'') =
     Ok TECHNOLOGY_READINESS_PHASE_SEQUENCE"
  by (simp add: get_workflow_phase_sequence_def get_workflow_template_def
      normalize_project_type_def PROJECT_TYPE_ALIASES.simps WORKFLOW_TEMPLATES_def workflow_consts py_lower_def
      py_strip_def py_rstrip_def py_lstrip_def py_isspace_def lower_char_def code_def)

lemma downstream_Ok:
  assumes "get_workflow_phase_sequence pt = Ok ps"
  shows "get_downstream_phases pt p = Ok (after p ps)"
  using assms after_notin by (fastforce simp: get_downstream_phases_def)

lemma downstream_distinct:
  assumes "get_workflow_phase_sequence pt = Ok ps" "get_downstream_phases pt p = Ok ds"
  shows "distinct ds \<and> set ds \<subseteq> set ps \<and> p \<notin> set ds"
proof -
  have "distinct ps" "ds = after p ps"
    using assms get_sequence_Ok downstream_Ok by fastforce+
  then show ?thesis by (simp add: distinct_after set_after notin_after)
qed

lemma all_editable_phases_eq:
  "all_editable_phases =
     set STRATEGIC_AUDIT_PHASE_SEQUENCE \<union> set TECHNOLOGY_READINESS_PHASE_SEQUENCE"
  by (auto simp: all_editable_phases_def WORKFLOW_TEMPLATES_def)

lemma list_workflow_templates_Ok:
  "list_workflow_templates = map (\<lambda>(_, t). Ok t) WORKFLOW_TEMPLATES"
  by (simp add: list_workflow_templates_def get_workflow_template_def
      normalize_project_type_def PROJECT_TYPE_ALIASES.simps WORKFLOW_TEMPLATES_def workflow_consts py_lower_def
      py_strip_def py_rstrip_def py_lstrip_def py_isspace_def lower_char_def code_def)

end
