(* ===== verification/Policy.thy ===== *)
theory Policy
  imports Prelude
begin

text \<open>
  The deterministic enforcement layer (\<open>mas/policy.py\<close>): reversibility classes, budget
  caps and consumption, the kill switch, the three-state breaker and the gate that combines
  them. The functions of the module that take \<open>state\<close> use only the attributes of
  \<open>policy_state\<close>; they are defined on its scheme, so they apply to the project state, which
  extends it. Clock reads (\<open>time.monotonic\<close>, \<open>time.time\<close>) are arguments. The reasons the
  code renders as f-strings are constructors that carry the values rendered.
\<close>

subsection \<open>Reversibility\<close>

datatype reversibility =
  READ_ONLY | REVERSIBLE_INTERNAL | IRREVERSIBLE_INTERNAL | IRREVERSIBLE_EXTERNAL

fun tier :: "reversibility \<Rightarrow> nat" where
  "tier READ_ONLY = 0"
| "tier REVERSIBLE_INTERNAL = 1"
| "tier IRREVERSIBLE_INTERNAL = 2"
| "tier IRREVERSIBLE_EXTERNAL = 3"

text \<open>The order of the classes by blast radius.\<close>

instantiation reversibility :: linorder
begin

definition less_eq_reversibility :: "reversibility \<Rightarrow> reversibility \<Rightarrow> bool" where
  "less_eq_reversibility a b \<longleftrightarrow> tier a \<le> tier b"

definition less_reversibility :: "reversibility \<Rightarrow> reversibility \<Rightarrow> bool" where
  "less_reversibility a b \<longleftrightarrow> tier a < tier b"

instance
proof
  fix a b :: reversibility
  assume "a \<le> b" "b \<le> a"
  then show "a = b" by (cases a; cases b) (simp_all add: less_eq_reversibility_def)
qed (auto simp: less_eq_reversibility_def less_reversibility_def)

end

record action_descriptor =
  ad_name :: string
  ad_reversibility :: reversibility
  ad_description :: string
  requires_approval :: bool
  blast_radius_note :: string

fun blast_radius_note_of :: "reversibility \<Rightarrow> string" where
  "blast_radius_note_of READ_ONLY = ''no state change''"
| "blast_radius_note_of REVERSIBLE_INTERNAL = ''internal write, undoable''"
| "blast_radius_note_of IRREVERSIBLE_INTERNAL =
     ''internal write, not undoable without manual recovery''"
| "blast_radius_note_of IRREVERSIBLE_EXTERNAL = ''affects external systems or parties''"

definition classify_action ::
  "string \<Rightarrow> reversibility \<Rightarrow> string \<Rightarrow> string \<Rightarrow> action_descriptor" where
  "classify_action name rvs risk_classification description =
     \<lparr>ad_name = name, ad_reversibility = rvs, ad_description = description,
      requires_approval =
        (if rvs = IRREVERSIBLE_EXTERNAL then True
         else if rvs = IRREVERSIBLE_INTERNAL
              then risk_classification \<in> {''high_risk'', ''limited_risk''}
              else False),
      blast_radius_note = blast_radius_note_of rvs\<rparr>"

definition PHASE_ACTION_MAP :: "string \<rightharpoonup> reversibility" where
  "PHASE_ACTION_MAP = map_of
     [(''classify'', REVERSIBLE_INTERNAL), (''hypotheses'', REVERSIBLE_INTERNAL),
      (''gauntlet'', REVERSIBLE_INTERNAL), (''audit'', REVERSIBLE_INTERNAL),
      (''strategy'', REVERSIBLE_INTERNAL), (''sqi'', REVERSIBLE_INTERNAL),
      (''monitor'', REVERSIBLE_INTERNAL), (''report'', REVERSIBLE_INTERNAL),
      (''scope'', REVERSIBLE_INTERNAL), (''scientific_inventory'', REVERSIBLE_INTERNAL),
      (''trl_diagnosis'', REVERSIBLE_INTERNAL),
      (''research_industry_alignment'', REVERSIBLE_INTERNAL),
      (''ip_protection_axis'', REVERSIBLE_INTERNAL),
      (''next_level_recommendations'', REVERSIBLE_INTERNAL),
      (''technical_validation_plan'', REVERSIBLE_INTERNAL),
      (''industrial_transfer_plan'', REVERSIBLE_INTERNAL),
      (''readiness_roadmap'', REVERSIBLE_INTERNAL),
      (''executive_summary'', REVERSIBLE_INTERNAL),
      (''seal_project'', IRREVERSIBLE_INTERNAL),
      (''write_calibration_snapshot'', IRREVERSIBLE_INTERNAL)]"

subsection \<open>Budgets\<close>

record budget_caps =
  max_total_tokens :: int
  max_total_cost_usd :: real
  max_wall_clock_seconds :: int
  max_llm_calls :: int
  max_phase_reentries :: int
  max_consecutive_failures :: int

record budget_consumed =
  total_tokens :: int
  total_cost_usd :: real
  wall_clock_started_at :: "time option"
  llm_call_count :: int
  phase_reentry_counts :: "string \<rightharpoonup> int"
  consecutive_failures :: int

definition wall_clock_elapsed :: "budget_consumed \<Rightarrow> time \<Rightarrow> real" where
  "wall_clock_elapsed c monotonic =
     (case wall_clock_started_at c of None \<Rightarrow> 0 | Some t \<Rightarrow> monotonic - t)"

datatype breach =
    Breach_total_tokens int
  | Breach_total_cost real
  | Breach_wall_clock real int
  | Breach_llm_calls int
  | Breach_consecutive_failures int

record budget_check_result =
  bcr_allowed :: bool
  bcr_breach :: "breach option"

definition check_budget ::
  "budget_consumed \<Rightarrow> budget_caps \<Rightarrow> int \<Rightarrow> real \<Rightarrow> time \<Rightarrow> budget_check_result" where
  "check_budget consumed caps incremental_tokens incremental_cost_usd monotonic =
     (let elapsed = wall_clock_elapsed consumed monotonic;
          refuse = (\<lambda>b. \<lparr>bcr_allowed = False, bcr_breach = Some b\<rparr>)
      in if total_tokens consumed + incremental_tokens > max_total_tokens caps
         then refuse (Breach_total_tokens (max_total_tokens caps))
         else if total_cost_usd consumed + incremental_cost_usd > max_total_cost_usd caps
         then refuse (Breach_total_cost (max_total_cost_usd caps))
         else if elapsed > of_int (max_wall_clock_seconds caps)
         then refuse (Breach_wall_clock elapsed (max_wall_clock_seconds caps))
         else if llm_call_count consumed \<ge> max_llm_calls caps
         then refuse (Breach_llm_calls (max_llm_calls caps))
         else if consecutive_failures consumed \<ge> max_consecutive_failures caps
         then refuse (Breach_consecutive_failures (consecutive_failures consumed))
         else \<lparr>bcr_allowed = True, bcr_breach = None\<rparr>)"

definition record_consumption :: "budget_consumed \<Rightarrow> int \<Rightarrow> real \<Rightarrow> bool \<Rightarrow> budget_consumed" where
  "record_consumption consumed tokens cost_usd success =
     consumed\<lparr>total_tokens := total_tokens consumed + tokens,
       total_cost_usd := total_cost_usd consumed + cost_usd,
       llm_call_count := llm_call_count consumed + 1,
       consecutive_failures := (if success then 0 else consecutive_failures consumed + 1)\<rparr>"

subsection \<open>The three-state breaker\<close>

datatype breaker_state = CLOSED | DEGRADED | OPEN

fun breaker_value :: "breaker_state \<Rightarrow> string" where
  "breaker_value CLOSED = ''closed''"
| "breaker_value DEGRADED = ''degraded''"
| "breaker_value OPEN = ''open''"

record phase_breaker =
  breaker_state :: breaker_state
  failure_count :: int
  last_failure_at :: "time option"
  opened_at :: "time option"

definition new_phase_breaker :: phase_breaker where
  "new_phase_breaker =
     \<lparr>breaker_state = CLOSED, failure_count = 0, last_failure_at = None, opened_at = None\<rparr>"

definition evaluate_breaker ::
  "phase_breaker \<Rightarrow> bool \<Rightarrow> int \<Rightarrow> int \<Rightarrow> time \<Rightarrow> phase_breaker" where
  "evaluate_breaker breaker success degrade_threshold open_threshold now =
     (if success
      then if breaker_state breaker = DEGRADED
           then breaker\<lparr>breaker_state := CLOSED, failure_count := 0\<rparr> else breaker
      else
        let b = breaker\<lparr>failure_count := failure_count breaker + 1, last_failure_at := Some now\<rparr>
        in if failure_count b \<ge> open_threshold
           then if breaker_state b \<noteq> OPEN
                then b\<lparr>breaker_state := OPEN, opened_at := Some now\<rparr> else b
           else if failure_count b \<ge> degrade_threshold
           then b\<lparr>breaker_state := DEGRADED\<rparr>
           else b)"

definition reset_breaker :: "phase_breaker \<Rightarrow> phase_breaker" where
  "reset_breaker breaker =
     breaker\<lparr>breaker_state := CLOSED, failure_count := 0, opened_at := None\<rparr>"

subsection \<open>The attributes of a project state the layer uses\<close>

text \<open>The plain-dict form of the caps and the consumption: a key may be absent.\<close>

record caps_dict =
  d_max_total_tokens :: "int option"
  d_max_total_cost_usd :: "real option"
  d_max_wall_clock_seconds :: "int option"
  d_max_llm_calls :: "int option"
  d_max_phase_reentries :: "int option"
  d_max_consecutive_failures :: "int option"

record consumed_dict =
  d_total_tokens :: "int option"
  d_total_cost_usd :: "real option"
  d_wall_clock_started_at :: "time option"
  d_llm_call_count :: "int option"
  d_phase_reentry_counts :: "(string \<rightharpoonup> int) option"
  d_consecutive_failures :: "int option"

record audit_event =
  ev_ts :: time
  ev_type :: string
  ev_phase :: string
  ev_details :: "(string \<times> jval) list"

record policy_state =
  current_phase :: phase
  kill_switch_active :: bool
  kill_switch_reason :: string
  kill_switch_triggered_by :: string
  kill_switch_triggered_at :: "time option"
  risk_classification :: string
  budget_caps_of :: "caps_dict option"
  budget_consumed_of :: "consumed_dict option"
  approvals_granted :: "string \<rightharpoonup> (string \<times> jval) list"
  phase_breakers :: "string \<rightharpoonup> (string \<times> jval) list"
  policy_audit_log :: "audit_event list option"

definition check_kill_switch :: "'a policy_state_scheme \<Rightarrow> bool" where
  "check_kill_switch s = kill_switch_active s"

definition trigger_kill_switch ::
  "'a policy_state_scheme \<Rightarrow> string \<Rightarrow> string \<Rightarrow> time \<Rightarrow> 'a policy_state_scheme" where
  "trigger_kill_switch s reason triggered_by now =
     s\<lparr>kill_switch_active := True, kill_switch_reason := reason,
       kill_switch_triggered_by := triggered_by, kill_switch_triggered_at := Some now\<rparr>"

definition caps_from_dict :: "caps_dict \<Rightarrow> budget_caps" where
  "caps_from_dict d =
     \<lparr>max_total_tokens = opt_or (d_max_total_tokens d) 2000000,
      max_total_cost_usd = opt_or (d_max_total_cost_usd d) 25,
      max_wall_clock_seconds = opt_or (d_max_wall_clock_seconds d) 3600,
      max_llm_calls = opt_or (d_max_llm_calls d) 100,
      max_phase_reentries = opt_or (d_max_phase_reentries d) 3,
      max_consecutive_failures = opt_or (d_max_consecutive_failures d) 3\<rparr>"

definition consumed_from_dict :: "consumed_dict \<Rightarrow> budget_consumed" where
  "consumed_from_dict d =
     \<lparr>total_tokens = opt_or (d_total_tokens d) 0,
      total_cost_usd = opt_or (d_total_cost_usd d) 0,
      wall_clock_started_at = d_wall_clock_started_at d,
      llm_call_count = opt_or (d_llm_call_count d) 0,
      phase_reentry_counts = opt_or (d_phase_reentry_counts d) Map.empty,
      consecutive_failures = opt_or (d_consecutive_failures d) 0\<rparr>"

subsection \<open>The gate\<close>

datatype gate_reason =
    Kill_switch_active string
  | Budget_breach "breach option"
  | Breaker_open_for string
  | Requires_HITL_approval string reversibility string

record gate_decision =
  gd_allowed :: bool
  gd_reason :: "gate_reason option"
  gd_requires_hitl_approval :: bool
  gd_breach_category :: "string option"

definition policy_gate ::
  "'a policy_state_scheme \<Rightarrow> string \<Rightarrow> reversibility \<Rightarrow> int \<Rightarrow> real \<Rightarrow> time \<Rightarrow> gate_decision" where
  "policy_gate s action rvs incremental_tokens incremental_cost_usd monotonic =
     (if check_kill_switch s
      then \<lparr>gd_allowed = False, gd_reason = Some (Kill_switch_active (kill_switch_reason s)),
            gd_requires_hitl_approval = False, gd_breach_category = Some ''kill_switch''\<rparr>
      else
        let budget =
              (case (budget_consumed_of s, budget_caps_of s) of
                 (Some cd, Some kd) \<Rightarrow>
                   check_budget (consumed_from_dict cd) (caps_from_dict kd)
                     incremental_tokens incremental_cost_usd monotonic
               | _ \<Rightarrow> \<lparr>bcr_allowed = True, bcr_breach = None\<rparr>)
        in if \<not> bcr_allowed budget
           then \<lparr>gd_allowed = False, gd_reason = Some (Budget_breach (bcr_breach budget)),
                 gd_requires_hitl_approval = False, gd_breach_category = Some ''budget''\<rparr>
           else if (case phase_breakers s action of
                      None \<Rightarrow> False
                    | Some bd \<Rightarrow> map_of bd ''state'' = Some (JStr (breaker_value OPEN)))
           then \<lparr>gd_allowed = False, gd_reason = Some (Breaker_open_for action),
                 gd_requires_hitl_approval = False, gd_breach_category = Some ''breaker''\<rparr>
           else
             let risk = risk_classification s;
                 descriptor = classify_action action rvs risk ''''
             in if requires_approval descriptor \<and> approvals_granted s action = None
                then \<lparr>gd_allowed = False,
                      gd_reason = Some (Requires_HITL_approval action rvs risk),
                      gd_requires_hitl_approval = True,
                      gd_breach_category = Some ''approval''\<rparr>
                else \<lparr>gd_allowed = True, gd_reason = None,
                      gd_requires_hitl_approval = False, gd_breach_category = None\<rparr>)"

definition record_consumption_dict ::
  "consumed_dict \<Rightarrow> int \<Rightarrow> real \<Rightarrow> bool \<Rightarrow> consumed_dict" where
  "record_consumption_dict d tokens cost_usd success =
     d\<lparr>d_total_tokens := Some (opt_or (d_total_tokens d) 0 + tokens),
       d_total_cost_usd := Some (opt_or (d_total_cost_usd d) 0 + cost_usd),
       d_llm_call_count := Some (opt_or (d_llm_call_count d) 0 + 1),
       d_consecutive_failures :=
         Some (if success then 0 else opt_or (d_consecutive_failures d) 0 + 1)\<rparr>"

definition record_consumption_to_state ::
  "'a policy_state_scheme \<Rightarrow> int \<Rightarrow> real \<Rightarrow> bool \<Rightarrow> 'a policy_state_scheme" where
  "record_consumption_to_state s tokens cost_usd success =
     (case budget_consumed_of s of
        None \<Rightarrow> s
      | Some d \<Rightarrow>
          s\<lparr>budget_consumed_of := Some (record_consumption_dict d tokens cost_usd success)\<rparr>)"

definition start_wall_clock :: "'a policy_state_scheme \<Rightarrow> time \<Rightarrow> 'a policy_state_scheme" where
  "start_wall_clock s monotonic =
     (case budget_consumed_of s of
        None \<Rightarrow> s
      | Some d \<Rightarrow>
          (case d_wall_clock_started_at d of
             Some _ \<Rightarrow> s
           | None \<Rightarrow>
               s\<lparr>budget_consumed_of := Some (d\<lparr>d_wall_clock_started_at := Some monotonic\<rparr>)\<rparr>))"

definition log_policy_event ::
  "'a policy_state_scheme \<Rightarrow> string \<Rightarrow> (string \<times> jval) list \<Rightarrow> time \<Rightarrow> 'a policy_state_scheme" where
  "log_policy_event s event_type details now =
     (case policy_audit_log s of
        None \<Rightarrow> s
      | Some entries \<Rightarrow>
          s\<lparr>policy_audit_log := Some (entries @
            [\<lparr>ev_ts = now, ev_type = event_type, ev_phase = current_phase s,
              ev_details = details\<rparr>])\<rparr>)"

subsection \<open>What the gate decides\<close>

definition within_caps :: "budget_consumed \<Rightarrow> budget_caps \<Rightarrow> int \<Rightarrow> real \<Rightarrow> time \<Rightarrow> bool" where
  "within_caps c k tokens cost monotonic \<longleftrightarrow>
     total_tokens c + tokens \<le> max_total_tokens k \<and>
     total_cost_usd c + cost \<le> max_total_cost_usd k \<and>
     wall_clock_elapsed c monotonic \<le> of_int (max_wall_clock_seconds k) \<and>
     llm_call_count c < max_llm_calls k \<and>
     consecutive_failures c < max_consecutive_failures k"

definition budget_permits :: "'a policy_state_scheme \<Rightarrow> int \<Rightarrow> real \<Rightarrow> time \<Rightarrow> bool" where
  "budget_permits s tokens cost monotonic \<longleftrightarrow>
     (case (budget_consumed_of s, budget_caps_of s) of
        (Some cd, Some kd) \<Rightarrow>
          within_caps (consumed_from_dict cd) (caps_from_dict kd) tokens cost monotonic
      | _ \<Rightarrow> True)"

definition breaker_open :: "'a policy_state_scheme \<Rightarrow> string \<Rightarrow> bool" where
  "breaker_open s action \<longleftrightarrow>
     (\<exists>bd. phase_breakers s action = Some bd \<and> map_of bd ''state'' = Some (JStr ''open''))"

definition approval_missing :: "'a policy_state_scheme \<Rightarrow> string \<Rightarrow> reversibility \<Rightarrow> bool" where
  "approval_missing s action rvs \<longleftrightarrow>
     action \<notin> dom (approvals_granted s) \<and>
     (rvs = IRREVERSIBLE_EXTERNAL \<or>
      rvs = IRREVERSIBLE_INTERNAL \<and> risk_classification s \<in> {''high_risk'', ''limited_risk''})"

lemma check_budget_allowed [simp]:
  "bcr_allowed (check_budget c k tokens cost m) \<longleftrightarrow> within_caps c k tokens cost m"
  by (auto simp: check_budget_def within_caps_def Let_def)

lemma check_budget_breach:
  "bcr_breach (check_budget c k tokens cost m) = None \<longleftrightarrow> within_caps c k tokens cost m"
  by (auto simp: check_budget_def within_caps_def Let_def)

lemma requires_approval_iff [simp]:
  "requires_approval (classify_action a rvs risk d) \<longleftrightarrow>
     rvs = IRREVERSIBLE_EXTERNAL \<or>
     rvs = IRREVERSIBLE_INTERNAL \<and> risk \<in> {''high_risk'', ''limited_risk''}"
  by (simp add: classify_action_def)

lemma gate_category:
  "gd_breach_category (policy_gate s a r it ic m) =
     (if kill_switch_active s then Some ''kill_switch''
      else if \<not> budget_permits s it ic m then Some ''budget''
      else if breaker_open s a then Some ''breaker''
      else if approval_missing s a r then Some ''approval''
      else None)"
  by (auto simp: policy_gate_def check_kill_switch_def budget_permits_def breaker_open_def
      approval_missing_def Let_def split: option.splits)

lemma gate_allowed_category:
  "gd_allowed (policy_gate s a r it ic m) \<longleftrightarrow>
     gd_breach_category (policy_gate s a r it ic m) = None"
  by (auto simp: policy_gate_def Let_def split: option.splits)

lemma gate_reason_category:
  "gd_reason (policy_gate s a r it ic m) = None \<longleftrightarrow>
     gd_breach_category (policy_gate s a r it ic m) = None"
  by (auto simp: policy_gate_def Let_def split: option.splits)

lemma gate_hitl_category:
  "gd_requires_hitl_approval (policy_gate s a r it ic m) \<longleftrightarrow>
     gd_breach_category (policy_gate s a r it ic m) = Some ''approval''"
  by (auto simp: policy_gate_def Let_def split: option.splits)

lemmas gate_facts = gate_allowed_category gate_category gate_reason_category gate_hitl_category

lemma gate_allowed_iff:
  "gd_allowed (policy_gate s a r it ic m) \<longleftrightarrow>
     \<not> kill_switch_active s \<and> budget_permits s it ic m \<and>
     \<not> breaker_open s a \<and> \<not> approval_missing s a r"
  by (simp add: gate_allowed_category gate_category)

subsection \<open>The dictionary adapters implement the dataclass operations\<close>

lemma consumed_from_record [simp]:
  "consumed_from_dict (record_consumption_dict d tokens cost ok) =
     record_consumption (consumed_from_dict d) tokens cost ok"
  by (simp add: consumed_from_dict_def record_consumption_dict_def record_consumption_def)

lemma record_consumption_frame [simp]:
  "kill_switch_active (record_consumption_to_state s t c ok) = kill_switch_active s"
  "budget_caps_of (record_consumption_to_state s t c ok) = budget_caps_of s"
  "phase_breakers (record_consumption_to_state s t c ok) = phase_breakers s"
  "approvals_granted (record_consumption_to_state s t c ok) = approvals_granted s"
  "risk_classification (record_consumption_to_state s t c ok) = risk_classification s"
  "policy_audit_log (record_consumption_to_state s t c ok) = policy_audit_log s"
  "current_phase (record_consumption_to_state s t c ok) = current_phase s"
  by (simp_all add: record_consumption_to_state_def split: option.splits)

lemma budget_consumed_record [simp]:
  "budget_consumed_of (record_consumption_to_state s t c ok) =
     map_option (\<lambda>d. record_consumption_dict d t c ok) (budget_consumed_of s)"
  by (simp add: record_consumption_to_state_def split: option.splits)

lemma start_wall_clock_frame [simp]:
  "kill_switch_active (start_wall_clock s m) = kill_switch_active s"
  "budget_caps_of (start_wall_clock s m) = budget_caps_of s"
  "phase_breakers (start_wall_clock s m) = phase_breakers s"
  "approvals_granted (start_wall_clock s m) = approvals_granted s"
  "risk_classification (start_wall_clock s m) = risk_classification s"
  "policy_audit_log (start_wall_clock s m) = policy_audit_log s"
  "current_phase (start_wall_clock s m) = current_phase s"
  by (simp_all add: start_wall_clock_def split: option.splits)

lemma start_wall_clock_once: "start_wall_clock (start_wall_clock s m) m' = start_wall_clock s m"
  by (auto simp: start_wall_clock_def split: option.splits)

lemma log_policy_event_frame [simp]:
  "kill_switch_active (log_policy_event s e d t) = kill_switch_active s"
  "budget_caps_of (log_policy_event s e d t) = budget_caps_of s"
  "budget_consumed_of (log_policy_event s e d t) = budget_consumed_of s"
  "phase_breakers (log_policy_event s e d t) = phase_breakers s"
  "approvals_granted (log_policy_event s e d t) = approvals_granted s"
  "risk_classification (log_policy_event s e d t) = risk_classification s"
  "current_phase (log_policy_event s e d t) = current_phase s"
  by (simp_all add: log_policy_event_def split: option.splits)

lemma policy_gate_log [simp]:
  "policy_gate (log_policy_event s e d t) a r it ic m = policy_gate s a r it ic m"
  by (simp add: log_policy_event_def policy_gate_def check_kill_switch_def split: option.splits)

subsection \<open>Metering\<close>

text \<open>
  The gate is asked before each call and the consumption recorded after it; a refusal ends
  the run. \<open>meter\<close> is the contract between a gate and one quantity it meters: whatever is
  charged is added, and the gate refuses when the quantity is over its cap.
  \<open>strict_meter\<close> adds that the gate leaves room for the charge.
\<close>

fun metered_run :: "('s \<Rightarrow> 'e \<Rightarrow> bool) \<Rightarrow> ('s \<Rightarrow> 'c \<Rightarrow> 's) \<Rightarrow> 's \<Rightarrow> ('e \<times> 'c) list \<Rightarrow> 's" where
  "metered_run allowed charge s [] = s"
| "metered_run allowed charge s ((e, c) # calls) =
     (if allowed s e then metered_run allowed charge (charge s c) calls else s)"

locale meter =
  fixes metered :: "'s \<Rightarrow> bool"
    and allowed :: "'s \<Rightarrow> 'e \<Rightarrow> bool"
    and charge :: "'s \<Rightarrow> 'c \<Rightarrow> 's"
    and used :: "'s \<Rightarrow> real"
    and cap :: "'s \<Rightarrow> real"
    and weight :: "'c \<Rightarrow> real"
  assumes metered_charge: "metered s \<Longrightarrow> metered (charge s c)"
    and used_charge: "metered s \<Longrightarrow> used (charge s c) = used s + weight c"
    and cap_charge: "metered s \<Longrightarrow> cap (charge s c) = cap s"
    and allowed_le: "metered s \<Longrightarrow> allowed s e \<Longrightarrow> used s \<le> cap s"
begin

lemma cap_run: "metered s \<Longrightarrow> cap (metered_run allowed charge s calls) = cap s"
  by (induction calls arbitrary: s) (auto simp: cap_charge metered_charge)

lemma overshoot:
  assumes "metered s" "used s \<le> cap s + w" "\<And>e c. (e, c) \<in> set calls \<Longrightarrow> weight c \<le> w"
  shows "used (metered_run allowed charge s calls) \<le> cap s + w"
  using assms
proof (induction calls arbitrary: s)
  case (Cons x calls)
  obtain e c where x: "x = (e, c)" by (cases x)
  show ?case
  proof (cases "allowed s e")
    case True
    have "weight c \<le> w" using Cons.prems(3) x by auto
    with True have "used (charge s c) \<le> cap (charge s c) + w"
      using allowed_le Cons.prems(1) by (fastforce simp: used_charge cap_charge)
    then have "used (metered_run allowed charge (charge s c) calls) \<le> cap (charge s c) + w"
      using Cons.IH Cons.prems(1,3) metered_charge by fastforce
    with True x show ?thesis by (simp add: cap_charge Cons.prems(1))
  next
    case False
    with x Cons.prems show ?thesis by simp
  qed
qed simp

end

locale strict_meter = meter +
  assumes allowed_room: "metered s \<Longrightarrow> allowed s e \<Longrightarrow> used s + weight c \<le> cap s"
begin

lemma never_over:
  assumes "metered s" "used s \<le> cap s"
  shows "used (metered_run allowed charge s calls) \<le> cap s"
  using assms
proof (induction calls arbitrary: s)
  case (Cons x calls)
  obtain e c where x: "x = (e, c)" by (cases x)
  show ?case
  proof (cases "allowed s e")
    case True
    then have "used (charge s c) \<le> cap (charge s c)"
      using allowed_room Cons.prems(1) by (simp add: used_charge cap_charge)
    with True x show ?thesis
      using Cons.IH [of "charge s c"] metered_charge Cons.prems(1) by (simp add: cap_charge)
  next
    case False
    with x Cons.prems show ?thesis by simp
  qed
qed simp

end

text \<open>The meters of the code: what the gate is asked and what is recorded.\<close>

definition has_budget :: "policy_state \<Rightarrow> bool" where
  "has_budget s \<longleftrightarrow> budget_consumed_of s \<noteq> None \<and> budget_caps_of s \<noteq> None"

definition gate_ok :: "policy_state \<Rightarrow> string \<times> reversibility \<times> time \<Rightarrow> bool" where
  "gate_ok s = (\<lambda>(action, rvs, m). gd_allowed (policy_gate s action rvs 0 0 m))"

definition charge_call :: "policy_state \<Rightarrow> int \<times> real \<times> bool \<Rightarrow> policy_state" where
  "charge_call s = (\<lambda>(tokens, cost, ok). record_consumption_to_state s tokens cost ok)"

definition consumption :: "'a policy_state_scheme \<Rightarrow> budget_consumed" where
  "consumption s = consumed_from_dict (the (budget_consumed_of s))"

definition state_caps :: "'a policy_state_scheme \<Rightarrow> budget_caps" where
  "state_caps s = caps_from_dict (the (budget_caps_of s))"

lemma has_budget_charge: "has_budget s \<Longrightarrow> has_budget (charge_call s c)"
  by (auto simp: has_budget_def charge_call_def split: prod.splits)

lemma consumption_charge:
  "has_budget s \<Longrightarrow>
     consumption (charge_call s (t, c, ok)) = record_consumption (consumption s) t c ok"
  by (auto simp: has_budget_def charge_call_def consumption_def)

lemma caps_charge: "state_caps (charge_call s c) = state_caps s"
  by (auto simp: charge_call_def state_caps_def split: prod.splits)

lemma gate_ok_within:
  "has_budget s \<Longrightarrow> gate_ok s e \<Longrightarrow> within_caps (consumption s) (state_caps s) 0 0 (snd (snd e))"
  by (auto simp: has_budget_def gate_ok_def gate_allowed_iff budget_permits_def
      consumption_def state_caps_def split: prod.splits)

lemmas meter_simps = has_budget_charge consumption_charge caps_charge record_consumption_def

interpretation tokens: meter has_budget gate_ok charge_call
  "\<lambda>s. of_int (total_tokens (consumption s))" "\<lambda>s. of_int (max_total_tokens (state_caps s))"
  "\<lambda>(t, c, ok). of_int t"
  by unfold_locales
     (auto simp: meter_simps within_caps_def split: prod.splits dest!: gate_ok_within)

interpretation cost: meter has_budget gate_ok charge_call
  "\<lambda>s. total_cost_usd (consumption s)" "\<lambda>s. max_total_cost_usd (state_caps s)"
  "\<lambda>(t, c, ok). c"
  by unfold_locales
     (auto simp: meter_simps within_caps_def split: prod.splits dest!: gate_ok_within)

interpretation calls: strict_meter has_budget gate_ok charge_call
  "\<lambda>s. of_int (llm_call_count (consumption s))" "\<lambda>s. of_int (max_llm_calls (state_caps s))"
  "\<lambda>_. 1"
proof unfold_locales
  fix s e
  assume "has_budget s" "gate_ok s e"
  then have "llm_call_count (consumption s) < max_llm_calls (state_caps s)"
    by (auto simp: within_caps_def dest!: gate_ok_within)
  then have "llm_call_count (consumption s) + 1 \<le> max_llm_calls (state_caps s)" by simp
  then show "of_int (llm_call_count (consumption s)) + 1 \<le> (of_int (max_llm_calls (state_caps s)) :: real)"
    by linarith
  then show "(of_int (llm_call_count (consumption s)) :: real) \<le> of_int (max_llm_calls (state_caps s))"
    by linarith
qed (auto simp: meter_simps)

subsection \<open>The breaker's state is a function of its count\<close>

inductive breaker_reachable :: "int \<Rightarrow> int \<Rightarrow> phase_breaker \<Rightarrow> bool" for dt ot where
  br_new: "breaker_reachable dt ot new_phase_breaker"
| br_evaluate: "breaker_reachable dt ot b \<Longrightarrow>
     breaker_reachable dt ot (evaluate_breaker b success dt ot now)"
| br_reset: "breaker_reachable dt ot b \<Longrightarrow> breaker_reachable dt ot (reset_breaker b)"

definition breaker_wf :: "int \<Rightarrow> int \<Rightarrow> phase_breaker \<Rightarrow> bool" where
  "breaker_wf dt ot b \<longleftrightarrow>
     0 \<le> failure_count b \<and>
     breaker_state b =
       (if ot \<le> failure_count b then OPEN
        else if dt \<le> failure_count b then DEGRADED else CLOSED) \<and>
     (breaker_state b = OPEN \<longleftrightarrow> opened_at b \<noteq> None)"

lemma breaker_wf_new: "0 < dt \<Longrightarrow> 0 < ot \<Longrightarrow> breaker_wf dt ot new_phase_breaker"
  by (simp add: breaker_wf_def new_phase_breaker_def)

lemma breaker_wf_reset: "0 < dt \<Longrightarrow> 0 < ot \<Longrightarrow> breaker_wf dt ot (reset_breaker b)"
  by (simp add: breaker_wf_def reset_breaker_def)

lemma breaker_wf_evaluate:
  "0 < dt \<Longrightarrow> 0 < ot \<Longrightarrow> breaker_wf dt ot b \<Longrightarrow>
     breaker_wf dt ot (evaluate_breaker b success dt ot now)"
  by (auto simp: breaker_wf_def evaluate_breaker_def Let_def split: if_splits)

lemma breaker_reachable_wf:
  "breaker_reachable dt ot b \<Longrightarrow> 0 < dt \<Longrightarrow> 0 < ot \<Longrightarrow> breaker_wf dt ot b"
  by (induction rule: breaker_reachable.induct)
     (auto intro: breaker_wf_new breaker_wf_reset breaker_wf_evaluate)

fun evaluate_all :: "phase_breaker \<Rightarrow> (bool \<times> time) list \<Rightarrow> int \<Rightarrow> int \<Rightarrow> phase_breaker" where
  "evaluate_all b [] dt ot = b"
| "evaluate_all b ((ok, now) # xs) dt ot =
     evaluate_all (evaluate_breaker b ok dt ot now) xs dt ot"

lemma evaluate_open:
  "breaker_wf dt ot b \<Longrightarrow> 0 < dt \<Longrightarrow> 0 < ot \<Longrightarrow> breaker_state b = OPEN \<Longrightarrow>
     breaker_state (evaluate_breaker b ok dt ot now) = OPEN"
  by (auto simp: breaker_wf_def evaluate_breaker_def Let_def split: if_splits)

lemma evaluate_all_open:
  "breaker_wf dt ot b \<Longrightarrow> 0 < dt \<Longrightarrow> 0 < ot \<Longrightarrow> breaker_state b = OPEN \<Longrightarrow>
     breaker_state (evaluate_all b xs dt ot) = OPEN"
  by (induction b xs dt ot rule: evaluate_all.induct)
     (auto simp: evaluate_open breaker_wf_evaluate)

lemma evaluate_all_wf:
  "breaker_wf dt ot b \<Longrightarrow> 0 < dt \<Longrightarrow> 0 < ot \<Longrightarrow> breaker_wf dt ot (evaluate_all b xs dt ot)"
  by (induction b xs dt ot rule: evaluate_all.induct) (auto simp: breaker_wf_evaluate)

lemma evaluate_all_failures:
  assumes "breaker_wf dt ot b" "0 < dt" "0 < ot" "\<forall>x \<in> set xs. \<not> fst x"
  shows "failure_count (evaluate_all b xs dt ot) = failure_count b + int (length xs)"
  using assms
proof (induction b xs dt ot rule: evaluate_all.induct)
  case (2 b ok now xs dt ot)
  then show ?case
    by (auto simp: breaker_wf_evaluate) (auto simp: evaluate_breaker_def Let_def)
qed simp

lemma failures_open:
  assumes "breaker_wf dt ot b" "0 < dt" "0 < ot" "\<forall>x \<in> set xs. \<not> fst x"
    and "ot \<le> int (length xs)"
  shows "breaker_state (evaluate_all b xs dt ot) = OPEN"
proof -
  have "failure_count (evaluate_all b xs dt ot) = failure_count b + int (length xs)"
    by (rule evaluate_all_failures [OF assms(1-4)])
  moreover have "breaker_wf dt ot (evaluate_all b xs dt ot)"
    using assms(1-3) by (rule evaluate_all_wf)
  ultimately show ?thesis using assms(1,5) by (simp add: breaker_wf_def)
qed

subsection \<open>Defaults of a new project\<close>

definition default_caps_dict :: caps_dict where
  "default_caps_dict =
     \<lparr>d_max_total_tokens = Some 2000000, d_max_total_cost_usd = Some 25,
      d_max_wall_clock_seconds = Some 3600, d_max_llm_calls = Some 100,
      d_max_phase_reentries = Some 3, d_max_consecutive_failures = Some 3\<rparr>"

definition default_consumed_dict :: consumed_dict where
  "default_consumed_dict =
     \<lparr>d_total_tokens = Some 0, d_total_cost_usd = Some 0, d_wall_clock_started_at = None,
      d_llm_call_count = Some 0, d_phase_reentry_counts = Some Map.empty,
      d_consecutive_failures = Some 0\<rparr>"

definition default_policy_state :: policy_state where
  "default_policy_state =
     \<lparr>current_phase = ''classify'', kill_switch_active = False, kill_switch_reason = '''',
      kill_switch_triggered_by = '''', kill_switch_triggered_at = None,
      risk_classification = ''minimal_risk'', budget_caps_of = Some default_caps_dict,
      budget_consumed_of = Some default_consumed_dict, approvals_granted = Map.empty,
      phase_breakers = Map.empty, policy_audit_log = Some []\<rparr>"

lemmas default_policy_defs =
  default_policy_state_def default_caps_dict_def default_consumed_dict_def
  caps_from_dict_def consumed_from_dict_def

lemma default_permits [simp]: "budget_permits default_policy_state 0 0 m"
  by (simp add: budget_permits_def within_caps_def wall_clock_elapsed_def default_policy_defs)

subsection \<open>Properties\<close>


text \<open>In any run in which the gate is asked before each LLM call and the call's consumption is
  recorded after it, the number of calls never exceeds its cap, and the token and cost totals
  exceed theirs by at most one call's consumption.\<close>

theorem metered_calls_respect_caps:
  assumes "has_budget s"
    and "llm_call_count (consumption s) \<le> max_llm_calls (state_caps s)"
    and "total_tokens (consumption s) \<le> max_total_tokens (state_caps s)"
    and "total_cost_usd (consumption s) \<le> max_total_cost_usd (state_caps s)"
    and "\<And>e t c ok. (e, (t, c, ok)) \<in> set calls \<Longrightarrow> t \<le> tmax \<and> c \<le> cmax"
    and "0 \<le> tmax" and "0 \<le> cmax"
  shows "llm_call_count (consumption (metered_run gate_ok charge_call s calls))
           \<le> max_llm_calls (state_caps s) \<and>
         total_tokens (consumption (metered_run gate_ok charge_call s calls))
           \<le> max_total_tokens (state_caps s) + tmax \<and>
         total_cost_usd (consumption (metered_run gate_ok charge_call s calls))
           \<le> max_total_cost_usd (state_caps s) + cmax"
proof (intro conjI)
  show "llm_call_count (consumption (metered_run gate_ok charge_call s calls))
          \<le> max_llm_calls (state_caps s)"
    using calls.never_over [of s calls] assms(1,2) by simp
  have "(of_int (total_tokens (consumption (metered_run gate_ok charge_call s calls))) :: real)
          \<le> of_int (max_total_tokens (state_caps s)) + of_int tmax"
    using assms(1,3,5,6) by (intro tokens.overshoot) force+
  then show "total_tokens (consumption (metered_run gate_ok charge_call s calls))
          \<le> max_total_tokens (state_caps s) + tmax"
    by linarith
  show "total_cost_usd (consumption (metered_run gate_ok charge_call s calls))
          \<le> max_total_cost_usd (state_caps s) + cmax"
    using assms(1,4,5,7) by (intro cost.overshoot) force+
qed

theorem metered_calls_respect_caps_witness:
  "llm_call_count (consumption (metered_run gate_ok charge_call default_policy_state
      [((''audit'', REVERSIBLE_INTERNAL, 0), (1500, 1 / 2, True))])) \<le> 100"
proof -
  let ?calls = "[((''audit'', REVERSIBLE_INTERNAL, 0 :: real), (1500 :: int, 1 / 2 :: real, True))]"
  have "has_budget default_policy_state"
    by (simp add: has_budget_def default_policy_state_def)
  moreover have "state_caps default_policy_state = caps_from_dict default_caps_dict"
    "consumption default_policy_state = consumed_from_dict default_consumed_dict"
    by (simp_all add: state_caps_def consumption_def default_policy_state_def)
  ultimately show ?thesis
    using metered_calls_respect_caps [of default_policy_state ?calls 1500 "1 / 2"]
    by (simp add: default_policy_defs)
qed

text \<open>A breaker that has only been created, evaluated and reset is OPEN exactly when its
  failure count has reached the opening threshold, DEGRADED between the two thresholds and
  CLOSED below them; an OPEN breaker stays OPEN under every outcome, successes included, and
  as many consecutive failures as the threshold open it from any such state.\<close>

theorem breaker_trips_and_latches:
  assumes "breaker_reachable dt ot b" and "0 < dt" and "0 < ot"
  shows "breaker_state b =
           (if ot \<le> failure_count b then OPEN
            else if dt \<le> failure_count b then DEGRADED else CLOSED) \<and>
         (breaker_state b = OPEN \<longrightarrow> breaker_state (evaluate_all b outcomes dt ot) = OPEN) \<and>
         (ot \<le> int (length instants) \<longrightarrow>
            breaker_state (evaluate_all b (map (\<lambda>t. (False, t)) instants) dt ot) = OPEN)"
proof -
  have wf: "breaker_wf dt ot b" using assms by (rule breaker_reachable_wf)
  have "breaker_state b = OPEN \<longrightarrow> breaker_state (evaluate_all b outcomes dt ot) = OPEN"
    using evaluate_all_open [OF wf assms(2,3)] by blast
  moreover have "ot \<le> int (length instants) \<longrightarrow>
      breaker_state (evaluate_all b (map (\<lambda>t. (False, t)) instants) dt ot) = OPEN"
    using failures_open [OF wf assms(2,3), of "map (\<lambda>t. (False, t)) instants"] by auto
  ultimately show ?thesis using wf by (simp add: breaker_wf_def)
qed

theorem breaker_trips_and_latches_witness:
  "breaker_state (evaluate_all new_phase_breaker
      (map (\<lambda>t. (False, t)) [1, 2, 3 :: real]) 2 3) = OPEN"
proof -
  have "breaker_reachable 2 3 new_phase_breaker" by (rule br_new)
  from breaker_trips_and_latches [OF this, of "[]" "[1, 2, 3]"] show ?thesis by simp
qed

text \<open>The dictionary form of the budget kept on the project state implements the dataclass
  form: recording a call in the state and then reading it is recording the call in what was
  read, and nothing else the gate reads changes.\<close>

theorem record_consumption_refines:
  "map_option consumed_from_dict
     (budget_consumed_of (record_consumption_to_state s tokens cost_usd success)) =
   map_option (\<lambda>d. record_consumption (consumed_from_dict d) tokens cost_usd success)
     (budget_consumed_of s) \<and>
   budget_caps_of (record_consumption_to_state s tokens cost_usd success) = budget_caps_of s \<and>
   kill_switch_active (record_consumption_to_state s tokens cost_usd success) =
     kill_switch_active s \<and>
   approvals_granted (record_consumption_to_state s tokens cost_usd success) =
     approvals_granted s \<and>
   phase_breakers (record_consumption_to_state s tokens cost_usd success) = phase_breakers s"
  by (simp add: option.map_comp comp_def)

text \<open>approval requirements grow with the blast radius: whatever requires approval at one
  reversibility class requires it at every higher class, for the same risk classification;
  external actions always require it and read-only ones never do.\<close>

theorem approval_monotone:
  assumes "r \<le> r'" and "requires_approval (classify_action a r risk d)"
  shows "requires_approval (classify_action a r' risk d) \<and>
         requires_approval (classify_action a IRREVERSIBLE_EXTERNAL risk d) \<and>
         \<not> requires_approval (classify_action a READ_ONLY risk d)"
  using assms by (cases r; cases r') (simp_all add: less_eq_reversibility_def)

theorem approval_monotone_witness:
  "requires_approval
     (classify_action ''publish'' IRREVERSIBLE_EXTERNAL ''high_risk'' '''')"
proof -
  have "IRREVERSIBLE_INTERNAL \<le> IRREVERSIBLE_EXTERNAL"
    by (simp add: less_eq_reversibility_def)
  then show ?thesis
    using approval_monotone [of IRREVERSIBLE_INTERNAL IRREVERSIBLE_EXTERNAL "''publish''" "''high_risk''"]
    by simp
qed

text \<open>the risk classification "prohibited" gates exactly as "minimal_risk" does: for every
  action and class the decision and its category are the same.\<close>

theorem prohibited_gates_as_minimal:
  "gd_allowed (policy_gate (s\<lparr>risk_classification := ''prohibited''\<rparr>) a r it ic m) =
     gd_allowed (policy_gate (s\<lparr>risk_classification := ''minimal_risk''\<rparr>) a r it ic m) \<and>
   gd_breach_category (policy_gate (s\<lparr>risk_classification := ''prohibited''\<rparr>) a r it ic m) =
     gd_breach_category (policy_gate (s\<lparr>risk_classification := ''minimal_risk''\<rparr>) a r it ic m)"
proof -
  have "budget_permits (s\<lparr>risk_classification := x\<rparr>) it ic m = budget_permits s it ic m"
    "breaker_open (s\<lparr>risk_classification := x\<rparr>) a = breaker_open s a" for x
    by (simp_all add: budget_permits_def breaker_open_def)
  moreover have "approval_missing (s\<lparr>risk_classification := ''prohibited''\<rparr>) a r =
      approval_missing (s\<lparr>risk_classification := ''minimal_risk''\<rparr>) a r"
    by (simp add: approval_missing_def)
  ultimately show ?thesis by (simp add: gate_allowed_category gate_category)
qed

text \<open>the budget check never reads the re-entry counters: no re-entry cap and no number of
  recorded re-entries changes its result.\<close>

theorem check_budget_ignores_reentries:
  "check_budget (c\<lparr>phase_reentry_counts := n\<rparr>) (k\<lparr>max_phase_reentries := x\<rparr>) it ic m =
     check_budget c k it ic m"
  by (simp add: check_budget_def wall_clock_elapsed_def Let_def)

end
