(* ===== verification/PolicyApi.thy ===== *)
theory PolicyApi
  imports Policy Workflow
begin

text \<open>
  The operator endpoints of the policy layer (\<open>mas/api.py\<close>, "v4.3 - POLICY LAYER
  ENDPOINTS"): kill switch, risk classification, budget caps, approvals and breaker reset, as
  functions from the loaded state (\<open>None\<close> when \<open>store.load\<close> finds no project) to the saved
  state or the HTTP error. The step relation collects every operation that changes the
  policy attributes of a state. \<open>ensure_decision_objects\<close> and the response bodies are left
  out: they write no policy attribute.
\<close>

datatype http_error =
    Not_found
  | Bad_request string
  | Conflict string
  | Internal_error

definition with_project ::
  "'a policy_state_scheme option \<Rightarrow>
   ('a policy_state_scheme \<Rightarrow> (http_error, 'a policy_state_scheme) result) \<Rightarrow>
   (http_error, 'a policy_state_scheme) result" where
  "with_project loaded f = (case loaded of None \<Rightarrow> Err Not_found | Some s \<Rightarrow> f s)"

subsection \<open>Kill switch and risk classification\<close>

definition kill_project ::
  "'a policy_state_scheme option \<Rightarrow> string \<Rightarrow> string \<Rightarrow> time \<Rightarrow> time \<Rightarrow>
   (http_error, 'a policy_state_scheme) result" where
  "kill_project loaded reason triggered_by now log_now =
     with_project loaded (\<lambda>s.
       Ok (log_policy_event (trigger_kill_switch s reason triggered_by now)
             ''kill_switch_triggered''
             [(''reason'', JStr reason), (''triggered_by'', JStr triggered_by)] log_now))"

definition RISK_CLASSIFICATIONS :: "string list" where
  "RISK_CLASSIFICATIONS = [''minimal_risk'', ''limited_risk'', ''high_risk'', ''prohibited'']"

definition set_risk_classification ::
  "'a policy_state_scheme option \<Rightarrow> string \<Rightarrow> string \<Rightarrow> string \<Rightarrow> time \<Rightarrow>
   (http_error, 'a policy_state_scheme) result" where
  "set_risk_classification loaded classification rationale set_by now =
     (if classification \<notin> set RISK_CLASSIFICATIONS
      then Err (Bad_request ''classification'')
      else with_project loaded (\<lambda>s.
        Ok (log_policy_event (s\<lparr>risk_classification := classification\<rparr>)
              ''risk_classification_set''
              [(''classification'', JStr classification), (''rationale'', JStr rationale),
               (''set_by'', JStr set_by)] now)))"

subsection \<open>Budget caps\<close>

text \<open>
  One entry of \<open>req.dict(exclude_unset=True)\<close>: a field the request set, \<open>None\<close> for an
  explicit null.
\<close>

datatype cap_update =
    Upd_max_total_tokens "int option"
  | Upd_max_total_cost_usd "real option"
  | Upd_max_wall_clock_seconds "int option"
  | Upd_max_llm_calls "int option"
  | Upd_max_phase_reentries "int option"
  | Upd_max_consecutive_failures "int option"

fun jnum :: "real option \<Rightarrow> jval" where
  "jnum None = JNull"
| "jnum (Some x) = JNum x"

fun jint :: "int option \<Rightarrow> jval" where
  "jint None = JNull"
| "jint (Some i) = JInt i"

fun cap_update_item :: "cap_update \<Rightarrow> string \<times> jval" where
  "cap_update_item (Upd_max_total_tokens v) = (''max_total_tokens'', jint v)"
| "cap_update_item (Upd_max_total_cost_usd v) = (''max_total_cost_usd'', jnum v)"
| "cap_update_item (Upd_max_wall_clock_seconds v) = (''max_wall_clock_seconds'', jint v)"
| "cap_update_item (Upd_max_llm_calls v) = (''max_llm_calls'', jint v)"
| "cap_update_item (Upd_max_phase_reentries v) = (''max_phase_reentries'', jint v)"
| "cap_update_item (Upd_max_consecutive_failures v) = (''max_consecutive_failures'', jint v)"

text \<open>
  The refusal formats its message from \<open>consumed['total_tokens']\<close>, which raises
  \<open>KeyError\<close> when the key is absent although the comparison used the default.
\<close>

definition below_consumption :: "'v option \<Rightarrow> string \<Rightarrow> http_error" where
  "below_consumption entry key = (if entry = None then Internal_error else Bad_request key)"

fun apply_cap_updates ::
  "consumed_dict \<Rightarrow> caps_dict \<Rightarrow> cap_update list \<Rightarrow> (http_error, caps_dict) result" where
  "apply_cap_updates consumed caps [] = Ok caps"
| "apply_cap_updates consumed caps (u # us) =
     (case u of
        Upd_max_total_tokens (Some v) \<Rightarrow>
          if v < opt_or (d_total_tokens consumed) 0
          then Err (below_consumption (d_total_tokens consumed) ''max_total_tokens'')
          else apply_cap_updates consumed (caps\<lparr>d_max_total_tokens := Some v\<rparr>) us
      | Upd_max_total_cost_usd (Some v) \<Rightarrow>
          if v < opt_or (d_total_cost_usd consumed) 0
          then Err (below_consumption (d_total_cost_usd consumed) ''max_total_cost_usd'')
          else apply_cap_updates consumed (caps\<lparr>d_max_total_cost_usd := Some v\<rparr>) us
      | Upd_max_wall_clock_seconds (Some v) \<Rightarrow>
          apply_cap_updates consumed (caps\<lparr>d_max_wall_clock_seconds := Some v\<rparr>) us
      | Upd_max_llm_calls (Some v) \<Rightarrow>
          apply_cap_updates consumed (caps\<lparr>d_max_llm_calls := Some v\<rparr>) us
      | Upd_max_phase_reentries (Some v) \<Rightarrow>
          apply_cap_updates consumed (caps\<lparr>d_max_phase_reentries := Some v\<rparr>) us
      | Upd_max_consecutive_failures (Some v) \<Rightarrow>
          apply_cap_updates consumed (caps\<lparr>d_max_consecutive_failures := Some v\<rparr>) us
      | _ \<Rightarrow> apply_cap_updates consumed caps us)"

definition set_budget_caps ::
  "'a policy_state_scheme option \<Rightarrow> cap_update list \<Rightarrow> time \<Rightarrow>
   (http_error, 'a policy_state_scheme) result" where
  "set_budget_caps loaded updates now =
     with_project loaded (\<lambda>s.
       case (budget_consumed_of s, budget_caps_of s) of
         (Some consumed, Some caps) \<Rightarrow>
           (case apply_cap_updates consumed caps updates of
              Inl e \<Rightarrow> Err e
            | Inr caps' \<Rightarrow>
                Ok (log_policy_event (s\<lparr>budget_caps_of := Some caps'\<rparr>) ''budget_caps_updated''
                      (map cap_update_item updates) now))
       | _ \<Rightarrow> Err Internal_error)"

subsection \<open>Approvals and breaker reset\<close>

definition grant_approval ::
  "'a policy_state_scheme option \<Rightarrow> string \<Rightarrow> string \<Rightarrow> string \<Rightarrow> string \<Rightarrow> time \<Rightarrow>
   (http_error, 'a policy_state_scheme) result" where
  "grant_approval loaded action approved_by rationale granted_at now =
     with_project loaded (\<lambda>s.
       Ok (log_policy_event
             (s\<lparr>approvals_granted := (approvals_granted s)(action \<mapsto>
                [(''approved_by'', JStr approved_by), (''rationale'', JStr rationale),
                 (''granted_at'', JStr granted_at)])\<rparr>)
             ''approval_granted''
             [(''action'', JStr action), (''approved_by'', JStr approved_by),
              (''rationale'', JStr rationale)] now))"

definition CLOSED_BREAKER_DICT :: "(string \<times> jval) list" where
  "CLOSED_BREAKER_DICT =
     [(''state'', JStr ''closed''), (''failure_count'', JInt 0), (''last_failure_at'', JNull),
      (''opened_at'', JNull)]"

fun close_breakers ::
  "(string \<rightharpoonup> (string \<times> jval) list) \<Rightarrow> string list \<Rightarrow> (string \<rightharpoonup> (string \<times> jval) list)" where
  "close_breakers breakers [] = breakers"
| "close_breakers breakers (p # ps) =
     (if p = '''' then close_breakers breakers ps
      else close_breakers (breakers(p \<mapsto> CLOSED_BREAKER_DICT)) ps)"

definition empty_consumed_dict :: consumed_dict where
  "empty_consumed_dict =
     \<lparr>d_total_tokens = None, d_total_cost_usd = None, d_wall_clock_started_at = None,
      d_llm_call_count = None, d_phase_reentry_counts = None, d_consecutive_failures = None\<rparr>"

text \<open>
  \<open>keys\<close> lists \<open>state.phase_breakers.keys()\<close>, in the dictionary's order; it is used when
  the request names no phase.
\<close>

definition reset_breakers ::
  "'a policy_state_scheme option \<Rightarrow> string list \<Rightarrow> string option \<Rightarrow> bool \<Rightarrow> bool \<Rightarrow> string \<Rightarrow>
   string \<Rightarrow> time \<Rightarrow> (http_error, 'a policy_state_scheme) result" where
  "reset_breakers loaded keys phase reset_budget_failures reset_phase_breakers reset_by
     rationale now =
     with_project loaded (\<lambda>s.
       let consumed = opt_or (budget_consumed_of s) empty_consumed_dict;
           before = (if reset_budget_failures then opt_or (d_consecutive_failures consumed) 0
                     else 0);
           afterwards = (if reset_budget_failures then 0
                     else opt_or (d_consecutive_failures consumed) 0);
           s1 = (if reset_budget_failures
                 then s\<lparr>budget_consumed_of := Some (consumed\<lparr>d_consecutive_failures := Some 0\<rparr>)\<rparr>
                 else s);
           targets = (case phase of Some p \<Rightarrow> if p = '''' then keys else [p] | None \<Rightarrow> keys);
           s2 = (if reset_phase_breakers
                 then s1\<lparr>phase_breakers := close_breakers (phase_breakers s1) targets\<rparr>
                 else s1);
           reset_phases = (if reset_phase_breakers then filter (\<lambda>p. p \<noteq> '''') targets else [])
       in Ok (log_policy_event s2 ''circuit_breaker_reset''
            [(''phase'', JStr (py_or (opt_or phase '''') ''all_persisted'')),
             (''reset_budget_failures'', JBool reset_budget_failures),
             (''reset_phase_breakers'', JBool reset_phase_breakers),
             (''budget_consecutive_failures_before'', JInt before),
             (''budget_consecutive_failures_after'', JInt afterwards),
             (''reset_phases'', JList (map JStr reset_phases)),
             (''reset_by'', JStr reset_by), (''rationale'', JStr rationale)] now))"

subsection \<open>Every operation on the policy attributes, as one step relation\<close>

inductive policy_step :: "policy_state \<Rightarrow> policy_state \<Rightarrow> bool" where
  st_record: "policy_step s (record_consumption_to_state s t c ok)"
| st_clock: "policy_step s (start_wall_clock s m)"
| st_log: "policy_step s (log_policy_event s e d now)"
| st_phase: "policy_step s (s\<lparr>current_phase := p\<rparr>)"
| st_kill: "kill_project (Some s) reason who now now' = Ok s' \<Longrightarrow> policy_step s s'"
| st_risk: "set_risk_classification (Some s) cl ra who now = Ok s' \<Longrightarrow> policy_step s s'"
| st_caps: "set_budget_caps (Some s) us now = Ok s' \<Longrightarrow> policy_step s s'"
| st_approve: "grant_approval (Some s) a who ra when now = Ok s' \<Longrightarrow> policy_step s s'"
| st_reset: "reset_breakers (Some s) ks p b1 b2 who ra now = Ok s' \<Longrightarrow> policy_step s s'"

abbreviation policy_steps :: "policy_state \<Rightarrow> policy_state \<Rightarrow> bool" where
  "policy_steps \<equiv> policy_step\<^sup>*\<^sup>*"

lemmas endpoint_defs =
  kill_project_def set_risk_classification_def set_budget_caps_def grant_approval_def
  reset_breakers_def with_project_def trigger_kill_switch_def

text \<open>The audit log only grows: the old log is a prefix of the new one.\<close>

definition log_of :: "'a policy_state_scheme \<Rightarrow> audit_event list" where
  "log_of s = opt_or (policy_audit_log s) []"

definition log_extends :: "policy_state \<Rightarrow> policy_state \<Rightarrow> bool" where
  "log_extends s t \<longleftrightarrow>
     starts_with (log_of s) (log_of t) \<and> (policy_audit_log s = None \<longrightarrow> policy_audit_log t = None)"

lemma log_extends_refl [simp]: "log_extends s s"
  by (simp add: log_extends_def starts_with_def)

lemma log_extends_trans: "log_extends s t \<Longrightarrow> log_extends t u \<Longrightarrow> log_extends s u"
  by (auto simp: log_extends_def starts_with_iff)

lemma log_extends_same: "policy_audit_log t = policy_audit_log s \<Longrightarrow> log_extends s t"
  by (simp add: log_extends_def log_of_def starts_with_def)

lemma log_extends_log:
  "policy_audit_log t = policy_audit_log s \<Longrightarrow> log_extends s (log_policy_event t e d now)"
  by (auto simp: log_extends_def log_of_def log_policy_event_def starts_with_iff split: option.splits)

lemma policy_step_log: "policy_step s t \<Longrightarrow> log_extends s t"
proof (induction rule: policy_step.induct)
  case (st_record s t c ok)
  show ?case by (rule log_extends_same) simp
next
  case (st_clock s m)
  show ?case by (rule log_extends_same) simp
next
  case (st_phase s p)
  show ?case by (rule log_extends_same) simp
next
  case (st_caps s us now s')
  then show ?case
    by (auto simp: endpoint_defs intro!: log_extends_log split: option.splits sum.splits)
qed (auto simp: endpoint_defs Let_def intro!: log_extends_log split: if_splits)

lemma policy_step_kill: "policy_step s t \<Longrightarrow> kill_switch_active s \<Longrightarrow> kill_switch_active t"
  by (induction rule: policy_step.induct)
     (auto simp: endpoint_defs Let_def split: if_splits option.splits sum.splits)

lemma policy_steps_kill: "policy_steps s t \<Longrightarrow> kill_switch_active s \<Longrightarrow> kill_switch_active t"
  by (induction rule: rtranclp_induct) (auto intro: policy_step_kill)

lemma policy_steps_log: "policy_steps s t \<Longrightarrow> log_extends s t"
  by (induction rule: rtranclp_induct) (auto intro: policy_step_log log_extends_trans)

subsection \<open>Cap updates never cut below the consumption they check\<close>

definition caps_cover :: "consumed_dict \<Rightarrow> caps_dict \<Rightarrow> bool" where
  "caps_cover cd kd \<longleftrightarrow>
     total_tokens (consumed_from_dict cd) \<le> max_total_tokens (caps_from_dict kd) \<and>
     total_cost_usd (consumed_from_dict cd) \<le> max_total_cost_usd (caps_from_dict kd)"

lemma apply_cap_updates_cover:
  "apply_cap_updates cd kd us = Ok kd' \<Longrightarrow> caps_cover cd kd \<Longrightarrow> caps_cover cd kd'"
  by (induction cd kd us rule: apply_cap_updates.induct)
     (auto simp: caps_cover_def caps_from_dict_def consumed_from_dict_def
        split: cap_update.splits option.splits if_splits)

lemma close_breakers_open:
  "close_breakers bs ps p = Some bd \<Longrightarrow> map_of bd ''state'' = Some (JStr ''open'') \<Longrightarrow>
     bs p = Some bd \<and> (p \<notin> set ps \<or> p = '''')"
  by (induction bs ps rule: close_breakers.induct)
     (auto simp: CLOSED_BREAKER_DICT_def split: if_splits)

subsection \<open>Properties\<close>

text \<open>C38: the kill switch is irrevocable through the policy layer: once the kill endpoint has
  succeeded, after any sequence of operations on the policy attributes (recording, clock,
  logging, caps, approvals, classification, breaker resets, phase changes) the gate still
  refuses every action and names the kill switch.\<close>

theorem kill_switch_irrevocable:
  assumes "kill_project (Some s) reason who now now' = Ok s1" and "policy_steps s1 s2"
  shows "\<not> gd_allowed (policy_gate s2 a r it ic m) \<and>
         gd_breach_category (policy_gate s2 a r it ic m) = Some ''kill_switch''"
proof -
  have "kill_switch_active s1"
    using assms(1) by (auto simp: endpoint_defs)
  with assms(2) have "kill_switch_active s2" by (rule policy_steps_kill)
  then show ?thesis by (simp add: gate_allowed_category gate_category)
qed

theorem kill_switch_irrevocable_witness:
  "\<exists>s1 s2. kill_project (Some default_policy_state) ''stop'' ''operator'' 5 5 = Ok s1 \<and>
     reset_breakers (Some s1) [] None True True ''operator'' '''' 6 = Ok s2 \<and>
     \<not> gd_allowed (policy_gate s2 ''audit'' REVERSIBLE_INTERNAL 0 0 7)"
proof -
  obtain s1 where s1: "kill_project (Some default_policy_state) ''stop'' ''operator'' 5 5 = Ok s1"
    by (simp add: kill_project_def with_project_def)
  obtain s2 where s2: "reset_breakers (Some s1) [] None True True ''operator'' '''' 6 = Ok s2"
    by (simp add: reset_breakers_def with_project_def Let_def)
  from s2 have "policy_step s1 s2" by (rule st_reset)
  with kill_switch_irrevocable [OF s1] s1 s2 show ?thesis by blast
qed

text \<open>The policy audit log is append-only: no operation on the policy attributes drops,
  reorders or rewrites an entry, and a state whose log was never created gets none.\<close>

theorem policy_log_append_only:
  assumes "policy_steps s t"
  shows "starts_with (log_of s) (log_of t) \<and>
         (policy_audit_log s = None \<longrightarrow> policy_audit_log t = None)"
  using policy_steps_log [OF assms] by (simp add: log_extends_def)

theorem policy_log_append_only_witness:
  "starts_with (log_of default_policy_state)
     (log_of (log_policy_event default_policy_state ''x'' [] 1))"
proof -
  have "policy_steps default_policy_state (log_policy_event default_policy_state ''x'' [] 1)"
    using st_log by blast
  from policy_log_append_only [OF this] show ?thesis by blast
qed

text \<open>the caps endpoint never cuts a checked cap below what is consumed: if the token and
  cost caps cover the consumption before the request, they cover it after a request that
  succeeds, whatever the list of updates, and the recorded consumption is unchanged.\<close>

theorem set_budget_caps_covers:
  assumes "set_budget_caps (Some s) updates now = Ok s'"
    and "budget_consumed_of s = Some cd" and "budget_caps_of s = Some kd"
    and "caps_cover cd kd"
  shows "\<exists>kd'. budget_caps_of s' = Some kd' \<and> caps_cover cd kd' \<and>
           budget_consumed_of s' = Some cd"
  using assms apply_cap_updates_cover [of cd kd updates]
  by (auto simp: endpoint_defs split: sum.splits)

theorem set_budget_caps_covers_witness:
  "\<exists>s' kd'. set_budget_caps (Some default_policy_state) [Upd_max_total_tokens (Some 10)] 1 = Ok s' \<and>
     budget_caps_of s' = Some kd' \<and> caps_cover default_consumed_dict kd'"
proof -
  obtain s' where s': "set_budget_caps (Some default_policy_state)
      [Upd_max_total_tokens (Some 10)] 1 = Ok s'"
    by (simp add: endpoint_defs default_policy_defs)
  have "caps_cover default_consumed_dict default_caps_dict"
    by (simp add: caps_cover_def default_policy_defs)
  with set_budget_caps_covers [OF s', of default_consumed_dict default_caps_dict] s'
  show ?thesis by (auto simp: default_policy_state_def)
qed

text \<open>the call cap is not protected in the same way: from any state with a budget, a request
  that sets the call cap to any value, below the recorded calls included, succeeds.\<close>

theorem llm_call_cap_unchecked:
  assumes "budget_consumed_of s = Some cd" and "budget_caps_of s = Some kd"
  shows "\<exists>s'. set_budget_caps (Some s) [Upd_max_llm_calls (Some v)] now = Ok s' \<and>
           max_llm_calls (state_caps s') = v \<and> consumption s' = consumed_from_dict cd"
  using assms
  by (simp add: endpoint_defs state_caps_def consumption_def)
     (simp add: log_policy_event_def caps_from_dict_def split: option.splits)

theorem llm_call_cap_unchecked_witness:
  "\<exists>s'. set_budget_caps (Some default_policy_state) [Upd_max_llm_calls (Some (-1))] 1 = Ok s' \<and>
     max_llm_calls (state_caps s') = -1"
  using llm_call_cap_unchecked [of default_policy_state default_consumed_dict default_caps_dict "-1" 1]
  by (auto simp: default_policy_state_def)

text \<open>resetting the breakers of every persisted phase unblocks the gate's breaker check and
  the failure cap: afterwards no breaker of a phase is open, the consecutive failures
  are zero, and the totals, the caps, the approvals and the kill switch are as they were.\<close>

theorem reset_breakers_unblocks:
  assumes "reset_breakers (Some s) keys None True True who why now = Ok s'"
    and "set keys = dom (phase_breakers s)" and "a \<noteq> []"
  shows "\<not> breaker_open s' a \<and>
         consecutive_failures (consumption s') = 0 \<and>
         (budget_consumed_of s \<noteq> None \<longrightarrow>
            consumption s' = (consumption s)\<lparr>consecutive_failures := 0\<rparr>) \<and>
         budget_caps_of s' = budget_caps_of s \<and> approvals_granted s' = approvals_granted s \<and>
         kill_switch_active s' = kill_switch_active s"
proof -
  have s': "phase_breakers s' = close_breakers (phase_breakers s) keys"
    "budget_consumed_of s' = Some ((opt_or (budget_consumed_of s) empty_consumed_dict)
        \<lparr>d_consecutive_failures := Some 0\<rparr>)"
    "budget_caps_of s' = budget_caps_of s" "approvals_granted s' = approvals_granted s"
    "kill_switch_active s' = kill_switch_active s"
    using assms(1) by (auto simp: endpoint_defs Let_def)
  have "\<not> breaker_open s' a"
  proof
    assume "breaker_open s' a"
    then obtain bd where bd: "close_breakers (phase_breakers s) keys a = Some bd"
      "map_of bd ''state'' = Some (JStr ''open'')"
      by (auto simp: breaker_open_def s')
    from close_breakers_open [OF bd] assms(2,3) show False by auto
  qed
  then show ?thesis
    using s' by (auto simp: consumption_def consumed_from_dict_def)
qed

theorem reset_breakers_unblocks_witness:
  "\<exists>s'. reset_breakers (Some (default_policy_state\<lparr>phase_breakers :=
        [''audit'' \<mapsto> [(''state'', JStr ''open'')]]\<rparr>)) [''audit''] None True True '''' '''' 9 = Ok s' \<and>
     \<not> breaker_open s' ''audit''"
proof -
  let ?s = "default_policy_state\<lparr>phase_breakers := [''audit'' \<mapsto> [(''state'', JStr ''open'')]]\<rparr>"
  obtain s' where s': "reset_breakers (Some ?s) [''audit''] None True True '''' '''' 9 = Ok s'"
    by (simp add: reset_breakers_def with_project_def Let_def)
  have "set [''audit''] = dom (phase_breakers ?s)" by simp
  from reset_breakers_unblocks [OF s' this, of "''audit''"] s' show ?thesis by auto
qed

text \<open>no workflow phase waits for a human approval: every phase of both workflows is
  registered with a reversible internal action, so whatever the risk classification and the
  approvals on file, the gate refuses a phase only for the kill switch, the budget or its
  breaker.\<close>

theorem phases_never_wait_for_approval:
  assumes "get_workflow_phase_sequence pt = Ok ps" and "p \<in> set ps"
  shows "PHASE_ACTION_MAP p = Some REVERSIBLE_INTERNAL \<and>
         gd_breach_category (policy_gate s p REVERSIBLE_INTERNAL it ic m) \<noteq> Some ''approval''"
proof -
  from get_sequence_Ok [OF assms(1)] assms(2)
  have "PHASE_ACTION_MAP p = Some REVERSIBLE_INTERNAL"
    by (auto simp: STRATEGIC_AUDIT_PHASE_SEQUENCE_def TECHNOLOGY_READINESS_PHASE_SEQUENCE_def
        PHASE_ACTION_MAP_def)
  then show ?thesis by (auto simp: gate_category approval_missing_def split: if_splits)
qed

theorem phases_never_wait_for_approval_witness:
  "PHASE_ACTION_MAP ''gauntlet'' = Some REVERSIBLE_INTERNAL"
proof -
  have "''gauntlet'' \<in> set STRATEGIC_AUDIT_PHASE_SEQUENCE"
    by (simp add: STRATEGIC_AUDIT_PHASE_SEQUENCE_def)
  from phases_never_wait_for_approval [OF sequence_of_default this] show ?thesis by blast
qed

end
