(* ===== verification/Config.thy ===== *)
theory Config
  imports Workflow
begin

text \<open>
  The configuration (\<open>mas/config.py\<close>): model routing with the validation of a model
  configuration, fallback chains, task profiles, the phase lists, the convergence gates, the
  re-entry triggers and the invalidation map, and the readers of the environment variables
  that select behaviour. The environment is a map \<open>string \<rightharpoonup> string\<close>. Prompt wording and
  framework names are not modelled.
\<close>

subsection \<open>Providers and model configurations\<close>

datatype provider = ANTHROPIC | OPENAI

fun provider_value :: "provider \<Rightarrow> string" where
  "provider_value ANTHROPIC = ''anthropic''"
| "provider_value OPENAI = ''openai''"

definition RESPONSE_RESERVATION_PROVIDER_VALUES :: "string set" where
  "RESPONSE_RESERVATION_PROVIDER_VALUES = {provider_value ANTHROPIC}"

record model_config =
  mc_provider :: provider
  mc_model :: string
  mc_max_tokens :: int
  mc_temperature :: real
  mc_thinking_budget :: int
  mc_min_response_tokens :: "int option"

datatype config_error =
    Max_tokens_not_positive
  | Thinking_budget_negative
  | Min_response_tokens_negative
  | Reservation_not_implemented string string
  | Thinking_crowds_out_response int int int

text \<open>\<open>ModelConfig.__post_init__\<close>: the checks a constructor call runs, in their order.\<close>

definition model_config_post_init :: "model_config \<Rightarrow> (config_error, model_config) result" where
  "model_config_post_init m =
     (if mc_max_tokens m \<le> 0 then Err Max_tokens_not_positive
      else if mc_thinking_budget m < 0 then Err Thinking_budget_negative
      else if (case mc_min_response_tokens m of None \<Rightarrow> False | Some r \<Rightarrow> r < 0)
      then Err Min_response_tokens_negative
      else if mc_min_response_tokens m \<noteq> None \<and>
              provider_value (mc_provider m) \<notin> RESPONSE_RESERVATION_PROVIDER_VALUES
      then Err (Reservation_not_implemented (provider_value (mc_provider m)) (mc_model m))
      else case mc_min_response_tokens m of
             None \<Rightarrow> Ok m
           | Some r \<Rightarrow>
               if mc_thinking_budget m > 0 \<and> mc_thinking_budget m + r > mc_max_tokens m
               then Err (Thinking_crowds_out_response r (mc_max_tokens m) (mc_thinking_budget m))
               else Ok m)"

record runtime_layer_config =
  default_provider :: provider
  routing_strategy :: string
  cache_enabled :: bool
  cache_ttl_seconds :: int
  phase_model_overrides :: "string \<rightharpoonup> string"
  complexity_model_overrides :: "string \<rightharpoonup> string"
  task_profile_model_candidates :: "string \<rightharpoonup> string list"

subsection \<open>Routing tables\<close>

definition anthropic_config :: "string \<Rightarrow> int \<Rightarrow> real \<Rightarrow> int \<Rightarrow> int option \<Rightarrow> model_config" where
  "anthropic_config m tokens temp thinking reserve =
     \<lparr>mc_provider = ANTHROPIC, mc_model = m, mc_max_tokens = tokens, mc_temperature = temp,
      mc_thinking_budget = thinking, mc_min_response_tokens = reserve\<rparr>"

definition technology_readiness_config :: model_config where
  "technology_readiness_config =
     anthropic_config ''claude-sonnet-4-6'' 6000 (2 / 10) 5000 None"

definition BASE_MODEL_ROUTING :: "phase \<rightharpoonup> model_config" where
  "BASE_MODEL_ROUTING = map_of
     [(''classify'', anthropic_config ''claude-haiku-4-5-20251001'' 4000 (2 / 10) 0 None),
      (''hypotheses'', anthropic_config ''claude-opus-4-6'' 6000 (4 / 10) 15000 None),
      (''gauntlet'', anthropic_config ''claude-sonnet-4-6'' 6000 (3 / 10) 2000 None),
      (''audit'', anthropic_config ''claude-sonnet-4-6'' 6000 (3 / 10) 5000 None),
      (''strategy'', anthropic_config ''claude-opus-4-6'' 8000 (4 / 10) 4000 (Some 4000)),
      (''sqi'', anthropic_config ''claude-sonnet-4-6'' 6000 (2 / 10) 5000 None),
      (''monitor'', anthropic_config ''claude-sonnet-4-6'' 4000 (3 / 10) 0 None),
      (''report'', anthropic_config ''claude-sonnet-4-6'' 8000 (3 / 10) 10000 None)]"

definition MODEL_ROUTING :: "phase \<rightharpoonup> model_config" where
  "MODEL_ROUTING =
     fold (\<lambda>p m. setdefault m p technology_readiness_config)
       TECHNOLOGY_READINESS_PHASE_SEQUENCE BASE_MODEL_ROUTING"

fun FALLBACK_CHAIN :: "provider \<Rightarrow> string list" where
  "FALLBACK_CHAIN ANTHROPIC = [''claude-sonnet-4-6'', ''claude-haiku-4-5-20251001'']"
| "FALLBACK_CHAIN OPENAI = [''gpt-5'', ''gpt-5-mini'']"

definition TASK_PROFILE_BY_PHASE :: "phase \<rightharpoonup> string" where
  "TASK_PROFILE_BY_PHASE = map_of
     [(''classify'', ''fast_classification''), (''hypotheses'', ''deep_reasoning''),
      (''gauntlet'', ''deep_reasoning''), (''audit'', ''deep_reasoning''),
      (''strategy'', ''deep_reasoning''), (''sqi'', ''strict_structured_output''),
      (''monitor'', ''monitoring_ops''), (''report'', ''report_synthesis''),
      (''scope'', ''strict_structured_output''), (''scientific_inventory'', ''deep_reasoning''),
      (''trl_diagnosis'', ''deep_reasoning''),
      (''research_industry_alignment'', ''deep_reasoning''),
      (''ip_protection_axis'', ''deep_reasoning''),
      (''next_level_recommendations'', ''deep_reasoning''),
      (''technical_validation_plan'', ''deep_reasoning''),
      (''industrial_transfer_plan'', ''deep_reasoning''),
      (''readiness_roadmap'', ''deep_reasoning''), (''executive_summary'', ''report_synthesis'')]"

definition TASK_PROFILE_MODEL_CANDIDATES :: "string \<rightharpoonup> string list" where
  "TASK_PROFILE_MODEL_CANDIDATES = map_of
     [(''fast_classification'',
         [''phase_default'', ''anthropic:claude-sonnet-4-6'', ''openai:gpt-5-mini'']),
      (''deep_reasoning'',
         [''phase_default'', ''anthropic:claude-sonnet-4-6'', ''openai:gpt-5'']),
      (''strict_structured_output'',
         [''phase_default'', ''anthropic:claude-haiku-4-5-20251001'', ''openai:gpt-5-mini'']),
      (''report_synthesis'',
         [''phase_default'', ''anthropic:claude-opus-4-6'', ''openai:gpt-5'']),
      (''monitoring_ops'',
         [''phase_default'', ''anthropic:claude-haiku-4-5-20251001'', ''openai:gpt-5-mini''])]"

subsection \<open>Phases, gates and triggers\<close>

definition PHASES :: "phase list" where
  "PHASES = [''classify'', ''hypotheses'', ''gauntlet'', ''audit'', ''strategy'', ''sqi'',
     ''monitor'', ''report'']"

definition PHASE_ORDER :: "phase list" where
  "PHASE_ORDER = [''classify'', ''hypotheses'', ''audit'', ''strategy'', ''monitor'', ''report'']"

definition SUPPORT_PHASES :: "phase list" where
  "SUPPORT_PHASES = [''gauntlet'', ''sqi'']"

record gate_config =
  min_confidence :: real
  required_fields :: "string list"
  bayesian_threshold :: "real option"
  dq_minimum :: "real option"

definition gate_of :: "real \<Rightarrow> string list \<Rightarrow> gate_config" where
  "gate_of c fs =
     \<lparr>min_confidence = c, required_fields = fs, bayesian_threshold = None, dq_minimum = None\<rparr>"

definition GATE_CONFIGS :: "phase \<rightharpoonup> gate_config" where
  "GATE_CONFIGS = map_of
     [(''classify'',
         \<lparr>min_confidence = 70 / 100,
          required_fields = [''domain'', ''bf'', ''variety_gaps'', ''ooda'', ''dq''],
          bayesian_threshold = Some 10, dq_minimum = Some 60\<rparr>),
      (''hypotheses'',
         \<lparr>min_confidence = 70 / 100, required_fields = [''hypotheses''],
          bayesian_threshold = None, dq_minimum = Some 60\<rparr>),
      (''audit'', gate_of (65 / 100) [''fmea'', ''top_findings'']),
      (''strategy'', gate_of (60 / 100) [''strategies'', ''preliminary_verdicts'']),
      (''monitor'', gate_of (50 / 100) []),
      (''report'', gate_of (70 / 100) []),
      (''scope'',
         gate_of (60 / 100) [''technology_name'', ''assessment_boundary'', ''target_environment'']),
      (''scientific_inventory'', gate_of (60 / 100) [''scientific_basis'', ''evidence_items'']),
      (''trl_diagnosis'',
         gate_of (60 / 100) [''current_trl'', ''target_trl'', ''why_not_higher'',
           ''legal_or_certification_disclaimer'']),
      (''research_industry_alignment'',
         gate_of (60 / 100) [''criteria_scores'', ''overall_alignment_score'']),
      (''ip_protection_axis'',
         gate_of (60 / 100) [''ip_risk_notes'', ''specialist_review_required'']),
      (''next_level_recommendations'',
         gate_of (60 / 100) [''current_trl'', ''next_target_trl'', ''required_evidence'',
           ''advancement_criteria'']),
      (''technical_validation_plan'',
         gate_of (60 / 100) [''validation_tests'', ''acceptance_criteria'',
           ''evidence_to_collect'']),
      (''industrial_transfer_plan'',
         gate_of (60 / 100) [''ideal_industrial_partner'', ''minimum_transfer_package'',
           ''evidence_required_before_transfer'']),
      (''readiness_roadmap'',
         gate_of (60 / 100) [''roadmap_phases'', ''decision_gates'', ''go_no_go_criteria'']),
      (''executive_summary'',
         gate_of (60 / 100) [''current_trl'', ''readiness_verdict_code'', ''readiness_verdict'',
           ''operator_summary''])]"

text \<open>Each trigger with its condition name and the phase it re-enters.\<close>

definition REENTRY_TRIGGERS :: "(string \<times> string \<times> phase) list" where
  "REENTRY_TRIGGERS =
     [(''R1'', ''assumption_shift_gt_2sigma'', ''hypotheses''),
      (''R2'', ''domain_reclassified'', ''classify''),
      (''R3'', ''scope_change'', ''classify''),
      (''R4'', ''portfolio_rho_gt_05'', ''hypotheses''),
      (''R5'', ''all_hypotheses_futile'', ''hypotheses''),
      (''R6'', ''majority_futile'', ''audit''),
      (''R7'', ''slo_3_cycles'', ''strategy''),
      (''R8'', ''commitment_below_50'', ''monitor'')]"

definition reentry_target :: "string \<Rightarrow> phase option" where
  "reentry_target r = map_option snd (map_of REENTRY_TRIGGERS r)"

definition INVALIDATION_MAP :: "phase \<rightharpoonup> phase list" where
  "INVALIDATION_MAP = map_of
     [(''classify'', [''hypotheses'', ''gauntlet'', ''audit'', ''strategy'', ''sqi'', ''monitor'',
         ''report'']),
      (''hypotheses'', [''gauntlet'', ''audit'', ''strategy'', ''sqi'', ''monitor'', ''report'']),
      (''gauntlet'', [''audit'', ''strategy'', ''sqi'', ''monitor'', ''report'']),
      (''audit'', [''strategy'', ''sqi'', ''monitor'', ''report'']),
      (''strategy'', [''sqi'', ''monitor'', ''report'']),
      (''sqi'', []),
      (''monitor'', [''report'']),
      (''report'', [])]"

subsection \<open>Environment\<close>

definition env_flag :: "(string \<rightharpoonup> string) \<Rightarrow> string \<Rightarrow> bool \<Rightarrow> bool" where
  "env_flag env name dflt =
     (case env name of
        None \<Rightarrow> dflt
      | Some v \<Rightarrow> py_lower (py_strip v) \<in> {''1'', ''true'', ''yes'', ''on''})"

record operator_auth_config =
  api_key :: string
  require_operator_auth :: bool

definition get_operator_auth_config :: "(string \<rightharpoonup> string) \<Rightarrow> operator_auth_config" where
  "get_operator_auth_config env =
     \<lparr>api_key = py_strip (dict_get env ''MAS_OPERATOR_API_KEY'' ''''),
      require_operator_auth = env_flag env ''MAS_REQUIRE_OPERATOR_AUTH'' False\<rparr>"

definition auth_configured :: "operator_auth_config \<Rightarrow> bool" where
  "auth_configured c \<longleftrightarrow> api_key c \<noteq> ''''"

definition PROVIDER_TELEMETRY_POSTURES :: "string list" where
  "PROVIDER_TELEMETRY_POSTURES = [''off'', ''observational'', ''strict'']"

definition provider_telemetry_posture :: "(string \<rightharpoonup> string) \<Rightarrow> string" where
  "provider_telemetry_posture env =
     (let raw = py_lower (py_strip (dict_get env ''MAS_PROVIDER_TELEMETRY_POSTURE'' ''''))
      in if raw \<in> set PROVIDER_TELEMETRY_POSTURES then raw
         else if raw = '''' \<and> env_flag env ''MAS_PROVIDER_ATTEMPT_TELEMETRY_ENABLED'' False
         then ''observational''
         else ''off'')"

text \<open>
  Python's \<open>int\<close> of a stripped string: an optional sign and digits, single underscores
  allowed between digits; \<open>None\<close> is \<open>ValueError\<close>.
\<close>

definition is_digit :: "char \<Rightarrow> bool" where
  "is_digit c \<longleftrightarrow> 48 \<le> code c \<and> code c \<le> 57"

fun parse_digits :: "int \<Rightarrow> string \<Rightarrow> int option" where
  "parse_digits acc [] = Some acc"
| "parse_digits acc (c # cs) =
     (if is_digit c then parse_digits (10 * acc + (int (code c) - 48)) cs
      else if c = CHR ''_''
      then (case cs of
              [] \<Rightarrow> None
            | d # ds \<Rightarrow>
                if is_digit d then parse_digits (10 * acc + (int (code d) - 48)) ds else None)
      else None)"

definition parse_unsigned :: "string \<Rightarrow> int option" where
  "parse_unsigned s = (case s of [] \<Rightarrow> None | c # _ \<Rightarrow> if is_digit c then parse_digits 0 s else None)"

definition py_int :: "string \<Rightarrow> int option" where
  "py_int s =
     (case s of
        [] \<Rightarrow> None
      | c # cs \<Rightarrow>
          if c = CHR ''-'' then map_option uminus (parse_unsigned cs)
          else if c = CHR ''+'' then parse_unsigned cs
          else parse_unsigned s)"

datatype evidence_source_configuration_error = Evidence_max_bytes_not_integer

definition evidence_source_max_bytes ::
  "(string \<rightharpoonup> string) \<Rightarrow> (evidence_source_configuration_error, int) result" where
  "evidence_source_max_bytes env =
     (let raw = py_strip (dict_get env ''MAS_EVIDENCE_SOURCE_MAX_BYTES'' '''')
      in if raw = '''' then Ok 5000000
         else case py_int raw of
                None \<Rightarrow> Err Evidence_max_bytes_not_integer
              | Some configured \<Rightarrow> Ok (max 1 configured))"

text \<open>
  \<open>_env_json_map\<close> and \<open>_env_json_candidate_map\<close>: \<open>loads\<close> is \<open>json.loads\<close> (\<open>None\<close> for a
  decoding error) and \<open>str_of\<close> is \<open>str\<close> on decoded values.
\<close>

definition env_json_map ::
  "(string \<Rightarrow> jval option) \<Rightarrow> (jval \<Rightarrow> string) \<Rightarrow> (string \<rightharpoonup> string) \<Rightarrow> string \<Rightarrow> (string \<rightharpoonup> string)" where
  "env_json_map loads str_of env name =
     (let raw = py_strip (dict_get env name '''')
      in if raw = '''' then Map.empty
         else case loads raw of
                Some (JObj members) \<Rightarrow> map_of (rev (map (\<lambda>(k, v). (k, str_of v)) members))
              | _ \<Rightarrow> Map.empty)"

fun candidate_entry ::
  "(jval \<Rightarrow> string) \<Rightarrow> string \<times> jval \<Rightarrow> (string \<rightharpoonup> string list) \<Rightarrow> (string \<rightharpoonup> string list)" where
  "candidate_entry str_of (k, JList items) m = m(k \<mapsto> map str_of items)"
| "candidate_entry str_of (k, JStr s) m = m(k \<mapsto> [s])"
| "candidate_entry str_of (k, _) m = m"

definition env_json_candidate_map ::
  "(string \<Rightarrow> jval option) \<Rightarrow> (jval \<Rightarrow> string) \<Rightarrow> (string \<rightharpoonup> string) \<Rightarrow> string \<Rightarrow>
   (string \<rightharpoonup> string list)" where
  "env_json_candidate_map loads str_of env name =
     (let raw = py_strip (dict_get env name '''')
      in if raw = '''' then Map.empty
         else case loads raw of
                Some (JObj members) \<Rightarrow> fold (candidate_entry str_of) members Map.empty
              | _ \<Rightarrow> Map.empty)"

subsection \<open>Retry and breaker constants\<close>

definition MAX_RETRIES :: nat where
  "MAX_RETRIES = 3"

definition RETRY_DELAYS :: "real list" where
  "RETRY_DELAYS = [1, 3, 10]"

definition CIRCUIT_BREAKER_THRESHOLD :: int where
  "CIRCUIT_BREAKER_THRESHOLD = 5"

definition CIRCUIT_BREAKER_COOLDOWN :: real where
  "CIRCUIT_BREAKER_COOLDOWN = 60"

subsection \<open>Lemmas\<close>

definition model_config_wf :: "model_config \<Rightarrow> bool" where
  "model_config_wf m \<longleftrightarrow>
     0 < mc_max_tokens m \<and> 0 \<le> mc_thinking_budget m \<and>
     (\<forall>r. mc_min_response_tokens m = Some r \<longrightarrow>
        0 \<le> r \<and> mc_provider m = ANTHROPIC \<and>
        (0 < mc_thinking_budget m \<longrightarrow> mc_thinking_budget m + r \<le> mc_max_tokens m))"

lemma provider_value_inject [simp]: "provider_value p = provider_value q \<longleftrightarrow> p = q"
  by (cases p; cases q) simp_all

lemma post_init_Ok_iff: "model_config_post_init m = Ok m' \<longleftrightarrow> m' = m \<and> model_config_wf m"
  by (cases "mc_provider m")
     (auto simp: model_config_post_init_def model_config_wf_def
        RESPONSE_RESERVATION_PROVIDER_VALUES_def split: option.splits)

lemma post_init_error: "(\<exists>e. model_config_post_init m = Err e) \<longleftrightarrow> \<not> model_config_wf m"
  by (metis post_init_Ok_iff sum.exhaust sum.distinct(1))

lemma MODEL_ROUTING_eq:
  "MODEL_ROUTING p =
     (if p \<in> set TECHNOLOGY_READINESS_PHASE_SEQUENCE then Some technology_readiness_config
      else BASE_MODEL_ROUTING p)"
  by (simp add: MODEL_ROUTING_def TECHNOLOGY_READINESS_PHASE_SEQUENCE_def setdefault_def
      BASE_MODEL_ROUTING_def)

lemma MODEL_ROUTING_wf: "MODEL_ROUTING p = Some m \<Longrightarrow> model_config_wf m"
  by (auto simp: MODEL_ROUTING_eq BASE_MODEL_ROUTING_def technology_readiness_config_def
      anthropic_config_def model_config_wf_def split: if_splits)

lemma evidence_bytes_positive: "evidence_source_max_bytes env = Ok n \<Longrightarrow> 1 \<le> n"
  by (auto simp: evidence_source_max_bytes_def Let_def split: if_splits option.splits)

lemma posture_known: "provider_telemetry_posture env \<in> set PROVIDER_TELEMETRY_POSTURES"
  by (simp add: provider_telemetry_posture_def PROVIDER_TELEMETRY_POSTURES_def Let_def)

end
