(* ===== verification/State.thy ===== *)
theory State
  imports Policy Config
begin

text \<open>
  The shared blackboard (\<open>mas/state.py\<close>): the phase outputs, the project state with its phase
  lifecycle, the strategy contract and the reconstruction of a persisted state.

  \<open>project_state\<close> extends the policy attributes of theory Policy. A typed phase output is a
  record with the fields the program computes with; the ten technology-readiness outputs,
  which the program only reads generically, are their attribute lists, in one map keyed by the
  phase. Validation by the model classes is third-party code and enters as functions from the
  decoded payload.
\<close>

subsection \<open>Enumerations and input normalisation\<close>

datatype phase_status = PENDING | RUNNING | COMPLETED | FAILED | STALE

fun phase_status_value :: "phase_status \<Rightarrow> string" where
  "phase_status_value PENDING = ''pending''"
| "phase_status_value RUNNING = ''running''"
| "phase_status_value COMPLETED = ''completed''"
| "phase_status_value FAILED = ''failed''"
| "phase_status_value STALE = ''stale''"

definition phase_status_of_value :: "string \<Rightarrow> phase_status option" where
  "phase_status_of_value v = map_of
     [(''pending'', PENDING), (''running'', RUNNING), (''completed'', COMPLETED),
      (''failed'', FAILED), (''stale'', STALE)] v"

text \<open>A status as found in a raw dictionary: absent, a string, or anything else.\<close>

fun coerce_phase_status :: "jval option \<Rightarrow> phase_status" where
  "coerce_phase_status (Some (JStr v)) =
     (case phase_status_of_value v of None \<Rightarrow> PENDING | Some s \<Rightarrow> s)"
| "coerce_phase_status _ = PENDING"

datatype verdict = LIKELY_CONFIRMED | LIKELY_REJECTED | NEEDS_MONITORING | CONFIRMED | REJECTED

datatype priority = P_CRITICAL | P_HIGH | P_MEDIUM | P_LOW

fun priority_value :: "priority \<Rightarrow> string" where
  "priority_value P_CRITICAL = ''CRITICAL''"
| "priority_value P_HIGH = ''HIGH''"
| "priority_value P_MEDIUM = ''MEDIUM''"
| "priority_value P_LOW = ''LOW''"

datatype state_error =
    Bad_output_language string
  | Bad_report_mode string
  | Strategy_not_object
  | Strategy_missing_keys "string list"
  | Schema_error string
  | Workflow_failure workflow_error
  | Division_by_zero
  | Index_error

definition normalize_output_language :: "jval \<Rightarrow> (state_error, string) result" where
  "normalize_output_language value =
     (let normalized = (case value of JStr s \<Rightarrow> py_strip s | _ \<Rightarrow> '''')
      in if normalized \<in> {''en'', ''es-MX''} then Ok normalized
         else Err (Bad_output_language normalized))"

definition normalize_report_mode :: "jval \<Rightarrow> (state_error, string) result" where
  "normalize_report_mode value =
     (let normalized = (case value of JStr s \<Rightarrow> py_strip s | _ \<Rightarrow> '''')
      in if normalized \<in> {''standard'', ''decision_memo_pilot_plan''} then Ok normalized
         else Err (Bad_report_mode normalized))"

text \<open>
  \<open>_priority_label_key\<close>: upper case, hyphens to spaces, runs of white space to one underscore.
\<close>

fun split_ws :: "string \<Rightarrow> string \<Rightarrow> string list" where
  "split_ws acc [] = (if acc = [] then [] else [rev acc])"
| "split_ws acc (c # cs) =
     (if py_isspace c then (if acc = [] then split_ws [] cs else rev acc # split_ws [] cs)
      else split_ws (c # acc) cs)"

definition priority_label_key :: "string \<Rightarrow> string" where
  "priority_label_key value =
     join_with ''_''
       (split_ws [] (map (\<lambda>c. if c = CHR ''-'' then CHR '' '' else c)
          (map upper_char (py_strip value))))"

definition ALLOWED_PRIORITY_LABELS :: "string list" where
  "ALLOWED_PRIORITY_LABELS = map priority_value [P_CRITICAL, P_HIGH, P_MEDIUM, P_LOW]"

definition LOW_PRIORITY_SEMANTIC_ALIASES :: "string list" where
  "LOW_PRIORITY_SEMANTIC_ALIASES =
     [''DEFERRED'', ''BLOCKED'', ''DEFER'', ''DO_NOT_START'', ''DO_NOT_DO'', ''PARKED'']"

text \<open>The \<open>before\<close> validator of \<open>StrategyAction.priority\<close>, on string values.\<close>

definition normalize_priority_aliases :: "string \<Rightarrow> string" where
  "normalize_priority_aliases value =
     (let key = priority_label_key value
      in if key \<in> set LOW_PRIORITY_SEMANTIC_ALIASES then priority_value P_LOW
         else if key \<in> set ALLOWED_PRIORITY_LABELS then key
         else value)"

subsection \<open>Phase outputs\<close>

record ooda_loop =
  oo_observe :: string
  oo_orient :: string
  oo_decide :: string
  oo_act :: string
  oo_freq :: string

record classify_output =
  cl_domain :: string
  cl_justification :: string
  cl_bf :: real
  cl_variety_env :: string
  cl_variety_sys :: string
  cl_variety_gaps :: jval
  cl_variety_decision :: string
  cl_ooda :: ooda_loop
  cl_rpd_pattern :: string
  cl_sensemaking_anchors :: jval
  cl_expectancy_violations :: jval
  cl_reference_class :: string
  cl_dq :: "real list"
  cl_maturity_assessment :: string
  cl_spiral_depth :: string

record hypothesis =
  hy_id :: string
  hy_text :: string
  hy_justification :: string
  hy_signal :: string
  hy_alpha :: real
  hy_beta :: real
  hy_confirm :: string
  hy_reject :: string
  hy_evoi :: string
  hy_portfolio_cluster :: string
  hy_status :: string
  hy_evidence_ids :: "string list"

record gauntlet_output =
  ga_results :: "(string \<times> jval) list list"
  ga_portfolio_correlation :: real
  ga_mece_gaps :: string
  ga_thompson_priority :: string
  ga_evoi_ranking :: string

record audit_output =
  au_data_based :: bool
  au_fmea :: "(string \<times> jval) list list"
  au_hazop :: "(string \<times> jval) list list"
  au_stpa :: "(string \<times> jval) list list"
  au_fta :: "(string \<times> jval) list"
  au_swiss_cheese :: "(string \<times> jval) list"
  au_top_findings :: "string list"
  au_h_norm_estimate :: string
  au_observation_needs :: "string list"

record preliminary_verdict =
  pv_id :: string
  pv_verdict :: verdict
  pv_evidence :: string
  pv_monitoring_plan :: string

record strategy_action =
  sa_priority :: priority
  sa_action :: string
  sa_justification :: string
  sa_evidence_chain :: string
  sa_expected_impact :: string
  sa_effort :: string
  sa_timeline :: string
  sa_risk_if_ignored :: string
  sa_framework_source :: string

record strategy_output =
  st_preliminary_verdicts :: "preliminary_verdict list"
  st_executive_strategy :: string
  st_strategies :: "strategy_action list"
  st_implementation_sequence :: string
  st_success_metrics :: "string list"
  st_monitoring_plan :: string
  st_review_date :: string
  st_confidence :: string
  st_reentry_check :: string

record det_scores =
  ds_overall :: int
  ds_specificity :: int
  ds_mece :: int
  ds_evidence_linkage :: int
  ds_consistency :: int
  ds_actionability :: int
  ds_contradictions :: "(priority \<times> priority) list"

record prediction =
  pr_hypothesis_id :: string
  pr_predicted_probability :: real
  pr_actual_outcome :: "bool option"

record failure_diagnostic =
  fd_phase :: string
  fd_category :: string
  fd_message :: string

datatype trigger_detail =
    Prior_but_rejected string real
  | Correlation real
  | All_rejected nat
  | Some_rejected nat nat

record fired_trigger =
  ft_condition :: string
  ft_target :: phase
  ft_detail :: trigger_detail
  ft_ts :: string

subsection \<open>The project state\<close>

record project_state = policy_state +
  project_id :: string
  project_type :: string
  brief :: string
  output_language :: string
  report_mode :: string
  phase_status :: "phase \<rightharpoonup> phase_status"
  phase_confidence :: "phase \<rightharpoonup> real"
  phase_run_completed_at :: "phase \<rightharpoonup> string"
  phase_failure_details :: "phase \<rightharpoonup> failure_diagnostic"
  re_entry_count :: "phase \<rightharpoonup> int"
  classify_out :: "classify_output option"
  hypotheses_out :: "hypothesis list option"
  gauntlet_out :: "gauntlet_output option"
  sealed :: bool
  seal_date :: "string option"
  audit_out :: "audit_output option"
  audit_raw :: "string option"
  strategy_out :: "strategy_output option"
  strategy_raw :: "string option"
  monitor_out :: "(string \<times> jval) list option"
  sqi_out :: "(string \<times> jval) list option"
  det_scores_of :: "det_scores option"
  tr_outputs :: "phase \<rightharpoonup> (string \<times> jval) list"
  report_text :: "string option"
  report_output_language :: "string option"
  report_output_mode :: "string option"
  predictions :: "prediction list"
  brier_score :: "real option"
  reentry_triggers_fired :: "fired_trigger list"
  intake_sanitization_findings :: "jval option"
  phase_summaries :: "phase \<rightharpoonup> string"

definition status_of :: "project_state \<Rightarrow> phase \<Rightarrow> phase_status" where
  "status_of s p = dict_get (phase_status s) p PENDING"

definition pop :: "('k \<rightharpoonup> 'v) \<Rightarrow> 'k \<Rightarrow> ('k \<rightharpoonup> 'v)" where
  "pop m k = m(k := None)"

lemma pop_simps [simp]: "pop m k k' = (if k' = k then None else m k')" "dom (pop m k) = dom m - {k}"
  by (auto simp: pop_def)

text \<open>\<open>getattr(state, phase, None) is None\<close>, and \<open>setattr(state, phase, None)\<close>.\<close>

definition output_is_None :: "project_state \<Rightarrow> phase \<Rightarrow> bool" where
  "output_is_None s p =
     (if p = ''classify'' then classify_out s = None
      else if p = ''hypotheses'' then hypotheses_out s = None
      else if p = ''gauntlet'' then gauntlet_out s = None
      else if p = ''audit'' then audit_out s = None
      else if p = ''strategy'' then strategy_out s = None
      else if p = ''sqi'' then sqi_out s = None
      else if p = ''monitor'' then monitor_out s = None
      else if p = ''report'' then report_text s = None
      else tr_outputs s p = None)"

text \<open>The value of the output attribute of a phase.\<close>

datatype phase_output =
    Out_classify "classify_output option"
  | Out_hypotheses "hypothesis list option"
  | Out_gauntlet "gauntlet_output option"
  | Out_audit "audit_output option"
  | Out_strategy "strategy_output option"
  | Out_sqi "(string \<times> jval) list option"
  | Out_monitor "(string \<times> jval) list option"
  | Out_report "string option"
  | Out_readiness "(string \<times> jval) list option"

definition output_of :: "project_state \<Rightarrow> phase \<Rightarrow> phase_output" where
  "output_of s p =
     (if p = ''classify'' then Out_classify (classify_out s)
      else if p = ''hypotheses'' then Out_hypotheses (hypotheses_out s)
      else if p = ''gauntlet'' then Out_gauntlet (gauntlet_out s)
      else if p = ''audit'' then Out_audit (audit_out s)
      else if p = ''strategy'' then Out_strategy (strategy_out s)
      else if p = ''sqi'' then Out_sqi (sqi_out s)
      else if p = ''monitor'' then Out_monitor (monitor_out s)
      else if p = ''report'' then Out_report (report_text s)
      else Out_readiness (tr_outputs s p))"

definition set_output_None :: "project_state \<Rightarrow> phase \<Rightarrow> project_state" where
  "set_output_None s p =
     (if p = ''classify'' then s\<lparr>classify_out := None\<rparr>
      else if p = ''hypotheses'' then s\<lparr>hypotheses_out := None\<rparr>
      else if p = ''gauntlet'' then s\<lparr>gauntlet_out := None\<rparr>
      else if p = ''audit'' then s\<lparr>audit_out := None\<rparr>
      else if p = ''strategy'' then s\<lparr>strategy_out := None\<rparr>
      else if p = ''sqi'' then s\<lparr>sqi_out := None\<rparr>
      else if p = ''monitor'' then s\<lparr>monitor_out := None\<rparr>
      else if p = ''report'' then s\<lparr>report_text := None\<rparr>
      else s\<lparr>tr_outputs := pop (tr_outputs s) p\<rparr>)"

lemma output_None_set [simp]:
  "output_is_None (set_output_None s p) q \<longleftrightarrow> q = p \<or> output_is_None s q"
  by (auto simp: output_is_None_def set_output_None_def)

lemma output_of_set [simp]: "q \<noteq> p \<Longrightarrow> output_of (set_output_None s p) q = output_of s q"
  by (auto simp: output_of_def set_output_None_def)

lemma output_of_updates [simp]:
  "output_of (s\<lparr>phase_status := x0\<rparr>) q = output_of s q"
  "output_of (s\<lparr>phase_confidence := x1\<rparr>) q = output_of s q"
  "output_of (s\<lparr>phase_summaries := x2\<rparr>) q = output_of s q"
  "output_of (s\<lparr>phase_failure_details := x3\<rparr>) q = output_of s q"
  "output_of (s\<lparr>phase_run_completed_at := x4\<rparr>) q = output_of s q"
  "output_of (s\<lparr>report_output_language := x5\<rparr>) q = output_of s q"
  "output_of (s\<lparr>report_output_mode := x6\<rparr>) q = output_of s q"
  "output_of (s\<lparr>audit_raw := x7\<rparr>) q = output_of s q"
  "output_of (s\<lparr>strategy_raw := x8\<rparr>) q = output_of s q"
  "output_of (s\<lparr>det_scores_of := x9\<rparr>) q = output_of s q"
  "output_of (s\<lparr>sealed := x10\<rparr>) q = output_of s q"
  "output_of (s\<lparr>seal_date := x11\<rparr>) q = output_of s q"
  "output_of (s\<lparr>current_phase := x12\<rparr>) q = output_of s q"
  "output_of (s\<lparr>re_entry_count := x13\<rparr>) q = output_of s q"
  "output_of (s\<lparr>reentry_triggers_fired := x14\<rparr>) q = output_of s q"
  "output_of (s\<lparr>brier_score := x15\<rparr>) q = output_of s q"
  "output_of (s\<lparr>brief := x16\<rparr>) q = output_of s q"
  "output_of (s\<lparr>intake_sanitization_findings := x17\<rparr>) q = output_of s q"
  "output_of (s\<lparr>predictions := x18\<rparr>) q = output_of s q"
  by (simp_all add: output_of_def)

lemma output_of_clear [simp]:
  "q \<noteq> ''strategy'' \<Longrightarrow> output_of (s\<lparr>strategy_out := None\<rparr>) q = output_of s q"
  "q \<noteq> ''report'' \<Longrightarrow> output_of (s\<lparr>report_text := r\<rparr>) q = output_of s q"
  by (simp_all add: output_of_def)

lemma set_output_None_frame [simp]:
  "phase_status (set_output_None s p) = phase_status s"
  "phase_confidence (set_output_None s p) = phase_confidence s"
  "phase_summaries (set_output_None s p) = phase_summaries s"
  "phase_run_completed_at (set_output_None s p) = phase_run_completed_at s"
  "phase_failure_details (set_output_None s p) = phase_failure_details s"
  "project_type (set_output_None s p) = project_type s"
  "re_entry_count (set_output_None s p) = re_entry_count s"
  "audit_raw (set_output_None s p) = audit_raw s"
  "strategy_raw (set_output_None s p) = strategy_raw s"
  "policy_state.truncate (set_output_None s p) = policy_state.truncate s"
  by (simp_all add: set_output_None_def policy_state.defs)

text \<open>\<open>bool(getattr(state, phase))\<close> for the report, \<open>is not None\<close> for the others.\<close>

definition output_present :: "project_state \<Rightarrow> phase \<Rightarrow> bool" where
  "output_present s p =
     (if p = ''report'' then (case report_text s of None \<Rightarrow> False | Some r \<Rightarrow> r \<noteq> '''')
      else \<not> output_is_None s p)"

subsection \<open>Invalidating the strategy and what is derived from it\<close>

definition STRATEGY_DERIVED_PHASES :: "phase list" where
  "STRATEGY_DERIVED_PHASES = [''sqi'', ''monitor'', ''report'']"

definition cone_had_lifecycle :: "project_state \<Rightarrow> phase \<Rightarrow> bool" where
  "cone_had_lifecycle s p \<longleftrightarrow>
     status_of s p \<noteq> PENDING \<or> p \<in> dom (phase_confidence s) \<or> p \<in> dom (phase_summaries s) \<or>
     p \<in> dom (phase_run_completed_at s) \<or> p \<in> dom (phase_failure_details s)"

definition drop_lifecycle :: "project_state \<Rightarrow> phase \<Rightarrow> project_state" where
  "drop_lifecycle s p =
     s\<lparr>phase_confidence := pop (phase_confidence s) p,
       phase_summaries := pop (phase_summaries s) p,
       phase_run_completed_at := pop (phase_run_completed_at s) p,
       phase_failure_details := pop (phase_failure_details s) p\<rparr>"

definition cone_step :: "project_state \<Rightarrow> phase \<Rightarrow> project_state \<times> bool" where
  "cone_step s p =
     (let had = output_present s p \<or> cone_had_lifecycle s p;
          s1 = set_output_None s p;
          s2 = (if p = ''report''
                then s1\<lparr>report_output_language := None, report_output_mode := None\<rparr> else s1);
          s3 = (if had then s2\<lparr>phase_status := (phase_status s2)(p \<mapsto> STALE)\<rparr> else s2)
      in (drop_lifecycle s3 p, had))"

fun cone_loop :: "project_state \<Rightarrow> phase list \<Rightarrow> project_state \<times> phase list" where
  "cone_loop s [] = (s, [])"
| "cone_loop s (p # ps) =
     (let (s', had) = cone_step s p; (s'', ivs) = cone_loop s' ps
      in (s'', if had then p # ivs else ivs))"

definition invalidate_strategy_dependency_cone ::
  "project_state \<Rightarrow> phase_status option \<Rightarrow> failure_diagnostic option \<Rightarrow>
   project_state \<times> phase list" where
  "invalidate_strategy_dependency_cone s strategy_status strategy_failure =
     (let (s1, invalidated) = cone_loop s STRATEGY_DERIVED_PHASES;
          s2 = drop_lifecycle (s1\<lparr>strategy_out := None, strategy_raw := None,
                 det_scores_of := None\<rparr>) ''strategy'';
          s3 = (case strategy_status of None \<Rightarrow> s2
                | Some st \<Rightarrow> s2\<lparr>phase_status := (phase_status s2)(''strategy'' \<mapsto> st)\<rparr>);
          s4 = (case strategy_failure of None \<Rightarrow> s3
                | Some f \<Rightarrow> s3\<lparr>phase_failure_details := (phase_failure_details s3)(''strategy'' \<mapsto> f)\<rparr>)
      in (s4, invalidated))"

subsection \<open>The strategy contract\<close>

definition STRATEGY_REQUIRED_TOP_LEVEL_KEYS :: "string list" where
  "STRATEGY_REQUIRED_TOP_LEVEL_KEYS =
     [''preliminary_verdicts'', ''executive_strategy'', ''strategies'',
      ''implementation_sequence'', ''success_metrics'', ''monitoring_plan'', ''review_date'',
      ''confidence'', ''reentry_check'']"

fun assoc_set :: "'k \<Rightarrow> 'v \<Rightarrow> ('k \<times> 'v) list \<Rightarrow> ('k \<times> 'v) list" where
  "assoc_set k v [] = [(k, v)]"
| "assoc_set k v ((k', v') # kvs) =
     (if k' = k then (k, v) # kvs else (k', v') # assoc_set k v kvs)"

text \<open>
  \<open>normalize_strategy_payload\<close> on an object: \<open>dumps\<close> is \<open>json.dumps\<close> with the code's
  options.
\<close>

definition normalize_strategy_payload ::
  "(jval \<Rightarrow> string) \<Rightarrow> (string \<times> jval) list \<Rightarrow> (string \<times> jval) list" where
  "normalize_strategy_payload dumps payload =
     (case map_of payload ''reentry_check'' of
        None \<Rightarrow> assoc_set ''reentry_check'' (JStr '''') payload
      | Some JNull \<Rightarrow> assoc_set ''reentry_check'' (JStr '''') payload
      | Some (JList xs) \<Rightarrow> assoc_set ''reentry_check'' (JStr (dumps (JList xs))) payload
      | Some (JObj ms) \<Rightarrow> assoc_set ''reentry_check'' (JStr (dumps (JObj ms))) payload
      | Some _ \<Rightarrow> payload)"

definition strategy_missing_keys :: "(string \<times> jval) list \<Rightarrow> string list" where
  "strategy_missing_keys payload =
     filter (\<lambda>k. k \<notin> fst ` set payload) STRATEGY_REQUIRED_TOP_LEVEL_KEYS"

text \<open>\<open>parse\<close> is the construction of the typed \<open>StrategyOutput\<close> from keyword arguments.\<close>

definition validate_strategy_payload ::
  "(jval \<Rightarrow> string) \<Rightarrow> ((string \<times> jval) list \<Rightarrow> (string, strategy_output) result) \<Rightarrow> jval \<Rightarrow>
   (state_error, strategy_output) result" where
  "validate_strategy_payload dumps parse payload =
     (case payload of
        JObj members \<Rightarrow>
          (case strategy_missing_keys members of
             [] \<Rightarrow>
               (case parse (normalize_strategy_payload dumps members) of
                  Inl e \<Rightarrow> Err (Schema_error e)
                | Inr out \<Rightarrow> Ok out)
           | missing \<Rightarrow> Err (Strategy_missing_keys missing))
      | _ \<Rightarrow> Err Strategy_not_object)"

subsection \<open>Reconstruction of a persisted state\<close>

definition PERSISTED_STRATEGY_CONTRACT :: string where
  "PERSISTED_STRATEGY_CONTRACT = ''persisted_strategy_contract''"

definition pt_of_jval :: "jval option \<Rightarrow> pt_arg" where
  "pt_of_jval v =
     (case v of None \<Rightarrow> PT_Str DEFAULT_PROJECT_TYPE
      | Some (JStr s) \<Rightarrow> PT_Str s | Some JNull \<Rightarrow> PT_None | Some _ \<Rightarrow> PT_Other)"

definition raw_failures :: "jval option \<Rightarrow> (string \<times> jval) list" where
  "raw_failures v = (case v of Some (JObj ms) \<Rightarrow> ms | _ \<Rightarrow> [])"

text \<open>
  The \<open>before\<close> validator: on a strategic project whose raw strategy status is completed, a raw
  strategy that fails the contract is replaced by null and recorded as a failure.
\<close>

definition validate_raw_completed_strategy ::
  "(jval \<Rightarrow> string) \<Rightarrow> ((string \<times> jval) list \<Rightarrow> (string, strategy_output) result) \<Rightarrow>
   (string \<times> jval) list \<Rightarrow> (state_error, (string \<times> jval) list) result" where
  "validate_raw_completed_strategy dumps parse value =
     (case normalize_project_type (pt_of_jval (map_of value ''project_type'')) of
        Inl e \<Rightarrow> Err (Workflow_failure e)
      | Inr pt \<Rightarrow>
          (case get_workflow_phase_sequence (PT_Str pt) of
             Inl e \<Rightarrow> Err (Workflow_failure e)
           | Inr sequence \<Rightarrow>
               if ''strategy'' \<notin> set sequence then Ok value
               else case map_of value ''phase_status'' of
                 Some (JObj st) \<Rightarrow>
                   if coerce_phase_status (map_of st ''strategy'') \<noteq> COMPLETED then Ok value
                   else (case validate_strategy_payload dumps parse
                                (opt_or (map_of value ''strategy'') JNull) of
                           Inr _ \<Rightarrow> Ok value
                         | Inl _ \<Rightarrow>
                             Ok (assoc_set ''phase_failure_details''
                                  (JObj (assoc_set ''strategy''
                                     (JObj [(''phase'', JStr ''strategy''),
                                            (''category'', JStr PERSISTED_STRATEGY_CONTRACT),
                                            (''message'', JStr ''Persisted completed Strategy failed the explicit nine-key contract and was invalidated during state reconstruction.'')])
                                     (raw_failures (map_of value ''phase_failure_details''))))
                                  (assoc_set ''strategy'' JNull value)))
               | _ \<Rightarrow> Ok value))"

text \<open>\<open>model_post_init\<close>: one status per phase of the project's sequence.\<close>

definition model_post_init :: "project_state \<Rightarrow> (state_error, project_state) result" where
  "model_post_init s =
     (case get_workflow_phase_sequence (PT_Str (project_type s)) of
        Inl e \<Rightarrow> Err (Workflow_failure e)
      | Inr sequence \<Rightarrow>
          Ok (s\<lparr>phase_status := (\<lambda>p. if p \<in> set sequence then Some (status_of s p) else None),
                current_phase := (if current_phase s \<in> set sequence then current_phase s
                                  else hd sequence),
                re_entry_count := fold (\<lambda>p m. setdefault m p 0) sequence (re_entry_count s)\<rparr>))"

definition invalidate_failed_raw_completed_strategy :: "project_state \<Rightarrow> project_state" where
  "invalidate_failed_raw_completed_strategy s =
     (case phase_failure_details s ''strategy'' of
        Some f \<Rightarrow>
          if fd_category f = PERSISTED_STRATEGY_CONTRACT
          then fst (invalidate_strategy_dependency_cone s (Some FAILED) (Some f)) else s
      | None \<Rightarrow> s)"

text \<open>
  \<open>ProjectState(**value)\<close>: the \<open>before\<close> validator, the fields (parameter \<open>build_fields\<close>, the
  third-party construction with the field validators), \<open>model_post_init\<close>, the \<open>after\<close>
  validator.
\<close>

definition load_project_state ::
  "(jval \<Rightarrow> string) \<Rightarrow> ((string \<times> jval) list \<Rightarrow> (string, strategy_output) result) \<Rightarrow>
   ((string \<times> jval) list \<Rightarrow> (state_error, project_state) result) \<Rightarrow>
   (string \<times> jval) list \<Rightarrow> (state_error, project_state) result" where
  "load_project_state dumps parse build_fields value =
     (case validate_raw_completed_strategy dumps parse value of
        Inl e \<Rightarrow> Err e
      | Inr value' \<Rightarrow>
          (case build_fields value' of
             Inl e \<Rightarrow> Err e
           | Inr s \<Rightarrow>
               (case model_post_init s of
                  Inl e \<Rightarrow> Err e
                | Inr s' \<Rightarrow> Ok (invalidate_failed_raw_completed_strategy s'))))"

subsection \<open>What the dependency cone clears and keeps\<close>

lemma drop_lifecycle_frame [simp]:
  "phase_status (drop_lifecycle s p) = phase_status s"
  "output_is_None (drop_lifecycle s p) q = output_is_None s q"
  "output_of (drop_lifecycle s p) q = output_of s q"
  "project_type (drop_lifecycle s p) = project_type s"
  "re_entry_count (drop_lifecycle s p) = re_entry_count s"
  "policy_state.truncate (drop_lifecycle s p) = policy_state.truncate s"
  "phase_confidence (drop_lifecycle s p) = pop (phase_confidence s) p"
  "phase_summaries (drop_lifecycle s p) = pop (phase_summaries s) p"
  "phase_run_completed_at (drop_lifecycle s p) = pop (phase_run_completed_at s) p"
  "phase_failure_details (drop_lifecycle s p) = pop (phase_failure_details s) p"
  by (simp_all add: drop_lifecycle_def output_is_None_def policy_state.defs)

lemma output_is_None_updates [simp]:
  "output_is_None (s\<lparr>phase_status := a\<rparr>) q = output_is_None s q"
  "output_is_None (s\<lparr>phase_confidence := b\<rparr>) q = output_is_None s q"
  "output_is_None (s\<lparr>phase_summaries := c\<rparr>) q = output_is_None s q"
  "output_is_None (s\<lparr>phase_failure_details := d\<rparr>) q = output_is_None s q"
  "output_is_None (s\<lparr>phase_run_completed_at := e\<rparr>) q = output_is_None s q"
  "output_is_None (s\<lparr>report_output_language := f\<rparr>) q = output_is_None s q"
  "output_is_None (s\<lparr>report_output_mode := g\<rparr>) q = output_is_None s q"
  "output_is_None (s\<lparr>audit_raw := h\<rparr>) q = output_is_None s q"
  "output_is_None (s\<lparr>strategy_raw := i\<rparr>) q = output_is_None s q"
  "output_is_None (s\<lparr>det_scores_of := j\<rparr>) q = output_is_None s q"
  "output_is_None (s\<lparr>sealed := k\<rparr>) q = output_is_None s q"
  "output_is_None (s\<lparr>seal_date := l\<rparr>) q = output_is_None s q"
  "output_is_None (s\<lparr>current_phase := m\<rparr>) q = output_is_None s q"
  "output_is_None (s\<lparr>re_entry_count := n\<rparr>) q = output_is_None s q"
  by (simp_all add: output_is_None_def)

lemma output_is_None_clear_strategy [simp]:
  "output_is_None (s\<lparr>strategy_out := None\<rparr>) q \<longleftrightarrow>
     q = ''strategy'' \<or> output_is_None s q"
  by (simp add: output_is_None_def)

lemma truncate_updates [simp]:
  "policy_state.truncate (s\<lparr>phase_status := a\<rparr>) = policy_state.truncate s"
  "policy_state.truncate (s\<lparr>phase_failure_details := d\<rparr>) = policy_state.truncate s"
  "policy_state.truncate (s\<lparr>report_output_language := f\<rparr>) = policy_state.truncate s"
  "policy_state.truncate (s\<lparr>report_output_mode := g\<rparr>) = policy_state.truncate s"
  "policy_state.truncate (s\<lparr>strategy_out := x\<rparr>) = policy_state.truncate s"
  "policy_state.truncate (s\<lparr>strategy_raw := y\<rparr>) = policy_state.truncate s"
  "policy_state.truncate (s\<lparr>det_scores_of := z\<rparr>) = policy_state.truncate s"
  by (simp_all add: policy_state.defs)

definition lifecycle_absent :: "project_state \<Rightarrow> phase \<Rightarrow> bool" where
  "lifecycle_absent s p \<longleftrightarrow>
     phase_confidence s p = None \<and> phase_summaries s p = None \<and>
     phase_run_completed_at s p = None \<and> phase_failure_details s p = None"

definition same_phase :: "project_state \<Rightarrow> project_state \<Rightarrow> phase \<Rightarrow> bool" where
  "same_phase s t q \<longleftrightarrow>
     output_of t q = output_of s q \<and> output_is_None t q = output_is_None s q \<and>
     phase_status t q = phase_status s q \<and> phase_confidence t q = phase_confidence s q \<and>
     phase_summaries t q = phase_summaries s q \<and> phase_run_completed_at t q = phase_run_completed_at s q \<and>
     phase_failure_details t q = phase_failure_details s q"

lemma same_phase_trans: "same_phase s t q \<Longrightarrow> same_phase t u q \<Longrightarrow> same_phase s u q"
  by (simp add: same_phase_def)

lemma cone_step_self:
  "cone_step s p = (t, had) \<Longrightarrow>
     output_is_None t p \<and> lifecycle_absent t p \<and>
     (had \<longrightarrow> phase_status t p = Some STALE) \<and>
     (\<not> had \<longrightarrow> phase_status t p = phase_status s p \<and> status_of s p = PENDING)"
  by (auto simp: cone_step_def Let_def lifecycle_absent_def cone_had_lifecycle_def
      split: if_splits)

lemma cone_step_other: "cone_step s p = (t, had) \<Longrightarrow> q \<noteq> p \<Longrightarrow> same_phase s t q"
  by (auto simp: cone_step_def Let_def same_phase_def split: if_splits)

lemma cone_step_frame:
  "cone_step s p = (t, had) \<Longrightarrow>
     project_type t = project_type s \<and> re_entry_count t = re_entry_count s \<and>
     policy_state.truncate t = policy_state.truncate s \<and>
     dom (phase_status s) \<subseteq> dom (phase_status t)"
  by (auto simp: cone_step_def Let_def)

lemma cone_loop_frame:
  "cone_loop s ps = (t, ivs) \<Longrightarrow>
     project_type t = project_type s \<and> re_entry_count t = re_entry_count s \<and>
     policy_state.truncate t = policy_state.truncate s \<and>
     dom (phase_status s) \<subseteq> dom (phase_status t)"
proof (induction ps arbitrary: s ivs)
  case (Cons p ps)
  obtain s1 had where s1: "cone_step s p = (s1, had)" by (cases "cone_step s p")
  obtain ivs' where "cone_loop s1 ps = (t, ivs')"
    using Cons.prems s1 by (auto split: prod.splits)
  from Cons.IH [OF this] cone_step_frame [OF s1] show ?case by (metis subset_trans)
qed simp

lemma cone_loop_other: "cone_loop s ps = (t, ivs) \<Longrightarrow> q \<notin> set ps \<Longrightarrow> same_phase s t q"
proof (induction ps arbitrary: s ivs)
  case (Cons p ps)
  obtain s1 had where s1: "cone_step s p = (s1, had)" by (cases "cone_step s p")
  obtain ivs' where "cone_loop s1 ps = (t, ivs')"
    using Cons.prems s1 by (auto split: prod.splits)
  from Cons.IH [OF this] cone_step_other [OF s1, of q] Cons.prems(2) show ?case
    by (auto intro: same_phase_trans)
qed (simp add: same_phase_def)

lemma cone_loop_listed: "cone_loop s ps = (t, ivs) \<Longrightarrow> set ivs \<subseteq> set ps"
  by (induction ps arbitrary: s ivs) (fastforce split: prod.splits if_splits)+

lemma cone_loop_self:
  "cone_loop s ps = (t, ivs) \<Longrightarrow> distinct ps \<Longrightarrow> q \<in> set ps \<Longrightarrow>
     output_is_None t q \<and> lifecycle_absent t q \<and>
     (q \<in> set ivs \<longrightarrow> phase_status t q = Some STALE) \<and>
     (q \<notin> set ivs \<longrightarrow> status_of t q = PENDING)"
proof (induction ps arbitrary: s ivs)
  case (Cons p ps)
  obtain s1 had where s1: "cone_step s p = (s1, had)" by (cases "cone_step s p")
  obtain ivs' where l: "cone_loop s1 ps = (t, ivs')" and ivs: "ivs = (if had then p # ivs' else ivs')"
    using Cons.prems s1 by (auto split: prod.splits)
  have sub: "set ivs' \<subseteq> set ps"
    using cone_loop_listed [OF l] .
  show ?case
  proof (cases "q = p")
    case True
    with Cons.prems have "same_phase s1 t p" by (intro cone_loop_other [OF l]) simp
    with cone_step_self [OF s1] True sub Cons.prems(2) ivs show ?thesis
      by (auto simp: same_phase_def lifecycle_absent_def status_of_def dict_get_def)
  next
    case False
    with Cons.IH [OF l] Cons.prems ivs show ?thesis by auto
  qed
qed simp

lemma cone_spec:
  assumes "invalidate_strategy_dependency_cone s st f = (t, ivs)"
  shows "q \<in> set STRATEGY_DERIVED_PHASES \<Longrightarrow>
      output_is_None t q \<and> lifecycle_absent t q \<and>
      (q \<in> set ivs \<longrightarrow> phase_status t q = Some STALE) \<and>
      (q \<notin> set ivs \<longrightarrow> status_of t q = PENDING)"
    and "q \<notin> set STRATEGY_DERIVED_PHASES \<Longrightarrow> q \<noteq> ''strategy'' \<Longrightarrow> same_phase s t q"
    and "output_is_None t ''strategy''"
    and "phase_status t ''strategy'' =
           (case st of None \<Rightarrow> phase_status s ''strategy'' | Some x \<Rightarrow> Some x)"
    and "phase_failure_details t ''strategy'' = f"
    and "project_type t = project_type s" "re_entry_count t = re_entry_count s"
      "policy_state.truncate t = policy_state.truncate s"
      "dom (phase_status s) \<subseteq> dom (phase_status t)"
proof -
  obtain s1 where s1: "cone_loop s STRATEGY_DERIVED_PHASES = (s1, ivs)"
    and t: "t = (case f of
        None \<Rightarrow> (case st of
            None \<Rightarrow> drop_lifecycle (s1\<lparr>strategy_out := None, strategy_raw := None, det_scores_of := None\<rparr>) ''strategy''
          | Some x \<Rightarrow> (drop_lifecycle (s1\<lparr>strategy_out := None, strategy_raw := None, det_scores_of := None\<rparr>) ''strategy'')
              \<lparr>phase_status := (phase_status s1)(''strategy'' \<mapsto> x)\<rparr>)
      | Some g \<Rightarrow> (case st of
            None \<Rightarrow> drop_lifecycle (s1\<lparr>strategy_out := None, strategy_raw := None, det_scores_of := None\<rparr>) ''strategy''
          | Some x \<Rightarrow> (drop_lifecycle (s1\<lparr>strategy_out := None, strategy_raw := None, det_scores_of := None\<rparr>) ''strategy'')
              \<lparr>phase_status := (phase_status s1)(''strategy'' \<mapsto> x)\<rparr>)
            \<lparr>phase_failure_details := (pop (phase_failure_details s1) ''strategy'')(''strategy'' \<mapsto> g)\<rparr>)"
    using assms by (auto simp: invalidate_strategy_dependency_cone_def Let_def split: prod.splits option.splits)
  have strat: "''strategy'' \<notin> set STRATEGY_DERIVED_PHASES" and dist: "distinct STRATEGY_DERIVED_PHASES"
    by (simp_all add: STRATEGY_DERIVED_PHASES_def)
  note frame = cone_loop_frame [OF s1]
  have keep: "q \<noteq> ''strategy'' \<Longrightarrow> same_phase s1 t q" for q
    by (auto simp: t same_phase_def split: option.splits)
  show "q \<in> set STRATEGY_DERIVED_PHASES \<Longrightarrow>
      output_is_None t q \<and> lifecycle_absent t q \<and>
      (q \<in> set ivs \<longrightarrow> phase_status t q = Some STALE) \<and>
      (q \<notin> set ivs \<longrightarrow> status_of t q = PENDING)"
    using cone_loop_self [OF s1 dist, of q] keep [of q] strat
    by (cases "q = ''strategy''") (auto simp: same_phase_def lifecycle_absent_def status_of_def dict_get_def)
  show "q \<notin> set STRATEGY_DERIVED_PHASES \<Longrightarrow> q \<noteq> ''strategy'' \<Longrightarrow> same_phase s t q"
    using cone_loop_other [OF s1, of q] keep [of q] by (auto intro: same_phase_trans)
  show "output_is_None t ''strategy''" by (auto simp: t split: option.splits)
  show "phase_status t ''strategy'' =
      (case st of None \<Rightarrow> phase_status s ''strategy'' | Some x \<Rightarrow> Some x)"
    using cone_loop_other [OF s1 strat] by (auto simp: t same_phase_def split: option.splits)
  show "phase_failure_details t ''strategy'' = f" by (auto simp: t split: option.splits)
  show "project_type t = project_type s" "re_entry_count t = re_entry_count s"
    "policy_state.truncate t = policy_state.truncate s"
    "dom (phase_status s) \<subseteq> dom (phase_status t)"
    using frame by (auto simp: t split: option.splits)
qed

subsection \<open>Reconstruction re-establishes the lifecycle\<close>

lemma dom_fold_setdefault: "dom (fold (\<lambda>p m. setdefault m p d) ps m) = set ps \<union> dom m"
  by (induction ps arbitrary: m) auto

lemma model_post_init_Ok:
  assumes "model_post_init s = Ok t"
  shows "\<exists>seq. get_workflow_phase_sequence (PT_Str (project_type s)) = Ok seq \<and>
      dom (phase_status t) = set seq \<and> current_phase t \<in> set seq \<and>
      set seq \<subseteq> dom (re_entry_count t) \<and> project_type t = project_type s \<and>
      phase_failure_details t = phase_failure_details s"
proof -
  obtain seq where seq: "get_workflow_phase_sequence (PT_Str (project_type s)) = Ok seq"
    using assms by (auto simp: model_post_init_def split: sum.splits)
  with get_sequence_Ok have "hd seq \<in> set seq" by (metis hd_in_set)
  moreover have "set seq \<subseteq> dom (fold (\<lambda>p m. setdefault m p 0) seq (re_entry_count s))"
    by (simp add: dom_fold_setdefault)
  ultimately show ?thesis
    using assms seq by (auto simp: model_post_init_def split: if_splits)
qed

definition lifecycle_wf :: "project_state \<Rightarrow> bool" where
  "lifecycle_wf s \<longleftrightarrow>
     (\<exists>seq. get_workflow_phase_sequence (PT_Str (project_type s)) = Ok seq \<and>
        set seq \<subseteq> dom (phase_status s) \<and> current_phase s \<in> set seq \<and>
        set seq \<subseteq> dom (re_entry_count s))"

lemma current_phase_truncate:
  "policy_state.truncate t = policy_state.truncate s \<Longrightarrow> current_phase t = current_phase s"
  by (simp add: policy_state.defs)

lemma load_after:
  assumes "model_post_init s = Ok s'"
  shows "lifecycle_wf (invalidate_failed_raw_completed_strategy s')"
proof -
  obtain seq where seq: "get_workflow_phase_sequence (PT_Str (project_type s')) = Ok seq"
    "dom (phase_status s') = set seq" "current_phase s' \<in> set seq" "set seq \<subseteq> dom (re_entry_count s')"
    using model_post_init_Ok [OF assms] by auto
  have "lifecycle_wf (fst (invalidate_strategy_dependency_cone s' st f))" for st f
  proof -
    obtain t ivs where t: "invalidate_strategy_dependency_cone s' st f = (t, ivs)"
      by (cases "invalidate_strategy_dependency_cone s' st f")
    from cone_spec(6-9) [OF t] seq show ?thesis
      by (auto simp: lifecycle_wf_def t dest!: current_phase_truncate)
  qed
  with seq show ?thesis
    by (auto simp: invalidate_failed_raw_completed_strategy_def lifecycle_wf_def split: option.splits)
qed

subsection \<open>A new project\<close>

definition default_project_state :: project_state where
  "default_project_state = policy_state.extend default_policy_state
     \<lparr>project_id = '''', project_type = DEFAULT_PROJECT_TYPE, brief = '''',
      output_language = ''en'', report_mode = ''standard'',
      phase_status = (\<lambda>p. if p \<in> set STRATEGIC_AUDIT_PHASE_SEQUENCE then Some PENDING else None),
      phase_confidence = Map.empty, phase_run_completed_at = Map.empty,
      phase_failure_details = Map.empty,
      re_entry_count = (\<lambda>p. if p \<in> set PHASE_ORDER then Some 0 else None),
      classify_out = None, hypotheses_out = None, gauntlet_out = None, sealed = False,
      seal_date = None, audit_out = None, audit_raw = None, strategy_out = None,
      strategy_raw = None, monitor_out = None, sqi_out = None, det_scores_of = None,
      tr_outputs = Map.empty, report_text = None, report_output_language = None,
      report_output_mode = None, predictions = [], brier_score = None,
      reentry_triggers_fired = [], intake_sanitization_findings = None,
      phase_summaries = Map.empty\<rparr>"

lemmas default_project_defs = default_project_state_def policy_state.defs default_policy_state_def

lemma validate_strategy_Ok:
  "validate_strategy_payload dumps parse v = Ok out \<Longrightarrow>
     \<exists>ms. v = JObj ms \<and> set STRATEGY_REQUIRED_TOP_LEVEL_KEYS \<subseteq> fst ` set ms \<and>
       parse (normalize_strategy_payload dumps ms) = Ok out"
  by (auto simp: validate_strategy_payload_def strategy_missing_keys_def filter_empty_conv
      split: jval.splits list.splits sum.splits)

lemma assoc_set_get [simp]: "map_of (assoc_set k v kvs) k' = (if k' = k then Some v else map_of kvs k')"
  by (induction k v kvs rule: assoc_set.induct) auto

lemma raw_strategy_rejected:
  assumes "validate_raw_completed_strategy dumps parse value = Ok value'"
    and "map_of value ''phase_status'' = Some (JObj st)"
    and "coerce_phase_status (map_of st ''strategy'') = COMPLETED"
    and "\<And>out. validate_strategy_payload dumps parse (opt_or (map_of value ''strategy'') JNull) \<noteq> Ok out"
    and "pt = pt_of_jval (map_of value ''project_type'')"
    and "get_workflow_phase_sequence pt = Ok seq" "''strategy'' \<in> set seq"
  shows "map_of value' ''strategy'' = Some JNull \<and>
    (\<exists>ms fs. map_of value' ''phase_failure_details'' = Some (JObj ms) \<and>
       map_of ms ''strategy'' = Some (JObj fs) \<and>
       map_of fs ''category'' = Some (JStr PERSISTED_STRATEGY_CONTRACT))"
proof -
  obtain n t where n: "normalize_project_type pt = Ok n" "map_of WORKFLOW_TEMPLATES n = Some t"
    "seq = phase_sequence t"
    using assms(6) by (auto simp: get_workflow_phase_sequence_def get_workflow_template_def
        split: sum.splits option.splits)
  have "get_workflow_phase_sequence (PT_Str n) = Ok seq"
    using n normalize_idem [OF n(1)]
    by (simp add: get_workflow_phase_sequence_def get_workflow_template_def)
  with assms n show ?thesis
    by (auto split: sum.splits simp: validate_raw_completed_strategy_def)
qed

subsection \<open>Properties\<close>

text \<open>Invalidating a strategy clears it and everything derived from it and nothing else: the
  strategy and the sqi, monitor and report outputs are gone, no confidence, summary,
  completion time or failure of a derived phase is left, the derived phases that had output or
  lifecycle data are exactly the ones listed and marked stale, and every other phase and
  every policy attribute is untouched.\<close>

theorem strategy_cone_exact:
  assumes "invalidate_strategy_dependency_cone s st f = (t, ivs)"
  shows "(\<forall>p \<in> insert ''strategy'' (set STRATEGY_DERIVED_PHASES). output_is_None t p) \<and>
    (\<forall>p \<in> set STRATEGY_DERIVED_PHASES. lifecycle_absent t p \<and>
       (p \<in> set ivs \<longrightarrow> phase_status t p = Some STALE) \<and>
       (p \<notin> set ivs \<longrightarrow> status_of t p = PENDING)) \<and>
    (\<forall>p. p \<notin> insert ''strategy'' (set STRATEGY_DERIVED_PHASES) \<longrightarrow> same_phase s t p) \<and>
    policy_state.truncate t = policy_state.truncate s"
  using cone_spec(1-3,8) [OF assms] by blast

theorem strategy_cone_exact_witness:
  "\<exists>t ivs. invalidate_strategy_dependency_cone
       (default_project_state\<lparr>report_text := Some ''r''\<rparr>) None None = (t, ivs) \<and>
     report_text t = None \<and> same_phase (default_project_state\<lparr>report_text := Some ''r''\<rparr>) t ''audit''"
proof -
  let ?s = "default_project_state\<lparr>report_text := Some ''r''\<rparr>"
  obtain t ivs where t: "invalidate_strategy_dependency_cone ?s None None = (t, ivs)"
    by (cases "invalidate_strategy_dependency_cone ?s None None")
  from strategy_cone_exact [OF t] have "output_is_None t ''report''" "same_phase ?s t ''audit''"
    by (simp_all add: STRATEGY_DERIVED_PHASES_def)
  with t show ?thesis by (auto simp: output_is_None_def)
qed

text \<open>Every state that reconstruction accepts has a well-formed lifecycle, whatever was
  persisted: its project type is registered, every phase of its workflow has a status and a
  re-entry counter, and the current phase is one of them.\<close>

theorem reconstructed_lifecycle_wf:
  assumes "load_project_state dumps parse build_fields value = Ok s"
  shows "lifecycle_wf s"
  using assms load_after by (auto simp: load_project_state_def split: sum.splits)

theorem reconstructed_lifecycle_wf_witness:
  "\<exists>s. load_project_state (\<lambda>_. '''') (\<lambda>_. Err '''')
         (\<lambda>_. Ok (default_project_state\<lparr>current_phase := ''scope''\<rparr>)) [] = Ok s \<and>
       lifecycle_wf s"
proof -
  obtain s where "load_project_state (\<lambda>_. '''') (\<lambda>_. Err '''')
      (\<lambda>_. Ok (default_project_state\<lparr>current_phase := ''scope''\<rparr>)) [] = Ok s"
    by (simp add: load_project_state_def validate_raw_completed_strategy_def pt_of_jval_def
        model_post_init_def default_project_defs DEFAULT_PROJECT_TYPE_def
        normalize_project_type_def PROJECT_TYPE_ALIASES.simps WORKFLOW_TEMPLATES_def workflow_consts
        py_lower_def py_strip_def py_rstrip_def py_lstrip_def py_isspace_def lower_char_def code_def
        get_workflow_phase_sequence_def get_workflow_template_def)
  with reconstructed_lifecycle_wf [OF this] show ?thesis by blast
qed

text \<open>
  What reconstruction relies on of the third-party construction: a failure diagnostic of the
  raw dictionary is kept with its category.
\<close>

definition keeps_failures ::
  "((string \<times> jval) list \<Rightarrow> (state_error, project_state) result) \<Rightarrow> bool" where
  "keeps_failures build_fields \<longleftrightarrow>
     (\<forall>v s ms fs c. build_fields v = Ok s \<longrightarrow>
        map_of v ''phase_failure_details'' = Some (JObj ms) \<longrightarrow>
        map_of ms ''strategy'' = Some (JObj fs) \<longrightarrow>
        map_of fs ''category'' = Some (JStr c) \<longrightarrow>
        (\<exists>f. phase_failure_details s ''strategy'' = Some f \<and> fd_category f = c))"

definition failure_of_raw :: "(string \<times> jval) list \<Rightarrow> failure_diagnostic option" where
  "failure_of_raw v =
     (case map_of v ''phase_failure_details'' of
        Some (JObj ms) \<Rightarrow>
          (case map_of ms ''strategy'' of
             Some (JObj fs) \<Rightarrow>
               (case map_of fs ''category'' of
                  Some (JStr c) \<Rightarrow> Some \<lparr>fd_phase = ''strategy'', fd_category = c, fd_message = ''''\<rparr>
                | _ \<Rightarrow> None)
           | _ \<Rightarrow> None)
      | _ \<Rightarrow> None)"

definition build_sample :: "(string \<times> jval) list \<Rightarrow> (state_error, project_state) result" where
  "build_sample v =
     Ok (default_project_state\<lparr>phase_failure_details := (\<lambda>p. if p = ''strategy'' then failure_of_raw v else None)\<rparr>)"

lemma keeps_failures_sample: "keeps_failures build_sample"
  by (auto simp: keeps_failures_def build_sample_def failure_of_raw_def)

text \<open>A persisted strategy marked completed that violates the strategy contract is never
  accepted by reconstruction: not an object, one of the nine keys missing, or rejected by the
  typed validation, the loaded state has no strategy and no output derived from it, and the
  strategy's status is failed.\<close>

theorem broken_persisted_strategy_rejected:
  assumes "load_project_state dumps parse build_fields value = Ok s"
    and "keeps_failures build_fields"
    and "map_of value ''phase_status'' = Some (JObj st)"
    and "coerce_phase_status (map_of st ''strategy'') = COMPLETED"
    and "\<And>out. validate_strategy_payload dumps parse (opt_or (map_of value ''strategy'') JNull) \<noteq> Ok out"
    and "get_workflow_phase_sequence (pt_of_jval (map_of value ''project_type'')) = Ok seq"
    and "''strategy'' \<in> set seq"
  shows "phase_status s ''strategy'' = Some FAILED \<and> strategy_out s = None \<and>
         sqi_out s = None \<and> monitor_out s = None \<and> report_text s = None"
proof -
  obtain value' s0 s1 where v': "validate_raw_completed_strategy dumps parse value = Ok value'"
    and s0: "build_fields value' = Ok s0" and s1: "model_post_init s0 = Ok s1"
    and s: "s = invalidate_failed_raw_completed_strategy s1"
    using assms(1) by (auto simp: load_project_state_def split: sum.splits)
  obtain f where f: "phase_failure_details s0 ''strategy'' = Some f"
    "fd_category f = PERSISTED_STRATEGY_CONTRACT"
    using raw_strategy_rejected [OF v' assms(3-5) refl assms(6,7)] assms(2) s0
    unfolding keeps_failures_def by blast
  with model_post_init_Ok [OF s1] have f1: "phase_failure_details s1 ''strategy'' = Some f" by auto
  obtain t ivs where t: "invalidate_strategy_dependency_cone s1 (Some FAILED) (Some f) = (t, ivs)"
    by (cases "invalidate_strategy_dependency_cone s1 (Some FAILED) (Some f)")
  have "s = t" using s f f1 t by (simp add: invalidate_failed_raw_completed_strategy_def)
  moreover have "output_is_None t ''sqi''" "output_is_None t ''monitor''" "output_is_None t ''report''"
    using cone_spec(1) [OF t] by (simp_all add: STRATEGY_DERIVED_PHASES_def)
  moreover note cone_spec(3,4) [OF t]
  ultimately show ?thesis by (simp add: output_is_None_def)
qed

theorem broken_persisted_strategy_rejected_witness:
  "\<exists>s. load_project_state (\<lambda>_. '''') (\<lambda>_. Err '''') build_sample
      [(''project_type'', JStr ''strategic_audit''),
       (''phase_status'', JObj [(''strategy'', JStr ''completed'')]), (''strategy'', JObj [])] = Ok s \<and>
     phase_status s ''strategy'' = Some FAILED \<and> strategy_out s = None"
proof -
  let ?v = "[(''project_type'', JStr ''strategic_audit''),
       (''phase_status'', JObj [(''strategy'', JStr ''completed'')]), (''strategy'', JObj [])]"
  have n: "normalize_project_type (PT_Str ''strategic_audit'') = Ok ''strategic_audit''"
    by (simp add: normalize_project_type_def PROJECT_TYPE_ALIASES.simps WORKFLOW_TEMPLATES_def
        workflow_consts py_lower_def py_strip_def py_rstrip_def py_lstrip_def py_isspace_def
        lower_char_def code_def)
  obtain v' where v': "validate_raw_completed_strategy (\<lambda>_. '''') (\<lambda>_. Err '''') ?v = Ok v'"
    by (simp add: validate_raw_completed_strategy_def pt_of_jval_def n phase_status_of_value_def
        validate_strategy_payload_def strategy_missing_keys_def STRATEGY_REQUIRED_TOP_LEVEL_KEYS_def
        STRATEGIC_AUDIT_PHASE_SEQUENCE_def)
  obtain s where s: "load_project_state (\<lambda>_. '''') (\<lambda>_. Err '''') build_sample ?v = Ok s"
    by (simp add: load_project_state_def v' build_sample_def model_post_init_def
        default_project_defs DEFAULT_PROJECT_TYPE_def)
  have seq: "get_workflow_phase_sequence (pt_of_jval (map_of ?v ''project_type'')) =
      Ok STRATEGIC_AUDIT_PHASE_SEQUENCE" by (simp add: pt_of_jval_def)
  have "phase_status s ''strategy'' = Some FAILED \<and> strategy_out s = None \<and>
         sqi_out s = None \<and> monitor_out s = None \<and> report_text s = None"
    by (rule broken_persisted_strategy_rejected
          [OF s keeps_failures_sample, of "[(''strategy'', JStr ''completed'')]", OF _ _ _ seq])
      (simp_all add: phase_status_of_value_def validate_strategy_payload_def
        strategy_missing_keys_def STRATEGY_REQUIRED_TOP_LEVEL_KEYS_def
        STRATEGIC_AUDIT_PHASE_SEQUENCE_def)
  with s show ?thesis by blast
qed

end
