(* ===== verification/Scoring.thy ===== *)
theory Scoring
  imports State
begin

text \<open>
  The deterministic tools (\<open>mas/tools/scoring.py\<close>): the convergence gates, the re-entry
  triggers, downstream invalidation, the strategy scores and the calibration measures. The
  compressed summaries (\<open>summarize_phase_output\<close>) are text formatting and are a parameter
  where they are stored.
\<close>

subsection \<open>Convergence gates\<close>

datatype block_reason =
    Output_empty phase
  | Missing_required string
  | No_output phase
  | BF_too_low real real
  | DQ_too_low real real
  | Too_few_hypotheses nat
  | Not_sealed

record gate_result =
  gr_passed :: bool
  gr_blocking :: "block_reason list"
  gr_confidence :: real

text \<open>\<open>val is None or val == "" or val == [] or val == {}\<close>, for a decoded value.\<close>

definition blank :: "jval \<Rightarrow> bool" where
  "blank v \<longleftrightarrow> v = JNull \<or> v = JStr '''' \<or> v = JList [] \<or> v = JObj []"

definition attrs_missing :: "(string \<times> jval) list \<Rightarrow> string \<Rightarrow> bool" where
  "attrs_missing attrs f = (case map_of attrs f of None \<Rightarrow> True | Some v \<Rightarrow> blank v)"

definition classify_missing :: "classify_output \<Rightarrow> string \<Rightarrow> bool" where
  "classify_missing c f =
     (if f = ''domain'' then cl_domain c = ''''
      else if f = ''justification'' then cl_justification c = ''''
      else if f = ''bf'' then False
      else if f = ''variety_env'' then cl_variety_env c = ''''
      else if f = ''variety_sys'' then cl_variety_sys c = ''''
      else if f = ''variety_gaps'' then blank (cl_variety_gaps c)
      else if f = ''variety_decision'' then cl_variety_decision c = ''''
      else if f = ''ooda'' then False
      else if f = ''rpd_pattern'' then cl_rpd_pattern c = ''''
      else if f = ''sensemaking_anchors'' then blank (cl_sensemaking_anchors c)
      else if f = ''expectancy_violations'' then blank (cl_expectancy_violations c)
      else if f = ''reference_class'' then cl_reference_class c = ''''
      else if f = ''dq'' then cl_dq c = []
      else if f = ''maturity_assessment'' then cl_maturity_assessment c = ''''
      else if f = ''spiral_depth'' then cl_spiral_depth c = ''''
      else True)"

definition audit_missing :: "audit_output \<Rightarrow> string \<Rightarrow> bool" where
  "audit_missing a f =
     (if f = ''data_based'' then False
      else if f = ''fmea'' then au_fmea a = []
      else if f = ''hazop'' then au_hazop a = []
      else if f = ''stpa'' then au_stpa a = []
      else if f = ''fta'' then au_fta a = []
      else if f = ''swiss_cheese'' then au_swiss_cheese a = []
      else if f = ''top_findings'' then au_top_findings a = []
      else if f = ''h_norm_estimate'' then au_h_norm_estimate a = ''''
      else if f = ''observation_needs'' then au_observation_needs a = []
      else True)"

definition strategy_missing :: "strategy_output \<Rightarrow> string \<Rightarrow> bool" where
  "strategy_missing so f =
     (if f = ''preliminary_verdicts'' then st_preliminary_verdicts so = []
      else if f = ''executive_strategy'' then st_executive_strategy so = ''''
      else if f = ''strategies'' then st_strategies so = []
      else if f = ''implementation_sequence'' then st_implementation_sequence so = ''''
      else if f = ''success_metrics'' then st_success_metrics so = []
      else if f = ''monitoring_plan'' then st_monitoring_plan so = ''''
      else if f = ''review_date'' then st_review_date so = ''''
      else if f = ''confidence'' then st_confidence so = ''''
      else if f = ''reentry_check'' then st_reentry_check so = ''''
      else True)"

text \<open>
  The loop over \<open>config.required_fields\<close> for an output that is not \<open>None\<close> and not a list.
  The report is a string and the gauntlet has no gate; neither has required fields.
\<close>

definition output_field_missing :: "project_state \<Rightarrow> phase \<Rightarrow> string \<Rightarrow> bool" where
  "output_field_missing s p f =
     (if p = ''classify'' then (case classify_out s of None \<Rightarrow> True | Some c \<Rightarrow> classify_missing c f)
      else if p = ''audit'' then (case audit_out s of None \<Rightarrow> True | Some a \<Rightarrow> audit_missing a f)
      else if p = ''strategy'' then (case strategy_out s of None \<Rightarrow> True | Some x \<Rightarrow> strategy_missing x f)
      else if p = ''sqi'' then (case sqi_out s of None \<Rightarrow> True | Some x \<Rightarrow> attrs_missing x f)
      else if p = ''monitor'' then (case monitor_out s of None \<Rightarrow> True | Some x \<Rightarrow> attrs_missing x f)
      else (case tr_outputs s p of None \<Rightarrow> True | Some x \<Rightarrow> attrs_missing x f))"

definition structural_blocks :: "project_state \<Rightarrow> phase \<Rightarrow> gate_config \<Rightarrow> block_reason list" where
  "structural_blocks s p cfg =
     (if output_is_None s p then [No_output p]
      else if p = ''hypotheses''
      then (if hypotheses_out s = Some [] then [Output_empty p] else [])
      else map Missing_required (filter (output_field_missing s p) (required_fields cfg)))"

definition classify_blocks :: "classify_output \<Rightarrow> gate_config \<Rightarrow> block_reason list" where
  "classify_blocks c cfg =
     (case bayesian_threshold cfg of
        None \<Rightarrow> []
      | Some t \<Rightarrow> if t \<noteq> 0 \<and> cl_bf c \<le> t then [BF_too_low (cl_bf c) t] else []) @
     (case dq_minimum cfg of
        None \<Rightarrow> []
      | Some m \<Rightarrow> if m \<noteq> 0 \<and> sum_list (cl_dq c) < m then [DQ_too_low (sum_list (cl_dq c)) m] else [])"

definition quality_blocks :: "project_state \<Rightarrow> phase \<Rightarrow> gate_config \<Rightarrow> block_reason list" where
  "quality_blocks s p cfg =
     (if p = ''classify''
      then (case classify_out s of None \<Rightarrow> [] | Some c \<Rightarrow> classify_blocks c cfg)
      else if p = ''hypotheses''
      then (case hypotheses_out s of
              None \<Rightarrow> []
            | Some hs \<Rightarrow>
                if hs = [] then []
                else (if length hs < 3 then [Too_few_hypotheses (length hs)] else []) @
                     (if sealed s then [] else [Not_sealed]))
      else [])"

definition check_gate :: "project_state \<Rightarrow> phase \<Rightarrow> gate_result" where
  "check_gate s p =
     (case GATE_CONFIGS p of
        None \<Rightarrow> \<lparr>gr_passed = True, gr_blocking = [], gr_confidence = 1\<rparr>
      | Some cfg \<Rightarrow>
          let blocking = structural_blocks s p cfg @ quality_blocks s p cfg;
              confidence = dict_get (phase_confidence s) p 0
          in \<lparr>gr_passed = (blocking = [] \<and> min_confidence cfg \<le> confidence),
              gr_blocking = blocking, gr_confidence = confidence\<rparr>)"

subsection \<open>Re-entry triggers\<close>

definition fire :: "string \<Rightarrow> trigger_detail \<Rightarrow> fired_trigger" where
  "fire r detail =
     (case map_of REENTRY_TRIGGERS r of
        Some (condition, target) \<Rightarrow>
          \<lparr>ft_condition = condition, ft_target = target, ft_detail = detail, ft_ts = ''''\<rparr>
      | None \<Rightarrow> \<lparr>ft_condition = '''', ft_target = '''', ft_detail = detail, ft_ts = ''''\<rparr>)"

text \<open>R1: the loop over the hypotheses; a prior with \<open>alpha + beta = 0\<close> raises.\<close>

fun r1_triggers ::
  "hypothesis list \<Rightarrow> preliminary_verdict list \<Rightarrow> (state_error, fired_trigger list) result" where
  "r1_triggers [] vs = Ok []"
| "r1_triggers (h # hs) vs =
     (if hy_alpha h + hy_beta h = 0 then Err Division_by_zero
      else
        let prior = hy_alpha h / (hy_alpha h + hy_beta h);
            hits = filter (\<lambda>v. pv_id v = hy_id h \<and> pv_verdict v = LIKELY_REJECTED \<and> 7 / 10 < prior) vs
        in case r1_triggers hs vs of
             Inl e \<Rightarrow> Err e
           | Inr rest \<Rightarrow> Ok (map (\<lambda>v. fire ''R1'' (Prior_but_rejected (hy_id h) prior)) hits @ rest))"

definition verdicts_of :: "project_state \<Rightarrow> preliminary_verdict list" where
  "verdicts_of s = (case strategy_out s of None \<Rightarrow> [] | Some x \<Rightarrow> st_preliminary_verdicts x)"

definition futility_triggers :: "preliminary_verdict list \<Rightarrow> fired_trigger list" where
  "futility_triggers vs =
     (let rejected = length (filter (\<lambda>v. pv_verdict v = LIKELY_REJECTED) vs); total = length vs
      in if total = 0 then []
         else (if rejected = total then [fire ''R5'' (All_rejected total)] else []) @
              (if real rejected / real total > 1 / 2 then [fire ''R6'' (Some_rejected rejected total)]
               else []))"

definition evaluate_reentry_triggers ::
  "project_state \<Rightarrow> (state_error, fired_trigger list) result" where
  "evaluate_reentry_triggers s =
     (case (case hypotheses_out s of
              Some (h # hs) \<Rightarrow>
                if audit_out s = None then Ok [] else r1_triggers (h # hs) (verdicts_of s)
            | _ \<Rightarrow> Ok []) of
        Inl e \<Rightarrow> Err e
      | Inr r1 \<Rightarrow>
          Ok (r1 @
              (case gauntlet_out s of
                 None \<Rightarrow> []
               | Some g \<Rightarrow>
                   if ga_portfolio_correlation g > 1 / 2
                   then [fire ''R4'' (Correlation (ga_portfolio_correlation g))] else []) @
              futility_triggers (verdicts_of s)))"

subsection \<open>Downstream phases by the invalidation map\<close>

definition next_phases :: "phase \<Rightarrow> phase list" where
  "next_phases p = dict_get INVALIDATION_MAP p []"

lemma finite_INVALIDATION_MAP: "finite (dom INVALIDATION_MAP)"
  by (simp add: INVALIDATION_MAP_def finite_dom_map_of)

function bfs :: "phase list \<Rightarrow> phase set \<Rightarrow> phase list" where
  "bfs [] seen = []"
| "bfs (p # queue) seen =
     (if p \<in> seen then bfs queue seen
      else p # bfs (queue @ next_phases p) (insert p seen))"
  by pat_completeness auto

termination
proof (relation "measures [\<lambda>(q, seen). card (dom INVALIDATION_MAP - seen), \<lambda>(q, seen). length q]")
  fix p queue and seen :: "phase set"
  assume new: "p \<notin> seen"
  show "((queue @ next_phases p, insert p seen), p # queue, seen)
          \<in> measures [\<lambda>(q, seen). card (dom INVALIDATION_MAP - seen), \<lambda>(q, seen). length q]"
  proof (cases "p \<in> dom INVALIDATION_MAP")
    case True
    then have "dom INVALIDATION_MAP - insert p seen \<subset> dom INVALIDATION_MAP - seen"
      using new by auto
    then have "card (dom INVALIDATION_MAP - insert p seen) < card (dom INVALIDATION_MAP - seen)"
      using finite_INVALIDATION_MAP by (intro psubset_card_mono) auto
    then show ?thesis by simp
  next
    case False
    then have "next_phases p = []"
      by (auto simp: next_phases_def dict_get_def split: option.splits)
    moreover from False have "dom INVALIDATION_MAP - insert p seen = dom INVALIDATION_MAP - seen"
      by auto
    ultimately show ?thesis by simp
  qed
qed auto

definition collect_downstream_phases :: "phase \<Rightarrow> phase list" where
  "collect_downstream_phases changed = bfs (next_phases changed) {}"

subsection \<open>Invalidating the outputs downstream of a phase\<close>

definition raw_nonempty :: "string option \<Rightarrow> bool" where
  "raw_nonempty r = (case r of None \<Rightarrow> False | Some t \<Rightarrow> t \<noteq> '''')"

definition phase_has_material_output :: "project_state \<Rightarrow> phase \<Rightarrow> bool" where
  "phase_has_material_output s p =
     (if p = ''audit'' then audit_out s \<noteq> None \<or> raw_nonempty (audit_raw s)
      else if p = ''strategy'' then strategy_out s \<noteq> None \<or> raw_nonempty (strategy_raw s)
      else if p = ''report'' then raw_nonempty (report_text s)
      else if p = ''hypotheses'' then (case hypotheses_out s of None \<Rightarrow> False | Some hs \<Rightarrow> hs \<noteq> [])
      else \<not> output_is_None s p)"

definition clear_material :: "project_state \<Rightarrow> phase \<Rightarrow> project_state" where
  "clear_material s p =
     (let s1 = set_output_None s p
      in if p = ''audit'' then s1\<lparr>audit_raw := None\<rparr>
         else if p = ''strategy'' then s1\<lparr>strategy_raw := None, det_scores_of := None\<rparr>
         else if p = ''report'' then s1\<lparr>report_text := None\<rparr>
         else if p = ''hypotheses'' then s1\<lparr>sealed := False, seal_date := None\<rparr>
         else s1)"

definition had_anything :: "project_state \<Rightarrow> phase \<Rightarrow> bool" where
  "had_anything s p \<longleftrightarrow>
     phase_has_material_output s p \<or> phase_status s p \<noteq> Some PENDING \<or>
     p \<in> dom (phase_summaries s) \<or> p \<in> dom (phase_confidence s)"

definition invalidate_step :: "project_state \<Rightarrow> phase \<Rightarrow> project_state" where
  "invalidate_step s p =
     (let s1 = clear_material s p
      in if had_anything s p
         then s1\<lparr>phase_status := (phase_status s1)(p \<mapsto> STALE),
                 phase_confidence := pop (phase_confidence s1) p,
                 phase_summaries := pop (phase_summaries s1) p\<rparr>
         else s1)"

fun invalidate_loop :: "project_state \<Rightarrow> phase list \<Rightarrow> project_state \<times> phase list" where
  "invalidate_loop s [] = (s, [])"
| "invalidate_loop s (p # ps) =
     (let (t, invalidated) = invalidate_loop (invalidate_step s p) ps
      in (t, if had_anything s p then p # invalidated else invalidated))"

definition invalidate_downstream ::
  "project_state \<Rightarrow> phase \<Rightarrow> (state_error, project_state \<times> phase list) result" where
  "invalidate_downstream s changed =
     (case get_downstream_phases (PT_Str (project_type s)) changed of
        Inl e \<Rightarrow> Err (Workflow_failure e)
      | Inr ds \<Rightarrow>
          Ok (invalidate_loop s (if ds = [] then collect_downstream_phases changed else ds)))"

subsection \<open>Deterministic strategy scores\<close>

text \<open>
  Python's \<open>round\<close> to an integer: to nearest, ties to even. The regular expressions of the
  code are matched by the predicates below them: alternatives of literal words
  (case-insensitive), words between word boundaries, and a digit followed by a literal.
\<close>

definition py_round :: "real \<Rightarrow> int" where
  "py_round x =
     (let f = \<lfloor>x\<rfloor>; d = x - of_int f
      in if d < 1 / 2 then f else if 1 / 2 < d then f + 1 else if even f then f else f + 1)"

definition any_word :: "string list \<Rightarrow> string \<Rightarrow> bool" where
  "any_word ws t = list_ex (\<lambda>w. contains w (py_lower t)) ws"

definition is_word_char :: "char \<Rightarrow> bool" where
  "is_word_char c \<longleftrightarrow> is_digit c \<or> 97 \<le> code (lower_char c) \<and> code (lower_char c) \<le> 122 \<or> c = CHR ''_''"

text \<open>\<open>\bw\b\<close> somewhere in the text; the flag says whether the previous character is a word character.\<close>

fun bounded_word :: "string \<Rightarrow> bool \<Rightarrow> string \<Rightarrow> bool" where
  "bounded_word w prev [] = False"
| "bounded_word w prev (c # cs) =
     ((\<not> prev \<and> starts_with w (c # cs) \<and>
       (case drop (length w) (c # cs) of [] \<Rightarrow> True | d # _ \<Rightarrow> \<not> is_word_char d)) \<or>
      bounded_word w (is_word_char c) cs)"

fun digit_then :: "string \<Rightarrow> string \<Rightarrow> bool" where
  "digit_then w [] = False"
| "digit_then w (c # cs) = (is_digit c \<and> starts_with w cs \<or> digit_then w cs)"

fun then_digit :: "char \<Rightarrow> string \<Rightarrow> bool" where
  "then_digit d [] = False"
| "then_digit d (c # cs) =
     (lower_char c = d \<and> (case cs of [] \<Rightarrow> False | x # _ \<Rightarrow> is_digit x) \<or> then_digit d cs)"

definition spec_who :: "string \<Rightarrow> bool" where
  "spec_who = any_word [''team'', ''user'', ''client'', ''operator'', ''stakeholder'', ''department'']"

definition spec_what :: "string \<Rightarrow> bool" where
  "spec_what = any_word [''implement'', ''create'', ''build'', ''fix'', ''add'', ''remove'',
     ''deploy'', ''design'', ''develop'']"

definition spec_how :: "string \<Rightarrow> bool" where
  "spec_how t = list_ex (\<lambda>w. bounded_word w False (py_lower t)) [''by'', ''using'', ''via'', ''through'']"

definition spec_when :: "string \<Rightarrow> bool" where
  "spec_when = any_word [''within'', ''week'', ''month'', ''day'', ''sprint'', ''quarter'', ''deadline'']"

definition spec_howmuch :: "string \<Rightarrow> bool" where
  "spec_howmuch t \<longleftrightarrow>
     digit_then ''%'' t \<or> then_digit CHR ''$'' t \<or> any_word [''target''] t \<or>
     digit_then '' point'' (py_lower t) \<or> digit_then '' hour'' (py_lower t)"

definition has_evidence :: "string \<Rightarrow> bool" where
  "has_evidence t \<longleftrightarrow>
     then_digit CHR ''h'' t \<or>
     any_word [''fmea'', ''rpn'', ''hypothesis'', ''audit'', ''data'', ''observation'', ''finding''] t"

definition spec_hits :: "strategy_action \<Rightarrow> nat" where
  "spec_hits a =
     (let t = sa_action a @ '' '' @ sa_justification a @ '' '' @ sa_expected_impact a
      in length (filter (\<lambda>rx. rx t) [spec_who, spec_what, spec_how, spec_when, spec_howmuch]))"

definition CONFLICT_STOP_WORDS :: "string set" where
  "CONFLICT_STOP_WORDS = {''the'', ''a'', ''to'', ''and'', ''or'', ''in'', ''of''}"

definition contradicts :: "strategy_action \<Rightarrow> strategy_action \<Rightarrow> bool" where
  "contradicts x y =
     (let a = py_lower (sa_action x); b = py_lower (sa_action y)
      in (contains ''increase'' a \<and> contains ''decrease'' b \<or> contains ''add'' a \<and> contains ''remove'' b) \<and>
         set (split_ws [] a) \<inter> (set (split_ws [] b) - CONFLICT_STOP_WORDS) \<noteq> {})"

fun contradictions_of :: "strategy_action list \<Rightarrow> (priority \<times> priority) list" where
  "contradictions_of [] = []"
| "contradictions_of (x # xs) =
     map (\<lambda>y. (sa_priority x, sa_priority y)) (filter (contradicts x) xs) @ contradictions_of xs"

definition percent :: "nat \<Rightarrow> nat \<Rightarrow> int" where
  "percent part whole = py_round (real part / real whole * 100)"

definition compute_det_scores :: "strategy_output option \<Rightarrow> det_scores option" where
  "compute_det_scores strategy =
     (case strategy of
        None \<Rightarrow> None
      | Some so \<Rightarrow>
          let strats = st_strategies so
          in if strats = [] then None
             else
               let specificity = percent (sum_list (map spec_hits strats)) (length strats * 5);
                   mece = percent (length (remdups (map sa_priority strats))) 4;
                   linkage = percent (length (filter (\<lambda>a.
                       has_evidence (sa_justification a @ '' '' @ sa_evidence_chain a)) strats))
                       (length strats);
                   contra = contradictions_of strats;
                   consistency = max 0 (100 - int (length contra) * 25);
                   actionability = percent (length (filter (\<lambda>a.
                       sa_timeline a \<noteq> '''' \<and> sa_effort a \<noteq> '''') strats)) (length strats)
               in Some \<lparr>ds_overall = py_round (real_of_int
                          (specificity + mece + linkage + consistency + actionability) / 5),
                        ds_specificity = specificity, ds_mece = mece, ds_evidence_linkage = linkage,
                        ds_consistency = consistency, ds_actionability = actionability,
                        ds_contradictions = contra\<rparr>)"

subsection \<open>Bayesian and calibration measures\<close>

definition compute_posterior :: "real \<Rightarrow> real \<Rightarrow> int \<Rightarrow> int \<Rightarrow> real \<times> real" where
  "compute_posterior alpha beta successes failures =
     (alpha + of_int successes, beta + of_int failures)"

text \<open>\<open>None\<close> is the infinite float.\<close>

definition compute_bayes_factor :: "real \<Rightarrow> real \<Rightarrow> real option" where
  "compute_bayes_factor alpha beta =
     (let lower = min alpha beta in if lower \<le> 0 then None else Some (max alpha beta / lower))"

definition scored :: "prediction list \<Rightarrow> prediction list" where
  "scored ps = filter (\<lambda>p. pr_actual_outcome p \<noteq> None) ps"

definition outcome_value :: "prediction \<Rightarrow> real" where
  "outcome_value p = (if pr_actual_outcome p = Some True then 1 else 0)"

definition compute_brier_score :: "prediction list \<Rightarrow> real option" where
  "compute_brier_score ps =
     (let sc = scored ps
      in if sc = [] then None
         else Some ((\<Sum>p\<leftarrow>sc. (pr_predicted_probability p - outcome_value p) ^ 2) / real (length sc)))"

text \<open>
  \<open>int(x)\<close> truncates towards zero; \<open>bins[idx]\<close> with a negative index counts from the end and
  an index below \<open>-n_bins\<close> raises \<open>IndexError\<close>.
\<close>

definition py_trunc :: "real \<Rightarrow> int" where
  "py_trunc x = (if 0 \<le> x then \<lfloor>x\<rfloor> else \<lceil>x\<rceil>)"

definition bin_of :: "nat \<Rightarrow> prediction \<Rightarrow> nat option" where
  "bin_of n p =
     (let idx = min (py_trunc (pr_predicted_probability p * real n)) (int n - 1)
      in if 0 \<le> idx then Some (nat idx)
         else if 0 \<le> idx + int n then Some (nat (idx + int n)) else None)"

definition bin_error :: "nat \<Rightarrow> prediction list \<Rightarrow> real" where
  "bin_error n_all ps =
     (if ps = [] then 0
      else let avg_conf = (\<Sum>p\<leftarrow>ps. pr_predicted_probability p) / real (length ps);
               avg_acc = (\<Sum>p\<leftarrow>ps. outcome_value p) / real (length ps)
           in real (length ps) / real n_all * \<bar>avg_conf - avg_acc\<bar>)"

definition compute_ece :: "nat \<Rightarrow> prediction list \<Rightarrow> (state_error, real option) result" where
  "compute_ece n ps =
     (let sc = scored ps
      in if sc = [] then Ok None
         else if \<exists>p \<in> set sc. bin_of n p = None then Err Index_error
         else Ok (Some (\<Sum>b\<leftarrow>[0..<n]. bin_error (length sc) (filter (\<lambda>p. bin_of n p = Some b) sc))))"

subsection \<open>Breadth-first collection is reachability\<close>

inductive depends :: "phase \<Rightarrow> phase \<Rightarrow> bool" where
  "q \<in> set (next_phases p) \<Longrightarrow> depends p q"

lemma bfs_sound: "y \<in> set (bfs queue seen) \<Longrightarrow> \<exists>x \<in> set queue. depends\<^sup>*\<^sup>* x y"
proof (induction queue seen rule: bfs.induct)
  case (2 p queue seen)
  show ?case
  proof (cases "p \<in> seen")
    case True
    with 2 show ?thesis by auto
  next
    case False
    with 2 consider "y = p" | x where "x \<in> set (queue @ next_phases p)" "depends\<^sup>*\<^sup>* x y" by auto
    then show ?thesis
    proof cases
      case 2
      then show ?thesis
        by (auto intro: converse_rtranclp_into_rtranclp depends.intros)
    qed auto
  qed
qed simp

lemma bfs_closed:
  assumes "\<forall>x \<in> seen. \<forall>y. depends x y \<longrightarrow> y \<in> seen \<union> set queue"
  shows "set queue \<subseteq> seen \<union> set (bfs queue seen) \<and>
    (\<forall>x \<in> seen \<union> set (bfs queue seen). \<forall>y. depends x y \<longrightarrow> y \<in> seen \<union> set (bfs queue seen))"
  using assms
proof (induction queue seen rule: bfs.induct)
  case (2 p queue seen)
  show ?case
  proof (cases "p \<in> seen")
    case True
    with 2(3) have "\<forall>x \<in> seen. \<forall>y. depends x y \<longrightarrow> y \<in> seen \<union> set queue" by auto
    with True 2(1) have "set queue \<subseteq> seen \<union> set (bfs queue seen) \<and>
      (\<forall>x \<in> seen \<union> set (bfs queue seen). \<forall>y. depends x y \<longrightarrow> y \<in> seen \<union> set (bfs queue seen))"
      by blast
    with True show ?thesis by simp
  next
    case False
    have "\<forall>x \<in> insert p seen. \<forall>y. depends x y \<longrightarrow> y \<in> insert p seen \<union> set (queue @ next_phases p)"
      using 2(3) by (auto elim: depends.cases)
    from 2(2) [OF False this] False show ?thesis by simp
  qed
qed simp

lemma collect_downstream_reaches:
  "set (collect_downstream_phases p) = {q. depends\<^sup>+\<^sup>+ p q}"
proof
  show "set (collect_downstream_phases p) \<subseteq> {q. depends\<^sup>+\<^sup>+ p q}"
    unfolding collect_downstream_phases_def
    by (auto dest!: bfs_sound intro: rtranclp_into_tranclp2 depends.intros)
next
  let ?R = "set (collect_downstream_phases p)"
  have closed: "set (next_phases p) \<subseteq> ?R" "\<And>x y. x \<in> ?R \<Longrightarrow> depends x y \<Longrightarrow> y \<in> ?R"
    using bfs_closed [of "{}" "next_phases p"] by (auto simp: collect_downstream_phases_def)
  have "depends\<^sup>+\<^sup>+ p q \<Longrightarrow> q \<in> ?R" for q
    by (induction rule: tranclp_induct) (use closed in \<open>auto elim: depends.cases\<close>)
  then show "{q. depends\<^sup>+\<^sup>+ p q} \<subseteq> ?R" by blast
qed

lemma bfs_avoids: "set (bfs queue seen) \<inter> seen = {} \<and> distinct (bfs queue seen)"
  by (induction queue seen rule: bfs.induct) auto

lemma collect_downstream_distinct: "distinct (collect_downstream_phases p)"
  using bfs_avoids by (simp add: collect_downstream_phases_def)

lemma collect_downstream_strategic:
  "p \<in> set STRATEGIC_AUDIT_PHASE_SEQUENCE \<Longrightarrow> p \<noteq> ''sqi'' \<Longrightarrow>
     collect_downstream_phases p = after p STRATEGIC_AUDIT_PHASE_SEQUENCE"
  by (auto simp: STRATEGIC_AUDIT_PHASE_SEQUENCE_def collect_downstream_phases_def next_phases_def
      dict_get_def INVALIDATION_MAP_def)

lemma collect_downstream_sqi: "collect_downstream_phases ''sqi'' = []"
  by (simp add: collect_downstream_phases_def next_phases_def dict_get_def INVALIDATION_MAP_def)

subsection \<open>What invalidation clears and keeps\<close>

lemma clear_material_frame [simp]:
  "phase_status (clear_material s p) = phase_status s"
  "phase_confidence (clear_material s p) = phase_confidence s"
  "phase_summaries (clear_material s p) = phase_summaries s"
  "phase_run_completed_at (clear_material s p) = phase_run_completed_at s"
  "phase_failure_details (clear_material s p) = phase_failure_details s"
  "project_type (clear_material s p) = project_type s"
  "re_entry_count (clear_material s p) = re_entry_count s"
  "policy_state.truncate (clear_material s p) = policy_state.truncate s"
  by (simp_all add: clear_material_def Let_def policy_state.defs set_output_None_def)

lemma clear_material_output [simp]:
  "output_is_None (clear_material s p) q \<longleftrightarrow> q = p \<or> output_is_None s q"
proof -
  have "output_is_None (t\<lparr>report_text := None\<rparr>) q \<longleftrightarrow> q = ''report'' \<or> output_is_None t q" for t q
    by (simp add: output_is_None_def)
  then show ?thesis by (auto simp: clear_material_def Let_def)
qed

lemma clear_material_kept [simp]: "q \<noteq> p \<Longrightarrow> output_of (clear_material s p) q = output_of s q"
  by (auto simp: clear_material_def Let_def)

lemma clear_material_none: "\<not> phase_has_material_output (clear_material s p) p"
  by (simp add: clear_material_def phase_has_material_output_def raw_nonempty_def Let_def
      set_output_None_def output_is_None_def)

lemma clear_material_other:
  "q \<noteq> p \<Longrightarrow> phase_has_material_output (clear_material s p) q = phase_has_material_output s q"
  by (auto simp: clear_material_def phase_has_material_output_def Let_def
      set_output_None_def output_is_None_def)

definition invalidated_phase :: "project_state \<Rightarrow> phase \<Rightarrow> bool \<Rightarrow> bool" where
  "invalidated_phase t q listed \<longleftrightarrow>
     output_is_None t q \<and> \<not> phase_has_material_output t q \<and>
     phase_confidence t q = None \<and> phase_summaries t q = None \<and>
     phase_status t q = Some (if listed then STALE else PENDING)"

definition untouched_phase :: "project_state \<Rightarrow> project_state \<Rightarrow> phase \<Rightarrow> bool" where
  "untouched_phase s t q \<longleftrightarrow>
     same_phase s t q \<and> phase_has_material_output t q = phase_has_material_output s q"

lemma material_lifecycle_updates [simp]:
  "phase_has_material_output (s\<lparr>phase_status := a\<rparr>) q = phase_has_material_output s q"
  "phase_has_material_output (s\<lparr>phase_confidence := b\<rparr>) q = phase_has_material_output s q"
  "phase_has_material_output (s\<lparr>phase_summaries := c\<rparr>) q = phase_has_material_output s q"
  by (simp_all add: phase_has_material_output_def output_is_None_def)

lemma truncate_lifecycle [simp]:
  "policy_state.truncate (s\<lparr>phase_confidence := b\<rparr>) = policy_state.truncate s"
  "policy_state.truncate (s\<lparr>phase_summaries := c\<rparr>) = policy_state.truncate s"
  "policy_state.truncate (s\<lparr>phase_run_completed_at := d\<rparr>) = policy_state.truncate s"
  by (simp_all add: policy_state.defs)

lemma invalidate_step_self: "invalidated_phase (invalidate_step s p) p (had_anything s p)"
  by (auto simp: invalidate_step_def invalidated_phase_def Let_def had_anything_def
      clear_material_none)

lemma invalidate_step_other: "q \<noteq> p \<Longrightarrow> untouched_phase s (invalidate_step s p) q"
  by (simp add: invalidate_step_def untouched_phase_def same_phase_def Let_def clear_material_other)

lemma untouched_trans: "untouched_phase s t q \<Longrightarrow> untouched_phase t u q \<Longrightarrow> untouched_phase s u q"
  by (auto simp: untouched_phase_def intro: same_phase_trans)

lemma untouched_had: "untouched_phase s t q \<Longrightarrow> had_anything t q = had_anything s q"
  by (auto simp: untouched_phase_def same_phase_def had_anything_def dom_def)

lemma untouched_invalidated:
  "untouched_phase s t q \<Longrightarrow> invalidated_phase s q l \<Longrightarrow> invalidated_phase t q l"
  by (auto simp: untouched_phase_def same_phase_def invalidated_phase_def)

lemma invalidate_loop_other:
  "invalidate_loop s ps = (t, ivs) \<Longrightarrow> q \<notin> set ps \<Longrightarrow> untouched_phase s t q"
proof (induction ps arbitrary: s ivs)
  case Nil
  then show ?case by (simp add: untouched_phase_def same_phase_def)
next
  case (Cons p ps)
  obtain ivs' where "invalidate_loop (invalidate_step s p) ps = (t, ivs')"
    using Cons.prems(1) by (auto split: prod.splits)
  from Cons.IH [OF this] Cons.prems(2) invalidate_step_other [of q p s] show ?case
    by (auto intro: untouched_trans)
qed

lemma invalidate_loop_listed:
  "invalidate_loop s ps = (t, ivs) \<Longrightarrow> distinct ps \<Longrightarrow> ivs = filter (had_anything s) ps"
proof (induction ps arbitrary: s ivs)
  case (Cons p ps)
  obtain ivs' where l: "invalidate_loop (invalidate_step s p) ps = (t, ivs')"
    and ivs: "ivs = (if had_anything s p then p # ivs' else ivs')"
    using Cons.prems(1) by (auto split: prod.splits)
  have "ivs' = filter (had_anything (invalidate_step s p)) ps"
    using Cons.IH [OF l] Cons.prems(2) by simp
  also have "\<dots> = filter (had_anything s) ps"
  proof (rule filter_cong [OF refl])
    fix q
    assume "q \<in> set ps"
    with Cons.prems(2) have "q \<noteq> p" by auto
    from untouched_had [OF invalidate_step_other [OF this]]
    show "had_anything (invalidate_step s p) q = had_anything s q" .
  qed
  finally show ?case using ivs by simp
qed simp

lemma invalidate_loop_self:
  "invalidate_loop s ps = (t, ivs) \<Longrightarrow> distinct ps \<Longrightarrow> q \<in> set ps \<Longrightarrow>
     invalidated_phase t q (had_anything s q)"
proof (induction ps arbitrary: s ivs)
  case (Cons p ps)
  obtain ivs' where l: "invalidate_loop (invalidate_step s p) ps = (t, ivs')"
    using Cons.prems(1) by (auto split: prod.splits)
  show ?case
  proof (cases "q = p")
    case True
    with Cons.prems(2) have "untouched_phase (invalidate_step s p) t p"
      by (intro invalidate_loop_other [OF l]) simp
    with invalidate_step_self [of s p] True show ?thesis by (auto intro: untouched_invalidated)
  next
    case False
    with Cons.prems have "invalidated_phase t q (had_anything (invalidate_step s p) q)"
      by (intro Cons.IH [OF l]) auto
    with untouched_had [OF invalidate_step_other [OF False, of s]] show ?thesis by simp
  qed
qed simp

lemma invalidate_step_frame [simp]:
  "project_type (invalidate_step s p) = project_type s"
  "re_entry_count (invalidate_step s p) = re_entry_count s"
  "policy_state.truncate (invalidate_step s p) = policy_state.truncate s"
  by (simp_all add: invalidate_step_def Let_def)

lemma invalidate_loop_frame:
  "invalidate_loop s ps = (t, ivs) \<Longrightarrow>
     project_type t = project_type s \<and> re_entry_count t = re_entry_count s \<and>
     policy_state.truncate t = policy_state.truncate s"
proof (induction ps arbitrary: s ivs)
  case (Cons p ps)
  obtain ivs' where "invalidate_loop (invalidate_step s p) ps = (t, ivs')"
    using Cons.prems(1) by (auto split: prod.splits)
  from Cons.IH [OF this] show ?case by simp
qed simp

lemma invalidate_downstream_spec:
  assumes "invalidate_downstream s p = Ok (t, ivs)"
    and "get_downstream_phases (PT_Str (project_type s)) p = Ok ds" "ds \<noteq> []"
  shows "ivs = filter (had_anything s) ds"
    and "q \<in> set ds \<Longrightarrow> invalidated_phase t q (had_anything s q)"
    and "q \<notin> set ds \<Longrightarrow> untouched_phase s t q"
    and "policy_state.truncate t = policy_state.truncate s"
    and "project_type t = project_type s" "re_entry_count t = re_entry_count s"
proof -
  have l: "invalidate_loop s ds = (t, ivs)"
    using assms by (simp add: invalidate_downstream_def)
  obtain ps where "get_workflow_phase_sequence (PT_Str (project_type s)) = Ok ps"
    using assms(2) by (auto simp: get_downstream_phases_def split: sum.splits)
  with assms(2) have d: "distinct ds" using downstream_distinct by blast
  show "ivs = filter (had_anything s) ds" by (rule invalidate_loop_listed [OF l d])
  show "q \<in> set ds \<Longrightarrow> invalidated_phase t q (had_anything s q)"
    by (rule invalidate_loop_self [OF l d])
  show "q \<notin> set ds \<Longrightarrow> untouched_phase s t q" by (rule invalidate_loop_other [OF l])
  show "policy_state.truncate t = policy_state.truncate s"
    "project_type t = project_type s" "re_entry_count t = re_entry_count s"
    using invalidate_loop_frame [OF l] by simp_all
qed

subsection \<open>Bounds of the scores\<close>

lemma py_round_mono_int: "of_int a \<le> x \<Longrightarrow> a \<le> py_round x"
  by (auto simp: py_round_def Let_def le_floor_iff intro: le_floor_iff [THEN iffD2, THEN order_trans])

lemma py_round_upper: "x \<le> of_int b \<Longrightarrow> py_round x \<le> b"
proof -
  assume le: "x \<le> of_int b"
  then have f: "\<lfloor>x\<rfloor> \<le> b" by linarith
  show ?thesis
  proof (cases "\<lfloor>x\<rfloor> = b")
    case True
    with le have "x - of_int \<lfloor>x\<rfloor> < 1 / 2" by simp
    with True show ?thesis by (simp add: py_round_def)
  next
    case False
    with f show ?thesis by (auto simp: py_round_def Let_def)
  qed
qed

lemma py_round_near: "\<bar>of_int (py_round x) - x\<bar> \<le> 1 / 2"
proof -
  have "of_int \<lfloor>x\<rfloor> \<le> x" "x < of_int \<lfloor>x\<rfloor> + 1" by linarith+
  then show ?thesis by (auto simp: py_round_def Let_def)
qed

lemma percent_bounds: "part \<le> whole \<Longrightarrow> 0 \<le> percent part whole \<and> percent part whole \<le> 100"
proof -
  assume "part \<le> whole"
  then have "real part / real whole \<le> 1" by (cases "whole = 0") (simp_all add: divide_le_eq)
  then have "real part / real whole * 100 \<le> of_int 100"
    using mult_right_mono [of "real part / real whole" 1 100] by simp
  moreover have "of_int 0 \<le> real part / real whole * 100" by simp
  ultimately show ?thesis unfolding percent_def using py_round_mono_int py_round_upper by blast
qed

lemma spec_hits_le: "spec_hits a \<le> 5"
  unfolding spec_hits_def Let_def by (rule order_trans [OF length_filter_le]) simp

lemma sum_spec_hits: "sum_list (map spec_hits xs) \<le> length xs * 5"
proof (induction xs)
  case (Cons a xs)
  then show ?case using spec_hits_le [of a] by simp
qed simp

lemma priorities_le: "length (remdups (map sa_priority xs)) \<le> 4"
proof -
  have "set (map sa_priority xs) \<subseteq> {P_CRITICAL, P_HIGH, P_MEDIUM, P_LOW}"
    by (auto intro: priority.exhaust)
  then have "card (set (map sa_priority xs)) \<le> card {P_CRITICAL, P_HIGH, P_MEDIUM, P_LOW}"
    by (rule card_mono [rotated]) simp
  then show ?thesis by (simp add: length_remdups_card_conv)
qed

definition percentage :: "int \<Rightarrow> bool" where
  "percentage x \<longleftrightarrow> 0 \<le> x \<and> x \<le> 100"

lemma det_scores_bounds:
  assumes "compute_det_scores so = Some d"
  shows "percentage (ds_specificity d) \<and> percentage (ds_mece d) \<and>
    percentage (ds_evidence_linkage d) \<and> percentage (ds_consistency d) \<and>
    percentage (ds_actionability d) \<and> percentage (ds_overall d)"
proof -
  obtain x where x: "so = Some x" "st_strategies x \<noteq> []"
    using assms by (auto simp: compute_det_scores_def Let_def split: option.splits if_splits)
  have "percentage (percent (sum_list (map spec_hits (st_strategies x))) (length (st_strategies x) * 5))"
    unfolding percentage_def by (rule percent_bounds [OF sum_spec_hits])
  moreover have "percentage (percent (length (remdups (map sa_priority (st_strategies x)))) 4)"
    unfolding percentage_def by (rule percent_bounds [OF priorities_le])
  moreover have "percentage (percent (length (filter P (st_strategies x))) (length (st_strategies x)))" for P
    unfolding percentage_def by (rule percent_bounds [OF length_filter_le])
  moreover have "percentage (max 0 (100 - int n * 25))" for n
    by (simp add: percentage_def)
  ultimately have parts: "percentage (ds_specificity d)" "percentage (ds_mece d)"
    "percentage (ds_evidence_linkage d)" "percentage (ds_consistency d)" "percentage (ds_actionability d)"
    using assms x by (auto simp: compute_det_scores_def Let_def)
  let ?sum = "ds_specificity d + ds_mece d + ds_evidence_linkage d + ds_consistency d + ds_actionability d"
  have o: "ds_overall d = py_round (real_of_int ?sum / 5)"
    using assms x by (auto simp: compute_det_scores_def Let_def)
  have "0 \<le> ?sum" "?sum \<le> 500" using parts by (simp_all add: percentage_def)
  then have "0 \<le> real_of_int ?sum" "real_of_int ?sum \<le> 500"
    by (simp_all only: of_int_0_le_iff of_int_le_numeral_iff)
  then have "of_int 0 \<le> real_of_int ?sum / 5" "real_of_int ?sum / 5 \<le> of_int 100" by simp_all
  then have "percentage (ds_overall d)"
    unfolding percentage_def o using py_round_mono_int py_round_upper by blast
  with parts show ?thesis by blast
qed

subsection \<open>Calibration measures\<close>

definition probabilities :: "prediction list \<Rightarrow> bool" where
  "probabilities ps \<longleftrightarrow>
     (\<forall>p \<in> set ps. 0 \<le> pr_predicted_probability p \<and> pr_predicted_probability p \<le> 1)"

definition deviation :: "prediction \<Rightarrow> real" where
  "deviation p = \<bar>pr_predicted_probability p - outcome_value p\<bar>"

lemma deviation_le: "0 \<le> pr_predicted_probability p \<Longrightarrow> pr_predicted_probability p \<le> 1 \<Longrightarrow> deviation p \<le> 1"
  by (auto simp: deviation_def outcome_value_def)

lemma deviation_nonneg [simp]: "0 \<le> deviation p"
  by (simp add: deviation_def)

lemma square_mean_le: "(\<Sum>x\<leftarrow>xs. f x) ^ 2 \<le> real (length xs) * (\<Sum>x\<leftarrow>xs. (f x) ^ 2)"
proof (cases "xs = []")
  case False
  define m where "m = (\<Sum>x\<leftarrow>xs. f x) / real (length xs)"
  have expand: "(\<Sum>x\<leftarrow>ys. (f x - m) ^ 2) =
      (\<Sum>x\<leftarrow>ys. (f x) ^ 2) - 2 * m * (\<Sum>x\<leftarrow>ys. f x) + real (length ys) * m ^ 2" for ys
    by (induction ys) (simp_all add: power2_eq_square algebra_simps)
  have "0 \<le> (\<Sum>x\<leftarrow>xs. (f x - m) ^ 2)" by (rule sum_list_nonneg_real) simp
  then have "0 \<le> real (length xs) * ((\<Sum>x\<leftarrow>xs. (f x) ^ 2) - 2 * m * (\<Sum>x\<leftarrow>xs. f x) + real (length xs) * m ^ 2)"
    unfolding expand by simp
  moreover have "real (length xs) * ((\<Sum>x\<leftarrow>xs. (f x) ^ 2) - 2 * m * (\<Sum>x\<leftarrow>xs. f x) + real (length xs) * m ^ 2) =
      real (length xs) * (\<Sum>x\<leftarrow>xs. (f x) ^ 2) - 2 * (real (length xs) * m) * (\<Sum>x\<leftarrow>xs. f x) +
      (real (length xs) * m) ^ 2"
    by (simp add: algebra_simps power2_eq_square)
  moreover have "real (length xs) * m = (\<Sum>x\<leftarrow>xs. f x)" using False by (simp add: m_def)
  ultimately show ?thesis by (simp add: power2_eq_square)
qed simp

lemma bin_error_eq:
  "ps \<noteq> [] \<Longrightarrow> bin_error n ps =
     \<bar>\<Sum>p\<leftarrow>ps. pr_predicted_probability p - outcome_value p\<bar> / real n"
proof -
  assume ne: "ps \<noteq> []"
  then have "(\<Sum>p\<leftarrow>ps. pr_predicted_probability p) / real (length ps) -
      (\<Sum>p\<leftarrow>ps. outcome_value p) / real (length ps) =
      (\<Sum>p\<leftarrow>ps. pr_predicted_probability p - outcome_value p) / real (length ps)"
    by (simp add: sum_list_subtractf diff_divide_distrib)
  with ne show ?thesis by (simp add: bin_error_def abs_divide)
qed

lemma bin_error_le: "bin_error n ps \<le> (\<Sum>p\<leftarrow>ps. deviation p) / real n"
proof (cases "ps = []")
  case False
  have "\<bar>\<Sum>p\<leftarrow>qs. pr_predicted_probability p - outcome_value p\<bar> \<le> (\<Sum>p\<leftarrow>qs. deviation p)" for qs
    by (induction qs) (auto simp: deviation_def intro: order_trans [OF abs_triangle_ineq] add_mono)
  with False show ?thesis by (simp add: bin_error_eq divide_right_mono)
qed (simp add: bin_error_def)

lemma bin_error_nonneg: "0 \<le> bin_error n ps"
proof (cases "ps = []")
  case True
  then show ?thesis by (simp add: bin_error_def)
next
  case False
  then show ?thesis by (simp add: bin_error_eq)
qed

lemma bin_of_range:
  assumes "0 < n" "0 \<le> pr_predicted_probability p"
  shows "\<exists>b < n. bin_of n p = Some b"
proof -
  have "0 \<le> py_trunc (pr_predicted_probability p * real n)" using assms(2) by (simp add: py_trunc_def)
  with assms(1) show ?thesis by (auto simp: bin_of_def Let_def)
qed

lemma sum_bins:
  assumes "\<And>p. p \<in> set ps \<Longrightarrow> \<exists>b < n. g p = Some b"
  shows "(\<Sum>b\<leftarrow>[0..<n]. \<Sum>p\<leftarrow>filter (\<lambda>p. g p = Some b) ps. (f p :: real)) = (\<Sum>p\<leftarrow>ps. f p)"
  using assms
proof (induction ps)
  case Nil
  then show ?case by (simp add: sum_list_triv)
next
  case (Cons p ps)
  then obtain b where b: "b < n" "g p = Some b" by auto
  have "(\<Sum>c\<leftarrow>[0..<n]. \<Sum>p\<leftarrow>filter (\<lambda>p. g p = Some c) (p # ps). f p) =
      (\<Sum>c\<leftarrow>[0..<n]. (if c = b then f p else 0) + (\<Sum>p\<leftarrow>filter (\<lambda>p. g p = Some c) ps. f p))"
    using b by (intro arg_cong [where f = sum_list] map_cong) auto
  also have "\<dots> = f p + (\<Sum>c\<leftarrow>[0..<n]. \<Sum>p\<leftarrow>filter (\<lambda>p. g p = Some c) ps. f p)"
    using b by (simp add: sum_list_addf interv_sum_list_conv_sum_set_nat)
  finally show ?case using Cons by simp
qed

lemma ece_le_mean_deviation:
  assumes "compute_ece n ps = Ok (Some e)" "0 < n" "probabilities ps"
  shows "0 \<le> e \<and> e \<le> (\<Sum>p\<leftarrow>scored ps. deviation p) / real (length (scored ps))"
proof -
  let ?sc = "scored ps"
  have e: "e = (\<Sum>b\<leftarrow>[0..<n]. bin_error (length ?sc) (filter (\<lambda>p. bin_of n p = Some b) ?sc))"
    using assms(1) by (auto simp: compute_ece_def Let_def split: if_splits)
  have "\<exists>b < n. bin_of n p = Some b" if "p \<in> set ?sc" for p
    using that assms(2,3) bin_of_range by (auto simp: scored_def probabilities_def)
  note bins = sum_bins [where ps = "?sc" and g = "bin_of n", OF this]
  have "e \<le> (\<Sum>b\<leftarrow>[0..<n]. (\<Sum>p\<leftarrow>filter (\<lambda>p. bin_of n p = Some b) ?sc. deviation p) / real (length ?sc))"
    unfolding e by (rule sum_list_mono) (rule bin_error_le)
  also have "\<dots> = (\<Sum>b\<leftarrow>[0..<n]. (\<Sum>p\<leftarrow>filter (\<lambda>p. bin_of n p = Some b) ?sc. deviation p)) / real (length ?sc)"
    by (simp add: divide_inverse sum_list_mult_const)
  also have "\<dots> = (\<Sum>p\<leftarrow>?sc. deviation p) / real (length ?sc)"
    by (simp add: bins)
  finally show ?thesis
    unfolding e using bin_error_nonneg by (auto intro: sum_list_nonneg_real)
qed

lemma mean_deviation_square:
  assumes "compute_brier_score ps = Some bs"
  shows "((\<Sum>p\<leftarrow>scored ps. deviation p) / real (length (scored ps))) ^ 2 \<le> bs"
proof -
  let ?sc = "scored ps" and ?n = "real (length (scored ps))"
  have n: "0 < ?n" and bs: "bs = (\<Sum>p\<leftarrow>?sc. (deviation p) ^ 2) / ?n"
    using assms by (auto simp: compute_brier_score_def Let_def deviation_def split: if_splits)
  have "(\<Sum>p\<leftarrow>?sc. deviation p) ^ 2 / (?n * ?n) \<le> (?n * (\<Sum>p\<leftarrow>?sc. (deviation p) ^ 2)) / (?n * ?n)"
    by (rule divide_right_mono [OF square_mean_le]) simp
  with n bs show ?thesis by (simp add: power_divide power2_eq_square)
qed

subsection \<open>Properties\<close>

text \<open>a configured exit gate passes exactly when the phase's output exists, is not an empty
  list and has every required field filled, the recorded confidence reaches the minimum, a
  classification has a Bayes factor above and a decision-quality total of at least its
  thresholds, and hypotheses are at least three and sealed; a phase without a gate always
  passes.\<close>

theorem gate_passes_iff:
  "gr_passed (check_gate s p) \<longleftrightarrow>
     (case GATE_CONFIGS p of
        None \<Rightarrow> True
      | Some cfg \<Rightarrow>
          \<not> output_is_None s p \<and> min_confidence cfg \<le> dict_get (phase_confidence s) p 0 \<and>
          (if p = ''hypotheses''
           then (\<exists>hs. hypotheses_out s = Some hs \<and> 3 \<le> length hs) \<and> sealed s
           else (\<forall>f \<in> set (required_fields cfg). \<not> output_field_missing s p f)) \<and>
          (p = ''classify'' \<longrightarrow>
             (\<exists>c. classify_out s = Some c \<and> 10 < cl_bf c \<and> 60 \<le> sum_list (cl_dq c))))"
proof (cases "GATE_CONFIGS p")
  case None
  then show ?thesis by (simp add: check_gate_def)
next
  case (Some cfg)
  have c: "bayesian_threshold cfg = Some 10" "dq_minimum cfg = Some 60" if "p = ''classify''"
    using Some that by (auto simp: GATE_CONFIGS_def)
  show ?thesis
  proof (cases "output_is_None s p")
    case True
    with Some show ?thesis by (simp add: check_gate_def structural_blocks_def)
  next
    case False
    consider "p = ''classify''" | "p = ''hypotheses''" | "p \<noteq> ''classify''" "p \<noteq> ''hypotheses''"
      by blast
    then show ?thesis
    proof cases
      case 1
      with False obtain x where "classify_out s = Some x" by (auto simp: output_is_None_def)
      with Some 1 c False show ?thesis
        by (auto simp: check_gate_def Let_def structural_blocks_def quality_blocks_def
            classify_blocks_def filter_empty_conv)
    next
      case 2
      with False obtain hs where "hypotheses_out s = Some hs" by (auto simp: output_is_None_def)
      with Some 2 False show ?thesis
        by (auto simp: check_gate_def Let_def structural_blocks_def quality_blocks_def)
    next
      case 3
      with Some False show ?thesis
        by (auto simp: check_gate_def Let_def structural_blocks_def quality_blocks_def filter_empty_conv)
    qed
  qed
qed

theorem gate_passes_iff_witness:
  "gr_passed (check_gate (default_project_state\<lparr>report_text := Some ''r'',
     phase_confidence := [''report'' \<mapsto> 1]\<rparr>) ''report'') \<and>
   \<not> gr_passed (check_gate default_project_state ''report'')"
proof -
  have "GATE_CONFIGS ''report'' = Some (gate_of (70 / 100) [])" by (simp add: GATE_CONFIGS_def)
  then show ?thesis
    by (simp add: gate_passes_iff gate_of_def output_is_None_def dict_get_def default_project_defs)
qed

text \<open>C39: collecting the downstream phases by the invalidation map terminates and returns,
  without repetition, exactly the phases reachable from the changed one; for every strategic
  phase except sqi this is the template's suffix in its order, and for sqi the map reaches
  nothing although monitor and report follow it in the template.\<close>

theorem collect_downstream_is_reachability:
  "set (collect_downstream_phases p) = {q. depends\<^sup>+\<^sup>+ p q} \<and>
   distinct (collect_downstream_phases p) \<and>
   (p \<in> set STRATEGIC_AUDIT_PHASE_SEQUENCE \<longrightarrow>
      collect_downstream_phases p =
        (if p = ''sqi'' then [] else after p STRATEGIC_AUDIT_PHASE_SEQUENCE))"
  by (simp add: collect_downstream_reaches collect_downstream_distinct
      collect_downstream_strategic collect_downstream_sqi)

theorem collect_downstream_is_reachability_witness:
  "collect_downstream_phases ''strategy'' = [''sqi'', ''monitor'', ''report'']"
  using collect_downstream_is_reachability [of "''strategy''"]
  by (simp add: STRATEGIC_AUDIT_PHASE_SEQUENCE_def)

text \<open>When a phase with later phases changes, invalidation removes the output, confidence and
  summary of every later phase, marks stale and reports exactly those that had any of them or
  a status other than pending, and leaves every other phase, the changed one included, and all
  policy attributes as they were.\<close>

theorem invalidate_downstream_exact:
  assumes "invalidate_downstream s p = Ok (t, ivs)"
    and "get_downstream_phases (PT_Str (project_type s)) p = Ok ds" and "ds \<noteq> []"
  shows "ivs = filter (had_anything s) ds \<and>
    (\<forall>q \<in> set ds. invalidated_phase t q (q \<in> set ivs)) \<and>
    (\<forall>q. q \<notin> set ds \<longrightarrow> untouched_phase s t q) \<and>
    p \<notin> set ds \<and> policy_state.truncate t = policy_state.truncate s"
proof -
  obtain ps where "get_workflow_phase_sequence (PT_Str (project_type s)) = Ok ps"
    using assms(2) by (auto simp: get_downstream_phases_def split: sum.splits)
  with assms(2) have "p \<notin> set ds" using downstream_distinct by blast
  with invalidate_downstream_spec [OF assms] show ?thesis by simp
qed

theorem invalidate_downstream_exact_witness:
  "\<exists>t. invalidate_downstream (default_project_state\<lparr>report_text := Some ''r''\<rparr>) ''monitor'' =
         Ok (t, [''report'']) \<and> report_text t = None \<and> phase_status t ''report'' = Some STALE"
proof -
  let ?s = "default_project_state\<lparr>report_text := Some ''r''\<rparr>"
  have pt: "project_type ?s = ''strategic_audit''"
    by (simp add: default_project_defs DEFAULT_PROJECT_TYPE_def)
  have ds: "get_downstream_phases (PT_Str (project_type ?s)) ''monitor'' = Ok [''report'']"
    unfolding pt by (simp add: get_downstream_phases_def STRATEGIC_AUDIT_PHASE_SEQUENCE_def)
  then obtain t ivs where t: "invalidate_downstream ?s ''monitor'' = Ok (t, ivs)"
    by (cases "invalidate_loop ?s [''report'']") (simp add: invalidate_downstream_def)
  have "had_anything ?s ''report''"
    by (simp add: had_anything_def phase_has_material_output_def raw_nonempty_def)
  with invalidate_downstream_exact [OF t ds]
  have ivs: "ivs = [''report'']" and "invalidated_phase t ''report'' (''report'' \<in> set ivs)"
    by auto
  then have inval: "invalidated_phase t ''report'' True" by simp
  from inval have "report_text t = None" "phase_status t ''report'' = Some STALE"
    by (simp_all add: invalidated_phase_def output_is_None_def)
  with t ivs show ?thesis by blast
qed

text \<open>every deterministic strategy score, and their overall mean, is a percentage.\<close>

theorem det_scores_are_percentages:
  assumes "compute_det_scores so = Some d"
  shows "\<forall>x \<in> {ds_specificity d, ds_mece d, ds_evidence_linkage d, ds_consistency d,
      ds_actionability d, ds_overall d}. 0 \<le> x \<and> x \<le> 100"
  using det_scores_bounds [OF assms] by (simp add: percentage_def)

definition sample_strategy :: strategy_output where
  "sample_strategy =
     \<lparr>st_preliminary_verdicts = [], st_executive_strategy = '''',
      st_strategies = [\<lparr>sa_priority = P_HIGH, sa_action = ''fix'', sa_justification = '''',
         sa_evidence_chain = '''', sa_expected_impact = '''', sa_effort = '''', sa_timeline = '''',
         sa_risk_if_ignored = '''', sa_framework_source = ''''\<rparr>],
      st_implementation_sequence = '''', st_success_metrics = [], st_monitoring_plan = '''',
      st_review_date = '''', st_confidence = '''', st_reentry_check = ''''\<rparr>"

theorem det_scores_are_percentages_witness:
  "\<exists>d. compute_det_scores (Some sample_strategy) = Some d \<and> ds_overall d \<le> 100"
proof -
  obtain d where d: "compute_det_scores (Some sample_strategy) = Some d"
    by (simp add: compute_det_scores_def Let_def sample_strategy_def)
  from det_scores_are_percentages [OF this] have "ds_overall d \<le> 100" by blast
  with d show ?thesis by blast
qed

text \<open>On predictions with probabilities in the unit interval the calibration error exists
  whenever the Brier score does, both lie in the unit interval, and the square of the
  calibration error is at most the Brier score, for every positive number of bins.\<close>

theorem ece_squared_le_brier:
  assumes "probabilities ps" and "compute_brier_score ps = Some bs" and "0 < n"
  shows "\<exists>e. compute_ece n ps = Ok (Some e) \<and> 0 \<le> e \<and> e \<le> 1 \<and> 0 \<le> bs \<and> bs \<le> 1 \<and> e ^ 2 \<le> bs"
proof -
  let ?sc = "scored ps"
  have ne: "?sc \<noteq> []" and bs: "bs = (\<Sum>p\<leftarrow>?sc. (deviation p) ^ 2) / real (length ?sc)"
    using assms(2) by (auto simp: compute_brier_score_def Let_def deviation_def split: if_splits)
  have dev: "deviation p \<le> 1" if "p \<in> set ?sc" for p
    using that assms(1) deviation_le by (auto simp: scored_def probabilities_def)
  have "bin_of n p \<noteq> None" if "p \<in> set ?sc" for p
    using that bin_of_range [OF assms(3), of p] assms(1) by (auto simp: scored_def probabilities_def)
  then obtain e where e: "compute_ece n ps = Ok (Some e)"
    using ne by (auto simp: compute_ece_def Let_def)
  let ?m = "(\<Sum>p\<leftarrow>?sc. deviation p) / real (length ?sc)"
  have em: "0 \<le> e" "e \<le> ?m" using ece_le_mean_deviation [OF e assms(3,1)] by auto
  moreover have "?m \<le> 1" using ne dev by (simp add: divide_le_eq sum_list_le_length)
  moreover have "0 \<le> bs" unfolding bs by (intro divide_nonneg_nonneg sum_list_nonneg_real) simp_all
  moreover have "bs \<le> 1"
    unfolding bs using ne dev by (simp add: divide_le_eq sum_list_le_length power_le_one)
  moreover have "e ^ 2 \<le> ?m ^ 2" using em by (intro power_mono) auto
  ultimately have "0 \<le> e \<and> e \<le> 1 \<and> 0 \<le> bs \<and> bs \<le> 1 \<and> e ^ 2 \<le> bs"
    using mean_deviation_square [OF assms(2)] by linarith
  with e show ?thesis by blast
qed

theorem ece_squared_le_brier_witness:
  "\<exists>e. compute_ece 10 [\<lparr>pr_hypothesis_id = ''H1'', pr_predicted_probability = 7 / 10,
      pr_actual_outcome = Some True\<rparr>] = Ok (Some e) \<and> e ^ 2 \<le> 9 / 100"
proof -
  let ?ps = "[\<lparr>pr_hypothesis_id = ''H1'', pr_predicted_probability = 7 / 10,
      pr_actual_outcome = Some True\<rparr>]"
  have "compute_brier_score ?ps = Some (9 / 100)"
    by (auto simp: compute_brier_score_def scored_def outcome_value_def power2_eq_square)
  moreover have "probabilities ?ps" by (simp add: probabilities_def)
  ultimately show ?thesis using ece_squared_le_brier [of ?ps "9 / 100" 10] by auto
qed

end
