(* ===== verification/JsonText.thy ===== *)
theory JsonText
  imports Scoring
begin

text \<open>
  Reading JSON out of model text: the first structural root (\<open>first_json_root\<close> and
  \<open>parse_json\<close> of \<open>mas/llm_client.py\<close>) and the recovery of completed members from a
  truncated root (\<open>mas/orchestrator.py\<close>). The decoder of Python's \<open>json\<close> module is a
  parameter: \<open>loads\<close> decodes a whole text, \<open>raw_decode\<close> decodes one value at the start of a text
  and returns what follows it; \<open>None\<close> is a decoding error. Positions in the text are the
  remaining suffixes, with the prefix kept reversed where the code looks back.
\<close>

subsection \<open>The first structural opener\<close>

fun py_find :: "string \<Rightarrow> string \<Rightarrow> (string \<times> string) option" where
  "py_find needle [] = (if needle = [] then Some ([], []) else None)"
| "py_find needle (c # cs) =
     (if starts_with needle (c # cs) then Some ([], c # cs)
      else map_option (\<lambda>(a, b). (c # a, b)) (py_find needle cs))"

lemma py_find_Some:
  "py_find needle s = Some (a, b) \<Longrightarrow> s = a @ b \<and> starts_with needle b"
proof (induction s arbitrary: a b)
  case Nil
  then show ?case by (auto simp: starts_with_def split: if_splits)
next
  case (Cons c cs)
  then show ?case by (auto split: if_splits)
qed

lemma py_find_shorter:
  "py_find needle s = Some (a, b) \<Longrightarrow> needle \<noteq> [] \<Longrightarrow> length (drop (length needle) b) < length s"
proof -
  assume "py_find needle s = Some (a, b)" "needle \<noteq> []"
  then have "s = a @ b" "starts_with needle b" using py_find_Some by auto
  then have "b \<noteq> []" using \<open>needle \<noteq> []\<close> by (auto simp: starts_with_def)
  with \<open>needle \<noteq> []\<close> \<open>s = a @ b\<close> show ?thesis by (cases needle; cases b) auto
qed

definition FENCE :: string where
  "FENCE = ''```''"

text \<open>\<open>prefix.count("```")\<close> and the text after the last fence (\<open>rsplit\<close>).\<close>

function count_fences :: "string \<Rightarrow> nat" where
  "count_fences s =
     (case py_find FENCE s of None \<Rightarrow> 0 | Some (_, b) \<Rightarrow> Suc (count_fences (drop (length FENCE) b)))"
  by auto
termination
  by (relation "measure length") (auto simp: FENCE_def dest!: py_find_shorter)

declare count_fences.simps [simp del]

definition fence_tail :: "string \<Rightarrow> string" where
  "fence_tail s =
     (case py_find (rev FENCE) (rev s) of None \<Rightarrow> s | Some (a, _) \<Rightarrow> rev a)"

definition prose_words :: "string list" where
  "prose_words = [''json'', ''result'', ''output'', ''response'', ''payload'', ''data'',
     ''object'', ''array'']"

definition ends_with_any :: "string list \<Rightarrow> string \<Rightarrow> bool" where
  "ends_with_any ws s = list_ex (\<lambda>w. ends_with w s) ws"

definition drop_suffix :: "string \<Rightarrow> string \<Rightarrow> string" where
  "drop_suffix w s = take (length s - length w) s"

text \<open>
  \<open>_JSON_PROSE_INTRO_RE\<close>: an introducing word, optionally white space and one of
  is/follows/below, then a colon, with white space around it, at the end.
\<close>

definition prose_intro :: "string \<Rightarrow> bool" where
  "prose_intro s =
     (let t = py_lower (py_rstrip s)
      in ends_with '':'' t \<and>
         (let u = py_rstrip (drop_suffix '':'' t)
          in ends_with_any prose_words u \<or>
             list_ex (\<lambda>w. ends_with w u \<and>
                (let v = drop_suffix w u
                 in v \<noteq> [] \<and> py_isspace (last v) \<and> ends_with_any prose_words (py_rstrip v)))
               [''is'', ''follows'', ''below'']))"

definition last_chars :: "nat \<Rightarrow> string \<Rightarrow> string" where
  "last_chars n s = drop (length s - n) s"

definition lexically_plausible :: "char \<Rightarrow> string \<Rightarrow> bool" where
  "lexically_plausible opener rest =
     (case dropWhile py_isspace rest of
        [] \<Rightarrow> False
      | c # _ \<Rightarrow>
          if opener = CHR ''{'' then c \<in> {CHR 0x22, CHR ''}''}
          else c \<in> {CHR 0x22, CHR ''{'', CHR ''['', CHR '']'', CHR ''-'', CHR ''t'', CHR ''f'', CHR ''n''}
               \<or> is_digit c)"

definition is_structural_json_opener :: "string \<Rightarrow> char \<Rightarrow> string \<Rightarrow> bool" where
  "is_structural_json_opener prefix opener rest \<longleftrightarrow>
     list_all py_isspace prefix \<or>
     (odd (count_fences prefix) \<and> py_lower (py_strip (fence_tail prefix)) \<in> {'''', ''json''}) \<or>
     lexically_plausible opener rest \<or>
     prose_intro (last_chars 160 prefix)"

text \<open>The search keeps the prefix reversed.\<close>

fun first_structural_json_opener :: "string \<Rightarrow> string \<Rightarrow> (string \<times> string) option" where
  "first_structural_json_opener seen [] = None"
| "first_structural_json_opener seen (c # cs) =
     (if (c = CHR ''{'' \<or> c = CHR ''['') \<and> is_structural_json_opener (rev seen) c cs
      then Some (rev seen, c # cs)
      else first_structural_json_opener (c # seen) cs)"

subsection \<open>Scanning one root\<close>

datatype root_scan =
    Closed string string
  | Mismatched string
  | Unfinished

fun opener_of :: "char \<Rightarrow> char" where
  "opener_of c = (if c = CHR ''}'' then CHR ''{'' else CHR ''['')"

text \<open>
  One iteration of the scanning loop: it continues with a new stack and flags, or the closer
  empties the stack, or it does not match. \<open>Closed frag rest\<close>: the stack emptied at the end of
  \<open>frag\<close>; \<open>Mismatched frag\<close>: a closer without its opener; \<open>Unfinished\<close>: end of text.
\<close>

datatype scan_step = Go "char list" bool bool | Close_root | Bad_closer

definition root_step :: "char list \<Rightarrow> bool \<Rightarrow> bool \<Rightarrow> char \<Rightarrow> scan_step" where
  "root_step stack in_string escape c =
     (if escape then Go stack in_string False
      else if c = CHR 0x5C \<and> in_string then Go stack in_string True
      else if c = CHR 0x22 then Go stack (\<not> in_string) False
      else if in_string then Go stack in_string False
      else if c = CHR ''{'' \<or> c = CHR ''['' then Go (c # stack) in_string False
      else if c = CHR ''}'' \<or> c = CHR '']''
      then (case stack of
              [] \<Rightarrow> Bad_closer
            | opener # rest \<Rightarrow>
                if opener \<noteq> opener_of c then Bad_closer
                else if rest = [] then Close_root else Go rest in_string False)
      else Go stack in_string False)"

fun scan_root :: "char list \<Rightarrow> bool \<Rightarrow> bool \<Rightarrow> string \<Rightarrow> string \<Rightarrow> root_scan" where
  "scan_root stack in_string escape acc [] = Unfinished"
| "scan_root stack in_string escape acc (c # cs) =
     (case root_step stack in_string escape c of
        Go stack' in_string' escape' \<Rightarrow> scan_root stack' in_string' escape' (c # acc) cs
      | Close_root \<Rightarrow> Closed (rev (c # acc)) cs
      | Bad_closer \<Rightarrow> Mismatched (rev (c # acc)))"

record json_root =
  jr_fragment :: string
  jr_complete :: bool
  jr_value :: "jval option"

definition first_json_root :: "(string \<Rightarrow> jval option) \<Rightarrow> string \<Rightarrow> json_root option" where
  "first_json_root loads text =
     (if text = [] then None
      else case loads (py_strip text) of
        Some v \<Rightarrow> Some \<lparr>jr_fragment = py_strip text, jr_complete = True, jr_value = Some v\<rparr>
      | None \<Rightarrow>
          (case first_structural_json_opener [] text of
             None \<Rightarrow> None
           | Some (_, source) \<Rightarrow>
               (case scan_root [] False False [] source of
                  Closed frag _ \<Rightarrow>
                    Some \<lparr>jr_fragment = frag, jr_complete = True, jr_value = loads frag\<rparr>
                | Mismatched frag \<Rightarrow>
                    Some \<lparr>jr_fragment = frag, jr_complete = False, jr_value = None\<rparr>
                | Unfinished \<Rightarrow>
                    Some \<lparr>jr_fragment = source, jr_complete = False, jr_value = None\<rparr>)))"

definition parse_json :: "(string \<Rightarrow> jval option) \<Rightarrow> string \<Rightarrow> jval option" where
  "parse_json loads text =
     (case first_json_root loads text of
        None \<Rightarrow> None
      | Some jroot \<Rightarrow> if jr_complete jroot then jr_value jroot else None)"

subsection \<open>Recovering completed members\<close>

text \<open>
  \<open>_completed_first_object_members\<close> on an incomplete root, in its two loop states: a member
  or the end is expected, or a separator. Each step consumes at least one character, provided
  the decoder consumes input (\<open>decodes\<close> below); without that the search gives up (\<open>None\<close>).
\<close>

definition starts_value :: "char \<Rightarrow> bool" where
  "starts_value c \<longleftrightarrow>
     c \<in> {CHR 0x22, CHR ''{'', CHR ''['', CHR ''-'', CHR ''t'', CHR ''f'', CHR ''n''} \<or> is_digit c"

function members_loop ::
  "(string \<Rightarrow> (jval \<times> string) option) \<Rightarrow> bool \<Rightarrow> (string \<times> jval) list \<Rightarrow> string \<Rightarrow>
   (string \<times> jval) list option" where
  "members_loop raw_decode expect_member recovered s =
     (case dropWhile py_isspace s of
        [] \<Rightarrow> Some recovered
      | c # cs \<Rightarrow>
          if \<not> expect_member
          then (if c = CHR '','' then members_loop raw_decode True recovered cs
                else if c = CHR ''}'' then Some recovered else None)
          else if c = CHR ''}'' then Some recovered
          else if c \<noteq> CHR 0x22 then None
          else case raw_decode (c # cs) of
                 None \<Rightarrow> if CHR 0x22 \<in> set cs then None else Some recovered
               | Some (JStr key, r) \<Rightarrow>
                   (case dropWhile py_isspace r of
                      [] \<Rightarrow> Some recovered
                    | d # ds \<Rightarrow>
                        if d \<noteq> CHR '':'' then None
                        else (case dropWhile py_isspace ds of
                                [] \<Rightarrow> Some recovered
                              | v # vs \<Rightarrow>
                                  (case raw_decode (v # vs) of
                                     None \<Rightarrow> if starts_value v then Some recovered else None
                                   | Some (val, r') \<Rightarrow>
                                       if length r' < length s
                                       then members_loop raw_decode False (assoc_set key val recovered) r'
                                       else None)))
               | Some _ \<Rightarrow> None)"
  by pat_completeness auto
termination
proof (relation "measure (\<lambda>(d, e, r, s). length s)")
  fix raw_decode :: "string \<Rightarrow> (jval \<times> string) option" and e :: bool
    and r :: "(string \<times> jval) list" and s :: string and c cs
  assume "dropWhile py_isspace s = c # cs"
  then have "length (c # cs) \<le> length s" by (metis length_dropWhile_le)
  then show "((raw_decode, True, r, cs), raw_decode, e, r, s) \<in> measure (\<lambda>(d, e, r, s). length s)"
    by simp
qed auto

declare members_loop.simps [simp del]

definition completed_first_object_members ::
  "(string \<Rightarrow> jval option) \<Rightarrow> (string \<Rightarrow> (jval \<times> string) option) \<Rightarrow> string \<Rightarrow>
   (string \<times> jval) list option" where
  "completed_first_object_members loads raw_decode text =
     (case first_json_root loads text of
        None \<Rightarrow> None
      | Some jroot \<Rightarrow>
          (case py_lstrip (jr_fragment jroot) of
             [] \<Rightarrow> None
           | c # cs \<Rightarrow>
               if c \<noteq> CHR ''{'' then None
               else if jr_complete jroot
               then (case jr_value jroot of Some (JObj ms) \<Rightarrow> Some ms | _ \<Rightarrow> None)
               else members_loop raw_decode True [] cs))"

definition strategy_completed_top_level_values ::
  "(string \<Rightarrow> jval option) \<Rightarrow> (string \<Rightarrow> (jval \<times> string) option) \<Rightarrow> string \<Rightarrow>
   (string \<times> jval) list" where
  "strategy_completed_top_level_values loads raw_decode text =
     (case completed_first_object_members loads raw_decode text of
        None \<Rightarrow> []
      | Some ms \<Rightarrow>
          List.map_filter (\<lambda>k. map_option (\<lambda>v. (k, v)) (map_of ms k)) STRATEGY_REQUIRED_TOP_LEVEL_KEYS)"

text \<open>\<open>_json_container_depth_before\<close>, from the prefix.\<close>

fun depth_scan :: "nat \<times> nat \<Rightarrow> bool \<Rightarrow> bool \<Rightarrow> string \<Rightarrow> nat \<times> nat" where
  "depth_scan d in_string escape [] = d"
| "depth_scan (ob, ar) in_string escape (c # cs) =
     (if in_string
      then (if escape then depth_scan (ob, ar) True False cs
            else if c = CHR 0x5C then depth_scan (ob, ar) True True cs
            else depth_scan (ob, ar) (c \<noteq> CHR 0x22) False cs)
      else if c = CHR 0x22 then depth_scan (ob, ar) True escape cs
      else if c = CHR ''{'' then depth_scan (ob + 1, ar) False escape cs
      else if c = CHR ''}'' then depth_scan (ob - 1, ar) False escape cs
      else if c = CHR ''['' then depth_scan (ob, ar + 1) False escape cs
      else if c = CHR '']'' then depth_scan (ob, ar - 1) False escape cs
      else depth_scan (ob, ar) False escape cs)"

text \<open>
  \<open>_extract_top_level_json_value\<close>: \<open>before\<close> is the text already passed; the value is decoded
  in place (the code decodes its span a second time with \<open>json.loads\<close>).
\<close>

definition value_after_key ::
  "(string \<Rightarrow> (jval \<times> string) option) \<Rightarrow> string \<Rightarrow> jval option" where
  "value_after_key raw_decode rest =
     (case split_first CHR '':'' rest of
        None \<Rightarrow> None
      | Some (_, r) \<Rightarrow>
          let v = dropWhile py_isspace r
          in if v = [] then None else map_option fst (raw_decode v))"

function extract_loop ::
  "(string \<Rightarrow> (jval \<times> string) option) \<Rightarrow> string \<Rightarrow> string \<Rightarrow> string \<Rightarrow> jval option" where
  "extract_loop raw_decode needle before s =
     (if needle = [] then None
      else case py_find needle s of
        None \<Rightarrow> None
      | Some (a, b) \<Rightarrow>
          let rest = drop (length needle) b
          in if depth_scan (0, 0) False False (before @ a) = (1, 0)
             then value_after_key raw_decode rest
             else extract_loop raw_decode needle (before @ a @ needle) rest)"
  by pat_completeness auto
termination
  by (relation "measure (\<lambda>(d, n, b, s). length s)") (auto dest!: py_find_shorter)

declare extract_loop.simps [simp del]

definition extract_top_level_json_value ::
  "(string \<Rightarrow> (jval \<times> string) option) \<Rightarrow> string \<Rightarrow> string \<Rightarrow> jval option" where
  "extract_top_level_json_value raw_decode text key =
     extract_loop raw_decode ([CHR 0x22] @ key @ [CHR 0x22]) [] text"

subsection \<open>The scan commits to the first root\<close>

lemma scan_root_split:
  "scan_root st i e acc s = Closed frag r \<Longrightarrow> rev acc @ s = frag @ r"
  by (induction s arbitrary: st i e acc) (fastforce split: scan_step.splits)+

lemma scan_root_append:
  "scan_root st i e acc s = Closed frag r \<Longrightarrow> scan_root st i e acc (s @ t) = Closed frag (r @ t)"
  by (induction s arbitrary: st i e acc) (auto split: scan_step.splits)

lemma scan_root_longer:
  "scan_root st i e acc s = Closed frag r \<Longrightarrow> length acc < length frag"
proof (induction s arbitrary: st i e acc)
  case (Cons c cs)
  then show ?case by (fastforce split: scan_step.splits)
qed simp

lemma scan_root_prefix:
  "scan_root st i e acc (s @ t) = Closed frag r \<Longrightarrow> length acc + length s < length frag \<Longrightarrow>
     scan_root st i e acc s = Unfinished"
  by (induction s arbitrary: st i e acc) (auto split: scan_step.splits)

lemma closer_nonspace: "root_step st i e c = Close_root \<Longrightarrow> \<not> py_isspace c"
  by (auto simp: root_step_def py_isspace_def code_def split: if_splits)

lemma scan_root_nonspace:
  "scan_root st i e acc s = Closed frag r \<Longrightarrow> \<exists>c \<in> set s. \<not> py_isspace c"
  by (induction s arbitrary: st i e acc) (auto split: scan_step.splits dest: closer_nonspace)

lemma dropWhile_append_nonspace:
  "\<exists>c \<in> set s. \<not> py_isspace c \<Longrightarrow> dropWhile py_isspace (s @ t) = dropWhile py_isspace s @ t"
  by (auto simp: dropWhile_append1)

lemma lexically_plausible_append:
  "\<exists>c \<in> set s. \<not> py_isspace c \<Longrightarrow> lexically_plausible o1 (s @ t) = lexically_plausible o1 s"
proof -
  assume ns: "\<exists>c \<in> set s. \<not> py_isspace c"
  then have "dropWhile py_isspace s \<noteq> []" by (simp add: dropWhile_eq_Nil_conv)
  with ns show ?thesis
    by (auto simp: lexically_plausible_def dropWhile_append_nonspace split: list.splits)
qed

lemma opener_split:
  "first_structural_json_opener seen s = Some (p, src) \<Longrightarrow>
     rev seen @ s = p @ src \<and> src \<noteq> [] \<and> (\<exists>c \<in> set s. \<not> py_isspace c)"
  by (induction seen s rule: first_structural_json_opener.induct)
     (auto split: if_splits simp: py_isspace_def code_def)

lemma opener_append:
  "first_structural_json_opener seen s = Some (p, c # cs) \<Longrightarrow> \<exists>d \<in> set cs. \<not> py_isspace d \<Longrightarrow>
     first_structural_json_opener seen (s @ t) = Some (p, (c # cs) @ t)"
proof (induction seen s rule: first_structural_json_opener.induct)
  case (2 seen d ds)
  show ?case
  proof (cases "(d = CHR ''{'' \<or> d = CHR ''['') \<and> is_structural_json_opener (rev seen) d ds")
    case True
    with 2 have "d = c" "ds = cs" "p = rev seen" by auto
    with True 2(3) show ?thesis
      by (simp add: is_structural_json_opener_def lexically_plausible_append)
  next
    case False
    with 2 have found: "first_structural_json_opener (d # seen) ds = Some (p, c # cs)" by auto
    then have "\<exists>x \<in> set ds. \<not> py_isspace x" using opener_split by blast
    then have "is_structural_json_opener (rev seen) d (ds @ t) = is_structural_json_opener (rev seen) d ds"
      by (simp add: is_structural_json_opener_def lexically_plausible_append)
    with False found 2 show ?thesis by auto
  qed
qed simp

lemma scan_root_open:
  "c = CHR ''{'' \<or> c = CHR ''['' \<Longrightarrow>
     scan_root [] False False [] (c # cs) = scan_root [c] False False [c] cs"
  by (auto simp: root_step_def)

lemma opener_char:
  "first_structural_json_opener seen s = Some (p, src) \<Longrightarrow> hd src = CHR ''{'' \<or> hd src = CHR ''[''"
  by (induction seen s rule: first_structural_json_opener.induct) (auto split: if_splits)

lemma parse_json_closed:
  assumes "loads (py_strip text) = None"
    and "first_structural_json_opener [] text = Some (p, src)"
    and "scan_root [] False False [] src = Closed frag r"
  shows "parse_json loads text = loads frag"
proof -
  have "text \<noteq> []" using assms(2) by auto
  with assms show ?thesis by (simp add: parse_json_def first_json_root_def)
qed

lemma extract_loop_top:
  "extract_loop raw needle before s = Some v \<Longrightarrow>
     \<exists>a rest. before @ s = a @ needle @ rest \<and> depth_scan (0, 0) False False a = (1, 0) \<and>
       value_after_key raw rest = Some v"
proof (induction raw needle before s rule: extract_loop.induct)
  case (1 raw needle before s)
  then obtain a b where f: "needle \<noteq> []" "py_find needle s = Some (a, b)"
    by (auto simp: extract_loop.simps [of raw needle before s] split: if_splits option.splits)
  then have s: "s = a @ b" "b = needle @ drop (length needle) b"
    using py_find_Some [OF f(2)] by (auto simp: starts_with_iff)
  show ?case
  proof (cases "depth_scan (0, 0) False False (before @ a) = (1, 0)")
    case True
    with 1(2) f have "value_after_key raw (drop (length needle) b) = Some v"
      by (simp add: extract_loop.simps [of raw needle before s])
    moreover have "before @ s = (before @ a) @ needle @ drop (length needle) b" using s by simp
    ultimately show ?thesis using True by blast
  next
    case False
    with 1(2) f have "extract_loop raw needle (before @ a @ needle) (drop (length needle) b) = Some v"
      by (simp add: extract_loop.simps [of raw needle before s])
    from 1(1) [OF f(1) f(2) refl refl False this] s show ?thesis by simp
  qed
qed

subsection \<open>Properties\<close>

text \<open>The JSON reader commits to the first root of the text: once its brackets close, the
  text splits into a prefix, the root and a rest, no shorter beginning of the root is closed,
  and the result is the decoding of exactly that root whatever text follows it, so nothing
  after or inside the root can replace it.\<close>

theorem parse_json_commits_to_first_root:
  assumes "loads (py_strip text) = None" and "loads (py_strip (text @ t)) = None"
    and "first_structural_json_opener [] text = Some (p, src)"
    and "scan_root [] False False [] src = Closed frag r"
  shows "text = p @ frag @ r \<and>
    (\<forall>n < length frag. scan_root [] False False [] (take n src) = Unfinished) \<and>
    parse_json loads text = loads frag \<and> parse_json loads (text @ t) = loads frag"
proof (intro conjI allI impI)
  have src: "src = frag @ r" using scan_root_split [OF assms(4)] by simp
  then show "text = p @ frag @ r" using opener_split [OF assms(3)] by simp
  show "scan_root [] False False [] (take n src) = Unfinished" if "n < length frag" for n
    using scan_root_prefix [of "[]" False False "[]" "take n src" "drop n src" frag r] assms(4) that
    by simp
  show "parse_json loads text = loads frag"
    using assms(1,3,4) by (rule parse_json_closed [where loads = loads])
  obtain c cs where c: "src = c # cs" using opener_split [OF assms(3)] by (cases src) auto
  with opener_char [OF assms(3)] assms(4) have "scan_root [c] False False [c] cs = Closed frag r"
    by (metis scan_root_open list.sel(1))
  then have "\<exists>d \<in> set cs. \<not> py_isspace d" by (rule scan_root_nonspace)
  with assms(3) c have "first_structural_json_opener [] (text @ t) = Some (p, src @ t)"
    using opener_append by blast
  with assms(2) show "parse_json loads (text @ t) = loads frag"
    using scan_root_append [OF assms(4)] by (rule parse_json_closed [where loads = loads])
qed

theorem parse_json_commits_to_first_root_witness:
  "parse_json (\<lambda>s. if s = ''[]'' then Some (JList []) else None) (''[] {'' @ ''}'') = Some (JList [])"
proof -
  let ?loads = "\<lambda>s. if s = ''[]'' then Some (JList []) else None"
  have "?loads (py_strip ''[] {'') = None" "?loads (py_strip (''[] {'' @ ''}'')) = None"
    by (simp_all add: py_strip_def py_lstrip_def py_rstrip_def py_isspace_def code_def)
  moreover have "first_structural_json_opener [] ''[] {'' = Some ([], ''[] {'')"
    by (simp add: is_structural_json_opener_def)
  moreover have "scan_root [] False False [] ''[] {'' = Closed ''[]'' '' {''"
    by (simp add: root_step_def)
  ultimately have "parse_json ?loads (''[] {'' @ ''}'') = ?loads ''[]''"
    using parse_json_commits_to_first_root [of ?loads "''[] {''" "''}''"] by blast
  then show ?thesis by simp
qed

text \<open>Recovering a field from a truncated object only takes a member of the outermost object:
  the key it reads stands at object depth one and array depth zero, outside any string, and
  the value is the one that follows it.\<close>

theorem extraction_is_top_level:
  assumes "extract_top_level_json_value raw_decode text key = Some v"
  shows "\<exists>a rest. text = a @ ([CHR 0x22] @ key @ [CHR 0x22]) @ rest \<and>
    depth_scan (0, 0) False False a = (1, 0) \<and> value_after_key raw_decode rest = Some v"
  using extract_loop_top [of raw_decode "[CHR 0x22] @ key @ [CHR 0x22]" "[]" "text" v] assms
  by (simp add: extract_top_level_json_value_def)

definition decode_digit :: "string \<Rightarrow> (jval \<times> string) option" where
  "decode_digit s = (case s of c # cs \<Rightarrow> if is_digit c then Some (JInt (int (code c) - 48), cs) else None
     | [] \<Rightarrow> None)"

theorem extraction_is_top_level_witness:
  "\<exists>a rest. ''{'' @ [CHR 0x22] @ ''a'' @ [CHR 0x22] @ '':7}'' =
      a @ ([CHR 0x22] @ ''a'' @ [CHR 0x22]) @ rest \<and> value_after_key decode_digit rest = Some (JInt 7)"
proof -
  have "extract_top_level_json_value decode_digit
      (''{'' @ [CHR 0x22] @ ''a'' @ [CHR 0x22] @ '':7}'') ''a'' = Some (JInt 7)"
    by (simp add: extract_top_level_json_value_def extract_loop.simps starts_with_def
        value_after_key_def decode_digit_def is_digit_def code_def py_isspace_def Let_def)
  from extraction_is_top_level [OF this] show ?thesis by blast
qed

end
