(* ===== verification/Llm.thy ===== *)
theory Llm
  imports Scoring
begin

text \<open>
  The model client (\<open>mas/llm_client.py\<close>): the provider circuit breaker, the cost estimate and
  the response record. The breaker reads its clock once per operation; the instant is an
  argument.
\<close>

subsection \<open>The provider circuit breaker\<close>

record circuit_breaker =
  cb_threshold :: int
  cb_cooldown :: real
  cb_failures :: "string \<rightharpoonup> real list"

definition new_circuit_breaker :: "int \<Rightarrow> real \<Rightarrow> circuit_breaker" where
  "new_circuit_breaker threshold cooldown =
     \<lparr>cb_threshold = threshold, cb_cooldown = cooldown, cb_failures = Map.empty\<rparr>"

definition recent :: "real \<Rightarrow> real \<Rightarrow> real list \<Rightarrow> real list" where
  "recent cooldown now ts = filter (\<lambda>t. now - t < cooldown) ts"

definition record_failure :: "circuit_breaker \<Rightarrow> string \<Rightarrow> real \<Rightarrow> circuit_breaker" where
  "record_failure b key now =
     b\<lparr>cb_failures := (cb_failures b)(key \<mapsto>
         recent (cb_cooldown b) now (dict_get (cb_failures b) key [] @ [now]))\<rparr>"

definition is_open :: "circuit_breaker \<Rightarrow> string \<Rightarrow> real \<Rightarrow> bool" where
  "is_open b key now \<longleftrightarrow>
     int (length (recent (cb_cooldown b) now (dict_get (cb_failures b) key []))) \<ge> cb_threshold b"

definition reset :: "circuit_breaker \<Rightarrow> string \<Rightarrow> circuit_breaker" where
  "reset b key = b\<lparr>cb_failures := (cb_failures b)(key \<mapsto> [])\<rparr>"

subsection \<open>Cost and responses\<close>

record model_price =
  price_input :: real
  price_output :: real
  price_cache_read :: real

definition price :: "real \<Rightarrow> real \<Rightarrow> real \<Rightarrow> model_price" where
  "price i o' c = \<lparr>price_input = i, price_output = o', price_cache_read = c\<rparr>"

definition MODEL_PRICING_USD_PER_MTOK :: "string \<rightharpoonup> model_price" where
  "MODEL_PRICING_USD_PER_MTOK = map_of
     [(''claude-opus-4-6'', price 5 25 (1 / 2)),
      (''claude-sonnet-4-6'', price 3 15 (3 / 10)),
      (''claude-haiku-4-5-20251001'', price 1 5 (1 / 10)),
      (''gpt-5'', price (5 / 2) 15 (1 / 4)),
      (''gpt-5-mini'', price (1 / 4) 1 (1 / 40))]"

definition round_to :: "nat \<Rightarrow> real \<Rightarrow> real" where
  "round_to n x = of_int (py_round (x * 10 ^ n)) / 10 ^ n"

definition estimate_cost :: "string \<Rightarrow> int \<Rightarrow> int \<Rightarrow> int \<Rightarrow> real" where
  "estimate_cost model input_tokens output_tokens cache_read_tokens =
     (case MODEL_PRICING_USD_PER_MTOK model of
        None \<Rightarrow> 0
      | Some p \<Rightarrow>
          round_to 6
            (of_int input_tokens / 1000000 * price_input p
             + of_int output_tokens / 1000000 * price_output p
             + of_int cache_read_tokens / 1000000 * price_cache_read p))"

record llm_response =
  lr_text :: string
  lr_stop_reason :: string
  lr_ok :: bool
  lr_error :: string
  lr_error_type :: string
  lr_model_used :: string
  lr_provider_used :: string
  lr_input_tokens :: int
  lr_output_tokens :: int
  lr_cache_hit :: bool
  lr_latency_ms :: real
  lr_cost_usd :: real
  lr_selected_provider :: string
  lr_selected_model :: string
  lr_selection_reason :: string
  lr_task_profile :: string
  lr_fallback_used :: bool
  lr_fallback_reason :: string
  lr_fallback_provider :: string
  lr_fallback_model :: string
  lr_failed_provider :: string
  lr_failed_model :: string
  lr_failed_error_type :: string
  lr_attempt_count :: nat

definition lr_total_tokens :: "llm_response \<Rightarrow> int" where
  "lr_total_tokens r = lr_input_tokens r + lr_output_tokens r"

subsection \<open>A breaker is a window over the history of its key\<close>

text \<open>
  The contract a caller of the breaker relies on: what the breaker answers is determined by
  the failures since the last reset of the key that are younger than the cooldown, however the
  breaker stores them. \<open>at_least s t\<close> says that the state was last written no later than \<open>t\<close>.
\<close>

datatype breaker_event = Failed_at string real | Reset_key string

fun history :: "string \<Rightarrow> breaker_event list \<Rightarrow> real list" where
  "history key [] = []"
| "history key (Failed_at k t # es) = (if k = key then history key es @ [t] else history key es)"
| "history key (Reset_key k # es) = (if k = key then [] else history key es)"

text \<open>Events are listed newest first.\<close>

fun monotone_events :: "breaker_event list \<Rightarrow> real \<Rightarrow> bool" where
  "monotone_events [] now = True"
| "monotone_events (Failed_at k t # es) now = (t \<le> now \<and> monotone_events es t)"
| "monotone_events (Reset_key k # es) now = monotone_events es now"

lemma recent_recent: "t \<le> now \<Longrightarrow> recent c now (recent c t ts) = recent c now ts"
  unfolding recent_def filter_filter by (rule filter_cong) auto

lemma recent_append [simp]: "recent c now (a @ b) = recent c now a @ recent c now b"
  by (simp add: recent_def)

lemma recent_Nil [simp]: "recent c now [] = []"
  by (simp add: recent_def)

lemma monotone_events_mono: "monotone_events es t \<Longrightarrow> t \<le> now \<Longrightarrow> monotone_events es now"
  by (induction es now rule: monotone_events.induct) auto

locale windowed_breaker =
  fixes start :: 's
    and fail :: "'s \<Rightarrow> string \<Rightarrow> real \<Rightarrow> 's"
    and clear :: "'s \<Rightarrow> string \<Rightarrow> 's"
    and tripped :: "'s \<Rightarrow> string \<Rightarrow> real \<Rightarrow> bool"
    and window :: "'s \<Rightarrow> string \<Rightarrow> real \<Rightarrow> real list"
    and cooldown :: "'s \<Rightarrow> real"
    and threshold :: "'s \<Rightarrow> int"
  assumes tripped_window: "tripped s k now \<longleftrightarrow> threshold s \<le> int (length (window s k now))"
    and window_start: "window start k now = []"
    and window_fail: "t \<le> now \<Longrightarrow>
      window (fail s k' t) k now =
        (if k' = k then recent (cooldown s) now (window s k t @ [t]) else window s k now)"
    and window_clear: "window (clear s k') k now = (if k' = k then [] else window s k now)"
    and settings_fail: "cooldown (fail s k t) = cooldown s" "threshold (fail s k t) = threshold s"
    and settings_clear: "cooldown (clear s k) = cooldown s" "threshold (clear s k) = threshold s"
begin

fun replay :: "breaker_event list \<Rightarrow> 's" where
  "replay [] = start"
| "replay (Failed_at k t # es) = fail (replay es) k t"
| "replay (Reset_key k # es) = clear (replay es) k"

lemma replay_settings: "cooldown (replay es) = cooldown start \<and> threshold (replay es) = threshold start"
  by (induction es rule: replay.induct) (simp_all add: settings_fail settings_clear)

lemma window_replay:
  "monotone_events es now \<Longrightarrow>
     window (replay es) key now = recent (cooldown start) now (history key es)"
proof (induction key es arbitrary: now rule: history.induct)
  case (2 key k t es)
  then have "monotone_events es t" "t \<le> now" by simp_all
  with 2 show ?case
    by (auto simp: window_fail recent_recent replay_settings intro: monotone_events_mono)
qed (simp_all add: window_start window_clear)

lemma tripped_replay:
  "monotone_events es now \<Longrightarrow>
     tripped (replay es) key now \<longleftrightarrow>
     threshold start \<le> int (length (recent (cooldown start) now (history key es)))"
  by (simp add: tripped_window window_replay replay_settings)

end

definition breaker_window :: "circuit_breaker \<Rightarrow> string \<Rightarrow> real \<Rightarrow> real list" where
  "breaker_window b key now = recent (cb_cooldown b) now (dict_get (cb_failures b) key [])"

interpretation provider_breaker: windowed_breaker "new_circuit_breaker n c" record_failure reset
  is_open breaker_window cb_cooldown cb_threshold
  by unfold_locales
     (auto simp: is_open_def breaker_window_def record_failure_def reset_def
        new_circuit_breaker_def recent_recent)

fun replay_breaker :: "int \<Rightarrow> real \<Rightarrow> breaker_event list \<Rightarrow> circuit_breaker" where
  "replay_breaker n c [] = new_circuit_breaker n c"
| "replay_breaker n c (Failed_at k t # es) = record_failure (replay_breaker n c es) k t"
| "replay_breaker n c (Reset_key k # es) = reset (replay_breaker n c es) k"

lemma replay_breaker_eq: "replay_breaker n c es = provider_breaker.replay n c es"
  by (induction n c es rule: replay_breaker.induct) simp_all

lemma round_to_near: "\<bar>round_to n x - x\<bar> \<le> 1 / (2 * 10 ^ n)"
proof -
  have "round_to n x - x = (of_int (py_round (x * 10 ^ n)) - x * 10 ^ n) / 10 ^ n"
    by (simp add: round_to_def diff_divide_distrib)
  then have "\<bar>round_to n x - x\<bar> = \<bar>of_int (py_round (x * 10 ^ n)) - x * 10 ^ n\<bar> / 10 ^ n"
    by (simp add: abs_divide)
  also have "\<dots> \<le> (1 / 2) / 10 ^ n" by (rule divide_right_mono [OF py_round_near]) simp
  finally show ?thesis by simp
qed

lemma estimate_cost_nonneg:
  "0 \<le> i \<Longrightarrow> 0 \<le> o' \<Longrightarrow> 0 \<le> c \<Longrightarrow> 0 \<le> estimate_cost m i o' c"
proof -
  assume "0 \<le> i" "0 \<le> o'" "0 \<le> c"
  moreover have "0 \<le> x \<Longrightarrow> 0 \<le> round_to 6 x" for x
    unfolding round_to_def using py_round_mono_int [of 0 "x * 10 ^ 6"] by simp
  ultimately show ?thesis
    by (auto simp: estimate_cost_def MODEL_PRICING_USD_PER_MTOK_def price_def
        split: option.splits if_splits)
qed

subsection \<open>Properties\<close>

text \<open>The provider circuit breaker is exactly a sliding window: after any sequence of recorded
  failures and resets at non-decreasing instants, a key is open exactly when the failures of
  that key since its last reset that are younger than the cooldown reach the threshold, however
  many the breaker has pruned.\<close>

theorem circuit_breaker_is_sliding_window:
  assumes "monotone_events es now"
  shows "is_open (replay_breaker n c es) key now \<longleftrightarrow>
    n \<le> int (length (recent c now (history key es)))"
  using provider_breaker.tripped_replay [OF assms, of n c key]
  by (simp add: replay_breaker_eq new_circuit_breaker_def)

theorem circuit_breaker_is_sliding_window_witness:
  "is_open (replay_breaker 2 60 [Failed_at ''openai'' 70, Failed_at ''openai'' 50, Failed_at ''openai'' 1])
     ''openai'' 75 \<and>
   \<not> is_open (replay_breaker 2 60 [Reset_key ''openai'', Failed_at ''openai'' 70, Failed_at ''openai'' 50])
     ''openai'' 75"
proof -
  have "monotone_events [Failed_at ''openai'' 70, Failed_at ''openai'' 50, Failed_at ''openai'' 1] 75"
    "monotone_events [Reset_key ''openai'', Failed_at ''openai'' 70, Failed_at ''openai'' 50] 75"
    by simp_all
  from this [THEN circuit_breaker_is_sliding_window [where n = 2 and c = 60 and key = "''openai''"]]
  show ?thesis by (simp add: recent_def)
qed

end
