(* ===== verification/Recovery.thy ===== *)
theory Recovery
  imports JsonText Llm
begin

text \<open>
  From a model response to a phase payload (\<open>mas/orchestrator.py\<close>): the shape each phase
  expects, the repair of list-wrapped and truncated payloads, and the storing of a payload in
  the project state. The constructors of the typed outputs and of the technology-readiness
  models are parameters (\<open>models\<close>), as is the JSON decoder.
\<close>

subsection \<open>Parameters\<close>

record decoder =
  de_loads :: "string \<Rightarrow> jval option"
  de_raw :: "string \<Rightarrow> (jval \<times> string) option"
  de_dumps :: "jval \<Rightarrow> string"

record models =
  mo_classify :: "(string \<times> jval) list \<Rightarrow> (string, classify_output) result"
  mo_hypothesis :: "(string \<times> jval) list \<Rightarrow> (string, hypothesis) result"
  mo_gauntlet :: "(string \<times> jval) list \<Rightarrow> (string, gauntlet_output) result"
  mo_audit :: "(string \<times> jval) list \<Rightarrow> (string, audit_output) result"
  mo_strategy :: "(string \<times> jval) list \<Rightarrow> (string, strategy_output) result"
  mo_monitor :: "(string \<times> jval) list \<Rightarrow> (string, (string \<times> jval) list) result"
  mo_sqi :: "(string \<times> jval) list \<Rightarrow> (string, (string \<times> jval) list) result"
  mo_technology :: "phase \<Rightarrow> (string \<times> jval) list \<Rightarrow> (string, (string \<times> jval) list) result"

subsection \<open>Shape\<close>

definition is_obj :: "jval \<Rightarrow> bool" where
  "is_obj v = (case v of JObj _ \<Rightarrow> True | _ \<Rightarrow> False)"

definition is_list :: "jval \<Rightarrow> bool" where
  "is_list v = (case v of JList _ \<Rightarrow> True | _ \<Rightarrow> False)"

text \<open>
  A parsed value is \<open>None\<close> both when parsing failed and when the text is the JSON null;
  \<open>parsed\<close> below is \<open>None\<close> in both cases.
\<close>

definition py_none :: "jval option \<Rightarrow> jval option" where
  "py_none v = (if v = Some JNull then None else v)"

definition parsed_json_matches_phase :: "phase \<Rightarrow> jval option \<Rightarrow> bool" where
  "parsed_json_matches_phase p parsed =
     (case py_none parsed of
        None \<Rightarrow> False
      | Some v \<Rightarrow>
          if p = ''classify'' then is_obj v
          else if p = ''hypotheses''
          then is_list v \<or>
               (case v of JObj ms \<Rightarrow> (case map_of ms ''hypotheses'' of Some h \<Rightarrow> is_list h | None \<Rightarrow> False)
                | _ \<Rightarrow> False)
          else if p \<in> set TECHNOLOGY_READINESS_PHASE_SEQUENCE then is_obj v
          else if p \<in> {''gauntlet'', ''audit'', ''strategy'', ''monitor'', ''sqi''} then is_obj v
          else True)"

text \<open>\<open>_parse_phase_json\<close>: the expected root type is diagnostic only.\<close>

definition parse_phase_json :: "decoder \<Rightarrow> phase \<Rightarrow> string \<Rightarrow> jval option" where
  "parse_phase_json de p t = py_none (parse_json (de_loads de) t)"

subsection \<open>Repairing technology-readiness payloads\<close>

definition TECHNOLOGY_READINESS_MODEL_FIELDS :: "phase \<rightharpoonup> string list" where
  "TECHNOLOGY_READINESS_MODEL_FIELDS = map_of
     [(''scope'',
         [''technology_name'', ''assessment_boundary'', ''target_environment'',
          ''intended_next_milestone'', ''stakeholders'', ''constraints'', ''assumptions'',
          ''validation_questions'', ''evidence_gaps'', ''confidence'']),
      (''scientific_inventory'',
         [''scientific_basis'', ''critical_components'', ''current_experiments'',
          ''known_limitations'', ''evidence_items'', ''missing_evidence'', ''confidence'']),
      (''trl_diagnosis'',
         [''current_trl'', ''target_trl'', ''confidence'', ''current_phase_name'',
          ''evidence_supporting_current_trl'', ''why_not_higher'', ''evidence_gaps'',
          ''legal_or_certification_disclaimer'']),
      (''research_industry_alignment'',
         [''criteria_scores'', ''overall_alignment_score'', ''top_alignment_strengths'',
          ''top_alignment_gaps'', ''prioritized_industrial_applications'', ''confidence'']),
      (''ip_protection_axis'',
         [''material_composition'', ''synthesis_method'', ''specific_use'', ''device_or_system'',
          ''critical_parameters'', ''know_how'', ''ip_risk_notes'',
          ''specialist_review_required'', ''confidence'']),
      (''next_level_recommendations'',
         [''current_trl'', ''next_target_trl'', ''current_phase_name'', ''next_phase_name'',
          ''main_gap_to_next_level'', ''recommended_actions'', ''required_tests'',
          ''required_evidence'', ''expected_deliverables'', ''risks_to_reduce'',
          ''suggested_owners'', ''estimated_time_range'', ''advancement_criteria'', ''confidence'']),
      (''technical_validation_plan'',
         [''validation_tests'', ''acceptance_criteria'', ''measurement_plan'', ''failure_modes'',
          ''evidence_to_collect'', ''confidence'']),
      (''industrial_transfer_plan'',
         [''ideal_industrial_partner'', ''partner_validation_needed'',
          ''minimum_transfer_package'', ''transfer_model_options'', ''negotiation_risks'',
          ''evidence_required_before_transfer'', ''confidence'']),
      (''readiness_roadmap'',
         [''roadmap_phases'', ''timeline'', ''decision_gates'', ''resources_needed'',
          ''go_no_go_criteria'', ''confidence'']),
      (''executive_summary'',
         [''current_trl'', ''target_trl'', ''readiness_verdict_code'', ''readiness_verdict'',
          ''top_blockers'', ''recommended_next_step'', ''operator_summary'', ''confidence''])]"

definition TECHNOLOGY_READINESS_PHASE_ANCHOR_FIELDS :: "phase \<rightharpoonup> string list" where
  "TECHNOLOGY_READINESS_PHASE_ANCHOR_FIELDS = map_of
     [(''next_level_recommendations'',
         [''current_trl'', ''next_target_trl'', ''main_gap_to_next_level'', ''recommended_actions'']),
      (''technical_validation_plan'', [''validation_tests''])]"

definition validate_technology_readiness_output ::
  "models \<Rightarrow> phase \<Rightarrow> (string \<times> jval) list \<Rightarrow> (state_error, (string \<times> jval) list) result" where
  "validate_technology_readiness_output mo p payload =
     (case TECHNOLOGY_READINESS_MODEL_FIELDS p of
        None \<Rightarrow> Err (Schema_error ''Unsupported technology readiness phase'')
      | Some _ \<Rightarrow>
          (case mo_technology mo p payload of Inl e \<Rightarrow> Err (Schema_error e) | Inr out \<Rightarrow> Ok out))"

text \<open>Every model field has a default, so no field is required by the model itself.\<close>

definition is_valid_full_technology_readiness_candidate ::
  "models \<Rightarrow> phase \<Rightarrow> (string \<times> jval) list \<Rightarrow> bool" where
  "is_valid_full_technology_readiness_candidate mo p candidate \<longleftrightarrow>
     TECHNOLOGY_READINESS_MODEL_FIELDS p \<noteq> None \<and>
     set (opt_or (TECHNOLOGY_READINESS_PHASE_ANCHOR_FIELDS p) []) \<subseteq> fst ` set candidate \<and>
     (case GATE_CONFIGS p of None \<Rightarrow> True
      | Some cfg \<Rightarrow> set (required_fields cfg) \<subseteq> fst ` set candidate) \<and>
     \<not> isl (validate_technology_readiness_output mo p candidate)"

fun obj_items :: "jval list \<Rightarrow> (string \<times> jval) list list" where
  "obj_items [] = []"
| "obj_items (JObj ms # vs) = ms # obj_items vs"
| "obj_items (_ # vs) = obj_items vs"

definition repair_technology_readiness_top_level_payload ::
  "models \<Rightarrow> phase \<Rightarrow> jval option \<Rightarrow> jval option" where
  "repair_technology_readiness_top_level_payload mo p parsed =
     (if p \<notin> set TECHNOLOGY_READINESS_PHASE_SEQUENCE then parsed
      else case parsed of
        Some (JList [JObj ms]) \<Rightarrow> Some (JObj ms)
      | Some (JList items) \<Rightarrow>
          if length items \<le> 1 then parsed
          else (case filter (is_valid_full_technology_readiness_candidate mo p) (obj_items items) of
                  [ms] \<Rightarrow> Some (JObj ms)
                | _ \<Rightarrow> parsed)
      | _ \<Rightarrow> parsed)"

definition extract_fields :: "decoder \<Rightarrow> string \<Rightarrow> string list \<Rightarrow> (string \<times> jval) list" where
  "extract_fields de t keys =
     List.map_filter (\<lambda>k. map_option (\<lambda>v. (k, v))
       (py_none (extract_top_level_json_value (de_raw de) t k))) keys"

definition repair_technology_readiness_truncated_payload ::
  "decoder \<Rightarrow> models \<Rightarrow> phase \<Rightarrow> string \<Rightarrow> (string \<times> jval) list option" where
  "repair_technology_readiness_truncated_payload de mo p t =
     (if p \<notin> set TECHNOLOGY_READINESS_PHASE_SEQUENCE \<or> t = '''' then None
      else case TECHNOLOGY_READINESS_MODEL_FIELDS p of
        None \<Rightarrow> None
      | Some keys \<Rightarrow>
          let repaired = extract_fields de t keys
          in if repaired = [] then None
             else if is_valid_full_technology_readiness_candidate mo p repaired
             then Some repaired else None)"

subsection \<open>Repairing audit, strategy and monitor payloads\<close>

text \<open>Required keys that must not be null, empty text or an empty list, then optional ones.\<close>

definition repair_required ::
  "decoder \<Rightarrow> string \<Rightarrow> string list \<Rightarrow> string list \<Rightarrow> (string \<times> jval) list option" where
  "repair_required de t required optional =
     (if \<forall>k \<in> set required.
           (case extract_top_level_json_value (de_raw de) t k of
              None \<Rightarrow> False | Some v \<Rightarrow> v \<notin> {JNull, JStr '''', JList []})
      then Some (extract_fields de t required @ extract_fields de t optional)
      else None)"

definition repair_audit_payload :: "decoder \<Rightarrow> string \<Rightarrow> (string \<times> jval) list option" where
  "repair_audit_payload de t =
     repair_required de t [''fmea'', ''top_findings'']
       [''data_based'', ''hazop'', ''stpa'', ''fta'', ''swiss_cheese'', ''h_norm_estimate'',
        ''observation_needs'']"

definition repair_monitor_payload :: "decoder \<Rightarrow> string \<Rightarrow> (string \<times> jval) list option" where
  "repair_monitor_payload de t =
     repair_required de t [''ooda_schedule'', ''circuit_breakers'', ''canaries'']
       [''chaos_drills'', ''hro_principles_active'', ''reentry_watch'', ''commitment_score'',
        ''commitment_rationale'']"

definition repair_strategy_payload ::
  "decoder \<Rightarrow> models \<Rightarrow> string \<Rightarrow> (string \<times> jval) list option" where
  "repair_strategy_payload de mo t =
     (let repaired = strategy_completed_top_level_values (de_loads de) (de_raw de) t
      in if strategy_missing_keys repaired \<noteq> [] then None
         else case validate_strategy_payload (de_dumps de) (mo_strategy mo) (JObj repaired) of
                Inl _ \<Rightarrow> None
              | Inr _ \<Rightarrow> Some repaired)"

text \<open>
  The parse-and-repair block of \<open>run_phase_node\<close>: the payload, if any, and whether it has the
  phase's shape.
\<close>

definition recover_payload :: "decoder \<Rightarrow> models \<Rightarrow> phase \<Rightarrow> string \<Rightarrow> jval option \<times> bool" where
  "recover_payload de mo p t =
     (let parsed = repair_technology_readiness_top_level_payload mo p (parse_phase_json de p t);
          shape_ok = parsed_json_matches_phase p parsed
      in if shape_ok then (parsed, True)
         else case (if p \<in> set TECHNOLOGY_READINESS_PHASE_SEQUENCE
                    then repair_technology_readiness_truncated_payload de mo p t
                    else if p = ''audit'' then repair_audit_payload de t
                    else if p = ''strategy'' then repair_strategy_payload de mo t
                    else if p = ''monitor'' then repair_monitor_payload de t
                    else None) of
                Some repaired \<Rightarrow> (Some (JObj repaired), True)
              | None \<Rightarrow> (parsed, False))"

subsection \<open>Storing a payload\<close>

definition NULL_COERCE :: "string set" where
  "NULL_COERCE = {''justification'', ''signal'', ''confirm'', ''reject'', ''evoi'',
     ''portfolio_cluster'', ''status''}"

definition sanitize_hypothesis :: "(string \<times> jval) list \<Rightarrow> (string \<times> jval) list" where
  "sanitize_hypothesis =
     map (\<lambda>(k, v). (k, if v = JNull \<and> k \<in> NULL_COERCE then JStr '''' else v))"

fun valid_hypotheses :: "models \<Rightarrow> jval list \<Rightarrow> hypothesis list" where
  "valid_hypotheses mo [] = []"
| "valid_hypotheses mo (JObj ms # items) =
     (case mo_hypothesis mo (sanitize_hypothesis ms) of
        Inr h \<Rightarrow> h # valid_hypotheses mo items
      | Inl _ \<Rightarrow> valid_hypotheses mo items)"
| "valid_hypotheses mo (_ # items) = valid_hypotheses mo items"

definition coerce_null :: "string \<Rightarrow> jval \<Rightarrow> (string \<times> jval) list \<Rightarrow> (string \<times> jval) list" where
  "coerce_null k d ms = (if opt_or (map_of ms k) JNull = JNull then assoc_set k d ms else ms)"

definition classify_payload :: "jval \<Rightarrow> (state_error, (string \<times> jval) list) result" where
  "classify_payload data =
     (case (case data of JList [JObj ms] \<Rightarrow> JObj ms | _ \<Rightarrow> data) of
        JObj ms \<Rightarrow>
          Ok (coerce_null ''dq'' (JList [JNum 0, JNum 0, JNum 0, JNum 0])
               (coerce_null ''bf'' (JNum 0) ms))
      | _ \<Rightarrow> Err (Schema_error ''not a mapping''))"

text \<open>The argument of \<open>Model(**data)\<close>: only an object can be unpacked.\<close>

definition construct_model ::
  "((string \<times> jval) list \<Rightarrow> (string, 'a) result) \<Rightarrow> jval \<Rightarrow> (state_error, 'a) result" where
  "construct_model f data =
     (case data of
        JObj ms \<Rightarrow> (case f ms of Inl e \<Rightarrow> Err (Schema_error e) | Inr x \<Rightarrow> Ok x)
      | _ \<Rightarrow> Err (Schema_error ''not a mapping''))"

text \<open>
  The hypotheses branch never raises: a payload that is neither a list nor an object with a
  list, or a list without one valid item, leaves the state as it is.
\<close>

definition store_hypotheses :: "models \<Rightarrow> project_state \<Rightarrow> jval \<Rightarrow> project_state" where
  "store_hypotheses mo s data =
     (let items = (case data of
                     JList xs \<Rightarrow> xs
                   | JObj ms \<Rightarrow> (case map_of ms ''hypotheses'' of Some (JList xs) \<Rightarrow> xs | _ \<Rightarrow> [])
                   | _ \<Rightarrow> []);
          hs = valid_hypotheses mo items
      in if hs = [] then s else s\<lparr>hypotheses_out := Some hs\<rparr>)"

definition store_phase_output ::
  "decoder \<Rightarrow> models \<Rightarrow> project_state \<Rightarrow> phase \<Rightarrow> jval \<Rightarrow> (state_error, project_state) result" where
  "store_phase_output de mo s p data =
     (if p = ''classify''
      then (case classify_payload data of
              Inl e \<Rightarrow> Err e
            | Inr ms \<Rightarrow> map_result (\<lambda>x. s\<lparr>classify_out := Some x\<rparr>) (construct_model (mo_classify mo) (JObj ms)))
      else if p = ''hypotheses'' then Ok (store_hypotheses mo s data)
      else if p = ''gauntlet''
      then map_result (\<lambda>x. s\<lparr>gauntlet_out := Some x\<rparr>) (construct_model (mo_gauntlet mo) data)
      else if p = ''audit''
      then map_result (\<lambda>x. s\<lparr>audit_out := Some x, audit_raw := None\<rparr>) (construct_model (mo_audit mo) data)
      else if p = ''strategy''
      then map_result (\<lambda>x. s\<lparr>strategy_out := Some x, strategy_raw := None\<rparr>)
             (validate_strategy_payload (de_dumps de) (mo_strategy mo) data)
      else if p = ''monitor''
      then map_result (\<lambda>x. s\<lparr>monitor_out := Some x\<rparr>) (construct_model (mo_monitor mo) data)
      else if p = ''sqi''
      then map_result (\<lambda>x. s\<lparr>sqi_out := Some x\<rparr>) (construct_model (mo_sqi mo) data)
      else if p \<in> set TECHNOLOGY_READINESS_PHASE_SEQUENCE
      then (case data of
              JObj ms \<Rightarrow> map_result (\<lambda>x. s\<lparr>tr_outputs := (tr_outputs s)(p \<mapsto> x)\<rparr>)
                           (validate_technology_readiness_output mo p ms)
            | _ \<Rightarrow> Err (Schema_error ''output must be a JSON object''))
      else Ok s)"

lemma truncate_outputs [simp]:
  "policy_state.truncate (s\<lparr>classify_out := a\<rparr>) = policy_state.truncate s"
  "policy_state.truncate (s\<lparr>hypotheses_out := b\<rparr>) = policy_state.truncate s"
  "policy_state.truncate (s\<lparr>gauntlet_out := c\<rparr>) = policy_state.truncate s"
  "policy_state.truncate (s\<lparr>audit_out := d\<rparr>) = policy_state.truncate s"
  "policy_state.truncate (s\<lparr>audit_raw := e\<rparr>) = policy_state.truncate s"
  "policy_state.truncate (s\<lparr>monitor_out := f\<rparr>) = policy_state.truncate s"
  "policy_state.truncate (s\<lparr>sqi_out := g\<rparr>) = policy_state.truncate s"
  "policy_state.truncate (s\<lparr>tr_outputs := h\<rparr>) = policy_state.truncate s"
  by (simp_all add: policy_state.defs)

lemma output_is_None_outputs [simp]:
  "output_is_None (s\<lparr>classify_out := Some a\<rparr>) q \<longleftrightarrow> q \<noteq> ''classify'' \<and> output_is_None s q"
  "output_is_None (s\<lparr>hypotheses_out := Some b\<rparr>) q \<longleftrightarrow> q \<noteq> ''hypotheses'' \<and> output_is_None s q"
  "output_is_None (s\<lparr>gauntlet_out := Some c\<rparr>) q \<longleftrightarrow> q \<noteq> ''gauntlet'' \<and> output_is_None s q"
  "output_is_None (s\<lparr>audit_out := Some d\<rparr>) q \<longleftrightarrow> q \<noteq> ''audit'' \<and> output_is_None s q"
  "output_is_None (s\<lparr>strategy_out := Some e\<rparr>) q \<longleftrightarrow> q \<noteq> ''strategy'' \<and> output_is_None s q"
  "output_is_None (s\<lparr>monitor_out := Some f\<rparr>) q \<longleftrightarrow> q \<noteq> ''monitor'' \<and> output_is_None s q"
  "output_is_None (s\<lparr>sqi_out := Some g\<rparr>) q \<longleftrightarrow> q \<noteq> ''sqi'' \<and> output_is_None s q"
  by (auto simp: output_is_None_def)

lemma sequences_disjoint:
  "set STRATEGIC_AUDIT_PHASE_SEQUENCE \<inter> set TECHNOLOGY_READINESS_PHASE_SEQUENCE = {}"
  by (simp add: STRATEGIC_AUDIT_PHASE_SEQUENCE_def TECHNOLOGY_READINESS_PHASE_SEQUENCE_def)

lemma technology_not_strategic:
  "p \<in> set TECHNOLOGY_READINESS_PHASE_SEQUENCE \<Longrightarrow>
     p \<noteq> ''classify'' \<and> p \<noteq> ''hypotheses'' \<and> p \<noteq> ''gauntlet'' \<and> p \<noteq> ''audit'' \<and>
     p \<noteq> ''strategy'' \<and> p \<noteq> ''sqi'' \<and> p \<noteq> ''monitor'' \<and> p \<noteq> ''report''"
  using sequences_disjoint by (auto simp: STRATEGIC_AUDIT_PHASE_SEQUENCE_def)

lemma output_is_None_technology [simp]:
  "p \<in> set TECHNOLOGY_READINESS_PHASE_SEQUENCE \<Longrightarrow>
     output_is_None (s\<lparr>tr_outputs := (tr_outputs s)(p \<mapsto> x)\<rparr>) q \<longleftrightarrow> q \<noteq> p \<and> output_is_None s q"
  using technology_not_strategic [of p] by (cases "q = p") (simp_all add: output_is_None_def)

text \<open>What storing changes: one output field, and the raw text of audit and strategy.\<close>

inductive stored :: "phase \<Rightarrow> project_state \<Rightarrow> project_state \<Rightarrow> bool" for p s where
  "p = ''classify'' \<Longrightarrow> stored p s (s\<lparr>classify_out := Some x1\<rparr>)"
| "p = ''hypotheses'' \<Longrightarrow> hs \<noteq> [] \<Longrightarrow> stored p s (s\<lparr>hypotheses_out := Some hs\<rparr>)"
| "p = ''hypotheses'' \<Longrightarrow> stored p s s"
| "p = ''gauntlet'' \<Longrightarrow> stored p s (s\<lparr>gauntlet_out := Some x2\<rparr>)"
| "p = ''audit'' \<Longrightarrow> stored p s (s\<lparr>audit_out := Some x3, audit_raw := None\<rparr>)"
| "p = ''strategy'' \<Longrightarrow> stored p s (s\<lparr>strategy_out := Some x4, strategy_raw := None\<rparr>)"
| "p = ''monitor'' \<Longrightarrow> stored p s (s\<lparr>monitor_out := Some x5\<rparr>)"
| "p = ''sqi'' \<Longrightarrow> stored p s (s\<lparr>sqi_out := Some x6\<rparr>)"
| "p \<in> set TECHNOLOGY_READINESS_PHASE_SEQUENCE \<Longrightarrow>
     stored p s (s\<lparr>tr_outputs := (tr_outputs s)(p \<mapsto> x7)\<rparr>)"
| "p \<notin> set STRATEGIC_AUDIT_PHASE_SEQUENCE - {''report''} \<Longrightarrow>
     p \<notin> set TECHNOLOGY_READINESS_PHASE_SEQUENCE \<Longrightarrow> stored p s s"

lemma store_phase_output_stored:
  assumes "store_phase_output de mo s p data = Ok t"
  shows "stored p s t"
proof -
  consider "p = ''classify''" | "p = ''hypotheses''" | "p = ''gauntlet''" | "p = ''audit''"
    | "p = ''strategy''" | "p = ''monitor''" | "p = ''sqi''"
    | "p \<in> set TECHNOLOGY_READINESS_PHASE_SEQUENCE" "p \<notin> set STRATEGIC_AUDIT_PHASE_SEQUENCE"
    | "p \<notin> set STRATEGIC_AUDIT_PHASE_SEQUENCE - {''report''}"
      "p \<notin> set TECHNOLOGY_READINESS_PHASE_SEQUENCE"
  proof (cases "p \<in> set STRATEGIC_AUDIT_PHASE_SEQUENCE - {''report''}")
    case True
    then have "p = ''classify'' \<or> p = ''hypotheses'' \<or> p = ''gauntlet'' \<or> p = ''audit'' \<or>
        p = ''strategy'' \<or> p = ''monitor'' \<or> p = ''sqi''"
      by (auto simp: STRATEGIC_AUDIT_PHASE_SEQUENCE_def)
    then show thesis using that(1-7) by (elim disjE)
  next
    case False
    show thesis
    proof (cases "p \<in> set TECHNOLOGY_READINESS_PHASE_SEQUENCE")
      case True
      with sequences_disjoint have "p \<notin> set STRATEGIC_AUDIT_PHASE_SEQUENCE" by auto
      with True show thesis by (rule that(8))
    next
      case no: False
      with False show thesis by (rule that(9))
    qed
  qed
  then show ?thesis
  proof cases
    case 1
    with assms show ?thesis
      by (auto simp: store_phase_output_def intro: stored.intros(1) split: sum.splits)
  next
    case 2
    with assms show ?thesis
      by (auto simp: store_phase_output_def store_hypotheses_def Let_def intro: stored.intros(2,3) split: if_splits)
  next
    case 8
    with technology_not_strategic [OF 8(1)] assms show ?thesis
      by (auto simp: store_phase_output_def intro: stored.intros(9) split: jval.splits)
  next
    case 9
    then have "p \<noteq> ''classify''" "p \<noteq> ''hypotheses''" "p \<noteq> ''gauntlet''" "p \<noteq> ''audit''"
      "p \<noteq> ''strategy''" "p \<noteq> ''monitor''" "p \<noteq> ''sqi''"
      by (auto simp: STRATEGIC_AUDIT_PHASE_SEQUENCE_def)
    with 9 assms have "t = s" by (simp add: store_phase_output_def)
    with 9 show ?thesis by (simp add: stored.intros(10))
  next
    case 3
    with assms show ?thesis by (auto simp: store_phase_output_def intro: stored.intros(4))
  next
    case 4
    with assms show ?thesis by (auto simp: store_phase_output_def intro: stored.intros(5))
  next
    case 5
    with assms show ?thesis by (auto simp: store_phase_output_def intro: stored.intros(6))
  next
    case 6
    with assms show ?thesis by (auto simp: store_phase_output_def intro: stored.intros(7))
  next
    case 7
    with assms show ?thesis by (auto simp: store_phase_output_def intro: stored.intros(8))
  qed
qed

lemma stored_frame:
  "stored p s t \<Longrightarrow>
     phase_status t = phase_status s \<and> phase_confidence t = phase_confidence s \<and>
     phase_failure_details t = phase_failure_details s \<and> project_type t = project_type s \<and>
     policy_state.truncate t = policy_state.truncate s"
  by (induction rule: stored.induct) simp_all

lemma stored_other: "stored p s t \<Longrightarrow> q \<noteq> p \<Longrightarrow> output_is_None t q = output_is_None s q"
  by (induction rule: stored.induct) auto

lemma stored_present:
  "stored p s t \<Longrightarrow> p \<noteq> ''hypotheses'' \<Longrightarrow>
     p \<in> set STRATEGIC_AUDIT_PHASE_SEQUENCE - {''report''} \<union> set TECHNOLOGY_READINESS_PHASE_SEQUENCE \<Longrightarrow>
     \<not> output_is_None t p"
  by (induction rule: stored.induct) auto

end
