(* ===== verification/Orchestrator.thy ===== *)
theory Orchestrator
  imports Recovery
begin

text \<open>
  The phase runner (\<open>mas/orchestrator.py\<close>): prerequisites, one phase execution
  (\<open>run_phase_node\<close>), the sequential runner (\<open>run_workflow_sequence\<close>) and the routing
  functions of the graph.

  What a phase execution reads from outside is in \<open>orchestrator_env\<close>: the model call (which
  the gateway serves, theory Gateway), the decoder and the model constructors, the clocks, the
  sanitiser of the brief, the research-evidence consumption, the retrieval, the summaries and the
  details of the report events, and the rendering of reasons with numbers in them. A call is told which request of the phase it serves, because
  the prompts are not modelled.
\<close>

subsection \<open>Environment\<close>

datatype request = First_attempt | Json_retry | Schema_retry

record evidence_consumption =
  ec_event :: "(string \<times> jval) list option"
  ec_blocked :: "(string \<times> string) option"

record orchestrator_env =
  en_decoder :: decoder
  en_models :: models
  en_call :: "project_state \<Rightarrow> phase \<Rightarrow> request \<Rightarrow> llm_response"
  en_monotonic :: real
  en_time :: real
  en_today :: string
  en_isonow :: string
  en_redact :: "string \<Rightarrow> string"
  en_sanitize_brief :: "string \<Rightarrow> (jval \<times> (string \<times> jval) list) option"
  en_evidence :: "project_state \<Rightarrow> phase \<Rightarrow> evidence_consumption"
  en_retrieval :: "project_state \<Rightarrow> phase \<Rightarrow> (string \<times> jval) list option"
  en_summary :: "phase \<Rightarrow> project_state \<Rightarrow> string"
  en_exception_text :: "state_error \<Rightarrow> string"
  en_render_reason :: "gate_reason option \<Rightarrow> jval"
  en_gate_message :: "block_reason list \<Rightarrow> real \<Rightarrow> string"
  en_report_details :: "project_state \<Rightarrow> (string \<times> jval) list"
  en_attribution_details :: "project_state \<Rightarrow> (string \<times> jval) list option"

subsection \<open>Failures\<close>

text \<open>
  \<open>_sanitize_phase_failure_text\<close>: \<open>redact\<close> stands for its regular-expression substitutions.
\<close>

definition sanitize_phase_failure_text :: "(string \<Rightarrow> string) \<Rightarrow> nat \<Rightarrow> string \<Rightarrow> string" where
  "sanitize_phase_failure_text redact max_length t =
     (let v0 = map (\<lambda>c. if c = CHR 0x0D \<or> c = CHR 0x0A then CHR '' '' else c) (py_or t ''Phase failed'');
          v1 = join_with '' '' (split_ws [] (redact v0));
          v2 = py_or v1 ''Phase failed''
      in if max_length < length v2 then py_rstrip (take (max_length - 3) v2) @ ''...'' else v2)"

definition record_phase_failure ::
  "orchestrator_env \<Rightarrow> project_state \<Rightarrow> phase \<Rightarrow> string \<Rightarrow> string \<Rightarrow> project_state" where
  "record_phase_failure env s p category message =
     (if p = '''' then s
      else s\<lparr>phase_failure_details := (phase_failure_details s)(p \<mapsto>
             \<lparr>fd_phase = p,
              fd_category = sanitize_phase_failure_text (en_redact env) 80 category,
              fd_message = sanitize_phase_failure_text (en_redact env) 320 message\<rparr>)\<rparr>)"

definition clear_phase_failure :: "project_state \<Rightarrow> phase \<Rightarrow> project_state" where
  "clear_phase_failure s p = s\<lparr>phase_failure_details := pop (phase_failure_details s) p\<rparr>"

text \<open>The three statements that end a failed phase.\<close>

definition fail_phase ::
  "orchestrator_env \<Rightarrow> project_state \<Rightarrow> phase \<Rightarrow> string \<Rightarrow> string \<Rightarrow> project_state" where
  "fail_phase env s p category message =
     record_phase_failure env
       (s\<lparr>phase_status := (phase_status s)(p \<mapsto> FAILED),
          phase_confidence := (phase_confidence s)(p \<mapsto> 0)\<rparr>) p category message"

definition complete_phase :: "project_state \<Rightarrow> phase \<Rightarrow> project_state" where
  "complete_phase s p =
     clear_phase_failure
       (s\<lparr>phase_status := (phase_status s)(p \<mapsto> COMPLETED),
          phase_confidence := (phase_confidence s)(p \<mapsto> 1)\<rparr>) p"

definition PROVIDER_QUOTA_DIAGNOSTIC_MESSAGE :: string where
  "PROVIDER_QUOTA_DIAGNOSTIC_MESSAGE = ''Provider quota prevented a usable phase response.''"

definition PROVIDER_ERROR_DIAGNOSTIC_MESSAGE :: string where
  "PROVIDER_ERROR_DIAGNOSTIC_MESSAGE =
     ''Provider call failed before usable phase output was returned.''"

definition POLICY_BLOCKED_DIAGNOSTIC_MESSAGE :: string where
  "POLICY_BLOCKED_DIAGNOSTIC_MESSAGE = ''Policy gate blocked this phase before provider execution.''"

definition POLICY_FAILURE_CATEGORIES :: "string set" where
  "POLICY_FAILURE_CATEGORIES = {''policy'', ''kill_switch'', ''budget'', ''breaker'', ''approval''}"

definition provider_failure_diagnostic :: "llm_response \<Rightarrow> string \<times> string" where
  "provider_failure_diagnostic r =
     (let combined = join_with '' '' [py_lower (lr_error_type r), py_lower (lr_failed_error_type r),
                       py_lower (lr_error r)]
      in if list_ex (\<lambda>m. contains m combined)
              [''quota'', ''insufficient_quota'', ''credit balance'', ''credit exhausted'']
         then (''quota_exceeded'', PROVIDER_QUOTA_DIAGNOSTIC_MESSAGE)
         else (''provider_error'', PROVIDER_ERROR_DIAGNOSTIC_MESSAGE))"

definition is_policy_failure_response :: "llm_response \<Rightarrow> bool" where
  "is_policy_failure_response r \<longleftrightarrow> py_lower (lr_error_type r) \<in> POLICY_FAILURE_CATEGORIES"

text \<open>\<open>_json_shape_failure_message\<close>, before sanitising.\<close>

definition expected_shape :: "phase \<Rightarrow> string" where
  "expected_shape p = opt_or (map_of
     [(''classify'', ''JSON object''),
      (''hypotheses'', ''JSON array or object with a hypotheses array''),
      (''gauntlet'', ''JSON object matching the gauntlet schema''),
      (''audit'', ''JSON object matching the audit schema''),
      (''strategy'', ''JSON object matching the strategy schema''),
      (''monitor'', ''JSON object matching the monitor schema''),
      (''sqi'', ''JSON object matching the SQI schema'')] p) ''phase JSON schema''"

fun type_name :: "jval option \<Rightarrow> string" where
  "type_name None = ''NoneType''"
| "type_name (Some JNull) = ''NoneType''"
| "type_name (Some (JBool _)) = ''bool''"
| "type_name (Some (JInt _)) = ''int''"
| "type_name (Some (JNum _)) = ''float''"
| "type_name (Some (JStr _)) = ''str''"
| "type_name (Some (JList _)) = ''list''"
| "type_name (Some (JObj _)) = ''dict''"

definition candidate_stats :: "models \<Rightarrow> phase \<Rightarrow> jval list \<Rightarrow> string list" where
  "candidate_stats mo p items =
     (if p \<notin> set TECHNOLOGY_READINESS_PHASE_SEQUENCE then []
      else
        let dicts = obj_items items;
            valid = length (filter (is_valid_full_technology_readiness_candidate mo p) dicts)
        in [''candidate_dict_count='' @ nat_digits (length dicts),
            ''valid_candidate_count='' @ nat_digits valid,
            ''reason='' @ (if 1 < valid then ''ambiguous_multiple_candidates'' else ''no_valid_candidate'')])"

definition json_shape_failure_message :: "orchestrator_env \<Rightarrow> phase \<Rightarrow> jval option \<Rightarrow> string" where
  "json_shape_failure_message env p parsed =
     sanitize_phase_failure_text (en_redact env) 320
       (join_with ''; ''
         ([''Invalid JSON shape: expected '' @ expected_shape p,
           ''top_level_type='' @ type_name parsed] @
          (case parsed of
             Some (JList items) \<Rightarrow>
               (''list_length='' @ nat_digits (length items)) # candidate_stats (en_models env) p items
           | _ \<Rightarrow> [])))"

subsection \<open>Prerequisites\<close>

definition STRATEGIC_PHASE_PREREQUISITES :: "phase \<Rightarrow> phase list" where
  "STRATEGIC_PHASE_PREREQUISITES p = opt_or (map_of
     [(''sqi'', [''strategy'']), (''monitor'', [''strategy'']), (''report'', [''strategy'', ''monitor''])] p) []"

definition phase_has_output :: "project_state \<Rightarrow> phase \<Rightarrow> bool" where
  "phase_has_output s p =
     (if p = ''report'' then raw_nonempty (report_text s)
      else if p = ''hypotheses'' then (case hypotheses_out s of None \<Rightarrow> False | Some hs \<Rightarrow> hs \<noteq> [])
      else \<not> output_is_None s p)"

definition clear_phase_authoritative_output :: "project_state \<Rightarrow> phase \<Rightarrow> project_state" where
  "clear_phase_authoritative_output s p =
     (let s1 = set_output_None s p
      in if p = ''audit'' then s1\<lparr>audit_raw := None\<rparr>
         else if p = ''strategy'' then s1\<lparr>strategy_raw := None, det_scores_of := None\<rparr>
         else if p = ''report''
         then s1\<lparr>report_text := None, report_output_language := None, report_output_mode := None\<rparr>
         else s1)"

definition clear_invalidated_phase_lifecycle :: "project_state \<Rightarrow> phase \<Rightarrow> project_state" where
  "clear_invalidated_phase_lifecycle s p =
     s\<lparr>phase_failure_details := pop (phase_failure_details s) p,
       phase_run_completed_at := pop (phase_run_completed_at s) p\<rparr>"

definition prerequisites_missing :: "project_state \<Rightarrow> phase \<Rightarrow> phase list" where
  "prerequisites_missing s p =
     filter (\<lambda>q. status_of s q \<noteq> COMPLETED \<or> \<not> phase_has_output s q) (STRATEGIC_PHASE_PREREQUISITES p)"

definition prerequisite_reason :: "phase list \<Rightarrow> string" where
  "prerequisite_reason missing =
     join_with ''; '' (map (\<lambda>q. q @ '' must be COMPLETED with structured output'') missing)"

definition record_prerequisite_failure ::
  "orchestrator_env \<Rightarrow> project_state \<Rightarrow> phase \<Rightarrow> string \<Rightarrow> (state_error, project_state) result" where
  "record_prerequisite_failure env s p reason =
     (case invalidate_downstream (clear_phase_authoritative_output s p) p of
        Inl e \<Rightarrow> Err e
      | Inr (s1, downstream) \<Rightarrow>
          let s2 = fold (\<lambda>q t. clear_invalidated_phase_lifecycle (clear_phase_authoritative_output t q) q)
                     downstream s1;
              s3 = s2\<lparr>phase_status := (phase_status s2)(p \<mapsto> FAILED),
                      phase_confidence := (phase_confidence s2)(p \<mapsto> 0),
                      phase_summaries := pop (phase_summaries s2) p,
                      phase_run_completed_at := pop (phase_run_completed_at s2) p\<rparr>
          in Ok (record_phase_failure env s3 p ''prerequisite_failed''
                   (''Phase prerequisite not met: '' @ reason @ ''.'')))"

definition UNFINISHED_PHASE_STATUSES :: "phase_status set" where
  "UNFINISHED_PHASE_STATUSES = {PENDING, RUNNING, FAILED, STALE}"

definition phase_unfinished :: "project_state \<Rightarrow> phase \<Rightarrow> bool" where
  "phase_unfinished s p \<longleftrightarrow>
     status_of s p \<in> UNFINISHED_PHASE_STATUSES \<or>
     (status_of s p = COMPLETED \<and> \<not> phase_has_output s p)"

definition workflow_phase_sequence_for_state :: "project_state \<Rightarrow> (state_error, phase list) result" where
  "workflow_phase_sequence_for_state s =
     (case get_workflow_phase_sequence (PT_Str (project_type s)) of
        Inl e \<Rightarrow> Err (Workflow_failure e) | Inr seq \<Rightarrow> Ok seq)"

definition get_first_unfinished_phase :: "project_state \<Rightarrow> (state_error, phase option) result" where
  "get_first_unfinished_phase s =
     map_result (\<lambda>seq. find (phase_unfinished s) seq) (workflow_phase_sequence_for_state s)"

definition is_workflow_complete :: "project_state \<Rightarrow> (state_error, bool) result" where
  "is_workflow_complete s = map_result (\<lambda>p. p = None) (get_first_unfinished_phase s)"

subsection \<open>Running one phase\<close>

text \<open>A step of \<open>run_phase_node\<close> either returns from it or lets it go on.\<close>

datatype flow = Return project_state | Continue project_state

definition PROMPT_BUILDER_PHASES :: "phase list" where
  "PROMPT_BUILDER_PHASES =
     [''classify'', ''hypotheses'', ''gauntlet'', ''audit'', ''strategy'', ''monitor'', ''sqi'',
      ''report'', ''scope'', ''scientific_inventory'', ''trl_diagnosis'',
      ''research_industry_alignment'', ''ip_protection_axis'', ''next_level_recommendations'',
      ''technical_validation_plan'', ''industrial_transfer_plan'', ''readiness_roadmap'',
      ''executive_summary'']"

definition invalidate_strategy_replacement :: "project_state \<Rightarrow> project_state \<times> phase list" where
  "invalidate_strategy_replacement s = invalidate_strategy_dependency_cone s None None"

text \<open>Strategy replacement and prerequisites.\<close>

definition enter_phase ::
  "orchestrator_env \<Rightarrow> project_state \<Rightarrow> phase \<Rightarrow> (state_error, flow) result" where
  "enter_phase env s p =
     (let s1 = (if p = ''strategy'' then fst (invalidate_strategy_replacement s) else s);
          missing = prerequisites_missing s1 p
      in if missing = [] then Ok (Continue s1)
         else map_result Return (record_prerequisite_failure env s1 p (prerequisite_reason missing)))"

text \<open>The wall clock, the sanitisation of the brief and the policy gate.\<close>

definition sanitize_intake :: "orchestrator_env \<Rightarrow> project_state \<Rightarrow> phase \<Rightarrow> project_state" where
  "sanitize_intake env s p =
     (if p = ''classify'' \<and> intake_sanitization_findings s = None
      then (case en_sanitize_brief env (brief s) of
              None \<Rightarrow> s
            | Some (findings, details) \<Rightarrow>
                log_policy_event (s\<lparr>intake_sanitization_findings := Some findings\<rparr>)
                  ''intake_sanitization_complete'' details (en_time env))
      else s)"

definition reversibility_of :: "phase \<Rightarrow> reversibility" where
  "reversibility_of p = dict_get PHASE_ACTION_MAP p REVERSIBLE_INTERNAL"

definition phase_gate :: "orchestrator_env \<Rightarrow> project_state \<Rightarrow> phase \<Rightarrow> gate_decision" where
  "phase_gate env s p = policy_gate s p (reversibility_of p) 0 0 (en_monotonic env)"

definition gate_phase :: "orchestrator_env \<Rightarrow> project_state \<Rightarrow> phase \<Rightarrow> flow" where
  "gate_phase env s p =
     (let s1 = sanitize_intake env (start_wall_clock s (en_monotonic env)) p;
          decision = phase_gate env s1 p
      in if gd_allowed decision then Continue s1
         else Return
           (log_policy_event
             (fail_phase env s1 p ''policy_blocked'' POLICY_BLOCKED_DIAGNOSTIC_MESSAGE)
             ''policy_gate_blocked''
             [(''phase'', JStr p), (''reason'', en_render_reason env (gd_reason decision)),
              (''category'', JStr (opt_or (gd_breach_category decision) '''')),
              (''requires_hitl'', JBool (gd_requires_hitl_approval decision))]
             (en_time env)))"

text \<open>From RUNNING to the prompt: the builder, the research evidence and the retrieval.\<close>

definition consume_evidence :: "orchestrator_env \<Rightarrow> project_state \<Rightarrow> phase \<Rightarrow> flow" where
  "consume_evidence env s p =
     (if p \<notin> {''audit'', ''strategy''} then Continue s
      else
        let c = en_evidence env s p;
            s1 = (case ec_event c of None \<Rightarrow> s
                  | Some d \<Rightarrow> log_policy_event s ''research_evidence_consumption'' d (en_time env))
        in case ec_blocked c of
             Some (reason, diagnostic) \<Rightarrow> Return (fail_phase env s1 p reason diagnostic)
           | None \<Rightarrow>
               (case en_retrieval env s1 p of
                  None \<Rightarrow> Continue s1
                | Some d \<Rightarrow>
                    Continue (log_policy_event s1 ''knowledge_retrieval_used'' d (en_time env))))"

definition start_phase :: "orchestrator_env \<Rightarrow> project_state \<Rightarrow> phase \<Rightarrow> flow" where
  "start_phase env s p =
     (let s1 = s\<lparr>phase_status := (phase_status s)(p \<mapsto> RUNNING), current_phase := p\<rparr>
      in if p \<notin> set PROMPT_BUILDER_PHASES
         then Return (fail_phase env s1 p ''phase_configuration''
                (''No prompt builder configured for phase '' @ p @ ''.''))
         else consume_evidence env s1 p)"

text \<open>One model call: the route is logged, then its consumption recorded.\<close>

definition llm_route_details :: "phase \<Rightarrow> llm_response \<Rightarrow> (string \<times> jval) list" where
  "llm_route_details p r =
     [(''phase'', JStr p), (''task_profile'', JStr (lr_task_profile r)),
      (''selected_provider'', JStr (lr_selected_provider r)),
      (''selected_model'', JStr (lr_selected_model r)),
      (''selection_reason'', JStr (lr_selection_reason r)),
      (''final_provider'', JStr (lr_provider_used r)), (''final_model'', JStr (lr_model_used r)),
      (''attempt_count'', JInt (int (lr_attempt_count r))),
      (''fallback_used'', JBool (lr_fallback_used r)),
      (''fallback_reason'', JStr (lr_fallback_reason r)),
      (''failed_provider'', JStr (lr_failed_provider r)),
      (''failed_model'', JStr (lr_failed_model r)),
      (''failed_error_type'', JStr (lr_failed_error_type r)),
      (''fallback_provider'', JStr (lr_fallback_provider r)),
      (''fallback_model'', JStr (lr_fallback_model r)),
      (''error_type'', JStr (lr_error_type r)), (''input_tokens'', JInt (lr_input_tokens r)),
      (''output_tokens'', JInt (lr_output_tokens r)), (''stop_reason'', JStr (lr_stop_reason r)),
      (''cache_hit'', JBool (lr_cache_hit r)), (''latency_ms'', JNum (lr_latency_ms r))]"

definition call_and_charge ::
  "orchestrator_env \<Rightarrow> project_state \<Rightarrow> phase \<Rightarrow> request \<Rightarrow> project_state \<times> llm_response" where
  "call_and_charge env s p rq =
     (let r = en_call env s p rq;
          s1 = log_policy_event s ''llm_route'' (llm_route_details p r) (en_time env)
      in (record_consumption_to_state s1 (lr_total_tokens r) (lr_cost_usd r) (lr_ok r), r))"

definition fail_response ::
  "orchestrator_env \<Rightarrow> project_state \<Rightarrow> phase \<Rightarrow> llm_response \<Rightarrow> project_state" where
  "fail_response env s p r =
     (let s1 = (if p = ''strategy'' \<and> lr_text r \<noteq> '''' then s\<lparr>strategy_raw := Some (lr_text r)\<rparr> else s);
          (category, message) =
            (if is_policy_failure_response r
             then (''policy_blocked'', POLICY_BLOCKED_DIAGNOSTIC_MESSAGE)
             else provider_failure_diagnostic r)
      in fail_phase env s1 p category message)"

text \<open>
  What the JSON branch carries: the state, the last response, the payload, its shape, whether
  a repair call was made and the failure noted so far (\<open>None\<close> for the empty message).
\<close>

record json_progress =
  jp_state :: project_state
  jp_response :: llm_response
  jp_parsed :: "jval option"
  jp_shape_ok :: bool
  jp_repaired :: bool
  jp_failure :: "(string \<times> string) option"
  jp_stored :: bool

definition parse_or_retry ::
  "orchestrator_env \<Rightarrow> project_state \<Rightarrow> phase \<Rightarrow> llm_response \<Rightarrow> json_progress" where
  "parse_or_retry env s p r =
     (let de = en_decoder env; mo = en_models env;
          (parsed, shape_ok) = recover_payload de mo p (lr_text r)
      in if parsed \<noteq> None \<and> shape_ok
         then \<lparr>jp_state = s, jp_response = r, jp_parsed = parsed, jp_shape_ok = True,
               jp_repaired = False, jp_failure = None, jp_stored = False\<rparr>
         else
           let (s1, r1) = call_and_charge env s p Json_retry
           in if lr_ok r1
              then
                let (parsed1, shape1) = recover_payload de mo p (lr_text r1)
                in \<lparr>jp_state = s1, jp_response = r1, jp_parsed = parsed1, jp_shape_ok = shape1,
                    jp_repaired = True,
                    jp_failure =
                      (if parsed1 = None
                       then Some (''json_parse'', ''JSON parse failed after repair attempt; no valid top-level JSON object or array was recovered.'')
                       else if \<not> shape1
                       then Some (''json_shape'', json_shape_failure_message env p parsed1)
                       else None),
                    jp_stored = False\<rparr>
              else \<lparr>jp_state = s1, jp_response = r, jp_parsed = parsed, jp_shape_ok = shape_ok,
                    jp_repaired = True, jp_failure = Some (provider_failure_diagnostic r1),
                    jp_stored = False\<rparr>)"

definition schema_failure :: "orchestrator_env \<Rightarrow> string \<Rightarrow> state_error \<Rightarrow> string \<times> string" where
  "schema_failure env prefix e = (''schema_validation'', prefix @ en_exception_text env e)"

definition schema_retry ::
  "orchestrator_env \<Rightarrow> phase \<Rightarrow> json_progress \<Rightarrow> json_progress" where
  "schema_retry env p j =
     (let de = en_decoder env; mo = en_models env;
          (s1, r1) = call_and_charge env (jp_state j) p Schema_retry;
          j1 = j\<lparr>jp_state := s1, jp_response := r1, jp_repaired := True\<rparr>
      in if \<not> lr_ok r1 then j1\<lparr>jp_failure := Some (provider_failure_diagnostic r1)\<rparr>
         else
           let (parsed1, shape1) = recover_payload de mo p (lr_text r1);
               j2 = j1\<lparr>jp_parsed := parsed1, jp_shape_ok := shape1\<rparr>
           in case parsed1 of
                Some v \<Rightarrow>
                  if \<not> shape1 then j2
                  else (case store_phase_output de mo s1 p v of
                          Inr s2 \<Rightarrow> j2\<lparr>jp_state := s2, jp_stored := True\<rparr>
                        | Inl e \<Rightarrow> j2\<lparr>jp_failure := Some (schema_failure env
                            ''Structured output failed schema validation after one repair attempt: '' e)\<rparr>)
              | None \<Rightarrow> j2)"

definition store_or_retry :: "orchestrator_env \<Rightarrow> phase \<Rightarrow> json_progress \<Rightarrow> json_progress" where
  "store_or_retry env p j =
     (if jp_parsed j = None \<or> \<not> parsed_json_matches_phase p (jp_parsed j) then j
      else case store_phase_output (en_decoder env) (en_models env) (jp_state j) p (the (jp_parsed j)) of
             Inr s1 \<Rightarrow> j\<lparr>jp_state := s1, jp_stored := True\<rparr>
           | Inl e \<Rightarrow>
               if (p \<in> set TECHNOLOGY_READINESS_PHASE_SEQUENCE \<or> p = ''strategy'') \<and> \<not> jp_repaired j
               then schema_retry env p j
               else j\<lparr>jp_failure := Some (schema_failure env ''Structured output failed schema validation: '' e)\<rparr>)"

definition keep_raw :: "project_state \<Rightarrow> phase \<Rightarrow> string \<Rightarrow> project_state" where
  "keep_raw s p t =
     (if p = ''audit'' then s\<lparr>audit_raw := Some t\<rparr>
      else if p = ''strategy'' then s\<lparr>strategy_raw := Some t\<rparr> else s)"

definition STRUCTURED_PHASES :: "phase set" where
  "STRUCTURED_PHASES =
     {''classify'', ''hypotheses'', ''gauntlet'', ''audit'', ''strategy'', ''monitor'', ''sqi''} \<union>
     set TECHNOLOGY_READINESS_PHASE_SEQUENCE"

definition conclude_json :: "orchestrator_env \<Rightarrow> phase \<Rightarrow> json_progress \<Rightarrow> project_state" where
  "conclude_json env p j =
     (let s = jp_state j; t = lr_text (jp_response j)
      in if jp_stored j
         then if p \<in> STRUCTURED_PHASES \<and> \<not> phase_has_output s p
              then fail_phase env (keep_raw s p t) p ''missing_output''
                     ''Parsed output was accepted but did not populate the expected state field.''
              else
                let s1 = complete_phase s p
                in if p = ''hypotheses'' then s1\<lparr>sealed := True, seal_date := Some (en_today env)\<rparr> else s1
         else
           let (category, message) =
                 (case jp_failure j of
                    Some f \<Rightarrow> f
                  | None \<Rightarrow>
                      if jp_parsed j = None
                      then (''json_parse'', ''JSON parse failed; no valid phase payload was recovered.'')
                      else if \<not> parsed_json_matches_phase p (jp_parsed j)
                      then (''json_shape'', json_shape_failure_message env p (jp_parsed j))
                      else (''schema_validation'', ''Structured output could not be stored in ProjectState.''))
           in fail_phase env (keep_raw s p t) p category message)"

definition conclude_report :: "orchestrator_env \<Rightarrow> project_state \<Rightarrow> llm_response \<Rightarrow> project_state" where
  "conclude_report env s r =
     (let lang = (case normalize_output_language (JStr (output_language s)) of Inr l \<Rightarrow> l | Inl _ \<Rightarrow> ''en'');
          mode = (case normalize_report_mode (JStr (report_mode s)) of Inr m \<Rightarrow> m | Inl _ \<Rightarrow> ''standard'');
          s1 = s\<lparr>report_text := Some (lr_text r), report_output_language := Some lang,
                 report_output_mode := Some mode\<rparr>;
          s2 = log_policy_event s1 ''report_generated'' (en_report_details env s1) (en_time env);
          s3 = (case en_attribution_details env s2 of None \<Rightarrow> s2
                | Some d \<Rightarrow> log_policy_event s2 ''research_evidence_attribution_check'' d (en_time env))
      in complete_phase s3 ''report'')"

definition finish_phase :: "orchestrator_env \<Rightarrow> project_state \<Rightarrow> phase \<Rightarrow> project_state" where
  "finish_phase env s p =
     (let s1 = s\<lparr>phase_summaries := (phase_summaries s)(p \<mapsto> en_summary env p s)\<rparr>
      in if phase_status s1 p = Some COMPLETED
         then s1\<lparr>phase_run_completed_at := (phase_run_completed_at s1)(p \<mapsto> en_isonow env)\<rparr> else s1)"

definition execute_phase :: "orchestrator_env \<Rightarrow> project_state \<Rightarrow> phase \<Rightarrow> project_state" where
  "execute_phase env s p =
     (let (s1, r) = call_and_charge env s p First_attempt
      in if \<not> lr_ok r then fail_response env s1 p r
         else finish_phase env
           (if p = ''report'' then conclude_report env s1 r
            else conclude_json env p (store_or_retry env p (parse_or_retry env s1 p r))) p)"

definition run_phase_node ::
  "orchestrator_env \<Rightarrow> project_state \<Rightarrow> phase \<Rightarrow> (state_error, project_state) result" where
  "run_phase_node env s p =
     (case enter_phase env s p of
        Inl e \<Rightarrow> Err e
      | Inr (Return t) \<Rightarrow> Ok t
      | Inr (Continue s1) \<Rightarrow>
          (case gate_phase env s1 p of
             Return t \<Rightarrow> Ok t
           | Continue s2 \<Rightarrow>
               (case start_phase env s2 p of
                  Return t \<Rightarrow> Ok t
                | Continue s3 \<Rightarrow> Ok (execute_phase env s3 p))))"

subsection \<open>The sequential runner\<close>

text \<open>What follows the execution of a phase: scores after strategy, triggers after sqi, the Brier
  score after report.\<close>

definition record_triggers :: "orchestrator_env \<Rightarrow> project_state \<Rightarrow> (state_error, project_state) result" where
  "record_triggers env s =
     map_result (\<lambda>ts. s\<lparr>reentry_triggers_fired :=
         reentry_triggers_fired s @ map (\<lambda>t. t\<lparr>ft_ts := py_or (ft_ts t) (en_isonow env)\<rparr>) ts\<rparr>)
       (evaluate_reentry_triggers s)"

definition after_phase ::
  "orchestrator_env \<Rightarrow> project_state \<Rightarrow> phase \<Rightarrow> (state_error, project_state) result" where
  "after_phase env s p =
     (if p = ''strategy'' \<and> strategy_out s \<noteq> None
      then Ok (s\<lparr>det_scores_of := compute_det_scores (strategy_out s)\<rparr>)
      else if p = ''sqi'' then record_triggers env s
      else if p = ''report'' \<and> predictions s \<noteq> []
      then Ok (s\<lparr>brier_score := compute_brier_score (predictions s)\<rparr>)
      else Ok s)"

definition is_structural :: "block_reason \<Rightarrow> bool" where
  "is_structural b =
     (case b of Output_empty _ \<Rightarrow> True | Missing_required _ \<Rightarrow> True | No_output _ \<Rightarrow> True | _ \<Rightarrow> False)"

text \<open>The gate check of the runner: a structural failure ends the run (\<open>Return\<close>).\<close>

definition gate_after_phase :: "orchestrator_env \<Rightarrow> project_state \<Rightarrow> phase \<Rightarrow> flow" where
  "gate_after_phase env s p =
     (if GATE_CONFIGS p = None then Continue s
      else
        let gate = check_gate s p;
            s1 = s\<lparr>phase_confidence := (phase_confidence s)(p \<mapsto> gr_confidence gate)\<rparr>;
            structural = filter is_structural (gr_blocking gate)
        in if \<not> gr_passed gate \<and> structural \<noteq> []
           then Return (record_phase_failure env
                  (s1\<lparr>phase_status := (phase_status s1)(p \<mapsto> FAILED)\<rparr>) p ''gate_structural''
                  (en_gate_message env (take 3 structural) (gr_confidence gate)))
           else Continue s1)"

text \<open>
  The loop over the remaining phases; \<open>env p\<close> is the environment in which phase \<open>p\<close> runs. The
  second component is the list of states handed to \<open>persist_state\<close>.
\<close>

fun sequence_loop ::
  "(phase \<Rightarrow> orchestrator_env) \<Rightarrow> project_state \<Rightarrow> phase list \<Rightarrow>
   (state_error, project_state \<times> project_state list) result" where
  "sequence_loop env s [] = Ok (s, [])"
| "sequence_loop env s (p # ps) =
     (if status_of s p = COMPLETED \<and> phase_has_output s p then sequence_loop env s ps
      else
        let s1 = s\<lparr>current_phase := p, phase_status := (phase_status s)(p \<mapsto> RUNNING)\<rparr>
        in case run_phase_node (env p) s1 p of
             Inl e \<Rightarrow> Err e
           | Inr s2 \<Rightarrow>
               (case after_phase (env p) s2 p of
                  Inl e \<Rightarrow> Err e
                | Inr s3 \<Rightarrow>
                    if status_of s3 p \<noteq> COMPLETED then Ok (s3, [s1, s3])
                    else case gate_after_phase (env p) s3 p of
                           Return t \<Rightarrow> Ok (t, [s1, s3, t])
                         | Continue s4 \<Rightarrow>
                             map_result (\<lambda>(t, saved). (t, s1 # s3 # saved)) (sequence_loop env s4 ps)))"

definition run_workflow_sequence ::
  "(phase \<Rightarrow> orchestrator_env) \<Rightarrow> project_state \<Rightarrow>
   (state_error, project_state \<times> project_state list) result" where
  "run_workflow_sequence env s =
     (case get_first_unfinished_phase s of
        Inl e \<Rightarrow> Err e
      | Inr None \<Rightarrow> Ok (s, [])
      | Inr (Some start) \<Rightarrow>
          (case invalidate_downstream s start of
             Inl e \<Rightarrow> Err e
           | Inr (s1, invalidated) \<Rightarrow>
               (case workflow_phase_sequence_for_state s1 of
                  Inl e \<Rightarrow> Err e
                | Inr seq \<Rightarrow>
                    map_result (\<lambda>(t, saved). (t, s1 # saved))
                      (sequence_loop env s1 (dropWhile (\<lambda>p. p \<noteq> start) seq)))))"

subsection \<open>The graph\<close>

definition route_after_gate :: "project_state \<Rightarrow> project_state \<times> string" where
  "route_after_gate s =
     (let p = current_phase s
      in if phase_status s p = Some FAILED then (s, ''abort'')
         else if gr_passed (check_gate s p)
         then (if p \<in> set PHASE_ORDER
               then (case after p PHASE_ORDER of [] \<Rightarrow> (s, ''complete'') | q # _ \<Rightarrow> (s, q))
               else (s, hd PHASE_ORDER))
         else
           let count = dict_get (re_entry_count s) p 0
           in if count < 2
              then (s\<lparr>re_entry_count := (re_entry_count s)(p \<mapsto> count + 1)\<rparr>, p)
              else (s, ''force_proceed''))"

definition route_after_reentry :: "project_state \<Rightarrow> (state_error, project_state \<times> string) result" where
  "route_after_reentry s =
     (if reentry_triggers_fired s = [] then Ok (s, ''monitor'')
      else
        let target = ft_target (last (reentry_triggers_fired s))
        in if target \<in> set PHASE_ORDER
           then map_result (\<lambda>(t, _). (t, target)) (invalidate_downstream s target)
           else Ok (s, ''monitor''))"

definition route_after_strategy :: "project_state \<Rightarrow> string" where
  "route_after_strategy s =
     (if status_of s ''strategy'' \<noteq> COMPLETED \<or> \<not> phase_has_output s ''strategy''
      then ''abort'' else ''scoring'')"

definition convergence_gate_node :: "project_state \<Rightarrow> project_state" where
  "convergence_gate_node s =
     s\<lparr>phase_confidence := (phase_confidence s)
         (current_phase s \<mapsto> gr_confidence (check_gate s (current_phase s)))\<rparr>"

definition hypotheses_node :: "orchestrator_env \<Rightarrow> project_state \<Rightarrow> (state_error, project_state) result" where
  "hypotheses_node env s =
     (case run_phase_node env s ''hypotheses'' of
        Inl e \<Rightarrow> Err e
      | Inr s1 \<Rightarrow>
          (case hypotheses_out s1 of
             Some hs \<Rightarrow> if 3 \<le> length hs then run_phase_node env s1 ''gauntlet'' else Ok s1
           | None \<Rightarrow> Ok s1))"

definition strategy_node :: "orchestrator_env \<Rightarrow> project_state \<Rightarrow> (state_error, project_state) result" where
  "strategy_node env s =
     (case run_phase_node env s ''strategy'' of
        Inl e \<Rightarrow> Err e
      | Inr s1 \<Rightarrow>
          if status_of s1 ''strategy'' = COMPLETED \<and> strategy_out s1 \<noteq> None
          then run_phase_node env s1 ''sqi'' else Ok s1)"

text \<open>
  The nodes and edges of \<open>build_workflow_graph\<close>. \<open>Unmapped\<close> is a route that the conditional
  edge's mapping does not name.
\<close>

datatype node =
    N_classify | N_classify_gate | N_hypotheses | N_hypotheses_gate | N_audit | N_audit_gate
  | N_strategy | N_scoring | N_reentry_check | N_monitor | N_report | N_meta_learning | N_end

datatype graph_error = Unmapped node string | Graph_failure state_error

definition gate_edges :: "node \<Rightarrow> string \<rightharpoonup> node" where
  "gate_edges n =
     (case n of
        N_classify_gate \<Rightarrow> map_of [(''hypotheses'', N_hypotheses), (''classify'', N_classify),
          (''force_proceed'', N_hypotheses), (''abort'', N_end)]
      | N_hypotheses_gate \<Rightarrow> map_of [(''audit'', N_audit), (''hypotheses'', N_hypotheses),
          (''force_proceed'', N_audit), (''abort'', N_end)]
      | N_audit_gate \<Rightarrow> map_of [(''strategy'', N_strategy), (''audit'', N_audit),
          (''force_proceed'', N_strategy), (''abort'', N_end)]
      | N_strategy \<Rightarrow> map_of [(''scoring'', N_scoring), (''abort'', N_end)]
      | N_reentry_check \<Rightarrow> map_of [(''monitor'', N_monitor), (''classify'', N_classify),
          (''hypotheses'', N_hypotheses), (''audit'', N_audit), (''strategy'', N_strategy)]
      | _ \<Rightarrow> Map.empty)"

definition follow :: "node \<Rightarrow> project_state \<times> string \<Rightarrow> (graph_error, node \<times> project_state) result" where
  "follow n = (\<lambda>(s, route).
     case gate_edges n route of None \<Rightarrow> Err (Unmapped n route) | Some m \<Rightarrow> Ok (m, s))"

definition then_node ::
  "node \<Rightarrow> (state_error, project_state) result \<Rightarrow> (graph_error, node \<times> project_state) result" where
  "then_node m r = (case r of Inl e \<Rightarrow> Err (Graph_failure e) | Inr s \<Rightarrow> Ok (m, s))"

fun graph_step :: "orchestrator_env \<Rightarrow> node \<Rightarrow> project_state \<Rightarrow> (graph_error, node \<times> project_state) result" where
  "graph_step env N_classify s = then_node N_classify_gate (run_phase_node env s ''classify'')"
| "graph_step env N_classify_gate s =
     follow N_classify_gate (route_after_gate (convergence_gate_node s))"
| "graph_step env N_hypotheses s = then_node N_hypotheses_gate (hypotheses_node env s)"
| "graph_step env N_hypotheses_gate s =
     follow N_hypotheses_gate (route_after_gate (convergence_gate_node s))"
| "graph_step env N_audit s = then_node N_audit_gate (run_phase_node env s ''audit'')"
| "graph_step env N_audit_gate s =
     follow N_audit_gate (route_after_gate (convergence_gate_node s))"
| "graph_step env N_strategy s =
     (case strategy_node env s of
        Inl e \<Rightarrow> Err (Graph_failure e)
      | Inr t \<Rightarrow> follow N_strategy (t, route_after_strategy t))"
| "graph_step env N_scoring s =
     Ok (N_reentry_check,
         if strategy_out s = None then s
         else s\<lparr>det_scores_of := compute_det_scores (strategy_out s)\<rparr>)"
| "graph_step env N_reentry_check s =
     (case record_triggers env s of
        Inl e \<Rightarrow> Err (Graph_failure e)
      | Inr t \<Rightarrow>
          (case route_after_reentry t of
             Inl e \<Rightarrow> Err (Graph_failure e)
           | Inr routed \<Rightarrow> follow N_reentry_check routed))"
| "graph_step env N_monitor s = then_node N_report (run_phase_node env s ''monitor'')"
| "graph_step env N_report s = then_node N_meta_learning (run_phase_node env s ''report'')"
| "graph_step env N_meta_learning s =
     Ok (N_end, if predictions s = [] then s
                else s\<lparr>brier_score := compute_brier_score (predictions s)\<rparr>)"
| "graph_step env N_end s = Ok (N_end, s)"

subsection \<open>Frames\<close>

lemma output_policy_updates [simp]:
  "output_is_None (s\<lparr>policy_audit_log := a\<rparr>) q = output_is_None s q"
  "output_is_None (s\<lparr>budget_consumed_of := b\<rparr>) q = output_is_None s q"
  "output_is_None (s\<lparr>intake_sanitization_findings := c\<rparr>) q = output_is_None s q"
  "output_is_None (s\<lparr>reentry_triggers_fired := d\<rparr>) q = output_is_None s q"
  "output_is_None (s\<lparr>brier_score := e\<rparr>) q = output_is_None s q"
  by (simp_all add: output_is_None_def)

lemma log_policy_event_project [simp]:
  fixes s :: project_state
  shows "phase_status (log_policy_event s e d t) = phase_status s"
    "phase_confidence (log_policy_event s e d t) = phase_confidence s"
    "phase_failure_details (log_policy_event s e d t) = phase_failure_details s"
    "project_type (log_policy_event s e d t) = project_type s"
    "output_is_None (log_policy_event s e d t) q = output_is_None s q"
    "output_of (log_policy_event s e d t) q = output_of s q"
    "report_text (log_policy_event s e d t) = report_text s"
    "hypotheses_out (log_policy_event s e d t) = hypotheses_out s"
    "strategy_out (log_policy_event s e d t) = strategy_out s"
    "phase_has_output (log_policy_event s e d t) q = phase_has_output s q"
  by (simp_all add: log_policy_event_def phase_has_output_def output_of_def split: option.splits)

lemma record_consumption_project [simp]:
  fixes s :: project_state
  shows "phase_status (record_consumption_to_state s a c ok) = phase_status s"
    "phase_confidence (record_consumption_to_state s a c ok) = phase_confidence s"
    "phase_failure_details (record_consumption_to_state s a c ok) = phase_failure_details s"
    "project_type (record_consumption_to_state s a c ok) = project_type s"
    "output_is_None (record_consumption_to_state s a c ok) q = output_is_None s q"
    "output_of (record_consumption_to_state s a c ok) q = output_of s q"
    "report_text (record_consumption_to_state s a c ok) = report_text s"
    "hypotheses_out (record_consumption_to_state s a c ok) = hypotheses_out s"
    "strategy_out (record_consumption_to_state s a c ok) = strategy_out s"
    "phase_has_output (record_consumption_to_state s a c ok) q = phase_has_output s q"
  by (simp_all add: record_consumption_to_state_def phase_has_output_def output_of_def split: option.splits)

lemma start_wall_clock_project [simp]:
  fixes s :: project_state
  shows "phase_status (start_wall_clock s m) = phase_status s"
    "phase_confidence (start_wall_clock s m) = phase_confidence s"
    "phase_failure_details (start_wall_clock s m) = phase_failure_details s"
    "project_type (start_wall_clock s m) = project_type s"
    "output_is_None (start_wall_clock s m) q = output_is_None s q"
    "output_of (start_wall_clock s m) q = output_of s q"
    "report_text (start_wall_clock s m) = report_text s"
    "hypotheses_out (start_wall_clock s m) = hypotheses_out s"
    "brief (start_wall_clock s m) = brief s"
    "intake_sanitization_findings (start_wall_clock s m) = intake_sanitization_findings s"
  by (simp_all add: start_wall_clock_def output_of_def split: option.splits)

lemma has_output_updates [simp]:
  "phase_has_output (s\<lparr>phase_status := a\<rparr>) q = phase_has_output s q"
  "phase_has_output (s\<lparr>phase_confidence := b\<rparr>) q = phase_has_output s q"
  "phase_has_output (s\<lparr>phase_failure_details := c\<rparr>) q = phase_has_output s q"
  "phase_has_output (s\<lparr>phase_summaries := d\<rparr>) q = phase_has_output s q"
  "phase_has_output (s\<lparr>phase_run_completed_at := e\<rparr>) q = phase_has_output s q"
  "phase_has_output (s\<lparr>sealed := f\<rparr>) q = phase_has_output s q"
  "phase_has_output (s\<lparr>seal_date := g\<rparr>) q = phase_has_output s q"
  "phase_has_output (s\<lparr>audit_raw := h\<rparr>) q = phase_has_output s q"
  "phase_has_output (s\<lparr>strategy_raw := i\<rparr>) q = phase_has_output s q"
  "phase_has_output (s\<lparr>det_scores_of := j\<rparr>) q = phase_has_output s q"
  "phase_has_output (s\<lparr>reentry_triggers_fired := k\<rparr>) q = phase_has_output s q"
  "phase_has_output (s\<lparr>brier_score := l\<rparr>) q = phase_has_output s q"
  "phase_has_output (s\<lparr>current_phase := m\<rparr>) q = phase_has_output s q"
  by (simp_all add: phase_has_output_def output_is_None_def)

subsection \<open>Outcomes of a phase\<close>

definition outcome_failed :: "project_state \<Rightarrow> phase \<Rightarrow> bool" where
  "outcome_failed t p \<longleftrightarrow>
     phase_status t p = Some FAILED \<and> phase_confidence t p = Some 0 \<and> phase_failure_details t p \<noteq> None"

definition outcome_completed :: "project_state \<Rightarrow> phase \<Rightarrow> bool" where
  "outcome_completed t p \<longleftrightarrow>
     phase_status t p = Some COMPLETED \<and> phase_confidence t p = Some 1 \<and>
     phase_failure_details t p = None \<and> (p \<in> STRUCTURED_PHASES \<longrightarrow> phase_has_output t p)"

lemma record_phase_failure_frame [simp]:
  "phase_status (record_phase_failure env s p c m) = phase_status s"
  "phase_confidence (record_phase_failure env s p c m) = phase_confidence s"
  "phase_has_output (record_phase_failure env s p c m) q = phase_has_output s q"
  "policy_state.truncate (record_phase_failure env s p c m) = policy_state.truncate s"
  by (simp_all add: record_phase_failure_def policy_state.defs)

lemma record_phase_failure_noted [simp]:
  "p \<noteq> [] \<Longrightarrow> phase_failure_details (record_phase_failure env s p c m) p \<noteq> None"
  by (simp add: record_phase_failure_def)

lemma fail_phase_outcome: "p \<noteq> [] \<Longrightarrow> outcome_failed (fail_phase env s p c m) p"
  by (simp add: fail_phase_def outcome_failed_def)

lemma complete_phase_outcome:
  "(p \<in> STRUCTURED_PHASES \<Longrightarrow> phase_has_output s p) \<Longrightarrow> outcome_completed (complete_phase s p) p"
  by (simp add: complete_phase_def clear_phase_failure_def outcome_completed_def)

lemma outcome_log [simp]:
  "outcome_failed (log_policy_event t e d now) p = outcome_failed t p"
  "outcome_completed (log_policy_event t e d now) p = outcome_completed t p"
  by (simp_all add: outcome_failed_def outcome_completed_def)

lemma outcome_finish [simp]:
  "outcome_failed (finish_phase env t q) p = outcome_failed t p"
  "outcome_completed (finish_phase env t q) p = outcome_completed t p"
  by (simp_all add: finish_phase_def outcome_failed_def outcome_completed_def Let_def)

lemma fail_response_outcome: "p \<noteq> [] \<Longrightarrow> outcome_failed (fail_response env s p r) p"
  by (simp add: fail_response_def Let_def fail_phase_outcome split: prod.splits)

lemma conclude_json_outcome:
  assumes "p \<noteq> []"
  shows "outcome_completed (conclude_json env p j) p \<or> outcome_failed (conclude_json env p j) p"
proof -
  have "outcome_completed (complete_phase (jp_state j) p) p"
    if "\<not> (p \<in> STRUCTURED_PHASES \<and> \<not> phase_has_output (jp_state j) p)"
    using that by (intro complete_phase_outcome) simp
  then have "outcome_completed ((complete_phase (jp_state j) p)\<lparr>sealed := a, seal_date := b\<rparr>) p"
    if "\<not> (p \<in> STRUCTURED_PHASES \<and> \<not> phase_has_output (jp_state j) p)" for a b
    using that by (simp add: outcome_completed_def)
  with \<open>_ \<Longrightarrow> outcome_completed (complete_phase (jp_state j) p) p\<close> assms show ?thesis
    by (auto simp: conclude_json_def Let_def fail_phase_outcome split: prod.splits)
qed

lemma conclude_report_outcome: "outcome_completed (conclude_report env s r) ''report''"
  unfolding conclude_report_def Let_def
  by (rule complete_phase_outcome)
     (simp add: STRUCTURED_PHASES_def TECHNOLOGY_READINESS_PHASE_SEQUENCE_def)

lemma execute_phase_outcome:
  assumes "p \<noteq> []"
  shows "outcome_completed (execute_phase env s p) p \<or> outcome_failed (execute_phase env s p) p"
proof -
  obtain s1 r where c: "call_and_charge env s p First_attempt = (s1, r)"
    by (cases "call_and_charge env s p First_attempt")
  show ?thesis
    using fail_response_outcome [OF assms] conclude_json_outcome [OF assms] conclude_report_outcome
    by (auto simp: execute_phase_def c)
qed

lemma gate_phase_return: "p \<noteq> [] \<Longrightarrow> gate_phase env s p = Return t \<Longrightarrow> outcome_failed t p"
  by (auto simp: gate_phase_def Let_def fail_phase_outcome split: if_splits)

lemma start_phase_return: "p \<noteq> [] \<Longrightarrow> start_phase env s p = Return t \<Longrightarrow> outcome_failed t p"
  by (auto simp: start_phase_def consume_evidence_def Let_def fail_phase_outcome
      split: if_splits option.splits prod.splits)

lemma record_prerequisite_failure_outcome:
  assumes "p \<noteq> []" "record_prerequisite_failure env s p reason = Ok t"
  shows "outcome_failed t p"
proof -
  obtain u where t: "t = record_phase_failure env u p ''prerequisite_failed''
      (''Phase prerequisite not met: '' @ reason @ ''.'')"
    and u: "phase_status u p = Some FAILED" "phase_confidence u p = Some 0"
    using assms(2) by (auto simp: record_prerequisite_failure_def Let_def split: sum.splits)
  with assms(1) show ?thesis by (simp add: outcome_failed_def)
qed

lemma enter_phase_return: "p \<noteq> [] \<Longrightarrow> enter_phase env s p = Ok (Return t) \<Longrightarrow> outcome_failed t p"
  using record_prerequisite_failure_outcome by (auto simp: enter_phase_def Let_def split: if_splits)

subsection \<open>What a phase execution charges\<close>

text \<open>
  \<open>charged s t rs\<close>: from \<open>s\<close> to \<open>t\<close> exactly the responses \<open>rs\<close> were charged to the budget, and
  the other attributes the policy gate reads are unchanged.
\<close>

definition budget_charged :: "consumed_dict \<Rightarrow> consumed_dict \<Rightarrow> llm_response list \<Rightarrow> bool" where
  "budget_charged d d' rs \<longleftrightarrow>
     total_tokens (consumed_from_dict d') =
       total_tokens (consumed_from_dict d) + sum_list (map lr_total_tokens rs) \<and>
     total_cost_usd (consumed_from_dict d') =
       total_cost_usd (consumed_from_dict d) + sum_list (map lr_cost_usd rs) \<and>
     llm_call_count (consumed_from_dict d') =
       llm_call_count (consumed_from_dict d) + int (length rs)"

definition charged :: "project_state \<Rightarrow> project_state \<Rightarrow> llm_response list \<Rightarrow> bool" where
  "charged s t rs \<longleftrightarrow>
     kill_switch_active t = kill_switch_active s \<and> risk_classification t = risk_classification s \<and>
     budget_caps_of t = budget_caps_of s \<and> approvals_granted t = approvals_granted s \<and>
     phase_breakers t = phase_breakers s \<and>
     rel_option (\<lambda>d d'. budget_charged d d' rs) (budget_consumed_of s) (budget_consumed_of t)"

lemma budget_charged_trans:
  "budget_charged a b rs \<Longrightarrow> budget_charged b c rs' \<Longrightarrow> budget_charged a c (rs @ rs')"
  by (simp add: budget_charged_def)

lemma charged_trans: "charged s t rs \<Longrightarrow> charged t u rs' \<Longrightarrow> charged s u (rs @ rs')"
  unfolding charged_def
  by (cases "budget_consumed_of s"; cases "budget_consumed_of t"; cases "budget_consumed_of u")
     (auto intro: budget_charged_trans)

lemma charged_trans_Nil: "charged s t rs \<Longrightarrow> charged t u [] \<Longrightarrow> charged s u rs"
  using charged_trans [of s t rs u "[]"] by simp

lemma charged_Nil_trans: "charged s t [] \<Longrightarrow> charged t u rs \<Longrightarrow> charged s u rs"
  using charged_trans [of s t "[]" u rs] by simp

lemma charged_truncate: "policy_state.truncate t = policy_state.truncate s \<Longrightarrow> charged s t []"
  by (cases "budget_consumed_of s") (simp_all add: charged_def budget_charged_def policy_state.defs)

lemma charged_refl [simp]: "charged s s []"
  by (rule charged_truncate) simp

lemma charged_log [simp]: "charged s (log_policy_event s e d now) []"
  by (cases "budget_consumed_of s") (simp_all add: charged_def budget_charged_def)

lemma charged_clock: "charged s (start_wall_clock s m) []"
proof (cases "budget_consumed_of s")
  case None
  then show ?thesis by (simp add: charged_def start_wall_clock_def)
next
  case (Some d)
  then show ?thesis
    by (auto simp: charged_def start_wall_clock_def budget_charged_def consumed_from_dict_def
        split: option.splits)
qed

lemma charged_record:
  "charged s (record_consumption_to_state s (lr_total_tokens r) (lr_cost_usd r) ok) [r]"
  by (cases "budget_consumed_of s") (simp_all add: charged_def budget_charged_def record_consumption_def)

lemma truncate_more [simp]:
  "policy_state.truncate (s\<lparr>intake_sanitization_findings := a\<rparr>) = policy_state.truncate s"
  "policy_state.truncate (s\<lparr>report_text := b\<rparr>) = policy_state.truncate s"
  "policy_state.truncate (s\<lparr>sealed := c\<rparr>) = policy_state.truncate s"
  "policy_state.truncate (s\<lparr>seal_date := d\<rparr>) = policy_state.truncate s"
  by (simp_all add: policy_state.defs)

lemma charged_phase: "charged s (s\<lparr>current_phase := p\<rparr>) []"
  by (cases "budget_consumed_of s") (simp_all add: charged_def budget_charged_def)

lemma charged_fail [simp]: "charged s (fail_phase env s p c m) []"
  by (rule charged_truncate) (simp add: fail_phase_def)

lemma charged_complete [simp]: "charged s (complete_phase s p) []"
  by (rule charged_truncate) (simp add: complete_phase_def clear_phase_failure_def)

lemma charged_call:
  assumes "call_and_charge env s p rq = (t, r)"
  shows "charged s t [r] \<and> r = en_call env s p rq"
  using assms charged_Nil_trans [OF charged_log charged_record]
  by (auto simp: call_and_charge_def Let_def)

lemma charged_store: "store_phase_output de mo s p v = Ok t \<Longrightarrow> charged s t []"
  using store_phase_output_stored stored_frame by (intro charged_truncate) blast

lemma charged_keep [simp]: "charged s (keep_raw s p t) []"
  by (rule charged_truncate) (simp add: keep_raw_def)

lemma charged_finish [simp]: "charged s (finish_phase env s p) []"
  by (rule charged_truncate) (simp add: finish_phase_def Let_def)

text \<open>
  The answers a phase execution uses: that of the first attempt and, where it cannot be stored, that
  of one repair. A payload that is not recovered is asked for again in every JSON phase; one
  that fails its schema only in the technology readiness phases and in strategy.
\<close>

definition repair_request ::
  "orchestrator_env \<Rightarrow> project_state \<Rightarrow> phase \<Rightarrow> llm_response \<Rightarrow> request option" where
  "repair_request env s p r =
     (if \<not> lr_ok r \<or> p = ''report'' then None
      else case recover_payload (en_decoder env) (en_models env) p (lr_text r) of
             (Some v, True) \<Rightarrow>
               (case store_phase_output (en_decoder env) (en_models env) s p v of
                  Inr _ \<Rightarrow> None
                | Inl _ \<Rightarrow>
                    if p \<in> set TECHNOLOGY_READINESS_PHASE_SEQUENCE \<or> p = ''strategy''
                    then Some Schema_retry else None)
           | _ \<Rightarrow> Some Json_retry)"

definition answers_of :: "orchestrator_env \<Rightarrow> project_state \<Rightarrow> phase \<Rightarrow> llm_response list" where
  "answers_of env s p =
     (let (s1, r) = call_and_charge env s p First_attempt
      in case repair_request env s1 p r of
           None \<Rightarrow> [en_call env s p First_attempt]
         | Some rq \<Rightarrow> [en_call env s p First_attempt, en_call env s1 p rq])"

lemma matches_object:
  assumes "p \<in> set TECHNOLOGY_READINESS_PHASE_SEQUENCE \<or> p = ''audit'' \<or> p = ''strategy'' \<or> p = ''monitor''"
  shows "parsed_json_matches_phase p (Some (JObj ms))"
proof -
  have t: "p \<noteq> ''classify''" "p \<noteq> ''hypotheses''"
    using assms by (simp_all add: TECHNOLOGY_READINESS_PHASE_SEQUENCE_def) (elim disjE; simp)+
  from assms show ?thesis
  proof (cases "p \<in> set TECHNOLOGY_READINESS_PHASE_SEQUENCE")
    case False
    with assms t show ?thesis
      by (simp only: parsed_json_matches_phase_def py_none_def) (elim disjE; simp add: is_obj_def)
  qed (use t in \<open>simp add: parsed_json_matches_phase_def py_none_def is_obj_def\<close>)
qed

lemma recovered_matches:
  assumes "recover_payload de mo p t = (parsed, True)"
  shows "parsed_json_matches_phase p parsed"
proof (cases "parsed_json_matches_phase p (repair_technology_readiness_top_level_payload mo p (parse_phase_json de p t))")
  case True
  with assms show ?thesis by (simp add: recover_payload_def)
next
  case False
  then obtain ms where "parsed = Some (JObj ms)"
    using assms by (simp add: recover_payload_def Let_def split: option.splits) (blast dest: sym)
  moreover have "p \<in> set TECHNOLOGY_READINESS_PHASE_SEQUENCE \<or> p = ''audit'' \<or> p = ''strategy'' \<or> p = ''monitor''"
    by (rule ccontr) (use False assms in \<open>simp add: recover_payload_def Let_def\<close>)
  ultimately show ?thesis using matches_object by simp
qed

lemma charged_schema_retry:
  "charged (jp_state j) (jp_state (schema_retry env p j)) [en_call env (jp_state j) p Schema_retry]"
proof -
  obtain s1 r1 where c: "call_and_charge env (jp_state j) p Schema_retry = (s1, r1)"
    by (cases "call_and_charge env (jp_state j) p Schema_retry")
  then have "charged s1 (jp_state (schema_retry env p j)) []"
    by (auto simp: schema_retry_def Let_def charged_store split: prod.splits option.splits sum.splits)
  with charged_call [OF c] show ?thesis by (blast intro: charged_trans_Nil)
qed

lemma charged_repair:
  assumes "lr_ok r" "p \<noteq> ''report''"
  shows "charged s (jp_state (store_or_retry env p (parse_or_retry env s p r)))
    (case repair_request env s p r of None \<Rightarrow> [] | Some rq \<Rightarrow> [en_call env s p rq])"
proof -
  obtain parsed ok where p1: "recover_payload (en_decoder env) (en_models env) p (lr_text r) = (parsed, ok)"
    by (cases "recover_payload (en_decoder env) (en_models env) p (lr_text r)")
  let ?j = "parse_or_retry env s p r"
  show ?thesis
  proof (cases "parsed \<noteq> None \<and> ok")
    case True
    then obtain v where v: "parsed = Some v" by blast
    have m: "parsed_json_matches_phase p (Some v)" using recovered_matches [of "en_decoder env" "en_models env" p "lr_text r" parsed] p1 True v by simp
    have j: "jp_state ?j = s" "jp_parsed ?j = Some v" "\<not> jp_repaired ?j"
      using True v by (simp_all add: parse_or_retry_def p1)
    show ?thesis
      using charged_schema_retry [of ?j env p] j p1 True v m assms
      by (auto simp: repair_request_def store_or_retry_def charged_store split: sum.splits)
  next
    case False
    obtain s1 r1 where c: "call_and_charge env s p Json_retry = (s1, r1)"
      by (cases "call_and_charge env s p Json_retry")
    from False have j: "jp_state ?j = s1" "jp_repaired ?j"
      by (auto simp: parse_or_retry_def p1 c Let_def split: prod.splits)
    have "charged s1 (jp_state (store_or_retry env p ?j)) []"
      using j by (auto simp: store_or_retry_def charged_store split: sum.splits)
    moreover have "repair_request env s p r = Some Json_retry"
      using False assms p1 by (auto simp: repair_request_def split: option.splits bool.splits)
    ultimately show ?thesis using charged_call [OF c] by (auto intro: charged_trans_Nil)
  qed
qed

lemma charged_conclude_json: "charged (jp_state j) (conclude_json env p j) []"
proof -
  have seal: "charged s (t\<lparr>sealed := a, seal_date := b\<rparr>) []" if "charged s t []" for s t a b
    by (rule charged_trans_Nil [OF that]) (rule charged_truncate, simp)
  have "charged (jp_state j) (fail_phase env (keep_raw (jp_state j) p x) p c m) []" for x c m
    by (rule charged_trans_Nil [OF charged_keep charged_fail])
  then show ?thesis
    by (auto simp: conclude_json_def Let_def seal split: prod.splits)
qed

lemma charged_conclude_report: "charged s (conclude_report env s r) []"
proof -
  have "charged s (s\<lparr>report_text := x, report_output_language := y, report_output_mode := z\<rparr>) []" for x y z
    by (rule charged_truncate) simp
  moreover note charged_log
  ultimately have base: "charged s (log_policy_event (s\<lparr>report_text := x, report_output_language := y,
      report_output_mode := z\<rparr>) e d now) []" for x y z e d now
    by (blast intro: charged_trans_Nil)
  show ?thesis
    unfolding conclude_report_def Let_def
    by (rule charged_trans_Nil [OF _ charged_complete])
       (auto split: option.splits intro: base charged_trans_Nil [OF base charged_log])
qed

lemma charged_execute: "charged s (execute_phase env s p) (answers_of env s p)"
proof -
  obtain s1 r where c: "call_and_charge env s p First_attempt = (s1, r)"
    by (cases "call_and_charge env s p First_attempt")
  note first = charged_call [OF c]
  consider "\<not> lr_ok r" | "lr_ok r" "p = ''report''" | "lr_ok r" "p \<noteq> ''report''" by blast
  then show ?thesis
  proof cases
    case 1
    have "charged s1 (s1\<lparr>strategy_raw := x\<rparr>) []" for x by (rule charged_truncate) simp
    then have "charged s1 (fail_phase env (s1\<lparr>strategy_raw := x\<rparr>) p c m) []" for x c m
      by (rule charged_trans_Nil [OF _ charged_fail])
    then have "charged s1 (fail_response env s1 p r) []"
      by (auto simp: fail_response_def Let_def split: prod.splits)
    with first have "charged s (fail_response env s1 p r) [r]" by (blast intro: charged_trans_Nil)
    with first 1 c show ?thesis by (simp add: execute_phase_def answers_of_def repair_request_def)
  next
    case 2
    have "charged s (finish_phase env (conclude_report env s1 r) p) [r]"
      using first charged_conclude_report charged_finish by (meson charged_trans_Nil)
    with 2 c first show ?thesis by (simp add: execute_phase_def answers_of_def repair_request_def)
  next
    case 3
    let ?j = "store_or_retry env p (parse_or_retry env s1 p r)"
    have "execute_phase env s p = finish_phase env (conclude_json env p ?j) p"
      using 3 c by (simp add: execute_phase_def)
    moreover have "charged s (finish_phase env (conclude_json env p ?j) p)
        ([r] @ (case repair_request env s1 p r of None \<Rightarrow> [] | Some rq \<Rightarrow> [en_call env s1 p rq]))"
      by (intro charged_trans_Nil [OF _ charged_finish] charged_trans_Nil [OF _ charged_conclude_json]
          charged_trans [OF conjunct1 [OF first] charged_repair [OF 3]])
    ultimately show ?thesis
      using c first by (simp add: answers_of_def split: option.splits)
  qed
qed

lemma truncate_clear_output [simp]:
  "policy_state.truncate (clear_phase_authoritative_output s p) = policy_state.truncate s"
  by (simp add: clear_phase_authoritative_output_def Let_def)

lemma truncate_clear_lifecycle [simp]:
  "policy_state.truncate (clear_invalidated_phase_lifecycle s p) = policy_state.truncate s"
  by (simp add: clear_invalidated_phase_lifecycle_def)

lemma truncate_clear_fold:
  "policy_state.truncate
     (fold (\<lambda>q t. clear_invalidated_phase_lifecycle (clear_phase_authoritative_output t q) q) ds s) =
   policy_state.truncate s"
  by (induction ds arbitrary: s) simp_all

lemma invalidate_downstream_truncate:
  "invalidate_downstream s p = Ok (t, ivs) \<Longrightarrow> policy_state.truncate t = policy_state.truncate s"
  by (auto simp: invalidate_downstream_def dest!: invalidate_loop_frame split: sum.splits)

lemma charged_prerequisite:
  "record_prerequisite_failure env s p reason = Ok t \<Longrightarrow> charged s t []"
  by (rule charged_truncate)
     (auto simp: record_prerequisite_failure_def Let_def truncate_clear_fold
        dest!: invalidate_downstream_truncate split: sum.splits)

lemma charged_replacement: "charged s (fst (invalidate_strategy_replacement s)) []"
proof -
  obtain t ivs where "invalidate_strategy_dependency_cone s None None = (t, ivs)"
    by (cases "invalidate_strategy_dependency_cone s None None")
  with cone_spec(8) show ?thesis
    by (simp add: invalidate_strategy_replacement_def charged_truncate)
qed

lemma charged_enter:
  "enter_phase env s p = Ok (Return t) \<or> enter_phase env s p = Ok (Continue t) \<Longrightarrow> charged s t []"
proof -
  let ?s1 = "if p = ''strategy'' then fst (invalidate_strategy_replacement s) else s"
  have s1: "charged s ?s1 []" using charged_replacement by simp
  assume "enter_phase env s p = Ok (Return t) \<or> enter_phase env s p = Ok (Continue t)"
  then have "t = ?s1 \<or> (\<exists>reason. record_prerequisite_failure env ?s1 p reason = Ok t)"
    by (auto simp: enter_phase_def Let_def split: if_splits)
  with s1 charged_prerequisite show ?thesis by (blast intro: charged_trans_Nil)
qed

lemma charged_sanitize: "charged s (sanitize_intake env s p) []"
proof -
  have "charged s (log_policy_event (s\<lparr>intake_sanitization_findings := a\<rparr>) e d now) []" for a e d now
    by (rule charged_trans_Nil [OF charged_truncate charged_log]) simp
  then show ?thesis by (simp add: sanitize_intake_def split: option.splits prod.splits)
qed

lemma charged_gate:
  "gate_phase env s p = Return t \<or> gate_phase env s p = Continue t \<Longrightarrow> charged s t []"
proof -
  let ?s1 = "sanitize_intake env (start_wall_clock s (en_monotonic env)) p"
  have s1: "charged s ?s1 []" by (rule charged_trans_Nil [OF charged_clock charged_sanitize])
  have "charged ?s1 (log_policy_event (fail_phase env ?s1 p c m) e d now) []" for c m e d now
    by (rule charged_trans_Nil [OF charged_fail charged_log])
  moreover assume "gate_phase env s p = Return t \<or> gate_phase env s p = Continue t"
  ultimately show ?thesis
    using s1 by (auto simp: gate_phase_def Let_def split: if_splits intro: charged_trans_Nil)
qed

lemma charged_start:
  assumes "start_phase env s p = Return t \<or> start_phase env s p = Continue t"
  shows "charged s t []"
proof -
  let ?s1 = "s\<lparr>phase_status := (phase_status s)(p \<mapsto> RUNNING), current_phase := p\<rparr>"
  have s1: "charged s ?s1 []"
    by (rule charged_trans_Nil [OF charged_truncate charged_phase]) simp
  have ev: "charged u v []"
    if "consume_evidence env u p = Return v \<or> consume_evidence env u p = Continue v" for u v
  proof -
    note logs = charged_trans_Nil [OF charged_log charged_fail] charged_trans_Nil [OF charged_log charged_log]
    show ?thesis
      using that
      by (auto simp: consume_evidence_def Let_def logs split: if_splits option.splits prod.splits)
  qed
  from assms have "t = fail_phase env ?s1 p ''phase_configuration''
        (''No prompt builder configured for phase '' @ p @ ''.'') \<or>
      consume_evidence env ?s1 p = Return t \<or> consume_evidence env ?s1 p = Continue t"
    by (auto simp: start_phase_def Let_def split: if_splits)
  with s1 ev show ?thesis by (auto intro: charged_trans_Nil)
qed

text \<open>The answers of the model calls of a phase execution, none when it does not get that far.\<close>

definition model_answers :: "orchestrator_env \<Rightarrow> project_state \<Rightarrow> phase \<Rightarrow> llm_response list" where
  "model_answers env s p =
     (case enter_phase env s p of
        Inr (Continue s1) \<Rightarrow>
          (case gate_phase env s1 p of
             Continue s2 \<Rightarrow>
               (case start_phase env s2 p of
                  Continue s3 \<Rightarrow> answers_of env s3 p
                | Return _ \<Rightarrow> [])
           | Return _ \<Rightarrow> [])
      | _ \<Rightarrow> [])"

lemma run_phase_charged:
  assumes "run_phase_node env s p = Ok t"
  shows "charged s t (model_answers env s p)"
proof -
  consider "enter_phase env s p = Ok (Return t)"
    | s1 where "enter_phase env s p = Ok (Continue s1)" "gate_phase env s1 p = Return t"
    | s1 s2 where "enter_phase env s p = Ok (Continue s1)" "gate_phase env s1 p = Continue s2"
        "start_phase env s2 p = Return t"
    | s1 s2 s3 where "enter_phase env s p = Ok (Continue s1)" "gate_phase env s1 p = Continue s2"
        "start_phase env s2 p = Continue s3" "t = execute_phase env s3 p"
    using assms by (auto simp: run_phase_node_def split: sum.splits flow.splits)
  then show ?thesis
  proof cases
    case 1
    with charged_enter [of env s p t] show ?thesis by (simp add: model_answers_def)
  next
    case 2
    then have "charged s t []" using charged_enter charged_gate by (meson charged_trans_Nil)
    with 2 show ?thesis by (simp add: model_answers_def)
  next
    case 3
    then have "charged s t []" using charged_enter charged_gate charged_start
      by (meson charged_trans_Nil)
    with 3 show ?thesis by (simp add: model_answers_def)
  next
    case 4
    then have "charged s s3 []" using charged_enter charged_gate charged_start
      by (meson charged_trans_Nil)
    with 4 charged_execute [of s3 env p] show ?thesis
      by (simp add: model_answers_def charged_Nil_trans)
  qed
qed

lemma model_answers_short: "length (model_answers env s p) \<le> 2"
  by (simp add: model_answers_def answers_of_def split: sum.split flow.split option.split prod.split)

lemma run_phase_charged_some:
  "run_phase_node env s p = Ok t \<Longrightarrow> \<exists>rs. length rs \<le> 2 \<and> charged s t rs"
  using run_phase_charged model_answers_short by blast

lemma run_phase_outcome:
  assumes "run_phase_node env s p = Ok t" "p \<noteq> []"
  shows "outcome_completed t p \<or> outcome_failed t p"
  using assms enter_phase_return gate_phase_return start_phase_return execute_phase_outcome
  by (fastforce simp: run_phase_node_def split: sum.splits flow.splits)

end
