(* ===== verification/Runner.thy ===== *)
theory Runner
  imports Orchestrator
begin

text \<open>
  Frames of the phase runner: what a phase execution leaves alone (\<open>kept\<close>: status, output value and
  project type of another phase), and the stopping condition of the sequential runner's loop
  (\<open>stopped_well\<close>). Theory Execution states the properties on top of them.
\<close>

subsection \<open>A phase execution leaves the other phases alone\<close>

definition kept :: "project_state \<Rightarrow> project_state \<Rightarrow> phase \<Rightarrow> bool" where
  "kept s t q \<longleftrightarrow>
     phase_status t q = phase_status s q \<and> output_of t q = output_of s q \<and>
     phase_has_output t q = phase_has_output s q \<and> project_type t = project_type s"

lemma kept_refl [simp]: "kept s s q"
  by (simp add: kept_def)

lemma kept_trans: "kept s t q \<Longrightarrow> kept t u q \<Longrightarrow> kept s u q"
  by (simp add: kept_def)

lemma kept_log [simp]: "kept s (log_policy_event s e d now) q"
  by (simp add: kept_def)

lemma kept_record [simp]: "kept s (record_consumption_to_state s a c ok) q"
  by (simp add: kept_def)

lemma kept_clock [simp]: "kept s (start_wall_clock s m) q"
  by (simp add: kept_def phase_has_output_def)

lemma kept_failure [simp]: "kept s (record_phase_failure env s p c m) q"
  by (simp add: kept_def record_phase_failure_def)

lemma kept_fail [simp]: "q \<noteq> p \<Longrightarrow> kept s (fail_phase env s p c m) q"
  by (auto simp: kept_def fail_phase_def record_phase_failure_def)

lemma kept_complete [simp]: "q \<noteq> p \<Longrightarrow> kept s (complete_phase s p) q"
  by (simp add: kept_def complete_phase_def clear_phase_failure_def)

lemma kept_stored: "stored p s t \<Longrightarrow> q \<noteq> p \<Longrightarrow> kept s t q"
proof (induction rule: stored.induct)
  case (9 x7)
  then show ?case
    using technology_not_strategic [OF 9(1)]
    by (simp add: kept_def phase_has_output_def output_of_def)
qed (auto simp: kept_def phase_has_output_def output_of_def)

lemma kept_call: "call_and_charge env s p rq = (t, r) \<Longrightarrow> kept s t q"
  by (auto simp: call_and_charge_def Let_def kept_def)

lemma kept_keep_raw [simp]: "kept s (keep_raw s p x) q"
  by (simp add: kept_def keep_raw_def)

lemma kept_finish [simp]: "kept s (finish_phase env s p) q"
  by (simp add: kept_def finish_phase_def Let_def)

lemma kept_parse: "kept s (jp_state (parse_or_retry env s p r)) q"
proof -
  obtain s1 r1 where c: "call_and_charge env s p Json_retry = (s1, r1)"
    by (cases "call_and_charge env s p Json_retry")
  then have "jp_state (parse_or_retry env s p r) = s \<or> jp_state (parse_or_retry env s p r) = s1"
    by (auto simp: parse_or_retry_def Let_def split: prod.splits)
  with kept_call [OF c] show ?thesis by auto
qed

lemma kept_store: "store_phase_output de mo s p v = Ok t \<Longrightarrow> q \<noteq> p \<Longrightarrow> kept s t q"
  using store_phase_output_stored kept_stored by blast

lemma kept_schema_retry: "q \<noteq> p \<Longrightarrow> kept (jp_state j) (jp_state (schema_retry env p j)) q"
proof -
  obtain s1 r1 where c: "call_and_charge env (jp_state j) p Schema_retry = (s1, r1)"
    by (cases "call_and_charge env (jp_state j) p Schema_retry")
  assume q: "q \<noteq> p"
  have "kept s1 (jp_state (schema_retry env p j)) q"
    using c q by (auto simp: schema_retry_def Let_def kept_store split: prod.splits option.splits sum.splits)
  with kept_call [OF c] show ?thesis by (rule kept_trans)
qed

lemma kept_store_or_retry: "q \<noteq> p \<Longrightarrow> kept (jp_state j) (jp_state (store_or_retry env p j)) q"
  by (auto simp: store_or_retry_def kept_store kept_schema_retry split: sum.splits)

lemma kept_conclude_json: "q \<noteq> p \<Longrightarrow> kept (jp_state j) (conclude_json env p j) q"
proof -
  assume q: "q \<noteq> p"
  have "kept s (t\<lparr>sealed := a, seal_date := b\<rparr>) q" if "kept s t q" for s t a b
    using that by (simp add: kept_def)
  moreover have "kept (jp_state j) (fail_phase env (keep_raw (jp_state j) p x) p c m) q" for x c m
    using q by (blast intro: kept_trans [OF kept_keep_raw kept_fail])
  ultimately show ?thesis
    using q by (auto simp: conclude_json_def Let_def split: prod.splits)
qed

lemma kept_conclude_report: "q \<noteq> ''report'' \<Longrightarrow> kept s (conclude_report env s r) q"
proof -
  assume q: "q \<noteq> ''report''"
  have base: "kept s (s\<lparr>report_text := x, report_output_language := y, report_output_mode := z\<rparr>) q" for x y z
    using q by (simp add: kept_def phase_has_output_def output_is_None_def)
  show ?thesis
    unfolding conclude_report_def Let_def
    by (rule kept_trans [OF _ kept_complete [OF q]])
       (auto split: option.splits intro: kept_trans [OF base kept_log]
          kept_trans [OF kept_trans [OF base kept_log] kept_log])
qed

lemma kept_fail_response: "q \<noteq> p \<Longrightarrow> kept s (fail_response env s p r) q"
proof -
  assume q: "q \<noteq> p"
  have "kept s (fail_phase env (s\<lparr>strategy_raw := x\<rparr>) p c m) q" for x c m
    by (rule kept_trans [OF _ kept_fail [OF q]]) (simp add: kept_def)
  with q show ?thesis by (auto simp: fail_response_def Let_def split: prod.splits)
qed

lemma kept_execute: "q \<noteq> p \<Longrightarrow> kept s (execute_phase env s p) q"
proof -
  assume q: "q \<noteq> p"
  obtain s1 r where c: "call_and_charge env s p First_attempt = (s1, r)"
    by (cases "call_and_charge env s p First_attempt")
  have "kept s1 (conclude_json env p (store_or_retry env p (parse_or_retry env s1 p r))) q"
    using q by (meson kept_trans kept_parse kept_store_or_retry kept_conclude_json)
  with q have "kept s1 (execute_phase env s p) q"
    using c by (auto simp: execute_phase_def intro: kept_fail_response
        kept_trans [OF kept_conclude_report kept_finish] kept_trans [OF _ kept_finish])
  with kept_call [OF c] show ?thesis by (rule kept_trans)
qed

lemma kept_start: 
  assumes "start_phase env s p = Return t \<or> start_phase env s p = Continue t" "q \<noteq> p"
  shows "kept s t q"
proof -
  have s1: "kept s (s\<lparr>phase_status := (phase_status s)(p \<mapsto> RUNNING), current_phase := p\<rparr>) q"
    using assms(2) by (simp add: kept_def)
  have ev: "kept u v q" if "consume_evidence env u p = Return v \<or> consume_evidence env u p = Continue v" for u v
    using that assms(2)
    by (auto simp: consume_evidence_def Let_def kept_trans [OF kept_log kept_fail] kept_trans [OF kept_log kept_log]
        split: if_splits option.splits prod.splits)
  from s1 assms ev show ?thesis
    by (auto simp: start_phase_def Let_def split: if_splits intro: kept_trans [OF s1] kept_fail)
qed

lemma kept_sanitize [simp]: "kept s (sanitize_intake env s p) q"
  by (simp add: sanitize_intake_def kept_def phase_has_output_def split: option.splits prod.splits)

lemma kept_gate:
  assumes "gate_phase env s p = Return t \<or> gate_phase env s p = Continue t" "q \<noteq> p"
  shows "kept s t q"
proof -
  let ?s1 = "sanitize_intake env (start_wall_clock s (en_monotonic env)) p"
  have "kept s ?s1 q" by (rule kept_trans [OF kept_clock kept_sanitize])
  with assms show ?thesis
    by (auto simp: gate_phase_def Let_def split: if_splits
        intro: kept_trans [OF _ kept_trans [OF kept_fail kept_log]])
qed

lemma set_output_None_text [simp]:
  "report_text (set_output_None s p) = (if p = ''report'' then None else report_text s)"
  "hypotheses_out (set_output_None s p) = (if p = ''hypotheses'' then None else hypotheses_out s)"
  by (auto simp: set_output_None_def)

lemma cone_step_hypotheses:
  "p \<noteq> ''hypotheses'' \<Longrightarrow> hypotheses_out (fst (cone_step s p)) = hypotheses_out s"
  by (simp add: cone_step_def Let_def drop_lifecycle_def)

lemma cone_loop_hypotheses:
  "''hypotheses'' \<notin> set ps \<Longrightarrow> hypotheses_out (fst (cone_loop s ps)) = hypotheses_out s"
proof (induction ps arbitrary: s)
  case (Cons p ps)
  obtain s1 had where s1: "cone_step s p = (s1, had)" by (cases "cone_step s p")
  with cone_step_hypotheses [of p s] Cons.prems have "hypotheses_out s1 = hypotheses_out s" by auto
  with Cons s1 show ?case by (auto simp: split_beta)
qed simp

lemma cone_hypotheses:
  "hypotheses_out (fst (invalidate_strategy_dependency_cone s a b)) = hypotheses_out s"
proof -
  obtain s1 ivs where s1: "cone_loop s STRATEGY_DERIVED_PHASES = (s1, ivs)"
    by (cases "cone_loop s STRATEGY_DERIVED_PHASES")
  with cone_loop_hypotheses [of STRATEGY_DERIVED_PHASES s] have "hypotheses_out s1 = hypotheses_out s"
    by (simp add: STRATEGY_DERIVED_PHASES_def)
  with s1 show ?thesis
    by (simp add: invalidate_strategy_dependency_cone_def drop_lifecycle_def Let_def split: option.splits)
qed

lemma kept_replacement:
  assumes "q \<notin> {''strategy'', ''sqi'', ''monitor'', ''report''}"
  shows "kept s (fst (invalidate_strategy_replacement s)) q"
proof -
  obtain t ivs where t: "invalidate_strategy_dependency_cone s None None = (t, ivs)"
    by (cases "invalidate_strategy_dependency_cone s None None")
  have "same_phase s t q" using cone_spec(2) [OF t, of q] assms by (simp add: STRATEGY_DERIVED_PHASES_def)
  moreover have "hypotheses_out t = hypotheses_out s" using cone_hypotheses [of s None None] t by simp
  ultimately show ?thesis
    using assms cone_spec(6) [OF t] t
    by (simp add: kept_def same_phase_def phase_has_output_def invalidate_strategy_replacement_def)
qed

lemma kept_untouched: "untouched_phase s t q \<Longrightarrow> project_type t = project_type s \<Longrightarrow> kept s t q"
  by (auto simp: untouched_phase_def same_phase_def kept_def phase_has_output_def
      phase_has_material_output_def split: if_splits)

lemma output_is_None_report [simp]:
  "output_is_None (s\<lparr>report_text := None\<rparr>) q \<longleftrightarrow> q = ''report'' \<or> output_is_None s q"
  by (simp add: output_is_None_def)

lemma kept_clear_output: "q \<noteq> p \<Longrightarrow> kept s (clear_phase_authoritative_output s p) q"
proof -
  assume q: "q \<noteq> p"
  have "output_of (clear_phase_authoritative_output s p) q = output_of s q"
    using q output_of_set [OF q, of s]
    by (cases "p = ''report''"; cases "p = ''strategy''"; cases "p = ''audit''")
       (simp_all add: clear_phase_authoritative_output_def Let_def)
  with q show ?thesis
    by (auto simp: kept_def clear_phase_authoritative_output_def phase_has_output_def Let_def raw_nonempty_def
        simp del: output_of_set output_of_updates output_of_clear)
qed

lemma kept_clear_lifecycle [simp]: "kept s (clear_invalidated_phase_lifecycle s p) q"
  by (simp add: kept_def clear_invalidated_phase_lifecycle_def)

lemma kept_clear_fold:
  "q \<notin> set ds \<Longrightarrow>
   kept s (fold (\<lambda>q t. clear_invalidated_phase_lifecycle (clear_phase_authoritative_output t q) q) ds s) q"
proof (induction ds arbitrary: s)
  case (Cons d ds)
  then have "kept s (clear_invalidated_phase_lifecycle (clear_phase_authoritative_output s d) d) q"
    by (intro kept_trans [OF kept_clear_output kept_clear_lifecycle]) simp
  with Cons show ?case by (auto intro: kept_trans)
qed simp

lemma kept_prerequisite:
  assumes "record_prerequisite_failure env s p reason = Ok t"
    and "get_downstream_phases (PT_Str (project_type s)) p = Ok ds"
    and "ds = [] \<Longrightarrow> collect_downstream_phases p = []"
    and "q \<noteq> p" "q \<notin> set ds"
  shows "kept s t q"
proof -
  let ?s0 = "clear_phase_authoritative_output s p"
  obtain s1 ivs where s1: "invalidate_downstream ?s0 p = Ok (s1, ivs)"
    using assms(1) by (auto simp: record_prerequisite_failure_def split: sum.splits)
  have s0: "kept s ?s0 q" using assms(4) by (rule kept_clear_output)
  then have pt: "project_type ?s0 = project_type s" by (simp add: kept_def)
  have loop: "invalidate_loop ?s0 ds = (s1, ivs)"
    using s1 assms(2,3) pt by (auto simp: invalidate_downstream_def split: if_splits)
  obtain ps where "get_workflow_phase_sequence (PT_Str (project_type s)) = Ok ps"
    using assms(2) by (auto simp: get_downstream_phases_def split: sum.splits)
  with assms(2) have "distinct ds" using downstream_distinct by blast
  then have "set ivs \<subseteq> set ds" using invalidate_loop_listed [OF loop] by auto
  with assms(5) have q: "q \<notin> set ivs" by auto
  have k1: "kept ?s0 s1 q"
    using invalidate_loop_other [OF loop assms(5)] invalidate_loop_frame [OF loop]
    by (intro kept_untouched) auto
  let ?u = "fold (\<lambda>q t. clear_invalidated_phase_lifecycle (clear_phase_authoritative_output t q) q) ivs s1"
  let ?v = "?u\<lparr>phase_status := (phase_status ?u)(p \<mapsto> FAILED),
      phase_confidence := (phase_confidence ?u)(p \<mapsto> 0),
      phase_summaries := pop (phase_summaries ?u) p,
      phase_run_completed_at := pop (phase_run_completed_at ?u) p\<rparr>"
  have k2: "kept s1 ?u q" by (rule kept_clear_fold [OF q])
  have k3: "kept ?u ?v q" using assms(4) by (simp add: kept_def)
  obtain m where t: "t = record_phase_failure env ?v p ''prerequisite_failed'' m"
    using assms(1) s1 by (auto simp: record_prerequisite_failure_def Let_def)
  show ?thesis
    unfolding t by (rule kept_trans [OF s0 kept_trans [OF k1 kept_trans [OF k2 kept_trans [OF k3 kept_failure]]]])
qed

text \<open>
  The phases a run of \<open>p\<close> may touch besides \<open>p\<close> come after it in the sequence.
\<close>

lemma strategy_downstream:
  "get_workflow_phase_sequence pt = Ok seq \<Longrightarrow> ''strategy'' \<in> set seq \<Longrightarrow>
     get_downstream_phases pt ''strategy'' = Ok [''sqi'', ''monitor'', ''report'']"
proof -
  assume seq: "get_workflow_phase_sequence pt = Ok seq" and m: "''strategy'' \<in> set seq"
  have "''strategy'' \<notin> set TECHNOLOGY_READINESS_PHASE_SEQUENCE"
    by (simp add: TECHNOLOGY_READINESS_PHASE_SEQUENCE_def)
  with m get_sequence_Ok [OF seq] have "seq = STRATEGIC_AUDIT_PHASE_SEQUENCE" by auto
  with seq show ?thesis
    by (simp add: get_downstream_phases_def STRATEGIC_AUDIT_PHASE_SEQUENCE_def)
qed

lemma last_phase_collects_nothing:
  assumes "get_workflow_phase_sequence pt = Ok seq" "p \<in> set seq" "after p seq = []"
  shows "collect_downstream_phases p = []"
proof -
  have "seq = STRATEGIC_AUDIT_PHASE_SEQUENCE \<or> seq = TECHNOLOGY_READINESS_PHASE_SEQUENCE"
    using get_sequence_Ok [OF assms(1)] by blast
  then have "p = ''report'' \<or> p = ''executive_summary''"
    using assms(2,3)
    by (auto simp: STRATEGIC_AUDIT_PHASE_SEQUENCE_def TECHNOLOGY_READINESS_PHASE_SEQUENCE_def
        split: if_splits)
  then show ?thesis
    by (auto simp: collect_downstream_phases_def next_phases_def dict_get_def INVALIDATION_MAP_def)
qed

lemma kept_enter:
  assumes "enter_phase env s p = Ok (Return t) \<or> enter_phase env s p = Ok (Continue t)"
    and "get_workflow_phase_sequence (PT_Str (project_type s)) = Ok seq" "p \<in> set seq"
    and "q \<noteq> p" "q \<notin> set (after p seq)"
  shows "kept s t q"
proof -
  let ?s1 = "if p = ''strategy'' then fst (invalidate_strategy_replacement s) else s"
  have ds: "get_downstream_phases (PT_Str (project_type s)) p = Ok (after p seq)"
    using assms(2,3) by (simp add: get_downstream_phases_def)
  have s1: "kept s ?s1 q"
  proof (cases "p = ''strategy''")
    case True
    with assms(2,3) ds have "after p seq = [''sqi'', ''monitor'', ''report'']"
      using strategy_downstream by fastforce
    with True assms(4,5) show ?thesis by (simp add: kept_replacement)
  qed simp
  then have pt: "project_type ?s1 = project_type s" by (simp add: kept_def)
  have "kept ?s1 t q" if "record_prerequisite_failure env ?s1 p reason = Ok t" for reason
    using kept_prerequisite [OF that, of "after p seq" q] ds pt assms(4,5)
      last_phase_collects_nothing [OF assms(2,3)] by simp
  moreover have "t = ?s1 \<or> (\<exists>reason. record_prerequisite_failure env ?s1 p reason = Ok t)"
    using assms(1) by (auto simp: enter_phase_def Let_def split: if_splits)
  ultimately show ?thesis using s1 by (blast intro: kept_trans)
qed

lemma run_phase_kept:
  assumes "run_phase_node env s p = Ok t"
    and "get_workflow_phase_sequence (PT_Str (project_type s)) = Ok seq" "p \<in> set seq"
    and "q \<noteq> p" "q \<notin> set (after p seq)"
  shows "kept s t q"
proof -
  note enter = kept_enter [OF _ assms(2-5)]
  consider "enter_phase env s p = Ok (Return t)"
    | s1 where "enter_phase env s p = Ok (Continue s1)" "gate_phase env s1 p = Return t"
    | s1 s2 where "enter_phase env s p = Ok (Continue s1)" "gate_phase env s1 p = Continue s2"
        "start_phase env s2 p = Return t"
    | s1 s2 s3 where "enter_phase env s p = Ok (Continue s1)" "gate_phase env s1 p = Continue s2"
        "start_phase env s2 p = Continue s3" "t = execute_phase env s3 p"
    using assms(1) by (auto simp: run_phase_node_def split: sum.splits flow.splits)
  then show ?thesis
  proof cases
    case 1
    then show ?thesis by (intro enter disjI1)
  next
    case 2
    from enter [OF disjI2 [OF 2(1)]] kept_gate [OF disjI1 [OF 2(2)] assms(4)]
    show ?thesis by (rule kept_trans)
  next
    case 3
    from enter [OF disjI2 [OF 3(1)]] kept_gate [OF disjI2 [OF 3(2)] assms(4)]
    have "kept s s2 q" by (rule kept_trans)
    from this kept_start [OF disjI1 [OF 3(3)] assms(4)] show ?thesis by (rule kept_trans)
  next
    case 4
    from enter [OF disjI2 [OF 4(1)]] kept_gate [OF disjI2 [OF 4(2)] assms(4)]
    have "kept s s2 q" by (rule kept_trans)
    from this kept_start [OF disjI2 [OF 4(3)] assms(4)] have "kept s s3 q" by (rule kept_trans)
    from this kept_execute [OF assms(4), of s3 env] show ?thesis unfolding 4(4) by (rule kept_trans)
  qed
qed

subsection \<open>Where the sequential runner stops\<close>

definition settled :: "project_state \<Rightarrow> phase \<Rightarrow> bool" where
  "settled s p \<longleftrightarrow> status_of s p = COMPLETED \<and> phase_has_output s p"

lemma unfinished_iff: "phase_unfinished s p \<longleftrightarrow> \<not> settled s p"
  by (cases "status_of s p") (auto simp: phase_unfinished_def settled_def UNFINISHED_PHASE_STATUSES_def)

lemma kept_settled: "kept s t q \<Longrightarrow> settled s q \<Longrightarrow> settled t q"
  by (simp add: kept_def settled_def status_of_def dict_get_def)

lemma kept_after_phase: "after_phase env s p = Ok t \<Longrightarrow> kept s t q"
  by (auto simp: after_phase_def record_triggers_def kept_def split: if_splits)

lemma after_phase_status: "after_phase env s p = Ok t \<Longrightarrow> phase_status t = phase_status s"
  by (auto simp: after_phase_def record_triggers_def split: if_splits)

lemma gate_after_phase_return:
  "gate_after_phase env s p = Return t \<Longrightarrow>
     phase_status t p = Some FAILED \<and> (\<forall>q. q \<noteq> p \<longrightarrow> kept s t q) \<and> project_type t = project_type s"
  by (auto simp: gate_after_phase_def Let_def kept_def record_phase_failure_def split: if_splits)

lemma gate_after_phase_continue: "gate_after_phase env s p = Continue t \<Longrightarrow> kept s t q"
  by (auto simp: gate_after_phase_def Let_def kept_def split: if_splits)

text \<open>
  The stopping condition: every phase is settled, or the phases before one phase are and that
  phase failed, or it is a completed report without text.
\<close>

definition stopped_well :: "phase list \<Rightarrow> project_state \<Rightarrow> bool" where
  "stopped_well seq t \<longleftrightarrow>
     (\<forall>q \<in> set seq. settled t q) \<or>
     (\<exists>pre p post. seq = pre @ p # post \<and> (\<forall>q \<in> set pre. settled t q) \<and> \<not> settled t p \<and>
        (phase_status t p = Some FAILED \<or> p = ''report'' \<and> status_of t p = COMPLETED))"

lemma stopped_wellI:
  "\<forall>q \<in> set pre. settled t q \<Longrightarrow> \<not> settled t p \<Longrightarrow>
   phase_status t p = Some FAILED \<or> p = ''report'' \<and> status_of t p = COMPLETED \<Longrightarrow>
   stopped_well (pre @ p # post) t"
  unfolding stopped_well_def by blast

lemma distinct_split_after: "distinct (pre @ p # post) \<Longrightarrow> after p (pre @ p # post) = post"
  by (rule after_append) simp

lemma sequence_phase_structured:
  "get_workflow_phase_sequence pt = Ok seq \<Longrightarrow> p \<in> set seq \<Longrightarrow> p \<noteq> ''report'' \<Longrightarrow> p \<in> STRUCTURED_PHASES"
  using get_sequence_Ok [of pt seq]
  by (auto simp: STRUCTURED_PHASES_def STRATEGIC_AUDIT_PHASE_SEQUENCE_def)

lemma sequence_phase_nonempty: "get_workflow_phase_sequence pt = Ok seq \<Longrightarrow> p \<in> set seq \<Longrightarrow> p \<noteq> []"
  using get_sequence_Ok [of pt seq]
  by (auto simp: STRATEGIC_AUDIT_PHASE_SEQUENCE_def TECHNOLOGY_READINESS_PHASE_SEQUENCE_def)

lemma report_is_last:
  "get_workflow_phase_sequence pt = Ok (pre @ ''report'' # post) \<Longrightarrow> post = []"
proof -
  assume seq: "get_workflow_phase_sequence pt = Ok (pre @ ''report'' # post)"
  let ?seq = "pre @ ''report'' # post"
  from get_sequence_Ok [OF seq] have d: "distinct ?seq"
    and "?seq = STRATEGIC_AUDIT_PHASE_SEQUENCE \<or> ?seq = TECHNOLOGY_READINESS_PHASE_SEQUENCE" by auto
  moreover have "''report'' \<notin> set TECHNOLOGY_READINESS_PHASE_SEQUENCE"
    by (simp add: TECHNOLOGY_READINESS_PHASE_SEQUENCE_def)
  moreover have "''report'' \<in> set ?seq" by simp
  ultimately have eq: "?seq = STRATEGIC_AUDIT_PHASE_SEQUENCE" by metis
  have "after ''report'' STRATEGIC_AUDIT_PHASE_SEQUENCE = []"
    by (simp add: STRATEGIC_AUDIT_PHASE_SEQUENCE_def)
  with distinct_split_after [OF d] eq show ?thesis by simp
qed

lemma sequence_loop_stops:
  assumes "sequence_loop env s ps = Ok (t, saved)"
    and "get_workflow_phase_sequence (PT_Str (project_type s)) = Ok (pre @ ps)"
    and "\<forall>q \<in> set pre. settled s q"
  shows "stopped_well (pre @ ps) t \<and> project_type t = project_type s"
  using assms
proof (induction ps arbitrary: s pre saved)
  case Nil
  then show ?case by (simp add: stopped_well_def)
next
  case (Cons p ps)
  let ?seq = "pre @ p # ps"
  note seq = Cons.prems(2)
  have dist: "distinct ?seq" using get_sequence_Ok [OF seq] by blast
  show ?case
  proof (cases "settled s p")
    case True
    with Cons.prems(1) have "sequence_loop env s ps = Ok (t, saved)" by (simp add: settled_def)
    from Cons.IH [OF this, of "pre @ [p]"] seq Cons.prems(3) True show ?thesis by simp
  next
    case False
    let ?s1 = "s\<lparr>current_phase := p, phase_status := (phase_status s)(p \<mapsto> RUNNING)\<rparr>"
    obtain s2 where s2: "run_phase_node (env p) ?s1 p = Ok s2"
      using Cons.prems(1) False by (auto simp: settled_def Let_def split: sum.splits)
    obtain s3 where s3: "after_phase (env p) s2 p = Ok s3"
      using Cons.prems(1) False s2 by (auto simp: settled_def Let_def split: sum.splits)
    have seq1: "get_workflow_phase_sequence (PT_Str (project_type ?s1)) = Ok ?seq" using seq by simp
    have keep3: "kept s s3 q" if "q \<in> set pre" for q
    proof -
      have "q \<noteq> p" "q \<notin> set (after p ?seq)"
        using that dist distinct_split_after [OF dist] by auto
      then have "kept s ?s1 q" "kept ?s1 s2 q"
        using run_phase_kept [OF s2 seq1] by (auto simp: kept_def)
      with kept_after_phase [OF s3] show ?thesis by (blast intro: kept_trans)
    qed
    have pt2: "project_type s2 = project_type s"
    proof -
      have "kept ?s1 s2 ''''"
        using run_phase_kept [OF s2 seq1, of "''''"] sequence_phase_nonempty [OF seq] distinct_split_after [OF dist]
        by fastforce
      then show ?thesis by (simp add: kept_def)
    qed
    with kept_after_phase [OF s3] have pt3: "project_type s3 = project_type s" by (simp add: kept_def)
    have pre3: "\<forall>q \<in> set pre. settled s3 q" using keep3 kept_settled Cons.prems(3) by blast
    have out: "outcome_completed s2 p \<or> outcome_failed s2 p"
      by (rule run_phase_outcome [OF s2]) (use sequence_phase_nonempty [OF seq] in simp)
    show ?thesis
    proof (cases "status_of s3 p = COMPLETED")
      case no: False
      with Cons.prems(1) False s2 s3 have t: "t = s3" by (auto simp: settled_def Let_def)
      from no out after_phase_status [OF s3] have "phase_status t p = Some FAILED"
        by (auto simp: t outcome_completed_def outcome_failed_def status_of_def dict_get_def)
      moreover have "\<not> settled t p" using no by (simp add: t settled_def)
      ultimately show ?thesis using pre3 pt3 stopped_wellI t by blast
    next
      case fin: True
      show ?thesis
      proof (cases "gate_after_phase (env p) s3 p")
        case (Return u)
        with Cons.prems(1) False s2 s3 fin Return have t: "t = u" by (auto simp: settled_def Let_def)
        note g = gate_after_phase_return [OF Return]
        have "settled t q" if "q \<in> set pre" for q
        proof -
          have "q \<noteq> p" using that dist by auto
          with g have "kept s3 t q" by (simp add: t)
          with pre3 that show ?thesis using kept_settled by blast
        qed
        then have "\<forall>q \<in> set pre. settled t q" by blast
        moreover have "\<not> settled t p" using g by (simp add: t settled_def status_of_def dict_get_def)
        moreover have "project_type t = project_type s" using g pt3 by (simp add: t)
        ultimately show ?thesis using stopped_wellI g t by blast
      next
        case (Continue s4)
        note k4 = gate_after_phase_continue [OF Continue]
        obtain saved' where loop: "sequence_loop env s4 ps = Ok (t, saved')"
          using Cons.prems(1) False s2 s3 fin Continue by (auto simp: settled_def Let_def split: sum.splits)
        have pt4: "project_type s4 = project_type s" using k4 pt3 by (simp add: kept_def)
        have pre4: "\<forall>q \<in> set pre. settled s4 q" using pre3 k4 kept_settled by blast
        show ?thesis
        proof (cases "settled s4 p")
          case True
          from Cons.IH [OF loop, of "pre @ [p]"] seq pt4 pre4 True show ?thesis by simp
        next
          case unset: False
          have comp: "outcome_completed s2 p"
            using out fin after_phase_status [OF s3]
            by (auto simp: outcome_failed_def status_of_def dict_get_def)
          have "\<not> phase_has_output s2 p"
          proof
            assume "phase_has_output s2 p"
            with kept_after_phase [OF s3, of p] k4 [of p] fin have "settled s4 p"
              by (simp add: kept_def settled_def status_of_def dict_get_def)
            with unset show False by simp
          qed
          with comp have "p \<notin> STRUCTURED_PHASES" by (auto simp: outcome_completed_def)
          with sequence_phase_structured [OF seq] have p: "p = ''report''" by fastforce
          with report_is_last seq have "ps = []" by blast
          with loop have t: "t = s4" by simp
          have "status_of s4 p = COMPLETED"
            using fin k4 [of p] by (simp add: kept_def status_of_def dict_get_def)
          with unset pre4 p \<open>ps = []\<close> pt4 show ?thesis using stopped_wellI t by blast
        qed
      qed
    qed
  qed
qed

lemma stopped_well_find:
  assumes "stopped_well seq t" "find (phase_unfinished t) seq = Some p"
  shows "phase_status t p = Some FAILED \<or> p = ''report'' \<and> status_of t p = COMPLETED"
proof -
  obtain i where i: "i < length seq" "\<not> settled t (seq ! i)" "p = seq ! i" "\<forall>j < i. settled t (seq ! j)"
    using assms(2) by (auto simp: find_Some_iff unfinished_iff)
  with assms(1) obtain pre x post where x: "seq = pre @ x # post" "\<forall>q \<in> set pre. settled t q"
    "\<not> settled t x" "phase_status t x = Some FAILED \<or> x = ''report'' \<and> status_of t x = COMPLETED"
    unfolding stopped_well_def by auto
  have "i = length pre"
  proof (rule ccontr)
    assume "i \<noteq> length pre"
    then consider "i < length pre" | "length pre < i" by linarith
    then show False
    proof cases
      case 1
      with x i show False by (metis nth_append nth_mem)
    next
      case 2
      with i(4) x(1,3) show False by (metis nth_append_length)
    qed
  qed
  with x i show ?thesis by simp
qed

end
