(* ===== verification/Execution.thy ===== *)
theory Execution
  imports Runner
begin

text \<open>
  What one phase execution and one sequential run guarantee: the runner returns, a phase ends
  completed or failed, phases outside its cone are kept, a refused phase makes no model call, the
  calls are charged and bounded, and a run stops only where a phase failed or everything is done.
\<close>

subsection \<open>The runner returns\<close>

lemma replacement_project_type [simp]:
  "project_type (fst (invalidate_strategy_replacement s)) = project_type s"
proof -
  obtain t ivs where "invalidate_strategy_dependency_cone s None None = (t, ivs)"
    by (cases "invalidate_strategy_dependency_cone s None None")
  with cone_spec(6) show ?thesis by (simp add: invalidate_strategy_replacement_def)
qed

lemma clear_output_project_type [simp]:
  "project_type (clear_phase_authoritative_output s p) = project_type s"
  by (simp add: clear_phase_authoritative_output_def Let_def)

lemma invalidate_downstream_returns:
  assumes "get_workflow_phase_sequence (PT_Str (project_type s)) = Ok seq"
  shows "\<exists>t ivs. invalidate_downstream s p = Ok (t, ivs)"
proof -
  have "\<exists>ds. get_downstream_phases (PT_Str (project_type s)) p = Ok ds"
    using assms by (simp add: get_downstream_phases_def)
  then obtain ds where "get_downstream_phases (PT_Str (project_type s)) p = Ok ds" ..
  moreover obtain t ivs where
    "invalidate_loop s (if ds = [] then collect_downstream_phases p else ds) = (t, ivs)"
    by fastforce
  ultimately show ?thesis by (simp add: invalidate_downstream_def)
qed

lemma prerequisite_failure_returns:
  assumes "get_workflow_phase_sequence (PT_Str (project_type s)) = Ok seq"
  shows "\<exists>t. record_prerequisite_failure env s p reason = Ok t"
proof -
  obtain t ivs where "invalidate_downstream (clear_phase_authoritative_output s p) p = Ok (t, ivs)"
    using invalidate_downstream_returns [of "clear_phase_authoritative_output s p" seq p] assms by auto
  then show ?thesis by (simp add: record_prerequisite_failure_def Let_def)
qed

lemma run_phase_returns:
  assumes "get_workflow_phase_sequence (PT_Str (project_type s)) = Ok seq"
  shows "\<exists>t. run_phase_node env s p = Ok t"
proof -
  let ?s1 = "if p = ''strategy'' then fst (invalidate_strategy_replacement s) else s"
  have "\<exists>t. record_prerequisite_failure env ?s1 p reason = Ok t" for reason
    by (rule prerequisite_failure_returns) (use assms in simp)
  then have "\<exists>f. enter_phase env s p = Ok f" by (auto simp: enter_phase_def Let_def)
  then show ?thesis by (auto simp: run_phase_node_def split: flow.splits)
qed

subsection \<open>A refused phase\<close>

lemma policy_gate_cong:
  fixes s t :: project_state
  assumes "kill_switch_active t = kill_switch_active s" "kill_switch_reason t = kill_switch_reason s"
    "budget_consumed_of t = budget_consumed_of s" "budget_caps_of t = budget_caps_of s"
    "phase_breakers t = phase_breakers s" "risk_classification t = risk_classification s"
    "approvals_granted t = approvals_granted s"
  shows "policy_gate t = policy_gate s"
  unfolding policy_gate_def check_kill_switch_def assms by (rule refl)

lemma policy_gate_truncate:
  fixes s t :: project_state
  assumes "policy_state.truncate t = policy_state.truncate s"
  shows "policy_gate (start_wall_clock t m) = policy_gate (start_wall_clock s m)"
proof -
  have f: "kill_switch_active t = kill_switch_active s" "kill_switch_reason t = kill_switch_reason s"
    "budget_consumed_of t = budget_consumed_of s" "budget_caps_of t = budget_caps_of s"
    "phase_breakers t = phase_breakers s" "risk_classification t = risk_classification s"
    "approvals_granted t = approvals_granted s"
    using assms by (simp_all add: policy_state.defs)
  show ?thesis
    by (rule policy_gate_cong) (simp_all add: f start_wall_clock_def split: option.splits)
qed

lemma policy_gate_sanitize [simp]: "policy_gate (sanitize_intake env s p) = policy_gate s"
  by (rule policy_gate_cong)
     (simp_all add: sanitize_intake_def log_policy_event_def split: option.splits prod.splits)

lemma enter_truncate:
  assumes "enter_phase env s p = Ok (Continue t)"
  shows "policy_state.truncate t = policy_state.truncate s"
proof -
  obtain u ivs where "invalidate_strategy_dependency_cone s None None = (u, ivs)"
    by (cases "invalidate_strategy_dependency_cone s None None")
  with assms cone_spec(8) show ?thesis
    by (auto simp: enter_phase_def Let_def invalidate_strategy_replacement_def split: if_splits)
qed

lemma gate_refuses:
  assumes "\<not> gd_allowed (policy_gate (start_wall_clock s (en_monotonic env)) p
       (reversibility_of p) 0 0 (en_monotonic env))"
    and "enter_phase env s p = Ok (Continue s1)"
  shows "\<exists>t. gate_phase env s1 p = Return t"
  using assms policy_gate_truncate [OF enter_truncate [OF assms(2)]]
  by (simp add: gate_phase_def phase_gate_def Let_def)

lemma failure_call_irrelevant [simp]:
  "record_phase_failure (env\<lparr>en_call := c\<rparr>) = record_phase_failure env"
  "record_prerequisite_failure (env\<lparr>en_call := c\<rparr>) = record_prerequisite_failure env"
  "enter_phase (env\<lparr>en_call := c\<rparr>) = enter_phase env"
proof -
  show f: "record_phase_failure (env\<lparr>en_call := c\<rparr>) = record_phase_failure env"
    by (intro ext) (simp add: record_phase_failure_def)
  show p: "record_prerequisite_failure (env\<lparr>en_call := c\<rparr>) = record_prerequisite_failure env"
    unfolding record_prerequisite_failure_def f by (rule refl)
  show "enter_phase (env\<lparr>en_call := c\<rparr>) = enter_phase env"
    unfolding enter_phase_def p by (rule refl)
qed

lemma gate_call_irrelevant [simp]: "gate_phase (env\<lparr>en_call := c\<rparr>) = gate_phase env"
proof -
  have s: "sanitize_intake (env\<lparr>en_call := c\<rparr>) = sanitize_intake env"
    by (intro ext) (simp add: sanitize_intake_def split: option.splits prod.splits)
  have g: "phase_gate (env\<lparr>en_call := c\<rparr>) = phase_gate env"
    by (intro ext) (simp add: phase_gate_def)
  have f: "fail_phase (env\<lparr>en_call := c\<rparr>) = fail_phase env"
    by (intro ext) (simp add: fail_phase_def)
  show ?thesis by (intro ext) (simp add: gate_phase_def Let_def s g f)
qed

lemma refused_run:
  assumes "\<not> gd_allowed (policy_gate (start_wall_clock s (en_monotonic env)) p
       (reversibility_of p) 0 0 (en_monotonic env))"
    and "run_phase_node env s p = Ok t"
  shows "enter_phase env s p = Ok (Return t) \<or>
    (\<exists>s1. enter_phase env s p = Ok (Continue s1) \<and> gate_phase env s1 p = Return t)"
  using assms gate_refuses [OF assms(1)]
  by (fastforce simp: run_phase_node_def split: sum.splits flow.splits)

subsection \<open>What a run charges\<close>

lemma charged_after_phase: "after_phase env s p = Ok t \<Longrightarrow> charged s t []"
  by (auto simp: after_phase_def record_triggers_def policy_state.defs intro!: charged_truncate split: if_splits)

lemma charged_gate_after_phase:
  "gate_after_phase env s p = Return t \<or> gate_after_phase env s p = Continue t \<Longrightarrow> charged s t []"
  by (auto simp: gate_after_phase_def Let_def intro!: charged_truncate split: if_splits)

lemma sequence_loop_charged:
  "sequence_loop env s ps = Ok (t, saved) \<Longrightarrow> \<exists>rs. length rs \<le> 2 * length ps \<and> charged s t rs"
proof (induction ps arbitrary: s saved)
  case Nil
  then show ?case by (intro exI [of _ "[]"]) simp
next
  case (Cons p ps)
  show ?case
  proof (cases "settled s p")
    case True
    with Cons.prems have "sequence_loop env s ps = Ok (t, saved)" by (simp add: settled_def)
    then obtain rs where "length rs \<le> 2 * length ps" "charged s t rs" using Cons.IH by blast
    then show ?thesis by (intro exI [of _ rs]) simp
  next
    case False
    let ?s1 = "s\<lparr>current_phase := p, phase_status := (phase_status s)(p \<mapsto> RUNNING)\<rparr>"
    obtain s2 s3 where s2: "run_phase_node (env p) ?s1 p = Ok s2"
      and s3: "after_phase (env p) s2 p = Ok s3"
      using Cons.prems False by (auto simp: settled_def Let_def split: sum.splits)
    obtain rs where rs: "length rs \<le> 2" "charged ?s1 s2 rs" using run_phase_charged_some [OF s2] by blast
    have "charged s ?s1 []"
      by (rule charged_trans_Nil [OF charged_phase charged_truncate]) simp
    with rs charged_after_phase [OF s3] have c3: "charged s s3 rs"
      by (blast intro: charged_Nil_trans charged_trans_Nil)
    consider "t = s3" | "gate_after_phase (env p) s3 p = Return t"
      | s4 saved' where "gate_after_phase (env p) s3 p = Continue s4"
          "sequence_loop env s4 ps = Ok (t, saved')"
      using Cons.prems False s2 s3
      by (auto simp: settled_def Let_def split: if_splits flow.splits)
    then show ?thesis
    proof cases
      case 1
      with c3 rs(1) show ?thesis by (intro exI [of _ rs]) simp
    next
      case 2
      with c3 charged_gate_after_phase have "charged s t rs" by (blast intro: charged_trans_Nil)
      with rs(1) show ?thesis by (intro exI [of _ rs]) simp
    next
      case 3
      then obtain rs' where rs': "length rs' \<le> 2 * length ps" "charged s4 t rs'" using Cons.IH by blast
      have "charged s s4 rs" using c3 charged_gate_after_phase 3(1) by (blast intro: charged_trans_Nil)
      with rs' rs(1) show ?thesis
        by (intro exI [of _ "rs @ rs'"]) (auto intro: charged_trans)
    qed
  qed
qed

subsection \<open>The call cap over a run\<close>

text \<open>The LLM calls counted, their cap, and that the state has both dictionaries.\<close>

definition calls_counted :: "project_state \<Rightarrow> int" where
  "calls_counted s = llm_call_count (consumption s)"

definition call_cap :: "project_state \<Rightarrow> int" where
  "call_cap s = max_llm_calls (state_caps s)"

definition metered :: "project_state \<Rightarrow> bool" where
  "metered s \<longleftrightarrow> budget_consumed_of s \<noteq> None \<and> budget_caps_of s \<noteq> None"

lemma charged_counts:
  assumes "charged s t rs" "metered s"
  shows "metered t" "calls_counted t = calls_counted s + int (length rs)" "call_cap t = call_cap s"
  using assms
  by (auto simp: charged_def metered_def calls_counted_def call_cap_def consumption_def state_caps_def
      budget_charged_def rel_option_iff split: option.splits)

lemma exhausted_refused:
  assumes "metered s" "call_cap s \<le> calls_counted s"
  shows "\<not> gd_allowed (policy_gate (start_wall_clock s m) p r 0 0 m)"
proof -
  have "metered (start_wall_clock s m)" "calls_counted (start_wall_clock s m) = calls_counted s"
    "call_cap (start_wall_clock s m) = call_cap s"
    using charged_counts [OF charged_clock assms(1)] by simp_all
  with assms(2) have "\<not> budget_permits (start_wall_clock s m) 0 0 m"
    by (auto simp: budget_permits_def metered_def within_caps_def calls_counted_def call_cap_def
        consumption_def state_caps_def)
  then show ?thesis by (simp add: gate_allowed_iff)
qed

lemma refused_charged:
  assumes "\<not> gd_allowed (policy_gate (start_wall_clock s (en_monotonic env)) p
       (reversibility_of p) 0 0 (en_monotonic env))"
    and "run_phase_node env s p = Ok t"
  shows "charged s t []"
  using refused_run [OF assms] charged_enter charged_gate by (meson charged_trans_Nil)

lemma run_phase_counts:
  assumes "run_phase_node env s p = Ok t" "metered s"
  shows "metered t \<and> call_cap t = call_cap s \<and>
    calls_counted t \<le> max (calls_counted s) (call_cap s + 1)"
proof (cases "call_cap s \<le> calls_counted s")
  case True
  from charged_counts [OF refused_charged [OF exhausted_refused [OF assms(2) True] assms(1)] assms(2)]
  show ?thesis by simp
next
  case False
  obtain rs where rs: "length rs \<le> 2" "charged s t rs" using run_phase_charged_some [OF assms(1)] by blast
  from charged_counts [OF rs(2) assms(2)] rs(1) False show ?thesis by simp
qed

lemma sequence_loop_counts:
  "sequence_loop env s ps = Ok (t, saved) \<Longrightarrow> metered s \<Longrightarrow>
     metered t \<and> call_cap t = call_cap s \<and>
     calls_counted t \<le> max (calls_counted s) (call_cap s + 1)"
proof (induction ps arbitrary: s saved)
  case (Cons p ps)
  show ?case
  proof (cases "settled s p")
    case True
    with Cons.prems(1) have "sequence_loop env s ps = Ok (t, saved)" by (simp add: settled_def)
    then show ?thesis using Cons.IH Cons.prems(2) by blast
  next
    case False
    let ?s1 = "s\<lparr>current_phase := p, phase_status := (phase_status s)(p \<mapsto> RUNNING)\<rparr>"
    obtain s2 s3 where s2: "run_phase_node (env p) ?s1 p = Ok s2"
      and s3: "after_phase (env p) s2 p = Ok s3"
      using Cons.prems(1) False by (auto simp: settled_def Let_def split: sum.splits)
    have "charged s ?s1 []"
      by (rule charged_trans_Nil [OF charged_phase charged_truncate]) simp
    note c1 = charged_counts [OF this Cons.prems(2)]
    note c2 = run_phase_counts [OF s2 c1(1)]
    note c3 = charged_counts [OF charged_after_phase [OF s3] c2 [THEN conjunct1]]
    have m3: "metered s3 \<and> call_cap s3 = call_cap s \<and>
        calls_counted s3 \<le> max (calls_counted s) (call_cap s + 1)"
      using c1 c2 c3 by simp
    consider "t = s3" | "gate_after_phase (env p) s3 p = Return t"
      | s4 saved' where "gate_after_phase (env p) s3 p = Continue s4"
          "sequence_loop env s4 ps = Ok (t, saved')"
      using Cons.prems(1) False s2 s3
      by (auto simp: settled_def Let_def split: if_splits flow.splits)
    then show ?thesis
    proof cases
      case 1
      with m3 show ?thesis by simp
    next
      case 2
      from charged_counts [OF charged_gate_after_phase [OF disjI1 [OF 2]]] m3 show ?thesis by simp
    next
      case 3
      from charged_counts [OF charged_gate_after_phase [OF disjI2 [OF 3(1)]]] m3
      have "metered s4 \<and> call_cap s4 = call_cap s \<and>
          calls_counted s4 \<le> max (calls_counted s) (call_cap s + 1)" by simp
      with Cons.IH [OF 3(2)] show ?thesis by linarith
    qed
  qed
qed simp

text \<open>The first step of a run: the stale outputs after the first unfinished phase are dropped.\<close>

lemma find_split:
  "find P xs = Some x \<Longrightarrow> \<exists>ys zs. xs = ys @ x # zs \<and> P x \<and> (\<forall>y \<in> set ys. \<not> P y)"
proof (induction xs)
  case (Cons a xs)
  show ?case
  proof (cases "P a")
    case True
    with Cons.prems show ?thesis by (intro exI [of _ "[]"] exI [of _ xs]) simp
  next
    case False
    with Cons obtain ys zs where "xs = ys @ x # zs" "P x" "\<forall>y \<in> set ys. \<not> P y" by auto
    with False show ?thesis by (intro exI [of _ "a # ys"] exI [of _ zs]) simp
  qed
qed simp

lemma run_sequence_cases:
  assumes "run_workflow_sequence env s = Ok (t, saved)"
    and "get_workflow_phase_sequence (PT_Str (project_type s)) = Ok seq"
  obtains "find (phase_unfinished s) seq = None" "t = s"
  | pre p post s1 ivs saved' where "seq = pre @ p # post" "\<forall>q \<in> set pre. settled s q" "\<not> settled s p"
      "find (phase_unfinished s) seq = Some p"
      "invalidate_downstream s p = Ok (s1, ivs)" "project_type s1 = project_type s"
      "sequence_loop env s1 (p # post) = Ok (t, saved')"
proof (cases "find (phase_unfinished s) seq")
  case None
  with assms show thesis
    by (intro that(1)) (simp_all add: run_workflow_sequence_def get_first_unfinished_phase_def
        workflow_phase_sequence_for_state_def map_result_def)
next
  case (Some p)
  have first: "get_first_unfinished_phase s = Ok (Some p)"
    using Some assms(2)
    by (simp add: get_first_unfinished_phase_def workflow_phase_sequence_for_state_def map_result_def)
  obtain s1 ivs where s1: "invalidate_downstream s p = Ok (s1, ivs)"
    using assms(1) first by (auto simp: run_workflow_sequence_def split: sum.splits)
  have pt: "project_type s1 = project_type s"
    using s1 invalidate_loop_frame by (fastforce simp: invalidate_downstream_def split: sum.splits)
  obtain pre post where seq: "seq = pre @ p # post" and pre: "\<forall>q \<in> set pre. settled s q"
    and p: "\<not> settled s p"
    using find_split [OF Some] by (auto simp: unfinished_iff)
  have drop: "dropWhile (\<lambda>q. q \<noteq> p) seq = p # post"
    using get_sequence_Ok [OF assms(2)] seq
    by (subst seq, subst dropWhile_append2) auto
  obtain saved' where "sequence_loop env s1 (p # post) = Ok (t, saved')"
    using assms first s1 pt drop
    by (auto simp: run_workflow_sequence_def workflow_phase_sequence_for_state_def split: sum.splits)
  with seq pre p Some s1 pt show thesis by (rule that(2))
qed

lemma invalidate_downstream_kept:
  assumes "invalidate_downstream s p = Ok (t, ivs)"
    and "get_workflow_phase_sequence (PT_Str (project_type s)) = Ok (pre @ p # post)"
    and "q \<in> set pre \<or> q = p"
  shows "kept s t q"
proof -
  let ?seq = "pre @ p # post"
  have d: "distinct ?seq" using get_sequence_Ok [OF assms(2)] by blast
  have ds: "get_downstream_phases (PT_Str (project_type s)) p = Ok post"
    using assms(2) distinct_split_after [OF d] by (simp add: get_downstream_phases_def)
  have "post = [] \<Longrightarrow> collect_downstream_phases p = []"
    using last_phase_collects_nothing [OF assms(2)] distinct_split_after [OF d] by simp
  with ds assms(1) have loop: "invalidate_loop s post = (t, ivs)"
    by (auto simp: invalidate_downstream_def split: if_splits)
  have "q \<notin> set post" using d assms(3) by auto
  from invalidate_loop_other [OF loop this] invalidate_loop_frame [OF loop] show ?thesis
    by (intro kept_untouched) auto
qed

lemma sequence_loop_kept:
  assumes "sequence_loop env s ps = Ok (t, saved)"
    and "get_workflow_phase_sequence (PT_Str (project_type s)) = Ok (pre @ ps)"
    and "q \<in> set pre"
  shows "kept s t q"
  using assms
proof (induction ps arbitrary: s pre saved)
  case (Cons p ps)
  let ?seq = "pre @ p # ps"
  note seq = Cons.prems(2)
  have dist: "distinct ?seq" using get_sequence_Ok [OF seq] by blast
  have step: "kept s t q" if "kept s s4 q" "sequence_loop env s4 ps = Ok (t, saved')" for s4 saved'
  proof -
    have "get_workflow_phase_sequence (PT_Str (project_type s4)) = Ok ((pre @ [p]) @ ps)"
      using seq that(1) by (simp add: kept_def)
    from Cons.IH [OF that(2) this] Cons.prems(3) have "kept s4 t q" by simp
    with that(1) show ?thesis by (rule kept_trans)
  qed
  show ?case
  proof (cases "settled s p")
    case True
    with Cons.prems(1) have "sequence_loop env s ps = Ok (t, saved)" by (simp add: settled_def)
    with step kept_refl show ?thesis by blast
  next
    case False
    let ?s1 = "s\<lparr>current_phase := p, phase_status := (phase_status s)(p \<mapsto> RUNNING)\<rparr>"
    obtain s2 s3 where s2: "run_phase_node (env p) ?s1 p = Ok s2"
      and s3: "after_phase (env p) s2 p = Ok s3"
      using Cons.prems(1) False by (auto simp: settled_def Let_def split: sum.splits)
    have qp: "q \<noteq> p" "q \<notin> set (after p ?seq)"
      using Cons.prems(3) dist distinct_split_after [OF dist] by auto
    have "kept s ?s1 q" using qp by (simp add: kept_def)
    moreover have "kept ?s1 s2 q" using run_phase_kept [OF s2 _ _ qp] seq by simp
    ultimately have k3: "kept s s3 q"
      using kept_after_phase [OF s3] by (blast intro: kept_trans)
    consider "t = s3" | "gate_after_phase (env p) s3 p = Return t"
      | s4 saved' where "gate_after_phase (env p) s3 p = Continue s4"
          "sequence_loop env s4 ps = Ok (t, saved')"
      using Cons.prems(1) False s2 s3
      by (auto simp: settled_def Let_def split: if_splits flow.splits)
    then show ?thesis
    proof cases
      case 1
      with k3 show ?thesis by simp
    next
      case 2
      with gate_after_phase_return qp(1) k3 show ?thesis by (blast intro: kept_trans)
    next
      case 3
      with gate_after_phase_continue k3 have "kept s s4 q" by (blast intro: kept_trans)
      with step 3(2) show ?thesis by blast
    qed
  qed
qed simp

subsection \<open>Sample environment\<close>

text \<open>An environment for concrete runs: nothing decodes, every call is answered by \<open>r\<close>.\<close>

definition sample_response :: llm_response where
  "sample_response = \<lparr>lr_text = ''Final report'', lr_stop_reason = ''end_turn'', lr_ok = True,
     lr_error = '''', lr_error_type = '''', lr_model_used = ''claude-sonnet-4-6'',
     lr_provider_used = ''anthropic'', lr_input_tokens = 1000, lr_output_tokens = 500,
     lr_cache_hit = False, lr_latency_ms = 20, lr_cost_usd = 1 / 100,
     lr_selected_provider = ''anthropic'', lr_selected_model = ''claude-sonnet-4-6'',
     lr_selection_reason = '''', lr_task_profile = ''reporting'', lr_fallback_used = False,
     lr_fallback_reason = '''', lr_fallback_provider = '''', lr_fallback_model = '''',
     lr_failed_provider = '''', lr_failed_model = '''', lr_failed_error_type = '''',
     lr_attempt_count = 1\<rparr>"

definition sample_env :: "(string \<Rightarrow> jval option) \<Rightarrow> orchestrator_env" where
  "sample_env loads =
     \<lparr>en_decoder = \<lparr>de_loads = loads, de_raw = (\<lambda>_. None), de_dumps = (\<lambda>_. '''')\<rparr>,
      en_models = \<lparr>mo_classify = (\<lambda>_. Inl ''''), mo_hypothesis = (\<lambda>_. Inl ''''),
        mo_gauntlet = (\<lambda>_. Inl ''''), mo_audit = (\<lambda>_. Inl ''''), mo_strategy = (\<lambda>_. Inl ''''),
        mo_monitor = (\<lambda>_. Inl ''''), mo_sqi = (\<lambda>_. Inl ''''), mo_technology = (\<lambda>_ _. Inl '''')\<rparr>,
      en_call = (\<lambda>_ _ _. sample_response), en_monotonic = 0, en_time = 0, en_today = ''2026-01-01'',
      en_isonow = ''2026-01-01T00:00:00'', en_redact = (\<lambda>t. t), en_sanitize_brief = (\<lambda>_. None),
      en_evidence = (\<lambda>_ _. \<lparr>ec_event = None, ec_blocked = None\<rparr>), en_retrieval = (\<lambda>_ _. None),
      en_summary = (\<lambda>_ _. ''''), en_exception_text = (\<lambda>_. ''''), en_render_reason = (\<lambda>_. JNull),
      en_gate_message = (\<lambda>_ _. ''''), en_report_details = (\<lambda>_. []),
      en_attribution_details = (\<lambda>_. None)\<rparr>"

lemma default_project_simps [simp]:
  "project_type default_project_state = DEFAULT_PROJECT_TYPE"
  "kill_switch_active default_project_state = False"
  "metered default_project_state"
  "calls_counted default_project_state = 0"
  "call_cap default_project_state = 100"
  "phase_status default_project_state =
     (\<lambda>p. if p \<in> set STRATEGIC_AUDIT_PHASE_SEQUENCE then Some PENDING else None)"
  "hypotheses_out default_project_state = None"
  by (simp_all add: default_project_defs metered_def calls_counted_def call_cap_def consumption_def
      state_caps_def default_caps_dict_def default_consumed_dict_def caps_from_dict_def
      consumed_from_dict_def)

lemma cleared_has_no_output: "\<not> phase_has_output (clear_phase_authoritative_output s p) p"
  by (auto simp: clear_phase_authoritative_output_def phase_has_output_def Let_def raw_nonempty_def
      split: option.splits)

lemma prerequisite_failure_no_output:
  assumes "record_prerequisite_failure env s p reason = Ok t"
    and "get_workflow_phase_sequence (PT_Str (project_type s)) = Ok seq" "p \<in> set seq"
  shows "\<not> phase_has_output t p"
proof -
  let ?s0 = "clear_phase_authoritative_output s p"
  obtain pre post where seq: "seq = pre @ p # post" using assms(3) by (meson split_list)
  obtain s1 ivs where s1: "invalidate_downstream ?s0 p = Ok (s1, ivs)"
    using assms(1) by (auto simp: record_prerequisite_failure_def split: sum.splits)
  have seq0: "get_workflow_phase_sequence (PT_Str (project_type ?s0)) = Ok (pre @ p # post)"
    using assms(2) seq by simp
  have dist: "distinct (pre @ p # post)" using get_sequence_Ok [OF seq0] by blast
  have k1: "kept ?s0 s1 p" using invalidate_downstream_kept [OF s1 seq0] by blast
  have loop: "invalidate_loop ?s0 post = (s1, ivs)"
    using s1 seq0 distinct_split_after [OF dist] last_phase_collects_nothing [OF seq0]
    by (auto simp: invalidate_downstream_def get_downstream_phases_def split: if_splits)
  have "distinct post" "p \<notin> set post" using dist by auto
  then have "p \<notin> set ivs" using invalidate_loop_listed [OF loop] by auto
  note k2 = kept_clear_fold [OF this, of s1]
  have "phase_has_output t p = phase_has_output s1 p"
    using assms(1) s1 k2 by (auto simp: record_prerequisite_failure_def Let_def kept_def)
  with k1 cleared_has_no_output show ?thesis by (simp add: kept_def)
qed

lemma blocked_run:
  assumes "prerequisites_missing s p \<noteq> []" "run_phase_node env s p = Ok t"
  shows "record_prerequisite_failure env s p (prerequisite_reason (prerequisites_missing s p)) = Ok t"
proof -
  have "p \<noteq> ''strategy''"
    using assms(1) by (auto simp: prerequisites_missing_def STRATEGIC_PHASE_PREREQUISITES_def)
  with assms show ?thesis
    by (auto simp: run_phase_node_def enter_phase_def Let_def map_result_def split: sum.splits)
qed

lemma failure_category:
  "p \<noteq> [] \<Longrightarrow> map_option fd_category (phase_failure_details (record_phase_failure env s p c m) p) =
     Some (sanitize_phase_failure_text (en_redact env) 80 c)"
  by (simp add: record_phase_failure_def)

text \<open>The kill switch on a new project, for concrete runs that stop at once.\<close>

abbreviation killed_project :: project_state where
  "killed_project \<equiv> default_project_state\<lparr>kill_switch_active := True\<rparr>"

lemma killed_refused:
  fixes s :: project_state
  shows "kill_switch_active s \<Longrightarrow> \<not> gd_allowed (policy_gate (start_wall_clock s m) p r 0 0 m)"
  using charged_clock [of s m] by (simp add: gate_allowed_iff charged_def)

lemma killed_updates [simp]:
  "phase_status killed_project = phase_status default_project_state"
  "project_type killed_project = DEFAULT_PROJECT_TYPE"
  "metered killed_project" "calls_counted killed_project = 0" "call_cap killed_project = 100"
  using default_project_simps
  by (simp_all add: metered_def calls_counted_def call_cap_def consumption_def state_caps_def)

lemma sample_runs:
  "\<exists>t. run_phase_node env default_project_state p = Ok t"
  "\<exists>t. run_phase_node env killed_project p = Ok t"
  by (rule run_phase_returns [of _ STRATEGIC_AUDIT_PHASE_SEQUENCE], simp add: DEFAULT_PROJECT_TYPE_def)+

lemma sample_answers:
  "model_answers (sample_env (\<lambda>_. None)) default_project_state ''classify'' = [sample_response, sample_response]"
proof -
  let ?env = "sample_env (\<lambda>_. None)"
  have e: "enter_phase ?env default_project_state ''classify'' = Ok (Continue default_project_state)"
    by (simp add: enter_phase_def prerequisites_missing_def STRATEGIC_PHASE_PREREQUISITES_def)
  have "case gate_phase ?env default_project_state ''classify'' of Continue _ \<Rightarrow> True | Return _ \<Rightarrow> False"
    by code_simp
  then obtain s2 where g: "gate_phase ?env default_project_state ''classify'' = Continue s2"
    by (auto split: flow.splits)
  obtain s3 where st: "start_phase ?env s2 ''classify'' = Continue s3"
    by (simp add: start_phase_def consume_evidence_def PROMPT_BUILDER_PHASES_def)
  have call: "en_call ?env u p rq = sample_response" for u p rq by (simp add: sample_env_def)
  obtain s4 where "call_and_charge ?env s3 ''classify'' First_attempt = (s4, sample_response)"
    using call by (simp add: call_and_charge_def Let_def)
  moreover have "recover_payload (en_decoder ?env) (en_models ?env) ''classify'' ''Final report'' = (None, False)"
    by code_simp
  then have "repair_request ?env s4 ''classify'' sample_response = Some Json_retry"
    by (simp add: repair_request_def sample_response_def)
  ultimately show ?thesis using e g st call by (simp add: model_answers_def answers_of_def)
qed

text \<open>The same project resumed after a finished classification.\<close>

definition sample_classification :: classify_output where
  "sample_classification = \<lparr>cl_domain = ''COMPLICATED'', cl_justification = ''expert analysis'', cl_bf = 1 / 2,
     cl_variety_env = ''12'', cl_variety_sys = ''9'', cl_variety_gaps = JList [], cl_variety_decision = ''amplify'',
     cl_ooda = \<lparr>oo_observe = '''', oo_orient = '''', oo_decide = '''', oo_act = '''', oo_freq = ''''\<rparr>,
     cl_rpd_pattern = ''none'', cl_sensemaking_anchors = JList [], cl_expectancy_violations = JList [],
     cl_reference_class = ''pricing changes'', cl_dq = [], cl_maturity_assessment = '''', cl_spiral_depth = ''''\<rparr>"

abbreviation resumed_project :: project_state where
  "resumed_project \<equiv> killed_project
     \<lparr>phase_status := (phase_status default_project_state)(''classify'' \<mapsto> COMPLETED),
      classify_out := Some sample_classification\<rparr>"

lemma killed_run_stops_at:
  fixes s :: project_state
  assumes "kill_switch_active s"
    and "get_workflow_phase_sequence (PT_Str (project_type s)) = Ok (pre @ p # post)"
    and "\<forall>q \<in> set pre. settled s q" "\<not> settled s p" "p = ''classify'' \<or> p = ''hypotheses''"
  shows "\<exists>t saved. run_workflow_sequence env s = Ok (t, saved)"
proof -
  note seq = assms(2)
  have "find (phase_unfinished s) (pre @ p # post) = Some p"
    using assms(3,4) by (induction pre) (simp_all add: unfinished_iff)
  then have first: "get_first_unfinished_phase s = Ok (Some p)"
    using seq by (simp add: get_first_unfinished_phase_def workflow_phase_sequence_for_state_def map_result_def)
  obtain s1 ivs where s1: "invalidate_downstream s p = Ok (s1, ivs)"
    using invalidate_downstream_returns [OF seq] by blast
  have k: "kept s s1 p" using invalidate_downstream_kept [OF s1 seq] by blast
  have kill: "kill_switch_active s1"
    using invalidate_downstream_truncate [OF s1] assms(1) by (simp add: policy_state.defs)
  let ?s2 = "s1\<lparr>current_phase := p, phase_status := (phase_status s1)(p \<mapsto> RUNNING)\<rparr>"
  have seq2: "get_workflow_phase_sequence (PT_Str (project_type ?s2)) = Ok (pre @ p # post)"
    using seq k by (simp add: kept_def)
  obtain t where t: "run_phase_node (env p) ?s2 p = Ok t" using run_phase_returns [OF seq2] by blast
  have "\<not> gd_allowed (policy_gate (start_wall_clock ?s2 (en_monotonic (env p))) p
       (reversibility_of p) 0 0 (en_monotonic (env p)))"
    by (rule killed_refused) (simp add: kill)
  from refused_run [OF this t] have "outcome_failed t p"
    using enter_phase_return gate_phase_return assms(5) by (metis list.distinct(1))
  then have "status_of t p \<noteq> COMPLETED" by (simp add: outcome_failed_def status_of_def dict_get_def)
  moreover have "\<not> settled s1 p"
    using k assms(4) by (simp add: kept_def settled_def status_of_def dict_get_def)
  moreover have "after_phase (env p) t p = Ok t"
    using assms(5) by (elim disjE) (simp_all add: after_phase_def)
  ultimately have loop: "sequence_loop env s1 (p # post) = Ok (t, [?s2, t])"
    using t by (auto simp: settled_def Let_def)
  have "dropWhile (\<lambda>q. q \<noteq> p) (pre @ p # post) = p # post"
    using get_sequence_Ok [OF seq] by (subst dropWhile_append2) auto
  with first s1 seq k loop show ?thesis
    by (simp add: run_workflow_sequence_def workflow_phase_sequence_for_state_def kept_def)
qed

lemma killed_runs_stop:
  "\<exists>t saved. run_workflow_sequence env killed_project = Ok (t, saved)"
  "\<exists>t saved. run_workflow_sequence env resumed_project = Ok (t, saved)"
proof -
  show "\<exists>t saved. run_workflow_sequence env killed_project = Ok (t, saved)"
    by (rule killed_run_stops_at [of _ "[]" "''classify''" "tl STRATEGIC_AUDIT_PHASE_SEQUENCE"])
       (simp_all add: DEFAULT_PROJECT_TYPE_def STRATEGIC_AUDIT_PHASE_SEQUENCE_def settled_def status_of_def
          dict_get_def)
  show "\<exists>t saved. run_workflow_sequence env resumed_project = Ok (t, saved)"
    by (rule killed_run_stops_at [of _ "[''classify'']" "''hypotheses''" "tl (tl STRATEGIC_AUDIT_PHASE_SEQUENCE)"])
       (simp_all add: DEFAULT_PROJECT_TYPE_def STRATEGIC_AUDIT_PHASE_SEQUENCE_def settled_def status_of_def
          dict_get_def phase_has_output_def output_is_None_def)
qed

subsection \<open>Properties\<close>

text \<open>C1: executing a phase of a registered workflow always returns, whatever the model
  answers: the phase ends completed (full confidence, no failure recorded, its structured output
  present) or failed (no confidence, a failure recorded), and every phase that is neither the
  executed one nor after it in the sequence keeps its status and its output.\<close>

theorem phase_run_settles:
  assumes "get_workflow_phase_sequence (PT_Str (project_type s)) = Ok seq" and "p \<in> set seq"
  shows "\<exists>t. run_phase_node env s p = Ok t \<and> (outcome_completed t p \<or> outcome_failed t p) \<and>
    (\<forall>q. q \<noteq> p \<and> q \<notin> set (after p seq) \<longrightarrow> kept s t q)"
proof -
  obtain t where t: "run_phase_node env s p = Ok t" using run_phase_returns [OF assms(1)] by blast
  have "p \<noteq> []" using assms sequence_phase_nonempty by blast
  with t assms show ?thesis using run_phase_outcome [OF t] run_phase_kept [OF t] by blast
qed

theorem phase_run_settles_witness:
  "\<exists>t. run_phase_node (sample_env (\<lambda>_. None)) default_project_state ''audit'' = Ok t \<and>
     (outcome_completed t ''audit'' \<or> outcome_failed t ''audit'') \<and> status_of t ''gauntlet'' = PENDING"
proof -
  let ?seq = "STRATEGIC_AUDIT_PHASE_SEQUENCE"
  have "\<exists>t. run_phase_node (sample_env (\<lambda>_. None)) default_project_state ''audit'' = Ok t \<and>
      (outcome_completed t ''audit'' \<or> outcome_failed t ''audit'') \<and>
      (\<forall>q. q \<noteq> ''audit'' \<and> q \<notin> set (after ''audit'' ?seq) \<longrightarrow> kept default_project_state t q)"
    by (rule phase_run_settles) (simp_all add: DEFAULT_PROJECT_TYPE_def STRATEGIC_AUDIT_PHASE_SEQUENCE_def)
  then obtain t where "run_phase_node (sample_env (\<lambda>_. None)) default_project_state ''audit'' = Ok t"
    "outcome_completed t ''audit'' \<or> outcome_failed t ''audit''"
    "kept default_project_state t ''gauntlet''"
    by (fastforce simp: STRATEGIC_AUDIT_PHASE_SEQUENCE_def)
  then show ?thesis
    by (auto simp: kept_def status_of_def dict_get_def STRATEGIC_AUDIT_PHASE_SEQUENCE_def)
qed

text \<open>C5: a phase the policy gate refuses is not sent to a model: the phase ends failed, nothing
  is charged to the budget, and the result is the same whatever the model call would have
  answered.\<close>

theorem refused_phase_calls_no_model:
  assumes "\<not> gd_allowed (policy_gate (start_wall_clock s (en_monotonic env)) p
       (reversibility_of p) 0 0 (en_monotonic env))"
    and "run_phase_node env s p = Ok t" and "p \<noteq> []"
  shows "outcome_failed t p \<and> charged s t [] \<and>
    (\<forall>c. run_phase_node (env\<lparr>en_call := c\<rparr>) s p = Ok t)"
proof (intro conjI allI)
  note cases = refused_run [OF assms(1,2)]
  show "outcome_failed t p" using cases assms(3) enter_phase_return gate_phase_return by blast
  show "charged s t []" by (rule refused_charged [OF assms(1,2)])
  show "run_phase_node (env\<lparr>en_call := c\<rparr>) s p = Ok t" for c
    using cases by (auto simp: run_phase_node_def)
qed

theorem refused_phase_calls_no_model_witness:
  "\<exists>t. run_phase_node (sample_env (\<lambda>_. None)) killed_project ''classify'' = Ok t \<and>
     outcome_failed t ''classify''"
proof -
  obtain t where "run_phase_node (sample_env (\<lambda>_. None)) killed_project ''classify'' = Ok t"
    using sample_runs(2) by blast
  with refused_phase_calls_no_model [OF killed_refused this] show ?thesis by auto
qed

text \<open>C6: one phase execution charges the budget exactly for the answers of its model calls
  (their tokens, their cost and their number): none when it stops before the call, as it does when
  the policy gate refuses it; else the first attempt's answer and, where that needs a repair, the answer
  to the one repair request it calls for, asked in the state with the first one charged. Nothing
  else the policy gate reads changes.\<close>

theorem phase_run_charges:
  assumes "run_phase_node env s p = Ok t"
  shows "charged s t (model_answers env s p) \<and> length (model_answers env s p) \<le> 2 \<and>
    (model_answers env s p \<noteq> [] \<longrightarrow> gd_allowed (policy_gate (start_wall_clock s (en_monotonic env)) p
       (reversibility_of p) 0 0 (en_monotonic env)))"
proof (cases "gd_allowed (policy_gate (start_wall_clock s (en_monotonic env)) p
       (reversibility_of p) 0 0 (en_monotonic env))")
  case True
  with run_phase_charged [OF assms] model_answers_short show ?thesis by blast
next
  case False
  from refused_run [OF this assms] have "model_answers env s p = []"
    by (auto simp: model_answers_def)
  with run_phase_charged [OF assms] show ?thesis by simp
qed

theorem phase_run_charges_witness:
  "\<exists>t. run_phase_node (sample_env (\<lambda>_. None)) default_project_state ''classify'' = Ok t \<and>
     charged default_project_state t [sample_response, sample_response]"
proof -
  obtain t where "run_phase_node (sample_env (\<lambda>_. None)) default_project_state ''classify'' = Ok t"
    using sample_runs(1) by blast
  with phase_run_charges [OF this] sample_answers show ?thesis by auto
qed

text \<open>C3: a sequential run stops only where it should: afterwards no phase of the workflow is
  unfinished, or the first unfinished phase has failed, or it is the report, completed with an
  empty text.\<close>

theorem run_stops_at_first_failure:
  assumes "run_workflow_sequence env s = Ok (t, saved)"
    and "get_workflow_phase_sequence (PT_Str (project_type s)) = Ok seq"
  shows "case get_first_unfinished_phase t of
      Inl e \<Rightarrow> False
    | Inr None \<Rightarrow> True
    | Inr (Some p) \<Rightarrow> phase_status t p = Some FAILED \<or> p = ''report'' \<and> status_of t p = COMPLETED"
  using assms
proof (cases rule: run_sequence_cases)
  case 1
  with assms(2) show ?thesis
    by (simp add: get_first_unfinished_phase_def workflow_phase_sequence_for_state_def map_result_def)
next
  case (2 pre p post s1 ivs saved')
  have seq1: "get_workflow_phase_sequence (PT_Str (project_type s1)) = Ok (pre @ p # post)"
    using assms(2) 2 by simp
  have "settled s1 q" if "q \<in> set pre" for q
    using invalidate_downstream_kept [OF 2(5)] assms(2) 2(1,2) that kept_settled by blast
  with sequence_loop_stops [OF 2(7) seq1]
  have "stopped_well seq t" "project_type t = project_type s" using 2 by auto
  then show ?thesis
    using stopped_well_find assms(2)
    by (auto simp: get_first_unfinished_phase_def workflow_phase_sequence_for_state_def map_result_def
        split: option.splits)
qed

theorem run_stops_at_first_failure_witness:
  "\<exists>t saved. run_workflow_sequence (\<lambda>_. sample_env (\<lambda>_. None)) killed_project = Ok (t, saved) \<and>
     (case get_first_unfinished_phase t of
        Inl e \<Rightarrow> False
      | Inr None \<Rightarrow> True
      | Inr (Some p) \<Rightarrow> phase_status t p = Some FAILED \<or> p = ''report'' \<and> status_of t p = COMPLETED)"
proof -
  obtain t saved where r: "run_workflow_sequence (\<lambda>_. sample_env (\<lambda>_. None)) killed_project = Ok (t, saved)"
    using killed_runs_stop(1) by blast
  from run_stops_at_first_failure [OF this, of STRATEGIC_AUDIT_PHASE_SEQUENCE] r show ?thesis
    by (auto simp: DEFAULT_PROJECT_TYPE_def)
qed

text \<open>C8: a run resumes at the first unfinished phase: every phase before it keeps its status and
  its output, so finished work is neither executed again nor lost.\<close>

theorem run_keeps_finished_prefix:
  assumes "run_workflow_sequence env s = Ok (t, saved)"
    and "get_workflow_phase_sequence (PT_Str (project_type s)) = Ok seq"
  shows "\<forall>q \<in> set (takeWhile (\<lambda>q. \<not> phase_unfinished s q) seq). kept s t q"
  using assms
proof (cases rule: run_sequence_cases)
  case (2 pre p post s1 ivs saved')
  have seq1: "get_workflow_phase_sequence (PT_Str (project_type s1)) = Ok (pre @ p # post)"
    using assms(2) 2 by simp
  have "takeWhile (\<lambda>q. \<not> phase_unfinished s q) seq = pre"
    using 2 by (subst 2(1)) (simp add: takeWhile_append unfinished_iff)
  moreover have "kept s t q" if "q \<in> set pre" for q
    using invalidate_downstream_kept [OF 2(5), of pre post q] sequence_loop_kept [OF 2(7) seq1 that]
      assms(2) 2(1) that by (blast intro: kept_trans)
  ultimately show ?thesis by simp
qed simp

theorem run_keeps_finished_prefix_witness:
  "\<exists>t saved. run_workflow_sequence (\<lambda>_. sample_env (\<lambda>_. None)) resumed_project = Ok (t, saved) \<and>
     takeWhile (\<lambda>q. \<not> phase_unfinished resumed_project q) STRATEGIC_AUDIT_PHASE_SEQUENCE = [''classify''] \<and>
     status_of t ''classify'' = COMPLETED \<and> classify_out t = Some sample_classification"
proof -
  have pre: "takeWhile (\<lambda>q. \<not> phase_unfinished resumed_project q) STRATEGIC_AUDIT_PHASE_SEQUENCE = [''classify'']"
    by (simp add: STRATEGIC_AUDIT_PHASE_SEQUENCE_def unfinished_iff settled_def status_of_def
        dict_get_def phase_has_output_def output_is_None_def)
  obtain t saved where r: "run_workflow_sequence (\<lambda>_. sample_env (\<lambda>_. None)) resumed_project = Ok (t, saved)"
    using killed_runs_stop(2) by blast
  from run_keeps_finished_prefix [OF this, of STRATEGIC_AUDIT_PHASE_SEQUENCE] pre
  have "kept resumed_project t ''classify''" by (simp add: DEFAULT_PROJECT_TYPE_def)
  with r pre show ?thesis
    by (simp add: kept_def output_of_def status_of_def dict_get_def)
qed

text \<open>A sequential run counts at most two model calls per phase of the workflow and goes past
  the call cap by at most one: the gate is asked before a phase, and its repair response is
  counted even when the gateway refused that call.\<close>

theorem run_respects_call_cap:
  assumes "run_workflow_sequence env s = Ok (t, saved)"
    and "get_workflow_phase_sequence (PT_Str (project_type s)) = Ok seq"
    and "metered s"
  shows "calls_counted t \<le> calls_counted s + 2 * int (length seq) \<and>
    calls_counted t \<le> max (calls_counted s) (call_cap s + 1)"
  using assms(1,2)
proof (cases rule: run_sequence_cases)
  case (2 pre p post s1 ivs saved')
  have c1: "charged s s1 []" using invalidate_downstream_truncate [OF 2(5)] by (rule charged_truncate)
  note k1 = charged_counts [OF c1 assms(3)]
  obtain rs where rs: "length rs \<le> 2 * length (p # post)" "charged s1 t rs"
    using sequence_loop_charged [OF 2(7)] by blast
  have "int (length rs) \<le> 2 * int (length seq)" using rs(1) 2(1) by simp
  with charged_counts [OF rs(2) k1(1)] sequence_loop_counts [OF 2(7) k1(1)] k1 show ?thesis by simp
qed simp

theorem run_respects_call_cap_witness:
  "\<exists>t saved. run_workflow_sequence (\<lambda>_. sample_env (\<lambda>_. None)) killed_project = Ok (t, saved) \<and>
     calls_counted t \<le> 16"
proof -
  obtain t saved where r: "run_workflow_sequence (\<lambda>_. sample_env (\<lambda>_. None)) killed_project = Ok (t, saved)"
    using killed_runs_stop(1) by blast
  from run_respects_call_cap [OF this, of STRATEGIC_AUDIT_PHASE_SEQUENCE] r show ?thesis
    by (auto simp: DEFAULT_PROJECT_TYPE_def STRATEGIC_AUDIT_PHASE_SEQUENCE_def)
qed

text \<open>C9: sqi, monitor and report never run on a missing prerequisite: while the strategy (for the
  report also the monitor) is not completed with its output, the phase fails without output and
  without a model call, and the failure is a prerequisite failure.\<close>

theorem missing_prerequisite_blocks:
  assumes "prerequisites_missing s p \<noteq> []" and "run_phase_node env s p = Ok t"
    and "get_workflow_phase_sequence (PT_Str (project_type s)) = Ok seq" and "p \<in> set seq"
  shows "outcome_failed t p \<and> \<not> phase_has_output t p \<and> charged s t [] \<and>
    map_option fd_category (phase_failure_details t p) =
      Some (sanitize_phase_failure_text (en_redact env) 80 ''prerequisite_failed'')"
proof -
  note rec = blocked_run [OF assms(1,2)]
  have p: "p \<noteq> []" using assms(3,4) sequence_phase_nonempty by blast
  obtain u where "t = record_phase_failure env u p ''prerequisite_failed''
      (''Phase prerequisite not met: '' @ prerequisite_reason (prerequisites_missing s p) @ ''.'')"
    using rec by (auto simp: record_prerequisite_failure_def Let_def split: sum.splits)
  with failure_category [OF p] have "map_option fd_category (phase_failure_details t p) =
      Some (sanitize_phase_failure_text (en_redact env) 80 ''prerequisite_failed'')" by simp
  with record_prerequisite_failure_outcome [OF p rec] charged_prerequisite [OF rec]
    prerequisite_failure_no_output [OF rec assms(3,4)]
  show ?thesis by blast
qed

theorem missing_prerequisite_blocks_witness:
  "\<exists>t. run_phase_node (sample_env (\<lambda>_. None)) default_project_state ''report'' = Ok t \<and>
     outcome_failed t ''report'' \<and> charged default_project_state t []"
proof -
  obtain t where t: "run_phase_node (sample_env (\<lambda>_. None)) default_project_state ''report'' = Ok t"
    using sample_runs(1) by blast
  have "prerequisites_missing default_project_state ''report'' \<noteq> []"
    by (simp add: prerequisites_missing_def STRATEGIC_PHASE_PREREQUISITES_def status_of_def
        dict_get_def STRATEGIC_AUDIT_PHASE_SEQUENCE_def)
  from missing_prerequisite_blocks [OF this t, of STRATEGIC_AUDIT_PHASE_SEQUENCE] t show ?thesis
    by (simp add: DEFAULT_PROJECT_TYPE_def STRATEGIC_AUDIT_PHASE_SEQUENCE_def)
qed

end
