(* ===== verification/Graph.thy ===== *)
theory Graph
  imports Execution
begin

text \<open>
  The graph of \<open>build_workflow_graph\<close>: which phase a node leaves current, and where the gates
  and the re-entry check lead from there. Three behaviours recorded here differ from what the
  code's comments promise: the exit gate after a gauntlet run has no edge, a fired trigger is
  acted on again at every later re-entry check, and a hypotheses answer without one valid item
  completes the phase with the hypotheses of the previous run.
\<close>

subsection \<open>The current phase\<close>

lemma current_phase_policy [simp]:
  "current_phase (log_policy_event s e d now) = current_phase s"
  "current_phase (record_consumption_to_state s a c ok) = current_phase s"
  "current_phase (start_wall_clock s m) = current_phase s"
  by (simp_all add: log_policy_event_def record_consumption_to_state_def start_wall_clock_def
      split: option.splits)

lemma current_phase_failure [simp]:
  "current_phase (record_phase_failure env s p c m) = current_phase s"
  "current_phase (fail_phase env s p c m) = current_phase s"
  "current_phase (complete_phase s p) = current_phase s"
  "current_phase (keep_raw s p x) = current_phase s"
  "current_phase (finish_phase env s p) = current_phase s"
  by (simp_all add: record_phase_failure_def fail_phase_def complete_phase_def
      clear_phase_failure_def keep_raw_def finish_phase_def Let_def)

lemma current_phase_call: "call_and_charge env s p rq = (t, r) \<Longrightarrow> current_phase t = current_phase s"
  by (auto simp: call_and_charge_def Let_def)

lemma current_phase_store:
  "store_phase_output de mo s p v = Ok t \<Longrightarrow> current_phase t = current_phase s"
  using stored_frame [OF store_phase_output_stored] current_phase_truncate by metis

lemma current_phase_parse: "current_phase (jp_state (parse_or_retry env s p r)) = current_phase s"
  by (auto simp: parse_or_retry_def Let_def current_phase_call split: prod.splits)

lemma current_phase_schema_retry:
  "current_phase (jp_state (schema_retry env p j)) = current_phase (jp_state j)"
  by (auto simp: schema_retry_def Let_def current_phase_store current_phase_call
      split: prod.splits option.splits sum.splits)

lemma current_phase_store_or_retry:
  "current_phase (jp_state (store_or_retry env p j)) = current_phase (jp_state j)"
  by (auto simp: store_or_retry_def current_phase_store current_phase_schema_retry split: sum.splits)

lemma current_phase_conclude [simp]:
  "current_phase (conclude_json env p j) = current_phase (jp_state j)"
  "current_phase (conclude_report env s r) = current_phase s"
  "current_phase (fail_response env s p r) = current_phase s"
  by (auto simp: conclude_json_def conclude_report_def fail_response_def Let_def
      split: prod.splits option.splits)

lemma current_phase_execute: "current_phase (execute_phase env s p) = current_phase s"
proof -
  obtain s1 r where c: "call_and_charge env s p First_attempt = (s1, r)"
    by (cases "call_and_charge env s p First_attempt")
  then show ?thesis
    by (simp add: execute_phase_def current_phase_call [OF c] current_phase_store_or_retry
        current_phase_parse)
qed

lemma current_phase_start:
  "start_phase env s p = Return t \<or> start_phase env s p = Continue t \<Longrightarrow> current_phase t = p"
  by (auto simp: start_phase_def consume_evidence_def Let_def split: if_splits option.splits prod.splits)

text \<open>A phase that completed was started, and is the current one.\<close>

lemma completed_is_current:
  assumes "run_phase_node env s p = Ok t" "p \<noteq> []" "phase_status t p = Some COMPLETED"
  shows "current_phase t = p"
proof -
  have "\<not> outcome_failed t p" using assms(3) by (simp add: outcome_failed_def)
  then have "enter_phase env s p \<noteq> Ok (Return t)" "\<And>s1. gate_phase env s1 p \<noteq> Return t"
    using enter_phase_return gate_phase_return assms(2) by blast+
  with assms(1) obtain s2 where "start_phase env s2 p = Return t \<or>
      (\<exists>s3. start_phase env s2 p = Continue s3 \<and> t = execute_phase env s3 p)"
    by (auto simp: run_phase_node_def split: sum.splits flow.splits)
  then show ?thesis using current_phase_start current_phase_execute by metis
qed

subsection \<open>Routes\<close>

lemma gauntlet_gate_open: "check_gate s ''gauntlet'' = \<lparr>gr_passed = True, gr_blocking = [], gr_confidence = 1\<rparr>"
  by (simp add: check_gate_def GATE_CONFIGS_def)

lemma route_from_gauntlet:
  "current_phase s = ''gauntlet'' \<Longrightarrow> phase_status s ''gauntlet'' \<noteq> Some FAILED \<Longrightarrow>
     route_after_gate (convergence_gate_node s) =
       (convergence_gate_node s, ''classify'')"
  by (simp add: route_after_gate_def convergence_gate_node_def Let_def gauntlet_gate_open PHASE_ORDER_def)

lemma reentry_step [simp]:
  "reentry_triggers_fired (invalidate_step s p) = reentry_triggers_fired s"
  by (simp add: invalidate_step_def clear_material_def set_output_None_def Let_def)

lemma reentry_loop: "reentry_triggers_fired (fst (invalidate_loop s ps)) = reentry_triggers_fired s"
  by (induction ps arbitrary: s) (simp_all add: split_beta)

lemma reentry_downstream:
  "invalidate_downstream s p = Ok (t, ivs) \<Longrightarrow> reentry_triggers_fired t = reentry_triggers_fired s"
  using reentry_loop by (auto simp: invalidate_downstream_def split: sum.splits) (metis fst_conv)+

subsection \<open>A phase that is answered at the first attempt\<close>

text \<open>The answered run: the gate is open, the payload has the phase's shape and is stored.\<close>

lemma execute_answered:
  assumes "lr_ok (en_call env s p First_attempt)" "p \<noteq> ''report''"
    and "recover_payload (en_decoder env) (en_models env) p
           (lr_text (en_call env s p First_attempt)) = (Some v, True)"
    and "parsed_json_matches_phase p (Some v)"
    and "call_and_charge env s p First_attempt = (s1, en_call env s p First_attempt)"
    and "store_phase_output (en_decoder env) (en_models env) s1 p v = Ok s2"
    and "phase_has_output s2 p"
  shows "phase_status (execute_phase env s p) p = Some COMPLETED \<and>
    hypotheses_out (execute_phase env s p) = hypotheses_out s2"
  using assms
  by (simp add: execute_phase_def parse_or_retry_def store_or_retry_def conclude_json_def Let_def
      finish_phase_def complete_phase_def clear_phase_failure_def)

lemma recover_shaped:
  assumes "parse_json (de_loads de) t = Some v" "p \<notin> set TECHNOLOGY_READINESS_PHASE_SEQUENCE"
    and "parsed_json_matches_phase p (Some v)"
  shows "recover_payload de mo p t = (Some v, True)"
proof -
  have "v \<noteq> JNull" using assms(3) by (auto simp: parsed_json_matches_phase_def py_none_def)
  then show ?thesis
    using assms by (simp add: recover_payload_def parse_phase_json_def py_none_def Let_def
        repair_technology_readiness_top_level_payload_def)
qed

lemma parse_whole_text: "t \<noteq> [] \<Longrightarrow> loads (py_strip t) = Some v \<Longrightarrow> parse_json loads t = Some v"
  by (simp add: parse_json_def first_json_root_def)

lemma call_and_charge_hypotheses [simp]:
  "call_and_charge env s p rq = (t, r) \<Longrightarrow> hypotheses_out t = hypotheses_out s"
  by (auto simp: call_and_charge_def Let_def)

subsection \<open>Sample runs\<close>

definition sample_gauntlet :: gauntlet_output where
  "sample_gauntlet = \<lparr>ga_results = [], ga_portfolio_correlation = 0, ga_mece_gaps = '''',
     ga_thompson_priority = '''', ga_evoi_ranking = ''''\<rparr>"

definition sample_hypothesis :: hypothesis where
  "sample_hypothesis = \<lparr>hy_id = ''H1'', hy_text = ''Demand grows'', hy_justification = '''',
     hy_signal = '''', hy_alpha = 1, hy_beta = 1, hy_confirm = '''', hy_reject = '''', hy_evoi = '''',
     hy_portfolio_cluster = '''', hy_status = '''', hy_evidence_ids = []\<rparr>"

definition gauntlet_env :: orchestrator_env where
  "gauntlet_env = (sample_env (\<lambda>_. Some (JObj [])))\<lparr>en_models :=
     (en_models (sample_env (\<lambda>_. None)))\<lparr>mo_gauntlet := (\<lambda>_. Ok sample_gauntlet)\<rparr>\<rparr>"

lemma default_gate_open [simp]:
  "gd_allowed (policy_gate default_project_state p REVERSIBLE_INTERNAL 0 0 m)"
  by (simp add: gate_allowed_iff budget_permits_def breaker_open_def approval_missing_def
      default_project_defs within_caps_def wall_clock_elapsed_def default_policy_defs)

lemma default_clock_gate_open:
  "gd_allowed (policy_gate (start_wall_clock default_project_state 0) ''gauntlet'' REVERSIBLE_INTERNAL 0 0 0)"
  by (simp add: gate_allowed_iff budget_permits_def breaker_open_def approval_missing_def
      default_project_defs within_caps_def wall_clock_elapsed_def default_policy_defs
      start_wall_clock_def consumed_from_dict_def)

lemma gauntlet_run_completes:
  "\<exists>t. run_phase_node gauntlet_env default_project_state ''gauntlet'' = Ok t \<and>
     phase_status t ''gauntlet'' = Some COMPLETED"
proof -
  let ?s = "start_wall_clock default_project_state 0"
  let ?u = "?s\<lparr>phase_status := (phase_status ?s)(''gauntlet'' \<mapsto> RUNNING), current_phase := ''gauntlet''\<rparr>"
  have t: "''gauntlet'' \<notin> set TECHNOLOGY_READINESS_PHASE_SEQUENCE"
    by (simp add: TECHNOLOGY_READINESS_PHASE_SEQUENCE_def)
  have e: "enter_phase gauntlet_env default_project_state ''gauntlet'' = Ok (Continue default_project_state)"
    by (simp add: enter_phase_def prerequisites_missing_def STRATEGIC_PHASE_PREREQUISITES_def)
  have g: "gate_phase gauntlet_env default_project_state ''gauntlet'' = Continue ?s"
    using default_clock_gate_open
    by (simp add: gate_phase_def phase_gate_def sanitize_intake_def gauntlet_env_def sample_env_def
        reversibility_of_def dict_get_def PHASE_ACTION_MAP_def)
  have st: "start_phase gauntlet_env ?s ''gauntlet'' = Continue ?u"
    by (simp add: start_phase_def consume_evidence_def PROMPT_BUILDER_PHASES_def)
  obtain u1 r where c: "call_and_charge gauntlet_env ?u ''gauntlet'' First_attempt = (u1, r)"
    by (cases "call_and_charge gauntlet_env ?u ''gauntlet'' First_attempt")
  have r: "en_call gauntlet_env ?u ''gauntlet'' First_attempt = sample_response"
    by (simp add: gauntlet_env_def sample_env_def)
  with c have c': "call_and_charge gauntlet_env ?u ''gauntlet'' First_attempt = (u1, sample_response)"
    using charged_call [OF c] by simp
  have p: "parse_json (de_loads (en_decoder gauntlet_env)) (lr_text sample_response) = Some (JObj [])"
    by (rule parse_whole_text) (simp_all add: gauntlet_env_def sample_env_def sample_response_def)
  have m: "parsed_json_matches_phase ''gauntlet'' (Some (JObj []))"
    using t by (simp add: parsed_json_matches_phase_def py_none_def is_obj_def)
  have s: "store_phase_output (en_decoder gauntlet_env) (en_models gauntlet_env) u1 ''gauntlet'' (JObj []) =
      Ok (u1\<lparr>gauntlet_out := Some sample_gauntlet\<rparr>)"
    by (simp add: store_phase_output_def construct_model_def map_result_def gauntlet_env_def)
  have "phase_status (execute_phase gauntlet_env ?u ''gauntlet'') ''gauntlet'' = Some COMPLETED"
    using execute_answered [of gauntlet_env ?u "''gauntlet''" "JObj []" u1] recover_shaped [OF p t m]
      c' r s m
    by (simp add: phase_has_output_def sample_response_def)
  with e g st show ?thesis by (simp add: run_phase_node_def)
qed

subsection \<open>Properties\<close>

text \<open>After a gauntlet run the exit gate of the hypotheses node has no edge to follow: the
  completed gauntlet is the current phase, no gate is configured for it, and the route the gate
  returns, classify, is not one of the conditional edges of the node.\<close>

theorem gauntlet_exit_has_no_edge:
  assumes "run_phase_node env s ''gauntlet'' = Ok t" "phase_status t ''gauntlet'' = Some COMPLETED"
  shows "graph_step env' N_hypotheses_gate t = Err (Unmapped N_hypotheses_gate ''classify'')"
proof -
  have "current_phase t = ''gauntlet''" using completed_is_current [OF assms(1) _ assms(2)] by simp
  with route_from_gauntlet assms(2) show ?thesis by (simp add: follow_def gate_edges_def)
qed

theorem gauntlet_exit_has_no_edge_witness:
  "\<exists>t. run_phase_node gauntlet_env default_project_state ''gauntlet'' = Ok t \<and>
     graph_step gauntlet_env N_hypotheses_gate t = Err (Unmapped N_hypotheses_gate ''classify'')"
proof -
  obtain t where "run_phase_node gauntlet_env default_project_state ''gauntlet'' = Ok t"
    "phase_status t ''gauntlet'' = Some COMPLETED"
    using gauntlet_run_completes by blast
  with gauntlet_exit_has_no_edge [OF this] show ?thesis by blast
qed

text \<open>An answer without one valid hypothesis completes a rerun of the hypotheses phase and
  keeps the hypotheses of the previous run as its output.\<close>

theorem invalid_hypotheses_keep_the_old:
  assumes "lr_ok (en_call env s ''hypotheses'' First_attempt)"
    and "recover_payload (en_decoder env) (en_models env) ''hypotheses''
           (lr_text (en_call env s ''hypotheses'' First_attempt)) = (Some (JList items), True)"
    and "valid_hypotheses (en_models env) items = []"
    and "hypotheses_out s = Some (h # hs)"
  shows "phase_status (execute_phase env s ''hypotheses'') ''hypotheses'' = Some COMPLETED \<and>
    hypotheses_out (execute_phase env s ''hypotheses'') = Some (h # hs)"
proof -
  obtain s1 where c: "call_and_charge env s ''hypotheses'' First_attempt =
      (s1, en_call env s ''hypotheses'' First_attempt)"
    using charged_call by (cases "call_and_charge env s ''hypotheses'' First_attempt") blast
  have h: "hypotheses_out s1 = Some (h # hs)" using call_and_charge_hypotheses [OF c] assms(4) by simp
  have "store_phase_output (en_decoder env) (en_models env) s1 ''hypotheses'' (JList items) = Ok s1"
    using assms(3) by (simp add: store_phase_output_def store_hypotheses_def)
  moreover have "parsed_json_matches_phase ''hypotheses'' (Some (JList items))"
    by (simp add: parsed_json_matches_phase_def py_none_def is_list_def)
  moreover have "phase_has_output s1 ''hypotheses''" using h by (simp add: phase_has_output_def)
  ultimately show ?thesis
    using execute_answered [OF assms(1) _ assms(2) _ c] h by simp
qed

theorem invalid_hypotheses_keep_the_old_witness:
  "hypotheses_out (execute_phase (sample_env (\<lambda>_. Some (JList [])))
     (default_project_state\<lparr>hypotheses_out := Some [sample_hypothesis]\<rparr>) ''hypotheses'') =
     Some [sample_hypothesis]"
proof -
  let ?env = "sample_env (\<lambda>_. Some (JList []))"
  have p: "parse_json (de_loads (en_decoder ?env)) (lr_text sample_response) = Some (JList [])"
    by (rule parse_whole_text) (simp_all add: sample_env_def sample_response_def)
  have "recover_payload (en_decoder ?env) (en_models ?env) ''hypotheses'' (lr_text sample_response) =
      (Some (JList []), True)"
    by (rule recover_shaped [OF p])
       (simp_all add: TECHNOLOGY_READINESS_PHASE_SEQUENCE_def parsed_json_matches_phase_def
          py_none_def is_list_def)
  moreover have "en_call ?env u q rq = sample_response" for u q rq by (simp add: sample_env_def)
  moreover have "lr_ok sample_response" by (simp add: sample_response_def)
  ultimately show ?thesis
    using invalid_hypotheses_keep_the_old [of ?env
        "default_project_state\<lparr>hypotheses_out := Some [sample_hypothesis]\<rparr>" "[]" sample_hypothesis "[]"]
    by simp
qed

text \<open>A fired trigger is acted on again at every later re-entry check: although nothing fires
  now, the check goes back to the target of the last trigger ever fired, never on to the
  monitor, and leaves the list of fired triggers as it was for the next check.\<close>

theorem fired_trigger_reenters_again:
  assumes "evaluate_reentry_triggers s = Ok []" and "reentry_triggers_fired s \<noteq> []"
    and "ft_target (last (reentry_triggers_fired s)) \<in> {''classify'', ''hypotheses'', ''audit'', ''strategy''}"
    and "get_workflow_phase_sequence (PT_Str (project_type s)) = Ok seq"
  shows "\<exists>n t. graph_step env N_reentry_check s = Ok (n, t) \<and>
    n \<in> {N_classify, N_hypotheses, N_audit, N_strategy} \<and>
    reentry_triggers_fired t = reentry_triggers_fired s"
proof -
  let ?target = "ft_target (last (reentry_triggers_fired s))"
  obtain t ivs where t: "invalidate_downstream s ?target = Ok (t, ivs)"
    using invalidate_downstream_returns [OF assms(4)] by blast
  have "?target \<in> set PHASE_ORDER" using assms(3) by (auto simp: PHASE_ORDER_def)
  with t assms(2) have "route_after_reentry s = Ok (t, ?target)"
    by (simp add: route_after_reentry_def map_result_def)
  moreover have "record_triggers env s = Ok s" using assms(1) by (simp add: record_triggers_def map_result_def)
  moreover have "\<exists>n \<in> {N_classify, N_hypotheses, N_audit, N_strategy}.
      gate_edges N_reentry_check ?target = Some n"
    using assms(3) by (auto simp: gate_edges_def)
  ultimately show ?thesis using reentry_downstream [OF t] by (auto simp: follow_def)
qed

theorem fired_trigger_reenters_again_witness:
  "\<exists>n t. graph_step (sample_env (\<lambda>_. None)) N_reentry_check
       (default_project_state\<lparr>reentry_triggers_fired := [fire ''R5'' (All_rejected 3)]\<rparr>) = Ok (n, t) \<and>
     n \<noteq> N_monitor \<and> reentry_triggers_fired t = [fire ''R5'' (All_rejected 3)]"
proof -
  let ?s = "default_project_state\<lparr>reentry_triggers_fired := [fire ''R5'' (All_rejected 3)]\<rparr>"
  have "evaluate_reentry_triggers ?s = Ok []"
    by (simp add: evaluate_reentry_triggers_def default_project_defs verdicts_of_def futility_triggers_def)
  moreover have "ft_target (last (reentry_triggers_fired ?s)) = ''hypotheses''"
    by (simp add: fire_def REENTRY_TRIGGERS_def)
  ultimately obtain n t where "graph_step (sample_env (\<lambda>_. None)) N_reentry_check ?s = Ok (n, t)"
    "n \<in> {N_classify, N_hypotheses, N_audit, N_strategy}"
    "reentry_triggers_fired t = reentry_triggers_fired ?s"
    using fired_trigger_reenters_again [of ?s STRATEGIC_AUDIT_PHASE_SEQUENCE "sample_env (\<lambda>_. None)"]
    by (auto simp: DEFAULT_PROJECT_TYPE_def)
  then show ?thesis by auto
qed

end
