(* ===== verification/Routing.thy ===== *)
theory Routing
  imports Config
begin

text \<open>
  Model selection (\<open>mas/runtime/provider_gateway.py\<close> and the contracts of
  \<open>mas/extensions/runtime.py\<close>): which provider and model candidates a phase's call tries, in
  which order. An invalid alias or configuration raises, so the functions return a sum.
\<close>

subsection \<open>Contracts\<close>

record routing_context =
  rx_phase :: phase
  rx_task_type :: string
  rx_complexity_hint :: string
  rx_risk_classification :: string
  rx_explicit_model :: string

definition routing_context_for :: "phase \<Rightarrow> routing_context" where
  "routing_context_for p =
     \<lparr>rx_phase = p, rx_task_type = '''', rx_complexity_hint = '''',
      rx_risk_classification = ''minimal_risk'', rx_explicit_model = ''''\<rparr>"

record provider_selection =
  ps_provider :: string
  ps_model :: string
  ps_reason :: string
  ps_task_profile :: string

record routing_config =
  rt_default_provider :: string
  rt_routing_strategy :: string
  rt_cache_enabled :: bool
  rt_cache_ttl_seconds :: int
  rt_phase_overrides :: "phase \<rightharpoonup> string"
  rt_complexity_routes :: "string \<rightharpoonup> string"
  rt_task_profile_candidates :: "string \<rightharpoonup> string list"

type_synonym candidate = "model_config \<times> provider_selection"

datatype gateway_error =
    Unknown_provider string
  | Invalid_config config_error
  | No_supported_candidate

subsection \<open>Configuration of the process\<close>

definition runtime_routing_config :: "runtime_layer_config \<Rightarrow> routing_config" where
  "runtime_routing_config layer =
     \<lparr>rt_default_provider = provider_value (default_provider layer),
      rt_routing_strategy = routing_strategy layer, rt_cache_enabled = cache_enabled layer,
      rt_cache_ttl_seconds = cache_ttl_seconds layer,
      rt_phase_overrides = phase_model_overrides layer,
      rt_complexity_routes = complexity_model_overrides layer,
      rt_task_profile_candidates =
        TASK_PROFILE_MODEL_CANDIDATES ++ task_profile_model_candidates layer\<rparr>"

definition task_profile_for_phase :: "phase \<Rightarrow> string" where
  "task_profile_for_phase p = dict_get TASK_PROFILE_BY_PHASE p (the (TASK_PROFILE_BY_PHASE ''audit''))"

definition phase_default_config :: "phase \<Rightarrow> model_config" where
  "phase_default_config p = dict_get MODEL_ROUTING p (the (MODEL_ROUTING ''audit''))"

subsection \<open>Aliases\<close>

definition infer_provider :: "string \<Rightarrow> provider option" where
  "infer_provider model =
     (let name = py_lower model
      in if contains ''claude'' name then Some ANTHROPIC
         else if starts_with ''gpt'' name then Some OPENAI else None)"

definition provider_of_value :: "string \<Rightarrow> (gateway_error, provider) result" where
  "provider_of_value v =
     (if v = provider_value ANTHROPIC then Ok ANTHROPIC
      else if v = provider_value OPENAI then Ok OPENAI else Err (Unknown_provider v))"

definition construct_config :: "model_config \<Rightarrow> (gateway_error, model_config) result" where
  "construct_config m =
     (case model_config_post_init m of Inl e \<Rightarrow> Err (Invalid_config e) | Inr m' \<Rightarrow> Ok m')"

text \<open>A candidate of another provider keeps the limits of \<open>base\<close> but not its Anthropic-only controls.\<close>

definition derived_config :: "provider \<Rightarrow> string \<Rightarrow> model_config \<Rightarrow> (gateway_error, model_config) result" where
  "derived_config p model base =
     construct_config
       \<lparr>mc_provider = p, mc_model = model, mc_max_tokens = mc_max_tokens base,
        mc_temperature = mc_temperature base,
        mc_thinking_budget = (if p = ANTHROPIC then mc_thinking_budget base else 0),
        mc_min_response_tokens = (if p = ANTHROPIC then mc_min_response_tokens base else None)\<rparr>"

definition config_from_model_alias ::
  "string \<Rightarrow> model_config \<Rightarrow> string \<Rightarrow> (gateway_error, model_config) result" where
  "config_from_model_alias alias base default_prov =
     (case split_first CHR '':'' alias of
        Some (provider_name, model) \<Rightarrow>
          (case provider_of_value (py_strip provider_name) of
             Inl e \<Rightarrow> Err e
           | Inr p \<Rightarrow> derived_config p (py_strip model) base)
      | None \<Rightarrow>
          (case infer_provider alias of
             Some p \<Rightarrow> derived_config p alias base
           | None \<Rightarrow>
               (case provider_of_value (py_or default_prov (provider_value (mc_provider base))) of
                  Inl e \<Rightarrow> Err e
                | Inr p \<Rightarrow> derived_config p alias base)))"

subsection \<open>Candidates\<close>

definition select_as :: "model_config \<Rightarrow> string \<Rightarrow> string \<Rightarrow> candidate" where
  "select_as m reason profile =
     (m, \<lparr>ps_provider = provider_value (mc_provider m), ps_model = mc_model m,
          ps_reason = reason, ps_task_profile = profile\<rparr>)"

fun alias_candidates ::
  "model_config \<Rightarrow> string \<Rightarrow> string \<Rightarrow> string list \<Rightarrow> (gateway_error, candidate list) result" where
  "alias_candidates base default_prov profile [] = Ok []"
| "alias_candidates base default_prov profile (a # as) =
     (let alias = py_strip a
      in if alias = '''' then alias_candidates base default_prov profile as
         else case (if alias = ''phase_default'' then Ok (base, ''phase_default'')
                    else case config_from_model_alias alias base default_prov of
                           Inl e \<Rightarrow> Err e | Inr m \<Rightarrow> Ok (m, ''task_profile:'' @ profile)) of
                Inl e \<Rightarrow> Err e
              | Inr (m, reason) \<Rightarrow>
                  (case alias_candidates base default_prov profile as of
                     Inl e \<Rightarrow> Err e | Inr cs \<Rightarrow> Ok (select_as m reason profile # cs)))"

fun chain_candidates ::
  "model_config \<Rightarrow> string \<Rightarrow> (provider \<times> string) list \<Rightarrow> (gateway_error, candidate list) result" where
  "chain_candidates base profile [] = Ok []"
| "chain_candidates base profile ((p, model) # rest) =
     (case derived_config p model base of
        Inl e \<Rightarrow> Err e
      | Inr m \<Rightarrow>
          (case chain_candidates base profile rest of
             Inl e \<Rightarrow> Err e
           | Inr cs \<Rightarrow> Ok (select_as m (''fallback_chain:'' @ provider_value p) profile # cs)))"

definition fallback_models :: "provider \<Rightarrow> (provider \<times> string) list" where
  "fallback_models p =
     map (Pair p) (FALLBACK_CHAIN p) @
     (let q = (if p = ANTHROPIC then OPENAI else ANTHROPIC) in map (Pair q) (FALLBACK_CHAIN q))"

definition profile_and_chain_candidates ::
  "model_config \<Rightarrow> routing_config \<Rightarrow> string \<Rightarrow> (gateway_error, candidate list) result" where
  "profile_and_chain_candidates base rt profile =
     (let aliases = (case rt_task_profile_candidates rt profile of
                       Some as \<Rightarrow> as
                     | None \<Rightarrow> dict_get TASK_PROFILE_MODEL_CANDIDATES profile [])
      in case alias_candidates base (rt_default_provider rt) profile aliases of
           Inl e \<Rightarrow> Err e
         | Inr cs \<Rightarrow>
             (case chain_candidates base profile (fallback_models (mc_provider base)) of
                Inl e \<Rightarrow> Err e | Inr ds \<Rightarrow> Ok (cs @ ds)))"

definition candidate_id :: "candidate \<Rightarrow> string \<times> string" where
  "candidate_id c = (provider_value (mc_provider (fst c)), mc_model (fst c))"

definition dedupe_candidates :: "candidate list \<Rightarrow> candidate list" where
  "dedupe_candidates = dedupe_key candidate_id {}"

definition preferred_model :: "phase \<Rightarrow> routing_context \<Rightarrow> routing_config \<Rightarrow> string \<times> string" where
  "preferred_model p rx rt =
     (if rx_explicit_model rx \<noteq> '''' then (rx_explicit_model rx, ''explicit_model'')
      else if dict_get (rt_phase_overrides rt) p '''' \<noteq> ''''
      then (dict_get (rt_phase_overrides rt) p '''', ''phase_override'')
      else if rx_complexity_hint rx \<noteq> '''' \<and>
              dict_get (rt_complexity_routes rt) (rx_complexity_hint rx) '''' \<noteq> ''''
      then (dict_get (rt_complexity_routes rt) (rx_complexity_hint rx) '''',
            ''complexity:'' @ rx_complexity_hint rx)
      else ('''', ''phase_routing''))"

definition select_model_candidates ::
  "phase \<Rightarrow> model_config option \<Rightarrow> routing_context \<Rightarrow> routing_config \<Rightarrow>
   (gateway_error, candidate list) result" where
  "select_model_candidates p config_override rx rt =
     (let profile = task_profile_for_phase p;
          base = phase_default_config p;
          primary =
            (case config_override of
               Some m \<Rightarrow> Ok (select_as m ''config_override'' profile)
             | None \<Rightarrow>
                 (case preferred_model p rx rt of
                    (model, reason) \<Rightarrow>
                      if model = '''' then Ok (select_as base reason profile)
                      else case config_from_model_alias model base (rt_default_provider rt) of
                             Inl e \<Rightarrow> Err e | Inr m \<Rightarrow> Ok (select_as m reason profile)))
      in case primary of
           Inl e \<Rightarrow> Err e
         | Inr c \<Rightarrow>
             (case profile_and_chain_candidates base rt profile of
                Inl e \<Rightarrow> Err e | Inr cs \<Rightarrow> Ok (dedupe_candidates (c # cs))))"

definition select_model_config ::
  "phase \<Rightarrow> model_config option \<Rightarrow> routing_context \<Rightarrow> routing_config \<Rightarrow>
   (gateway_error, candidate) result" where
  "select_model_config p config_override rx rt =
     (case select_model_candidates p config_override rx rt of Inl e \<Rightarrow> Err e | Inr cs \<Rightarrow> Ok (hd cs))"

subsection \<open>Lemmas\<close>

lemma routing_defaults [simp]:
  "TASK_PROFILE_BY_PHASE ''audit'' = Some ''deep_reasoning''"
  "MODEL_ROUTING ''audit'' = Some (anthropic_config ''claude-sonnet-4-6'' 6000 (3 / 10) 5000 None)"
  by (simp_all add: TASK_PROFILE_BY_PHASE_def MODEL_ROUTING_eq BASE_MODEL_ROUTING_def
      TECHNOLOGY_READINESS_PHASE_SEQUENCE_def)

lemma phase_default_wf: "model_config_wf (phase_default_config p)"
proof (cases "MODEL_ROUTING p")
  case None
  then show ?thesis
    using MODEL_ROUTING_wf [OF routing_defaults(2)] by (simp add: phase_default_config_def dict_get_def)
next
  case (Some m)
  then show ?thesis using MODEL_ROUTING_wf by (simp add: phase_default_config_def dict_get_def)
qed

lemma derived_config_Ok:
  "derived_config p model base = Ok m \<Longrightarrow> model_config_wf m \<and> mc_provider m = p \<and> mc_model m = model"
  by (auto simp: derived_config_def construct_config_def post_init_Ok_iff split: sum.splits)

lemma derived_config_total: "model_config_wf base \<Longrightarrow> \<exists>m. derived_config p model base = Ok m"
  by (cases p; cases "mc_min_response_tokens base")
     (auto simp: derived_config_def construct_config_def model_config_post_init_def
        model_config_wf_def RESPONSE_RESERVATION_PROVIDER_VALUES_def)

lemma config_from_alias_wf: "config_from_model_alias a base d = Ok m \<Longrightarrow> model_config_wf m"
  by (auto simp: config_from_model_alias_def dest: derived_config_Ok split: option.splits sum.splits prod.splits)

lemma alias_candidates_wf:
  "alias_candidates base d profile as = Ok cs \<Longrightarrow> model_config_wf base \<Longrightarrow> c \<in> set cs \<Longrightarrow>
     model_config_wf (fst c)"
proof (induction base d profile as arbitrary: cs rule: alias_candidates.induct)
  case (2 base d profile a as)
  show ?case
  proof (cases "py_strip a = ''''")
    case True
    with 2 show ?thesis by simp
  next
    case False
    obtain m reason ds where m: "(if py_strip a = ''phase_default'' then Ok (base, ''phase_default'')
        else case config_from_model_alias (py_strip a) base d of
               Inl e \<Rightarrow> Err e | Inr m \<Rightarrow> Ok (m, ''task_profile:'' @ profile)) = Ok (m, reason)"
      and ds: "alias_candidates base d profile as = Ok ds" "cs = select_as m reason profile # ds"
      using 2(3) False by (auto simp: Let_def split: sum.splits prod.splits)
    have "model_config_wf m"
      using m 2(4) config_from_alias_wf by (auto split: if_splits sum.splits)
    moreover have "c = select_as m reason profile \<or> c \<in> set ds" using 2(5) ds by simp
    moreover have "c \<in> set ds \<Longrightarrow> model_config_wf (fst c)"
      using "2.IH"(2) [OF refl False] m ds(1) 2(4) by fastforce
    ultimately show ?thesis by (auto simp: select_as_def)
  qed
qed simp

lemma chain_candidates_Ok:
  "chain_candidates base profile rest = Ok cs \<Longrightarrow>
     map (\<lambda>c. (mc_provider (fst c), mc_model (fst c))) cs = rest \<and> (\<forall>c \<in> set cs. model_config_wf (fst c))"
proof (induction base profile rest arbitrary: cs rule: chain_candidates.induct)
  case (2 base profile p model rest)
  obtain m ds where m: "derived_config p model base = Ok m"
    and ds: "chain_candidates base profile rest = Ok ds"
    and cs: "cs = select_as m (''fallback_chain:'' @ provider_value p) profile # ds"
    using 2(2) by (auto split: sum.splits)
  have "map (\<lambda>c. (mc_provider (fst c), mc_model (fst c))) ds = rest \<and> (\<forall>c \<in> set ds. model_config_wf (fst c))"
    using "2.IH" [OF m ds] .
  with derived_config_Ok [OF m] cs show ?case by (simp add: select_as_def)
qed simp

lemma chain_candidates_total: "model_config_wf base \<Longrightarrow> \<exists>cs. chain_candidates base profile rest = Ok cs"
proof (induction rest)
  case (Cons r rest)
  obtain p model where r: "r = (p, model)" by (cases r)
  obtain m where "derived_config p model base = Ok m" using derived_config_total Cons.prems by blast
  with Cons r show ?case by auto
qed simp

lemma fallback_models_anthropic: "(ANTHROPIC, ''claude-sonnet-4-6'') \<in> set (fallback_models p)"
  by (cases p) (simp_all add: fallback_models_def)

lemma profile_candidates_Ok:
  assumes "profile_and_chain_candidates base rt profile = Ok cs" "model_config_wf base"
  shows "(\<forall>c \<in> set cs. model_config_wf (fst c)) \<and> (\<exists>c \<in> set cs. mc_provider (fst c) = ANTHROPIC)"
proof -
  obtain as ds where c: "cs = as @ ds"
    and as: "\<exists>aliases. alias_candidates base (rt_default_provider rt) profile aliases = Ok as"
    and ds: "chain_candidates base profile (fallback_models (mc_provider base)) = Ok ds"
    using assms(1) by (auto simp: profile_and_chain_candidates_def Let_def split: sum.splits)
  note chain = chain_candidates_Ok [OF ds]
  then have "set (map (\<lambda>c. (mc_provider (fst c), mc_model (fst c))) ds) = set (fallback_models (mc_provider base))"
    by simp
  with fallback_models_anthropic [of "mc_provider base"]
  have "(ANTHROPIC, ''claude-sonnet-4-6'') \<in> (\<lambda>c. (mc_provider (fst c), mc_model (fst c))) ` set ds"
    by simp
  then obtain c0 where "c0 \<in> set ds" "mc_provider (fst c0) = ANTHROPIC" by fastforce
  then have "\<exists>c \<in> set ds. mc_provider (fst c) = ANTHROPIC" by blast
  moreover have "\<forall>c \<in> set as. model_config_wf (fst c)" using as alias_candidates_wf assms(2) by blast
  ultimately show ?thesis using c chain by auto
qed

lemma dedupe_candidates_props:
  "set (dedupe_candidates cs) \<subseteq> set cs" "candidate_id ` set (dedupe_candidates cs) = candidate_id ` set cs"
  "distinct (map candidate_id (dedupe_candidates cs))" "cs \<noteq> [] \<Longrightarrow> hd (dedupe_candidates cs) = hd cs"
  by (simp_all add: dedupe_candidates_def dedupe_key_subset dedupe_key_keys dedupe_key_distinct dedupe_key_hd)

lemma select_candidates_cases:
  assumes "select_model_candidates p ov rx rt = Ok cs"
  obtains c ds where "cs = dedupe_candidates (c # ds)"
    "profile_and_chain_candidates (phase_default_config p) rt (task_profile_for_phase p) = Ok ds"
    "\<And>m. ov = Some m \<Longrightarrow> fst c = m" "ov = None \<Longrightarrow> model_config_wf (fst c)"
proof (cases ov)
  case (Some m)
  let ?c = "select_as m ''config_override'' (task_profile_for_phase p)"
  obtain ds where "profile_and_chain_candidates (phase_default_config p) rt (task_profile_for_phase p) = Ok ds"
    "cs = dedupe_candidates (?c # ds)"
    using assms Some by (auto simp: select_model_candidates_def Let_def split: sum.splits)
  then show thesis using Some by (intro that [of ?c ds]) (auto simp: select_as_def)
next
  case None
  obtain model reason where pm: "preferred_model p rx rt = (model, reason)" by fastforce
  show thesis
  proof (cases "model = []")
    case True
    let ?c = "select_as (phase_default_config p) reason (task_profile_for_phase p)"
    obtain ds where "profile_and_chain_candidates (phase_default_config p) rt (task_profile_for_phase p) = Ok ds"
      "cs = dedupe_candidates (?c # ds)"
      using assms None pm True by (auto simp: select_model_candidates_def Let_def split: sum.splits)
    then show thesis using None phase_default_wf by (intro that [of ?c ds]) (auto simp: select_as_def)
  next
    case False
    obtain m ds where m: "config_from_model_alias model (phase_default_config p) (rt_default_provider rt) = Ok m"
      and ds: "profile_and_chain_candidates (phase_default_config p) rt (task_profile_for_phase p) = Ok ds"
      "cs = dedupe_candidates (select_as m reason (task_profile_for_phase p) # ds)"
      using assms None pm False by (auto simp: select_model_candidates_def Let_def split: sum.splits)
    then show thesis
      using None config_from_alias_wf [OF m]
      by (intro that [of "select_as m reason (task_profile_for_phase p)" ds]) (auto simp: select_as_def)
  qed
qed

lemma selected_supported:
  assumes "select_model_candidates p ov rx rt = Ok cs"
  shows "\<exists>c \<in> set cs. mc_provider (fst c) = ANTHROPIC"
  using assms
proof (cases rule: select_candidates_cases)
  case (1 c ds)
  obtain d where d: "d \<in> set ds" "mc_provider (fst d) = ANTHROPIC"
    using profile_candidates_Ok [OF 1(2) phase_default_wf] by blast
  then have "candidate_id d \<in> candidate_id ` set cs"
    using dedupe_candidates_props(2) [of "c # ds"] 1(1) by auto
  then obtain e where "e \<in> set cs" "candidate_id e = candidate_id d" by auto
  moreover from this(2) have "mc_provider (fst e) = mc_provider (fst d)" by (simp add: candidate_id_def)
  ultimately show ?thesis using d(2) by auto
qed

subsection \<open>Properties\<close>

text \<open>Whatever the overrides, a selection that does not raise offers a well-formed list of
  candidates: not empty, no provider and model twice, every configuration valid, an explicit
  override first, and at least one of the supported provider, so that the restriction to
  supported providers never leaves a call without a candidate.\<close>

theorem selected_candidates_wf:
  assumes "select_model_candidates p ov rx rt = Ok cs"
    and "\<And>m. ov = Some m \<Longrightarrow> model_config_wf m"
  shows "distinct (map candidate_id cs) \<and> (\<forall>c \<in> set cs. model_config_wf (fst c)) \<and>
    (\<forall>m. ov = Some m \<longrightarrow> fst (hd cs) = m) \<and> (\<exists>c \<in> set cs. mc_provider (fst c) = ANTHROPIC)"
  using assms(1)
proof (cases rule: select_candidates_cases)
  case (1 c ds)
  note ds = profile_candidates_Ok [OF 1(2) phase_default_wf]
  have "model_config_wf (fst c)" using 1(3,4) assms(2) by (cases ov) (auto simp: select_as_def)
  then have wf: "\<forall>c' \<in> set cs. model_config_wf (fst c')"
    using ds dedupe_candidates_props(1) [of "c # ds"] 1(1) by auto
  moreover have "hd cs = c" using dedupe_candidates_props(4) [of "c # ds"] 1(1) by simp
  ultimately show ?thesis
    using wf dedupe_candidates_props(3) [of "c # ds"] 1(1,3) selected_supported [OF assms(1)]
    by (auto simp: select_as_def)
qed

text \<open>The default configuration of the process, for concrete calls.\<close>

definition default_layer :: runtime_layer_config where
  "default_layer =
     \<lparr>default_provider = ANTHROPIC, routing_strategy = ''phase'', cache_enabled = False,
      cache_ttl_seconds = 0, phase_model_overrides = Map.empty,
      complexity_model_overrides = Map.empty, task_profile_model_candidates = Map.empty\<rparr>"

lemma deep_reasoning_candidates:
  "\<exists>cs. alias_candidates (phase_default_config ''audit'') d ''deep_reasoning''
     [''phase_default'', ''anthropic:claude-sonnet-4-6'', ''openai:gpt-5''] = Ok cs"
proof -
  note total = derived_config_total [OF phase_default_wf [of "''audit''"]]
  obtain m where "derived_config ANTHROPIC ''claude-sonnet-4-6'' (phase_default_config ''audit'') = Ok m"
    using total by blast
  moreover obtain m' where "derived_config OPENAI ''gpt-5'' (phase_default_config ''audit'') = Ok m'"
    using total by blast
  ultimately show ?thesis
    by (simp add: config_from_model_alias_def provider_of_value_def py_strip_def py_lstrip_def
        py_rstrip_def py_isspace_def code_def)
qed

lemma default_selection:
  "\<exists>cs. select_model_candidates ''audit'' None (routing_context_for ''audit'')
     (runtime_routing_config default_layer) = Ok cs"
proof -
  let ?rt = "runtime_routing_config default_layer"
  obtain as where as: "alias_candidates (phase_default_config ''audit'') (rt_default_provider ?rt) ''deep_reasoning''
      [''phase_default'', ''anthropic:claude-sonnet-4-6'', ''openai:gpt-5''] = Ok as"
    using deep_reasoning_candidates by blast
  obtain ds where ds: "chain_candidates (phase_default_config ''audit'') ''deep_reasoning''
      (fallback_models (mc_provider (phase_default_config ''audit''))) = Ok ds"
    using chain_candidates_total phase_default_wf by blast
  have "rt_task_profile_candidates ?rt ''deep_reasoning'' =
      Some [''phase_default'', ''anthropic:claude-sonnet-4-6'', ''openai:gpt-5'']"
    by (simp add: runtime_routing_config_def default_layer_def TASK_PROFILE_MODEL_CANDIDATES_def)
  with as ds have "profile_and_chain_candidates (phase_default_config ''audit'') ?rt ''deep_reasoning'' = Ok (as @ ds)"
    by (simp add: profile_and_chain_candidates_def)
  moreover have "task_profile_for_phase ''audit'' = ''deep_reasoning''"
    by (simp add: task_profile_for_phase_def dict_get_def)
  moreover have "preferred_model ''audit'' (routing_context_for ''audit'') ?rt = ('''', ''phase_routing'')"
    by (simp add: preferred_model_def routing_context_for_def runtime_routing_config_def
        default_layer_def dict_get_def)
  ultimately show ?thesis by (simp add: select_model_candidates_def Let_def)
qed

theorem selected_candidates_wf_witness:
  "\<exists>cs. select_model_candidates ''audit'' None (routing_context_for ''audit'')
      (runtime_routing_config default_layer) = Ok cs \<and>
    distinct (map candidate_id cs) \<and> (\<exists>c \<in> set cs. mc_provider (fst c) = ANTHROPIC)"
proof -
  obtain cs where "select_model_candidates ''audit'' None (routing_context_for ''audit'')
      (runtime_routing_config default_layer) = Ok cs"
    using default_selection by blast
  with selected_candidates_wf [OF this] show ?thesis by simp
qed

end
