(* ===== verification/Cache.thy ===== *)
theory Cache
  imports Prelude
begin

text \<open>
  The semantic caches of the gateway (\<open>mas/runtime/cache.py\<close>). The contract of
  \<open>extensions/runtime.py\<close> (\<open>SemanticCache\<close>) is the locale \<open>semantic_cache\<close>: a hit is the
  response last stored under the key. Both caches of the code are interpretations of it. A
  lookup returns the cache with it, because an expired entry is dropped by the lookup; copies
  (\<open>deepcopy\<close>) are values.
\<close>

subsection \<open>The contract\<close>

datatype 'r cache_event = Stored string 'r int real | Looked_up string real

fun last_stored :: "string \<Rightarrow> 'r cache_event list \<Rightarrow> 'r option" where
  "last_stored k [] = None"
| "last_stored k (Stored k' r ttl t # es) = (if k' = k then Some r else last_stored k es)"
| "last_stored k (Looked_up k' t # es) = last_stored k es"

locale semantic_cache =
  fixes fresh :: 'c
    and fetch :: "'c \<Rightarrow> string \<Rightarrow> real \<Rightarrow> 'c \<times> 'r option"
    and store :: "'c \<Rightarrow> string \<Rightarrow> 'r \<Rightarrow> int \<Rightarrow> real \<Rightarrow> 'c"
  assumes fresh_miss: "snd (fetch fresh k now) = None"
    and store_hit: "snd (fetch (store c k' r ttl t) k now) = Some x \<Longrightarrow>
      (if k' = k then x = r else snd (fetch c k now) = Some x)"
    and fetch_hit: "snd (fetch (fst (fetch c k' t)) k now) = Some x \<Longrightarrow> snd (fetch c k now) = Some x"
begin

text \<open>The newest event comes first.\<close>

fun replay :: "'r cache_event list \<Rightarrow> 'c" where
  "replay [] = fresh"
| "replay (Stored k r ttl t # es) = store (replay es) k r ttl t"
| "replay (Looked_up k t # es) = fst (fetch (replay es) k t)"

lemma hit_is_last_stored:
  "snd (fetch (replay es) k now) = Some x \<Longrightarrow> last_stored k es = Some x"
proof (induction k es rule: last_stored.induct)
  case (2 k k' r ttl t es)
  from 2(2) have "if k' = k then x = r else snd (fetch (replay es) k now) = Some x"
    by (auto dest: store_hit)
  with 2(1) show ?case by (auto split: if_splits)
next
  case (3 k k' t es)
  then show ?case by (auto dest: fetch_hit)
qed (simp add: fresh_miss)

end

subsection \<open>The two caches\<close>

definition noop_get :: "unit \<Rightarrow> string \<Rightarrow> real \<Rightarrow> unit \<times> 'r option" where
  "noop_get c k now = ((), None)"

definition noop_put :: "unit \<Rightarrow> string \<Rightarrow> 'r \<Rightarrow> int \<Rightarrow> real \<Rightarrow> unit" where
  "noop_put c k r ttl_seconds now = ()"

type_synonym 'r memory_cache = "string \<rightharpoonup> real \<times> 'r"

definition memory_get :: "'r memory_cache \<Rightarrow> string \<Rightarrow> real \<Rightarrow> 'r memory_cache \<times> 'r option" where
  "memory_get c k now =
     (case c k of
        None \<Rightarrow> (c, None)
      | Some (expires_at, r) \<Rightarrow>
          if expires_at \<noteq> 0 \<and> expires_at < now then (c(k := None), None) else (c, Some r))"

definition memory_put :: "'r memory_cache \<Rightarrow> string \<Rightarrow> 'r \<Rightarrow> int \<Rightarrow> real \<Rightarrow> 'r memory_cache" where
  "memory_put c k r ttl_seconds now =
     c(k \<mapsto> (if 0 < ttl_seconds then now + real_of_int ttl_seconds else 0, r))"

interpretation noop: semantic_cache "()" noop_get noop_put
  by unfold_locales (simp_all add: noop_get_def)

interpretation memory: semantic_cache Map.empty memory_get memory_put
  by unfold_locales
    (auto simp: memory_get_def memory_put_def split: option.splits prod.splits if_splits)

subsection \<open>Properties\<close>

lemma memory_expiry:
  "snd (memory_get (memory_put c k r ttl t) k now) =
     (if 0 < ttl \<and> t + real_of_int ttl \<noteq> 0 \<and> t + real_of_int ttl < now then None else Some r)"
  by (auto simp: memory_get_def memory_put_def)

text \<open>A hit of the in-memory cache is the response last stored under its key, after any
  sequence of stores and lookups, and a stored response stays available exactly until its
  lifetime is over, without limit when no lifetime is given.\<close>

theorem cache_hit_is_last_stored:
  assumes "0 \<le> t"
  shows "(snd (memory_get (memory.replay es) k now) = Some x \<longrightarrow> last_stored k es = Some x) \<and>
    (snd (memory_get (memory.replay (Stored k r ttl t # es)) k now) = Some r \<longleftrightarrow>
       ttl \<le> 0 \<or> now \<le> t + real_of_int ttl)"
proof (intro conjI impI)
  assume "snd (memory_get (memory.replay es) k now) = Some x"
  then show "last_stored k es = Some x" by (rule memory.hit_is_last_stored)
next
  show "snd (memory_get (memory.replay (Stored k r ttl t # es)) k now) = Some r \<longleftrightarrow>
      ttl \<le> 0 \<or> now \<le> t + real_of_int ttl"
    using assms by (auto simp: memory_expiry)
qed

theorem cache_hit_is_last_stored_witness:
  "snd (memory_get (memory.replay [Stored ''k'' (7 :: int) 60 0]) ''k'' 30) = Some 7 \<and>
   snd (memory_get (memory.replay [Stored ''k'' (7 :: int) 60 0]) ''k'' 90) \<noteq> Some 7"
  using cache_hit_is_last_stored [of 0 "[]" "''k''" 30 "7 :: int" 7 60]
    cache_hit_is_last_stored [of 0 "[]" "''k''" 90 "7 :: int" 7 60] by simp

end
