(* ===== verification/Gateway.thy ===== *)
theory Gateway
  imports Routing Cache State JsonText Llm
begin

text \<open>
  The provider gateway (\<open>mas/runtime/provider_gateway.py\<close>) and \<open>call_llm\<close>: normalisation of
  provider failures, the usage ledger of one logical call, the loop over candidates and
  retries with the circuit breaker, and the cache around it.

  What a provider answers, what the governance hook decides and what the clocks read are
  functions of how many attempts were made before (\<open>gateway_env\<close>), so every sequence of
  answers is an instance. Telemetry is off (its session is \<open>None\<close>), as the code says it then
  changes nothing; the sleep between retries is in the clock readings. \<open>safe_provider_error_detail\<close>
  (redaction expressions) and the SHA-256 cache key are parameters.
\<close>

subsection \<open>Failure categories\<close>

definition RETRYABLE_PROVIDER_ERRORS :: "string set" where
  "RETRYABLE_PROVIDER_ERRORS =
     {''rate_limited'', ''timeout'', ''provider_unavailable'', ''server_error'',
      ''connection_error'', ''transport_malformed_response''}"

definition UNUSABLE_OUTPUT_ERRORS :: "string set" where
  "UNUSABLE_OUTPUT_ERRORS = {''output_token_exhausted'', ''empty_provider_output''}"

definition FALLBACK_ELIGIBLE_ERRORS :: "string set" where
  "FALLBACK_ELIGIBLE_ERRORS =
     RETRYABLE_PROVIDER_ERRORS \<union> UNUSABLE_OUTPUT_ERRORS \<union> {''auth_error'', ''quota_exceeded''}"

definition GOVERNANCE_ERROR_TYPES :: "string set" where
  "GOVERNANCE_ERROR_TYPES = {''kill_switch'', ''budget'', ''breaker'', ''approval'', ''policy''}"

definition V7_SUPPORTED_PROVIDERS :: "provider set" where
  "V7_SUPPORTED_PROVIDERS = {ANTHROPIC}"

definition ERROR_ALIASES :: "string \<rightharpoonup> string" where
  "ERROR_ALIASES = map_of
     [('''', ''unknown_provider_error''), (''auth'', ''auth_error''),
      (''auth_error'', ''auth_error''), (''authentication'', ''auth_error''),
      (''authentication_error'', ''auth_error''), (''config'', ''auth_error''),
      (''configuration'', ''auth_error''), (''quota'', ''quota_exceeded''),
      (''quota_exceeded'', ''quota_exceeded''), (''insufficient_quota'', ''quota_exceeded''),
      (''rate'', ''rate_limited''), (''rate_limit'', ''rate_limited''),
      (''rate_limited'', ''rate_limited''), (''network'', ''connection_error''),
      (''connection'', ''connection_error''), (''connection_error'', ''connection_error''),
      (''timeout'', ''timeout''), (''provider_unavailable'', ''provider_unavailable''),
      (''unavailable'', ''provider_unavailable''), (''server'', ''server_error''),
      (''server_error'', ''server_error''), (''invalid_request'', ''invalid_request''),
      (''bad_request'', ''invalid_request''),
      (''transport_malformed_response'', ''transport_malformed_response''),
      (''malformed'', ''transport_malformed_response''),
      (''model_schema_invalid'', ''model_schema_invalid''), (''schema'', ''model_schema_invalid''),
      (''output_token_exhausted'', ''output_token_exhausted''),
      (''empty_provider_output'', ''empty_provider_output''),
      (''unknown_provider_error'', ''unknown_provider_error'')]"

definition normalize_error_type :: "string \<Rightarrow> string" where
  "normalize_error_type error_type =
     (let raw = py_lower (py_strip error_type)
      in case ERROR_ALIASES raw of
           Some category \<Rightarrow> category
         | None \<Rightarrow> if raw \<in> GOVERNANCE_ERROR_TYPES then raw else ''unknown_provider_error'')"

definition NORMALIZED_STOP_REASONS :: "string \<rightharpoonup> string" where
  "NORMALIZED_STOP_REASONS = map_of
     [(''end_turn'', ''end_turn''), (''stop'', ''end_turn''), (''max_tokens'', ''max_tokens''),
      (''length'', ''max_tokens''), (''stop_sequence'', ''stop_sequence''),
      (''tool_use'', ''tool_use''), (''tool_calls'', ''tool_use''),
      (''pause_turn'', ''pause_turn''), (''refusal'', ''refusal''),
      (''content_filter'', ''content_filter'')]"

definition normalize_stop_reason :: "string option \<Rightarrow> string" where
  "normalize_stop_reason v =
     (case v of None \<Rightarrow> ''''
      | Some t \<Rightarrow> dict_get NORMALIZED_STOP_REASONS (py_lower (py_strip t)) ''other'')"

definition has_usable_visible_text :: "string \<Rightarrow> bool" where
  "has_usable_visible_text t \<longleftrightarrow> py_strip t \<noteq> ''''"

definition classify_unusable_output :: "string \<Rightarrow> string option \<Rightarrow> string" where
  "classify_unusable_output t stop_reason =
     (if has_usable_visible_text t then ''''
      else if normalize_stop_reason stop_reason = ''max_tokens'' then ''output_token_exhausted''
      else ''empty_provider_output'')"

definition unusable_output_detail :: "string \<Rightarrow> string option \<Rightarrow> int \<Rightarrow> string" where
  "unusable_output_detail t stop_reason output_tokens =
     ''stop_reason='' @ py_or (normalize_stop_reason stop_reason) ''unset'' @
     '' visible_text='' @ (if t = '''' then ''empty'' else ''whitespace'') @
     '' output_tokens='' @ py_str_int output_tokens"

definition PROVIDER_DETAIL_MARKER :: string where
  "PROVIDER_DETAIL_MARKER = ''; provider_detail=''"

definition provider_error_detail_from_message :: "string \<Rightarrow> string" where
  "provider_error_detail_from_message message =
     (case py_find PROVIDER_DETAIL_MARKER message of
        None \<Rightarrow> ''''
      | Some (_, rest) \<Rightarrow> py_strip (drop (length PROVIDER_DETAIL_MARKER) rest))"

definition safe_error_message :: "string \<Rightarrow> string \<Rightarrow> string \<Rightarrow> string \<Rightarrow> string" where
  "safe_error_message category prov model provider_detail =
     ''Provider call failed: category='' @ normalize_error_type category @ '', provider='' @ prov @
     '', model='' @ model @
     (if provider_detail = '''' then '''' else PROVIDER_DETAIL_MARKER @ provider_detail)"

subsection \<open>Exceptions\<close>

text \<open>What the classification reads of an exception: its class name, the status code when it is an
  integer, \<open>str(exc)\<close>, the message in its body (when the body is a dictionary), its own message
  and whether it is a timeout.\<close>

record py_exception =
  px_class :: string
  px_status :: "int option"
  px_text :: string
  px_body_message :: "string option"
  px_message :: string
  px_timeout :: bool

definition QUOTA_EXHAUSTION_MARKERS :: "string list" where
  "QUOTA_EXHAUSTION_MARKERS =
     [''credit balance is too low'', ''balance is too low'', ''insufficient credits'',
      ''purchase credits'', ''quota exceeded'', ''insufficient quota'', ''exceeded your quota'']"

definition is_quota_exhaustion_exception :: "py_exception \<Rightarrow> bool" where
  "is_quota_exhaustion_exception x =
     (let parts = [py_lower (px_text x)] @
            (case px_body_message x of None \<Rightarrow> [] | Some b \<Rightarrow> [py_lower b]) @
            (if px_message x = '''' then [] else [py_lower (px_message x)])
      in list_ex (\<lambda>m. contains m (join_with '' '' parts)) QUOTA_EXHAUSTION_MARKERS)"

definition status_in :: "py_exception \<Rightarrow> int \<Rightarrow> int \<Rightarrow> bool" where
  "status_in x low high = (case px_status x of None \<Rightarrow> False | Some n \<Rightarrow> low \<le> n \<and> n < high)"

definition normalize_exception_category :: "py_exception \<Rightarrow> string" where
  "normalize_exception_category x =
     (let name = py_lower (px_class x); t = py_lower (px_text x)
      in if contains ''auth'' name \<or> px_status x = Some 401 \<or> px_status x = Some 403
         then ''auth_error''
         else if contains ''rate'' name \<or> px_status x = Some 429
         then (if list_ex (\<lambda>m. contains m t) [''quota'', ''credit'', ''insufficient'']
               then ''quota_exceeded'' else ''rate_limited'')
         else if contains ''timeout'' name \<or> px_timeout x then ''timeout''
         else if contains ''connection'' name then ''connection_error''
         else if px_status x = Some 503 then ''provider_unavailable''
         else if status_in x 500 600 then ''server_error''
         else if status_in x 400 500
         then (if is_quota_exhaustion_exception x then ''quota_exceeded'' else ''invalid_request'')
         else ''unknown_provider_error'')"

subsection \<open>Requests, responses and the usage ledger\<close>

record gateway_request =
  rq_phase :: phase
  rq_system_prompt :: string
  rq_user_prompt :: string
  rq_routing_context :: routing_context
  rq_cache_key :: string
  rq_allow_cache :: bool
  rq_project_id :: string

record attempt_metadata =
  at_provider :: string
  at_model :: string
  at_task_profile :: string
  at_selection_reason :: string
  at_status :: string
  at_error_type :: string
  at_skip_reason :: string

record gateway_response =
  gw_text :: string
  gw_stop_reason :: string
  gw_model_used :: string
  gw_provider_used :: string
  gw_selected_model :: string
  gw_selected_provider :: string
  gw_selection_reason :: string
  gw_task_profile :: string
  gw_cache_hit :: bool
  gw_cache_status :: string
  gw_fallback_used :: bool
  gw_fallback_reason :: string
  gw_fallback_provider :: string
  gw_fallback_model :: string
  gw_failed_provider :: string
  gw_failed_model :: string
  gw_failed_error_type :: string
  gw_attempt_count :: nat
  gw_retryable :: bool
  gw_attempts :: "attempt_metadata list"
  gw_latency_ms :: int
  gw_input_tokens :: int
  gw_output_tokens :: int
  gw_cache_read_tokens :: int
  gw_cost_usd :: real
  gw_error :: string
  gw_error_type :: string

text \<open>The constructor with only the text given: the dataclass defaults.\<close>

definition gateway_response_of :: "string \<Rightarrow> gateway_response" where
  "gateway_response_of t =
     \<lparr>gw_text = t, gw_stop_reason = '''', gw_model_used = '''', gw_provider_used = '''',
      gw_selected_model = '''', gw_selected_provider = '''', gw_selection_reason = '''',
      gw_task_profile = '''', gw_cache_hit = False, gw_cache_status = ''disabled'',
      gw_fallback_used = False, gw_fallback_reason = '''', gw_fallback_provider = '''',
      gw_fallback_model = '''', gw_failed_provider = '''', gw_failed_model = '''',
      gw_failed_error_type = '''', gw_attempt_count = 0, gw_retryable = False, gw_attempts = [],
      gw_latency_ms = 0, gw_input_tokens = 0, gw_output_tokens = 0, gw_cache_read_tokens = 0,
      gw_cost_usd = 0, gw_error = '''', gw_error_type = ''''\<rparr>"

record usage_ledger =
  ul_input_tokens :: int
  ul_output_tokens :: int
  ul_cache_read_tokens :: int
  ul_cost_usd :: real

definition new_ledger :: usage_ledger where
  "new_ledger = \<lparr>ul_input_tokens = 0, ul_output_tokens = 0, ul_cache_read_tokens = 0, ul_cost_usd = 0\<rparr>"

definition ledger_record :: "usage_ledger \<Rightarrow> gateway_response \<Rightarrow> usage_ledger" where
  "ledger_record u r =
     \<lparr>ul_input_tokens = ul_input_tokens u + gw_input_tokens r,
      ul_output_tokens = ul_output_tokens u + gw_output_tokens r,
      ul_cache_read_tokens = ul_cache_read_tokens u + gw_cache_read_tokens r,
      ul_cost_usd = ul_cost_usd u + gw_cost_usd r\<rparr>"

definition ledger_apply :: "usage_ledger \<Rightarrow> gateway_response \<Rightarrow> gateway_response" where
  "ledger_apply u r =
     r\<lparr>gw_input_tokens := ul_input_tokens u, gw_output_tokens := ul_output_tokens u,
       gw_cache_read_tokens := ul_cache_read_tokens u, gw_cost_usd := ul_cost_usd u\<rparr>"

subsection \<open>What the gateway does not control\<close>

record raw_response =
  rw_text :: string
  rw_stop_reason :: string
  rw_model_used :: string
  rw_latency_ms :: int
  rw_input_tokens :: int
  rw_output_tokens :: int
  rw_cache_read_tokens :: int
  rw_cost_usd :: real
  rw_error :: string
  rw_error_type :: string

datatype exec_outcome = Raised py_exception | Answered raw_response

text \<open>What the hook returned: nothing, a response, a dictionary (reason and category, empty when
  absent) or any other object.\<close>

datatype governance =
    Cleared
  | Refused_response gateway_response
  | Refused_dict string string
  | Refused_other

text \<open>
  \<open>ge_execute n\<close> is the answer to the call made after \<open>n\<close> calls, \<open>ge_before_attempt n\<close> the answer of
  the hook then. With \<open>n\<close> attempts noted, the breaker is asked at \<open>ge_clock (2 * n)\<close> and the failure
  noted last was recorded at \<open>ge_clock (2 * n - 1)\<close>.
\<close>

record gateway_env =
  ge_execute :: "nat \<Rightarrow> model_config \<Rightarrow> exec_outcome"
  ge_before_attempt :: "(nat \<Rightarrow> model_config \<Rightarrow> governance) option"
  ge_availability :: "(string \<rightharpoonup> bool) option"
  ge_clock :: "nat \<Rightarrow> real"
  ge_max_retries :: int
  ge_detail :: "py_exception \<Rightarrow> string"
  ge_cache_key :: "gateway_request \<Rightarrow> provider_selection \<Rightarrow> string"
  ge_time_get :: real
  ge_time_put :: real

definition max_retries :: "gateway_env \<Rightarrow> nat" where
  "max_retries env = nat (max 1 (if ge_max_retries env = 0 then 1 else ge_max_retries env))"

definition provider_available :: "gateway_env \<Rightarrow> provider \<Rightarrow> bool" where
  "provider_available env p =
     (case ge_availability env of None \<Rightarrow> True | Some m \<Rightarrow> dict_get m (provider_value p) False)"

subsection \<open>One attempt\<close>

definition execute_outcome ::
  "(py_exception \<Rightarrow> string) \<Rightarrow> model_config \<Rightarrow> exec_outcome \<Rightarrow> gateway_response" where
  "execute_outcome detail m out =
     (case out of
        Raised x \<Rightarrow>
          (let category = normalize_exception_category x
           in (gateway_response_of '''')\<lparr>gw_model_used := mc_model m,
                gw_provider_used := provider_value (mc_provider m),
                gw_error := safe_error_message category (provider_value (mc_provider m)) (mc_model m) (detail x),
                gw_error_type := category\<rparr>)
      | Answered raw \<Rightarrow>
          (let prov = provider_value (mc_provider m);
               category0 = normalize_error_type (rw_error_type raw);
               error0 = (if rw_error raw = '''' then ''''
                         else safe_error_message category0 prov (mc_model m)
                                (provider_error_detail_from_message (rw_error raw)));
               unusable = (if error0 = ''''
                           then classify_unusable_output (rw_text raw) (Some (rw_stop_reason raw))
                           else '''');
               category = (if unusable = '''' then category0 else unusable);
               error = (if unusable = '''' then error0
                        else safe_error_message unusable prov (mc_model m)
                               (unusable_output_detail (rw_text raw) (Some (rw_stop_reason raw))
                                  (rw_output_tokens raw)))
           in (gateway_response_of (if has_usable_visible_text (rw_text raw) then rw_text raw else ''''))
                \<lparr>gw_stop_reason := rw_stop_reason raw,
                 gw_model_used := py_or (rw_model_used raw) (mc_model m),
                 gw_provider_used := prov, gw_latency_ms := rw_latency_ms raw,
                 gw_input_tokens := rw_input_tokens raw, gw_output_tokens := rw_output_tokens raw,
                 gw_cache_read_tokens := rw_cache_read_tokens raw, gw_cost_usd := rw_cost_usd raw,
                 gw_error := error, gw_error_type := (if error = '''' then '''' else category),
                 gw_retryable := (category \<in> RETRYABLE_PROVIDER_ERRORS)\<rparr>))"

definition governed :: "gateway_response \<Rightarrow> gateway_response" where
  "governed r =
     (if gw_error_type r \<in> GOVERNANCE_ERROR_TYPES then r else r\<lparr>gw_error_type := ''policy''\<rparr>)
       \<lparr>gw_fallback_used := False\<rparr>"

definition refusal :: "model_config \<Rightarrow> string \<Rightarrow> string \<Rightarrow> gateway_response" where
  "refusal m reason category =
     (gateway_response_of '''')\<lparr>gw_model_used := mc_model m,
        gw_provider_used := provider_value (mc_provider m), gw_error := reason,
        gw_error_type := category\<rparr>"

definition GOVERNANCE_BLOCKED :: string where
  "GOVERNANCE_BLOCKED = ''governance gate blocked provider execution''"

definition run_before_attempt :: "governance option \<Rightarrow> model_config \<Rightarrow> gateway_response option" where
  "run_before_attempt hook m =
     (case hook of
        None \<Rightarrow> None
      | Some Cleared \<Rightarrow> None
      | Some (Refused_response r) \<Rightarrow> Some (governed r)
      | Some (Refused_dict reason category) \<Rightarrow>
          Some (governed (refusal m (py_or reason GOVERNANCE_BLOCKED) (py_or category ''policy'')))
      | Some Refused_other \<Rightarrow> Some (governed (refusal m GOVERNANCE_BLOCKED ''policy'')))"

definition apply_selection_metadata :: "gateway_response \<Rightarrow> candidate \<Rightarrow> gateway_response" where
  "apply_selection_metadata r c =
     (case c of (m, sel) \<Rightarrow>
       r\<lparr>gw_selected_provider := py_or (ps_provider sel) (provider_value (mc_provider m)),
         gw_selected_model := py_or (ps_model sel) (mc_model m),
         gw_selection_reason := ps_reason sel, gw_task_profile := ps_task_profile sel,
         gw_provider_used := py_or (gw_provider_used r) (provider_value (mc_provider m)),
         gw_model_used := py_or (gw_model_used r) (mc_model m)\<rparr>)"

definition attempt_of :: "candidate \<Rightarrow> string \<Rightarrow> string \<Rightarrow> string \<Rightarrow> attempt_metadata" where
  "attempt_of c status error_type skip_reason =
     \<lparr>at_provider = provider_value (mc_provider (fst c)), at_model = mc_model (fst c),
      at_task_profile = ps_task_profile (snd c), at_selection_reason = ps_reason (snd c),
      at_status = status, at_error_type = error_type, at_skip_reason = skip_reason\<rparr>"

definition candidate_key :: "model_config \<Rightarrow> string" where
  "candidate_key m = provider_value (mc_provider m) @ '':'' @ mc_model m"

subsection \<open>The loop over candidates and retries\<close>

text \<open>
  The local variables of \<open>_call_with_fallbacks\<close> and the breaker. \<open>pg_made\<close> is not a variable
  of the code: it lists the provider calls made, with their responses, for the statements below.
\<close>

record progress =
  pg_breaker :: circuit_breaker
  pg_attempts :: "attempt_metadata list"
  pg_attempt_count :: nat
  pg_failed_provider :: string
  pg_failed_model :: string
  pg_failed_error_type :: string
  pg_fallback_reason :: string
  pg_last_error_type :: string
  pg_last_error :: string
  pg_attempted_error_type :: string
  pg_attempted_error :: string
  pg_usage :: usage_ledger
  pg_made :: "(model_config \<times> gateway_response) list"

definition new_progress :: "circuit_breaker \<Rightarrow> progress" where
  "new_progress b =
     \<lparr>pg_breaker = b, pg_attempts = [], pg_attempt_count = 0, pg_failed_provider = '''',
      pg_failed_model = '''', pg_failed_error_type = '''', pg_fallback_reason = '''',
      pg_last_error_type = ''provider_unavailable'',
      pg_last_error = ''No configured provider candidates were available'',
      pg_attempted_error_type = '''', pg_attempted_error = '''', pg_usage = new_ledger,
      pg_made = []\<rparr>"

definition first_failure :: "progress \<Rightarrow> model_config \<Rightarrow> string \<Rightarrow> progress" where
  "first_failure pg m category =
     (if pg_failed_provider pg \<noteq> '''' then pg
      else pg\<lparr>pg_failed_provider := provider_value (mc_provider m), pg_failed_model := mc_model m,
              pg_failed_error_type := category\<rparr>)"

definition note_failure ::
  "progress \<Rightarrow> candidate \<Rightarrow> string \<Rightarrow> string \<Rightarrow> attempt_metadata \<Rightarrow> progress" where
  "note_failure pg c category error attempt =
     (let pg1 = first_failure (pg\<lparr>pg_attempts := pg_attempts pg @ [attempt]\<rparr>) (fst c) category
      in pg1\<lparr>pg_fallback_reason := py_or (pg_fallback_reason pg1) category,
             pg_last_error_type := category, pg_last_error := error\<rparr>)"

definition skip_candidate :: "progress \<Rightarrow> candidate \<Rightarrow> string \<Rightarrow> progress" where
  "skip_candidate pg c reason =
     note_failure pg c ''provider_unavailable''
       (safe_error_message ''provider_unavailable'' (provider_value (mc_provider (fst c)))
          (mc_model (fst c)) '''')
       (attempt_of c ''skipped'' ''provider_unavailable'' reason)"

datatype step =
    Final gateway_response progress
  | Next_candidate progress
  | Retry progress

definition final_error_response ::
  "candidate \<Rightarrow> progress \<Rightarrow> gateway_response \<Rightarrow> gateway_response" where
  "final_error_response initial pg r =
     ledger_apply (pg_usage pg)
       (apply_selection_metadata
         (r\<lparr>gw_attempts := pg_attempts pg, gw_attempt_count := pg_attempt_count pg,
            gw_failed_provider := pg_failed_provider pg, gw_failed_model := pg_failed_model pg,
            gw_failed_error_type := pg_failed_error_type pg,
            gw_fallback_reason := pg_fallback_reason pg, gw_fallback_used := False\<rparr>) initial)"

definition success_response ::
  "candidate \<Rightarrow> nat \<Rightarrow> candidate \<Rightarrow> progress \<Rightarrow> gateway_response \<Rightarrow> gateway_response" where
  "success_response initial index c pg r =
     (let fallback = (pg_failed_provider pg \<noteq> '''' \<or> 0 < index);
          r1 = r\<lparr>gw_attempt_count := pg_attempt_count pg,
                 gw_attempts := pg_attempts pg @ [attempt_of c ''success'' '''' ''''],
                 gw_fallback_used := fallback, gw_fallback_reason := pg_fallback_reason pg,
                 gw_failed_provider := pg_failed_provider pg, gw_failed_model := pg_failed_model pg,
                 gw_failed_error_type := pg_failed_error_type pg\<rparr>;
          r2 = (if fallback
                then r1\<lparr>gw_fallback_provider := provider_value (mc_provider (fst c)),
                        gw_fallback_model := py_or (gw_model_used r1) (mc_model (fst c))\<rparr>
                else r1)
      in ledger_apply (pg_usage pg) (apply_selection_metadata r2 initial))"

text \<open>One pass of the retry loop: the hook, the provider call, the accounting, the classification.\<close>

definition attempt_once ::
  "gateway_env \<Rightarrow> candidate \<Rightarrow> nat \<Rightarrow> candidate \<Rightarrow> progress \<Rightarrow> step" where
  "attempt_once env initial index c pg =
     (let m = fst c; key = candidate_key m; n = pg_attempt_count pg in
      case run_before_attempt (map_option (\<lambda>h. h n m) (ge_before_attempt env)) m of
        Some r \<Rightarrow>
          Final (ledger_apply (pg_usage pg)
                  (apply_selection_metadata
                    (r\<lparr>gw_attempts := pg_attempts pg, gw_attempt_count := n\<rparr>) initial)) pg
      | None \<Rightarrow>
          (let r0 = execute_outcome (ge_detail env) m (ge_execute env n m);
               pg1 = pg\<lparr>pg_attempt_count := n + 1, pg_usage := ledger_record (pg_usage pg) r0,
                        pg_made := pg_made pg @ [(m, r0)]\<rparr>;
               category = normalize_error_type (gw_error_type r0)
           in if gw_error r0 = ''''
              then Final (success_response initial index c pg1 r0)
                     (pg1\<lparr>pg_breaker := reset (pg_breaker pg1) key\<rparr>)
              else
                let retryable = (category \<in> RETRYABLE_PROVIDER_ERRORS);
                    r = r0\<lparr>gw_error_type := category,
                           gw_error := safe_error_message category (provider_value (mc_provider m))
                              (mc_model m) (provider_error_detail_from_message (gw_error r0)),
                           gw_retryable := retryable\<rparr>;
                    pg2 = note_failure pg1 c category (gw_error r) (attempt_of c ''failed'' category '''');
                    pg3 = (if pg_attempted_error_type pg2 = ''''
                           then pg2\<lparr>pg_attempted_error_type := category, pg_attempted_error := gw_error r\<rparr>
                           else pg2);
                    pg4 = (if retryable
                           then pg3\<lparr>pg_breaker := record_failure (pg_breaker pg3) key
                                      (ge_clock env (2 * length (pg_attempts pg3) - 1))\<rparr>
                           else pg3)
                in if category \<notin> FALLBACK_ELIGIBLE_ERRORS
                   then Final (final_error_response initial pg4 r) pg4
                   else if retryable then Retry pg4 else Next_candidate pg4))"

fun retry_loop ::
  "gateway_env \<Rightarrow> candidate \<Rightarrow> nat \<Rightarrow> candidate \<Rightarrow> nat \<Rightarrow> progress \<Rightarrow> step" where
  "retry_loop env initial index c 0 pg = Next_candidate pg"
| "retry_loop env initial index c (Suc left) pg =
     (case attempt_once env initial index c pg of
        Retry pg' \<Rightarrow> retry_loop env initial index c left pg'
      | s \<Rightarrow> s)"

text \<open>After the last candidate: the headline of the failure.\<close>

definition headline :: "progress \<Rightarrow> string \<times> string" where
  "headline pg =
     (if pg_failed_error_type pg = ''quota_exceeded''
      then (safe_error_message ''quota_exceeded'' (pg_failed_provider pg) (pg_failed_model pg) '''',
            ''quota_exceeded'')
      else if pg_attempted_error_type pg \<in> UNUSABLE_OUTPUT_ERRORS
      then (pg_attempted_error pg, pg_attempted_error_type pg)
      else (py_or (pg_last_error pg) ''All configured provider candidates failed or were unavailable'',
            pg_last_error_type pg))"

definition exhausted_response :: "candidate \<Rightarrow> progress \<Rightarrow> gateway_response" where
  "exhausted_response initial pg =
     (case headline pg of (error, error_type) \<Rightarrow>
       ledger_apply (pg_usage pg)
         ((gateway_response_of '''')\<lparr>gw_model_used := mc_model (fst initial),
            gw_provider_used := provider_value (mc_provider (fst initial)),
            gw_selected_model := mc_model (fst initial),
            gw_selected_provider := provider_value (mc_provider (fst initial)),
            gw_selection_reason := ps_reason (snd initial),
            gw_task_profile := ps_task_profile (snd initial),
            gw_fallback_reason := pg_fallback_reason pg,
            gw_failed_provider := pg_failed_provider pg, gw_failed_model := pg_failed_model pg,
            gw_failed_error_type := pg_failed_error_type pg,
            gw_attempt_count := pg_attempt_count pg, gw_attempts := pg_attempts pg,
            gw_error := error, gw_error_type := error_type,
            gw_retryable := (error_type \<in> RETRYABLE_PROVIDER_ERRORS)\<rparr>))"

fun candidates_loop ::
  "gateway_env \<Rightarrow> candidate \<Rightarrow> nat \<Rightarrow> candidate list \<Rightarrow> progress \<Rightarrow> gateway_response \<times> progress" where
  "candidates_loop env initial index [] pg = (exhausted_response initial pg, pg)"
| "candidates_loop env initial index (c # cs) pg =
     (if \<not> provider_available env (mc_provider (fst c))
      then candidates_loop env initial (index + 1) cs (skip_candidate pg c ''provider_unavailable'')
      else if is_open (pg_breaker pg) (candidate_key (fst c)) (ge_clock env (2 * length (pg_attempts pg)))
      then candidates_loop env initial (index + 1) cs (skip_candidate pg c ''circuit_open'')
      else case retry_loop env initial index c (max_retries env) pg of
             Final r pg' \<Rightarrow> (r, pg')
           | Next_candidate pg' \<Rightarrow> candidates_loop env initial (index + 1) cs pg'
           | Retry pg' \<Rightarrow> candidates_loop env initial (index + 1) cs pg')"

definition call_with_fallbacks ::
  "gateway_env \<Rightarrow> circuit_breaker \<Rightarrow> candidate list \<Rightarrow> gateway_response \<times> progress" where
  "call_with_fallbacks env b cs = candidates_loop env (hd cs) 0 cs (new_progress b)"

subsection \<open>The call\<close>

record gateway_state =
  gs_breaker :: circuit_breaker
  gs_cache :: "gateway_response memory_cache"

definition supported_candidates :: "candidate list \<Rightarrow> candidate list" where
  "supported_candidates = filter (\<lambda>c. mc_provider (fst c) \<in> V7_SUPPORTED_PROVIDERS)"

text \<open>\<open>call\<close>; the third component of the result lists the provider calls made.\<close>

definition gateway_call ::
  "gateway_env \<Rightarrow> routing_config \<Rightarrow> gateway_request \<Rightarrow> model_config option \<Rightarrow> gateway_state \<Rightarrow>
   (gateway_error, gateway_response \<times> gateway_state \<times> (model_config \<times> gateway_response) list) result" where
  "gateway_call env rt rq ov gs =
     (case select_model_candidates (rq_phase rq) ov (rq_routing_context rq) rt of
        Inl e \<Rightarrow> Err e
      | Inr all \<Rightarrow>
          let cs = supported_candidates all in
          if cs = [] then Err No_supported_candidate
          else
            let (m, sel) = hd cs;
                key = py_or (rq_cache_key rq) (ge_cache_key env rq sel);
                allowed = (rt_cache_enabled rt \<and> rq_allow_cache rq);
                status = (if allowed then ''miss''
                          else if rt_cache_enabled rt \<and> \<not> rq_allow_cache rq then ''bypass''
                          else ''disabled'');
                (cache, found) = (if allowed then memory_get (gs_cache gs) key (ge_time_get env)
                                  else (gs_cache gs, None))
            in case found of
                 Some r \<Rightarrow>
                   Ok (apply_selection_metadata (r\<lparr>gw_cache_hit := True, gw_cache_status := ''hit''\<rparr>) (m, sel),
                       gs\<lparr>gs_cache := cache\<rparr>, [])
               | None \<Rightarrow>
                   (let (r0, pg) = call_with_fallbacks env (gs_breaker gs) cs;
                        r = r0\<lparr>gw_cache_status := status\<rparr>;
                        cache1 = (if gw_error r = '''' \<and> allowed
                                  then memory_put cache key r (rt_cache_ttl_seconds rt) (ge_time_put env)
                                  else cache)
                    in Ok (r, \<lparr>gs_breaker = pg_breaker pg, gs_cache = cache1\<rparr>, pg_made pg)))"

text \<open>\<open>call_llm\<close>, from the gateway's response; \<open>stop_reason\<close> passes the field validator.\<close>

definition llm_response_of :: "gateway_response \<Rightarrow> llm_response" where
  "llm_response_of r =
     \<lparr>lr_text = gw_text r, lr_stop_reason = normalize_stop_reason (Some (gw_stop_reason r)),
      lr_ok = (gw_error r = ''''), lr_error = gw_error r,
      lr_error_type = (if gw_error_type r = '''' then '''' else normalize_error_type (gw_error_type r)),
      lr_model_used = gw_model_used r, lr_provider_used = gw_provider_used r,
      lr_input_tokens = gw_input_tokens r, lr_output_tokens = gw_output_tokens r,
      lr_cache_hit = gw_cache_hit r, lr_latency_ms = real_of_int (gw_latency_ms r),
      lr_cost_usd = gw_cost_usd r, lr_selected_provider = gw_selected_provider r,
      lr_selected_model = gw_selected_model r, lr_selection_reason = gw_selection_reason r,
      lr_task_profile = gw_task_profile r, lr_fallback_used = gw_fallback_used r,
      lr_fallback_reason = gw_fallback_reason r, lr_fallback_provider = gw_fallback_provider r,
      lr_fallback_model = gw_fallback_model r, lr_failed_provider = gw_failed_provider r,
      lr_failed_model = gw_failed_model r, lr_failed_error_type = gw_failed_error_type r,
      lr_attempt_count = gw_attempt_count r\<rparr>"

definition llm_request :: "routing_config \<Rightarrow> phase \<Rightarrow> string \<Rightarrow> string \<Rightarrow> string \<Rightarrow> gateway_request" where
  "llm_request rt p system prompt project =
     \<lparr>rq_phase = p, rq_system_prompt = system, rq_user_prompt = prompt,
      rq_routing_context = routing_context_for p, rq_cache_key = '''',
      rq_allow_cache = rt_cache_enabled rt, rq_project_id = project\<rparr>"

definition call_llm ::
  "gateway_env \<Rightarrow> routing_config \<Rightarrow> phase \<Rightarrow> string \<Rightarrow> string \<Rightarrow> model_config option \<Rightarrow> string \<Rightarrow>
   gateway_state \<Rightarrow>
   (gateway_error, llm_response \<times> gateway_state \<times> (model_config \<times> gateway_response) list) result" where
  "call_llm env rt p system prompt config_override project gs =
     (case gateway_call env rt (llm_request rt p system prompt project) config_override gs of
        Inl e \<Rightarrow> Err e
      | Inr (r, gs', made) \<Rightarrow> Ok (llm_response_of r, gs', made))"

subsection \<open>Invariants of the loop\<close>

text \<open>
  What holds of every way through the loop: \<open>inv\<close> is kept by a skipped candidate and by an
  attempt that goes on, and gives \<open>post\<close> where the loop returns.
\<close>

locale gateway_invariant =
  fixes env :: gateway_env
    and initial :: candidate
    and ok :: "candidate \<Rightarrow> bool"
    and inv :: "progress \<Rightarrow> bool"
    and post :: "gateway_response \<Rightarrow> progress \<Rightarrow> bool"
  assumes skip: "ok c \<Longrightarrow> inv pg \<Longrightarrow> inv (skip_candidate pg c reason)"
    and final: "ok c \<Longrightarrow> inv pg \<Longrightarrow> attempt_once env initial index c pg = Final r pg' \<Longrightarrow> post r pg'"
    and go_on: "ok c \<Longrightarrow> inv pg \<Longrightarrow>
      attempt_once env initial index c pg = Next_candidate pg' \<or>
      attempt_once env initial index c pg = Retry pg' \<Longrightarrow> inv pg'"
    and exhausted: "inv pg \<Longrightarrow> post (exhausted_response initial pg) pg"
begin

lemma retry_loop_inv:
  assumes "ok c"
  shows "inv pg \<Longrightarrow>
     (\<forall>r pg'. retry_loop env initial index c left pg = Final r pg' \<longrightarrow> post r pg') \<and>
     (\<forall>pg'. retry_loop env initial index c left pg = Next_candidate pg' \<longrightarrow> inv pg') \<and>
     (\<forall>pg'. retry_loop env initial index c left pg \<noteq> Retry pg')"
proof (induction left arbitrary: pg)
  case (Suc left)
  show ?case
  proof (cases "attempt_once env initial index c pg")
    case (Final r pg')
    with final [OF assms Suc.prems] show ?thesis by simp
  next
    case (Next_candidate pg')
    with go_on [OF assms Suc.prems disjI1] show ?thesis by simp
  next
    case (Retry pg')
    with go_on [OF assms Suc.prems disjI2] have "inv pg'" by blast
    from Suc.IH [OF this] Retry show ?thesis by simp
  qed
qed simp

lemma candidates_loop_post:
  "\<forall>c \<in> set cs. ok c \<Longrightarrow> inv pg \<Longrightarrow> candidates_loop env initial index cs pg = (r, pg') \<Longrightarrow> post r pg'"
proof (induction cs arbitrary: index pg)
  case Nil
  then show ?case using exhausted by auto
next
  case (Cons c cs)
  then have c: "ok c" and cs: "\<forall>c \<in> set cs. ok c" by simp_all
  note IH = Cons.IH [OF cs]
  consider reason where
      "candidates_loop env initial (index + 1) cs (skip_candidate pg c reason) = (r, pg')"
    | r' pg'' where "retry_loop env initial index c (max_retries env) pg = Final r' pg''" "r' = r" "pg'' = pg'"
    | pg'' where "retry_loop env initial index c (max_retries env) pg = Next_candidate pg''"
        "candidates_loop env initial (index + 1) cs pg'' = (r, pg')"
    using Cons.prems(3) retry_loop_inv [OF c Cons.prems(2), of index "max_retries env"]
    by (auto split: if_splits step.splits)
  then show ?case
  proof cases
    case 1
    then show ?thesis using IH skip [OF c Cons.prems(2)] by blast
  next
    case 2
    with retry_loop_inv [OF c Cons.prems(2)] show ?thesis by blast
  next
    case 3
    with retry_loop_inv [OF c Cons.prems(2)] have "inv pg''" by blast
    with IH 3 show ?thesis by blast
  qed
qed

end

text \<open>An attempt, by its outcome.\<close>

definition after_call :: "gateway_env \<Rightarrow> model_config \<Rightarrow> progress \<Rightarrow> progress" where
  "after_call env m pg =
     (let r0 = execute_outcome (ge_detail env) m (ge_execute env (pg_attempt_count pg) m)
      in pg\<lparr>pg_attempt_count := pg_attempt_count pg + 1, pg_usage := ledger_record (pg_usage pg) r0,
            pg_made := pg_made pg @ [(m, r0)]\<rparr>)"

lemma first_failure_frame [simp]:
  "pg_breaker (first_failure pg m c) = pg_breaker pg" "pg_made (first_failure pg m c) = pg_made pg"
  "pg_usage (first_failure pg m c) = pg_usage pg"
  "pg_attempt_count (first_failure pg m c) = pg_attempt_count pg"
  "pg_attempted_error_type (first_failure pg m c) = pg_attempted_error_type pg"
  "pg_attempted_error (first_failure pg m c) = pg_attempted_error pg"
  by (simp_all add: first_failure_def)

lemma note_failure_frame [simp]:
  "pg_breaker (note_failure pg c e t a) = pg_breaker pg" "pg_made (note_failure pg c e t a) = pg_made pg"
  "pg_usage (note_failure pg c e t a) = pg_usage pg"
  "pg_attempt_count (note_failure pg c e t a) = pg_attempt_count pg"
  "pg_attempted_error_type (note_failure pg c e t a) = pg_attempted_error_type pg"
  "pg_attempted_error (note_failure pg c e t a) = pg_attempted_error pg"
  by (simp_all add: note_failure_def Let_def)

lemma skip_candidate_frame [simp]:
  "pg_breaker (skip_candidate pg c reason) = pg_breaker pg" "pg_made (skip_candidate pg c reason) = pg_made pg"
  "pg_usage (skip_candidate pg c reason) = pg_usage pg"
  "pg_attempt_count (skip_candidate pg c reason) = pg_attempt_count pg"
  "pg_attempted_error_type (skip_candidate pg c reason) = pg_attempted_error_type pg"
  "pg_attempted_error (skip_candidate pg c reason) = pg_attempted_error pg"
  by (simp_all add: skip_candidate_def)

definition answer_of :: "gateway_env \<Rightarrow> model_config \<Rightarrow> progress \<Rightarrow> gateway_response" where
  "answer_of env m pg = execute_outcome (ge_detail env) m (ge_execute env (pg_attempt_count pg) m)"

definition hook_result :: "gateway_env \<Rightarrow> model_config \<Rightarrow> progress \<Rightarrow> gateway_response option" where
  "hook_result env m pg =
     run_before_attempt (map_option (\<lambda>h. h (pg_attempt_count pg) m) (ge_before_attempt env)) m"

lemma after_call_frame [simp]:
  "pg_breaker (after_call env m pg) = pg_breaker pg"
  "pg_attempt_count (after_call env m pg) = pg_attempt_count pg + 1"
  "pg_usage (after_call env m pg) = ledger_record (pg_usage pg) (answer_of env m pg)"
  "pg_made (after_call env m pg) = pg_made pg @ [(m, answer_of env m pg)]"
  "pg_attempted_error_type (after_call env m pg) = pg_attempted_error_type pg"
  "pg_attempted_error (after_call env m pg) = pg_attempted_error pg"
  by (simp_all add: after_call_def answer_of_def Let_def)

lemma safe_error_message_nonempty [simp]: "safe_error_message c p m d \<noteq> []"
  by (simp add: safe_error_message_def)

lemma attempt_once_cases:
  obtains (refused) r where "hook_result env (fst c) pg = Some r"
      "attempt_once env initial index c pg =
         Final (ledger_apply (pg_usage pg) (apply_selection_metadata
           (r\<lparr>gw_attempts := pg_attempts pg, gw_attempt_count := pg_attempt_count pg\<rparr>) initial)) pg"
  | (answered) "hook_result env (fst c) pg = None" "gw_error (answer_of env (fst c) pg) = ''''"
      "attempt_once env initial index c pg =
         Final (success_response initial index c (after_call env (fst c) pg) (answer_of env (fst c) pg))
           ((after_call env (fst c) pg)\<lparr>pg_breaker := reset (pg_breaker pg) (candidate_key (fst c))\<rparr>)"
  | (failed) category r pg' where "hook_result env (fst c) pg = None"
      "gw_error (answer_of env (fst c) pg) \<noteq> ''''"
      "category = normalize_error_type (gw_error_type (answer_of env (fst c) pg))"
      "pg_made pg' = pg_made pg @ [(fst c, answer_of env (fst c) pg)]"
      "pg_usage pg' = ledger_record (pg_usage pg) (answer_of env (fst c) pg)"
      "pg_attempt_count pg' = pg_attempt_count pg + 1"
      "pg_attempted_error_type pg \<noteq> '''' \<longrightarrow> pg_attempted_error pg \<noteq> '''' \<Longrightarrow>
         pg_attempted_error_type pg' \<noteq> '''' \<longrightarrow> pg_attempted_error pg' \<noteq> ''''"
      "pg_breaker pg' =
         (if category \<in> RETRYABLE_PROVIDER_ERRORS
          then record_failure (pg_breaker pg) (candidate_key (fst c)) (ge_clock env (2 * length (pg_attempts pg') - 1))
          else pg_breaker pg)"
      "gw_error r \<noteq> ''''"
      "attempt_once env initial index c pg =
         (if category \<notin> FALLBACK_ELIGIBLE_ERRORS then Final (final_error_response initial pg' r) pg'
          else if category \<in> RETRYABLE_PROVIDER_ERRORS then Retry pg' else Next_candidate pg')"
proof (cases "hook_result env (fst c) pg")
  case (Some r)
  then show thesis
    by (intro refused) (simp_all add: attempt_once_def hook_result_def Let_def)
next
  case None
  show thesis
  proof (cases "gw_error (answer_of env (fst c) pg) = ''''")
    case True
    with None show thesis
      by (intro answered)
         (simp_all add: attempt_once_def hook_result_def answer_of_def after_call_def Let_def)
  next
    case False
    let ?m = "fst c"
    let ?r0 = "answer_of env ?m pg"
    let ?cat = "normalize_error_type (gw_error_type ?r0)"
    let ?r = "?r0\<lparr>gw_error_type := ?cat,
        gw_error := safe_error_message ?cat (provider_value (mc_provider ?m)) (mc_model ?m)
          (provider_error_detail_from_message (gw_error ?r0)),
        gw_retryable := (?cat \<in> RETRYABLE_PROVIDER_ERRORS)\<rparr>"
    let ?pg2 = "note_failure (after_call env ?m pg) c ?cat (gw_error ?r) (attempt_of c ''failed'' ?cat '''')"
    let ?pg3 = "if pg_attempted_error_type ?pg2 = ''''
        then ?pg2\<lparr>pg_attempted_error_type := ?cat, pg_attempted_error := gw_error ?r\<rparr> else ?pg2"
    let ?pg4 = "if ?cat \<in> RETRYABLE_PROVIDER_ERRORS
        then ?pg3\<lparr>pg_breaker := record_failure (pg_breaker ?pg3) (candidate_key ?m)
               (ge_clock env (2 * length (pg_attempts ?pg3) - 1))\<rparr> else ?pg3"
    show thesis
    proof (rule failed [of ?cat ?pg4 ?r])
      show "attempt_once env initial index c pg =
         (if ?cat \<notin> FALLBACK_ELIGIBLE_ERRORS then Final (final_error_response initial ?pg4 ?r) ?pg4
          else if ?cat \<in> RETRYABLE_PROVIDER_ERRORS then Retry ?pg4 else Next_candidate ?pg4)"
        using None False unfolding attempt_once_def hook_result_def answer_of_def after_call_def Let_def
        by simp
    qed (use None False in simp_all)
  qed
qed

subsection \<open>What a call reports\<close>

definition usage_of :: "gateway_response \<Rightarrow> usage_ledger" where
  "usage_of r =
     \<lparr>ul_input_tokens = gw_input_tokens r, ul_output_tokens = gw_output_tokens r,
      ul_cache_read_tokens = gw_cache_read_tokens r, ul_cost_usd = gw_cost_usd r\<rparr>"

definition spent :: "(model_config \<times> gateway_response) list \<Rightarrow> usage_ledger" where
  "spent made =
     \<lparr>ul_input_tokens = sum_list (map (gw_input_tokens \<circ> snd) made),
      ul_output_tokens = sum_list (map (gw_output_tokens \<circ> snd) made),
      ul_cache_read_tokens = sum_list (map (gw_cache_read_tokens \<circ> snd) made),
      ul_cost_usd = sum_list (map (gw_cost_usd \<circ> snd) made)\<rparr>"

definition accounted :: "progress \<Rightarrow> bool" where
  "accounted pg \<longleftrightarrow> pg_attempt_count pg = length (pg_made pg) \<and> pg_usage pg = spent (pg_made pg)"

definition reported :: "gateway_response \<Rightarrow> progress \<Rightarrow> bool" where
  "reported r pg \<longleftrightarrow>
     accounted pg \<and> gw_attempt_count r = length (pg_made pg) \<and> usage_of r = spent (pg_made pg)"

lemma spent_snoc [simp]: "spent (made @ [x]) = ledger_record (spent made) (snd x)"
  by (simp add: spent_def ledger_record_def)

lemma usage_apply [simp]: "usage_of (ledger_apply u r) = u"
  by (simp add: usage_of_def ledger_apply_def)

lemma response_frames [simp]:
  "gw_attempt_count (ledger_apply u r) = gw_attempt_count r"
  "gw_error (ledger_apply u r) = gw_error r" "gw_text (ledger_apply u r) = gw_text r"
  "gw_error_type (ledger_apply u r) = gw_error_type r"
  "gw_attempt_count (apply_selection_metadata r c) = gw_attempt_count r"
  "gw_error (apply_selection_metadata r c) = gw_error r"
  "gw_text (apply_selection_metadata r c) = gw_text r"
  "gw_error_type (apply_selection_metadata r c) = gw_error_type r"
  by (simp_all add: ledger_apply_def apply_selection_metadata_def split: prod.splits)

lemma success_response_frame [simp]:
  "usage_of (success_response initial i c pg r) = pg_usage pg"
  "gw_attempt_count (success_response initial i c pg r) = pg_attempt_count pg"
  "gw_error (success_response initial i c pg r) = gw_error r"
  "gw_text (success_response initial i c pg r) = gw_text r"
  by (simp_all add: success_response_def Let_def)

lemma final_error_response_frame [simp]:
  "usage_of (final_error_response initial pg r) = pg_usage pg"
  "gw_attempt_count (final_error_response initial pg r) = pg_attempt_count pg"
  "gw_error (final_error_response initial pg r) = gw_error r"
  by (simp_all add: final_error_response_def)

lemma exhausted_response_frame [simp]:
  "usage_of (exhausted_response initial pg) = pg_usage pg"
  "gw_attempt_count (exhausted_response initial pg) = pg_attempt_count pg"
  "gw_error (exhausted_response initial pg) = fst (headline pg)"
  by (simp_all add: exhausted_response_def split: prod.splits)

interpretation usage: gateway_invariant env initial "\<lambda>_. True" accounted reported for env initial
proof unfold_locales
  fix c pg index r pg'
  assume "accounted pg" "attempt_once env initial index c pg = Final r pg'"
  then show "reported r pg'"
    by (cases rule: attempt_once_cases [of env c pg initial index])
       (auto simp: reported_def accounted_def split: if_splits)
next
  fix c pg index pg'
  assume "accounted pg" "attempt_once env initial index c pg = Next_candidate pg' \<or>
    attempt_once env initial index c pg = Retry pg'"
  then show "accounted pg'"
    by (cases rule: attempt_once_cases [of env c pg initial index])
       (auto simp: accounted_def split: if_splits)
qed (auto simp: accounted_def reported_def)

subsection \<open>A call without error\<close>

text \<open>A hook that refuses with a response of its own says so in the error.\<close>

definition hook_reports :: "gateway_env \<Rightarrow> bool" where
  "hook_reports env \<longleftrightarrow>
     (\<forall>h n m r. ge_before_attempt env = Some h \<longrightarrow> h n m = Refused_response r \<longrightarrow> gw_error r \<noteq> '''')"

definition diagnosed :: "progress \<Rightarrow> bool" where
  "diagnosed pg \<longleftrightarrow> (pg_attempted_error_type pg \<noteq> '''' \<longrightarrow> pg_attempted_error pg \<noteq> '''')"

definition answered :: "gateway_response \<Rightarrow> progress \<Rightarrow> bool" where
  "answered r pg \<longleftrightarrow>
     (gw_error r = '''' \<longrightarrow>
        has_usable_visible_text (gw_text r) \<and>
        (\<exists>made m a. pg_made pg = made @ [(m, a)] \<and> gw_text a = gw_text r \<and> gw_error a = '''' \<and>
           cb_failures (pg_breaker pg) (candidate_key m) = Some []))"

lemma governed_frame [simp]:
  "gw_error (governed r) = gw_error r" "gw_text (governed r) = gw_text r"
  "usage_of (governed r) = usage_of r" "gw_error_type (governed r) \<in> GOVERNANCE_ERROR_TYPES"
  by (simp_all add: governed_def usage_of_def) (simp add: GOVERNANCE_ERROR_TYPES_def)

lemma refusal_frame [simp]:
  "gw_error (refusal m reason category) = reason" "gw_text (refusal m reason category) = ''''"
  "gw_error_type (refusal m reason category) = category"
  by (simp_all add: refusal_def gateway_response_of_def)

lemma hook_refusal_error:
  assumes "hook_reports env" "hook_result env m pg = Some r"
  shows "gw_error r \<noteq> ''''"
proof (cases "ge_before_attempt env")
  case (Some h)
  with assms show ?thesis
    by (cases "h (pg_attempt_count pg) m")
       (auto simp: hook_result_def run_before_attempt_def hook_reports_def GOVERNANCE_BLOCKED_def py_or_def
          split: if_splits)
qed (use assms in \<open>simp add: hook_result_def run_before_attempt_def\<close>)

lemma executed_usable:
  "gw_error (execute_outcome d m out) = '''' \<Longrightarrow> has_usable_visible_text (gw_text (execute_outcome d m out))"
  by (cases out)
     (auto simp: execute_outcome_def Let_def classify_unusable_output_def gateway_response_of_def
        split: if_splits)

lemma headline_error: "diagnosed pg \<Longrightarrow> fst (headline pg) \<noteq> ''''"
  by (auto simp: headline_def diagnosed_def UNUSABLE_OUTPUT_ERRORS_def)

interpretation outcome: gateway_invariant env initial "\<lambda>_. hook_reports env" diagnosed answered
  for env initial
proof unfold_locales
  fix c pg index r pg'
  assume "hook_reports env" "diagnosed pg" "attempt_once env initial index c pg = Final r pg'"
  then show "answered r pg'"
    by (cases rule: attempt_once_cases [of env c pg initial index])
       (auto simp: answered_def reset_def answer_of_def dest: executed_usable hook_refusal_error split: if_splits)
next
  fix c pg index pg'
  assume "diagnosed pg" "attempt_once env initial index c pg = Next_candidate pg' \<or>
    attempt_once env initial index c pg = Retry pg'"
  then show "diagnosed pg'"
    by (cases rule: attempt_once_cases [of env c pg initial index])
       (auto simp: diagnosed_def split: if_splits)
next
  fix pg
  assume "diagnosed pg"
  then show "answered (exhausted_response initial pg) pg"
    using headline_error by (simp add: answered_def)
qed (simp_all add: diagnosed_def)

text \<open>The calls made, each cleared by the hook and answered by the provider, in the order of the list.\<close>

definition call_made :: "gateway_env \<Rightarrow> nat \<Rightarrow> model_config \<times> gateway_response \<Rightarrow> bool" where
  "call_made env i x \<longleftrightarrow>
     run_before_attempt (map_option (\<lambda>h. h i (fst x)) (ge_before_attempt env)) (fst x) = None \<and>
     snd x = execute_outcome (ge_detail env) (fst x) (ge_execute env i (fst x))"

definition calls_cleared :: "gateway_env \<Rightarrow> (model_config \<times> gateway_response) list \<Rightarrow> bool" where
  "calls_cleared env made \<longleftrightarrow> (\<forall>i < length made. call_made env i (made ! i))"

lemma calls_cleared_Nil [simp]: "calls_cleared env []"
  by (simp add: calls_cleared_def)

lemma calls_cleared_snoc [simp]:
  "calls_cleared env (made @ [x]) \<longleftrightarrow> calls_cleared env made \<and> call_made env (length made) x"
  by (auto simp: calls_cleared_def nth_append less_Suc_eq)

lemma call_made_answer:
  "hook_result env m pg = None \<Longrightarrow> pg_attempt_count pg = n \<Longrightarrow> call_made env n (m, answer_of env m pg)"
  by (simp add: call_made_def hook_result_def answer_of_def)

definition cleared_only :: "gateway_env \<Rightarrow> progress \<Rightarrow> bool" where
  "cleared_only env pg \<longleftrightarrow> pg_attempt_count pg = length (pg_made pg) \<and> calls_cleared env (pg_made pg)"

interpretation cleared: gateway_invariant env initial "\<lambda>_. True" "cleared_only env" "\<lambda>_. cleared_only env"
  for env initial
proof unfold_locales
  fix c pg index r pg'
  assume "cleared_only env pg" "attempt_once env initial index c pg = Final r pg'"
  then show "cleared_only env pg'"
    by (cases rule: attempt_once_cases [of env c pg initial index])
       (auto simp: cleared_only_def call_made_answer split: if_splits)
next
  fix c pg index pg'
  assume "cleared_only env pg" "attempt_once env initial index c pg = Next_candidate pg' \<or>
    attempt_once env initial index c pg = Retry pg'"
  then show "cleared_only env pg'"
    by (cases rule: attempt_once_cases [of env c pg initial index])
       (auto simp: cleared_only_def call_made_answer split: if_splits)
qed (auto simp: cleared_only_def)

subsection \<open>Order and number of the calls\<close>

text \<open>\<open>ns ! i\<close> is how often the \<open>i\<close>-th candidate was called.\<close>

definition calls_of :: "candidate list \<Rightarrow> nat list \<Rightarrow> model_config list" where
  "calls_of cs ns = concat (map2 (\<lambda>c n. replicate n (fst c)) cs ns)"

lemma calls_of_subset: "set (calls_of cs ns) \<subseteq> fst ` set cs"
  by (force simp: calls_of_def dest: set_zip_leftD)

definition called :: "progress \<Rightarrow> model_config list" where
  "called pg = map fst (pg_made pg)"

lemma calls_of_Cons [simp]: "calls_of (c # cs) (n # ns) = replicate n (fst c) @ calls_of cs ns"
  by (simp add: calls_of_def)

lemma calls_of_none: "calls_of cs (map (\<lambda>_. 0) cs) = []"
  by (induction cs) (auto simp: calls_of_def)

lemma attempt_called:
  "attempt_once env initial index c pg = s \<Longrightarrow>
   \<exists>n \<le> 1. \<forall>pg'. (\<exists>r. s = Final r pg') \<or> s = Next_candidate pg' \<or> s = Retry pg' \<longrightarrow>
     called pg' = called pg @ replicate n (fst c)"
proof (cases rule: attempt_once_cases [of env c pg initial index])
  case (refused r)
  moreover assume "attempt_once env initial index c pg = s"
  ultimately show ?thesis by (intro exI [of _ 0]) auto
next
  case answered
  moreover assume "attempt_once env initial index c pg = s"
  ultimately show ?thesis by (intro exI [of _ 1]) (auto simp: called_def)
next
  case (failed category r pg')
  moreover assume "attempt_once env initial index c pg = s"
  ultimately show ?thesis by (intro exI [of _ 1]) (auto simp: called_def split: if_splits)
qed

fun progress_after :: "step \<Rightarrow> progress" where
  "progress_after (Final r pg) = pg"
| "progress_after (Next_candidate pg) = pg"
| "progress_after (Retry pg) = pg"

lemma attempt_called_after:
  obtains n where "n \<le> 1" "called (progress_after (attempt_once env initial index c pg)) = called pg @ replicate n (fst c)"
  using attempt_called [OF refl, of env initial index c pg]
  by (cases "attempt_once env initial index c pg") auto

lemma retry_called:
  "\<exists>n \<le> left. called (progress_after (retry_loop env initial index c left pg)) = called pg @ replicate n (fst c)"
proof (induction left arbitrary: pg)
  case (Suc left)
  obtain n where n: "n \<le> 1"
    "called (progress_after (attempt_once env initial index c pg)) = called pg @ replicate n (fst c)"
    by (rule attempt_called_after)
  show ?case
  proof (cases "attempt_once env initial index c pg")
    case (Retry pg')
    obtain n' where "n' \<le> left"
      "called (progress_after (retry_loop env initial index c left pg')) = called pg' @ replicate n' (fst c)"
      using Suc.IH by blast
    with n Retry show ?thesis
      by (intro exI [of _ "n + n'"]) (simp add: replicate_add)
  qed (use n in \<open>auto intro!: exI [of _ n]\<close>)
qed simp

lemma candidates_called:
  "candidates_loop env initial index cs pg = (r, pg') \<Longrightarrow>
   \<exists>ns. length ns = length cs \<and> (\<forall>n \<in> set ns. n \<le> max_retries env) \<and>
     called pg' = called pg @ calls_of cs ns"
proof (induction cs arbitrary: index pg)
  case Nil
  then show ?case by (simp add: calls_of_def)
next
  case (Cons c cs)
  have go_on: "?case" if "candidates_loop env initial (index + 1) cs pg1 = (r, pg')"
      "called pg1 = called pg @ replicate n (fst c)" "n \<le> max_retries env" for pg1 n
    using Cons.IH [OF that(1)] that(2,3) by (force intro: exI [of _ "n # _"])
  have skip: "called (skip_candidate pg c reason) = called pg" for reason
    by (simp add: called_def)
  obtain n where n: "n \<le> max_retries env"
    "called (progress_after (retry_loop env initial index c (max_retries env) pg)) = called pg @ replicate n (fst c)"
    using retry_called by blast
  have stop: "?case" if "called pg' = called pg @ replicate n (fst c)"
    using that n(1) by (intro exI [of _ "n # map (\<lambda>_. 0) cs"]) (auto simp: calls_of_none)
  from Cons.prems n skip go_on [where n = 0] go_on [where n = n] stop show ?case
    by (auto split: if_splits step.splits)
qed

subsection \<open>What feeds the breaker\<close>

text \<open>The breaker of a key moves with the calls of that key only.\<close>

definition transport_failure :: "gateway_response \<Rightarrow> bool" where
  "transport_failure r \<longleftrightarrow>
     gw_error r \<noteq> '''' \<and> normalize_error_type (gw_error_type r) \<in> RETRYABLE_PROVIDER_ERRORS"

definition moved_by_transport :: "circuit_breaker \<Rightarrow> string \<Rightarrow> progress \<Rightarrow> bool" where
  "moved_by_transport b k pg \<longleftrightarrow>
     (cb_failures (pg_breaker pg) k \<noteq> cb_failures b k \<longrightarrow>
       (\<exists>x \<in> set (pg_made pg). candidate_key (fst x) = k \<and> (gw_error (snd x) = '''' \<or> transport_failure (snd x))))"

lemma breaker_frames [simp]:
  "k' \<noteq> k \<Longrightarrow> cb_failures (record_failure b k t) k' = cb_failures b k'"
  "k' \<noteq> k \<Longrightarrow> cb_failures (reset b k) k' = cb_failures b k'"
  by (simp_all add: record_failure_def reset_def)

interpretation breaker: gateway_invariant env initial "\<lambda>_. True"
    "moved_by_transport b k" "\<lambda>_. moved_by_transport b k" for env initial b k
proof unfold_locales
  fix c pg index r pg'
  assume "moved_by_transport b k pg" "attempt_once env initial index c pg = Final r pg'"
  then show "moved_by_transport b k pg'"
    by (cases rule: attempt_once_cases [of env c pg initial index]; cases "candidate_key (fst c) = k")
       (auto simp: moved_by_transport_def transport_failure_def split: if_splits)
next
  fix c pg index pg'
  assume "moved_by_transport b k pg" "attempt_once env initial index c pg = Next_candidate pg' \<or>
    attempt_once env initial index c pg = Retry pg'"
  then show "moved_by_transport b k pg'"
    by (cases rule: attempt_once_cases [of env c pg initial index]; cases "candidate_key (fst c) = k")
       (auto simp: moved_by_transport_def transport_failure_def split: if_splits)
qed (auto simp: moved_by_transport_def)

subsection \<open>A gateway call\<close>

lemma gateway_call_cases:
  assumes "gateway_call env rt rq ov gs = Ok (r, gs', made)"
  obtains (hit) key x m sel where "made = []" "gs_breaker gs' = gs_breaker gs"
      "rt_cache_enabled rt" "rq_allow_cache rq"
      "snd (memory_get (gs_cache gs) key (ge_time_get env)) = Some x"
      "gs_cache gs' = fst (memory_get (gs_cache gs) key (ge_time_get env))"
      "r = apply_selection_metadata (x\<lparr>gw_cache_hit := True, gw_cache_status := ''hit''\<rparr>) (m, sel)"
  | (called) key all r0 pg cache status where
      "select_model_candidates (rq_phase rq) ov (rq_routing_context rq) rt = Ok all"
      "supported_candidates all \<noteq> []"
      "call_with_fallbacks env (gs_breaker gs) (supported_candidates all) = (r0, pg)"
      "made = pg_made pg" "r = r0\<lparr>gw_cache_status := status\<rparr>" "gs_breaker gs' = pg_breaker pg"
      "cache = gs_cache gs \<or> cache = fst (memory_get (gs_cache gs) key (ge_time_get env))"
      "status \<noteq> ''hit''"
      "gs_cache gs' = (if gw_error r = '''' \<and> rt_cache_enabled rt \<and> rq_allow_cache rq
         then memory_put cache key r (rt_cache_ttl_seconds rt) (ge_time_put env) else cache)"
proof -
  obtain all where all: "select_model_candidates (rq_phase rq) ov (rq_routing_context rq) rt = Ok all"
    "supported_candidates all \<noteq> []"
    using assms by (auto simp: gateway_call_def Let_def split: sum.splits if_splits)
  obtain m sel where hd: "hd (supported_candidates all) = (m, sel)" by fastforce
  let ?key = "py_or (rq_cache_key rq) (ge_cache_key env rq sel)"
  let ?allowed = "rt_cache_enabled rt \<and> rq_allow_cache rq"
  obtain cache found where got: "(if ?allowed then memory_get (gs_cache gs) ?key (ge_time_get env)
      else (gs_cache gs, None)) = (cache, found)" by fastforce
  obtain r0 pg where loop: "call_with_fallbacks env (gs_breaker gs) (supported_candidates all) = (r0, pg)"
    by fastforce
  note step = assms [unfolded gateway_call_def all(1) sum.case Let_def hd prod.case got loop]
  show thesis
  proof (cases found)
    case (Some x)
    with step all(2) got show thesis
      by (intro hit [of ?key x m sel]) (auto split: if_splits)
  next
    case None
    define status where "status = (if ?allowed then ''miss''
        else if rt_cache_enabled rt \<and> \<not> rq_allow_cache rq then ''bypass'' else ''disabled'')"
    from None step all(2) have r: "r = r0\<lparr>gw_cache_status := status\<rparr>" "made = pg_made pg"
      "gs' = \<lparr>gs_breaker = pg_breaker pg, gs_cache = (if gw_error r = '''' \<and> ?allowed
         then memory_put cache ?key r (rt_cache_ttl_seconds rt) (ge_time_put env) else cache)\<rparr>"
      by (auto simp: status_def)
    show thesis
      by (rule called [of all r0 pg status cache ?key]) (use all loop r got in \<open>auto simp: status_def split: if_splits\<close>)
  qed
qed

lemma supported_candidates_provider [simp]:
  "c \<in> set (supported_candidates cs) \<Longrightarrow> mc_provider (fst c) = ANTHROPIC"
  by (simp add: supported_candidates_def V7_SUPPORTED_PROVIDERS_def)

lemma apply_metadata_usage [simp]:
  "usage_of (apply_selection_metadata r c) = usage_of r"
  "gw_cache_status (apply_selection_metadata r c) = gw_cache_status r"
  by (simp_all add: usage_of_def apply_selection_metadata_def split: prod.splits)

lemma status_frame [simp]:
  "usage_of (r\<lparr>gw_cache_status := st\<rparr>) = usage_of r"
  "usage_of (r\<lparr>gw_cache_hit := h\<rparr>) = usage_of r"
  by (simp_all add: usage_of_def)

lemma selected_not_empty:
  "select_model_candidates p ov rx rt = Ok all \<Longrightarrow> supported_candidates all \<noteq> []"
  by (drule selected_supported) (unfold supported_candidates_def V7_SUPPORTED_PROVIDERS_def filter_empty_conv, blast)

text \<open>A provider that answers every call at once, for concrete calls.\<close>

definition prompt_env :: gateway_env where
  "prompt_env =
     \<lparr>ge_execute = (\<lambda>n m. Answered \<lparr>rw_text = ''yes'', rw_stop_reason = ''end_turn'', rw_model_used = '''',
        rw_latency_ms = 3, rw_input_tokens = 10, rw_output_tokens = 5, rw_cache_read_tokens = 0,
        rw_cost_usd = 1 / 100, rw_error = '''', rw_error_type = ''''\<rparr>),
      ge_before_attempt = None, ge_availability = None, ge_clock = real, ge_max_retries = 3,
      ge_detail = (\<lambda>_. ''''), ge_cache_key = (\<lambda>_ _. ''key''), ge_time_get = 0, ge_time_put = 1\<rparr>"

definition idle_gateway :: gateway_state where
  "idle_gateway = \<lparr>gs_breaker = new_circuit_breaker 5 300, gs_cache = Map.empty\<rparr>"

abbreviation default_call :: "(gateway_error, gateway_response \<times> gateway_state \<times> (model_config \<times> gateway_response) list) result" where
  "default_call \<equiv> gateway_call prompt_env (runtime_routing_config default_layer)
     (llm_request (runtime_routing_config default_layer) ''audit'' '''' '''' '''') None idle_gateway"

lemma prompt_answer:
  "gw_error (execute_outcome d m (ge_execute prompt_env n m)) = ''''"
  "gw_input_tokens (execute_outcome d m (ge_execute prompt_env n m)) = 10"
  by (simp_all add: execute_outcome_def prompt_env_def Let_def gateway_response_of_def
      classify_unusable_output_def has_usable_visible_text_def py_strip_def py_lstrip_def
      py_rstrip_def py_isspace_def code_def)

lemma prompt_call:
  obtains r gs' m a where "default_call = Ok (r, gs', [(m, a)])" "gw_cache_status r \<noteq> ''hit''"
    "gw_input_tokens a = 10" "gw_error r = ''''"
    "cb_failures (gs_breaker gs') (candidate_key m) = Some []"
proof -
  let ?rt = "runtime_routing_config default_layer"
  obtain all where all: "select_model_candidates ''audit'' None (routing_context_for ''audit'') ?rt = Ok all"
    using default_selection by blast
  then obtain c cs where cs: "supported_candidates all = c # cs"
    using selected_not_empty by (metis list.exhaust)
  let ?pg = "new_progress (new_circuit_breaker 5 300)"
  let ?a = "answer_of prompt_env (fst c) ?pg"
  have ok: "gw_error ?a = ''''" "gw_input_tokens ?a = 10" by (simp_all add: answer_of_def prompt_answer)
  have hook: "hook_result prompt_env (fst c) pg = None" for pg
    by (simp add: hook_result_def run_before_attempt_def prompt_env_def)
  have "attempt_once prompt_env c 0 c ?pg =
      Final (success_response c 0 c (after_call prompt_env (fst c) ?pg) ?a)
        ((after_call prompt_env (fst c) ?pg)\<lparr>pg_breaker := reset (pg_breaker ?pg) (candidate_key (fst c))\<rparr>)"
    by (cases rule: attempt_once_cases [of prompt_env c ?pg c 0]) (use ok hook in simp_all)
  moreover have "max_retries prompt_env = Suc (Suc (Suc 0))"
    by (simp add: max_retries_def prompt_env_def)
  moreover have "provider_available prompt_env p" for p
    by (simp add: provider_available_def prompt_env_def)
  moreover have "\<not> is_open (pg_breaker ?pg) k t" for k t
    by (simp add: is_open_def new_progress_def new_circuit_breaker_def dict_get_def)
  ultimately have loop: "call_with_fallbacks prompt_env (new_circuit_breaker 5 300) (c # cs) =
      (success_response c 0 c (after_call prompt_env (fst c) ?pg) ?a,
       (after_call prompt_env (fst c) ?pg)\<lparr>pg_breaker := reset (pg_breaker ?pg) (candidate_key (fst c))\<rparr>)"
    by (simp add: call_with_fallbacks_def)
  have uncached: "\<not> rt_cache_enabled ?rt"
    by (simp add: runtime_routing_config_def default_layer_def)
  obtain m sel where c: "c = (m, sel)" by (cases c)
  let ?r = "(success_response c 0 c (after_call prompt_env m ?pg) ?a)\<lparr>gw_cache_status := ''disabled''\<rparr>"
  have call: "default_call = Ok (?r, \<lparr>gs_breaker = reset (pg_breaker ?pg) (candidate_key m), gs_cache = Map.empty\<rparr>,
      [(m, ?a)])"
    using loop uncached
    by (simp add: gateway_call_def llm_request_def all cs Let_def idle_gateway_def c)
      (simp add: new_progress_def)
  show thesis
    by (rule that [OF call]) (use ok in \<open>simp_all add: reset_def\<close>)
qed

lemma gateway_spend:
  assumes "gateway_call env rt rq ov gs = Ok (r, gs', made)"
  shows "if gw_cache_status r = ''hit''
    then made = [] \<and> gs_breaker gs' = gs_breaker gs \<and> rt_cache_enabled rt \<and> rq_allow_cache rq \<and> (\<exists>key x.
           snd (memory_get (gs_cache gs) key (ge_time_get env)) = Some x \<and> usage_of r = usage_of x)
    else usage_of r = spent made \<and> gw_attempt_count r = length made"
  using assms
proof (cases rule: gateway_call_cases)
  case (hit key x m sel)
  then show ?thesis by auto
next
  case (called key all r0 pg cache status)
  have "accounted (new_progress (gs_breaker gs))"
    by (simp add: accounted_def new_progress_def spent_def new_ledger_def)
  with called(3) have "reported r0 pg"
    unfolding call_with_fallbacks_def using usage.candidates_loop_post by blast
  with called show ?thesis by (simp add: reported_def)
qed

lemma gateway_cleared:
  assumes "gateway_call env rt rq ov gs = Ok (r, gs', made)"
  shows "calls_cleared env made"
  using assms
proof (cases rule: gateway_call_cases)
  case (called key all r0 pg cache status)
  have "cleared_only env (new_progress (gs_breaker gs))"
    by (simp add: cleared_only_def new_progress_def)
  with called(3) have "cleared_only env pg"
    unfolding call_with_fallbacks_def using cleared.candidates_loop_post by blast
  with called(4) show ?thesis by (simp add: cleared_only_def)
qed simp

text \<open>C7: a gateway call that is not answered from the cache reports, on success, on failure and
  on a refusal in the middle, exactly the sum of the tokens and of the cost of all provider calls
  it made, and their number, whatever the hook put into its refusal; a call answered from the
  cache makes no provider call and leaves the breaker alone, but reports the usage stored with
  the cached response.\<close>

theorem gateway_reports_spend:
  assumes "gateway_call env rt rq ov gs = Ok (r, gs', made)"
  shows "if gw_cache_status r = ''hit''
    then made = [] \<and> gs_breaker gs' = gs_breaker gs \<and> (\<exists>key x.
           snd (memory_get (gs_cache gs) key (ge_time_get env)) = Some x \<and> usage_of r = usage_of x)
    else usage_of r = spent made \<and> gw_attempt_count r = length made"
  using gateway_spend [OF assms] by auto

theorem gateway_reports_spend_witness:
  "\<exists>r gs' made. default_call = Ok (r, gs', made) \<and> length made = 1 \<and> gw_attempt_count r = 1 \<and>
     gw_input_tokens r = 10"
proof -
  obtain r gs' m a where call: "default_call = Ok (r, gs', [(m, a)])" "gw_cache_status r \<noteq> ''hit''"
    "gw_input_tokens a = 10" by (rule prompt_call)
  with gateway_reports_spend [OF call(1)] show ?thesis by (simp add: usage_of_def spent_def)
qed

text \<open>The provider calls of a gateway call follow the order of the supported candidates of the
  selection: each candidate is called at most as often in a row as the retry limit says and none is returned
  to, every call goes to the supported provider, was cleared by the governance hook immediately
  before, and is answered by what the executor returned.\<close>

theorem gateway_calls_in_order:
  assumes "gateway_call env rt rq ov gs = Ok (r, gs', made)"
  shows "\<exists>all ns. select_model_candidates (rq_phase rq) ov (rq_routing_context rq) rt = Ok all \<and>
      length ns = length (supported_candidates all) \<and> (\<forall>n \<in> set ns. n \<le> max_retries env) \<and>
      map fst made = calls_of (supported_candidates all) ns \<and>
      calls_cleared env made \<and> (\<forall>x \<in> set made. mc_provider (fst x) = ANTHROPIC)"
  using assms
proof (cases rule: gateway_call_cases)
  case (hit key x m sel)
  from assms obtain all where "select_model_candidates (rq_phase rq) ov (rq_routing_context rq) rt = Ok all"
    by (auto simp: gateway_call_def split: sum.splits)
  with hit(1) show ?thesis
    by (intro exI [of _ all] exI [of _ "map (\<lambda>_. 0) (supported_candidates all)"])
       (auto simp: calls_of_none)
next
  case (called key all r0 pg cache status)
  let ?cs = "supported_candidates all"
  obtain ns where ns: "length ns = length ?cs" "\<forall>n \<in> set ns. n \<le> max_retries env"
    "called pg = calls_of ?cs ns"
    using candidates_called [of env "hd ?cs" 0 ?cs "new_progress (gs_breaker gs)" r0 pg] called(3)
    by (auto simp: call_with_fallbacks_def called_def new_progress_def)
  have "mc_provider (fst x) = ANTHROPIC" if "x \<in> set (pg_made pg)" for x
  proof -
    have "fst x \<in> set (called pg)" using that by (simp add: called_def)
    then show ?thesis
      using ns(3) calls_of_subset [of ?cs ns] by (metis imageE subsetD supported_candidates_provider)
  qed
  then have "\<forall>x \<in> set made. mc_provider (fst x) = ANTHROPIC" "map fst made = calls_of ?cs ns"
    using called(4) ns(3) by (auto simp: called_def)
  with called(1) ns(1,2) gateway_cleared [OF assms] show ?thesis by blast
qed

theorem gateway_calls_in_order_witness:
  "\<exists>r gs' m a. default_call = Ok (r, gs', [(m, a)]) \<and> mc_provider m = ANTHROPIC \<and>
     calls_cleared prompt_env [(m, a)]"
proof -
  obtain r gs' m a where call: "default_call = Ok (r, gs', [(m, a)])" by (rule prompt_call)
  from gateway_calls_in_order [OF this] call show ?thesis by auto
qed

text \<open>The cache holds answers only.\<close>

definition usable :: "gateway_response \<Rightarrow> bool" where
  "usable r \<longleftrightarrow> gw_error r = '''' \<and> has_usable_visible_text (gw_text r)"

definition cache_usable :: "gateway_response memory_cache \<Rightarrow> bool" where
  "cache_usable cache \<longleftrightarrow> (\<forall>key t x. cache key = Some (t, x) \<longrightarrow> usable x)"

lemma usable_frame [simp]:
  "usable (apply_selection_metadata r c) = usable r" "usable (r\<lparr>gw_cache_status := st\<rparr>) = usable r"
  "usable (r\<lparr>gw_cache_hit := h\<rparr>) = usable r"
  by (simp_all add: usable_def)

lemma cache_usable_get:
  assumes "cache_usable cache"
  shows "cache_usable (fst (memory_get cache key now))"
    "snd (memory_get cache key now) = Some x \<Longrightarrow> usable x"
  using assms by (auto simp: cache_usable_def memory_get_def split: option.splits prod.splits if_splits)

lemma cache_usable_put: "cache_usable cache \<Longrightarrow> usable r \<Longrightarrow> cache_usable (memory_put cache key r ttl t)"
  by (auto simp: cache_usable_def memory_put_def split: if_splits)

text \<open>Success means a usable answer. When the hook names a reason for each of its refusals, a
  gateway call without error carries visible text, and either it comes from a cache that holds
  usable answers only or its last provider call gave it, without error, and cleared the failures
  recorded against that provider and model; and no call puts a failed or empty answer into the
  cache.\<close>

theorem gateway_success_is_usable:
  assumes "gateway_call env rt rq ov gs = Ok (r, gs', made)"
    and "hook_reports env" "cache_usable (gs_cache gs)"
  shows "cache_usable (gs_cache gs') \<and>
    (gw_error r = '''' \<longrightarrow> usable r \<and> (gw_cache_status r = ''hit'' \<or>
      (\<exists>m a. made \<noteq> [] \<and> last made = (m, a) \<and> gw_text a = gw_text r \<and> gw_error a = '''' \<and>
         cb_failures (gs_breaker gs') (candidate_key m) = Some [])))"
  using assms(1)
proof (cases rule: gateway_call_cases)
  case (hit key x m sel)
  with cache_usable_get [OF assms(3)] show ?thesis by simp
next
  case (called key all r0 pg cache status)
  have "diagnosed (new_progress (gs_breaker gs))" by (simp add: diagnosed_def new_progress_def)
  with called(3) assms(2) have answered: "answered r0 pg"
    unfolding call_with_fallbacks_def using outcome.candidates_loop_post by blast
  then have "gw_error r = '''' \<Longrightarrow> usable r"
    using called(5) by (simp add: answered_def usable_def)
  moreover have "cache_usable cache"
    using called(7) assms(3) cache_usable_get(1) [OF assms(3)] by auto
  ultimately have "cache_usable (gs_cache gs')"
    using called(9) cache_usable_put by simp
  moreover have "gw_error r = '''' \<longrightarrow> usable r \<and> (\<exists>m a. made \<noteq> [] \<and> last made = (m, a) \<and>
      gw_text a = gw_text r \<and> gw_error a = '''' \<and> cb_failures (gs_breaker gs') (candidate_key m) = Some [])"
    using answered called(4,5,6) by (fastforce simp: answered_def usable_def)
  ultimately show ?thesis by blast
qed

theorem gateway_success_is_usable_witness:
  "\<exists>r gs' m a. default_call = Ok (r, gs', [(m, a)]) \<and> usable r \<and> gw_text a = gw_text r"
proof -
  obtain r gs' m a where call: "default_call = Ok (r, gs', [(m, a)])" "gw_cache_status r \<noteq> ''hit''"
    "gw_error r = ''''" by (rule prompt_call)
  moreover have "hook_reports prompt_env" "cache_usable (gs_cache idle_gateway)"
    by (simp_all add: hook_reports_def prompt_env_def cache_usable_def idle_gateway_def)
  ultimately show ?thesis using gateway_success_is_usable [OF call(1)] by auto
qed

text \<open>The failures counted against a provider and model change only through a call to it that
  succeeded or failed in transport: an exhausted output limit, an empty answer, a refused
  authentication, a spent quota, an invalid request, a skipped candidate and a refusal by the
  hook leave them alone.\<close>

theorem breaker_moves_by_transport:
  assumes "gateway_call env rt rq ov gs = Ok (r, gs', made)"
    and "cb_failures (gs_breaker gs') k \<noteq> cb_failures (gs_breaker gs) k"
  shows "\<exists>(m, a) \<in> set made. candidate_key m = k \<and> (gw_error a = '''' \<or> transport_failure a)"
  using assms(1)
proof (cases rule: gateway_call_cases)
  case (hit key x m sel)
  with assms(2) show ?thesis by simp
next
  case (called key all r0 pg cache status)
  have "moved_by_transport (gs_breaker gs) k (new_progress (gs_breaker gs))"
    by (simp add: moved_by_transport_def new_progress_def)
  with called(3) have "moved_by_transport (gs_breaker gs) k pg"
    unfolding call_with_fallbacks_def using breaker.candidates_loop_post by blast
  with called(4,6) assms(2) show ?thesis by (auto simp: moved_by_transport_def)
qed

theorem breaker_moves_by_transport_witness:
  "\<exists>r gs' m a k. default_call = Ok (r, gs', [(m, a)]) \<and> candidate_key m = k \<and>
     cb_failures (gs_breaker gs') k \<noteq> cb_failures (gs_breaker idle_gateway) k \<and>
     (gw_error a = '''' \<or> transport_failure a)"
proof -
  obtain r gs' m a where call: "default_call = Ok (r, gs', [(m, a)])"
    "cb_failures (gs_breaker gs') (candidate_key m) = Some []" by (rule prompt_call)
  then have "cb_failures (gs_breaker gs') (candidate_key m) \<noteq> cb_failures (gs_breaker idle_gateway) (candidate_key m)"
    by (simp add: idle_gateway_def new_circuit_breaker_def)
  from breaker_moves_by_transport [OF call(1) this] this call(1) show ?thesis by auto
qed

end
