(* ===== verification/Governance.thy ===== *)
theory Governance
  imports Gateway Orchestrator
begin

text \<open>
  The policy gate inside a model call: \<open>run_phase_node\<close> hands \<open>call_llm\<close> a hook that asks the gate
  again before every provider attempt. The state may change while the call runs (operators act on
  it through the endpoints of theory PolicyApi), so the hook reads the state of its instant:
  \<open>states n\<close> and \<open>monotonic n\<close> are the state and the clock after \<open>n\<close> provider calls. The text of
  a budget breach (numbers rendered by \<open>format\<close>) is a parameter.
\<close>

subsection \<open>The hook\<close>

fun reversibility_value :: "reversibility \<Rightarrow> string" where
  "reversibility_value READ_ONLY = ''read_only''"
| "reversibility_value REVERSIBLE_INTERNAL = ''reversible_internal''"
| "reversibility_value IRREVERSIBLE_INTERNAL = ''irreversible_internal''"
| "reversibility_value IRREVERSIBLE_EXTERNAL = ''irreversible_external''"

fun gate_reason_text :: "(breach option \<Rightarrow> string) \<Rightarrow> gate_reason \<Rightarrow> string" where
  "gate_reason_text breach_text (Kill_switch_active reason) = ''kill switch active: '' @ reason"
| "gate_reason_text breach_text (Budget_breach b) = breach_text b"
| "gate_reason_text breach_text (Breaker_open_for action) =
     ''phase circuit breaker OPEN for '' @ action"
| "gate_reason_text breach_text (Requires_HITL_approval action rvs risk) =
     ''action '' @ action @ '' requires HITL approval (reversibility='' @ reversibility_value rvs @
     '', risk='' @ risk @ '')''"

definition pre_attempt_governance ::
  "(breach option \<Rightarrow> string) \<Rightarrow> project_state \<Rightarrow> phase \<Rightarrow> time \<Rightarrow> governance" where
  "pre_attempt_governance breach_text s p monotonic =
     (let attempt_decision = policy_gate s p (reversibility_of p) 0 0 monotonic
      in if gd_allowed attempt_decision then Cleared
         else Refused_dict
                (case gd_reason attempt_decision of
                   None \<Rightarrow> '''' | Some reason \<Rightarrow> gate_reason_text breach_text reason)
                (py_or (opt_or (gd_breach_category attempt_decision) '''') ''policy''))"

definition governed_env ::
  "gateway_env \<Rightarrow> (breach option \<Rightarrow> string) \<Rightarrow> (nat \<Rightarrow> project_state) \<Rightarrow> (nat \<Rightarrow> time) \<Rightarrow> phase \<Rightarrow> gateway_env" where
  "governed_env env breach_text states monotonic p =
     env\<lparr>ge_before_attempt := Some (\<lambda>n m. pre_attempt_governance breach_text (states n) p (monotonic n))\<rparr>"

text \<open>The call of a phase.\<close>

definition phase_call ::
  "gateway_env \<Rightarrow> (breach option \<Rightarrow> string) \<Rightarrow> (nat \<Rightarrow> project_state) \<Rightarrow> (nat \<Rightarrow> time) \<Rightarrow>
   routing_config \<Rightarrow> phase \<Rightarrow> string \<Rightarrow> string \<Rightarrow> string \<Rightarrow> gateway_state \<Rightarrow>
   (gateway_error, llm_response \<times> gateway_state \<times> (model_config \<times> gateway_response) list) result" where
  "phase_call env breach_text states monotonic rt p system prompt project gs =
     call_llm (governed_env env breach_text states monotonic p) rt p system prompt None project gs"

subsection \<open>What the hook lets through\<close>

abbreviation gate_at :: "(nat \<Rightarrow> project_state) \<Rightarrow> (nat \<Rightarrow> time) \<Rightarrow> phase \<Rightarrow> nat \<Rightarrow> gate_decision" where
  "gate_at states monotonic p n \<equiv> policy_gate (states n) p (reversibility_of p) 0 0 (monotonic n)"

lemma phase_call_gateway:
  assumes "phase_call env bt states clock rt p system prompt project gs = Ok (r, gs', made)"
  obtains g where "gateway_call (governed_env env bt states clock p) rt
      (llm_request rt p system prompt project) None gs = Ok (g, gs', made)" "r = llm_response_of g"
  using assms by (auto simp: phase_call_def call_llm_def split: sum.splits prod.splits)

lemma governed_attempt [simp]:
  "ge_before_attempt (governed_env env bt states clock p) =
     Some (\<lambda>n m. pre_attempt_governance bt (states n) p (clock n))"
  by (simp add: governed_env_def)

lemma governance_cleared [simp]:
  "run_before_attempt (Some (pre_attempt_governance bt s p m)) c = None \<longleftrightarrow>
     gd_allowed (policy_gate s p (reversibility_of p) 0 0 m)"
  by (simp add: run_before_attempt_def pre_attempt_governance_def Let_def)

lemma governance_hook_reports: "hook_reports (governed_env env bt states clock p)"
  by (simp add: hook_reports_def pre_attempt_governance_def Let_def)

subsection \<open>A refusal before the first attempt\<close>

definition refuses_start :: "gateway_env \<Rightarrow> string \<Rightarrow> bool" where
  "refuses_start env category \<longleftrightarrow>
     (\<forall>m. \<exists>r. run_before_attempt (map_option (\<lambda>h. h 0 m) (ge_before_attempt env)) m = Some r \<and>
        gw_error r \<noteq> '''' \<and> gw_error_type r = category)"

definition untouched :: "circuit_breaker \<Rightarrow> progress \<Rightarrow> bool" where
  "untouched b pg \<longleftrightarrow>
     pg_made pg = [] \<and> pg_attempt_count pg = 0 \<and> pg_breaker pg = b \<and>
     pg_attempted_error_type pg = '''' \<and> pg_failed_error_type pg \<in> {'''', ''provider_unavailable''} \<and>
     pg_last_error_type pg = ''provider_unavailable''"

definition refused_with :: "circuit_breaker \<Rightarrow> string \<Rightarrow> gateway_response \<Rightarrow> progress \<Rightarrow> bool" where
  "refused_with b category r pg \<longleftrightarrow>
     pg_made pg = [] \<and> pg_breaker pg = b \<and> gw_error r \<noteq> '''' \<and>
     gw_error_type r \<in> {category, ''provider_unavailable''}"

lemma skip_untouched: "untouched b pg \<Longrightarrow> untouched b (skip_candidate pg c reason)"
  by (auto simp: untouched_def skip_candidate_def note_failure_def first_failure_def Let_def)

lemma exhausted_untouched:
  "untouched b pg \<Longrightarrow> refused_with b category (exhausted_response initial pg) pg"
  by (auto simp: untouched_def refused_with_def exhausted_response_def headline_def
      UNUSABLE_OUTPUT_ERRORS_def py_or_def gateway_response_of_def split: prod.splits)

interpretation refused: gateway_invariant env initial "\<lambda>_. refuses_start env category"
    "untouched b" "refused_with b category" for env initial category b
proof unfold_locales
  fix c pg index r pg'
  assume ok: "refuses_start env category" "untouched b pg" and
    "attempt_once env initial index c pg = Final r pg'"
  moreover obtain x where "hook_result env (fst c) pg = Some x" "gw_error x \<noteq> ''''"
    "gw_error_type x = category"
    using ok by (auto simp: refuses_start_def untouched_def hook_result_def)
  ultimately show "refused_with b category r pg'"
    by (cases rule: attempt_once_cases [of env c pg initial index])
       (auto simp: untouched_def refused_with_def)
next
  fix c pg index pg'
  assume ok: "refuses_start env category" "untouched b pg" and
    "attempt_once env initial index c pg = Next_candidate pg' \<or>
     attempt_once env initial index c pg = Retry pg'"
  moreover obtain x where "hook_result env (fst c) pg = Some x"
    using ok by (fastforce simp: refuses_start_def untouched_def hook_result_def)
  ultimately show "untouched b pg'"
    by (cases rule: attempt_once_cases [of env c pg initial index]) auto
qed (rule skip_untouched exhausted_untouched; assumption)+

lemma refused_call:
  assumes "gateway_call env rt rq ov gs = Ok (g, gs', made)" "\<not> rt_cache_enabled rt"
    and "refuses_start env category"
  shows "made = [] \<and> gs' = gs \<and> gw_error g \<noteq> '''' \<and> gw_error_type g \<in> {category, ''provider_unavailable''}"
  using assms(1)
proof (cases rule: gateway_call_cases)
  case (called key all r0 pg cache status)
  have "untouched (gs_breaker gs) (new_progress (gs_breaker gs))"
    by (simp add: untouched_def new_progress_def)
  with called(3) assms(3) have "refused_with (gs_breaker gs) category r0 pg"
    unfolding call_with_fallbacks_def using refused.candidates_loop_post by blast
  moreover have "gs_cache gs' = gs_cache gs"
    using called assms(1,2) by (auto simp: gateway_call_def Let_def split: sum.splits prod.splits if_splits)
  ultimately show ?thesis using called by (auto simp: refused_with_def)
qed (use assms(2) in simp)

subsection \<open>Properties\<close>

lemma governance_refuses_start:
  assumes "\<not> gd_allowed (gate_at states clock p 0)"
  obtains category where "gd_breach_category (gate_at states clock p 0) = Some category"
    "category \<in> {''kill_switch'', ''budget'', ''breaker'', ''approval''}"
    "refuses_start (governed_env env bt states clock p) category"
proof -
  obtain category where c: "gd_breach_category (gate_at states clock p 0) = Some category"
    "category \<in> {''kill_switch'', ''budget'', ''breaker'', ''approval''}"
    using assms by (auto simp: gate_allowed_category gate_category split: if_splits)
  moreover have "gw_error_type (governed (refusal m reason category)) = category" for m reason
    using c(2) by (auto simp: governed_def GOVERNANCE_ERROR_TYPES_def)
  ultimately have "refuses_start (governed_env env bt states clock p) category"
    using assms by (auto simp: refuses_start_def run_before_attempt_def pre_attempt_governance_def
        Let_def opt_or_def py_or_def GOVERNANCE_BLOCKED_def)
  with c show thesis by (rule that)
qed

lemma governance_category_normal [simp]:
  "normalize_error_type ''kill_switch'' = ''kill_switch''" "normalize_error_type ''budget'' = ''budget''"
  "normalize_error_type ''breaker'' = ''breaker''" "normalize_error_type ''approval'' = ''approval''"
  "normalize_error_type ''provider_unavailable'' = ''provider_unavailable''"
  by code_simp+

lemma gateway_call_returns:
  "select_model_candidates (rq_phase rq) ov (rq_routing_context rq) rt = Ok all \<Longrightarrow>
     \<exists>r gs' made. gateway_call env rt rq ov gs = Ok (r, gs', made)"
  using selected_not_empty
  by (auto simp: gateway_call_def Let_def split: prod.split option.split)

lemma phase_call_returns:
  "\<exists>r gs' made. phase_call env bt states clock (runtime_routing_config default_layer) ''audit''
     system prompt project gs = Ok (r, gs', made)"
proof -
  let ?rt = "runtime_routing_config default_layer"
  obtain all where "select_model_candidates ''audit'' None (routing_context_for ''audit'') ?rt = Ok all"
    using default_selection by blast
  then have "select_model_candidates (rq_phase (llm_request ?rt ''audit'' system prompt project)) None
      (rq_routing_context (llm_request ?rt ''audit'' system prompt project)) ?rt = Ok all"
    by (simp add: llm_request_def)
  from gateway_call_returns [OF this] obtain g gs' made where
    "gateway_call (governed_env env bt states clock ''audit'') ?rt
      (llm_request ?rt ''audit'' system prompt project) None gs = Ok (g, gs', made)"
    by blast
  then show ?thesis by (auto simp: phase_call_def call_llm_def)
qed

lemma default_layer_uncached [simp]: "\<not> rt_cache_enabled (runtime_routing_config default_layer)"
  by (simp add: runtime_routing_config_def default_layer_def)

text \<open>C2: every provider call of a phase was allowed by the policy gate on the state of the moment
  before it, so that no call is made once the kill switch is on, the budget is spent, the breaker
  of the phase is open or an approval is missing. When the gate refuses already before the first
  attempt (and the response cache is off, its default), no provider is called, the breaker of the
  gateway and its cache stay as they are, nothing is charged, and the response is a failure that
  names the category of the gate, or an unavailable provider when every candidate was skipped
  before the gate was asked.\<close>

theorem provider_calls_obey_gate:
  assumes "phase_call env bt states clock rt p system prompt project gs = Ok (r, gs', made)"
  shows "(\<forall>i < length made. gd_allowed (gate_at states clock p i)) \<and>
    (\<not> gd_allowed (gate_at states clock p 0) \<longrightarrow> \<not> rt_cache_enabled rt \<longrightarrow>
       made = [] \<and> gs' = gs \<and> \<not> lr_ok r \<and> lr_total_tokens r = 0 \<and> lr_cost_usd r = 0 \<and>
       (gd_breach_category (gate_at states clock p 0) = Some (lr_error_type r) \<or>
        lr_error_type r = ''provider_unavailable''))"
proof (intro conjI allI impI)
  let ?env = "governed_env env bt states clock p"
  obtain g where g: "gateway_call ?env rt (llm_request rt p system prompt project) None gs = Ok (g, gs', made)"
    and r: "r = llm_response_of g"
    using assms by (rule phase_call_gateway)
  show "gd_allowed (gate_at states clock p i)" if "i < length made" for i
    using gateway_cleared [OF g] that by (auto simp: calls_cleared_def call_made_def)
  assume refused: "\<not> gd_allowed (gate_at states clock p 0)" and off: "\<not> rt_cache_enabled rt"
  obtain category where c: "gd_breach_category (gate_at states clock p 0) = Some category"
    "category \<in> {''kill_switch'', ''budget'', ''breaker'', ''approval''}"
    "refuses_start ?env category"
    using refused by (rule governance_refuses_start)
  note call = refused_call [OF g off c(3)]
  have usage: "usage_of g = spent []"
    using gateway_spend [OF g] call off by (auto split: if_splits)
  from call show "made = []" "gs' = gs" by simp_all
  from call r show "\<not> lr_ok r" by (simp add: llm_response_of_def)
  from usage r show "lr_total_tokens r = 0" "lr_cost_usd r = 0"
    by (simp_all add: usage_of_def spent_def llm_response_of_def lr_total_tokens_def)
  from call c(2) have "normalize_error_type (gw_error_type g) = gw_error_type g" "gw_error_type g \<noteq> ''''"
    by auto
  with call c(1) r show "gd_breach_category (gate_at states clock p 0) = Some (lr_error_type r) \<or>
      lr_error_type r = ''provider_unavailable''"
    by (auto simp: llm_response_of_def)
qed

theorem provider_calls_obey_gate_witness:
  "\<exists>r gs' made. phase_call prompt_env (\<lambda>_. '''') (\<lambda>_. default_project_state\<lparr>kill_switch_active := True\<rparr>)
       (\<lambda>_. 0) (runtime_routing_config default_layer) ''audit'' '''' '''' '''' idle_gateway = Ok (r, gs', made) \<and>
     made = [] \<and> \<not> lr_ok r \<and> lr_total_tokens r = 0 \<and>
     lr_error_type r \<in> {''kill_switch'', ''provider_unavailable''}"
proof -
  let ?killed = "\<lambda>_ :: nat. default_project_state\<lparr>kill_switch_active := True\<rparr>"
  obtain r gs' made where call: "phase_call prompt_env (\<lambda>_. '''') ?killed (\<lambda>_. 0)
      (runtime_routing_config default_layer) ''audit'' '''' '''' '''' idle_gateway = Ok (r, gs', made)"
    using phase_call_returns by blast
  have "gd_breach_category (gate_at ?killed (\<lambda>_. 0) ''audit'' 0) = Some ''kill_switch''"
    by (simp add: gate_category)
  with provider_calls_obey_gate [OF call] call show ?thesis by (simp add: gate_allowed_category) metis
qed

text \<open>The budget meets the provider. With the response cache off, what the orchestrator adds
  to the consumed tokens and cost after a call of a phase is the sum over all provider calls made
  for it, failed and superseded attempts included, while the number of calls it counts grows by
  one.\<close>

theorem phase_call_charges_spend:
  fixes s :: project_state
  assumes "phase_call env bt states clock rt p system prompt project gs = Ok (r, gs', made)"
    and "\<not> rt_cache_enabled rt" and "en_call oenv s p rq = r"
    and "budget_consumed_of s \<noteq> None" and "call_and_charge oenv s p rq = (t, r')"
  shows "total_tokens (consumption t) = total_tokens (consumption s) +
      (\<Sum>x \<leftarrow> made. gw_input_tokens (snd x) + gw_output_tokens (snd x)) \<and>
    total_cost_usd (consumption t) = total_cost_usd (consumption s) + (\<Sum>x \<leftarrow> made. gw_cost_usd (snd x)) \<and>
    llm_call_count (consumption t) = llm_call_count (consumption s) + 1"
proof -
  obtain g where g: "gateway_call (governed_env env bt states clock p) rt
      (llm_request rt p system prompt project) None gs = Ok (g, gs', made)" and r: "r = llm_response_of g"
    using assms(1) by (rule phase_call_gateway)
  have "usage_of g = spent made"
    using gateway_spend [OF g] assms(2) by (auto split: if_splits)
  then have spent: "lr_total_tokens r = (\<Sum>x \<leftarrow> made. gw_input_tokens (snd x) + gw_output_tokens (snd x))"
    "lr_cost_usd r = (\<Sum>x \<leftarrow> made. gw_cost_usd (snd x))"
    by (simp_all add: usage_of_def spent_def r llm_response_of_def lr_total_tokens_def sum_list_addf o_def)
  from charged_call [OF assms(5)] assms(3) have "charged s t [r]" by auto
  with assms(4) obtain d d' where "budget_consumed_of s = Some d" "budget_consumed_of t = Some d'"
    "budget_charged d d' [r]"
    by (cases "budget_consumed_of t") (auto simp: charged_def)
  then show ?thesis by (simp add: consumption_def budget_charged_def spent)
qed

theorem phase_call_charges_spend_witness:
  "\<exists>r gs' made. phase_call prompt_env (\<lambda>_. '''') (\<lambda>_. default_project_state) (\<lambda>_. 0)
       (runtime_routing_config default_layer) ''audit'' '''' '''' '''' idle_gateway = Ok (r, gs', made) \<and>
     (\<forall>oenv. en_call oenv default_project_state ''audit'' First_attempt = r \<longrightarrow>
        llm_call_count (consumption (fst (call_and_charge oenv default_project_state ''audit'' First_attempt))) = 1)"
proof -
  obtain r gs' made where call: "phase_call prompt_env (\<lambda>_. '''') (\<lambda>_. default_project_state) (\<lambda>_. 0)
      (runtime_routing_config default_layer) ''audit'' '''' '''' '''' idle_gateway = Ok (r, gs', made)"
    using phase_call_returns by blast
  have budget: "budget_consumed_of default_project_state \<noteq> None"
    "llm_call_count (consumption default_project_state) = 0"
    by (simp_all add: default_project_defs default_policy_defs consumption_def)
  have "llm_call_count (consumption (fst (call_and_charge oenv default_project_state ''audit'' First_attempt))) = 1"
    if "en_call oenv default_project_state ''audit'' First_attempt = r" for oenv
    using phase_call_charges_spend [OF call default_layer_uncached that budget(1), of
        "fst (call_and_charge oenv default_project_state ''audit'' First_attempt)"
        "snd (call_and_charge oenv default_project_state ''audit'' First_attempt)"] budget(2)
    by simp
  with call show ?thesis by blast
qed

end
