(* ===== verification/Table.thy ===== *)
theory Table
  imports Prelude
begin

text \<open>
  Tables, as the SQL statements of \<open>mas/runtime\<close> and of the evidence and calculation
  repositories under \<open>mas/knowledge\<close> use them. A table is the list of its rows; where a statement leaves
  the order of rows open it is the order of the list, on which no property rests. Every table
  here has a primary key (\<open>ident\<close>) and a partial unique index: among the rows with \<open>active\<close> no
  two have the same \<open>owner\<close>. A statement that would break either raises and changes nothing;
  references to other tables and checks are stated by the components.
\<close>

datatype sql_error = Unique_violation | Foreign_key_violation | Check_violation | Restrict_violation | Not_null_violation

subsection \<open>Statements\<close>

definition index_ok :: "('r \<Rightarrow> bool) \<Rightarrow> ('r \<Rightarrow> 'k) \<Rightarrow> 'r list \<Rightarrow> bool" where
  "index_ok active owner t \<longleftrightarrow> distinct (map owner (filter active t))"

definition table_ok :: "('r \<Rightarrow> 'i) \<Rightarrow> ('r \<Rightarrow> bool) \<Rightarrow> ('r \<Rightarrow> 'k) \<Rightarrow> 'r list \<Rightarrow> bool" where
  "table_ok ident active owner t \<longleftrightarrow> distinct (map ident t) \<and> index_ok active owner t"

text \<open>\<open>INSERT ... ON CONFLICT (owner) WHERE active DO NOTHING\<close>, for a row with \<open>active\<close>.\<close>

definition insert_row ::
  "('r \<Rightarrow> 'i) \<Rightarrow> ('r \<Rightarrow> bool) \<Rightarrow> ('r \<Rightarrow> 'k) \<Rightarrow> 'r \<Rightarrow> 'r list \<Rightarrow> (sql_error, 'r list \<times> bool) result" where
  "insert_row ident active owner r t =
     (if list_ex (\<lambda>x. active x \<and> owner x = owner r) t then Ok (t, False)
      else if list_ex (\<lambda>x. ident x = ident r) t then Err Unique_violation
      else Ok (t @ [r], True))"

text \<open>\<open>UPDATE ... SET ... WHERE P\<close>.\<close>

definition update_rows ::
  "('r \<Rightarrow> bool) \<Rightarrow> ('r \<Rightarrow> 'k) \<Rightarrow> ('r \<Rightarrow> bool) \<Rightarrow> ('r \<Rightarrow> 'r) \<Rightarrow> 'r list \<Rightarrow> (sql_error, 'r list) result" where
  "update_rows active owner P f t =
     (let t' = map (\<lambda>r. if P r then f r else r) t
      in if index_ok active owner t' then Ok t' else Err Unique_violation)"

text \<open>\<open>SELECT ... WHERE P ORDER BY k LIMIT n\<close> and its first row.\<close>

definition select_rows :: "('r \<Rightarrow> 'o :: linorder) \<Rightarrow> ('r \<Rightarrow> bool) \<Rightarrow> nat \<Rightarrow> 'r list \<Rightarrow> 'r list" where
  "select_rows k P n t = take n (sort_key k (filter P t))"

definition first_row :: "('r \<Rightarrow> 'o :: linorder) \<Rightarrow> ('r \<Rightarrow> bool) \<Rightarrow> 'r list \<Rightarrow> 'r option" where
  "first_row k P t = (case sort_key k (filter P t) of [] \<Rightarrow> None | r # _ \<Rightarrow> Some r)"

subsection \<open>Facts\<close>

lemma table_ok_Nil [simp]: "table_ok ident active owner []"
  by (simp add: table_ok_def index_ok_def)

lemma insert_row_ok:
  "insert_row ident active owner r t = Ok (t', b) \<Longrightarrow> table_ok ident active owner t \<Longrightarrow>
     table_ok ident active owner t'"
  by (force simp: insert_row_def table_ok_def index_ok_def list_ex_iff split: if_splits)

lemma insert_row_fresh:
  assumes "ident r \<notin> ident ` set t"
  shows "insert_row ident active owner r t =
       (if \<exists>x \<in> set t. active x \<and> owner x = owner r then Ok (t, False) else Ok (t @ [r], True))"
proof -
  have "ident x \<noteq> ident r" if "x \<in> set t" for x
    using assms imageI [OF that, of ident] by metis
  then have "\<not> list_ex (\<lambda>x. ident x = ident r) t" by (simp add: list_ex_iff)
  then show ?thesis by (simp add: insert_row_def list_ex_iff)
qed

lemma update_rows_map:
  "update_rows active owner P f t = Ok t' \<Longrightarrow> t' = map (\<lambda>r. if P r then f r else r) t"
  by (auto simp: update_rows_def Let_def split: if_splits)

lemma update_rows_ok:
  assumes "update_rows active owner P f t = Ok t'" "table_ok ident active owner t"
    and "\<And>r. P r \<Longrightarrow> ident (f r) = ident r"
  shows "table_ok ident active owner t'"
proof -
  have "map ident t' = map ident t"
    using update_rows_map [OF assms(1)] assms(3) by simp
  moreover have "index_ok active owner t'"
    using assms(1) by (auto simp: update_rows_def Let_def split: if_splits)
  ultimately show ?thesis using assms(2) by (simp add: table_ok_def)
qed

text \<open>An update that activates no row and moves none to another owner never raises.\<close>

lemma index_ok_deactivate:
  assumes "index_ok active owner t"
    and "\<And>r. r \<in> set t \<Longrightarrow> P r \<Longrightarrow> active (f r) \<Longrightarrow> active r \<and> owner (f r) = owner r"
  shows "index_ok active owner (map (\<lambda>r. if P r then f r else r) t)"
  using assms
proof (induction t)
  case (Cons a t)
  let ?g = "\<lambda>r. if P r then f r else r"
  have IH: "index_ok active owner (map ?g t)"
    using Cons by (auto simp: index_ok_def split: if_splits)
  have sub: "owner ` {x \<in> set (map ?g t). active x} \<subseteq> owner ` {x \<in> set t. active x}"
    using Cons.prems(2) by (fastforce simp: image_iff)
  show ?case
  proof (cases "active (?g a)")
    case True
    then have "active a" "owner (?g a) = owner a" using Cons.prems(2) [of a] by (auto split: if_splits)
    then have "owner (?g a) \<notin> owner ` {x \<in> set t. active x}"
      using Cons.prems(1) by (auto simp: index_ok_def)
    with sub have "owner (?g a) \<notin> owner ` {x \<in> set (map ?g t). active x}" by blast
    with True IH show ?thesis by (simp add: index_ok_def)
  next
    case False
    with IH show ?thesis by (simp add: index_ok_def)
  qed
qed simp

lemma update_rows_returns:
  assumes "index_ok active owner t"
    and "\<And>r. r \<in> set t \<Longrightarrow> P r \<Longrightarrow> active (f r) \<Longrightarrow> active r \<and> owner (f r) = owner r"
  shows "update_rows active owner P f t = Ok (map (\<lambda>r. if P r then f r else r) t)"
  using index_ok_deactivate [OF assms] by (simp add: update_rows_def Let_def)

lemma first_row_None: "first_row k P t = None \<longleftrightarrow> (\<forall>r \<in> set t. \<not> P r)"
proof -
  have "sort_key k (filter P t) = [] \<longleftrightarrow> filter P t = []"
    by (metis set_empty set_sort)
  then show ?thesis
    by (auto simp: first_row_def filter_empty_conv split: list.splits)
qed

lemma first_row_Some:
  assumes "first_row k P t = Some r"
  shows "r \<in> set t" "P r" "\<And>x. x \<in> set t \<Longrightarrow> P x \<Longrightarrow> k r \<le> k x"
proof -
  obtain rs where rs: "sort_key k (filter P t) = r # rs"
    using assms by (auto simp: first_row_def split: list.splits)
  then have set: "set (r # rs) = {x \<in> set t. P x}" by (metis set_filter set_sort)
  then show "r \<in> set t" "P r" by auto
  show "k r \<le> k x" if "x \<in> set t" "P x" for x
  proof -
    have "x \<in> set (r # rs)" using that set by blast
    moreover have "sorted (map k (r # rs))" using rs by (metis sorted_sort_key)
    ultimately show ?thesis by auto
  qed
qed

lemma index_ok_unique:
  assumes "index_ok active owner t" "distinct (map ident t)"
    and "r \<in> set t" "r' \<in> set t" "active r" "active r'" "owner r = owner r'"
  shows "r = r'"
  using assms(1,3-) by (auto simp: index_ok_def distinct_map inj_on_def)

lemma first_row_active:
  assumes "table_ok ident active owner t" "r \<in> set t" "active r" "owner r = p"
  shows "first_row k (\<lambda>x. owner x = p \<and> active x) t = Some r"
proof (cases "first_row k (\<lambda>x. owner x = p \<and> active x) t")
  case None
  with assms show ?thesis by (auto simp: first_row_None)
next
  case (Some x)
  from first_row_Some(1,2) [OF this] assms have "x = r"
    using index_ok_unique [of active owner t ident x r] by (auto simp: table_ok_def)
  with Some show ?thesis by simp
qed

lemma select_rows_set: "set (select_rows k P n t) \<subseteq> {r \<in> set t. P r}"
  by (auto simp: select_rows_def dest: in_set_takeD)

lemma ident_unique:
  "distinct (map ident t) \<Longrightarrow> r \<in> set t \<Longrightarrow> r' \<in> set t \<Longrightarrow> ident r = ident r' \<Longrightarrow> r = r'"
  by (auto simp: distinct_map inj_on_def)

end
