(* ===== verification/RunState.thy ===== *)
theory RunState
  imports State Table
begin

text \<open>
  Durable workflow runs (\<open>mas/runtime/run_state.py\<close>): the table \<open>workflow_runs\<close> with its partial
  unique index, and the process-local store used when there is no database. Both
  interpret one contract, \<open>run_store\<close>: while a run is active its project has no other. The table
  does so for all its updates, the process-local store only for timely ones (\<open>late_for\<close>).

  \<open>now\<close> is the instant of the statement (\<open>NOW()\<close>, or the clock of the process, read once per
  operation), fresh run ids (\<open>uuid4\<close>) are arguments. A statement of the database is atomic and
  commits at once, so an execution of several processes is a sequence of statements. An
  unavailable database is not modelled: there the operations raise or report \<open>fail\<close>.
\<close>

subsection \<open>Records\<close>

datatype run_status = Queued | Running | Succeeded | Failed

definition ACTIVE_RUN_STATUSES :: "run_status set" where
  "ACTIVE_RUN_STATUSES = {Queued, Running}"

definition TERMINAL_RUN_STATUSES :: "run_status set" where
  "TERMINAL_RUN_STATUSES = {Succeeded, Failed}"

record workflow_run =
  wr_run_id :: string
  wr_project_id :: string
  wr_status :: run_status
  wr_current_phase :: string
  wr_created_at :: time
  wr_started_at :: "time option"
  wr_finished_at :: "time option"
  wr_heartbeat_at :: "time option"
  wr_error_summary :: string
  wr_code_version :: string

record run_acquisition =
  ra_created :: bool
  ra_run :: workflow_run
  ra_durable :: bool

definition ABANDONED_RUN_ERROR_SUMMARY :: string where
  "ABANDONED_RUN_ERROR_SUMMARY =
     ''Workflow run marked failed because it appeared abandoned after runtime restart or timeout.''"

definition run_active :: "workflow_run \<Rightarrow> bool" where
  "run_active r \<longleftrightarrow> wr_status r \<in> ACTIVE_RUN_STATUSES"

text \<open>\<open>COALESCE(heartbeat_at, started_at, created_at)\<close>.\<close>

definition observed_at :: "workflow_run \<Rightarrow> time" where
  "observed_at r = opt_or (wr_heartbeat_at r) (opt_or (wr_started_at r) (wr_created_at r))"

definition stale :: "int \<Rightarrow> time \<Rightarrow> workflow_run \<Rightarrow> bool" where
  "stale threshold now r \<longleftrightarrow> run_active r \<and> observed_at r < now - real_of_int threshold"

definition new_run :: "string \<Rightarrow> string \<Rightarrow> string \<Rightarrow> time \<Rightarrow> workflow_run" where
  "new_run project version i now =
     \<lparr>wr_run_id = i, wr_project_id = project, wr_status = Queued, wr_current_phase = '''',
      wr_created_at = now, wr_started_at = None, wr_finished_at = None, wr_heartbeat_at = Some now,
      wr_error_summary = '''', wr_code_version = version\<rparr>"

definition abandoned :: "time \<Rightarrow> workflow_run \<Rightarrow> workflow_run" where
  "abandoned now r =
     r\<lparr>wr_status := Failed, wr_finished_at := Some now, wr_heartbeat_at := Some now,
       wr_error_summary := ABANDONED_RUN_ERROR_SUMMARY\<rparr>"

subsection \<open>Configuration and texts\<close>

datatype setting = No_value | Int_value int | Text_value string

definition normalize_stale_after_seconds :: "setting \<Rightarrow> int" where
  "normalize_stale_after_seconds v =
     (let parsed = (case v of
          No_value \<Rightarrow> Some 3600
        | Int_value n \<Rightarrow> Some n
        | Text_value t \<Rightarrow> if py_strip t = '''' then Some 3600 else py_int (py_strip t))
      in case parsed of
           None \<Rightarrow> 3600
         | Some n \<Rightarrow> if n \<le> 0 then 3600 else max n 300)"

definition sanitize_error_summary :: "(string \<Rightarrow> string) \<Rightarrow> nat \<Rightarrow> string \<Rightarrow> string" where
  "sanitize_error_summary redact max_length t =
     (let v0 = map (\<lambda>c. if c = CHR 0x0D \<or> c = CHR 0x0A then CHR '' '' else c) (py_or t ''Workflow failed'');
          v1 = py_or (join_with '' '' (split_ws [] (redact v0))) ''Workflow failed''
      in if max_length < length v1 then py_rstrip (take (max_length - 3) v1) @ ''...'' else v1)"

subsection \<open>The table\<close>

type_synonym run_table = "workflow_run list"

abbreviation runs_ok :: "run_table \<Rightarrow> bool" where
  "runs_ok \<equiv> table_ok wr_run_id run_active wr_project_id"

datatype run_error = Run_sql_error sql_error | Unable_to_acquire

definition insert_workflow_run ::
  "run_table \<Rightarrow> string \<Rightarrow> string \<Rightarrow> string \<Rightarrow> time \<Rightarrow> (run_error, run_table \<times> workflow_run option) result" where
  "insert_workflow_run t project version i now =
     (let r = new_run project version i now
      in case insert_row wr_run_id run_active wr_project_id r t of
           Inl e \<Rightarrow> Err (Run_sql_error e)
         | Inr (t', inserted) \<Rightarrow> Ok (t', if inserted then Some r else None))"

definition recover_stale_project_run :: "run_table \<Rightarrow> string \<Rightarrow> int \<Rightarrow> time \<Rightarrow> run_table \<times> nat" where
  "recover_stale_project_run t project threshold now =
     (let P = (\<lambda>r. wr_project_id r = project \<and> stale threshold now r)
      in (map (\<lambda>r. if P r then abandoned now r else r) t, if list_ex P t then 1 else 0))"

definition fetch_active_project_run :: "run_table \<Rightarrow> string \<Rightarrow> workflow_run option" where
  "fetch_active_project_run t project =
     first_row (\<lambda>r. - wr_created_at r) (\<lambda>r. wr_project_id r = project \<and> run_active r) t"

definition get_workflow_run :: "run_table \<Rightarrow> string \<Rightarrow> workflow_run option" where
  "get_workflow_run t i = find (\<lambda>r. wr_run_id r = i) t"

text \<open>The two attempts of \<open>create_workflow_run\<close>, with the ids \<open>i\<close> and \<open>j\<close>.\<close>

definition acquired :: "bool \<Rightarrow> bool \<Rightarrow> workflow_run \<Rightarrow> run_acquisition" where
  "acquired created durable r = \<lparr>ra_created = created, ra_run = r, ra_durable = durable\<rparr>"

definition existing_run ::
  "run_table \<Rightarrow> string \<Rightarrow> (run_error, run_table \<times> run_acquisition) result" where
  "existing_run t project =
     (case fetch_active_project_run t project of
        Some r \<Rightarrow> Ok (t, acquired False True r)
      | None \<Rightarrow> Err Unable_to_acquire)"

definition create_workflow_run ::
  "int \<Rightarrow> run_table \<Rightarrow> string \<Rightarrow> string \<Rightarrow> string \<Rightarrow> string \<Rightarrow> time \<Rightarrow>
   (run_error, run_table \<times> run_acquisition) result" where
  "create_workflow_run threshold t project version i j now =
     (case insert_workflow_run t project version i now of
        Inl e \<Rightarrow> Err e
      | Inr (t1, Some r) \<Rightarrow> Ok (t1, acquired True True r)
      | Inr (t1, None) \<Rightarrow>
          (case recover_stale_project_run t1 project threshold now of (t2, recovered) \<Rightarrow>
             if recovered = 0 then existing_run t2 project
             else case insert_workflow_run t2 project version j now of
                    Inl e \<Rightarrow> Err e
                  | Inr (t3, Some r) \<Rightarrow> Ok (t3, acquired True True r)
                  | Inr (t3, None) \<Rightarrow> existing_run t3 project))"

subsection \<open>Updates of a run\<close>

record run_update =
  up_status :: "run_status option"
  up_current_phase :: "string option"
  up_error_summary :: "string option"
  up_set_started :: bool
  up_set_finished :: bool
  up_touch_heartbeat :: bool

definition updated_run :: "run_update \<Rightarrow> time \<Rightarrow> workflow_run \<Rightarrow> workflow_run" where
  "updated_run u now r =
     r\<lparr>wr_status := opt_or (up_status u) (wr_status r),
       wr_current_phase := opt_or (up_current_phase u) (wr_current_phase r),
       wr_started_at := (if up_set_started u \<and> wr_started_at r = None then Some now else wr_started_at r),
       wr_finished_at := (if up_set_finished u then Some now else wr_finished_at r),
       wr_error_summary := opt_or (up_error_summary u) (wr_error_summary r),
       wr_heartbeat_at := (if up_touch_heartbeat u then Some now else wr_heartbeat_at r)\<rparr>"

definition update_run ::
  "run_table \<Rightarrow> string \<Rightarrow> run_update \<Rightarrow> time \<Rightarrow> (run_error, run_table \<times> workflow_run option) result" where
  "update_run t i u now =
     (case update_rows run_active wr_project_id (\<lambda>r. wr_run_id r = i) (updated_run u now) t of
        Inl e \<Rightarrow> Err (Run_sql_error e)
      | Inr t' \<Rightarrow> Ok (t', get_workflow_run t' i))"

definition run_running :: "string \<Rightarrow> run_update" where
  "run_running p = \<lparr>up_status = Some Running, up_current_phase = Some p, up_error_summary = None,
     up_set_started = True, up_set_finished = False, up_touch_heartbeat = True\<rparr>"

definition run_phase :: "string \<Rightarrow> run_update" where
  "run_phase p = \<lparr>up_status = None, up_current_phase = Some p, up_error_summary = None,
     up_set_started = False, up_set_finished = False, up_touch_heartbeat = True\<rparr>"

definition run_succeeded :: "string \<Rightarrow> run_update" where
  "run_succeeded p = \<lparr>up_status = Some Succeeded, up_current_phase = Some p, up_error_summary = Some '''',
     up_set_started = False, up_set_finished = True, up_touch_heartbeat = True\<rparr>"

definition run_failed :: "(string \<Rightarrow> string) \<Rightarrow> string \<Rightarrow> string \<Rightarrow> run_update" where
  "run_failed redact error p = \<lparr>up_status = Some Failed, up_current_phase = Some p,
     up_error_summary = Some (sanitize_error_summary redact 320 error),
     up_set_started = False, up_set_finished = True, up_touch_heartbeat = True\<rparr>"

subsection \<open>Recovery of abandoned runs\<close>

record run_recovery =
  rr_status :: string
  rr_durable :: bool
  rr_recovered_count :: nat
  rr_stale_active_run_count :: nat
  rr_stale_after_seconds :: int

definition bounded_limit :: "int \<Rightarrow> nat" where
  "bounded_limit limit = nat (max 1 (min (if limit = 0 then 1 else limit) 1000))"

definition normalize_project_id_list :: "string list \<Rightarrow> string list" where
  "normalize_project_id_list ids = filter (\<lambda>p. p \<noteq> '''') ids"

definition recoverable :: "string list \<Rightarrow> int \<Rightarrow> time \<Rightarrow> workflow_run \<Rightarrow> bool" where
  "recoverable excluded threshold now r \<longleftrightarrow> stale threshold now r \<and> wr_project_id r \<notin> set excluded"

definition recover_statement ::
  "run_table \<Rightarrow> string list \<Rightarrow> nat \<Rightarrow> int \<Rightarrow> time \<Rightarrow> run_table \<times> nat" where
  "recover_statement t excluded n threshold now =
     (let ids = map wr_run_id (select_rows observed_at (recoverable excluded threshold now) n t)
      in (map (\<lambda>r. if wr_run_id r \<in> set ids then abandoned now r else r) t, length ids))"

definition count_stale_active_runs :: "run_table \<Rightarrow> string list \<Rightarrow> int \<Rightarrow> time \<Rightarrow> nat" where
  "count_stale_active_runs t excluded threshold now =
     length (filter (recoverable excluded threshold now) t)"

definition recover_stale_active_runs ::
  "run_table \<Rightarrow> setting \<Rightarrow> string list \<Rightarrow> int \<Rightarrow> time \<Rightarrow> run_table \<times> run_recovery" where
  "recover_stale_active_runs t stale_after exclude_project_ids limit now =
     (let threshold = normalize_stale_after_seconds stale_after;
          excluded = normalize_project_id_list exclude_project_ids;
          (t', recovered) = recover_statement t excluded (bounded_limit limit) threshold now
      in (t', \<lparr>rr_status = ''ok'', rr_durable = True, rr_recovered_count = recovered,
               rr_stale_active_run_count = count_stale_active_runs t' excluded threshold now,
               rr_stale_after_seconds = threshold\<rparr>))"

subsection \<open>The store of one process\<close>

text \<open>\<open>_memory_runs\<close> and \<open>_memory_active_by_project\<close>, whose order is observed by no operation.\<close>

record memory_runs =
  mr_runs :: "string \<rightharpoonup> workflow_run"
  mr_active :: "(string \<times> string) list"

definition empty_memory_runs :: memory_runs where
  "empty_memory_runs = \<lparr>mr_runs = Map.empty, mr_active = []\<rparr>"

definition memory_active_run :: "memory_runs \<Rightarrow> string \<Rightarrow> workflow_run option" where
  "memory_active_run m project =
     (case map_of (mr_active m) project of
        None \<Rightarrow> None
      | Some i \<Rightarrow>
          if i = '''' then None
          else case mr_runs m i of
                 None \<Rightarrow> None
               | Some r \<Rightarrow> if run_active r then Some r else None)"

definition create_memory_run ::
  "memory_runs \<Rightarrow> string \<Rightarrow> string \<Rightarrow> string \<Rightarrow> time \<Rightarrow> memory_runs \<times> run_acquisition" where
  "create_memory_run m project version i now =
     (case memory_active_run m project of
        Some r \<Rightarrow> (m, acquired False False r)
      | None \<Rightarrow>
          let r = new_run project version i now
          in (\<lparr>mr_runs = (mr_runs m)(i \<mapsto> r), mr_active = assoc_set project i (mr_active m)\<rparr>,
              acquired True False r))"

definition update_memory_run ::
  "memory_runs \<Rightarrow> string \<Rightarrow> run_update \<Rightarrow> time \<Rightarrow> memory_runs \<times> workflow_run option" where
  "update_memory_run m i u now =
     (case mr_runs m i of
        None \<Rightarrow> (m, None)
      | Some existing \<Rightarrow>
          let r = updated_run u now existing; p = wr_project_id existing
          in (\<lparr>mr_runs = (mr_runs m)(i \<mapsto> r),
               mr_active = (if wr_status r \<in> TERMINAL_RUN_STATUSES
                            then filter (\<lambda>e. fst e \<noteq> p) (mr_active m)
                            else assoc_set p i (mr_active m))\<rparr>, Some r))"

definition memory_active_count :: "memory_runs \<Rightarrow> nat" where
  "memory_active_count m =
     length (filter (\<lambda>e. case mr_runs m (snd e) of None \<Rightarrow> False | Some r \<Rightarrow> run_active r) (mr_active m))"

definition memory_stale_active_count :: "memory_runs \<Rightarrow> int \<Rightarrow> string list \<Rightarrow> time \<Rightarrow> nat" where
  "memory_stale_active_count m threshold excluded now =
     length (filter (\<lambda>e. case mr_runs m (snd e) of
         None \<Rightarrow> False | Some r \<Rightarrow> recoverable excluded threshold now r) (mr_active m))"

subsection \<open>The contract of a run store\<close>

text \<open>
  What the service relies on. \<open>lookup\<close> reads a run by its id and \<open>current\<close> the active run of a
  project. An update is admissible when it does not bring a run back that is over.
\<close>

definition admissible :: "workflow_run option \<Rightarrow> run_update \<Rightarrow> bool" where
  "admissible existing u \<longleftrightarrow>
     (\<forall>r. existing = Some r \<longrightarrow> \<not> run_active r \<longrightarrow> opt_or (up_status u) (wr_status r) \<in> TERMINAL_RUN_STATUSES)"

lemma status_cases [simp]:
  "wr_status r \<in> TERMINAL_RUN_STATUSES \<longleftrightarrow> \<not> run_active r"
  "st \<in> ACTIVE_RUN_STATUSES \<longleftrightarrow> st \<notin> TERMINAL_RUN_STATUSES"
  by (cases "wr_status r"; simp add: TERMINAL_RUN_STATUSES_def run_active_def ACTIVE_RUN_STATUSES_def)
     (cases st; simp add: TERMINAL_RUN_STATUSES_def ACTIVE_RUN_STATUSES_def)

lemma updated_run_frame [simp]:
  "wr_run_id (updated_run u now r) = wr_run_id r"
  "wr_project_id (updated_run u now r) = wr_project_id r"
  "wr_status (updated_run u now r) = opt_or (up_status u) (wr_status r)"
  "run_active (updated_run u now r) \<longleftrightarrow> opt_or (up_status u) (wr_status r) \<notin> TERMINAL_RUN_STATUSES"
  by (simp_all add: updated_run_def run_active_def)

lemma new_run_frame [simp]:
  "wr_run_id (new_run p v i now) = i" "wr_project_id (new_run p v i now) = p"
  "wr_status (new_run p v i now) = Queued" "run_active (new_run p v i now)"
  by (simp_all add: new_run_def run_active_def TERMINAL_RUN_STATUSES_def)

lemma abandoned_frame [simp]:
  "wr_run_id (abandoned now r) = wr_run_id r" "wr_project_id (abandoned now r) = wr_project_id r"
  "wr_status (abandoned now r) = Failed" "\<not> run_active (abandoned now r)"
  by (simp_all add: abandoned_def run_active_def TERMINAL_RUN_STATUSES_def)

lemma acquired_frame [simp]:
  "ra_created (acquired c d r) = c" "ra_run (acquired c d r) = r"
  by (simp_all add: acquired_def)

locale run_store =
  fixes wf :: "'s \<Rightarrow> bool"
    and lookup :: "'s \<Rightarrow> string \<Rightarrow> workflow_run option"
    and current :: "'s \<Rightarrow> string \<Rightarrow> workflow_run option"
    and create :: "'s \<Rightarrow> string \<Rightarrow> string \<Rightarrow> string \<Rightarrow> string \<Rightarrow> time \<Rightarrow> 's \<Rightarrow> run_acquisition \<Rightarrow> bool"
    and update :: "'s \<Rightarrow> string \<Rightarrow> run_update \<Rightarrow> time \<Rightarrow> 's \<Rightarrow> bool"
  assumes current_active: "wf s \<Longrightarrow> current s p = Some r \<longleftrightarrow>
        lookup s (wr_run_id r) = Some r \<and> wr_project_id r = p \<and> run_active r"
    and create_wf: "wf s \<Longrightarrow> create s p v i j now s' a \<Longrightarrow> lookup s i = None \<Longrightarrow> lookup s j = None \<Longrightarrow>
        wf s' \<and> current s' p = Some (ra_run a) \<and> (\<forall>q. q \<noteq> p \<longrightarrow> current s' q = current s q)"
    and lookup_id: "wf s \<Longrightarrow> lookup s k = Some r \<Longrightarrow> wr_run_id r = k"
    and create_keeps: "wf s \<Longrightarrow> create s p v i j now s' a \<Longrightarrow> lookup s i = None \<Longrightarrow> lookup s j = None \<Longrightarrow>
        lookup s k = Some r \<Longrightarrow>
        \<exists>r'. lookup s' k = Some r' \<and> wr_project_id r' = wr_project_id r \<and> (\<not> run_active r \<longrightarrow> r' = r)"
    and create_new: "wf s \<Longrightarrow> create s p v i j now s' a \<Longrightarrow> lookup s i = None \<Longrightarrow> lookup s j = None \<Longrightarrow>
        (if ra_created a then wr_run_id (ra_run a) \<in> {i, j} else current s p = Some (ra_run a))"
    and update_wf: "wf s \<Longrightarrow> update s k u now s' \<Longrightarrow> admissible (lookup s k) u \<Longrightarrow>
        wf s' \<and> lookup s' k = map_option (updated_run u now) (lookup s k) \<and>
        (\<forall>l. l \<noteq> k \<longrightarrow> lookup s' l = lookup s l)"
begin

text \<open>A client's history, with the acquisitions it saw.\<close>

inductive history :: "'s \<Rightarrow> (string \<times> run_acquisition) list \<Rightarrow> 's \<Rightarrow> bool" where
  "history s [] s"
| "create s p v i j now s' a \<Longrightarrow> lookup s i = None \<Longrightarrow> lookup s j = None \<Longrightarrow> history s' as s'' \<Longrightarrow>
     history s ((p, a) # as) s''"
| "update s k u now s' \<Longrightarrow> admissible (lookup s k) u \<Longrightarrow> history s' as s'' \<Longrightarrow> history s as s''"

lemma history_wf: "history s as s' \<Longrightarrow> wf s \<Longrightarrow> wf s'"
  by (induction rule: history.induct) (auto dest: create_wf update_wf)

definition holds :: "'s \<Rightarrow> string \<Rightarrow> string \<Rightarrow> bool" where
  "holds s p k \<longleftrightarrow> (\<exists>r. current s p = Some r \<and> wr_run_id r = k)"

definition over :: "'s \<Rightarrow> string \<Rightarrow> bool" where
  "over s k \<longleftrightarrow> (\<exists>r. lookup s k = Some r \<and> \<not> run_active r)"

lemma holds_lookup: "wf s \<Longrightarrow> holds s p k \<Longrightarrow> \<exists>r. lookup s k = Some r \<and> run_active r \<and> wr_project_id r = p"
  by (auto simp: holds_def current_active)

lemma over_not_holds: "wf s \<Longrightarrow> over s k \<Longrightarrow> \<not> holds s p k"
  by (auto simp: over_def dest!: holds_lookup)

lemma holdsI: "wf s \<Longrightarrow> lookup s k = Some r \<Longrightarrow> run_active r \<Longrightarrow> wr_project_id r = p \<Longrightarrow> holds s p k"
  using lookup_id by (auto simp: holds_def current_active)

lemma update_step:
  assumes "wf s" "update s k u now s'" "admissible (lookup s k) u"
  shows "over s l \<Longrightarrow> over s' l" "holds s p l \<Longrightarrow> holds s' p l \<or> over s' l"
proof -
  note upd = update_wf [OF assms]
  show "over s' l" if "over s l"
    using upd assms(3) that by (cases "l = k") (auto simp: over_def admissible_def)
  assume "holds s p l"
  then obtain r where r: "lookup s l = Some r" "run_active r" "wr_project_id r = p"
    using holds_lookup assms(1) by blast
  then obtain r' where "lookup s' l = Some r'" "wr_project_id r' = p"
    using upd by (cases "l = k") auto
  moreover have "wf s'" using upd by blast
  ultimately show "holds s' p l \<or> over s' l"
    unfolding over_def using holdsI by blast
qed

lemma create_step:
  assumes "wf s" "create s q v i j now s' a" "lookup s i = None" "lookup s j = None"
  shows "over s l \<Longrightarrow> over s' l"
    and "holds s p l \<Longrightarrow>
      (holds s' p l \<and> (q = p \<longrightarrow> \<not> ra_created a \<and> wr_run_id (ra_run a) = l)) \<or> over s' l"
proof -
  note new = create_wf [OF assms] and keeps = create_keeps [OF assms] and which = create_new [OF assms]
  show "over s' l" if "over s l" using that keeps [of l] by (fastforce simp: over_def)
  assume holds: "holds s p l"
  then obtain r where r: "lookup s l = Some r" "run_active r" "wr_project_id r = p"
    using holds_lookup assms(1) by blast
  from keeps [OF r(1)] r(3) obtain r' where r': "lookup s' l = Some r'" "wr_project_id r' = p" by blast
  show "(holds s' p l \<and> (q = p \<longrightarrow> \<not> ra_created a \<and> wr_run_id (ra_run a) = l)) \<or> over s' l"
  proof (cases "run_active r'")
    case True
    then have now_holds: "holds s' p l" using new r' by (blast intro: holdsI)
    have "\<not> ra_created a \<and> wr_run_id (ra_run a) = l" if "q = p"
    proof -
      have "wr_run_id (ra_run a) = l" using now_holds new that by (auto simp: holds_def)
      moreover from this which have "\<not> ra_created a" using r(1) assms(3,4) by (auto split: if_splits)
      ultimately show ?thesis by simp
    qed
    with now_holds show ?thesis by blast
  next
    case False
    with r' show ?thesis by (simp add: over_def)
  qed
qed

lemma over_stays: "history s as s' \<Longrightarrow> wf s \<Longrightarrow> over s k \<Longrightarrow> over s' k"
proof (induction rule: history.induct)
  case (2 s p v i j now s' a as s'')
  then show ?case using create_wf create_step(1) by blast
next
  case (3 s l u now s' as s'')
  then show ?case using update_wf update_step(1) by blast
qed

text \<open>While a run is held nobody acquires another one for its project.\<close>

lemma held_alone:
  "history s as s' \<Longrightarrow> wf s \<Longrightarrow> holds s p k \<Longrightarrow> holds s' p k \<Longrightarrow>
     \<forall>(q, a) \<in> set as. q = p \<longrightarrow> \<not> ra_created a \<and> wr_run_id (ra_run a) = k"
proof (induction rule: history.induct)
  case (2 s q v i j now s' a as s'')
  have wf: "wf s'" using create_wf [OF 2(6,1,2,3)] by blast
  note wf = this history_wf [OF 2(4) this]
  from create_step(2) [OF 2(6,1,2,3) 2(7)]
  have "holds s' p k \<and> (q = p \<longrightarrow> \<not> ra_created a \<and> wr_run_id (ra_run a) = k)"
    using over_stays [OF 2(4) wf(1)] over_not_holds [OF wf(2)] 2(8) by blast
  with 2(5) [OF wf(1) _ 2(8)] show ?case by auto
next
  case (3 s l u now s' as s'')
  have wf: "wf s'" using update_wf [OF 3(5,1,2)] by blast
  note wf = this history_wf [OF 3(3) this]
  from update_step(2) [OF 3(5,1,2) 3(6)]
  have "holds s' p k"
    using over_stays [OF 3(3) wf(1)] over_not_holds [OF wf(2)] 3(7) by blast
  with 3(4) [OF wf(1) _ 3(7)] show ?case by blast
qed simp

end

subsection \<open>The table provides it\<close>

lemma get_run_iff: "runs_ok t \<Longrightarrow> get_workflow_run t i = Some r \<longleftrightarrow> r \<in> set t \<and> wr_run_id r = i"
proof
  assume ok: "runs_ok t" and r: "r \<in> set t \<and> wr_run_id r = i"
  then have "find (\<lambda>r. wr_run_id r = i) t \<noteq> None" by (auto simp: find_None_iff)
  then obtain x where x: "find (\<lambda>r. wr_run_id r = i) t = Some x" by blast
  then have "x \<in> set t" "wr_run_id x = i" by (auto simp: find_Some_iff)
  with ok r have "x = r" using ident_unique [of wr_run_id t x r] by (simp add: table_ok_def)
  with x show "get_workflow_run t i = Some r" by (simp add: get_workflow_run_def)
qed (auto simp: get_workflow_run_def find_Some_iff)

lemma get_run_None: "get_workflow_run t i = None \<longleftrightarrow> i \<notin> wr_run_id ` set t"
  by (auto simp: get_workflow_run_def find_None_iff)

lemma fetch_iff:
  assumes "runs_ok t"
  shows "fetch_active_project_run t p = Some r \<longleftrightarrow> r \<in> set t \<and> wr_project_id r = p \<and> run_active r"
  unfolding fetch_active_project_run_def
  using first_row_active [OF assms, of r p] by (auto dest: first_row_Some(1,2))

lemma fetch_None:
  "fetch_active_project_run t p = None \<longleftrightarrow> (\<forall>r \<in> set t. \<not> (wr_project_id r = p \<and> run_active r))"
  by (simp add: fetch_active_project_run_def first_row_None)

lemma insert_run_fresh:
  assumes "get_workflow_run t i = None"
  shows "insert_workflow_run t p v i now =
    (if fetch_active_project_run t p = None then Ok (t @ [new_run p v i now], Some (new_run p v i now))
     else Ok (t, None))"
proof -
  have "wr_run_id (new_run p v i now) \<notin> wr_run_id ` set t"
    using assms by (simp add: get_run_None)
  note fresh = insert_row_fresh [OF this, of run_active wr_project_id]
  have "(\<exists>x \<in> set t. run_active x \<and> wr_project_id x = p) \<longleftrightarrow> fetch_active_project_run t p \<noteq> None"
    unfolding fetch_None by blast
  with fresh show ?thesis by (simp add: insert_workflow_run_def Let_def)
qed

lemma recover_project_rows:
  "fst (recover_stale_project_run t p threshold now) =
     map (\<lambda>r. if wr_project_id r = p \<and> stale threshold now r then abandoned now r else r) t"
  by (simp add: recover_stale_project_run_def)

lemma recover_project_ok: "runs_ok t \<Longrightarrow> runs_ok (fst (recover_stale_project_run t p threshold now))"
  unfolding recover_project_rows table_ok_def
  by (intro conjI index_ok_deactivate) (auto simp: comp_def if_distrib [of wr_run_id] cong: if_cong)

text \<open>Failing the active run of a project leaves it without one.\<close>

lemma abandon_frees:
  assumes "runs_ok t" "fetch_active_project_run t p = Some r"
    and t2: "t2 = map (\<lambda>x. if x = r then abandoned now x else x) t"
  shows "runs_ok t2" "fetch_active_project_run t2 p = None" "wr_run_id ` set t2 = wr_run_id ` set t"
proof -
  let ?g = "\<lambda>x. if x = r then abandoned now x else x"
  have ids: "map wr_run_id (map ?g t) = map wr_run_id t" by simp
  show "runs_ok t2"
    unfolding t2 table_ok_def ids
    using assms(1) index_ok_deactivate [of run_active wr_project_id t "\<lambda>x. x = r" "abandoned now"]
    by (simp add: table_ok_def)
  show "fetch_active_project_run t2 p = None"
  proof (rule ccontr)
    assume "fetch_active_project_run t2 p \<noteq> None"
    then obtain y where y: "y \<in> set t2" "wr_project_id y = p" "run_active y"
      unfolding fetch_None by blast
    from y(1) obtain x where x: "x \<in> set t" "y = ?g x" unfolding t2 set_map by blast
    show False
    proof (cases "x = r")
      case False
      with x y have "fetch_active_project_run t p = Some x" by (simp add: fetch_iff [OF assms(1)])
      with assms(2) False show False by simp
    qed (use x y in simp)
  qed
  show "wr_run_id ` set t2 = wr_run_id ` set t"
    unfolding t2 by (metis ids list.set_map)
qed

text \<open>The recovery of one project.\<close>

lemma recover_project_eq:
  assumes ok: "runs_ok t"
  shows "recover_stale_project_run t p threshold now =
    (case fetch_active_project_run t p of
       None \<Rightarrow> (t, 0)
     | Some r \<Rightarrow> if stale threshold now r then (map (\<lambda>x. if x = r then abandoned now x else x) t, 1) else (t, 0))"
proof -
  let ?P = "\<lambda>x. wr_project_id x = p \<and> stale threshold now x"
  obtain t2 n where rec: "recover_stale_project_run t p threshold now = (t2, n)" by fastforce
  have t2: "t2 = map (\<lambda>x. if ?P x then abandoned now x else x) t"
    and n: "n = (if list_ex ?P t then 1 else 0)"
    using rec by (auto simp: recover_stale_project_run_def Let_def)
  show ?thesis
  proof (cases "fetch_active_project_run t p")
    case None
    then have "\<not> ?P x" if "x \<in> set t" for x using that by (auto simp: fetch_None stale_def)
    then have "t2 = t" "\<not> list_ex ?P t" unfolding t2 list_ex_iff by (auto intro!: map_idI)
    with None rec n show ?thesis by simp
  next
    case (Some r)
    note r = Some [unfolded fetch_iff [OF ok]]
    have hit: "?P x \<longleftrightarrow> x = r \<and> stale threshold now r" if "x \<in> set t" for x
      using Some that fetch_iff [OF ok, of p x] r by (auto simp: stale_def)
    have ex: "list_ex ?P t \<longleftrightarrow> stale threshold now r"
      using hit r by (auto simp: list_ex_iff)
    have "t2 = map (\<lambda>x. if x = r \<and> stale threshold now r then abandoned now x else x) t"
      unfolding t2 using map_cong [OF refl, of t] hit by simp
    with Some rec n ex show ?thesis by (simp cong: if_cong)
  qed
qed

text \<open>What \<open>create_workflow_run\<close> does when no other process interferes.\<close>

lemma create_run_eq:
  assumes ok: "runs_ok t" and i: "get_workflow_run t i = None" and j: "get_workflow_run t j = None"
  shows "create_workflow_run threshold t p v i j now =
    (case fetch_active_project_run t p of
       None \<Rightarrow> Ok (t @ [new_run p v i now], acquired True True (new_run p v i now))
     | Some r \<Rightarrow>
         if stale threshold now r
         then Ok (map (\<lambda>x. if x = r then abandoned now x else x) t @ [new_run p v j now],
                  acquired True True (new_run p v j now))
         else Ok (t, acquired False True r))"
proof (cases "fetch_active_project_run t p")
  case None
  with insert_run_fresh [OF i] show ?thesis by (simp add: create_workflow_run_def)
next
  case (Some r)
  note rec = recover_project_eq [OF ok, of p threshold now, unfolded Some option.case]
  show ?thesis
  proof (cases "stale threshold now r")
    case False
    with Some rec insert_run_fresh [OF i] show ?thesis
      by (simp add: create_workflow_run_def existing_run_def)
  next
    case True
    note free = abandon_frees [OF ok Some refl, of now]
    have "get_workflow_run (map (\<lambda>x. if x = r then abandoned now x else x) t) j = None"
      using j unfolding get_run_None free(3) .
    with free(2) Some True rec insert_run_fresh [OF i] insert_run_fresh [of _ j] show ?thesis
      by (simp add: create_workflow_run_def)
  qed
qed

definition table_create ::
  "int \<Rightarrow> run_table \<Rightarrow> string \<Rightarrow> string \<Rightarrow> string \<Rightarrow> string \<Rightarrow> time \<Rightarrow> run_table \<Rightarrow> run_acquisition \<Rightarrow> bool" where
  "table_create threshold t p v i j now t' a \<longleftrightarrow>
     create_workflow_run threshold t p v i j now = Ok (t', a)"

definition table_update :: "run_table \<Rightarrow> string \<Rightarrow> run_update \<Rightarrow> time \<Rightarrow> run_table \<Rightarrow> bool" where
  "table_update t k u now t' \<longleftrightarrow> (\<exists>r. update_run t k u now = Ok (t', r))"

lemma update_run_rows:
  assumes "update_run t k u now = Ok (t', r)"
  shows "t' = map (\<lambda>x. if wr_run_id x = k then updated_run u now x else x) t"
    and "runs_ok t \<Longrightarrow> runs_ok t'"
proof -
  have "update_rows run_active wr_project_id (\<lambda>r. wr_run_id r = k) (updated_run u now) t = Ok t'"
    using assms by (auto simp: update_run_def split: sum.splits)
  then show "t' = map (\<lambda>x. if wr_run_id x = k then updated_run u now x else x) t"
    and "runs_ok t \<Longrightarrow> runs_ok t'"
    by (rule update_rows_map, rule update_rows_ok) simp_all
qed

lemma lookup_update:
  assumes "runs_ok t" "update_run t k u now = Ok (t', r)"
  shows "get_workflow_run t' l =
    (if l = k then map_option (updated_run u now) (get_workflow_run t k) else get_workflow_run t l)"
proof -
  have "find (\<lambda>r. wr_run_id r = l) (map (\<lambda>x. if wr_run_id x = k then updated_run u now x else x) t) =
    (if l = k then map_option (updated_run u now) (find (\<lambda>r. wr_run_id r = k) t) else find (\<lambda>r. wr_run_id r = l) t)"
    by (induction t) auto
  then show ?thesis unfolding update_run_rows(1) [OF assms(2)] get_workflow_run_def .
qed

lemma runs_ok_snoc:
  assumes "runs_ok t" "get_workflow_run t i = None" "fetch_active_project_run t p = None"
  shows "runs_ok (t @ [new_run p v i now])"
proof -
  have "insert_row wr_run_id run_active wr_project_id (new_run p v i now) t = Ok (t @ [new_run p v i now], True)"
    using insert_row_fresh [of wr_run_id "new_run p v i now" t run_active wr_project_id] assms(2,3)
    unfolding get_run_None fetch_None by auto
  then show ?thesis using assms(1) by (rule insert_row_ok)
qed

text \<open>The three ways a run is acquired.\<close>

lemma table_create_cases:
  assumes "runs_ok t" "table_create threshold t p v i j now t' a"
    and "get_workflow_run t i = None" "get_workflow_run t j = None"
  obtains (fresh) "fetch_active_project_run t p = None" "t' = t @ [new_run p v i now]"
      "a = acquired True True (new_run p v i now)"
  | (takeover) r t2 where "fetch_active_project_run t p = Some r" "stale threshold now r"
      "t2 = map (\<lambda>x. if x = r then abandoned now x else x) t"
      "runs_ok t2" "fetch_active_project_run t2 p = None" "get_workflow_run t2 j = None"
      "t' = t2 @ [new_run p v j now]" "a = acquired True True (new_run p v j now)"
  | (busy) r where "fetch_active_project_run t p = Some r" "\<not> stale threshold now r" "t' = t"
      "a = acquired False True r"
proof -
  note eq = create_run_eq [OF assms(1,3,4), of threshold p v now]
  show thesis
  proof (cases "fetch_active_project_run t p")
    case None
    with eq assms(2) show thesis by (intro fresh) (auto simp: table_create_def)
  next
    case (Some r)
    show thesis
    proof (cases "stale threshold now r")
      case False
      with Some eq assms(2) show thesis by (intro busy) (auto simp: table_create_def)
    next
      case True
      note free = abandon_frees [OF assms(1) Some refl, of now]
      let ?t2 = "map (\<lambda>x. if x = r then abandoned now x else x) t"
      have "get_workflow_run ?t2 j = None" using assms(4) unfolding get_run_None free(3) .
      with free(1,2) show thesis
        using Some True eq assms(2) by (intro takeover [of r ?t2]) (auto simp: table_create_def)
    qed
  qed
qed

lemma lookup_snoc:
  "get_workflow_run (t @ [new_run p v i now]) k =
     (case get_workflow_run t k of Some r \<Rightarrow> Some r | None \<Rightarrow> if k = i then Some (new_run p v i now) else None)"
  unfolding get_workflow_run_def by (induction t) auto

lemma lookup_abandon:
  "get_workflow_run (map (\<lambda>x. if x = r then abandoned now x else x) t) k =
     map_option (\<lambda>x. if x = r then abandoned now x else x) (get_workflow_run t k)"
  unfolding get_workflow_run_def by (induction t) auto

lemma fetch_other:
  assumes "runs_ok t" "runs_ok t'"
    and "\<And>r. wr_project_id r = q \<Longrightarrow> run_active r \<Longrightarrow> r \<in> set t' \<longleftrightarrow> r \<in> set t"
  shows "fetch_active_project_run t' q = fetch_active_project_run t q"
proof -
  have "fetch_active_project_run t' q = Some r \<longleftrightarrow> fetch_active_project_run t q = Some r" for r
    using assms(3) [of r] unfolding fetch_iff [OF assms(1)] fetch_iff [OF assms(2)] by blast
  then show ?thesis by (metis option.exhaust)
qed

interpretation durable: run_store runs_ok get_workflow_run fetch_active_project_run
    "table_create threshold" table_update for threshold
proof unfold_locales
  show "fetch_active_project_run t p = Some r \<longleftrightarrow>
      get_workflow_run t (wr_run_id r) = Some r \<and> wr_project_id r = p \<and> run_active r"
    if "runs_ok t" for t p r
    using that by (simp add: fetch_iff get_run_iff)
  show "wr_run_id r = k" if "runs_ok t" "get_workflow_run t k = Some r" for t k r
    using that by (simp add: get_run_iff)
next
  fix t p v i j now t' a
  assume asm: "runs_ok t" "table_create threshold t p v i j now t' a"
    "get_workflow_run t i = None" "get_workflow_run t j = None"
  show "runs_ok t' \<and> fetch_active_project_run t' p = Some (ra_run a) \<and>
      (\<forall>q. q \<noteq> p \<longrightarrow> fetch_active_project_run t' q = fetch_active_project_run t q)"
    using asm
  proof (cases rule: table_create_cases)
    case fresh
    then have ok: "runs_ok t'" using runs_ok_snoc asm by simp
    moreover have "fetch_active_project_run t' q = fetch_active_project_run t q" if "q \<noteq> p" for q
      using asm(1) ok by (rule fetch_other) (use that fresh in auto)
    moreover have "fetch_active_project_run t' p = Some (ra_run a)"
      unfolding fetch_iff [OF ok] using fresh by simp
    ultimately show ?thesis by blast
  next
    case (takeover r t2)
    note r = takeover(1) [unfolded fetch_iff [OF asm(1)]]
    have ok: "runs_ok t'" using runs_ok_snoc takeover by simp
    moreover have "fetch_active_project_run t' q = fetch_active_project_run t q" if "q \<noteq> p" for q
      using asm(1) ok
    proof (rule fetch_other)
      fix x assume x: "wr_project_id x = q" "run_active x"
      with that r have "x \<noteq> r" "x \<noteq> new_run p v j now" by auto
      moreover from x(2) have "x \<noteq> abandoned now y" for y by auto
      ultimately show "x \<in> set t' \<longleftrightarrow> x \<in> set t"
        unfolding takeover(7,3) by (auto simp: image_iff)
    qed
    moreover have "fetch_active_project_run t' p = Some (ra_run a)"
      unfolding fetch_iff [OF ok] using takeover by simp
    ultimately show ?thesis by blast
  next
    case (busy r)
    with asm(1) show ?thesis by simp
  qed
  show "if ra_created a then wr_run_id (ra_run a) \<in> {i, j}
      else fetch_active_project_run t p = Some (ra_run a)"
    using asm by (cases rule: table_create_cases) simp_all
  show "\<exists>r'. get_workflow_run t' k = Some r' \<and> wr_project_id r' = wr_project_id r \<and>
      (\<not> run_active r \<longrightarrow> r' = r)" if "get_workflow_run t k = Some r" for k r
    using asm
  proof (cases rule: table_create_cases)
    case (takeover x t2)
    then have "run_active x" using fetch_iff [OF asm(1)] by blast
    with takeover that show ?thesis by (auto simp: lookup_snoc lookup_abandon)
  qed (use that in \<open>auto simp: lookup_snoc\<close>)
next
  fix t k u now t'
  assume "runs_ok t" "table_update t k u now t'"
  then show "runs_ok t' \<and> get_workflow_run t' k = map_option (updated_run u now) (get_workflow_run t k) \<and>
      (\<forall>l. l \<noteq> k \<longrightarrow> get_workflow_run t' l = get_workflow_run t l)"
    using lookup_update update_run_rows(2) by (auto simp: table_update_def)
qed

subsection \<open>The process-local store provides it\<close>

text \<open>The pointers of the store are exactly its active runs.\<close>

definition memory_ok :: "memory_runs \<Rightarrow> bool" where
  "memory_ok m \<longleftrightarrow>
     (\<forall>i r. mr_runs m i = Some r \<longrightarrow> wr_run_id r = i \<and> i \<noteq> '''') \<and>
     (\<forall>p i. map_of (mr_active m) p = Some i \<longleftrightarrow>
        (\<exists>r. mr_runs m i = Some r \<and> wr_project_id r = p \<and> run_active r))"

definition memory_create ::
  "memory_runs \<Rightarrow> string \<Rightarrow> string \<Rightarrow> string \<Rightarrow> string \<Rightarrow> time \<Rightarrow> memory_runs \<Rightarrow> run_acquisition \<Rightarrow> bool" where
  "memory_create m p v i j now m' a \<longleftrightarrow> i \<noteq> '''' \<and> create_memory_run m p v i now = (m', a)"

text \<open>
  An update of a run that is over takes the pointer of its project away, whichever run the
  pointer names (\<open>update_memory_guard\<close> below). Such a late update breaks the contract, so the store
  provides it only to callers whose updates are timely: the update is that of the code, and the
  run it names is active or its project has no active run.
\<close>

definition late_for :: "memory_runs \<Rightarrow> string \<Rightarrow> bool" where
  "late_for m k \<longleftrightarrow>
     (\<exists>x. mr_runs m k = Some x \<and> \<not> run_active x \<and> memory_active_run m (wr_project_id x) \<noteq> None)"

definition timely_update :: "memory_runs \<Rightarrow> string \<Rightarrow> run_update \<Rightarrow> time \<Rightarrow> memory_runs \<Rightarrow> bool" where
  "timely_update m k u now m' \<longleftrightarrow> fst (update_memory_run m k u now) = m' \<and> \<not> late_for m k"

lemma map_of_filter_key: "map_of (filter (\<lambda>e. fst e \<noteq> p) kvs) q = (if q = p then None else map_of kvs q)"
  by (induction kvs) auto

lemma memory_ok_id: "memory_ok m \<Longrightarrow> mr_runs m i = Some r \<Longrightarrow> wr_run_id r = i \<and> i \<noteq> ''''"
  by (simp add: memory_ok_def)

lemma memory_ok_pointer:
  "memory_ok m \<Longrightarrow> map_of (mr_active m) p = Some i \<longleftrightarrow>
     (\<exists>r. mr_runs m i = Some r \<and> wr_project_id r = p \<and> run_active r)"
  by (simp add: memory_ok_def)

lemma memory_active_iff:
  assumes "memory_ok m"
  shows "memory_active_run m p = Some r \<longleftrightarrow>
    mr_runs m (wr_run_id r) = Some r \<and> wr_project_id r = p \<and> run_active r"
proof
  assume "memory_active_run m p = Some r"
  then obtain i where "map_of (mr_active m) p = Some i" "mr_runs m i = Some r"
    by (auto simp: memory_active_run_def split: option.splits if_splits)
  with memory_ok_pointer [OF assms, of p i] memory_ok_id [OF assms, of i r]
  show "mr_runs m (wr_run_id r) = Some r \<and> wr_project_id r = p \<and> run_active r" by auto
next
  assume r: "mr_runs m (wr_run_id r) = Some r \<and> wr_project_id r = p \<and> run_active r"
  then have "map_of (mr_active m) p = Some (wr_run_id r)" using memory_ok_pointer [OF assms] by blast
  with r memory_ok_id [OF assms] show "memory_active_run m p = Some r"
    by (auto simp: memory_active_run_def)
qed

lemma memory_active_None:
  "memory_ok m \<Longrightarrow> memory_active_run m p = None \<longleftrightarrow> map_of (mr_active m) p = None"
  using memory_ok_pointer [of m p] memory_ok_id [of m]
  by (auto simp: memory_active_run_def split: option.splits)

text \<open>Storing a run under a new pointer, and taking a pointer away.\<close>

lemma memory_ok_activate:
  assumes ok: "memory_ok m" and r: "wr_run_id r = i" "i \<noteq> ''''" "wr_project_id r = p" "run_active r"
    and free: "\<And>k. map_of (mr_active m) p = Some k \<Longrightarrow> k = i"
    and old: "\<And>x. mr_runs m i = Some x \<Longrightarrow> wr_project_id x = p"
  shows "memory_ok \<lparr>mr_runs = (mr_runs m)(i \<mapsto> r), mr_active = assoc_set p i (mr_active m)\<rparr>"
  unfolding memory_ok_def
proof (intro conjI allI)
  fix q k
  show "map_of (mr_active \<lparr>mr_runs = (mr_runs m)(i \<mapsto> r), mr_active = assoc_set p i (mr_active m)\<rparr>) q = Some k \<longleftrightarrow>
      (\<exists>x. mr_runs \<lparr>mr_runs = (mr_runs m)(i \<mapsto> r), mr_active = assoc_set p i (mr_active m)\<rparr> k = Some x \<and>
         wr_project_id x = q \<and> run_active x)"
    using memory_ok_pointer [OF ok, of q k] r free [of k] old by auto
qed (use memory_ok_id [OF ok] r in auto)

lemma memory_ok_retire:
  assumes ok: "memory_ok m" and x: "mr_runs m i = Some x"
    and r: "wr_run_id r = i" "wr_project_id r = wr_project_id x" "\<not> run_active r"
    and alone: "run_active x \<or> map_of (mr_active m) (wr_project_id x) = None"
  shows "memory_ok \<lparr>mr_runs = (mr_runs m)(i \<mapsto> r),
    mr_active = filter (\<lambda>e. fst e \<noteq> wr_project_id x) (mr_active m)\<rparr>"
  unfolding memory_ok_def
proof (intro conjI allI)
  fix q k
  have "map_of (mr_active m) (wr_project_id x) = Some k \<Longrightarrow> k = i"
    using alone memory_ok_pointer [OF ok, of "wr_project_id x" i] x by auto
  then show "map_of (mr_active \<lparr>mr_runs = (mr_runs m)(i \<mapsto> r),
        mr_active = filter (\<lambda>e. fst e \<noteq> wr_project_id x) (mr_active m)\<rparr>) q = Some k \<longleftrightarrow>
      (\<exists>y. mr_runs \<lparr>mr_runs = (mr_runs m)(i \<mapsto> r),
         mr_active = filter (\<lambda>e. fst e \<noteq> wr_project_id x) (mr_active m)\<rparr> k = Some y \<and>
         wr_project_id y = q \<and> run_active y)"
    using memory_ok_pointer [OF ok, of q k] x r by (auto simp: map_of_filter_key)
qed (use memory_ok_id [OF ok] x r in auto)

lemma memory_create_cases:
  assumes "memory_ok m" "memory_create m p v i j now m' a"
  obtains (busy) r where "memory_active_run m p = Some r" "m' = m" "a = acquired False False r"
  | (fresh) "memory_active_run m p = None" "a = acquired True False (new_run p v i now)" "i \<noteq> ''''"
      "m' = \<lparr>mr_runs = (mr_runs m)(i \<mapsto> new_run p v i now), mr_active = assoc_set p i (mr_active m)\<rparr>"
  using assms(2) by (auto simp: memory_create_def create_memory_run_def Let_def split: option.splits)

lemma timely_update_ok:
  assumes "memory_ok m" "timely_update m k u now m'" "admissible (mr_runs m k) u"
  shows "memory_ok m' \<and> mr_runs m' k = map_option (updated_run u now) (mr_runs m k) \<and>
    (\<forall>l. l \<noteq> k \<longrightarrow> mr_runs m' l = mr_runs m l)"
proof (cases "mr_runs m k")
  case None
  with assms show ?thesis by (auto simp: timely_update_def update_memory_run_def)
next
  case (Some x)
  let ?r = "updated_run u now x"
  have id: "wr_run_id x = k" "k \<noteq> ''''" using memory_ok_id [OF assms(1) Some] by simp_all
  show ?thesis
  proof (cases "run_active ?r")
    case False
    then have m': "m' = \<lparr>mr_runs = (mr_runs m)(k \<mapsto> ?r),
        mr_active = filter (\<lambda>e. fst e \<noteq> wr_project_id x) (mr_active m)\<rparr>"
      using assms(2) Some by (simp add: timely_update_def update_memory_run_def Let_def)
    have "memory_ok m'"
      unfolding m' using assms(1) Some
    proof (rule memory_ok_retire)
      show "run_active x \<or> map_of (mr_active m) (wr_project_id x) = None"
        using assms(2) Some memory_active_None [OF assms(1)] by (auto simp: timely_update_def late_for_def)
    qed (use False id in simp_all)
    with Some show ?thesis by (simp add: m')
  next
    case True
    then have m': "m' = \<lparr>mr_runs = (mr_runs m)(k \<mapsto> ?r),
        mr_active = assoc_set (wr_project_id x) k (mr_active m)\<rparr>"
      using assms(2) Some by (simp add: timely_update_def update_memory_run_def Let_def)
    have "run_active x" using True assms(3) Some by (auto simp: admissible_def)
    then have pointer: "map_of (mr_active m) (wr_project_id x) = Some k"
      using memory_ok_pointer [OF assms(1)] Some by blast
    have "memory_ok m'"
      unfolding m' using assms(1) by (rule memory_ok_activate) (use True id Some pointer in simp_all)
    with Some show ?thesis by (simp add: m')
  qed
qed

interpretation local: run_store memory_ok mr_runs memory_active_run memory_create timely_update
proof unfold_locales
  show "memory_active_run m p = Some r \<longleftrightarrow>
      mr_runs m (wr_run_id r) = Some r \<and> wr_project_id r = p \<and> run_active r"
    if "memory_ok m" for m p r using that by (rule memory_active_iff)
  show "wr_run_id r = k" if "memory_ok m" "mr_runs m k = Some r" for m k r
    using memory_ok_id that by blast
next
  fix m p v i j now m' a
  assume asm: "memory_ok m" "memory_create m p v i j now m' a" "mr_runs m i = None" "mr_runs m j = None"
  show "memory_ok m' \<and> memory_active_run m' p = Some (ra_run a) \<and>
      (\<forall>q. q \<noteq> p \<longrightarrow> memory_active_run m' q = memory_active_run m q)"
    using asm(1,2)
  proof (cases rule: memory_create_cases)
    case fresh
    have pointer: "map_of (mr_active m) p = None"
      using fresh(1) memory_active_None [OF asm(1)] by simp
    have ok: "memory_ok m'"
      unfolding fresh(4) using asm(1) by (rule memory_ok_activate) (use fresh(3) pointer asm(3) in simp_all)
    moreover have "memory_active_run m' p = Some (ra_run a)"
      unfolding memory_active_iff [OF ok] by (simp add: fresh(2)) (simp add: fresh(4))
    moreover have "memory_active_run m' q = memory_active_run m q" if q: "q \<noteq> p" for q
    proof -
      have same: "map_of (mr_active m') q = map_of (mr_active m) q" by (simp add: fresh(4) q)
      have "mr_runs m' k = mr_runs m k" if "map_of (mr_active m) q = Some k" for k
        using memory_ok_pointer [OF asm(1), of q k] that asm(3) by (auto simp: fresh(4))
      with same show ?thesis by (simp add: memory_active_run_def split: option.split)
    qed
    ultimately show ?thesis by blast
  qed (use asm(1) in simp)
  show "if ra_created a then wr_run_id (ra_run a) \<in> {i, j} else memory_active_run m p = Some (ra_run a)"
    using asm(1,2) by (cases rule: memory_create_cases) simp_all
  show "\<exists>r'. mr_runs m' k = Some r' \<and> wr_project_id r' = wr_project_id r \<and>
      (\<not> run_active r \<longrightarrow> r' = r)" if "mr_runs m k = Some r" for k r
    using asm(1,2) by (cases rule: memory_create_cases) (use asm(3) that in auto)
qed (rule timely_update_ok)

subsection \<open>A late update drops the guard of the process-local store\<close>

text \<open>Admissible updates of a run other than the active one, with the code's own update: the active
  run is untouched, but its project counts as idle when the run updated is one of its own.\<close>

lemma update_memory_guard:
  assumes "memory_ok m \<and> memory_active_run m p = Some r \<and> j \<noteq> wr_run_id r \<and> admissible (mr_runs m j) u"
  shows "mr_runs (fst (update_memory_run m j u now)) (wr_run_id r) = Some r \<and> run_active r \<and>
    memory_active_run (fst (update_memory_run m j u now)) p =
      (if map_option wr_project_id (mr_runs m j) = Some p then None else Some r)"
proof -
  note ok = assms [THEN conjunct1]
  have r: "mr_runs m (wr_run_id r) = Some r" "wr_project_id r = p" "run_active r"
    using assms memory_active_iff [OF ok] by blast+
  then have pointer: "map_of (mr_active m) p = Some (wr_run_id r)" using memory_ok_pointer [OF ok] by blast
  show ?thesis
  proof (cases "mr_runs m j")
    case None
    with assms r show ?thesis by (simp add: update_memory_run_def)
  next
    case (Some x)
    let ?m = "fst (update_memory_run m j u now)"
    have "mr_runs ?m = (mr_runs m)(j \<mapsto> updated_run u now x)"
      using Some by (simp add: update_memory_run_def Let_def)
    with r assms have row: "mr_runs ?m (wr_run_id r) = Some r" by auto
    show ?thesis
    proof (cases "wr_project_id x = p")
      case True
      have "\<not> run_active x"
        using memory_ok_pointer [OF ok, of p j] pointer Some True assms by auto
      then have "\<not> run_active (updated_run u now x)" using assms Some by (simp add: admissible_def)
      then have "map_of (mr_active ?m) p = None"
        using Some True by (simp add: update_memory_run_def Let_def map_of_filter_key)
      with row r Some True show ?thesis by (simp add: memory_active_run_def)
    next
      case False
      then have "map_of (mr_active ?m) p = Some (wr_run_id r)"
        using Some pointer by (simp add: update_memory_run_def Let_def map_of_filter_key)
      with row r Some False memory_ok_id [OF ok r(1)] show ?thesis by (simp add: memory_active_run_def)
    qed
  qed
qed

text \<open>A finished run beside the active one of its project.\<close>

definition sample_memory :: memory_runs where
  "sample_memory =
     \<lparr>mr_runs = [''a'' \<mapsto> (new_run ''p'' ''v'' ''a'' 0)\<lparr>wr_status := Failed\<rparr>, ''b'' \<mapsto> new_run ''p'' ''v'' ''b'' 1],
      mr_active = [(''p'', ''b'')]\<rparr>"

lemma sample_memory_facts:
  "memory_ok sample_memory"
  "memory_active_run sample_memory ''p'' = Some (new_run ''p'' ''v'' ''b'' 1)"
  "map_option wr_project_id (mr_runs sample_memory ''a'') = Some ''p''"
  "mr_runs sample_memory ''c'' = None" "mr_runs sample_memory ''d'' = None"
  "admissible (mr_runs sample_memory ''a'') (run_phase ''report'')"
proof -
  show ok: "memory_ok sample_memory"
    by (auto simp: memory_ok_def sample_memory_def run_active_def TERMINAL_RUN_STATUSES_def)
  show "memory_active_run sample_memory ''p'' = Some (new_run ''p'' ''v'' ''b'' 1)"
    by (simp add: memory_active_iff [OF ok]) (simp add: sample_memory_def)
  show "admissible (mr_runs sample_memory ''a'') (run_phase ''report'')"
    by (simp add: admissible_def run_phase_def sample_memory_def TERMINAL_RUN_STATUSES_def run_active_def)
qed (simp_all add: sample_memory_def)

subsection \<open>Any interleaving of statements\<close>

definition run_marks :: "run_update set" where
  "run_marks = {u. \<exists>p e redact. u \<in> {run_running p, run_phase p, run_succeeded p, run_failed redact e p}}"

inductive run_step :: "run_table \<Rightarrow> run_table \<Rightarrow> bool" where
  insert: "insert_workflow_run t p v i now = Ok (t', r) \<Longrightarrow> run_step t t'"
| recover_project: "recover_stale_project_run t p threshold now = (t', n) \<Longrightarrow> run_step t t'"
| recover_all: "recover_statement t excluded limit threshold now = (t', n) \<Longrightarrow> run_step t t'"
| mark: "update_run t i u now = Ok (t', r) \<Longrightarrow> u \<in> run_marks \<Longrightarrow> run_step t t'"

definition timestamps_ok :: "workflow_run \<Rightarrow> bool" where
  "timestamps_ok r \<longleftrightarrow>
     wr_heartbeat_at r \<noteq> None \<and> (wr_status r = Running \<longrightarrow> wr_started_at r \<noteq> None) \<and>
     (\<not> run_active r \<longrightarrow> wr_finished_at r \<noteq> None)"

lemma timestamps_rows [simp]:
  "timestamps_ok (new_run p v i now)" "timestamps_ok (abandoned now r)"
  by (simp_all add: timestamps_ok_def) (simp_all add: new_run_def abandoned_def)

lemma timestamps_mark:
  assumes "u \<in> run_marks" "timestamps_ok r"
  shows "timestamps_ok (updated_run u now r)"
proof -
  have status: "run_active x \<longleftrightarrow> wr_status x \<in> {Queued, Running}" for x
    by (simp add: run_active_def ACTIVE_RUN_STATUSES_def del: status_cases)
  show ?thesis
    using assms unfolding timestamps_ok_def status
    by (auto simp: run_marks_def run_running_def run_phase_def run_succeeded_def run_failed_def
        updated_run_def opt_or_def)
qed

lemma insert_run_rows:
  "insert_workflow_run t p v i now = Ok (t', r) \<Longrightarrow>
     (runs_ok t \<longrightarrow> runs_ok t') \<and> set t' \<subseteq> set t \<union> {new_run p v i now}"
  unfolding insert_workflow_run_def Let_def
  by (auto dest: insert_row_ok split: sum.splits prod.splits)
     (auto simp: insert_row_def split: if_splits)

lemma recover_all_rows:
  assumes "recover_statement t excluded limit threshold now = (t', n)"
  shows "runs_ok t \<longrightarrow> runs_ok t'" "set t' \<subseteq> set t \<union> range (abandoned now)"
proof -
  define ids where "ids = set (map wr_run_id (select_rows observed_at (recoverable excluded threshold now) limit t))"
  have t': "t' = map (\<lambda>r. if wr_run_id r \<in> ids then abandoned now r else r) t"
    using assms by (simp add: recover_statement_def Let_def ids_def)
  have same: "map wr_run_id t' = map wr_run_id t" unfolding t' by simp
  show "runs_ok t \<longrightarrow> runs_ok t'"
    unfolding table_ok_def same unfolding t'
    using index_ok_deactivate [of run_active wr_project_id t "\<lambda>r. wr_run_id r \<in> ids" "abandoned now"] by simp
  show "set t' \<subseteq> set t \<union> range (abandoned now)" unfolding t' by auto
qed

lemma run_step_ok:
  assumes "run_step t t'" "runs_ok t" "\<forall>r \<in> set t. timestamps_ok r"
  shows "runs_ok t' \<and> (\<forall>r \<in> set t'. timestamps_ok r)"
  using assms
proof cases
  case (insert p v i now r)
  with insert_run_rows [OF insert] assms show ?thesis by auto
next
  case (recover_project p threshold now n)
  then have t': "t' = fst (recover_stale_project_run t p threshold now)" by simp
  show ?thesis
    using recover_project_ok [OF assms(2)] assms(3) unfolding t' by (auto simp: recover_project_rows)
next
  case (recover_all excluded limit threshold now n)
  with recover_all_rows [OF recover_all] assms show ?thesis by auto
next
  case (mark i u now r)
  have "\<forall>r \<in> set t'. timestamps_ok r"
    unfolding update_run_rows(1) [OF mark(1)] using timestamps_mark [OF mark(2)] assms(3) by auto
  with update_run_rows(2) [OF mark(1) assms(2)] show ?thesis by blast
qed

lemma run_steps_ok: "run_step\<^sup>*\<^sup>* [] t \<Longrightarrow> runs_ok t \<and> (\<forall>r \<in> set t. timestamps_ok r)"
  by (induction rule: rtranclp_induct) (use run_step_ok in auto)

subsection \<open>Properties\<close>

text \<open>C14: whatever statements any number of processes issue in whatever order (acquisitions,
  recoveries of one project or of all, marks by workers whose run was taken from them), the
  table never holds two active runs of one project nor two rows of one id, every run has a
  heartbeat, a running one its start and a finished one its end.\<close>

theorem single_active_run:
  assumes "run_step\<^sup>*\<^sup>* [] t"
  shows "(\<forall>r \<in> set t. \<forall>r' \<in> set t. wr_run_id r = wr_run_id r' \<or>
        run_active r \<and> run_active r' \<and> wr_project_id r = wr_project_id r' \<longrightarrow> r = r') \<and>
    (\<forall>r \<in> set t. wr_heartbeat_at r \<noteq> None \<and> (wr_status r = Running \<longrightarrow> wr_started_at r \<noteq> None) \<and>
        (wr_status r \<in> {Succeeded, Failed} \<longrightarrow> wr_finished_at r \<noteq> None))"
proof -
  note ok = run_steps_ok [OF assms]
  then have "distinct (map wr_run_id t)" "index_ok run_active wr_project_id t" by (simp_all add: table_ok_def)
  then have "r = r'" if "r \<in> set t" "r' \<in> set t" "wr_run_id r = wr_run_id r' \<or>
      run_active r \<and> run_active r' \<and> wr_project_id r = wr_project_id r'" for r r'
    using that ident_unique [of wr_run_id t] index_ok_unique [of run_active wr_project_id t wr_run_id] by blast
  moreover have "wr_finished_at r \<noteq> None" if "r \<in> set t" "wr_status r \<in> {Succeeded, Failed}" for r
    using ok that by (auto simp: timestamps_ok_def run_active_def TERMINAL_RUN_STATUSES_def)
  ultimately show ?thesis using ok unfolding timestamps_ok_def by blast
qed

text \<open>A run is abandoned after an hour of silence, another one takes over, and the worker of the
  first one still reports its success.\<close>

definition late_worker :: run_table where
  "late_worker =
     [updated_run (run_succeeded ''report'') 4002 (abandoned 4000 (new_run ''p'' ''v'' ''a'' 0)),
      new_run ''p'' ''v'' ''b'' 4001]"

lemma late_worker_reached: "run_step\<^sup>*\<^sup>* [] late_worker"
proof -
  let ?a = "new_run ''p'' ''v'' ''a'' 0" and ?b = "new_run ''p'' ''v'' ''b'' 4001"
  have "run_step [] [?a]"
    by (rule run_step.insert [of _ "''p''" "''v''" "''a''" 0])
       (simp add: insert_workflow_run_def insert_row_def Let_def)
  moreover have "stale 3600 4000 ?a"
    by (simp add: stale_def) (simp add: observed_at_def new_run_def)
  then have "run_step [?a] [abandoned 4000 ?a]"
    by (intro run_step.recover_project [of _ "''p''" 3600 4000]) (simp add: recover_stale_project_run_def)
  moreover have "run_step [abandoned 4000 ?a] [abandoned 4000 ?a, ?b]"
    by (rule run_step.insert [of _ "''p''" "''v''" "''b''" 4001])
       (simp add: insert_workflow_run_def insert_row_def Let_def)
  moreover have "run_step [abandoned 4000 ?a, ?b] late_worker"
  proof (rule run_step.mark [of _ "''a''" "run_succeeded ''report''" 4002])
    show "update_run [abandoned 4000 ?a, ?b] ''a'' (run_succeeded ''report'') 4002 =
        Ok (late_worker, get_workflow_run late_worker ''a'')"
      by (simp add: update_run_def update_rows_def index_ok_def Let_def late_worker_def
          run_succeeded_def TERMINAL_RUN_STATUSES_def)
  qed (auto simp: run_marks_def)
  ultimately show ?thesis by (meson converse_rtranclp_into_rtranclp rtranclp.rtrancl_refl)
qed

theorem single_active_run_witness:
  "run_step\<^sup>*\<^sup>* [] late_worker \<and> length late_worker = 2 \<and>
   wr_heartbeat_at (hd late_worker) \<noteq> None \<and>
   wr_status (hd late_worker) = Succeeded \<and> run_active (last late_worker)"
  using single_active_run [OF late_worker_reached] late_worker_reached
  by (simp add: late_worker_def run_succeeded_def)



text \<open>After such a late update the next acquisition starts a second run beside the active one.\<close>

theorem memory_late_update_drops_guard:
  assumes "memory_ok m" "memory_active_run m p = Some r"
    and "map_option wr_project_id (mr_runs m j) = Some p" "j \<noteq> wr_run_id r" "admissible (mr_runs m j) u"
    and "m' = fst (update_memory_run m j u now)" and "i \<notin> {'''', wr_run_id r}"
  shows "mr_runs m' (wr_run_id r) = Some r \<and> run_active r \<and> memory_active_run m' p = None \<and>
    (\<exists>a m''. create_memory_run m' p v i now = (m'', a) \<and> ra_created a \<and>
       mr_runs m'' (wr_run_id r) = Some r \<and> mr_runs m'' i = Some (ra_run a) \<and>
       run_active (ra_run a) \<and> wr_project_id (ra_run a) = p)"
proof -
  have guard: "mr_runs m' (wr_run_id r) = Some r" "run_active r" "memory_active_run m' p = None"
    using update_memory_guard [of m p r j u now] assms by simp_all
  then have "create_memory_run m' p v i now =
      (\<lparr>mr_runs = (mr_runs m')(i \<mapsto> new_run p v i now), mr_active = assoc_set p i (mr_active m')\<rparr>,
       acquired True False (new_run p v i now))"
    by (simp add: create_memory_run_def Let_def)
  moreover have "wr_run_id r \<noteq> i" using assms(7) by auto
  ultimately show ?thesis using guard by simp
qed

theorem memory_late_update_drops_guard_witness:
  "memory_ok sample_memory \<and>
   (\<exists>a m. create_memory_run (fst (update_memory_run sample_memory ''a'' (run_phase ''report'') 9)) ''p'' ''v'' ''c'' 9 =
        (m, a) \<and> ra_created a \<and> run_active (ra_run a) \<and> mr_runs m ''b'' = Some (new_run ''p'' ''v'' ''b'' 1))"
  using memory_late_update_drops_guard [OF sample_memory_facts(1,2,3) _ sample_memory_facts(6) refl, of "''c''" 9 "''v''"]
    sample_memory_facts(1) by auto

lemma length_filter_split:
  "length (filter (\<lambda>x. P x \<and> \<not> Q x) t) + length (filter (\<lambda>x. P x \<and> Q x) t) = length (filter P t)"
  by (induction t) auto

lemma length_filter_map_out:
  "(\<And>x. \<not> P (f x)) \<Longrightarrow>
     length (filter P (map (\<lambda>x. if Q x then f x else x) t)) = length (filter (\<lambda>x. P x \<and> \<not> Q x) t)"
  by (induction t) auto

lemma normalize_stale_bound: "300 \<le> normalize_stale_after_seconds v"
  by (auto simp: normalize_stale_after_seconds_def Let_def split: option.split)

text \<open>The recovery check fails exactly the runs it should: it takes the least recently heard of
  among the active runs outside the excluded projects that were silent for longer than the
  threshold, as many as the limit allows and at least one; a run heard of within the last five
  minutes is never touched, whatever the configuration says; everything else stays as it is; and
  the reported counts are the number taken and the number left.\<close>

theorem recovery_takes_the_oldest:
  assumes "runs_ok t" and "recover_stale_active_runs t v excluded limit now = (t', r)"
  shows "\<exists>S \<subseteq> {x \<in> set t. run_active x \<and> wr_project_id x \<notin> set excluded - {''''} \<and>
        observed_at x < now - real_of_int (normalize_stale_after_seconds v)}.
      t' = map (\<lambda>x. if x \<in> S then abandoned now x else x) t \<and>
      (\<forall>x \<in> S. observed_at x < now - 300) \<and>
      (\<forall>x \<in> S. \<forall>y \<in> set t - S. stale (normalize_stale_after_seconds v) now y \<and>
         wr_project_id y \<notin> set excluded - {''''} \<longrightarrow> observed_at x \<le> observed_at y) \<and>
      rr_recovered_count r = card S \<and>
      card S = min (bounded_limit limit) (card S + rr_stale_active_run_count r)"
proof -
  let ?thr = "normalize_stale_after_seconds v" and ?n = "bounded_limit limit"
  let ?P = "recoverable (normalize_project_id_list excluded) ?thr now"
  let ?all = "sort_key observed_at (filter ?P t)"
  let ?sel = "take ?n ?all"
  have excl: "set (normalize_project_id_list excluded) = set excluded - {''''}"
    by (auto simp: normalize_project_id_list_def)
  have dist: "distinct t" using assms(1) by (auto simp: table_ok_def distinct_map)
  then have dsel: "distinct ?sel" by simp
  have sub: "set ?sel \<subseteq> {x \<in> set t. ?P x}" by (auto dest: in_set_takeD)
  have ids: "wr_run_id x \<in> wr_run_id ` set ?sel \<longleftrightarrow> x \<in> set ?sel" if "x \<in> set t" for x
    using that sub assms(1) ident_unique [of wr_run_id t x] by (auto simp: table_ok_def)
  have t': "t' = map (\<lambda>x. if x \<in> set ?sel then abandoned now x else x) t"
    and count: "rr_recovered_count r = length ?sel"
      "rr_stale_active_run_count r = length (filter ?P t')"
    using assms(2) ids
    by (auto simp: recover_stale_active_runs_def recover_statement_def select_rows_def Let_def
        count_stale_active_runs_def intro!: map_cong)
  have "\<not> ?P (abandoned now x)" for x by (simp add: recoverable_def stale_def)
  then have "length (filter ?P t') = length (filter (\<lambda>x. ?P x \<and> \<not> x \<in> set ?sel) t)"
    unfolding t' by (rule length_filter_map_out)
  moreover have "length (filter (\<lambda>x. ?P x \<and> x \<in> set ?sel) t) = card (set ?sel)"
  proof -
    have "set (filter (\<lambda>x. ?P x \<and> x \<in> set ?sel) t) = set ?sel" using sub by auto
    with dist show ?thesis by (metis distinct_card distinct_filter)
  qed
  ultimately have total: "card (set ?sel) + rr_stale_active_run_count r = length ?all"
    using length_filter_split [of ?P "\<lambda>x. x \<in> set ?sel" t] count(2) by simp
  have older: "observed_at x \<le> observed_at y" if "x \<in> set ?sel" "y \<in> set t - set ?sel" "?P y" for x y
  proof -
    have "y \<in> set (drop ?n ?all)"
      using that(2,3) set_append [of ?sel "drop ?n ?all"] by auto
    moreover have "sorted (map observed_at ?sel @ map observed_at (drop ?n ?all))"
      by (metis append_take_drop_id map_append sorted_sort_key)
    ultimately show ?thesis using that(1) by (auto simp: sorted_append)
  qed
  show ?thesis
  proof (intro exI [of _ "set ?sel"] conjI)
    show "set ?sel \<subseteq> {x \<in> set t. run_active x \<and> wr_project_id x \<notin> set excluded - {''''} \<and>
        observed_at x < now - real_of_int ?thr}"
      using sub excl by (auto simp: recoverable_def stale_def)
    show "\<forall>x \<in> set ?sel. observed_at x < now - 300"
      using sub normalize_stale_bound [of v] by (fastforce simp: recoverable_def stale_def)
    show "\<forall>x \<in> set ?sel. \<forall>y \<in> set t - set ?sel. stale ?thr now y \<and>
         wr_project_id y \<notin> set excluded - {''''} \<longrightarrow> observed_at x \<le> observed_at y"
      using older excl by (auto simp: recoverable_def)
    show "rr_recovered_count r = card (set ?sel)" using count(1) dsel by (simp only: distinct_card)
    show "card (set ?sel) = min ?n (card (set ?sel) + rr_stale_active_run_count r)"
      unfolding total using distinct_card [OF dsel] by (simp add: min.commute)
  qed (rule t')
qed

theorem recovery_takes_the_oldest_witness:
  "\<exists>t' r. recover_stale_active_runs [new_run ''p'' ''v'' ''a'' 0] No_value [] 100 4000 = (t', r) \<and>
     rr_recovered_count r = min 100 (rr_recovered_count r + rr_stale_active_run_count r)"
proof -
  obtain t' r where call:
    "recover_stale_active_runs [new_run ''p'' ''v'' ''a'' 0] No_value [] 100 4000 = (t', r)" by fastforce
  have "runs_ok [new_run ''p'' ''v'' ''a'' 0]" by (simp add: table_ok_def index_ok_def)
  from recovery_takes_the_oldest [OF this call] have
    "rr_recovered_count r = min (bounded_limit 100) (rr_recovered_count r + rr_stale_active_run_count r)"
    by auto
  with call show ?thesis by (simp add: bounded_limit_def)
qed

end
