(* ===== verification/WorkQueue.thy ===== *)
theory WorkQueue
  imports RunState "HOL-Library.Product_Lexorder"
begin

text \<open>
  The durable queue of workflow jobs (\<open>mas/runtime/work_queue.py\<close>): one active job per run, claimed
  oldest first by whichever process drains the queue. The statements read both tables, so the
  state is the pair of them. Without a database \<open>enqueue\<close> raises and the others do nothing; that
  and unavailable storage are not modelled.
\<close>

subsection \<open>Jobs\<close>

record workflow_job =
  wj_job_id :: string
  wj_run_id :: string
  wj_project_id :: string
  wj_status :: run_status
  wj_attempt_count :: int
  wj_max_attempts :: int
  wj_created_at :: time
  wj_available_at :: time
  wj_started_at :: "time option"
  wj_finished_at :: "time option"
  wj_error_summary :: string

type_synonym job_table = "workflow_job list"

definition job_active :: "workflow_job \<Rightarrow> bool" where
  "job_active j \<longleftrightarrow> wj_status j \<in> ACTIVE_RUN_STATUSES"

abbreviation jobs_ok :: "job_table \<Rightarrow> bool" where
  "jobs_ok \<equiv> table_ok wj_job_id job_active wj_run_id"

datatype queue_error = Queue_sql_error sql_error | Unable_to_enqueue

text \<open>\<open>None\<close> is a value \<open>int\<close> does not take, or no value.\<close>

definition normalize_max_attempts :: "int option \<Rightarrow> int" where
  "normalize_max_attempts v = (case v of None \<Rightarrow> 1 | Some n \<Rightarrow> max 1 n)"

definition new_job :: "string \<Rightarrow> string \<Rightarrow> string \<Rightarrow> int \<Rightarrow> time \<Rightarrow> workflow_job" where
  "new_job i run project attempts now =
     \<lparr>wj_job_id = i, wj_run_id = run, wj_project_id = project, wj_status = Queued,
      wj_attempt_count = 0, wj_max_attempts = attempts, wj_created_at = now, wj_available_at = now,
      wj_started_at = None, wj_finished_at = None, wj_error_summary = ''''\<rparr>"

definition fetch_active_run_job :: "job_table \<Rightarrow> string \<Rightarrow> workflow_job option" where
  "fetch_active_run_job js run =
     first_row (\<lambda>j. - wj_created_at j) (\<lambda>j. wj_run_id j = run \<and> job_active j) js"

record job_enqueue =
  je_created :: bool
  je_job :: workflow_job

definition enqueue_workflow_job ::
  "job_table \<Rightarrow> string \<Rightarrow> string \<Rightarrow> int option \<Rightarrow> string \<Rightarrow> time \<Rightarrow>
   (queue_error, job_table \<times> job_enqueue) result" where
  "enqueue_workflow_job js run project attempts i now =
     (let j = new_job i run project (normalize_max_attempts attempts) now
      in case insert_row wj_job_id job_active wj_run_id j js of
           Inl e \<Rightarrow> Err (Queue_sql_error e)
         | Inr (js', True) \<Rightarrow> Ok (js', \<lparr>je_created = True, je_job = j\<rparr>)
         | Inr (js', False) \<Rightarrow>
             (case fetch_active_run_job js' run of
                Some active \<Rightarrow> Ok (js', \<lparr>je_created = False, je_job = active\<rparr>)
              | None \<Rightarrow> Err Unable_to_enqueue))"

definition claimable :: "run_table \<Rightarrow> time \<Rightarrow> workflow_job \<Rightarrow> bool" where
  "claimable rs now j \<longleftrightarrow>
     wj_status j = Queued \<and> wj_available_at j \<le> now \<and> wj_attempt_count j < wj_max_attempts j \<and>
     list_ex (\<lambda>r. wr_run_id r = wj_run_id j \<and> run_active r) rs"

definition claimed_job :: "time \<Rightarrow> workflow_job \<Rightarrow> workflow_job" where
  "claimed_job now j =
     j\<lparr>wj_status := Running, wj_started_at := Some now, wj_attempt_count := wj_attempt_count j + 1,
       wj_error_summary := ''''\<rparr>"

definition claim_next_workflow_job ::
  "run_table \<Rightarrow> job_table \<Rightarrow> time \<Rightarrow> (queue_error, job_table \<times> workflow_job option) result" where
  "claim_next_workflow_job rs js now =
     (case first_row (\<lambda>j. (wj_available_at j, wj_created_at j)) (claimable rs now) js of
        None \<Rightarrow> Ok (js, None)
      | Some next_job \<Rightarrow>
          (case update_rows job_active wj_run_id (\<lambda>j. wj_job_id j = wj_job_id next_job) (claimed_job now) js of
             Inl e \<Rightarrow> Err (Queue_sql_error e)
           | Inr js' \<Rightarrow> Ok (js', find (\<lambda>j. wj_job_id j = wj_job_id next_job) js')))"

definition update_job ::
  "job_table \<Rightarrow> string \<Rightarrow> run_status \<Rightarrow> string \<Rightarrow> bool \<Rightarrow> time \<Rightarrow>
   (queue_error, job_table \<times> workflow_job option) result" where
  "update_job js i status error_summary set_finished now =
     (let f = (\<lambda>j. j\<lparr>wj_status := status,
          wj_finished_at := (if set_finished then Some now else wj_finished_at j),
          wj_error_summary := error_summary\<rparr>)
      in case update_rows job_active wj_run_id (\<lambda>j. wj_job_id j = i) f js of
           Inl e \<Rightarrow> Err (Queue_sql_error e)
         | Inr js' \<Rightarrow> Ok (js', find (\<lambda>j. wj_job_id j = i) js'))"

definition mark_job_succeeded ::
  "job_table \<Rightarrow> string \<Rightarrow> time \<Rightarrow> (queue_error, job_table \<times> workflow_job option) result" where
  "mark_job_succeeded js i now = update_job js i Succeeded '''' True now"

definition mark_job_failed ::
  "(string \<Rightarrow> string) \<Rightarrow> job_table \<Rightarrow> string \<Rightarrow> string \<Rightarrow> time \<Rightarrow>
   (queue_error, job_table \<times> workflow_job option) result" where
  "mark_job_failed redact js i error now =
     update_job js i Failed (sanitize_error_summary redact 320 error) True now"

definition count_workflow_jobs :: "job_table \<Rightarrow> run_status \<Rightarrow> nat" where
  "count_workflow_jobs js status = length (filter (\<lambda>j. wj_status j = status) js)"

subsection \<open>Facts\<close>

lemma job_frames [simp]:
  "wj_job_id (new_job i run p n now) = i" "wj_run_id (new_job i run p n now) = run"
  "job_active (new_job i run p n now)" "wj_job_id (claimed_job now j) = wj_job_id j"
  "wj_run_id (claimed_job now j) = wj_run_id j" "job_active (claimed_job now j)"
  "wj_status (claimed_job now j) = Running"
  "wj_attempt_count (claimed_job now j) = wj_attempt_count j + 1"
  by (simp_all add: new_job_def claimed_job_def job_active_def TERMINAL_RUN_STATUSES_def)

lemma claimable_active: "claimable rs now j \<Longrightarrow> job_active j"
  by (simp add: claimable_def job_active_def TERMINAL_RUN_STATUSES_def)

lemma find_job:
  "distinct (map wj_job_id js) \<Longrightarrow> j \<in> set js \<Longrightarrow> find (\<lambda>x. wj_job_id x = wj_job_id j) js = Some j"
  by (induction js) auto

lemma claim_cases:
  assumes "jobs_ok js"
  obtains (idle) "\<forall>j \<in> set js. \<not> claimable rs now j" "claim_next_workflow_job rs js now = Ok (js, None)"
  | (claim) j where "j \<in> set js" "claimable rs now j"
      "\<forall>x \<in> set js. claimable rs now x \<longrightarrow>
         (wj_available_at j, wj_created_at j) \<le> (wj_available_at x, wj_created_at x)"
      "claim_next_workflow_job rs js now =
         Ok (map (\<lambda>x. if x = j then claimed_job now x else x) js, Some (claimed_job now j))"
proof (cases "first_row (\<lambda>j. (wj_available_at j, wj_created_at j)) (claimable rs now) js")
  case None
  then have "claim_next_workflow_job rs js now = Ok (js, None)" by (simp add: claim_next_workflow_job_def)
  with None [unfolded first_row_None] show thesis by (rule idle)
next
  case (Some j)
  note j = first_row_Some [OF Some]
  have same: "wj_job_id x = wj_job_id j \<longleftrightarrow> x = j" if "x \<in> set js" for x
    using assms ident_unique [of wj_job_id js x j] that j(1) by (auto simp: table_ok_def)
  let ?js = "map (\<lambda>x. if x = j then claimed_job now x else x) js"
  have eq: "map (\<lambda>x. if wj_job_id x = wj_job_id j then claimed_job now x else x) js = ?js"
    using same by (intro map_cong) auto
  have "update_rows job_active wj_run_id (\<lambda>x. wj_job_id x = wj_job_id j) (claimed_job now) js =
      Ok (map (\<lambda>x. if wj_job_id x = wj_job_id j then claimed_job now x else x) js)"
    using assms j(1) claimable_active [OF j(2)] same
    by (intro update_rows_returns) (auto simp: table_ok_def)
  note upd = this [unfolded eq]
  have "map wj_job_id ?js = map wj_job_id js" by simp
  then have "distinct (map wj_job_id ?js)" using assms by (metis table_ok_def)
  moreover have "claimed_job now j \<in> set ?js" using j(1) by (force simp: image_iff)
  ultimately have "find (\<lambda>x. wj_job_id x = wj_job_id j) ?js = Some (claimed_job now j)"
    using find_job [of ?js "claimed_job now j"] by simp
  with upd have "claim_next_workflow_job rs js now = Ok (?js, Some (claimed_job now j))"
    using Some by (simp add: claim_next_workflow_job_def)
  with j show thesis by (intro claim) auto
qed

subsection \<open>Histories of the queue\<close>

text \<open>
  Any interleaving of statements on both tables; the list names the jobs claimed. Jobs are marked
  by their workers only as finished (\<open>mark_job_succeeded\<close>, \<open>mark_job_failed\<close>).
\<close>

inductive queue_run :: "run_table \<times> job_table \<Rightarrow> string list \<Rightarrow> run_table \<times> job_table \<Rightarrow> bool" where
  start: "queue_run s [] s"
| runs: "queue_run s cs (rs, js) \<Longrightarrow> run_step rs rs' \<Longrightarrow> queue_run s cs (rs', js)"
| enqueue: "queue_run s cs (rs, js) \<Longrightarrow> enqueue_workflow_job js run p n i now = Ok (js', e) \<Longrightarrow>
     queue_run s cs (rs, js')"
| claim: "queue_run s cs (rs, js) \<Longrightarrow> claim_next_workflow_job rs js now = Ok (js', Some j) \<Longrightarrow>
     queue_run s (cs @ [wj_job_id j]) (rs, js')"
| finish: "queue_run s cs (rs, js) \<Longrightarrow> st \<in> {Succeeded, Failed} \<Longrightarrow>
     update_job js i st e True now = Ok (js', r) \<Longrightarrow> queue_run s cs (rs, js')"

text \<open>A job is queued exactly as long as nobody has claimed it.\<close>

definition queue_ok :: "string list \<Rightarrow> job_table \<Rightarrow> bool" where
  "queue_ok cs js \<longleftrightarrow>
     jobs_ok js \<and> distinct cs \<and> set cs \<subseteq> wj_job_id ` set js \<and>
     (\<forall>j \<in> set js. (wj_status j = Queued \<longrightarrow> wj_job_id j \<notin> set cs) \<and>
        (wj_job_id j \<notin> set cs \<longrightarrow> wj_attempt_count j = 0) \<and>
        (wj_job_id j \<in> set cs \<longrightarrow> wj_attempt_count j = 1) \<and> 1 \<le> wj_max_attempts j)"

lemma new_job_counts [simp]:
  "wj_attempt_count (new_job i run p n now) = 0" "wj_status (new_job i run p n now) = Queued"
  "wj_max_attempts (new_job i run p n now) = n" "wj_max_attempts (claimed_job now j) = wj_max_attempts j"
  by (simp_all add: new_job_def claimed_job_def)

lemma normalize_max_attempts_pos: "1 \<le> normalize_max_attempts n"
  by (simp add: normalize_max_attempts_def split: option.split)

lemma enqueue_rows:
  assumes "enqueue_workflow_job js run p n i now = Ok (js', e)"
  shows "js' = js \<or> js' = js @ [new_job i run p (normalize_max_attempts n) now] \<and>
      insert_row wj_job_id job_active wj_run_id (new_job i run p (normalize_max_attempts n) now) js = Ok (js', True) \<and>
      i \<notin> wj_job_id ` set js"
  using assms unfolding enqueue_workflow_job_def Let_def
  by (auto split: sum.splits prod.splits bool.splits option.splits)
     (auto simp: insert_row_def list_ex_iff split: if_splits)

lemma queue_ok_enqueue:
  assumes "queue_ok cs js" "enqueue_workflow_job js run p n i now = Ok (js', e)"
  shows "queue_ok cs js'"
  using enqueue_rows [OF assms(2)]
proof (elim disjE conjE)
  assume js': "js' = js @ [new_job i run p (normalize_max_attempts n) now]" and
    ins: "insert_row wj_job_id job_active wj_run_id (new_job i run p (normalize_max_attempts n) now) js = Ok (js', True)" and
    i: "i \<notin> wj_job_id ` set js"
  have "jobs_ok js'" using insert_row_ok [OF ins] assms(1) by (simp add: queue_ok_def)
  moreover have "i \<notin> set cs" using i assms(1) by (auto simp: queue_ok_def)
  ultimately show ?thesis
    using assms(1) normalize_max_attempts_pos [of n] by (auto simp: queue_ok_def js')
qed (use assms(1) in simp)

lemma queue_ok_claim:
  assumes "queue_ok cs js" "claim_next_workflow_job rs js now = Ok (js', Some c)"
  shows "queue_ok (cs @ [wj_job_id c]) js'"
proof -
  have ok: "jobs_ok js" using assms(1) by (simp add: queue_ok_def)
  from ok show ?thesis
  proof (cases rule: claim_cases [of js rs now])
    case (claim j)
    let ?g = "\<lambda>x. if x = j then claimed_job now x else x"
    have js': "js' = map ?g js" and c: "c = claimed_job now j" using claim(4) assms(2) by simp_all
    have ids: "map wj_job_id js' = map wj_job_id js" unfolding js' by simp
    have "jobs_ok js'"
      unfolding table_ok_def ids unfolding js'
      using ok index_ok_deactivate [of job_active wj_run_id js "\<lambda>x. x = j" "claimed_job now"]
        claimable_active [OF claim(2)] by (simp add: table_ok_def)
    moreover have "wj_status j = Queued" using claim(2) by (simp add: claimable_def)
    then have new: "wj_job_id j \<notin> set cs" and zero: "wj_attempt_count j = 0"
      using assms(1) claim(1) by (auto simp: queue_ok_def)
    then have "distinct (cs @ [wj_job_id c])" using assms(1) by (simp add: queue_ok_def c)
    moreover have "set (cs @ [wj_job_id c]) \<subseteq> wj_job_id ` set js'"
    proof -
      have "wj_job_id ` set js' = wj_job_id ` set js" by (metis ids list.set_map)
      then show ?thesis using assms(1) claim(1) by (auto simp: queue_ok_def c)
    qed
    moreover have "(wj_status y = Queued \<longrightarrow> wj_job_id y \<notin> set (cs @ [wj_job_id c])) \<and>
        (wj_job_id y \<notin> set (cs @ [wj_job_id c]) \<longrightarrow> wj_attempt_count y = 0) \<and>
        (wj_job_id y \<in> set (cs @ [wj_job_id c]) \<longrightarrow> wj_attempt_count y = 1) \<and> 1 \<le> wj_max_attempts y"
      if y: "y \<in> set js'" for y
    proof -
      obtain x where x: "x \<in> set js" "y = ?g x" using y unfolding js' set_map by blast
      have old: "(wj_status x = Queued \<longrightarrow> wj_job_id x \<notin> set cs) \<and>
          (wj_job_id x \<notin> set cs \<longrightarrow> wj_attempt_count x = 0) \<and>
          (wj_job_id x \<in> set cs \<longrightarrow> wj_attempt_count x = 1) \<and> 1 \<le> wj_max_attempts x"
        using assms(1) x(1) unfolding queue_ok_def by blast
      show ?thesis
      proof (cases "x = j")
        case True
        with old x(2) zero show ?thesis by (simp add: c)
      next
        case False
        then have "wj_job_id x \<noteq> wj_job_id j"
          using ok ident_unique [of wj_job_id js x j] x(1) claim(1) by (auto simp: table_ok_def)
        with old x(2) False show ?thesis by (simp add: c)
      qed
    qed
    ultimately show ?thesis unfolding queue_ok_def by blast
  qed (use assms(2) in simp)
qed

lemma queue_ok_finish:
  assumes "queue_ok cs js" "update_job js i st e True now = Ok (js', r)" "st \<in> {Succeeded, Failed}"
  shows "queue_ok cs js'"
proof -
  let ?f = "\<lambda>j. j\<lparr>wj_status := st, wj_finished_at := Some now, wj_error_summary := e\<rparr>"
  have upd: "update_rows job_active wj_run_id (\<lambda>j. wj_job_id j = i) ?f js = Ok js'"
    using assms(2) by (auto simp: update_job_def Let_def split: sum.splits)
  then have "jobs_ok js'" using assms(1) by (intro update_rows_ok [OF upd]) (auto simp: queue_ok_def)
  moreover note js' = update_rows_map [OF upd]
  have ids: "map wj_job_id js' = map wj_job_id js" unfolding js' by simp
  then have "wj_job_id ` set js' = wj_job_id ` set js" by (metis list.set_map)
  ultimately show ?thesis
    using assms(1,3) unfolding queue_ok_def by (auto simp: js' split: if_splits)
qed

lemma queue_run_ok: "queue_run ([], []) cs (rs, js) \<Longrightarrow> queue_ok cs js"
proof (induction "([] :: run_table, [] :: job_table)" cs "(rs, js)" arbitrary: rs js rule: queue_run.induct)
  case start
  then show ?case by (simp add: queue_ok_def)
qed (auto intro: queue_ok_enqueue queue_ok_claim queue_ok_finish)

subsection \<open>Properties\<close>

text \<open>C16: at most once. Whatever processes enqueue, claim and finish jobs and issue statements on
  the runs, in any order, no job is ever claimed twice, its attempt counter says whether it was
  claimed and stays within its maximum, and a run never has two jobs queued or running.\<close>

theorem jobs_run_at_most_once:
  assumes "queue_run ([], []) cs (rs, js)"
  shows "distinct cs \<and> set cs \<subseteq> wj_job_id ` set js \<and>
    (\<forall>j \<in> set js. wj_attempt_count j = (if wj_job_id j \<in> set cs then 1 else 0) \<and>
       wj_attempt_count j \<le> wj_max_attempts j) \<and>
    (\<forall>j \<in> set js. \<forall>j' \<in> set js. job_active j \<and> job_active j' \<and> wj_run_id j = wj_run_id j' \<longrightarrow> j = j')"
proof -
  note ok = queue_run_ok [OF assms, unfolded queue_ok_def table_ok_def]
  then have "j = j'" if "j \<in> set js" "j' \<in> set js" "job_active j" "job_active j'" "wj_run_id j = wj_run_id j'" for j j'
    using that index_ok_unique [of job_active wj_run_id js wj_job_id] by blast
  moreover have "wj_attempt_count j = (if wj_job_id j \<in> set cs then 1 else 0) \<and>
      wj_attempt_count j \<le> wj_max_attempts j" if "j \<in> set js" for j
  proof -
    have "(wj_job_id j \<notin> set cs \<longrightarrow> wj_attempt_count j = 0) \<and>
        (wj_job_id j \<in> set cs \<longrightarrow> wj_attempt_count j = 1) \<and> 1 \<le> wj_max_attempts j"
      using ok that by blast
    then show ?thesis by auto
  qed
  ultimately show ?thesis using ok by blast
qed

text \<open>One run, its job, and the claim.\<close>

lemma claimed_sample:
  "queue_run ([], []) [''j''] ([new_run ''p'' ''v'' ''a'' 0], [claimed_job 2 (new_job ''j'' ''a'' ''p'' 1 1)])"
proof -
  let ?r = "new_run ''p'' ''v'' ''a'' 0" and ?j = "new_job ''j'' ''a'' ''p'' 1 1"
  have "run_step [] [?r]"
    by (rule run_step.insert [of _ "''p''" "''v''" "''a''" 0])
       (simp add: insert_workflow_run_def insert_row_def Let_def)
  with queue_run.start have 1: "queue_run ([], []) [] ([?r], [])" by (rule queue_run.runs)
  have "enqueue_workflow_job [] ''a'' ''p'' None ''j'' 1 = Ok ([?j], \<lparr>je_created = True, je_job = ?j\<rparr>)"
    by (simp add: enqueue_workflow_job_def insert_row_def normalize_max_attempts_def Let_def)
  with 1 have 2: "queue_run ([], []) [] ([?r], [?j])" by (rule queue_run.enqueue)
  have "jobs_ok [?j]" by (simp add: table_ok_def index_ok_def)
  moreover have "claimable [?r] 2 ?j" by (simp add: claimable_def) (simp add: new_job_def)
  ultimately have "claim_next_workflow_job [?r] [?j] 2 = Ok ([claimed_job 2 ?j], Some (claimed_job 2 ?j))"
    by (cases rule: claim_cases [of "[?j]" "[?r]" 2]) auto
  from queue_run.claim [OF 2 this] show ?thesis by simp
qed

theorem jobs_run_at_most_once_witness:
  "queue_run ([], []) [''j''] ([new_run ''p'' ''v'' ''a'' 0], [claimed_job 2 (new_job ''j'' ''a'' ''p'' 1 1)]) \<and>
   distinct [''j''] \<and> wj_attempt_count (claimed_job 2 (new_job ''j'' ''a'' ''p'' 1 1)) \<le>
     wj_max_attempts (claimed_job 2 (new_job ''j'' ''a'' ''p'' 1 1))"
  using jobs_run_at_most_once [OF claimed_sample] claimed_sample by simp

text \<open>a claim takes the job that has been available longest among the queued jobs that are due,
  have an attempt left and whose run is still active, and changes nothing else; it comes back
  empty exactly when there is none. So a job whose run was recovered as abandoned is never
  started, however long it stays in the queue.\<close>

theorem claim_takes_oldest_due_job:
  assumes "jobs_ok js" "claim_next_workflow_job rs js now = Ok (js', c)"
  shows "(c = None \<longleftrightarrow> (\<forall>j \<in> set js. \<not> claimable rs now j)) \<and> (c = None \<longrightarrow> js' = js) \<and>
    (\<forall>j'. c = Some j' \<longrightarrow> (\<exists>j \<in> set js. j' = claimed_job now j \<and>
       wj_status j = Queued \<and> wj_available_at j \<le> now \<and> wj_attempt_count j' \<le> wj_max_attempts j' \<and>
       (\<exists>r \<in> set rs. wr_run_id r = wj_run_id j \<and> run_active r) \<and>
       (\<forall>x \<in> set js. claimable rs now x \<longrightarrow> wj_available_at j \<le> wj_available_at x) \<and>
       js' = map (\<lambda>x. if x = j then j' else x) js))"
  using assms(1)
proof (cases rule: claim_cases [of js rs now])
  case idle
  with assms(2) show ?thesis by simp
next
  case (claim j)
  have "\<forall>x \<in> set js. claimable rs now x \<longrightarrow> wj_available_at j \<le> wj_available_at x"
    using claim(3) by (fastforce simp: less_eq_prod_def)
  moreover have "wj_status j = Queued" "wj_available_at j \<le> now" "wj_attempt_count j + 1 \<le> wj_max_attempts j"
    "\<exists>r \<in> set rs. wr_run_id r = wj_run_id j \<and> run_active r"
    using claim(2) by (auto simp: claimable_def list_ex_iff)
  moreover have "c = Some (claimed_job now j)" "js' = map (\<lambda>x. if x = j then claimed_job now j else x) js"
    using claim(4) assms(2) by (auto intro!: map_cong)
  ultimately show ?thesis using claim(1,2) by auto
qed

theorem claim_takes_oldest_due_job_witness:
  "\<exists>js' c. claim_next_workflow_job [] [new_job ''j'' ''a'' ''p'' 1 1] 2 = Ok (js', c) \<and> c = None \<and>
     js' = [new_job ''j'' ''a'' ''p'' 1 1]"
proof -
  have ok: "jobs_ok [new_job ''j'' ''a'' ''p'' 1 1]" by (simp add: table_ok_def index_ok_def)
  then obtain js' c where call: "claim_next_workflow_job [] [new_job ''j'' ''a'' ''p'' 1 1] 2 = Ok (js', c)"
    by (cases rule: claim_cases [of _ "[]" 2]) auto
  with claim_takes_oldest_due_job [OF ok call] show ?thesis by (simp add: claimable_def)
qed

end
