(* ===== verification/Dispatch.thy ===== *)
theory Dispatch
  imports WorkQueue Execution
begin

text \<open>
  Workflow runs behind the API (\<open>mas/api.py\<close>): the endpoint that starts a run, the drain of the
  queue and the execution of one job around \<open>run_workflow_sequence\<close>. The database is there; the
  process-local path starts the same execution without a job.

  Acceptance of a completed analysis (\<open>_accept_completed_analysis\<close>) and the lookup of the current
  generation, both SQL of \<open>state_coherence.py\<close>, are parameters that may fail with a text.
  \<open>de_now n\<close> is the instant of the \<open>n\<close>-th statement of an execution; no other process touches its
  rows meanwhile (theory RunState treats interleavings).
\<close>

subsection \<open>State\<close>

record service =
  sv_projects :: "string \<rightharpoonup> project_state"
  sv_runs :: run_table
  sv_jobs :: job_table
  sv_running :: "string set"

record dispatch_env =
  de_phase_env :: "phase \<Rightarrow> orchestrator_env"
  de_generation :: "project_state \<Rightarrow> string option"
  de_accept :: "project_state \<Rightarrow> (string, project_state) result"
  de_error_text :: "state_error \<Rightarrow> string"
  de_status_order :: "project_state \<Rightarrow> phase list"
  de_redact :: "string \<Rightarrow> string"
  de_now :: "nat \<Rightarrow> time"

subsection \<open>Marks that may fail\<close>

definition safe_mark_workflow_run :: "run_table \<Rightarrow> string \<Rightarrow> run_update \<Rightarrow> time \<Rightarrow> run_table" where
  "safe_mark_workflow_run t i u now =
     (case update_run t i u now of Inl e \<Rightarrow> t | Inr (t', r) \<Rightarrow> t')"

definition safe_mark_workflow_job ::
  "(queue_error, job_table \<times> workflow_job option) result \<Rightarrow> job_table \<Rightarrow> job_table" where
  "safe_mark_workflow_job marked js = (case marked of Inl e \<Rightarrow> js | Inr (js', j) \<Rightarrow> js')"

definition mark_run :: "service \<Rightarrow> string \<Rightarrow> run_update \<Rightarrow> time \<Rightarrow> service" where
  "mark_run sv i u now = sv\<lparr>sv_runs := safe_mark_workflow_run (sv_runs sv) i u now\<rparr>"

subsection \<open>One run\<close>

text \<open>\<open>_workflow_incomplete_error_summary\<close>; \<open>order\<close> lists the keys of \<open>phase_status\<close>.\<close>

definition workflow_incomplete_error_summary :: "phase list \<Rightarrow> project_state \<Rightarrow> phase \<Rightarrow> string" where
  "workflow_incomplete_error_summary order s p =
     (let phase0 = py_or (py_or (current_phase s) p) ''unknown'';
          (named, detail) =
            (case phase_failure_details s phase0 of
               Some d \<Rightarrow> (phase0, Some d)
             | None \<Rightarrow>
                 (case filter (\<lambda>q. phase_status s q = Some FAILED \<and> phase_failure_details s q \<noteq> None) order of
                    [] \<Rightarrow> (phase0, None)
                  | q # _ \<Rightarrow> (q, phase_failure_details s q)))
      in case detail of
           None \<Rightarrow> ''Workflow stopped before completion at phase '' @ named @ ''.''
         | Some d \<Rightarrow>
             if fd_message d = ''''
             then ''Workflow stopped before completion at phase '' @ named @ ''.''
             else ''Workflow stopped before completion at phase '' @ py_or (fd_phase d) named @ '': '' @
                  (if fd_category d = '''' then fd_message d else fd_category d @ '': '' @ fd_message d))"

text \<open>\<open>persist_workflow_state\<close> for the states handed over, from the instant \<open>n\<close> on; \<open>p\<close> is the
  phase seen last.\<close>

fun persist_states ::
  "dispatch_env \<Rightarrow> string \<Rightarrow> string \<Rightarrow> nat \<Rightarrow> phase \<Rightarrow> project_state list \<Rightarrow> service \<Rightarrow> service \<times> phase" where
  "persist_states env project i n p [] sv = (sv, p)"
| "persist_states env project i n p (s # ss) sv =
     (let q = py_or (current_phase s) p;
          sv1 = mark_run sv i (run_phase q) (de_now env n)
      in persist_states env project i (n + 1) q ss (sv1\<lparr>sv_projects := (sv_projects sv1)(project \<mapsto> s)\<rparr>))"

text \<open>The states handed to \<open>persist_state\<close> until \<open>run_workflow_sequence\<close> returns or raises.\<close>

fun saved_by_loop :: "(phase \<Rightarrow> orchestrator_env) \<Rightarrow> project_state \<Rightarrow> phase list \<Rightarrow> project_state list" where
  "saved_by_loop env s [] = []"
| "saved_by_loop env s (p # ps) =
     (if status_of s p = COMPLETED \<and> phase_has_output s p then saved_by_loop env s ps
      else
        let s1 = s\<lparr>current_phase := p, phase_status := (phase_status s)(p \<mapsto> RUNNING)\<rparr>
        in s1 #
           (case run_phase_node (env p) s1 p of
              Inl e \<Rightarrow> []
            | Inr s2 \<Rightarrow>
                (case after_phase (env p) s2 p of
                   Inl e \<Rightarrow> []
                 | Inr s3 \<Rightarrow>
                     s3 #
                     (if status_of s3 p \<noteq> COMPLETED then []
                      else case gate_after_phase (env p) s3 p of
                             Return t \<Rightarrow> [t]
                           | Continue s4 \<Rightarrow> saved_by_loop env s4 ps))))"

definition saved_by_workflow :: "(phase \<Rightarrow> orchestrator_env) \<Rightarrow> project_state \<Rightarrow> project_state list" where
  "saved_by_workflow env s =
     (case get_first_unfinished_phase s of
        Inr (Some start) \<Rightarrow>
          (case invalidate_downstream s start of
             Inl e \<Rightarrow> []
           | Inr (s1, invalidated) \<Rightarrow>
               (case workflow_phase_sequence_for_state s1 of
                  Inl e \<Rightarrow> []
                | Inr seq \<Rightarrow> s1 # saved_by_loop env s1 (dropWhile (\<lambda>p. p \<noteq> start) seq)))
      | _ \<Rightarrow> [])"

definition fail_run :: "dispatch_env \<Rightarrow> service \<Rightarrow> string \<Rightarrow> string \<Rightarrow> phase \<Rightarrow> nat \<Rightarrow> service" where
  "fail_run env sv i error p n = mark_run sv i (run_failed (de_redact env) error p) (de_now env n)"

definition run_workflow_sequence_for_run :: "dispatch_env \<Rightarrow> service \<Rightarrow> string \<Rightarrow> string \<Rightarrow> service" where
  "run_workflow_sequence_for_run env sv project i =
     (let after =
        (case sv_projects sv project of
           None \<Rightarrow> fail_run env sv i ''Project vanished before workflow execution started.'' '''' 0
         | Some s \<Rightarrow>
             (case de_generation env s of
                Some error \<Rightarrow> fail_run env sv i error (current_phase s) 0
              | None \<Rightarrow>
                  let sv1 = mark_run sv i (run_running (current_phase s)) (de_now env 0)
                  in case run_workflow_sequence (de_phase_env env) s of
                       Inl e \<Rightarrow>
                         let saved = saved_by_workflow (de_phase_env env) s;
                             (sv2, p) = persist_states env project i 1 (current_phase s) saved sv1
                         in fail_run env sv2 i (de_error_text env e) p (length saved + 1)
                     | Inr (final, saved) \<Rightarrow>
                         let (sv2, p) = persist_states env project i 1 (current_phase s) saved sv1;
                             q = py_or (current_phase final) p; n = length saved + 1
                         in case is_workflow_complete final of
                              Inl e \<Rightarrow> fail_run env sv2 i (de_error_text env e) q n
                            | Inr False \<Rightarrow>
                                fail_run env sv2 i
                                  (workflow_incomplete_error_summary (de_status_order env final) final q) q n
                            | Inr True \<Rightarrow>
                                (case de_accept env final of
                                   Inl error \<Rightarrow> fail_run env sv2 i error q n
                                 | Inr accepted \<Rightarrow>
                                     mark_run (sv2\<lparr>sv_projects := (sv_projects sv2)(project \<mapsto> accepted)\<rparr>)
                                       i (run_succeeded q) (de_now env n))))
      in after\<lparr>sv_running := sv_running after - {project}\<rparr>)"

subsection \<open>Jobs\<close>

definition execute_workflow_job :: "dispatch_env \<Rightarrow> service \<Rightarrow> workflow_job \<Rightarrow> time \<Rightarrow> service" where
  "execute_workflow_job env sv job now =
     (let project = wj_project_id job; i = wj_run_id job;
          sv1 = run_workflow_sequence_for_run env (sv\<lparr>sv_running := insert project (sv_running sv)\<rparr>) project i;
          fail = (\<lambda>sv error. sv\<lparr>sv_jobs := safe_mark_workflow_job
                    (mark_job_failed (de_redact env) (sv_jobs sv) (wj_job_id job) error now) (sv_jobs sv)\<rparr>);
          unfinished = ''Workflow job finished without a terminal run state.'';
          sv2 = (case get_workflow_run (sv_runs sv1) i of
                   None \<Rightarrow> fail (mark_run sv1 i (run_failed (de_redact env) unfinished '''') now) unfinished
                 | Some r \<Rightarrow>
                     (case wr_status r of
                        Succeeded \<Rightarrow> sv1\<lparr>sv_jobs := safe_mark_workflow_job
                            (mark_job_succeeded (sv_jobs sv1) (wj_job_id job) now) (sv_jobs sv1)\<rparr>
                      | Failed \<Rightarrow> fail sv1 (py_or (wr_error_summary r) ''Workflow run failed.'')
                      | _ \<Rightarrow> fail (mark_run sv1 i (run_failed (de_redact env) unfinished '''') now) unfinished))
      in sv2\<lparr>sv_running := sv_running sv2 - {project}\<rparr>)"

text \<open>\<open>env k\<close> is the environment of the \<open>k\<close>-th job, claimed and finished at \<open>now k\<close> and \<open>end k\<close>.\<close>

fun drain_workflow_queue ::
  "(nat \<Rightarrow> dispatch_env) \<Rightarrow> (nat \<Rightarrow> time) \<Rightarrow> (nat \<Rightarrow> time) \<Rightarrow> nat \<Rightarrow> service \<Rightarrow> service" where
  "drain_workflow_queue env now end 0 sv = sv"
| "drain_workflow_queue env now end (Suc k) sv =
     (case claim_next_workflow_job (sv_runs sv) (sv_jobs sv) (now k) of
        Inl e \<Rightarrow> sv
      | Inr (js, None) \<Rightarrow> sv
      | Inr (js, Some job) \<Rightarrow>
          drain_workflow_queue env now end k (execute_workflow_job (env k) (sv\<lparr>sv_jobs := js\<rparr>) job (end k)))"

subsection \<open>The endpoint\<close>

datatype start_response =
    Http_error nat
  | Already_complete
  | Started string

definition QUEUE_ENQUEUE_ERROR_SUMMARY :: string where
  "QUEUE_ENQUEUE_ERROR_SUMMARY =
     ''Workflow run could not be queued because durable workflow queue storage was unavailable.''"

text \<open>\<open>i\<close>, \<open>i'\<close> and \<open>k\<close> are the ids \<open>uuid4\<close> returns; all its statements are at \<open>now\<close>.\<close>

definition run_full_workflow ::
  "(string \<Rightarrow> string) \<Rightarrow> int \<Rightarrow> string \<Rightarrow> service \<Rightarrow> string \<Rightarrow> string \<Rightarrow> string \<Rightarrow> string \<Rightarrow> time \<Rightarrow>
   service \<times> start_response" where
  "run_full_workflow redact threshold version sv project i i' k now =
     (case sv_projects sv project of
        None \<Rightarrow> (sv, Http_error 404)
      | Some s \<Rightarrow>
          if project \<in> sv_running sv then (sv, Http_error 409)
          else
            let sv1 = sv\<lparr>sv_runs := fst (recover_stale_project_run (sv_runs sv) project threshold now)\<rparr>
            in if fetch_active_project_run (sv_runs sv1) project \<noteq> None then (sv1, Http_error 409)
               else case is_workflow_complete s of
                      Inl e \<Rightarrow> (sv1, Http_error 500)
                    | Inr True \<Rightarrow> (sv1, Already_complete)
                    | Inr False \<Rightarrow>
                        (case create_workflow_run threshold (sv_runs sv1) project version i i' now of
                           Inl Unable_to_acquire \<Rightarrow> (sv1, Http_error 503)
                         | Inl (Run_sql_error e) \<Rightarrow> (sv1, Http_error 500)
                         | Inr (rs, a) \<Rightarrow>
                             let sv2 = sv1\<lparr>sv_runs := rs\<rparr>; run = wr_run_id (ra_run a)
                             in if \<not> ra_created a then (sv2, Http_error 409)
                                else case enqueue_workflow_job (sv_jobs sv2) run project None k now of
                                       Inl Unable_to_enqueue \<Rightarrow>
                                         (mark_run sv2 run (run_failed redact QUEUE_ENQUEUE_ERROR_SUMMARY '''') now,
                                          Http_error 503)
                                     | Inl (Queue_sql_error e) \<Rightarrow> (sv2, Http_error 500)
                                     | Inr (js, e) \<Rightarrow> (sv2\<lparr>sv_jobs := js\<rparr>, Started run)))"

subsection \<open>A worker marks its own run\<close>

text \<open>\<open>owns sv i p\<close>: the tables are well-formed and run \<open>i\<close> is the active run of project \<open>p\<close>.\<close>

definition owns :: "service \<Rightarrow> string \<Rightarrow> string \<Rightarrow> bool" where
  "owns sv i p \<longleftrightarrow>
     runs_ok (sv_runs sv) \<and>
     (\<exists>r. get_workflow_run (sv_runs sv) i = Some r \<and> run_active r \<and> wr_project_id r = p)"

definition settled_as :: "service \<Rightarrow> string \<Rightarrow> run_status \<Rightarrow> bool" where
  "settled_as sv i st \<longleftrightarrow>
     runs_ok (sv_runs sv) \<and>
     (\<exists>r. get_workflow_run (sv_runs sv) i = Some r \<and> wr_status r = st \<and>
        (st = Failed \<longrightarrow> wr_error_summary r \<noteq> ''''))"

lemma mark_run_frame [simp]:
  "sv_projects (mark_run sv i u now) = sv_projects sv" "sv_jobs (mark_run sv i u now) = sv_jobs sv"
  "sv_running (mark_run sv i u now) = sv_running sv"
  by (simp_all add: mark_run_def)

lemma owns_frame [simp]:
  "owns (sv\<lparr>sv_projects := m\<rparr>) i p = owns sv i p" "owns (sv\<lparr>sv_running := x\<rparr>) i p = owns sv i p"
  "settled_as (sv\<lparr>sv_projects := m\<rparr>) i st = settled_as sv i st"
  "settled_as (sv\<lparr>sv_running := x\<rparr>) i st = settled_as sv i st"
  "settled_as (sv\<lparr>sv_jobs := js\<rparr>) i st = settled_as sv i st"
  by (simp_all add: owns_def settled_as_def)

lemma sanitize_nonempty: "sanitize_error_summary redact n t \<noteq> ''''"
  by (auto simp: sanitize_error_summary_def Let_def)

lemma mark_own:
  assumes "owns sv i p"
  obtains r where "runs_ok (sv_runs (mark_run sv i u now))" "run_active r" "wr_project_id r = p"
    "get_workflow_run (sv_runs (mark_run sv i u now)) i = Some (updated_run u now r)"
proof -
  obtain r where ok: "runs_ok (sv_runs sv)" and r: "get_workflow_run (sv_runs sv) i = Some r"
    "run_active r" "wr_project_id r = p" using assms by (auto simp: owns_def)
  have "x = r" if "x \<in> set (sv_runs sv)" "wr_run_id x = i" for x
    using r(1) that get_run_iff [OF ok, of i x] by simp
  then have "update_rows run_active wr_project_id (\<lambda>x. wr_run_id x = i) (updated_run u now) (sv_runs sv) =
      Ok (map (\<lambda>x. if wr_run_id x = i then updated_run u now x else x) (sv_runs sv))"
    using ok r(2) by (intro update_rows_returns) (auto simp: table_ok_def)
  then obtain t' x where upd: "update_run (sv_runs sv) i u now = Ok (t', x)"
    by (simp add: update_run_def)
  then have "sv_runs (mark_run sv i u now) = t'"
    by (simp add: mark_run_def safe_mark_workflow_run_def)
  with update_run_rows(2) [OF upd ok] lookup_update [OF ok upd, of i] r show thesis
    by (intro that [of r]) simp_all
qed

lemma mark_own_active:
  assumes "owns sv i p" "up_status u = None \<or> up_status u = Some Running"
  shows "owns (mark_run sv i u now) i p"
proof -
  obtain r where r: "runs_ok (sv_runs (mark_run sv i u now))" "run_active r" "wr_project_id r = p"
    "get_workflow_run (sv_runs (mark_run sv i u now)) i = Some (updated_run u now r)"
    using assms(1) by (rule mark_own)
  moreover have "run_active (updated_run u now r)"
    using assms(2) r(2) by (auto simp: TERMINAL_RUN_STATUSES_def run_active_def ACTIVE_RUN_STATUSES_def)
  ultimately show ?thesis by (auto simp: owns_def)
qed

lemma mark_own_settles:
  assumes "owns sv i p"
  shows "settled_as (mark_run sv i (run_succeeded q) now) i Succeeded"
    and "settled_as (fail_run env sv i error q n) i Failed"
proof -
  obtain r where "runs_ok (sv_runs (mark_run sv i (run_succeeded q) now))"
    "get_workflow_run (sv_runs (mark_run sv i (run_succeeded q) now)) i = Some (updated_run (run_succeeded q) now r)"
    using assms by (rule mark_own)
  then show "settled_as (mark_run sv i (run_succeeded q) now) i Succeeded"
    unfolding settled_as_def by (simp add: run_succeeded_def)
next
  let ?u = "run_failed (de_redact env) error q"
  obtain r where r: "runs_ok (sv_runs (mark_run sv i ?u (de_now env n)))"
    "get_workflow_run (sv_runs (mark_run sv i ?u (de_now env n))) i = Some (updated_run ?u (de_now env n) r)"
    using assms by (rule mark_own)
  have "wr_status (updated_run ?u (de_now env n) r) = Failed"
    "wr_error_summary (updated_run ?u (de_now env n) r) \<noteq> ''''"
    using sanitize_nonempty by (simp_all add: run_failed_def updated_run_def)
  with r show "settled_as (fail_run env sv i error q n) i Failed"
    by (simp add: settled_as_def fail_run_def)
qed

lemma persist_states_owns:
  "persist_states env project i n p ss sv = (sv', q) \<Longrightarrow> owns sv i pr \<Longrightarrow>
     owns sv' i pr \<and> sv_jobs sv' = sv_jobs sv"
proof (induction ss arbitrary: n p sv)
  case (Cons s ss)
  let ?q = "py_or (current_phase s) p"
  have "owns (mark_run sv i (run_phase ?q) (de_now env n)) i pr"
    using Cons.prems(2) by (rule mark_own_active) (simp add: run_phase_def)
  with Cons.IH [of "n + 1" ?q] Cons.prems(1) show ?case by (simp add: Let_def)
qed simp

lemma fail_run_frame [simp]:
  "sv_projects (fail_run env sv i e p n) = sv_projects sv" "sv_jobs (fail_run env sv i e p n) = sv_jobs sv"
  by (simp_all add: fail_run_def)

lemma saved_by_loop_returns: "sequence_loop env s ps = Ok (t, saved) \<Longrightarrow> saved_by_loop env s ps = saved"
proof (induction ps arbitrary: s t saved)
  case (Cons p ps)
  then show ?case
    by (auto simp: Let_def map_result_def split: if_splits sum.splits flow.splits prod.splits)
qed simp

lemma saved_by_workflow_returns:
  "run_workflow_sequence env s = Ok (t, saved) \<Longrightarrow> saved_by_workflow env s = saved"
  by (auto simp: run_workflow_sequence_def saved_by_workflow_def map_result_def dest: saved_by_loop_returns
      split: sum.splits option.splits prod.splits)

text \<open>A run ends, and ends well only with a complete and accepted analysis.\<close>

definition run_outcome :: "dispatch_env \<Rightarrow> service \<Rightarrow> string \<Rightarrow> service \<Rightarrow> string \<Rightarrow> bool" where
  "run_outcome env sv project sv' i \<longleftrightarrow>
     settled_as sv' i Failed \<or>
     settled_as sv' i Succeeded \<and>
     (\<exists>s final saved accepted. sv_projects sv project = Some s \<and>
        run_workflow_sequence (de_phase_env env) s = Ok (final, saved) \<and>
        is_workflow_complete final = Ok True \<and> de_accept env final = Ok accepted \<and>
        sv_projects sv' project = Some accepted)"

lemma run_for_run_outcome:
  assumes "owns sv i pr" "sv' = run_workflow_sequence_for_run env sv project i"
  shows "run_outcome env sv project sv' i \<and> sv_jobs sv' = sv_jobs sv \<and> project \<notin> sv_running sv'"
proof (cases "sv_projects sv project")
  case None
  with assms mark_own_settles(2) [OF assms(1)] show ?thesis
    by (simp add: run_workflow_sequence_for_run_def run_outcome_def Let_def)
next
  case (Some s)
  show ?thesis
  proof (cases "de_generation env s")
    case (Some error)
    with assms \<open>sv_projects sv project = Some s\<close> mark_own_settles(2) [OF assms(1)] show ?thesis
      by (simp add: run_workflow_sequence_for_run_def run_outcome_def Let_def)
  next
    case None
    let ?sv1 = "mark_run sv i (run_running (current_phase s)) (de_now env 0)"
    have own1: "owns ?sv1 i pr" using assms(1) by (rule mark_own_active) (simp add: run_running_def)
    note start = assms(2) [unfolded run_workflow_sequence_for_run_def Let_def Some None option.case]
    show ?thesis
    proof (cases "run_workflow_sequence (de_phase_env env) s")
      case (Inl e)
      obtain sv2 p where persist: "persist_states env project i 1 (current_phase s)
          (saved_by_workflow (de_phase_env env) s) ?sv1 = (sv2, p)"
        by fastforce
      note own2 = persist_states_owns [OF persist own1]
      with Inl start persist mark_own_settles(2) [of sv2 i pr] show ?thesis by (simp add: run_outcome_def)
    next
      case (Inr res)
      then obtain final saved where run: "run_workflow_sequence (de_phase_env env) s = Ok (final, saved)"
        by (cases res) auto
      obtain sv2 p where persist: "persist_states env project i 1 (current_phase s) saved ?sv1 = (sv2, p)"
        by fastforce
      note own2 = persist_states_owns [OF persist own1]
      show ?thesis
        using start run persist own2 mark_own_settles [of sv2 i pr]
          mark_own_settles(1) [of "sv2\<lparr>sv_projects := m\<rparr>" i pr for m] Some
        by (auto simp: run_outcome_def split: sum.splits bool.splits)
    qed
  qed
qed

lemma finish_job:
  assumes "jobs_ok js" "j \<in> set js" "st \<in> {Succeeded, Failed}"
  shows "\<exists>j' \<in> set (safe_mark_workflow_job (update_job js (wj_job_id j) st e True now) js).
     wj_job_id j' = wj_job_id j \<and> wj_status j' = st"
proof -
  let ?f = "\<lambda>j. j\<lparr>wj_status := st, wj_finished_at := Some now, wj_error_summary := e\<rparr>"
  have "\<not> job_active (?f x)" for x
    using assms(3) by (auto simp: job_active_def ACTIVE_RUN_STATUSES_def TERMINAL_RUN_STATUSES_def)
  then have "update_rows job_active wj_run_id (\<lambda>x. wj_job_id x = wj_job_id j) ?f js =
      Ok (map (\<lambda>x. if wj_job_id x = wj_job_id j then ?f x else x) js)"
    using assms(1) by (intro update_rows_returns) (auto simp: table_ok_def)
  then have "safe_mark_workflow_job (update_job js (wj_job_id j) st e True now) js =
      map (\<lambda>x. if wj_job_id x = wj_job_id j then ?f x else x) js"
    by (simp add: update_job_def safe_mark_workflow_job_def)
  moreover have "?f j \<in> set (map (\<lambda>x. if wj_job_id x = wj_job_id j then ?f x else x) js)"
    using assms(2) by (force simp: image_iff)
  ultimately show ?thesis by (intro bexI [of _ "?f j"]) simp_all
qed

subsection \<open>Properties\<close>

text \<open>C15: executing a claimed job always settles it: with its run the active one of its project, the
  run and the job both end, with the same outcome, whether the project has vanished, a phase
  fails, the sequence raises or the acceptance is refused; they succeed only when the workflow
  ran to completion and its analysis was accepted, which is then what is stored; a failed run
  says why; and the project is no longer marked as running.\<close>

theorem executed_job_settles:
  assumes "owns sv (wj_run_id j) p" "jobs_ok (sv_jobs sv)" "j \<in> set (sv_jobs sv)"
    and "sv' = execute_workflow_job env sv j now"
  shows "\<exists>r j'. get_workflow_run (sv_runs sv') (wj_run_id j) = Some r \<and>
      j' \<in> set (sv_jobs sv') \<and> wj_job_id j' = wj_job_id j \<and> wj_status j' = wr_status r \<and>
      wr_status r \<in> {Succeeded, Failed} \<and> (wr_status r = Failed \<longrightarrow> wr_error_summary r \<noteq> '''') \<and>
      (wr_status r = Succeeded \<longrightarrow>
        (\<exists>s final saved accepted. sv_projects sv (wj_project_id j) = Some s \<and>
           run_workflow_sequence (de_phase_env env) s = Ok (final, saved) \<and>
           is_workflow_complete final = Ok True \<and> de_accept env final = Ok accepted \<and>
           sv_projects sv' (wj_project_id j) = Some accepted)) \<and>
      wj_project_id j \<notin> sv_running sv'"
proof -
  let ?p = "wj_project_id j" and ?i = "wj_run_id j"
  let ?sv0 = "sv\<lparr>sv_running := insert ?p (sv_running sv)\<rparr>"
  define sv1 where "sv1 = run_workflow_sequence_for_run env ?sv0 ?p ?i"
  have "owns ?sv0 ?i p" using assms(1) by simp
  from run_for_run_outcome [OF this sv1_def] have out: "run_outcome env ?sv0 ?p sv1 ?i"
    and jobs: "sv_jobs sv1 = sv_jobs sv" by simp_all
  note finish = finish_job [OF assms(2,3)]
  note ended = assms(4) [unfolded execute_workflow_job_def Let_def, folded sv1_def]
  show ?thesis
  proof (cases "settled_as sv1 ?i Failed")
    case True
    then obtain r where r: "get_workflow_run (sv_runs sv1) ?i = Some r" "wr_status r = Failed"
      "wr_error_summary r \<noteq> ''''" by (auto simp: settled_as_def)
    with ended jobs finish [of Failed] show ?thesis
      by (fastforce simp: mark_job_failed_def)
  next
    case False
    with out obtain r where r: "get_workflow_run (sv_runs sv1) ?i = Some r" "wr_status r = Succeeded"
      by (auto simp: run_outcome_def settled_as_def)
    have sv': "sv_runs sv' = sv_runs sv1" "sv_projects sv' = sv_projects sv1" "?p \<notin> sv_running sv'"
      "sv_jobs sv' = safe_mark_workflow_job (update_job (sv_jobs sv) (wj_job_id j) Succeeded '''' True now) (sv_jobs sv)"
      using ended jobs r by (simp_all add: mark_job_succeeded_def)
    obtain j' where "j' \<in> set (sv_jobs sv')" "wj_job_id j' = wj_job_id j" "wj_status j' = Succeeded"
      using finish [of Succeeded] sv'(4) by auto
    with sv' r out False show ?thesis by (auto simp: run_outcome_def)
  qed
qed

lemma enqueue_fresh:
  assumes "k \<notin> wj_job_id ` set js" "jobs_ok js"
  obtains js' e where "enqueue_workflow_job js run p n k now = Ok (js', e)" "jobs_ok js'"
    "\<exists>j \<in> set js'. wj_run_id j = run \<and> job_active j"
proof -
  let ?j = "new_job k run p (normalize_max_attempts n) now"
  have "wj_job_id ?j \<notin> wj_job_id ` set js" using assms(1) by simp
  note ins = insert_row_fresh [OF this, of job_active wj_run_id]
  show thesis
  proof (cases "\<exists>x \<in> set js. job_active x \<and> wj_run_id x = run")
    case True
    then obtain a where a: "fetch_active_run_job js run = Some a"
      by (cases "fetch_active_run_job js run") (auto simp: fetch_active_run_job_def first_row_None)
    with True ins have "enqueue_workflow_job js run p n k now = Ok (js, \<lparr>je_created = False, je_job = a\<rparr>)"
      by (simp add: enqueue_workflow_job_def Let_def)
    with assms(2) True show thesis by (intro that) auto
  next
    case False
    with ins have row: "insert_row wj_job_id job_active wj_run_id ?j js = Ok (js @ [?j], True)" by auto
    then have "enqueue_workflow_job js run p n k now = Ok (js @ [?j], \<lparr>je_created = True, je_job = ?j\<rparr>)"
      by (simp add: enqueue_workflow_job_def Let_def)
    with insert_row_ok [OF row assms(2)] show thesis by (intro that) auto
  qed
qed

text \<open>Starting a workflow, with fresh ids: the request is refused as already running exactly when
  this process runs the project or a run of it is active and not abandoned, and then it changes
  nothing; a complete project starts nothing; in every other case a queued run of the project
  and an active job for it are there afterwards, the run is its only active one, and both tables
  stay well-formed.\<close>

theorem start_decides:
  assumes "runs_ok (sv_runs sv)" "jobs_ok (sv_jobs sv)" "sv_projects sv p = Some s"
    and "is_workflow_complete s = Ok done" "get_workflow_run (sv_runs sv) i = None"
    and "get_workflow_run (sv_runs sv) i' = None" "k \<notin> wj_job_id ` set (sv_jobs sv)"
    and "run_full_workflow redact threshold v sv p i i' k now = (sv', response)"
  shows "if p \<in> sv_running sv \<or>
        (\<exists>r \<in> set (sv_runs sv). wr_project_id r = p \<and> run_active r \<and> \<not> stale threshold now r)
    then response = Http_error 409 \<and> sv' = sv
    else if done then response = Already_complete
    else response = Started i \<and> runs_ok (sv_runs sv') \<and> jobs_ok (sv_jobs sv') \<and>
      fetch_active_project_run (sv_runs sv') p = Some (new_run p v i now) \<and>
      (\<exists>j \<in> set (sv_jobs sv'). wj_run_id j = i \<and> job_active j)"
proof (cases "p \<in> sv_running sv")
  case True
  with assms(3,8) show ?thesis by (simp add: run_full_workflow_def)
next
  case False
  define t where "t = fst (recover_stale_project_run (sv_runs sv) p threshold now)"
  note rec = recover_project_eq [OF assms(1), of p threshold now]
  note call = assms(8) [unfolded run_full_workflow_def Let_def assms(3,4), folded t_def]
  let ?busy = "\<exists>r \<in> set (sv_runs sv). wr_project_id r = p \<and> run_active r \<and> \<not> stale threshold now r"
  show ?thesis
  proof (cases ?busy)
    case True
    then obtain r where "fetch_active_project_run (sv_runs sv) p = Some r" "\<not> stale threshold now r"
      using fetch_iff [OF assms(1)] by blast
    with rec have "t = sv_runs sv" "fetch_active_project_run t p \<noteq> None" by (simp_all add: t_def)
    with call True False show ?thesis by simp
  next
    case free: False
    have t: "runs_ok t" "fetch_active_project_run t p = None" "wr_run_id ` set t = wr_run_id ` set (sv_runs sv)"
    proof -
      show "runs_ok t" unfolding t_def by (rule recover_project_ok [OF assms(1)])
      show "fetch_active_project_run t p = None" "wr_run_id ` set t = wr_run_id ` set (sv_runs sv)"
      proof (atomize (full), cases "fetch_active_project_run (sv_runs sv) p")
        case None
        with rec show "fetch_active_project_run t p = None \<and> wr_run_id ` set t = wr_run_id ` set (sv_runs sv)"
          by (simp add: t_def)
      next
        case (Some r)
        then have "stale threshold now r" using free fetch_iff [OF assms(1)] by blast
        with rec Some have "t = map (\<lambda>x. if x = r then abandoned now x else x) (sv_runs sv)"
          by (simp add: t_def)
        from abandon_frees [OF assms(1) Some this]
        show "fetch_active_project_run t p = None \<and> wr_run_id ` set t = wr_run_id ` set (sv_runs sv)"
          by blast
      qed
    qed
    show ?thesis
    proof (cases "done")
      case True
      with call t(2) free False assms(4) show ?thesis by auto
    next
      case incomplete: False
      have ids: "get_workflow_run t i = None" "get_workflow_run t i' = None"
        using assms(5,6) unfolding get_run_None t(3) .
      note create = create_run_eq [OF t(1) ids, of threshold p v now, unfolded t(2) option.case]
      obtain js e where enq: "enqueue_workflow_job (sv_jobs sv) i p None k now = Ok (js, e)" "jobs_ok js"
        "\<exists>j \<in> set js. wj_run_id j = i \<and> job_active j"
        using assms(7,2) by (rule enqueue_fresh)
      have ok: "runs_ok (t @ [new_run p v i now])" using t(1) ids(1) t(2) by (rule runs_ok_snoc)
      have "fetch_active_project_run (t @ [new_run p v i now]) p = Some (new_run p v i now)"
        by (simp add: fetch_iff [OF ok])
      with call incomplete t(2) create enq ok free False assms(4) show ?thesis by auto
    qed
  qed
qed

text \<open>A new project, its first request and the drain of its job.\<close>

definition fresh_service :: service where
  "fresh_service =
     \<lparr>sv_projects = [''p'' \<mapsto> default_project_state], sv_runs = [], sv_jobs = [], sv_running = {}\<rparr>"

lemma default_incomplete: "is_workflow_complete default_project_state = Ok False"
proof -
  have "phase_unfinished default_project_state ''classify''"
    by (simp add: unfinished_iff settled_def status_of_def dict_get_def STRATEGIC_AUDIT_PHASE_SEQUENCE_def)
  then have "find (phase_unfinished default_project_state) STRATEGIC_AUDIT_PHASE_SEQUENCE = Some ''classify''"
    by (simp add: STRATEGIC_AUDIT_PHASE_SEQUENCE_def)
  then show ?thesis
    by (simp add: is_workflow_complete_def get_first_unfinished_phase_def
        workflow_phase_sequence_for_state_def map_result_def DEFAULT_PROJECT_TYPE_def)
qed

theorem start_decides_witness:
  "\<exists>sv' j. run_full_workflow id 3600 ''v'' fresh_service ''p'' ''a'' ''b'' ''j'' 0 = (sv', Started ''a'') \<and>
     fetch_active_project_run (sv_runs sv') ''p'' = Some (new_run ''p'' ''v'' ''a'' 0) \<and>
     j \<in> set (sv_jobs sv') \<and> wj_run_id j = ''a''"
proof -
  obtain sv' response where call:
    "run_full_workflow id 3600 ''v'' fresh_service ''p'' ''a'' ''b'' ''j'' 0 = (sv', response)" by fastforce
  have "get_workflow_run [] i = None" for i by (simp add: get_workflow_run_def)
  with start_decides [OF _ _ _ default_incomplete _ _ _ call] call show ?thesis
    by (auto simp: fresh_service_def)
qed

theorem executed_job_settles_witness:
  "\<forall>env. \<exists>sv r. owns sv ''a'' ''q'' \<and>
     get_workflow_run (sv_runs (execute_workflow_job env sv (new_job ''j'' ''a'' ''q'' 1 0) 5)) ''a'' = Some r \<and>
     wr_status r = Failed"
proof
  fix env
  let ?r = "new_run ''q'' ''v'' ''a'' 0" and ?j = "new_job ''j'' ''a'' ''q'' 1 0"
  let ?sv = "fresh_service\<lparr>sv_runs := [?r], sv_jobs := [?j]\<rparr>"
  have own: "owns ?sv (wj_run_id ?j) ''q''"
    by (simp add: owns_def table_ok_def index_ok_def get_workflow_run_def)
  have ok: "jobs_ok (sv_jobs ?sv)" by (simp add: table_ok_def index_ok_def)
  have "sv_projects ?sv (wj_project_id ?j) = None" by (simp add: fresh_service_def new_job_def)
  with executed_job_settles [OF own ok _ refl, of env 5] own
  show "\<exists>sv r. owns sv ''a'' ''q'' \<and>
     get_workflow_run (sv_runs (execute_workflow_job env sv ?j 5)) ''a'' = Some r \<and> wr_status r = Failed"
    by (intro exI [of _ ?sv]) auto
qed

end
