(* ===== verification/Decimal.thy ===== *)
theory Decimal
  imports Prelude
begin

text \<open>
  Decimal numbers as \<open>decimal.Decimal\<close> of the standard library computes with them in the default
  context (precision 28, half-even rounding, exponents up to 999999; invalid operations, division
  by zero and overflow raise). The component theories of the return-on-investment engine use them;
  they keep representations apart (\<open>1.0\<close> is not \<open>1.00\<close>) because texts and digests do.

  \<open>dval\<close> is the number a finite decimal denotes. The payload digits of a NaN are left out.
\<close>

subsection \<open>Representation\<close>

datatype decimal =
    Fin bool nat int
  | Infinite bool
  | NaN bool

datatype decimal_error = Invalid_operation | Division_by_zero | Overflow

fun dval :: "decimal \<Rightarrow> real" where
  "dval (Fin s c e) = (if s then - 1 else 1) * real c * 10 powi e"
| "dval _ = 0"

fun finite_decimal :: "decimal \<Rightarrow> bool" where
  "finite_decimal (Fin s c e) = True"
| "finite_decimal _ = False"

definition ndigits :: "nat \<Rightarrow> nat" where
  "ndigits n = length (nat_digits n)"

definition PREC :: int where "PREC = 28"
definition ETINY :: int where "ETINY = - 1000026"
definition EMAX :: int where "EMAX = 999999"
definition ETOP :: int where "ETOP = 999972"

subsection \<open>Rounding\<close>

definition half_even :: "nat \<Rightarrow> nat \<Rightarrow> nat" where
  "half_even c m =
     (let q = c div m; r = c mod m in if 2 * r > m \<or> (2 * r = m \<and> odd q) then q + 1 else q)"

definition half_up :: "nat \<Rightarrow> nat \<Rightarrow> nat" where
  "half_up c m = (if 2 * (c mod m) \<ge> m then c div m + 1 else c div m)"

text \<open>Every operation ends with \<open>_fix\<close>: at most 28 digits, exponents within the range.\<close>

fun fix_decimal :: "decimal \<Rightarrow> (decimal_error, decimal) result" where
  "fix_decimal (Fin s c e) =
     (if c = 0 then Ok (Fin s 0 (min (max e ETINY) EMAX))
      else
        let bottom = int (ndigits c) + e - PREC; low = max bottom ETINY
        in if bottom > ETOP then Err Overflow
           else if e < low
           then let q = half_even c (10 ^ nat (low - e));
                    (q', low') = (if ndigits q > nat PREC then (q div 10, low + 1) else (q, low))
                in if low' > ETOP then Err Overflow else Ok (Fin s q' low')
           else Ok (Fin s c e))"
| "fix_decimal d = Ok d"

subsection \<open>Arithmetic\<close>

fun negate :: "decimal \<Rightarrow> decimal" where
  "negate (Fin s c e) = Fin (\<not> s) c e"
| "negate (Infinite s) = Infinite (\<not> s)"
| "negate (NaN sig) = NaN sig"

text \<open>The signed coefficient at a smaller exponent.\<close>

definition scaled :: "bool \<Rightarrow> nat \<Rightarrow> int \<Rightarrow> int \<Rightarrow> int" where
  "scaled s c e low = (if s then - 1 else 1) * int c * 10 ^ nat (e - low)"

fun add_decimal :: "decimal \<Rightarrow> decimal \<Rightarrow> (decimal_error, decimal) result" where
  "add_decimal (NaN a) (NaN b) = (if a \<or> b then Err Invalid_operation else Ok (NaN False))"
| "add_decimal (NaN a) y = (if a then Err Invalid_operation else Ok (NaN False))"
| "add_decimal x (NaN b) = (if b then Err Invalid_operation else Ok (NaN False))"
| "add_decimal (Infinite s) (Infinite t) = (if s = t then Ok (Infinite s) else Err Invalid_operation)"
| "add_decimal (Infinite s) y = Ok (Infinite s)"
| "add_decimal x (Infinite t) = Ok (Infinite t)"
| "add_decimal (Fin s c e) (Fin t d f) =
     (let low = min e f; z = scaled s c e low + scaled t d f low
      in fix_decimal (Fin (if z = 0 then c = 0 \<and> d = 0 \<and> s \<and> t else z < 0) (nat \<bar>z\<bar>) low))"

definition sub_decimal :: "decimal \<Rightarrow> decimal \<Rightarrow> (decimal_error, decimal) result" where
  "sub_decimal x y = add_decimal x (negate y)"

fun mul_decimal :: "decimal \<Rightarrow> decimal \<Rightarrow> (decimal_error, decimal) result" where
  "mul_decimal (NaN a) (NaN b) = (if a \<or> b then Err Invalid_operation else Ok (NaN False))"
| "mul_decimal (NaN a) y = (if a then Err Invalid_operation else Ok (NaN False))"
| "mul_decimal x (NaN b) = (if b then Err Invalid_operation else Ok (NaN False))"
| "mul_decimal (Infinite s) (Infinite t) = Ok (Infinite (s \<noteq> t))"
| "mul_decimal (Infinite s) (Fin t d f) = (if d = 0 then Err Invalid_operation else Ok (Infinite (s \<noteq> t)))"
| "mul_decimal (Fin s c e) (Infinite t) = (if c = 0 then Err Invalid_operation else Ok (Infinite (s \<noteq> t)))"
| "mul_decimal (Fin s c e) (Fin t d f) = fix_decimal (Fin (s \<noteq> t) (c * d) (e + f))"

text \<open>Trailing zeros of a coefficient are dropped until the exponent is reached.\<close>

function strip_zeros :: "nat \<Rightarrow> int \<Rightarrow> int \<Rightarrow> nat \<times> int" where
  "strip_zeros c e ideal = (if e < ideal \<and> 10 dvd c then strip_zeros (c div 10) (e + 1) ideal else (c, e))"
  by pat_completeness auto
termination by (relation "measure (\<lambda>(c, e, ideal). nat (ideal - e))") auto

declare strip_zeros.simps [simp del]

text \<open>Division computes two digits more than it keeps and marks an inexact quotient in the last one.\<close>

fun div_decimal :: "decimal \<Rightarrow> decimal \<Rightarrow> (decimal_error, decimal) result" where
  "div_decimal (NaN a) (NaN b) = (if a \<or> b then Err Invalid_operation else Ok (NaN False))"
| "div_decimal (NaN a) y = (if a then Err Invalid_operation else Ok (NaN False))"
| "div_decimal x (NaN b) = (if b then Err Invalid_operation else Ok (NaN False))"
| "div_decimal (Infinite s) (Infinite t) = Err Invalid_operation"
| "div_decimal (Infinite s) (Fin t d f) = Ok (Infinite (s \<noteq> t))"
| "div_decimal (Fin s c e) (Infinite t) = Ok (Fin (s \<noteq> t) 0 ETINY)"
| "div_decimal (Fin s c e) (Fin t d f) =
     (if d = 0 then Err (if c = 0 then Invalid_operation else Division_by_zero)
      else if c = 0 then fix_decimal (Fin (s \<noteq> t) 0 (e - f))
      else
        let shift = int (ndigits d) - int (ndigits c) + PREC + 1;
            (a, b) = (if shift \<ge> 0 then (c * 10 ^ nat shift, d) else (c, d * 10 ^ nat (- shift)));
            q = a div b;
            (q', x) = (if a mod b \<noteq> 0 then (if q mod 5 = 0 then q + 1 else q, e - f - shift)
                       else strip_zeros q (e - f - shift) (e - f))
        in fix_decimal (Fin (s \<noteq> t) q' x))"

subsection \<open>Comparison\<close>

text \<open>\<open>==\<close> is false on a quiet NaN and raises on a signalling one; \<open><\<close> raises on both.\<close>

fun less_finite :: "decimal \<Rightarrow> decimal \<Rightarrow> bool" where
  "less_finite (Fin s c e) (Fin t d f) = (scaled s c e (min e f) < scaled t d f (min e f))"
| "less_finite (Infinite s) (Infinite t) = (s \<and> \<not> t)"
| "less_finite (Infinite s) (Fin t d f) = s"
| "less_finite (Fin s c e) (Infinite t) = (\<not> t)"
| "less_finite _ _ = False"

fun eq_finite :: "decimal \<Rightarrow> decimal \<Rightarrow> bool" where
  "eq_finite (Fin s c e) (Fin t d f) = (scaled s c e (min e f) = scaled t d f (min e f))"
| "eq_finite (Infinite s) (Infinite t) = (s = t)"
| "eq_finite _ _ = False"

fun is_nan :: "decimal \<Rightarrow> bool" where
  "is_nan (NaN sig) = True"
| "is_nan _ = False"

fun is_signalling :: "decimal \<Rightarrow> bool" where
  "is_signalling (NaN sig) = sig"
| "is_signalling _ = False"

definition less_decimal :: "decimal \<Rightarrow> decimal \<Rightarrow> (decimal_error, bool) result" where
  "less_decimal x y = (if is_nan x \<or> is_nan y then Err Invalid_operation else Ok (less_finite x y))"

definition eq_decimal :: "decimal \<Rightarrow> decimal \<Rightarrow> (decimal_error, bool) result" where
  "eq_decimal x y =
     (if is_signalling x \<or> is_signalling y then Err Invalid_operation else Ok (eq_finite x y))"

definition dec_of_nat :: "nat \<Rightarrow> decimal" where
  "dec_of_nat n = Fin False n 0"

fun to_integral_value :: "decimal \<Rightarrow> (decimal_error, decimal) result" where
  "to_integral_value (NaN sig) = (if sig then Err Invalid_operation else Ok (NaN False))"
| "to_integral_value (Infinite s) = Ok (Infinite s)"
| "to_integral_value (Fin s c e) =
     Ok (if e \<ge> 0 then Fin s c e else Fin s (half_even c (10 ^ nat (- e))) 0)"

fun normalize_decimal :: "decimal \<Rightarrow> (decimal_error, decimal) result" where
  "normalize_decimal (NaN sig) = (if sig then Err Invalid_operation else Ok (NaN False))"
| "normalize_decimal d =
     (case fix_decimal d of
        Inl e \<Rightarrow> Err e
      | Inr (Fin s c e) \<Rightarrow>
          Ok (if c = 0 then Fin s 0 0 else let (c', e') = strip_zeros c e EMAX in Fin s c' e')
      | Inr d' \<Rightarrow> Ok d')"

text \<open>\<open>quantize\<close> to the exponent \<open>q\<close> with half-up rounding; a result of more than 28 digits raises.\<close>

fun quantize_half_up :: "int \<Rightarrow> decimal \<Rightarrow> (decimal_error, decimal) result" where
  "quantize_half_up q (NaN sig) = (if sig then Err Invalid_operation else Ok (NaN False))"
| "quantize_half_up q (Infinite s) = Err Invalid_operation"
| "quantize_half_up q (Fin s c e) =
     (let c' = (if c = 0 then 0 else if e \<ge> q then c * 10 ^ nat (e - q) else half_up c (10 ^ nat (q - e)))
      in if c \<noteq> 0 \<and> (int (ndigits c) + e - q > PREC \<or> int (ndigits c') > PREC) then Err Invalid_operation
         else Ok (Fin s c' q))"

subsection \<open>Texts\<close>

definition sign_text :: "bool \<Rightarrow> string" where
  "sign_text s = (if s then ''-'' else '''')"

text \<open>A coefficient with its decimal point \<open>point\<close> digits from its left end.\<close>

definition pointed :: "string \<Rightarrow> int \<Rightarrow> string" where
  "pointed digits point =
     (if point \<le> 0 then ''0.'' @ replicate (nat (- point)) CHR ''0'' @ digits
      else if point \<ge> int (length digits) then digits @ replicate (nat (point - int (length digits))) CHR ''0''
      else take (nat point) digits @ ''.'' @ drop (nat point) digits)"

text \<open>\<open>str(d)\<close>: plain notation for small exponents, scientific otherwise.\<close>

fun decimal_str :: "decimal \<Rightarrow> string" where
  "decimal_str (NaN sig) = (if sig then ''sNaN'' else ''NaN'')"
| "decimal_str (Infinite s) = sign_text s @ ''Infinity''"
| "decimal_str (Fin s c e) =
     (let digits = nat_digits c; left = e + int (length digits)
      in sign_text s @
         (if e \<le> 0 \<and> left > - 6 then pointed digits left
          else pointed digits 1 @ ''E'' @ (if left - 1 \<ge> 0 then ''+'' else '''') @ py_str_int (left - 1)))"

text \<open>\<open>format(d, 'f')\<close>: never an exponent.\<close>

fun decimal_plain :: "decimal \<Rightarrow> string" where
  "decimal_plain (NaN sig) = (if sig then ''sNaN'' else ''NaN'')"
| "decimal_plain (Infinite s) = sign_text s @ ''Infinity''"
| "decimal_plain (Fin s c e) =
     (let digits = nat_digits c
      in sign_text s @ (if c = 0 \<and> e > 0 then ''0'' else pointed digits (e + int (length digits))))"

text \<open>\<open>Decimal(text)\<close> of an ASCII text; underscores are ignored.\<close>

definition is_digit :: "char \<Rightarrow> bool" where
  "is_digit c \<longleftrightarrow> 48 \<le> code c \<and> code c \<le> 57"

definition digits_value :: "string \<Rightarrow> nat" where
  "digits_value ds = foldl (\<lambda>n c. 10 * n + (code c - 48)) 0 ds"

definition read_sign :: "string \<Rightarrow> bool \<times> string" where
  "read_sign t =
     (case t of
        c # cs \<Rightarrow> if c = CHR ''-'' then (True, cs) else if c = CHR ''+'' then (False, cs) else (False, t)
      | [] \<Rightarrow> (False, t))"

definition read_exponent :: "string \<Rightarrow> int option" where
  "read_exponent t =
     (case t of
        [] \<Rightarrow> Some 0
      | c # cs \<Rightarrow>
          if lower_char c \<noteq> CHR ''e'' then None
          else let (neg, ds) = read_sign cs
               in if ds \<noteq> [] \<and> list_all is_digit ds
                  then Some ((if neg then - 1 else 1) * int (digits_value ds)) else None)"

definition read_finite :: "bool \<Rightarrow> string \<Rightarrow> decimal option" where
  "read_finite s t =
     (let whole = takeWhile is_digit t; rest = dropWhile is_digit t;
          (frac, tail) = (case rest of
             c # cs \<Rightarrow> if c = CHR ''.'' then (takeWhile is_digit cs, dropWhile is_digit cs) else ([], rest)
           | [] \<Rightarrow> ([], []))
      in if whole = [] \<and> frac = [] then None
         else map_option (\<lambda>x. Fin s (digits_value (whole @ frac)) (x - int (length frac)))
                (read_exponent tail))"

definition read_decimal :: "string \<Rightarrow> decimal option" where
  "read_decimal text =
     (let (s, t) = read_sign (filter (\<lambda>c. c \<noteq> CHR ''_'') (py_strip text)); l = py_lower t
      in if l = ''inf'' \<or> l = ''infinity'' then Some (Infinite s)
         else if starts_with ''nan'' l \<and> list_all is_digit (drop 3 l) then Some (NaN False)
         else if starts_with ''snan'' l \<and> list_all is_digit (drop 4 l) then Some (NaN True)
         else read_finite s t)"

subsection \<open>The lemmas of the representation\<close>

lemma ndigits_bounds: "n < 10 ^ ndigits n \<and> (0 < n \<longrightarrow> 10 ^ (ndigits n - 1) \<le> n) \<and> 0 < ndigits n"
proof (induction n rule: nat_digits.induct)
  case (1 n)
  show ?case
  proof (cases "n < 10")
    case True
    then show ?thesis by (simp add: ndigits_def nat_digits.simps)
  next
    case False
    then have d: "ndigits n = Suc (ndigits (n div 10))" by (simp add: ndigits_def nat_digits.simps [of n])
    from 1 False have IH: "n div 10 < 10 ^ ndigits (n div 10)" "10 ^ (ndigits (n div 10) - 1) \<le> n div 10"
      "0 < ndigits (n div 10)" by auto
    then have "10 * 10 ^ (ndigits (n div 10) - 1) \<le> n" by linarith
    moreover have "10 * 10 ^ (ndigits (n div 10) - 1) = (10 :: nat) ^ ndigits (n div 10)"
      using IH(3) by (simp add: power_eq_if)
    moreover have "n < 10 * 10 ^ ndigits (n div 10)" using IH(1) by linarith
    ultimately show ?thesis using d by simp
  qed
qed

lemma ndigits_pos [simp]: "0 < ndigits n"
  using ndigits_bounds by simp

lemma less_ndigits: "n < 10 ^ ndigits n"
  using ndigits_bounds by simp

lemma ndigits_lower: "0 < n \<Longrightarrow> 10 ^ (ndigits n - 1) \<le> n"
  using ndigits_bounds by simp

lemma ndigits_le: "0 < k \<Longrightarrow> ndigits n \<le> k \<longleftrightarrow> n < 10 ^ k"
proof
  assume "ndigits n \<le> k"
  then have "(10 :: nat) ^ ndigits n \<le> 10 ^ k" by (intro power_increasing) simp_all
  with less_ndigits [of n] show "n < 10 ^ k" by (rule less_le_trans)
next
  assume k: "0 < k" and n: "n < 10 ^ k"
  show "ndigits n \<le> k"
  proof (cases "n = 0")
    case True
    with k show ?thesis by (simp add: ndigits_def nat_digits.simps)
  next
    case False
    then have "(10 :: nat) ^ (ndigits n - 1) < 10 ^ k" using ndigits_lower [of n] n by (intro le_less_trans [OF _ n]) simp
    then have "ndigits n - 1 < k" by (rule power_less_imp_less_exp [rotated]) simp
    with k show ?thesis by linarith
  qed
qed

lemma half_even_exact: "0 < m \<Longrightarrow> half_even (q * m) m = q"
  by (simp add: half_even_def)

lemma half_even_error: "0 < m \<Longrightarrow> \<bar>real (half_even c m) - real c / real m\<bar> \<le> 1 / 2"
proof -
  assume m: "0 < m"
  have c: "real c = real (c div m) * real m + real (c mod m)"
    by (metis div_mult_mod_eq of_nat_add of_nat_mult)
  then have quotient: "real c / real m = real (c div m) + real (c mod m) / real m"
    using m by (simp add: field_simps)
  have r: "c mod m < m" using m by simp
  show ?thesis
  proof (cases "2 * (c mod m) > m \<or> (2 * (c mod m) = m \<and> odd (c div m))")
    case True
    then have "half_even c m = c div m + 1" "real m \<le> 2 * real (c mod m)" by (auto simp: half_even_def)
    then show ?thesis using m r quotient by (simp add: field_simps abs_le_iff)
  next
    case False
    then have "half_even c m = c div m" "2 * real (c mod m) \<le> real m" by (auto simp: half_even_def Let_def)
    then show ?thesis using m quotient by (simp add: field_simps abs_le_iff)
  qed
qed

lemma powi_nat: "0 \<le> z \<Longrightarrow> real (10 ^ nat z) = 10 powi z"
  by (simp add: power_int_def)

lemma powi_split: "(10 :: real) powi (a + b) = 10 powi a * 10 powi b"
  by (simp add: power_int_add)

lemma powi_le_iff: "(10 :: real) powi a \<le> 10 powi b \<longleftrightarrow> a \<le> b"
proof
  assume "(10 :: real) powi a \<le> 10 powi b"
  then show "a \<le> b" using power_int_strict_increasing [of b a "10 :: real"] by (force simp: not_le)
qed (rule power_int_increasing, simp_all)

lemma powi_less_iff: "(10 :: real) powi a < 10 powi b \<longleftrightarrow> a < b"
  using powi_le_iff [of b a] by (simp add: linorder_not_le [symmetric])

lemma dval_bounds:
  assumes "0 < c"
  shows "10 powi (int (ndigits c) + e - 1) \<le> \<bar>dval (Fin s c e)\<bar>" "\<bar>dval (Fin s c e)\<bar> < 10 powi (int (ndigits c) + e)"
proof -
  have abs: "\<bar>dval (Fin s c e)\<bar> = real c * 10 powi e" by simp
  have "(10 :: real) ^ (ndigits c - 1) \<le> real c"
    using ndigits_lower [OF assms] by (metis of_nat_le_iff of_nat_numeral of_nat_power)
  then have "10 powi int (ndigits c - 1) * 10 powi e \<le> real c * 10 powi e"
    by (intro mult_right_mono) simp_all
  moreover have "(10 :: real) powi (int (ndigits c) + e - 1) = 10 powi int (ndigits c - 1) * 10 powi e"
    unfolding powi_split [symmetric] using ndigits_pos [of c] by (simp add: of_nat_diff Suc_le_eq algebra_simps)
  ultimately show "10 powi (int (ndigits c) + e - 1) \<le> \<bar>dval (Fin s c e)\<bar>" using abs by simp
  have "real c < 10 ^ ndigits c"
    using less_ndigits [of c] by (metis of_nat_less_iff of_nat_numeral of_nat_power)
  then have "real c * 10 powi e < 10 ^ ndigits c * 10 powi e" by simp
  then show "\<bar>dval (Fin s c e)\<bar> < 10 powi (int (ndigits c) + e)" using abs powi_split by simp
qed

lemma abs_dval: "\<bar>dval (Fin s c e)\<bar> = real c * 10 powi e"
  by (simp add: abs_mult)

text \<open>A number with at most 28 digits at an exponent of the range is kept as it is.\<close>

definition representable :: "real \<Rightarrow> bool" where
  "representable x \<longleftrightarrow> (\<exists>k m. x = real_of_int k * 10 powi m \<and> \<bar>k\<bar> < 10 ^ 28 \<and> ETINY \<le> m \<and> m \<le> ETOP)"

lemma fix_exact:
  assumes "representable (dval (Fin s c e))"
  shows "\<exists>c' e'. fix_decimal (Fin s c e) = Ok (Fin s c' e') \<and> dval (Fin s c' e') = dval (Fin s c e) \<and>
    c' < 10 ^ 28 \<and> (c = 0 \<longleftrightarrow> c' = 0)"
proof (cases "c = 0")
  case False
  obtain k m where k: "dval (Fin s c e) = real_of_int k * 10 powi m" "\<bar>k\<bar> < 10 ^ 28" "ETINY \<le> m" "m \<le> ETOP"
    using assms unfolding representable_def by blast
  define bottom low where "bottom = int (ndigits c) + e - PREC" and "low = max bottom ETINY"
  have abs: "real c * 10 powi e = real_of_int \<bar>k\<bar> * 10 powi m"
    using arg_cong [OF k(1), of abs] by (simp add: abs_mult split: if_splits)
  have "real_of_int \<bar>k\<bar> < 10 powi 28" using k(2) by (simp add: power_int_def)
  then have "real c * 10 powi e < 10 powi 28 * 10 powi m" using abs by simp
  then have "10 powi (int (ndigits c) + e - 1) < (10 :: real) powi (28 + m)"
    using dval_bounds(1) [of c e s, unfolded abs_dval] False unfolding powi_split [of 28 m] by linarith
  then have bottom: "bottom \<le> m" by (simp add: powi_less_iff bottom_def PREC_def)
  with k(3) have low: "low \<le> m" by (simp add: low_def)
  show ?thesis
  proof (cases "e < low")
    case True
    define q where "q = nat \<bar>k\<bar> * 10 ^ nat (m - low)"
    have "real c * 10 powi e = real (nat \<bar>k\<bar>) * 10 powi ((m - low) + (low - e) + e)"
      using abs by simp
    also have "\<dots> = real (q * 10 ^ nat (low - e)) * 10 powi e"
      unfolding powi_split q_def using low True by (simp add: powi_nat [symmetric])
    finally have c: "c = q * 10 ^ nat (low - e)" by (simp del: of_nat_mult of_nat_power)
    then have half: "half_even c (10 ^ nat (low - e)) = q" by (simp add: half_even_exact)
    have split: "real c * 10 powi e = real q * 10 powi low"
    proof -
      have "(10 :: real) powi low = 10 powi (low - e) * 10 powi e" by (simp add: powi_split [symmetric])
      then show ?thesis using c True by (simp add: powi_nat [symmetric])
    qed
    have "real q * 10 powi low < 10 powi (28 + low)"
    proof -
      have "real c * 10 powi e < 10 powi (int (ndigits c) + e)" using dval_bounds(2) [of c s e, unfolded abs_dval] False by simp
      also have "\<dots> \<le> 10 powi (28 + low)" by (simp add: powi_le_iff low_def bottom_def PREC_def)
      finally show ?thesis using split by simp
    qed
    then have "real q * 10 powi low < 10 ^ 28 * 10 powi low" unfolding powi_split by simp
    then have "real q < 10 ^ 28" by (rule mult_right_less_imp_less) simp
    then have q: "q < 10 ^ 28" by (metis of_nat_less_iff of_nat_numeral of_nat_power)
    then have "ndigits q \<le> nat PREC" unfolding PREC_def by (subst ndigits_le) simp_all
    then have "fix_decimal (Fin s c e) = Ok (Fin s q low)"
      using False True half bottom low k(4) by (simp add: Let_def bottom_def [symmetric] low_def [symmetric])
    moreover have "q \<noteq> 0" using c False by (intro notI) simp
    ultimately show ?thesis using split q False by (intro exI [of _ q] exI [of _ low]) simp
  next
    case inside: False
    have "ndigits c \<le> 28" using inside by (simp add: low_def bottom_def PREC_def)
    then have "c < 10 ^ 28" by (subst (asm) ndigits_le) simp_all
    moreover have "fix_decimal (Fin s c e) = Ok (Fin s c e)"
      using False inside bottom k(4) by (simp add: Let_def bottom_def [symmetric] low_def [symmetric])
    ultimately show ?thesis using False by blast
  qed
qed simp

text \<open>Otherwise the result is off by half a unit of its last digit at most, relative to the number
  5 in the 28th digit (above the subnormal range).\<close>

lemma fix_error:
  assumes "fix_decimal (Fin s c e) = Ok d" "0 < c" "ETINY + PREC \<le> int (ndigits c) + e"
  shows "\<bar>dval d - dval (Fin s c e)\<bar> \<le> 5 / 10 ^ 28 * \<bar>dval (Fin s c e)\<bar>" "finite_decimal d"
proof -
  define low where "low = int (ndigits c) + e - PREC"
  have max: "max low ETINY = low" using assms(3) by (simp add: low_def)
  define q where "q = half_even c (10 ^ nat (low - e))"
  have "\<bar>dval d - dval (Fin s c e)\<bar> \<le> 5 / 10 ^ 28 * \<bar>dval (Fin s c e)\<bar> \<and> finite_decimal d"
  proof (cases "e < low")
    case True
    have val: "dval d = dval (Fin s q low) \<and> finite_decimal d"
    proof (cases "ndigits q > nat PREC")
      case big: True
      have "real q \<le> real c / real (10 ^ nat (low - e)) + 1 / 2"
        using half_even_error [of "10 ^ nat (low - e)" c, OF zero_less_power] unfolding q_def by linarith
      moreover have "real c < 10 ^ 28 * real (10 ^ nat (low - e))"
      proof -
        have "real c < real (10 ^ ndigits c)" using less_ndigits [of c] by (simp only: of_nat_less_iff)
        also have "ndigits c = 28 + nat (low - e)" using True by (simp add: low_def PREC_def)
        finally show ?thesis by (simp add: power_add)
      qed
      then have "real c / real (10 ^ nat (low - e)) < 10 ^ 28" by (simp add: divide_less_eq)
      ultimately have "real q < 10 ^ 28 + 1" by linarith
      then have "q \<le> 10 ^ 28" by simp
      moreover have "10 ^ 28 \<le> q" using big ndigits_le [of 28 q] by (simp add: PREC_def not_le)
      ultimately have "q = 10 ^ 28" by simp
      moreover have "d = Fin s (q div 10) (low + 1)"
        using assms(1,2) big True by (simp add: Let_def low_def [symmetric] max q_def [symmetric] split: if_splits)
      moreover have "(10 :: real) powi (low + 1) = 10 * 10 powi low" by (simp add: power_int_add)
      ultimately show ?thesis by simp
    next
      case False
      then have "d = Fin s q low"
        using assms(1,2) True by (simp add: Let_def low_def [symmetric] max q_def [symmetric] split: if_splits)
      then show ?thesis by simp
    qed
    have scale: "10 powi e = 10 powi low / real (10 ^ nat (low - e))"
      using powi_nat [of "low - e"] powi_split [of "low - e" e] True by (simp add: field_simps)
    have "\<bar>dval (Fin s q low) - dval (Fin s c e)\<bar> = \<bar>real q - real c / real (10 ^ nat (low - e))\<bar> * 10 powi low"
    proof -
      have "\<bar>dval (Fin s q low) - dval (Fin s c e)\<bar> = \<bar>(real q - real c / real (10 ^ nat (low - e))) * 10 powi low\<bar>"
        unfolding dval.simps scale by (cases s) (simp_all add: algebra_simps abs_minus_commute)
      then show ?thesis by (simp add: abs_mult)
    qed
    also have "\<dots> \<le> 1 / 2 * 10 powi low"
      using half_even_error [of "10 ^ nat (low - e)" c] by (intro mult_right_mono) (simp_all add: q_def)
    also have "\<dots> = 5 / 10 ^ 28 * 10 powi (low + 27)"
      by (simp add: powi_split power_int_def [of _ 27])
    also have "\<dots> \<le> 5 / 10 ^ 28 * \<bar>dval (Fin s c e)\<bar>"
      using dval_bounds(1) [OF assms(2), of e s] by (intro mult_left_mono) (simp_all add: low_def PREC_def algebra_simps)
    finally show ?thesis using val by simp
  next
    case False
    with assms(1,2) have "d = Fin s c e" by (simp add: Let_def low_def [symmetric] max split: if_splits)
    then show ?thesis by simp
  qed
  then show "\<bar>dval d - dval (Fin s c e)\<bar> \<le> 5 / 10 ^ 28 * \<bar>dval (Fin s c e)\<bar>" "finite_decimal d" by simp_all
qed

lemma fix_returns:
  assumes "\<bar>dval (Fin s c e)\<bar> < 10 powi EMAX"
  obtains d where "fix_decimal (Fin s c e) = Ok d"
proof (cases "c = 0")
  case False
  then have "10 powi (int (ndigits c) + e - 1) < (10 :: real) powi EMAX"
    using dval_bounds(1) [of c e s] assms by linarith
  then have "int (ndigits c) + e \<le> EMAX" by (simp add: powi_less_iff)
  then have "\<exists>d. fix_decimal (Fin s c e) = Ok d"
    by (auto simp: Let_def EMAX_def ETOP_def ETINY_def PREC_def)
  then show thesis using that by blast
qed (use that in simp)

lemma scaled_val:
  assumes "low \<le> e"
  shows "real_of_int (scaled s c e low) * 10 powi low = dval (Fin s c e)"
proof -
  have "(10 :: real) powi e = 10 ^ nat (e - low) * 10 powi low"
    using assms powi_split [of "e - low" low] powi_nat [of "e - low"] by simp
  then show ?thesis by (simp add: scaled_def)
qed

lemma dval_negate [simp]: "dval (negate x) = - dval x" "finite_decimal (negate x) = finite_decimal x"
  by (cases x; simp)+

lemma finite_decimalE:
  assumes "finite_decimal x"
  obtains s c e where "x = Fin s c e"
  using assms by (cases x) auto

lemma add_fix:
  assumes "finite_decimal x" "finite_decimal y"
  obtains s c e where "add_decimal x y = fix_decimal (Fin s c e)" "dval (Fin s c e) = dval x + dval y"
proof -
  obtain s c e t d f where x: "x = Fin s c e" and y: "y = Fin t d f"
    using assms by (auto elim!: finite_decimalE)
  define low where "low = min e f"
  define z where "z = scaled s c e low + scaled t d f low"
  have "real_of_int z * 10 powi low = dval x + dval y"
    using scaled_val [of low e s c] scaled_val [of low f t d]
    by (simp add: z_def low_def x y distrib_right del: dval.simps)
  moreover have "dval (Fin sg (nat \<bar>z\<bar>) low) = real_of_int z * 10 powi low" if "sg = (z < 0) \<or> z = 0" for sg
    using that by auto
  ultimately show thesis
    using that [of "if z = 0 then c = 0 \<and> d = 0 \<and> s \<and> t else z < 0" "nat \<bar>z\<bar>" low]
    by (simp add: x y Let_def low_def [symmetric] z_def [symmetric] del: dval.simps fix_decimal.simps)
qed

lemma fixed_exact:
  assumes "r = fix_decimal (Fin s c e)" "dval (Fin s c e) = v" "representable v"
  shows "\<exists>z. r = Ok z \<and> finite_decimal z \<and> dval z = v"
  using fix_exact [of s c e] assms by (auto simp del: dval.simps fix_decimal.simps)

lemma add_exact:
  assumes "finite_decimal x" "finite_decimal y" "representable (dval x + dval y)"
  shows "\<exists>z. add_decimal x y = Ok z \<and> finite_decimal z \<and> dval z = dval x + dval y"
  using add_fix [OF assms(1,2)] fixed_exact assms(3) by metis

lemma sub_exact:
  assumes "finite_decimal x" "finite_decimal y" "representable (dval x - dval y)"
  shows "\<exists>z. sub_decimal x y = Ok z \<and> finite_decimal z \<and> dval z = dval x - dval y"
  using add_exact [of x "negate y"] assms by (simp add: sub_decimal_def)

lemma mul_fix:
  assumes "finite_decimal x" "finite_decimal y"
  obtains s c e where "mul_decimal x y = fix_decimal (Fin s c e)" "dval (Fin s c e) = dval x * dval y"
proof -
  obtain s c e t d f where x: "x = Fin s c e" and y: "y = Fin t d f"
    using assms by (auto elim!: finite_decimalE)
  show thesis by (rule that [of "s \<noteq> t" "c * d" "e + f"]) (simp_all add: x y powi_split del: fix_decimal.simps)
qed

lemma mul_exact:
  assumes "finite_decimal x" "finite_decimal y" "representable (dval x * dval y)"
  shows "\<exists>z. mul_decimal x y = Ok z \<and> finite_decimal z \<and> dval z = dval x * dval y"
  using mul_fix [OF assms(1,2)] fixed_exact assms(3) by metis

lemma fixed_near:
  assumes "r = fix_decimal (Fin s c e)" "dval (Fin s c e) = v" "v = 0 \<or> 10 powi (ETINY + PREC) \<le> \<bar>v\<bar>"
    and "\<bar>v\<bar> < 10 powi EMAX"
  shows "\<exists>z. r = Ok z \<and> finite_decimal z \<and> \<bar>dval z - v\<bar> \<le> 5 / 10 ^ 28 * \<bar>v\<bar>"
proof (cases "c = 0")
  case True
  with assms(1,2) show ?thesis by auto
next
  case False
  obtain z where z: "fix_decimal (Fin s c e) = Ok z" using fix_returns [of s c e] assms(2,4) by blast
  have "v \<noteq> 0" using False assms(2) by (cases s) auto
  then have "10 powi (ETINY + PREC) < (10 :: real) powi (int (ndigits c) + e)"
    using assms(2,3) dval_bounds(2) [of c s e] False by (simp del: dval.simps)
  then have "ETINY + PREC \<le> int (ndigits c) + e" by (simp add: powi_less_iff)
  with z fix_error [OF z] False assms(1,2) show ?thesis by (simp del: dval.simps fix_decimal.simps)
qed

lemma mul_near:
  assumes "finite_decimal x" "finite_decimal y" "dval x * dval y = 0 \<or> 10 powi (ETINY + PREC) \<le> \<bar>dval x * dval y\<bar>"
    "\<bar>dval x * dval y\<bar> < 10 powi EMAX"
  shows "\<exists>z. mul_decimal x y = Ok z \<and> finite_decimal z \<and> \<bar>dval z - dval x * dval y\<bar> \<le> 5 / 10 ^ 28 * \<bar>dval x * dval y\<bar>"
  using mul_fix [OF assms(1,2)] fixed_near assms(3,4) by metis

lemma strip_zeros_val: "strip_zeros c e ideal = (c', e') \<Longrightarrow> real c' * 10 powi e' = real c * 10 powi e"
proof (induction c e ideal rule: strip_zeros.induct)
  case (1 c e ideal)
  show ?case
  proof (cases "e < ideal \<and> 10 dvd c")
    case True
    then have "strip_zeros (c div 10) (e + 1) ideal = (c', e')" using 1(2) by (subst (asm) strip_zeros.simps) simp
    with 1(1) True have "real c' * 10 powi e' = real (c div 10) * 10 powi (e + 1)" by blast
    also have "\<dots> = real (c div 10 * 10) * 10 powi e" by (simp add: power_int_add)
    finally show ?thesis using True by simp
  next
    case False
    then have "strip_zeros c e ideal = (c, e)" by (subst strip_zeros.simps) auto
    with 1(2) show ?thesis by simp
  qed
qed

lemma div_fix:
  assumes "finite_decimal x" "finite_decimal y" "dval x \<noteq> 0" "dval y \<noteq> 0"
  obtains s c e where "div_decimal x y = fix_decimal (Fin s c e)"
    "\<bar>dval (Fin s c e) - dval x / dval y\<bar> \<le> 1 / 10 ^ 28 * \<bar>dval x / dval y\<bar>"
proof -
  obtain s c e t d f where x: "x = Fin s c e" and y: "y = Fin t d f"
    using assms(1,2) by (auto elim!: finite_decimalE)
  have pos: "0 < c" "0 < d" using assms(3,4) x y by auto
  define shift where "shift = int (ndigits d) - int (ndigits c) + PREC + 1"
  obtain a b where ab: "(a, b) = (if shift \<ge> 0 then (c * 10 ^ nat shift, d) else (c, d * 10 ^ nat (- shift)))"
    by (metis surj_pair)
  have b: "0 < b" using ab pos by (auto split: if_splits)
  have ratio: "real a / real b = real c / real d * 10 powi shift"
    using ab pos by (auto simp: power_int_def field_simps split: if_splits)
  define exact where "exact = real c / real d * 10 powi (e - f)"
  have exact: "dval x / dval y = (if s \<noteq> t then - 1 else 1) * exact" "0 < exact"
    using pos by (auto simp: x y exact_def power_int_diff)
  have large: "10 ^ 28 \<le> real a / real b"
  proof -
    have "10 powi (int (ndigits c) - 1) \<le> real c" "real d \<le> 10 powi (int (ndigits d))"
      using dval_bounds(1) [OF pos(1), of 0 False] dval_bounds(2) [OF pos(2), of False 0] by simp_all
    then have "10 powi (int (ndigits c) - 1) / 10 powi (int (ndigits d)) \<le> real c / real d"
      using pos by (intro frac_le) simp_all
    then have "10 powi (int (ndigits c) - 1 - int (ndigits d)) \<le> real c / real d"
      by (subst power_int_diff) simp_all
    then have "10 powi (int (ndigits c) - 1 - int (ndigits d)) * 10 powi shift \<le> real a / real b"
      unfolding ratio by (rule mult_right_mono) simp
    then show ?thesis unfolding powi_split [symmetric] by (simp add: shift_def PREC_def power_int_def)
  qed
  define q where "q = a div b"
  define p where "p = (if a mod b \<noteq> 0 then (if q mod 5 = 0 then q + 1 else q, e - f - shift)
    else strip_zeros q (e - f - shift) (e - f))"
  obtain q' g where q': "p = (q', g)" by fastforce
  have call: "div_decimal x y = fix_decimal (Fin (s \<noteq> t) q' g)"
  proof -
    have "div_decimal x y = (case p of (q', g) \<Rightarrow> fix_decimal (Fin (s \<noteq> t) q' g))"
      using pos unfolding x y div_decimal.simps Let_def shift_def [symmetric] ab [symmetric] prod.case
        q_def [symmetric] p_def [symmetric] by (simp del: fix_decimal.simps)
    then show ?thesis by (simp only: q' prod.case)
  qed
  have frac: "real a / real b = real q + real (a mod b) / real b"
  proof -
    have "real a = real (a div b) * real b + real (a mod b)"
      by (metis div_mult_mod_eq of_nat_add of_nat_mult)
    then show ?thesis using b by (simp add: q_def field_simps)
  qed
  have near: "\<bar>real q' * 10 powi g - exact\<bar> \<le> 1 / 10 ^ 28 * exact"
  proof -
    have scale: "exact = real a / real b * 10 powi (e - f - shift)"
      unfolding ratio by (simp add: exact_def powi_split [symmetric])
    show ?thesis
    proof (cases "a mod b = 0")
      case True
      then have "real q' * 10 powi g = real q * 10 powi (e - f - shift)"
        using q' strip_zeros_val unfolding p_def by simp
      with True frac scale exact(2) show ?thesis by simp
    next
      case False
      then have g: "g = e - f - shift" and "q' = q \<or> q' = q + 1" using q' by (auto simp: p_def split: if_splits)
      moreover have "real (a mod b) / real b < 1" "0 \<le> real (a mod b) / real b" using b by simp_all
      ultimately have "\<bar>real q' - real a / real b\<bar> \<le> 1" using frac by auto
      also have "\<dots> \<le> 1 / 10 ^ 28 * (real a / real b)" using large by simp
      finally have "\<bar>real q' - real a / real b\<bar> * 10 powi g \<le> 1 / 10 ^ 28 * (real a / real b) * 10 powi g"
        by (rule mult_right_mono) simp
      moreover have "\<bar>real q' * 10 powi g - exact\<bar> = \<bar>real q' - real a / real b\<bar> * 10 powi g"
      proof -
        have "real q' * 10 powi g - exact = (real q' - real a / real b) * 10 powi g"
          unfolding scale g by (simp add: left_diff_distrib)
        then show ?thesis by (simp add: abs_mult)
      qed
      ultimately show ?thesis unfolding scale g by simp
    qed
  qed
  show thesis
  proof (rule that [OF call])
    have "\<bar>dval (Fin (s \<noteq> t) q' g) - dval x / dval y\<bar> = \<bar>real q' * 10 powi g - exact\<bar>"
      using exact(1) by (auto simp: abs_minus_commute)
    then show "\<bar>dval (Fin (s \<noteq> t) q' g) - dval x / dval y\<bar> \<le> 1 / 10 ^ 28 * \<bar>dval x / dval y\<bar>"
      using near exact by (simp add: abs_mult)
  qed
qed

lemma div_near:
  assumes "finite_decimal x" "finite_decimal y" "dval y \<noteq> 0" "dval x \<noteq> 0"
    and "10 powi (- 900000) \<le> \<bar>dval x / dval y\<bar>" "\<bar>dval x / dval y\<bar> \<le> 10 powi 900000"
  shows "\<exists>z. div_decimal x y = Ok z \<and> finite_decimal z \<and>
    \<bar>dval z - dval x / dval y\<bar> \<le> 7 / 10 ^ 28 * \<bar>dval x / dval y\<bar>"
proof -
  define v where "v = dval x / dval y"
  obtain s c e where fixed: "div_decimal x y = fix_decimal (Fin s c e)" "\<bar>dval (Fin s c e) - v\<bar> \<le> 1 / 10 ^ 28 * \<bar>v\<bar>"
    unfolding v_def using div_fix [OF assms(1,2,4,3)] by metis
  define w where "w = dval (Fin s c e)"
  have w: "\<bar>w - v\<bar> \<le> 1 / 10 ^ 28 * \<bar>v\<bar>" using fixed(2) by (simp add: w_def)
  moreover have "1 / 10 ^ 28 * \<bar>v\<bar> \<le> 1 / 10 * \<bar>v\<bar>" by (intro mult_right_mono) simp_all
  ultimately have wv': "\<bar>w - v\<bar> \<le> 1 / 10 * \<bar>v\<bar>" by linarith
  have wv: "\<bar>w\<bar> \<le> 11 / 10 * \<bar>v\<bar>" using wv' by linarith
  have vw: "9 / 10 * \<bar>v\<bar> \<le> \<bar>w\<bar>" using wv' by linarith
  define lo hi :: int where "lo = - 900000" and "hi = 900000"
  have pos: "0 < (10 :: real) powi a" for a by simp
  have step: "(10 :: real) powi (a + 1) = 10 * 10 powi a" for a by (simp add: power_int_add)
  have "10 powi (ETINY + PREC) \<le> (10 :: real) powi (lo - 1)"
    unfolding powi_le_iff by (simp add: ETINY_def PREC_def lo_def)
  moreover have "(10 :: real) powi lo = 10 * 10 powi (lo - 1)" using step [of "lo - 1"] by simp
  ultimately have "10 powi (ETINY + PREC) \<le> 9 / 10 * (10 :: real) powi lo" using pos [of "lo - 1"] by linarith
  moreover have "(10 :: real) powi (hi + 1) \<le> 10 powi EMAX"
    unfolding powi_le_iff by (simp add: EMAX_def hi_def)
  then have "11 / 10 * 10 powi hi < (10 :: real) powi EMAX"
    unfolding step using pos [of hi] by linarith
  moreover have "9 / 10 * 10 powi lo \<le> \<bar>w\<bar>" "\<bar>w\<bar> \<le> 11 / 10 * 10 powi hi"
    using assms(5) [folded v_def lo_def] assms(6) [folded v_def hi_def] wv vw by linarith+
  ultimately have "10 powi (ETINY + PREC) \<le> \<bar>w\<bar>" "\<bar>w\<bar> < 10 powi EMAX" by linarith+
  with fixed_near [OF refl, of s c e w] obtain z where z: "fix_decimal (Fin s c e) = Ok z" "finite_decimal z"
    "\<bar>dval z - w\<bar> \<le> 5 / 10 ^ 28 * \<bar>w\<bar>" by (auto simp: w_def simp del: dval.simps fix_decimal.simps)
  have "5 / 10 ^ 28 * \<bar>w\<bar> \<le> 5 / 10 ^ 28 * (11 / 10 * \<bar>v\<bar>)" using wv by (rule mult_left_mono) simp
  moreover have "5 / 10 ^ 28 * (11 / 10 * \<bar>v\<bar>) + 1 / 10 ^ 28 * \<bar>v\<bar> \<le> 7 / 10 ^ 28 * \<bar>v\<bar>" by simp
  ultimately have "\<bar>dval z - v\<bar> \<le> 7 / 10 ^ 28 * \<bar>v\<bar>" using z(3) w by argo
  with fixed(1) z show ?thesis unfolding v_def by (intro exI [of _ z]) simp
qed

subsection \<open>Reading back what is printed\<close>

lemma code_digit [simp]: "k < 10 \<Longrightarrow> code (char_of (48 + k)) = 48 + k"
  by (simp add: code_def)

lemma nat_digits_digits: "list_all is_digit (nat_digits n)"
proof (induction n rule: nat_digits.induct)
  case (1 n)
  have "is_digit (char_of (48 + k))" if "k < 10" for k :: nat using that by (simp add: is_digit_def)
  with 1 show ?case by (subst nat_digits.simps) simp
qed

lemma nat_digits_nonempty [simp]: "nat_digits n \<noteq> []"
  by (subst nat_digits.simps) simp

lemma digits_value_append: "digits_value (xs @ [c]) = 10 * digits_value xs + (code c - 48)"
  by (simp add: digits_value_def)

lemma digits_value_digits [simp]: "digits_value (nat_digits n) = n"
proof (induction n rule: nat_digits.induct)
  case (1 n)
  then show ?case
    by (subst nat_digits.simps) (auto simp: digits_value_append, simp add: digits_value_def)
qed

lemma digits_value_zeros: "digits_value (replicate n CHR ''0'' @ ds) = digits_value ds"
  by (induction n) (simp_all add: digits_value_def code_def)

lemma digits_value_zero_point: "digits_value (CHR ''0'' # ds) = digits_value ds"
  by (simp add: digits_value_def code_def)

lemma digits_value_padded: "digits_value (ds @ replicate n CHR ''0'') = digits_value ds * 10 ^ n"
proof (induction n)
  case (Suc n)
  have split: "ds @ replicate (Suc n) CHR ''0'' = (ds @ replicate n CHR ''0'') @ [CHR ''0'']"
    by (simp add: replicate_append_same)
  show ?case unfolding split digits_value_append using Suc by (simp add: code_def)
qed simp

lemma is_digit_zero [simp]: "is_digit CHR ''0''" "\<not> is_digit CHR ''.''" "\<not> is_digit CHR ''E''"
  "\<not> is_digit CHR ''-''" "\<not> is_digit CHR ''+''" "\<not> is_digit CHR ''_''"
  by (simp_all add: is_digit_def code_def)

lemma takeWhile_all: "list_all p xs \<Longrightarrow> takeWhile p xs = xs" "list_all p xs \<Longrightarrow> dropWhile p xs = []"
  by (simp_all add: list_all_iff)

lemma span_digits:
  assumes "list_all is_digit xs" "ys = [] \<or> \<not> is_digit (hd ys)"
  shows "takeWhile is_digit (xs @ ys) = xs" "dropWhile is_digit (xs @ ys) = ys"
  using assms by (induction xs) (cases ys; auto)+

text \<open>What may follow the digits: nothing, or an exponent.\<close>

definition exponent_text :: "int option \<Rightarrow> string" where
  "exponent_text x =
     (case x of None \<Rightarrow> '''' | Some z \<Rightarrow> ''E'' @ (if z \<ge> 0 then ''+'' else '''') @ py_str_int z)"

lemma exponent_text_head: "exponent_text x = [] \<or> \<not> is_digit (hd (exponent_text x))"
  by (simp add: exponent_text_def split: option.splits)

lemma read_sign_digits: "list_all is_digit ds \<Longrightarrow> read_sign (ds @ ys) = (if ds = [] then read_sign ys else (False, ds @ ys))"
  by (cases ds) (auto simp: read_sign_def)

lemma read_exponent_text: "read_exponent (exponent_text x) = Some (opt_or x 0)"
proof (cases x)
  case (Some z)
  have lower: "lower_char CHR ''E'' = CHR ''e''" by code_simp
  show ?thesis
  proof (cases "z \<ge> 0")
    case True
    then have "exponent_text x = CHR ''E'' # CHR ''+'' # nat_digits (nat z)"
      by (simp add: exponent_text_def py_str_int_def Some)
    then show ?thesis using True lower nat_digits_digits
      by (simp add: read_exponent_def read_sign_def Some)
  next
    case False
    then have "exponent_text x = CHR ''E'' # CHR ''-'' # nat_digits (nat (- z))"
      by (simp add: exponent_text_def py_str_int_def Some)
    then show ?thesis using False lower nat_digits_digits
      by (simp add: read_exponent_def read_sign_def Some)
  qed
qed (simp add: exponent_text_def read_exponent_def)

lemma read_whole:
  assumes "list_all is_digit ds" "ds \<noteq> []"
  shows "read_finite s (ds @ exponent_text x) = Some (Fin s (digits_value ds) (opt_or x 0))"
proof (cases x)
  case None
  with assms show ?thesis
    by (simp add: read_finite_def exponent_text_def takeWhile_all read_exponent_def)
next
  case (Some z)
  note span = span_digits [OF assms(1) exponent_text_head [of x]]
  have "(case exponent_text x of c # cs \<Rightarrow> if c = CHR ''.'' then (takeWhile is_digit cs, dropWhile is_digit cs)
      else ([], exponent_text x) | [] \<Rightarrow> ([], [])) = ([], exponent_text x)"
    by (simp add: exponent_text_def Some)
  with span assms(2) show ?thesis by (simp add: read_finite_def read_exponent_text)
qed

lemma read_fraction:
  assumes "list_all is_digit ds" "list_all is_digit fs" "ds \<noteq> []"
  shows "read_finite s (ds @ ''.'' @ fs @ exponent_text x) =
    Some (Fin s (digits_value (ds @ fs)) (opt_or x 0 - int (length fs)))"
proof -
  have "takeWhile is_digit (ds @ ''.'' @ fs @ exponent_text x) = ds"
    "dropWhile is_digit (ds @ ''.'' @ fs @ exponent_text x) = ''.'' @ fs @ exponent_text x"
    by (rule span_digits; use assms in simp)+
  moreover note span_digits [OF assms(2) exponent_text_head [of x]]
  ultimately show ?thesis using assms(3) by (simp add: read_finite_def read_exponent_text)
qed

lemma read_pointed:
  assumes "list_all is_digit ds" "ds \<noteq> []"
  shows "read_finite s (pointed ds point @ exponent_text x) =
    Some (Fin s (digits_value ds * 10 ^ nat (point - int (length ds)))
      (opt_or x 0 - max 0 (int (length ds) - point)))"
proof -
  consider "point \<le> 0" | "0 < point" "int (length ds) \<le> point" | "0 < point" "point < int (length ds)"
    by linarith
  then show ?thesis
  proof cases
    case 1
    let ?z = "replicate (nat (- point)) CHR ''0''"
    have "list_all is_digit (?z @ ds)" using assms(1) by (auto simp: list_all_iff)
    from read_fraction [OF _ this, of "''0''" s x] have "read_finite s (''0.'' @ (?z @ ds) @ exponent_text x) =
      Some (Fin s (digits_value (''0'' @ ?z @ ds)) (opt_or x 0 - int (length (?z @ ds))))" by simp
    moreover have "0 < length ds" using assms(2) by simp
    ultimately show ?thesis using 1
      by (simp add: pointed_def digits_value_zero_point digits_value_zeros)
  next
    case 2
    let ?z = "replicate (nat (point - int (length ds))) CHR ''0''"
    have "list_all is_digit (ds @ ?z)" using assms(1) by (auto simp: list_all_iff)
    from read_whole [OF this, of s x] 2 assms(2) show ?thesis
      by (simp add: pointed_def digits_value_padded)
  next
    case 3
    have "list_all is_digit (take (nat point) ds)" "list_all is_digit (drop (nat point) ds)" "take (nat point) ds \<noteq> []"
      using assms 3 by (auto simp: list_all_iff dest: in_set_takeD in_set_dropD)
    from read_fraction [OF this, of s x] 3 show ?thesis
      by (simp add: pointed_def)
  qed
qed

definition number_chars :: "string \<Rightarrow> bool" where
  "number_chars t \<longleftrightarrow> (\<forall>c \<in> set t. is_digit c \<or> c \<in> {CHR ''.'', CHR ''E'', CHR ''+'', CHR ''-''})"

lemma number_chars_simps [simp]:
  "number_chars []" "number_chars (a @ b) \<longleftrightarrow> number_chars a \<and> number_chars b"
  "number_chars (c # a) \<longleftrightarrow> (is_digit c \<or> c \<in> {CHR ''.'', CHR ''E'', CHR ''+'', CHR ''-''}) \<and> number_chars a"
  "number_chars (replicate n CHR ''0'')" "list_all is_digit ds \<Longrightarrow> number_chars ds"
  by (auto simp: number_chars_def list_all_iff)

lemma number_chars_pointed: "list_all is_digit ds \<Longrightarrow> number_chars (pointed ds point)"
  by (auto simp: pointed_def number_chars_def list_all_iff dest: in_set_takeD in_set_dropD)

lemma number_chars_exponent: "number_chars (exponent_text x)"
  by (auto simp: exponent_text_def py_str_int_def nat_digits_digits split: option.splits)

lemma pointed_head:
  assumes "list_all is_digit ds" "ds \<noteq> []"
  shows "\<exists>c cs. pointed ds point = c # cs \<and> is_digit c"
proof (cases "point \<le> 0")
  case False
  obtain d es where "ds = d # es" "is_digit d" using assms by (cases ds) auto
  with False show ?thesis by (simp add: pointed_def take_Cons')
qed (simp add: pointed_def)

lemma strip_number:
  assumes "number_chars t"
  shows "filter (\<lambda>c. c \<noteq> CHR ''_'') (py_strip t) = t"
proof -
  have space: "\<not> py_isspace c" if "c \<in> set t" for c
  proof -
    have "is_digit c \<or> c \<in> {CHR ''.'', CHR ''E'', CHR ''+'', CHR ''-''}" using assms that by (simp add: number_chars_def)
    then show ?thesis by (auto simp: is_digit_def py_isspace_def) (simp_all add: code_def)
  qed
  have "dropWhile py_isspace xs = xs" if "set xs \<subseteq> set t" for xs
    using space that by (cases xs) auto
  then have "py_strip t = t" by (simp add: py_strip_def py_lstrip_def py_rstrip_def)
  moreover have "filter (\<lambda>c. c \<noteq> CHR ''_'') t = t"
    using assms by (auto simp: number_chars_def filter_id_conv)
  ultimately show ?thesis by simp
qed

lemma lower_digit: "is_digit c \<Longrightarrow> lower_char c = c"
  by (simp add: is_digit_def lower_char_def)

lemma read_decimal_number:
  assumes "number_chars body" "body = c # cs" "is_digit c"
  shows "read_decimal (sign_text s @ body) = read_finite s body"
proof -
  have "number_chars (sign_text s @ body)" using assms(1) by (simp add: sign_text_def)
  note strip = strip_number [OF this]
  have sign: "read_sign (sign_text s @ body) = (s, body)"
    using assms(2,3) by (auto simp: sign_text_def read_sign_def)
  have lower: "py_lower body = c # py_lower cs" using assms(2,3) by (simp add: py_lower_def lower_digit)
  have "c \<noteq> CHR ''i''" "c \<noteq> CHR ''n''" "c \<noteq> CHR ''s''" using assms(3) by (auto simp: is_digit_def code_def)
  then show ?thesis
    unfolding read_decimal_def strip sign by (simp add: Let_def lower starts_with_def)
qed

lemma read_decimal_special:
  "read_decimal ''Infinity'' = Some (Infinite False)" "read_decimal ''-Infinity'' = Some (Infinite True)"
  "read_decimal ''NaN'' = Some (NaN False)" "read_decimal ''sNaN'' = Some (NaN True)"
  by code_simp+

text \<open>\<open>Decimal(str(d))\<close> is \<open>d\<close> itself, representation included.\<close>

lemma read_decimal_str: "read_decimal (decimal_str d) = Some d"
proof (cases d)
  case (Fin s c e)
  define ds where "ds = nat_digits c"
  have ds: "list_all is_digit ds" "ds \<noteq> []" by (simp_all add: ds_def nat_digits_digits)
  have body: "read_decimal (sign_text s @ pointed ds point @ exponent_text x) =
      Some (Fin s (c * 10 ^ nat (point - int (length ds))) (opt_or x 0 - max 0 (int (length ds) - point)))" for point x
  proof -
    obtain a as where "pointed ds point = a # as" "is_digit a" using pointed_head [OF ds] by metis
    then have "read_decimal (sign_text s @ pointed ds point @ exponent_text x) = read_finite s (pointed ds point @ exponent_text x)"
      by (intro read_decimal_number [of _ a "as @ exponent_text x"])
        (use number_chars_pointed [OF ds(1), of point] number_chars_exponent in auto)
    then show ?thesis unfolding read_pointed [OF ds] by (simp add: ds_def)
  qed
  show ?thesis
  proof (cases "e \<le> 0 \<and> e + int (length ds) > - 6")
    case True
    then have "decimal_str d = sign_text s @ pointed ds (e + int (length ds)) @ exponent_text None"
      by (simp add: Fin ds_def [symmetric] Let_def exponent_text_def)
    then show ?thesis using True by (simp add: body Fin)
  next
    case False
    then have "decimal_str d = sign_text s @ pointed ds 1 @ exponent_text (Some (e + int (length ds) - 1))"
      by (auto simp: Fin ds_def [symmetric] Let_def exponent_text_def)
    then show ?thesis using ds(2) by (simp add: body Fin Suc_le_eq del: decimal_str.simps)
  qed
next
  case (Infinite s)
  then show ?thesis by (simp add: read_decimal_special sign_text_def)
next
  case (NaN sig)
  then show ?thesis by (simp add: read_decimal_special)
qed

lemma read_decimal_plain:
  "read_decimal (decimal_plain (Fin s c e)) = Some (Fin s (c * 10 ^ nat e) (min e 0))"
proof -
  define ds where "ds = nat_digits c"
  have ds: "list_all is_digit ds" "ds \<noteq> []" by (simp_all add: ds_def nat_digits_digits)
  have body: "read_decimal (sign_text s @ pointed es point) =
      Some (Fin s (digits_value es * 10 ^ nat (point - int (length es))) (- max 0 (int (length es) - point)))"
    if es: "list_all is_digit es" "es \<noteq> []" for es point
  proof -
    obtain a as where "pointed es point = a # as" "is_digit a" using pointed_head [OF es] by metis
    then have "read_decimal (sign_text s @ pointed es point) = read_finite s (pointed es point @ exponent_text None)"
      using number_chars_pointed [OF es(1), of point] read_decimal_number [of "pointed es point" a as s]
      by (simp add: exponent_text_def)
    then show ?thesis unfolding read_pointed [OF es] by simp
  qed
  show ?thesis
  proof (cases "c = 0 \<and> e > 0")
    case True
    then have "decimal_plain (Fin s c e) = sign_text s @ pointed ''0'' 1" by (simp add: Let_def pointed_def)
    then show ?thesis using True body [of "''0''" 1] by (simp add: digits_value_def code_def)
  next
    case False
    then have "decimal_plain (Fin s c e) = sign_text s @ pointed ds (e + int (length ds))"
      by (auto simp: ds_def [symmetric] Let_def)
    then show ?thesis using body [OF ds, of "e + int (length ds)"] by (simp add: ds_def)
  qed
qed

subsection \<open>Normal forms\<close>

lemma strip_zeros_normal:
  "strip_zeros c e ideal = (c', e') \<Longrightarrow> (e' < ideal \<longrightarrow> \<not> 10 dvd c') \<and> (e \<le> ideal \<longrightarrow> e' \<le> ideal) \<and>
     (c \<noteq> 0 \<longrightarrow> c' \<noteq> 0)"
proof (induction c e ideal rule: strip_zeros.induct)
  case (1 c e ideal)
  show ?case
  proof (cases "e < ideal \<and> 10 dvd c")
    case True
    then have "strip_zeros (c div 10) (e + 1) ideal = (c', e')" using 1(2) by (subst (asm) strip_zeros.simps) simp
    with 1(1) True show ?thesis by auto
  next
    case False
    then have "strip_zeros c e ideal = (c, e)" by (subst strip_zeros.simps) auto
    with 1(2) False show ?thesis by auto
  qed
qed

definition normal_form :: "nat \<Rightarrow> int \<Rightarrow> bool" where
  "normal_form c e \<longleftrightarrow> c \<noteq> 0 \<and> e \<le> EMAX \<and> (e < EMAX \<longrightarrow> \<not> 10 dvd c)"

lemma normal_form_unique:
  assumes "normal_form c e" "normal_form d f" "real c * 10 powi e = real d * 10 powi f"
  shows "c = d \<and> e = f"
proof -
  have small: "e = f \<and> c = d" if "f \<le> e" "normal_form c e" "normal_form d f" "real c * 10 powi e = real d * 10 powi f"
    for c d e f
  proof -
    have "(10 :: real) powi e = real (10 ^ nat (e - f)) * 10 powi f"
      using powi_split [of "e - f" f] powi_nat [of "e - f"] that(1) by simp
    with that(4) have "real (c * 10 ^ nat (e - f)) = real d" by simp
    then have d: "d = c * 10 ^ nat (e - f)" by (simp only: of_nat_eq_iff)
    have "\<not> f < e"
    proof
      assume "f < e"
      then have "10 dvd d" by (simp add: d)
      with that \<open>f < e\<close> show False by (simp add: normal_form_def)
    qed
    with that(1) d show ?thesis by simp
  qed
  show ?thesis
  proof (cases "f \<le> e")
    case True
    from small [OF this assms] show ?thesis by simp
  next
    case False
    then have "e \<le> f" by simp
    from small [OF this assms(2,1) assms(3) [symmetric]] show ?thesis by simp
  qed
qed

lemma normalize_normal:
  assumes "finite_decimal x" "representable (dval x)"
  obtains s c e where "normalize_decimal x = Ok (Fin s c e)" "dval (Fin s c e) = dval x"
    "dval x = 0 \<and> c = 0 \<and> e = 0 \<or> normal_form c e \<and> s = (dval x < 0)"
proof -
  obtain s c e where x: "x = Fin s c e" using assms(1) by (rule finite_decimalE)
  obtain c1 e1 where fixed: "fix_decimal x = Ok (Fin s c1 e1)" "dval (Fin s c1 e1) = dval x" "c1 < 10 ^ 28"
    "c = 0 \<longleftrightarrow> c1 = 0" using fix_exact [of s c e] assms(2) x by auto
  show thesis
  proof (cases "c1 = 0")
    case True
    then have "normalize_decimal x = Ok (Fin s 0 0)" using fixed(1) by (simp add: x del: fix_decimal.simps)
    with True fixed(2) show thesis by (intro that [of s 0 0]) auto
  next
    case False
    obtain c2 e2 where strip: "strip_zeros c1 e1 EMAX = (c2, e2)" by fastforce
    have "normalize_decimal x = Ok (Fin s c2 e2)"
      using fixed(1) False strip by (simp add: x del: fix_decimal.simps)
    moreover have "dval (Fin s c2 e2) = dval x" using strip_zeros_val [OF strip] fixed(2) by (cases s) simp_all
    moreover have "e1 \<le> EMAX"
    proof -
      obtain k m where k: "dval x = real_of_int k * 10 powi m" "\<bar>k\<bar> < 10 ^ 28" "m \<le> ETOP"
        using assms(2) by (auto simp: representable_def)
      have "real_of_int \<bar>k\<bar> < 10 powi 28" using k(2) by (simp add: power_int_def)
      then have "\<bar>dval x\<bar> < 10 powi 28 * 10 powi m" by (simp add: k(1) abs_mult)
      moreover have "1 * 10 powi e1 \<le> \<bar>dval x\<bar>"
        unfolding fixed(2) [symmetric] abs_dval using False by (intro mult_right_mono) simp_all
      ultimately have "(10 :: real) powi e1 < 10 powi (28 + m)" unfolding powi_split by linarith
      with k(3) show ?thesis by (simp add: powi_less_iff ETOP_def EMAX_def)
    qed
    then have "normal_form c2 e2" using strip_zeros_normal [OF strip] False by (simp add: normal_form_def)
    moreover have "s = (dval x < 0)"
      unfolding fixed(2) [symmetric] using False by (cases s) (simp_all add: mult_less_0_iff not_less)
    ultimately show thesis by (intro that [of s c2 e2]) simp_all
  qed
qed

text \<open>Two representable decimals have one normal form exactly when they denote one number; a zero
  may keep its sign.\<close>

lemma normalize_eq_iff:
  assumes "finite_decimal x" "representable (dval x)" "finite_decimal y" "representable (dval y)"
    and "normalize_decimal x = Ok (Fin s c e)" "normalize_decimal y = Ok (Fin t d f)"
  shows "dval x = dval y \<longleftrightarrow> c = d \<and> e = f \<and> (c \<noteq> 0 \<longrightarrow> s = t)"
proof -
  have x: "dval (Fin s c e) = dval x" "dval x = 0 \<and> c = 0 \<and> e = 0 \<or> normal_form c e \<and> s = (dval x < 0)"
    using normalize_normal [OF assms(1,2)] assms(5) by (metis decimal.inject(1) sum.inject(2))+
  have y: "dval (Fin t d f) = dval y" "dval y = 0 \<and> d = 0 \<and> f = 0 \<or> normal_form d f \<and> t = (dval y < 0)"
    using normalize_normal [OF assms(3,4)] assms(6) by (metis decimal.inject(1) sum.inject(2))+
  show ?thesis
  proof
    assume eq: "dval x = dval y"
    show "c = d \<and> e = f \<and> (c \<noteq> 0 \<longrightarrow> s = t)"
    proof (cases "dval x = 0")
      case True
      then have "c = 0" "d = 0" using x(1) y(1) eq by (auto split: if_splits)
      with x(2) y(2) show ?thesis by (auto simp: normal_form_def)
    next
      case False
      then have n: "normal_form c e" "normal_form d f" "s = t" using x(2) y(2) eq by auto
      then have "real c * 10 powi e = real d * 10 powi f" using x(1) y(1) eq by (simp split: if_splits)
      with n normal_form_unique show ?thesis by blast
    qed
  next
    assume "c = d \<and> e = f \<and> (c \<noteq> 0 \<longrightarrow> s = t)"
    with x(1) y(1) show "dval x = dval y" by auto
  qed
qed

end
