(* ===== verification/Sha256.thy ===== *)
theory Sha256
  imports Prelude "HOL-Library.Word"
begin

unbundle bit_operations_syntax

text \<open>
  \<open>hashlib.sha256(text).hexdigest()\<close> (FIPS 180-4), on the bytes of a text. The digests of the
  calculation engine are taken with it. Nothing below assumes that it has no collisions; the
  component lemmas say which texts must not collide.
\<close>

type_synonym word32 = "32 word"

definition round_constants :: "word32 list" where
  "round_constants = [
    0x428a2f98, 0x71374491, 0xb5c0fbcf, 0xe9b5dba5, 0x3956c25b, 0x59f111f1,
    0x923f82a4, 0xab1c5ed5, 0xd807aa98, 0x12835b01, 0x243185be, 0x550c7dc3,
    0x72be5d74, 0x80deb1fe, 0x9bdc06a7, 0xc19bf174, 0xe49b69c1, 0xefbe4786,
    0x0fc19dc6, 0x240ca1cc, 0x2de92c6f, 0x4a7484aa, 0x5cb0a9dc, 0x76f988da,
    0x983e5152, 0xa831c66d, 0xb00327c8, 0xbf597fc7, 0xc6e00bf3, 0xd5a79147,
    0x06ca6351, 0x14292967, 0x27b70a85, 0x2e1b2138, 0x4d2c6dfc, 0x53380d13,
    0x650a7354, 0x766a0abb, 0x81c2c92e, 0x92722c85, 0xa2bfe8a1, 0xa81a664b,
    0xc24b8b70, 0xc76c51a3, 0xd192e819, 0xd6990624, 0xf40e3585, 0x106aa070,
    0x19a4c116, 0x1e376c08, 0x2748774c, 0x34b0bcb5, 0x391c0cb3, 0x4ed8aa4a,
    0x5b9cca4f, 0x682e6ff3, 0x748f82ee, 0x78a5636f, 0x84c87814, 0x8cc70208,
    0x90befffa, 0xa4506ceb, 0xbef9a3f7, 0xc67178f2]"

definition initial_hash :: "word32 list" where
  "initial_hash = [
    0x6a09e667, 0xbb67ae85, 0x3c6ef372, 0xa54ff53a, 0x510e527f, 0x9b05688c,
    0x1f83d9ab, 0x5be0cd19]"

definition choice_of :: "word32 \<Rightarrow> word32 \<Rightarrow> word32 \<Rightarrow> word32" where
  "choice_of x y z = (x AND y) XOR (NOT x AND z)"

definition majority :: "word32 \<Rightarrow> word32 \<Rightarrow> word32 \<Rightarrow> word32" where
  "majority x y z = (x AND y) XOR (x AND z) XOR (y AND z)"

definition big_sigma0 :: "word32 \<Rightarrow> word32" where
  "big_sigma0 x = word_rotr 2 x XOR word_rotr 13 x XOR word_rotr 22 x"

definition big_sigma1 :: "word32 \<Rightarrow> word32" where
  "big_sigma1 x = word_rotr 6 x XOR word_rotr 11 x XOR word_rotr 25 x"

definition small_sigma0 :: "word32 \<Rightarrow> word32" where
  "small_sigma0 x = word_rotr 7 x XOR word_rotr 18 x XOR drop_bit 3 x"

definition small_sigma1 :: "word32 \<Rightarrow> word32" where
  "small_sigma1 x = word_rotr 17 x XOR word_rotr 19 x XOR drop_bit 10 x"

text \<open>The message schedule of a block of sixteen words.\<close>

definition schedule :: "word32 list \<Rightarrow> word32 list" where
  "schedule block =
     fold (\<lambda>t w. w @ [small_sigma1 (w ! (t - 2)) + w ! (t - 7) + small_sigma0 (w ! (t - 15)) + w ! (t - 16)])
       [16..<64] block"

fun hash_round :: "word32 \<times> word32 \<Rightarrow> word32 list \<Rightarrow> word32 list" where
  "hash_round (k, w) [a, b, c, d, e, f, g, h] =
     (let t1 = h + big_sigma1 e + choice_of e f g + k + w; t2 = big_sigma0 a + majority a b c
      in [t1 + t2, a, b, c, d + t1, e, f, g])"
| "hash_round kw s = s"

definition compress :: "word32 list \<Rightarrow> word32 list \<Rightarrow> word32 list" where
  "compress hash block = map2 (+) hash (fold hash_round (zip round_constants (schedule block)) hash)"

definition bytes_of_nat :: "nat \<Rightarrow> nat \<Rightarrow> word32 list" where
  "bytes_of_nat n x = map (\<lambda>i. of_nat (x div 256 ^ i mod 256)) (rev [0..<n])"

definition padded :: "string \<Rightarrow> word32 list" where
  "padded text =
     (let n = length text; zeros = (119 - n mod 64) mod 64
      in map (\<lambda>c. of_nat (code c)) text @ [0x80] @ replicate zeros 0 @ bytes_of_nat 8 (8 * n))"

fun chunks :: "nat \<Rightarrow> 'a list \<Rightarrow> 'a list list" where
  "chunks n xs = (if n = 0 \<or> xs = [] then [] else take n xs # chunks n (drop n xs))"

declare chunks.simps [simp del]

definition word_of_bytes :: "word32 list \<Rightarrow> word32" where
  "word_of_bytes bs = foldl (\<lambda>w b. push_bit 8 w + b) 0 bs"

definition sha256 :: "string \<Rightarrow> word32 list" where
  "sha256 text =
     foldl compress initial_hash (chunks 16 (map word_of_bytes (chunks 4 (padded text))))"

definition hex_word :: "word32 \<Rightarrow> string" where
  "hex_word w = map (\<lambda>i. hex_digit (unat w div 16 ^ i mod 16)) (rev [0..<8])"

definition sha256_hex :: "string \<Rightarrow> string" where
  "sha256_hex text = concat (map hex_word (sha256 text))"

lemma length_hash_round: "length (hash_round kw s) = length s"
  by (induction kw s rule: hash_round.induct) (simp_all add: Let_def)

lemma length_fold_round: "length (fold hash_round kws s) = length s"
  by (induction kws arbitrary: s) (simp_all add: length_hash_round)

lemma length_compress: "length (compress hash block) = length hash"
  by (simp add: compress_def length_fold_round)

lemma length_sha256: "length (sha256 text) = 8"
proof -
  have "length (foldl compress hash blocks) = length hash" for hash blocks
    by (induction blocks arbitrary: hash) (simp_all add: length_compress)
  then show ?thesis by (simp add: sha256_def initial_hash_def)
qed

lemma length_sha256_hex [simp]: "length (sha256_hex text) = 64"
proof -
  have "length (concat (map hex_word ws)) = 8 * length ws" for ws
    by (induction ws) (simp_all add: hex_word_def)
  then show ?thesis by (simp add: sha256_hex_def length_sha256)
qed

end
