(* ===== verification/Roi.thy ===== *)
theory Roi
  imports Decimal Sha256 "HOL-Library.Char_ord" "HOL-Library.List_Lexorder"
begin

text \<open>
  The deterministic Automation ROI engine (\<open>mas/knowledge/automation_roi/calculator.py\<close>): the
  compatibility contract of frozen inputs, the digests that identify values, provenance and
  requests, and the computation itself. A mapping from roles is an association list (a Python
  dict with its insertion order).
\<close>

subsection \<open>Roles\<close>

definition FORMULA_VERSION :: string where
  "FORMULA_VERSION = ''automation_roi.v1''"

definition ROLES :: "string list" where
  "ROLES = [''baseline_hours_per_period'', ''post_automation_hours_per_period'',
     ''fully_loaded_rate_per_hour'', ''periods_per_year'', ''annual_recurring_cost'',
     ''one_time_implementation_cost'']"

definition MONEY_ROLES :: "string list" where
  "MONEY_ROLES = [''fully_loaded_rate_per_hour'', ''annual_recurring_cost'', ''one_time_implementation_cost'']"

definition HOURS_ROLES :: "string list" where
  "HOURS_ROLES = [''baseline_hours_per_period'', ''post_automation_hours_per_period'']"

text \<open>The separators and the three bytes of the sign for a missing value.\<close>

definition FIELD_SEP :: char where "FIELD_SEP = CHR 0x1F"
definition REC_SEP :: char where "REC_SEP = CHR 0x1E"
definition NULL_TEXT :: string where "NULL_TEXT = [CHR 0xE2, CHR 0x88, CHR 0x85]"

record resolved_input =
  ri_role :: string
  ri_value :: decimal
  ri_unit :: string
  ri_currency :: "string option"
  ri_period :: "string option"
  ri_time_unit :: "string option"
  ri_input_id :: "string option"
  ri_fact_id :: "string option"
  ri_decision_id :: "string option"

type_synonym role_inputs = "(string \<times> resolved_input) list"

datatype roi_status = Roi_valid | Roi_not_applicable | Roi_blocked
datatype percent_status = Percent_computed | Percent_not_applicable | Percent_blocked

record roi_computation =
  rc_formula_version :: string
  rc_status :: roi_status
  rc_percent_status :: percent_status
  rc_currency :: "string option"
  rc_labor_savings :: "decimal option"
  rc_net_benefit :: "decimal option"
  rc_first_year :: "decimal option"
  rc_roi_percent :: "decimal option"
  rc_input_digest :: string
  rc_provenance :: string
  rc_diagnostics :: "(string \<times> string) list"

datatype roi_error =
    Wrong_roles "string list" "string list"
  | Mismatched_role string string
  | Arithmetic decimal_error

definition arith :: "(decimal_error, 'a) result \<Rightarrow> (roi_error, 'a) result" where
  "arith r = (case r of Inl e \<Rightarrow> Err (Arithmetic e) | Inr x \<Rightarrow> Ok x)"

subsection \<open>Compatibility of an input with its role\<close>

datatype compat_reason =
    Rate_unit | Rate_currency | Hours_time_unit | Periods_integral | Money_currency | Negative_value

definition empty_opt :: "string option \<Rightarrow> bool" where
  "empty_opt x \<longleftrightarrow> opt_or x '''' = ''''"

definition reject_negative :: "decimal \<Rightarrow> (decimal_error, compat_reason option) result" where
  "reject_negative value = map_result (\<lambda>neg. if neg then Some Negative_value else None) (less_decimal value (dec_of_nat 0))"

definition input_compatibility_reason ::
  "string \<Rightarrow> decimal \<Rightarrow> string option \<Rightarrow> string option \<Rightarrow> string option \<Rightarrow>
   (decimal_error, compat_reason option) result" where
  "input_compatibility_reason role value unit currency time_unit =
     (if role \<in> set HOURS_ROLES then
        (if time_unit \<noteq> Some ''hours'' then Ok (Some Hours_time_unit) else reject_negative value)
      else if role = ''fully_loaded_rate_per_hour'' then
        (if unit \<noteq> Some ''per_hour'' then Ok (Some Rate_unit)
         else if empty_opt currency then Ok (Some Rate_currency) else reject_negative value)
      else if role = ''periods_per_year'' then
        bind_result (to_integral_value value) (\<lambda>whole.
        bind_result (eq_decimal value whole) (\<lambda>integral.
          if \<not> integral then Ok (Some Periods_integral)
          else map_result (\<lambda>small. if small then Some Periods_integral else None)
                 (less_decimal value (dec_of_nat 1))))
      else if role = ''annual_recurring_cost'' \<or> role = ''one_time_implementation_cost'' then
        (if empty_opt currency then Ok (Some Money_currency) else reject_negative value)
      else Ok None)"

subsection \<open>Digests\<close>

definition canonical_decimal :: "decimal \<Rightarrow> (decimal_error, string) result" where
  "canonical_decimal value =
     bind_result (normalize_decimal value) (\<lambda>norm.
     map_result (\<lambda>zero. if zero then ''0'' else decimal_plain norm) (eq_decimal norm (dec_of_nat 0)))"

definition or_null :: "string option \<Rightarrow> string" where
  "or_null x = py_or (opt_or x '''') NULL_TEXT"

definition require_six_roles :: "role_inputs \<Rightarrow> (roi_error, unit) result" where
  "require_six_roles inputs =
     (let keys = set (map fst inputs)
      in if keys \<noteq> set ROLES
         then Err (Wrong_roles (sorted_list_of_set (set ROLES - keys)) (sorted_list_of_set (keys - set ROLES)))
         else case find (\<lambda>(role, item). ri_role item \<noteq> role) inputs of
                Some (role, item) \<Rightarrow> Err (Mismatched_role role (ri_role item))
              | None \<Rightarrow> Ok ())"

text \<open>Read only after \<open>require_six_roles\<close>, when every role has an item.\<close>

definition role_item :: "role_inputs \<Rightarrow> string \<Rightarrow> resolved_input" where
  "role_item inputs role = (case map_of inputs role of Some it \<Rightarrow> it | None \<Rightarrow>
     \<lparr>ri_role = role, ri_value = NaN True, ri_unit = '''', ri_currency = None, ri_period = None,
      ri_time_unit = None, ri_input_id = None, ri_fact_id = None, ri_decision_id = None\<rparr>)"

definition value_fields :: "role_inputs \<Rightarrow> string \<Rightarrow> (decimal_error, string) result" where
  "value_fields inputs role =
     (let it = role_item inputs role
      in map_result (\<lambda>number. join_with [FIELD_SEP]
             [role, number, py_or (ri_unit it) NULL_TEXT, or_null (ri_currency it), or_null (ri_period it),
              or_null (ri_time_unit it)])
           (canonical_decimal (ri_value it)))"

definition formula_input_text :: "role_inputs \<Rightarrow> (decimal_error, string) result" where
  "formula_input_text inputs =
     map_result (\<lambda>parts. join_with [REC_SEP] (FORMULA_VERSION # parts)) (all_results (map (value_fields inputs) ROLES))"

definition formula_input_digest :: "role_inputs \<Rightarrow> (decimal_error, string) result" where
  "formula_input_digest inputs = map_result sha256_hex (formula_input_text inputs)"

definition provenance_text :: "role_inputs \<Rightarrow> string" where
  "provenance_text inputs =
     join_with [REC_SEP] (FORMULA_VERSION # map (\<lambda>role.
       let it = role_item inputs role
       in join_with [FIELD_SEP] [role, or_null (ri_input_id it), or_null (ri_fact_id it), or_null (ri_decision_id it)]) ROLES)"

definition provenance_fingerprint :: "role_inputs \<Rightarrow> string" where
  "provenance_fingerprint inputs = sha256_hex (provenance_text inputs)"

definition canonical_request_text :: "string \<Rightarrow> (string \<times> string) list \<Rightarrow> string" where
  "canonical_request_text project ids =
     join_with [REC_SEP] ([project, FORMULA_VERSION] @
       map (\<lambda>role. join_with [FIELD_SEP] [role, opt_or (map_of ids role) '''']) (sort ROLES))"

definition canonical_request_digest ::
  "string \<Rightarrow> (string \<times> string) list \<Rightarrow> (roi_error, string) result" where
  "canonical_request_digest project ids =
     (let keys = set (map fst ids)
      in if keys \<noteq> set ROLES
         then Err (Wrong_roles (sorted_list_of_set (set ROLES - keys)) (sorted_list_of_set (keys - set ROLES)))
         else Ok (sha256_hex (canonical_request_text project ids)))"

subsection \<open>The computation\<close>

definition py_str_opt :: "string option \<Rightarrow> string" where
  "py_str_opt x = (case x of None \<Rightarrow> ''None'' | Some s \<Rightarrow> s)"

definition blocked_result :: "string \<Rightarrow> string \<Rightarrow> string \<Rightarrow> string \<Rightarrow> roi_computation" where
  "blocked_result digest provenance key detail =
     \<lparr>rc_formula_version = FORMULA_VERSION, rc_status = Roi_blocked, rc_percent_status = Percent_blocked,
      rc_currency = None, rc_labor_savings = None, rc_net_benefit = None, rc_first_year = None,
      rc_roi_percent = None, rc_input_digest = digest, rc_provenance = provenance,
      rc_diagnostics = [(key, detail)]\<rparr>"

text \<open>The checks that block a result, in the order of the code.\<close>

definition blocking_reason :: "role_inputs \<Rightarrow> string list \<Rightarrow> (string \<times> string) option" where
  "blocking_reason inputs unavailable =
     (let currencies = map (ri_currency \<circ> role_item inputs) MONEY_ROLES;
          periods = map (ri_period \<circ> role_item inputs) HOURS_ROLES
      in if unavailable \<noteq> []
         then Some (''unavailable_evidence'', ''roles unavailable/revoked: '' @ py_repr_list (sort unavailable))
         else if length (remdups currencies) \<noteq> 1 \<or> None \<in> set currencies
         then Some (''currency_mismatch'',
           ''money roles must share one currency, got '' @ py_repr_list (sort (map py_str_opt (remdups currencies))))
         else if list_ex (\<lambda>r. ri_time_unit (role_item inputs r) \<noteq> Some ''hours'') HOURS_ROLES
         then Some (''unit_mismatch'', ''hours roles must use time_unit='' @ py_repr ''hours'')
         else if length (remdups periods) \<noteq> 1
         then Some (''period_mismatch'',
           ''hours roles must share one period_basis, got '' @ py_repr_list (sort (map py_str_opt (remdups periods))))
         else None)"

definition compute_values :: "role_inputs \<Rightarrow> string \<Rightarrow> string \<Rightarrow> (decimal_error, roi_computation) result" where
  "compute_values inputs digest provenance =
     (let value = (\<lambda>role. ri_value (role_item inputs role));
          one_time = value ''one_time_implementation_cost'';
          currency = ri_currency (role_item inputs ''fully_loaded_rate_per_hour'')
      in bind_result (sub_decimal (value ''baseline_hours_per_period'') (value ''post_automation_hours_per_period'')) (\<lambda>delta.
         bind_result (mul_decimal delta (value ''fully_loaded_rate_per_hour'')) (\<lambda>per_period.
         bind_result (mul_decimal per_period (value ''periods_per_year'')) (\<lambda>savings.
         bind_result (sub_decimal savings (value ''annual_recurring_cost'')) (\<lambda>net.
         bind_result (sub_decimal net one_time) (\<lambda>first_year.
         bind_result (less_decimal delta (dec_of_nat 0)) (\<lambda>negative.
         bind_result (eq_decimal one_time (dec_of_nat 0)) (\<lambda>free.
         let result = \<lparr>rc_formula_version = FORMULA_VERSION, rc_status = Roi_valid, rc_percent_status = Percent_computed,
               rc_currency = currency, rc_labor_savings = Some savings, rc_net_benefit = Some net,
               rc_first_year = Some first_year, rc_roi_percent = None, rc_input_digest = digest,
               rc_provenance = provenance,
               rc_diagnostics = (if negative
                 then [(''negative_hours_delta'', ''post-automation hours exceed baseline; savings are negative'')]
                 else [])\<rparr>
         in if free
            then Ok (result\<lparr>rc_status := Roi_not_applicable, rc_percent_status := Percent_not_applicable,
                   rc_diagnostics := rc_diagnostics result @
                     [(''roi_percent'', ''not applicable: one_time_implementation_cost is zero'')]\<rparr>)
            else bind_result (div_decimal first_year one_time) (\<lambda>ratio.
                 map_result (\<lambda>percent. result\<lparr>rc_roi_percent := Some percent\<rparr>) (mul_decimal ratio (dec_of_nat 100)))))))))))"

definition compute_automation_roi ::
  "role_inputs \<Rightarrow> string list \<Rightarrow> (roi_error, roi_computation) result" where
  "compute_automation_roi inputs unavailable =
     bind_result (require_six_roles inputs) (\<lambda>_.
     bind_result (arith (formula_input_digest inputs)) (\<lambda>digest.
     let provenance = provenance_fingerprint inputs
     in case blocking_reason inputs unavailable of
          Some (key, detail) \<Rightarrow> Ok (blocked_result digest provenance key detail)
        | None \<Rightarrow> arith (compute_values inputs digest provenance)))"

subsection \<open>Canonical texts\<close>

lemma canonical_text:
  assumes "finite_decimal x" "representable (dval x)"
  obtains s c e where "normalize_decimal x = Ok (Fin s c e)"
    "canonical_decimal x = Ok (if c = 0 then ''0'' else decimal_plain (Fin s c e))"
proof -
  obtain s c e where n: "normalize_decimal x = Ok (Fin s c e)" using normalize_normal [OF assms] by metis
  have "eq_decimal (Fin s c e) (dec_of_nat 0) = Ok (c = 0)"
    by (simp add: eq_decimal_def dec_of_nat_def scaled_def)
  with n show thesis by (intro that) (simp_all add: canonical_decimal_def)
qed

lemma canonical_chars:
  "number_chars (if c = 0 then ''0'' else decimal_plain (Fin s c e))"
  using number_chars_pointed nat_digits_digits by (simp add: Let_def sign_text_def)

lemma canonical_eq_iff:
  assumes "finite_decimal x" "representable (dval x)" "finite_decimal y" "representable (dval y)"
  shows "canonical_decimal x = canonical_decimal y \<longleftrightarrow> dval x = dval y"
proof -
  obtain s c e where x: "normalize_decimal x = Ok (Fin s c e)"
    "canonical_decimal x = Ok (if c = 0 then ''0'' else decimal_plain (Fin s c e))"
    using assms(1,2) by (rule canonical_text)
  obtain t d f where y: "normalize_decimal y = Ok (Fin t d f)"
    "canonical_decimal y = Ok (if d = 0 then ''0'' else decimal_plain (Fin t d f))"
    using assms(3,4) by (rule canonical_text)
  have zero: "read_decimal ''0'' = Some (Fin False 0 0)" by code_simp
  have val: "dval x = dval (Fin s c e)" "dval y = dval (Fin t d f)"
    using normalize_normal [OF assms(1,2)] normalize_normal [OF assms(3,4)] x(1) y(1)
    by (metis decimal.inject(1) sum.inject(2))+
  have reread: "map_option dval (read_decimal (if c = 0 then ''0'' else decimal_plain (Fin s c e))) =
      Some (dval (Fin s c e))" for s c e
  proof -
    have "(10 :: real) ^ nat e * 10 powi (min e 0) = 10 powi e"
      by (cases "0 \<le> e") (simp_all add: power_int_def)
    then show ?thesis by (simp add: zero read_decimal_plain del: decimal_plain.simps)
  qed
  show ?thesis
  proof
    assume "canonical_decimal x = canonical_decimal y"
    then have "(if c = 0 then ''0'' else decimal_plain (Fin s c e)) = (if d = 0 then ''0'' else decimal_plain (Fin t d f))"
      using x(2) y(2) by simp
    then have "Some (dval (Fin s c e)) = Some (dval (Fin t d f))"
      unfolding reread [symmetric] by (rule arg_cong)
    then show "dval x = dval y" using val by simp
  next
    assume "dval x = dval y"
    then have "c = d \<and> e = f \<and> (c \<noteq> 0 \<longrightarrow> s = t)" using normalize_eq_iff [OF assms x(1) y(1)] by blast
    then show "canonical_decimal x = canonical_decimal y" using x(2) y(2) by auto
  qed
qed

lemma canonical_returns:
  assumes "finite_decimal x" "representable (dval x)"
  obtains t where "canonical_decimal x = Ok t" "REC_SEP \<notin> set t" "FIELD_SEP \<notin> set t"
proof -
  obtain s c e where t: "canonical_decimal x = Ok (if c = 0 then ''0'' else decimal_plain (Fin s c e))"
    using canonical_text [OF assms] by metis
  note chars = canonical_chars [of c s e]
  have "\<not> is_digit REC_SEP" "\<not> is_digit FIELD_SEP" by (simp_all add: is_digit_def code_def REC_SEP_def FIELD_SEP_def)
  then have "REC_SEP \<notin> set (if c = 0 then ''0'' else decimal_plain (Fin s c e))"
    "FIELD_SEP \<notin> set (if c = 0 then ''0'' else decimal_plain (Fin s c e))"
    using chars unfolding number_chars_def by (auto simp: REC_SEP_def FIELD_SEP_def simp del: decimal_plain.simps)
  with t show thesis by (rule that)
qed

subsection \<open>What a digest identifies\<close>

text \<open>The number of an item with its unit, currency, period and time unit; a missing text is an
  empty one.\<close>

definition item_value :: "resolved_input \<Rightarrow> real \<times> string list" where
  "item_value it = (dval (ri_value it),
     [ri_unit it, opt_or (ri_currency it) '''', opt_or (ri_period it) '''', opt_or (ri_time_unit it) ''''])"

definition clean_text :: "string \<Rightarrow> bool" where
  "clean_text t \<longleftrightarrow> REC_SEP \<notin> set t \<and> FIELD_SEP \<notin> set t \<and> t \<noteq> NULL_TEXT"

definition clean_item :: "resolved_input \<Rightarrow> bool" where
  "clean_item it \<longleftrightarrow> finite_decimal (ri_value it) \<and> representable (dval (ri_value it)) \<and>
     list_all clean_text (snd (item_value it))"

lemma null_clean: "clean_text t \<Longrightarrow> clean_text u \<Longrightarrow> py_or t NULL_TEXT = py_or u NULL_TEXT \<longleftrightarrow> t = u"
  by (auto simp: py_or_def clean_text_def)

lemma null_seps: "clean_text t \<Longrightarrow> REC_SEP \<notin> set (py_or t NULL_TEXT) \<and> FIELD_SEP \<notin> set (py_or t NULL_TEXT)"
  by (simp add: py_or_def clean_text_def) (simp add: NULL_TEXT_def REC_SEP_def FIELD_SEP_def)

lemma role_seps:
  "role \<in> set ROLES \<Longrightarrow> REC_SEP \<notin> set role \<and> FIELD_SEP \<notin> set role"
  by (auto simp: ROLES_def REC_SEP_def FIELD_SEP_def)

text \<open>The parts that are joined for one role.\<close>

definition value_parts :: "role_inputs \<Rightarrow> string \<Rightarrow> string \<Rightarrow> string list" where
  "value_parts inputs role number =
     (let it = role_item inputs role
      in role # number # map (\<lambda>t. py_or t NULL_TEXT) (snd (item_value it)))"

lemma value_fields_parts:
  "value_fields inputs role = map_result (\<lambda>number. join_with [FIELD_SEP] (value_parts inputs role number))
     (canonical_decimal (ri_value (role_item inputs role)))"
  by (simp add: value_fields_def value_parts_def item_value_def or_null_def Let_def)

lemma value_fields_ok:
  assumes "clean_item (role_item inputs role)" "role \<in> set ROLES"
  obtains number where "canonical_decimal (ri_value (role_item inputs role)) = Ok number"
    "value_fields inputs role = Ok (join_with [FIELD_SEP] (value_parts inputs role number))"
    "\<And>part. part \<in> set (value_parts inputs role number) \<Longrightarrow> FIELD_SEP \<notin> set part \<and> REC_SEP \<notin> set part"
proof -
  obtain number where n: "canonical_decimal (ri_value (role_item inputs role)) = Ok number"
    "REC_SEP \<notin> set number" "FIELD_SEP \<notin> set number"
    using assms(1) canonical_returns unfolding clean_item_def by metis
  have "FIELD_SEP \<notin> set part \<and> REC_SEP \<notin> set part" if part: "part \<in> set (value_parts inputs role number)" for part
  proof -
    consider "part = role" | "part = number" | t where "t \<in> set (snd (item_value (role_item inputs role)))" "part = py_or t NULL_TEXT"
      using part unfolding value_parts_def by (auto simp: Let_def)
    then show ?thesis
    proof cases
      case 3
      then have "clean_text t" using assms(1) by (auto simp: clean_item_def list_all_iff)
      with 3 null_seps show ?thesis by blast
    qed (use n role_seps assms(2) in auto)
  qed
  with n show thesis by (intro that) (simp_all add: value_fields_parts)
qed

lemma value_fields_eq_iff:
  assumes "clean_item (role_item a role)" "clean_item (role_item b role)" "role \<in> set ROLES"
  shows "value_fields a role = value_fields b role \<longleftrightarrow> item_value (role_item a role) = item_value (role_item b role)"
proof -
  let ?a = "role_item a role" and ?b = "role_item b role"
  obtain m where m: "canonical_decimal (ri_value ?a) = Ok m"
    "value_fields a role = Ok (join_with [FIELD_SEP] (value_parts a role m))"
    "\<And>part. part \<in> set (value_parts a role m) \<Longrightarrow> FIELD_SEP \<notin> set part \<and> REC_SEP \<notin> set part"
    using value_fields_ok [OF assms(1,3)] by metis
  obtain n where n: "canonical_decimal (ri_value ?b) = Ok n"
    "value_fields b role = Ok (join_with [FIELD_SEP] (value_parts b role n))"
    "\<And>part. part \<in> set (value_parts b role n) \<Longrightarrow> FIELD_SEP \<notin> set part \<and> REC_SEP \<notin> set part"
    using value_fields_ok [OF assms(2,3)] by metis
  have len: "length (value_parts a role m) = length (value_parts b role n)"
    by (simp add: value_parts_def item_value_def Let_def)
  have "value_fields a role = value_fields b role \<longleftrightarrow> value_parts a role m = value_parts b role n"
    using join_with_inj [OF len, of FIELD_SEP] m(2,3) n(2,3) by auto
  also have "\<dots> \<longleftrightarrow> m = n \<and> snd (item_value ?a) = snd (item_value ?b)"
  proof -
    have "map (\<lambda>t. py_or t NULL_TEXT) xs = map (\<lambda>t. py_or t NULL_TEXT) ys \<longleftrightarrow> xs = ys"
      if "list_all clean_text xs" "list_all clean_text ys" for xs ys
      using that null_clean by (intro inj_on_map_eq_map inj_onI) (auto simp: list_all_iff)
    then show ?thesis using assms(1,2) by (simp add: value_parts_def clean_item_def Let_def)
  qed
  also have "m = n \<longleftrightarrow> dval (ri_value ?a) = dval (ri_value ?b)"
    using canonical_eq_iff [of "ri_value ?a" "ri_value ?b"] assms(1,2) m(1) n(1) by (simp add: clean_item_def)
  finally show ?thesis by (auto simp: item_value_def)
qed

lemma all_results_eq:
  assumes "\<And>x. x \<in> set xs \<Longrightarrow> \<exists>y. f x = Ok y" "\<And>x. x \<in> set xs \<Longrightarrow> \<exists>y. g x = Ok y"
  shows "all_results (map f xs) = all_results (map g xs) \<longleftrightarrow> (\<forall>x \<in> set xs. f x = g x)"
    "\<exists>ys. all_results (map f xs) = Ok ys \<and> length ys = length xs \<and> (\<forall>y \<in> set ys. \<exists>x \<in> set xs. f x = Ok y)"
proof -
  obtain f' g' where f': "\<And>x. x \<in> set xs \<Longrightarrow> f x = Ok (f' x)" and g': "\<And>x. x \<in> set xs \<Longrightarrow> g x = Ok (g' x)"
    using assms by metis
  have "all_results (map f xs) = Ok (map f' xs)" "all_results (map g xs) = Ok (map g' xs)"
    by (rule all_results_map, use f' g' in blast)+
  with f' g' show "all_results (map f xs) = all_results (map g xs) \<longleftrightarrow> (\<forall>x \<in> set xs. f x = g x)"
    "\<exists>ys. all_results (map f xs) = Ok ys \<and> length ys = length xs \<and> (\<forall>y \<in> set ys. \<exists>x \<in> set xs. f x = Ok y)"
    by auto
qed

definition clean_inputs :: "role_inputs \<Rightarrow> bool" where
  "clean_inputs inputs \<longleftrightarrow> (\<forall>role \<in> set ROLES. clean_item (role_item inputs role))"

definition same_values :: "role_inputs \<Rightarrow> role_inputs \<Rightarrow> bool" where
  "same_values a b \<longleftrightarrow> (\<forall>role \<in> set ROLES. item_value (role_item a role) = item_value (role_item b role))"

text \<open>The input digest identifies values: for six inputs with finite numbers of at most 28 digits
  whose texts are free of the separators, the digested text exists and is the same exactly when
  every role has the same number (however it is written: 1.0 and 1.00 agree), unit, currency,
  period and time unit; so equal values give equal digests, whatever the provenance.\<close>

theorem digest_identifies_values:
  assumes "clean_inputs a" "clean_inputs b"
  shows "(\<exists>t. formula_input_text a = Ok t) \<and> (formula_input_text a = formula_input_text b \<longleftrightarrow> same_values a b) \<and>
    (same_values a b \<longrightarrow> formula_input_digest a = formula_input_digest b)"
proof -
  have ok: "\<exists>y. value_fields a role = Ok y" "\<exists>y. value_fields b role = Ok y" if "role \<in> set ROLES" for role
    using that assms value_fields_ok [of a role] value_fields_ok [of b role] unfolding clean_inputs_def by metis+
  have sep: "REC_SEP \<notin> set y" if y: "value_fields i role = Ok y" "clean_inputs i" "role \<in> set ROLES" for i role y
  proof -
    obtain m where "value_fields i role = Ok (join_with [FIELD_SEP] (value_parts i role m))"
      "\<And>part. part \<in> set (value_parts i role m) \<Longrightarrow> FIELD_SEP \<notin> set part \<and> REC_SEP \<notin> set part"
      using value_fields_ok y(2,3) unfolding clean_inputs_def by metis
    with y(1) join_with_set [of "[FIELD_SEP]" "value_parts i role m"] show ?thesis
      by (auto simp: FIELD_SEP_def REC_SEP_def)
  qed
  obtain ys zs where ys: "all_results (map (value_fields a) ROLES) = Ok ys" "length ys = length ROLES"
      "\<forall>y \<in> set ys. \<exists>role \<in> set ROLES. value_fields a role = Ok y"
    and zs: "all_results (map (value_fields b) ROLES) = Ok zs" "length zs = length ROLES"
      "\<forall>y \<in> set zs. \<exists>role \<in> set ROLES. value_fields b role = Ok y"
    using all_results_eq(2) [of ROLES "value_fields a" "value_fields b", OF ok]
      all_results_eq(2) [of ROLES "value_fields b" "value_fields a", OF ok(2,1)] by blast
  have "REC_SEP \<notin> set y" if "y \<in> set (FORMULA_VERSION # ys) \<union> set (FORMULA_VERSION # zs)" for y
    using that ys(3) zs(3) sep assms by (auto simp: FORMULA_VERSION_def REC_SEP_def)
  then have "formula_input_text a = formula_input_text b \<longleftrightarrow> ys = zs"
    using join_with_inj [of "FORMULA_VERSION # ys" "FORMULA_VERSION # zs" REC_SEP] ys zs
    by (auto simp: formula_input_text_def)
  also have "\<dots> \<longleftrightarrow> (\<forall>role \<in> set ROLES. value_fields a role = value_fields b role)"
    using all_results_eq(1) [of ROLES "value_fields a" "value_fields b"] ok ys(1) zs(1) by simp
  also have "\<dots> \<longleftrightarrow> same_values a b"
    using value_fields_eq_iff assms by (auto simp: same_values_def clean_inputs_def)
  finally have "formula_input_text a = formula_input_text b \<longleftrightarrow> same_values a b" .
  moreover have "\<exists>t. formula_input_text a = Ok t" using ys(1) by (simp add: formula_input_text_def)
  ultimately show ?thesis unfolding formula_input_digest_def by metis
qed

subsection \<open>Exactness\<close>

text \<open>A finite decimal on the grid of \<open>10\<^sup>-\<^sup>j\<close> within a bound.\<close>

definition on_grid :: "nat \<Rightarrow> int \<Rightarrow> real \<Rightarrow> bool" where
  "on_grid j bound x \<longleftrightarrow> (\<exists>k. x = real_of_int k / 10 ^ j \<and> \<bar>k\<bar> \<le> bound)"

lemma grid_representable: "on_grid j bound x \<Longrightarrow> bound < 10 ^ 28 \<Longrightarrow> j \<le> 1000 \<Longrightarrow> representable x"
proof -
  assume grid: "on_grid j bound x" and bound: "bound < 10 ^ 28" and j: "j \<le> 1000"
  then obtain k where k: "x = real_of_int k / 10 ^ j" "\<bar>k\<bar> \<le> bound" by (auto simp: on_grid_def)
  have "x = real_of_int k * 10 powi (- int j)" by (simp add: k(1) power_int_minus field_simps)
  moreover have "\<bar>k\<bar> < 10 ^ 28" using k(2) bound by linarith
  moreover have "ETINY \<le> - int j" "- int j \<le> ETOP" using j by (simp_all add: ETINY_def ETOP_def)
  ultimately show ?thesis unfolding representable_def by blast
qed

lemma grid_diff: "on_grid j a x \<Longrightarrow> on_grid j b y \<Longrightarrow> on_grid j (a + b) (x - y)"
  unfolding on_grid_def by (elim exE, rename_tac k m, rule_tac x = "k - m" in exI) (auto simp: diff_divide_distrib)

lemma grid_mult: "on_grid i a x \<Longrightarrow> on_grid j b y \<Longrightarrow> on_grid (i + j) (a * b) (x * y)"
proof -
  assume "on_grid i a x" "on_grid j b y"
  then obtain k m where "x = real_of_int k / 10 ^ i" "\<bar>k\<bar> \<le> a" "y = real_of_int m / 10 ^ j" "\<bar>m\<bar> \<le> b"
    by (auto simp: on_grid_def)
  then have "x * y = real_of_int (k * m) / 10 ^ (i + j)" "\<bar>k * m\<bar> \<le> a * b"
    by (auto simp: power_add abs_mult intro: mult_mono)
  then show ?thesis unfolding on_grid_def by blast
qed

lemma grid_finer: "on_grid i a x \<Longrightarrow> on_grid (i + j) (a * 10 ^ j) x"
  using grid_mult [of i a x j "10 ^ j" 1] by (auto simp: on_grid_def)

lemma grid_mono: "on_grid j a x \<Longrightarrow> a \<le> b \<Longrightarrow> on_grid j b x"
  unfolding on_grid_def by force

lemma grid_bounds: "on_grid j bound x \<Longrightarrow> \<bar>x\<bar> \<le> real_of_int bound / 10 ^ j"
  "on_grid j bound x \<Longrightarrow> x \<noteq> 0 \<Longrightarrow> 1 / 10 ^ j \<le> \<bar>x\<bar>"
proof -
  assume "on_grid j bound x"
  then obtain k where k: "x = real_of_int k / 10 ^ j" "\<bar>k\<bar> \<le> bound" by (auto simp: on_grid_def)
  then have abs: "\<bar>x\<bar> = real_of_int \<bar>k\<bar> / 10 ^ j" by simp
  show "\<bar>x\<bar> \<le> real_of_int bound / 10 ^ j"
    unfolding abs using k(2) by (intro divide_right_mono) (simp_all only: of_int_le_iff zero_le_power zero_le_numeral)
  show "1 / 10 ^ j \<le> \<bar>x\<bar>" if "x \<noteq> 0"
  proof -
    have "1 \<le> \<bar>k\<bar>" using that k(1) by auto
    then have "1 \<le> real_of_int \<bar>k\<bar>" by linarith
    then show ?thesis unfolding abs by (intro divide_right_mono) simp_all
  qed
qed

lemma less_zero: "finite_decimal x \<Longrightarrow> less_decimal x (dec_of_nat 0) = Ok (dval x < 0)"
  by (erule finite_decimalE) (simp add: less_decimal_def dec_of_nat_def scaled_def mult_less_0_iff not_less)

lemma eq_zero: "finite_decimal x \<Longrightarrow> eq_decimal x (dec_of_nat 0) = Ok (dval x = 0)"
  by (erule finite_decimalE) (simp add: eq_decimal_def dec_of_nat_def scaled_def)

lemma div_zero: "finite_decimal x \<Longrightarrow> finite_decimal y \<Longrightarrow> dval x = 0 \<Longrightarrow> dval y \<noteq> 0 \<Longrightarrow>
  \<exists>z. div_decimal x y = Ok z \<and> finite_decimal z \<and> dval z = 0"
  by (elim finite_decimalE) (auto split: if_splits)

lemma percent_near:
  assumes "finite_decimal x" "finite_decimal y" "dval y \<noteq> 0" "on_grid 8 (10 ^ 27) (dval x)" "on_grid 4 (10 ^ 16) (dval y)"
  shows "\<exists>z p. div_decimal x y = Ok z \<and> mul_decimal z (dec_of_nat 100) = Ok p \<and> finite_decimal p \<and>
    \<bar>dval p - 100 * (dval x / dval y)\<bar> \<le> 2 / 10 ^ 27 * \<bar>100 * (dval x / dval y)\<bar>"
proof -
  have hundred: "finite_decimal (dec_of_nat 100)" "dval (dec_of_nat 100) = 100" by (simp_all add: dec_of_nat_def)
  show ?thesis
  proof (cases "dval x = 0")
    case True
    then obtain z where z: "div_decimal x y = Ok z" "finite_decimal z" "dval z = 0"
      using div_zero assms(1-3) by blast
    moreover obtain p where "mul_decimal z (dec_of_nat 100) = Ok p" "finite_decimal p" "dval p = 0"
      using mul_near [OF z(2) hundred(1)] z(3) by auto
    ultimately show ?thesis using True by auto
  next
    case False
    define v where "v = dval x / dval y"
    have x: "1 / 10 ^ 8 \<le> \<bar>dval x\<bar>" "\<bar>dval x\<bar> \<le> 10 ^ 19" and y: "1 / 10 ^ 4 \<le> \<bar>dval y\<bar>" "\<bar>dval y\<bar> \<le> 10 ^ 12"
      using grid_bounds [OF assms(4)] grid_bounds [OF assms(5)] False assms(3) by simp_all
    have "\<bar>v\<bar> = \<bar>dval x\<bar> / \<bar>dval y\<bar>" by (simp add: v_def)
    moreover have "(1 / 10 ^ 8) / 10 ^ 12 \<le> \<bar>dval x\<bar> / \<bar>dval y\<bar>" using x y assms(3) by (intro frac_le) simp_all
    moreover have "\<bar>dval x\<bar> / \<bar>dval y\<bar> \<le> 10 ^ 19 / (1 / 10 ^ 4)" using x y by (intro frac_le) simp_all
    ultimately have v: "1 / 10 ^ 20 \<le> \<bar>v\<bar>" "\<bar>v\<bar> \<le> 10 ^ 23" by simp_all
    have "(10 :: real) powi (- 20) = 1 / 10 ^ 20" "(10 :: real) powi 23 = 10 ^ 23"
      by (simp_all add: power_int_def field_simps)
    moreover have wide: "(10 :: real) powi (- 900000) \<le> 10 powi (- 20)" "(10 :: real) powi 23 \<le> 10 powi 900000"
      unfolding powi_le_iff by simp_all
    ultimately have "10 powi (- 900000) \<le> \<bar>v\<bar>" "\<bar>v\<bar> \<le> 10 powi 900000"
      using v order_trans by metis+
    with div_near [OF assms(1-3) False, folded v_def] obtain z where
      z: "div_decimal x y = Ok z" "finite_decimal z" "\<bar>dval z - v\<bar> \<le> 7 / 10 ^ 28 * \<bar>v\<bar>" by blast
    have near: "\<bar>dval z - v\<bar> \<le> 1 / 10 * \<bar>v\<bar>"
    proof -
      have "7 / 10 ^ 28 * \<bar>v\<bar> \<le> 1 / 10 * \<bar>v\<bar>" by (intro mult_right_mono) simp_all
      with z(3) show ?thesis by linarith
    qed
    define w where "w = dval z * 100"
    have abs_w: "\<bar>w\<bar> = \<bar>dval z\<bar> * 100" by (simp add: w_def abs_mult)
    have upper: "\<bar>dval z\<bar> \<le> 11 / 10 * \<bar>v\<bar>" using near by linarith
    have lower: "9 / 10 * \<bar>v\<bar> \<le> \<bar>dval z\<bar>" using near by linarith
    have "10 powi (- 20) \<le> \<bar>w\<bar>"
    proof -
      have "\<bar>v\<bar> \<le> \<bar>w\<bar>" using lower abs_w by linarith
      with v(1) show ?thesis by (simp add: power_int_def field_simps)
    qed
    moreover have "\<bar>w\<bar> < 10 powi 26"
    proof -
      have "\<bar>w\<bar> \<le> 110 * \<bar>v\<bar>" using upper abs_w by linarith
      with v(2) show ?thesis by (simp add: power_int_def)
    qed
    moreover have "(10 :: real) powi (ETINY + PREC) \<le> 10 powi (- 20)" "(10 :: real) powi 26 \<le> 10 powi EMAX"
      unfolding powi_le_iff by (simp_all add: ETINY_def PREC_def EMAX_def)
    ultimately have "10 powi (ETINY + PREC) \<le> \<bar>w\<bar>" "\<bar>w\<bar> < 10 powi EMAX"
      by (meson order_trans, meson less_le_trans)
    with mul_near [OF z(2) hundred(1)] obtain p where p: "mul_decimal z (dec_of_nat 100) = Ok p" "finite_decimal p"
      "\<bar>dval p - w\<bar> \<le> 5 / 10 ^ 28 * \<bar>w\<bar>" unfolding hundred(2) w_def by blast
    have "\<bar>w - 100 * v\<bar> \<le> 7 / 10 ^ 28 * \<bar>100 * v\<bar>"
    proof -
      have "\<bar>w - 100 * v\<bar> = \<bar>100 * (dval z - v)\<bar>" by (simp add: w_def)
      also have "\<dots> = 100 * \<bar>dval z - v\<bar>" unfolding abs_mult by simp
      finally show ?thesis using z(3) by (simp add: abs_mult)
    qed
    moreover have "\<bar>w\<bar> \<le> 11 / 10 * \<bar>100 * v\<bar>" using upper abs_w by (simp add: abs_mult)
    then have "5 / 10 ^ 28 * \<bar>w\<bar> \<le> 5 / 10 ^ 28 * (11 / 10 * \<bar>100 * v\<bar>)" by (rule mult_left_mono) simp
    moreover have "5 / 10 ^ 28 * (11 / 10 * \<bar>100 * v\<bar>) + 7 / 10 ^ 28 * \<bar>100 * v\<bar> \<le> 2 / 10 ^ 27 * \<bar>100 * v\<bar>" by simp
    ultimately have "\<bar>dval p - 100 * v\<bar> \<le> 2 / 10 ^ 27 * \<bar>100 * v\<bar>" using p(3) by argo
    with z p show ?thesis unfolding v_def by blast
  qed
qed

text \<open>Hours and hourly rates below a million with four decimals, at most a million periods per year,
  costs below \<open>10\<^sup>12\<close> with four decimals.\<close>

definition in_range :: "role_inputs \<Rightarrow> bool" where
  "in_range inputs \<longleftrightarrow>
     (let value = (\<lambda>role. ri_value (role_item inputs role))
      in (\<forall>role \<in> set ROLES. finite_decimal (value role)) \<and>
         on_grid 4 (10 ^ 10) (dval (value ''baseline_hours_per_period'')) \<and>
         on_grid 4 (10 ^ 10) (dval (value ''post_automation_hours_per_period'')) \<and>
         on_grid 4 (10 ^ 10) (dval (value ''fully_loaded_rate_per_hour'')) \<and>
         on_grid 0 (10 ^ 6) (dval (value ''periods_per_year'')) \<and>
         on_grid 4 (10 ^ 16) (dval (value ''annual_recurring_cost'')) \<and>
         on_grid 4 (10 ^ 16) (dval (value ''one_time_implementation_cost'')))"

lemma digest_returns:
  assumes "\<And>role. role \<in> set ROLES \<Longrightarrow> finite_decimal (ri_value (role_item inputs role)) \<and>
    representable (dval (ri_value (role_item inputs role)))"
  obtains d where "formula_input_digest inputs = Ok d"
proof -
  have "\<exists>y. value_fields inputs role = Ok y" if "role \<in> set ROLES" for role
    using assms [OF that] canonical_returns [of "ri_value (role_item inputs role)"] unfolding value_fields_parts by auto
  then obtain ys where "all_results (map (value_fields inputs) ROLES) = Ok ys"
    using all_results_eq(2) [of ROLES "value_fields inputs" "value_fields inputs"] by blast
  then show thesis by (intro that) (simp add: formula_input_digest_def formula_input_text_def)
qed

lemma compute_values_exact:
  assumes "in_range inputs" "value = (\<lambda>role. dval (ri_value (role_item inputs role)))"
    and "savings = (value ''baseline_hours_per_period'' - value ''post_automation_hours_per_period'') *
      value ''fully_loaded_rate_per_hour'' * value ''periods_per_year''"
    and "net = savings - value ''annual_recurring_cost''" "one_time = value ''one_time_implementation_cost''"
  shows "\<exists>c s n f. compute_values inputs digest provenance = Ok c \<and>
    rc_currency c = ri_currency (role_item inputs ''fully_loaded_rate_per_hour'') \<and>
    rc_labor_savings c = Some s \<and> dval s = savings \<and> rc_net_benefit c = Some n \<and> dval n = net \<and>
    rc_first_year c = Some f \<and> dval f = net - one_time \<and>
    (if one_time = 0 then rc_status c = Roi_not_applicable \<and> rc_roi_percent c = None
     else rc_status c = Roi_valid \<and> (\<exists>p. rc_roi_percent c = Some p \<and>
       \<bar>dval p - 100 * ((net - one_time) / one_time)\<bar> \<le> 2 / 10 ^ 27 * \<bar>100 * ((net - one_time) / one_time)\<bar>))"
proof -
  let ?v = "\<lambda>role. ri_value (role_item inputs role)"
  note range = assms(1) [unfolded in_range_def Let_def]
  have fin: "finite_decimal (?v ''baseline_hours_per_period'')" "finite_decimal (?v ''post_automation_hours_per_period'')"
    "finite_decimal (?v ''fully_loaded_rate_per_hour'')" "finite_decimal (?v ''periods_per_year'')"
    "finite_decimal (?v ''annual_recurring_cost'')" "finite_decimal (?v ''one_time_implementation_cost'')"
    using range by (simp_all add: ROLES_def)
  have grid: "on_grid 4 (10 ^ 10) (value ''baseline_hours_per_period'')"
    "on_grid 4 (10 ^ 10) (value ''post_automation_hours_per_period'')"
    "on_grid 4 (10 ^ 10) (value ''fully_loaded_rate_per_hour'')" "on_grid 0 (10 ^ 6) (value ''periods_per_year'')"
    "on_grid 4 (10 ^ 16) (value ''annual_recurring_cost'')" "on_grid 4 (10 ^ 16) one_time"
    using range by (simp_all add: assms(2,5))
  have g1: "on_grid 4 (2 * 10 ^ 10) (value ''baseline_hours_per_period'' - value ''post_automation_hours_per_period'')"
    using grid_diff [OF grid(1,2)] by simp
  have g2: "on_grid 8 (2 * 10 ^ 20) ((value ''baseline_hours_per_period'' - value ''post_automation_hours_per_period'') *
      value ''fully_loaded_rate_per_hour'')"
    using grid_mult [OF g1 grid(3)] by simp
  have g3: "on_grid 8 (2 * 10 ^ 26) savings" using grid_mult [OF g2 grid(4)] by (simp add: assms(3))
  have g5': "on_grid 8 (10 ^ 20) (value ''annual_recurring_cost'')" "on_grid 8 (10 ^ 20) one_time"
    using grid_finer [OF grid(5), of 4] grid_finer [OF grid(6), of 4] by simp_all
  have g4: "on_grid 8 (2 * 10 ^ 26 + 10 ^ 20) net"
    using grid_diff [OF g3 g5'(1)] by (simp add: assms(4))
  have g5: "on_grid 8 (10 ^ 27) (net - one_time)"
    using grid_mono [OF grid_diff [OF g4 g5'(2)], of "10 ^ 27"] by simp
  note repr = g1 [THEN grid_representable] g2 [THEN grid_representable] g3 [THEN grid_representable]
    g4 [THEN grid_representable] g5 [THEN grid_representable]
  obtain d where d: "sub_decimal (?v ''baseline_hours_per_period'') (?v ''post_automation_hours_per_period'') = Ok d"
    "finite_decimal d" "dval d = value ''baseline_hours_per_period'' - value ''post_automation_hours_per_period''"
    using sub_exact [OF fin(1,2)] repr(1) by (auto simp: assms(2))
  obtain e where e: "mul_decimal d (?v ''fully_loaded_rate_per_hour'') = Ok e" "finite_decimal e"
    "dval e = (value ''baseline_hours_per_period'' - value ''post_automation_hours_per_period'') * value ''fully_loaded_rate_per_hour''"
    using mul_exact [OF d(2) fin(3)] repr(2) d(3) by (auto simp: assms(2))
  obtain s where s: "mul_decimal e (?v ''periods_per_year'') = Ok s" "finite_decimal s" "dval s = savings"
    using mul_exact [OF e(2) fin(4)] repr(3) e(3) by (auto simp: assms(2,3))
  obtain n where n: "sub_decimal s (?v ''annual_recurring_cost'') = Ok n" "finite_decimal n" "dval n = net"
    using sub_exact [OF s(2) fin(5)] repr(4) s(3) by (auto simp: assms(2,4))
  obtain f where f: "sub_decimal n (?v ''one_time_implementation_cost'') = Ok f" "finite_decimal f" "dval f = net - one_time"
    using sub_exact [OF n(2) fin(6)] repr(5) n(3) by (auto simp: assms(2,5))
  note steps = d(1) e(1) s(1) n(1) f(1) less_zero [OF d(2)] eq_zero [OF fin(6)]
  have one: "dval (?v ''one_time_implementation_cost'') = one_time" by (simp add: assms(2,5))
  show ?thesis
  proof (cases "one_time = 0")
    case True
    then show ?thesis unfolding compute_values_def Let_def steps bind_result_Ok one by (simp add: s(3) n(3) f(3))
  next
    case False
    obtain z p where p: "div_decimal f (?v ''one_time_implementation_cost'') = Ok z" "mul_decimal z (dec_of_nat 100) = Ok p"
      "\<bar>dval p - 100 * ((net - one_time) / one_time)\<bar> \<le> 2 / 10 ^ 27 * \<bar>100 * ((net - one_time) / one_time)\<bar>"
      using percent_near [OF f(2) fin(6)] g5 grid(6) False f(3) one by auto
    from False p(3) show ?thesis
      unfolding compute_values_def Let_def steps bind_result_Ok one by (simp add: s(3) n(3) f(3) p(1,2))
  qed
qed

subsection \<open>Properties\<close>

lemma in_range_representable:
  assumes "in_range inputs" "role \<in> set ROLES"
  shows "finite_decimal (ri_value (role_item inputs role)) \<and> representable (dval (ri_value (role_item inputs role)))"
proof -
  have "\<exists>j b. on_grid j b (dval (ri_value (role_item inputs role))) \<and> b < 10 ^ 28 \<and> j \<le> 1000"
    using assms unfolding in_range_def Let_def by (auto simp: ROLES_def) force+
  then show ?thesis using assms grid_representable unfolding in_range_def Let_def by blast
qed

text \<open>C29: a calculation over six well-shaped inputs whose numbers have four decimals and are in a wide
  range (hours and rates to a million, a million periods, costs to a trillion) never raises; it
  is blocked exactly when evidence is unavailable or the currencies, time units or periods do not
  fit, and then it has no value; otherwise savings, net benefit and first-year benefit are the
  exact numbers of the formula, none of the rounding of 28 digits is felt, and the percentage is
  there exactly when the implementation costs something, correct in 26 digits.\<close>

theorem roi_exact:
  assumes "require_six_roles inputs = Ok ()" "in_range inputs"
    and "value = (\<lambda>role. dval (ri_value (role_item inputs role)))"
    and "savings = (value ''baseline_hours_per_period'' - value ''post_automation_hours_per_period'') *
      value ''fully_loaded_rate_per_hour'' * value ''periods_per_year''"
    and "net = savings - value ''annual_recurring_cost''" "one_time = value ''one_time_implementation_cost''"
  shows "\<exists>c. compute_automation_roi inputs unavailable = Ok c \<and>
    (if blocking_reason inputs unavailable \<noteq> None
     then rc_status c = Roi_blocked \<and> rc_labor_savings c = None \<and> rc_net_benefit c = None \<and>
       rc_first_year c = None \<and> rc_roi_percent c = None
     else map_option dval (rc_labor_savings c) = Some savings \<and> map_option dval (rc_net_benefit c) = Some net \<and>
       map_option dval (rc_first_year c) = Some (net - one_time) \<and>
       (if one_time = 0 then rc_status c = Roi_not_applicable \<and> rc_roi_percent c = None
        else rc_status c = Roi_valid \<and> (\<exists>p. rc_roi_percent c = Some p \<and>
          \<bar>dval p - 100 * ((net - one_time) / one_time)\<bar> \<le> 2 / 10 ^ 27 * \<bar>100 * ((net - one_time) / one_time)\<bar>)))"
proof -
  obtain digest where digest: "formula_input_digest inputs = Ok digest"
    using digest_returns in_range_representable [OF assms(2)] by metis
  show ?thesis
  proof (cases "blocking_reason inputs unavailable")
    case None
    from compute_values_exact [OF assms(2-6), of digest "provenance_fingerprint inputs"] obtain c where
      "compute_values inputs digest (provenance_fingerprint inputs) = Ok c" "map_option dval (rc_labor_savings c) = Some savings"
      "map_option dval (rc_net_benefit c) = Some net" "map_option dval (rc_first_year c) = Some (net - one_time)"
      "if one_time = 0 then rc_status c = Roi_not_applicable \<and> rc_roi_percent c = None
       else rc_status c = Roi_valid \<and> (\<exists>p. rc_roi_percent c = Some p \<and>
          \<bar>dval p - 100 * ((net - one_time) / one_time)\<bar> \<le> 2 / 10 ^ 27 * \<bar>100 * ((net - one_time) / one_time)\<bar>)"
      by auto
    then show ?thesis
      by (intro exI [of _ c]) (simp add: compute_automation_roi_def assms(1) digest arith_def None)
  next
    case (Some reason)
    then show ?thesis
      by (cases reason) (simp add: compute_automation_roi_def assms(1) digest arith_def blocked_result_def)
  qed
qed

text \<open>Two hundred and one hundred hours a month at 50, twelve months, 1200 a year, 10000 once.\<close>

definition sample_item :: "string \<Rightarrow> decimal \<Rightarrow> resolved_input" where
  "sample_item role d =
     \<lparr>ri_role = role, ri_value = d, ri_unit = '''', ri_currency = Some ''USD'', ri_period = Some ''month'',
      ri_time_unit = Some ''hours'', ri_input_id = Some (role @ ''-1''), ri_fact_id = None, ri_decision_id = None\<rparr>"

definition sample_inputs :: "decimal list \<Rightarrow> role_inputs" where
  "sample_inputs ds = map2 (\<lambda>role d. (role, sample_item role d)) ROLES ds"

definition sample_values :: "decimal list" where
  "sample_values = [Fin False 200 0, Fin False 1000 (- 1), Fin False 50 0, Fin False 12 0, Fin False 1200 0, Fin False 10000 0]"

lemma on_gridI: "x * 10 ^ j = real_of_int k \<Longrightarrow> \<bar>k\<bar> \<le> bound \<Longrightarrow> on_grid j bound x"
  unfolding on_grid_def by (intro exI [of _ k]) (simp add: field_simps)

lemma sample_items:
  assumes "ds = [a, b, c, d, e, f]"
  shows "role_item (sample_inputs ds) ''baseline_hours_per_period'' = sample_item ''baseline_hours_per_period'' a"
    "role_item (sample_inputs ds) ''post_automation_hours_per_period'' = sample_item ''post_automation_hours_per_period'' b"
    "role_item (sample_inputs ds) ''fully_loaded_rate_per_hour'' = sample_item ''fully_loaded_rate_per_hour'' c"
    "role_item (sample_inputs ds) ''periods_per_year'' = sample_item ''periods_per_year'' d"
    "role_item (sample_inputs ds) ''annual_recurring_cost'' = sample_item ''annual_recurring_cost'' e"
    "role_item (sample_inputs ds) ''one_time_implementation_cost'' = sample_item ''one_time_implementation_cost'' f"
    "require_six_roles (sample_inputs ds) = Ok ()"
  by (simp_all add: role_item_def sample_inputs_def ROLES_def assms require_six_roles_def sample_item_def insert_commute)

lemma sample_in_range: "in_range (sample_inputs sample_values)"
proof -
  have "on_grid 4 (10 ^ 10) (dval (Fin False 200 0))" "on_grid 4 (10 ^ 10) (dval (Fin False 1000 (- 1)))"
    "on_grid 4 (10 ^ 10) (dval (Fin False 50 0))" "on_grid 0 (10 ^ 6) (dval (Fin False 12 0))"
    "on_grid 4 (10 ^ 16) (dval (Fin False 1200 0))" "on_grid 4 (10 ^ 16) (dval (Fin False 10000 0))"
    by (rule on_gridI [of _ _ 2000000] on_gridI [of _ _ 1000000] on_gridI [of _ _ 500000] on_gridI [of _ _ 12]
        on_gridI [of _ _ 12000000] on_gridI [of _ _ 100000000]; simp add: power_int_minus)+
  then show ?thesis
    by (simp add: in_range_def Let_def ROLES_def sample_items [OF sample_values_def] sample_item_def del: dval.simps)
qed

theorem roi_exact_witness:
  "\<exists>c. compute_automation_roi (sample_inputs sample_values) [] = Ok c \<and> rc_status c = Roi_valid \<and>
     map_option dval (rc_labor_savings c) = Some 60000 \<and> map_option dval (rc_first_year c) = Some 48800"
proof -
  have free: "blocking_reason (sample_inputs sample_values) [] = None"
    by (simp add: blocking_reason_def Let_def MONEY_ROLES_def HOURS_ROLES_def sample_items [OF sample_values_def] sample_item_def)
  show ?thesis
    using roi_exact [OF sample_items(7) [OF sample_values_def] sample_in_range refl refl refl refl, of "[]"] free
    by (auto simp: sample_items [OF sample_values_def] sample_item_def power_int_minus)
qed

theorem digest_identifies_values_witness:
  "formula_input_digest (sample_inputs sample_values) =
     formula_input_digest (sample_inputs (sample_values[1 := Fin False 100 0])) \<and>
   formula_input_text (sample_inputs sample_values) \<noteq>
     formula_input_text (sample_inputs (sample_values[1 := Fin False 101 0]))"
proof -
  let ?ds = "\<lambda>n. [Fin False 200 0, Fin False n 0, Fin False 50 0, Fin False 12 0, Fin False 1200 0, Fin False 10000 0]"
  have upd: "sample_values[1 := Fin False n 0] = ?ds n" for n by (simp add: sample_values_def)
  have repr: "representable (dval (Fin False n e))" if "n < 10 ^ 28" "e \<in> {0, - 1}" for n e
    unfolding representable_def using that
    by (intro exI [of _ "int n"] exI [of _ e]) (auto simp: ETINY_def ETOP_def)
  have clean: "list_all clean_text (snd (item_value (sample_item role d)))" for role d
    by (simp add: item_value_def sample_item_def clean_text_def REC_SEP_def FIELD_SEP_def NULL_TEXT_def)
  have a: "clean_inputs (sample_inputs sample_values)"
    unfolding clean_inputs_def ROLES_def clean_item_def
    by (simp add: sample_items [OF sample_values_def] clean repr del: dval.simps)
      (simp add: sample_item_def repr del: dval.simps)
  have b: "clean_inputs (sample_inputs (?ds n))" if "n < 1000" for n
    unfolding clean_inputs_def ROLES_def clean_item_def using that
    by (simp add: sample_items [OF refl] clean repr del: dval.simps)
      (simp add: sample_item_def repr del: dval.simps)
  have "same_values (sample_inputs sample_values) (sample_inputs (?ds n)) \<longleftrightarrow> n = 100" for n
    by (simp add: same_values_def ROLES_def sample_items [OF sample_values_def] sample_items [OF refl] item_value_def
        sample_item_def power_int_minus)
  then show ?thesis
    unfolding upd using digest_identifies_values [OF a b, of 100] digest_identifies_values [OF a b, of 101] by simp
qed

end
