(* ===== verification/FactTypes.thy ===== *)
theory FactTypes
  imports Decimal
begin

text \<open>
  Typed candidate facts (\<open>mas/knowledge/evidence_snapshot/validation.py\<close>) and the canonical form the
  fact service gives them (\<open>fact_service.py\<close>, \<open>_canonicalize\<close>). A \<open>typed_fact\<close> holds both the
  arguments of \<open>validate_fact\<close> and the fact it returns, which have the same fields; the value is
  whatever the caller passed until it has been validated. A date is its ordinal.
\<close>

subsection \<open>Facts\<close>

datatype raw_value =
    Raw_none
  | Raw_bool bool
  | Raw_float real
  | Raw_decimal decimal
  | Raw_int int
  | Raw_str string
  | Raw_other string

record typed_fact =
  tf_type :: string
  tf_value :: raw_value
  tf_text :: "string option"
  tf_unit :: string
  tf_currency :: "string option"
  tf_as_of :: "int option"
  tf_numerator :: "string option"
  tf_denominator :: "string option"
  tf_basis :: "string option"
  tf_subtype :: "string option"
  tf_time_unit :: "string option"
  tf_entity :: "string option"

definition NUMERIC_FACT_TYPES :: "string set" where
  "NUMERIC_FACT_TYPES = {''money'', ''rate'', ''percentage'', ''duration'', ''count''}"

definition TEXT_FACT_TYPES :: "string set" where
  "TEXT_FACT_TYPES = {''categorical'', ''text''}"

definition FACT_TYPES :: "string set" where
  "FACT_TYPES = NUMERIC_FACT_TYPES \<union> TEXT_FACT_TYPES"

definition ISO_4217_CURRENCIES :: "string list" where
  "ISO_4217_CURRENCIES =
     [''USD'', ''EUR'', ''GBP'', ''JPY'', ''CHF'', ''CAD'', ''AUD'', ''NZD'', ''CNY'', ''HKD'',
      ''SGD'', ''SEK'', ''NOK'', ''DKK'', ''PLN'', ''CZK'', ''HUF'', ''INR'', ''BRL'', ''MXN'',
      ''ZAR'', ''KRW'', ''TRY'', ''RUB'', ''AED'', ''SAR'', ''ILS'', ''THB'', ''IDR'', ''MYR'']"

definition DURATION_UNITS :: "string list" where
  "DURATION_UNITS =
     [''seconds'', ''minutes'', ''hours'', ''days'', ''weeks'', ''months'', ''quarters'', ''years'']"

definition PERCENTAGE_SUBTYPE_BOUNDS :: "(string \<times> nat option \<times> nat option) list" where
  "PERCENTAGE_SUBTYPE_BOUNDS =
     [(''share_0_100'', Some 0, Some 100), (''share_0_1'', Some 0, Some 1), (''change'', None, None),
      (''margin'', None, Some 100)]"

text \<open>\<open>FactValidationError\<close> with its message, or an exception of the decimal module that the
  validation does not catch.\<close>

datatype fact_error = Fact_invalid string | Fact_raises decimal_error

definition of_decimal :: "(decimal_error, 'a) result \<Rightarrow> (fact_error, 'a) result" where
  "of_decimal r = (case r of Inl e \<Rightarrow> Err (Fact_raises e) | Inr x \<Rightarrow> Ok x)"

definition require :: "bool \<Rightarrow> string \<Rightarrow> (fact_error, 'a) result \<Rightarrow> (fact_error, 'a) result" where
  "require condition message k = (if condition then k else Err (Fact_invalid message))"

definition nonblank :: "string option \<Rightarrow> bool" where
  "nonblank t \<longleftrightarrow> py_strip (opt_or t '''') \<noteq> ''''"

definition dec_of_int :: "int \<Rightarrow> decimal" where
  "dec_of_int i = Fin (i < 0) (nat \<bar>i\<bar>) 0"

fun type_name :: "raw_value \<Rightarrow> string" where
  "type_name (Raw_other name) = name"
| "type_name _ = ''NoneType''"

definition to_decimal :: "raw_value \<Rightarrow> (fact_error, decimal) result" where
  "to_decimal v =
     (case v of
        Raw_bool b \<Rightarrow> Err (Fact_invalid ''Boolean is not a valid numeric fact value.'')
      | Raw_float r \<Rightarrow> Err (Fact_invalid ''float values are not permitted; pass Decimal, int, or a numeric string.'')
      | Raw_decimal d \<Rightarrow> Ok d
      | Raw_int i \<Rightarrow> Ok (dec_of_int i)
      | Raw_str s \<Rightarrow>
          (if py_strip s = '''' then Err (Fact_invalid ''Empty string is not a valid numeric value.'')
           else case read_decimal (py_strip s) of
                  Some d \<Rightarrow> Ok d
                | None \<Rightarrow> Err (Fact_invalid (''Not a valid numeric value: '' @ py_repr s)))
      | _ \<Rightarrow> Err (Fact_invalid (''Unsupported numeric type: '' @ type_name v)))"

definition blank_fact :: "string \<Rightarrow> raw_value \<Rightarrow> string \<Rightarrow> typed_fact" where
  "blank_fact t v u =
     \<lparr>tf_type = t, tf_value = v, tf_text = None, tf_unit = u, tf_currency = None, tf_as_of = None,
      tf_numerator = None, tf_denominator = None, tf_basis = None, tf_subtype = None, tf_time_unit = None,
      tf_entity = None\<rparr>"

definition opt_repr :: "string option \<Rightarrow> string" where
  "opt_repr t = (case t of None \<Rightarrow> ''None'' | Some s \<Rightarrow> py_repr s)"

text \<open>The bounds of a percentage are compared with \<open>>=\<close> and \<open><=\<close>, which raise on a NaN.\<close>

definition within_low :: "decimal \<Rightarrow> nat option \<Rightarrow> (fact_error, bool) result" where
  "within_low d low =
     (case low of None \<Rightarrow> Ok True | Some l \<Rightarrow> map_result Not (of_decimal (less_decimal d (dec_of_nat l))))"

definition within_high :: "decimal \<Rightarrow> nat option \<Rightarrow> (fact_error, bool) result" where
  "within_high d high =
     (case high of None \<Rightarrow> Ok True | Some h \<Rightarrow> map_result Not (of_decimal (less_decimal (dec_of_nat h) d)))"

definition bound_message :: "decimal \<Rightarrow> string \<Rightarrow> nat option \<Rightarrow> string" where
  "bound_message d side b =
     ''percentage '' @ decimal_str d @ side @ nat_digits (opt_or b 0) @ ''.''"

subsection \<open>Validation\<close>

definition validate_text :: "typed_fact \<Rightarrow> (fact_error, typed_fact) result" where
  "validate_text f =
     require (tf_value f = Raw_none) (tf_type f @ '' facts must not carry a numeric value.'')
       (require (nonblank (tf_text f)) (tf_type f @ '' facts require non-empty textual evidence.'')
         (Ok ((blank_fact (tf_type f) Raw_none (tf_unit f))\<lparr>tf_text := tf_text f\<rparr>)))"

definition validate_money :: "typed_fact \<Rightarrow> decimal \<Rightarrow> (fact_error, typed_fact) result" where
  "validate_money f d =
     (let code = py_upper (py_strip (opt_or (tf_currency f) ''''))
      in require (tf_currency f \<noteq> None) ''money facts require an ISO-4217 currency code.''
           (require (code \<in> set ISO_4217_CURRENCIES) (''Unknown ISO-4217 currency code: '' @ opt_repr (tf_currency f))
             (require (tf_as_of f \<noteq> None) ''money facts require an as_of_date.''
               (Ok ((blank_fact ''money'' (Raw_decimal d) (tf_unit f))\<lparr>tf_currency := Some code, tf_as_of := tf_as_of f\<rparr>)))))"

definition validate_rate :: "typed_fact \<Rightarrow> decimal \<Rightarrow> (fact_error, typed_fact) result" where
  "validate_rate f d =
     require (nonblank (tf_numerator f)) ''rate facts require a numerator_context.''
       (require (nonblank (tf_denominator f)) ''rate facts require a denominator_context.''
         (Ok ((blank_fact ''rate'' (Raw_decimal d) (tf_unit f))
               \<lparr>tf_numerator := tf_numerator f, tf_denominator := tf_denominator f\<rparr>)))"

definition validate_percentage :: "typed_fact \<Rightarrow> decimal \<Rightarrow> (fact_error, typed_fact) result" where
  "validate_percentage f d =
     require (nonblank (tf_basis f)) ''percentage facts require a basis.''
       (case map_of PERCENTAGE_SUBTYPE_BOUNDS (opt_or (tf_subtype f) '''') of
          None \<Rightarrow> Err (Fact_invalid (''Unknown percentage subtype: '' @ opt_repr (tf_subtype f)))
        | Some (low, high) \<Rightarrow>
            bind_result (within_low d low) (\<lambda>above. require above (bound_message d '' below subtype lower bound '' low)
              (bind_result (within_high d high) (\<lambda>below. require below (bound_message d '' above subtype upper bound '' high)
                (Ok ((blank_fact ''percentage'' (Raw_decimal d) (tf_unit f))
                      \<lparr>tf_basis := tf_basis f, tf_subtype := tf_subtype f\<rparr>))))))"

definition validate_duration :: "typed_fact \<Rightarrow> decimal \<Rightarrow> (fact_error, typed_fact) result" where
  "validate_duration f d =
     bind_result (of_decimal (less_decimal d (dec_of_nat 0))) (\<lambda>negative.
       require (\<not> negative) ''duration facts must be non-negative.''
         (let unit_value = py_lower (py_strip (opt_or (tf_time_unit f) ''''))
          in require (unit_value \<in> set DURATION_UNITS) (''Unknown duration time_unit: '' @ opt_repr (tf_time_unit f))
               (Ok ((blank_fact ''duration'' (Raw_decimal d) (tf_unit f))\<lparr>tf_time_unit := Some unit_value\<rparr>))))"

definition validate_count :: "typed_fact \<Rightarrow> decimal \<Rightarrow> (fact_error, typed_fact) result" where
  "validate_count f d =
     bind_result (of_decimal (to_integral_value d)) (\<lambda>whole.
     bind_result (of_decimal (eq_decimal d whole)) (\<lambda>integral.
       require integral ''count facts must be integral.''
         (require (nonblank (tf_entity f)) ''count facts require a counted-entity description.''
           (Ok ((blank_fact ''count'' (Raw_decimal d) (tf_unit f))\<lparr>tf_entity := tf_entity f\<rparr>)))))"

definition validate_fact :: "typed_fact \<Rightarrow> (fact_error, typed_fact) result" where
  "validate_fact f =
     require (tf_type f \<in> FACT_TYPES) (''Unknown fact_type: '' @ py_repr (tf_type f))
       (if tf_type f \<in> TEXT_FACT_TYPES then validate_text f
        else require (tf_value f \<noteq> Raw_none) (tf_type f @ '' facts require a numeric value.'')
          (bind_result (to_decimal (tf_value f)) (\<lambda>d.
             if tf_type f = ''money'' then validate_money f d
             else if tf_type f = ''rate'' then validate_rate f d
             else if tf_type f = ''percentage'' then validate_percentage f d
             else if tf_type f = ''duration'' then validate_duration f d
             else validate_count f d)))"

subsection \<open>The fact service\<close>

definition reject_non_finite :: "raw_value \<Rightarrow> (fact_error, unit) result" where
  "reject_non_finite v =
     (let candidate = (case v of Raw_decimal d \<Rightarrow> Some d | Raw_str s \<Rightarrow> read_decimal (py_strip s) | _ \<Rightarrow> None)
      in case candidate of
           Some d \<Rightarrow> require (finite_decimal d) ''numeric candidate facts must be finite'' (Ok ())
         | None \<Rightarrow> Ok ())"

definition canonicalize :: "typed_fact \<Rightarrow> (fact_error, typed_fact) result" where
  "canonicalize f =
     bind_result (reject_non_finite (tf_value f)) (\<lambda>_.
     bind_result (validate_fact f) (\<lambda>g.
     bind_result (reject_non_finite (tf_value g)) (\<lambda>_. Ok g)))"

subsection \<open>What a validated fact is\<close>

text \<open>The checks of the table \<open>candidate_fact_revision\<close> (\<open>v47_evidence_snapshot_foundation.sql\<close>).\<close>

fun whole_numeric :: "decimal \<Rightarrow> bool" where
  "whole_numeric (Fin s c e) \<longleftrightarrow> e \<ge> 0 \<or> 10 ^ nat (- e) dvd c"
| "whole_numeric d \<longleftrightarrow> True"

definition fact_row_ok :: "typed_fact \<Rightarrow> bool" where
  "fact_row_ok f \<longleftrightarrow>
     (case tf_value f of
        Raw_none \<Rightarrow> tf_type f \<in> TEXT_FACT_TYPES \<and> opt_or (tf_text f) '''' \<noteq> ''''
      | Raw_decimal d \<Rightarrow> tf_type f \<in> NUMERIC_FACT_TYPES \<and> (tf_type f = ''count'' \<longrightarrow> whole_numeric d)
      | _ \<Rightarrow> False) \<and>
     (tf_type f = ''money'' \<longrightarrow> tf_currency f \<noteq> None \<and> length (opt_or (tf_currency f) '''') = 3 \<and> tf_as_of f \<noteq> None)"

text \<open>The contract of each fact type.\<close>

definition fact_contract :: "typed_fact \<Rightarrow> bool" where
  "fact_contract f \<longleftrightarrow>
     (\<forall>d. tf_value f = Raw_decimal d \<longrightarrow>
        (tf_type f = ''money'' \<longrightarrow> opt_or (tf_currency f) '''' \<in> set ISO_4217_CURRENCIES) \<and>
        (tf_type f = ''rate'' \<longrightarrow> nonblank (tf_numerator f) \<and> nonblank (tf_denominator f)) \<and>
        (tf_type f = ''percentage'' \<longrightarrow> nonblank (tf_basis f) \<and>
           (\<exists>low high. map_of PERCENTAGE_SUBTYPE_BOUNDS (opt_or (tf_subtype f) '''') = Some (low, high) \<and>
              within_low d low = Ok True \<and> within_high d high = Ok True)) \<and>
        (tf_type f = ''duration'' \<longrightarrow> less_decimal d (dec_of_nat 0) = Ok False \<and>
           opt_or (tf_time_unit f) '''' \<in> set DURATION_UNITS) \<and>
        (tf_type f = ''count'' \<longrightarrow> nonblank (tf_entity f)))"

lemma require_Ok [simp]: "require c m k = Ok x \<longleftrightarrow> c \<and> k = Ok x"
  by (simp add: require_def)

lemma of_decimal_Ok [simp]: "of_decimal r = Ok x \<longleftrightarrow> r = Ok x"
  by (cases r) (simp_all add: of_decimal_def)

lemma iso_normal: "c \<in> set ISO_4217_CURRENCIES \<Longrightarrow> py_upper (py_strip c) = c \<and> length c = 3"
proof -
  have "list_all (\<lambda>c. py_upper (py_strip c) = c \<and> length c = 3) ISO_4217_CURRENCIES" by code_simp
  then show "c \<in> set ISO_4217_CURRENCIES \<Longrightarrow> py_upper (py_strip c) = c \<and> length c = 3" by (simp add: list_all_iff)
qed

lemma unit_normal: "u \<in> set DURATION_UNITS \<Longrightarrow> py_lower (py_strip u) = u"
proof -
  have "list_all (\<lambda>u. py_lower (py_strip u) = u) DURATION_UNITS" by code_simp
  then show "u \<in> set DURATION_UNITS \<Longrightarrow> py_lower (py_strip u) = u" by (simp add: list_all_iff)
qed

lemma nonblank_nonempty: "nonblank t \<Longrightarrow> opt_or t '''' \<noteq> ''''"
  by (auto simp: nonblank_def py_strip_def py_rstrip_def py_lstrip_def)

lemma integral_whole:
  assumes "to_integral_value d = Ok w" "eq_decimal d w = Ok True"
  shows "whole_numeric d"
proof (cases d)
  case (Fin s c e)
  show ?thesis
  proof (cases "e \<ge> 0")
    case False
    let ?m = "10 ^ nat (- e) :: nat"
    have "scaled s c e e = scaled s (half_even c ?m) 0 e"
      using assms False by (auto simp: Fin eq_decimal_def)
    then have "int c = int (half_even c ?m * ?m)" by (simp add: scaled_def split: if_splits)
    then have "c = half_even c ?m * ?m" by (simp only: of_nat_eq_iff)
    then have "?m dvd c" by (metis dvd_triv_right)
    then show ?thesis by (simp add: Fin)
  qed (simp add: Fin)
qed simp_all

lemmas fact_types = FACT_TYPES_def NUMERIC_FACT_TYPES_def TEXT_FACT_TYPES_def

lemma validate_cases [consumes 1, case_names words money rate percentage duration count]:
  assumes "validate_fact f = Ok g"
  obtains "tf_type f \<in> TEXT_FACT_TYPES" "validate_text f = Ok g"
  | d where "tf_type f = ''money''" "to_decimal (tf_value f) = Ok d" "validate_money f d = Ok g"
  | d where "tf_type f = ''rate''" "to_decimal (tf_value f) = Ok d" "validate_rate f d = Ok g"
  | d where "tf_type f = ''percentage''" "to_decimal (tf_value f) = Ok d" "validate_percentage f d = Ok g"
  | d where "tf_type f = ''duration''" "to_decimal (tf_value f) = Ok d" "validate_duration f d = Ok g"
  | d where "tf_type f = ''count''" "to_decimal (tf_value f) = Ok d" "validate_count f d = Ok g"
  using assms by (auto simp: validate_fact_def bind_result_eq_Ok fact_types split: if_splits)

lemma validate_decimal:
  "tf_type g \<in> NUMERIC_FACT_TYPES \<Longrightarrow> tf_value g = Raw_decimal d \<Longrightarrow>
     validate_fact g = (if tf_type g = ''money'' then validate_money g d
       else if tf_type g = ''rate'' then validate_rate g d
       else if tf_type g = ''percentage'' then validate_percentage g d
       else if tf_type g = ''duration'' then validate_duration g d else validate_count g d)"
  by (auto simp: validate_fact_def require_def fact_types to_decimal_def)

lemma validated_once:
  assumes "validate_fact f = Ok g"
  shows "validate_fact g = Ok g \<and> fact_row_ok g \<and> fact_contract g \<and> tf_type g = tf_type f"
  using assms
proof (cases rule: validate_cases)
  case words
  then have "g = (blank_fact (tf_type f) Raw_none (tf_unit f))\<lparr>tf_text := tf_text f\<rparr>" "nonblank (tf_text f)"
    by (simp_all add: validate_text_def)
  with words(1) show ?thesis
    by (auto simp: validate_fact_def require_def validate_text_def blank_fact_def fact_row_ok_def fact_contract_def
        fact_types nonblank_nonempty)
next
  case (money d)
  let ?code = "py_upper (py_strip (opt_or (tf_currency f) ''''))"
  have g: "g = (blank_fact ''money'' (Raw_decimal d) (tf_unit f))\<lparr>tf_currency := Some ?code, tf_as_of := tf_as_of f\<rparr>"
    and code: "?code \<in> set ISO_4217_CURRENCIES" "tf_as_of f \<noteq> None"
    using money(3) by (auto simp: validate_money_def Let_def)
  have "validate_fact g = validate_money g d" using g by (subst validate_decimal) (simp_all add: blank_fact_def fact_types)
  moreover have "validate_money g d = Ok g"
    using g code iso_normal [OF code(1)] by (auto simp: validate_money_def require_def blank_fact_def Let_def)
  ultimately show ?thesis using g code iso_normal [OF code(1)] money(1)
    by (auto simp: fact_row_ok_def fact_contract_def blank_fact_def fact_types)
next
  case (rate d)
  then have g: "g = (blank_fact ''rate'' (Raw_decimal d) (tf_unit f))\<lparr>tf_numerator := tf_numerator f, tf_denominator := tf_denominator f\<rparr>"
    and ok: "nonblank (tf_numerator f)" "nonblank (tf_denominator f)" by (auto simp: validate_rate_def)
  have "validate_fact g = validate_rate g d" using g by (subst validate_decimal) (simp_all add: blank_fact_def fact_types)
  with g ok rate(1) show ?thesis
    by (auto simp: validate_rate_def require_def fact_row_ok_def fact_contract_def blank_fact_def fact_types)
next
  case (percentage d)
  then obtain low high where g: "g = (blank_fact ''percentage'' (Raw_decimal d) (tf_unit f))\<lparr>tf_basis := tf_basis f, tf_subtype := tf_subtype f\<rparr>"
    and ok: "nonblank (tf_basis f)" "map_of PERCENTAGE_SUBTYPE_BOUNDS (opt_or (tf_subtype f) '''') = Some (low, high)"
      "within_low d low = Ok True" "within_high d high = Ok True"
    by (auto simp: validate_percentage_def bind_result_eq_Ok split: option.splits)
  have "validate_fact g = validate_percentage g d" using g by (subst validate_decimal) (simp_all add: blank_fact_def fact_types)
  with g ok percentage(1) show ?thesis
    by (auto simp: validate_percentage_def require_def fact_row_ok_def fact_contract_def blank_fact_def fact_types)
next
  case (duration d)
  let ?unit = "py_lower (py_strip (opt_or (tf_time_unit f) ''''))"
  have g: "g = (blank_fact ''duration'' (Raw_decimal d) (tf_unit f))\<lparr>tf_time_unit := Some ?unit\<rparr>"
    and ok: "?unit \<in> set DURATION_UNITS" "less_decimal d (dec_of_nat 0) = Ok False"
    using duration(3) by (auto simp: validate_duration_def Let_def bind_result_eq_Ok)
  have "validate_fact g = validate_duration g d" using g by (subst validate_decimal) (simp_all add: blank_fact_def fact_types)
  moreover have "validate_duration g d = Ok g"
    using g ok unit_normal [OF ok(1)] by (auto simp: validate_duration_def require_def blank_fact_def Let_def of_decimal_def)
  ultimately show ?thesis using g ok duration(1)
    by (auto simp: fact_row_ok_def fact_contract_def blank_fact_def fact_types)
next
  case (count d)
  then obtain w where g: "g = (blank_fact ''count'' (Raw_decimal d) (tf_unit f))\<lparr>tf_entity := tf_entity f\<rparr>"
    and ok: "to_integral_value d = Ok w" "eq_decimal d w = Ok True" "nonblank (tf_entity f)"
    by (auto simp: validate_count_def bind_result_eq_Ok)
  have "validate_fact g = validate_count g d" using g by (subst validate_decimal) (simp_all add: blank_fact_def fact_types)
  with g ok count(1) show ?thesis
    by (auto simp: validate_count_def require_def fact_row_ok_def fact_contract_def blank_fact_def fact_types of_decimal_def
        integral_whole)
qed

subsection \<open>Properties\<close>

text \<open>C40: a validated fact keeps the contract of its type (a known currency and a date for money,
  contexts for a rate, the bounds of the subtype for a percentage, a known unit and no sign for
  a duration, an integer for a count, text and no number for evidence in words), passes every
  check of the table it is stored in, and is a fixed point: validating it again returns it
  unchanged. The canonical form the fact service stores is in addition a finite number.\<close>

theorem validated_fact_wf:
  "(validate_fact f = Ok g \<longrightarrow> tf_type g = tf_type f \<and> fact_contract g \<and> fact_row_ok g \<and> validate_fact g = Ok g) \<and>
   (canonicalize f = Ok g \<longrightarrow> fact_contract g \<and> fact_row_ok g \<and> canonicalize g = Ok g \<and>
      (\<forall>d. tf_value g = Raw_decimal d \<longrightarrow> finite_decimal d))"
proof (intro conjI impI)
  assume "validate_fact f = Ok g"
  from validated_once [OF this] show "tf_type g = tf_type f" "fact_contract g" "fact_row_ok g" "validate_fact g = Ok g"
    by simp_all
next
  assume "canonicalize f = Ok g"
  then have v: "validate_fact f = Ok g" and fin: "reject_non_finite (tf_value g) = Ok ()"
    by (auto simp: canonicalize_def bind_result_eq_Ok)
  note once = validated_once [OF v]
  then show "fact_contract g" "fact_row_ok g" by simp_all
  show "canonicalize g = Ok g" using once fin by (simp add: canonicalize_def)
  show "\<forall>d. tf_value g = Raw_decimal d \<longrightarrow> finite_decimal d" using fin by (auto simp: reject_non_finite_def)
qed

theorem validated_fact_wf_witness:
  "\<exists>g. canonicalize ((blank_fact ''money'' (Raw_str '' 12.50 '') '''')\<lparr>tf_currency := Some '' eur'', tf_as_of := Some 739000\<rparr>) = Ok g \<and>
     tf_currency g = Some ''EUR'' \<and> canonicalize g = Ok g"
proof -
  let ?f = "(blank_fact ''money'' (Raw_str '' 12.50 '') '''')\<lparr>tf_currency := Some '' eur'', tf_as_of := Some 739000\<rparr>"
  let ?g = "(blank_fact ''money'' (Raw_decimal (Fin False 1250 (- 2))) '''')\<lparr>tf_currency := Some ''EUR'', tf_as_of := Some 739000\<rparr>"
  have "canonicalize ?f = Ok ?g" by code_simp
  then show ?thesis using validated_fact_wf [of ?f ?g] by (intro exI [of _ ?g]) (simp add: blank_fact_def)
qed

end
