(* ===== verification/Evidence.thy ===== *)
theory Evidence
  imports FactTypes Sha256 Table "HOL-Library.Sublist"
begin

text \<open>
  The evidence store (\<open>mas/knowledge/evidence_snapshot/repository.py\<close>, \<open>capture.py\<close>,
  \<open>fact_service.py\<close>): blobs, snapshots, ingest operations, candidate facts and retention events,
  with the keys and references of \<open>v47_evidence_snapshot_foundation.sql\<close>. The four tables of
  evidence are only ever appended to; an ingest operation moves between statuses.

  A transaction is one step: it commits as a whole or leaves the store as it was. The ids that the
  database generates are arguments. Actors, times and reasons, which nothing reads, are left out.
\<close>

subsection \<open>State\<close>

record blob =
  bl_id :: string
  bl_project :: string
  bl_algorithm :: string
  bl_hash :: string
  bl_size :: nat

record snapshot =
  sn_id :: string
  sn_blob :: string
  sn_project :: string
  sn_storage_ref :: string
  sn_kind :: string
  sn_locator :: string
  sn_operation :: string

datatype ingest_status = Ingest_pending | Ingest_committed | Ingest_failed | Ingest_skipped

record ingest_operation =
  io_id :: string
  io_project :: string
  io_operation :: string
  io_status :: ingest_status
  io_snapshot :: "string option"
  io_detail :: string

record fact_row =
  fa_id :: string
  fa_project :: string
  fa_snapshot :: string
  fa_fact :: typed_fact

datatype retention_type = Legal_hold | Tombstone | Redact

record retention_event =
  re_project :: string
  re_type :: retention_type
  re_blob :: "string option"
  re_snapshot :: "string option"
  re_fact :: "string option"

record evidence =
  ev_projects :: "string list"
  ev_blobs :: "blob list"
  ev_snapshots :: "snapshot list"
  ev_operations :: "ingest_operation list"
  ev_facts :: "fact_row list"
  ev_events :: "retention_event list"

text \<open>A refused statement, a \<open>ValueError\<close> of the repository, or an unavailable database.\<close>

datatype store_error = Store_sql sql_error | Store_value string | Store_outage string

definition sql_ok :: "(sql_error, 'a) result \<Rightarrow> (store_error, 'a) result" where
  "sql_ok r = (case r of Inl e \<Rightarrow> Err (Store_sql e) | Inr x \<Rightarrow> Ok x)"

subsection \<open>The repository\<close>

definition blob_key :: "blob \<Rightarrow> string \<times> string \<times> string" where
  "blob_key b = (bl_project b, bl_algorithm b, bl_hash b)"

definition operation_key :: "ingest_operation \<Rightarrow> string \<times> string" where
  "operation_key p = (io_project p, io_operation p)"

definition insert_or_get_blob :: "evidence \<Rightarrow> blob \<Rightarrow> (store_error, evidence \<times> string) result" where
  "insert_or_get_blob ev b =
     bind_result (sql_ok (insert_row bl_id (\<lambda>_. True) blob_key b (ev_blobs ev))) (\<lambda>(t, inserted).
       if inserted
       then if bl_project b \<in> set (ev_projects ev) then Ok (ev\<lparr>ev_blobs := t\<rparr>, bl_id b)
            else Err (Store_sql Foreign_key_violation)
       else case find (\<lambda>x. blob_key x = blob_key b) (ev_blobs ev) of
              Some x \<Rightarrow> Ok (ev, bl_id x)
            | None \<Rightarrow> Err (Store_value ''no blob row''))"

definition insert_snapshot :: "evidence \<Rightarrow> snapshot \<Rightarrow> (store_error, evidence) result" where
  "insert_snapshot ev s =
     (if sn_storage_ref s = '''' then Err (Store_value ''Snapshot creation requires a stable existing storage_ref.'')
      else if sn_id s \<in> sn_id ` set (ev_snapshots ev) then Err (Store_sql Unique_violation)
      else if \<not> list_ex (\<lambda>b. bl_id b = sn_blob s \<and> bl_project b = sn_project s) (ev_blobs ev)
      then Err (Store_sql Foreign_key_violation)
      else Ok (ev\<lparr>ev_snapshots := ev_snapshots ev @ [s]\<rparr>))"

definition find_snapshots_by_storage_ref :: "evidence \<Rightarrow> string \<Rightarrow> string list" where
  "find_snapshots_by_storage_ref ev ref = map sn_id (filter (\<lambda>s. sn_storage_ref s = ref) (ev_snapshots ev))"

definition get_ingest_operation :: "evidence \<Rightarrow> string \<Rightarrow> string \<Rightarrow> ingest_operation option" where
  "get_ingest_operation ev project op =
     find (\<lambda>p. io_project p = project \<and> io_operation p = op) (ev_operations ev)"

text \<open>The row and whether it existed before.\<close>

definition create_or_get_ingest_operation ::
  "evidence \<Rightarrow> string \<Rightarrow> string \<Rightarrow> string \<Rightarrow> string \<Rightarrow> (store_error, evidence \<times> ingest_operation \<times> bool) result" where
  "create_or_get_ingest_operation ev i project op detail =
     (let row = \<lparr>io_id = i, io_project = project, io_operation = op, io_status = Ingest_pending,
            io_snapshot = None, io_detail = detail\<rparr>
      in bind_result (sql_ok (insert_row io_id (\<lambda>_. True) operation_key row (ev_operations ev))) (\<lambda>(t, inserted).
           if inserted
           then if project \<in> set (ev_projects ev) then Ok (ev\<lparr>ev_operations := t\<rparr>, row, False)
                else Err (Store_sql Foreign_key_violation)
           else case get_ingest_operation ev project op of
                  Some p \<Rightarrow> Ok (ev, p, True)
                | None \<Rightarrow> Err (Store_value ''no operation row'')))"

definition set_ingest_status ::
  "evidence \<Rightarrow> string \<Rightarrow> ingest_status \<Rightarrow> string option \<Rightarrow> string option \<Rightarrow> evidence" where
  "set_ingest_status ev pk status snap detail =
     ev\<lparr>ev_operations := map (\<lambda>p. if io_id p = pk
          then p\<lparr>io_status := status, io_snapshot := (if snap = None then io_snapshot p else snap),
                 io_detail := opt_or detail (io_detail p)\<rparr> else p) (ev_operations ev)\<rparr>"

text \<open>What a \<open>NUMERIC\<close> column gives back: no positive exponent, no negative zero, one kind of NaN.
  Numbers beyond its limits (131072 digits) are not modelled.\<close>

fun numeric_column :: "decimal \<Rightarrow> decimal" where
  "numeric_column (Fin s c e) = Fin (s \<and> c \<noteq> 0) (c * 10 ^ nat e) (min e 0)"
| "numeric_column (Infinite s) = Infinite s"
| "numeric_column (NaN signalling) = NaN False"

definition stored_fact :: "fact_row \<Rightarrow> fact_row" where
  "stored_fact f = f\<lparr>fa_fact := (fa_fact f)\<lparr>tf_value :=
     (case tf_value (fa_fact f) of Raw_decimal d \<Rightarrow> Raw_decimal (numeric_column d) | v \<Rightarrow> v)\<rparr>\<rparr>"

definition insert_fact :: "evidence \<Rightarrow> fact_row \<Rightarrow> (store_error, evidence) result" where
  "insert_fact ev f =
     (if fa_snapshot f = '''' then Err (Store_value ''CandidateFactRevision requires a source_snapshot_id (NOT NULL).'')
      else if \<not> fact_row_ok (fa_fact (stored_fact f)) then Err (Store_sql Check_violation)
      else if fa_id f \<in> fa_id ` set (ev_facts ev) then Err (Store_sql Unique_violation)
      else if \<not> list_ex (\<lambda>s. sn_id s = fa_snapshot f \<and> sn_project s = fa_project f) (ev_snapshots ev)
      then Err (Store_sql Foreign_key_violation)
      else Ok (ev\<lparr>ev_facts := ev_facts ev @ [stored_fact f]\<rparr>))"

definition retention_target_ok :: "evidence \<Rightarrow> retention_event \<Rightarrow> bool" where
  "retention_target_ok ev r \<longleftrightarrow>
     (\<forall>b \<in> set_option (re_blob r). list_ex (\<lambda>x. bl_id x = b \<and> bl_project x = re_project r) (ev_blobs ev)) \<and>
     (\<forall>s \<in> set_option (re_snapshot r). list_ex (\<lambda>x. sn_id x = s \<and> sn_project x = re_project r) (ev_snapshots ev)) \<and>
     (\<forall>f \<in> set_option (re_fact r). list_ex (\<lambda>x. fa_id x = f \<and> fa_project x = re_project r) (ev_facts ev))"

definition insert_retention_event :: "evidence \<Rightarrow> retention_event \<Rightarrow> (store_error, evidence) result" where
  "insert_retention_event ev r =
     (if length (filter (\<lambda>t. t \<noteq> None) [re_blob r, re_snapshot r, re_fact r]) \<noteq> 1 then Err (Store_sql Check_violation)
      else if re_project r \<notin> set (ev_projects ev) \<or> \<not> retention_target_ok ev r
      then Err (Store_sql Foreign_key_violation)
      else Ok (ev\<lparr>ev_events := ev_events ev @ [r]\<rparr>))"

subsection \<open>Availability\<close>

definition blocking :: "retention_event \<Rightarrow> bool" where
  "blocking r \<longleftrightarrow> re_type r \<in> {Tombstone, Redact}"

definition snapshot_blocked_by :: "snapshot \<Rightarrow> retention_event \<Rightarrow> bool" where
  "snapshot_blocked_by s r \<longleftrightarrow> blocking r \<and> (re_snapshot r = Some (sn_id s) \<or> re_blob r = Some (sn_blob s))"

definition snapshot_available :: "evidence \<Rightarrow> string \<Rightarrow> bool" where
  "snapshot_available ev i \<longleftrightarrow>
     \<not> list_ex (\<lambda>s. sn_id s = i \<and> list_ex (snapshot_blocked_by s) (ev_events ev)) (ev_snapshots ev)"

definition fact_available :: "evidence \<Rightarrow> string \<Rightarrow> bool" where
  "fact_available ev i \<longleftrightarrow>
     \<not> list_ex (\<lambda>f. fa_id f = i \<and>
          list_ex (\<lambda>s. sn_id s = fa_snapshot f \<and>
            list_ex (\<lambda>r. snapshot_blocked_by s r \<or> (blocking r \<and> re_fact r = Some i)) (ev_events ev)) (ev_snapshots ev))
        (ev_facts ev)"

subsection \<open>Capture of an upload\<close>

text \<open>What the environment decides: the feature flag, whether a statement of the savepoint block is
  refused by the database, and the text of an exception.\<close>

record capture_env =
  ce_enabled :: bool
  ce_trouble :: "store_error option"
  ce_text :: "store_error \<Rightarrow> string"

datatype capture_outcome = Capture_none | Captured string | Capture_error string

definition stable_operation_id :: "string \<Rightarrow> string \<Rightarrow> string" where
  "stable_operation_id project ref = ''upload:'' @ sha256_hex (project @ '':'' @ ref)"

record upload =
  up_project :: string
  up_content :: string
  up_storage_ref :: string
  up_kind :: string
  up_locator :: string
  up_operation :: "string option"

definition operation_of :: "upload \<Rightarrow> string" where
  "operation_of u = py_or (opt_or (up_operation u) '''') (stable_operation_id (up_project u) (up_storage_ref u))"

text \<open>The block between \<open>SAVEPOINT\<close> and \<open>RELEASE SAVEPOINT\<close>, with the ids of the blob and the
  snapshot.\<close>

definition capture_block ::
  "capture_env \<Rightarrow> evidence \<Rightarrow> upload \<Rightarrow> ingest_operation \<Rightarrow> string \<Rightarrow> string \<Rightarrow> (store_error, evidence) result" where
  "capture_block env ev u operation bid sid =
     (case ce_trouble env of
        Some e \<Rightarrow> Err e
      | None \<Rightarrow>
          bind_result (insert_or_get_blob ev \<lparr>bl_id = bid, bl_project = up_project u, bl_algorithm = ''sha256'',
              bl_hash = sha256_hex (up_content u), bl_size = length (up_content u)\<rparr>) (\<lambda>(ev1, blob_id).
          map_result (\<lambda>ev2. set_ingest_status ev2 (io_id operation) Ingest_committed (Some sid) None)
            (insert_snapshot ev1 \<lparr>sn_id = sid, sn_blob = blob_id, sn_project = up_project u,
              sn_storage_ref = up_storage_ref u, sn_kind = up_kind u, sn_locator = up_locator u,
              sn_operation = operation_of u\<rparr>)))"

definition capture_upload ::
  "capture_env \<Rightarrow> evidence \<Rightarrow> upload \<Rightarrow> string \<Rightarrow> string \<Rightarrow> string \<Rightarrow> evidence \<times> capture_outcome" where
  "capture_upload env ev u oid bid sid =
     (if \<not> ce_enabled env then (ev, Capture_none)
      else
        let capturable = (up_content u \<noteq> '''' \<and> up_storage_ref u \<noteq> '''')
        in case create_or_get_ingest_operation ev oid (up_project u) (operation_of u)
                  (if capturable then '''' else ''missing raw bytes or stable storage_ref'') of
             Inl e \<Rightarrow> (ev, Capture_error (ce_text env e))
           | Inr (ev1, operation, existed) \<Rightarrow>
               if existed \<and> io_status operation = Ingest_committed \<and> opt_or (io_snapshot operation) '''' \<noteq> ''''
               then (ev1, Captured (opt_or (io_snapshot operation) ''''))
               else if \<not> capturable
               then (set_ingest_status ev1 (io_id operation) Ingest_skipped None None, Capture_none)
               else case capture_block env ev1 u operation bid sid of
                      Inl e \<Rightarrow> (set_ingest_status ev1 (io_id operation) Ingest_failed None (Some (take 500 (ce_text env e))),
                               Capture_error (ce_text env e))
                    | Inr ev2 \<Rightarrow> (ev2, Captured sid))"

text \<open>\<open>assert_safe_to_delete_storage_ref\<close>; \<open>readable\<close> tells whether the linkage can be read.\<close>

definition safe_to_delete :: "bool \<Rightarrow> bool \<Rightarrow> evidence \<Rightarrow> string \<Rightarrow> bool" where
  "safe_to_delete enabled readable ev ref \<longleftrightarrow>
     \<not> enabled \<or> readable \<and> find_snapshots_by_storage_ref ev ref = []"

subsection \<open>The fact service\<close>

text \<open>The attributes of the connection and the live isolation level.\<close>

record connection_state =
  cn_autocommit :: bool
  cn_isolation :: "string option"
  cn_live :: string

datatype service_error =
    Service_disabled
  | Service_transaction string
  | Snapshot_not_found string
  | Snapshot_unavailable string
  | Service_fact fact_error
  | Service_store store_error

definition require_read_committed :: "connection_state \<Rightarrow> (service_error, unit) result" where
  "require_read_committed cn =
     (if cn_autocommit cn
      then Err (Service_transaction ''candidate-fact writes require a non-autocommit connection'')
      else case cn_isolation cn of
             None \<Rightarrow> Err (Service_transaction ''candidate-fact writes require an explicitly pinned READ COMMITTED isolation level (isolation_level=None delegates to the server default and does not prove READ COMMITTED)'')
           | Some level \<Rightarrow>
               if py_upper level \<noteq> ''READ_COMMITTED''
               then Err (Service_transaction (''candidate-fact writes require READ COMMITTED isolation (got '' @ py_upper level @ '')''))
               else Ok ())"

definition create_candidate_fact_revision ::
  "bool \<Rightarrow> connection_state \<Rightarrow> evidence \<Rightarrow> string \<Rightarrow> string \<Rightarrow> typed_fact \<Rightarrow> string \<Rightarrow>
   (service_error, evidence) result" where
  "create_candidate_fact_revision enabled cn ev project sid candidate i =
     (if \<not> enabled then Err Service_disabled
      else bind_result (require_read_committed cn) (\<lambda>_.
        if sid = '''' then Err (Snapshot_not_found ''candidate fact requires an existing source_snapshot_id'')
        else case canonicalize candidate of
               Inl e \<Rightarrow> Err (Service_fact e)
             | Inr canonical \<Rightarrow>
                 let level = py_lower (py_strip (cn_live cn))
                 in if level \<noteq> ''read committed''
                    then Err (Service_transaction (''candidate-fact writes require a live READ COMMITTED transaction (got '' @ py_repr level @ '')''))
                    else if \<not> list_ex (\<lambda>s. sn_id s = sid \<and> sn_project s = project) (ev_snapshots ev)
                    then Err (Snapshot_not_found ''source snapshot does not exist for this project'')
                    else if \<not> snapshot_available ev sid
                    then Err (Snapshot_unavailable ''source snapshot is tombstoned or redacted'')
                    else case insert_fact ev \<lparr>fa_id = i, fa_project = project, fa_snapshot = sid, fa_fact = canonical\<rparr> of
                           Inl e \<Rightarrow> Err (Service_store e)
                         | Inr ev' \<Rightarrow> Ok ev'))"

subsection \<open>What the store keeps\<close>

text \<open>The keys and references of the tables; an operation names a snapshot of its project as soon as
  it is committed, and the facts satisfy the checks of their table.\<close>

definition operation_settled :: "evidence \<Rightarrow> ingest_operation \<Rightarrow> bool" where
  "operation_settled ev p \<longleftrightarrow> (io_status p = Ingest_committed \<longrightarrow>
     (\<exists>x \<in> set (ev_snapshots ev). io_snapshot p = Some (sn_id x) \<and> sn_id x \<noteq> '''' \<and> sn_project x = io_project p))"

definition evidence_wf :: "evidence \<Rightarrow> bool" where
  "evidence_wf ev \<longleftrightarrow>
     table_ok bl_id (\<lambda>_. True) blob_key (ev_blobs ev) \<and>
     distinct (map sn_id (ev_snapshots ev)) \<and>
     table_ok io_id (\<lambda>_. True) operation_key (ev_operations ev) \<and>
     distinct (map fa_id (ev_facts ev)) \<and>
     (\<forall>x \<in> set (ev_snapshots ev). sn_storage_ref x \<noteq> '''' \<and>
        (\<exists>b \<in> set (ev_blobs ev). bl_id b = sn_blob x \<and> bl_project b = sn_project x)) \<and>
     (\<forall>f \<in> set (ev_facts ev). fact_row_ok (fa_fact f) \<and>
        (\<exists>x \<in> set (ev_snapshots ev). sn_id x = fa_snapshot f \<and> sn_project x = fa_project f)) \<and>
     list_all (operation_settled ev) (ev_operations ev)"

text \<open>Rows are only ever appended, and a committed operation stays as it is.\<close>

definition evidence_grows :: "evidence \<Rightarrow> evidence \<Rightarrow> bool" where
  "evidence_grows ev ev' \<longleftrightarrow>
     set (ev_projects ev) \<subseteq> set (ev_projects ev') \<and> prefix (ev_blobs ev) (ev_blobs ev') \<and>
     prefix (ev_snapshots ev) (ev_snapshots ev') \<and> prefix (ev_facts ev) (ev_facts ev') \<and>
     prefix (ev_events ev) (ev_events ev') \<and>
     {p \<in> set (ev_operations ev). io_status p = Ingest_committed} \<subseteq> set (ev_operations ev')"

lemma grows_refl [simp]: "evidence_grows ev ev"
  by (simp add: evidence_grows_def)

lemma grows_trans: "evidence_grows a b \<Longrightarrow> evidence_grows b c \<Longrightarrow> evidence_grows a c"
  unfolding evidence_grows_def by (blast intro: prefix_order.trans)

lemma sql_ok_Ok [simp]: "sql_ok r = Ok x \<longleftrightarrow> r = Ok x"
  by (cases r) (simp_all add: sql_ok_def)

lemma settled_mono:
  "operation_settled ev p \<Longrightarrow> set (ev_snapshots ev) \<subseteq> set (ev_snapshots ev') \<Longrightarrow> operation_settled ev' p"
  unfolding operation_settled_def by blast

lemma insert_blob_cases:
  assumes "insert_or_get_blob ev b = Ok (ev', i)"
  obtains t where "ev' = ev\<lparr>ev_blobs := t\<rparr>" "prefix (ev_blobs ev) t"
    "\<exists>x \<in> set t. bl_id x = i \<and> blob_key x = blob_key b \<and> (x = b \<or> x \<in> set (ev_blobs ev))"
    "table_ok bl_id (\<lambda>_. True) blob_key (ev_blobs ev) \<Longrightarrow> table_ok bl_id (\<lambda>_. True) blob_key t"
proof -
  obtain t inserted where row: "insert_row bl_id (\<lambda>_. True) blob_key b (ev_blobs ev) = Ok (t, inserted)"
    and rest: "(if inserted then if bl_project b \<in> set (ev_projects ev) then Ok (ev\<lparr>ev_blobs := t\<rparr>, bl_id b)
                else Err (Store_sql Foreign_key_violation)
              else case find (\<lambda>x. blob_key x = blob_key b) (ev_blobs ev) of
                Some x \<Rightarrow> Ok (ev, bl_id x) | None \<Rightarrow> Err (Store_value ''no blob row'')) = Ok (ev', i)"
    using assms unfolding insert_or_get_blob_def bind_result_eq_Ok by (auto split: prod.splits)
  note ok = insert_row_ok [OF row]
  show thesis
  proof (cases inserted)
    case True
    with rest have "ev' = ev\<lparr>ev_blobs := t\<rparr>" "i = bl_id b" by (auto split: if_splits)
    moreover have "t = ev_blobs ev @ [b]" using row True by (auto simp: insert_row_def split: if_splits)
    ultimately show thesis using that [of t] ok by auto
  next
    case False
    with rest obtain x where x: "find (\<lambda>x. blob_key x = blob_key b) (ev_blobs ev) = Some x" "ev' = ev" "i = bl_id x"
      by (auto split: option.splits)
    then have "x \<in> set (ev_blobs ev)" "blob_key x = blob_key b" by (auto simp: find_Some_iff)
    then show thesis using x that [of "ev_blobs ev"] by auto
  qed
qed

lemma insert_snapshot_cases:
  "insert_snapshot ev x = Ok ev' \<Longrightarrow> sn_storage_ref x \<noteq> '''' \<and> sn_id x \<notin> sn_id ` set (ev_snapshots ev) \<and>
     (\<exists>b \<in> set (ev_blobs ev). bl_id b = sn_blob x \<and> bl_project b = sn_project x) \<and>
     ev' = ev\<lparr>ev_snapshots := ev_snapshots ev @ [x]\<rparr>"
  by (simp add: insert_snapshot_def list_ex_iff split: if_splits)

lemma stored_fact_keys [simp]:
  "fa_id (stored_fact f) = fa_id f" "fa_project (stored_fact f) = fa_project f"
  "fa_snapshot (stored_fact f) = fa_snapshot f" "tf_type (fa_fact (stored_fact f)) = tf_type (fa_fact f)"
  by (simp_all add: stored_fact_def)

lemma numeric_column_val [simp]: "dval (numeric_column d) = dval d"
proof (cases d)
  case (Fin s c e)
  have "(10 :: real) ^ nat e * 10 powi (min e 0) = 10 powi e"
    by (cases "0 \<le> e") (simp_all add: power_int_def)
  with Fin show ?thesis by simp
qed simp_all

lemma numeric_column_idem [simp]: "numeric_column (numeric_column d) = numeric_column d"
  by (cases d) simp_all

lemma whole_column: "whole_numeric d \<Longrightarrow> whole_numeric (numeric_column d)"
proof (cases d)
  case (Fin s c e)
  assume "whole_numeric d"
  with Fin show ?thesis by (cases "0 \<le> e") simp_all
qed simp_all

lemma stored_fact_ok: "fact_row_ok (fa_fact f) \<Longrightarrow> fact_row_ok (fa_fact (stored_fact f))"
  using whole_column by (auto simp: stored_fact_def fact_row_ok_def split: raw_value.splits)

lemma insert_fact_cases:
  "insert_fact ev f = Ok ev' \<Longrightarrow> fact_row_ok (fa_fact (stored_fact f)) \<and> fa_id f \<notin> fa_id ` set (ev_facts ev) \<and>
     (\<exists>x \<in> set (ev_snapshots ev). sn_id x = fa_snapshot f \<and> sn_project x = fa_project f) \<and>
     ev' = ev\<lparr>ev_facts := ev_facts ev @ [stored_fact f]\<rparr>"
  by (simp add: insert_fact_def list_ex_iff split: if_splits)

lemma insert_retention_cases:
  "insert_retention_event ev r = Ok ev' \<Longrightarrow> ev' = ev\<lparr>ev_events := ev_events ev @ [r]\<rparr>"
  by (simp add: insert_retention_event_def split: if_splits)

text \<open>The updates of an operation by its id.\<close>

lemma status_update_key:
  "table_ok io_id (\<lambda>_. True) operation_key (ev_operations (set_ingest_status ev pk st sn d)) =
   table_ok io_id (\<lambda>_. True) operation_key (ev_operations ev)"
proof -
  have "map io_id (ev_operations (set_ingest_status ev pk st sn d)) = map io_id (ev_operations ev)"
    "map operation_key (ev_operations (set_ingest_status ev pk st sn d)) = map operation_key (ev_operations ev)"
    by (simp_all add: set_ingest_status_def operation_key_def)
  then show ?thesis by (simp add: table_ok_def index_ok_def)
qed

lemma status_update_other [simp]:
  "ev_projects (set_ingest_status ev pk st sn d) = ev_projects ev"
  "ev_blobs (set_ingest_status ev pk st sn d) = ev_blobs ev"
  "ev_snapshots (set_ingest_status ev pk st sn d) = ev_snapshots ev"
  "ev_facts (set_ingest_status ev pk st sn d) = ev_facts ev"
  "ev_events (set_ingest_status ev pk st sn d) = ev_events ev"
  by (simp_all add: set_ingest_status_def)

lemma status_update_wf:
  assumes "evidence_wf ev"
    and "\<And>p. p \<in> set (ev_operations ev) \<Longrightarrow> io_id p = pk \<Longrightarrow> st = Ingest_committed \<Longrightarrow>
      \<exists>x \<in> set (ev_snapshots ev). sn = Some (sn_id x) \<and> sn_id x \<noteq> '''' \<and> sn_project x = io_project p"
  shows "evidence_wf (set_ingest_status ev pk st sn d)"
proof -
  have settled: "operation_settled ev p" if "p \<in> set (ev_operations ev)" for p
    using assms(1) that by (simp add: evidence_wf_def list_all_iff)
  have "operation_settled (set_ingest_status ev pk st sn d) p"
    if "p \<in> set (ev_operations (set_ingest_status ev pk st sn d))" for p
  proof -
    obtain q where q: "q \<in> set (ev_operations ev)"
      "p = (if io_id q = pk then q\<lparr>io_status := st, io_snapshot := (if sn = None then io_snapshot q else sn),
         io_detail := opt_or d (io_detail q)\<rparr> else q)"
      using \<open>p \<in> _\<close> by (auto simp: set_ingest_status_def)
    show ?thesis
    proof (cases "io_id q = pk")
      case True
      with q assms(2) [OF q(1)] show ?thesis by (auto simp: operation_settled_def)
    next
      case False
      with q settled [OF q(1)] show ?thesis by (simp add: operation_settled_def)
    qed
  qed
  with assms(1) show ?thesis
    unfolding evidence_wf_def status_update_key status_update_other list_all_iff by blast
qed

lemma get_operation_Some:
  "get_ingest_operation ev project op = Some p \<Longrightarrow> p \<in> set (ev_operations ev) \<and> operation_key p = (project, op)"
  by (auto simp: get_ingest_operation_def find_Some_iff operation_key_def)

lemma get_operation_unique:
  assumes "evidence_wf ev" "p \<in> set (ev_operations ev)"
  shows "get_ingest_operation ev (io_project p) (io_operation p) = Some p"
proof -
  obtain q where q: "get_ingest_operation ev (io_project p) (io_operation p) = Some q"
    using assms(2) unfolding get_ingest_operation_def
    by (cases "find (\<lambda>x. io_project x = io_project p \<and> io_operation x = io_operation p) (ev_operations ev)")
      (auto simp: find_None_iff)
  from get_operation_Some [OF this] assms have "q = p"
    using index_ok_unique [of "\<lambda>_. True" operation_key "ev_operations ev" io_id q p]
    by (simp add: evidence_wf_def table_ok_def operation_key_def)
  with q show ?thesis by simp
qed

lemma create_operation_cases:
  assumes "create_or_get_ingest_operation ev i project op detail = Ok (ev1, p, existed)"
  shows "existed \<Longrightarrow> ev1 = ev \<and> get_ingest_operation ev project op = Some p"
    and "\<not> existed \<Longrightarrow> ev1 = ev\<lparr>ev_operations := ev_operations ev @ [p]\<rparr> \<and> io_status p = Ingest_pending \<and>
      operation_key p = (project, op) \<and> insert_row io_id (\<lambda>_. True) operation_key p (ev_operations ev) = Ok (ev_operations ev1, True)"
    and "io_project p = project" "p \<in> set (ev_operations ev1)"
proof -
  obtain t inserted row where ins: "insert_row io_id (\<lambda>_. True) operation_key row (ev_operations ev) = Ok (t, inserted)"
    and row: "row = \<lparr>io_id = i, io_project = project, io_operation = op, io_status = Ingest_pending,
            io_snapshot = None, io_detail = detail\<rparr>"
    and rest: "(if inserted then if project \<in> set (ev_projects ev) then Ok (ev\<lparr>ev_operations := t\<rparr>, row, False)
          else Err (Store_sql Foreign_key_violation)
        else case get_ingest_operation ev project op of Some q \<Rightarrow> Ok (ev, q, True)
          | None \<Rightarrow> Err (Store_value ''no operation row'')) = Ok (ev1, p, existed)"
    using assms unfolding create_or_get_ingest_operation_def Let_def bind_result_eq_Ok by (auto split: prod.splits)
  have tail: "inserted \<Longrightarrow> t = ev_operations ev @ [row]" using ins by (auto simp: insert_row_def split: if_splits)
  show old: "existed \<Longrightarrow> ev1 = ev \<and> get_ingest_operation ev project op = Some p"
    using rest by (auto split: if_splits option.splits)
  show new: "\<not> existed \<Longrightarrow> ev1 = ev\<lparr>ev_operations := ev_operations ev @ [p]\<rparr> \<and> io_status p = Ingest_pending \<and>
      operation_key p = (project, op) \<and> insert_row io_id (\<lambda>_. True) operation_key p (ev_operations ev) = Ok (ev_operations ev1, True)"
    using rest row ins tail by (auto simp: operation_key_def split: if_splits option.splits)
  show "io_project p = project" "p \<in> set (ev_operations ev1)"
    using old new get_operation_Some [of ev project op p] by (cases existed; simp add: operation_key_def)+
qed

lemma settled_same: "ev_snapshots ev' = ev_snapshots ev \<Longrightarrow> operation_settled ev' = operation_settled ev"
  by (simp add: fun_eq_iff operation_settled_def)

lemma operation_append_wf:
  assumes "evidence_wf ev" "io_status p \<noteq> Ingest_committed"
    and "insert_row io_id (\<lambda>_. True) operation_key p (ev_operations ev) = Ok (ev_operations ev @ [p], True)"
  shows "evidence_wf (ev\<lparr>ev_operations := ev_operations ev @ [p]\<rparr>)"
proof -
  have "table_ok io_id (\<lambda>_. True) operation_key (ev_operations ev @ [p])"
    using insert_row_ok [OF assms(3)] assms(1) by (simp add: evidence_wf_def)
  moreover have "operation_settled (ev\<lparr>ev_operations := ev_operations ev @ [p]\<rparr>) = operation_settled ev"
    by (rule settled_same) simp
  ultimately show ?thesis using assms(1,2) by (simp add: evidence_wf_def operation_settled_def [of _ p])
qed

lemma blob_append_wf:
  assumes "evidence_wf ev" "prefix (ev_blobs ev) t" "table_ok bl_id (\<lambda>_. True) blob_key t"
  shows "evidence_wf (ev\<lparr>ev_blobs := t\<rparr>)"
proof -
  have "operation_settled (ev\<lparr>ev_blobs := t\<rparr>) = operation_settled ev" by (rule settled_same) simp
  with assms show ?thesis using set_mono_prefix [OF assms(2)] unfolding evidence_wf_def
    by (simp add: list_all_iff) blast
qed

lemma snapshot_append_wf:
  assumes "evidence_wf ev" "insert_snapshot ev x = Ok ev'"
  shows "evidence_wf ev'"
proof -
  note c = insert_snapshot_cases [OF assms(2)]
  have "operation_settled ev' q" if "operation_settled ev q" for q
    using settled_mono [OF that, of ev'] c by auto
  with assms(1) c show ?thesis unfolding evidence_wf_def by (auto simp: list_all_iff)
qed

lemma fact_append_wf:
  assumes "evidence_wf ev" "insert_fact ev f = Ok ev'"
  shows "evidence_wf ev'"
proof -
  note c = insert_fact_cases [OF assms(2)]
  have "operation_settled ev' = operation_settled ev" using c by (intro settled_same) simp
  with assms(1) c show ?thesis unfolding evidence_wf_def by auto
qed

lemma event_append_wf:
  assumes "evidence_wf ev" "insert_retention_event ev r = Ok ev'"
  shows "evidence_wf ev'"
proof -
  note c = insert_retention_cases [OF assms(2)]
  have "operation_settled ev' = operation_settled ev" using c by (intro settled_same) simp
  with assms(1) c show ?thesis unfolding evidence_wf_def by simp
qed

lemma project_append_wf:
  "evidence_wf ev \<Longrightarrow> evidence_wf (ev\<lparr>ev_projects := ps\<rparr>)"
  using settled_same [of "ev\<lparr>ev_projects := ps\<rparr>" ev] by (simp add: evidence_wf_def)

lemma status_update_grows:
  assumes "evidence_wf ev" "p \<in> set (ev_operations ev)" "io_status p \<noteq> Ingest_committed"
  shows "evidence_grows ev (set_ingest_status ev (io_id p) st sn d)"
proof -
  have "q \<in> set (ev_operations (set_ingest_status ev (io_id p) st sn d))"
    if "q \<in> set (ev_operations ev)" "io_status q = Ingest_committed" for q
  proof -
    have "io_id q \<noteq> io_id p"
      using ident_unique [of io_id "ev_operations ev" q p] assms that by (auto simp: evidence_wf_def table_ok_def)
    with that(1) show ?thesis by (force simp: set_ingest_status_def)
  qed
  then show ?thesis by (auto simp: evidence_grows_def)
qed

definition holds_content :: "evidence \<Rightarrow> upload \<Rightarrow> snapshot \<Rightarrow> bool" where
  "holds_content ev u x \<longleftrightarrow> sn_project x = up_project u \<and> sn_storage_ref x = up_storage_ref u \<and>
     (\<exists>b \<in> set (ev_blobs ev). bl_id b = sn_blob x \<and>
        blob_key b = (up_project u, ''sha256'', sha256_hex (up_content u)))"

definition committed_as :: "evidence \<Rightarrow> string \<times> string \<Rightarrow> string \<Rightarrow> bool" where
  "committed_as ev k s \<longleftrightarrow> s \<noteq> '''' \<and> (\<exists>p \<in> set (ev_operations ev). operation_key p = k \<and>
     io_status p = Ingest_committed \<and> io_snapshot p = Some s)"

lemma committed_grows: "committed_as ev k s \<Longrightarrow> evidence_grows ev ev' \<Longrightarrow> committed_as ev' k s"
  unfolding committed_as_def evidence_grows_def by blast

lemma content_grows: "holds_content ev u x \<Longrightarrow> evidence_grows ev ev' \<Longrightarrow> holds_content ev' u x"
  unfolding holds_content_def evidence_grows_def by (meson set_mono_prefix subsetD)

lemma capture_block_ok:
  assumes block: "capture_block env ev u p bid sid = Ok ev'" and wf: "evidence_wf ev" and sid: "sid \<noteq> ''''"
    and p: "p \<in> set (ev_operations ev)" "io_project p = up_project u" "io_status p \<noteq> Ingest_committed"
  shows "evidence_wf ev'" "evidence_grows ev ev'" "committed_as ev' (operation_key p) sid"
    "\<exists>x \<in> set (ev_snapshots ev'). sn_id x = sid \<and> holds_content ev' u x"
proof -
  obtain ev1 blob_id ev2 b x where blob: "insert_or_get_blob ev b = Ok (ev1, blob_id)"
    and snap: "insert_snapshot ev1 x = Ok ev2"
    and ev': "ev' = set_ingest_status ev2 (io_id p) Ingest_committed (Some sid) None"
    and b: "blob_key b = (up_project u, ''sha256'', sha256_hex (up_content u))"
    and x: "sn_id x = sid" "sn_blob x = blob_id" "sn_project x = up_project u" "sn_storage_ref x = up_storage_ref u"
    using block unfolding capture_block_def
    by (auto simp: bind_result_eq_Ok blob_key_def split: option.splits)
  obtain t where t: "ev1 = ev\<lparr>ev_blobs := t\<rparr>" "prefix (ev_blobs ev) t"
    "\<exists>y \<in> set t. bl_id y = blob_id \<and> blob_key y = blob_key b"
    "table_ok bl_id (\<lambda>_. True) blob_key (ev_blobs ev) \<Longrightarrow> table_ok bl_id (\<lambda>_. True) blob_key t"
    using insert_blob_cases [OF blob] by metis
  have wf1: "evidence_wf ev1" unfolding t(1) using wf t(2) by (rule blob_append_wf) (use wf t(4) in \<open>simp add: evidence_wf_def\<close>)
  have wf2: "evidence_wf ev2" using wf1 snap by (rule snapshot_append_wf)
  note c = insert_snapshot_cases [OF snap]
  have p2: "p \<in> set (ev_operations ev2)" using p(1) c t(1) by simp
  have grow2: "evidence_grows ev ev2" using c t(1,2) by (simp add: evidence_grows_def)
  have x2: "x \<in> set (ev_snapshots ev2)" using c by simp
  have unique: "q = p" if "q \<in> set (ev_operations ev2)" "io_id q = io_id p" for q
    using ident_unique [of io_id "ev_operations ev2" q p] wf2 that p2 by (simp add: evidence_wf_def table_ok_def)
  show "evidence_wf ev'" unfolding ev'
  proof (rule status_update_wf [OF wf2])
    fix q assume "q \<in> set (ev_operations ev2)" "io_id q = io_id p"
    then have "q = p" by (rule unique)
    with x x2 sid p(2)
    show "\<exists>y \<in> set (ev_snapshots ev2). Some sid = Some (sn_id y) \<and> sn_id y \<noteq> '''' \<and> sn_project y = io_project q" by auto
  qed
  show "evidence_grows ev ev'"
    using grow2 status_update_grows [OF wf2 p2 p(3)] unfolding ev' by (rule grows_trans)
  have "p\<lparr>io_status := Ingest_committed, io_snapshot := Some sid\<rparr> \<in> set (ev_operations ev')"
    using p2 unfolding ev' set_ingest_status_def by force
  then show "committed_as ev' (operation_key p) sid"
    unfolding committed_as_def using sid by (intro conjI bexI) (auto simp: operation_key_def)
  have "holds_content ev' u x"
    using x b t(3) c t(1) unfolding holds_content_def ev' by auto
  then show "\<exists>x \<in> set (ev_snapshots ev'). sn_id x = sid \<and> holds_content ev' u x"
    using x(1) x2 unfolding ev' by auto
qed

lemma capture_upload_ok:
  assumes run: "capture_upload env ev u oid bid sid = (ev', outcome)" and wf: "evidence_wf ev" and sid: "sid \<noteq> ''''"
  shows "evidence_wf ev' \<and> evidence_grows ev ev' \<and>
    (\<forall>s. outcome = Captured s \<longrightarrow> committed_as ev' (up_project u, operation_of u) s \<and>
       (get_ingest_operation ev (up_project u) (operation_of u) = None \<longrightarrow>
         (\<exists>x \<in> set (ev_snapshots ev'). sn_id x = s \<and> holds_content ev' u x)))"
    (is "?keeps ev' \<and> _")
proof (cases "ce_enabled env")
  case False
  with run wf show ?thesis by (auto simp: capture_upload_def)
next
  case True
  let ?create = "create_or_get_ingest_operation ev oid (up_project u) (operation_of u)
     (if up_content u \<noteq> '''' \<and> up_storage_ref u \<noteq> '''' then '''' else ''missing raw bytes or stable storage_ref'')"
  show ?thesis
  proof (cases ?create)
    case (Inl e)
    with True run wf show ?thesis by (auto simp: capture_upload_def Let_def)
  next
    case (Inr r)
    then obtain ev1 p existed where create: "?create = Ok (ev1, p, existed)" by (metis prod.exhaust)
    note c = create_operation_cases [OF create]
    have wf1: "evidence_wf ev1"
      using wf c(1,2) operation_append_wf [of ev p] by (cases existed) auto
    have grow1: "evidence_grows ev ev1"
      using c(1,2) by (cases existed) (auto simp: evidence_grows_def)
    have key: "operation_key p = (up_project u, operation_of u)"
      using c(1,2) get_operation_Some by (cases existed) blast+
    have committed: "existed \<and> opt_or (io_snapshot p) '''' \<noteq> ''''" if "io_status p = Ingest_committed"
      using that c(2,4) wf1 by (auto simp: evidence_wf_def list_all_iff operation_settled_def)
    have fresh: "\<not> existed" if "get_ingest_operation ev (up_project u) (operation_of u) = None"
      using that c(1) by auto
    note run' = run [unfolded capture_upload_def Let_def create, simplified True sum.case prod.case if_True if_False not_True_eq_False]
    show ?thesis
    proof (cases "io_status p = Ingest_committed")
      case True
      with committed run' have "ev' = ev1" "outcome = Captured (opt_or (io_snapshot p) '''')" by auto
      moreover have "committed_as ev1 (operation_key p) (opt_or (io_snapshot p) '''')"
        using committed [OF True] True c(4) by (cases "io_snapshot p") (auto simp: committed_as_def)
      ultimately show ?thesis using wf1 grow1 key fresh committed [OF True] by auto
    next
      case False
      have set_wf: "evidence_wf (set_ingest_status ev1 (io_id p) st sn d)" if "st \<noteq> Ingest_committed" for st sn d
        using wf1 by (rule status_update_wf) (use that in blast)
      have set_grows: "evidence_grows ev (set_ingest_status ev1 (io_id p) st sn d)" for st sn d
        using grow1 status_update_grows [OF wf1 c(4) False] by (rule grows_trans)
      show ?thesis
      proof (cases "up_content u \<noteq> '''' \<and> up_storage_ref u \<noteq> ''''")
        case no: False
        with False run' have "ev' = set_ingest_status ev1 (io_id p) Ingest_skipped None None" "outcome = Capture_none"
          by auto
        then show ?thesis using set_wf set_grows by simp
      next
        case yes: True
        show ?thesis
        proof (cases "capture_block env ev1 u p bid sid")
          case (Inl e)
          with False yes run' have "ev' = set_ingest_status ev1 (io_id p) Ingest_failed None (Some (take 500 (ce_text env e)))"
            "outcome = Capture_error (ce_text env e)" by auto
          then show ?thesis using set_wf set_grows by simp
        next
          case (Inr ev2)
          with False yes run' have "ev' = ev2" "outcome = Captured sid" by auto
          moreover note capture_block_ok [OF Inr wf1 sid c(4,3) False]
          ultimately show ?thesis using grow1 key grows_trans by auto
        qed
      qed
    qed
  qed
qed

subsection \<open>Histories\<close>

text \<open>One committed transaction on the tables; a new snapshot id is never empty.\<close>

inductive evidence_step :: "evidence \<Rightarrow> evidence \<Rightarrow> bool" where
  new_project: "evidence_step ev (ev\<lparr>ev_projects := ev_projects ev @ [p]\<rparr>)"
| capture: "sid \<noteq> '''' \<Longrightarrow> capture_upload env ev u oid bid sid = (ev', outcome) \<Longrightarrow> evidence_step ev ev'"
| new_fact: "insert_fact ev f = Ok ev' \<Longrightarrow> evidence_step ev ev'"
| retention: "insert_retention_event ev r = Ok ev' \<Longrightarrow> evidence_step ev ev'"

inductive_simps evidence_step_iff: "evidence_step ev ev'"

lemma evidence_step_keeps: "evidence_step ev ev' \<Longrightarrow> evidence_wf ev \<Longrightarrow> evidence_wf ev' \<and> evidence_grows ev ev'"
proof (induction rule: evidence_step.induct)
  case (new_project ev p)
  then show ?case using project_append_wf by (auto simp: evidence_grows_def)
next
  case (capture sid env ev u oid bid ev' outcome)
  then show ?case using capture_upload_ok by blast
next
  case (new_fact ev f ev')
  then show ?case using fact_append_wf insert_fact_cases by (fastforce simp: evidence_grows_def)
next
  case (retention ev r ev')
  then show ?case using event_append_wf insert_retention_cases by (fastforce simp: evidence_grows_def)
qed

lemma evidence_steps_keep:
  "evidence_step\<^sup>*\<^sup>* ev ev' \<Longrightarrow> evidence_wf ev \<Longrightarrow> evidence_wf ev' \<and> evidence_grows ev ev'"
proof (induction rule: rtranclp_induct)
  case (step y z)
  then show ?case using evidence_step_keeps grows_trans by blast
qed simp

text \<open>The fact service is a step of the store.\<close>

lemma create_candidate_cases:
  assumes "create_candidate_fact_revision enabled cn ev project sid f i = Ok ev'"
  obtains canonical where "enabled" "canonicalize f = Ok canonical" "snapshot_available ev sid"
    "insert_fact ev \<lparr>fa_id = i, fa_project = project, fa_snapshot = sid, fa_fact = canonical\<rparr> = Ok ev'"
  using assms unfolding create_candidate_fact_revision_def
  by (auto simp: bind_result_eq_Ok Let_def split: if_splits sum.splits)

text \<open>What has become unavailable stays so.\<close>

lemma snapshot_unavailable_grows:
  assumes "evidence_grows ev ev'" "\<not> snapshot_available ev i"
  shows "\<not> snapshot_available ev' i"
proof -
  have "prefix (ev_snapshots ev) (ev_snapshots ev')" "set (ev_events ev) \<subseteq> set (ev_events ev')"
    using assms(1) by (auto simp: evidence_grows_def set_mono_prefix)
  with assms(2) show ?thesis
    unfolding snapshot_available_def not_not list_ex_iff by (meson set_mono_prefix subsetD)
qed

lemma fact_unavailable_grows:
  assumes "evidence_grows ev ev'" "\<not> fact_available ev i"
  shows "\<not> fact_available ev' i"
proof -
  have "set (ev_snapshots ev) \<subseteq> set (ev_snapshots ev')" "set (ev_events ev) \<subseteq> set (ev_events ev')"
    "set (ev_facts ev) \<subseteq> set (ev_facts ev')"
    using assms(1) by (auto simp: evidence_grows_def set_mono_prefix)
  with assms(2) show ?thesis
    unfolding fact_available_def not_not list_ex_iff by (meson subsetD)
qed

text \<open>A retried upload finds its committed operation.\<close>

lemma capture_retry:
  assumes "evidence_wf ev" "committed_as ev (up_project u, operation_of u) s" "ce_enabled env"
  shows "capture_upload env ev u oid bid sid = (ev, Captured s)"
proof -
  obtain p where p: "p \<in> set (ev_operations ev)" "operation_key p = (up_project u, operation_of u)"
    "io_status p = Ingest_committed" "io_snapshot p = Some s" "s \<noteq> ''''"
    using assms(2) by (auto simp: committed_as_def)
  then have "get_ingest_operation ev (up_project u) (operation_of u) = Some p"
    using get_operation_unique [OF assms(1) p(1)] by (simp add: operation_key_def)
  moreover have "insert_row io_id (\<lambda>_. True) operation_key row (ev_operations ev) = Ok (ev_operations ev, False)"
    if "operation_key row = (up_project u, operation_of u)" for row
    using p(1,2) that by (auto simp: insert_row_def list_ex_iff)
  ultimately have "create_or_get_ingest_operation ev oid (up_project u) (operation_of u) d = Ok (ev, p, True)" for d
    unfolding create_or_get_ingest_operation_def Let_def by (simp add: operation_key_def sql_ok_def)
  with p assms(3) show ?thesis by (simp add: capture_upload_def)
qed

lemma committed_snapshot:
  assumes "evidence_wf ev" "committed_as ev (project, op) s"
  shows "list_ex (\<lambda>x. sn_id x = s \<and> sn_project x = project) (ev_snapshots ev)"
proof -
  obtain p where p: "p \<in> set (ev_operations ev)" "operation_key p = (project, op)"
    "io_status p = Ingest_committed" "io_snapshot p = Some s"
    using assms(2) by (auto simp: committed_as_def)
  then have "operation_settled ev p" using assms(1) by (simp add: evidence_wf_def list_all_iff)
  with p show ?thesis by (auto simp: operation_settled_def operation_key_def list_ex_iff)
qed

text \<open>C18: captured evidence is kept. After an upload has been captured as a snapshot, in every later
  state of the store (further uploads, facts and retention events, refused statements included) a
  retry of the same upload returns the same snapshot and changes nothing, and its snapshot is
  there; if the upload had not been seen before, that snapshot carries the storage reference of
  the upload and the hash of its content, and the deletion of that storage stays refused.\<close>

theorem captured_evidence_kept:
  assumes "evidence_wf ev" "sid \<noteq> ''''" "capture_upload env ev u oid bid sid = (ev1, Captured s)"
    and "evidence_step\<^sup>*\<^sup>* ev1 ev2" "ce_enabled env'"
  shows "capture_upload env' ev2 u oid' bid' sid' = (ev2, Captured s) \<and>
    list_ex (\<lambda>x. sn_id x = s \<and> sn_project x = up_project u) (ev_snapshots ev2) \<and>
    (get_ingest_operation ev (up_project u) (operation_of u) = None \<longrightarrow>
      list_ex (\<lambda>x. sn_id x = s \<and> holds_content ev2 u x) (ev_snapshots ev2) \<and>
      \<not> safe_to_delete True readable ev2 (up_storage_ref u))"
proof (intro conjI impI)
  note first = capture_upload_ok [OF assms(3,1,2)]
  then have later: "evidence_wf ev2" "evidence_grows ev1 ev2" using evidence_steps_keep [OF assms(4)] by auto
  have committed: "committed_as ev2 (up_project u, operation_of u) s" using first later(2) committed_grows by blast
  with later(1) show "capture_upload env' ev2 u oid' bid' sid' = (ev2, Captured s)" using assms(5) by (rule capture_retry)
  show "list_ex (\<lambda>x. sn_id x = s \<and> sn_project x = up_project u) (ev_snapshots ev2)"
    using later(1) committed by (rule committed_snapshot)
  assume "get_ingest_operation ev (up_project u) (operation_of u) = None"
  then obtain x where x: "x \<in> set (ev_snapshots ev1)" "sn_id x = s" "holds_content ev1 u x" using first by blast
  have x2: "x \<in> set (ev_snapshots ev2)" "holds_content ev2 u x"
    using x later(2) content_grows by (auto simp: evidence_grows_def dest: set_mono_prefix)
  then show "list_ex (\<lambda>x. sn_id x = s \<and> holds_content ev2 u x) (ev_snapshots ev2)"
    using x(2) by (auto simp: list_ex_iff)
  from x2 have "find_snapshots_by_storage_ref ev2 (up_storage_ref u) \<noteq> []"
    by (auto simp: find_snapshots_by_storage_ref_def filter_empty_conv holds_content_def)
  then show "\<not> safe_to_delete True readable ev2 (up_storage_ref u)" by (simp add: safe_to_delete_def)
qed

definition sample_upload :: upload where
  "sample_upload = \<lparr>up_project = ''p'', up_content = ''abc'', up_storage_ref = ''r'', up_kind = ''uploaded_file'',
     up_locator = '''', up_operation = None\<rparr>"

definition sample_store :: evidence where
  "sample_store = \<lparr>ev_projects = [''p''], ev_blobs = [], ev_snapshots = [], ev_operations = [], ev_facts = [], ev_events = []\<rparr>"

definition sample_env :: capture_env where
  "sample_env = \<lparr>ce_enabled = True, ce_trouble = None, ce_text = (\<lambda>_. '''')\<rparr>"

theorem captured_evidence_kept_witness:
  "capture_upload sample_env (fst (capture_upload sample_env sample_store sample_upload ''o'' ''b'' ''s'')) sample_upload
     ''o2'' ''b2'' ''s2'' = (fst (capture_upload sample_env sample_store sample_upload ''o'' ''b'' ''s''), Captured ''s'') \<and>
   \<not> safe_to_delete True True (fst (capture_upload sample_env sample_store sample_upload ''o'' ''b'' ''s'')) ''r''"
proof -
  have wf: "evidence_wf sample_store" by (simp add: evidence_wf_def sample_store_def)
  let ?ev = "fst (capture_upload sample_env sample_store sample_upload ''o'' ''b'' ''s'')"
  have run: "capture_upload sample_env sample_store sample_upload ''o'' ''b'' ''s'' = (?ev, Captured ''s'')"
    by (simp add: capture_upload_def capture_block_def create_or_get_ingest_operation_def sample_env_def sample_store_def
        sample_upload_def insert_row_def insert_or_get_blob_def insert_snapshot_def sql_ok_def blob_key_def
        set_ingest_status_def Let_def)
  from captured_evidence_kept [OF wf _ run, of ?ev sample_env "''o2''" "''b2''" "''s2''" True]
  show ?thesis by (simp add: sample_env_def sample_store_def get_ingest_operation_def sample_upload_def)
qed

end
