(* ===== verification/RoiLedger.thy ===== *)
theory RoiLedger
  imports Roi Evidence
begin

text \<open>
  The records of the Automation ROI lifecycle (\<open>mas/knowledge/automation_roi/approvals.py\<close>,
  \<open>repository.py\<close> and \<open>service.py\<close>) with the keys, references, checks and triggers of
  \<open>v48_automation_roi_foundation.sql\<close> and \<open>v49_automation_roi_calculation_idempotency.sql\<close>. A
  statement that the database refuses is \<open>Ledger_sql\<close>; the ids it generates are arguments. Actors,
  times and reasons, on which nothing depends, are left out.
\<close>

subsection \<open>State\<close>

record fact_context =
  fc_id :: string
  fc_project :: string
  fc_fact :: string
  fc_subject :: string
  fc_metric :: string
  fc_period :: "string option"
  fc_locator :: string
  fc_range :: "string option"
  fc_rationale :: string

datatype decision_type = Approve | Reject | Withdraw

record decision =
  de_id :: string
  de_project :: string
  de_fact :: string
  de_type :: decision_type
  de_seq :: nat
  de_revokes :: "string option"

record frozen_input =
  fi_id :: string
  fi_project :: string
  fi_role :: string
  fi_fact :: string
  fi_decision :: string
  fi_value :: decimal
  fi_unit :: string
  fi_currency :: "string option"
  fi_period :: "string option"
  fi_time_unit :: "string option"
  fi_as_of :: "int option"

record result_row =
  rr_id :: string
  rr_project :: string
  rr_result :: roi_computation

record result_link =
  rl_project :: string
  rl_result :: string
  rl_input :: string
  rl_role :: string

datatype request_status = Request_pending | Request_committed

record request =
  rq_id :: string
  rq_project :: string
  rq_key :: string
  rq_digest :: string
  rq_status :: request_status
  rq_result :: "string option"

record ledger =
  lg_evidence :: evidence
  lg_contexts :: "fact_context list"
  lg_decisions :: "decision list"
  lg_inputs :: "frozen_input list"
  lg_results :: "result_row list"
  lg_links :: "result_link list"
  lg_requests :: "request list"

text \<open>The exceptions: \<open>ValueError\<close> and its subclasses for a frozen input, a calculation request and a
  malformed input set, the conflict of two requests, a refused statement, a failing store, an
  explicit HTTP answer, and any other exception.\<close>

datatype ledger_error =
    Ledger_value string
  | Ledger_compat string compat_reason
  | Ledger_request string
  | Ledger_conflict string
  | Ledger_sql sql_error
  | Ledger_http nat string
  | Ledger_other string

type_synonym 'a outcome = "(ledger_error, 'a) result"

definition of_store :: "(store_error, 'a) result \<Rightarrow> 'a outcome" where
  "of_store r = (case r of Inr x \<Rightarrow> Ok x | Inl e \<Rightarrow> Err (case e of
     Store_sql s \<Rightarrow> Ledger_sql s | Store_value m \<Rightarrow> Ledger_value m | Store_outage m \<Rightarrow> Ledger_other m))"

definition check :: "bool \<Rightarrow> ledger_error \<Rightarrow> 'a outcome \<Rightarrow> 'a outcome" where
  "check condition e k = (if condition then k else Err e)"

lemma check_Ok [simp]: "check c e k = Ok x \<longleftrightarrow> c \<and> k = Ok x"
  by (simp add: check_def)

lemma of_store_Ok [simp]: "of_store r = Ok x \<longleftrightarrow> r = Ok x"
  by (cases r) (simp_all add: of_store_def)

subsection \<open>Approvals\<close>

definition fact_decisions :: "ledger \<Rightarrow> string \<Rightarrow> string \<Rightarrow> decision list" where
  "fact_decisions l project fact_id = filter (\<lambda>d. de_fact d = fact_id \<and> de_project d = project) (lg_decisions l)"

definition next_decision_seq :: "ledger \<Rightarrow> string \<Rightarrow> string \<Rightarrow> nat" where
  "next_decision_seq l project fact_id = foldr max (map de_seq (fact_decisions l project fact_id)) 0 + 1"

text \<open>The checks, keys and references of \<open>candidate_fact_approval_decision\<close>.\<close>

definition revoke_shape :: "decision \<Rightarrow> bool" where
  "revoke_shape d \<longleftrightarrow> (de_type d = Approve) = (de_revokes d = None)"

definition insert_decision :: "ledger \<Rightarrow> decision \<Rightarrow> ledger outcome" where
  "insert_decision l d =
     check (revoke_shape d \<and> de_seq d \<ge> 1) (Ledger_sql Check_violation)
      (check (\<not> list_ex (\<lambda>x. de_id x = de_id d \<or> (de_fact x = de_fact d \<and> de_seq x = de_seq d) \<or>
            (de_revokes d \<noteq> None \<and> de_revokes x = de_revokes d)) (lg_decisions l)) (Ledger_sql Unique_violation)
        (check (list_ex (\<lambda>f. fa_id f = de_fact d \<and> fa_project f = de_project d) (ev_facts (lg_evidence l)) \<and>
             (de_revokes d = None \<or> list_ex (\<lambda>x. Some (de_id x) = de_revokes d \<and> de_type x = Approve \<and>
               de_fact x = de_fact d \<and> de_project x = de_project d) (lg_decisions l))) (Ledger_sql Foreign_key_violation)
          (Ok (l\<lparr>lg_decisions := lg_decisions l @ [d]\<rparr>))))"

definition decision_name :: "decision_type \<Rightarrow> string" where
  "decision_name t = (case t of Approve \<Rightarrow> ''approve'' | Reject \<Rightarrow> ''reject'' | Withdraw \<Rightarrow> ''withdraw'')"

definition append_decision ::
  "ledger \<Rightarrow> string \<Rightarrow> string \<Rightarrow> decision_type \<Rightarrow> string option \<Rightarrow> string \<Rightarrow> ledger outcome" where
  "append_decision l project fact_id kind revokes i =
     check (\<not> (kind = Approve \<and> revokes \<noteq> None)) (Ledger_value ''approve decisions do not revoke another decision'')
      (check (\<not> (kind \<noteq> Approve \<and> revokes = None))
          (Ledger_value (decision_name kind @ '' must reference the approve decision it revokes''))
        (insert_decision l \<lparr>de_id = i, de_project = project, de_fact = fact_id, de_type = kind,
           de_seq = next_decision_seq l project fact_id, de_revokes = revokes\<rparr>))"

definition revoked :: "ledger \<Rightarrow> string \<Rightarrow> bool" where
  "revoked l decision_id \<longleftrightarrow> list_ex (\<lambda>r. de_revokes r = Some decision_id) (lg_decisions l)"

definition active_approval_id :: "ledger \<Rightarrow> string \<Rightarrow> string \<Rightarrow> string option" where
  "active_approval_id l project fact_id =
     map_option de_id (first_row (\<lambda>d. - int (de_seq d))
       (\<lambda>d. de_fact d = fact_id \<and> de_project d = project \<and> de_type d = Approve \<and> \<not> revoked l (de_id d))
       (lg_decisions l))"

definition effective_status :: "ledger \<Rightarrow> string \<Rightarrow> string \<Rightarrow> string" where
  "effective_status l project fact_id =
     (if active_approval_id l project fact_id \<noteq> None then ''approved''
      else if fact_decisions l project fact_id \<noteq> [] then ''revoked'' else ''none'')"

subsection \<open>Eligible facts and frozen inputs\<close>

definition create_eligible_fact :: "ledger \<Rightarrow> fact_row \<Rightarrow> fact_context \<Rightarrow> ledger outcome" where
  "create_eligible_fact l f ctx =
     bind_result (of_store (insert_fact (lg_evidence l) f)) (\<lambda>ev.
       check (fc_subject ctx \<noteq> '''' \<and> fc_metric ctx \<noteq> '''' \<and> length (fc_rationale ctx) \<le> 2000) (Ledger_sql Check_violation)
        (check (\<not> list_ex (\<lambda>x. fc_id x = fc_id ctx \<or> (fc_fact x = fa_id f \<and> fc_project x = fa_project f)) (lg_contexts l))
            (Ledger_sql Unique_violation)
          (Ok (l\<lparr>lg_evidence := ev,
             lg_contexts := lg_contexts l @ [ctx\<lparr>fc_fact := fa_id f, fc_project := fa_project f\<rparr>]\<rparr>))))"

text \<open>The check \<open>ck_aci_role_typing\<close>: in PostgreSQL a NaN is greater than every number, and a
  comparison with a missing text does not refuse a row.\<close>

fun at_least :: "decimal \<Rightarrow> nat \<Rightarrow> bool" where
  "at_least (NaN s) n \<longleftrightarrow> True"
| "at_least (Infinite s) n \<longleftrightarrow> \<not> s"
| "at_least (Fin s c e) n \<longleftrightarrow> less_decimal (Fin s c e) (dec_of_nat n) = Ok False"

definition role_typing_ok :: "string \<Rightarrow> decimal \<Rightarrow> string \<Rightarrow> string option \<Rightarrow> string option \<Rightarrow> bool" where
  "role_typing_ok role value unit currency time_unit \<longleftrightarrow>
     (if role \<in> set HOURS_ROLES then (time_unit = None \<or> time_unit = Some ''hours'') \<and> at_least value 0
      else if role = ''fully_loaded_rate_per_hour'' then unit = ''per_hour'' \<and> currency \<noteq> None \<and> at_least value 0
      else if role = ''periods_per_year'' then whole_numeric value \<and> at_least value 1
      else if role = ''annual_recurring_cost'' \<or> role = ''one_time_implementation_cost''
      then currency \<noteq> None \<and> at_least value 0
      else False)"

text \<open>The trigger \<open>slicebo_assert_frozen_matches_fact\<close>. Numbers are compared by value.\<close>

definition same_numeric :: "decimal \<Rightarrow> decimal \<Rightarrow> bool" where
  "same_numeric x y \<longleftrightarrow> x = y \<or> eq_decimal x y = Ok True"

definition frozen_matches :: "frozen_input \<Rightarrow> fact_row \<Rightarrow> fact_context \<Rightarrow> bool" where
  "frozen_matches x f ctx \<longleftrightarrow>
     (case tf_value (fa_fact f) of Raw_decimal d \<Rightarrow> same_numeric (fi_value x) d | _ \<Rightarrow> False) \<and>
     fi_unit x = tf_unit (fa_fact f) \<and> fi_currency x = tf_currency (fa_fact f) \<and>
     fi_time_unit x = tf_time_unit (fa_fact f) \<and> fi_as_of x = tf_as_of (fa_fact f) \<and> fi_period x = fc_period ctx"

definition find_fact :: "ledger \<Rightarrow> string \<Rightarrow> string \<Rightarrow> fact_row option" where
  "find_fact l project fact_id = find (\<lambda>f. fa_id f = fact_id \<and> fa_project f = project) (ev_facts (lg_evidence l))"

definition find_context :: "ledger \<Rightarrow> string \<Rightarrow> string \<Rightarrow> fact_context option" where
  "find_context l project fact_id = find (\<lambda>c. fc_fact c = fact_id \<and> fc_project c = project) (lg_contexts l)"

definition insert_frozen_input :: "ledger \<Rightarrow> frozen_input \<Rightarrow> ledger outcome" where
  "insert_frozen_input l row =
     (let x = row\<lparr>fi_value := numeric_column (fi_value row)\<rparr> in
      case find_fact l (fi_project x) (fi_fact x) of
        None \<Rightarrow> Err (Ledger_sql Foreign_key_violation)
      | Some f \<Rightarrow>
          (case find_context l (fi_project x) (fi_fact x) of
             None \<Rightarrow> Err (Ledger_sql Check_violation)
           | Some ctx \<Rightarrow>
               check (frozen_matches x f ctx \<and> fi_role x \<in> set ROLES \<and>
                   role_typing_ok (fi_role x) (fi_value x) (fi_unit x) (fi_currency x) (fi_time_unit x)) (Ledger_sql Check_violation)
                (check (fi_id x \<notin> fi_id ` set (lg_inputs l)) (Ledger_sql Unique_violation)
                  (check (list_ex (\<lambda>d. de_id d = fi_decision x \<and> de_type d = Approve \<and> de_fact d = fi_fact x \<and>
                       de_project d = fi_project x) (lg_decisions l)) (Ledger_sql Foreign_key_violation)
                    (Ok (l\<lparr>lg_inputs := lg_inputs l @ [x]\<rparr>))))))"

definition freeze_input ::
  "ledger \<Rightarrow> string \<Rightarrow> string \<Rightarrow> string \<Rightarrow> string option \<Rightarrow> string \<Rightarrow> ledger outcome" where
  "freeze_input l project fact_id role decision_id i =
     (case active_approval_id l project fact_id of
        None \<Rightarrow> Err (Ledger_value ''fact has no active approval; cannot freeze'')
      | Some active \<Rightarrow>
          check (decision_id = None \<or> decision_id = Some active)
              (Ledger_value ''approval_decision_id is not the fact's active approve'')
           (case find_fact l project fact_id of
              None \<Rightarrow> Err (Ledger_value ''unknown candidate fact for project'')
            | Some f \<Rightarrow>
                (case find_context l project fact_id of
                   None \<Rightarrow> Err (Ledger_value ''fact is not ROI-eligible (no extraction context)'')
                 | Some ctx \<Rightarrow>
                     let t = fa_fact f in
                     (case tf_value t of
                        Raw_decimal d \<Rightarrow>
                          (case input_compatibility_reason role d (Some (tf_unit t)) (tf_currency t) (tf_time_unit t) of
                             Inl e \<Rightarrow> Err (Ledger_other ''decimal exception'')
                           | Inr (Some reason) \<Rightarrow> Err (Ledger_compat role reason)
                           | Inr None \<Rightarrow> insert_frozen_input l
                               \<lparr>fi_id = i, fi_project = project, fi_role = role, fi_fact = fact_id, fi_decision = active,
                                fi_value = d, fi_unit = tf_unit t, fi_currency = tf_currency t, fi_period = fc_period ctx,
                                fi_time_unit = tf_time_unit t, fi_as_of = tf_as_of t\<rparr>)
                      | _ \<Rightarrow> Err (Ledger_other ''conversion from NoneType to Decimal is not supported'')))))"

definition load_frozen_input :: "ledger \<Rightarrow> string \<Rightarrow> string \<Rightarrow> frozen_input outcome" where
  "load_frozen_input l project input_id =
     (case find (\<lambda>x. fi_id x = input_id \<and> fi_project x = project) (lg_inputs l) of
        Some x \<Rightarrow> Ok x
      | None \<Rightarrow> Err (Ledger_value ''unknown approved_calculation_input for project''))"

definition as_resolved_input :: "frozen_input \<Rightarrow> resolved_input" where
  "as_resolved_input x =
     \<lparr>ri_role = fi_role x, ri_value = fi_value x, ri_unit = fi_unit x, ri_currency = fi_currency x,
      ri_period = fi_period x, ri_time_unit = fi_time_unit x, ri_input_id = Some (fi_id x),
      ri_fact_id = Some (fi_fact x), ri_decision_id = Some (fi_decision x)\<rparr>"

definition input_consumable :: "ledger \<Rightarrow> frozen_input \<Rightarrow> bool" where
  "input_consumable l x \<longleftrightarrow> \<not> revoked l (fi_decision x) \<and> fact_available (lg_evidence l) (fi_fact x)"

subsection \<open>Results\<close>

text \<open>The check \<open>ck_cr_value_shape\<close>.\<close>

definition value_shape :: "roi_computation \<Rightarrow> bool" where
  "value_shape c \<longleftrightarrow>
     (case rc_status c of
        Roi_blocked \<Rightarrow> rc_labor_savings c = None \<and> rc_net_benefit c = None \<and> rc_first_year c = None \<and> rc_roi_percent c = None
      | Roi_not_applicable \<Rightarrow> rc_labor_savings c \<noteq> None \<and> rc_net_benefit c \<noteq> None \<and> rc_first_year c \<noteq> None \<and> rc_roi_percent c = None
      | Roi_valid \<Rightarrow> rc_labor_savings c \<noteq> None \<and> rc_net_benefit c \<noteq> None \<and> rc_first_year c \<noteq> None \<and> rc_roi_percent c \<noteq> None)"

definition stored_computation :: "roi_computation \<Rightarrow> roi_computation" where
  "stored_computation c = c\<lparr>rc_labor_savings := map_option numeric_column (rc_labor_savings c),
     rc_net_benefit := map_option numeric_column (rc_net_benefit c),
     rc_first_year := map_option numeric_column (rc_first_year c),
     rc_roi_percent := map_option numeric_column (rc_roi_percent c)\<rparr>"

definition insert_calculation_result :: "ledger \<Rightarrow> string \<Rightarrow> roi_computation \<Rightarrow> string \<Rightarrow> ledger outcome" where
  "insert_calculation_result l project computation i =
     check (value_shape (stored_computation computation)) (Ledger_sql Check_violation)
      (check (i \<notin> rr_id ` set (lg_results l)) (Ledger_sql Unique_violation)
        (check (project \<in> set (ev_projects (lg_evidence l))) (Ledger_sql Foreign_key_violation)
          (Ok (l\<lparr>lg_results := lg_results l @ [\<lparr>rr_id = i, rr_project = project,
             rr_result = stored_computation computation\<rparr>]\<rparr>))))"

definition link_result_input :: "ledger \<Rightarrow> result_link \<Rightarrow> ledger outcome" where
  "link_result_input l r =
     check (\<not> list_ex (\<lambda>x. rl_result x = rl_result r \<and> rl_role x = rl_role r) (lg_links l)) (Ledger_sql Unique_violation)
      (check (list_ex (\<lambda>x. rr_id x = rl_result r \<and> rr_project x = rl_project r) (lg_results l) \<and>
          list_ex (\<lambda>x. fi_id x = rl_input r \<and> fi_role x = rl_role r \<and> fi_project x = rl_project r) (lg_inputs l))
          (Ledger_sql Foreign_key_violation)
        (Ok (l\<lparr>lg_links := lg_links l @ [r]\<rparr>)))"

text \<open>The deferred trigger \<open>slicebo_assert_result_invariant\<close>, which runs at commit for a new result.\<close>

definition result_invariant :: "ledger \<Rightarrow> result_row \<Rightarrow> bool" where
  "result_invariant l r \<longleftrightarrow>
     (let links = filter (\<lambda>x. rl_result x = rr_id r) (lg_links l)
      in sort (map rl_role links) = sort ROLES \<and>
         (rc_status (rr_result r) \<noteq> Roi_blocked \<longrightarrow>
            list_all (\<lambda>k. list_all (\<lambda>x. fi_id x = rl_input k \<longrightarrow> input_consumable l x) (lg_inputs l)) links))"

definition get_result :: "ledger \<Rightarrow> string \<Rightarrow> string \<Rightarrow> result_row option" where
  "get_result l project result_id = find (\<lambda>r. rr_id r = result_id \<and> rr_project r = project) (lg_results l)"

definition list_result_input_ids :: "ledger \<Rightarrow> string \<Rightarrow> string \<Rightarrow> (string \<times> string) list" where
  "list_result_input_ids l project result_id =
     map (\<lambda>k. (rl_role k, rl_input k)) (filter (\<lambda>k. rl_result k = result_id \<and> rl_project k = project) (lg_links l))"

subsection \<open>Requests\<close>

text \<open>Whether this caller won the claim.\<close>

definition claim_request :: "ledger \<Rightarrow> string \<Rightarrow> string \<Rightarrow> string \<Rightarrow> string \<Rightarrow> (ledger \<times> bool) outcome" where
  "claim_request l project key digest i =
     check (1 \<le> length key \<and> length key \<le> 200 \<and> length digest = 64) (Ledger_sql Check_violation)
      (if list_ex (\<lambda>q. rq_id q = i \<or> (rq_project q = project \<and> (rq_key q = key \<or> rq_digest q = digest))) (lg_requests l)
       then Ok (l, False)
       else check (project \<in> set (ev_projects (lg_evidence l))) (Ledger_sql Foreign_key_violation)
              (Ok (l\<lparr>lg_requests := lg_requests l @ [\<lparr>rq_id = i, rq_project = project, rq_key = key, rq_digest = digest,
                 rq_status = Request_pending, rq_result = None\<rparr>]\<rparr>, True)))"

text \<open>The update with the guard \<open>sliceb_creq_guard\<close>.\<close>

definition commit_request :: "ledger \<Rightarrow> string \<Rightarrow> string \<Rightarrow> string \<Rightarrow> ledger outcome" where
  "commit_request l project i result_id =
     (let hit = (\<lambda>q. rq_id q = i \<and> rq_project q = project)
      in check (\<not> list_ex (\<lambda>q. hit q \<and> rq_status q = Request_committed) (lg_requests l)) (Ledger_sql Restrict_violation)
          (check (\<not> list_ex (\<lambda>q. hit q \<and> rq_result q \<noteq> None) (lg_requests l)) (Ledger_sql Check_violation)
            (check (list_ex hit (lg_requests l) \<longrightarrow> list_ex (\<lambda>r. rr_id r = result_id \<and> rr_project r = project) (lg_results l))
                (Ledger_sql Foreign_key_violation)
              (Ok (l\<lparr>lg_requests := map (\<lambda>q. if hit q then q\<lparr>rq_status := Request_committed, rq_result := Some result_id\<rparr> else q)
                 (lg_requests l)\<rparr>)))))"

definition get_request_by_key :: "ledger \<Rightarrow> string \<Rightarrow> string \<Rightarrow> request option" where
  "get_request_by_key l project key = find (\<lambda>q. rq_project q = project \<and> rq_key q = key) (lg_requests l)"

definition get_request_by_digest :: "ledger \<Rightarrow> string \<Rightarrow> string \<Rightarrow> request option" where
  "get_request_by_digest l project digest = find (\<lambda>q. rq_project q = project \<and> rq_digest q = digest) (lg_requests l)"

subsection \<open>The calculation service\<close>

definition request_roles :: "(string \<times> string) list \<Rightarrow> unit outcome" where
  "request_roles ids =
     (let keys = set (map fst ids)
      in check (keys = set ROLES)
           (Ledger_request (''exactly the six roles are required; missing='' @
              py_repr_list (sorted_list_of_set (set ROLES - keys)) @ '' extra='' @
              py_repr_list (sorted_list_of_set (keys - set ROLES)))) (Ok ()))"

text \<open>The loop over the roles: the unavailable ones and the resolved inputs.\<close>

fun resolve_inputs ::
  "ledger \<Rightarrow> string \<Rightarrow> (string \<times> string) list \<Rightarrow> string list \<Rightarrow> (string list \<times> role_inputs) outcome" where
  "resolve_inputs l project ids [] = Ok ([], [])"
| "resolve_inputs l project ids (role # roles) =
     (let input_id = opt_or (map_of ids role) ''''
      in bind_result (load_frozen_input l project input_id) (\<lambda>x.
           check (fi_role x = role) (Ledger_request (''input '' @ py_repr input_id @ '' for role '' @ py_repr role @
               '' is actually '' @ py_repr (fi_role x)))
            (map_result (\<lambda>(unavailable, resolved).
                ((if input_consumable l x then unavailable else role # unavailable), (role, as_resolved_input x) # resolved))
              (resolve_inputs l project ids roles))))"

fun link_inputs :: "ledger \<Rightarrow> string \<Rightarrow> string \<Rightarrow> (string \<times> string) list \<Rightarrow> string list \<Rightarrow> ledger outcome" where
  "link_inputs l project result_id ids [] = Ok l"
| "link_inputs l project result_id ids (role # roles) =
     bind_result (link_result_input l \<lparr>rl_project = project, rl_result = result_id,
         rl_input = opt_or (map_of ids role) '''', rl_role = role\<rparr>) (\<lambda>l'. link_inputs l' project result_id ids roles)"

definition of_roi :: "(roi_error, 'a) result \<Rightarrow> 'a outcome" where
  "of_roi r = (case r of Inr x \<Rightarrow> Ok x | Inl e \<Rightarrow> Err (case e of
     Arithmetic d \<Rightarrow> Ledger_other ''decimal exception''
   | Wrong_roles missing extra \<Rightarrow> Ledger_value (''calculation requires exactly the six roles; missing='' @
       py_repr_list missing @ '' extra='' @ py_repr_list extra)
   | Mismatched_role key role \<Rightarrow> Ledger_value (''input for key '' @ py_repr key @ '' carries mismatched input_role '' @
       py_repr role)))"

definition compute_and_store :: "ledger \<Rightarrow> string \<Rightarrow> (string \<times> string) list \<Rightarrow> string \<Rightarrow> ledger outcome" where
  "compute_and_store l project ids i =
     bind_result (resolve_inputs l project ids ROLES) (\<lambda>(unavailable, resolved).
     bind_result (of_roi (compute_automation_roi resolved unavailable)) (\<lambda>computation.
     bind_result (insert_calculation_result l project computation i) (\<lambda>l'.
       link_inputs l' project i ids ROLES)))"

definition compute_and_persist :: "ledger \<Rightarrow> string \<Rightarrow> (string \<times> string) list \<Rightarrow> string \<Rightarrow> ledger outcome" where
  "compute_and_persist l project ids i =
     bind_result (request_roles ids) (\<lambda>_. compute_and_store l project ids i)"

text \<open>The id of the result and whether it was replayed.\<close>

definition replay :: "ledger \<Rightarrow> request \<Rightarrow> (ledger \<times> string \<times> bool) outcome" where
  "replay l q = (case rq_result q of
     None \<Rightarrow> Err (Ledger_conflict ''a matching calculation request is still in progress'')
   | Some r \<Rightarrow> Ok (l, r, True))"

definition request_calculation ::
  "ledger \<Rightarrow> string \<Rightarrow> (string \<times> string) list \<Rightarrow> string \<Rightarrow> string \<Rightarrow> string \<Rightarrow> (ledger \<times> string \<times> bool) outcome" where
  "request_calculation l project ids key request_id result_id =
     bind_result (request_roles ids) (\<lambda>_.
     bind_result (of_roi (canonical_request_digest project ids)) (\<lambda>digest.
     bind_result (claim_request l project key digest request_id) (\<lambda>(l1, won).
       if \<not> won
       then (case get_request_by_key l1 project key of
               Some q \<Rightarrow> (if rq_digest q \<noteq> digest
                          then Err (Ledger_conflict ''idempotency key already used for a different calculation'')
                          else replay l1 q)
             | None \<Rightarrow>
                 (case get_request_by_digest l1 project digest of
                    Some q \<Rightarrow> replay l1 q
                  | None \<Rightarrow> Err (Ledger_other ''calculation_request conflict could not be resolved'')))
       else bind_result (compute_and_store l1 project ids result_id) (\<lambda>l2.
              map_result (\<lambda>l3. (l3, result_id, False)) (commit_request l2 project request_id result_id)))))"

end
