(* ===== verification/RoiApi.thy ===== *)
theory RoiApi
  imports RoiLedger
begin

text \<open>
  The write endpoints of the Automation ROI operator surface (\<open>mas/automation_roi_api.py\<close>) and the
  histories of the ledger they produce. A request is one transaction that commits as a whole or
  not at all, and transactions follow one another. Identifiers are UUIDs in the form in which the
  database prints them. The answer to an accepted request is reduced to the ids it names; the
  projections of a result are in theory RoiViews.
\<close>

subsection \<open>Transactions\<close>

record roi_env =
  en_enabled :: bool
  en_reachable :: bool

type_synonym http_error = "nat \<times> string"
type_synonym 'a answer = "(http_error, 'a) result"

definition DB_UNAVAILABLE :: string where
  "DB_UNAVAILABLE = ''Automation ROI storage is unavailable''"

definition CONFLICT :: string where
  "CONFLICT = ''Request conflicts with the current Automation ROI lifecycle state''"

text \<open>The mapping of the exceptions that reach the end of a write: the explicit answers, the
  integrity errors of the driver, everything else.\<close>

definition http_of :: "ledger_error \<Rightarrow> http_error" where
  "http_of e =
     (case e of
        Ledger_http status detail \<Rightarrow> (status, detail)
      | Ledger_sql s \<Rightarrow>
          (if s \<in> {Check_violation, Foreign_key_violation, Unique_violation} then (409, CONFLICT)
           else (503, DB_UNAVAILABLE))
      | _ \<Rightarrow> (503, DB_UNAVAILABLE))"

text \<open>The commit runs the deferred trigger for the results that the transaction has inserted.\<close>

definition deferred_ok :: "ledger \<Rightarrow> ledger \<Rightarrow> bool" where
  "deferred_ok l l' \<longleftrightarrow> list_all (\<lambda>r. r \<in> set (lg_results l) \<or> result_invariant l' r) (lg_results l')"

definition write_txn :: "roi_env \<Rightarrow> ledger \<Rightarrow> (ledger \<times> 'a) outcome \<Rightarrow> ledger \<times> 'a answer" where
  "write_txn env l body =
     (if \<not> en_reachable env then (l, Err (503, DB_UNAVAILABLE))
      else case body of
             Inl e \<Rightarrow> (l, Err (http_of e))
           | Inr (l', x) \<Rightarrow>
               (if deferred_ok l l' then (l', Ok x) else (l, Err (http_of (Ledger_sql Check_violation)))))"

text \<open>The flag gate, then the validation of the body, then the handler.\<close>

definition roi_endpoint :: "roi_env \<Rightarrow> bool \<Rightarrow> ledger \<Rightarrow> ledger \<times> 'a answer \<Rightarrow> ledger \<times> 'a answer" where
  "roi_endpoint env body_ok l handler =
     (if \<not> en_enabled env then (l, Err (404, ''Not found''))
      else if \<not> body_ok then (l, Err (422, ''request validation''))
      else handler)"

definition uuid_text :: "string \<Rightarrow> bool" where
  "uuid_text s \<longleftrightarrow> length s = 36 \<and>
     list_all (\<lambda>i. if i \<in> {8, 13, 18, 23} then s ! i = CHR ''-'' else s ! i \<in> set ''0123456789abcdef'') [0..<36]"

definition require_project :: "ledger \<Rightarrow> string \<Rightarrow> unit outcome" where
  "require_project l project =
     check (project \<in> set (ev_projects (lg_evidence l))) (Ledger_http 404 ''Project not found'') (Ok ())"

subsection \<open>Candidate facts\<close>

record fact_body =
  fb_snapshot :: string
  fb_fact :: typed_fact
  fb_subject :: string
  fb_metric :: string
  fb_period :: "string option"
  fb_locator :: string
  fb_range :: "string option"
  fb_rationale :: string

definition fact_body_ok :: "fact_body \<Rightarrow> bool" where
  "fact_body_ok b \<longleftrightarrow>
     (case tf_value (fb_fact b) of Raw_none \<Rightarrow> True | Raw_int i \<Rightarrow> True | Raw_str s \<Rightarrow> True | _ \<Rightarrow> False) \<and>
     fb_subject b \<noteq> '''' \<and> fb_metric b \<noteq> '''' \<and> length (fb_rationale b) \<le> 2000"

definition of_fact :: "(fact_error, 'a) result \<Rightarrow> 'a outcome" where
  "of_fact r = (case r of Inr x \<Rightarrow> Ok x | Inl e \<Rightarrow> Err (case e of
     Fact_invalid m \<Rightarrow> Ledger_http 422 m | Fact_raises d \<Rightarrow> Ledger_other ''decimal exception''))"

definition candidate_fact_body :: "ledger \<Rightarrow> string \<Rightarrow> fact_body \<Rightarrow> string \<Rightarrow> string \<Rightarrow> (ledger \<times> string \<times> string) outcome" where
  "candidate_fact_body l project b fid cid =
     bind_result (require_project l project) (\<lambda>_.
     check (list_ex (\<lambda>s. sn_id s = fb_snapshot b \<and> sn_project s = project) (ev_snapshots (lg_evidence l)))
         (Ledger_http 404 ''Source snapshot not found'')
      (check (snapshot_available (lg_evidence l) (fb_snapshot b)) (Ledger_http 409 ''Source snapshot is unavailable'')
        (bind_result (of_fact (validate_fact (fb_fact b))) (\<lambda>validated.
           map_result (\<lambda>l'. (l', fid, cid))
             (create_eligible_fact l \<lparr>fa_id = fid, fa_project = project, fa_snapshot = fb_snapshot b, fa_fact = validated\<rparr>
               \<lparr>fc_id = cid, fc_project = project, fc_fact = fid, fc_subject = fb_subject b, fc_metric = fb_metric b,
                fc_period = fb_period b, fc_locator = fb_locator b, fc_range = fb_range b, fc_rationale = fb_rationale b\<rparr>)))))"

definition create_candidate_fact ::
  "roi_env \<Rightarrow> ledger \<Rightarrow> string \<Rightarrow> fact_body \<Rightarrow> string \<Rightarrow> string \<Rightarrow> ledger \<times> (string \<times> string) answer" where
  "create_candidate_fact env l project b fid cid =
     roi_endpoint env (fact_body_ok b) l
       (if \<not> uuid_text project then (l, Err (404, ''Project not found''))
        else if \<not> uuid_text (fb_snapshot b) then (l, Err (422, ''Invalid source_snapshot_id''))
        else write_txn env l (candidate_fact_body l project b fid cid))"

subsection \<open>Decisions\<close>

definition fact_decision_body :: "ledger \<Rightarrow> string \<Rightarrow> string \<Rightarrow> decision_type \<Rightarrow> string \<Rightarrow> (ledger \<times> string) outcome" where
  "fact_decision_body l project fact_id kind i =
     bind_result (require_project l project) (\<lambda>_.
     check (find_fact l project fact_id \<noteq> None) (Ledger_http 404 ''Candidate fact not found'')
       (let active = active_approval_id l project fact_id in
        if kind = Approve
        then check (active = None) (Ledger_http 409 ''Fact already has an active approval'')
               (map_result (\<lambda>l'. (l', i)) (append_decision l project fact_id Approve None i))
        else check (active \<noteq> None) (Ledger_http 409 ''No active approval to revoke'')
               (map_result (\<lambda>l'. (l', i)) (append_decision l project fact_id kind active i))))"

definition append_fact_decision ::
  "roi_env \<Rightarrow> ledger \<Rightarrow> string \<Rightarrow> string \<Rightarrow> decision_type \<Rightarrow> string \<Rightarrow> string \<Rightarrow> ledger \<times> string answer" where
  "append_fact_decision env l project fact_id kind reason i =
     roi_endpoint env (length reason \<le> 2000) l
       (if \<not> uuid_text project then (l, Err (404, ''Project not found''))
        else if \<not> uuid_text fact_id then (l, Err (404, ''Candidate fact not found''))
        else write_txn env l (fact_decision_body l project fact_id kind i))"

subsection \<open>Frozen inputs\<close>

definition compat_detail :: "compat_reason \<Rightarrow> string" where
  "compat_detail r = (if r = Rate_unit then ''Fully loaded rate per hour requires unit 'per_hour'.''
     else ''The fact's values are incompatible with this input role.'')"

definition freeze_body :: "ledger \<Rightarrow> string \<Rightarrow> string \<Rightarrow> string \<Rightarrow> string \<Rightarrow> string \<Rightarrow> (ledger \<times> string) outcome" where
  "freeze_body l project fact_id decision_id role i =
     bind_result (require_project l project) (\<lambda>_.
     check (find_fact l project fact_id \<noteq> None) (Ledger_http 409 ''Fact is not eligible for this project'')
      (check (fact_available (lg_evidence l) fact_id) (Ledger_http 409 ''Source evidence is unavailable'')
        (case freeze_input l project fact_id role (Some decision_id) i of
           Inr l' \<Rightarrow> Ok (l', i)
         | Inl (Ledger_compat _ reason) \<Rightarrow> Err (Ledger_http 422 (compat_detail reason))
         | Inl (Ledger_value _) \<Rightarrow> Err (Ledger_http 409 ''Fact cannot be frozen for this role'')
         | Inl (Ledger_request _) \<Rightarrow> Err (Ledger_http 409 ''Fact cannot be frozen for this role'')
         | Inl e \<Rightarrow> Err e)))"

definition freeze_endpoint ::
  "roi_env \<Rightarrow> ledger \<Rightarrow> string \<Rightarrow> string \<Rightarrow> string \<Rightarrow> string \<Rightarrow> string \<Rightarrow> ledger \<times> string answer" where
  "freeze_endpoint env l project fact_id decision_id role i =
     roi_endpoint env (role \<in> set ROLES) l
       (if \<not> uuid_text project then (l, Err (404, ''Project not found''))
        else if \<not> uuid_text fact_id then (l, Err (422, ''Invalid candidate_fact_revision_id''))
        else if \<not> uuid_text decision_id then (l, Err (422, ''Invalid approval_decision_id''))
        else write_txn env l (freeze_body l project fact_id decision_id role i))"

subsection \<open>Calculations\<close>

definition calculation_body ::
  "ledger \<Rightarrow> string \<Rightarrow> (string \<times> string) list \<Rightarrow> string \<Rightarrow> string \<Rightarrow> string \<Rightarrow> (ledger \<times> string \<times> bool) outcome" where
  "calculation_body l project ids key request_id result_id =
     bind_result (require_project l project) (\<lambda>_.
       case request_calculation l project ids key request_id result_id of
         Inr x \<Rightarrow> Ok x
       | Inl (Ledger_conflict _) \<Rightarrow> Err (Ledger_http 409 ''Idempotency-Key already used for a different calculation'')
       | Inl (Ledger_request _) \<Rightarrow> Err (Ledger_http 422 ''Invalid calculation input set'')
       | Inl (Ledger_value _) \<Rightarrow> Err (Ledger_http 422 ''Unknown or cross-project calculation input'')
       | Inl (Ledger_compat _ _) \<Rightarrow> Err (Ledger_http 422 ''Unknown or cross-project calculation input'')
       | Inl e \<Rightarrow> Err e)"

text \<open>The body is a map with exactly the six roles, in the order of its model; the answer is the
  status code and the result.\<close>

definition create_calculation ::
  "roi_env \<Rightarrow> ledger \<Rightarrow> string \<Rightarrow> (string \<times> string) list \<Rightarrow> string option \<Rightarrow> string \<Rightarrow> string \<Rightarrow>
   ledger \<times> (nat \<times> string) answer" where
  "create_calculation env l project ids header request_id result_id =
     roi_endpoint env (map fst ids = ROLES) l
       (let key = py_strip (opt_or header '''')
        in if \<not> uuid_text project then (l, Err (404, ''Project not found''))
           else if key = '''' \<or> length key > 200 then (l, Err (422, ''Idempotency-Key header is required''))
           else if \<not> list_all (\<lambda>role. uuid_text (opt_or (map_of ids role) '''')) ROLES
           then (l, Err (422, ''Invalid approved input id in calculation map''))
           else write_txn env l
                  (map_result (\<lambda>(l', i, replayed). (l', (if replayed then 200 else 201), i))
                    (calculation_body l project ids key request_id result_id)))"

end
