(* ===== verification/RoiHistory.thy ===== *)
theory RoiHistory
  imports RoiApi
begin

text \<open>
  What the ledger of theories RoiLedger and RoiApi keeps over every history of requests: the
  invariant of its tables, the shape of an approval chain, the idempotence of calculations, and
  what a revocation or a retention event does to every later result.
\<close>

subsection \<open>The invariant\<close>

definition chain_of :: "ledger \<Rightarrow> string \<Rightarrow> decision list" where
  "chain_of l fact_id = filter (\<lambda>d. de_fact d = fact_id) (lg_decisions l)"

text \<open>Approvals and revocations take turns, each revocation naming the approval before it.\<close>

definition chain_place :: "decision list \<Rightarrow> nat \<Rightarrow> bool" where
  "chain_place ds i \<longleftrightarrow> de_seq (ds ! i) = i + 1 \<and>
     (if even i then de_type (ds ! i) = Approve \<and> de_revokes (ds ! i) = None
      else de_type (ds ! i) \<noteq> Approve \<and> de_revokes (ds ! i) = Some (de_id (ds ! (i - 1))))"

definition decision_chain :: "decision list \<Rightarrow> bool" where
  "decision_chain ds \<longleftrightarrow> list_all (chain_place ds) [0..<length ds]"

definition decisions_wf :: "ledger \<Rightarrow> bool" where
  "decisions_wf l \<longleftrightarrow> distinct (map de_id (lg_decisions l)) \<and>
     (\<forall>d \<in> set (lg_decisions l).
        (\<exists>f \<in> set (ev_facts (lg_evidence l)). fa_id f = de_fact d \<and> fa_project f = de_project d) \<and>
        decision_chain (chain_of l (de_fact d)))"

lemma chain_iff: "decision_chain ds \<longleftrightarrow> (\<forall>i < length ds. chain_place ds i)"
  by (auto simp: decision_chain_def list_all_iff)

lemma chain_ofI:
  assumes "decisions_wf l" shows "decision_chain (chain_of l f)"
proof (cases "chain_of l f")
  case Nil
  then show ?thesis by (simp add: chain_iff)
next
  case (Cons d ds)
  then have "d \<in> set (lg_decisions l)" "de_fact d = f"
    by (auto simp: chain_of_def filter_eq_Cons_iff)
  with assms show ?thesis by (auto simp: decisions_wf_def)
qed

lemma chain_append:
  "decision_chain (ds @ [d]) \<longleftrightarrow> decision_chain ds \<and> de_seq d = length ds + 1 \<and>
     (if even (length ds) then de_type d = Approve \<and> de_revokes d = None
      else de_type d \<noteq> Approve \<and> de_revokes d = Some (de_id (last ds)))"
proof -
  have "chain_place (ds @ [d]) i = chain_place ds i" if "i < length ds" for i
    using that by (auto simp: chain_place_def nth_append)
  moreover have "chain_place (ds @ [d]) (length ds) \<longleftrightarrow> de_seq d = length ds + 1 \<and>
     (if even (length ds) then de_type d = Approve \<and> de_revokes d = None
      else de_type d \<noteq> Approve \<and> de_revokes d = Some (de_id (last ds)))"
  proof (cases "ds = []")
    case False
    then have "ds ! (length ds - 1) = last ds" "length ds - 1 < length ds" by (simp_all add: last_conv_nth)
    then show ?thesis by (auto simp: chain_place_def nth_append)
  qed (simp add: chain_place_def)
  ultimately show ?thesis by (auto simp: chain_iff less_Suc_eq)
qed

text \<open>All decisions on a fact carry its project, so a query by fact and project is one by fact.\<close>

lemma fact_decisions_chain:
  assumes "evidence_wf (lg_evidence l)" "decisions_wf l"
    and "f \<in> set (ev_facts (lg_evidence l))" "fa_id f = i" "fa_project f = p"
  shows "fact_decisions l p i = chain_of l i"
proof -
  have "de_project d = p" if d: "d \<in> set (lg_decisions l)" "de_fact d = i" for d
  proof -
    have "\<exists>g \<in> set (ev_facts (lg_evidence l)). fa_id g = de_fact d \<and> fa_project g = de_project d"
      using assms(2) d(1) unfolding decisions_wf_def by blast
    then obtain g where "g \<in> set (ev_facts (lg_evidence l))" "fa_id g = i" "fa_project g = de_project d"
      using d(2) by auto
    with assms(1,3-5) show ?thesis
      using ident_unique [of fa_id "ev_facts (lg_evidence l)" f g] by (auto simp: evidence_wf_def)
  qed
  then show ?thesis unfolding fact_decisions_def chain_of_def by (intro filter_cong) auto
qed

text \<open>An approval is revoked exactly when its chain goes on after it.\<close>

lemma revoked_iff:
  assumes wf: "decisions_wf l" and i: "i < length (chain_of l f)" "even i"
  shows "revoked l (de_id (chain_of l f ! i)) \<longleftrightarrow> Suc i < length (chain_of l f)"
proof
  let ?d = "chain_of l f ! i"
  have d: "?d \<in> set (lg_decisions l)" "de_fact ?d = f"
    using nth_mem [OF i(1)] by (auto simp: chain_of_def)
  assume "revoked l (de_id ?d)"
  then obtain r where r: "r \<in> set (lg_decisions l)" "de_revokes r = Some (de_id ?d)"
    by (auto simp: revoked_def list_ex_iff)
  let ?c = "chain_of l (de_fact r)"
  have "r \<in> set ?c" using r(1) by (simp add: chain_of_def)
  then obtain j where j: "j < length ?c" "?c ! j = r" by (metis in_set_conv_nth)
  have "chain_place ?c j" using chain_ofI [OF wf] j(1) by (simp add: chain_iff)
  with j(2) r(2) have oj: "odd j" "de_id (?c ! (j - 1)) = de_id ?d" by (auto simp: chain_place_def split: if_splits)
  have "?c ! (j - 1) \<in> set ?c" using j(1) by simp
  then have "?c ! (j - 1) \<in> set (lg_decisions l)" "de_fact (?c ! (j - 1)) = de_fact r" by (auto simp: chain_of_def)
  with oj(2) d have same: "?c ! (j - 1) = ?d" "de_fact r = f"
    using wf ident_unique [of de_id "lg_decisions l" "?c ! (j - 1)" ?d] by (auto simp: decisions_wf_def)
  have "distinct (chain_of l f)" using wf by (simp add: chain_of_def decisions_wf_def distinct_map)
  then have "j - 1 = i" using same j(1) i(1) by (simp add: nth_eq_iff_index_eq)
  with oj(1) j(1) same(2) show "Suc i < length (chain_of l f)" by (cases j) auto
next
  assume s: "Suc i < length (chain_of l f)"
  have "chain_place (chain_of l f) (Suc i)" using chain_ofI [OF wf] s by (simp add: chain_iff)
  with i(2) have "de_revokes (chain_of l f ! Suc i) = Some (de_id (chain_of l f ! i))" by (simp add: chain_place_def)
  moreover have "chain_of l f ! Suc i \<in> set (lg_decisions l)" using nth_mem [OF s] by (auto simp: chain_of_def)
  ultimately show "revoked l (de_id (chain_of l f ! i))" by (auto simp: revoked_def list_ex_iff)
qed

text \<open>So the active approval of a fact is the end of its chain, if that is an approval.\<close>

definition chain_end :: "decision list \<Rightarrow> string option" where
  "chain_end ds = (if odd (length ds) then Some (de_id (last ds)) else None)"

lemma active_is_end:
  assumes wf: "decisions_wf l" and eq: "fact_decisions l p f = chain_of l f"
  shows "active_approval_id l p f = chain_end (chain_of l f)"
proof -
  let ?c = "chain_of l f"
  let ?P = "\<lambda>d. de_fact d = f \<and> de_project d = p \<and> de_type d = Approve \<and> \<not> revoked l (de_id d)"
  have member: "d \<in> set ?c" if "d \<in> set (lg_decisions l)" "?P d" for d
    using that by (simp add: chain_of_def)
  have place: "odd (length ?c) \<and> d = last ?c" if "d \<in> set (lg_decisions l)" "?P d" for d
  proof -
    have "d \<in> set ?c" using that by (rule member)
    then obtain i where i: "i < length ?c" "?c ! i = d" by (metis in_set_conv_nth)
    have "chain_place ?c i" using chain_ofI [OF wf] i(1) by (simp add: chain_iff)
    then have "even i" using i(2) that(2) by (auto simp: chain_place_def split: if_splits)
    then have "Suc i = length ?c" using revoked_iff [OF wf i(1)] i that(2) by auto
    then have "i = length ?c - 1" "odd (length ?c)" "?c \<noteq> []" using \<open>even i\<close> i(1) by (presburger, presburger, auto)
    then show ?thesis using i by (auto simp: last_conv_nth)
  qed
  show ?thesis
  proof (cases "first_row (\<lambda>d. - int (de_seq d)) ?P (lg_decisions l)")
    case None
    have "\<not> odd (length ?c)"
    proof
      assume odd: "odd (length ?c)"
      then have ne: "?c \<noteq> []" by auto
      let ?i = "length ?c - 1"
      have i: "?i < length ?c" "even ?i" "?c ! ?i = last ?c" using odd ne by (auto simp: last_conv_nth)
      have "chain_place ?c ?i" using chain_ofI [OF wf] i(1) by (simp add: chain_iff)
      then have "de_type (last ?c) = Approve" using i(2,3) by (simp add: chain_place_def)
      moreover have "\<not> revoked l (de_id (last ?c))" using revoked_iff [OF wf i(1,2)] i(3) by simp
      moreover have "last ?c \<in> set (fact_decisions l p f)" using ne eq by simp
      ultimately have "?P (last ?c)" "last ?c \<in> set (lg_decisions l)" by (auto simp: fact_decisions_def)
      with None show False by (auto simp: first_row_None)
    qed
    with None show ?thesis by (simp add: active_approval_id_def chain_end_def)
  next
    case (Some d)
    from first_row_Some(1,2) [OF Some] have "odd (length ?c) \<and> d = last ?c" by (intro place) auto
    with Some show ?thesis by (simp add: active_approval_id_def chain_end_def)
  qed
qed

text \<open>The other tables.\<close>

definition context_wf :: "ledger \<Rightarrow> bool" where
  "context_wf l \<longleftrightarrow> list_all (\<lambda>c. list_ex (\<lambda>f. fa_id f = fc_fact c \<and> fa_project f = fc_project c)
     (ev_facts (lg_evidence l))) (lg_contexts l)"

definition input_wf :: "ledger \<Rightarrow> frozen_input \<Rightarrow> bool" where
  "input_wf l x \<longleftrightarrow> fi_role x \<in> set ROLES \<and>
     role_typing_ok (fi_role x) (fi_value x) (fi_unit x) (fi_currency x) (fi_time_unit x) \<and>
     list_ex (\<lambda>d. de_id d = fi_decision x \<and> de_type d = Approve \<and> de_fact d = fi_fact x \<and> de_project d = fi_project x)
       (lg_decisions l) \<and>
     list_ex (\<lambda>f. fa_id f = fi_fact x \<and> fa_project f = fi_project x \<and>
       list_ex (\<lambda>c. fc_fact c = fi_fact x \<and> fc_project c = fi_project x \<and> frozen_matches x f c) (lg_contexts l))
       (ev_facts (lg_evidence l))"

definition links_of :: "ledger \<Rightarrow> result_row \<Rightarrow> result_link list" where
  "links_of l r = filter (\<lambda>k. rl_result k = rr_id r) (lg_links l)"

definition resolved_of :: "ledger \<Rightarrow> string \<Rightarrow> string \<Rightarrow> string \<Rightarrow> role_inputs" where
  "resolved_of l project role input_id =
     (case load_frozen_input l project input_id of Inl e \<Rightarrow> [] | Inr x \<Rightarrow> [(role, as_resolved_input x)])"

definition linked_inputs :: "ledger \<Rightarrow> result_row \<Rightarrow> role_inputs" where
  "linked_inputs l r = concat (map (\<lambda>k. resolved_of l (rr_project r) (rl_role k) (rl_input k)) (links_of l r))"

text \<open>A result links the six roles, and it is what the engine computes from the linked rows; only a
  blocked one may have been computed with unavailable roles.\<close>

definition computed_from :: "role_inputs \<Rightarrow> roi_computation \<Rightarrow> bool" where
  "computed_from inputs row \<longleftrightarrow> (\<exists>unavailable c. compute_automation_roi inputs unavailable = Ok c \<and>
     row = stored_computation c \<and> set unavailable \<subseteq> set ROLES \<and> (rc_status c \<noteq> Roi_blocked \<longrightarrow> unavailable = []))"

definition result_wf :: "ledger \<Rightarrow> result_row \<Rightarrow> bool" where
  "result_wf l r \<longleftrightarrow> map rl_role (links_of l r) = ROLES \<and>
     (\<forall>k \<in> set (links_of l r). rl_project k = rr_project r \<and>
        (\<exists>x. load_frozen_input l (rr_project r) (rl_input k) = Ok x \<and> fi_role x = rl_role k)) \<and>
     computed_from (linked_inputs l r) (rr_result r)"

definition request_wf :: "ledger \<Rightarrow> request \<Rightarrow> bool" where
  "request_wf l q \<longleftrightarrow> rq_status q = Request_committed \<and>
     (\<exists>r \<in> set (lg_results l). rq_result q = Some (rr_id r) \<and> rr_project r = rq_project q \<and>
        canonical_request_digest (rr_project r) (map (\<lambda>k. (rl_role k, rl_input k)) (links_of l r)) = Ok (rq_digest q))"

definition requests_keyed :: "request list \<Rightarrow> bool" where
  "requests_keyed qs \<longleftrightarrow> distinct (map rq_id qs) \<and> distinct (map (\<lambda>q. (rq_project q, rq_key q)) qs) \<and>
     distinct (map (\<lambda>q. (rq_project q, rq_digest q)) qs)"

definition ledger_wf :: "ledger \<Rightarrow> bool" where
  "ledger_wf l \<longleftrightarrow> evidence_wf (lg_evidence l) \<and> decisions_wf l \<and> context_wf l \<and>
     distinct (map fi_id (lg_inputs l)) \<and> (\<forall>x \<in> set (lg_inputs l). input_wf l x) \<and>
     distinct (map rr_id (lg_results l)) \<and> (\<forall>r \<in> set (lg_results l). result_wf l r) \<and>
     (\<forall>k \<in> set (lg_links l). rl_result k \<in> rr_id ` set (lg_results l)) \<and>
     requests_keyed (lg_requests l) \<and> (\<forall>q \<in> set (lg_requests l). request_wf l q)"

subsection \<open>Growth\<close>

definition ledger_grows :: "ledger \<Rightarrow> ledger \<Rightarrow> bool" where
  "ledger_grows l l' \<longleftrightarrow> evidence_grows (lg_evidence l) (lg_evidence l') \<and>
     prefix (lg_contexts l) (lg_contexts l') \<and> prefix (lg_decisions l) (lg_decisions l') \<and>
     prefix (lg_inputs l) (lg_inputs l') \<and> prefix (lg_results l) (lg_results l') \<and>
     prefix (lg_links l) (lg_links l') \<and> prefix (lg_requests l) (lg_requests l')"

lemma ledger_grows_refl [simp]: "ledger_grows l l"
  by (simp add: ledger_grows_def)

lemma ledger_grows_trans: "ledger_grows a b \<Longrightarrow> ledger_grows b c \<Longrightarrow> ledger_grows a c"
  unfolding ledger_grows_def by (blast intro: prefix_order.trans grows_trans)

lemma list_ex_prefix: "prefix xs ys \<Longrightarrow> list_ex P xs \<Longrightarrow> list_ex P ys"
  using set_mono_prefix [of xs ys] by (auto simp: list_ex_iff)

lemma load_Ok [simp]:
  "load_frozen_input l p i = Ok x \<longleftrightarrow> find (\<lambda>x. fi_id x = i \<and> fi_project x = p) (lg_inputs l) = Some x"
  by (auto simp: load_frozen_input_def split: option.splits)

lemma find_prefix: "prefix xs ys \<Longrightarrow> find P xs = Some x \<Longrightarrow> find P ys = Some x"
  by (induction xs arbitrary: ys) (auto simp: prefix_def split: if_splits)

lemma revoked_grows: "ledger_grows l l' \<Longrightarrow> revoked l d \<Longrightarrow> revoked l' d"
  using list_ex_prefix unfolding revoked_def ledger_grows_def by blast

lemma consumable_shrinks: "ledger_grows l l' \<Longrightarrow> \<not> input_consumable l x \<Longrightarrow> \<not> input_consumable l' x"
  using revoked_grows fact_unavailable_grows unfolding input_consumable_def ledger_grows_def by blast

lemma input_wf_grows:
  assumes "ledger_grows l l'" "input_wf l x" shows "input_wf l' x"
proof -
  have "prefix (lg_decisions l) (lg_decisions l')" "prefix (lg_contexts l) (lg_contexts l')"
    "prefix (ev_facts (lg_evidence l)) (ev_facts (lg_evidence l'))"
    using assms(1) by (auto simp: ledger_grows_def evidence_grows_def)
  then show ?thesis
    using assms(2) list_ex_prefix unfolding input_wf_def list_ex_iff by (meson set_mono_prefix subsetD)
qed

lemma load_grows: "ledger_grows l l' \<Longrightarrow> load_frozen_input l p i = Ok x \<Longrightarrow> load_frozen_input l' p i = Ok x"
  unfolding ledger_grows_def load_Ok by (blast intro: find_prefix)

lemma linked_grows:
  assumes "ledger_grows l l'" "links_of l' r = links_of l r"
    and "\<And>k. k \<in> set (links_of l r) \<Longrightarrow> \<exists>x. load_frozen_input l (rr_project r) (rl_input k) = Ok x"
  shows "linked_inputs l' r = linked_inputs l r"
proof -
  have "resolved_of l' (rr_project r) (rl_role k) (rl_input k) = resolved_of l (rr_project r) (rl_role k) (rl_input k)"
    if "k \<in> set (links_of l r)" for k
    using assms(3) [OF that] load_grows [OF assms(1)] by (auto simp: resolved_of_def simp del: load_Ok)
  then show ?thesis unfolding linked_inputs_def assms(2) by (metis (no_types, lifting) map_eq_conv)
qed

lemma result_wf_grows:
  assumes "ledger_grows l l'" "links_of l' r = links_of l r" "result_wf l r"
  shows "result_wf l' r"
proof -
  have loads: "\<exists>x. load_frozen_input l (rr_project r) (rl_input k) = Ok x" if "k \<in> set (links_of l r)" for k
    using assms(3) that unfolding result_wf_def by blast
  have linked: "linked_inputs l' r = linked_inputs l r"
    using assms(1,2) loads by (rule linked_grows)
  show ?thesis
    using assms(3) load_grows [OF assms(1)] unfolding result_wf_def assms(2) linked by metis
qed

lemma request_wf_grows:
  assumes "ledger_grows l l'" "\<And>r. r \<in> set (lg_results l) \<Longrightarrow> links_of l' r = links_of l r" "request_wf l q"
  shows "request_wf l' q"
  using assms unfolding request_wf_def ledger_grows_def by (metis set_mono_prefix subsetD)

lemma wf_same_results:
  assumes wf: "ledger_wf l" and grows: "ledger_grows l l'"
    and same: "lg_links l' = lg_links l" "lg_results l' = lg_results l" "lg_requests l' = lg_requests l"
    and new: "evidence_wf (lg_evidence l')" "decisions_wf l'" "context_wf l'" "distinct (map fi_id (lg_inputs l'))"
      "\<And>x. x \<in> set (lg_inputs l') \<Longrightarrow> x \<notin> set (lg_inputs l) \<Longrightarrow> input_wf l' x"
  shows "ledger_wf l'"
proof -
  have links: "links_of l' r = links_of l r" for r by (simp add: links_of_def same)
  have "input_wf l' x" if "x \<in> set (lg_inputs l')" for x
    using that new(5) input_wf_grows [OF grows] wf unfolding ledger_wf_def by blast
  moreover have "result_wf l' r" if "r \<in> set (lg_results l)" for r
    using that result_wf_grows [OF grows links] wf unfolding ledger_wf_def by blast
  moreover have "request_wf l' q" if "q \<in> set (lg_requests l)" for q
    using that request_wf_grows [OF grows links] wf unfolding ledger_wf_def by blast
  ultimately show ?thesis using wf new same unfolding ledger_wf_def by auto
qed

lemma context_wf_grows: "context_wf l \<Longrightarrow> ledger_grows l l' \<Longrightarrow> lg_contexts l' = lg_contexts l \<Longrightarrow> context_wf l'"
  unfolding context_wf_def list_all_iff ledger_grows_def evidence_grows_def using list_ex_prefix by metis

lemma decisions_wf_grows:
  assumes "decisions_wf l" "ledger_grows l l'" "lg_decisions l' = lg_decisions l"
  shows "decisions_wf l'"
proof -
  have "set (ev_facts (lg_evidence l)) \<subseteq> set (ev_facts (lg_evidence l'))"
    using assms(2) by (auto simp: ledger_grows_def evidence_grows_def dest: set_mono_prefix)
  moreover have same: "chain_of l' f = chain_of l f" for f by (simp add: chain_of_def assms(3))
  ultimately show ?thesis using assms(1) unfolding decisions_wf_def assms(3) same by blast
qed

lemma evidence_keeps:
  assumes "ledger_wf l" "evidence_wf ev" "evidence_grows (lg_evidence l) ev"
  shows "ledger_wf (l\<lparr>lg_evidence := ev\<rparr>)" "ledger_grows l (l\<lparr>lg_evidence := ev\<rparr>)"
proof -
  show grows: "ledger_grows l (l\<lparr>lg_evidence := ev\<rparr>)" using assms(3) by (simp add: ledger_grows_def)
  show "ledger_wf (l\<lparr>lg_evidence := ev\<rparr>)"
    by (rule wf_same_results [OF assms(1) grows])
      (use assms decisions_wf_grows [OF _ grows] context_wf_grows [OF _ grows] in \<open>auto simp: ledger_wf_def\<close>)
qed

lemma eligible_fact_keeps:
  assumes "create_eligible_fact l f ctx = Ok l'" "ledger_wf l"
  shows "ledger_wf l' \<and> ledger_grows l l'"
proof -
  obtain ev where ev: "insert_fact (lg_evidence l) f = Ok ev"
    and l': "l' = l\<lparr>lg_evidence := ev, lg_contexts := lg_contexts l @ [ctx\<lparr>fc_fact := fa_id f, fc_project := fa_project f\<rparr>]\<rparr>"
    using assms(1) by (auto simp: create_eligible_fact_def bind_result_eq_Ok)
  have keeps: "evidence_wf ev" "evidence_grows (lg_evidence l) ev"
    using evidence_step_keeps [OF evidence_step.new_fact [OF ev]] assms(2) by (auto simp: ledger_wf_def)
  note change = evidence_keeps [OF assms(2) keeps]
  have grows: "ledger_grows l l'" using keeps(2) by (simp add: ledger_grows_def l')
  have grows': "ledger_grows (l\<lparr>lg_evidence := ev\<rparr>) l'" by (simp add: ledger_grows_def l')
  have "\<exists>g \<in> set (ev_facts ev). fa_id g = fa_id f \<and> fa_project g = fa_project f"
    by (rule bexI [of _ "stored_fact f"]) (use insert_fact_cases [OF ev] in simp_all)
  then have "context_wf l'" using change(1) by (auto simp: ledger_wf_def context_wf_def list_ex_iff l')
  then have "ledger_wf l'"
    using decisions_wf_grows [OF _ grows'] change(1) keeps(1)
    by (intro wf_same_results [OF change(1) grows']) (auto simp: l' ledger_wf_def)
  with grows show ?thesis by blast
qed

lemma find_fact_Some:
  "find_fact l p i = Some f \<Longrightarrow> f \<in> set (ev_facts (lg_evidence l)) \<and> fa_id f = i \<and> fa_project f = p"
  by (auto simp: find_fact_def find_Some_iff)

lemma find_context_Some:
  "find_context l p i = Some c \<Longrightarrow> c \<in> set (lg_contexts l) \<and> fc_fact c = i \<and> fc_project c = p"
  by (auto simp: find_context_def find_Some_iff)

lemma insert_decision_cases:
  "insert_decision l d = Ok l' \<Longrightarrow> l' = l\<lparr>lg_decisions := lg_decisions l @ [d]\<rparr> \<and>
     de_id d \<notin> de_id ` set (lg_decisions l) \<and>
     (\<exists>f \<in> set (ev_facts (lg_evidence l)). fa_id f = de_fact d \<and> fa_project f = de_project d)"
  by (auto simp: insert_decision_def list_ex_iff)

lemma next_seq:
  assumes "decision_chain ds"
  shows "foldr max (map de_seq ds) 0 = length ds"
proof -
  have "foldr max (map de_seq ds) n = max n (length ds)" if "decision_chain ds" for n
    using that
  proof (induction ds arbitrary: n rule: rev_induct)
    case (snoc d ds)
    then show ?case by (simp add: chain_append max_def)
  qed simp
  from this [OF assms] show ?thesis by simp
qed

lemma decision_body_keeps:
  assumes body: "fact_decision_body l p f kind i = Ok (l', j)" and wf: "ledger_wf l"
  shows "ledger_wf l' \<and> ledger_grows l l'"
proof -
  let ?d = "\<lambda>revokes. \<lparr>de_id = i, de_project = p, de_fact = f, de_type = kind,
     de_seq = next_decision_seq l p f, de_revokes = revokes\<rparr>"
  obtain revokes where ins: "insert_decision l (?d revokes) = Ok l'"
    and turn: "if kind = Approve then active_approval_id l p f = None \<and> revokes = None
       else revokes = active_approval_id l p f \<and> revokes \<noteq> None"
    and found: "find_fact l p f \<noteq> None"
    using body unfolding fact_decision_body_def
    by (cases "kind = Approve") (auto simp: bind_result_eq_Ok Let_def append_decision_def)
  then obtain row where row: "row \<in> set (ev_facts (lg_evidence l))" "fa_id row = f" "fa_project row = p"
    using find_fact_Some by (cases "find_fact l p f") blast+
  have dwf: "decisions_wf l" "evidence_wf (lg_evidence l)" using wf by (auto simp: ledger_wf_def)
  have same: "fact_decisions l p f = chain_of l f" by (rule fact_decisions_chain [OF dwf(2,1) row])
  note chain = chain_ofI [OF dwf(1), of f]
  note c = insert_decision_cases [OF ins]
  then have l': "l' = l\<lparr>lg_decisions := lg_decisions l @ [?d revokes]\<rparr>" by blast
  have seq: "next_decision_seq l p f = length (chain_of l f) + 1"
    using next_seq [OF chain] by (simp add: next_decision_seq_def same)
  have "decision_chain (chain_of l f @ [?d revokes])"
    using chain seq turn active_is_end [OF dwf(1) same] by (auto simp: chain_append chain_end_def split: if_splits)
  then have new: "decision_chain (chain_of l' f)" by (simp add: chain_of_def l')
  have old: "chain_of l' g = chain_of l g" if "g \<noteq> f" for g using that by (simp add: chain_of_def l')
  have "decisions_wf l'"
    unfolding decisions_wf_def
  proof (intro conjI ballI)
    show "distinct (map de_id (lg_decisions l'))" using c dwf(1) by (simp add: decisions_wf_def l')
    fix d assume d: "d \<in> set (lg_decisions l')"
    show "\<exists>g \<in> set (ev_facts (lg_evidence l')). fa_id g = de_fact d \<and> fa_project g = de_project d"
      using d c dwf(1) by (auto simp: decisions_wf_def l')
    show "decision_chain (chain_of l' (de_fact d))"
      using new old chain_ofI [OF dwf(1)] by (cases "de_fact d = f") auto
  qed
  moreover have grows: "ledger_grows l l'" by (simp add: ledger_grows_def l')
  ultimately have "ledger_wf l'"
    using wf context_wf_grows [OF _ grows]
    by (intro wf_same_results [OF wf grows]) (auto simp: l' ledger_wf_def)
  with grows show ?thesis by blast
qed

lemma insert_frozen_cases:
  assumes "insert_frozen_input l row = Ok l'"
  obtains x where "x = row\<lparr>fi_value := numeric_column (fi_value row)\<rparr>" "l' = l\<lparr>lg_inputs := lg_inputs l @ [x]\<rparr>"
    "fi_id x \<notin> fi_id ` set (lg_inputs l)" "input_wf l x"
proof -
  let ?x = "row\<lparr>fi_value := numeric_column (fi_value row)\<rparr>"
  obtain f ctx where f: "find_fact l (fi_project row) (fi_fact row) = Some f"
    and ctx: "find_context l (fi_project row) (fi_fact row) = Some ctx"
    and rest: "frozen_matches ?x f ctx" "fi_role row \<in> set ROLES" "l' = l\<lparr>lg_inputs := lg_inputs l @ [?x]\<rparr>"
      "role_typing_ok (fi_role row) (numeric_column (fi_value row)) (fi_unit row) (fi_currency row) (fi_time_unit row)"
      "fi_id row \<notin> fi_id ` set (lg_inputs l)"
      "list_ex (\<lambda>d. de_id d = fi_decision row \<and> de_type d = Approve \<and> de_fact d = fi_fact row \<and> de_project d = fi_project row)
         (lg_decisions l)"
    using assms by (auto simp: insert_frozen_input_def Let_def split: option.splits)
  have "input_wf l ?x"
    using rest find_fact_Some [OF f] find_context_Some [OF ctx] by (auto simp: input_wf_def list_ex_iff)
  with rest show thesis by (intro that) simp_all
qed

lemma freeze_cases:
  assumes "freeze_input l p f role dec i = Ok l'"
  obtains active row ctx d where "active_approval_id l p f = Some active" "dec = None \<or> dec = Some active"
    "find_fact l p f = Some row" "find_context l p f = Some ctx" "tf_value (fa_fact row) = Raw_decimal d"
    "input_compatibility_reason role d (Some (tf_unit (fa_fact row))) (tf_currency (fa_fact row)) (tf_time_unit (fa_fact row)) = Ok None"
    "insert_frozen_input l \<lparr>fi_id = i, fi_project = p, fi_role = role, fi_fact = f, fi_decision = active,
       fi_value = d, fi_unit = tf_unit (fa_fact row), fi_currency = tf_currency (fa_fact row), fi_period = fc_period ctx,
       fi_time_unit = tf_time_unit (fa_fact row), fi_as_of = tf_as_of (fa_fact row)\<rparr> = Ok l'"
  using assms unfolding freeze_input_def Let_def
  by (auto split: option.splits raw_value.splits sum.splits)

lemma freeze_body_Ok:
  "freeze_body l p f dec role i = Ok (l', j) \<Longrightarrow> freeze_input l p f role (Some dec) i = Ok l' \<and> j = i \<and>
     fact_available (lg_evidence l) f"
  by (auto simp: freeze_body_def bind_result_eq_Ok split: sum.splits ledger_error.splits)

lemma input_append_keeps:
  assumes "insert_frozen_input l row = Ok l'" "ledger_wf l"
  shows "ledger_wf l' \<and> ledger_grows l l'"
proof -
  obtain x where x: "l' = l\<lparr>lg_inputs := lg_inputs l @ [x]\<rparr>" "fi_id x \<notin> fi_id ` set (lg_inputs l)" "input_wf l x"
    using assms(1) by (rule insert_frozen_cases)
  have grows: "ledger_grows l l'" by (simp add: ledger_grows_def x)
  have "input_wf l' x" using grows x(3) by (rule input_wf_grows)
  with x assms(2) have "ledger_wf l'"
    using decisions_wf_grows [OF _ grows] context_wf_grows [OF _ grows]
    by (intro wf_same_results [OF assms(2) grows]) (auto simp: ledger_wf_def)
  with grows show ?thesis by blast
qed

subsection \<open>Calculations\<close>

lemma resolve_cases:
  assumes "resolve_inputs l p ids roles = Ok (unavailable, resolved)"
  shows "(\<forall>role \<in> set roles. \<exists>x. load_frozen_input l p (opt_or (map_of ids role) '''') = Ok x \<and> fi_role x = role) \<and>
    resolved = concat (map (\<lambda>role. resolved_of l p role (opt_or (map_of ids role) '''')) roles) \<and>
    unavailable = filter (\<lambda>role. \<exists>x. load_frozen_input l p (opt_or (map_of ids role) '''') = Ok x \<and>
       \<not> input_consumable l x) roles"
  using assms
proof (induction roles arbitrary: unavailable resolved)
  case (Cons role roles)
  let ?i = "opt_or (map_of ids role) ''''"
  obtain x un res where x: "load_frozen_input l p ?i = Ok x" "fi_role x = role"
    and rec: "resolve_inputs l p ids roles = Ok (un, res)"
    and out: "unavailable = (if input_consumable l x then un else role # un)" "resolved = (role, as_resolved_input x) # res"
    using Cons.prems by (auto simp: Let_def bind_result_eq_Ok simp del: load_Ok)
  have only: "(\<exists>y. load_frozen_input l p ?i = Ok y \<and> \<not> input_consumable l y) = (\<not> input_consumable l x)"
    using x(1) by (simp del: load_Ok)
  note IH = Cons.IH [OF rec]
  have "filter (\<lambda>role. \<exists>x. load_frozen_input l p (opt_or (map_of ids role) '''') = Ok x \<and> \<not> input_consumable l x) (role # roles)
      = unavailable"
    unfolding filter.simps only using IH out(1) by simp
  then show ?case using x IH out(2) by (simp add: resolved_of_def del: load_Ok filter.simps)
qed simp

definition new_links :: "string \<Rightarrow> string \<Rightarrow> (string \<times> string) list \<Rightarrow> string list \<Rightarrow> result_link list" where
  "new_links p i ids roles = map (\<lambda>role. \<lparr>rl_project = p, rl_result = i, rl_input = opt_or (map_of ids role) '''',
     rl_role = role\<rparr>) roles"

lemma link_cases:
  "link_inputs l p i ids roles = Ok l' \<Longrightarrow> l' = l\<lparr>lg_links := lg_links l @ new_links p i ids roles\<rparr>"
proof (induction l p i ids roles arbitrary: l' rule: link_inputs.induct)
  case (2 l p i ids role roles)
  then obtain l1 where l1: "link_result_input l \<lparr>rl_project = p, rl_result = i, rl_input = opt_or (map_of ids role) '''',
      rl_role = role\<rparr> = Ok l1" and rest: "link_inputs l1 p i ids roles = Ok l'"
    by (auto simp: bind_result_eq_Ok)
  have "l1 = l\<lparr>lg_links := lg_links l @ [\<lparr>rl_project = p, rl_result = i, rl_input = opt_or (map_of ids role) '''',
      rl_role = role\<rparr>]\<rparr>" using l1 by (simp add: link_result_input_def)
  with "2.IH" [OF rest] show ?case by (simp add: new_links_def)
qed (simp add: new_links_def)

lemma compute_store_cases:
  assumes "compute_and_store l p ids i = Ok l'"
  obtains unavailable resolved c where "resolve_inputs l p ids ROLES = Ok (unavailable, resolved)"
    "compute_automation_roi resolved unavailable = Ok c" "i \<notin> rr_id ` set (lg_results l)"
    "l' = l\<lparr>lg_results := lg_results l @ [\<lparr>rr_id = i, rr_project = p, rr_result = stored_computation c\<rparr>],
       lg_links := lg_links l @ new_links p i ids ROLES\<rparr>"
proof -
  obtain unavailable resolved c l1 where steps: "resolve_inputs l p ids ROLES = Ok (unavailable, resolved)"
    "of_roi (compute_automation_roi resolved unavailable) = Ok c" "insert_calculation_result l p c i = Ok l1"
    "link_inputs l1 p i ids ROLES = Ok l'"
    using assms by (auto simp: compute_and_store_def bind_result_eq_Ok)
  moreover have "compute_automation_roi resolved unavailable = Ok c"
    using steps(2) by (auto simp: of_roi_def split: sum.splits)
  ultimately show thesis using link_cases [OF steps(4)]
    by (intro that [of unavailable resolved c]) (auto simp: insert_calculation_result_def)
qed


lemma find_SomeD: "find P xs = Some x \<Longrightarrow> x \<in> set xs \<and> P x"
  by (auto simp: find_Some_iff)

lemma frozen_requests [simp]:
  "load_frozen_input (l\<lparr>lg_requests := qs\<rparr>) p i = load_frozen_input l p i"
  "input_consumable (l\<lparr>lg_requests := qs\<rparr>) x = input_consumable l x"
  by (simp_all add: load_frozen_input_def input_consumable_def revoked_def)

lemma resolve_requests [simp]: "resolve_inputs (l\<lparr>lg_requests := qs\<rparr>) p ids roles = resolve_inputs l p ids roles"
  by (induction roles) (simp_all add: Let_def)

definition committed_request :: "string \<Rightarrow> string \<Rightarrow> string \<Rightarrow> string \<Rightarrow> string \<Rightarrow> request" where
  "committed_request i p key digest result_id = \<lparr>rq_id = i, rq_project = p, rq_key = key, rq_digest = digest,
     rq_status = Request_committed, rq_result = Some result_id\<rparr>"

definition with_result :: "ledger \<Rightarrow> string \<Rightarrow> roi_computation \<Rightarrow> string \<Rightarrow> (string \<times> string) list \<Rightarrow> request \<Rightarrow> ledger" where
  "with_result l p c i ids q = l\<lparr>lg_results := lg_results l @ [\<lparr>rr_id = i, rr_project = p, rr_result = stored_computation c\<rparr>],
     lg_links := lg_links l @ new_links p i ids ROLES, lg_requests := lg_requests l @ [q]\<rparr>"

lemma request_calculation_cases [consumes 1, case_names replayed computed]:
  assumes "request_calculation l p ids key qi i = Ok (l', rid, replayed)"
  obtains digest q where "canonical_request_digest p ids = Ok digest" "replayed" "l' = l" "q \<in> set (lg_requests l)"
      "rq_project q = p" "rq_digest q = digest" "rq_result q = Some rid"
  | digest unavailable resolved c where "canonical_request_digest p ids = Ok digest" "\<not> replayed" "rid = i"
      "\<forall>q \<in> set (lg_requests l). rq_id q \<noteq> qi \<and> (rq_project q = p \<longrightarrow> rq_key q \<noteq> key \<and> rq_digest q \<noteq> digest)"
      "resolve_inputs l p ids ROLES = Ok (unavailable, resolved)" "compute_automation_roi resolved unavailable = Ok c"
      "i \<notin> rr_id ` set (lg_results l)" "l' = with_result l p c i ids (committed_request qi p key digest i)"
proof -
  obtain digest l1 won where digest: "canonical_request_digest p ids = Ok digest"
    and claim: "claim_request l p key digest qi = Ok (l1, won)"
    and rest: "(if \<not> won then (case get_request_by_key l1 p key of
               Some q \<Rightarrow> (if rq_digest q \<noteq> digest
                          then Err (Ledger_conflict ''idempotency key already used for a different calculation'') else replay l1 q)
             | None \<Rightarrow> (case get_request_by_digest l1 p digest of Some q \<Rightarrow> replay l1 q
                  | None \<Rightarrow> Err (Ledger_other ''calculation_request conflict could not be resolved'')))
       else bind_result (compute_and_store l1 p ids i) (\<lambda>l2. map_result (\<lambda>l3. (l3, i, False)) (commit_request l2 p qi i))) =
       Ok (l', rid, replayed)"
  proof -
    have "\<exists>digest. canonical_request_digest p ids = Ok digest \<and> of_roi (canonical_request_digest p ids) = Ok digest"
      using assms by (auto simp: request_calculation_def bind_result_eq_Ok of_roi_def split: sum.splits)
    then show thesis using assms that by (auto simp: request_calculation_def bind_result_eq_Ok)
  qed
  show thesis
  proof (cases won)
    case False
    then have "l1 = l" using claim by (auto simp: claim_request_def split: if_splits)
    moreover obtain q where "q \<in> set (lg_requests l1)" "rq_project q = p" "rq_digest q = digest" "replay l1 q = Ok (l', rid, replayed)"
      using rest False by (auto simp: get_request_by_key_def get_request_by_digest_def dest!: find_SomeD split: option.splits if_splits)
    ultimately show thesis using digest that(1) by (auto simp: replay_def split: option.splits)
  next
    case True
    let ?q = "\<lparr>rq_id = qi, rq_project = p, rq_key = key, rq_digest = digest, rq_status = Request_pending, rq_result = None\<rparr>"
    have l1: "l1 = l\<lparr>lg_requests := lg_requests l @ [?q]\<rparr>"
      and none: "\<forall>q \<in> set (lg_requests l). rq_id q \<noteq> qi \<and> (rq_project q = p \<longrightarrow> rq_key q \<noteq> key \<and> rq_digest q \<noteq> digest)"
      using claim True by (auto simp: claim_request_def list_ex_iff split: if_splits)
    obtain l2 where l2: "compute_and_store l1 p ids i = Ok l2" and commit: "commit_request l2 p qi i = Ok l'"
      and out: "rid = i" "\<not> replayed" using rest True by (auto simp: bind_result_eq_Ok)
    obtain unavailable resolved c where c: "resolve_inputs l1 p ids ROLES = Ok (unavailable, resolved)"
      "compute_automation_roi resolved unavailable = Ok c" "i \<notin> rr_id ` set (lg_results l1)"
      "l2 = l1\<lparr>lg_results := lg_results l1 @ [\<lparr>rr_id = i, rr_project = p, rr_result = stored_computation c\<rparr>],
         lg_links := lg_links l1 @ new_links p i ids ROLES\<rparr>"
      using l2 by (rule compute_store_cases)
    have "map (\<lambda>q. if rq_id q = qi \<and> rq_project q = p then q\<lparr>rq_status := Request_committed, rq_result := Some i\<rparr> else q)
        (lg_requests l2) = lg_requests l @ [committed_request qi p key digest i]"
      using none by (auto simp: c(4) l1 committed_request_def intro!: map_idI)
    then have "l' = with_result l p c i ids (committed_request qi p key digest i)"
      using commit by (simp add: commit_request_def Let_def with_result_def c(4) l1)
    with c digest out none show thesis by (intro that(2)) (simp_all add: l1)
  qed
qed

lemma unavailable_blocks:
  assumes "compute_automation_roi inputs unavailable = Ok c" "unavailable \<noteq> []"
  shows "rc_status c = Roi_blocked"
  using assms by (auto simp: compute_automation_roi_def bind_result_eq_Ok blocking_reason_def blocked_result_def Let_def)

lemma digest_of_links:
  assumes "canonical_request_digest p ids = Ok digest"
  shows "canonical_request_digest p (map (\<lambda>k. (rl_role k, rl_input k)) (new_links p i ids ROLES)) = Ok digest"
proof -
  let ?ids = "map (\<lambda>role. (role, opt_or (map_of ids role) '''')) ROLES"
  have ids: "map (\<lambda>k. (rl_role k, rl_input k)) (new_links p i ids ROLES) = ?ids" by (simp add: new_links_def)
  have keys: "set (map fst ids) = set ROLES"
    and digest: "digest = sha256_hex (canonical_request_text p ids)"
    using assms by (auto simp: canonical_request_digest_def Let_def split: if_splits)
  have "opt_or (map_of ?ids role) '''' = opt_or (map_of ids role) ''''" if "role \<in> set (sort ROLES)" for role
    using that by (simp add: map_of_map_restrict)
  then have "map (\<lambda>role. join_with [FIELD_SEP] [role, opt_or (map_of ?ids role) '''']) (sort ROLES) =
      map (\<lambda>role. join_with [FIELD_SEP] [role, opt_or (map_of ids role) '''']) (sort ROLES)"
    by (intro map_cong refl) simp
  then have "canonical_request_text p ?ids = canonical_request_text p ids"
    by (simp only: canonical_request_text_def)
  then show ?thesis using digest by (simp add: ids canonical_request_digest_def image_image)
qed

lemma with_result_links:
  assumes "ledger_wf l" "i \<notin> rr_id ` set (lg_results l)" and l': "l' = with_result l p c i ids q"
  shows "r \<in> set (lg_results l) \<Longrightarrow> links_of l' r = links_of l r"
    and "links_of l' \<lparr>rr_id = i, rr_project = p, rr_result = row\<rparr> = new_links p i ids ROLES"
proof -
  show "links_of l' r = links_of l r" if "r \<in> set (lg_results l)"
    using assms(2) that by (auto simp: links_of_def l' with_result_def new_links_def filter_empty_conv)
  have "rl_result k \<noteq> i" if "k \<in> set (lg_links l)" for k
    using assms(1,2) that by (auto simp: ledger_wf_def)
  then have "filter (\<lambda>k. rl_result k = i) (lg_links l) = []" by (simp add: filter_empty_conv)
  then show "links_of l' \<lparr>rr_id = i, rr_project = p, rr_result = row\<rparr> = new_links p i ids ROLES"
    by (auto simp: links_of_def l' with_result_def new_links_def intro!: filter_True)
qed

lemma with_result_keeps:
  assumes wf: "ledger_wf l" and fresh: "i \<notin> rr_id ` set (lg_results l)"
    and digest: "canonical_request_digest p ids = Ok digest"
    and keys: "\<forall>q \<in> set (lg_requests l). rq_id q \<noteq> qi \<and> (rq_project q = p \<longrightarrow> rq_key q \<noteq> key \<and> rq_digest q \<noteq> digest)"
    and resolve: "resolve_inputs l p ids ROLES = Ok (unavailable, resolved)"
    and c: "compute_automation_roi resolved unavailable = Ok c"
    and l': "l' = with_result l p c i ids (committed_request qi p key digest i)"
  shows "ledger_wf l' \<and> ledger_grows l l'"
proof -
  let ?row = "\<lparr>rr_id = i, rr_project = p, rr_result = stored_computation c\<rparr>"
  note links = with_result_links [OF wf fresh l']
  have grows: "ledger_grows l l'" by (simp add: ledger_grows_def l' with_result_def)
  have same: "lg_evidence l' = lg_evidence l" "lg_inputs l' = lg_inputs l" "lg_decisions l' = lg_decisions l"
    "lg_contexts l' = lg_contexts l" "lg_results l' = lg_results l @ [?row]"
    "lg_requests l' = lg_requests l @ [committed_request qi p key digest i]" by (simp_all add: l' with_result_def)
  have load: "load_frozen_input l' = load_frozen_input l" by (simp add: fun_eq_iff load_frozen_input_def same)
  note res = resolve_cases [OF resolve]
  have resolved: "linked_inputs l' ?row = resolved"
  proof -
    have "resolved_of l' = resolved_of l" by (simp add: fun_eq_iff resolved_of_def load)
    moreover have "linked_inputs l' ?row = concat (map (\<lambda>role. resolved_of l' p role (opt_or (map_of ids role) '''')) ROLES)"
      by (simp add: linked_inputs_def links(2) new_links_def comp_def)
    ultimately show ?thesis using res by simp
  qed
  have "computed_from resolved (stored_computation c)"
    unfolding computed_from_def
  proof (intro exI conjI impI)
    show "set unavailable \<subseteq> set ROLES" using res by auto
    show "unavailable = []" if "rc_status c \<noteq> Roi_blocked" using that unavailable_blocks [OF c] by blast
  qed (use c in simp_all)
  then have "result_wf l' ?row"
    using res unfolding result_wf_def resolved links(2) by (auto simp: new_links_def load comp_def simp del: load_Ok)
  moreover have "result_wf l' r" if "r \<in> set (lg_results l)" for r
    using that result_wf_grows [OF grows links(1) [OF that]] wf by (simp add: ledger_wf_def)
  moreover have "request_wf l' (committed_request qi p key digest i)"
    using digest_of_links [OF digest] by (auto simp: request_wf_def committed_request_def same links(2) intro!: bexI [of _ ?row])
  moreover have "request_wf l' q" if "q \<in> set (lg_requests l)" for q
    using that request_wf_grows [OF grows links(1)] wf by (simp add: ledger_wf_def)
  moreover have "requests_keyed (lg_requests l')"
    using keys wf by (auto simp: requests_keyed_def same committed_request_def ledger_wf_def)
  moreover have "input_wf l' x" if "x \<in> set (lg_inputs l)" for x
    using that input_wf_grows [OF grows] wf by (simp add: ledger_wf_def)
  moreover have "rl_result k \<in> rr_id ` set (lg_results l')" if "k \<in> set (lg_links l')" for k
    using that wf by (auto simp: ledger_wf_def l' with_result_def new_links_def)
  ultimately have "ledger_wf l'"
    using wf fresh decisions_wf_grows [OF _ grows] context_wf_grows [OF _ grows]
    unfolding ledger_wf_def same by auto
  with grows show ?thesis by blast
qed

lemma calculation_keeps:
  assumes "request_calculation l p ids key qi i = Ok (l', rid, replayed)" "ledger_wf l"
  shows "ledger_wf l' \<and> ledger_grows l l'"
  using assms(1)
proof (cases rule: request_calculation_cases)
  case (replayed digest q)
  with assms(2) show ?thesis by simp
next
  case (computed digest unavailable resolved c)
  show ?thesis using with_result_keeps [OF assms(2) computed(7,1,4-6,8)] .
qed

subsection \<open>Histories\<close>

text \<open>One transaction: on the evidence tables, or one request to the operator surface.\<close>

inductive ledger_step :: "ledger \<Rightarrow> ledger \<Rightarrow> bool" where
  evidence_change: "evidence_step (lg_evidence l) ev \<Longrightarrow> ledger_step l (l\<lparr>lg_evidence := ev\<rparr>)"
| candidate_fact: "create_candidate_fact env l project b fid cid = (l', r) \<Longrightarrow> ledger_step l l'"
| fact_decision: "append_fact_decision env l project fact_id kind reason i = (l', r') \<Longrightarrow> ledger_step l l'"
| freezing: "freeze_endpoint env l project fact_id decision_id role i = (l', r') \<Longrightarrow> ledger_step l l'"
| calculation: "create_calculation env l project ids header qi i = (l', r'') \<Longrightarrow> ledger_step l l'"

inductive_simps ledger_step_iff: "ledger_step l l'"

definition empty_ledger :: ledger where
  "empty_ledger = \<lparr>lg_evidence = \<lparr>ev_projects = [], ev_blobs = [], ev_snapshots = [], ev_operations = [], ev_facts = [],
     ev_events = []\<rparr>, lg_contexts = [], lg_decisions = [], lg_inputs = [], lg_results = [], lg_links = [], lg_requests = []\<rparr>"

lemma empty_wf: "ledger_wf empty_ledger"
  by (simp add: ledger_wf_def empty_ledger_def evidence_wf_def decisions_wf_def context_wf_def requests_keyed_def)

lemma write_Ok: "write_txn env l body = (l', Ok x) \<longleftrightarrow> en_reachable env \<and> body = Ok (l', x) \<and> deferred_ok l l'"
  by (auto simp: write_txn_def split: sum.splits)

lemma write_Err: "write_txn env l body = (l', Err e) \<Longrightarrow> l' = l"
  by (auto simp: write_txn_def split: sum.splits if_splits)

text \<open>What each endpoint has done when its ledger has changed.\<close>

lemma candidate_cases:
  "create_candidate_fact env l project b fid cid = (l', r) \<Longrightarrow> l' = l \<or> (\<exists>f ctx. create_eligible_fact l f ctx = Ok l')"
  by (cases r) (auto simp: create_candidate_fact_def roi_endpoint_def candidate_fact_body_def write_Ok bind_result_eq_Ok
      dest: write_Err split: if_splits)

lemma decision_cases:
  "append_fact_decision env l project f kind reason i = (l', r) \<Longrightarrow> l' = l \<or>
     (\<exists>j. r = Ok j \<and> fact_decision_body l project f kind i = Ok (l', j))"
  by (cases r) (auto simp: append_fact_decision_def roi_endpoint_def write_Ok dest: write_Err split: if_splits)

lemma freezing_cases:
  "freeze_endpoint env l project f d role i = (l', r) \<Longrightarrow> l' = l \<or>
     (\<exists>j. r = Ok j \<and> freeze_body l project f d role i = Ok (l', j))"
  by (cases r) (auto simp: freeze_endpoint_def roi_endpoint_def write_Ok dest: write_Err split: if_splits)

lemma calculation_body_Ok:
  "calculation_body l p ids key qi i = Ok x \<longleftrightarrow> p \<in> set (ev_projects (lg_evidence l)) \<and> request_calculation l p ids key qi i = Ok x"
  by (auto simp: calculation_body_def require_project_def bind_result_eq_Ok split: sum.splits ledger_error.splits)

lemma calculation_Ok:
  "create_calculation env l p ids header qi i = (l', Ok (status, rid)) \<longleftrightarrow>
     en_enabled env \<and> en_reachable env \<and> map fst ids = ROLES \<and> uuid_text p \<and> py_strip (opt_or header '''') \<noteq> '''' \<and>
     length (py_strip (opt_or header '''')) \<le> 200 \<and> list_all (\<lambda>role. uuid_text (opt_or (map_of ids role) '''')) ROLES \<and>
     p \<in> set (ev_projects (lg_evidence l)) \<and> deferred_ok l l' \<and>
     (\<exists>replayed. request_calculation l p ids (py_strip (opt_or header '''')) qi i = Ok (l', rid, replayed) \<and>
        status = (if replayed then 200 else 201))"
  by (auto simp: create_calculation_def roi_endpoint_def Let_def write_Ok calculation_body_Ok)

lemma calculation_cases:
  assumes "create_calculation env l p ids header qi i = (l', r)"
  shows "l' = l \<or> (\<exists>rid replayed. request_calculation l p ids (py_strip (opt_or header '''')) qi i = Ok (l', rid, replayed))"
proof (cases r)
  case (Inl e)
  with assms show ?thesis by (auto simp: create_calculation_def roi_endpoint_def Let_def dest: write_Err split: if_splits)
next
  case (Inr x)
  obtain status rid where "x = (status, rid)" by (cases x)
  with Inr assms have "create_calculation env l p ids header qi i = (l', Ok (status, rid))" by simp
  then show ?thesis unfolding calculation_Ok by blast
qed

lemma ledger_step_keeps: "ledger_step l l' \<Longrightarrow> ledger_wf l \<Longrightarrow> ledger_wf l' \<and> ledger_grows l l'"
proof (induction rule: ledger_step.induct)
  case (evidence_change l ev)
  then have "evidence_wf ev \<and> evidence_grows (lg_evidence l) ev" using evidence_step_keeps by (auto simp: ledger_wf_def)
  with evidence_keeps [OF evidence_change(2)] show ?case by blast
next
  case (candidate_fact env l project b fid cid l' r)
  then show ?case using candidate_cases [OF candidate_fact(1)] eligible_fact_keeps by auto
next
  case (fact_decision env l project fact_id kind reason i l' r')
  then show ?case using decision_cases [OF fact_decision(1)] decision_body_keeps by auto
next
  case (freezing env l project fact_id decision_id role i l' r')
  from freezing_cases [OF freezing(1)] consider "l' = l" | "\<exists>row. insert_frozen_input l row = Ok l'"
    by (auto dest!: freeze_body_Ok elim!: freeze_cases)
  then show ?case using input_append_keeps freezing(2) by cases auto
next
  case (calculation env l project ids header qi i l' r'')
  then show ?case using calculation_cases [OF calculation(1)] calculation_keeps by auto
qed

lemma ledger_steps_keep: "ledger_step\<^sup>*\<^sup>* l l' \<Longrightarrow> ledger_wf l \<Longrightarrow> ledger_wf l' \<and> ledger_grows l l'"
proof (induction rule: rtranclp_induct)
  case (step y z)
  then show ?case using ledger_step_keeps ledger_grows_trans by blast
qed simp

lemma ledger_reachable: "ledger_step\<^sup>*\<^sup>* empty_ledger l \<Longrightarrow> ledger_wf l"
  using ledger_steps_keep empty_wf by blast

subsection \<open>A sample ledger\<close>

text \<open>A project with one snapshot and two approved facts, hours and an amount of money, frozen for the
  six roles.\<close>

definition sample_id :: "nat \<Rightarrow> string" where
  "sample_id n = ''00000000-0000-0000-0000-00000000000'' @ [hex_digit n]"

definition sample_fact :: "string \<Rightarrow> typed_fact" where
  "sample_fact i = (if i = ''hours'' then (blank_fact ''duration'' (Raw_decimal (Fin False 40 0)) '''')\<lparr>tf_time_unit := Some ''hours''\<rparr>
     else (blank_fact ''money'' (Raw_decimal (Fin False 45 0)) ''per_hour'')\<lparr>tf_currency := Some ''EUR'', tf_as_of := Some 739000\<rparr>)"

definition sample_evidence :: evidence where
  "sample_evidence = \<lparr>ev_projects = [sample_id 0],
     ev_blobs = [\<lparr>bl_id = ''b'', bl_project = sample_id 0, bl_algorithm = ''sha256'', bl_hash = ''h'', bl_size = 3\<rparr>],
     ev_snapshots = [\<lparr>sn_id = sample_id 0, sn_blob = ''b'', sn_project = sample_id 0, sn_storage_ref = ''r'',
       sn_kind = ''uploaded_file'', sn_locator = '''', sn_operation = ''o''\<rparr>],
     ev_operations = [],
     ev_facts = map (\<lambda>i. \<lparr>fa_id = i, fa_project = sample_id 0, fa_snapshot = sample_id 0, fa_fact = sample_fact i\<rparr>)
       [''hours'', ''money''],
     ev_events = []\<rparr>"

definition sample_frozen :: "nat \<Rightarrow> frozen_input" where
  "sample_frozen k =
     (let i = (if k < 2 then ''hours'' else ''money''); t = sample_fact i
      in \<lparr>fi_id = sample_id k, fi_project = sample_id 0, fi_role = ROLES ! k, fi_fact = i, fi_decision = i,
          fi_value = (if k < 2 then Fin False 40 0 else Fin False 45 0), fi_unit = tf_unit t, fi_currency = tf_currency t,
          fi_period = Some ''month'', fi_time_unit = tf_time_unit t, fi_as_of = tf_as_of t\<rparr>)"

definition sample_ledger :: ledger where
  "sample_ledger = \<lparr>lg_evidence = sample_evidence,
     lg_contexts = map (\<lambda>i. \<lparr>fc_id = i, fc_project = sample_id 0, fc_fact = i, fc_subject = ''invoices'', fc_metric = ''effort'',
       fc_period = Some ''month'', fc_locator = '''', fc_range = None, fc_rationale = ''''\<rparr>) [''hours'', ''money''],
     lg_decisions = map (\<lambda>i. \<lparr>de_id = i, de_project = sample_id 0, de_fact = i, de_type = Approve, de_seq = 1,
       de_revokes = None\<rparr>) [''hours'', ''money''],
     lg_inputs = map sample_frozen [0..<6], lg_results = [], lg_links = [], lg_requests = []\<rparr>"

definition sample_roi_env :: roi_env where
  "sample_roi_env = \<lparr>en_enabled = True, en_reachable = True\<rparr>"

definition sample_map :: "(string \<times> string) list" where
  "sample_map = map (\<lambda>k. (ROLES ! k, sample_id k)) [0..<6]"

lemma sample_evidence_wf: "evidence_wf sample_evidence"
proof -
  have "list_all (\<lambda>f. fact_row_ok (fa_fact f)) (ev_facts sample_evidence)" by code_simp
  then show ?thesis by (simp add: evidence_wf_def table_ok_def index_ok_def sample_evidence_def)
qed

lemma sample_ledger_wf: "ledger_wf sample_ledger"
proof -
  have "decisions_wf sample_ledger" by code_simp
  moreover have "context_wf sample_ledger" by code_simp
  moreover have "distinct (map fi_id (lg_inputs sample_ledger))" by code_simp
  moreover have "list_all (input_wf sample_ledger) (lg_inputs sample_ledger)" by code_simp
  moreover have "lg_evidence sample_ledger = sample_evidence" "lg_results sample_ledger = []" "lg_links sample_ledger = []"
    "lg_requests sample_ledger = []" by (simp_all add: sample_ledger_def)
  ultimately show ?thesis using sample_evidence_wf
    by (simp add: ledger_wf_def list_all_iff requests_keyed_def)
qed

end
