(* ===== verification/RoiClaims.thy ===== *)
theory RoiClaims
  imports RoiHistory
begin

text \<open>
  The properties of the Automation ROI lifecycle, over the histories of theory RoiHistory.
\<close>

subsection \<open>The compatibility contract and the checks of the database\<close>

lemma eq_val: "eq_decimal (Fin s c e) (Fin t d f) = Ok (dval (Fin s c e) = dval (Fin t d f))"
proof -
  let ?low = "min e f"
  have "scaled s c e ?low = scaled t d f ?low \<longleftrightarrow>
      real_of_int (scaled s c e ?low) * 10 powi ?low = real_of_int (scaled t d f ?low) * 10 powi ?low" by simp
  also have "\<dots> \<longleftrightarrow> dval (Fin s c e) = dval (Fin t d f)" by (simp only: scaled_val min.cobounded1 min.cobounded2)
  finally show ?thesis by (simp add: eq_decimal_def)
qed

lemma less_val: "less_decimal (Fin s c e) (Fin t d f) = Ok (dval (Fin s c e) < dval (Fin t d f))"
proof -
  let ?low = "min e f"
  have "scaled s c e ?low < scaled t d f ?low \<longleftrightarrow>
      real_of_int (scaled s c e ?low) * 10 powi ?low < real_of_int (scaled t d f ?low) * 10 powi ?low" by simp
  also have "\<dots> \<longleftrightarrow> dval (Fin s c e) < dval (Fin t d f)" by (simp only: scaled_val min.cobounded1 min.cobounded2)
  finally show ?thesis by (simp add: less_decimal_def)
qed

lemma whole_iff:
  assumes "\<not> is_nan d"
  shows "\<exists>w. to_integral_value d = Ok w \<and> eq_decimal d w = Ok (whole_numeric d)"
proof (cases d)
  case (Fin s c e)
  show ?thesis
  proof (cases "e \<ge> 0")
    case True
    with Fin show ?thesis by (simp add: eq_val)
  next
    case False
    let ?w = "Fin s (half_even c (10 ^ nat (- e))) 0"
    have w: "to_integral_value d = Ok ?w" using False by (simp add: Fin)
    have "eq_decimal d ?w = Ok (whole_numeric d)"
    proof (cases "10 ^ nat (- e) dvd c")
      case True
      then obtain q where q: "c = q * 10 ^ nat (- e)" by (metis dvd_div_mult_self)
      then have "half_even c (10 ^ nat (- e)) = q" by (simp add: half_even_exact)
      moreover have "scaled s c e e = scaled s q 0 e" using False by (simp add: scaled_def q)
      ultimately show ?thesis using True False by (simp add: Fin eq_decimal_def)
    next
      case not: False
      have "eq_decimal d ?w \<noteq> Ok True" using integral_whole [OF w] not False by (auto simp: Fin)
      moreover have "\<exists>b. eq_decimal d ?w = Ok b" by (simp add: Fin eq_decimal_def)
      ultimately show ?thesis using not False by (auto simp: Fin)
    qed
    with w show ?thesis by blast
  qed
next
  case (Infinite s)
  then show ?thesis by (simp add: eq_decimal_def)
next
  case (NaN s)
  with assms show ?thesis by simp
qed

lemma at_least_iff: "\<not> is_nan d \<Longrightarrow> at_least d n \<longleftrightarrow> less_decimal d (dec_of_nat n) = Ok False"
  by (cases d) (simp_all add: less_decimal_def dec_of_nat_def)

lemma at_least_column: "at_least (numeric_column d) n = at_least d n"
proof (cases d)
  case (Fin s c e)
  have "dval (numeric_column d) = dval d" by simp
  with Fin show ?thesis by (simp add: dec_of_nat_def less_val del: dval.simps numeric_column_val)
qed simp_all

lemma nan_column [simp]: "is_nan (numeric_column d) = is_nan d"
  by (cases d) simp_all

lemma less_returns: "\<not> is_nan d \<Longrightarrow> \<exists>b. less_decimal d (dec_of_nat n) = Ok b"
  by (simp add: less_decimal_def dec_of_nat_def)

lemma reject_negative_iff: "\<not> is_nan d \<Longrightarrow> reject_negative d = Ok None \<longleftrightarrow> at_least d 0"
  using less_returns [of d 0] by (auto simp: reject_negative_def at_least_iff)

lemma same_column: "\<not> is_nan d \<Longrightarrow> same_numeric (numeric_column d) d"
proof (cases d)
  case (Fin s c e)
  have "dval (numeric_column d) = dval d" by simp
  with Fin show ?thesis by (simp add: same_numeric_def eq_val del: dval.simps numeric_column_val)
qed (simp_all add: same_numeric_def)

lemma role_cases:
  assumes "role \<in> set ROLES"
  shows "role \<in> set HOURS_ROLES \<or> role = ''fully_loaded_rate_per_hour'' \<or> role = ''periods_per_year'' \<or>
    role = ''annual_recurring_cost'' \<or> role = ''one_time_implementation_cost''"
proof -
  have roles: "ROLES = HOURS_ROLES @ [''fully_loaded_rate_per_hour'', ''periods_per_year'', ''annual_recurring_cost'',
      ''one_time_implementation_cost'']"
    by (simp only: ROLES_def HOURS_ROLES_def append.simps)
  show ?thesis
    using assms unfolding roles by (simp only: set_append list.set Un_iff insert_iff empty_iff simp_thms)
qed

lemma no_hours [simp]: "''fully_loaded_rate_per_hour'' \<notin> set HOURS_ROLES" "''periods_per_year'' \<notin> set HOURS_ROLES"
    "''annual_recurring_cost'' \<notin> set HOURS_ROLES" "''one_time_implementation_cost'' \<notin> set HOURS_ROLES"
  by (simp_all add: HOURS_ROLES_def)

lemma compat_check:
  assumes "role \<in> set ROLES" "\<not> is_nan value"
  shows "(input_compatibility_reason role value (Some unit) currency time_unit = Ok None \<longrightarrow>
      role_typing_ok role (numeric_column value) unit currency time_unit) \<and>
    (role_typing_ok role value unit currency time_unit \<longrightarrow>
      input_compatibility_reason role value (Some unit) currency time_unit = Ok None \<or>
      (role \<in> set HOURS_ROLES \<and> time_unit = None) \<or> (role \<in> set MONEY_ROLES \<and> currency = Some ''''))"
proof -
  have neg: "reject_negative value = Ok None \<longleftrightarrow> at_least value 0" using assms(2) by (rule reject_negative_iff)
  obtain w where w: "to_integral_value value = Ok w" "eq_decimal value w = Ok (whole_numeric value)"
    using whole_iff [OF assms(2)] by blast
  obtain b where b: "less_decimal value (dec_of_nat 1) = Ok b" using less_returns [OF assms(2)] by blast
  then have one: "at_least value 1 \<longleftrightarrow> \<not> b" using at_least_iff [OF assms(2)] by simp
  have empty: "empty_opt currency \<longleftrightarrow> currency = None \<or> currency = Some ''''"
    by (cases currency) (simp_all add: empty_opt_def)
  note defs = role_typing_ok_def input_compatibility_reason_def
  from role_cases [OF assms(1)] show ?thesis
  proof (elim disjE)
    assume "role \<in> set HOURS_ROLES"
    then show ?thesis by (simp add: defs neg at_least_column)
  next
    assume "role = ''fully_loaded_rate_per_hour''"
    then show ?thesis by (simp add: defs neg at_least_column empty MONEY_ROLES_def)
  next
    assume "role = ''periods_per_year''"
    then show ?thesis by (simp add: defs w b one at_least_column whole_column del: One_nat_def)
  next
    assume "role = ''annual_recurring_cost''"
    then show ?thesis by (simp add: defs neg at_least_column empty MONEY_ROLES_def)
  next
    assume "role = ''one_time_implementation_cost''"
    then show ?thesis by (simp add: defs neg at_least_column empty MONEY_ROLES_def)
  qed
qed

text \<open>The compatibility contract that the code checks before it freezes a fact is the check
  constraint of the table, except in three cases. On a number that is not a NaN and for the six
  roles, an accepted fact always satisfies the constraint, in the form in which the column
  stores it; and the constraint accepts no more than the contract, unless the time unit of an
  hours role is missing (a comparison with NULL does not refuse a row) or a currency is the empty text.\<close>

theorem compat_mirrors_check:
  assumes "role \<in> set ROLES" "\<not> is_nan value"
  shows "(input_compatibility_reason role value (Some unit) currency time_unit = Ok None \<longrightarrow>
      role_typing_ok role (numeric_column value) unit currency time_unit) \<and>
    (role_typing_ok role value unit currency time_unit \<longrightarrow>
      input_compatibility_reason role value (Some unit) currency time_unit = Ok None \<or>
      (role \<in> set HOURS_ROLES \<and> time_unit = None) \<or> (role \<in> set MONEY_ROLES \<and> currency = Some ''''))"
  using assms by (rule compat_check)

theorem compat_mirrors_check_witness:
  "role_typing_ok ''fully_loaded_rate_per_hour'' (Fin False 4500 (- 2)) ''per_hour'' (Some ''EUR'') None"
  using compat_mirrors_check [of "''fully_loaded_rate_per_hour''" "Fin False 4500 (- 2)" "''per_hour''" "Some ''EUR''" None]
  by (simp add: ROLES_def HOURS_ROLES_def input_compatibility_reason_def empty_opt_def reject_negative_def less_decimal_def
      dec_of_nat_def scaled_def)

subsection \<open>Accepted statements\<close>

lemma eligible_fact_accepted:
  assumes wf: "ledger_wf l" and f: "fa_snapshot f \<noteq> ''''" "fact_row_ok (fa_fact f)" "fa_id f \<notin> fa_id ` set (ev_facts (lg_evidence l))"
    and snap: "list_ex (\<lambda>s. sn_id s = fa_snapshot f \<and> sn_project s = fa_project f) (ev_snapshots (lg_evidence l))"
    and ctx: "fc_subject ctx \<noteq> ''''" "fc_metric ctx \<noteq> ''''" "length (fc_rationale ctx) \<le> 2000" "fc_id ctx \<notin> fc_id ` set (lg_contexts l)"
  shows "\<exists>l'. create_eligible_fact l f ctx = Ok l'"
proof -
  have "insert_fact (lg_evidence l) f = Ok ((lg_evidence l)\<lparr>ev_facts := ev_facts (lg_evidence l) @ [stored_fact f]\<rparr>)"
    using f snap stored_fact_ok by (simp add: insert_fact_def)
  moreover have "fc_fact c \<noteq> fa_id f" if "c \<in> set (lg_contexts l)" for c
  proof -
    have "\<exists>g \<in> set (ev_facts (lg_evidence l)). fa_id g = fc_fact c"
      using wf that by (auto simp: ledger_wf_def context_wf_def list_all_iff list_ex_iff)
    then have "fc_fact c \<in> fa_id ` set (ev_facts (lg_evidence l))" by (metis imageI)
    with f(3) show ?thesis by metis
  qed
  moreover have "fc_id c \<noteq> fc_id ctx" if "c \<in> set (lg_contexts l)" for c using ctx(4) that by (metis imageI)
  ultimately show ?thesis using ctx by (auto simp: create_eligible_fact_def list_ex_iff of_store_def check_def)
qed

lemma candidate_body_sql:
  assumes "ledger_wf l" "fact_body_ok b" "uuid_text (fb_snapshot b)"
    and "fid \<notin> fa_id ` set (ev_facts (lg_evidence l))" "cid \<notin> fc_id ` set (lg_contexts l)"
  shows "candidate_fact_body l p b fid cid \<noteq> Err (Ledger_sql s)"
proof
  assume err: "candidate_fact_body l p b fid cid = Err (Ledger_sql s)"
  let ?f = "\<lambda>v. \<lparr>fa_id = fid, fa_project = p, fa_snapshot = fb_snapshot b, fa_fact = v\<rparr>"
  let ?ctx = "\<lparr>fc_id = cid, fc_project = p, fc_fact = fid, fc_subject = fb_subject b, fc_metric = fb_metric b,
                fc_period = fb_period b, fc_locator = fb_locator b, fc_range = fb_range b, fc_rationale = fb_rationale b\<rparr>"
  obtain v where v: "validate_fact (fb_fact b) = Ok v" "create_eligible_fact l (?f v) ?ctx = Err (Ledger_sql s)"
    and snap: "list_ex (\<lambda>s. sn_id s = fb_snapshot b \<and> sn_project s = p) (ev_snapshots (lg_evidence l))"
    using err by (auto simp: candidate_fact_body_def require_project_def check_def of_fact_def bind_result_def map_result_def
        split: if_splits sum.splits fact_error.splits)
  have "fb_snapshot b \<noteq> ''''" using assms(3) by (auto simp: uuid_text_def)
  with assms snap validated_once [OF v(1)] have "\<exists>l'. create_eligible_fact l (?f v) ?ctx = Ok l'"
    by (intro eligible_fact_accepted) (auto simp: fact_body_ok_def)
  with v(2) show False by simp
qed

text \<open>A decision whose turn it is.\<close>

lemma decision_accepted:
  assumes wf: "ledger_wf l" and found: "find_fact l p f \<noteq> None" and fresh: "i \<notin> de_id ` set (lg_decisions l)"
    and turn: "if kind = Approve then active_approval_id l p f = None \<and> revokes = None
       else revokes = active_approval_id l p f \<and> revokes \<noteq> None"
  shows "\<exists>l'. append_decision l p f kind revokes i = Ok l'"
proof -
  obtain row where row: "find_fact l p f = Some row" using found by blast
  note r = find_fact_Some [OF row]
  have dwf: "decisions_wf l" "evidence_wf (lg_evidence l)" using wf by (auto simp: ledger_wf_def)
  have same: "fact_decisions l p f = chain_of l f" using fact_decisions_chain [OF dwf(2,1)] r by blast
  note chain = chain_ofI [OF dwf(1), of f] and active = active_is_end [OF dwf(1) same]
  have seq: "next_decision_seq l p f = length (chain_of l f) + 1"
    using next_seq [OF chain] by (simp add: next_decision_seq_def same)
  have seqs: "de_seq x \<noteq> length (chain_of l f) + 1" if "x \<in> set (lg_decisions l)" "de_fact x = f" for x
  proof -
    have "x \<in> set (chain_of l f)" using that by (simp add: chain_of_def)
    then obtain j where "j < length (chain_of l f)" "chain_of l f ! j = x" by (auto simp: in_set_conv_nth)
    with chain show ?thesis by (auto simp: chain_iff chain_place_def)
  qed
  have once: "(revokes \<noteq> None \<longrightarrow> de_revokes x \<noteq> revokes)" if x: "x \<in> set (lg_decisions l)" for x
  proof (cases revokes)
    case (Some d)
    with turn active have d: "odd (length (chain_of l f))" "d = de_id (last (chain_of l f))"
      by (auto simp: chain_end_def split: if_splits)
    let ?i = "length (chain_of l f) - 1"
    have last: "?i < length (chain_of l f)" "even ?i" "chain_of l f ! ?i = last (chain_of l f)"
    proof -
      have "chain_of l f \<noteq> []" using d(1) by auto
      then show "?i < length (chain_of l f)" "even ?i" "chain_of l f ! ?i = last (chain_of l f)"
        using d(1) by (simp_all add: last_conv_nth)
    qed
    have "\<not> revoked l d" using revoked_iff [OF dwf(1) last(1,2)] last(3) d(2) by simp
    with x Some show ?thesis by (auto simp: revoked_def list_ex_iff)
  qed simp
  have target: "list_ex (\<lambda>x. Some (de_id x) = revokes \<and> de_type x = Approve \<and> de_fact x = f \<and> de_project x = p) (lg_decisions l)"
    if "revokes \<noteq> None"
  proof -
    have "active_approval_id l p f = revokes" using turn that by (simp split: if_splits)
    then show ?thesis using that unfolding active_approval_id_def list_ex_iff
      by (auto dest: first_row_Some(1,2))
  qed
  let ?d = "\<lparr>de_id = i, de_project = p, de_fact = f, de_type = kind, de_seq = next_decision_seq l p f, de_revokes = revokes\<rparr>"
  have shape: "(kind = Approve) = (revokes = None)" using turn by (cases "kind = Approve") metis+
  have "\<not> list_ex (\<lambda>x. de_id x = de_id ?d \<or> (de_fact x = de_fact ?d \<and> de_seq x = de_seq ?d) \<or>
      (de_revokes ?d \<noteq> None \<and> de_revokes x = de_revokes ?d)) (lg_decisions l)"
    unfolding list_ex_iff using fresh seqs once by (auto simp: seq)
  moreover have "list_ex (\<lambda>g. fa_id g = f \<and> fa_project g = p) (ev_facts (lg_evidence l))"
    unfolding list_ex_iff using r by blast
  ultimately have "insert_decision l ?d = Ok (l\<lparr>lg_decisions := lg_decisions l @ [?d]\<rparr>)"
    using target shape by (cases "revokes = None") (simp_all add: insert_decision_def revoke_shape_def seq)
  with shape show ?thesis by (auto simp: append_decision_def)
qed

lemma decision_body_sql:
  assumes "ledger_wf l" "i \<notin> de_id ` set (lg_decisions l)"
  shows "fact_decision_body l p f kind i \<noteq> Err (Ledger_sql s)"
proof
  assume err: "fact_decision_body l p f kind i = Err (Ledger_sql s)"
  then obtain revokes where found: "find_fact l p f \<noteq> None"
    and app: "append_decision l p f kind revokes i = Err (Ledger_sql s)"
    and turn: "if kind = Approve then active_approval_id l p f = None \<and> revokes = None
       else revokes = active_approval_id l p f \<and> revokes \<noteq> None"
    by (auto simp: fact_decision_body_def require_project_def check_def Let_def map_result_def
        split: if_splits sum.splits)
  from decision_accepted [OF assms(1) found assms(2) turn] app show False by simp
qed

lemma nan_compat:
  assumes "role \<in> set ROLES" "input_compatibility_reason role d unit currency time_unit = Ok None"
  shows "\<not> is_nan d"
proof
  assume nan: "is_nan d"
  then have "reject_negative d \<noteq> Ok None" by (simp add: reject_negative_def less_decimal_def map_result_def)
  moreover have "bind_result (to_integral_value d) (\<lambda>whole. bind_result (eq_decimal d whole) (\<lambda>integral.
      if \<not> integral then Ok (Some Periods_integral) else f whole)) \<noteq> Ok None" for f
    using nan by (cases d) (auto simp: eq_decimal_def)
  ultimately show False
    using assms(2) role_cases [OF assms(1)] unfolding input_compatibility_reason_def
    by (elim disjE) (simp_all split: if_splits)
qed

lemma freeze_body_sql:
  assumes wf: "ledger_wf l" and role: "role \<in> set ROLES" and fresh: "i \<notin> fi_id ` set (lg_inputs l)"
  shows "freeze_body l p f d role i \<noteq> Err (Ledger_sql s)"
proof
  assume "freeze_body l p f d role i = Err (Ledger_sql s)"
  then have err: "freeze_input l p f role (Some d) i = Err (Ledger_sql s)"
    by (auto simp: freeze_body_def require_project_def check_def split: if_splits sum.splits ledger_error.splits)
  obtain active row ctx v where active: "active_approval_id l p f = Some active"
    and row: "find_fact l p f = Some row" and ctx: "find_context l p f = Some ctx"
    and v: "tf_value (fa_fact row) = Raw_decimal v"
    and compat: "input_compatibility_reason role v (Some (tf_unit (fa_fact row))) (tf_currency (fa_fact row))
       (tf_time_unit (fa_fact row)) = Ok None"
    and ins: "insert_frozen_input l \<lparr>fi_id = i, fi_project = p, fi_role = role, fi_fact = f, fi_decision = active,
       fi_value = v, fi_unit = tf_unit (fa_fact row), fi_currency = tf_currency (fa_fact row), fi_period = fc_period ctx,
       fi_time_unit = tf_time_unit (fa_fact row), fi_as_of = tf_as_of (fa_fact row)\<rparr> = Err (Ledger_sql s)"
    using err unfolding freeze_input_def Let_def
    by (auto simp: check_def split: option.splits raw_value.splits sum.splits if_splits)
  note not_nan = nan_compat [OF role compat]
  obtain x where x: "x \<in> set (lg_decisions l)" "de_id x = active" "de_fact x = f" "de_project x = p" "de_type x = Approve"
    using active unfolding active_approval_id_def by (auto dest: first_row_Some(1,2))
  have "role_typing_ok role (numeric_column v) (tf_unit (fa_fact row)) (tf_currency (fa_fact row)) (tf_time_unit (fa_fact row))"
    using compat_check [OF role not_nan] compat by blast
  moreover have "list_ex (\<lambda>d. de_id d = active \<and> de_type d = Approve \<and> de_fact d = f \<and> de_project d = p) (lg_decisions l)"
    unfolding list_ex_iff using x by blast
  ultimately show False
    using ins role fresh row ctx v same_column [OF not_nan]
    by (simp add: insert_frozen_input_def check_def frozen_matches_def)
qed

lemma computed_shape:
  assumes "compute_automation_roi inputs unavailable = Ok c" shows "value_shape (stored_computation c)"
proof -
  have "value_shape c"
    using assms
    by (auto simp: compute_automation_roi_def bind_result_eq_Ok Let_def arith_def compute_values_def blocked_result_def
        value_shape_def split: option.splits sum.splits if_splits)
  then show ?thesis by (auto simp: value_shape_def stored_computation_def split: roi_status.splits)
qed

lemma link_accepted:
  assumes "distinct roles" "list_ex (\<lambda>r. rr_id r = i \<and> rr_project r = p) (lg_results l)"
    and "\<forall>k \<in> set (lg_links l). rl_result k = i \<longrightarrow> rl_role k \<notin> set roles"
    and "\<forall>role \<in> set roles. \<exists>x. load_frozen_input l p (opt_or (map_of ids role) '''') = Ok x \<and> fi_role x = role"
  shows "link_inputs l p i ids roles = Ok (l\<lparr>lg_links := lg_links l @ new_links p i ids roles\<rparr>)"
  using assms
proof (induction roles arbitrary: l)
  case (Cons role roles)
  let ?k = "\<lparr>rl_project = p, rl_result = i, rl_input = opt_or (map_of ids role) '''', rl_role = role\<rparr>"
  let ?l = "l\<lparr>lg_links := lg_links l @ [?k]\<rparr>"
  have "list_ex (\<lambda>x. fi_id x = rl_input ?k \<and> fi_role x = role \<and> fi_project x = p) (lg_inputs l)"
    using Cons.prems(4) by (auto simp: list_ex_iff dest!: find_SomeD)
  then have "link_result_input l ?k = Ok ?l"
    using Cons.prems(2,3) by (auto simp: link_result_input_def check_def list_ex_iff)
  moreover have "load_frozen_input ?l = load_frozen_input l" by (simp add: fun_eq_iff load_frozen_input_def)
  then have "link_inputs ?l p i ids roles = Ok (?l\<lparr>lg_links := lg_links ?l @ new_links p i ids roles\<rparr>)"
    using Cons.prems by (intro Cons.IH) auto
  ultimately show ?case by (simp add: new_links_def)
qed (simp add: new_links_def)

lemma distinct_roles: "distinct ROLES"
  by code_simp

lemma store_accepted:
  assumes wf: "ledger_wf l" and p: "p \<in> set (ev_projects (lg_evidence l))" and fresh: "i \<notin> rr_id ` set (lg_results l)"
    and res: "resolve_inputs l p ids ROLES = Ok (unavailable, resolved)" and c: "compute_automation_roi resolved unavailable = Ok c"
    and l1: "l1 = l\<lparr>lg_requests := qs\<rparr>"
  shows "compute_and_store l1 p ids i = Ok (l1\<lparr>lg_results := lg_results l1 @ [\<lparr>rr_id = i, rr_project = p,
      rr_result = stored_computation c\<rparr>], lg_links := lg_links l1 @ new_links p i ids ROLES\<rparr>)"
proof -
  let ?l2 = "l1\<lparr>lg_results := lg_results l1 @ [\<lparr>rr_id = i, rr_project = p, rr_result = stored_computation c\<rparr>]\<rparr>"
  have ins: "insert_calculation_result l1 p c i = Ok ?l2"
    using computed_shape [OF c] fresh p by (simp add: insert_calculation_result_def l1)
  have "link_inputs ?l2 p i ids ROLES = Ok (?l2\<lparr>lg_links := lg_links ?l2 @ new_links p i ids ROLES\<rparr>)"
  proof (rule link_accepted [OF distinct_roles])
    show "list_ex (\<lambda>r. rr_id r = i \<and> rr_project r = p) (lg_results ?l2)" by simp
    show "\<forall>k \<in> set (lg_links ?l2). rl_result k = i \<longrightarrow> rl_role k \<notin> set ROLES"
      using wf fresh by (auto simp: ledger_wf_def l1)
    have "load_frozen_input ?l2 = load_frozen_input l" by (simp add: fun_eq_iff load_frozen_input_def l1)
    then show "\<forall>role \<in> set ROLES. \<exists>x. load_frozen_input ?l2 p (opt_or (map_of ids role) '''') = Ok x \<and> fi_role x = role"
      using resolve_cases [OF res] by metis
  qed
  then show ?thesis using res c ins by (simp add: compute_and_store_def of_roi_def l1)
qed

lemma claim_accepted:
  assumes "p \<in> set (ev_projects (lg_evidence l))" "1 \<le> length key" "length key \<le> 200" "length digest = 64"
    and "\<not> list_ex (\<lambda>q. rq_id q = qi \<or> (rq_project q = p \<and> (rq_key q = key \<or> rq_digest q = digest))) (lg_requests l)"
  shows "claim_request l p key digest qi = Ok (l\<lparr>lg_requests := lg_requests l @ [\<lparr>rq_id = qi, rq_project = p, rq_key = key,
     rq_digest = digest, rq_status = Request_pending, rq_result = None\<rparr>]\<rparr>, True)"
  using assms by (simp add: claim_request_def)

lemma commit_accepted:
  assumes "\<forall>q \<in> set qs. rq_id q \<noteq> qi" "lg_requests l = qs @ [\<lparr>rq_id = qi, rq_project = p, rq_key = key,
     rq_digest = digest, rq_status = Request_pending, rq_result = None\<rparr>]"
    and "list_ex (\<lambda>r. rr_id r = i \<and> rr_project r = p) (lg_results l)"
  shows "\<exists>l3. commit_request l p qi i = Ok l3"
  using assms by (auto simp: commit_request_def Let_def check_def list_ex_iff)

lemma calculation_sql:
  assumes wf: "ledger_wf l" and p: "p \<in> set (ev_projects (lg_evidence l))" and key: "1 \<le> length key" "length key \<le> 200"
    and fresh: "i \<notin> rr_id ` set (lg_results l)"
  shows "request_calculation l p ids key qi i \<noteq> Err (Ledger_sql s)"
proof
  assume err: "request_calculation l p ids key qi i = Err (Ledger_sql s)"
  have no_roi: "of_roi r \<noteq> Err (Ledger_sql s)" for r :: "(roi_error, 'a) result"
    by (auto simp: of_roi_def split: sum.splits roi_error.splits)
  have no_replay: "replay l q \<noteq> Err (Ledger_sql s)" for q by (simp add: replay_def split: option.splits)
  obtain digest where digest: "of_roi (canonical_request_digest p ids) = Ok digest"
    using err no_roi by (cases "of_roi (canonical_request_digest p ids)")
      (auto simp: request_calculation_def request_roles_def check_def Let_def split: if_splits)
  then have len: "length digest = 64"
    by (auto simp: of_roi_def canonical_request_digest_def Let_def split: sum.splits if_splits)
  let ?q = "\<lparr>rq_id = qi, rq_project = p, rq_key = key, rq_digest = digest, rq_status = Request_pending, rq_result = None\<rparr>"
  let ?l1 = "l\<lparr>lg_requests := lg_requests l @ [?q]\<rparr>"
  have none: "\<not> list_ex (\<lambda>q. rq_id q = qi \<or> (rq_project q = p \<and> (rq_key q = key \<or> rq_digest q = digest))) (lg_requests l)"
    using err digest no_replay key len
    by (auto simp: request_calculation_def request_roles_def check_def Let_def claim_request_def
        split: if_splits option.splits)
  note claim = claim_accepted [OF p key len none]
  have rest: "bind_result (compute_and_store ?l1 p ids i) (\<lambda>l2. map_result (\<lambda>l3. (l3, i, False)) (commit_request l2 p qi i))
      = Err (Ledger_sql s)"
    using err digest claim by (auto simp: request_calculation_def request_roles_def check_def Let_def split: if_splits)
  have ids: "\<forall>q \<in> set (lg_requests l). rq_id q \<noteq> qi" using none by (auto simp: list_ex_iff)
  show False
  proof (cases "compute_and_store ?l1 p ids i")
    case (Inr l2)
    then have "\<exists>l3. commit_request l2 p qi i = Ok l3"
      by (rule compute_store_cases) (intro commit_accepted [OF ids]; simp)
    with rest Inr show False by auto
  next
    case (Inl e)
    with rest have stuck: "compute_and_store ?l1 p ids i = Err (Ledger_sql s)" by simp
    have resolve_sql: "resolve_inputs l p ids roles \<noteq> Err (Ledger_sql s)" for roles
      by (induction roles) (auto simp: load_frozen_input_def Let_def check_def map_result_def split: option.splits sum.splits)
    obtain unavailable resolved where res: "resolve_inputs l p ids ROLES = Ok (unavailable, resolved)"
      using stuck resolve_sql [of ROLES] by (cases "resolve_inputs l p ids ROLES") (auto simp: compute_and_store_def)
    obtain c where c: "of_roi (compute_automation_roi resolved unavailable) = Ok c"
      using stuck no_roi [of "compute_automation_roi resolved unavailable"]
      by (cases "of_roi (compute_automation_roi resolved unavailable)") (auto simp: compute_and_store_def res)
    then have "compute_automation_roi resolved unavailable = Ok c" by (auto simp: of_roi_def split: sum.splits)
    from store_accepted [OF wf p fresh res this refl] stuck show False by simp
  qed
qed

text \<open>A new operation on inputs that the engine can compute with is accepted.\<close>

lemma calculation_accepted:
  assumes wf: "ledger_wf l" and p: "p \<in> set (ev_projects (lg_evidence l))" and key: "1 \<le> length key" "length key \<le> 200"
    and fresh: "i \<notin> rr_id ` set (lg_results l)"
    and digest: "canonical_request_digest p ids = Ok digest"
    and none: "\<not> list_ex (\<lambda>q. rq_id q = qi \<or> (rq_project q = p \<and> (rq_key q = key \<or> rq_digest q = digest))) (lg_requests l)"
    and res: "resolve_inputs l p ids ROLES = Ok (unavailable, resolved)" and c: "compute_automation_roi resolved unavailable = Ok c"
  shows "\<exists>l'. request_calculation l p ids key qi i = Ok (l', i, False)"
proof -
  have roles: "set (map fst ids) = set ROLES" and len: "length digest = 64"
    using digest by (auto simp: canonical_request_digest_def Let_def split: if_splits)
  let ?l1 = "l\<lparr>lg_requests := lg_requests l @ [\<lparr>rq_id = qi, rq_project = p, rq_key = key,
     rq_digest = digest, rq_status = Request_pending, rq_result = None\<rparr>]\<rparr>"
  let ?l2 = "?l1\<lparr>lg_results := lg_results ?l1 @ [\<lparr>rr_id = i, rr_project = p, rr_result = stored_computation c\<rparr>],
     lg_links := lg_links ?l1 @ new_links p i ids ROLES\<rparr>"
  have "\<forall>q \<in> set (lg_requests l). rq_id q \<noteq> qi" using none by (auto simp: list_ex_iff)
  then have "\<exists>l3. commit_request ?l2 p qi i = Ok l3" by (rule commit_accepted) simp_all
  then obtain l3 where l3: "commit_request ?l2 p qi i = Ok l3" by blast
  have store: "compute_and_store ?l1 p ids i = Ok ?l2" by (rule store_accepted [OF wf p fresh res c refl])
  have "request_calculation l p ids key qi i = Ok (l3, i, False)"
    unfolding request_calculation_def request_roles_def Let_def using roles digest
    by (simp only: check_def if_True bind_result_Ok of_roi_def sum.case claim_accepted [OF p key len none] prod.case store l3
        map_result_simps not_True_eq_False if_False simp_thms)
  then show ?thesis by blast
qed

text \<open>The deferred trigger accepts every result that the service has computed.\<close>

lemma deferred_accepted:
  assumes "request_calculation l p ids key qi i = Ok (l', rid, replayed)" "ledger_wf l"
  shows "deferred_ok l l'"
  using assms(1)
proof (cases rule: request_calculation_cases)
  case (replayed digest q)
  then show ?thesis by (simp add: deferred_ok_def list_all_iff)
next
  case (computed digest unavailable resolved c)
  let ?row = "\<lparr>rr_id = i, rr_project = p, rr_result = stored_computation c\<rparr>"
  note links = with_result_links(2) [OF assms(2) computed(7,8), of "stored_computation c"]
  have same: "lg_inputs l' = lg_inputs l" "input_consumable l' = input_consumable l"
    by (simp_all add: computed(8) with_result_def fun_eq_iff input_consumable_def revoked_def)
  have avail: "input_consumable l x"
    if status: "rc_status c \<noteq> Roi_blocked" and role: "role \<in> set ROLES" and x: "x \<in> set (lg_inputs l)"
      "fi_id x = opt_or (map_of ids role) ''''" for x role
  proof -
    have "unavailable = []" using status unavailable_blocks [OF computed(6)] by blast
    then have loaded: "input_consumable l y" if "load_frozen_input l p (opt_or (map_of ids role) '''') = Ok y" for y
      using resolve_cases [OF computed(5)] role that by (auto simp: filter_empty_conv simp del: load_Ok)
    obtain y where y: "load_frozen_input l p (opt_or (map_of ids role) '''') = Ok y"
      using resolve_cases [OF computed(5)] role by metis
    then have "y \<in> set (lg_inputs l)" "fi_id y = fi_id x" using x(2) by (auto dest!: find_SomeD)
    then have "y = x" using x(1) assms(2) ident_unique [of fi_id "lg_inputs l" y x] by (simp add: ledger_wf_def)
    with loaded [OF y] show ?thesis by simp
  qed
  have roles: "map rl_role (new_links p i ids ROLES) = ROLES" by (simp add: new_links_def comp_def)
  have new: "rl_role k \<in> set ROLES \<and> rl_input k = opt_or (map_of ids (rl_role k)) ''''" if "k \<in> set (new_links p i ids ROLES)" for k
    using that by (auto simp: new_links_def)
  have "result_invariant l' ?row"
    unfolding result_invariant_def Let_def same
    using links roles new avail by (auto simp: links_of_def list_all_iff stored_computation_def)
  then show ?thesis by (auto simp: deferred_ok_def list_all_iff computed(8) with_result_def)
qed

lemma write_conflict:
  assumes "snd (write_txn env l body) = Err (409, CONFLICT)"
  shows "(\<exists>s. body = Err (Ledger_sql s)) \<or> body = Err (Ledger_http 409 CONFLICT) \<or> (\<exists>l' x. body = Ok (l', x) \<and> \<not> deferred_ok l l')"
  using assms
  by (auto simp: write_txn_def http_of_def DB_UNAVAILABLE_def split: if_splits sum.splits ledger_error.splits)

lemma same_results_deferred: "lg_results l' = lg_results l \<Longrightarrow> deferred_ok l l'"
  by (simp add: deferred_ok_def list_all_iff)

lemma candidate_no_conflict:
  assumes wf: "ledger_wf l" and fresh: "fid \<notin> fa_id ` set (ev_facts (lg_evidence l))" "cid \<notin> fc_id ` set (lg_contexts l)"
  shows "snd (create_candidate_fact env l project b fid cid) \<noteq> Err (409, CONFLICT)"
proof
  assume "snd (create_candidate_fact env l project b fid cid) = Err (409, CONFLICT)"
  then have "fact_body_ok b" "uuid_text (fb_snapshot b)"
    "snd (write_txn env l (candidate_fact_body l project b fid cid)) = Err (409, CONFLICT)"
    by (auto simp: create_candidate_fact_def roi_endpoint_def split: if_splits)
  from write_conflict [OF this(3)] candidate_body_sql [OF wf this(1,2) fresh, of project]
  show False
    by (auto simp: candidate_fact_body_def require_project_def check_def bind_result_eq_Ok of_fact_def bind_result_def
        map_result_def CONFLICT_def create_eligible_fact_def of_store_def deferred_ok_def list_all_iff
        split: if_splits sum.splits fact_error.splits store_error.splits)
qed

lemma decision_no_conflict:
  assumes wf: "ledger_wf l" and fresh: "i \<notin> de_id ` set (lg_decisions l)"
  shows "snd (append_fact_decision env l project fact_id kind reason i) \<noteq> Err (409, CONFLICT)"
proof
  assume "snd (append_fact_decision env l project fact_id kind reason i) = Err (409, CONFLICT)"
  then have "snd (write_txn env l (fact_decision_body l project fact_id kind i)) = Err (409, CONFLICT)"
    by (auto simp: append_fact_decision_def roi_endpoint_def split: if_splits)
  from write_conflict [OF this] decision_body_sql [OF wf fresh, of project fact_id kind]
  consider "fact_decision_body l project fact_id kind i = Err (Ledger_http 409 CONFLICT)"
    | l' j where "fact_decision_body l project fact_id kind i = Ok (l', j)" "\<not> deferred_ok l l'" by blast
  then show False
  proof cases
    case 1
    then show False
      by (auto simp: fact_decision_body_def require_project_def check_def Let_def map_result_def CONFLICT_def
          append_decision_def insert_decision_def split: if_splits sum.splits)
  next
    case 2
    then have "lg_results l' = lg_results l"
      by (auto simp: fact_decision_body_def Let_def bind_result_eq_Ok append_decision_def dest!: insert_decision_cases
          split: if_splits)
    with 2(2) show False by (simp add: same_results_deferred)
  qed
qed

lemma freeze_no_conflict:
  assumes wf: "ledger_wf l" and fresh: "i \<notin> fi_id ` set (lg_inputs l)"
  shows "snd (freeze_endpoint env l project fact_id decision_id role i) \<noteq> Err (409, CONFLICT)"
proof
  assume "snd (freeze_endpoint env l project fact_id decision_id role i) = Err (409, CONFLICT)"
  then have role: "role \<in> set ROLES"
    and "snd (write_txn env l (freeze_body l project fact_id decision_id role i)) = Err (409, CONFLICT)"
    by (auto simp: freeze_endpoint_def roi_endpoint_def split: if_splits)
  from write_conflict [OF this(2)] freeze_body_sql [OF wf role fresh, of project fact_id decision_id]
  consider "freeze_body l project fact_id decision_id role i = Err (Ledger_http 409 CONFLICT)"
    | l' j where "freeze_body l project fact_id decision_id role i = Ok (l', j)" "\<not> deferred_ok l l'" by blast
  then show False
  proof cases
    case 1
    have "freeze_input l project fact_id role (Some decision_id) i \<noteq> Err (Ledger_http 409 CONFLICT)"
      by (simp add: freeze_input_def insert_frozen_input_def check_def Let_def split: option.split raw_value.split sum.split)
    with 1 show False
      by (auto simp: freeze_body_def require_project_def check_def compat_detail_def CONFLICT_def
          split: if_splits sum.splits ledger_error.splits)
  next
    case 2
    then obtain row where "insert_frozen_input l row = Ok l'" by (auto dest!: freeze_body_Ok elim!: freeze_cases)
    then have "lg_results l' = lg_results l" by (rule insert_frozen_cases) simp
    with 2(2) show False by (simp add: same_results_deferred)
  qed
qed

text \<open>The service raises no HTTP exception itself.\<close>

lemma calculation_no_http: "request_calculation l p ids key qi i \<noteq> Err (Ledger_http status detail)"
proof
  assume err: "request_calculation l p ids key qi i = Err (Ledger_http status detail)"
  have of_roi: "of_roi r \<noteq> Err (Ledger_http status detail)" for r :: "(roi_error, 'a) result"
    by (auto simp: of_roi_def split: sum.splits roi_error.splits)
  have replay: "replay l' q \<noteq> Err (Ledger_http status detail)" for l' q by (simp add: replay_def split: option.splits)
  have resolve: "resolve_inputs l' p ids roles \<noteq> Err (Ledger_http status detail)" for l' roles
    by (induction roles) (auto simp: load_frozen_input_def Let_def check_def map_result_def split: option.splits sum.splits)
  have link: "link_inputs l' p i ids roles \<noteq> Err (Ledger_http status detail)" for l' roles
    by (induction roles arbitrary: l') (auto simp: link_result_input_def check_def)
  have store: "compute_and_store l' p ids i \<noteq> Err (Ledger_http status detail)" for l'
    using of_roi resolve link
    by (auto simp: compute_and_store_def insert_calculation_result_def check_def bind_result_def split: sum.splits prod.splits)
  show False
    using err of_roi replay store
    by (auto simp: request_calculation_def request_roles_def claim_request_def commit_request_def check_def bind_result_def
        map_result_def Let_def split: sum.splits prod.splits option.splits if_splits)
qed

lemma calculation_no_conflict:
  assumes wf: "ledger_wf l" and fresh: "i \<notin> rr_id ` set (lg_results l)"
  shows "snd (create_calculation env l project ids header qi i) \<noteq> Err (409, CONFLICT)"
proof
  let ?key = "py_strip (opt_or header '''')"
  assume "snd (create_calculation env l project ids header qi i) = Err (409, CONFLICT)"
  then have key: "1 \<le> length ?key" "length ?key \<le> 200"
    and "snd (write_txn env l (map_result (\<lambda>(l', i, replayed). (l', (if replayed then (200 :: nat) else 201), i))
           (calculation_body l project ids ?key qi i))) = Err (409, CONFLICT)"
    by (auto simp: create_calculation_def roi_endpoint_def Let_def Suc_le_eq split: if_splits)
  from write_conflict [OF this(3)] consider s where "calculation_body l project ids ?key qi i = Err (Ledger_sql s)"
    | "calculation_body l project ids ?key qi i = Err (Ledger_http 409 CONFLICT)"
    | l' rid replayed where "calculation_body l project ids ?key qi i = Ok (l', rid, replayed)" "\<not> deferred_ok l l'"
    by (cases "calculation_body l project ids ?key qi i") auto
  then show False
  proof cases
    case 1
    then have "project \<in> set (ev_projects (lg_evidence l))" "request_calculation l project ids ?key qi i = Err (Ledger_sql s)"
      by (auto simp: calculation_body_def require_project_def check_def split: if_splits sum.splits ledger_error.splits)
    then show False using calculation_sql [OF wf _ key fresh] by blast
  next
    case 2
    have "request_calculation l project ids ?key qi i \<noteq> Err (Ledger_http 409 CONFLICT)"
      by (rule calculation_no_http)
    with 2 show False
      by (auto simp: calculation_body_def require_project_def check_def CONFLICT_def
          split: if_splits sum.splits ledger_error.splits)
  next
    case 3
    then show False using deferred_accepted [OF _ wf] by (auto simp: calculation_body_Ok)
  qed
qed



subsection \<open>Approvals\<close>

lemma decision_body_returns:
  assumes wf: "ledger_wf l" and row: "row \<in> set (ev_facts (lg_evidence l))" "fa_id row = f" "fa_project row = p"
    and p: "p \<in> set (ev_projects (lg_evidence l))" and fresh: "i \<notin> de_id ` set (lg_decisions l)"
  shows "(\<exists>l'. fact_decision_body l p f kind i = Ok (l', i)) \<longleftrightarrow> (kind = Approve) = even (length (fact_decisions l p f))"
proof -
  have dwf: "decisions_wf l" "evidence_wf (lg_evidence l)" using wf by (auto simp: ledger_wf_def)
  have same: "fact_decisions l p f = chain_of l f" by (rule fact_decisions_chain [OF dwf(2,1) row])
  note active = active_is_end [OF dwf(1) same]
  have found: "find_fact l p f \<noteq> None" using row by (auto simp: find_fact_def find_None_iff)
  have none: "active_approval_id l p f = None \<longleftrightarrow> even (length (fact_decisions l p f))"
    by (simp add: active same chain_end_def)
  show ?thesis
  proof (cases "kind = Approve")
    case True
    have "active_approval_id l p f = None \<Longrightarrow> \<exists>l'. append_decision l p f Approve None i = Ok l'"
      using decision_accepted [OF wf found fresh, of Approve None] by simp
    with True found p none show ?thesis
      by (auto simp: fact_decision_body_def require_project_def check_def Let_def)
  next
    case False
    have "active_approval_id l p f \<noteq> None \<Longrightarrow> \<exists>l'. append_decision l p f kind (active_approval_id l p f) i = Ok l'"
      using decision_accepted [OF wf found fresh, of kind "active_approval_id l p f"] False by simp
    with False found p none show ?thesis
      by (auto simp: fact_decision_body_def require_project_def check_def Let_def)
  qed
qed

text \<open>C13: the approval chain of a fact. Over every history its decisions are numbered from one and take
  turns: an approval, then a rejection or withdrawal that names this approval, then the next
  approval. So at most one approval is active, it is the last decision, the status follows from
  the number of decisions, and the endpoint accepts exactly the kind of decision whose turn it is.\<close>

theorem approvals_take_turns:
  assumes "ledger_wf l0" "ledger_step\<^sup>*\<^sup>* l0 l" "row \<in> set (ev_facts (lg_evidence l))" "fa_project row = p"
  shows "decision_chain (fact_decisions l p (fa_id row)) \<and>
    active_approval_id l p (fa_id row) = chain_end (fact_decisions l p (fa_id row)) \<and>
    effective_status l p (fa_id row) = (if fact_decisions l p (fa_id row) = [] then ''none''
      else if even (length (fact_decisions l p (fa_id row))) then ''revoked'' else ''approved'') \<and>
    (p \<in> set (ev_projects (lg_evidence l)) \<and> i \<notin> de_id ` set (lg_decisions l) \<longrightarrow>
      (\<exists>l'. fact_decision_body l p (fa_id row) kind i = Ok (l', i)) = ((kind = Approve) = even (length (fact_decisions l p (fa_id row)))))"
proof -
  have wf: "ledger_wf l" using ledger_steps_keep [OF assms(2,1)] by blast
  have dwf: "decisions_wf l" "evidence_wf (lg_evidence l)" using wf by (auto simp: ledger_wf_def)
  have same: "fact_decisions l p (fa_id row) = chain_of l (fa_id row)"
    by (rule fact_decisions_chain [OF dwf(2,1) assms(3) refl assms(4)])
  note active = active_is_end [OF dwf(1) same]
  have "effective_status l p (fa_id row) = (if chain_of l (fa_id row) = [] then ''none''
      else if even (length (chain_of l (fa_id row))) then ''revoked'' else ''approved'')"
    by (auto simp: effective_status_def active chain_end_def same)
  moreover have "(\<exists>l'. fact_decision_body l p (fa_id row) kind i = Ok (l', i)) = ((kind = Approve) = even (length (chain_of l (fa_id row))))"
    if "p \<in> set (ev_projects (lg_evidence l)) \<and> i \<notin> de_id ` set (lg_decisions l)"
    using decision_body_returns [OF wf assms(3) refl assms(4)] that same by simp
  ultimately show ?thesis using active chain_ofI [OF dwf(1)] same by simp
qed

theorem approvals_take_turns_witness:
  "effective_status sample_ledger (sample_id 0) ''hours'' = ''approved''"
proof -
  let ?row = "\<lparr>fa_id = ''hours'', fa_project = sample_id 0, fa_snapshot = sample_id 0, fa_fact = sample_fact ''hours''\<rparr>"
  have "?row \<in> set (ev_facts (lg_evidence sample_ledger))" by (simp add: sample_ledger_def sample_evidence_def)
  from approvals_take_turns [OF sample_ledger_wf rtranclp.rtrancl_refl this, of "sample_id 0"]
  show ?thesis by (simp add: fact_decisions_def sample_ledger_def)
qed

subsection \<open>Calculations\<close>

lemma request_digest:
  assumes "request_calculation l p ids key qi i = Ok (l', rid, replayed)" "ledger_wf l"
  shows "\<exists>digest. canonical_request_digest p ids = Ok digest \<and>
    (\<exists>q \<in> set (lg_requests l'). rq_project q = p \<and> rq_digest q = digest \<and> rq_result q = Some rid \<and> (\<not> replayed \<longrightarrow> rq_key q = key))"
  using assms(1)
proof (cases rule: request_calculation_cases)
  case (computed digest unavailable resolved c)
  then show ?thesis by (simp add: with_result_def committed_request_def)
qed blast

text \<open>A request that meets its digest is answered from the ledger.\<close>

lemma key_unique:
  assumes "requests_keyed qs" "q \<in> set qs" "rq_project q = p" "rq_key q = key"
  shows "find (\<lambda>q. rq_project q = p \<and> rq_key q = key) qs = Some q"
proof (cases "find (\<lambda>q. rq_project q = p \<and> rq_key q = key) qs")
  case (Some x)
  then show ?thesis using assms find_SomeD [OF Some]
    by (auto simp: requests_keyed_def distinct_map inj_on_def)
qed (use assms in \<open>auto simp: find_None_iff\<close>)

lemma digest_unique:
  assumes "requests_keyed qs" "q \<in> set qs" "rq_project q = p" "rq_digest q = d"
  shows "find (\<lambda>q. rq_project q = p \<and> rq_digest q = d) qs = Some q"
proof (cases "find (\<lambda>q. rq_project q = p \<and> rq_digest q = d) qs")
  case (Some x)
  then show ?thesis using assms find_SomeD [OF Some]
    by (auto simp: requests_keyed_def distinct_map inj_on_def)
qed (use assms in \<open>auto simp: find_None_iff\<close>)

lemma request_conflict:
  assumes wf: "ledger_wf l" and q: "q \<in> set (lg_requests l)" "rq_project q = p"
    and ids: "canonical_request_digest p ids = Ok digest" and key: "1 \<le> length key" "length key \<le> 200"
    and hit: "rq_digest q = digest \<or> rq_key q = key"
  shows "request_calculation l p ids key qi i =
    (case get_request_by_key l p key of
       Some x \<Rightarrow> (if rq_digest x \<noteq> digest then Err (Ledger_conflict ''idempotency key already used for a different calculation'')
                  else replay l x)
     | None \<Rightarrow> (case get_request_by_digest l p digest of Some x \<Rightarrow> replay l x
                | None \<Rightarrow> Err (Ledger_other ''calculation_request conflict could not be resolved'')))"
proof -
  have "set (map fst ids) = set ROLES" "length digest = 64"
    using ids by (auto simp: canonical_request_digest_def Let_def split: if_splits)
  moreover have "claim_request l p key digest qi = Ok (l, False)"
    using q hit key \<open>length digest = 64\<close> by (auto simp: claim_request_def check_def list_ex_iff)
  ultimately show ?thesis
    by (simp add: request_calculation_def request_roles_def check_def Let_def of_roi_def ids)
qed

lemma request_replays:
  assumes wf: "ledger_wf l" and q: "q \<in> set (lg_requests l)" "rq_project q = p" "rq_digest q = digest" "rq_result q = Some rid"
    and ids: "canonical_request_digest p ids = Ok digest" and key: "1 \<le> length key" "length key \<le> 200"
    and unused: "\<forall>x \<in> set (lg_requests l). rq_project x = p \<and> rq_key x = key \<longrightarrow> rq_digest x = digest"
  shows "request_calculation l p ids key qi i = Ok (l, rid, True)"
proof -
  have keyed: "requests_keyed (lg_requests l)" using wf by (simp add: ledger_wf_def)
  have "get_request_by_key l p key = None \<or> get_request_by_key l p key = Some q"
  proof (cases "get_request_by_key l p key")
    case (Some x)
    then have "x \<in> set (lg_requests l)" "rq_project x = p" "rq_key x = key"
      unfolding get_request_by_key_def by (auto dest!: find_SomeD)
    with unused q(1-3) keyed have "x = q" by (auto simp: requests_keyed_def distinct_map inj_on_def)
    with Some show ?thesis by simp
  qed simp
  moreover have "get_request_by_digest l p digest = Some q"
    unfolding get_request_by_digest_def using keyed q(1-3) by (rule digest_unique)
  ultimately show ?thesis
    using request_conflict [OF wf q(1,2) ids key] q(3,4) by (auto simp: replay_def)
qed


text \<open>The calculation of the sample ledger.\<close>

definition sample_resolved :: role_inputs where
  "sample_resolved = map (\<lambda>k. (ROLES ! k, as_resolved_input (sample_frozen k))) [0..<6]"

lemma sample_resolved_range: "in_range sample_resolved"
proof -
  have v: "ri_value (role_item sample_resolved ''baseline_hours_per_period'') = Fin False 40 0"
    "ri_value (role_item sample_resolved ''post_automation_hours_per_period'') = Fin False 40 0"
    "ri_value (role_item sample_resolved ''fully_loaded_rate_per_hour'') = Fin False 45 0"
    "ri_value (role_item sample_resolved ''periods_per_year'') = Fin False 45 0"
    "ri_value (role_item sample_resolved ''annual_recurring_cost'') = Fin False 45 0"
    "ri_value (role_item sample_resolved ''one_time_implementation_cost'') = Fin False 45 0"
    by code_simp+
  have "on_grid 4 (10 ^ 10) (dval (Fin False 40 0))" "on_grid 4 (10 ^ 10) (dval (Fin False 45 0))"
    "on_grid 0 (10 ^ 6) (dval (Fin False 45 0))" "on_grid 4 (10 ^ 16) (dval (Fin False 45 0))"
    by (rule on_gridI [of _ _ 400000] on_gridI [of _ _ 450000] on_gridI [of _ _ 45]; simp)+
  then show ?thesis by (simp add: in_range_def Let_def ROLES_def v del: dval.simps)
qed

lemma sample_computes: "\<exists>c. compute_automation_roi sample_resolved [] = Ok c"
proof -
  have roles: "require_six_roles sample_resolved = Ok ()" by code_simp
  have none: "blocking_reason sample_resolved [] = None" by code_simp
  obtain d where d: "formula_input_digest sample_resolved = Ok d"
    using digest_returns in_range_representable [OF sample_resolved_range] by metis
  show ?thesis
    using compute_values_exact [OF sample_resolved_range refl refl refl refl, of d "provenance_fingerprint sample_resolved"]
    by (auto simp: compute_automation_roi_def roles d arith_def none Let_def)
qed

lemma sample_calculation:
  "\<exists>l1. create_calculation sample_roi_env sample_ledger (sample_id 0) sample_map (Some ''k'') ''q'' (sample_id 7) =
     (l1, Ok (201, sample_id 7))"
proof -
  have res: "resolve_inputs sample_ledger (sample_id 0) sample_map ROLES = Ok ([], sample_resolved)" by code_simp
  have keys: "map fst sample_map = ROLES" by code_simp
  have digest: "canonical_request_digest (sample_id 0) sample_map =
      Ok (sha256_hex (canonical_request_text (sample_id 0) sample_map))"
    using keys by (simp add: canonical_request_digest_def Let_def set_map [symmetric] del: set_map)
  have fields: "lg_results sample_ledger = []" "lg_requests sample_ledger = []" "lg_evidence sample_ledger = sample_evidence"
    "ev_projects sample_evidence = [sample_id 0]" by (simp_all add: sample_ledger_def sample_evidence_def)
  obtain c where "compute_automation_roi sample_resolved [] = Ok c" using sample_computes by blast
  then obtain l1 where l1: "request_calculation sample_ledger (sample_id 0) sample_map ''k'' ''q'' (sample_id 7) = Ok (l1, sample_id 7, False)"
    using calculation_accepted [OF sample_ledger_wf _ _ _ _ digest _ res, of "''k''" "sample_id 7" "''q''"]
    by (auto simp: fields)
  have "uuid_text (sample_id 0)" "list_all (\<lambda>role. uuid_text (opt_or (map_of sample_map role) '''')) ROLES"
    "py_strip (opt_or (Some ''k'') '''') = ''k''" by code_simp+
  then show ?thesis
    unfolding calculation_Ok using l1 keys deferred_accepted [OF l1 sample_ledger_wf] fields by (auto simp: sample_roi_env_def)
qed


text \<open>C12: evidence that was withdrawn never gives a number again. Once the approval of a frozen input has
  been revoked, or its fact, snapshot or blob has been tombstoned or redacted, every later new
  calculation with this input is stored and answered as blocked, without any amount or percentage.\<close>

theorem withdrawn_evidence_blocks:
  assumes "ledger_wf l" "x \<in> set (lg_inputs l)" "revoked l (fi_decision x) \<or> \<not> fact_available (lg_evidence l) (fi_fact x)"
    and "ledger_step\<^sup>*\<^sup>* l l1" "create_calculation env l1 p ids header qi i = (l2, Ok (201, rid))"
    and "role \<in> set ROLES" "map_of ids role = Some (fi_id x)"
  shows "list_ex (\<lambda>r. rr_id r = rid \<and> rr_project r = p \<and> rc_status (rr_result r) = Roi_blocked \<and>
      rc_labor_savings (rr_result r) = None \<and> rc_net_benefit (rr_result r) = None \<and>
      rc_first_year (rr_result r) = None \<and> rc_roi_percent (rr_result r) = None) (lg_results l2)"
proof -
  have later: "ledger_wf l1" "ledger_grows l l1" using ledger_steps_keep [OF assms(4,1)] by auto
  have gone: "\<not> input_consumable l1 x"
    using consumable_shrinks [OF later(2)] assms(3) by (auto simp: input_consumable_def)
  have x1: "x \<in> set (lg_inputs l1)" using assms(2) later(2) by (auto simp: ledger_grows_def dest: set_mono_prefix)
  have "request_calculation l1 p ids (py_strip (opt_or header '''')) qi i = Ok (l2, rid, False)"
    using assms(5) unfolding calculation_Ok by (auto split: if_splits)
  then show ?thesis
  proof (cases rule: request_calculation_cases)
    case (computed digest unavailable resolved c)
    obtain y where y: "load_frozen_input l1 p (fi_id x) = Ok y"
      using resolve_cases [OF computed(5)] assms(6,7) by (metis opt_or_simps(2))
    then have "y = x" using x1 later(1) ident_unique [of fi_id "lg_inputs l1" y x]
      by (auto simp: ledger_wf_def dest!: find_SomeD)
    with y gone assms(6,7) have "role \<in> set unavailable"
      using resolve_cases [OF computed(5)] by (simp del: load_Ok)
    then have blocked: "rc_status c = Roi_blocked" using unavailable_blocks [OF computed(6)] by (metis empty_iff empty_set)
    with computed_shape [OF computed(6)] have "rc_labor_savings (stored_computation c) = None \<and>
        rc_net_benefit (stored_computation c) = None \<and> rc_first_year (stored_computation c) = None \<and>
        rc_roi_percent (stored_computation c) = None"
      by (simp add: value_shape_def stored_computation_def)
    with blocked computed(3) show ?thesis by (simp add: computed(8) with_result_def stored_computation_def)
  qed simp
qed

definition sample_withdrawn :: ledger where
  "sample_withdrawn = sample_ledger\<lparr>lg_decisions := lg_decisions sample_ledger @ [\<lparr>de_id = ''w'', de_project = sample_id 0,
     de_fact = ''hours'', de_type = Withdraw, de_seq = 2, de_revokes = Some ''hours''\<rparr>]\<rparr>"

theorem withdrawn_evidence_blocks_witness:
  "\<exists>l2 r. create_calculation sample_roi_env sample_withdrawn (sample_id 0) sample_map (Some ''k'') ''q'' (sample_id 7) =
     (l2, Ok (201, sample_id 7)) \<and> r \<in> set (lg_results l2) \<and> rc_labor_savings (rr_result r) = None"
proof -
  let ?l = sample_withdrawn
  have fields: "lg_results ?l = []" "lg_links ?l = []" "lg_requests ?l = []" "lg_evidence ?l = sample_evidence"
    "lg_inputs ?l = map sample_frozen [0..<6]" "ev_projects sample_evidence = [sample_id 0]"
    by (simp_all add: sample_withdrawn_def sample_ledger_def sample_evidence_def)
  have "decisions_wf ?l" "context_wf ?l" "distinct (map fi_id (lg_inputs ?l))" "list_all (input_wf ?l) (lg_inputs ?l)"
    by code_simp+
  then have wf: "ledger_wf ?l" using sample_evidence_wf
    by (simp add: ledger_wf_def list_all_iff requests_keyed_def fields)
  have res: "resolve_inputs ?l (sample_id 0) sample_map ROLES =
      Ok ([''baseline_hours_per_period'', ''post_automation_hours_per_period''], sample_resolved)" by code_simp
  have keys: "map fst sample_map = ROLES" by code_simp
  have digest: "canonical_request_digest (sample_id 0) sample_map =
      Ok (sha256_hex (canonical_request_text (sample_id 0) sample_map))"
    using keys by (simp add: canonical_request_digest_def Let_def set_map [symmetric] del: set_map)
  obtain d where d: "formula_input_digest sample_resolved = Ok d"
    using digest_returns in_range_representable [OF sample_resolved_range] by metis
  have "require_six_roles sample_resolved = Ok ()" by code_simp
  with d obtain c where c: "compute_automation_roi sample_resolved
      [''baseline_hours_per_period'', ''post_automation_hours_per_period''] = Ok c"
    by (simp add: compute_automation_roi_def arith_def blocking_reason_def Let_def)
  obtain l2 where l2: "request_calculation ?l (sample_id 0) sample_map ''k'' ''q'' (sample_id 7) = Ok (l2, sample_id 7, False)"
    using calculation_accepted [OF wf _ _ _ _ digest _ res c, of "''k''" "sample_id 7" "''q''"] by (auto simp: fields)
  have "uuid_text (sample_id 0)" "list_all (\<lambda>role. uuid_text (opt_or (map_of sample_map role) '''')) ROLES"
    "py_strip (opt_or (Some ''k'') '''') = ''k''" by code_simp+
  then have run: "create_calculation sample_roi_env ?l (sample_id 0) sample_map (Some ''k'') ''q'' (sample_id 7) = (l2, Ok (201, sample_id 7))"
    unfolding calculation_Ok using l2 keys deferred_accepted [OF l2 wf] fields by (auto simp: sample_roi_env_def)
  have "revoked ?l (fi_decision (sample_frozen 0))"
    by (simp add: revoked_def sample_withdrawn_def sample_frozen_def Let_def)
  moreover have "sample_frozen 0 \<in> set (lg_inputs ?l)" by (simp add: fields)
  moreover have "map_of sample_map ''baseline_hours_per_period'' = Some (fi_id (sample_frozen 0))"
    "''baseline_hours_per_period'' \<in> set ROLES" by code_simp+
  ultimately show ?thesis
    using withdrawn_evidence_blocks [OF wf _ _ rtranclp.rtrancl_refl run] run by (fastforce simp: list_ex_iff)
qed

text \<open>C11: every stored result can be recomputed. In every history a result keeps its links to exactly the
  six roles, each to the frozen input of this role and project; each such input still equals its
  immutable fact (number, unit, currency, time unit, date, and the period of its context) and
  names an approval of this fact; and the stored row is what the engine computes from these
  inputs, with all of them available unless it is blocked.\<close>

theorem results_reproducible:
  assumes "ledger_wf l0" "ledger_step\<^sup>*\<^sup>* l0 l" "r \<in> set (lg_results l)"
  shows "map rl_role (links_of l r) = ROLES \<and> computed_from (linked_inputs l r) (rr_result r) \<and>
    list_all (\<lambda>k. list_ex (\<lambda>x. fi_id x = rl_input k \<and> fi_role x = rl_role k \<and> fi_project x = rr_project r \<and> input_wf l x)
      (lg_inputs l)) (links_of l r)"
proof (intro conjI)
  have wf: "ledger_wf l" using ledger_steps_keep [OF assms(2,1)] by blast
  then have r: "result_wf l r" using assms(3) by (simp add: ledger_wf_def)
  then show "map rl_role (links_of l r) = ROLES" "computed_from (linked_inputs l r) (rr_result r)"
    by (simp_all add: result_wf_def)
  have "\<exists>x \<in> set (lg_inputs l). fi_id x = rl_input k \<and> fi_role x = rl_role k \<and> fi_project x = rr_project r \<and> input_wf l x"
    if k: "k \<in> set (links_of l r)" for k
  proof -
    obtain x where x: "load_frozen_input l (rr_project r) (rl_input k) = Ok x" "fi_role x = rl_role k"
      using r k unfolding result_wf_def by blast
    then have "x \<in> set (lg_inputs l)" "fi_id x = rl_input k" "fi_project x = rr_project r"
      by (auto dest!: find_SomeD)
    with wf x(2) show ?thesis unfolding ledger_wf_def by blast
  qed
  then show "list_all (\<lambda>k. list_ex (\<lambda>x. fi_id x = rl_input k \<and> fi_role x = rl_role k \<and> fi_project x = rr_project r \<and>
      input_wf l x) (lg_inputs l)) (links_of l r)"
    unfolding list_all_iff list_ex_iff by blast
qed

theorem results_reproducible_witness:
  "\<exists>l1 r. create_calculation sample_roi_env sample_ledger (sample_id 0) sample_map (Some ''k'') ''q'' (sample_id 7) =
     (l1, Ok (201, sample_id 7)) \<and> rr_id r = sample_id 7 \<and> map rl_role (links_of l1 r) = ROLES"
proof -
  obtain l1 where run: "create_calculation sample_roi_env sample_ledger (sample_id 0) sample_map (Some ''k'') ''q'' (sample_id 7) =
     (l1, Ok (201, sample_id 7))" using sample_calculation by blast
  then have "request_calculation sample_ledger (sample_id 0) sample_map (py_strip (opt_or (Some ''k'') '''')) ''q'' (sample_id 7) =
      Ok (l1, sample_id 7, False)" unfolding calculation_Ok by (auto split: if_splits)
  then have "\<exists>r \<in> set (lg_results l1). rr_id r = sample_id 7"
    by (cases rule: request_calculation_cases) (auto simp: with_result_def)
  then obtain r where r: "r \<in> set (lg_results l1)" "rr_id r = sample_id 7" by blast
  from results_reproducible [OF sample_ledger_wf r_into_rtranclp r(1)] run r(2) show ?thesis
    by (blast intro: ledger_step.calculation)
qed

end
