(* ===== verification/RoiViews.thy ===== *)
theory RoiViews
  imports RoiClaims "HOL-Library.Multiset"
begin

text \<open>
  The read side of the Automation ROI surface: the operator and client projections of a result
  (\<open>mas/knowledge/automation_roi/projections.py\<close>) and the workspace of the operator
  (\<open>workspace.py\<close>). Times and actors are left out; a list that is ordered by a time is in the order
  of insertion. A date stays an ordinal.
\<close>

subsection \<open>The bundle of a result\<close>

record view_input =
  vi_role :: string
  vi_input :: frozen_input
  vi_context :: fact_context
  vi_decision :: decision
  vi_available :: bool

record result_bundle =
  bu_project :: string
  bu_result :: result_row
  bu_inputs :: "view_input list"

definition load_result_bundle :: "ledger \<Rightarrow> string \<Rightarrow> string \<Rightarrow> result_bundle option" where
  "load_result_bundle l project result_id =
     (case get_result l project result_id of
        None \<Rightarrow> None
      | Some r \<Rightarrow> Some \<lparr>bu_project = project, bu_result = r, bu_inputs =
          [\<lparr>vi_role = rl_role k, vi_input = x, vi_context = c, vi_decision = d,
            vi_available = fact_available (lg_evidence l) (fi_fact x)\<rparr>.
           k \<leftarrow> sort_key rl_role (filter (\<lambda>k. rl_result k = result_id \<and> rl_project k = project) (lg_links l)),
           x \<leftarrow> filter (\<lambda>x. fi_id x = rl_input k \<and> fi_project x = rl_project k) (lg_inputs l),
           c \<leftarrow> filter (\<lambda>c. fc_fact c = fi_fact x \<and> fc_project c = fi_project x) (lg_contexts l),
           d \<leftarrow> filter (\<lambda>d. de_id d = fi_decision x \<and> de_project d = fi_project x) (lg_decisions l)]\<rparr>)"

subsection \<open>The operator projection\<close>

definition dec_text :: "decimal option \<Rightarrow> string option" where
  "dec_text = map_option decimal_str"

record operator_input =
  oi_role :: string
  oi_input_id :: string
  oi_fact_id :: string
  oi_decision_id :: string
  oi_value :: string
  oi_unit :: string
  oi_currency :: "string option"
  oi_period :: "string option"
  oi_time_unit :: "string option"
  oi_as_of :: "int option"
  oi_subject :: string
  oi_metric :: string
  oi_period_basis :: "string option"
  oi_locator :: string
  oi_range :: "string option"
  oi_rationale :: string
  oi_available :: bool
  oi_decision_type :: decision_type
  oi_decision_seq :: nat

record operator_view =
  ov_project :: string
  ov_result_id :: string
  ov_status :: roi_status
  ov_formula_version :: string
  ov_currency :: "string option"
  ov_labor_savings :: "string option"
  ov_net_benefit :: "string option"
  ov_first_year :: "string option"
  ov_roi_percent :: "string option"
  ov_percent_status :: percent_status
  ov_digest :: string
  ov_fingerprint :: string
  ov_diagnostics :: "(string \<times> string) list"
  ov_inputs :: "operator_input list"
  ov_all_available :: bool

definition operator_input_of :: "view_input \<Rightarrow> operator_input" where
  "operator_input_of it =
     (let x = vi_input it; c = vi_context it; d = vi_decision it
      in \<lparr>oi_role = vi_role it, oi_input_id = fi_id x, oi_fact_id = fi_fact x, oi_decision_id = fi_decision x,
          oi_value = decimal_str (fi_value x), oi_unit = fi_unit x, oi_currency = fi_currency x, oi_period = fi_period x,
          oi_time_unit = fi_time_unit x, oi_as_of = fi_as_of x, oi_subject = fc_subject c, oi_metric = fc_metric c,
          oi_period_basis = fc_period c, oi_locator = fc_locator c, oi_range = fc_range c, oi_rationale = fc_rationale c,
          oi_available = vi_available it, oi_decision_type = de_type d, oi_decision_seq = de_seq d\<rparr>)"

definition operator_projection :: "result_bundle \<Rightarrow> operator_view" where
  "operator_projection b =
     (let r = rr_result (bu_result b)
      in \<lparr>ov_project = bu_project b, ov_result_id = rr_id (bu_result b), ov_status = rc_status r,
          ov_formula_version = rc_formula_version r, ov_currency = rc_currency r,
          ov_labor_savings = dec_text (rc_labor_savings r), ov_net_benefit = dec_text (rc_net_benefit r),
          ov_first_year = dec_text (rc_first_year r), ov_roi_percent = dec_text (rc_roi_percent r),
          ov_percent_status = rc_percent_status r, ov_digest = rc_input_digest r, ov_fingerprint = rc_provenance r,
          ov_diagnostics = rc_diagnostics r, ov_inputs = map operator_input_of (bu_inputs b),
          ov_all_available = list_all vi_available (bu_inputs b)\<rparr>)"

subsection \<open>The client projection\<close>

definition CLIENT_SAFE_CAVEATS :: "(string \<times> string) list" where
  "CLIENT_SAFE_CAVEATS = [(''negative_hours_delta'',
     ''Post-automation hours exceed the baseline, so modeled labor savings are negative.'')]"

definition BLOCKED_CLIENT_CAVEAT :: string where
  "BLOCKED_CLIENT_CAVEAT = ''This result cannot be shown because required source evidence is unavailable or the approved inputs are not comparable.''"

definition NOT_APPLICABLE_CLIENT_CAVEAT :: string where
  "NOT_APPLICABLE_CLIENT_CAVEAT = ''Return-on-investment percentage is not applicable because the one-time implementation cost is zero.''"

text \<open>\<open>_money\<close> and \<open>_percent\<close>, which round in the same way.\<close>

definition money_text :: "decimal option \<Rightarrow> (decimal_error, string option) result" where
  "money_text v = (case v of None \<Rightarrow> Ok None
     | Some d \<Rightarrow> map_result (\<lambda>q. Some (decimal_str q)) (quantize_half_up (- 2) d))"

record client_result =
  cr_currency :: "string option"
  cr_labor_savings :: "string option"
  cr_net_benefit :: "string option"
  cr_first_year :: "string option"
  cr_roi_percent :: "string option"

record client_assumption =
  ca_role :: string
  ca_label :: "string option"
  ca_value :: string
  ca_unit :: "string option"
  ca_currency :: "string option"
  ca_period :: "string option"

record client_view =
  cw_status :: roi_status
  cw_result :: "client_result option"
  cw_assumptions :: "client_assumption list"
  cw_caveats :: "string list"

definition nonempty :: "string \<Rightarrow> string option" where
  "nonempty s = (if s = '''' then None else Some s)"

text \<open>Subject and metric around a dash (three bytes of UTF-8), only of a source that is available.\<close>

definition DASH :: string where
  "DASH = '' '' @ [CHR 0xE2, CHR 0x80, CHR 0x94] @ '' ''"

definition source_label :: "view_input \<Rightarrow> string option" where
  "source_label it =
     (if vi_available it
      then nonempty (join_with DASH (filter (\<lambda>p. p \<noteq> '''') [py_strip (fc_subject (vi_context it)), py_strip (fc_metric (vi_context it))]))
      else None)"

definition input_of_role :: "result_bundle \<Rightarrow> string \<Rightarrow> view_input option" where
  "input_of_role b role = find (\<lambda>it. vi_role it = role) (rev (bu_inputs b))"

definition assumption_of :: "string \<Rightarrow> view_input \<Rightarrow> client_assumption" where
  "assumption_of role it =
     \<lparr>ca_role = role, ca_label = source_label it, ca_value = decimal_str (fi_value (vi_input it)),
      ca_unit = nonempty (fi_unit (vi_input it)), ca_currency = fi_currency (vi_input it),
      ca_period = fi_period (vi_input it)\<rparr>"

definition client_amounts :: "roi_computation \<Rightarrow> (decimal_error, client_result) result" where
  "client_amounts r =
     bind_result (money_text (rc_labor_savings r)) (\<lambda>savings.
     bind_result (money_text (rc_net_benefit r)) (\<lambda>net.
     bind_result (money_text (rc_first_year r)) (\<lambda>first.
     map_result (\<lambda>percent. \<lparr>cr_currency = rc_currency r, cr_labor_savings = savings, cr_net_benefit = net,
         cr_first_year = first, cr_roi_percent = percent\<rparr>) (money_text (rc_roi_percent r)))))"

definition client_projection :: "result_bundle \<Rightarrow> (decimal_error, client_view) result" where
  "client_projection b =
     (let r = rr_result (bu_result b); status = rc_status r
      in if status = Roi_blocked
         then Ok \<lparr>cw_status = status, cw_result = None, cw_assumptions = [], cw_caveats = [BLOCKED_CLIENT_CAVEAT]\<rparr>
         else map_result (\<lambda>amounts. \<lparr>cw_status = status, cw_result = Some amounts,
                cw_assumptions = List.map_filter (\<lambda>role. map_option (assumption_of role) (input_of_role b role)) ROLES,
                cw_caveats = (if status = Roi_not_applicable then [NOT_APPLICABLE_CLIENT_CAVEAT] else []) @
                  List.map_filter (\<lambda>(key, detail). map_of CLIENT_SAFE_CAVEATS key) (rc_diagnostics r)\<rparr>)
              (client_amounts r))"

subsection \<open>The workspace\<close>

record completeness =
  co_complete :: bool
  co_missing :: "string list"
  co_duplicate :: "string list"
  co_extra :: "string list"

definition classify_role_completeness :: "string list \<Rightarrow> completeness" where
  "classify_role_completeness roles =
     (let missing = sorted_list_of_set (set ROLES - set roles);
          extra = sorted_list_of_set (set roles - set ROLES);
          duplicate = sorted_list_of_set {r \<in> set roles. count_list roles r > 1 \<and> r \<in> set ROLES}
      in \<lparr>co_complete = (missing = [] \<and> extra = [] \<and> duplicate = []), co_missing = missing, co_duplicate = duplicate,
          co_extra = extra\<rparr>)"

record workspace_fact =
  wf_fact :: fact_row
  wf_context :: fact_context
  wf_available :: bool
  wf_state :: string
  wf_active :: "string option"
  wf_permitted :: "decision_type list"

definition workspace_row :: "ledger \<Rightarrow> string \<Rightarrow> fact_row \<Rightarrow> fact_context \<Rightarrow> workspace_fact" where
  "workspace_row l project f c =
     \<lparr>wf_fact = f, wf_context = c, wf_available = fact_available (lg_evidence l) (fa_id f),
      wf_state = effective_status l project (fa_id f), wf_active = active_approval_id l project (fa_id f),
      wf_permitted = (if active_approval_id l project (fa_id f) \<noteq> None then [Reject, Withdraw] else [Approve])\<rparr>"

definition load_candidate_facts :: "ledger \<Rightarrow> string \<Rightarrow> workspace_fact list" where
  "load_candidate_facts l project =
     [workspace_row l project f c.
      f \<leftarrow> filter (\<lambda>f. fa_project f = project) (ev_facts (lg_evidence l)),
      c \<leftarrow> filter (\<lambda>c. fc_fact c = fa_id f \<and> fc_project c = fa_project f) (lg_contexts l)]"

record workspace_input =
  wi_input :: frozen_input
  wi_available :: bool
  wi_consumable :: bool

definition load_frozen_inputs :: "ledger \<Rightarrow> string \<Rightarrow> workspace_input list" where
  "load_frozen_inputs l project =
     map (\<lambda>x. \<lparr>wi_input = x, wi_available = fact_available (lg_evidence l) (fi_fact x), wi_consumable = input_consumable l x\<rparr>)
       (sort_key fi_role (sort_key fi_id (filter (\<lambda>x. fi_project x = project) (lg_inputs l))))"

definition load_results :: "ledger \<Rightarrow> string \<Rightarrow> (string \<times> roi_status \<times> string \<times> string option) list" where
  "load_results l project =
     map (\<lambda>r. (rr_id r, rc_status (rr_result r), rc_formula_version (rr_result r), rc_currency (rr_result r)))
       (rev (filter (\<lambda>r. rr_project r = project) (lg_results l)))"

definition load_snapshots :: "ledger \<Rightarrow> string \<Rightarrow> (string \<times> string option \<times> bool) list" where
  "load_snapshots l project =
     map (\<lambda>s. (sn_id s, nonempty (sn_kind s), snapshot_available (lg_evidence l) (sn_id s)))
       (filter (\<lambda>s. sn_project s = project) (ev_snapshots (lg_evidence l)))"

record workspace =
  ws_roles :: "string list"
  ws_snapshots :: "(string \<times> string option \<times> bool) list"
  ws_facts :: "workspace_fact list"
  ws_inputs :: "workspace_input list"
  ws_complete :: bool
  ws_missing :: "string list"
  ws_counts :: "(string \<times> nat \<times> nat) list"
  ws_results :: "(string \<times> roi_status \<times> string \<times> string option) list"

definition load_workspace :: "ledger \<Rightarrow> string \<Rightarrow> workspace" where
  "load_workspace l project =
     (let inputs = load_frozen_inputs l project;
          of_role = (\<lambda>role i. fi_role (wi_input i) = role);
          available = filter (\<lambda>role. list_ex (\<lambda>i. of_role role i \<and> wi_consumable i) inputs) ROLES;
          readiness = classify_role_completeness available
      in \<lparr>ws_roles = ROLES, ws_snapshots = load_snapshots l project, ws_facts = load_candidate_facts l project,
          ws_inputs = inputs, ws_complete = co_complete readiness, ws_missing = co_missing readiness,
          ws_counts = map (\<lambda>role. (role, length (filter (of_role role) inputs),
            length (filter (\<lambda>i. of_role role i \<and> wi_consumable i) inputs))) ROLES,
          ws_results = load_results l project\<rparr>)"

subsection \<open>Rounded amounts\<close>

lemma half_up_error: "0 < m \<Longrightarrow> \<bar>real (half_up c m) - real c / real m\<bar> \<le> 1 / 2"
proof -
  assume m: "0 < m"
  have split: "real c = real (c div m) * real m + real (c mod m)" by (metis div_mod_decomp of_nat_add of_nat_mult)
  then have quot: "real c / real m = real (c div m) + real (c mod m) / real m" using m by (simp add: field_simps)
  have rest: "0 \<le> real (c mod m)" "real (c mod m) < real m" using m by simp_all
  show ?thesis
  proof (cases "2 * (c mod m) \<ge> m")
    case True
    then have "real m \<le> 2 * real (c mod m)" by linarith
    then have "1 / 2 \<le> real (c mod m) / real m" "real (c mod m) / real m \<le> 1" using m rest by (simp_all add: field_simps)
    with True show ?thesis by (simp add: half_up_def quot)
  next
    case False
    then have "2 * real (c mod m) < real m" by linarith
    then have "real (c mod m) / real m \<le> 1 / 2" "0 \<le> real (c mod m) / real m" using m rest by (simp_all add: field_simps)
    with False show ?thesis by (simp add: half_up_def quot)
  qed
qed

lemma quantize_near:
  assumes "quantize_half_up q d = Ok z" "finite_decimal d"
  shows "\<bar>dval z - dval d\<bar> \<le> 10 powi q / 2 \<and> (\<exists>s c. z = Fin s c q)"
proof -
  obtain s c e where d: "d = Fin s c e" using assms(2) by (rule finite_decimalE)
  let ?c = "if c = 0 then 0 else if e \<ge> q then c * 10 ^ nat (e - q) else half_up c (10 ^ nat (q - e))"
  have z: "z = Fin s ?c q" using assms(1) by (simp add: d Let_def split: if_splits)
  have "\<bar>real ?c * 10 powi q - real c * 10 powi e\<bar> \<le> 10 powi q / 2"
  proof (cases "c = 0 \<or> e \<ge> q")
    case True
    have "(10 :: real) powi e = 10 ^ nat (e - q) * 10 powi q" if "e \<ge> q"
      using that powi_split [of "e - q" q] powi_nat [of "e - q"] by simp
    with True show ?thesis by auto
  next
    case False
    let ?m = "10 ^ nat (q - e) :: nat"
    have m: "(10 :: real) powi q = real ?m * 10 powi e"
      using False powi_split [of "q - e" e] powi_nat [of "q - e"] by simp
    have "\<bar>real (half_up c ?m) - real c / real ?m\<bar> * 10 powi q \<le> 1 / 2 * 10 powi q"
      by (intro mult_right_mono half_up_error) simp_all
    moreover have "real (half_up c ?m) * 10 powi q - real c * 10 powi e = (real (half_up c ?m) - real c / real ?m) * 10 powi q"
      by (simp add: m algebra_simps)
    ultimately show ?thesis using False by (simp add: abs_mult)
  qed
  then have "\<bar>dval z - dval d\<bar> \<le> 10 powi q / 2" by (cases s) (simp_all add: z d abs_minus_commute)
  with z show ?thesis by blast
qed

definition rounded_as :: "decimal option \<Rightarrow> string option \<Rightarrow> bool" where
  "rounded_as v t \<longleftrightarrow> (case (v, t) of
     (None, None) \<Rightarrow> True
   | (Some d, Some text') \<Rightarrow> finite_decimal d \<longrightarrow>
       (\<exists>s c. read_decimal text' = Some (Fin s c (- 2)) \<and> \<bar>dval (Fin s c (- 2)) - dval d\<bar> \<le> 1 / 200)
   | _ \<Rightarrow> False)"

lemma money_rounded: "money_text v = Ok t \<Longrightarrow> rounded_as v t"
proof (cases v)
  case (Some d)
  assume "money_text v = Ok t"
  then obtain z where z: "quantize_half_up (- 2) d = Ok z" "t = Some (decimal_str z)" using Some by (auto simp: money_text_def)
  have "\<exists>s c. read_decimal (decimal_str z) = Some (Fin s c (- 2)) \<and> \<bar>dval (Fin s c (- 2)) - dval d\<bar> \<le> 1 / 200"
    if fin: "finite_decimal d"
  proof -
    obtain s c where "z = Fin s c (- 2)" "\<bar>dval z - dval d\<bar> \<le> 10 powi (- 2) / 2"
      using quantize_near [OF z(1) fin] by blast
    then show ?thesis using read_decimal_str [of z] by (intro exI [of _ s] exI [of _ c]) (simp add: power_int_minus)
  qed
  then show ?thesis by (simp add: rounded_as_def Some z(2))
qed (simp add: money_text_def rounded_as_def)


text \<open>The bundle of one input, for a witness.\<close>

definition sample_bundle :: result_bundle where
  "sample_bundle =
     (let x = sample_frozen 2
      in \<lparr>bu_project = sample_id 0,
          bu_result = \<lparr>rr_id = ''r'', rr_project = sample_id 0, rr_result = (blocked_result ''d'' ''p'' ''k'' '''')
            \<lparr>rc_status := Roi_not_applicable, rc_currency := Some ''EUR'', rc_labor_savings := Some (Fin False 5 (- 3)),
             rc_net_benefit := Some (Fin True 5 0), rc_first_year := Some (Fin True 5 0)\<rparr>\<rparr>,
          bu_inputs = [\<lparr>vi_role = fi_role x, vi_input = x, vi_context = hd (lg_contexts sample_ledger),
            vi_decision = hd (lg_decisions sample_ledger), vi_available = True\<rparr>]\<rparr>)"


subsection \<open>What the client cannot see\<close>

text \<open>Everything that is not meant for a client is replaced: identifiers, digests, decisions, locators,
  ranges, rationales and diagnostics, the labels of a source that is no longer available, and the
  whole content of a blocked result.\<close>

definition scrub_input :: "view_input \<Rightarrow> view_input" where
  "scrub_input it =
     (let x = vi_input it; c = vi_context it
      in \<lparr>vi_role = vi_role it,
          vi_input = \<lparr>fi_id = '''', fi_project = '''', fi_role = '''', fi_fact = '''', fi_decision = '''', fi_value = fi_value x,
            fi_unit = fi_unit x, fi_currency = fi_currency x, fi_period = fi_period x, fi_time_unit = None, fi_as_of = None\<rparr>,
          vi_context = \<lparr>fc_id = '''', fc_project = '''', fc_fact = '''',
            fc_subject = (if vi_available it then fc_subject c else ''''),
            fc_metric = (if vi_available it then fc_metric c else ''''),
            fc_period = None, fc_locator = '''', fc_range = None, fc_rationale = ''''\<rparr>,
          vi_decision = \<lparr>de_id = '''', de_project = '''', de_fact = '''', de_type = Approve, de_seq = 0, de_revokes = None\<rparr>,
          vi_available = vi_available it\<rparr>)"

definition scrub_result :: "roi_computation \<Rightarrow> roi_computation" where
  "scrub_result r =
     (if rc_status r = Roi_blocked then blocked_result '''' '''' '''' ''''
      else r\<lparr>rc_formula_version := '''', rc_percent_status := Percent_computed, rc_input_digest := '''', rc_provenance := '''',
        rc_diagnostics := map (\<lambda>(key, detail). (key, ''''))
          (filter (\<lambda>(key, detail). key = ''negative_hours_delta'') (rc_diagnostics r))\<rparr>)"

definition scrub :: "result_bundle \<Rightarrow> result_bundle" where
  "scrub b = \<lparr>bu_project = '''',
     bu_result = \<lparr>rr_id = '''', rr_project = '''', rr_result = scrub_result (rr_result (bu_result b))\<rparr>,
     bu_inputs = (if rc_status (rr_result (bu_result b)) = Roi_blocked then [] else map scrub_input (bu_inputs b))\<rparr>"

lemma safe_caveats:
  "List.map_filter (\<lambda>(key, detail). map_of CLIENT_SAFE_CAVEATS key)
     (map (\<lambda>(key, detail). (key, '''')) (filter (\<lambda>(key, detail). key = ''negative_hours_delta'') ds)) =
   List.map_filter (\<lambda>(key, detail). map_of CLIENT_SAFE_CAVEATS key) ds"
  by (induction ds) (auto simp: List.map_filter_simps CLIENT_SAFE_CAVEATS_def)

lemma scrub_assumption: "assumption_of role (scrub_input it) = assumption_of role it"
  by (simp add: assumption_of_def source_label_def scrub_input_def Let_def)

lemma scrub_find:
  "find (\<lambda>it. vi_role it = role) (map scrub_input its) = map_option scrub_input (find (\<lambda>it. vi_role it = role) its)"
  by (induction its) (simp_all add: scrub_input_def Let_def)

text \<open>C31: the client view depends on nothing but its allowlist. Replacing every identifier, digest,
  decision, locator, range, rationale and diagnostic text by a blank, the labels of unavailable
  sources too, and all of a blocked result, changes nothing in the client view: so it reveals none of them.\<close>

theorem client_view_hides:
  "client_projection (scrub b) = client_projection b"
proof -
  let ?r = "rr_result (bu_result b)"
  have status: "rc_status (scrub_result ?r) = rc_status ?r" by (simp add: scrub_result_def blocked_result_def)
  show ?thesis
  proof (cases "rc_status ?r = Roi_blocked")
    case True
    then show ?thesis by (simp add: client_projection_def Let_def status scrub_def)
  next
    case False
    have amounts: "client_amounts (scrub_result ?r) = client_amounts ?r"
      using False by (simp add: client_amounts_def scrub_result_def)
    have "map_option (assumption_of role) (input_of_role (scrub b) role) = map_option (assumption_of role) (input_of_role b role)" for role
      using False
      by (simp add: input_of_role_def scrub_def rev_map scrub_find option.map_comp comp_def scrub_assumption)
    moreover have "List.map_filter (\<lambda>(key, detail). map_of CLIENT_SAFE_CAVEATS key) (rc_diagnostics (scrub_result ?r)) =
        List.map_filter (\<lambda>(key, detail). map_of CLIENT_SAFE_CAVEATS key) (rc_diagnostics ?r)"
      using False by (simp add: scrub_result_def safe_caveats)
    ultimately show ?thesis using False
      by (simp add: client_projection_def Let_def amounts status) (simp add: scrub_def amounts status)
  qed
qed

subsection \<open>The workspace and the endpoints\<close>

text \<open>The workspace offers what the endpoint accepts. For every listed fact the permitted actions
  are exactly the decisions that the endpoint accepts in this ledger, the shown state follows
  from the same chain, and a decision that is not offered is refused.\<close>

lemma permitted_actions_accepted:
  assumes "ledger_wf l" "w \<in> set (load_candidate_facts l p)" "p \<in> set (ev_projects (lg_evidence l))"
    and "i \<notin> de_id ` set (lg_decisions l)"
  shows "(kind \<in> set (wf_permitted w)) = (\<exists>l'. fact_decision_body l p (fa_id (wf_fact w)) kind i = Ok (l', i)) \<and>
    (wf_state w = ''approved'') = (Reject \<in> set (wf_permitted w))"
proof -
  obtain f c where f: "f \<in> set (ev_facts (lg_evidence l))" "fa_project f = p" and w: "w = workspace_row l p f c"
    using assms(2) by (auto simp: load_candidate_facts_def)
  have shown: "wf_permitted w = (if active_approval_id l p (fa_id f) \<noteq> None then [Reject, Withdraw] else [Approve])"
    "wf_state w = effective_status l p (fa_id f)" "wf_fact w = f"
    by (simp_all only: w workspace_row_def workspace_fact.simps)
  have dwf: "decisions_wf l" "evidence_wf (lg_evidence l)" using assms(1) by (auto simp: ledger_wf_def)
  have same: "fact_decisions l p (fa_id f) = chain_of l (fa_id f)"
    by (rule fact_decisions_chain [OF dwf(2,1) f(1) refl f(2)])
  have active: "active_approval_id l p (fa_id f) = None \<longleftrightarrow> even (length (fact_decisions l p (fa_id f)))"
    using active_is_end [OF dwf(1) same] by (simp add: chain_end_def same)
  have "(kind \<in> set (wf_permitted w)) = ((kind = Approve) = even (length (fact_decisions l p (fa_id f))))"
    unfolding shown using active by (cases kind) auto
  moreover have "effective_status l p (fa_id f) = ''approved'' \<longleftrightarrow> active_approval_id l p (fa_id f) \<noteq> None"
    by (simp add: effective_status_def)
  ultimately show ?thesis
    using decision_body_returns [OF assms(1) f(1) refl f(2) assms(3,4)] by (simp add: shown)
qed

lemma classify_complete: "co_complete (classify_role_completeness roles) \<longleftrightarrow> mset roles = mset ROLES"
proof -
  have "co_complete (classify_role_completeness roles) \<longleftrightarrow>
      set ROLES \<subseteq> set roles \<and> set roles \<subseteq> set ROLES \<and> (\<forall>r \<in> set roles. r \<in> set ROLES \<longrightarrow> \<not> count_list roles r > 1)"
    unfolding classify_role_completeness_def Let_def by auto
  also have "\<dots> \<longleftrightarrow> set roles = set ROLES \<and> distinct roles"
  proof -
    have "(\<forall>r \<in> set roles. \<not> count_list roles r > 1) \<longleftrightarrow> distinct roles"
    proof -
      have one: "0 < count_list roles r" if "r \<in> set roles" for r
        using that count_list_0_iff [of roles r] by auto
      have "distinct roles \<longleftrightarrow> (\<forall>r. count_list roles r = (if r \<in> set roles then 1 else 0))"
        by (simp add: distinct_count_atmost_1 count_mset)
      also have "\<dots> \<longleftrightarrow> (\<forall>r \<in> set roles. \<not> count_list roles r > 1)"
        using one by (auto simp: count_list_0_iff) (metis One_nat_def Suc_lessI)
      finally show ?thesis ..
    qed
    then show ?thesis by blast
  qed
  also have "\<dots> \<longleftrightarrow> mset roles = mset ROLES"
    using set_eq_iff_mset_eq_distinct [of roles ROLES] distinct_roles mset_eq_imp_distinct_iff [of roles ROLES]
      mset_eq_setD [of roles ROLES] by blast
  finally show ?thesis .
qed

text \<open>The roles for which the workspace has a consumable input.\<close>

lemma ready_role:
  "list_ex (\<lambda>i. fi_role (wi_input i) = role \<and> wi_consumable i) (load_frozen_inputs l p) \<longleftrightarrow>
     (\<exists>x \<in> set (lg_inputs l). fi_project x = p \<and> fi_role x = role \<and> input_consumable l x)"
  by (auto simp: load_frozen_inputs_def list_ex_iff)

lemma workspace_complete:
  "ws_complete (load_workspace l p) \<longleftrightarrow>
     (\<forall>role \<in> set ROLES. \<exists>x \<in> set (lg_inputs l). fi_project x = p \<and> fi_role x = role \<and> input_consumable l x)"
proof -
  let ?ready = "\<lambda>role. list_ex (\<lambda>i. fi_role (wi_input i) = role \<and> wi_consumable i) (load_frozen_inputs l p)"
  have "mset (filter ?ready ROLES) = mset ROLES \<longleftrightarrow> (\<forall>role \<in> set ROLES. ?ready role)"
  proof
    assume "mset (filter ?ready ROLES) = mset ROLES"
    then have "set (filter ?ready ROLES) = set ROLES" by (rule mset_eq_setD)
    then show "\<forall>role \<in> set ROLES. ?ready role" unfolding set_filter by blast
  next
    assume "\<forall>role \<in> set ROLES. ?ready role"
    then have "filter ?ready ROLES = ROLES" by (intro filter_True) blast
    then show "mset (filter ?ready ROLES) = mset ROLES" by simp
  qed
  then show ?thesis by (simp only: load_workspace_def Let_def workspace.simps classify_complete ready_role)
qed

lemma resolve_consumable:
  assumes "\<forall>role \<in> set roles. \<exists>x. load_frozen_input l p (opt_or (map_of ids role) '''') = Ok x \<and> fi_role x = role \<and> input_consumable l x"
  shows "\<exists>resolved. resolve_inputs l p ids roles = Ok ([], resolved)"
  using assms
proof (induction roles)
  case (Cons role roles)
  then obtain x resolved where "load_frozen_input l p (opt_or (map_of ids role) '''') = Ok x" "fi_role x = role"
    "input_consumable l x" "resolve_inputs l p ids roles = Ok ([], resolved)" by auto
  then show ?case by (simp add: Let_def check_def del: load_Ok)
qed simp

text \<open>The readiness that the workspace shows is exact. A list of roles is classified as complete
  exactly when it is the six roles once each in some order; and the workspace of a project is
  complete exactly when there is a calculation request with six inputs of this project that the
  service would compute with no role unavailable.\<close>

lemma readiness_exact:
  assumes "ledger_wf l"
  shows "(co_complete (classify_role_completeness roles) \<longleftrightarrow> mset roles = mset ROLES) \<and>
    (ws_complete (load_workspace l p) \<longleftrightarrow>
      (\<exists>ids resolved. map fst ids = ROLES \<and> resolve_inputs l p ids ROLES = Ok ([], resolved)))"
proof (intro conjI classify_complete iffI)
  assume "ws_complete (load_workspace l p)"
  then have "\<forall>role \<in> set ROLES. \<exists>x. x \<in> set (lg_inputs l) \<and> fi_project x = p \<and> fi_role x = role \<and> input_consumable l x"
    unfolding workspace_complete by blast
  then obtain pick where pick: "\<And>role. role \<in> set ROLES \<Longrightarrow> pick role \<in> set (lg_inputs l) \<and> fi_project (pick role) = p \<and>
      fi_role (pick role) = role \<and> input_consumable l (pick role)" by metis
  let ?ids = "map (\<lambda>role. (role, fi_id (pick role))) ROLES"
  have "load_frozen_input l p (opt_or (map_of ?ids role) '''') = Ok (pick role)" if role: "role \<in> set ROLES" for role
  proof -
    have "find (\<lambda>x. fi_id x = fi_id (pick role) \<and> fi_project x = p) (lg_inputs l) = Some (pick role)"
    proof (cases "find (\<lambda>x. fi_id x = fi_id (pick role) \<and> fi_project x = p) (lg_inputs l)")
      case None
      then show ?thesis using pick [OF role] by (auto simp: find_None_iff)
    next
      case (Some y)
      with find_SomeD [OF Some] pick [OF role] assms show ?thesis
        using ident_unique [of fi_id "lg_inputs l" y "pick role"] by (simp add: ledger_wf_def)
    qed
    then show ?thesis using role by (simp add: map_of_map_restrict)
  qed
  then have "\<exists>resolved. resolve_inputs l p ?ids ROLES = Ok ([], resolved)"
    using pick by (intro resolve_consumable) (simp del: load_Ok)
  moreover have "map fst ?ids = ROLES" by (simp add: comp_def)
  ultimately show "\<exists>ids resolved. map fst ids = ROLES \<and> resolve_inputs l p ids ROLES = Ok ([], resolved)" by blast
next
  assume "\<exists>ids resolved. map fst ids = ROLES \<and> resolve_inputs l p ids ROLES = Ok ([], resolved)"
  then obtain ids resolved where res: "resolve_inputs l p ids ROLES = Ok ([], resolved)" by blast
  note r = resolve_cases [OF res]
  have "\<exists>x \<in> set (lg_inputs l). fi_project x = p \<and> fi_role x = role \<and> input_consumable l x" if role: "role \<in> set ROLES" for role
  proof -
    obtain x where x: "load_frozen_input l p (opt_or (map_of ids role) '''') = Ok x" "fi_role x = role"
      using r role by metis
    moreover have "input_consumable l x"
      using r role x(1) by (auto simp: filter_empty_conv simp del: load_Ok dest!: sym [of "[]"])
    moreover have "x \<in> set (lg_inputs l)" "fi_project x = p" using x(1) by (auto dest!: find_SomeD)
    ultimately show ?thesis by blast
  qed
  then show "ws_complete (load_workspace l p)" unfolding workspace_complete by blast
qed

text \<open>The workspace shows what the service would do. For every listed fact the permitted actions
  are exactly the decisions that the endpoint accepts in this ledger, and the shown state is
  approved exactly when a rejection is among them; the workspace of a project is complete exactly
  when there is a calculation request with six inputs of this project that the service would
  compute with no role unavailable; and a list of roles is classified as complete exactly when it
  is the six roles once each in some order.\<close>

theorem workspace_exact:
  assumes "ledger_wf l" "p \<in> set (ev_projects (lg_evidence l))" "i \<notin> de_id ` set (lg_decisions l)"
    and "w \<in> set (ws_facts (load_workspace l p))"
  shows "((kind \<in> set (wf_permitted w)) = (\<exists>l'. fact_decision_body l p (fa_id (wf_fact w)) kind i = Ok (l', i)) \<and>
      (wf_state w = ''approved'') = (Reject \<in> set (wf_permitted w))) \<and>
    (ws_complete (load_workspace l p) \<longleftrightarrow>
      (\<exists>ids resolved. map fst ids = ROLES \<and> resolve_inputs l p ids ROLES = Ok ([], resolved))) \<and>
    (co_complete (classify_role_completeness roles) \<longleftrightarrow> mset roles = mset ROLES)"
proof -
  have w: "w \<in> set (load_candidate_facts l p)" using assms(4) by (simp add: load_workspace_def Let_def)
  show ?thesis
    using permitted_actions_accepted [OF assms(1) w assms(2,3)] readiness_exact [OF assms(1)] by blast
qed

theorem workspace_exact_witness:
  "\<exists>w. w \<in> set (ws_facts (load_workspace sample_ledger (sample_id 0))) \<and>
     (Withdraw \<in> set (wf_permitted w)) = (\<exists>l'. fact_decision_body sample_ledger (sample_id 0) (fa_id (wf_fact w)) Withdraw ''n'' = Ok (l', ''n'')) \<and>
     ws_complete (load_workspace sample_ledger (sample_id 0))"
proof -
  have "ws_facts (load_workspace sample_ledger (sample_id 0)) \<noteq> []" by code_simp
  then obtain w where w: "w \<in> set (ws_facts (load_workspace sample_ledger (sample_id 0)))" by (meson list.set_sel(1))
  have "sample_id 0 \<in> set (ev_projects (lg_evidence sample_ledger))" "''n'' \<notin> de_id ` set (lg_decisions sample_ledger)"
    by (simp_all add: sample_ledger_def sample_evidence_def)
  note exact = workspace_exact [OF sample_ledger_wf this w, of Withdraw ROLES]
  have "resolve_inputs sample_ledger (sample_id 0) sample_map ROLES = Ok ([], sample_resolved)"
    "map fst sample_map = ROLES" by code_simp+
  with exact w show ?thesis by blast
qed

end
