(* ===== verification/Sha1.thy ===== *)
theory Sha1
  imports Sha256
begin

unbundle bit_operations_syntax

text \<open>
  \<open>hashlib.sha1\<close> (FIPS 180-4) and \<open>uuid.uuid5\<close> (RFC 4122), which \<open>mas/decision_objects.py\<close>,
  \<open>mas/clarifications.py\<close> and \<open>mas/state_coherence.py\<close> use to derive stable identifiers.
  Characters are code points below 256, and a text is hashed in UTF-8. Nothing below assumes that
  the digests have no collisions.
\<close>

definition utf8_char :: "char \<Rightarrow> string" where
  "utf8_char c = (if code c < 128 then [c] else [char_of (192 + code c div 64), char_of (128 + code c mod 64)])"

definition utf8 :: "string \<Rightarrow> string" where
  "utf8 s = concat (map utf8_char s)"

definition sha1_schedule :: "word32 list \<Rightarrow> word32 list" where
  "sha1_schedule block =
     fold (\<lambda>t w. w @ [word_rotl 1 (w ! (t - 3) XOR w ! (t - 8) XOR w ! (t - 14) XOR w ! (t - 16))]) [16..<80] block"

definition parity_of :: "word32 \<Rightarrow> word32 \<Rightarrow> word32 \<Rightarrow> word32" where
  "parity_of x y z = x XOR y XOR z"

definition sha1_step :: "nat \<Rightarrow> word32 \<Rightarrow> word32 \<Rightarrow> word32 \<Rightarrow> word32" where
  "sha1_step t = (if t < 20 then choice_of else if t < 40 then parity_of else if t < 60 then majority else parity_of)"

definition sha1_constant :: "nat \<Rightarrow> word32" where
  "sha1_constant t = (if t < 20 then 0x5a827999 else if t < 40 then 0x6ed9eba1
     else if t < 60 then 0x8f1bbcdc else 0xca62c1d6)"

fun sha1_round :: "nat \<times> word32 \<Rightarrow> word32 list \<Rightarrow> word32 list" where
  "sha1_round (t, w) [a, b, c, d, e] =
     [word_rotl 5 a + sha1_step t b c d + e + sha1_constant t + w, a, word_rotl 30 b, c, d]"
| "sha1_round tw s = s"

definition sha1_compress :: "word32 list \<Rightarrow> word32 list \<Rightarrow> word32 list" where
  "sha1_compress hash block = map2 (+) hash (fold sha1_round (zip [0..<80] (sha1_schedule block)) hash)"

definition sha1 :: "string \<Rightarrow> word32 list" where
  "sha1 text =
     foldl sha1_compress [0x67452301, 0xefcdab89, 0x98badcfe, 0x10325476, 0xc3d2e1f0]
       (chunks 16 (map word_of_bytes (chunks 4 (padded text))))"

definition sha1_hex :: "string \<Rightarrow> string" where
  "sha1_hex text = concat (map hex_word (sha1 text))"

text \<open>The 32 hexadecimal digits of a namespace as bytes, and the version-5 identifier of a name.\<close>

definition hex_digit_value :: "char \<Rightarrow> nat" where
  "hex_digit_value c = (if code c < 58 then code c - 48 else code c - 87)"

fun bytes_of_hex :: "string \<Rightarrow> string" where
  "bytes_of_hex (a # b # s) = char_of (16 * hex_digit_value a + hex_digit_value b) # bytes_of_hex s"
| "bytes_of_hex _ = []"

definition uuid5 :: "string \<Rightarrow> string \<Rightarrow> string" where
  "uuid5 namespace_hex name =
     (let h = take 32 (sha1_hex (bytes_of_hex namespace_hex @ utf8 name));
          variant = hex_digit (8 + hex_digit_value (h ! 16) mod 4)
      in take 8 h @ ''-'' @ take 4 (drop 8 h) @ ''-5'' @ take 3 (drop 13 h) @ ''-'' @ variant # take 3 (drop 17 h) @
         ''-'' @ drop 20 h)"

end
