(* ===== verification/CanonicalJson.thy ===== *)
theory CanonicalJson
  imports Decimal Sha1 "HOL-Library.List_Lexorder" "HOL-Library.Char_ord"
begin

text \<open>
  The canonical text of a JSON value, \<open>json.dumps(value, sort_keys=True, separators=(',', ':'),
  ensure_ascii=True)\<close>, which \<open>mas/state_coherence.py\<close> hashes to identify the inputs of a decision.
  Characters are code points below 256. The text of a float is a parameter (\<open>float.__repr__\<close>); what
  is needed of it is the contract \<open>float_text\<close>. The canonical text determines the value up to the
  order of the members of its objects.
\<close>

subsection \<open>Printing\<close>

definition escape_char :: "char \<Rightarrow> string" where
  "escape_char c =
     (if c = CHR 0x22 \<or> c = CHR 0x5C then [CHR 0x5C, c]
      else if code c = 8 then [CHR 0x5C, CHR ''b'']
      else if code c = 9 then [CHR 0x5C, CHR ''t'']
      else if code c = 10 then [CHR 0x5C, CHR ''n'']
      else if code c = 12 then [CHR 0x5C, CHR ''f'']
      else if code c = 13 then [CHR 0x5C, CHR ''r'']
      else if 32 \<le> code c \<and> code c \<le> 126 then [c]
      else [CHR 0x5C, CHR ''u'', CHR ''0'', CHR ''0''] @ hex2 (code c))"

definition json_string :: "string \<Rightarrow> string" where
  "json_string s = CHR 0x22 # concat (map escape_char s) @ [CHR 0x22]"

fun canonical_json :: "(real \<Rightarrow> string) \<Rightarrow> jval \<Rightarrow> string" where
  "canonical_json fl JNull = ''null''"
| "canonical_json fl (JBool b) = (if b then ''true'' else ''false'')"
| "canonical_json fl (JInt i) = py_str_int i"
| "canonical_json fl (JNum r) = fl r"
| "canonical_json fl (JStr s) = json_string s"
| "canonical_json fl (JList xs) = ''['' @ join_with '','' (map (canonical_json fl) xs) @ '']''"
| "canonical_json fl (JObj ms) =
     ''{'' @ join_with '','' (map (\<lambda>(k, t). json_string k @ '':'' @ t)
       (sort_key fst (map (\<lambda>(k, v). (k, canonical_json fl v)) ms))) @ ''}''"

text \<open>The value with the members of every object sorted: what the text stands for.\<close>

fun sorted_json :: "jval \<Rightarrow> jval" where
  "sorted_json (JList xs) = JList (map sorted_json xs)"
| "sorted_json (JObj ms) = JObj (sort_key fst (map (\<lambda>(k, v). (k, sorted_json v)) ms))"
| "sorted_json v = v"

fun print_json :: "(real \<Rightarrow> string) \<Rightarrow> jval \<Rightarrow> string" where
  "print_json fl JNull = ''null''"
| "print_json fl (JBool b) = (if b then ''true'' else ''false'')"
| "print_json fl (JInt i) = py_str_int i"
| "print_json fl (JNum r) = fl r"
| "print_json fl (JStr s) = json_string s"
| "print_json fl (JList xs) = ''['' @ join_with '','' (map (print_json fl) xs) @ '']''"
| "print_json fl (JObj ms) =
     ''{'' @ join_with '','' (map (\<lambda>(k, v). json_string k @ '':'' @ print_json fl v) ms) @ ''}''"

lemma sort_key_map_snd:
  "sort_key fst (map (\<lambda>(k, v). (k, f v)) ms) = map (\<lambda>(k, v). (k, f v)) (sort_key fst ms)"
proof -
  have "insort_key fst (k, f v) (map (\<lambda>(k, v). (k, f v)) xs) = map (\<lambda>(k, v). (k, f v)) (insort_key fst (k, v) xs)"
    for k :: "'a :: linorder" and v xs by (induction xs) auto
  then show ?thesis by (induction ms) (auto simp: sort_key_def)
qed

lemma canonical_prints_sorted: "canonical_json fl v = print_json fl (sorted_json v)"
proof (induction v rule: sorted_json.induct)
  case (1 xs)
  then have "map (canonical_json fl) xs = map (print_json fl) (map sorted_json xs)" by (simp cong: map_cong)
  then show ?case by (simp only: canonical_json.simps sorted_json.simps print_json.simps)
next
  case (2 ms)
  let ?t = "\<lambda>f. map (\<lambda>(k, v). (k, f v)) ms"
  have "?t (canonical_json fl) = map (\<lambda>(k, v). (k, print_json fl v)) (?t sorted_json)"
    using 2 by (auto simp: comp_def case_prod_unfold intro!: map_cong)
  then have "sort_key fst (?t (canonical_json fl)) = map (\<lambda>(k, v). (k, print_json fl v)) (sort_key fst (?t sorted_json))"
    by (simp only: sort_key_map_snd)
  then show ?case by (simp add: comp_def case_prod_unfold)
qed simp_all

subsection \<open>The text determines the value\<close>

definition number_char :: "char \<Rightarrow> bool" where
  "number_char c \<longleftrightarrow> is_digit c \<or> c \<in> {CHR ''+'', CHR ''-'', CHR ''.'', CHR ''e''}"

text \<open>\<open>float.__repr__\<close>: different finite floats have different texts, with a point or an exponent.
  \<open>F\<close> is the set of the reals that are floats.\<close>

definition float_text :: "real set \<Rightarrow> (real \<Rightarrow> string) \<Rightarrow> bool" where
  "float_text F fl \<longleftrightarrow> inj_on fl F \<and> (\<forall>r\<in>F. list_all number_char (fl r) \<and>
     (CHR ''.'' \<in> set (fl r) \<or> CHR ''e'' \<in> set (fl r)))"

fun floats_in :: "real set \<Rightarrow> jval \<Rightarrow> bool" where
  "floats_in F (JNum r) \<longleftrightarrow> r \<in> F"
| "floats_in F (JList xs) \<longleftrightarrow> (\<forall>x\<in>set xs. floats_in F x)"
| "floats_in F (JObj ms) \<longleftrightarrow> (\<forall>(k, v)\<in>set ms. floats_in F v)"
| "floats_in F v \<longleftrightarrow> True"

lemma floats_in_sorted: "floats_in F (sorted_json v) = floats_in F v"
  by (induction v rule: sorted_json.induct) (auto split: prod.splits)

definition stops :: "string \<Rightarrow> bool" where
  "stops a \<longleftrightarrow> a = [] \<or> hd a \<in> {CHR '','', CHR '']'', CHR ''}''}"

lemma stops_simps [simp]: "stops []" "stops (c # a) \<longleftrightarrow> c \<in> {CHR '','', CHR '']'', CHR ''}''}"
  by (simp_all add: stops_def)

text \<open>\<open>decodes p x\<close>: the text of \<open>x\<close> is found again at the front of a longer text.\<close>

definition decodes :: "('a \<Rightarrow> bool) \<Rightarrow> ('a \<Rightarrow> string) \<Rightarrow> 'a \<Rightarrow> bool" where
  "decodes D p x \<longleftrightarrow> (\<forall>y a b. D y \<longrightarrow> p x @ a = p y @ b \<longrightarrow> stops a \<longrightarrow> stops b \<longrightarrow> x = y \<and> a = b)"

definition opens :: "('a \<Rightarrow> bool) \<Rightarrow> ('a \<Rightarrow> string) \<Rightarrow> bool" where
  "opens D p \<longleftrightarrow> (\<forall>x. D x \<longrightarrow> (\<exists>c t. p x = c # t \<and> c \<notin> {CHR '','', CHR '']'', CHR ''}''}))"

lemma decodesD: "decodes D p x \<Longrightarrow> D y \<Longrightarrow> p x @ a = p y @ b \<Longrightarrow> stops a \<Longrightarrow> stops b \<Longrightarrow> x = y \<and> a = b"
  unfolding decodes_def by blast

lemma join_with_Cons: "join_with sep (x # xs) = x @ (if xs = [] then [] else sep @ join_with sep xs)"
  by (cases xs) simp_all

lemma join_decodes:
  assumes "\<And>x. x \<in> set xs \<Longrightarrow> D x \<and> decodes D p x" "opens D p" "list_all D ys" "c \<in> {CHR '']'', CHR ''}''}"
    and "join_with '','' (map p xs) @ c # a = join_with '','' (map p ys) @ c # b"
  shows "xs = ys \<and> a = b"
  using assms(1,3,5)
proof (induction xs arbitrary: ys)
  case Nil
  show ?case
  proof (cases ys)
    case (Cons y ys')
    obtain d t where "p y = d # t" "d \<notin> {CHR '','', CHR '']'', CHR ''}''}"
      using assms(2) Nil(2) Cons unfolding opens_def by auto
    with Nil(3) assms(4) Cons show ?thesis by (auto simp: join_with_Cons)
  qed (use Nil(3) in simp)
next
  case (Cons x xs)
  let ?rest = "\<lambda>zs z. (if zs = [] then [] else '','' @ join_with '','' (map p zs)) @ c # z"
  have stop: "stops (?rest zs z)" for zs z using assms(4) by auto
  show ?case
  proof (cases ys)
    case Nil
    then have "p x @ ?rest xs a = c # b" using Cons.prems(3) by (simp add: join_with_Cons)
    moreover obtain d t where "p x = d # t" "d \<notin> {CHR '','', CHR '']'', CHR ''}''}"
      using assms(2) Cons.prems(1) [of x] unfolding opens_def by auto
    ultimately show ?thesis using assms(4) by auto
  next
    case (Cons y ys')
    then have eq: "p x @ ?rest xs a = p y @ ?rest ys' b" using Cons.prems(3) by (simp add: join_with_Cons)
    have "decodes D p x" "D y" using Cons.prems(1,2) Cons by simp_all
    from decodesD [OF this eq stop [of xs a] stop [of ys' b]]
    have xy: "x = y" and rest: "?rest xs a = ?rest ys' b" by auto
    from rest have "(xs = []) = (ys' = [])" using assms(4) by (auto split: if_splits)
    then have "join_with '','' (map p xs) @ c # a = join_with '','' (map p ys') @ c # b"
      using rest by (auto split: if_splits)
    with Cons.IH Cons.prems(1,2) xy Cons show ?thesis by auto
  qed
qed

text \<open>Texts whose characters never stop.\<close>

lemma token_decodes:
  assumes "t @ a = u @ b" "stops a" "stops b" "\<And>c. c \<in> set t \<union> set u \<Longrightarrow> c \<notin> {CHR '','', CHR '']'', CHR ''}''}"
  shows "t = u \<and> a = b"
  using assms(1,4)
proof (induction t arbitrary: u)
  case Nil
  then show ?case using assms(2,3) by (cases u) auto
next
  case (Cons c t)
  then show ?case using assms(2,3) by (cases u) auto
qed

lemma int_text: "set (py_str_int i) \<subseteq> insert CHR ''-'' (Collect is_digit)"
  using nat_digits_digits by (auto simp: py_str_int_def list_all_iff)

lemma int_text_inj: "py_str_int i = py_str_int j \<Longrightarrow> i = j"
proof -
  have no_sign: "nat_digits n \<noteq> CHR ''-'' # t" for n t
    using nat_digits_digits [of n] by (auto simp: is_digit_def code_def)
  have inj: "nat_digits m = nat_digits n \<Longrightarrow> m = n" for m n
    by (metis digits_value_digits)
  assume "py_str_int i = py_str_int j"
  then show "i = j"
    using no_sign [THEN not_sym] no_sign inj by (fastforce simp: py_str_int_def split: if_splits dest: inj)
qed

text \<open>Escapes are read back character by character.\<close>

definition unescape :: "string \<Rightarrow> (char \<times> string) option" where
  "unescape s = (case s of
     c # t \<Rightarrow>
       if c \<noteq> CHR 0x5C then Some (c, t)
       else (case t of
          d # u \<Rightarrow>
            if d = CHR ''b'' then Some (CHR 0x08, u) else if d = CHR ''t'' then Some (CHR 0x09, u)
            else if d = CHR ''n'' then Some (CHR 0x0A, u) else if d = CHR ''f'' then Some (CHR 0x0C, u)
            else if d = CHR ''r'' then Some (CHR 0x0D, u)
            else if d = CHR ''u'' then Some (char_of (16 * hex_digit_value (u ! 2) + hex_digit_value (u ! 3)), drop 4 u)
            else Some (d, u)
        | [] \<Rightarrow> None)
   | [] \<Rightarrow> None)"

lemma hex_digit_value_digit: "n < 16 \<Longrightarrow> hex_digit_value (hex_digit n) = n"
  by (simp add: hex_digit_value_def hex_digit_def code_def)

lemma code_less: "code c < 256"
  by (simp add: code_def)

lemma char_of_code [simp]: "char_of (code c) = c"
  by (simp add: code_def)

lemma code_control:
  "(of_char c = (8 :: nat)) = (c = CHR 0x08)" "(of_char c = (9 :: nat)) = (c = CHR 0x09)"
  "(of_char c = (10 :: nat)) = (c = CHR 0x0A)" "(of_char c = (12 :: nat)) = (c = CHR 0x0C)"
  "(of_char c = (13 :: nat)) = (c = CHR 0x0D)"
proof -
  have eq: "(of_char c = (of_char d :: nat)) = (c = d)" for d by simp
  show "(of_char c = (8 :: nat)) = (c = CHR 0x08)" using eq [of "CHR 0x08"] by simp
  show "(of_char c = (9 :: nat)) = (c = CHR 0x09)" using eq [of "CHR 0x09"] by simp
  show "(of_char c = (10 :: nat)) = (c = CHR 0x0A)" using eq [of "CHR 0x0A"] by simp
  show "(of_char c = (12 :: nat)) = (c = CHR 0x0C)" using eq [of "CHR 0x0C"] by simp
  show "(of_char c = (13 :: nat)) = (c = CHR 0x0D)" using eq [of "CHR 0x0D"] by simp
qed

lemma unescape_escape: "unescape (escape_char c @ s) = Some (c, s)"
proof -
  have "16 * (code c div 16) + code c mod 16 = code c" by simp
  moreover have "code c div 16 < 16" using code_less [of c] by linarith
  moreover have "char_of n = c" if "code c = n" for n using that char_of_code by metis
  ultimately show ?thesis
    by (auto simp: unescape_def escape_char_def hex2_def hex_digit_value_digit code_def code_control)
qed

lemma escape_opens: "\<exists>d t. escape_char c = d # t \<and> d \<noteq> CHR 0x22"
  by (auto simp: escape_char_def)

lemma json_string_decodes: "json_string s @ a = json_string t @ b \<Longrightarrow> s = t \<and> a = b"
proof -
  have "concat (map escape_char s) @ CHR 0x22 # a = concat (map escape_char t) @ CHR 0x22 # b \<Longrightarrow> s = t \<and> a = b"
  proof (induction s arbitrary: t)
    case Nil
    show ?case
    proof (cases t)
      case (Cons c t')
      with Nil escape_opens [of c] show ?thesis by auto
    qed (use Nil in simp)
  next
    case (Cons c s)
    show ?case
    proof (cases t)
      case Nil
      with Cons.prems escape_opens [of c] show ?thesis by auto
    next
      case (Cons d t')
      let ?u = "\<lambda>s a. concat (map escape_char s) @ CHR 0x22 # a"
      have "unescape (escape_char c @ ?u s a) = unescape (escape_char d @ ?u t' b)"
        using Cons.prems Cons by simp
      then have "c = d" "?u s a = ?u t' b" by (simp_all add: unescape_escape)
      with Cons.IH Cons show ?thesis by simp
    qed
  qed
  moreover assume "json_string s @ a = json_string t @ b"
  ultimately show ?thesis by (simp add: json_string_def)
qed

lemma json_string_decodable [simp]: "decodes D json_string s"
  unfolding decodes_def using json_string_decodes by blast

text \<open>The first character tells the kind of a value, but for the two kinds of numbers.\<close>

definition first_char :: "jval \<Rightarrow> char \<Rightarrow> bool" where
  "first_char v c = (case v of JNull \<Rightarrow> c = CHR ''n'' | JBool b \<Rightarrow> c = (if b then CHR ''t'' else CHR ''f'')
     | JInt i \<Rightarrow> number_char c | JNum r \<Rightarrow> number_char c
     | JStr s \<Rightarrow> c = CHR 0x22 | JList xs \<Rightarrow> c = CHR ''['' | JObj ms \<Rightarrow> c = CHR ''{'')"

lemma number_char_not [simp]:
  "\<not> number_char CHR ''n''" "\<not> number_char CHR ''t''" "\<not> number_char CHR ''f''" "\<not> number_char CHR 0x22"
  "\<not> number_char CHR ''[''" "\<not> number_char CHR ''{''" "\<not> number_char CHR '',''" "\<not> number_char CHR '']''"
  "\<not> number_char CHR ''}''"
  by (simp_all add: number_char_def is_digit_def code_def)

lemma int_text_chars: "list_all number_char (py_str_int i)" "py_str_int i \<noteq> []"
  "CHR ''.'' \<notin> set (py_str_int i)" "CHR ''e'' \<notin> set (py_str_int i)"
proof -
  have "\<not> is_digit CHR ''.''" "\<not> is_digit CHR ''e''" by (simp_all add: is_digit_def code_def)
  with int_text [of i] show "list_all number_char (py_str_int i)"
    "CHR ''.'' \<notin> set (py_str_int i)" "CHR ''e'' \<notin> set (py_str_int i)"
    by (auto simp: number_char_def list_all_iff)
  show "py_str_int i \<noteq> []" by (simp add: py_str_int_def)
qed

lemma float_text_chars:
  assumes "float_text F fl" "r \<in> F"
  shows "list_all number_char (fl r)" "fl r \<noteq> []" "CHR ''.'' \<in> set (fl r) \<or> CHR ''e'' \<in> set (fl r)"
    "q \<in> F \<Longrightarrow> fl r = fl q \<longleftrightarrow> r = q"
proof -
  show "list_all number_char (fl r)" using assms by (simp add: float_text_def)
  show dot: "CHR ''.'' \<in> set (fl r) \<or> CHR ''e'' \<in> set (fl r)" using assms unfolding float_text_def by blast
  then show "fl r \<noteq> []" by auto
  have "inj_on fl F" using assms unfolding float_text_def by blast
  then show "fl r = fl q \<longleftrightarrow> r = q" if "q \<in> F" using that assms(2) by (simp add: inj_on_eq_iff)
qed

lemma print_first:
  assumes "float_text F fl" "floats_in F v"
  shows "\<exists>c t. print_json fl v = c # t \<and> first_char v c"
proof -
  have "\<exists>c t. s = c # t \<and> number_char c" if "list_all number_char s" "s \<noteq> []" for s
    using that by (cases s) auto
  then show ?thesis
    using float_text_chars [OF assms(1)] assms(2) int_text_chars
    by (cases v) (simp_all add: first_char_def json_string_def)
qed

lemma print_opens:
  assumes "float_text F fl"
  shows "opens (floats_in F) (print_json fl)"
  unfolding opens_def
proof (intro allI impI)
  fix v assume "floats_in F v"
  obtain c t where v: "print_json fl v = c # t" "first_char v c" using print_first [OF assms] \<open>floats_in F v\<close> by blast
  have "c \<notin> {CHR '','', CHR '']'', CHR ''}''}"
  proof
    assume "c \<in> {CHR '','', CHR '']'', CHR ''}''}"
    with v(2) show False by (cases v) (auto simp: first_char_def split: if_splits)
  qed
  with v show "\<exists>c t. print_json fl v = c # t \<and> c \<notin> {CHR '','', CHR '']'', CHR ''}''}" by blast
qed

lemma print_same_kind:
  assumes "float_text F fl" "floats_in F x" "floats_in F y" "print_json fl x @ a = print_json fl y @ b"
  obtains c where "first_char x c" "first_char y c"
  using print_first [OF assms(1,2)] print_first [OF assms(1,3)] assms(4) by auto

text \<open>Texts of numbers.\<close>

lemma number_decodes:
  assumes fl: "float_text F fl" and x: "x = JInt i \<or> x = JNum r" "floats_in F x"
  shows "decodes (floats_in F) (print_json fl) x"
  unfolding decodes_def
proof (intro allI impI)
  fix y a b
  assume in_F: "floats_in F y" and eq: "print_json fl x @ a = print_json fl y @ b" and stop: "stops a" "stops b"
  obtain c where "first_char x c" "first_char y c" using print_same_kind [OF fl x(2) in_F eq] by blast
  then have y: "(\<exists>j. y = JInt j) \<or> (\<exists>q\<in>F. y = JNum q)"
    using x(1) in_F by (cases y) (auto simp: first_char_def split: if_splits)
  have chars: "list_all number_char (print_json fl x)" "list_all number_char (print_json fl y)"
    using x y int_text_chars(1) float_text_chars(1) [OF fl] by auto
  have "print_json fl x = print_json fl y \<and> a = b"
  proof (rule token_decodes [OF eq stop])
    fix c assume "c \<in> set (print_json fl x) \<union> set (print_json fl y)"
    with chars have "number_char c" by (auto simp: list_all_iff)
    then show "c \<notin> {CHR '','', CHR '']'', CHR ''}''}" by auto
  qed
  moreover have "x = y" if eq: "print_json fl x = print_json fl y"
  proof -
    have "py_str_int i \<noteq> fl q" if "q \<in> F" for i q
      using int_text_chars(3,4) [of i] float_text_chars(3) [OF fl that] by metis
    with eq x y show ?thesis
      using int_text_inj float_text_chars(4) [OF fl] by (auto dest: sym)
  qed
  ultimately show "x = y \<and> a = b" by blast
qed

text \<open>Values.\<close>

lemma print_decodes:
  assumes fl: "float_text F fl"
  shows "floats_in F x \<Longrightarrow> decodes (floats_in F) (print_json fl) x"
proof (induction x rule: sorted_json.induct [case_names List Obj Null Bool Int Num Str])
  case (List xs)
  show ?case
    unfolding decodes_def
  proof (intro allI impI)
    fix y a b
    assume in_F: "floats_in F y" and eq: "print_json fl (JList xs) @ a = print_json fl y @ b"
    then obtain ys where y: "y = JList ys"
      using print_same_kind [OF fl List(2) in_F eq] by (cases y) (auto simp: first_char_def split: if_splits)
    from eq have eq': "join_with '','' (map (print_json fl) xs) @ CHR '']'' # a =
        join_with '','' (map (print_json fl) ys) @ CHR '']'' # b" by (simp add: y)
    have "floats_in F x \<and> decodes (floats_in F) (print_json fl) x" if "x \<in> set xs" for x
      using List that by simp
    moreover have "list_all (floats_in F) ys" using in_F by (simp add: y list_all_iff)
    ultimately have "xs = ys \<and> a = b"
      using join_decodes [OF _ print_opens [OF fl] _ _ eq'] by blast
    then show "JList xs = y \<and> a = b" by (simp add: y)
  qed
next
  case (Obj ms)
  let ?p = "\<lambda>(k, v). json_string k @ '':'' @ print_json fl v"
  let ?D = "\<lambda>m. floats_in F (snd m)"
  have opens: "opens ?D ?p" by (simp add: opens_def json_string_def split_beta)
  have "?D m \<and> decodes ?D ?p m" if "m \<in> set ms" for m
    unfolding decodes_def
  proof (intro conjI allI impI)
    show in_F: "?D m" using Obj(2) that by auto
    fix n a b
    assume "?D n" and eq: "?p m @ a = ?p n @ b" and "stops a" "stops b"
    obtain k v k' v' where mn: "m = (k, v)" "n = (k', v')" by (metis prod.exhaust)
    with eq have "json_string k @ ('':'' @ print_json fl v @ a) = json_string k' @ ('':'' @ print_json fl v' @ b)" by simp
    from json_string_decodes [OF this] have "k = k'" "print_json fl v @ a = print_json fl v' @ b" by auto
    moreover have "decodes (floats_in F) (print_json fl) v" using Obj(1) that mn in_F by fastforce
    ultimately show "m = n" "a = b" using decodesD \<open>stops a\<close> \<open>stops b\<close> \<open>?D n\<close> mn by (metis snd_conv)+
  qed
  note members = this
  show ?case
    unfolding decodes_def
  proof (intro allI impI)
    fix y a b
    assume in_F: "floats_in F y" and eq: "print_json fl (JObj ms) @ a = print_json fl y @ b"
    then obtain ns where y: "y = JObj ns"
      using print_same_kind [OF fl Obj(2) in_F eq] by (cases y) (auto simp: first_char_def split: if_splits)
    from eq have eq': "join_with '','' (map ?p ms) @ CHR ''}'' # a = join_with '','' (map ?p ns) @ CHR ''}'' # b"
      by (simp add: y)
    have "list_all ?D ns" using in_F by (auto simp: y list_all_iff)
    then have "ms = ns \<and> a = b" using join_decodes [OF members opens _ _ eq'] by blast
    then show "JObj ms = y \<and> a = b" by (simp add: y)
  qed
next
  case Null
  show ?case
    unfolding decodes_def
  proof (intro allI impI)
    fix y a b
    assume in_F: "floats_in F y" and eq: "print_json fl JNull @ a = print_json fl y @ b"
    then have "y = JNull" using print_same_kind [OF fl Null in_F eq]
      by (cases y) (auto simp: first_char_def split: if_splits)
    with eq show "JNull = y \<and> a = b" by simp
  qed
next
  case (Bool v)
  show ?case
    unfolding decodes_def
  proof (intro allI impI)
    fix y a b
    assume in_F: "floats_in F y" and eq: "print_json fl (JBool v) @ a = print_json fl y @ b"
    then have "y = JBool v" using print_same_kind [OF fl Bool in_F eq]
      by (cases y) (auto simp: first_char_def split: if_splits)
    with eq show "JBool v = y \<and> a = b" by simp
  qed
next
  case (Int v)
  then show ?case using number_decodes [OF fl, of "JInt v"] by blast
next
  case (Num v)
  then show ?case using number_decodes [OF fl, of "JNum v"] by blast
next
  case (Str v)
  show ?case
    unfolding decodes_def
  proof (intro allI impI)
    fix y a b
    assume in_F: "floats_in F y" and eq: "print_json fl (JStr v) @ a = print_json fl y @ b"
    then obtain w where y: "y = JStr w"
      using print_same_kind [OF fl Str in_F eq] by (cases y) (auto simp: first_char_def split: if_splits)
    with eq have "json_string v @ a = json_string w @ b" by simp
    from json_string_decodes [OF this] y show "JStr v = y \<and> a = b" by simp
  qed
qed

lemma canonical_json_eq:
  assumes "float_text F fl" "floats_in F x" "floats_in F y"
  shows "canonical_json fl x = canonical_json fl y \<longleftrightarrow> sorted_json x = sorted_json y"
proof
  assume "canonical_json fl x = canonical_json fl y"
  then have "print_json fl (sorted_json x) @ [] = print_json fl (sorted_json y) @ []"
    by (simp add: canonical_prints_sorted)
  then show "sorted_json x = sorted_json y"
    using decodesD [OF print_decodes [OF assms(1)]] assms(2,3) floats_in_sorted by (metis stops_simps(1))
qed (simp add: canonical_prints_sorted)

text \<open>Objects with the same different keys are equal up to order when their values are.\<close>

lemma sorted_object_eq:
  assumes "distinct (map fst ms)" "map fst ns = map fst ms"
  shows "sorted_json (JObj ms) = sorted_json (JObj ns) \<longleftrightarrow> map (sorted_json \<circ> snd) ms = map (sorted_json \<circ> snd) ns"
proof -
  let ?f = "map (\<lambda>(k, v). (k, sorted_json v))"
  have keys: "map fst (?f xs) = map fst xs" for xs :: "(string \<times> jval) list"
    by (simp add: case_prod_unfold comp_def)
  have "?f ms = ?f ns" if "sort_key fst (?f ms) = sort_key fst (?f ns)"
  proof -
    have "set (?f ms) = set (?f ns)" using that by (metis set_sort)
    then have "map_of (?f ms) = map_of (?f ns)"
      using assms keys map_of_inject_set by metis
    then have "map (map_of (?f ms)) (map fst ms) = map (map_of (?f ns)) (map fst ns)" using assms(2) by simp
    moreover have "map (map_of zs) (map fst zs) = map Some (map snd zs)" if "distinct (map fst zs)"
      for zs :: "(string \<times> jval) list" using that by (auto simp: map_of_eq_Some_iff)
    ultimately have "map Some (map snd (?f ms)) = map Some (map snd (?f ns))"
      using assms keys [of ms] keys [of ns] by metis
    then have "map snd (?f ms) = map snd (?f ns)" by (simp only: inj_map_eq_map [OF inj_Some])
    then show ?thesis using keys assms(2) by (metis zip_map_fst_snd)
  qed
  moreover have "?f ms = ?f ns \<longleftrightarrow> map (sorted_json \<circ> snd) ms = map (sorted_json \<circ> snd) ns"
  proof
    assume "?f ms = ?f ns"
    then have "map snd (?f ms) = map snd (?f ns)" by simp
    then show "map (sorted_json \<circ> snd) ms = map (sorted_json \<circ> snd) ns" by (simp add: comp_def case_prod_unfold)
  next
    assume eq: "map (sorted_json \<circ> snd) ms = map (sorted_json \<circ> snd) ns"
    have "?f xs = zip (map fst xs) (map (sorted_json \<circ> snd) xs)" for xs :: "(string \<times> jval) list"
      by (induction xs) auto
    then show "?f ms = ?f ns" using eq assms(2) by simp
  qed
  ultimately show ?thesis by auto
qed

end
