(* ===== verification/Clarifications.thy ===== *)
theory Clarifications
  imports Sha1 "HOL-Library.Multiset" "HOL-Library.List_Lexorder" "HOL-Library.Char_ord" "HOL-Library.Product_Lexorder"
begin

text \<open>
  Clarification questions and the answers of the operator (\<open>mas/clarifications.py\<close>): recording an
  answer, superseding questions, and the one answer per question that has authority, which is part
  of the effective input of a decision. Instants are counted in microseconds; a time stamp is what
  its clock showed, with the offset of its zone when it has one. \<open>isofmt\<close> is \<open>datetime.isoformat\<close>.
  The objects that questions are in Python are rows of their cycle: no question is in two cycles.
\<close>

subsection \<open>Records\<close>

datatype clarification_status = Open | Answered | Unavailable | Superseded

definition status_value :: "clarification_status \<Rightarrow> string" where
  "status_value st = (case st of Open \<Rightarrow> ''open'' | Answered \<Rightarrow> ''answered'' | Unavailable \<Rightarrow> ''unavailable''
     | Superseded \<Rightarrow> ''superseded'')"

datatype clarification_priority = Critical | High_priority | Medium_priority | Low_priority

record clarification_question =
  cq_id :: string
  cq_text :: string
  cq_why :: string
  cq_priority :: clarification_priority
  cq_phase :: string
  cq_gap :: string
  cq_status :: clarification_status

record stamp =
  sp_clock :: int
  sp_offset :: "int option"

record clarification_answer =
  an_id :: string
  an_question :: string
  an_text :: string
  an_status :: clarification_status
  an_at :: "stamp option"

record clarification_cycle =
  cc_id :: string
  cc_project :: string
  cc_questions :: "clarification_question list"
  cc_summary :: string

record clarification_state =
  cl_cycles :: "clarification_cycle list"
  cl_answers :: "clarification_answer list"

datatype clarification_error = Clarification_key string | Clarification_value string

subsection \<open>Recording answers\<close>

definition digest_of :: "string list \<Rightarrow> string" where
  "digest_of parts = take 12 (sha1_hex (utf8 (join_with ''|'' parts)))"

definition next_answer_id :: "clarification_state \<Rightarrow> string \<Rightarrow> string" where
  "next_answer_id s q =
     ''clarification_answer_'' @ digest_of [q, nat_digits (1 + length (filter (\<lambda>a. an_question a = q) (cl_answers s)))]"

text \<open>The question found in the newest cycle that has it.\<close>

definition find_question :: "clarification_state \<Rightarrow> string \<Rightarrow> (clarification_error, clarification_question) result" where
  "find_question s q =
     (case find (\<lambda>x. cq_id x = q) (concat (map cc_questions (rev (cl_cycles s)))) of
        Some x \<Rightarrow> Ok x | None \<Rightarrow> Err (Clarification_key q))"

fun set_in_questions :: "string \<Rightarrow> clarification_status \<Rightarrow> clarification_question list \<Rightarrow> clarification_question list" where
  "set_in_questions q st [] = []"
| "set_in_questions q st (x # xs) =
     (if cq_id x = q then x\<lparr>cq_status := st\<rparr> # xs else x # set_in_questions q st xs)"

text \<open>The status of the found question; the cycles are given newest first.\<close>

fun set_in_cycles :: "string \<Rightarrow> clarification_status \<Rightarrow> clarification_cycle list \<Rightarrow> clarification_cycle list" where
  "set_in_cycles q st [] = []"
| "set_in_cycles q st (c # cs) =
     (if list_ex (\<lambda>x. cq_id x = q) (cc_questions c)
      then c\<lparr>cc_questions := set_in_questions q st (cc_questions c)\<rparr> # cs else c # set_in_cycles q st cs)"

definition set_question_status :: "clarification_state \<Rightarrow> string \<Rightarrow> clarification_status \<Rightarrow> clarification_state" where
  "set_question_status s q st = s\<lparr>cl_cycles := rev (set_in_cycles q st (rev (cl_cycles s)))\<rparr>"

definition append_answer ::
  "clarification_state \<Rightarrow> string \<Rightarrow> string \<Rightarrow> clarification_status \<Rightarrow> stamp \<Rightarrow> clarification_state \<times> clarification_answer" where
  "append_answer s q t st now =
     (let a = \<lparr>an_id = next_answer_id s q, an_question = q, an_text = t, an_status = st, an_at = Some now\<rparr>
      in ((set_question_status s q st)\<lparr>cl_answers := cl_answers s @ [a]\<rparr>, a))"

definition record_clarification_answer ::
  "clarification_state \<Rightarrow> string \<Rightarrow> string \<Rightarrow> stamp \<Rightarrow>
   (clarification_error, clarification_state \<times> clarification_answer) result" where
  "record_clarification_answer s q t now =
     (let clean = py_strip t
      in if clean = '''' then Err (Clarification_value ''answer_text is required when status is answered'')
         else case find_question s q of
                Inl e \<Rightarrow> Err e
              | Inr x \<Rightarrow>
                  if cq_status x = Superseded
                  then Err (Clarification_value ''cannot answer a superseded clarification question'')
                  else Ok (append_answer s q clean Answered now))"

definition mark_clarification_unavailable ::
  "clarification_state \<Rightarrow> string \<Rightarrow> stamp \<Rightarrow> (clarification_error, clarification_state \<times> clarification_answer) result" where
  "mark_clarification_unavailable s q now =
     (case find_question s q of
        Inl e \<Rightarrow> Err e
      | Inr x \<Rightarrow>
          if cq_status x = Superseded
          then Err (Clarification_value ''cannot mark a superseded clarification question unavailable'')
          else Ok (append_answer s q ''Unavailable'' Unavailable now))"

subsection \<open>Cycles\<close>

definition open_clarification_questions :: "clarification_state \<Rightarrow> clarification_question list" where
  "open_clarification_questions s =
     concat (map (\<lambda>c. filter (\<lambda>x. cq_status x = Open) (cc_questions c)) (cl_cycles s))"

definition latest_clarification_cycle :: "clarification_state \<Rightarrow> clarification_cycle option" where
  "latest_clarification_cycle s = (if cl_cycles s = [] then None else Some (last (cl_cycles s)))"

definition same_gap_set :: "clarification_cycle option \<Rightarrow> clarification_cycle option \<Rightarrow> bool" where
  "same_gap_set first_cycle second_cycle =
     (case (first_cycle, second_cycle) of
        (Some a, Some b) \<Rightarrow> map cq_gap (cc_questions a) = map cq_gap (cc_questions b)
      | _ \<Rightarrow> False)"

definition supersede_open_questions :: "clarification_state \<Rightarrow> clarification_state" where
  "supersede_open_questions s =
     s\<lparr>cl_cycles := map (\<lambda>c. c\<lparr>cc_questions :=
        map (\<lambda>x. if cq_status x = Open then x\<lparr>cq_status := Superseded\<rparr> else x) (cc_questions c)\<rparr>) (cl_cycles s)\<rparr>"

text \<open>The endpoints \<open>create_clarification_cycle\<close> and \<open>answer_clarification\<close> of \<open>mas/api.py\<close>, without
  loading and saving; \<open>generated\<close> is the cycle of \<open>generate_clarification_cycle\<close>.\<close>

definition create_clarification_cycle ::
  "clarification_state \<Rightarrow> clarification_cycle \<Rightarrow> clarification_state \<times> clarification_cycle" where
  "create_clarification_cycle s generated =
     (case latest_clarification_cycle s of
        Some latest \<Rightarrow>
          (if same_gap_set (Some latest) (Some generated) then (s, latest)
           else let s1 = supersede_open_questions s in (s1\<lparr>cl_cycles := cl_cycles s1 @ [generated]\<rparr>, generated))
      | None \<Rightarrow> (let s1 = supersede_open_questions s in (s1\<lparr>cl_cycles := cl_cycles s1 @ [generated]\<rparr>, generated)))"

definition answer_clarification ::
  "clarification_state \<Rightarrow> string \<Rightarrow> string \<Rightarrow> string \<Rightarrow> stamp \<Rightarrow>
   (nat \<times> string, clarification_state \<times> clarification_answer) result" where
  "answer_clarification s status q t now =
     (let st = py_lower (py_strip status);
          outcome = (if st = ''answered'' then map_result Some (record_clarification_answer s q t now)
                     else if st = ''unavailable'' then map_result Some (mark_clarification_unavailable s q now)
                     else Ok None)
      in case outcome of
           Inl (Clarification_key _) \<Rightarrow> Err (404, ''Clarification question not found'')
         | Inl (Clarification_value m) \<Rightarrow> Err (400, m)
         | Inr None \<Rightarrow> Err (400, ''status must be answered or unavailable'')
         | Inr (Some r) \<Rightarrow> Ok r)"

subsection \<open>Authority\<close>

definition normalized_text :: "string \<Rightarrow> string" where
  "normalized_text t = py_lower (py_strip t)"

text \<open>\<open>_authoritative_answer_datetime\<close>: a stamp without an offset is read as UTC.\<close>

definition authoritative_instant :: "stamp option \<Rightarrow> int option" where
  "authoritative_instant st = map_option (\<lambda>x. sp_clock x - opt_or (sp_offset x) 0) st"

definition answer_sort_key :: "(int \<Rightarrow> string) \<Rightarrow> clarification_answer \<Rightarrow> string \<times> string \<times> string \<times> string" where
  "answer_sort_key isofmt a =
     (normalized_text (an_question a), normalized_text (an_id a),
      (case authoritative_instant (an_at a) of Some t \<Rightarrow> isofmt t | None \<Rightarrow> ''''), normalized_text (an_text a))"

definition has_authority :: "clarification_answer \<Rightarrow> bool" where
  "has_authority a \<longleftrightarrow> an_status a = Answered \<and> normalized_text (an_text a) \<noteq> ''''"

definition latest_answers :: "clarification_answer list \<Rightarrow> clarification_answer list" where
  "latest_answers records =
     (let instants = map (authoritative_instant \<circ> an_at) records
      in filter (\<lambda>a. authoritative_instant (an_at a) = Some (Max (the ` set instants))) records)"

text \<open>The record that decides a question, from all its records.\<close>

definition deciding_answer :: "(int \<Rightarrow> string) \<Rightarrow> clarification_answer list \<Rightarrow> clarification_answer option" where
  "deciding_answer isofmt records =
     (if list_ex (\<lambda>a. authoritative_instant (an_at a) = None) records
      then (if length records \<noteq> 1 then None else Some (hd records))
      else
        let latest = latest_answers records
        in if length latest > 1 \<and>
              \<not> (list_all (\<lambda>a. an_status a = Answered) latest \<and>
                 list_all (\<lambda>a. normalized_text (an_text a) = normalized_text (an_text (hd latest))) latest)
           then None
           else Some (hd (sort_key (answer_sort_key isofmt) latest)))"

text \<open>The groups in the order of their first record, and one record of each.\<close>

definition question_keys :: "clarification_answer list \<Rightarrow> string list" where
  "question_keys answers = dedupe_key id {} (filter (\<lambda>q. q \<noteq> '''') (map (normalized_text \<circ> an_question) answers))"

definition selected_answer :: "(int \<Rightarrow> string) \<Rightarrow> clarification_answer list \<Rightarrow> string \<Rightarrow> clarification_answer option" where
  "selected_answer isofmt answers q =
     (case deciding_answer isofmt (filter (\<lambda>a. normalized_text (an_question a) = q) answers) of
        Some a \<Rightarrow> if has_authority a then Some a else None
      | None \<Rightarrow> None)"

definition current_authoritative_answers :: "(int \<Rightarrow> string) \<Rightarrow> clarification_answer list \<Rightarrow> clarification_answer list" where
  "current_authoritative_answers isofmt answers =
     sort_key (answer_sort_key isofmt) (List.map_filter (selected_answer isofmt answers) (question_keys answers))"

subsection \<open>Which answers have authority\<close>

lemma mset_filter_map: "mset xs = mset ys \<Longrightarrow> mset (filter P xs) = mset (filter P ys)"
  by simp

lemma sort_key_mset_eq:
  assumes "mset xs = mset ys" "inj_on f (set xs)"
  shows "sort_key f xs = sort_key f ys"
  using assms by (intro sort_key_inj_key_eq) simp_all

lemma question_keys_set: "set (question_keys answers) = (normalized_text \<circ> an_question) ` set answers - {''''}"
proof -
  have "set (dedupe_key id {} xs) = set xs" for xs :: "string list" using dedupe_key_keys [of id "{}" xs] by simp
  then show ?thesis by (auto simp: question_keys_def)
qed

lemma distinct_question_keys: "distinct (question_keys answers)"
  using dedupe_key_distinct [of id "{}"] by (simp add: question_keys_def)

lemma latest_subset: "set (latest_answers records) \<subseteq> set records"
  by (auto simp: latest_answers_def)

lemma deciding_in:
  assumes "deciding_answer isofmt records = Some a" "records \<noteq> []"
  shows "a \<in> set records"
proof (cases "list_ex (\<lambda>a. authoritative_instant (an_at a) = None) records")
  case True
  with assms show ?thesis by (auto simp: deciding_answer_def split: if_splits)
next
  case False
  then have a: "a = hd (sort_key (answer_sort_key isofmt) (latest_answers records))"
    using assms(1) by (auto simp: deciding_answer_def Let_def split: if_splits)
  let ?T = "the ` set (map (authoritative_instant \<circ> an_at) records)"
  have "Max ?T \<in> ?T" using assms(2) by (intro Max_in) auto
  then obtain b where b: "b \<in> set records" "Max ?T = the (authoritative_instant (an_at b))" by auto
  with False have "authoritative_instant (an_at b) = Some (Max ?T)" by (fastforce simp: list_ex_iff)
  with b have "latest_answers records \<noteq> []" by (auto simp: latest_answers_def Let_def filter_empty_conv)
  then have "sort_key (answer_sort_key isofmt) (latest_answers records) \<noteq> []" by (metis set_empty set_sort)
  then have "a \<in> set (sort_key (answer_sort_key isofmt) (latest_answers records))" unfolding a by (rule hd_in_set)
  then show ?thesis using latest_subset by auto
qed

lemma selectedD:
  assumes "selected_answer isofmt answers q = Some a" "q \<in> set (question_keys answers)"
  shows "a \<in> set answers" "normalized_text (an_question a) = q" "has_authority a"
proof -
  let ?r = "filter (\<lambda>a. normalized_text (an_question a) = q) answers"
  have d: "deciding_answer isofmt ?r = Some a" and "has_authority a"
    using assms(1) by (auto simp: selected_answer_def split: option.splits if_splits)
  then show "has_authority a" by blast
  have "?r \<noteq> []" using assms(2) by (auto simp: question_keys_set filter_empty_conv)
  from deciding_in [OF d this] show "a \<in> set answers" "normalized_text (an_question a) = q" by auto
qed

lemma current_set:
  "a \<in> set (current_authoritative_answers isofmt answers) \<longleftrightarrow>
     (\<exists>q \<in> set (question_keys answers). selected_answer isofmt answers q = Some a)"
  by (auto simp: current_authoritative_answers_def List.map_filter_def image_iff)

text \<open>One answer per question.\<close>

lemma current_distinct: "distinct (map (normalized_text \<circ> an_question) (current_authoritative_answers isofmt answers))"
proof -
  let ?sel = "List.map_filter (selected_answer isofmt answers) (question_keys answers)"
  have "map (normalized_text \<circ> an_question) (List.map_filter (selected_answer isofmt answers) qs) =
      filter (\<lambda>q. selected_answer isofmt answers q \<noteq> None) qs" if "set qs \<subseteq> set (question_keys answers)" for qs
    using that selectedD(2) by (induction qs) (auto simp: List.map_filter_def)
  then have "distinct (map (normalized_text \<circ> an_question) ?sel)" using distinct_question_keys by simp
  then have "distinct ?sel" "inj_on (normalized_text \<circ> an_question) (set ?sel)" by (auto simp: distinct_map)
  then show ?thesis by (simp add: current_authoritative_answers_def distinct_map)
qed

lemma deciding_mset:
  assumes "mset xs = mset ys" "inj_on (answer_sort_key isofmt) (set xs)"
  shows "deciding_answer isofmt xs = deciding_answer isofmt ys"
proof -
  have set: "set xs = set ys" and len: "length xs = length ys"
    using assms(1) by (auto dest: mset_eq_setD mset_eq_length)
  have latest: "mset (latest_answers xs) = mset (latest_answers ys)"
    using assms(1) set by (simp add: latest_answers_def Let_def)
  then have lset: "set (latest_answers xs) = set (latest_answers ys)" and llen: "length (latest_answers xs) = length (latest_answers ys)"
    by (auto dest: mset_eq_setD mset_eq_length)
  have one: "hd xs = hd ys" if "length xs = 1"
    using that len set by (auto simp: length_Suc_conv)
  have same: "list_all (\<lambda>a. normalized_text (an_text a) = normalized_text (an_text (hd zs))) zs \<longleftrightarrow>
      (\<forall>a \<in> set zs. \<forall>b \<in> set zs. normalized_text (an_text a) = normalized_text (an_text b))" for zs
    by (cases zs) (auto simp: list_all_iff)
  have "inj_on (answer_sort_key isofmt) (set (latest_answers xs))"
    using assms(2) latest_subset by (rule inj_on_subset)
  note sorted = sort_key_mset_eq [OF latest this]
  have timed: "list_ex (\<lambda>a. authoritative_instant (an_at a) = None) xs = list_ex (\<lambda>a. authoritative_instant (an_at a) = None) ys"
    by (simp only: list_ex_iff set)
  have clear: "(length (latest_answers xs) > 1 \<and> \<not> (list_all (\<lambda>a. an_status a = Answered) (latest_answers xs) \<and>
      list_all (\<lambda>a. normalized_text (an_text a) = normalized_text (an_text (hd (latest_answers xs)))) (latest_answers xs))) =
    (length (latest_answers ys) > 1 \<and> \<not> (list_all (\<lambda>a. an_status a = Answered) (latest_answers ys) \<and>
      list_all (\<lambda>a. normalized_text (an_text a) = normalized_text (an_text (hd (latest_answers ys)))) (latest_answers ys)))"
    unfolding same by (simp only: list_all_iff lset llen)
  have single: "(if length xs \<noteq> 1 then None else Some (hd xs)) = (if length ys \<noteq> 1 then None else Some (hd ys))"
    using one len by (cases "length ys = 1") simp_all
  show ?thesis unfolding deciding_answer_def Let_def timed clear single sorted by (rule refl)
qed

text \<open>C26: the order in which answers were stored is never authority. Two lists with the same answers, in
  which no two have both the question and the answer id in common up to case and blanks, have the
  same authoritative answers in the same order; there is at most one for a question.\<close>

theorem authority_ignores_order:
  assumes "mset answers = mset answers'"
    and "inj_on (\<lambda>a. (normalized_text (an_question a), normalized_text (an_id a))) (set answers)"
  shows "current_authoritative_answers isofmt answers = current_authoritative_answers isofmt answers' \<and>
    distinct (map (normalized_text \<circ> an_question) (current_authoritative_answers isofmt answers))"
proof
  have inj: "inj_on (answer_sort_key isofmt) (set answers)"
    using assms(2) by (auto simp: inj_on_def answer_sort_key_def)
  have set: "set answers = set answers'" using assms(1) by (rule mset_eq_setD)
  have sel: "selected_answer isofmt answers q = selected_answer isofmt answers' q" for q
    unfolding selected_answer_def
    by (subst deciding_mset [OF mset_filter_map [OF assms(1)] inj_on_subset [OF inj]]) auto
  have keys: "mset (question_keys answers) = mset (question_keys answers')"
    using distinct_question_keys by (intro set_eq_iff_mset_eq_distinct [THEN iffD1]) (simp_all add: question_keys_set set)
  have "mset (List.map_filter f xs) = mset (List.map_filter f ys)" if "mset xs = mset ys" for f :: "string \<Rightarrow> clarification_answer option" and xs ys
    using that by (simp add: List.map_filter_def)
  then have "mset (List.map_filter (selected_answer isofmt answers) (question_keys answers)) =
      mset (List.map_filter (selected_answer isofmt answers') (question_keys answers'))"
    using keys sel by (metis ext)
  moreover have "set (List.map_filter (selected_answer isofmt answers) (question_keys answers)) \<subseteq> set answers"
    using selectedD(1) by (fastforce simp: List.map_filter_def)
  ultimately show "current_authoritative_answers isofmt answers = current_authoritative_answers isofmt answers'"
    unfolding current_authoritative_answers_def using sort_key_mset_eq inj_on_subset [OF inj] by blast
qed (rule current_distinct)

definition sample_answer :: "nat \<Rightarrow> string \<Rightarrow> string \<Rightarrow> int \<Rightarrow> clarification_answer" where
  "sample_answer n q t clock = \<lparr>an_id = nat_digits n, an_question = q, an_text = t, an_status = Answered,
     an_at = Some \<lparr>sp_clock = clock, sp_offset = None\<rparr>\<rparr>"

theorem authority_ignores_order_witness:
  "current_authoritative_answers (\<lambda>t. ''t'') [sample_answer 1 ''q1'' ''yes'' 5, sample_answer 2 ''q1'' ''no'' 9, sample_answer 3 ''q2'' ''go'' 5] =
   current_authoritative_answers (\<lambda>t. ''t'') [sample_answer 3 ''q2'' ''go'' 5, sample_answer 2 ''q1'' ''no'' 9, sample_answer 1 ''q1'' ''yes'' 5]"
proof -
  let ?as = "[sample_answer 1 ''q1'' ''yes'' 5, sample_answer 2 ''q1'' ''no'' 9, sample_answer 3 ''q2'' ''go'' 5]"
  have "inj_on (\<lambda>a. (normalized_text (an_question a), normalized_text (an_id a))) (set ?as)"
    by (simp add: sample_answer_def normalized_text_def py_lower_def py_strip_def py_rstrip_def py_lstrip_def
        py_isspace_def lower_char_def code_def nat_digits.simps)
  moreover have "mset ?as = mset (rev ?as)" by simp
  ultimately show ?thesis using authority_ignores_order [of ?as "rev ?as"] by auto
qed

subsection \<open>What an answer changes\<close>

lemma strip_idem [simp]: "py_strip (py_strip s) = py_strip s"
proof -
  have drop: "dropWhile P (rev (dropWhile P (rev (dropWhile P xs)))) = rev (dropWhile P (rev (dropWhile P xs)))"
    for P :: "char \<Rightarrow> bool" and xs
  proof (cases "dropWhile P xs")
    case (Cons c cs)
    then have c: "\<not> P c" by (metis hd_dropWhile list.sel(1) list.distinct(1))
    have "\<exists>ys. rev (dropWhile P (rev (c # cs))) = c # ys"
    proof -
      have "dropWhile P (rev cs @ [c]) = dropWhile P (rev cs) @ [c]" if "\<exists>x \<in> set cs. \<not> P x"
        using that by (metis dropWhile_append1 set_rev)
      moreover have "dropWhile P (rev cs @ [c]) = [c]" if "\<forall>x \<in> set cs. P x"
        using that c by (simp add: dropWhile_append dropWhile_eq_Nil_conv)
      ultimately show ?thesis by fastforce
    qed
    with c Cons show ?thesis by auto
  next
    case Nil
    show ?thesis unfolding Nil by simp
  qed
  have twice: "dropWhile P (dropWhile P xs) = dropWhile P xs" for P :: "char \<Rightarrow> bool" and xs
    by (simp add: dropWhile_idem)
  show ?thesis unfolding py_strip_def py_rstrip_def py_lstrip_def by (simp add: drop twice)
qed

lemma normalized_empty [simp]: "normalized_text t = '''' \<longleftrightarrow> py_strip t = ''''"
  by (simp add: normalized_text_def py_lower_def)

lemma find_after_set:
  "find (\<lambda>x. cq_id x = q) (concat (map cc_questions cs)) = Some x \<Longrightarrow>
   find (\<lambda>x. cq_id x = q) (concat (map cc_questions (set_in_cycles q st cs))) = Some (x\<lparr>cq_status := st\<rparr>)"
proof (induction cs)
  case (Cons c cs)
  have in_questions: "find (\<lambda>x. cq_id x = q) (set_in_questions q st xs) =
      map_option (\<lambda>x. x\<lparr>cq_status := st\<rparr>) (find (\<lambda>x. cq_id x = q) xs)"
    "list_ex (\<lambda>x. cq_id x = q) (set_in_questions q st xs) = list_ex (\<lambda>x. cq_id x = q) xs" for xs
    by (induction xs) auto
  have found: "find P (xs @ ys) = (if list_ex P xs then find P xs else find P ys)" for P :: "clarification_question \<Rightarrow> bool" and xs ys
    by (induction xs) auto
  from Cons show ?case by (auto simp: found in_questions)
qed simp

lemma answer_clarification_Ok:
  assumes "answer_clarification s status q t now = Ok (s', a)"
  obtains x st where "find_question s q = Ok x" "cq_status x \<noteq> Superseded"
    "st = (if py_lower (py_strip status) = ''answered'' then Answered else Unavailable)"
    "a = \<lparr>an_id = next_answer_id s q, an_question = q,
       an_text = (if st = Answered then py_strip t else ''Unavailable''), an_status = st, an_at = Some now\<rparr>"
    "st = Answered \<Longrightarrow> py_strip t \<noteq> ''''"
    "s' = (set_question_status s q st)\<lparr>cl_answers := cl_answers s @ [a]\<rparr>"
  using assms
  by (auto simp: answer_clarification_def record_clarification_answer_def mark_clarification_unavailable_def
      append_answer_def Let_def split: if_splits sum.splits option.splits clarification_error.splits)

lemma deciding_newest:
  assumes "\<And>b. b \<in> set records \<Longrightarrow> \<exists>i. authoritative_instant (an_at b) = Some i \<and> i < t"
    and "authoritative_instant (an_at a) = Some t"
  shows "deciding_answer isofmt (records @ [a]) = Some a"
proof -
  let ?T = "the ` set (map (authoritative_instant \<circ> an_at) (records @ [a]))"
  have "Max ?T = t"
  proof (rule Max_eqI)
    show "t \<in> ?T" using assms(2) by simp
    fix y assume "y \<in> ?T"
    then obtain b where "b \<in> set records \<or> b = a" "y = the (authoritative_instant (an_at b))" by auto
    then show "y \<le> t" using assms(1) [of b] assms(2) by auto
  qed simp
  moreover have "authoritative_instant (an_at b) \<noteq> Some t" if "b \<in> set records" for b using assms(1) [OF that] by auto
  ultimately have latest: "latest_answers (records @ [a]) = [a]"
    using assms(2) unfolding latest_answers_def Let_def by (simp add: filter_empty_conv)
  have "\<not> list_ex (\<lambda>a. authoritative_instant (an_at a) = None) (records @ [a])"
    using assms by (force simp: list_ex_iff)
  then show ?thesis by (simp add: deciding_answer_def latest del: list_ex_append)
qed

text \<open>C27: an accepted answer decides its question. When the endpoint accepts an answer and every earlier
  record of the question is older, then the question has the status of the answer, the authoritative
  answers of all other questions stay, an answer replaces what was authoritative for the question,
  and a mark as unavailable leaves no authoritative answer for it.\<close>

theorem answer_decides:
  assumes "answer_clarification s status q t now = Ok (s', a)" "py_strip q \<noteq> ''''"
    and "\<forall>b \<in> set (cl_answers s). normalized_text (an_question b) = normalized_text q \<longrightarrow>
      (\<exists>i. authoritative_instant (an_at b) = Some i \<and> i < the (authoritative_instant (Some now)))"
  shows "map_result cq_status (find_question s' q) = Ok (an_status a) \<and> cl_answers s' = cl_answers s @ [a] \<and>
    set (current_authoritative_answers isofmt (cl_answers s')) =
      {b \<in> set (current_authoritative_answers isofmt (cl_answers s)). normalized_text (an_question b) \<noteq> normalized_text q} \<union>
      (if an_status a = Answered then {a} else {})"
proof -
  obtain x st where x: "find_question s q = Ok x" "cq_status x \<noteq> Superseded"
    and a: "a = \<lparr>an_id = next_answer_id s q, an_question = q,
       an_text = (if st = Answered then py_strip t else ''Unavailable''), an_status = st, an_at = Some now\<rparr>"
    and t: "st = Answered \<Longrightarrow> py_strip t \<noteq> ''''"
    and s': "s' = (set_question_status s q st)\<lparr>cl_answers := cl_answers s @ [a]\<rparr>"
    by (rule answer_clarification_Ok [OF assms(1)]) blast
  let ?n = "normalized_text q"
  have "find (\<lambda>x. cq_id x = q) (concat (map cc_questions (rev (cl_cycles s)))) = Some x"
    using x(1) by (auto simp: find_question_def split: option.splits)
  from find_after_set [OF this, of st] have "map_result cq_status (find_question s' q) = Ok (an_status a)"
    by (simp add: find_question_def s' set_question_status_def a)
  moreover have "set (current_authoritative_answers isofmt (cl_answers s @ [a])) =
      {b \<in> set (current_authoritative_answers isofmt (cl_answers s)). normalized_text (an_question b) \<noteq> ?n} \<union>
      (if an_status a = Answered then {a} else {})"
  proof -
    have keys: "set (question_keys (cl_answers s @ [a])) = insert ?n (set (question_keys (cl_answers s)))"
      using assms(2) by (auto simp: question_keys_set a)
    have other: "selected_answer isofmt (cl_answers s @ [a]) p = selected_answer isofmt (cl_answers s) p" if "p \<noteq> ?n" for p
      using that by (auto simp: selected_answer_def a)
    have "deciding_answer isofmt (filter (\<lambda>b. normalized_text (an_question b) = ?n) (cl_answers s) @ [a]) = Some a"
      using assms(3) by (intro deciding_newest [of _ "the (authoritative_instant (Some now))"])
        (auto simp: a authoritative_instant_def)
    then have this_one: "selected_answer isofmt (cl_answers s @ [a]) ?n = (if has_authority a then Some a else None)"
      by (simp add: selected_answer_def a)
    have auth: "has_authority a \<longleftrightarrow> an_status a = Answered" using t by (auto simp: has_authority_def a)
    have "b \<in> set (current_authoritative_answers isofmt (cl_answers s @ [a])) \<longleftrightarrow>
        (\<exists>p \<in> set (question_keys (cl_answers s)) - {?n}. selected_answer isofmt (cl_answers s) p = Some b) \<or>
        (has_authority a \<and> b = a)" for b
    proof -
      have "(\<exists>p \<in> insert ?n (set (question_keys (cl_answers s))). selected_answer isofmt (cl_answers s @ [a]) p = Some b) \<longleftrightarrow>
          selected_answer isofmt (cl_answers s @ [a]) ?n = Some b \<or>
          (\<exists>p \<in> set (question_keys (cl_answers s)) - {?n}. selected_answer isofmt (cl_answers s @ [a]) p = Some b)" by blast
      also have "\<dots> \<longleftrightarrow> (has_authority a \<and> b = a) \<or>
          (\<exists>p \<in> set (question_keys (cl_answers s)) - {?n}. selected_answer isofmt (cl_answers s) p = Some b)"
        using this_one other by auto
      finally show ?thesis unfolding current_set keys by blast
    qed
    moreover have "(\<exists>p \<in> set (question_keys (cl_answers s)) - {?n}. selected_answer isofmt (cl_answers s) p = Some b) \<longleftrightarrow>
        b \<in> set (current_authoritative_answers isofmt (cl_answers s)) \<and> normalized_text (an_question b) \<noteq> ?n" for b
      unfolding current_set using selectedD(2) by fastforce
    ultimately show ?thesis unfolding auth by auto
  qed
  ultimately show ?thesis by (simp add: s' set_question_status_def)
qed

definition sample_question :: clarification_question where
  "sample_question = \<lparr>cq_id = ''q1'', cq_text = ''When?'', cq_why = ''Timing'', cq_priority = Critical,
     cq_phase = ''classify'', cq_gap = ''decision_deadline'', cq_status = Answered\<rparr>"

definition sample_clarifications :: clarification_state where
  "sample_clarifications =
     \<lparr>cl_cycles = [\<lparr>cc_id = ''c'', cc_project = ''p'', cc_questions = [sample_question], cc_summary = ''''\<rparr>],
      cl_answers = [sample_answer 1 ''q1'' ''Monday'' 5]\<rparr>"

theorem answer_decides_witness:
  "\<exists>s' a. answer_clarification sample_clarifications ''unavailable'' ''q1'' '''' \<lparr>sp_clock = 9, sp_offset = Some 2\<rparr> = Ok (s', a) \<and>
     set (current_authoritative_answers (\<lambda>t. ''t'') (cl_answers s')) = {}"
proof -
  let ?now = "\<lparr>sp_clock = 9, sp_offset = Some 2\<rparr> :: stamp"
  have low: "py_strip ''unavailable'' = ''unavailable''" "py_lower ''unavailable'' = ''unavailable''" "py_strip ''q1'' \<noteq> ''''"
    "normalized_text ''q1'' = ''q1''" by code_simp+
  obtain s' a where run: "answer_clarification sample_clarifications ''unavailable'' ''q1'' '''' ?now = Ok (s', a)"
    and a: "an_status a = Unavailable"
    by (simp add: answer_clarification_def mark_clarification_unavailable_def find_question_def low
        sample_clarifications_def sample_question_def append_answer_def Let_def)
  have "\<forall>b \<in> set (cl_answers sample_clarifications). normalized_text (an_question b) = normalized_text ''q1'' \<longrightarrow>
      (\<exists>i. authoritative_instant (an_at b) = Some i \<and> i < the (authoritative_instant (Some ?now)))"
    by (simp add: sample_clarifications_def sample_answer_def authoritative_instant_def)
  note decided = answer_decides [OF run low(3) this, of "\<lambda>t. ''t''"]
  have "normalized_text (an_question b) = normalized_text ''q1''"
    if "b \<in> set (current_authoritative_answers (\<lambda>t. ''t'') (cl_answers sample_clarifications))" for b
  proof -
    have "b \<in> set (cl_answers sample_clarifications)" using that selectedD(1) unfolding current_set by blast
    then show ?thesis by (simp add: sample_clarifications_def sample_answer_def)
  qed
  then have none: "{b \<in> set (current_authoritative_answers (\<lambda>t. ''t'') (cl_answers sample_clarifications)).
      normalized_text (an_question b) \<noteq> normalized_text ''q1''} = {}" by blast
  have "set (current_authoritative_answers (\<lambda>t. ''t'') (cl_answers s')) = {}"
    unfolding decided [THEN conjunct2, THEN conjunct2] none using a by simp
  with run show ?thesis by blast
qed

end
