(* ===== verification/EffectiveInput.thy ===== *)
theory EffectiveInput
  imports CanonicalJson Clarifications Orchestrator
begin

text \<open>
  The identity of the inputs of a decision (\<open>mas/state_coherence.py\<close>): the projection of a project
  state to what is material for its analysis, the digest of its canonical text, and the stable
  identifiers derived from it. A decision state is the project state of theory State with the
  fields that only this identity reads, and the two bindings to the stored analysis.

  The parameters are the texts that Python's library gives to floats, instants and other values.
\<close>

subsection \<open>State\<close>

record source_provenance =
  sp_type :: string
  sp_ref :: string
  sp_uri :: string
  sp_checksum :: string

record imported_evidence =
  ie_id :: string
  ie_title :: string
  ie_summary :: string
  ie_category :: string
  ie_untrusted :: bool
  ie_provenance :: source_provenance

record imported_signal =
  ig_id :: string
  ig_name :: string
  ig_description :: string
  ig_kind :: string
  ig_confidence :: "real option"
  ig_cadence :: string
  ig_provenance :: source_provenance

record decision_state =
  ds_project :: project_state
  ds_data :: string
  ds_contract_version :: string
  ds_source :: string
  ds_external_case :: string
  ds_metadata :: "(string \<times> jval) list"
  ds_risk_rationale :: string
  ds_evidence :: "imported_evidence list"
  ds_signals :: "imported_signal list"
  ds_clarifications :: clarification_state
  ds_attestations :: "(phase \<times> (string \<times> jval) list) list"
  ds_snapshot :: string
  ds_generation :: string

record text_env =
  te_float :: "real \<Rightarrow> string"
  te_iso :: "int \<Rightarrow> string"
  te_str :: "jval \<Rightarrow> string"

abbreviation ds_id :: "decision_state \<Rightarrow> string" where
  "ds_id s \<equiv> project_id (ds_project s)"

subsection \<open>Identifiers\<close>

definition EFFECTIVE_INPUT_CONTRACT_VERSION :: string where
  "EFFECTIVE_INPUT_CONTRACT_VERSION = ''effective-decision-input.v1''"

definition ANALYSIS_STATE_CONTRACT_VERSION :: string where
  "ANALYSIS_STATE_CONTRACT_VERSION = ''analysis-generation.v1''"

definition LEGACY_BASELINE_WORKFLOW_FINGERPRINT :: string where
  "LEGACY_BASELINE_WORKFLOW_FINGERPRINT = ''legacy-baseline.v1''"

definition IDENTITY_NAMESPACE :: string where
  "IDENTITY_NAMESPACE = ''c956f954d1004d4fa2a0afd687c4dfef''"

text \<open>\<open>" ".join(part.split()).strip().lower()\<close>.\<close>

fun split_blanks :: "string \<Rightarrow> string \<Rightarrow> string list" where
  "split_blanks word [] = (if word = [] then [] else [rev word])"
| "split_blanks word (c # cs) =
     (if py_isspace c then (if word = [] then split_blanks [] cs else rev word # split_blanks [] cs)
      else split_blanks (c # word) cs)"

definition normalize_part :: "string \<Rightarrow> string" where
  "normalize_part part = py_lower (py_strip (join_with '' '' (split_blanks [] part)))"

definition stable_object_id :: "string \<Rightarrow> string list \<Rightarrow> string" where
  "stable_object_id kind parts =
     kind @ ''_'' @ take 12 (sha1_hex (utf8 (join_with ''|'' (map normalize_part parts))))"

definition primary_decision_id :: "string \<Rightarrow> string" where
  "primary_decision_id project = stable_object_id ''decision'' [project, ''primary'']"

subsection \<open>The payload\<close>

definition provenance_json :: "source_provenance \<Rightarrow> jval" where
  "provenance_json p = JObj [(''source_type'', JStr (sp_type p)), (''source_ref'', JStr (sp_ref p)),
     (''external_uri'', JStr (sp_uri p)), (''checksum'', JStr (sp_checksum p))]"

definition effective_evidence :: "imported_evidence \<Rightarrow> jval" where
  "effective_evidence e = JObj [(''evidence_id'', JStr (ie_id e)), (''title'', JStr (ie_title e)),
     (''summary'', JStr (ie_summary e)), (''category'', JStr (ie_category e)),
     (''untrusted_source'', JBool (ie_untrusted e)), (''provenance'', provenance_json (ie_provenance e))]"

definition effective_signal :: "imported_signal \<Rightarrow> jval" where
  "effective_signal g = JObj [(''signal_id'', JStr (ig_id g)), (''name'', JStr (ig_name g)),
     (''description'', JStr (ig_description g)), (''kind'', JStr (ig_kind g)),
     (''confidence'', case ig_confidence g of None \<Rightarrow> JNull | Some r \<Rightarrow> JNum r),
     (''cadence'', JStr (ig_cadence g)), (''provenance'', provenance_json (ig_provenance g))]"

text \<open>\<open>str(d.get(key) or "")\<close>, and \<open>d.get(key) or []\<close> for a list.\<close>

fun truthy :: "jval \<Rightarrow> bool" where
  "truthy JNull = False"
| "truthy (JBool b) = b"
| "truthy (JInt i) = (i \<noteq> 0)"
| "truthy (JNum r) = (r \<noteq> 0)"
| "truthy (JStr s) = (s \<noteq> '''')"
| "truthy (JList xs) = (xs \<noteq> [])"
| "truthy (JObj ms) = (ms \<noteq> [])"

definition field_text :: "text_env \<Rightarrow> (string \<times> jval) list \<Rightarrow> string \<Rightarrow> string" where
  "field_text env d key =
     (case map_of d key of
        Some (JStr s) \<Rightarrow> s
      | Some v \<Rightarrow> if truthy v then te_str env v else ''''
      | None \<Rightarrow> '''')"

fun members_of :: "jval option \<Rightarrow> (string \<times> jval) list" where
  "members_of (Some (JObj ms)) = ms"
| "members_of _ = []"

definition dict_items :: "jval option \<Rightarrow> (string \<times> jval) list list" where
  "dict_items v = (case v of
     Some (JList xs) \<Rightarrow> concat (map (\<lambda>x. case x of JObj ms \<Rightarrow> [ms] | _ \<Rightarrow> []) xs)
   | _ \<Rightarrow> [])"

definition used :: "(string \<times> jval) list \<Rightarrow> bool" where
  "used d \<longleftrightarrow> map_of d ''status'' = Some (JStr ''used'')"

definition text_fields :: "text_env \<Rightarrow> (string \<times> jval) list \<Rightarrow> string list \<Rightarrow> (string \<times> jval) list" where
  "text_fields env d keys = map (\<lambda>k. (k, JStr (field_text env d k))) keys"

definition knowledge_consumed :: "text_env \<Rightarrow> phase \<Rightarrow> (string \<times> jval) list \<Rightarrow> jval" where
  "knowledge_consumed env p d =
     JObj ([(''phase'', JStr p), (''authority'', JStr ''knowledge_retrieval'')] @
       text_fields env d [''projection_fingerprint'', ''policy_fingerprint''] @
       [(''items'', JList (map (\<lambda>item. JObj (text_fields env item [''item_id'', ''source_id'', ''projection_sha256'']))
          (dict_items (map_of d ''items''))))])"

definition research_consumed :: "text_env \<Rightarrow> phase \<Rightarrow> (string \<times> jval) list \<Rightarrow> jval" where
  "research_consumed env p d =
     JObj ([(''phase'', JStr p), (''authority'', JStr ''research_evidence_internal_analysis'')] @
       text_fields env d [''usage_scope'', ''projection_fingerprint'', ''policy_identifier'', ''policy_version'',
         ''policy_fingerprint''] @
       [(''source_snapshot_ids'', JList (map JStr (sort (map (\<lambda>item. field_text env item ''source_snapshot_id'')
          (filter (\<lambda>item. case map_of item ''source_snapshot_id'' of None \<Rightarrow> False | Some v \<Rightarrow> truthy v)
            (dict_items (map_of d ''sources'')))))))])"

definition consumed_governed_evidence :: "text_env \<Rightarrow> (phase \<times> (string \<times> jval) list) list \<Rightarrow> jval list" where
  "consumed_governed_evidence env attestations =
     concat (map (\<lambda>(p, attested).
       let knowledge = members_of (map_of attested ''knowledge'');
           research = members_of (map_of attested ''research_evidence'')
       in (if used knowledge then [knowledge_consumed env p knowledge] else []) @
          (if used research then [research_consumed env p research] else []))
       (sort_key fst attestations))"

definition answer_triple :: "clarification_answer \<Rightarrow> string \<times> string \<times> string" where
  "answer_triple a = (an_question a, an_id a, py_strip (an_text a))"

definition answer_json :: "string \<times> string \<times> string \<Rightarrow> jval" where
  "answer_json t = JObj [(''question_id'', JStr (fst t)), (''answer_id'', JStr (fst (snd t))), (''answer_text'', JStr (snd (snd t)))]"

definition authoritative_triples :: "text_env \<Rightarrow> decision_state \<Rightarrow> (string \<times> string \<times> string) list" where
  "authoritative_triples env s =
     map answer_triple (current_authoritative_answers (te_iso env) (cl_answers (ds_clarifications s)))"

definition effective_input_payload :: "text_env \<Rightarrow> decision_state \<Rightarrow> jval" where
  "effective_input_payload env s =
     (let p = ds_project s in
      JObj [(''contract_version'', JStr EFFECTIVE_INPUT_CONTRACT_VERSION),
        (''decision_scope'', JObj [(''project_id'', JStr (ds_id s)), (''decision_id'', JStr (primary_decision_id (ds_id s)))]),
        (''question'', JObj [(''brief'', JStr (brief p)), (''operator_data'', JStr (ds_data s)),
           (''project_type'', JStr (project_type p))]),
        (''ingestion'', JObj [(''contract_version'', JStr (ds_contract_version s)), (''source'', JStr (ds_source s)),
           (''external_case_id'', JStr (ds_external_case s)), (''metadata'', JObj (ds_metadata s))]),
        (''operator_configuration'', JObj [(''output_language'', JStr (output_language p)),
           (''report_mode'', JStr (report_mode p)), (''risk_classification'', JStr (risk_classification p)),
           (''risk_classification_rationale'', JStr (ds_risk_rationale s))]),
        (''operator_supplied_evidence'',
           JList (sort_key (canonical_json (te_float env)) (map effective_evidence (ds_evidence s)))),
        (''operator_supplied_signals'',
           JList (sort_key (canonical_json (te_float env)) (map effective_signal (ds_signals s)))),
        (''authoritative_clarifications'', JList (map answer_json (sort (authoritative_triples env s)))),
        (''consumed_governed_evidence'', JList (consumed_governed_evidence env (ds_attestations s)))])"

definition effective_input_text :: "text_env \<Rightarrow> decision_state \<Rightarrow> string" where
  "effective_input_text env s = canonical_json (te_float env) (effective_input_payload env s)"

definition effective_input_sha256 :: "text_env \<Rightarrow> decision_state \<Rightarrow> string" where
  "effective_input_sha256 env s = sha256_hex (effective_input_text env s)"

record input_identity =
  ii_snapshot :: string
  ii_project :: string
  ii_decision :: string
  ii_digest :: string
  ii_payload :: jval

definition effective_input_identity :: "text_env \<Rightarrow> decision_state \<Rightarrow> input_identity" where
  "effective_input_identity env s =
     (let digest = effective_input_sha256 env s; decision = primary_decision_id (ds_id s)
      in \<lparr>ii_snapshot = uuid5 IDENTITY_NAMESPACE
            (ds_id s @ ''|'' @ decision @ ''|'' @ EFFECTIVE_INPUT_CONTRACT_VERSION @ ''|'' @ digest),
          ii_project = ds_id s, ii_decision = decision, ii_digest = digest, ii_payload = effective_input_payload env s\<rparr>)"

subsection \<open>What the digest identifies\<close>

text \<open>Objects written out with the same keys.\<close>

lemma sorted_list_eq: "sorted_json (JList xs) = sorted_json (JList ys) \<longleftrightarrow> map sorted_json xs = map sorted_json ys"
  by simp

lemma provenance_eq: "sorted_json (provenance_json p) = sorted_json (provenance_json q) \<longleftrightarrow> p = q"
  unfolding provenance_json_def by (subst sorted_object_eq) (auto intro: source_provenance.equality)

lemma evidence_eq: "sorted_json (effective_evidence e) = sorted_json (effective_evidence f) \<longleftrightarrow> e = f"
  unfolding effective_evidence_def
  by (subst sorted_object_eq) (auto simp: provenance_eq simp del: sorted_json.simps(2) intro: imported_evidence.equality)

lemma confidence_eq:
  "sorted_json (case x of None \<Rightarrow> JNull | Some r \<Rightarrow> JNum r) = sorted_json (case y of None \<Rightarrow> JNull | Some r \<Rightarrow> JNum r) \<longleftrightarrow> x = y"
  by (cases x; cases y) auto

lemma signal_eq: "sorted_json (effective_signal e) = sorted_json (effective_signal f) \<longleftrightarrow> e = f"
  unfolding effective_signal_def
  by (subst sorted_object_eq)
    (auto simp: provenance_eq confidence_eq simp del: sorted_json.simps(2) intro: imported_signal.equality)

lemma answer_json_eq: "sorted_json (answer_json a) = sorted_json (answer_json b) \<longleftrightarrow> a = b"
  unfolding answer_json_def by (subst sorted_object_eq) (auto simp: prod_eq_iff)

text \<open>Lists of values sorted by their texts are equal up to the order of members when the multisets are.\<close>

lemma sorted_by_text_eq:
  assumes fl: "float_text F fl" and inj: "\<And>x y. sorted_json (f x) = sorted_json (f y) \<longleftrightarrow> x = y"
    and in_F: "\<And>x. x \<in> set xs \<union> set ys \<Longrightarrow> floats_in F (f x)"
  shows "map sorted_json (sort_key (canonical_json fl) (map f xs)) = map sorted_json (sort_key (canonical_json fl) (map f ys)) \<longleftrightarrow>
    mset xs = mset ys"
proof
  assume "map sorted_json (sort_key (canonical_json fl) (map f xs)) = map sorted_json (sort_key (canonical_json fl) (map f ys))"
  then have "mset (map (sorted_json \<circ> f) xs) = mset (map (sorted_json \<circ> f) ys)"
    by (metis (no_types, lifting) list.map_comp mset_map mset_sort)
  moreover have "inj (sorted_json \<circ> f)" using inj by (simp add: inj_def)
  ultimately show "mset xs = mset ys"
    by (metis multiset.inj_map injD mset_map)
next
  assume "mset xs = mset ys"
  then have "mset (map f xs) = mset (map f ys)" by simp
  moreover have "inj_on (canonical_json fl) (set (map f xs))"
    using inj in_F by (auto simp: inj_on_def canonical_json_eq [OF fl])
  ultimately show "map sorted_json (sort_key (canonical_json fl) (map f xs)) = map sorted_json (sort_key (canonical_json fl) (map f ys))"
    using sort_key_mset_eq by metis
qed

lemma sort_eq_mset: "sort xs = sort ys \<longleftrightarrow> mset xs = mset (ys :: 'a :: linorder list)"
proof
  assume "sort xs = sort ys"
  then have "mset (sort xs) = mset (sort ys)" by simp
  then show "mset xs = mset ys" by simp
next
  assume "mset xs = mset ys"
  then show "sort xs = sort ys" by (intro properties_for_sort) simp_all
qed

lemma sorted_triples_eq:
  "map sorted_json (map answer_json (sort xs)) = map sorted_json (map answer_json (sort ys)) \<longleftrightarrow> mset xs = mset ys"
proof -
  have "inj (sorted_json \<circ> answer_json)" using answer_json_eq by (simp add: inj_def)
  then have "map (sorted_json \<circ> answer_json) (sort xs) = map (sorted_json \<circ> answer_json) (sort ys) \<longleftrightarrow> sort xs = sort ys"
    by (rule inj_map_eq_map)
  then have "map sorted_json (map answer_json (sort xs)) = map sorted_json (map answer_json (sort ys)) \<longleftrightarrow> sort xs = sort ys"
    by (simp only: map_map)
  also have "\<dots> \<longleftrightarrow> mset xs = mset ys" by (rule sort_eq_mset)
  finally show ?thesis .
qed

text \<open>Where floats occur in the payload: the metadata and the confidences of the signals.\<close>

definition floats_of_state :: "real set \<Rightarrow> decision_state \<Rightarrow> bool" where
  "floats_of_state F s \<longleftrightarrow> floats_in F (JObj (ds_metadata s)) \<and>
     list_all (\<lambda>g. case ig_confidence g of None \<Rightarrow> True | Some r \<Rightarrow> r \<in> F) (ds_signals s)"

lemma evidence_floats [simp]: "floats_in F (effective_evidence e)"
  by (simp add: effective_evidence_def provenance_json_def)

lemma signal_floats: "floats_of_state F s \<Longrightarrow> g \<in> set (ds_signals s) \<Longrightarrow> floats_in F (effective_signal g)"
  by (auto simp: floats_of_state_def effective_signal_def provenance_json_def list_all_iff split: option.splits)

lemma text_fields_floats [simp]: "(k, v) \<in> set (text_fields env d keys) \<Longrightarrow> floats_in F v"
  by (auto simp: text_fields_def)

lemma consumed_floats: "v \<in> set (consumed_governed_evidence env attestations) \<Longrightarrow> floats_in F v"
  by (auto simp: consumed_governed_evidence_def Let_def knowledge_consumed_def research_consumed_def split: if_splits)

lemma payload_floats:
  assumes "floats_of_state F s"
  shows "floats_in F (effective_input_payload env s)"
proof -
  have "floats_in F (JObj (ds_metadata s))" using assms by (simp add: floats_of_state_def)
  then show ?thesis
    using signal_floats [OF assms] consumed_floats
    by (auto simp: effective_input_payload_def Let_def answer_json_def)
qed

text \<open>What is material: the question, the ingestion, the configuration, the imported items as multisets, the
  authoritative answers, and the governed evidence that was consumed.\<close>

definition same_material :: "text_env \<Rightarrow> decision_state \<Rightarrow> decision_state \<Rightarrow> bool" where
  "same_material env s t \<longleftrightarrow>
     (let p = ds_project s; q = ds_project t in
      project_id p = project_id q \<and> brief p = brief q \<and> project_type p = project_type q \<and>
      output_language p = output_language q \<and> report_mode p = report_mode q \<and>
      risk_classification p = risk_classification q) \<and>
     ds_data s = ds_data t \<and> ds_contract_version s = ds_contract_version t \<and> ds_source s = ds_source t \<and>
     ds_external_case s = ds_external_case t \<and> ds_risk_rationale s = ds_risk_rationale t \<and>
     sorted_json (JObj (ds_metadata s)) = sorted_json (JObj (ds_metadata t)) \<and>
     mset (ds_evidence s) = mset (ds_evidence t) \<and> mset (ds_signals s) = mset (ds_signals t) \<and>
     mset (authoritative_triples env s) = mset (authoritative_triples env t) \<and>
     map sorted_json (consumed_governed_evidence env (ds_attestations s)) =
       map sorted_json (consumed_governed_evidence env (ds_attestations t))"

lemma effective_input_text_eq:
  assumes fl: "float_text F (te_float env)" and s: "floats_of_state F s" and t: "floats_of_state F t"
  shows "effective_input_text env s = effective_input_text env t \<longleftrightarrow> same_material env s t"
proof -
  have "(effective_input_text env s = effective_input_text env t) =
      (sorted_json (effective_input_payload env s) = sorted_json (effective_input_payload env t))"
    unfolding effective_input_text_def by (rule canonical_json_eq [OF fl payload_floats [OF s] payload_floats [OF t]])
  also have "\<dots> = same_material env s t"
  proof -
    have signals: "map sorted_json (sort_key (canonical_json (te_float env)) (map effective_signal (ds_signals s))) =
        map sorted_json (sort_key (canonical_json (te_float env)) (map effective_signal (ds_signals t))) \<longleftrightarrow>
      mset (ds_signals s) = mset (ds_signals t)"
      by (rule sorted_by_text_eq [OF fl signal_eq]) (auto intro: signal_floats s t)
    show ?thesis
    unfolding effective_input_payload_def Let_def
    by (subst sorted_object_eq)
      (auto simp: sorted_object_eq sorted_list_eq same_material_def Let_def
        sorted_by_text_eq [OF fl evidence_eq] signals
        sorted_triples_eq
        simp del: sorted_json.simps(1,2) map_map)
  qed
  finally show ?thesis .
qed

text \<open>C25: the effective input identifies exactly what is material. Two states have the same canonical text, so
  the same digest and the same snapshot id, when they have the same question, ingestion, operator
  configuration, imported evidence and signals in any order, authoritative answers and consumed
  evidence, whatever their phases, outputs, budgets and logs are; and states that differ in any of
  these have different texts. The texts of the floats that occur are those of Python: different for
  different floats, with a point or an exponent.\<close>

theorem effective_input_exact:
  assumes "float_text F (te_float env)" "floats_of_state F s" "floats_of_state F t"
  shows "(effective_input_text env s = effective_input_text env t) = same_material env s t \<and>
    (same_material env s t \<longrightarrow> effective_input_sha256 env s = effective_input_sha256 env t \<and>
       ii_snapshot (effective_input_identity env s) = ii_snapshot (effective_input_identity env t))"
proof -
  have "ds_id s = ds_id t" if "same_material env s t" using that by (simp add: same_material_def Let_def)
  with effective_input_text_eq [OF assms] show ?thesis
    by (auto simp: effective_input_identity_def effective_input_sha256_def Let_def)
qed

text \<open>A state with two signals, in two orders, over the two floats they need.\<close>

definition example_env :: text_env where
  "example_env = \<lparr>te_float = (\<lambda>r. if r = 1 / 2 then ''0.5'' else ''0.75''), te_iso = py_str_int, te_str = (\<lambda>v. ''true'')\<rparr>"

definition example_signal :: "string \<Rightarrow> real \<Rightarrow> imported_signal" where
  "example_signal i r = \<lparr>ig_id = i, ig_name = ''churn'', ig_description = '''', ig_kind = ''metric'', ig_confidence = Some r,
     ig_cadence = ''weekly'', ig_provenance = \<lparr>sp_type = ''api'', sp_ref = '''', sp_uri = '''', sp_checksum = ''''\<rparr>\<rparr>"

definition example_decision :: "imported_signal list \<Rightarrow> decision_state" where
  "example_decision gs = \<lparr>ds_project = default_project_state\<lparr>brief := ''Enter the market?''\<rparr>, ds_data = '''',
     ds_contract_version = ''v1'', ds_source = '''', ds_external_case = '''', ds_metadata = [(''weight'', JNum (1 / 2))],
     ds_risk_rationale = '''', ds_evidence = [], ds_signals = gs, ds_clarifications = \<lparr>cl_cycles = [], cl_answers = []\<rparr>,
     ds_attestations = [], ds_snapshot = '''', ds_generation = ''''\<rparr>"

theorem effective_input_exact_witness:
  "effective_input_sha256 example_env (example_decision [example_signal ''a'' (1 / 2), example_signal ''b'' (3 / 4)]) =
     effective_input_sha256 example_env (example_decision [example_signal ''b'' (3 / 4), example_signal ''a'' (1 / 2)]) \<and>
   effective_input_text example_env (example_decision [example_signal ''a'' (1 / 2)]) \<noteq>
     effective_input_text example_env (example_decision [example_signal ''a'' (3 / 4)])"
proof -
  let ?F = "{1 / 2, 3 / 4} :: real set"
  have fl: "float_text ?F (te_float example_env)"
    by (simp add: float_text_def example_env_def inj_on_def number_char_def Decimal.is_digit_def code_def)
  have state: "floats_of_state ?F (example_decision [])" "floats_of_state ?F (example_decision [example_signal i (1 / 2)])"
    "floats_of_state ?F (example_decision [example_signal i (3 / 4)])"
    "floats_of_state ?F (example_decision [example_signal i (1 / 2), example_signal j (3 / 4)])"
    "floats_of_state ?F (example_decision [example_signal i (3 / 4), example_signal j (1 / 2)])" for i j
    by (simp_all add: floats_of_state_def example_decision_def example_signal_def)
  let ?a = "example_signal ''a'' (1 / 2)" and ?b = "example_signal ''b'' (3 / 4)" and ?c = "example_signal ''a'' (3 / 4)"
  have same: "same_material example_env (example_decision [?a, ?b]) (example_decision [?b, ?a])"
    by (simp add: same_material_def Let_def example_decision_def authoritative_triples_def)
  have diff: "\<not> same_material example_env (example_decision [?a]) (example_decision [?c])"
    by (simp add: same_material_def Let_def example_decision_def example_signal_def)
  show ?thesis
    using effective_input_exact [OF fl state(4) [of "''a''" "''b''"] state(5) [of "''b''" "''a''"]] same
      effective_input_exact [OF fl state(2) [of "''a''"] state(3) [of "''a''"]] diff by simp
qed

end
