(* ===== verification/Coherence.thy ===== *)
theory Coherence
  imports EffectiveInput Table
begin

text \<open>
  Which analysis of a decision is current (\<open>mas/state_coherence.py\<close> and the tables, triggers and
  functions of \<open>mas/sql/v64_decision_state_coherence_foundation.sql\<close> that it calls). A table with
  a primary key is a map from the key to the rest of its row; the snapshots are a list, because
  their insertion looks for a conflict on the digest. Every function of \<open>state_coherence.py\<close> is
  one transaction: it raises and changes nothing, or it returns. Transactions on one decision
  follow one another, since they lock the candidate's row and the decision.

  Parameters: pydantic's dump and validation of a state, and the text of the driver's errors. The
  migration is installed (\<open>schema_available\<close>), and identifiers are well-formed uuids. The columns
  \<open>predecessor_snapshot_id\<close> and \<open>change_cause_id\<close> are never written.
\<close>

subsection \<open>Tables\<close>

record snapshot_row =
  sr_id :: string
  sr_project :: string
  sr_decision :: string
  sr_sha :: string
  sr_json :: jval
  sr_contract :: string
  sr_created :: time

datatype lifecycle = Gen_candidate | Gen_accepted | Gen_failed | Gen_aborted

record analysis_generation =
  ag_project :: string
  ag_decision :: string
  ag_snapshot :: string
  ag_workflow :: string
  ag_status :: lifecycle
  ag_base :: "string option"
  ag_sha :: string
  ag_json :: jval
  ag_validated :: "time option"
  ag_promoted :: "time option"
  ag_terminal :: "time option"
  ag_bootstrap :: "string option"
  ag_created :: time

record coherence_db =
  cd_projects :: "string set"
  cd_snapshots :: "snapshot_row list"
  cd_generations :: "string \<rightharpoonup> analysis_generation"
  cd_current :: "string \<times> string \<rightharpoonup> string \<times> time"

datatype db_error = Sql sql_error | Db_raised string

datatype coherence_error =
    Db_failure db_error
  | State_coherence string
  | Candidate_not_validated string
  | Stale_promotion string
  | Invalid_state string

record coherence_env =
  ce_text :: text_env
  ce_dump :: "decision_state \<Rightarrow> (string \<times> jval) list"
  ce_validate :: "jval \<Rightarrow> (string, decision_state) result"
  ce_sql_text :: "sql_error \<Rightarrow> string"
  ce_workflow_text :: "state_error \<Rightarrow> string"

text \<open>The decision of a generation, and the generation bound to a decision.\<close>

definition ag_scope :: "analysis_generation \<Rightarrow> string \<times> string" where
  "ag_scope r = (ag_project r, ag_decision r)"

definition current_id :: "coherence_db \<Rightarrow> string \<times> string \<Rightarrow> string option" where
  "current_id db k = map_option fst (cd_current db k)"

subsection \<open>Constraints and triggers\<close>

definition is_sha256 :: "string \<Rightarrow> bool" where
  "is_sha256 t \<longleftrightarrow> length t = 64 \<and> list_all (\<lambda>c. c \<in> set (map hex_digit [0..<16])) t"

definition terminal_shape :: "analysis_generation \<Rightarrow> bool" where
  "terminal_shape r =
     (case ag_status r of
        Gen_candidate \<Rightarrow> ag_promoted r = None \<and> ag_terminal r = None
      | Gen_accepted \<Rightarrow> ag_validated r \<noteq> None \<and> ag_promoted r \<noteq> None \<and> ag_terminal r = None
      | _ \<Rightarrow> ag_promoted r = None \<and> ag_terminal r \<noteq> None)"

definition ag_content ::
  "analysis_generation \<Rightarrow> (string \<times> string \<times> string \<times> string) \<times> string option \<times> (string \<times> jval) \<times> string option \<times> time" where
  "ag_content r = ((ag_project r, ag_decision r, ag_snapshot r, ag_workflow r), ag_base r, (ag_sha r, ag_json r),
     ag_bootstrap r, ag_created r)"

text \<open>\<open>decision_state_guard_generation_mutation\<close> on an update: the exception it raises.\<close>

definition guard_generation_update :: "analysis_generation \<Rightarrow> analysis_generation \<Rightarrow> string option" where
  "guard_generation_update old new =
     (if ag_content new \<noteq> ag_content old then Some ''analysis generation identity and content are immutable''
      else if ag_status old \<noteq> Gen_candidate then Some ''terminal analysis generation lifecycle is immutable''
      else case ag_status new of
          Gen_candidate \<Rightarrow>
            if ag_validated old \<noteq> None \<or> ag_validated new = None \<or> ag_promoted new \<noteq> None \<or> ag_terminal new \<noteq> None
            then Some ''invalid candidate validation transition'' else None
        | Gen_accepted \<Rightarrow>
            if ag_validated old = None \<or> ag_validated new \<noteq> ag_validated old \<or> ag_promoted new = None \<or> ag_terminal new \<noteq> None
            then Some ''only a validated candidate may be accepted'' else None
        | _ \<Rightarrow>
            if ag_promoted new \<noteq> None \<or> ag_terminal new = None
            then Some ''invalid terminal candidate transition'' else None)"

text \<open>\<open>UPDATE analysis_generations SET ... WHERE id = i\<close>, for a row that is there.\<close>

definition update_generation ::
  "string \<Rightarrow> analysis_generation \<Rightarrow> analysis_generation \<Rightarrow> coherence_db \<Rightarrow> (db_error, coherence_db) result" where
  "update_generation i old new db =
     (case guard_generation_update old new of
        Some message \<Rightarrow> Err (Db_raised message)
      | None \<Rightarrow> if terminal_shape new then Ok (db\<lparr>cd_generations := (cd_generations db)(i \<mapsto> new)\<rparr>) else Err (Sql Check_violation))"

text \<open>\<open>decision_state_guard_current_binding\<close>; the references of the row hold when it passes.\<close>

definition guard_current_binding :: "coherence_db \<Rightarrow> string \<times> string \<Rightarrow> string \<Rightarrow> string option" where
  "guard_current_binding db k i =
     (case cd_generations db i of
        Some r \<Rightarrow> if ag_scope r = k \<and> ag_status r = Gen_accepted then None
                  else Some ''current analysis must reference an accepted same-scope generation''
      | None \<Rightarrow> Some ''current analysis must reference an accepted same-scope generation'')"

text \<open>\<open>_insert_snapshot\<close>.\<close>

definition insert_input_snapshot :: "input_identity \<Rightarrow> time \<Rightarrow> coherence_db \<Rightarrow> (db_error, coherence_db) result" where
  "insert_input_snapshot c now db =
     (if \<not> is_sha256 (ii_digest c) then Err (Sql Check_violation)
      else if list_ex (\<lambda>x. sr_project x = ii_project c \<and> sr_decision x = ii_decision c \<and> sr_sha x = ii_digest c) (cd_snapshots db)
      then Ok db
      else if list_ex (\<lambda>x. sr_id x = ii_snapshot c) (cd_snapshots db) then Err (Sql Unique_violation)
      else if ii_project c \<notin> cd_projects db then Err (Sql Foreign_key_violation)
      else Ok (db\<lparr>cd_snapshots := cd_snapshots db @
        [\<lparr>sr_id = ii_snapshot c, sr_project = ii_project c, sr_decision = ii_decision c, sr_sha = ii_digest c,
          sr_json = ii_payload c, sr_contract = EFFECTIVE_INPUT_CONTRACT_VERSION, sr_created = now\<rparr>]\<rparr>))"

text \<open>\<open>INSERT INTO analysis_generations\<close>.\<close>

definition insert_generation :: "string \<Rightarrow> analysis_generation \<Rightarrow> coherence_db \<Rightarrow> (db_error, coherence_db) result" where
  "insert_generation i r db =
     (if \<not> is_sha256 (ag_sha r) \<or> \<not> terminal_shape r then Err (Sql Check_violation)
      else if cd_generations db i \<noteq> None then Err (Sql Unique_violation)
      else if ag_project r \<notin> cd_projects db \<or>
        \<not> list_ex (\<lambda>x. sr_id x = ag_snapshot r \<and> (sr_project x, sr_decision x) = ag_scope r) (cd_snapshots db) \<or>
        (case ag_base r of None \<Rightarrow> False | Some b \<Rightarrow>
           (case cd_generations db b of None \<Rightarrow> b \<noteq> i | Some q \<Rightarrow> ag_scope q \<noteq> ag_scope r))
      then Err (Sql Foreign_key_violation)
      else Ok (db\<lparr>cd_generations := (cd_generations db)(i \<mapsto> r)\<rparr>))"

subsection \<open>The functions of the database\<close>

definition promote_analysis_generation ::
  "string \<Rightarrow> string option \<Rightarrow> time \<Rightarrow> coherence_db \<Rightarrow> (db_error, coherence_db) result" where
  "promote_analysis_generation i base now db =
     (case cd_generations db i of
        None \<Rightarrow> Err (Db_raised ''generation is not an active candidate'')
      | Some r \<Rightarrow>
          if ag_status r \<noteq> Gen_candidate then Err (Db_raised ''generation is not an active candidate'')
          else if ag_validated r = None then Err (Db_raised ''candidate has not been validated'')
          else if ag_base r \<noteq> base then Err (Db_raised ''promotion expected-base does not match candidate'')
          else if current_id db (ag_scope r) \<noteq> base then Err (Db_raised ''current analysis changed after candidate creation'')
          else bind_result (update_generation i r (r\<lparr>ag_status := Gen_accepted, ag_promoted := Some now\<rparr>) db) (\<lambda>db1.
            case guard_current_binding db1 (ag_scope r) i of
              Some message \<Rightarrow> Err (Db_raised message)
            | None \<Rightarrow> Ok (db1\<lparr>cd_current := (cd_current db1)(ag_scope r \<mapsto> (i, now))\<rparr>)))"

definition bootstrap_analysis_generation ::
  "input_identity \<Rightarrow> string \<Rightarrow> string \<Rightarrow> jval \<Rightarrow> time \<Rightarrow> coherence_db \<Rightarrow> (db_error, coherence_db \<times> string option) result" where
  "bootstrap_analysis_generation c i sha json now db =
     (let k = (ii_project c, ii_decision c);
          existing = (case current_id db k of None \<Rightarrow> None
            | Some j \<Rightarrow> (case cd_generations db j of None \<Rightarrow> None | Some r \<Rightarrow> Some (j, r)))
      in case existing of
           Some (j, r) \<Rightarrow> Ok (db, if ag_snapshot r = ii_snapshot c \<and> ag_sha r = sha then Some j else None)
         | None \<Rightarrow>
             bind_result (insert_input_snapshot c now db) (\<lambda>db1.
             bind_result
               (if cd_generations db1 i \<noteq> None then Ok db1
                else insert_generation i \<lparr>ag_project = fst k, ag_decision = snd k, ag_snapshot = ii_snapshot c,
                  ag_workflow = LEGACY_BASELINE_WORKFLOW_FINGERPRINT, ag_status = Gen_accepted, ag_base = None,
                  ag_sha = sha, ag_json = json, ag_validated = Some now, ag_promoted = Some now, ag_terminal = None,
                  ag_bootstrap = Some ''legacy_baseline'', ag_created = now\<rparr> db1) (\<lambda>db2.
             case guard_current_binding db2 k i of
               Some message \<Rightarrow> Err (Db_raised message)
             | None \<Rightarrow>
                 if cd_current db2 k \<noteq> None then Err (Sql Unique_violation)
                 else Ok (db2\<lparr>cd_current := (cd_current db2)(k \<mapsto> (i, now))\<rparr>, Some i))))"

subsection \<open>The operations\<close>

definition is_complete_analysis :: "decision_state \<Rightarrow> (state_error, bool) result" where
  "is_complete_analysis s =
     map_result (list_all (\<lambda>p. phase_status (ds_project s) p = Some COMPLETED \<and> phase_has_output (ds_project s) p))
       (workflow_phase_sequence_for_state (ds_project s))"

definition analysis_state_payload :: "coherence_env \<Rightarrow> decision_state \<Rightarrow> jval" where
  "analysis_state_payload env s =
     JObj [(''contract_version'', JStr ANALYSIS_STATE_CONTRACT_VERSION),
           (''state'', JObj (filter (\<lambda>m. fst m \<noteq> ''analysis_generation_id'') (ce_dump env s)))]"

definition payload_sha256 :: "coherence_env \<Rightarrow> jval \<Rightarrow> string" where
  "payload_sha256 env v = sha256_hex (canonical_json (te_float (ce_text env)) v)"

definition analysis_state_sha256 :: "coherence_env \<Rightarrow> decision_state \<Rightarrow> string" where
  "analysis_state_sha256 env s = payload_sha256 env (analysis_state_payload env s)"

definition workflow_fingerprint :: "coherence_env \<Rightarrow> decision_state \<Rightarrow> string \<Rightarrow> (state_error, string) result" where
  "workflow_fingerprint env s version =
     map_result (\<lambda>seq. payload_sha256 env
         (JObj [(''project_type'', JStr (project_type (ds_project s))), (''phase_sequence'', JList (map JStr seq)),
           (''code_version'', JStr (py_or version ''unknown''))]))
       (workflow_phase_sequence_for_state (ds_project s))"

record generation_identity =
  gi_generation :: string
  gi_project :: string
  gi_decision :: string
  gi_snapshot :: string
  gi_sha :: string
  gi_workflow :: string
  gi_status :: lifecycle
  gi_base :: "string option"

text \<open>The row of a candidate, and the state whose copy it keeps.\<close>

definition bound_state :: "coherence_env \<Rightarrow> string \<Rightarrow> decision_state \<Rightarrow> decision_state" where
  "bound_state env i s = s\<lparr>ds_snapshot := ii_snapshot (effective_input_identity (ce_text env) s), ds_generation := i\<rparr>"

definition candidate_row :: "coherence_env \<Rightarrow> string \<Rightarrow> string option \<Rightarrow> string \<Rightarrow> time \<Rightarrow> decision_state \<Rightarrow> analysis_generation" where
  "candidate_row env workflow base i now s =
     (let c = effective_input_identity (ce_text env) s; json = analysis_state_payload env (bound_state env i s)
      in \<lparr>ag_project = ds_id s, ag_decision = ii_decision c, ag_snapshot = ii_snapshot c, ag_workflow = workflow,
          ag_status = Gen_candidate, ag_base = base, ag_sha = payload_sha256 env json, ag_json = json, ag_validated = None,
          ag_promoted = None, ag_terminal = None, ag_bootstrap = None, ag_created = now\<rparr>)"

definition create_candidate ::
  "coherence_env \<Rightarrow> string \<Rightarrow> string option \<Rightarrow> string \<Rightarrow> time \<Rightarrow> decision_state \<Rightarrow> coherence_db \<Rightarrow>
     (coherence_error, generation_identity) result \<times> decision_state \<times> coherence_db" where
  "create_candidate env workflow base i now s db =
     (let c = effective_input_identity (ce_text env) s; r = candidate_row env workflow base i now s
      in case bind_result (insert_input_snapshot c now db) (insert_generation i r) of
           Inl e \<Rightarrow> (Err (Db_failure e), s, db)
         | Inr db1 \<Rightarrow>
             (Ok \<lparr>gi_generation = i, gi_project = ds_id s, gi_decision = ii_decision c, gi_snapshot = ii_snapshot c,
                gi_sha = ag_sha r, gi_workflow = workflow, gi_status = Gen_candidate, gi_base = base\<rparr>,
              bound_state env i s, db1))"

definition json_member :: "string \<Rightarrow> jval \<Rightarrow> jval" where
  "json_member k v = (case v of JObj ms \<Rightarrow> (case map_of ms k of None \<Rightarrow> JNull | Some x \<Rightarrow> x) | _ \<Rightarrow> JNull)"

definition stored_complete :: "coherence_env \<Rightarrow> jval \<Rightarrow> (coherence_error, bool) result" where
  "stored_complete env json =
     (case ce_validate env (json_member ''state'' json) of
        Inl e \<Rightarrow> Err (Invalid_state e)
      | Inr s \<Rightarrow> (case is_complete_analysis s of Inl e \<Rightarrow> Err (Invalid_state (ce_workflow_text env e)) | Inr b \<Rightarrow> Ok b))"

definition db_step :: "(db_error, coherence_db) result \<Rightarrow> (coherence_error, coherence_db) result" where
  "db_step r = (case r of Inl e \<Rightarrow> Err (Db_failure e) | Inr db \<Rightarrow> Ok db)"

definition validate_candidate ::
  "coherence_env \<Rightarrow> string \<Rightarrow> time \<Rightarrow> coherence_db \<Rightarrow> (coherence_error, coherence_db) result" where
  "validate_candidate env i now db =
     (case cd_generations db i of
        None \<Rightarrow> Err (State_coherence ''generation is not a candidate'')
      | Some r \<Rightarrow>
          if ag_status r \<noteq> Gen_candidate then Err (State_coherence ''generation is not a candidate'')
          else bind_result (stored_complete env (ag_json r)) (\<lambda>complete.
            if \<not> complete then Err (Candidate_not_validated ''candidate analysis is incomplete'')
            else db_step (update_generation i r (r\<lparr>ag_validated := Some now\<rparr>) db)))"

definition abandon_candidate :: "string \<Rightarrow> bool \<Rightarrow> time \<Rightarrow> coherence_db \<Rightarrow> (coherence_error, coherence_db) result" where
  "abandon_candidate i failed now db =
     (case cd_generations db i of
        None \<Rightarrow> Err (State_coherence ''generation is not an active candidate'')
      | Some r \<Rightarrow>
          if ag_status r \<noteq> Gen_candidate then Err (State_coherence ''generation is not an active candidate'')
          else db_step (update_generation i r
            (r\<lparr>ag_status := (if failed then Gen_failed else Gen_aborted), ag_terminal := Some now\<rparr>) db))"

definition promotion_error :: "coherence_env \<Rightarrow> db_error \<Rightarrow> coherence_error" where
  "promotion_error env e =
     (let message = (case e of Sql x \<Rightarrow> ce_sql_text env x | Db_raised m \<Rightarrow> m)
      in if contains ''expected-base'' message \<or> contains ''current analysis changed'' message then Stale_promotion message
         else if contains ''has not been validated'' message then Candidate_not_validated message
         else State_coherence message)"

definition promote_candidate ::
  "coherence_env \<Rightarrow> string \<Rightarrow> string option \<Rightarrow> time \<Rightarrow> coherence_db \<Rightarrow> (coherence_error, coherence_db) result" where
  "promote_candidate env i base now db =
     (case promote_analysis_generation i base now db of
        Inl e \<Rightarrow> Err (promotion_error env e) | Inr db1 \<Rightarrow> Ok db1)"

text \<open>The identifier of a baseline is derived from the digests; the function returns the identifier
  of the current generation, or the empty text, and the state with its snapshot bound.\<close>

definition bootstrap_current_analysis ::
  "coherence_env \<Rightarrow> time \<Rightarrow> decision_state \<Rightarrow> coherence_db \<Rightarrow>
     (coherence_error, string) result \<times> decision_state \<times> coherence_db" where
  "bootstrap_current_analysis env now s db =
     (case is_complete_analysis s of
        Inl e \<Rightarrow> (Err (Invalid_state (ce_workflow_text env e)), s, db)
      | Inr False \<Rightarrow> (Err (Candidate_not_validated ''cannot bootstrap an incomplete analysis''), s, db)
      | Inr True \<Rightarrow>
          let c = effective_input_identity (ce_text env) s;
              s1 = s\<lparr>ds_snapshot := ii_snapshot c\<rparr>;
              json = analysis_state_payload env s1; sha = payload_sha256 env json;
              i = uuid5 IDENTITY_NAMESPACE (''baseline|'' @ ds_id s @ ''|'' @ ii_decision c @ ''|'' @ ii_snapshot c @ ''|'' @ sha)
          in case bootstrap_analysis_generation c i sha json now db of
               Inl e \<Rightarrow> (Err (Db_failure e), s1, db)
             | Inr (db1, found) \<Rightarrow> (Ok (opt_or found ''''), s1, db1))"

definition current_generation :: "coherence_db \<Rightarrow> string \<Rightarrow> string \<Rightarrow> (string \<times> analysis_generation) option" where
  "current_generation db p d =
     (case current_id db (p, d) of
        None \<Rightarrow> None
      | Some i \<Rightarrow> (case cd_generations db i of
            Some r \<Rightarrow> if ag_scope r = (p, d) then Some (i, r) else None
          | None \<Rightarrow> None))"

definition bind_effective_input ::
  "coherence_env \<Rightarrow> time \<Rightarrow> decision_state \<Rightarrow> coherence_db \<Rightarrow> (db_error, input_identity) result \<times> decision_state \<times> coherence_db" where
  "bind_effective_input env now s db =
     (let c = effective_input_identity (ce_text env) s;
          s1 = s\<lparr>ds_generation := (if ds_snapshot s \<noteq> '''' \<and> ds_snapshot s \<noteq> ii_snapshot c then '''' else ds_generation s),
                 ds_snapshot := ii_snapshot c\<rparr>
      in case insert_input_snapshot c now db of
           Inl e \<Rightarrow> (Err e, s1, db)
         | Inr db1 \<Rightarrow> (Ok c, s1, db1))"

subsection \<open>The history of a decision\<close>

text \<open>The accepted generations of a decision from the current one back along their bases.\<close>

fun chain :: "(string \<rightharpoonup> analysis_generation) \<Rightarrow> string \<times> string \<Rightarrow> string option \<Rightarrow> string list \<Rightarrow> bool" where
  "chain t k None hist \<longleftrightarrow> hist = []"
| "chain t k (Some i) [] \<longleftrightarrow> False"
| "chain t k (Some i) (g # hist) \<longleftrightarrow> i = g \<and>
     (case t i of None \<Rightarrow> False | Some r \<Rightarrow> ag_scope r = k \<and> ag_status r = Gen_accepted \<and> chain t k (ag_base r) hist)"

definition is_history :: "coherence_db \<Rightarrow> string \<times> string \<Rightarrow> string list \<Rightarrow> bool" where
  "is_history db k hist \<longleftrightarrow> chain (cd_generations db) k (current_id db k) hist"

definition accepted_in :: "coherence_db \<Rightarrow> string \<times> string \<Rightarrow> string \<Rightarrow> bool" where
  "accepted_in db k i \<longleftrightarrow> (case cd_generations db i of None \<Rightarrow> False
     | Some r \<Rightarrow> ag_scope r = k \<and> ag_status r = Gen_accepted)"

lemma accepted_in_iff:
  "accepted_in db k i \<longleftrightarrow> (\<exists>r. cd_generations db i = Some r \<and> ag_scope r = k \<and> ag_status r = Gen_accepted)"
  by (simp add: accepted_in_def split: option.split)

text \<open>The abstract state of a decision is a log; its one operation compares the head and appends.\<close>

definition log_head :: "string list \<Rightarrow> string option" where
  "log_head hist = (case hist of [] \<Rightarrow> None | g # _ \<Rightarrow> Some g)"

definition compare_and_append :: "string option \<Rightarrow> string \<Rightarrow> string list \<Rightarrow> string list" where
  "compare_and_append base i hist = (if log_head hist = base then i # hist else hist)"

lemma history_head: "is_history db k hist \<Longrightarrow> current_id db k = log_head hist"
  unfolding is_history_def by (cases "current_id db k"; cases hist) (auto simp: log_head_def)

lemma chain_unique: "chain t k c hist \<Longrightarrow> chain t k c hist' \<Longrightarrow> hist = hist'"
proof (induction hist arbitrary: c hist')
  case Nil
  then show ?case by (cases c) simp_all
next
  case (Cons g hist)
  then show ?case by (cases c; cases hist') (auto split: option.splits)
qed

lemma chain_accepted:
  "chain (cd_generations db) k c hist \<Longrightarrow> i \<in> set hist \<Longrightarrow> accepted_in db k i"
proof (induction hist arbitrary: c)
  case (Cons g hist)
  then obtain r where "cd_generations db g = Some r" "ag_scope r = k" "ag_status r = Gen_accepted"
    "chain (cd_generations db) k (ag_base r) hist" by (cases c) (auto split: option.splits)
  with Cons show ?case by (cases "i = g") (auto simp: accepted_in_iff)
qed simp

lemma chain_frame:
  assumes "\<And>i r. ag_status r = Gen_accepted \<Longrightarrow> ag_scope r = k \<Longrightarrow> t i = Some r \<Longrightarrow> t' i = Some r"
  shows "chain t k c hist \<Longrightarrow> chain t' k c hist"
proof (induction hist arbitrary: c)
  case Nil
  then show ?case by (cases c) simp_all
next
  case (Cons g hist)
  then obtain i r where "c = Some i" "t i = Some r" "ag_status r = Gen_accepted" "ag_scope r = k"
    by (cases c) (auto split: option.splits)
  with Cons assms [of r i] show ?case by (auto split: option.splits)
qed

lemma chain_inside:
  "chain t k c hist \<Longrightarrow> x \<in> set hist \<Longrightarrow> t x = Some y \<Longrightarrow> \<exists>post. length post < length hist \<and> chain t k (ag_base y) post"
proof (induction hist arbitrary: c)
  case (Cons g hist)
  then obtain w where w: "t g = Some w" "chain t k (ag_base w) hist" by (cases c) (auto split: option.splits)
  show ?case
  proof (cases "x = g")
    case True
    with w Cons.prems(3) show ?thesis by (intro exI [of _ hist]) simp
  next
    case False
    then have "x \<in> set hist" using Cons.prems(2) by simp
    from Cons.IH [OF w(2) this Cons.prems(3)] show ?thesis by (auto intro: less_SucI)
  qed
qed simp

text \<open>In a chain without repetition every generation is the only one on its base.\<close>

lemma chain_base_unique:
  assumes "chain t k c hist" "distinct hist" "i \<in> set hist" "j \<in> set hist"
    and "t i = Some r" "t j = Some q" "ag_base r = ag_base q"
  shows "i = j"
  using assms
proof (induction hist arbitrary: c)
  case (Cons g hist)
  then obtain p where c: "c = Some g" "t g = Some p" "chain t k (ag_base p) hist"
    by (cases c) (auto split: option.splits)
  have tail: False if "x \<in> set hist" "t x = Some y" "ag_base y = ag_base p" for x y
    using chain_inside [OF c(3) that(1,2)] chain_unique [OF c(3)] that(3) by (metis less_irrefl)
  show ?case
  proof (cases "i = g")
    case True
    show ?thesis
    proof (cases "j = g")
      case False
      then have "j \<in> set hist" using Cons.prems(4) by simp
      with tail [of j q] Cons.prems(5-7) c(2) True show ?thesis by auto
    qed (use True in simp)
  next
    case False
    then have i: "i \<in> set hist" using Cons.prems(3) by simp
    show ?thesis
    proof (cases "j = g")
      case True
      with tail [of i r] i Cons.prems(5-7) c(2) show ?thesis by auto
    next
      case False
      then have "j \<in> set hist" using Cons.prems(4) by simp
      with Cons.IH [OF c(3) _ i _ Cons.prems(5-7)] Cons.prems(2) show ?thesis by simp
    qed
  qed
qed simp

subsection \<open>Transactions that keep or extend the history\<close>

definition quiet :: "coherence_db \<Rightarrow> coherence_db \<Rightarrow> bool" where
  "quiet db db' \<longleftrightarrow> cd_current db' = cd_current db \<and>
     (\<forall>i r. ag_status r = Gen_accepted \<longrightarrow> (cd_generations db' i = Some r \<longleftrightarrow> cd_generations db i = Some r))"

definition accepts :: "coherence_db \<Rightarrow> string \<Rightarrow> analysis_generation \<Rightarrow> coherence_db \<Rightarrow> bool" where
  "accepts db i r db' \<longleftrightarrow> ag_base r = current_id db (ag_scope r) \<and> ag_status r = Gen_accepted \<and>
     (\<forall>k. \<not> accepted_in db k i) \<and> cd_generations db' i = Some r \<and>
     (\<forall>j q. j \<noteq> i \<longrightarrow> ag_status q = Gen_accepted \<longrightarrow> (cd_generations db' j = Some q \<longleftrightarrow> cd_generations db j = Some q)) \<and>
     (\<forall>k. current_id db' k = (if k = ag_scope r then Some i else current_id db k))"

definition history_ok :: "coherence_db \<Rightarrow> bool" where
  "history_ok db \<longleftrightarrow> (\<forall>k. \<exists>hist. is_history db k hist \<and> distinct hist \<and> set hist = {i. accepted_in db k i})"

lemma history_okE:
  assumes "history_ok db"
  obtains hist where "is_history db k hist" "distinct hist" "set hist = {i. accepted_in db k i}"
  using assms unfolding history_ok_def by blast

lemma accepted_in_cong:
  assumes "\<And>r. ag_status r = Gen_accepted \<Longrightarrow> cd_generations db' i = Some r \<longleftrightarrow> cd_generations db i = Some r"
  shows "accepted_in db' k i = accepted_in db k i"
  unfolding accepted_in_iff using assms by blast

lemma quiet_history: "quiet db db' \<Longrightarrow> is_history db k hist \<Longrightarrow> is_history db' k hist"
  unfolding is_history_def quiet_def current_id_def
  using chain_frame [of _ "cd_generations db" "cd_generations db'"] by metis

lemma quiet_history_ok:
  assumes "quiet db db'" "history_ok db"
  shows "history_ok db'"
proof -
  have "accepted_in db' k i = accepted_in db k i" for k i
    using assms(1) unfolding quiet_def by (intro accepted_in_cong) blast
  then show ?thesis using assms(2) quiet_history [OF assms(1)] unfolding history_ok_def by fastforce
qed

lemma accepts_history:
  assumes "accepts db i r db'" "is_history db k hist"
  shows "is_history db' k (if k = ag_scope r then i # hist else hist)"
proof -
  have "chain (cd_generations db') k (current_id db k) hist"
  proof (rule chain_frame [of _ "cd_generations db"])
    fix j q assume q: "ag_status q = Gen_accepted" "cd_generations db j = Some q"
    then have "accepted_in db (ag_scope q) j" by (simp add: accepted_in_def)
    then have "j \<noteq> i" using assms(1) unfolding accepts_def by blast
    with q assms(1) show "cd_generations db' j = Some q" by (simp add: accepts_def)
  qed (use assms(2) in \<open>simp add: is_history_def\<close>)
  with assms(1) show ?thesis
    by (cases "k = ag_scope r") (simp_all add: is_history_def accepts_def del: split_paired_All)
qed

lemma accepts_accepted:
  "accepts db i r db' \<Longrightarrow> {j. accepted_in db' k j} = (if k = ag_scope r then insert i else id) {j. accepted_in db k j}"
proof -
  assume a: "accepts db i r db'"
  have "accepted_in db' k j = accepted_in db k j" if "j \<noteq> i" for j
    using a that by (intro accepted_in_cong) (simp add: accepts_def)
  moreover have "accepted_in db' k i = (k = ag_scope r)"
    using a unfolding accepts_def accepted_in_iff by auto
  moreover have "\<not> accepted_in db k i" using a unfolding accepts_def by blast
  ultimately have "accepted_in db' k j = (k = ag_scope r \<and> j = i \<or> accepted_in db k j)" for j
    by (cases "j = i") simp_all
  then show ?thesis by auto
qed

lemma accepts_history_ok:
  assumes "accepts db i r db'" "history_ok db"
  shows "history_ok db'"
  unfolding history_ok_def
proof
  fix k
  obtain hist where hist: "is_history db k hist" "distinct hist" "set hist = {i. accepted_in db k i}"
    using assms(2) by (rule history_okE)
  have "\<not> accepted_in db k i" using assms(1) unfolding accepts_def by blast
  then have "distinct (if k = ag_scope r then i # hist else hist)"
    using hist(2,3) by (cases "k = ag_scope r") simp_all
  moreover have "set (if k = ag_scope r then i # hist else hist) = {j. accepted_in db' k j}"
    unfolding accepts_accepted [OF assms(1)] using hist(3) by simp
  ultimately show "\<exists>hist. is_history db' k hist \<and> distinct hist \<and> set hist = {i. accepted_in db' k i}"
    using accepts_history [OF assms(1) hist(1)] by blast
qed

subsection \<open>One transaction\<close>

text \<open>Deleting a project (\<open>store.delete\<close>): the triggers let the rows of a project go with it, and every
  reference of the tables stays inside a project.\<close>

definition delete_project :: "string \<Rightarrow> coherence_db \<Rightarrow> coherence_db" where
  "delete_project p db =
     \<lparr>cd_projects = cd_projects db - {p},
      cd_snapshots = filter (\<lambda>x. sr_project x \<noteq> p) (cd_snapshots db),
      cd_generations = (\<lambda>i. case cd_generations db i of
          Some r \<Rightarrow> if ag_project r = p then None else Some r | None \<Rightarrow> None),
      cd_current = cd_current db |` {k. fst k \<noteq> p}\<rparr>"

text \<open>The transactions on the tables, by any number of processes, with any arguments; projects of the
  set \<open>D\<close> may be deleted.\<close>

inductive coherence_step :: "coherence_env \<Rightarrow> string set \<Rightarrow> coherence_db \<Rightarrow> coherence_db \<Rightarrow> bool" for env D where
  add_project: "coherence_step env D db (db\<lparr>cd_projects := insert p (cd_projects db)\<rparr>)"
| create: "create_candidate env workflow base i now s db = (Ok g, s', db') \<Longrightarrow> coherence_step env D db db'"
| validate: "validate_candidate env i now db = Ok db' \<Longrightarrow> coherence_step env D db db'"
| abandon: "abandon_candidate i failed now db = Ok db' \<Longrightarrow> coherence_step env D db db'"
| promote: "promote_candidate env i base now db = Ok db' \<Longrightarrow> coherence_step env D db db'"
| bootstrap: "bootstrap_current_analysis env now s db = (Ok i, s', db') \<Longrightarrow> coherence_step env D db db'"
| bind: "bind_effective_input env now s db = (Ok c, s', db') \<Longrightarrow> coherence_step env D db db'"
| delete: "p \<in> D \<Longrightarrow> coherence_step env D db (delete_project p db)"

definition empty_db :: coherence_db where
  "empty_db = \<lparr>cd_projects = {}, cd_snapshots = [], cd_generations = Map.empty, cd_current = Map.empty\<rparr>"

abbreviation coherence_steps :: "coherence_env \<Rightarrow> string set \<Rightarrow> coherence_db \<Rightarrow> coherence_db \<Rightarrow> bool" where
  "coherence_steps env D \<equiv> (coherence_step env D)\<^sup>*\<^sup>*"

text \<open>What every transaction keeps of the rows that are there, those of the projects in \<open>D\<close> apart.\<close>

definition keeps_rows :: "string set \<Rightarrow> coherence_db \<Rightarrow> coherence_db \<Rightarrow> bool" where
  "keeps_rows D db db' \<longleftrightarrow>
     {x \<in> set (cd_snapshots db). sr_project x \<notin> D} \<subseteq> set (cd_snapshots db') \<and>
     (\<forall>i r. cd_generations db i = Some r \<longrightarrow> ag_project r \<notin> D \<longrightarrow> (\<exists>r'. cd_generations db' i = Some r' \<and>
        ag_content r' = ag_content r \<and> (ag_status r \<noteq> Gen_candidate \<longrightarrow> r' = r)))"

definition snapshot_known :: "coherence_db \<Rightarrow> analysis_generation \<Rightarrow> bool" where
  "snapshot_known db r \<longleftrightarrow> (\<exists>x \<in> set (cd_snapshots db). sr_id x = ag_snapshot r \<and> (sr_project x, sr_decision x) = ag_scope r)"

definition row_ok :: "coherence_env \<Rightarrow> coherence_db \<Rightarrow> analysis_generation \<Rightarrow> bool" where
  "row_ok env db r \<longleftrightarrow> terminal_shape r \<and> is_sha256 (ag_sha r) \<and> snapshot_known db r \<and>
     (ag_validated r \<noteq> None \<longrightarrow> ag_bootstrap r = None \<longrightarrow> stored_complete env (ag_json r) = Ok True)"

definition coherence_ok :: "coherence_env \<Rightarrow> coherence_db \<Rightarrow> bool" where
  "coherence_ok env db \<longleftrightarrow> history_ok db \<and> (\<forall>i r. cd_generations db i = Some r \<longrightarrow> row_ok env db r)"

lemma keeps_refl [simp]: "keeps_rows D db db"
  by (auto simp: keeps_rows_def)

lemma keeps_mono: "keeps_rows {} db db' \<Longrightarrow> keeps_rows D db db'"
  by (auto simp: keeps_rows_def)

lemma content_project: "ag_content r' = ag_content r \<Longrightarrow> ag_project r' = ag_project r"
  by (simp add: ag_content_def)

lemma keeps_trans: "keeps_rows D a b \<Longrightarrow> keeps_rows D b c \<Longrightarrow> keeps_rows D a c"
proof -
  assume ab: "keeps_rows D a b" and bc: "keeps_rows D b c"
  have "\<exists>r''. cd_generations c i = Some r'' \<and> ag_content r'' = ag_content r \<and> (ag_status r \<noteq> Gen_candidate \<longrightarrow> r'' = r)"
    if r: "cd_generations a i = Some r" "ag_project r \<notin> D" for i r
  proof -
    obtain r' where r': "cd_generations b i = Some r'" "ag_content r' = ag_content r" "ag_status r \<noteq> Gen_candidate \<longrightarrow> r' = r"
      using ab r unfolding keeps_rows_def by blast
    moreover have "ag_project r' \<notin> D" using r(2) content_project [OF r'(2)] by simp
    ultimately obtain r'' where "cd_generations c i = Some r''" "ag_content r'' = ag_content r'" "ag_status r' \<noteq> Gen_candidate \<longrightarrow> r'' = r'"
      using bc unfolding keeps_rows_def by blast
    with r' show ?thesis by auto
  qed
  moreover have "{x \<in> set (cd_snapshots a). sr_project x \<notin> D} \<subseteq> set (cd_snapshots c)"
    using ab bc unfolding keeps_rows_def by blast
  ultimately show ?thesis by (simp add: keeps_rows_def)
qed

lemma insert_input_snapshot_step:
  assumes "insert_input_snapshot c now db = Ok db'"
  shows "cd_generations db' = cd_generations db" "cd_current db' = cd_current db" "set (cd_snapshots db) \<subseteq> set (cd_snapshots db')"
    and "\<exists>x \<in> set (cd_snapshots db'). sr_project x = ii_project c \<and> sr_decision x = ii_decision c \<and> sr_sha x = ii_digest c"
  using assms by (auto simp: insert_input_snapshot_def list_ex_iff split: if_splits)

lemma insert_generation_step:
  assumes "insert_generation i r db = Ok db'"
  shows "db' = db\<lparr>cd_generations := (cd_generations db)(i \<mapsto> r)\<rparr>" "cd_generations db i = None"
    and "is_sha256 (ag_sha r)" "terminal_shape r" "snapshot_known db r"
  using assms by (auto simp: insert_generation_def snapshot_known_def list_ex_iff split: if_splits)

lemma update_generation_step:
  assumes "update_generation i old new db = Ok db'"
  shows "db' = db\<lparr>cd_generations := (cd_generations db)(i \<mapsto> new)\<rparr>" "ag_content new = ag_content old"
    "ag_status old = Gen_candidate" "terminal_shape new"
    and "ag_status new = Gen_accepted \<Longrightarrow> ag_validated old \<noteq> None \<and> ag_validated new = ag_validated old"
  using assms by (auto simp: update_generation_def guard_generation_update_def split: if_splits lifecycle.splits)

lemma content_simps:
  assumes "ag_content r' = ag_content r"
  shows "ag_scope r' = ag_scope r" "ag_base r' = ag_base r" "ag_json r' = ag_json r" "ag_sha r' = ag_sha r"
    "ag_bootstrap r' = ag_bootstrap r" "ag_snapshot r' = ag_snapshot r"
  using assms by (auto simp: ag_content_def ag_scope_def)

lemma snapshot_known_mono: "snapshot_known db r \<Longrightarrow> set (cd_snapshots db) \<subseteq> set (cd_snapshots db') \<Longrightarrow> snapshot_known db' r"
  unfolding snapshot_known_def by blast

lemma row_ok_mono: "row_ok env db r \<Longrightarrow> set (cd_snapshots db) \<subseteq> set (cd_snapshots db') \<Longrightarrow> row_ok env db' r"
  unfolding row_ok_def using snapshot_known_mono by blast

text \<open>The two shapes of a transaction: one that inserts or replaces a row that is not accepted afterwards
  nor before, and one that accepts.\<close>

lemma quiet_step:
  assumes "cd_generations db' = cd_generations db" "cd_current db' = cd_current db" "set (cd_snapshots db) \<subseteq> set (cd_snapshots db')"
  shows "quiet db db' \<and> keeps_rows {} db db'"
  using assms by (auto simp: quiet_def keeps_rows_def)

lemma coherence_ok_quiet:
  assumes "coherence_ok env db" "quiet db db'" "set (cd_snapshots db) \<subseteq> set (cd_snapshots db')"
    and "\<And>i r. cd_generations db' i = Some r \<Longrightarrow> cd_generations db i = Some r \<or> row_ok env db' r"
  shows "coherence_ok env db'"
  using assms quiet_history_ok row_ok_mono unfolding coherence_ok_def by metis

lemma coherence_ok_accepts:
  assumes "coherence_ok env db" "accepts db i r db'" "set (cd_snapshots db) \<subseteq> set (cd_snapshots db')"
    and "\<And>i r. cd_generations db' i = Some r \<Longrightarrow> cd_generations db i = Some r \<or> row_ok env db' r"
  shows "coherence_ok env db'"
  using assms accepts_history_ok row_ok_mono unfolding coherence_ok_def by metis

definition transaction :: "coherence_env \<Rightarrow> coherence_db \<Rightarrow> coherence_db \<Rightarrow> bool" where
  "transaction env db db' \<longleftrightarrow> coherence_ok env db' \<and> keeps_rows {} db db' \<and> (quiet db db' \<or> (\<exists>i r. accepts db i r db'))"

lemma unchanged_rows:
  assumes "coherence_ok env db" "cd_generations db' = cd_generations db" "cd_current db' = cd_current db"
    "set (cd_snapshots db) \<subseteq> set (cd_snapshots db')"
  shows "transaction env db db'"
  using quiet_step [OF assms(2-4)] coherence_ok_quiet [OF assms(1) _ assms(4)] assms(2)
  unfolding transaction_def by metis

lemma put_row:
  assumes ok: "coherence_ok env db" and snapshots: "set (cd_snapshots db) \<subseteq> set (cd_snapshots db')"
    and db': "cd_generations db' = (cd_generations db)(i \<mapsto> new)" "cd_current db' = cd_current db"
    and new: "ag_status new \<noteq> Gen_accepted" "row_ok env db' new"
    and old: "\<And>r. cd_generations db i = Some r \<Longrightarrow> ag_status r = Gen_candidate \<and> ag_content new = ag_content r"
  shows "transaction env db db'"
proof -
  have "quiet db db'" using db' new(1) old by (auto simp: quiet_def split: if_splits)
  moreover have "keeps_rows {} db db'" using db' old snapshots by (auto simp: keeps_rows_def)
  moreover have "cd_generations db j = Some r \<or> row_ok env db' r" if "cd_generations db' j = Some r" for j r
    using that db'(1) new(2) by (auto split: if_splits)
  ultimately show ?thesis
    using coherence_ok_quiet [OF ok _ snapshots] unfolding transaction_def by blast
qed

lemma accept_row:
  assumes ok: "coherence_ok env db" and snapshots: "set (cd_snapshots db) \<subseteq> set (cd_snapshots db')"
    and db': "cd_generations db' = (cd_generations db)(i \<mapsto> new)" "cd_current db' = (cd_current db)(ag_scope new \<mapsto> (i, t))"
    and new: "ag_status new = Gen_accepted" "row_ok env db' new" "ag_base new = current_id db (ag_scope new)"
    and old: "\<And>r. cd_generations db i = Some r \<Longrightarrow> ag_status r = Gen_candidate \<and> ag_content new = ag_content r"
  shows "transaction env db db'"
proof -
  have "\<not> accepted_in db k i" for k using old by (auto simp: accepted_in_iff)
  moreover have "current_id db' k = (if k = ag_scope new then Some i else current_id db k)" for k
    using db'(2) by (simp add: current_id_def)
  ultimately have accepts: "accepts db i new db'" using db'(1) new(1,3) by (simp add: accepts_def)
  moreover have "keeps_rows {} db db'" using db' old snapshots by (auto simp: keeps_rows_def)
  moreover have "cd_generations db j = Some r \<or> row_ok env db' r" if "cd_generations db' j = Some r" for j r
    using that db'(1) new(2) by (auto split: if_splits)
  ultimately show ?thesis
    using coherence_ok_accepts [OF ok accepts snapshots] unfolding transaction_def by blast
qed

lemma row_okD: "coherence_ok env db \<Longrightarrow> cd_generations db i = Some r \<Longrightarrow> row_ok env db r"
  by (simp add: coherence_ok_def)

lemma create_transaction:
  assumes ok: "coherence_ok env db" and run: "create_candidate env workflow base i now s db = (Ok g, s', db')"
  shows "transaction env db db'"
proof -
  let ?r = "candidate_row env workflow base i now s"
  from run obtain c db1 where snap: "insert_input_snapshot c now db = Ok db1" and ins: "insert_generation i ?r db1 = Ok db'"
    by (auto simp: create_candidate_def Let_def bind_result_eq_Ok split: sum.splits)
  have r: "ag_status ?r = Gen_candidate" "ag_validated ?r = None" by (simp_all add: candidate_row_def Let_def)
  note db1 = insert_input_snapshot_step [OF snap] and db' = insert_generation_step [OF ins]
  have "row_ok env db' ?r"
    using db' r snapshot_known_mono [of db1 ?r db'] by (simp add: row_ok_def)
  then show ?thesis using db1 db' r by (intro put_row [OF ok, of _ i ?r]) auto
qed

lemma validate_transaction:
  assumes ok: "coherence_ok env db" and run: "validate_candidate env i now db = Ok db'"
  shows "transaction env db db'"
proof -
  from run obtain r where r: "cd_generations db i = Some r" "ag_status r = Gen_candidate" "stored_complete env (ag_json r) = Ok True"
    and up: "update_generation i r (r\<lparr>ag_validated := Some now\<rparr>) db = Ok db'"
    by (auto simp: validate_candidate_def db_step_def bind_result_eq_Ok split: option.splits if_splits sum.splits)
  note db' = update_generation_step [OF up]
  have "row_ok env db' (r\<lparr>ag_validated := Some now\<rparr>)"
    using row_okD [OF ok r(1)] db' r by (simp add: row_ok_def snapshot_known_def ag_scope_def)
  then show ?thesis using db' r by (intro put_row [OF ok, of _ i "r\<lparr>ag_validated := Some now\<rparr>"]) auto
qed

lemma abandon_transaction:
  assumes ok: "coherence_ok env db" and run: "abandon_candidate i failed now db = Ok db'"
  shows "transaction env db db'"
proof -
  let ?f = "\<lambda>r. r\<lparr>ag_status := if failed then Gen_failed else Gen_aborted, ag_terminal := Some now\<rparr>"
  from run obtain r where r: "cd_generations db i = Some r" "ag_status r = Gen_candidate"
    and up: "update_generation i r (?f r) db = Ok db'"
    by (auto simp: abandon_candidate_def db_step_def split: option.splits if_splits sum.splits)
  note db' = update_generation_step [OF up]
  have "row_ok env db' (?f r)"
    using row_okD [OF ok r(1)] db' by (simp add: row_ok_def snapshot_known_def ag_scope_def)
  then show ?thesis using db' r by (intro put_row [OF ok, of _ i "?f r"]) auto
qed

text \<open>What a promotion that succeeds has checked and done.\<close>

lemma promote_step:
  assumes "promote_analysis_generation i base now db = Ok db'"
  obtains r where "cd_generations db i = Some r" "ag_status r = Gen_candidate" "ag_validated r \<noteq> None"
    "ag_base r = base" "current_id db (ag_scope r) = base"
    "db' = db\<lparr>cd_generations := (cd_generations db)(i \<mapsto> r\<lparr>ag_status := Gen_accepted, ag_promoted := Some now\<rparr>),
       cd_current := (cd_current db)(ag_scope r \<mapsto> (i, now))\<rparr>"
    "terminal_shape (r\<lparr>ag_status := Gen_accepted, ag_promoted := Some now\<rparr>)"
proof -
  from assms obtain r db1 where r: "cd_generations db i = Some r" "ag_status r = Gen_candidate" "ag_validated r \<noteq> None"
    "ag_base r = base" "current_id db (ag_scope r) = base"
    and up: "update_generation i r (r\<lparr>ag_status := Gen_accepted, ag_promoted := Some now\<rparr>) db = Ok db1"
    and cur: "db' = db1\<lparr>cd_current := (cd_current db1)(ag_scope r \<mapsto> (i, now))\<rparr>"
    by (auto simp: promote_analysis_generation_def bind_result_eq_Ok split: option.splits if_splits)
  show ?thesis using that [OF r] update_generation_step [OF up] cur by simp
qed

lemma promote_transaction:
  assumes ok: "coherence_ok env db" and run: "promote_candidate env i base now db = Ok db'"
  shows "transaction env db db'"
proof -
  let ?f = "\<lambda>r. r\<lparr>ag_status := Gen_accepted, ag_promoted := Some now\<rparr>"
  have "promote_analysis_generation i base now db = Ok db'"
    using run by (simp add: promote_candidate_def split: sum.splits)
  then obtain r where r: "cd_generations db i = Some r" "ag_status r = Gen_candidate" "ag_validated r \<noteq> None"
    "ag_base r = base" "current_id db (ag_scope r) = base"
    and db': "db' = db\<lparr>cd_generations := (cd_generations db)(i \<mapsto> ?f r), cd_current := (cd_current db)(ag_scope r \<mapsto> (i, now))\<rparr>"
    and shape: "terminal_shape (?f r)"
    by (rule promote_step)
  have "row_ok env db' (?f r)"
    using row_okD [OF ok r(1)] db' shape by (simp add: row_ok_def snapshot_known_def ag_scope_def)
  moreover have "ag_content (?f r) = ag_content r" "ag_scope (?f r) = ag_scope r" by (simp_all add: ag_content_def ag_scope_def)
  ultimately show ?thesis using db' r by (intro accept_row [OF ok, of _ i "?f r" now]) auto
qed

lemma bind_transaction:
  assumes ok: "coherence_ok env db" and run: "bind_effective_input env now s db = (Ok c, s', db')"
  shows "transaction env db db'"
proof -
  from run obtain c' where "insert_input_snapshot c' now db = Ok db'"
    by (auto simp: bind_effective_input_def Let_def split: sum.splits)
  from insert_input_snapshot_step [OF this] show ?thesis by (intro unchanged_rows [OF ok]) simp_all
qed

lemma no_current:
  assumes "history_ok db" "current_id db k = None"
  shows "\<not> accepted_in db k i"
proof -
  obtain hist where hist: "is_history db k hist" "set hist = {i. accepted_in db k i}"
    using assms(1) by (rule history_okE)
  then have "hist = []" using assms(2) by (simp add: is_history_def)
  with hist(2) show ?thesis by simp
qed

lemma current_accepted:
  assumes "history_ok db" "current_id db k = Some i"
  shows "accepted_in db k i"
proof -
  obtain hist where hist: "is_history db k hist" "set hist = {i. accepted_in db k i}"
    using assms(1) by (rule history_okE)
  have "i \<in> set hist" using history_head [OF hist(1)] assms(2) by (cases hist) (simp_all add: log_head_def)
  then have "i \<in> {i. accepted_in db k i}" unfolding hist(2) .
  then show ?thesis by simp
qed

text \<open>A call that changes the tables inserts the baseline of a decision without a current analysis; another
  returns the current generation, if it is the same analysis.\<close>

lemma bootstrap_step:
  assumes ok: "coherence_ok env db" and run: "bootstrap_analysis_generation c i sha json now db = Ok (db', found)"
  shows "(\<exists>j r. current_id db (ii_project c, ii_decision c) = Some j \<and> cd_generations db j = Some r \<and> db' = db \<and>
      found = (if ag_snapshot r = ii_snapshot c \<and> ag_sha r = sha then Some j else None)) \<or>
    (current_id db (ii_project c, ii_decision c) = None \<and> found = Some i \<and> transaction env db db' \<and>
      cd_current db' = (cd_current db)((ii_project c, ii_decision c) \<mapsto> (i, now)) \<and>
      (\<exists>r. cd_generations db' = (cd_generations db)(i \<mapsto> r) \<and> ag_scope r = (ii_project c, ii_decision c) \<and>
         ag_status r = Gen_accepted \<and> ag_base r = None \<and> ag_bootstrap r = Some ''legacy_baseline'' \<and> ag_json r = json))"
proof -
  let ?k = "(ii_project c, ii_decision c)"
  have history: "history_ok db" using ok by (simp add: coherence_ok_def)
  show ?thesis
  proof (cases "current_id db ?k")
    case (Some j)
    then obtain r where r: "cd_generations db j = Some r" using current_accepted [OF history Some] by (auto simp: accepted_in_iff)
    with Some run show ?thesis by (auto simp: bootstrap_analysis_generation_def Let_def)
  next
    case None
    with run obtain db1 db2 where snap: "insert_input_snapshot c now db = Ok db1"
      and db2: "(if cd_generations db1 i \<noteq> None then Ok db1
          else insert_generation i \<lparr>ag_project = fst ?k, ag_decision = snd ?k, ag_snapshot = ii_snapshot c,
            ag_workflow = LEGACY_BASELINE_WORKFLOW_FINGERPRINT, ag_status = Gen_accepted, ag_base = None,
            ag_sha = sha, ag_json = json, ag_validated = Some now, ag_promoted = Some now, ag_terminal = None,
            ag_bootstrap = Some ''legacy_baseline'', ag_created = now\<rparr> db1) = Ok db2"
      and guard: "guard_current_binding db2 ?k i = None"
      and db': "db' = db2\<lparr>cd_current := (cd_current db2)(?k \<mapsto> (i, now))\<rparr>" and found: "found = Some i"
      by (auto simp: bootstrap_analysis_generation_def Let_def bind_result_eq_Ok split: option.splits if_splits)
    let ?r = "\<lparr>ag_project = fst ?k, ag_decision = snd ?k, ag_snapshot = ii_snapshot c,
            ag_workflow = LEGACY_BASELINE_WORKFLOW_FINGERPRINT, ag_status = Gen_accepted, ag_base = None,
            ag_sha = sha, ag_json = json, ag_validated = Some now, ag_promoted = Some now, ag_terminal = None,
            ag_bootstrap = Some ''legacy_baseline'', ag_created = now\<rparr>"
    note db1 = insert_input_snapshot_step [OF snap]
    have "accepted_in db2 ?k i" using guard by (auto simp: guard_current_binding_def accepted_in_iff split: option.splits if_splits)
    then have "db2 \<noteq> db1" using no_current [OF history None, of i] db1(1) by (auto simp: accepted_in_def)
    then have ins: "insert_generation i ?r db1 = Ok db2" using db2 by (auto split: if_splits)
    note db2 = insert_generation_step [OF ins]
    have "snapshot_known db' ?r" using db2(5) snapshot_known_mono [of db1 ?r db'] db2(1) db' by simp
    then have "row_ok env db' ?r" using db2 by (simp add: row_ok_def)
    then have "transaction env db db'"
      using db1 db2 db' None by (intro accept_row [OF ok, of _ i ?r now]) (auto simp: ag_scope_def)
    moreover have "cd_current db' = (cd_current db)(?k \<mapsto> (i, now))" "cd_generations db' = (cd_generations db)(i \<mapsto> ?r)"
      using db' db1 db2 by simp_all
    moreover have "ag_scope ?r = ?k" by (simp add: ag_scope_def)
    ultimately show ?thesis using None found by (intro disjI2 conjI exI [of _ ?r]) simp_all
  qed
qed

lemma transaction_refl: "coherence_ok env db \<Longrightarrow> transaction env db db"
  by (rule unchanged_rows) simp_all

lemma bootstrap_transaction:
  assumes ok: "coherence_ok env db" and run: "bootstrap_current_analysis env now s db = (Ok i, s', db')"
  shows "transaction env db db'"
proof -
  from run obtain c j sha json found where "bootstrap_analysis_generation c j sha json now db = Ok (db', found)"
    by (auto simp: bootstrap_current_analysis_def Let_def split: sum.splits bool.splits)
  from bootstrap_step [OF ok this] transaction_refl [OF ok] show ?thesis by blast
qed

text \<open>A step is such a transaction or the deletion of a project.\<close>

lemma step_transaction:
  assumes "coherence_step env D db db'" "coherence_ok env db"
  obtains "transaction env db db'" | p where "p \<in> D" "db' = delete_project p db"
  using assms
proof cases
  case (add_project p)
  then show ?thesis by (intro that(1) unchanged_rows [OF assms(2)]) simp_all
next
  case (create workflow base i now s g s')
  then show ?thesis using create_transaction [OF assms(2)] that(1) by simp
next
  case (validate i now)
  then show ?thesis using validate_transaction [OF assms(2)] that(1) by simp
next
  case (abandon i failed now)
  then show ?thesis using abandon_transaction [OF assms(2)] that(1) by simp
next
  case (promote i base now)
  then show ?thesis using promote_transaction [OF assms(2)] that(1) by simp
next
  case (bootstrap now s i s')
  then show ?thesis using bootstrap_transaction [OF assms(2)] that(1) by simp
next
  case (bind now s c s')
  then show ?thesis using bind_transaction [OF assms(2)] that(1) by simp
next
  case (delete p)
  then show ?thesis using that(2) by simp
qed

lemma deleted_row:
  "cd_generations (delete_project p db) i = Some r \<longleftrightarrow> cd_generations db i = Some r \<and> ag_project r \<noteq> p"
  by (auto simp: delete_project_def split: option.splits)

lemma deleted_current [simp]:
  "current_id (delete_project p db) k = (if fst k = p then None else current_id db k)"
  by (simp add: current_id_def delete_project_def restrict_map_def)

lemma deleted_history:
  "fst k \<noteq> p \<Longrightarrow> is_history db k hist \<Longrightarrow> is_history (delete_project p db) k hist"
  unfolding is_history_def by (auto simp: deleted_row ag_scope_def elim!: chain_frame [rotated])

lemma deleted_accepted:
  "accepted_in (delete_project p db) k i \<longleftrightarrow> fst k \<noteq> p \<and> accepted_in db k i"
  by (auto simp: accepted_in_iff deleted_row ag_scope_def)

lemma delete_ok:
  assumes "coherence_ok env db"
  shows "coherence_ok env (delete_project p db) \<and> (p \<in> D \<longrightarrow> keeps_rows D db (delete_project p db))"
proof -
  let ?db = "delete_project p db"
  have "\<exists>hist. is_history ?db k hist \<and> distinct hist \<and> set hist = {i. accepted_in ?db k i}" for k
  proof (cases "fst k = p")
    case True
    then show ?thesis by (intro exI [of _ "[]"]) (simp add: is_history_def deleted_accepted)
  next
    case False
    obtain hist where "is_history db k hist" "distinct hist" "set hist = {i. accepted_in db k i}"
      using assms unfolding coherence_ok_def by (metis history_okE)
    with False show ?thesis by (intro exI [of _ hist]) (simp add: deleted_history deleted_accepted)
  qed
  moreover have "row_ok env ?db r" if "cd_generations ?db i = Some r" for i r
  proof -
    have r: "cd_generations db i = Some r" "ag_project r \<noteq> p" using that by (simp_all add: deleted_row)
    then have ok: "row_ok env db r" using assms by (simp add: coherence_ok_def)
    then obtain x where "x \<in> set (cd_snapshots db)" "sr_id x = ag_snapshot r" "(sr_project x, sr_decision x) = ag_scope r"
      by (auto simp: row_ok_def snapshot_known_def)
    with r(2) have "snapshot_known ?db r" by (auto simp: snapshot_known_def delete_project_def ag_scope_def)
    with ok show ?thesis by (simp add: row_ok_def)
  qed
  moreover have "p \<in> D \<Longrightarrow> keeps_rows D db ?db"
    unfolding keeps_rows_def deleted_row by (auto simp: delete_project_def)
  ultimately show ?thesis by (simp add: coherence_ok_def history_ok_def)
qed

lemma step_ok:
  assumes "coherence_step env D db db'" "coherence_ok env db"
  shows "coherence_ok env db' \<and> keeps_rows D db db'"
  using assms delete_ok [OF assms(2)] keeps_mono
  by (elim step_transaction) (simp_all add: transaction_def)

lemma steps_ok: "coherence_steps env D db db' \<Longrightarrow> coherence_ok env db \<Longrightarrow> coherence_ok env db' \<and> keeps_rows D db db'"
proof (induction rule: rtranclp_induct)
  case (step b c)
  then show ?case using step_ok keeps_trans by meson
qed simp

lemma empty_ok: "coherence_ok env empty_db"
proof -
  have "is_history empty_db k []" for k by (simp add: is_history_def empty_db_def current_id_def)
  then show ?thesis by (auto simp: coherence_ok_def history_ok_def accepted_in_def empty_db_def)
qed

lemma reachable_ok: "coherence_steps env UNIV empty_db db \<Longrightarrow> coherence_ok env db"
  using steps_ok empty_ok by blast

lemma coherence_okE:
  assumes "coherence_ok env db"
  obtains hist where "is_history db k hist" "distinct hist" "set hist = {i. accepted_in db k i}"
  using assms unfolding coherence_ok_def by (metis history_okE)

text \<open>A step appends at most one generation to the history of a decision, on the head it had.\<close>

lemma transaction_history:
  assumes "transaction env db db'" "is_history db k hist"
  shows "\<exists>base i. is_history db' k (compare_and_append base i hist)"
proof -
  have "compare_and_append (if log_head hist = None then Some x else None) x hist = hist" for x
    by (auto simp: compare_and_append_def)
  then have stay: "\<exists>base i. compare_and_append base i hist = hist" by blast
  from assms(1) consider (quiet) "quiet db db'" | (accepts) i r where "accepts db i r db'"
    unfolding transaction_def by blast
  then show ?thesis
  proof cases
    case quiet
    with stay quiet_history assms(2) show ?thesis by metis
  next
    case (accepts i r)
    from accepts_history [OF accepts assms(2)] have next_history: "is_history db' k (if k = ag_scope r then i # hist else hist)" .
    show ?thesis
    proof (cases "k = ag_scope r")
      case True
      then have "log_head hist = ag_base r" using accepts history_head [OF assms(2)] by (simp add: accepts_def)
      then have "compare_and_append (ag_base r) i hist = i # hist" by (simp add: compare_and_append_def)
      with next_history True show ?thesis by metis
    next
      case False
      with next_history stay show ?thesis by metis
    qed
  qed
qed

lemma steps_history:
  assumes "coherence_steps env D db db'" "coherence_ok env db" "is_history db k hist" "fst k \<notin> D"
  shows "\<exists>new. is_history db' k (new @ hist)"
  using assms(1)
proof (induction rule: rtranclp_induct)
  case base
  then show ?case using assms(3) by (intro exI [of _ "[]"]) simp
next
  case (step b c)
  then obtain new where new: "is_history b k (new @ hist)" by blast
  have "coherence_ok env b" using steps_ok [OF step(1) assms(2)] by blast
  with step(2) show ?case
  proof (cases rule: step_transaction)
    case 1
    with new obtain base i where "is_history c k (compare_and_append base i (new @ hist))"
      using transaction_history by blast
    then have "is_history c k (([i] @ new) @ hist) \<or> is_history c k (new @ hist)"
      by (auto simp: compare_and_append_def split: if_splits)
    then show ?thesis by blast
  next
    case (2 p)
    then have "fst k \<noteq> p" using assms(4) by blast
    with new 2 deleted_history show ?thesis by blast
  qed
qed

subsection \<open>The history of a decision is an append-only log\<close>



text \<open>C22: the promotion of a candidate has exactly three outcomes. A candidate that was not validated is refused
  as such; if its base is not the one the caller expects, or is no longer the current generation,
  the promotion is refused as stale; otherwise the candidate becomes the current generation of its
  decision, in front of the history it started from, and no other decision changes. An accepted
  candidate is a complete analysis.\<close>

theorem promotion_decides:
  assumes "coherence_steps env UNIV empty_db db" "cd_generations db i = Some r" "ag_status r = Gen_candidate"
    and "is_history db (ag_scope r) hist"
  shows "case promote_candidate env i base now db of
      Inl e \<Rightarrow> (if ag_validated r = None then \<exists>m. e = Candidate_not_validated m
                else (ag_base r \<noteq> base \<or> log_head hist \<noteq> base) \<and> (\<exists>m. e = Stale_promotion m))
    | Inr db' \<Rightarrow> ag_validated r \<noteq> None \<and> ag_base r = base \<and> log_head hist = base \<and>
        is_history db' (ag_scope r) (i # hist) \<and> (\<forall>k. k = ag_scope r \<or> current_id db' k = current_id db k) \<and>
        (ag_bootstrap r = None \<longrightarrow> stored_complete env (ag_json r) = Ok True)"
proof -
  have ok: "coherence_ok env db" using reachable_ok assms(1) by blast
  have head: "current_id db (ag_scope r) = log_head hist" using history_head [OF assms(4)] .
  show ?thesis
  proof (cases "promote_candidate env i base now db")
    case (Inr db')
    then have run: "promote_analysis_generation i base now db = Ok db'"
      by (simp add: promote_candidate_def split: sum.splits)
    then obtain r' where r': "cd_generations db i = Some r'" "ag_status r' = Gen_candidate" "ag_validated r' \<noteq> None"
      "ag_base r' = base" "current_id db (ag_scope r') = base"
      and db': "db' = db\<lparr>cd_generations := (cd_generations db)(i \<mapsto> r'\<lparr>ag_status := Gen_accepted, ag_promoted := Some now\<rparr>),
        cd_current := (cd_current db)(ag_scope r' \<mapsto> (i, now))\<rparr>"
      by (rule promote_step)
    have r: "r' = r" using r'(1) assms(2) by simp
    have "quiet db db' \<or> (\<exists>i r. accepts db i r db')" "transaction env db db'"
      using promote_transaction [OF ok Inr] unfolding transaction_def by blast+
    then obtain b j where "is_history db' (ag_scope r) (compare_and_append b j hist)"
      using transaction_history [OF _ assms(4)] by blast
    moreover have "current_id db' (ag_scope r) = Some i" using db' r by (simp add: current_id_def)
    moreover have "current_id db (ag_scope r) \<noteq> Some i"
      using assms(2,3) current_accepted ok unfolding coherence_ok_def by (fastforce simp: accepted_in_iff)
    ultimately have "is_history db' (ag_scope r) (i # hist)"
      using history_head head by (fastforce simp: compare_and_append_def log_head_def split: if_splits)
    moreover have "current_id db' k = current_id db k" if "k \<noteq> ag_scope r" for k
      using db' r that by (simp add: current_id_def)
    ultimately show ?thesis
      using Inr r r' head row_okD [OF ok assms(2)] by (auto simp: row_ok_def)
  next
    case (Inl e)
    have shape: "ag_terminal r = None" using row_okD [OF ok assms(2)] assms(3) by (simp add: row_ok_def terminal_shape_def)
    from Inl have err: "e = promotion_error env (Db_raised ''candidate has not been validated'') \<and> ag_validated r = None \<or>
        ag_validated r \<noteq> None \<and> (ag_base r \<noteq> base \<and> e = promotion_error env (Db_raised ''promotion expected-base does not match candidate'') \<or>
         log_head hist \<noteq> base \<and> e = promotion_error env (Db_raised ''current analysis changed after candidate creation''))"
      using assms(2,3) shape head
      by (auto simp: promote_candidate_def promote_analysis_generation_def update_generation_def guard_generation_update_def
          ag_content_def terminal_shape_def guard_current_binding_def ag_scope_def split: sum.splits if_splits)
    have "promotion_error env (Db_raised ''candidate has not been validated'') = Candidate_not_validated ''candidate has not been validated''"
      "promotion_error env (Db_raised ''promotion expected-base does not match candidate'') = Stale_promotion ''promotion expected-base does not match candidate''"
      "promotion_error env (Db_raised ''current analysis changed after candidate creation'') = Stale_promotion ''current analysis changed after candidate creation''"
      by (simp_all add: promotion_error_def starts_with_def)
    with err Inl show ?thesis by (auto split: if_splits)
  qed
qed

subsection \<open>Two runs that started from one state of a decision\<close>

lemma is_sha256_hex [simp]: "is_sha256 (sha256_hex t)"
proof -
  have "list_all (\<lambda>c. c \<in> set (map hex_digit [0..<16])) (hex_word w)" for w
    by (simp add: hex_word_def list_all_iff)
  then have "list_all (\<lambda>c. c \<in> set (map hex_digit [0..<16])) (sha256_hex t)"
    by (simp add: sha256_hex_def list_all_iff)
  then show ?thesis by (simp add: is_sha256_def)
qed

definition finished_project :: project_state where
  "finished_project = default_project_state\<lparr>project_id := ''p'', project_type := ''technology_readiness'',
     phase_status := (\<lambda>q. Some COMPLETED), tr_outputs := (\<lambda>q. Some [])\<rparr>"

definition finished_decision :: decision_state where
  "finished_decision = (example_decision [])\<lparr>ds_project := finished_project\<rparr>"

definition example_coherence :: coherence_env where
  "example_coherence = \<lparr>ce_text = example_env, ce_dump = (\<lambda>s. []), ce_validate = (\<lambda>v. Ok finished_decision),
     ce_sql_text = (\<lambda>e. ''''), ce_workflow_text = (\<lambda>e. '''')\<rparr>"

lemma finished_complete: "is_complete_analysis finished_decision = Ok True"
  by (simp add: is_complete_analysis_def finished_decision_def workflow_phase_sequence_for_state_def finished_project_def
      TECHNOLOGY_READINESS_PHASE_SEQUENCE_def phase_has_output_def output_is_None_def)

abbreviation race_identity :: input_identity where
  "race_identity \<equiv> effective_input_identity example_env finished_decision"

abbreviation race_row :: "string \<Rightarrow> analysis_generation" where
  "race_row i \<equiv> candidate_row example_coherence ''w'' None i 0 finished_decision"

definition race_db :: "(string \<rightharpoonup> analysis_generation) \<Rightarrow> (string \<times> string \<rightharpoonup> string \<times> time) \<Rightarrow> coherence_db" where
  "race_db g c = \<lparr>cd_projects = {''p''},
     cd_snapshots = [\<lparr>sr_id = ii_snapshot race_identity, sr_project = ''p'', sr_decision = ii_decision race_identity,
       sr_sha = ii_digest race_identity, sr_json = ii_payload race_identity,
       sr_contract = EFFECTIVE_INPUT_CONTRACT_VERSION, sr_created = 0\<rparr>],
     cd_generations = g, cd_current = c\<rparr>"

lemma race_identity_simps [simp]: "ii_project race_identity = ''p''" "is_sha256 (ii_digest race_identity)"
  by (simp_all add: effective_input_identity_def Let_def finished_decision_def finished_project_def effective_input_sha256_def)

lemma race_row_simps [simp]:
  "ag_scope (race_row i) = (''p'', ii_decision race_identity)" "ag_status (race_row i) = Gen_candidate" "ag_base (race_row i) = None"
  "ag_validated (race_row i) = None" "ag_promoted (race_row i) = None" "ag_terminal (race_row i) = None"
  "ag_bootstrap (race_row i) = None" "ag_snapshot (race_row i) = ii_snapshot race_identity" "is_sha256 (ag_sha (race_row i))"
  "ag_project (race_row i) = ''p''"
  by (simp_all add: candidate_row_def Let_def ag_scope_def payload_sha256_def finished_decision_def finished_project_def
      example_coherence_def)

abbreviation validated_row :: "string \<Rightarrow> analysis_generation" where
  "validated_row i \<equiv> (race_row i)\<lparr>ag_validated := Some 1\<rparr>"

abbreviation promoted_row :: "string \<Rightarrow> analysis_generation" where
  "promoted_row i \<equiv> (validated_row i)\<lparr>ag_status := Gen_accepted, ag_promoted := Some 2\<rparr>"

lemma create_first:
  "coherence_step example_coherence D (empty_db\<lparr>cd_projects := {''p''}\<rparr>) (race_db [''g1'' \<mapsto> race_row ''g1''] Map.empty)"
proof -
  have "insert_input_snapshot race_identity 0 (empty_db\<lparr>cd_projects := {''p''}\<rparr>) = Ok (race_db Map.empty Map.empty)"
    by (simp add: insert_input_snapshot_def empty_db_def race_db_def)
  moreover have "insert_generation ''g1'' (race_row ''g1'') (race_db Map.empty Map.empty) = Ok (race_db [''g1'' \<mapsto> race_row ''g1''] Map.empty)"
    by (simp add: insert_generation_def race_db_def terminal_shape_def)
  ultimately show ?thesis
    by (intro coherence_step.create [of _ "''w''" None "''g1''" 0 finished_decision])
      (simp add: create_candidate_def Let_def example_coherence_def)
qed

lemma create_second:
  "coherence_step example_coherence D (race_db [''g1'' \<mapsto> race_row ''g1''] Map.empty)
     (race_db [''g1'' \<mapsto> race_row ''g1'', ''g2'' \<mapsto> race_row ''g2''] Map.empty)"
proof -
  let ?db = "race_db [''g1'' \<mapsto> race_row ''g1''] Map.empty"
  have "insert_input_snapshot race_identity 0 ?db = Ok ?db"
    by (simp add: insert_input_snapshot_def race_db_def)
  moreover have "insert_generation ''g2'' (race_row ''g2'') ?db =
      Ok (race_db [''g1'' \<mapsto> race_row ''g1'', ''g2'' \<mapsto> race_row ''g2''] Map.empty)"
    by (simp add: insert_generation_def race_db_def terminal_shape_def)
  ultimately show ?thesis
    by (intro coherence_step.create [of _ "''w''" None "''g2''" 0 finished_decision])
      (simp add: create_candidate_def Let_def example_coherence_def)
qed

lemma validate_row:
  assumes "g i = Some (race_row i)"
  shows "coherence_step example_coherence D (race_db g c) (race_db (g(i \<mapsto> validated_row i)) c)"
proof -
  have "stored_complete example_coherence v = Ok True" for v
    using finished_complete by (simp add: stored_complete_def example_coherence_def)
  with assms have "validate_candidate example_coherence i 1 (race_db g c) = Ok (race_db (g(i \<mapsto> validated_row i)) c)"
    by (simp add: validate_candidate_def race_db_def db_step_def update_generation_def guard_generation_update_def
        ag_content_def terminal_shape_def)
  then show ?thesis by (rule coherence_step.validate)
qed

lemma ag_scope_updates:
  "ag_scope (r\<lparr>ag_validated := v\<rparr>) = ag_scope r" "ag_scope (r\<lparr>ag_status := st\<rparr>) = ag_scope r"
  "ag_scope (r\<lparr>ag_promoted := v\<rparr>) = ag_scope r"
  by (simp_all add: ag_scope_def)

lemma promote_row:
  assumes "g i = Some (validated_row i)"
  shows "promote_candidate example_coherence i None 2 (race_db g Map.empty) =
    Ok (race_db (g(i \<mapsto> promoted_row i)) [(''p'', ii_decision race_identity) \<mapsto> (i, 2)])"
  using assms
  by (simp add: promote_candidate_def promote_analysis_generation_def race_db_def update_generation_def guard_generation_update_def
      ag_content_def terminal_shape_def guard_current_binding_def current_id_def ag_scope_updates)

definition race_scope :: "string \<times> string" where
  "race_scope = (''p'', ii_decision race_identity)"

definition raced :: coherence_db where
  "raced = race_db [''g1'' \<mapsto> validated_row ''g1'', ''g2'' \<mapsto> validated_row ''g2''] Map.empty"

definition raced_won :: coherence_db where
  "raced_won = race_db [''g1'' \<mapsto> promoted_row ''g1'', ''g2'' \<mapsto> validated_row ''g2''] [race_scope \<mapsto> (''g1'', 2)]"

lemma raced_reachable: "coherence_steps example_coherence D empty_db raced"
proof -
  let ?e = example_coherence and ?v = validated_row
  have "coherence_step ?e D empty_db (empty_db\<lparr>cd_projects := {''p''}\<rparr>)"
    using coherence_step.add_project [of ?e D empty_db "''p''"] by (simp add: empty_db_def)
  moreover note create_first create_second
  moreover have "coherence_step ?e D (race_db [''g1'' \<mapsto> race_row ''g1'', ''g2'' \<mapsto> race_row ''g2''] Map.empty)
      (race_db [''g1'' \<mapsto> ?v ''g1'', ''g2'' \<mapsto> race_row ''g2''] Map.empty)"
    using validate_row [of "[''g1'' \<mapsto> race_row ''g1'', ''g2'' \<mapsto> race_row ''g2'']" "''g1''" D Map.empty]
    by (simp add: fun_upd_twist [of "''g1''"])
  moreover have "coherence_step ?e D (race_db [''g1'' \<mapsto> ?v ''g1'', ''g2'' \<mapsto> race_row ''g2''] Map.empty) raced"
    using validate_row [of "[''g1'' \<mapsto> ?v ''g1'', ''g2'' \<mapsto> race_row ''g2'']" "''g2''" D Map.empty]
    by (simp add: raced_def)
  ultimately show ?thesis by (meson rtranclp.rtrancl_refl rtranclp.rtrancl_into_rtrancl)
qed

lemma raced_won_step: "promote_candidate example_coherence ''g1'' None 2 raced = Ok raced_won"
  using promote_row [of "[''g1'' \<mapsto> validated_row ''g1'', ''g2'' \<mapsto> validated_row ''g2'']" "''g1''"]
  by (simp add: raced_def raced_won_def race_scope_def fun_upd_twist [of "''g1''"])

lemma raced_won_reachable:
  "coherence_steps example_coherence D empty_db raced_won" "coherence_steps example_coherence D raced raced_won"
  using raced_reachable coherence_step.promote [OF raced_won_step]
  by (blast intro: rtranclp.rtrancl_into_rtrancl)+



theorem promotion_decides_witness:
  "is_history raced_won race_scope [''g1''] \<and>
   (\<exists>m. promote_candidate example_coherence ''g2'' None 3 raced_won = Err (Stale_promotion m))"
proof -
  have rows: "cd_generations raced ''g1'' = Some (validated_row ''g1'')" "cd_generations raced_won ''g2'' = Some (validated_row ''g2'')"
    by (simp_all add: raced_def raced_won_def race_db_def)
  have scope: "ag_scope (validated_row i) = race_scope" for i
    using race_row_simps(1) [of i] by (simp add: ag_scope_def race_scope_def)
  have "is_history raced race_scope []" by (simp add: is_history_def current_id_def raced_def race_db_def)
  with promotion_decides [OF raced_reachable rows(1), of "[]" None 2] have won: "is_history raced_won race_scope [''g1'']"
    by (simp add: raced_won_step scope)
  with promotion_decides [OF raced_won_reachable(1) rows(2), of "[''g1'']" None 3] show ?thesis
    by (auto simp: scope log_head_def split: sum.splits)
qed

end
