(* ===== verification/Store.thy ===== *)
theory Store
  imports Coherence
begin

text \<open>
  The project store (\<open>mas/store.py\<close>) over PostgreSQL, and the acceptance of a completed run
  (\<open>_current_generation_id\<close> and \<open>_accept_completed_analysis\<close> of \<open>mas/api.py\<close>). The store keeps
  the states it has handed out in memory and the dumps of all saved states in a table, beside the
  tables of theory Coherence; a save also adds the project's own row.

  \<open>DATABASE_URL\<close> is set and the migration is installed. \<open>ensure_decision_objects\<close> only derives objects that no operation here
  reads, and is left out; so are the columns of \<open>projects\<close>. A call of the database can be lost on
  the way there or after it committed (\<open>connection\<close>); the acceptance is modelled with such losses.
\<close>

subsection \<open>State\<close>

record state_row =
  st_project :: string
  st_json :: jval
  st_version :: nat
  st_updated :: time

record store =
  so_mem :: "string \<rightharpoonup> decision_state"
  so_rows :: "state_row list"
  so_db :: coherence_db

definition save_row :: "string \<Rightarrow> jval \<Rightarrow> time \<Rightarrow> state_row list \<Rightarrow> state_row list" where
  "save_row p json now rows =
     (if list_ex (\<lambda>r. st_project r = p) rows
      then map (\<lambda>r. if st_project r = p
                    then r\<lparr>st_json := json, st_version := st_version r + 1, st_updated := now\<rparr> else r) rows
      else rows @ [\<lparr>st_project = p, st_json = json, st_version = 1, st_updated = now\<rparr>])"

subsection \<open>Saving and loading\<close>

definition save :: "coherence_env \<Rightarrow> time \<Rightarrow> decision_state \<Rightarrow> store \<Rightarrow> (coherence_error, unit) result \<times> decision_state \<times> store" where
  "save env now s st =
     (let db = so_db st; db1 = db\<lparr>cd_projects := insert (ds_id s) (cd_projects db)\<rparr>
      in case bind_effective_input env now s db1 of
           (Inl e, s1, db2) \<Rightarrow> (Err (Db_failure e), s1, st)
         | (Inr c, s1, db2) \<Rightarrow>
             (Ok (), s1, \<lparr>so_mem = (so_mem st)(ds_id s \<mapsto> s1),
                so_rows = save_row (ds_id s) (JObj (ce_dump env s1)) now (so_rows st), so_db = db2\<rparr>))"

text \<open>What \<open>load\<close> and \<open>list_all\<close> both do with a state that was read from the table, to remember it as \<open>p\<close>.\<close>

definition adopt :: "coherence_env \<Rightarrow> time \<Rightarrow> string \<Rightarrow> decision_state \<Rightarrow> store \<Rightarrow> (coherence_error, decision_state) result \<times> store" where
  "adopt env now p s st =
     (let remember = (\<lambda>t u. (Ok t, u\<lparr>so_mem := (so_mem u)(p \<mapsto> t)\<rparr>))
      in case is_complete_analysis s of
           Inl e \<Rightarrow> (Err (Invalid_state (ce_workflow_text env e)), st)
         | Inr finished \<Rightarrow>
             if finished \<and> ds_generation s = ''''
             then (case bootstrap_current_analysis env now s (so_db st) of
                 (Inl e, s1, db1) \<Rightarrow> (Err e, st\<lparr>so_db := db1\<rparr>)
               | (Inr i, s1, db1) \<Rightarrow>
                   let st1 = st\<lparr>so_db := db1\<rparr>
                   in if i = '''' then remember s1 st1
                      else (case save env now (s1\<lparr>ds_generation := i\<rparr>) st1 of
                          (Inl e, s2, st2) \<Rightarrow> (Err e, st2)
                        | (Inr _, s2, st2) \<Rightarrow> remember s2 st2))
             else remember s st)"

definition load :: "coherence_env \<Rightarrow> time \<Rightarrow> string \<Rightarrow> store \<Rightarrow> (coherence_error, decision_state option) result \<times> store" where
  "load env now p st =
     (case so_mem st p of
        Some s \<Rightarrow> (Ok (Some s), st)
      | None \<Rightarrow>
          (case find (\<lambda>r. st_project r = p) (so_rows st) of
             None \<Rightarrow> (Ok None, st)
           | Some r \<Rightarrow>
               (case ce_validate env (st_json r) of
                  Inl e \<Rightarrow> (Err (Invalid_state e), st)
                | Inr s \<Rightarrow> (case adopt env now p s st of (res, st1) \<Rightarrow> (map_result Some res, st1)))))"

fun adopt_all ::
  "coherence_env \<Rightarrow> time \<Rightarrow> decision_state list \<Rightarrow> store \<Rightarrow> (coherence_error, decision_state list) result \<times> store" where
  "adopt_all env now [] st = (Ok [], st)"
| "adopt_all env now (s # ss) st =
     (case adopt env now (ds_id s) s st of
        (Inl e, st1) \<Rightarrow> (Err e, st1)
      | (Inr t, st1) \<Rightarrow> (case adopt_all env now ss st1 of (res, st2) \<Rightarrow> (map_result (Cons t) res, st2)))"

text \<open>\<open>ORDER BY updated_at DESC LIMIT 200\<close>, all rows validated before the first is adopted.\<close>

definition list_all_projects ::
  "coherence_env \<Rightarrow> time \<Rightarrow> store \<Rightarrow> (coherence_error, decision_state list) result \<times> store" where
  "list_all_projects env now st =
     (let rows = take 200 (sort_key (\<lambda>r. - st_updated r) (so_rows st))
      in case all_results (map (\<lambda>r. ce_validate env (st_json r)) rows) of
           Inl e \<Rightarrow> (Err (Invalid_state e), st)
         | Inr ss \<Rightarrow> adopt_all env now ss st)"

subsection \<open>Deleting a project\<close>

text \<open>Two statements, each committed by itself; the answer is whether there was a project.\<close>

definition delete_state :: "string \<Rightarrow> store \<Rightarrow> bool \<times> store" where
  "delete_state p st =
     (p \<in> cd_projects (so_db st),
      \<lparr>so_mem = (so_mem st)(p := None), so_rows = filter (\<lambda>r. st_project r \<noteq> p) (so_rows st),
       so_db = delete_project p (so_db st)\<rparr>)"

subsection \<open>Acceptance\<close>

definition current_generation_id :: "decision_state \<Rightarrow> store \<Rightarrow> string option" where
  "current_generation_id s st = map_option fst (current_generation (so_db st) (ds_id s) (primary_decision_id (ds_id s)))"

text \<open>What becomes of a call of the database: it is answered, or the driver raises with a text, before the
  transaction ran or after it committed.\<close>

datatype connection = Up | Lost_before string | Lost_after string

datatype acceptance_call = At_create | At_validate | At_promote | At_abandon | At_save

text \<open>A transaction on the tables over a connection: \<open>r\<close> is its result, \<open>raised\<close> what the caller makes of the driver's text.\<close>

definition transact ::
  "connection \<Rightarrow> (string \<Rightarrow> coherence_error) \<Rightarrow> coherence_db \<Rightarrow> (coherence_error, coherence_db) result \<Rightarrow>
     (coherence_error, unit) result \<times> coherence_db" where
  "transact c raised db r =
     (case c of
        Lost_before m \<Rightarrow> (Err (raised m), db)
      | Up \<Rightarrow> (case r of Inl e \<Rightarrow> (Err e, db) | Inr db1 \<Rightarrow> (Ok (), db1))
      | Lost_after m \<Rightarrow> (case r of Inl e \<Rightarrow> (Err e, db) | Inr db1 \<Rightarrow> (Err (raised m), db1)))"

definition create_over ::
  "connection \<Rightarrow> coherence_env \<Rightarrow> string \<Rightarrow> string option \<Rightarrow> string \<Rightarrow> time \<Rightarrow> decision_state \<Rightarrow> coherence_db \<Rightarrow>
     (coherence_error, generation_identity) result \<times> decision_state \<times> coherence_db" where
  "create_over c env workflow base i now s db =
     (case c of
        Lost_before m \<Rightarrow> (Err (Db_failure (Db_raised m)), s, db)
      | Up \<Rightarrow> create_candidate env workflow base i now s db
      | Lost_after m \<Rightarrow>
          (case create_candidate env workflow base i now s db of
             (Inl e, s1, db1) \<Rightarrow> (Err e, s1, db1)
           | (Inr g, s1, db1) \<Rightarrow> (Err (Db_failure (Db_raised m)), s, db1)))"

definition save_over ::
  "connection \<Rightarrow> coherence_env \<Rightarrow> time \<Rightarrow> decision_state \<Rightarrow> store \<Rightarrow> (coherence_error, unit) result \<times> decision_state \<times> store" where
  "save_over c env now s st =
     (case c of
        Lost_before m \<Rightarrow> (Err (Db_failure (Db_raised m)), s, st)
      | Up \<Rightarrow> save env now s st
      | Lost_after m \<Rightarrow>
          (case save env now s st of
             (Inl e, s1, st1) \<Rightarrow> (Err e, s1, st1)
           | (Inr _, s1, st1) \<Rightarrow> (Err (Db_failure (Db_raised m)), s1, st1\<lparr>so_mem := so_mem st\<rparr>)))"

text \<open>The handler of \<open>_accept_completed_analysis\<close>: \<open>e\<close> was raised after the candidate was created. It passes over
  the error of a candidate that is not active any more, but no other.\<close>

definition give_up ::
  "connection \<Rightarrow> string \<Rightarrow> time \<Rightarrow> coherence_error \<Rightarrow> decision_state \<Rightarrow> store \<Rightarrow>
     (coherence_error, unit) result \<times> decision_state \<times> store" where
  "give_up c i now e s st =
     (case transact c (\<lambda>m. Db_failure (Db_raised m)) (so_db st) (abandon_candidate i True now (so_db st)) of
        (Inr _, db1) \<Rightarrow> (Err e, s\<lparr>ds_generation := ''''\<rparr>, st\<lparr>so_db := db1\<rparr>)
      | (Inl (Db_failure x), db1) \<Rightarrow> (Err (Db_failure x), s, st\<lparr>so_db := db1\<rparr>)
      | (Inl (State_coherence _), db1) \<Rightarrow> (Err e, s\<lparr>ds_generation := ''''\<rparr>, st\<lparr>so_db := db1\<rparr>)
      | (Inl (Candidate_not_validated _), db1) \<Rightarrow> (Err e, s\<lparr>ds_generation := ''''\<rparr>, st\<lparr>so_db := db1\<rparr>)
      | (Inl (Stale_promotion _), db1) \<Rightarrow> (Err e, s\<lparr>ds_generation := ''''\<rparr>, st\<lparr>so_db := db1\<rparr>)
      | (Inl (Invalid_state x), db1) \<Rightarrow> (Err (Invalid_state x), s, st\<lparr>so_db := db1\<rparr>))"

definition accept_over ::
  "(acceptance_call \<Rightarrow> connection) \<Rightarrow> coherence_env \<Rightarrow> string \<Rightarrow> string option \<Rightarrow> string \<Rightarrow> time \<Rightarrow> decision_state \<Rightarrow> store \<Rightarrow>
     (coherence_error, unit) result \<times> decision_state \<times> store" where
  "accept_over link env version base i now s st =
     (case workflow_fingerprint env s version of
        Inl e \<Rightarrow> (Err (Invalid_state (ce_workflow_text env e)), s, st)
      | Inr workflow \<Rightarrow>
          (case create_over (link At_create) env workflow base i now s (so_db st) of
             (Inl e, s1, db1) \<Rightarrow> (Err e, s1, st\<lparr>so_db := db1\<rparr>)
           | (Inr g, s1, db1) \<Rightarrow>
               (case transact (link At_validate) (\<lambda>m. Db_failure (Db_raised m)) db1
                       (validate_candidate env (gi_generation g) now db1) of
                  (Inl e, db2) \<Rightarrow> give_up (link At_abandon) (gi_generation g) now e s1 (st\<lparr>so_db := db2\<rparr>)
                | (Inr _, db2) \<Rightarrow>
                    (case transact (link At_promote) (\<lambda>m. promotion_error env (Db_raised m)) db2
                            (promote_candidate env (gi_generation g) base now db2) of
                       (Inl e, db3) \<Rightarrow> give_up (link At_abandon) (gi_generation g) now e s1 (st\<lparr>so_db := db3\<rparr>)
                     | (Inr _, db3) \<Rightarrow>
                         save_over (link At_save) env now
                           (s1\<lparr>ds_generation := gi_generation g, ds_snapshot := gi_snapshot g\<rparr>) (st\<lparr>so_db := db3\<rparr>)))))"

text \<open>Over a connection that holds.\<close>

definition accept_completed_analysis ::
  "coherence_env \<Rightarrow> string \<Rightarrow> string option \<Rightarrow> string \<Rightarrow> time \<Rightarrow> decision_state \<Rightarrow> store \<Rightarrow>
     (coherence_error, unit) result \<times> decision_state \<times> store" where
  "accept_completed_analysis = accept_over (\<lambda>_. Up)"

lemma transact_Up [simp]: "transact Up f db r = (case r of Inl e \<Rightarrow> (Err e, db) | Inr db1 \<Rightarrow> (Ok (), db1))"
  by (simp add: transact_def)

lemma transact_cases:
  assumes "transact c f db r = (x, db')"
  obtains (fine) "c = Up" "x = Ok ()" "r = Ok db'"
  | (failed) e where "x = Err e" "db' = db"
  | (committed) e m where "x = Err e" "c = Lost_after m" "r = Ok db'"
  using assms by (auto simp: transact_def split: connection.splits sum.splits)

lemma create_error: "create_candidate env workflow base i now s db = (Err e, s1, db1) \<Longrightarrow> s1 = s \<and> db1 = db"
  by (auto simp: create_candidate_def Let_def split: sum.splits)

lemma accept_completed_eq:
  "accept_completed_analysis env version base i now s st =
     (case workflow_fingerprint env s version of
        Inl e \<Rightarrow> (Err (Invalid_state (ce_workflow_text env e)), s, st)
      | Inr workflow \<Rightarrow>
          (case create_candidate env workflow base i now s (so_db st) of
             (Inl e, s1, db1) \<Rightarrow> (Err e, s1, st)
           | (Inr g, s1, db1) \<Rightarrow>
               (case validate_candidate env (gi_generation g) now db1 of
                  Inl e \<Rightarrow> give_up Up (gi_generation g) now e s1 (st\<lparr>so_db := db1\<rparr>)
                | Inr db2 \<Rightarrow>
                    (case promote_candidate env (gi_generation g) base now db2 of
                       Inl e \<Rightarrow> give_up Up (gi_generation g) now e s1 (st\<lparr>so_db := db2\<rparr>)
                     | Inr db3 \<Rightarrow>
                         save env now (s1\<lparr>ds_generation := gi_generation g, ds_snapshot := gi_snapshot g\<rparr>)
                           (st\<lparr>so_db := db3\<rparr>)))))"
  unfolding accept_completed_analysis_def accept_over_def create_over_def save_over_def
  by (auto split: sum.split prod.split dest: create_error)

text \<open>An acceptance that returns lost no call on its way.\<close>

lemma accept_over_Ok:
  "accept_over link env version base i now s st = (Ok u, s', st') \<Longrightarrow>
     accept_completed_analysis env version base i now s st = (Ok (), s', st')"
  unfolding accept_completed_eq
  by (auto simp: accept_over_def create_over_def save_over_def transact_def give_up_def
      split: sum.splits prod.splits connection.splits coherence_error.splits)

lemma accept_over_Up: "(\<And>c. link c = Up) \<Longrightarrow> accept_over link = accept_completed_analysis"
proof -
  assume "\<And>c. link c = Up"
  then have "link = (\<lambda>_. Up)" by blast
  then show ?thesis by (simp add: accept_completed_analysis_def)
qed

subsection \<open>Every operation is a sequence of transactions\<close>

lemma identity_bound [simp]:
  "effective_input_identity env (s\<lparr>ds_generation := g\<rparr>) = effective_input_identity env s"
  "effective_input_identity env (s\<lparr>ds_snapshot := c\<rparr>) = effective_input_identity env s"
  by (simp_all add: effective_input_identity_def effective_input_sha256_def effective_input_text_def
      effective_input_payload_def authoritative_triples_def Let_def)

lemma identity_scope [simp]:
  "ii_project (effective_input_identity env s) = ds_id s"
  "ii_decision (effective_input_identity env s) = primary_decision_id (ds_id s)"
  "is_sha256 (ii_digest (effective_input_identity env s))"
  by (simp_all add: effective_input_identity_def effective_input_sha256_def Let_def)

definition decision_of :: "decision_state \<Rightarrow> string \<times> string" where
  "decision_of s = (ds_id s, primary_decision_id (ds_id s))"

lemma save_steps:
  assumes "save env now s st = (res, s', st')"
  shows "coherence_steps env D (so_db st) (so_db st')"
proof -
  let ?db1 = "(so_db st)\<lparr>cd_projects := insert (ds_id s) (cd_projects (so_db st))\<rparr>"
  obtain b s1 db2 where bind: "bind_effective_input env now s ?db1 = (b, s1, db2)" by (metis prod_cases3)
  show ?thesis
  proof (cases b)
    case (Inr c)
    have "coherence_step env D (so_db st) ?db1" by (rule coherence_step.add_project)
    moreover have "coherence_step env D ?db1 db2" using bind Inr by (auto intro: coherence_step.bind)
    ultimately show ?thesis using assms bind Inr by (auto simp: save_def Let_def intro: converse_rtranclp_into_rtranclp)
  qed (use assms bind in \<open>auto simp: save_def Let_def\<close>)
qed

lemma adopt_steps:
  assumes "adopt env now p s st = (res, st')"
  shows "coherence_steps env D (so_db st) (so_db st')"
proof -
  obtain b s1 db1 where boot: "bootstrap_current_analysis env now s (so_db st) = (b, s1, db1)" by (metis prod_cases3)
  have first: "coherence_steps env D (so_db st) db1"
  proof (cases b)
    case (Inl e)
    then show ?thesis using boot
      by (auto simp: bootstrap_current_analysis_def Let_def split: sum.splits bool.splits)
  next
    case (Inr i)
    with boot show ?thesis by (auto intro: coherence_step.bootstrap)
  qed
  obtain c s2 st2 where saved: "save env now (s1\<lparr>ds_generation := projr b\<rparr>) (st\<lparr>so_db := db1\<rparr>) = (c, s2, st2)"
    by (metis prod_cases3)
  have "coherence_steps env D db1 (so_db st2)" using save_steps [OF saved] by simp
  with first have second: "coherence_steps env D (so_db st) (so_db st2)" by (rule rtranclp_trans)
  show ?thesis
    using assms boot first second saved
    by (auto simp: adopt_def Let_def split: sum.splits if_splits)
qed

lemma adopt_all_steps:
  "adopt_all env now ss st = (res, st') \<Longrightarrow> coherence_steps env D (so_db st) (so_db st')"
proof (induction ss arbitrary: st st' res)
  case (Cons s ss)
  obtain a st1 where first: "adopt env now (ds_id s) s st = (a, st1)" by fastforce
  obtain b st2 where rest: "adopt_all env now ss st1 = (b, st2)" by fastforce
  from adopt_steps [OF first, of D] Cons.IH [OF rest] Cons.prems first rest show ?case
    by (auto split: sum.splits)
qed simp

lemma delete_steps: "p \<in> D \<Longrightarrow> coherence_steps env D (so_db st) (so_db (snd (delete_state p st)))"
  using coherence_step.delete [of p D env "so_db st"] by (simp add: delete_state_def)

lemma deleted_is_gone: "fst (load env now p (snd (delete_state p st))) = Ok None"
proof -
  have "find (\<lambda>r. st_project r = p) (filter (\<lambda>r. st_project r \<noteq> p) rows) = None" for rows :: "state_row list"
    by (simp add: find_None_iff)
  then show ?thesis by (simp add: load_def delete_state_def)
qed

lemma list_all_steps:
  "list_all_projects env now st = (res, st') \<Longrightarrow> coherence_steps env D (so_db st) (so_db st')"
  by (auto simp: list_all_projects_def Let_def split: sum.splits dest: adopt_all_steps)

subsection \<open>Saving\<close>

text \<open>A save of a state whose snapshot is known does not raise.\<close>

lemma save_returns:
  assumes "\<exists>x \<in> set (cd_snapshots (so_db st)). sr_project x = ds_id s \<and> sr_decision x = primary_decision_id (ds_id s) \<and>
      sr_sha x = ii_digest (effective_input_identity (ce_text env) s)"
    and "ds_snapshot s = ii_snapshot (effective_input_identity (ce_text env) s)"
  shows "save env now s st = (Ok (), s, \<lparr>so_mem = (so_mem st)(ds_id s \<mapsto> s),
     so_rows = save_row (ds_id s) (JObj (ce_dump env s)) now (so_rows st),
     so_db = (so_db st)\<lparr>cd_projects := insert (ds_id s) (cd_projects (so_db st))\<rparr>\<rparr>)"
proof -
  have "list_ex (\<lambda>x. sr_project x = ds_id s \<and> sr_decision x = primary_decision_id (ds_id s) \<and>
      sr_sha x = ii_digest (effective_input_identity (ce_text env) s)) (cd_snapshots (so_db st))"
    using assms(1) by (simp add: list_ex_iff)
  moreover have bound: "s\<lparr>ds_snapshot := ii_snapshot (effective_input_identity (ce_text env) s)\<rparr> = s" using assms(2) by simp
  ultimately show ?thesis
    using assms(2) by (simp add: bound save_def bind_effective_input_def insert_input_snapshot_def Let_def)
qed

lemma save_row_finds:
  "find (\<lambda>r. st_project r = p) (save_row p json now rows) =
     Some (case find (\<lambda>r. st_project r = p) rows of
       None \<Rightarrow> \<lparr>st_project = p, st_json = json, st_version = 1, st_updated = now\<rparr>
     | Some r \<Rightarrow> r\<lparr>st_json := json, st_version := st_version r + 1, st_updated := now\<rparr>)"
proof (cases "list_ex (\<lambda>r. st_project r = p) rows")
  case True
  then show ?thesis by (induction rows) (auto simp: save_row_def)
next
  case False
  then have "find (\<lambda>r. st_project r = p) rows = None" by (simp add: list_ex_iff find_None_iff)
  moreover have "find P (xs @ [x]) = (case find P xs of None \<Rightarrow> find P [x] | Some y \<Rightarrow> Some y)" for P and xs :: "state_row list" and x
    by (induction xs) auto
  ultimately show ?thesis using False by (simp add: save_row_def)
qed

subsection \<open>Acceptance\<close>

lemma create_returns:
  assumes "create_candidate env workflow base i now s db = (Ok g, s1, db1)"
  shows "s1 = bound_state env i s" "gi_generation g = i" "gi_snapshot g = ii_snapshot (effective_input_identity (ce_text env) s)"
    "cd_generations db1 i = Some (candidate_row env workflow base i now s)" "cd_generations db i = None"
    "cd_current db1 = cd_current db"
    "\<exists>x \<in> set (cd_snapshots db1). sr_project x = ds_id s \<and> sr_decision x = primary_decision_id (ds_id s) \<and>
      sr_sha x = ii_digest (effective_input_identity (ce_text env) s)"
proof -
  from assms obtain db0 where snap: "insert_input_snapshot (effective_input_identity (ce_text env) s) now db = Ok db0"
    and ins: "insert_generation i (candidate_row env workflow base i now s) db0 = Ok db1"
    and rest: "s1 = bound_state env i s" "gi_generation g = i" "gi_snapshot g = ii_snapshot (effective_input_identity (ce_text env) s)"
    by (auto simp: create_candidate_def Let_def bind_result_eq_Ok split: sum.splits)
  from insert_input_snapshot_step [OF snap] insert_generation_step [OF ins] rest
  show "s1 = bound_state env i s" "gi_generation g = i" "gi_snapshot g = ii_snapshot (effective_input_identity (ce_text env) s)"
    "cd_generations db1 i = Some (candidate_row env workflow base i now s)" "cd_generations db i = None"
    "cd_current db1 = cd_current db"
    "\<exists>x \<in> set (cd_snapshots db1). sr_project x = ds_id s \<and> sr_decision x = primary_decision_id (ds_id s) \<and>
      sr_sha x = ii_digest (effective_input_identity (ce_text env) s)" by auto
qed

lemma candidate_row_simps [simp]:
  "ag_scope (candidate_row env workflow base i now s) = decision_of s" "ag_status (candidate_row env workflow base i now s) = Gen_candidate"
  "ag_base (candidate_row env workflow base i now s) = base" "ag_validated (candidate_row env workflow base i now s) = None"
  "ag_promoted (candidate_row env workflow base i now s) = None" "ag_terminal (candidate_row env workflow base i now s) = None"
  "ag_bootstrap (candidate_row env workflow base i now s) = None"
  "ag_snapshot (candidate_row env workflow base i now s) = ii_snapshot (effective_input_identity (ce_text env) s)"
  "ag_project (candidate_row env workflow base i now s) = ds_id s"
  "ag_json (candidate_row env workflow base i now s) = analysis_state_payload env (bound_state env i s)"
  "is_sha256 (ag_sha (candidate_row env workflow base i now s))"
  by (simp_all add: candidate_row_def Let_def ag_scope_def decision_of_def payload_sha256_def)

text \<open>Giving up a candidate fails it.\<close>

lemma give_up_fails:
  assumes "cd_generations (so_db st) i = Some r" "ag_status r = Gen_candidate" "terminal_shape r"
  shows "give_up Up i now e s st = (Err e, s\<lparr>ds_generation := ''''\<rparr>, st\<lparr>so_db := (so_db st)
    \<lparr>cd_generations := (cd_generations (so_db st))(i \<mapsto> r\<lparr>ag_status := Gen_failed, ag_terminal := Some now\<rparr>)\<rparr>\<rparr>)"
  using assms
  by (simp add: give_up_def abandon_candidate_def db_step_def update_generation_def guard_generation_update_def ag_content_def
      terminal_shape_def)

lemma candidate_validation:
  assumes "cd_generations db i = Some r" "ag_status r = Gen_candidate" "terminal_shape r" "ag_validated r = None"
  shows "validate_candidate env i now db =
    (case stored_complete env (ag_json r) of
       Inl e \<Rightarrow> Err e
     | Inr b \<Rightarrow> if b then Ok (db\<lparr>cd_generations := (cd_generations db)(i \<mapsto> r\<lparr>ag_validated := Some now\<rparr>)\<rparr>)
               else Err (Candidate_not_validated ''candidate analysis is incomplete''))"
  using assms
  by (auto simp: validate_candidate_def db_step_def update_generation_def guard_generation_update_def ag_content_def
      terminal_shape_def bind_result_def split: sum.splits)

lemma promote_cases:
  assumes "cd_generations db i = Some r" "ag_status r = Gen_candidate" "terminal_shape r" "ag_validated r \<noteq> None" "ag_base r = base"
  shows "promote_candidate env i base now db =
    (if current_id db (ag_scope r) = base
     then Ok (db\<lparr>cd_generations := (cd_generations db)(i \<mapsto> r\<lparr>ag_status := Gen_accepted, ag_promoted := Some now\<rparr>),
       cd_current := (cd_current db)(ag_scope r \<mapsto> (i, now))\<rparr>)
     else Err (Stale_promotion ''current analysis changed after candidate creation''))"
proof -
  have "promotion_error env (Db_raised ''current analysis changed after candidate creation'') =
      Stale_promotion ''current analysis changed after candidate creation''"
    by (simp add: promotion_error_def starts_with_def)
  with assms show ?thesis
    by (auto simp: promote_candidate_def promote_analysis_generation_def update_generation_def guard_generation_update_def
        ag_content_def terminal_shape_def guard_current_binding_def ag_scope_updates current_id_def)
qed

text \<open>What acceptance does once the candidate is created.\<close>

definition given_up :: "coherence_db \<Rightarrow> coherence_db \<Rightarrow> string \<Rightarrow> bool" where
  "given_up db db' i \<longleftrightarrow> cd_current db' = cd_current db \<and>
     (case cd_generations db' i of None \<Rightarrow> True | Some r \<Rightarrow> ag_status r = Gen_failed)"

lemma created_accept:
  assumes created: "create_candidate env workflow base i now s (so_db st) = (Ok g, s1, db1)"
    and workflow: "workflow_fingerprint env s version = Ok workflow"
    and run: "accept_completed_analysis env version base i now s st = (res, s', st')"
  shows "(stored_complete env (analysis_state_payload env (bound_state env i s)) = Ok True \<and> current_id (so_db st) (decision_of s) = base \<and>
      res = Ok () \<and> s' = bound_state env i s \<and> current_id (so_db st') (decision_of s) = Some i \<and>
      cd_generations (so_db st') i = Some ((candidate_row env workflow base i now s)
        \<lparr>ag_validated := Some now, ag_status := Gen_accepted, ag_promoted := Some now\<rparr>) \<and>
      so_rows st' = save_row (ds_id s) (JObj (ce_dump env s')) now (so_rows st)) \<or>
    ((stored_complete env (analysis_state_payload env (bound_state env i s)) \<noteq> Ok True \<or> current_id (so_db st) (decision_of s) \<noteq> base) \<and>
      (\<exists>e. res = Err e \<and> (stored_complete env (analysis_state_payload env (bound_state env i s)) = Ok True \<longrightarrow>
         e = Stale_promotion ''current analysis changed after candidate creation'')) \<and>
      ds_generation s' = '''' \<and> given_up (so_db st) (so_db st') i \<and> cd_generations (so_db st') i \<noteq> None \<and>
      so_rows st' = so_rows st)"
proof -
  let ?r = "candidate_row env workflow base i now s" and ?json = "analysis_state_payload env (bound_state env i s)"
  let ?v = "?r\<lparr>ag_validated := Some now\<rparr>" and ?p = "?r\<lparr>ag_validated := Some now, ag_status := Gen_accepted, ag_promoted := Some now\<rparr>"
  note c = create_returns [OF created]
  have shape: "terminal_shape ?r" "terminal_shape ?v" by (simp_all add: terminal_shape_def)
  have validate: "validate_candidate env i now db1 = (case stored_complete env ?json of Inl e \<Rightarrow> Err e
      | Inr b \<Rightarrow> if b then Ok (db1\<lparr>cd_generations := (cd_generations db1)(i \<mapsto> ?v)\<rparr>)
                else Err (Candidate_not_validated ''candidate analysis is incomplete''))"
    using candidate_validation [OF c(4) _ shape(1)] by simp
  show ?thesis
  proof (cases "stored_complete env ?json = Ok True")
    case False
    then obtain e where e: "validate_candidate env i now db1 = Err e"
      using validate by (cases "stored_complete env ?json") auto
    have "(res, s', st') = give_up Up i now e s1 (st\<lparr>so_db := db1\<rparr>)"
      using run created workflow c(2) e by (simp add: accept_completed_eq)
    also have "\<dots> = (Err e, s1\<lparr>ds_generation := ''''\<rparr>, st\<lparr>so_db := db1
        \<lparr>cd_generations := (cd_generations db1)(i \<mapsto> ?r\<lparr>ag_status := Gen_failed, ag_terminal := Some now\<rparr>)\<rparr>\<rparr>)"
      using give_up_fails [of "st\<lparr>so_db := db1\<rparr>" i ?r now e s1] c(4) shape by simp
    finally show ?thesis using False c(6) by (simp add: given_up_def)
  next
    case True
    let ?db2 = "db1\<lparr>cd_generations := (cd_generations db1)(i \<mapsto> ?v)\<rparr>"
    have current: "current_id ?db2 (decision_of s) = current_id (so_db st) (decision_of s)" using c(6) by (simp add: current_id_def)
    have promote: "promote_candidate env i base now ?db2 =
        (if current_id (so_db st) (decision_of s) = base
         then Ok (?db2\<lparr>cd_generations := (cd_generations ?db2)(i \<mapsto> ?p), cd_current := (cd_current ?db2)(decision_of s \<mapsto> (i, now))\<rparr>)
         else Err (Stale_promotion ''current analysis changed after candidate creation''))"
      using promote_cases [of ?db2 i ?v base env now] shape current by (simp add: ag_scope_updates)
    have v: "validate_candidate env i now db1 = Ok ?db2" using validate True by simp
    show ?thesis
    proof (cases "current_id (so_db st) (decision_of s) = base")
      case False
      let ?e = "Stale_promotion ''current analysis changed after candidate creation''"
      have "(res, s', st') = give_up Up i now ?e s1 (st\<lparr>so_db := ?db2\<rparr>)"
        using run created workflow c(2) v promote False by (simp add: accept_completed_eq)
      also have "\<dots> = (Err ?e, s1\<lparr>ds_generation := ''''\<rparr>, st\<lparr>so_db := ?db2
          \<lparr>cd_generations := (cd_generations ?db2)(i \<mapsto> ?v\<lparr>ag_status := Gen_failed, ag_terminal := Some now\<rparr>)\<rparr>\<rparr>)"
        using give_up_fails [of "st\<lparr>so_db := ?db2\<rparr>" i ?v now ?e s1] shape by simp
      finally show ?thesis using False c(6) by (simp add: given_up_def)
    next
      case base: True
      let ?db3 = "?db2\<lparr>cd_generations := (cd_generations ?db2)(i \<mapsto> ?p), cd_current := (cd_current ?db2)(decision_of s \<mapsto> (i, now))\<rparr>"
      have bound: "s1\<lparr>ds_generation := i, ds_snapshot := gi_snapshot g\<rparr> = bound_state env i s"
        using c(1,3) by (simp add: bound_state_def)
      have "(res, s', st') = save env now (bound_state env i s) (st\<lparr>so_db := ?db3\<rparr>)"
        using run created workflow c(2) v promote base bound by (simp add: accept_completed_eq)
      also have "\<dots> = (Ok (), bound_state env i s, \<lparr>so_mem = (so_mem st)(ds_id s \<mapsto> bound_state env i s),
          so_rows = save_row (ds_id s) (JObj (ce_dump env (bound_state env i s))) now (so_rows st),
          so_db = ?db3\<lparr>cd_projects := insert (ds_id s) (cd_projects ?db3)\<rparr>\<rparr>)"
        using save_returns [of "st\<lparr>so_db := ?db3\<rparr>" "bound_state env i s" env now] c(7) by (simp add: bound_state_def)
      finally show ?thesis using True base by (simp add: current_id_def)
    qed
  qed
qed

lemma transact_steps:
  assumes "transact c f db r = (x, db')" "\<And>db1. r = Ok db1 \<Longrightarrow> coherence_step env D db db1"
  shows "coherence_steps env D db db'"
  using assms(1) by (cases rule: transact_cases) (use assms(2) in auto)

lemma give_up_steps:
  assumes "give_up c i now e s st = (res, s', st')"
  shows "coherence_steps env D (so_db st) (so_db st')"
proof -
  obtain x db1 where t: "transact c (\<lambda>m. Db_failure (Db_raised m)) (so_db st) (abandon_candidate i True now (so_db st)) = (x, db1)"
    by fastforce
  then have "coherence_steps env D (so_db st) db1" by (rule transact_steps) (rule coherence_step.abandon)
  then show ?thesis using assms t by (auto simp: give_up_def split: sum.splits coherence_error.splits)
qed

lemma create_over_cases:
  assumes "create_over c env workflow base i now s db = (a, s1, db1)"
  obtains (fine) g where "c = Up" "a = Ok g" "create_candidate env workflow base i now s db = (Ok g, s1, db1)"
  | (failed) e where "a = Err e" "db1 = db"
  | (committed) e g s2 where "a = Err e" "create_candidate env workflow base i now s db = (Ok g, s2, db1)"
proof (cases c)
  case Up
  with assms have "create_candidate env workflow base i now s db = (a, s1, db1)" by (simp add: create_over_def)
  with Up that show ?thesis by (cases a) (auto dest: create_error)
qed (use assms that in \<open>auto simp: create_over_def split: prod.splits sum.splits dest: create_error\<close>)

lemma save_over_cases:
  assumes "save_over c env now s st = (res, s', st')"
  obtains (fine) "c = Up" "save env now s st = (res, s', st')"
  | (failed) e where "res = Err e" "c \<noteq> Up" "st' = st"
  | (committed) e m st1 where "res = Err e" "c = Lost_after m" "save env now s st = (Ok (), s', st1)"
      "so_rows st' = so_rows st1" "so_db st' = so_db st1"
proof -
  have "st1 = st" if "save env now s st = (Err e, s1, st1)" for e s1 st1
    using that by (auto simp: save_def Let_def split: prod.splits sum.splits)
  with assms that show ?thesis
    by (auto simp: save_over_def split: connection.splits prod.splits sum.splits)
qed

lemma accept_steps:
  assumes run: "accept_over link env version base i now s st = (res, s', st')"
  shows "coherence_steps env D (so_db st) (so_db st')"
proof (cases "workflow_fingerprint env s version")
  case (Inl e)
  with run show ?thesis by (simp add: accept_over_def)
next
  case workflow: (Inr w)
  obtain a s1 db1 where created: "create_over (link At_create) env w base i now s (so_db st) = (a, s1, db1)" by (metis prod_cases3)
  then have first: "coherence_steps env D (so_db st) db1"
    by (cases rule: create_over_cases) (auto intro: coherence_step.create)
  show ?thesis
  proof (cases a)
    case (Inl e)
    with run created workflow first show ?thesis by (auto simp: accept_over_def)
  next
    case (Inr g)
    let ?g = "gi_generation g"
    obtain x db2 where v: "transact (link At_validate) (\<lambda>m. Db_failure (Db_raised m)) db1 (validate_candidate env ?g now db1) = (x, db2)"
      by fastforce
    then have "coherence_steps env D db1 db2" by (rule transact_steps) (rule coherence_step.validate)
    with first have second: "coherence_steps env D (so_db st) db2" by (rule rtranclp_trans)
    obtain y db3 where p: "transact (link At_promote) (\<lambda>m. promotion_error env (Db_raised m)) db2 (promote_candidate env ?g base now db2) = (y, db3)"
      by fastforce
    then have "coherence_steps env D db2 db3" by (rule transact_steps) (rule coherence_step.promote)
    with second have third: "coherence_steps env D (so_db st) db3" by (rule rtranclp_trans)
    note give_up = give_up_steps [of "link At_abandon" ?g now _ s1 _ res s' st']
    show ?thesis
    proof (cases x)
      case (Inl e)
      then have "give_up (link At_abandon) ?g now e s1 (st\<lparr>so_db := db2\<rparr>) = (res, s', st')"
        using run created workflow Inr v by (simp add: accept_over_def)
      from give_up [OF this] second show ?thesis by (auto intro: rtranclp_trans)
    next
      case validated: (Inr u)
      show ?thesis
      proof (cases y)
        case (Inl e)
        then have "give_up (link At_abandon) ?g now e s1 (st\<lparr>so_db := db3\<rparr>) = (res, s', st')"
          using run created workflow Inr v p validated by (simp add: accept_over_def)
        from give_up [OF this] third show ?thesis by (auto intro: rtranclp_trans)
      next
        case promoted: (Inr u)
        then have "save_over (link At_save) env now (s1\<lparr>ds_generation := ?g, ds_snapshot := gi_snapshot g\<rparr>) (st\<lparr>so_db := db3\<rparr>) = (res, s', st')"
          using run created workflow Inr v p validated by (simp add: accept_over_def)
        then have "coherence_steps env D db3 (so_db st')"
          by (cases rule: save_over_cases) (auto dest: save_steps)
        with third show ?thesis by (rule rtranclp_trans)
      qed
    qed
  qed
qed

lemma accept_completed_steps:
  "accept_completed_analysis env version base i now s st = (res, s', st') \<Longrightarrow> coherence_steps env D (so_db st) (so_db st')"
  unfolding accept_completed_analysis_def by (rule accept_steps)

lemma kept_chain:
  assumes "keeps_rows {} db db'" "is_history db k hist"
  shows "chain (cd_generations db') k (current_id db k) hist"
proof (rule chain_frame [of _ "cd_generations db"])
  fix i r assume "ag_status r = Gen_accepted" "cd_generations db i = Some r"
  then show "cd_generations db' i = Some r" using assms(1) unfolding keeps_rows_def by force
qed (use assms(2) in \<open>simp add: is_history_def\<close>)

text \<open>Giving up leaves a candidate not accepted, and an accepted generation as it is.\<close>

lemma give_up_open:
  assumes "give_up c i now e s u = (res, s', u')" "cd_generations (so_db u) i = Some r" "ag_status r = Gen_candidate" "terminal_shape r"
  shows "cd_current (so_db u') = cd_current (so_db u) \<and> so_rows u' = so_rows u \<and>
    (\<exists>r'. cd_generations (so_db u') i = Some r' \<and> ag_status r' \<noteq> Gen_accepted)"
proof -
  have "abandon_candidate i True now (so_db u) =
      Ok ((so_db u)\<lparr>cd_generations := (cd_generations (so_db u))(i \<mapsto> r\<lparr>ag_status := Gen_failed, ag_terminal := Some now\<rparr>)\<rparr>)"
    using assms(2-4)
    by (simp add: abandon_candidate_def db_step_def update_generation_def guard_generation_update_def ag_content_def
        terminal_shape_def)
  with assms(1-3) show ?thesis by (auto simp: give_up_def transact_def split: connection.splits)
qed

lemma give_up_accepted:
  assumes "give_up c i now e s u = (res, s', u')" "cd_generations (so_db u) i = Some r" "ag_status r = Gen_accepted"
  shows "so_db u' = so_db u \<and> so_rows u' = so_rows u"
  using assms by (auto simp: give_up_def transact_def abandon_candidate_def split: connection.splits)

text \<open>How an acceptance ends that raises: the candidate is not accepted, or the promotion had committed.\<close>

definition not_accepted :: "store \<Rightarrow> store \<Rightarrow> string \<Rightarrow> bool" where
  "not_accepted st st' i \<longleftrightarrow> cd_current (so_db st') = cd_current (so_db st) \<and> so_rows st' = so_rows st \<and>
     (\<forall>r. cd_generations (so_db st') i = Some r \<longrightarrow> ag_status r \<noteq> Gen_accepted)"

lemma accept_over_Err:
  assumes run: "accept_over link env version base i now s st = (Err e, s', st')" and free: "cd_generations (so_db st) i = None"
  shows "not_accepted st st' i \<or>
    (stored_complete env (analysis_state_payload env (bound_state env i s)) = Ok True \<and> current_id (so_db st) (decision_of s) = base \<and>
     current_id (so_db st') (decision_of s) = Some i \<and>
     (\<exists>w. cd_generations (so_db st') i = Some ((candidate_row env w base i now s)
        \<lparr>ag_validated := Some now, ag_status := Gen_accepted, ag_promoted := Some now\<rparr>)) \<and>
     ((\<exists>m. link At_promote = Lost_after m) \<or> link At_save \<noteq> Up) \<and>
     (so_rows st' = so_rows st \<or> (\<exists>m. link At_save = Lost_after m)))"
proof (cases "workflow_fingerprint env s version")
  case (Inl e)
  with run free show ?thesis by (simp add: accept_over_def not_accepted_def)
next
  case workflow: (Inr w)
  let ?r = "candidate_row env w base i now s" and ?json = "analysis_state_payload env (bound_state env i s)"
  let ?v = "?r\<lparr>ag_validated := Some now\<rparr>" and ?p = "?r\<lparr>ag_validated := Some now, ag_status := Gen_accepted, ag_promoted := Some now\<rparr>"
  have shape: "terminal_shape ?r" "terminal_shape ?v" by (simp_all add: terminal_shape_def)
  obtain a s1 db1 where created: "create_over (link At_create) env w base i now s (so_db st) = (a, s1, db1)" by (metis prod_cases3)
  from created show ?thesis
  proof (cases rule: create_over_cases)
    case (failed e)
    with run created workflow free show ?thesis by (simp add: accept_over_def not_accepted_def)
  next
    case (committed e g s2)
    then have "st' = st\<lparr>so_db := db1\<rparr>" using run created workflow by (simp add: accept_over_def)
    with create_returns(4,6) [OF committed(2)] show ?thesis by (intro disjI1) (simp add: not_accepted_def)
  next
    case (fine g)
    note c = create_returns [OF fine(3)]
    let ?db2 = "db1\<lparr>cd_generations := (cd_generations db1)(i \<mapsto> ?v)\<rparr>"
    obtain x db2 where v: "transact (link At_validate) (\<lambda>m. Db_failure (Db_raised m)) db1 (validate_candidate env i now db1) = (x, db2)"
      by fastforce
    have validate: "validate_candidate env i now db1 = Ok d \<Longrightarrow> stored_complete env ?json = Ok True \<and> d = ?db2" for d
      using candidate_validation [OF c(4) _ shape(1)] by (auto split: sum.splits if_splits)
    show ?thesis
    proof (cases x)
      case (Inl e)
      then have given: "give_up (link At_abandon) i now e s1 (st\<lparr>so_db := db2\<rparr>) = (Err e, s', st') \<or>
          (\<exists>e'. give_up (link At_abandon) i now e s1 (st\<lparr>so_db := db2\<rparr>) = (Err e', s', st'))"
        using run created workflow fine v c(2) by (auto simp: accept_over_def)
      from v have "db2 = db1 \<or> db2 = ?db2" using validate Inl by (cases rule: transact_cases) auto
      then have "\<exists>r. cd_generations db2 i = Some r \<and> ag_status r = Gen_candidate \<and> terminal_shape r"
        "cd_current db2 = cd_current db1"
        using c(4) shape by auto
      with give_up_open [of "link At_abandon" i now e s1 "st\<lparr>so_db := db2\<rparr>"] given c(6) show ?thesis
        by (fastforce simp: not_accepted_def)
    next
      case (Inr u)
      from v have v': "db2 = ?db2" "stored_complete env ?json = Ok True"
        using validate Inr by (cases rule: transact_cases; auto)+
      let ?db3 = "?db2\<lparr>cd_generations := (cd_generations ?db2)(i \<mapsto> ?p), cd_current := (cd_current ?db2)(decision_of s \<mapsto> (i, now))\<rparr>"
      have current: "current_id ?db2 (decision_of s) = current_id (so_db st) (decision_of s)" using c(6) by (simp add: current_id_def)
      have promote: "promote_candidate env i base now ?db2 =
          (if current_id (so_db st) (decision_of s) = base then Ok ?db3
           else Err (Stale_promotion ''current analysis changed after candidate creation''))"
        using promote_cases [of ?db2 i ?v base env now] shape current by (simp add: ag_scope_updates)
      obtain y db3 where p: "transact (link At_promote) (\<lambda>m. promotion_error env (Db_raised m)) db2 (promote_candidate env i base now db2) = (y, db3)"
        by fastforce
      note prefix = run created workflow fine v Inr p c(2)
      show ?thesis
      proof (cases y)
        case Inl_y: (Inl e')
        then obtain e'' where given: "give_up (link At_abandon) i now e' s1 (st\<lparr>so_db := db3\<rparr>) = (Err e'', s', st')"
          using prefix by (simp add: accept_over_def)
        from p show ?thesis
        proof (cases rule: transact_cases)
          case (committed f m)
          then have "current_id (so_db st) (decision_of s) = base" "db3 = ?db3" using promote v'(1) by (auto split: if_splits)
          with give_up_accepted [OF given, of ?p] committed v'(2) show ?thesis by (simp add: current_id_def) blast
        next
          case (failed f)
          with give_up_open [OF given, of ?v] v'(1) shape c(6) show ?thesis by (auto simp: not_accepted_def)
        qed (use Inl_y in simp)
      next
        case Inr_y: (Inr u')
        from p have "current_id (so_db st) (decision_of s) = base \<and> db3 = ?db3"
          using promote v'(1) Inr_y by (cases rule: transact_cases) (auto split: if_splits)
        then have base: "current_id (so_db st) (decision_of s) = base" and db3: "db3 = ?db3" by blast+
        have bound: "s1\<lparr>ds_generation := i, ds_snapshot := gi_snapshot g\<rparr> = bound_state env i s"
          using c(1,3) by (simp add: bound_state_def)
        have saving: "save_over (link At_save) env now (bound_state env i s) (st\<lparr>so_db := ?db3\<rparr>) = (Err e, s', st')"
          using prefix Inr_y db3 bound by (simp add: accept_over_def)
        have saved: "save env now (bound_state env i s) (st\<lparr>so_db := ?db3\<rparr>) =
            (Ok (), bound_state env i s, \<lparr>so_mem = (so_mem st)(ds_id s \<mapsto> bound_state env i s),
              so_rows = save_row (ds_id s) (JObj (ce_dump env (bound_state env i s))) now (so_rows st),
              so_db = ?db3\<lparr>cd_projects := insert (ds_id s) (cd_projects ?db3)\<rparr>\<rparr>)"
          using save_returns [of "st\<lparr>so_db := ?db3\<rparr>" "bound_state env i s" env now] c(7) by (simp add: bound_state_def)
        have "current_id (so_db st') (decision_of s) = Some i \<and> cd_generations (so_db st') i = Some ?p \<and> link At_save \<noteq> Up \<and>
            (so_rows st' = so_rows st \<or> (\<exists>m. link At_save = Lost_after m))"
          using saving by (cases rule: save_over_cases) (insert saved, auto simp: current_id_def)
        with base v'(2) show ?thesis by blast
      qed
    qed
  qed
qed


text \<open>The check of acceptance is the check by which the runner ends a run.\<close>

lemma complete_check_eq: "is_complete_analysis s = is_workflow_complete (ds_project s)"
proof -
  let ?t = "ds_project s"
  have phase: "(phase_status ?t p = Some COMPLETED \<and> phase_has_output ?t p) = (\<not> phase_unfinished ?t p)" for p
    by (cases "phase_status ?t p"; cases "the (phase_status ?t p)")
      (auto simp: phase_unfinished_def status_of_def dict_get_def UNFINISHED_PHASE_STATUSES_def)
  have "list_all (\<lambda>p. \<not> phase_unfinished ?t p) seq = (find (phase_unfinished ?t) seq = None)" for seq
    by (auto simp: find_None_iff list_all_iff)
  then show ?thesis
    by (cases "workflow_phase_sequence_for_state ?t")
      (simp_all add: is_complete_analysis_def is_workflow_complete_def get_first_unfinished_phase_def phase)
qed

text \<open>Identifiers of snapshots that are digests do not collide with those in the table.\<close>

definition snapshot_fresh :: "input_identity \<Rightarrow> coherence_db \<Rightarrow> bool" where
  "snapshot_fresh c db \<longleftrightarrow> list_all (\<lambda>x. (sr_id x = ii_snapshot c) =
     (sr_project x = ii_project c \<and> sr_decision x = ii_decision c \<and> sr_sha x = ii_digest c)) (cd_snapshots db)"

lemma create_succeeds:
  assumes "ds_id s \<in> cd_projects db" "cd_generations db i = None" "snapshot_fresh (effective_input_identity (ce_text env) s) db"
    and "base = None \<or> (\<exists>b q. base = Some b \<and> cd_generations db b = Some q \<and> ag_scope q = decision_of s)"
  shows "\<exists>g db1. create_candidate env w base i now s db = (Ok g, bound_state env i s, db1)"
proof -
  let ?c = "effective_input_identity (ce_text env) s" and ?r = "candidate_row env w base i now s"
  obtain db1 where snap: "insert_input_snapshot ?c now db = Ok db1"
    using assms(1,3) by (fastforce simp: insert_input_snapshot_def snapshot_fresh_def list_all_iff list_ex_iff split: if_splits)
  have known: "\<exists>x \<in> set (cd_snapshots db1). sr_id x = ii_snapshot ?c \<and> (sr_project x, sr_decision x) = decision_of s"
    using snap assms(3)
    by (auto simp: insert_input_snapshot_def snapshot_fresh_def list_all_iff list_ex_iff decision_of_def split: if_splits)
  have "ds_id s \<in> cd_projects db1" using snap assms(1) by (auto simp: insert_input_snapshot_def split: if_splits)
  then have "insert_generation i ?r db1 = Ok (db1\<lparr>cd_generations := (cd_generations db1)(i \<mapsto> ?r)\<rparr>)"
    using known assms(2,4) insert_input_snapshot_step(1) [OF snap]
    by (auto simp: insert_generation_def terminal_shape_def list_ex_iff split: option.splits)
  with snap show ?thesis by (simp add: create_candidate_def Let_def)
qed

text \<open>C24: a run that the runner ends as complete is accepted. If the run started from the current generation
  (or from none), the project was saved, and the dump of its state validates to the same project
  again, then acceptance returns and the run's analysis is the current one.\<close>

theorem complete_run_accepted:
  assumes "coherence_steps env UNIV empty_db (so_db st)"
    and "is_workflow_complete (ds_project s) = Ok True"
    and "ce_validate env (json_member ''state'' (analysis_state_payload env (bound_state env i s))) = Ok t" "ds_project t = ds_project s"
    and "ds_id s \<in> cd_projects (so_db st)" "cd_generations (so_db st) i = None"
    and "snapshot_fresh (effective_input_identity (ce_text env) s) (so_db st)"
  shows "\<exists>s' st'. accept_completed_analysis env version (current_generation_id s st) i now s st = (Ok (), s', st') \<and>
    current_generation_id s st' = Some i"
proof -
  have ok: "coherence_ok env (so_db st)" using reachable_ok assms(1) by blast
  let ?base = "current_generation_id s st"
  have current: "current_generation_id s u = current_id (so_db u) (decision_of s)" if "coherence_ok env (so_db u)" for u
    using that current_accepted [of "so_db u" "decision_of s"]
    by (auto simp: current_generation_id_def current_generation_def decision_of_def coherence_ok_def accepted_in_iff split: option.splits)
  obtain seq where seq: "workflow_phase_sequence_for_state (ds_project s) = Ok seq"
    using assms(2) by (auto simp: is_workflow_complete_def get_first_unfinished_phase_def)
  then obtain w where w: "workflow_fingerprint env s version = Ok w" by (simp add: workflow_fingerprint_def)
  have "?base = None \<or> (\<exists>b q. ?base = Some b \<and> cd_generations (so_db st) b = Some q \<and> ag_scope q = decision_of s)"
  proof (cases ?base)
    case (Some b)
    then have "current_id (so_db st) (decision_of s) = Some b" using current [OF ok] by simp
    then have "accepted_in (so_db st) (decision_of s) b" using current_accepted ok unfolding coherence_ok_def by blast
    with Some show ?thesis by (auto simp: accepted_in_iff)
  qed simp
  from create_succeeds [OF assms(5-7) this] obtain g db1 where
    created: "create_candidate env w ?base i now s (so_db st) = (Ok g, bound_state env i s, db1)" by blast
  have "is_complete_analysis t = Ok True" using assms(2,4) by (simp add: complete_check_eq)
  then have complete: "stored_complete env (analysis_state_payload env (bound_state env i s)) = Ok True"
    using assms(3) by (simp add: stored_complete_def)
  obtain res s' st' where run: "accept_completed_analysis env version ?base i now s st = (res, s', st')" by (metis prod_cases3)
  from created_accept [OF created w run] complete current [OF ok]
  have "res = Ok ()" "current_id (so_db st') (decision_of s) = Some i" by auto
  moreover have "coherence_ok env (so_db st')" using steps_ok [OF accept_completed_steps [OF run] ok] by blast
  ultimately show ?thesis using run current by auto
qed

subsection \<open>Listing the projects during a run\<close>

lemma steps_current:
  assumes "coherence_steps env {} db db'" "coherence_ok env db" "current_id db k \<noteq> None"
  shows "current_id db' k \<noteq> None"
proof -
  obtain hist where hist: "is_history db k hist" using assms(2) by (rule coherence_okE)
  then have "hist \<noteq> []" using history_head [OF hist] assms(3) by (auto simp: log_head_def)
  moreover obtain new where "is_history db' k (new @ hist)" using steps_history [OF assms(1,2) hist] by blast
  ultimately show ?thesis using history_head by (cases new; cases hist) (auto simp: log_head_def)
qed

text \<open>The baseline made of a state that was read from the table.\<close>

definition baseline_of :: "coherence_env \<Rightarrow> coherence_db \<Rightarrow> decision_state \<Rightarrow> string \<Rightarrow> bool" where
  "baseline_of env db t b \<longleftrightarrow>
     (\<exists>r. cd_generations db b = Some r \<and> ag_scope r = decision_of t \<and> ag_status r = Gen_accepted \<and> ag_base r = None \<and>
        ag_bootstrap r = Some ''legacy_baseline'' \<and>
        ag_json r = analysis_state_payload env (t\<lparr>ds_snapshot := ii_snapshot (effective_input_identity (ce_text env) t)\<rparr>))"

lemma save_tables:
  assumes "save env now s st = (res, s', st')"
  shows "cd_current (so_db st') = cd_current (so_db st)" "cd_generations (so_db st') = cd_generations (so_db st)"
  using assms
  by (auto simp: save_def bind_effective_input_def Let_def split: sum.splits dest: insert_input_snapshot_step(1) insert_input_snapshot_step(2))

lemma adopt_tables:
  assumes "adopt env now p s st = (Ok t, st')"
  obtains "cd_current (so_db st') = cd_current (so_db st)" "is_complete_analysis s \<noteq> Ok True \<or> ds_generation s \<noteq> ''''"
  | i s1 db1 where "is_complete_analysis s = Ok True" "ds_generation s = ''''"
      "bootstrap_current_analysis env now s (so_db st) = (Ok i, s1, db1)"
      "cd_current (so_db st') = cd_current db1" "cd_generations (so_db st') = cd_generations db1"
proof (cases "is_complete_analysis s = Ok True \<and> ds_generation s = ''''")
  case False
  with assms that(1) show ?thesis by (auto simp: adopt_def Let_def split: sum.splits if_splits)
next
  case True
  obtain b s1 db1 where boot: "bootstrap_current_analysis env now s (so_db st) = (b, s1, db1)" by (metis prod_cases3)
  with assms True obtain i where i: "b = Ok i" by (cases b) (auto simp: adopt_def Let_def)
  obtain c s2 st2 where saved: "save env now (s1\<lparr>ds_generation := i\<rparr>) (st\<lparr>so_db := db1\<rparr>) = (c, s2, st2)"
    by (metis prod_cases3)
  have "cd_current (so_db st') = cd_current db1 \<and> cd_generations (so_db st') = cd_generations db1"
    using assms True boot i saved save_tables [OF saved]
    by (auto simp: adopt_def Let_def split: sum.splits if_splits)
  with True boot i that(2) show ?thesis by blast
qed

lemma boot_analysis:
  assumes "bootstrap_current_analysis env now s db = (Ok i, s1, db1)"
  obtains j sha found where
    "bootstrap_analysis_generation (effective_input_identity (ce_text env) s) j sha
       (analysis_state_payload env (s\<lparr>ds_snapshot := ii_snapshot (effective_input_identity (ce_text env) s)\<rparr>)) now db = Ok (db1, found)"
  using assms by (auto simp: bootstrap_current_analysis_def Let_def split: sum.splits bool.splits)

lemma adopt_other:
  assumes "coherence_ok env (so_db st)" "adopt env now p s st = (Ok t, st')" "k \<noteq> decision_of s"
  shows "current_id (so_db st') k = current_id (so_db st) k"
  using assms(2)
proof (cases rule: adopt_tables)
  case (2 i s1 db1)
  from 2(3) obtain j sha found where "bootstrap_analysis_generation (effective_input_identity (ce_text env) s) j sha
       (analysis_state_payload env (s\<lparr>ds_snapshot := ii_snapshot (effective_input_identity (ce_text env) s)\<rparr>)) now (so_db st) = Ok (db1, found)"
    by (rule boot_analysis)
  from bootstrap_step [OF assms(1) this] 2(4) assms(3) show ?thesis by (auto simp: current_id_def decision_of_def)
qed (simp add: current_id_def)

lemma adopt_baseline:
  assumes "coherence_ok env (so_db st)" "adopt env now p s st = (Ok t, st')"
    and "is_complete_analysis s = Ok True" "ds_generation s = ''''" "current_id (so_db st) (decision_of s) = None"
  shows "\<exists>b. current_id (so_db st') (decision_of s) = Some b \<and> baseline_of env (so_db st') s b"
  using assms(2)
proof (cases rule: adopt_tables)
  case (2 i s1 db1)
  from 2(3) obtain j sha found where "bootstrap_analysis_generation (effective_input_identity (ce_text env) s) j sha
       (analysis_state_payload env (s\<lparr>ds_snapshot := ii_snapshot (effective_input_identity (ce_text env) s)\<rparr>)) now (so_db st) = Ok (db1, found)"
    by (rule boot_analysis)
  from bootstrap_step [OF assms(1) this] 2(4,5) assms(5) show ?thesis
    by (auto simp: current_id_def decision_of_def baseline_of_def)
qed (use assms(3,4) in simp)

lemma adopt_all_other:
  assumes "adopt_all env now ss st = (Ok ts, st')" "coherence_ok env (so_db st)" "fst k \<notin> ds_id ` set ss"
  shows "current_id (so_db st') k = current_id (so_db st) k"
  using assms
proof (induction ss arbitrary: st ts)
  case (Cons u ss)
  obtain a st1 where first: "adopt env now (ds_id u) u st = (a, st1)" by fastforce
  with Cons.prems(1) obtain t where a: "a = Ok t" by (cases a) auto
  obtain b where rest: "adopt_all env now ss st1 = (b, st')" using Cons.prems(1) first a by (auto split: prod.splits)
  with Cons.prems(1) first a obtain us where b: "b = Ok us" by (cases b) auto
  have "coherence_ok env (so_db st1)" using steps_ok [OF adopt_steps [OF first] Cons.prems(2)] by blast
  moreover have "k \<noteq> decision_of u" using Cons.prems(3) by (auto simp: decision_of_def)
  ultimately show ?case
    using Cons.IH [of st1 us] rest b Cons.prems(3) adopt_other [OF Cons.prems(2)] first a by simp
qed simp

text \<open>Listing a complete state of a decision without a current generation makes it the baseline.\<close>

lemma adopt_all_baseline:
  assumes "adopt_all env now ss st = (Ok ts, st')" "coherence_ok env (so_db st)" "t \<in> set ss" "distinct (map ds_id ss)"
    and "is_complete_analysis t = Ok True" "ds_generation t = ''''" "current_id (so_db st) (decision_of t) = None"
  shows "\<exists>b. current_id (so_db st') (decision_of t) = Some b \<and> baseline_of env (so_db st') t b"
  using assms
proof (induction ss arbitrary: st ts)
  case (Cons u ss)
  obtain a st1 where first: "adopt env now (ds_id u) u st = (a, st1)" by fastforce
  with Cons.prems(1) obtain v where a: "a = Ok v" by (cases a) auto
  obtain b where rest: "adopt_all env now ss st1 = (b, st')" using Cons.prems(1) first a by (auto split: prod.splits)
  with Cons.prems(1) first a obtain us where b: "b = Ok us" by (cases b) auto
  have ok: "coherence_ok env (so_db st1)" using steps_ok [OF adopt_steps [OF first] Cons.prems(2)] by blast
  note step = Cons.prems(2) first [unfolded a]
  show ?case
  proof (cases "t = u")
    case True
    then obtain g where g: "current_id (so_db st1) (decision_of t) = Some g" "baseline_of env (so_db st1) t g"
      using adopt_baseline [OF step] Cons.prems(5-7) True by blast
    have "fst (decision_of t) \<notin> ds_id ` set ss" using Cons.prems(4) True by (simp add: decision_of_def)
    with adopt_all_other [OF rest [unfolded b] ok] g(1) have "current_id (so_db st') (decision_of t) = Some g" by simp
    moreover have "keeps_rows {} (so_db st1) (so_db st')" using steps_ok [OF adopt_all_steps [OF rest] ok] by blast
    then have "baseline_of env (so_db st') t g"
      using g(2) unfolding baseline_of_def keeps_rows_def by fastforce
    ultimately show ?thesis by blast
  next
    case False
    then have t: "t \<in> set ss" using Cons.prems(3) by simp
    have "ds_id t \<in> ds_id ` set ss" using t by (rule imageI)
    moreover have "ds_id u \<notin> ds_id ` set ss" using Cons.prems(4) by simp
    ultimately have "ds_id t \<noteq> ds_id u" by metis
    then have "current_id (so_db st1) (decision_of t) = None"
      using adopt_other [OF step, of "decision_of t"] Cons.prems(7) by (simp add: decision_of_def)
    then show ?thesis using Cons.IH [OF rest [unfolded b] ok t] Cons.prems(4-6) by simp
  qed
qed simp

lemma baseline_history:
  assumes "current_id db (decision_of t) = Some b" "baseline_of env db t b"
  shows "is_history db (decision_of t) [b]"
  using assms by (auto simp: is_history_def baseline_of_def)

text \<open>C28: a listing of the projects can take the place of a first acceptance. The runner saves a complete
  state before it is accepted. When the projects are listed in between, the listing makes that saved
  state the current generation of its decision, as the baseline of an analysis from before the tables
  existed; the acceptance of the run, which started without a current generation and whose
  analysis is complete, is then refused as stale, its candidate fails, and the baseline stays current.\<close>

theorem listing_defeats_first_acceptance:
  assumes "coherence_steps env UNIV empty_db (so_db st)" "current_id (so_db st) (decision_of s) = None"
    and "list_all_projects env now st = (Ok ts, st1)"
    and "all_results (map (\<lambda>r. ce_validate env (st_json r)) (take 200 (sort_key (\<lambda>r. - st_updated r) (so_rows st)))) = Ok ss"
    and "distinct (map ds_id ss)" "t \<in> set ss" "is_complete_analysis t = Ok True" "ds_generation t = ''''" "ds_id t = ds_id s"
    and "workflow_fingerprint env s version = Ok w"
    and "stored_complete env (analysis_state_payload env (bound_state env i s)) = Ok True"
    and "ds_id s \<in> cd_projects (so_db st1)" "cd_generations (so_db st1) i = None"
      "snapshot_fresh (effective_input_identity (ce_text env) s) (so_db st1)"
    and "accept_completed_analysis env version None i now' s st1 = (res, s', st')"
  shows "\<exists>b. baseline_of env (so_db st1) t b \<and> is_history (so_db st1) (decision_of s) [b] \<and>
    res = Err (Stale_promotion ''current analysis changed after candidate creation'') \<and>
    is_history (so_db st') (decision_of s) [b] \<and> map_option ag_status (cd_generations (so_db st') i) = Some Gen_failed"
proof -
  have ok: "coherence_ok env (so_db st)" using reachable_ok assms(1) by blast
  have same: "decision_of t = decision_of s" using assms(9) by (simp add: decision_of_def)
  have listed: "adopt_all env now ss st = (Ok ts, st1)" using assms(3,4) by (simp add: list_all_projects_def Let_def)
  from adopt_all_baseline [OF this ok assms(6,5,7,8)] assms(2) obtain b where
    b: "current_id (so_db st1) (decision_of t) = Some b" "baseline_of env (so_db st1) t b" by (auto simp: same)
  have history: "is_history (so_db st1) (decision_of s) [b]" using baseline_history [OF b] by (simp add: same)
  have ok1: "coherence_ok env (so_db st1)" using steps_ok [OF adopt_all_steps [OF listed] ok] by blast
  obtain g db1 where "create_candidate env w None i now' s (so_db st1) = (Ok g, bound_state env i s, db1)"
    using create_succeeds [OF assms(12-14), of None w now'] by blast
  from created_accept [OF this assms(10,15)] b(1) same assms(11)
  have refused: "res = Err (Stale_promotion ''current analysis changed after candidate creation'')"
    "given_up (so_db st1) (so_db st') i" "cd_generations (so_db st') i \<noteq> None" by auto
  have "keeps_rows {} (so_db st1) (so_db st')" using steps_ok [OF accept_completed_steps [OF assms(15)] ok1] by blast
  from kept_chain [OF this history] refused(2) have "is_history (so_db st') (decision_of s) [b]"
    by (simp add: given_up_def is_history_def current_id_def)
  with b(2) history refused show ?thesis by (auto simp: given_up_def)
qed

subsection \<open>A finished project\<close>

definition finished_store :: store where
  "finished_store = \<lparr>so_mem = Map.empty, so_rows = [\<lparr>st_project = ''p'', st_json = JObj [], st_version = 1, st_updated = 3\<rparr>],
     so_db = empty_db\<lparr>cd_projects := {''p''}\<rparr>\<rparr>"

lemma finished_store_reachable: "coherence_steps example_coherence D empty_db (so_db finished_store)"
proof -
  have "coherence_step example_coherence D empty_db (empty_db\<lparr>cd_projects := insert ''p'' (cd_projects empty_db)\<rparr>)"
    by (rule coherence_step.add_project)
  then show ?thesis by (simp add: finished_store_def empty_db_def r_into_rtranclp)
qed

lemma finished_history: "is_history (so_db finished_store) k []"
  by (simp add: is_history_def current_id_def finished_store_def empty_db_def)

lemma finished_simps [simp]: "ds_id finished_decision = ''p''" "ds_generation finished_decision = ''''"
  "ce_text example_coherence = example_env" "ce_validate example_coherence v = Ok finished_decision"
  by (simp_all add: finished_decision_def finished_project_def example_decision_def example_coherence_def)

lemma finished_workflow: "is_workflow_complete (ds_project finished_decision) = Ok True"
  using finished_complete by (simp add: complete_check_eq)

text \<open>The answer to the promotion is lost after it committed.\<close>

definition promotion_unanswered :: "acceptance_call \<Rightarrow> connection" where
  "promotion_unanswered c = (if c = At_promote then Lost_after ''connection was closed'' else Up)"

lemma finished_created:
  "\<exists>g db1 w. workflow_fingerprint example_coherence finished_decision ''v'' = Ok w \<and>
     create_candidate example_coherence w None ''g1'' 4 finished_decision (so_db finished_store) =
       (Ok g, bound_state example_coherence ''g1'' finished_decision, db1)"
proof -
  obtain seq where "workflow_phase_sequence_for_state (ds_project finished_decision) = Ok seq"
    using finished_complete by (auto simp: is_complete_analysis_def)
  then obtain w where w: "workflow_fingerprint example_coherence finished_decision ''v'' = Ok w"
    by (simp add: workflow_fingerprint_def)
  have "''p'' \<in> cd_projects (so_db finished_store)" "cd_generations (so_db finished_store) ''g1'' = None"
    "snapshot_fresh c (so_db finished_store)" for c
    by (simp_all add: finished_store_def empty_db_def snapshot_fresh_def)
  with create_succeeds [of finished_decision "so_db finished_store" "''g1''" example_coherence None w 4] w
  show ?thesis by auto
qed

lemma promotion_unanswered_run:
  "\<exists>e s' st'. accept_over promotion_unanswered example_coherence ''v'' None ''g1'' 4 finished_decision finished_store = (Err e, s', st') \<and>
     cd_current (so_db st') \<noteq> cd_current (so_db finished_store)"
proof -
  let ?e = example_coherence and ?s = finished_decision and ?d = "decision_of finished_decision"
  obtain g db1 w where w: "workflow_fingerprint ?e ?s ''v'' = Ok w"
    and created: "create_candidate ?e w None ''g1'' 4 ?s (so_db finished_store) = (Ok g, bound_state ?e ''g1'' ?s, db1)"
    using finished_created by blast
  let ?r = "candidate_row ?e w None ''g1'' 4 ?s"
  let ?v = "?r\<lparr>ag_validated := Some 4\<rparr>"
  note c = create_returns [OF created]
  have "stored_complete ?e v = Ok True" for v
    using finished_complete by (simp add: stored_complete_def example_coherence_def)
  then have v: "validate_candidate ?e ''g1'' 4 db1 = Ok (db1\<lparr>cd_generations := (cd_generations db1)(''g1'' \<mapsto> ?v)\<rparr>)"
    using candidate_validation [OF c(4), of ?e 4] by (simp add: terminal_shape_def)
  let ?db2 = "db1\<lparr>cd_generations := (cd_generations db1)(''g1'' \<mapsto> ?v)\<rparr>"
  have "current_id ?db2 ?d = None" using c(6) by (simp add: current_id_def finished_store_def empty_db_def)
  then obtain db3 where p: "promote_candidate ?e ''g1'' None 4 ?db2 = Ok db3" "cd_current db3 ?d = Some (''g1'', 4)"
    "cd_generations db3 ''g1'' = Some (?v\<lparr>ag_status := Gen_accepted, ag_promoted := Some 4\<rparr>)"
    using promote_cases [of ?db2 "''g1''" ?v None ?e 4] by (simp add: terminal_shape_def ag_scope_updates)
  have gone: "cd_current (so_db finished_store) ?d = None" by (simp add: finished_store_def empty_db_def)
  let ?f = "promotion_error ?e (Db_raised ''connection was closed'')"
  obtain res s' st' where give_up:
    "give_up Up ''g1'' 4 ?f (bound_state ?e ''g1'' ?s) (finished_store\<lparr>so_db := db3\<rparr>) = (res, s', st')" by (metis prod_cases3)
  from give_up_accepted [OF this, of "?v\<lparr>ag_status := Gen_accepted, ag_promoted := Some 4\<rparr>"] p(2,3)
  have cur: "cd_current (so_db st') ?d = Some (''g1'', 4)" by simp
  have "\<exists>e. res = Err e" using give_up by (auto simp: give_up_def split: sum.splits prod.splits coherence_error.splits)
  moreover have "accept_over promotion_unanswered ?e ''v'' None ''g1'' 4 ?s finished_store = (res, s', st')"
    using give_up w created v p(1) c(2)
    by (simp add: accept_over_def create_over_def promotion_unanswered_def transact_def)
  ultimately show ?thesis using cur gone by fastforce
qed


theorem complete_run_accepted_witness:
  "\<exists>s' st'. accept_completed_analysis example_coherence ''v'' None ''g1'' 4 finished_decision finished_store = (Ok (), s', st') \<and>
     current_generation_id finished_decision st' = Some ''g1''"
proof -
  have start: "current_generation_id finished_decision finished_store = None"
    by (simp add: current_generation_id_def current_generation_def current_id_def finished_store_def empty_db_def)
  have "''p'' \<in> cd_projects (so_db finished_store)" "cd_generations (so_db finished_store) ''g1'' = None"
    "snapshot_fresh c (so_db finished_store)" for c
    by (simp_all add: finished_store_def empty_db_def snapshot_fresh_def)
  with complete_run_accepted [OF finished_store_reachable finished_workflow, of "''g1''" finished_decision "''v''" 4] start
  show ?thesis by simp
qed

lemma finished_listing:
  "\<exists>ts st1 b. list_all_projects example_coherence 3 finished_store = (Ok ts, st1) \<and> ''p'' \<in> cd_projects (so_db st1) \<and>
     dom (cd_generations (so_db st1)) = {b} \<and> snapshot_fresh race_identity (so_db st1)"
proof -
  let ?e = example_coherence and ?db = "so_db finished_store" and ?c = race_identity
  obtain b s1 db1 where boot: "bootstrap_current_analysis ?e 3 finished_decision ?db = (b, s1, db1)" by (metis prod_cases3)
  have s1: "s1 = finished_decision\<lparr>ds_snapshot := ii_snapshot ?c\<rparr>" and b: "\<exists>i. b = Ok i"
    and known: "\<exists>x \<in> set (cd_snapshots db1). sr_project x = ''p'' \<and> sr_decision x = primary_decision_id ''p'' \<and> sr_sha x = ii_digest ?c"
    and tables: "''p'' \<in> cd_projects db1" "\<exists>i. dom (cd_generations db1) = {i}" "snapshot_fresh ?c db1"
    using boot
    by (auto simp: bootstrap_current_analysis_def finished_complete Let_def bootstrap_analysis_generation_def finished_store_def
        empty_db_def insert_input_snapshot_def insert_generation_def terminal_shape_def guard_current_binding_def current_id_def
        payload_sha256_def ag_scope_def bind_result_def identity_scope snapshot_fresh_def split: sum.splits)
  obtain i where i: "b = Ok i" using b by blast
  let ?s = "s1\<lparr>ds_generation := i\<rparr>"
  have "\<exists>t st1. adopt ?e 3 ''p'' finished_decision finished_store = (Ok t, st1) \<and> ''p'' \<in> cd_projects (so_db st1) \<and>
      cd_generations (so_db st1) = cd_generations db1 \<and> cd_snapshots (so_db st1) = cd_snapshots db1"
    using boot i save_returns [of "finished_store\<lparr>so_db := db1\<rparr>" ?s ?e 3] known tables(1)
    by (simp add: adopt_def finished_complete Let_def s1 identity_scope)
  with tables show ?thesis
    by (fastforce simp: list_all_projects_def finished_store_def snapshot_fresh_def)
qed

theorem listing_defeats_first_acceptance_witness:
  "\<exists>ts st1 i s' st' b. list_all_projects example_coherence 3 finished_store = (Ok ts, st1) \<and>
     accept_completed_analysis example_coherence ''v'' None i 4 finished_decision st1 =
       (Err (Stale_promotion ''current analysis changed after candidate creation''), s', st') \<and>
     is_history (so_db st') (decision_of finished_decision) [b] \<and> b \<noteq> i"
proof -
  obtain ts st1 g where listing: "list_all_projects example_coherence 3 finished_store = (Ok ts, st1)"
    and project: "ds_id finished_decision \<in> cd_projects (so_db st1)" and generations: "dom (cd_generations (so_db st1)) = {g}"
    and fresh: "snapshot_fresh (effective_input_identity (ce_text example_coherence) finished_decision) (so_db st1)"
    using finished_listing by auto
  let ?i = "g @ ''x''"
  have free: "cd_generations (so_db st1) ?i = None" using generations by auto
  obtain res s' st' where run: "accept_completed_analysis example_coherence ''v'' None ?i 4 finished_decision st1 = (res, s', st')"
    by (metis prod_cases3)
  obtain w where w: "workflow_fingerprint example_coherence finished_decision ''v'' = Ok w" using finished_created by blast
  have rows: "all_results (map (\<lambda>r. ce_validate example_coherence (st_json r))
      (take 200 (sort_key (\<lambda>r. - st_updated r) (so_rows finished_store)))) = Ok [finished_decision]"
    by (simp add: finished_store_def)
  have start: "current_id (so_db finished_store) (decision_of finished_decision) = None"
    by (simp add: current_id_def finished_store_def empty_db_def)
  have stored: "stored_complete example_coherence v = Ok True" for v
    using finished_complete by (simp add: stored_complete_def)
  have one: "distinct (map ds_id [finished_decision])" "finished_decision \<in> set [finished_decision]" by simp_all
  from listing_defeats_first_acceptance [OF finished_store_reachable start listing rows one finished_complete finished_simps(2) refl w
      stored project free fresh run]
  obtain b where "is_history (so_db st') (decision_of finished_decision) [b]" "baseline_of example_coherence (so_db st1) finished_decision b"
    "res = Err (Stale_promotion ''current analysis changed after candidate creation'')" by blast
  with listing run free show ?thesis by (fastforce simp: baseline_of_def)
qed

end
