(* ===== verification/Scenarios.thy ===== *)
theory Scenarios
  imports Prelude "HOL-Library.Multiset" "HOL-Library.List_Lexorder" "HOL-Library.Char_ord"
begin

text \<open>
  Bayesian scenarios (\<open>mas/scenarios/models.py\<close> and \<open>update.py\<close>): a scenario with its beta
  distribution, the validators of its model, and the updates by evidence and by a log likelihood
  ratio. The quantile function of the beta distribution (scipy) is the parameter \<open>ppf\<close>. Instants
  are arguments. Floats are real numbers, so the checks for finiteness hold.
\<close>

subsection \<open>Models\<close>

datatype prior_source = From_hypothesis | From_prior_snapshot | From_calibration_snapshot | From_operator | From_default

datatype update_method = Beta_binomial | Log_odds | No_update

datatype display_mode = Internal_only | Verbal_only | Internal_numeric_allowed

datatype stance = Supports | Refutes | Neutral | Mixed | Unknown_stance

record falsifier =
  fa_observable :: string
  fa_threshold :: string
  fa_window :: string

record observation =
  ob_evidence :: string
  ob_stance :: stance
  ob_record :: "string option"
  ob_ref :: "string option"
  ob_provenance :: "string option"
  ob_locator :: "string option"
  ob_captured :: "time option"

record scenario =
  sn_id :: string
  sn_decision :: "string option"
  sn_hypothesis :: string
  sn_prior_alpha :: real
  sn_prior_beta :: real
  sn_source :: prior_source
  sn_refs :: "string list"
  sn_method :: update_method
  sn_alpha :: "real option"
  sn_beta :: "real option"
  sn_mean :: "real option"
  sn_low :: "real option"
  sn_high :: "real option"
  sn_label :: string
  sn_count :: int
  sn_display :: display_mode
  sn_assumptions :: "string list"
  sn_falsifier :: falsifier
  sn_note :: string
  sn_reviewer :: "string option"
  sn_signoff :: "time option"
  sn_created :: time
  sn_updated :: time

datatype scenario_error = Scenario_value string | Scenario_invalid "string list"

datatype update_status = Updated | Contradiction

record update_result =
  ur_status :: update_status
  ur_scenario :: scenario
  ur_refs :: "string list"
  ur_reason :: string
  ur_contradictory :: "string list"

subsection \<open>Validation\<close>

definition message_if :: "bool \<Rightarrow> string \<Rightarrow> string list" where
  "message_if b m = (if b then [m] else [])"

definition falsifier_errors :: "falsifier \<Rightarrow> string list" where
  "falsifier_errors f =
     concat (map (\<lambda>t. message_if (py_strip t = '''') ''falsifier fields must be non-empty'')
       [fa_observable f, fa_threshold f, fa_window f])"

text \<open>\<open>ScenarioEvidenceObservation\<close>: blank optional fields become \<open>None\<close>.\<close>

definition clean_field :: "string option \<Rightarrow> string option" where
  "clean_field v = (case v of None \<Rightarrow> None | Some t \<Rightarrow> if py_strip t = '''' then None else Some (py_strip t))"

definition validate_observation :: "observation \<Rightarrow> (scenario_error, observation) result" where
  "validate_observation ob =
     (if py_strip (ob_evidence ob) = '''' then Err (Scenario_invalid [''evidence_id must be non-empty''])
      else Ok (ob\<lparr>ob_evidence := py_strip (ob_evidence ob), ob_record := clean_field (ob_record ob),
        ob_ref := clean_field (ob_ref ob), ob_provenance := clean_field (ob_provenance ob),
        ob_locator := clean_field (ob_locator ob)\<rparr>))"

definition not_positive :: "real option \<Rightarrow> bool" where
  "not_positive v = (case v of None \<Rightarrow> False | Some x \<Rightarrow> x \<le> 0)"

definition not_probability :: "real option \<Rightarrow> bool" where
  "not_probability v = (case v of None \<Rightarrow> False | Some x \<Rightarrow> \<not> (0 \<le> x \<and> x \<le> 1))"

text \<open>The validators of the fields, in the order of the fields.\<close>

definition field_errors :: "scenario \<Rightarrow> string list" where
  "field_errors s =
     message_if (py_strip (sn_id s) = '''') ''field must be non-empty'' @
     message_if (py_strip (sn_hypothesis s) = '''') ''field must be non-empty'' @
     message_if (sn_prior_alpha s \<le> 0) ''prior alpha and beta must be positive'' @
     message_if (sn_prior_beta s \<le> 0) ''prior alpha and beta must be positive'' @
     message_if (not_positive (sn_alpha s)) ''posterior alpha and beta must be positive when present'' @
     message_if (not_positive (sn_beta s)) ''posterior alpha and beta must be positive when present'' @
     message_if (not_probability (sn_mean s)) ''posterior probability fields must be between 0 and 1'' @
     message_if (not_probability (sn_low s)) ''posterior probability fields must be between 0 and 1'' @
     message_if (not_probability (sn_high s)) ''posterior probability fields must be between 0 and 1'' @
     message_if (sn_count s < 0) ''evidence_count_n must be non-negative'' @
     falsifier_errors (sn_falsifier s) @
     message_if (py_strip (sn_note s) = '''') ''field must be non-empty''"

definition interval_reversed :: "scenario \<Rightarrow> bool" where
  "interval_reversed s = (case (sn_low s, sn_high s) of (Some l, Some h) \<Rightarrow> h < l | _ \<Rightarrow> False)"

definition model_error :: "scenario \<Rightarrow> string option" where
  "model_error s =
     (if sn_display s = Internal_numeric_allowed \<and> sn_count s < 10
      then Some ''internal numeric display requires at least 10 evidence observations''
      else if sn_assumptions s = [] \<and> py_strip (sn_note s) = ''''
      then Some ''empty assumptions require an uncertainty_note explaining the gap''
      else if interval_reversed s then Some ''posterior_ci_low_90 cannot exceed posterior_ci_high_90''
      else None)"

definition stripped :: "scenario \<Rightarrow> scenario" where
  "stripped s = s\<lparr>sn_id := py_strip (sn_id s), sn_hypothesis := py_strip (sn_hypothesis s), sn_note := py_strip (sn_note s),
     sn_falsifier := \<lparr>fa_observable = py_strip (fa_observable (sn_falsifier s)),
       fa_threshold = py_strip (fa_threshold (sn_falsifier s)), fa_window = py_strip (fa_window (sn_falsifier s))\<rparr>\<rparr>"

definition validate_scenario :: "scenario \<Rightarrow> (scenario_error, scenario) result" where
  "validate_scenario s =
     (if field_errors s \<noteq> [] then Err (Scenario_invalid (field_errors s))
      else case model_error (stripped s) of
          Some m \<Rightarrow> Err (Scenario_invalid [m])
        | None \<Rightarrow> Ok (stripped s))"

subsection \<open>Probabilities\<close>

definition validate_positive :: "real \<Rightarrow> real \<Rightarrow> (scenario_error, unit) result" where
  "validate_positive a b = (if a \<le> 0 \<or> b \<le> 0 then Err (Scenario_value ''alpha and beta must be positive'') else Ok ())"

definition beta_binomial_update :: "real \<Rightarrow> real \<Rightarrow> int \<Rightarrow> int \<Rightarrow> (scenario_error, real \<times> real) result" where
  "beta_binomial_update a b k n =
     bind_result (validate_positive a b) (\<lambda>_.
       if k < 0 \<or> n < 0 then Err (Scenario_value ''evidence counts must be non-negative'')
       else if n < k then Err (Scenario_value ''k cannot exceed n'')
       else Ok (a + of_int k, b + of_int n - of_int k))"

definition log_odds_update :: "real \<Rightarrow> real \<Rightarrow> (scenario_error, real) result" where
  "log_odds_update p llr =
     (if p \<le> 0 \<or> 1 \<le> p then Err (Scenario_value ''prior_probability must be strictly between 0 and 1'')
      else
        let posterior_logit = ln (p / (1 - p)) + llr
        in if 0 \<le> posterior_logit then Ok (1 / (1 + exp (- posterior_logit)))
           else Ok (exp posterior_logit / (1 + exp posterior_logit)))"

definition label_of :: "real \<Rightarrow> string" where
  "label_of p =
     (if p < 20 / 100 then ''very unlikely'' else if p < 40 / 100 then ''unlikely''
      else if p < 60 / 100 then ''uncertain'' else if p < 80 / 100 then ''likely'' else ''very likely'')"

definition calibrated_label :: "real \<Rightarrow> (scenario_error, string) result" where
  "calibrated_label p =
     (if p < 0 \<or> 1 < p then Err (Scenario_value ''probability must be between 0 and 1'') else Ok (label_of p))"

type_synonym quantile = "real \<Rightarrow> real \<Rightarrow> real \<Rightarrow> real"

definition posterior_probability_summary :: "quantile \<Rightarrow> real \<Rightarrow> real \<Rightarrow> (scenario_error, real \<times> real \<times> real) result" where
  "posterior_probability_summary ppf a b =
     map_result (\<lambda>_. (a / (a + b), ppf (5 / 100) a b, ppf (95 / 100) a b)) (validate_positive a b)"

subsection \<open>Evidence\<close>

definition stance_name :: "stance \<Rightarrow> string" where
  "stance_name s = (case s of Supports \<Rightarrow> ''supports'' | Refutes \<Rightarrow> ''refutes'' | Neutral \<Rightarrow> ''neutral''
     | Mixed \<Rightarrow> ''mixed'' | Unknown_stance \<Rightarrow> ''unknown'')"

definition present :: "string option \<Rightarrow> bool" where
  "present v = (v \<noteq> None \<and> v \<noteq> Some '''')"

definition source_of_record_key :: "observation \<Rightarrow> string" where
  "source_of_record_key ob =
     (if present (ob_record ob) then ''source_record_id:'' @ py_strip (the (ob_record ob))
      else if present (ob_provenance ob) then ''provenance_id:'' @ py_strip (the (ob_provenance ob))
      else if present (ob_ref ob) then ''source_ref:'' @ py_strip (the (ob_ref ob))
      else if present (ob_locator ob) then ''locator:'' @ py_strip (the (ob_locator ob))
      else if ob_evidence ob \<noteq> '''' then ''evidence_id:'' @ py_strip (ob_evidence ob)
      else ''evidence_id:'' @ ob_evidence ob)"

definition representative_observation :: "observation list \<Rightarrow> observation" where
  "representative_observation items =
     (case List.map_filter (\<lambda>st. find (\<lambda>x. ob_stance x = st) items) [Supports, Refutes, Neutral, Unknown_stance] of
        x # _ \<Rightarrow> x
      | [] \<Rightarrow> hd items)"

definition group_conflict :: "string \<Rightarrow> observation list \<Rightarrow> string option" where
  "group_conflict key items =
     (let stances = map ob_stance items
      in if Mixed \<in> set stances then Some (''mixed evidence stance for source-of-record '' @ key)
         else if Supports \<in> set stances \<and> Refutes \<in> set stances
         then Some (''support/refute conflict for source-of-record '' @ key)
         else None)"

text \<open>The groups by source, in the order of their keys, and the last conflict that is met.\<close>

definition source_keys :: "observation list \<Rightarrow> string list" where
  "source_keys obs = sort (remdups (map source_of_record_key obs))"

definition group_of :: "observation list \<Rightarrow> string \<Rightarrow> observation list" where
  "group_of obs key = filter (\<lambda>x. source_of_record_key x = key) obs"

fun dedupe_groups :: "observation list \<Rightarrow> string list \<Rightarrow> observation list \<Rightarrow> string \<Rightarrow> observation list \<times> string" where
  "dedupe_groups obs [] deduped contradiction = (deduped, contradiction)"
| "dedupe_groups obs (key # keys) deduped contradiction =
     (case group_conflict key (group_of obs key) of
        Some m \<Rightarrow> dedupe_groups obs keys (deduped @ group_of obs key) m
      | None \<Rightarrow> dedupe_groups obs keys (deduped @ [representative_observation (group_of obs key)]) contradiction)"

definition dedupe_observations :: "observation list \<Rightarrow> observation list \<times> string" where
  "dedupe_observations obs = dedupe_groups obs (source_keys obs) [] ''''"

definition merge_refs :: "string list \<Rightarrow> string list \<Rightarrow> string list" where
  "merge_refs existing incoming = dedupe_key id {} (filter (\<lambda>r. r \<noteq> '''') (map py_strip (existing @ incoming)))"

definition LOW_EVIDENCE_NUMERIC_THRESHOLD :: int where
  "LOW_EVIDENCE_NUMERIC_THRESHOLD = 10"

definition display_mode_for_count :: "int \<Rightarrow> display_mode" where
  "display_mode_for_count n = (if n < LOW_EVIDENCE_NUMERIC_THRESHOLD then Verbal_only else Internal_numeric_allowed)"

definition uncertainty_note_for_count :: "int \<Rightarrow> string" where
  "uncertainty_note_for_count n =
     (if n < LOW_EVIDENCE_NUMERIC_THRESHOLD
      then ''Fewer than 10 source-of-record observations; internal numeric display is suppressed.''
      else ''At least 10 source-of-record observations; internal numeric calculation is allowed.'')"

subsection \<open>Scenarios\<close>

text \<open>The fields of a v4 hypothesis that a scenario is built from.\<close>

record hypothesis_view =
  hv_id :: string
  hv_alpha :: real
  hv_beta :: real
  hv_evidence :: "string list"

definition build_scenario_from_hypothesis ::
  "quantile \<Rightarrow> hypothesis_view \<Rightarrow> string option \<Rightarrow> string option \<Rightarrow> prior_source \<Rightarrow> falsifier \<Rightarrow> string list \<Rightarrow> string \<Rightarrow> time \<Rightarrow>
     (scenario_error, scenario) result" where
  "build_scenario_from_hypothesis ppf h scenario_id decision source f assumptions note now =
     (let ref = py_strip (hv_id h); refs = filter (\<lambda>r. py_strip r \<noteq> '''') (hv_evidence h); n = int (length refs)
      in if ref = '''' then Err (Scenario_value ''hypothesis must expose a non-empty id'')
         else bind_result (validate_positive (hv_alpha h) (hv_beta h)) (\<lambda>_.
           bind_result (posterior_probability_summary ppf (hv_alpha h) (hv_beta h)) (\<lambda>(m, low, high).
           bind_result (calibrated_label m) (\<lambda>label.
           validate_scenario \<lparr>sn_id = (case scenario_id of Some i \<Rightarrow> if i = '''' then ''scenario_'' @ ref else i
               | None \<Rightarrow> ''scenario_'' @ ref),
             sn_decision = decision, sn_hypothesis = ref, sn_prior_alpha = hv_alpha h, sn_prior_beta = hv_beta h,
             sn_source = source, sn_refs = refs, sn_method = No_update, sn_alpha = Some (hv_alpha h), sn_beta = Some (hv_beta h),
             sn_mean = Some m, sn_low = Some low, sn_high = Some high, sn_label = label, sn_count = n,
             sn_display = display_mode_for_count n, sn_assumptions = assumptions, sn_falsifier = f, sn_note = note,
             sn_reviewer = None, sn_signoff = None, sn_created = now, sn_updated = now\<rparr>))))"

definition stance_count :: "stance \<Rightarrow> observation list \<Rightarrow> int" where
  "stance_count st obs = int (length (filter (\<lambda>x. ob_stance x = st) obs))"

definition plain_update :: "scenario \<Rightarrow> update_result" where
  "plain_update s = \<lparr>ur_status = Updated, ur_scenario = s, ur_refs = sn_refs s, ur_reason = '''', ur_contradictory = []\<rparr>"

definition update_scenario_with_evidence ::
  "quantile \<Rightarrow> time \<Rightarrow> scenario \<Rightarrow> observation list \<Rightarrow> (scenario_error, update_result) result" where
  "update_scenario_with_evidence ppf now s obs =
     (let (deduped, contradiction) = dedupe_observations obs
      in if contradiction \<noteq> '''' then
           Ok \<lparr>ur_status = Contradiction, ur_scenario = s, ur_refs = sn_refs s, ur_reason = contradiction,
               ur_contradictory = map ob_evidence deduped\<rparr>
         else
           let k = stance_count Supports deduped; n = k + stance_count Refutes deduped;
               refs = merge_refs (sn_refs s) (map ob_evidence deduped)
           in if n = 0 then
                map_result plain_update (validate_scenario (s\<lparr>sn_refs := refs, sn_method := No_update, sn_updated := now\<rparr>))
              else
                bind_result (beta_binomial_update (opt_or (sn_alpha s) (sn_prior_alpha s)) (opt_or (sn_beta s) (sn_prior_beta s)) k n)
                  (\<lambda>(a, b).
                bind_result (posterior_probability_summary ppf a b) (\<lambda>(m, low, high).
                bind_result (calibrated_label m) (\<lambda>label.
                map_result plain_update (validate_scenario
                  (s\<lparr>sn_refs := refs, sn_method := Beta_binomial, sn_alpha := Some a, sn_beta := Some b, sn_mean := Some m,
                     sn_low := Some low, sn_high := Some high, sn_label := label, sn_count := sn_count s + n,
                     sn_display := display_mode_for_count (sn_count s + n),
                     sn_note := uncertainty_note_for_count (sn_count s + n), sn_updated := now\<rparr>))))))"

definition update_scenario_with_log_odds ::
  "time \<Rightarrow> scenario \<Rightarrow> real \<Rightarrow> string list \<Rightarrow> (scenario_error, update_result) result" where
  "update_scenario_with_log_odds now s llr incoming =
     bind_result (log_odds_update (opt_or (sn_mean s) (sn_prior_alpha s / (sn_prior_alpha s + sn_prior_beta s))) llr) (\<lambda>p.
     bind_result (calibrated_label p) (\<lambda>label.
     map_result plain_update (validate_scenario
       (s\<lparr>sn_refs := merge_refs (sn_refs s) incoming, sn_method := Log_odds, sn_mean := Some p, sn_low := None, sn_high := None,
          sn_label := label, sn_updated := now\<rparr>))))"

subsection \<open>Log odds\<close>

lemma logistic_forms: "exp x / (1 + exp x) = 1 / (1 + exp (- x :: real))"
proof -
  have "exp x / (1 + exp x) = (exp x * exp (- x)) / ((1 + exp x) * exp (- x))" by simp
  also have "\<dots> = 1 / (exp (- x) + 1)" by (simp add: distrib_right mult_exp_exp)
  finally show ?thesis by (simp add: add.commute)
qed

lemma log_odds_logistic:
  assumes "0 < p" "p < 1"
  shows "log_odds_update p l = Ok (1 / (1 + exp (- (ln (p / (1 - p)) + l))))"
  using assms logistic_forms [of "ln (p / (1 - p)) + l"] by (simp add: log_odds_update_def Let_def)

lemma logistic_odds:
  fixes x :: real
  defines "q \<equiv> 1 / (1 + exp (- x))"
  shows "0 < q" "q < 1" "q / (1 - q) = exp x"
proof -
  have pos: "0 < exp (- x)" by simp
  then show "0 < q" "q < 1" unfolding q_def by (simp_all add: add_pos_pos)
  have "1 - 1 / (1 + e) = e / (1 + e)" if "0 < e" for e :: real using that by (simp add: field_simps)
  moreover have "(1 / (1 + e)) / (e / (1 + e)) = 1 / e" if "0 < e" for e :: real using that by (simp add: field_simps)
  ultimately have "q / (1 - q) = 1 / exp (- x)" unfolding q_def using pos by metis
  then show "q / (1 - q) = exp x" by (simp add: exp_minus field_simps)
qed

text \<open>An update by a log likelihood ratio is the rule of Bayes. It returns a probability strictly between 0
  and 1 whose odds are the odds before, times the likelihood ratio; two updates in a row are one
  update by the sum, in whatever order the evidence comes; and probabilities of 0 and 1 are refused.\<close>

theorem log_odds_is_bayes:
  shows "(p \<le> 0 \<or> 1 \<le> p \<longrightarrow> log_odds_update p l = Err (Scenario_value ''prior_probability must be strictly between 0 and 1'')) \<and>
    (0 < p \<and> p < 1 \<longrightarrow> (\<exists>q. log_odds_update p l = Ok q \<and> 0 < q \<and> q < 1 \<and> q / (1 - q) = exp l * (p / (1 - p)) \<and>
       log_odds_update q l' = log_odds_update p (l + l')))"
proof (intro conjI impI)
  assume "p \<le> 0 \<or> 1 \<le> p"
  then show "log_odds_update p l = Err (Scenario_value ''prior_probability must be strictly between 0 and 1'')"
    by (auto simp: log_odds_update_def)
next
  assume "0 < p \<and> p < 1"
  then have p: "0 < p" "p < 1" by auto
  let ?x = "ln (p / (1 - p)) + l"
  let ?q = "1 / (1 + exp (- ?x))"
  have q: "0 < ?q" "?q < 1" "?q / (1 - ?q) = exp ?x" using logistic_odds [of ?x] by blast+
  have "exp ?x = exp l * (p / (1 - p))" using p by (simp add: exp_add)
  moreover have "ln (?q / (1 - ?q)) = ?x" unfolding q(3) by simp
  then have "log_odds_update ?q l' = log_odds_update p (l + l')"
    unfolding log_odds_logistic [OF q(1,2)] log_odds_logistic [OF p] by (simp add: add.assoc)
  ultimately show "\<exists>q. log_odds_update p l = Ok q \<and> 0 < q \<and> q < 1 \<and> q / (1 - q) = exp l * (p / (1 - p)) \<and>
       log_odds_update q l' = log_odds_update p (l + l')"
    using log_odds_logistic [OF p, of l] q by metis
qed

theorem log_odds_is_bayes_witness:
  "\<exists>q. log_odds_update (1 / 4) (ln 3) = Ok q \<and> q / (1 - q) = 1 \<and> log_odds_update q (- ln 3) = log_odds_update (1 / 4) 0"
  using log_odds_is_bayes [of "1 / 4" "ln 3" "- ln 3"] by (auto simp: field_simps)

subsection \<open>Sources of evidence\<close>

definition sources_with :: "stance \<Rightarrow> observation list \<Rightarrow> string set" where
  "sources_with st obs = source_of_record_key ` {x \<in> set obs. ob_stance x = st}"

definition conflicting :: "observation list \<Rightarrow> bool" where
  "conflicting obs \<longleftrightarrow> sources_with Mixed obs \<noteq> {} \<or> sources_with Supports obs \<inter> sources_with Refutes obs \<noteq> {}"

lemma group_stances: "st \<in> set (map ob_stance (group_of obs k)) \<longleftrightarrow> k \<in> sources_with st obs"
  by (auto simp: group_of_def sources_with_def)

lemma group_conflict_iff:
  "group_conflict k (group_of obs k) \<noteq> None \<longleftrightarrow>
     k \<in> sources_with Mixed obs \<or> k \<in> sources_with Supports obs \<inter> sources_with Refutes obs"
  unfolding group_conflict_def Let_def group_stances by simp

lemma group_conflict_text: "group_conflict k items = Some m \<Longrightarrow> m \<noteq> ''''"
  by (auto simp: group_conflict_def Let_def split: if_splits)

lemma source_keys_set: "set (source_keys obs) = source_of_record_key ` set obs" "distinct (source_keys obs)"
  by (simp_all add: source_keys_def)

lemma dedupe_groups_conflict:
  "snd (dedupe_groups obs ks ds c) \<noteq> '''' \<longleftrightarrow> c \<noteq> '''' \<or> (\<exists>k \<in> set ks. group_conflict k (group_of obs k) \<noteq> None)"
proof (induction ks arbitrary: ds c)
  case (Cons k ks)
  then show ?case using group_conflict_text by (auto split: option.splits)
qed simp

lemma dedupe_groups_plain:
  "(\<And>k. k \<in> set ks \<Longrightarrow> group_conflict k (group_of obs k) = None) \<Longrightarrow>
     dedupe_groups obs ks ds c = (ds @ map (\<lambda>k. representative_observation (group_of obs k)) ks, c)"
  by (induction ks arbitrary: ds) simp_all

lemma dedupe_conflict: "snd (dedupe_observations obs) \<noteq> '''' \<longleftrightarrow> conflicting obs"
proof -
  have "(\<exists>k \<in> set (source_keys obs). group_conflict k (group_of obs k) \<noteq> None) \<longleftrightarrow> conflicting obs"
    unfolding group_conflict_iff conflicting_def source_keys_set
    by (auto simp: sources_with_def)
  then show ?thesis unfolding dedupe_observations_def dedupe_groups_conflict by simp
qed

lemma representative_stance:
  assumes "group_conflict k (group_of obs k) = None" "group_of obs k \<noteq> []"
  shows "ob_stance (representative_observation (group_of obs k)) = Supports \<longleftrightarrow> k \<in> sources_with Supports obs"
    and "ob_stance (representative_observation (group_of obs k)) = Refutes \<longleftrightarrow> k \<in> sources_with Refutes obs"
proof -
  let ?g = "group_of obs k"
  have found: "(find (\<lambda>x. ob_stance x = st) ?g = None) = (k \<notin> sources_with st obs)" for st
    using group_stances [of st obs k] by (auto simp: find_None_iff)
  have stance: "find (\<lambda>x. ob_stance x = st) ?g = Some x \<Longrightarrow> ob_stance x = st" for st x
    by (auto simp: find_Some_iff)
  have no: "\<not> (k \<in> sources_with Supports obs \<and> k \<in> sources_with Refutes obs)" "k \<notin> sources_with Mixed obs"
    using assms(1) group_conflict_iff [of k obs] by auto
  have first: "representative_observation ?g =
    (case find (\<lambda>x. ob_stance x = Supports) ?g of Some x \<Rightarrow> x | None \<Rightarrow>
     (case find (\<lambda>x. ob_stance x = Refutes) ?g of Some x \<Rightarrow> x | None \<Rightarrow>
     (case find (\<lambda>x. ob_stance x = Neutral) ?g of Some x \<Rightarrow> x | None \<Rightarrow>
     (case find (\<lambda>x. ob_stance x = Unknown_stance) ?g of Some x \<Rightarrow> x | None \<Rightarrow> hd ?g))))"
    by (simp add: representative_observation_def map_filter_simps split: option.split)
  have "ob_stance (hd ?g) \<in> set (map ob_stance ?g)" using assms(2) by simp
  then have hd: "k \<in> sources_with (ob_stance (hd ?g)) obs" using group_stances by metis
  have "(ob_stance (representative_observation ?g) = Supports) = (k \<in> sources_with Supports obs) \<and>
    (ob_stance (representative_observation ?g) = Refutes) = (k \<in> sources_with Refutes obs)"
  proof (cases "find (\<lambda>x. ob_stance x = Supports) ?g")
    case (Some x)
    then have "k \<in> sources_with Supports obs" using found [of Supports] by simp
    then show ?thesis using first Some stance [OF Some] no(1) by simp
  next
    case None
    then have supports: "k \<notin> sources_with Supports obs" using found [of Supports] by simp
    show ?thesis
    proof (cases "find (\<lambda>x. ob_stance x = Refutes) ?g")
      case (Some x)
      then have "k \<in> sources_with Refutes obs" using found [of Refutes] by simp
      then show ?thesis using first None Some stance [OF Some] supports by simp
    next
      case refutes: None
      then have refuted: "k \<notin> sources_with Refutes obs" using found [of Refutes] by simp
      have "ob_stance (representative_observation ?g) \<noteq> Supports \<and> ob_stance (representative_observation ?g) \<noteq> Refutes"
      proof (cases "find (\<lambda>x. ob_stance x = Neutral) ?g")
        case (Some x)
        then show ?thesis using first None refutes stance [OF Some] by simp
      next
        case neutral: None
        show ?thesis
        proof (cases "find (\<lambda>x. ob_stance x = Unknown_stance) ?g")
          case (Some x)
          then show ?thesis using first None refutes neutral stance [OF Some] by simp
        next
          case unknown: None
          have "ob_stance (hd ?g) \<noteq> Supports" "ob_stance (hd ?g) \<noteq> Refutes" using hd supports refuted by metis+
          then show ?thesis using first None refutes neutral unknown by simp
        qed
      qed
      then show ?thesis using supports refuted by simp
    qed
  qed
  then show "ob_stance (representative_observation ?g) = Supports \<longleftrightarrow> k \<in> sources_with Supports obs"
    "ob_stance (representative_observation ?g) = Refutes \<longleftrightarrow> k \<in> sources_with Refutes obs" by simp_all
qed

lemma length_filter_card: "distinct ks \<Longrightarrow> length (filter P ks) = card {k \<in> set ks. P k}"
  by (metis distinct_card distinct_filter set_filter)

lemma dedupe_counts:
  assumes "\<not> conflicting obs"
  shows "stance_count Supports (fst (dedupe_observations obs)) = int (card (sources_with Supports obs))"
    and "stance_count Refutes (fst (dedupe_observations obs)) = int (card (sources_with Refutes obs))"
proof -
  have none: "group_conflict k (group_of obs k) = None" if "k \<in> set (source_keys obs)" for k
  proof (rule ccontr)
    assume "group_conflict k (group_of obs k) \<noteq> None"
    with that have "snd (dedupe_observations obs) \<noteq> ''''" unfolding dedupe_observations_def dedupe_groups_conflict by blast
    with assms dedupe_conflict show False by blast
  qed
  have groups: "group_of obs k \<noteq> []" if "k \<in> set (source_keys obs)" for k
    using that by (auto simp: group_of_def source_keys_set filter_empty_conv)
  have deduped: "fst (dedupe_observations obs) = map (\<lambda>k. representative_observation (group_of obs k)) (source_keys obs)"
    using dedupe_groups_plain [of "source_keys obs" obs "[]" "''''"] none by (simp add: dedupe_observations_def)
  have count: "stance_count st (fst (dedupe_observations obs)) =
      int (card {k \<in> set (source_keys obs). ob_stance (representative_observation (group_of obs k)) = st})" for st
    unfolding deduped stance_count_def
    by (simp add: filter_map length_filter_card [OF source_keys_set(2)] comp_def)
  have sub: "sources_with st obs \<subseteq> set (source_keys obs)" for st by (auto simp: source_keys_set sources_with_def)
  have iff: "(ob_stance (representative_observation (group_of obs k)) = Supports) = (k \<in> sources_with Supports obs)"
    "(ob_stance (representative_observation (group_of obs k)) = Refutes) = (k \<in> sources_with Refutes obs)"
    if "k \<in> set (source_keys obs)" for k
    using representative_stance [OF none [OF that] groups [OF that]] by simp_all
  have "{k \<in> set (source_keys obs). ob_stance (representative_observation (group_of obs k)) = Supports} = sources_with Supports obs"
    using iff(1) sub [of Supports] by auto
  moreover have "{k \<in> set (source_keys obs). ob_stance (representative_observation (group_of obs k)) = Refutes} = sources_with Refutes obs"
    using iff(2) sub [of Refutes] by auto
  ultimately  show "stance_count Supports (fst (dedupe_observations obs)) = int (card (sources_with Supports obs))"
    "stance_count Refutes (fst (dedupe_observations obs)) = int (card (sources_with Refutes obs))"
    unfolding count by simp_all
qed

subsection \<open>What evidence does to a scenario\<close>

text \<open>The quantiles of a beta distribution are probabilities, in order.\<close>

definition quantile_law :: "quantile \<Rightarrow> bool" where
  "quantile_law ppf \<longleftrightarrow> (\<forall>a b. 0 < a \<longrightarrow> 0 < b \<longrightarrow>
     0 \<le> ppf (5 / 100) a b \<and> ppf (5 / 100) a b \<le> ppf (95 / 100) a b \<and> ppf (95 / 100) a b \<le> 1)"

definition scenario_ok :: "scenario \<Rightarrow> bool" where
  "scenario_ok s \<longleftrightarrow> validate_scenario s = Ok s"

abbreviation current_alpha :: "scenario \<Rightarrow> real" where
  "current_alpha s \<equiv> opt_or (sn_alpha s) (sn_prior_alpha s)"

abbreviation current_beta :: "scenario \<Rightarrow> real" where
  "current_beta s \<equiv> opt_or (sn_beta s) (sn_prior_beta s)"

lemma message_if_Nil [simp]: "message_if b m = [] \<longleftrightarrow> \<not> b"
  by (simp add: message_if_def)

lemma model_error_None:
  "model_error s = None \<longleftrightarrow> (sn_display s = Internal_numeric_allowed \<longrightarrow> 10 \<le> sn_count s) \<and>
     (sn_assumptions s = [] \<longrightarrow> py_strip (sn_note s) \<noteq> '''') \<and> \<not> interval_reversed s"
  by (auto simp: model_error_def)

lemma scenario_okD:
  assumes "scenario_ok s"
  shows "field_errors s = []" "stripped s = s" "model_error s = None"
  using assms by (auto simp: scenario_ok_def validate_scenario_def split: if_splits option.splits)

lemma scenario_okI: "field_errors s = [] \<Longrightarrow> stripped s = s \<Longrightarrow> model_error s = None \<Longrightarrow> validate_scenario s = Ok s"
  by (simp add: validate_scenario_def)

lemma scenario_ok_positive:
  assumes "scenario_ok s"
  shows "0 < current_alpha s" "0 < current_beta s" "0 \<le> sn_count s"
  using scenario_okD(1) [OF assms]
  by (auto simp: field_errors_def not_positive_def opt_or_def split: option.splits)

lemma note_stripped: "py_strip (uncertainty_note_for_count n) = uncertainty_note_for_count n" "uncertainty_note_for_count n \<noteq> ''''"
  by (simp_all add: uncertainty_note_for_count_def py_strip_def py_rstrip_def py_lstrip_def py_isspace_def code_def)

lemma stripped_updates:
  assumes "stripped s = s"
  shows "py_strip (sn_id s) = sn_id s" "py_strip (sn_hypothesis s) = sn_hypothesis s" "py_strip (sn_note s) = sn_note s"
    "\<lparr>fa_observable = py_strip (fa_observable (sn_falsifier s)), fa_threshold = py_strip (fa_threshold (sn_falsifier s)),
       fa_window = py_strip (fa_window (sn_falsifier s))\<rparr> = sn_falsifier s"
proof -
  have "sn_id (stripped s) = sn_id s" "sn_hypothesis (stripped s) = sn_hypothesis s" "sn_note (stripped s) = sn_note s"
    "sn_falsifier (stripped s) = sn_falsifier s" using assms by simp_all
  then show "py_strip (sn_id s) = sn_id s" "py_strip (sn_hypothesis s) = sn_hypothesis s" "py_strip (sn_note s) = sn_note s"
    "\<lparr>fa_observable = py_strip (fa_observable (sn_falsifier s)), fa_threshold = py_strip (fa_threshold (sn_falsifier s)),
       fa_window = py_strip (fa_window (sn_falsifier s))\<rparr> = sn_falsifier s"
    by (simp_all add: stripped_def)
qed

lemma refs_update_ok:
  assumes "scenario_ok s"
  shows "validate_scenario (s\<lparr>sn_refs := refs, sn_method := m, sn_updated := now\<rparr>) = Ok (s\<lparr>sn_refs := refs, sn_method := m, sn_updated := now\<rparr>)"
proof (rule scenario_okI)
  let ?t = "s\<lparr>sn_refs := refs, sn_method := m, sn_updated := now\<rparr>"
  note ok = scenario_okD [OF assms] and strip = stripped_updates [OF scenario_okD(2) [OF assms]]
  show "field_errors ?t = []" using ok(1) by (simp add: field_errors_def)
  show "model_error ?t = None" using ok(3) by (simp add: model_error_None interval_reversed_def)
  show "stripped ?t = ?t" using strip by (simp add: stripped_def)
qed

lemma posterior_update_ok:
  fixes refs :: "string list" and label :: string and now :: time
  assumes "scenario_ok s" "quantile_law ppf" "0 < a" "0 < b" "0 \<le> n"
  defines "t \<equiv> s\<lparr>sn_refs := refs, sn_method := Beta_binomial, sn_alpha := Some a, sn_beta := Some b, sn_mean := Some (a / (a + b)),
     sn_low := Some (ppf (5 / 100) a b), sn_high := Some (ppf (95 / 100) a b), sn_label := label, sn_count := n,
     sn_display := display_mode_for_count n, sn_note := uncertainty_note_for_count n, sn_updated := now\<rparr>"
  shows "validate_scenario t = Ok t"
proof (rule scenario_okI)
  note ok = scenario_okD [OF assms(1)] and strip = stripped_updates [OF scenario_okD(2) [OF assms(1)]]
  have q: "0 \<le> ppf (5 / 100) a b" "ppf (5 / 100) a b \<le> ppf (95 / 100) a b" "ppf (95 / 100) a b \<le> 1"
    using assms(2-4) unfolding quantile_law_def by blast+
  have mean: "0 \<le> a / (a + b)" "a / (a + b) \<le> 1" using assms(3,4) by simp_all
  show "field_errors t = []"
    using ok(1) q mean assms(3-5) note_stripped [of n]
    by (simp add: field_errors_def t_def not_positive_def not_probability_def)
  show "model_error t = None"
    using q(2) note_stripped [of n]
    by (simp add: model_error_None t_def interval_reversed_def display_mode_for_count_def LOW_EVIDENCE_NUMERIC_THRESHOLD_def)
  show "stripped t = t" using strip note_stripped(1) [of n] by (simp add: stripped_def t_def)
qed

lemma evidence_update:
  assumes "scenario_ok s" "quantile_law ppf"
  shows "\<exists>r. update_scenario_with_evidence ppf now s obs = Ok r \<and>
    (if conflicting obs then ur_status r = Contradiction \<and> ur_scenario r = s
     else ur_status r = Updated \<and> scenario_ok (ur_scenario r) \<and>
       current_alpha (ur_scenario r) = current_alpha s + real (card (sources_with Supports obs)) \<and>
       current_beta (ur_scenario r) = current_beta s + real (card (sources_with Refutes obs)) \<and>
       sn_count (ur_scenario r) = sn_count s + int (card (sources_with Supports obs)) + int (card (sources_with Refutes obs)) \<and>
       (sn_display (ur_scenario r) = Internal_numeric_allowed \<longrightarrow> 10 \<le> sn_count (ur_scenario r)))"
proof -
  obtain deduped c where split: "dedupe_observations obs = (deduped, c)" by fastforce
  show ?thesis
  proof (cases "conflicting obs")
    case True
    then have "c \<noteq> ''''" using dedupe_conflict [of obs] split by simp
    with True split show ?thesis by (simp add: update_scenario_with_evidence_def Let_def)
  next
    case False
    then have c: "c = ''''" using dedupe_conflict [of obs] split by simp
    let ?k = "int (card (sources_with Supports obs))" and ?f = "int (card (sources_with Refutes obs))"
    have counts: "stance_count Supports deduped = ?k" "stance_count Refutes deduped = ?f"
      using dedupe_counts [OF False] split by simp_all
    have numeric: "10 \<le> sn_count t" if "scenario_ok t" "sn_display t = Internal_numeric_allowed" for t
      using scenario_okD(3) [OF that(1)] that(2) by (simp add: model_error_None)
    show ?thesis
    proof (cases "?k + ?f = 0")
      case True
      then have zero: "?k = 0" "?f = 0" by linarith+
      let ?t = "s\<lparr>sn_refs := merge_refs (sn_refs s) (map ob_evidence deduped), sn_method := No_update, sn_updated := now\<rparr>"
      have valid: "validate_scenario ?t = Ok ?t" by (rule refs_update_ok [OF assms(1)])
      then have "update_scenario_with_evidence ppf now s obs = Ok (plain_update ?t)"
        using split c counts zero by (simp add: update_scenario_with_evidence_def Let_def)
      moreover have "scenario_ok ?t" using valid by (simp add: scenario_ok_def)
      ultimately show ?thesis using False zero numeric [of ?t] by (simp add: plain_update_def)
    next
      case nonzero: False
      let ?a = "current_alpha s + of_int ?k" and ?b = "current_beta s + of_int ?f" and ?n = "sn_count s + (?k + ?f)"
      have pos: "0 < ?a" "0 < ?b" "0 \<le> ?n" using scenario_ok_positive [OF assms(1)] by (simp_all add: add_pos_nonneg)
      have binomial: "beta_binomial_update (current_alpha s) (current_beta s) ?k (?k + ?f) = Ok (?a, ?b)"
        using scenario_ok_positive [OF assms(1)] by (simp add: beta_binomial_update_def validate_positive_def)
      have summary: "posterior_probability_summary ppf ?a ?b = Ok (?a / (?a + ?b), ppf (5 / 100) ?a ?b, ppf (95 / 100) ?a ?b)"
        using pos by (simp add: posterior_probability_summary_def validate_positive_def)
      have "0 \<le> ?a / (?a + ?b)" "?a / (?a + ?b) \<le> 1" using pos by simp_all
      then have label: "calibrated_label (?a / (?a + ?b)) = Ok (label_of (?a / (?a + ?b)))"
        by (simp only: calibrated_label_def) simp
      let ?t = "s\<lparr>sn_refs := merge_refs (sn_refs s) (map ob_evidence deduped), sn_method := Beta_binomial, sn_alpha := Some ?a,
        sn_beta := Some ?b, sn_mean := Some (?a / (?a + ?b)), sn_low := Some (ppf (5 / 100) ?a ?b),
        sn_high := Some (ppf (95 / 100) ?a ?b), sn_label := label_of (?a / (?a + ?b)), sn_count := ?n,
        sn_display := display_mode_for_count ?n, sn_note := uncertainty_note_for_count ?n, sn_updated := now\<rparr>"
      have valid: "validate_scenario ?t = Ok ?t" by (rule posterior_update_ok [OF assms pos])
      have "update_scenario_with_evidence ppf now s obs = Ok (plain_update ?t)"
        unfolding update_scenario_with_evidence_def Let_def split prod.case counts
        using c nonzero binomial summary label valid by simp
      moreover have "scenario_ok ?t" using valid by (simp add: scenario_ok_def)
      ultimately show ?thesis using False numeric [of ?t] by (simp add: plain_update_def)
    qed
  qed
qed

text \<open>C35: an update of a scenario by evidence counts sources, not observations. It returns; if some source is
  mixed, or both supports and refutes, the scenario is left as it is and the conflict is reported;
  otherwise each source that supports adds one to the first parameter of the beta distribution and
  each that refutes adds one to the second, however often and in whatever order the source was
  observed, and the scenario is valid again: its numbers are probabilities in order, and they may
  be displayed only from ten counted observations on.\<close>

theorem evidence_update_exact:
  assumes "scenario_ok s" "quantile_law ppf"
  shows "\<exists>r. update_scenario_with_evidence ppf now s obs = Ok r \<and>
    (if conflicting obs then ur_status r = Contradiction \<and> ur_scenario r = s
     else ur_status r = Updated \<and> scenario_ok (ur_scenario r) \<and>
       current_alpha (ur_scenario r) = current_alpha s + real (card (sources_with Supports obs)) \<and>
       current_beta (ur_scenario r) = current_beta s + real (card (sources_with Refutes obs)) \<and>
       sn_count (ur_scenario r) = sn_count s + int (card (sources_with Supports obs)) + int (card (sources_with Refutes obs)) \<and>
       (sn_display (ur_scenario r) = Internal_numeric_allowed \<longrightarrow> 10 \<le> sn_count (ur_scenario r)))"
  using assms by (rule evidence_update)

definition sample_scenario :: scenario where
  "sample_scenario = \<lparr>sn_id = ''scenario_H1'', sn_decision = None, sn_hypothesis = ''H1'', sn_prior_alpha = 1, sn_prior_beta = 1,
     sn_source = From_hypothesis, sn_refs = [], sn_method = No_update, sn_alpha = Some 1, sn_beta = Some 1, sn_mean = Some (1 / 2),
     sn_low = Some (5 / 100), sn_high = Some (95 / 100), sn_label = ''uncertain'', sn_count = 0, sn_display = Verbal_only,
     sn_assumptions = [], sn_falsifier = \<lparr>fa_observable = ''churn'', fa_threshold = ''5%'', fa_window = ''Q3''\<rparr>,
     sn_note = ''seeded'', sn_reviewer = None, sn_signoff = None, sn_created = 0, sn_updated = 0\<rparr>"

definition sample_observation :: "string \<Rightarrow> string \<Rightarrow> stance \<Rightarrow> observation" where
  "sample_observation e src st = \<lparr>ob_evidence = e, ob_stance = st, ob_record = Some src, ob_ref = None, ob_provenance = None,
     ob_locator = None, ob_captured = None\<rparr>"

lemma sample_scenario_ok: "scenario_ok sample_scenario"
  unfolding scenario_ok_def
  by (rule scenario_okI)
    (simp_all add: sample_scenario_def field_errors_def stripped_def model_error_def falsifier_errors_def not_positive_def
      not_probability_def interval_reversed_def py_strip_def py_rstrip_def py_lstrip_def py_isspace_def code_def)

theorem evidence_update_exact_witness:
  "\<exists>r. update_scenario_with_evidence (\<lambda>q a b. q) 5 sample_scenario
      [sample_observation ''e1'' ''A'' Supports, sample_observation ''e2'' ''A'' Supports, sample_observation ''e3'' ''B'' Refutes] = Ok r \<and>
     current_alpha (ur_scenario r) = 2 \<and> current_beta (ur_scenario r) = 2"
proof -
  let ?obs = "[sample_observation ''e1'' ''A'' Supports, sample_observation ''e2'' ''A'' Supports, sample_observation ''e3'' ''B'' Refutes]"
  have keys: "source_of_record_key (sample_observation e ''A'' st) = ''source_record_id:A''"
    "source_of_record_key (sample_observation e ''B'' st) = ''source_record_id:B''" for e st
    by (simp_all add: sample_observation_def source_of_record_key_def present_def py_strip_def py_rstrip_def py_lstrip_def
        py_isspace_def code_def)
  have "{x \<in> set ?obs. ob_stance x = Supports} = {sample_observation ''e1'' ''A'' Supports, sample_observation ''e2'' ''A'' Supports}"
    "{x \<in> set ?obs. ob_stance x = Refutes} = {sample_observation ''e3'' ''B'' Refutes}"
    "{x \<in> set ?obs. ob_stance x = Mixed} = {}"
    by (auto simp: sample_observation_def)
  then have sources: "sources_with Supports ?obs = {''source_record_id:A''}" "sources_with Refutes ?obs = {''source_record_id:B''}"
    "sources_with Mixed ?obs = {}"
    unfolding sources_with_def using keys by simp_all
  then have "\<not> conflicting ?obs" by (simp add: conflicting_def)
  moreover have "quantile_law (\<lambda>q a b. q)" by (simp add: quantile_law_def)
  ultimately show ?thesis
    using evidence_update_exact [OF sample_scenario_ok, of "\<lambda>q a b. q" 5 ?obs] sources by (auto simp: sample_scenario_def)
qed

text \<open>Updates in a row with the same observations.\<close>

fun update_times :: "nat \<Rightarrow> quantile \<Rightarrow> time \<Rightarrow> observation list \<Rightarrow> scenario \<Rightarrow> (scenario_error, scenario) result" where
  "update_times 0 ppf now obs s = Ok s"
| "update_times (Suc n) ppf now obs s =
     bind_result (update_scenario_with_evidence ppf now s obs) (\<lambda>r. update_times n ppf now obs (ur_scenario r))"

text \<open>Evidence that was applied before is counted again. An update deduplicates the observations it is given,
  but not those that the scenario has already been updated with: after n updates by one and the
  same observation the scenario counts n observations.\<close>

theorem repeated_evidence_counts_again:
  assumes "scenario_ok s" "quantile_law ppf" "ob_stance x = Supports" "sn_count s = 0"
  shows "\<exists>t. update_times n ppf now [x] s = Ok t \<and> current_alpha t = current_alpha s + real n \<and> sn_count t = int n"
proof -
  have sources: "sources_with Supports [x] = {source_of_record_key x}" "sources_with Refutes [x] = {}" "\<not> conflicting [x]"
    using assms(3) by (auto simp: sources_with_def conflicting_def)
  have "\<exists>t. update_times n ppf now [x] u = Ok t \<and> current_alpha t = current_alpha u + real n \<and> sn_count t = sn_count u + int n"
    if "scenario_ok u" for u
    using that
  proof (induction n arbitrary: u)
    case (Suc n)
    from evidence_update [OF Suc.prems assms(2), of now "[x]"] sources obtain r where
      r: "update_scenario_with_evidence ppf now u [x] = Ok r" "scenario_ok (ur_scenario r)"
        "current_alpha (ur_scenario r) = current_alpha u + 1" "sn_count (ur_scenario r) = sn_count u + 1"
      by auto
    from Suc.IH [OF r(2)] r show ?case by auto
  qed simp
  from this [OF assms(1)] assms(4) show ?thesis by simp
qed

theorem repeated_evidence_counts_again_witness:
  "\<exists>t. update_times 10 (\<lambda>q a b. q) 5 [sample_observation ''e1'' ''A'' Supports] sample_scenario = Ok t \<and>
     current_alpha t = 11 \<and> sn_count t = 10"
proof -
  have "quantile_law (\<lambda>q a b. q)" by (simp add: quantile_law_def)
  from repeated_evidence_counts_again [OF sample_scenario_ok this, of "sample_observation ''e1'' ''A'' Supports" 10 5]
  show ?thesis by (auto simp: sample_observation_def sample_scenario_def)
qed

end
