(* ===== verification/Shadow.thy ===== *)
theory Shadow
  imports Llm Sha1 "HOL-Library.Product_Lexorder" "HOL-Library.Sublist"
begin

text \<open>
  The scenario shadow (\<open>mas/scenarios/policy.py\<close>, \<open>posteriors.py\<close>, \<open>engine.py\<close> and
  \<open>sqlite_store.py\<close>): after a model call the alternative scenarios of its phase are scored by
  sampling their posterior distributions, the observation of each is recorded, and its posterior is
  updated. Nothing of it changes what the caller does.

  Parameters: the samplers of Python's generator, by the seed and the position of the draw, the
  texts of numbers, the request id and the instant. A statement of the store may raise; each
  statement commits on its own.
\<close>

subsection \<open>Policy\<close>

record shadow_config =
  sg_enabled :: bool
  sg_max_scenarios :: nat
  sg_samples :: nat
  sg_sample_cap :: nat
  sg_min_top :: real
  sg_min_margin :: real
  sg_min_reliability :: real

record weights =
  we_reliability :: real
  we_cost :: real
  we_latency :: real
  we_feedback :: real
  we_uncertainty :: real

record scenario_definition =
  sd_key :: string
  sd_label :: string
  sd_description :: string
  sd_phase :: phase
  sd_max_latency :: real
  sd_max_cost :: real
  sd_weights :: weights
  sd_threshold :: real

record posterior =
  po_key :: string
  po_label :: string
  po_phase :: phase
  po_count :: nat
  po_success_alpha :: real
  po_success_beta :: real
  po_feedback_alpha :: real
  po_feedback_beta :: real
  po_latency :: real
  po_latency_precision :: real
  po_cost :: real
  po_cost_precision :: real
  po_updated :: string

record candidate_score =
  cs_key :: string
  cs_label :: string
  cs_description :: string
  cs_utility :: real
  cs_win :: real
  cs_predicted :: real
  cs_reliability :: real
  cs_std :: real
  cs_latency :: real
  cs_cost :: real
  cs_brier :: "real option"
  cs_count :: nat
  cs_baseline :: bool

record shadow_call =
  sh_phase :: phase
  sh_project :: string
  sh_selected_provider :: string
  sh_selected_model :: string
  sh_used_provider :: string
  sh_used_model :: string
  sh_ok :: bool
  sh_latency :: real
  sh_cost :: real
  sh_feedback :: "real option"

record shadow_row =
  so_request :: string
  so_call :: shadow_call
  so_key :: string
  so_label :: string
  so_observed :: string
  so_predicted :: real
  so_success :: bool
  so_utility :: real
  so_win :: real
  so_baseline :: bool
  so_best :: bool
  so_recommended :: bool
  so_fallback :: bool
  so_hitl :: bool
  so_reasons :: string
  so_samples :: nat

record shadow_store =
  st_posteriors :: "phase \<times> string \<rightharpoonup> posterior"
  st_observations :: "shadow_row list"

record shadow_result =
  sr_available :: bool
  sr_message :: string
  sr_request :: string
  sr_phase :: phase
  sr_project :: string
  sr_best :: string
  sr_recommended :: string
  sr_fallback :: bool
  sr_hitl :: bool

definition BASELINE_SCENARIO_KEY :: string where
  "BASELINE_SCENARIO_KEY = ''baseline_deterministic''"

definition phase_runtime_bounds :: "phase \<Rightarrow> real \<times> real" where
  "phase_runtime_bounds p =
     dict_get (map_of
       [(''classify'', (6000, 8 / 100)), (''hypotheses'', (18000, 45 / 100)), (''gauntlet'', (12000, 25 / 100)),
        (''audit'', (15000, 30 / 100)), (''strategy'', (22000, 70 / 100)), (''sqi'', (12000, 20 / 100)),
        (''monitor'', (8000, 12 / 100)), (''report'', (18000, 35 / 100))]) p (12000, 25 / 100)"

definition weights_of :: "real \<Rightarrow> real \<Rightarrow> real \<Rightarrow> real \<Rightarrow> real \<Rightarrow> weights" where
  "weights_of r c l f u = \<lparr>we_reliability = r, we_cost = c, we_latency = l, we_feedback = f, we_uncertainty = u\<rparr>"

definition all_scenarios :: "phase \<Rightarrow> scenario_definition list" where
  "all_scenarios p =
     (let (latency, cost) = phase_runtime_bounds p
      in [\<lparr>sd_key = BASELINE_SCENARIO_KEY, sd_label = ''Baseline deterministic'',
           sd_description = ''Shadow mirror of the current deterministic runtime posture.'', sd_phase = p,
           sd_max_latency = latency, sd_max_cost = cost,
           sd_weights = weights_of (62 / 100) (14 / 100) (14 / 100) (5 / 100) (5 / 100), sd_threshold = 20 / 100\<rparr>,
          \<lparr>sd_key = ''reliability_guarded'', sd_label = ''Reliability guarded'',
           sd_description = ''Favors higher acceptance reliability and lower uncertainty.'', sd_phase = p,
           sd_max_latency = latency * (12 / 10), sd_max_cost = cost * (125 / 100),
           sd_weights = weights_of (75 / 100) (8 / 100) (7 / 100) (5 / 100) (12 / 100), sd_threshold = 16 / 100\<rparr>,
          \<lparr>sd_key = ''latency_guarded'', sd_label = ''Latency guarded'',
           sd_description = ''Penalizes slower calls and tighter latency envelopes.'', sd_phase = p,
           sd_max_latency = latency * (65 / 100), sd_max_cost = cost * (105 / 100),
           sd_weights = weights_of (48 / 100) (10 / 100) (30 / 100) (4 / 100) (8 / 100), sd_threshold = 20 / 100\<rparr>,
          \<lparr>sd_key = ''cost_guarded'', sd_label = ''Cost guarded'',
           sd_description = ''Penalizes higher call cost and stricter cost envelopes.'', sd_phase = p,
           sd_max_latency = latency * (105 / 100), sd_max_cost = cost * (70 / 100),
           sd_weights = weights_of (50 / 100) (28 / 100) (10 / 100) (4 / 100) (8 / 100), sd_threshold = 20 / 100\<rparr>])"

definition bounded_scenarios_for_phase :: "shadow_config \<Rightarrow> phase \<Rightarrow> scenario_definition list" where
  "bounded_scenarios_for_phase cfg p = take (sg_max_scenarios cfg) (all_scenarios p)"

subsection \<open>Posteriors\<close>

definition beta_mean :: "real \<Rightarrow> real \<Rightarrow> real" where
  "beta_mean a b = (if a + b \<le> 0 then 1 / 2 else a / (a + b))"

definition beta_variance :: "real \<Rightarrow> real \<Rightarrow> real" where
  "beta_variance a b = (let total = a + b in if total \<le> 1 then 833333333 / 10000000000 else (a * b) / (total ^ 2 * (total + 1)))"

definition beta_std :: "real \<Rightarrow> real \<Rightarrow> real" where
  "beta_std a b = sqrt (max (beta_variance a b) 0)"

definition update_beta :: "real \<Rightarrow> real \<Rightarrow> bool \<Rightarrow> real \<times> real" where
  "update_beta a b success = (if success then (a + 1, b) else (a, b + 1))"

definition update_normal_mean :: "real \<Rightarrow> real \<Rightarrow> real \<Rightarrow> real \<Rightarrow> real \<times> real" where
  "update_normal_mean m precision x observation_precision =
     (let prior = max precision (1 / 10 ^ 9); obs = max observation_precision (1 / 10 ^ 9)
      in ((prior * m + obs * x) / (prior + obs), prior + obs))"

record shadow_env =
  se_beta :: "nat \<Rightarrow> nat \<Rightarrow> real \<Rightarrow> real \<Rightarrow> real"
  se_gauss :: "nat \<Rightarrow> nat \<Rightarrow> real \<Rightarrow> real \<Rightarrow> real"
  se_format :: "nat \<Rightarrow> real \<Rightarrow> string"
  se_request :: string
  se_now :: string
  se_fails :: "nat \<Rightarrow> bool"

definition sample_beta :: "shadow_env \<Rightarrow> nat \<Rightarrow> nat \<Rightarrow> real \<Rightarrow> real \<Rightarrow> real" where
  "sample_beta env seed n a b = se_beta env seed n (max a (1 / 10 ^ 6)) (max b (1 / 10 ^ 6))"

definition sample_positive_normal :: "shadow_env \<Rightarrow> nat \<Rightarrow> nat \<Rightarrow> real \<Rightarrow> real \<Rightarrow> real" where
  "sample_positive_normal env seed n m precision =
     max 0 (se_gauss env seed n m (sqrt (1 / max precision (1 / 10 ^ 9))))"

subsection \<open>Scores\<close>

definition seed_posterior :: "phase \<Rightarrow> scenario_definition \<Rightarrow> posterior" where
  "seed_posterior p sc =
     (let (latency, cost) = phase_runtime_bounds p; baseline = (sd_key sc = BASELINE_SCENARIO_KEY)
      in \<lparr>po_key = sd_key sc, po_label = sd_label sc, po_phase = p, po_count = 0,
          po_success_alpha = (if baseline then 3 else 2), po_success_beta = 2, po_feedback_alpha = 1, po_feedback_beta = 1,
          po_latency = (if 0 < sd_max_latency sc then sd_max_latency sc else latency), po_latency_precision = 1 / 1000,
          po_cost = (if 0 < sd_max_cost sc then sd_max_cost sc else cost), po_cost_precision = 10, po_updated = ''''\<rparr>)"

definition load_or_seed_posterior :: "shadow_store \<Rightarrow> phase \<Rightarrow> scenario_definition \<Rightarrow> posterior" where
  "load_or_seed_posterior st p sc =
     (case st_posteriors st (p, sd_key sc) of Some x \<Rightarrow> x | None \<Rightarrow> seed_posterior p sc)"

definition utility :: "scenario_definition \<Rightarrow> real \<Rightarrow> real \<Rightarrow> real \<Rightarrow> real \<Rightarrow> real \<Rightarrow> real" where
  "utility sc reliability feedback latency cost uncertainty =
     (let latency_norm = min (latency / max (sd_max_latency sc) 1) 2;
          cost_norm = min (cost / max (sd_max_cost sc) (1 / 10 ^ 6)) 2; w = sd_weights sc
      in we_reliability w * reliability + we_feedback w * feedback - we_latency w * latency_norm
         - we_cost w * cost_norm - we_uncertainty w * uncertainty)"

text \<open>The utility of the scenario \<open>j\<close> of \<open>m\<close> in sample \<open>i\<close>: four draws for each scenario and sample.\<close>

definition sample_utility :: "shadow_env \<Rightarrow> nat \<Rightarrow> nat \<Rightarrow> nat \<Rightarrow> nat \<Rightarrow> scenario_definition \<Rightarrow> posterior \<Rightarrow> real" where
  "sample_utility env seed m i j sc po =
     (let n = 4 * (i * m + j)
      in utility sc (sample_beta env seed n (po_success_alpha po) (po_success_beta po))
           (sample_beta env seed (n + 1) (po_feedback_alpha po) (po_feedback_beta po))
           (sample_positive_normal env seed (n + 2) (po_latency po) (po_latency_precision po))
           (sample_positive_normal env seed (n + 3) (po_cost po) (po_cost_precision po))
           (beta_std (po_success_alpha po) (po_success_beta po)))"

definition sample_utilities :: "shadow_env \<Rightarrow> nat \<Rightarrow> nat \<Rightarrow> (scenario_definition \<times> posterior) list \<Rightarrow> (string \<times> real) list" where
  "sample_utilities env seed i cands =
     map (\<lambda>(j, sc, po). (sd_key sc, sample_utility env seed (length cands) i j sc po)) (enumerate 0 cands)"

text \<open>\<open>max(d.items(), key=...)\<close>: the first item with the greatest value.\<close>

fun first_best :: "('a \<times> real) list \<Rightarrow> 'a \<times> real \<Rightarrow> 'a \<times> real" where
  "first_best [] b = b"
| "first_best (x # xs) b = first_best xs (if snd b < snd x then x else b)"

definition winner_of :: "(string \<times> real) list \<Rightarrow> string" where
  "winner_of us = (case us of [] \<Rightarrow> '''' | u # rest \<Rightarrow> fst (first_best rest u))"

definition brier_score :: "shadow_store \<Rightarrow> phase \<Rightarrow> string \<Rightarrow> real option" where
  "brier_score st p key =
     (let rows = filter (\<lambda>r. sh_phase (so_call r) = p \<and> so_key r = key) (st_observations st)
      in if rows = [] then None
         else Some (round_to 6 ((\<Sum>r\<leftarrow>rows. (so_predicted r - (if so_success r then 1 else 0)) ^ 2) / real (length rows))))"

fun hex_value :: "string \<Rightarrow> nat \<Rightarrow> nat" where
  "hex_value [] n = n"
| "hex_value (c # cs) n = hex_value cs (16 * n + hex_digit_value c)"

definition score_scenarios ::
  "shadow_env \<Rightarrow> shadow_config \<Rightarrow> shadow_store \<Rightarrow> (scenario_definition \<times> posterior) list \<Rightarrow> candidate_score list" where
  "score_scenarios env cfg st cands =
     (let samples = min (max 1 (sg_samples cfg)) (sg_sample_cap cfg);
          seed = hex_value (take 16 (sha256_hex (utf8 (se_request env)))) 0;
          runs = map (\<lambda>i. sample_utilities env seed i cands) [0..<samples];
          winners = map winner_of runs
      in map (\<lambda>(j, sc, po).
           let mean = beta_mean (po_success_alpha po) (po_success_beta po);
               std = beta_std (po_success_alpha po) (po_success_beta po);
               us = map (\<lambda>i. sample_utility env seed (length cands) i j sc po) [0..<samples]
           in \<lparr>cs_key = sd_key sc, cs_label = sd_label sc, cs_description = sd_description sc,
               cs_utility = round_to 6 (sum_list us / real samples),
               cs_win = round_to 6 (real (length (filter (\<lambda>w. w = sd_key sc) winners)) / real samples),
               cs_predicted = round_to 6 mean, cs_reliability = round_to 6 mean, cs_std = round_to 6 std,
               cs_latency = round_to 3 (po_latency po), cs_cost = round_to 6 (po_cost po),
               cs_brier = brier_score st (sd_phase sc) (sd_key sc), cs_count = po_count po,
               cs_baseline = (sd_key sc = BASELINE_SCENARIO_KEY)\<rparr>) (enumerate 0 cands))"

text \<open>\<open>sorted(..., reverse=True)\<close> keeps the order of equal elements.\<close>

definition score_key :: "candidate_score \<Rightarrow> real \<times> real \<times> real" where
  "score_key c = (cs_utility c, cs_win c, cs_reliability c)"

definition sorted_scores :: "candidate_score list \<Rightarrow> candidate_score list" where
  "sorted_scores cs = rev (sort_key score_key (rev cs))"

definition scenario_succeeds :: "scenario_definition \<Rightarrow> shadow_call \<Rightarrow> bool" where
  "scenario_succeeds sc c =
     (if \<not> sh_ok c then False else if sd_max_latency sc < sh_latency c then False
      else if sd_max_cost sc < sh_cost c then False
      else case sh_feedback c of Some f \<Rightarrow> \<not> f < 1 / 2 | None \<Rightarrow> True)"

definition hitl_reasons :: "shadow_env \<Rightarrow> shadow_config \<Rightarrow> candidate_score list \<Rightarrow> string list" where
  "hitl_reasons env cfg cs =
     (case cs of
        [] \<Rightarrow> [''No scenario scores available.'']
      | first # rest \<Rightarrow>
          (if cs_win first < sg_min_top cfg
           then [''Top scenario win probability '' @ se_format env 2 (cs_win first) @ '' is below '' @ se_format env 2 (sg_min_top cfg) @ ''.'']
           else []) @
          (if cs_reliability first < sg_min_reliability cfg
           then [''Top scenario reliability '' @ se_format env 2 (cs_reliability first) @ '' is below '' @ se_format env 2 (sg_min_reliability cfg) @ ''.'']
           else []) @
          (case rest of [] \<Rightarrow> []
           | second # _ \<Rightarrow>
               if \<bar>cs_utility first - cs_utility second\<bar> < sg_min_margin cfg
               then [''Top-two scenario utility gap '' @ se_format env 3 \<bar>cs_utility first - cs_utility second\<bar> @ '' is below '' @
                     se_format env 3 (sg_min_margin cfg) @ ''.'']
               else []))"

subsection \<open>One request\<close>

definition update_posterior :: "posterior \<Rightarrow> string \<Rightarrow> bool \<Rightarrow> shadow_call \<Rightarrow> string \<Rightarrow> posterior" where
  "update_posterior po name success c now =
     (let (sa, sb) = update_beta (po_success_alpha po) (po_success_beta po) success;
          (fa, fb) = (case sh_feedback c of None \<Rightarrow> (po_feedback_alpha po, po_feedback_beta po)
            | Some f \<Rightarrow> update_beta (po_feedback_alpha po) (po_feedback_beta po) (1 / 2 \<le> f));
          (lm, lp) = update_normal_mean (po_latency po) (po_latency_precision po) (sh_latency c) (1 / 1000);
          (cm, cp) = update_normal_mean (po_cost po) (po_cost_precision po) (sh_cost c) 10
      in \<lparr>po_key = po_key po, po_label = name, po_phase = po_phase po, po_count = po_count po + 1,
          po_success_alpha = sa, po_success_beta = sb, po_feedback_alpha = fa, po_feedback_beta = fb,
          po_latency = lm, po_latency_precision = lp, po_cost = cm, po_cost_precision = cp, po_updated = now\<rparr>)"

definition shadow_unavailable :: "string \<Rightarrow> string \<Rightarrow> shadow_call \<Rightarrow> shadow_result" where
  "shadow_unavailable message request c =
     \<lparr>sr_available = False, sr_message = message, sr_request = request, sr_phase = sh_phase c, sr_project = sh_project c,
      sr_best = BASELINE_SCENARIO_KEY, sr_recommended = BASELINE_SCENARIO_KEY, sr_fallback = True, sr_hitl = False\<rparr>"

text \<open>The loop over the candidates: \<open>n\<close> counts the statements of the store; \<open>None\<close> after one that raised.\<close>

fun record_all ::
  "shadow_env \<Rightarrow> nat \<Rightarrow> (candidate_score \<Rightarrow> shadow_row) \<Rightarrow> shadow_call \<Rightarrow> (scenario_definition \<times> posterior \<times> candidate_score) list \<Rightarrow>
     shadow_store \<Rightarrow> shadow_store \<times> bool" where
  "record_all env n row c [] st = (st, True)"
| "record_all env n row c ((sc, po, score) # rest) st =
     (if se_fails env n then (st, False)
      else
        let st1 = st\<lparr>st_observations := st_observations st @ [row score]\<rparr>
        in if se_fails env (n + 1) then (st1, False)
           else record_all env (n + 2) row c rest
             (st1\<lparr>st_posteriors := (st_posteriors st1)((po_phase po, po_key po) \<mapsto>
               update_posterior po (cs_label score) (scenario_succeeds sc c) c (se_now env))\<rparr>))"

definition evaluate_request ::
  "shadow_env \<Rightarrow> shadow_config \<Rightarrow> shadow_call \<Rightarrow> shadow_store \<Rightarrow> shadow_store \<times> shadow_result" where
  "evaluate_request env cfg c st =
     (if \<not> sg_enabled cfg
      then (st, shadow_unavailable ''Scenario shadow disabled; deterministic baseline remains active.'' '''' c)
      else
        let scs = take (max 1 (sg_max_scenarios cfg)) (bounded_scenarios_for_phase cfg (sh_phase c)); m = length scs
        in if scs = []
           then (st, shadow_unavailable ''No bounded scenarios configured; deterministic baseline remains active.'' (se_request env) c)
           else if list_ex (se_fails env) [0..<2 * m] \<or> min (max 1 (sg_samples cfg)) (sg_sample_cap cfg) = 0
           then (st, shadow_unavailable ''Scenario shadow unavailable; deterministic baseline remains active.'' (se_request env) c)
           else
             let cands = map (\<lambda>sc. (sc, load_or_seed_posterior st (sh_phase c) sc)) scs;
                 scores = score_scenarios env cfg st cands;
                 ranked = sorted_scores scores;
                 best = hd ranked;
                 baseline = (case find cs_baseline scores of Some b \<Rightarrow> b | None \<Rightarrow> hd ranked);
                 reasons = hitl_reasons env cfg ranked;
                 fallback = (reasons \<noteq> [] \<or> cs_key best = '''');
                 recommended = (if fallback then baseline else best);
                 row = (\<lambda>score. \<lparr>so_request = se_request env, so_call = c, so_key = cs_key score, so_label = cs_label score,
                   so_observed = se_now env, so_predicted = cs_predicted score,
                   so_success = list_ex (\<lambda>sc. sd_key sc = cs_key score \<and> scenario_succeeds sc c) scs,
                   so_utility = cs_utility score, so_win = cs_win score, so_baseline = cs_baseline score,
                   so_best = (cs_key score = cs_key best), so_recommended = (cs_key score = cs_key recommended),
                   so_fallback = fallback, so_hitl = (reasons \<noteq> []), so_reasons = join_with ''; '' reasons,
                   so_samples = min (sg_samples cfg) (sg_sample_cap cfg)\<rparr>);
                 (st1, saved) = record_all env (2 * m) row c (map2 (\<lambda>(sc, po) score. (sc, po, score)) cands scores) st
             in (st1, if \<not> saved
                   then shadow_unavailable ''Scenario shadow unavailable; deterministic baseline remains active.'' (se_request env) c
                   else \<lparr>sr_available = True, sr_message = '''', sr_request = se_request env, sr_phase = sh_phase c,
                     sr_project = sh_project c, sr_best = cs_key best, sr_recommended = cs_key recommended,
                     sr_fallback = fallback, sr_hitl = (reasons \<noteq> [])\<rparr>))"

subsection \<open>Posteriors are what the observations say\<close>

definition rows_of :: "shadow_store \<Rightarrow> phase \<Rightarrow> string \<Rightarrow> shadow_row list" where
  "rows_of st p k = filter (\<lambda>r. sh_phase (so_call r) = p \<and> so_key r = k) (st_observations st)"

definition feedbacks :: "(real \<Rightarrow> bool) \<Rightarrow> shadow_row list \<Rightarrow> nat" where
  "feedbacks P rows = length (filter (\<lambda>r. case sh_feedback (so_call r) of None \<Rightarrow> False | Some f \<Rightarrow> P f) rows)"

text \<open>The posterior that a list of observations gives: counts of successes, and means of the seed with the
  observed values, every value with the weight of the seed.\<close>

definition explains :: "shadow_row list \<Rightarrow> posterior \<Rightarrow> posterior \<Rightarrow> bool" where
  "explains rows po s \<longleftrightarrow> po_key s = po_key po \<and> po_phase s = po_phase po \<and> po_count s = length rows \<and>
     po_success_alpha s = po_success_alpha po + real (length (filter so_success rows)) \<and>
     po_success_beta s = po_success_beta po + real (length (filter (\<lambda>r. \<not> so_success r) rows)) \<and>
     po_feedback_alpha s = po_feedback_alpha po + real (feedbacks (\<lambda>f. 1 / 2 \<le> f) rows) \<and>
     po_feedback_beta s = po_feedback_beta po + real (feedbacks (\<lambda>f. f < 1 / 2) rows) \<and>
     po_latency s = (po_latency po + (\<Sum>r\<leftarrow>rows. sh_latency (so_call r))) / real (length rows + 1) \<and>
     po_latency_precision s = real (length rows + 1) / 1000 \<and>
     po_cost s = (po_cost po + (\<Sum>r\<leftarrow>rows. sh_cost (so_call r))) / real (length rows + 1) \<and>
     po_cost_precision s = real (length rows + 1) * 10"

lemma explains_seed: "explains [] (seed_posterior p sc) (seed_posterior p sc)"
  by (simp add: explains_def feedbacks_def seed_posterior_def split_beta)

lemma normal_mean_weight:
  assumes "0 < w" "1 / 10 ^ 9 \<le> w"
  shows "update_normal_mean (t / real (n + 1)) (real (n + 1) * w) x w = ((t + x) / real (n + 2), real (n + 2) * w)"
proof -
  have "1 / 10 ^ 9 \<le> real (n + 1) * w"
  proof (rule order_trans [OF assms(2)])
    have "1 * w \<le> real (n + 1) * w" using assms(1) by (intro mult_right_mono) simp_all
    then show "w \<le> real (n + 1) * w" by (simp only: mult_1)
  qed
  then have prior: "max (real (n + 1) * w) (1 / 10 ^ 9) = real (n + 1) * w" "max w (1 / 10 ^ 9) = w" using assms by simp_all
  have "real (n + 1) * w * (t / real (n + 1)) + w * x = w * (t + x)" by (simp add: field_simps)
  moreover have "real (n + 1) * w + w = real (n + 2) * w" by (simp add: algebra_simps)
  moreover have "w * (t + x) / (real (n + 2) * w) = (t + x) / real (n + 2)" using assms(1) by simp
  ultimately show ?thesis unfolding update_normal_mean_def prior Let_def by simp
qed

lemma explains_update:
  assumes "explains rows po s" "so_success row = success" "so_call row = c"
  shows "explains (rows @ [row]) po (update_posterior s name success c now)"
proof -
  let ?n = "length rows"
  have now_at: "po_latency s = (po_latency po + (\<Sum>r\<leftarrow>rows. sh_latency (so_call r))) / real (?n + 1)"
    "po_latency_precision s = real (?n + 1) * (1 / 1000)"
    "po_cost s = (po_cost po + (\<Sum>r\<leftarrow>rows. sh_cost (so_call r))) / real (?n + 1)" "po_cost_precision s = real (?n + 1) * 10"
    using assms(1) unfolding explains_def by simp_all
  have lat: "update_normal_mean (po_latency s) (po_latency_precision s) (sh_latency c) (1 / 1000) =
      ((po_latency po + (\<Sum>r\<leftarrow>rows. sh_latency (so_call r)) + sh_latency c) / real (?n + 2), real (?n + 2) * (1 / 1000))"
    unfolding now_at by (rule normal_mean_weight) simp_all
  have cost: "update_normal_mean (po_cost s) (po_cost_precision s) (sh_cost c) 10 =
      ((po_cost po + (\<Sum>r\<leftarrow>rows. sh_cost (so_call r)) + sh_cost c) / real (?n + 2), real (?n + 2) * 10)"
    unfolding now_at by (rule normal_mean_weight) simp_all
  show ?thesis
    using assms unfolding explains_def update_posterior_def lat cost
    by (auto simp: update_beta_def feedbacks_def Let_def split_beta split: option.splits)
qed

subsection \<open>What one request does to the store\<close>

definition touched :: "shadow_row \<Rightarrow> posterior \<Rightarrow> string \<Rightarrow> string \<Rightarrow> bool \<Rightarrow> phase \<times> string \<Rightarrow> shadow_store \<Rightarrow> shadow_store \<Rightarrow> bool" where
  "touched row po name now fin k st st' \<longleftrightarrow>
     (\<not> fin \<and> rows_of st' (fst k) (snd k) = rows_of st (fst k) (snd k) \<and> st_posteriors st' k = st_posteriors st k) \<or>
     (\<not> fin \<and> rows_of st' (fst k) (snd k) = rows_of st (fst k) (snd k) @ [row] \<and> st_posteriors st' k = st_posteriors st k) \<or>
     (rows_of st' (fst k) (snd k) = rows_of st (fst k) (snd k) @ [row] \<and>
      st_posteriors st' k = Some (update_posterior po name (so_success row) (so_call row) now))"

definition candidates_ok :: "shadow_call \<Rightarrow> (candidate_score \<Rightarrow> shadow_row) \<Rightarrow> (scenario_definition \<times> posterior \<times> candidate_score) list \<Rightarrow> bool" where
  "candidates_ok c row cands \<longleftrightarrow> distinct (map (sd_key \<circ> fst) cands) \<and>
     (\<forall>(sc, po, score) \<in> set cands. po_phase po = sh_phase c \<and> po_key po = sd_key sc \<and> cs_key score = sd_key sc \<and>
        so_key (row score) = sd_key sc \<and> so_call (row score) = c \<and> so_success (row score) = scenario_succeeds sc c)"

lemma record_all_others:
  assumes "candidates_ok c row cands" "record_all env n row c cands st = (st', fin)"
    and "fst k \<noteq> sh_phase c \<or> snd k \<notin> sd_key ` fst ` set cands"
  shows "rows_of st' (fst k) (snd k) = rows_of st (fst k) (snd k) \<and> st_posteriors st' k = st_posteriors st k"
  using assms
proof (induction cands arbitrary: n st)
  case (Cons x cands)
  obtain sc po score where x: "x = (sc, po, score)" by (metis prod_cases3)
  from Cons.prems(1) x have ok: "candidates_ok c row cands" "so_key (row score) = sd_key sc" "so_call (row score) = c"
    "po_phase po = sh_phase c" "po_key po = sd_key sc" by (auto simp: candidates_ok_def)
  have k: "k \<noteq> (po_phase po, po_key po)" using Cons.prems(3) x ok by auto
  have row: "\<not> (sh_phase (so_call (row score)) = fst k \<and> so_key (row score) = snd k)" using Cons.prems(3) x ok by auto
  let ?st1 = "st\<lparr>st_observations := st_observations st @ [row score]\<rparr>"
  let ?st2 = "?st1\<lparr>st_posteriors := (st_posteriors ?st1)((po_phase po, po_key po) \<mapsto>
    update_posterior po (cs_label score) (scenario_succeeds sc c) c (se_now env))\<rparr>"
  have same: "rows_of ?st1 (fst k) (snd k) = rows_of st (fst k) (snd k)" "rows_of ?st2 (fst k) (snd k) = rows_of st (fst k) (snd k)"
    "st_posteriors ?st2 k = st_posteriors st k"
    using row k by (simp_all add: rows_of_def)
  consider "se_fails env n" | "\<not> se_fails env n" "se_fails env (n + 1)" | "\<not> se_fails env n" "\<not> se_fails env (n + 1)" by blast
  then show ?case
  proof cases
    case 1
    with Cons.prems(2) x show ?thesis by auto
  next
    case 2
    with Cons.prems(2) x same show ?thesis by auto
  next
    case 3
    with Cons.prems(2) x have "record_all env (n + 2) row c cands ?st2 = (st', fin)" by simp
    from Cons.IH [OF ok(1) this] Cons.prems(3) same show ?thesis by simp
  qed
qed simp

lemma record_all_touches:
  assumes "candidates_ok c row cands" "record_all env n row c cands st = (st', fin)" "(sc, po, score) \<in> set cands"
  shows "touched (row score) po (cs_label score) (se_now env) fin (sh_phase c, sd_key sc) st st'"
  using assms
proof (induction cands arbitrary: n st)
  case (Cons x cands)
  obtain sc' po' score' where x: "x = (sc', po', score')" by (metis prod_cases3)
  from Cons.prems(1) x have ok: "candidates_ok c row cands" "so_key (row score') = sd_key sc'" "so_call (row score') = c"
    "po_phase po' = sh_phase c" "po_key po' = sd_key sc'" "so_success (row score') = scenario_succeeds sc' c"
    "sd_key sc' \<notin> sd_key ` fst ` set cands"
    by (auto simp: candidates_ok_def image_comp)
  let ?k = "(sh_phase c, sd_key sc)"
  let ?st1 = "st\<lparr>st_observations := st_observations st @ [row score']\<rparr>"
  let ?st2 = "?st1\<lparr>st_posteriors := (st_posteriors ?st1)((po_phase po', po_key po') \<mapsto>
    update_posterior po' (cs_label score') (scenario_succeeds sc' c) c (se_now env))\<rparr>"
  have eq: "(sc, po, score) = x" if "sd_key sc = sd_key sc'"
  proof (rule ccontr)
    assume "(sc, po, score) \<noteq> x"
    then have "(sc, po, score) \<in> set cands" using Cons.prems(3) by simp
    then have "sd_key sc \<in> sd_key ` fst ` set cands" by force
    with ok(7) that show False by simp
  qed
  consider "se_fails env n" | "\<not> se_fails env n" "se_fails env (n + 1)" | "\<not> se_fails env n" "\<not> se_fails env (n + 1)" by blast
  then show ?case
  proof cases
    case 1
    with Cons.prems(2) x show ?thesis by (auto simp: touched_def)
  next
    case 2
    then have st': "st' = ?st1" "\<not> fin" using Cons.prems(2) x by auto
    show ?thesis
    proof (cases "sd_key sc = sd_key sc'")
      case True
      then show ?thesis using eq [OF True] x st' ok by (simp add: touched_def rows_of_def)
    next
      case False
      then show ?thesis using st' ok by (simp add: touched_def rows_of_def)
    qed
  next
    case 3
    with Cons.prems(2) x have rest: "record_all env (n + 2) row c cands ?st2 = (st', fin)" by simp
    show ?thesis
    proof (cases "sd_key sc = sd_key sc'")
      case True
      then have "snd ?k \<notin> sd_key ` fst ` set cands" using ok(7) by simp
      from record_all_others [OF ok(1) rest, of ?k] this
      have "rows_of st' (sh_phase c) (sd_key sc) = rows_of ?st2 (sh_phase c) (sd_key sc)" "st_posteriors st' ?k = st_posteriors ?st2 ?k"
        by simp_all
      then show ?thesis using eq [OF True] x ok by (simp add: touched_def rows_of_def)
    next
      case False
      then have "(sc, po, score) \<in> set cands" using Cons.prems(3) x by auto
      from Cons.IH [OF ok(1) rest this] False ok show ?thesis by (simp add: touched_def rows_of_def)
    qed
  qed
qed simp

lemma scenario_keys:
  "map sd_key (all_scenarios p) = [BASELINE_SCENARIO_KEY, ''reliability_guarded'', ''latency_guarded'', ''cost_guarded'']"
  "distinct (map sd_key (all_scenarios p))"
  by (simp_all add: all_scenarios_def split_beta BASELINE_SCENARIO_KEY_def)

lemma score_keys:
  "map cs_key (score_scenarios env cfg st cands) = map (sd_key \<circ> fst) cands"
  "length (score_scenarios env cfg st cands) = length cands"
  "x \<in> set (score_scenarios env cfg st cands) \<Longrightarrow> cs_baseline x = (cs_key x = BASELINE_SCENARIO_KEY)"
proof -
  have keys: "map cs_key (score_scenarios env cfg st cands) = map (\<lambda>x. sd_key (fst (snd x))) (enumerate 0 cands)"
    unfolding score_scenarios_def Let_def map_map by (rule map_cong) (auto split: prod.splits)
  show "map cs_key (score_scenarios env cfg st cands) = map (sd_key \<circ> fst) cands"
    unfolding keys by (rule nth_equalityI) (simp_all add: nth_enumerate_eq)
  show "length (score_scenarios env cfg st cands) = length cands" by (simp add: score_scenarios_def Let_def)
  show "x \<in> set (score_scenarios env cfg st cands) \<Longrightarrow> cs_baseline x = (cs_key x = BASELINE_SCENARIO_KEY)"
    by (auto simp: score_scenarios_def Let_def)
qed

definition selected_scenarios :: "shadow_config \<Rightarrow> phase \<Rightarrow> scenario_definition list" where
  "selected_scenarios cfg p = take (max 1 (sg_max_scenarios cfg)) (bounded_scenarios_for_phase cfg p)"

lemma selected_prefix: "\<exists>n. selected_scenarios cfg p = take n (all_scenarios p)"
  unfolding selected_scenarios_def bounded_scenarios_for_phase_def take_take by blast

lemma selected_keys:
  "distinct (map sd_key (selected_scenarios cfg p))" "set (selected_scenarios cfg p) \<subseteq> set (all_scenarios p)"
  "selected_scenarios cfg p \<noteq> [] \<Longrightarrow> sd_key (hd (selected_scenarios cfg p)) = BASELINE_SCENARIO_KEY"
proof -
  obtain n where n: "selected_scenarios cfg p = take n (all_scenarios p)" using selected_prefix by blast
  show "distinct (map sd_key (selected_scenarios cfg p))"
    unfolding n using scenario_keys(2) by (simp add: take_map [symmetric] distinct_take)
  show "set (selected_scenarios cfg p) \<subseteq> set (all_scenarios p)" unfolding n by (rule set_take_subset)
  assume ne: "selected_scenarios cfg p \<noteq> []"
  have "sd_key (hd (all_scenarios p)) = BASELINE_SCENARIO_KEY" by (simp add: all_scenarios_def split_beta)
  then show "sd_key (hd (selected_scenarios cfg p)) = BASELINE_SCENARIO_KEY"
    using ne unfolding n by (simp add: hd_take)
qed

lemma same_scenario:
  assumes "sc \<in> set (all_scenarios p)" "sd_key sc \<in> sd_key ` set (selected_scenarios cfg p)"
  shows "sc \<in> set (selected_scenarios cfg p)"
proof -
  obtain sc' where sc': "sc' \<in> set (selected_scenarios cfg p)" "sd_key sc = sd_key sc'" using assms(2) by blast
  then have "sc' \<in> set (all_scenarios p)" using selected_keys(2) by blast
  with assms(1) sc'(2) scenario_keys(2) [of p] have "sc = sc'" by (auto simp: distinct_map inj_on_def)
  with sc'(1) show ?thesis by simp
qed

lemma record_all_done: "(\<And>n. \<not> se_fails env n) \<Longrightarrow> snd (record_all env n row c cands st)"
  by (induction env n row c cands st rule: record_all.induct) (simp_all add: Let_def)

definition shadow_ok :: "bool \<Rightarrow> shadow_store \<Rightarrow> bool" where
  "shadow_ok full st \<longleftrightarrow> (\<forall>p. \<forall>sc \<in> set (all_scenarios p). \<exists>used. subseq used (rows_of st p (sd_key sc)) \<and>
     explains used (seed_posterior p sc) (load_or_seed_posterior st p sc) \<and> (full \<longrightarrow> used = rows_of st p (sd_key sc)))"

lemma shadow_okE:
  assumes "shadow_ok full st" "sc \<in> set (all_scenarios p)"
  obtains used where "subseq used (rows_of st p (sd_key sc))"
    "explains used (seed_posterior p sc) (load_or_seed_posterior st p sc)" "full \<Longrightarrow> used = rows_of st p (sd_key sc)"
  using assms unfolding shadow_ok_def by blast

definition candidates_for :: "shadow_config \<Rightarrow> shadow_call \<Rightarrow> shadow_store \<Rightarrow> (scenario_definition \<times> posterior) list" where
  "candidates_for cfg c st =
     map (\<lambda>sc. (sc, load_or_seed_posterior st (sh_phase c) sc)) (selected_scenarios cfg (sh_phase c))"

definition fallback_of :: "shadow_env \<Rightarrow> shadow_config \<Rightarrow> candidate_score list \<Rightarrow> bool" where
  "fallback_of env cfg scores \<longleftrightarrow> hitl_reasons env cfg (sorted_scores scores) \<noteq> [] \<or> cs_key (hd (sorted_scores scores)) = ''''"

definition recommended_of :: "shadow_env \<Rightarrow> shadow_config \<Rightarrow> candidate_score list \<Rightarrow> candidate_score" where
  "recommended_of env cfg scores =
     (if fallback_of env cfg scores
      then (case find cs_baseline scores of Some b \<Rightarrow> b | None \<Rightarrow> hd (sorted_scores scores)) else hd (sorted_scores scores))"

definition row_tells ::
  "shadow_env \<Rightarrow> shadow_config \<Rightarrow> shadow_call \<Rightarrow> candidate_score list \<Rightarrow> (candidate_score \<Rightarrow> shadow_row) \<Rightarrow> bool" where
  "row_tells env cfg c scores row \<longleftrightarrow> (\<forall>score. so_key (row score) = cs_key score \<and> so_call (row score) = c \<and>
     so_success (row score) = list_ex (\<lambda>sc. sd_key sc = cs_key score \<and> scenario_succeeds sc c) (selected_scenarios cfg (sh_phase c)) \<and>
     so_request (row score) = se_request env \<and> so_best (row score) = (cs_key score = cs_key (hd (sorted_scores scores))) \<and>
     so_recommended (row score) = (cs_key score = cs_key (recommended_of env cfg scores)) \<and>
     so_fallback (row score) = fallback_of env cfg scores \<and>
     so_hitl (row score) = (hitl_reasons env cfg (sorted_scores scores) \<noteq> []))"

definition answers :: "shadow_env \<Rightarrow> shadow_config \<Rightarrow> candidate_score list \<Rightarrow> shadow_result \<Rightarrow> bool" where
  "answers env cfg scores r \<longleftrightarrow> sr_request r = se_request env \<and> sr_best r = cs_key (hd (sorted_scores scores)) \<and>
     sr_fallback r = fallback_of env cfg scores \<and> sr_recommended r = cs_key (recommended_of env cfg scores) \<and>
     sr_hitl r = (hitl_reasons env cfg (sorted_scores scores) \<noteq> [])"

text \<open>What a request does: nothing, or the loop over the bounded scenarios.\<close>

lemma evaluate_cases:
  assumes "evaluate_request env cfg c st = (st', r)"
  obtains (idle) "st' = st" "\<not> sr_available r" "r = shadow_unavailable (sr_message r) (sr_request r) c"
      "\<not> sg_enabled cfg \<or> selected_scenarios cfg (sh_phase c) = [] \<or> (\<exists>n. se_fails env n) \<or> min (max 1 (sg_samples cfg)) (sg_sample_cap cfg) = 0"
    | (loop) n row scores fin where "selected_scenarios cfg (sh_phase c) \<noteq> []"
      "scores = score_scenarios env cfg st (candidates_for cfg c st)" "row_tells env cfg c scores row"
      "record_all env n row c (map2 (\<lambda>(sc, po) score. (sc, po, score)) (candidates_for cfg c st) scores) st = (st', fin)"
      "sr_available r = fin" "fin \<Longrightarrow> answers env cfg scores r"
      "\<not> fin \<Longrightarrow> r = shadow_unavailable (sr_message r) (sr_request r) c"
proof -
  let ?scs = "selected_scenarios cfg (sh_phase c)"
  let ?stops = "list_ex (se_fails env) [0..<2 * length ?scs] \<or> min (max 1 (sg_samples cfg)) (sg_sample_cap cfg) = 0"
  consider "\<not> sg_enabled cfg" | "sg_enabled cfg" "?scs = []" | "sg_enabled cfg" "?scs \<noteq> []" ?stops
    | "sg_enabled cfg" "?scs \<noteq> []" "\<not> ?stops" by argo
  then show ?thesis
  proof cases
    case 1
    with assms have "st' = st" "r = shadow_unavailable ''Scenario shadow disabled; deterministic baseline remains active.'' '''' c"
      by (simp_all add: evaluate_request_def)
    with 1 show ?thesis by - (rule idle, auto simp: shadow_unavailable_def list_ex_iff)
  next
    case 2
    with assms have "st' = st"
      "r = shadow_unavailable ''No bounded scenarios configured; deterministic baseline remains active.'' (se_request env) c"
      by (simp_all add: evaluate_request_def selected_scenarios_def)
    with 2 show ?thesis by - (rule idle, auto simp: shadow_unavailable_def list_ex_iff)
  next
    case 3
    with assms have "st' = st"
      "r = shadow_unavailable ''Scenario shadow unavailable; deterministic baseline remains active.'' (se_request env) c"
      unfolding evaluate_request_def selected_scenarios_def [symmetric] Let_def
      by (simp_all only: if_False if_True not_True_eq_False not_False_eq_True prod.inject)
    with 3 show ?thesis by - (rule idle, auto simp: shadow_unavailable_def list_ex_iff)
  next
    case 4
    let ?scores = "score_scenarios env cfg st (candidates_for cfg c st)"
    let ?best = "hd (sorted_scores ?scores)"
    let ?reasons = "hitl_reasons env cfg (sorted_scores ?scores)"
    let ?fallback = "fallback_of env cfg ?scores"
    let ?recommended = "recommended_of env cfg ?scores"
    let ?row = "\<lambda>score. \<lparr>so_request = se_request env, so_call = c, so_key = cs_key score, so_label = cs_label score,
      so_observed = se_now env, so_predicted = cs_predicted score,
      so_success = list_ex (\<lambda>sc. sd_key sc = cs_key score \<and> scenario_succeeds sc c) ?scs,
      so_utility = cs_utility score, so_win = cs_win score, so_baseline = cs_baseline score,
      so_best = (cs_key score = cs_key ?best), so_recommended = (cs_key score = cs_key ?recommended),
      so_fallback = ?fallback, so_hitl = (?reasons \<noteq> []), so_reasons = join_with ''; '' ?reasons,
      so_samples = min (sg_samples cfg) (sg_sample_cap cfg)\<rparr>"
    obtain st1 fin where rec: "record_all env (2 * length ?scs) ?row c
        (map2 (\<lambda>(sc, po) score. (sc, po, score)) (candidates_for cfg c st) ?scores) st = (st1, fin)"
      by fastforce
    have "evaluate_request env cfg c st = (st1, if \<not> fin
        then shadow_unavailable ''Scenario shadow unavailable; deterministic baseline remains active.'' (se_request env) c
        else \<lparr>sr_available = True, sr_message = '''', sr_request = se_request env, sr_phase = sh_phase c,
          sr_project = sh_project c, sr_best = cs_key ?best, sr_recommended = cs_key ?recommended,
          sr_fallback = ?fallback, sr_hitl = (?reasons \<noteq> [])\<rparr>)"
      using 4 rec
      unfolding evaluate_request_def selected_scenarios_def [symmetric] candidates_for_def [symmetric] recommended_of_def fallback_of_def Let_def
      by (simp only: if_False if_True not_True_eq_False not_False_eq_True prod.case)
    with assms have out: "st' = st1" "r = (if \<not> fin
        then shadow_unavailable ''Scenario shadow unavailable; deterministic baseline remains active.'' (se_request env) c
        else \<lparr>sr_available = True, sr_message = '''', sr_request = se_request env, sr_phase = sh_phase c,
          sr_project = sh_project c, sr_best = cs_key ?best, sr_recommended = cs_key ?recommended,
          sr_fallback = ?fallback, sr_hitl = (?reasons \<noteq> [])\<rparr>)"
      by (simp_all only: prod.inject)
    show ?thesis
    proof (rule loop [of ?scores ?row "2 * length ?scs" "fin"])
      show "?scs \<noteq> []" by (rule 4)
      show "row_tells env cfg c ?scores ?row" unfolding row_tells_def by simp
      show "record_all env (2 * length ?scs) ?row c (map2 (\<lambda>(sc, po) score. (sc, po, score)) (candidates_for cfg c st) ?scores) st = (st', fin)"
        unfolding out(1) by (rule rec)
      show "sr_available r = fin" unfolding out(2) by (cases "fin") (simp_all add: shadow_unavailable_def)
      show "fin \<Longrightarrow> answers env cfg ?scores r"
        unfolding out(2) answers_def
        by (simp only: if_True if_False not_True_eq_False not_False_eq_True shadow_result.select_convs simp_thms)
      show "\<not> fin \<Longrightarrow> r = shadow_unavailable (sr_message r) (sr_request r) c"
        unfolding out(2) by (simp add: shadow_unavailable_def)
    qed (rule refl)
  qed
qed

lemma zipped_candidates:
  assumes "x \<in> set (map2 (\<lambda>(sc, po) score. (sc, po, score)) (map (\<lambda>sc. (sc, f sc)) scs) scores)"
    and "map cs_key scores = map sd_key scs"
  obtains sc score where "x = (sc, f sc, score)" "sc \<in> set scs" "score \<in> set scores" "cs_key score = sd_key sc"
proof -
  have len: "length scores = length scs" using assms(2) by (metis length_map)
  obtain i where i: "i < length scs" "x = (scs ! i, f (scs ! i), scores ! i)"
    using assms(1) len by (auto simp: in_set_conv_nth)
  have "cs_key (scores ! i) = sd_key (scs ! i)" using assms(2) i(1) len by (metis nth_map)
  with that i len show ?thesis by simp
qed

lemma zipped_member:
  assumes "sc \<in> set scs" "length scores = length scs"
  shows "\<exists>score. (sc, f sc, score) \<in> set (map2 (\<lambda>(sc, po) score. (sc, po, score)) (map (\<lambda>sc. (sc, f sc)) scs) scores)"
proof -
  obtain i where i: "i < length scs" "sc = scs ! i" using assms(1) by (auto simp: in_set_conv_nth)
  let ?zip = "map2 (\<lambda>(sc, po) score. (sc, po, score)) (map (\<lambda>sc. (sc, f sc)) scs) scores"
  have at_i: "?zip ! i = (sc, f sc, scores ! i)" using i assms(2) by simp
  have "?zip ! i \<in> set ?zip" using i(1) assms(2) by (intro nth_mem) simp
  then show ?thesis unfolding at_i by (rule exI)
qed

lemma evaluate_keeps:
  assumes ok: "shadow_ok full st" and run: "evaluate_request env cfg c st = (st', r)"
  shows "shadow_ok (full \<and> (\<forall>n. \<not> se_fails env n)) st'"
proof (cases rule: evaluate_cases [OF run, case_names idle loop])
  case idle
  with ok show ?thesis unfolding shadow_ok_def by blast
next
  let ?scs = "selected_scenarios cfg (sh_phase c)"
  let ?f = "load_or_seed_posterior st (sh_phase c)"
  let ?cands = "map (\<lambda>sc. (sc, ?f sc)) ?scs"
  case (loop n row scores fin)
  note scores = loop(2) [unfolded candidates_for_def] and rec = loop(4) [unfolded candidates_for_def]
    and row = loop(3) [unfolded row_tells_def, rule_format]
  let ?zip = "map2 (\<lambda>(sc, po) score. (sc, po, score)) ?cands scores"
  have keys: "map cs_key scores = map sd_key ?scs" "length scores = length ?scs"
    unfolding scores using score_keys(1,2) [of env cfg st ?cands] by (simp_all add: comp_def)
  have success: "list_ex (\<lambda>x. sd_key x = sd_key sc \<and> scenario_succeeds x c) ?scs = scenario_succeeds sc c" if "sc \<in> set ?scs" for sc
    using that selected_keys(1) [of cfg "sh_phase c"] by (fastforce simp: list_ex_iff distinct_map inj_on_def)
  have loaded: "po_phase (?f sc) = sh_phase c \<and> po_key (?f sc) = sd_key sc" if "sc \<in> set ?scs" for sc
  proof -
    have "sc \<in> set (all_scenarios (sh_phase c))" using that selected_keys(2) by blast
    with ok obtain used where "explains used (seed_posterior (sh_phase c) sc) (?f sc)" by (rule shadow_okE)
    then show ?thesis by (simp add: explains_def seed_posterior_def split_beta)
  qed
  have cands: "candidates_ok c row ?zip"
    unfolding candidates_ok_def
  proof
    have "map (sd_key \<circ> fst) ?zip = map sd_key ?scs"
      using keys(2) by (intro nth_equalityI) auto
    then show "distinct (map (sd_key \<circ> fst) ?zip)" using selected_keys(1) by simp
    show "\<forall>(sc, po, score) \<in> set ?zip. po_phase po = sh_phase c \<and> po_key po = sd_key sc \<and> cs_key score = sd_key sc \<and>
        so_key (row score) = sd_key sc \<and> so_call (row score) = c \<and> so_success (row score) = scenario_succeeds sc c"
    proof
      fix x assume "x \<in> set ?zip"
      then obtain sc score where "x = (sc, ?f sc, score)" "sc \<in> set ?scs" "score \<in> set scores" "cs_key score = sd_key sc"
        by (rule zipped_candidates [OF _ keys(1)])
      then show "case x of (sc, po, score) \<Rightarrow> po_phase po = sh_phase c \<and> po_key po = sd_key sc \<and> cs_key score = sd_key sc \<and>
          so_key (row score) = sd_key sc \<and> so_call (row score) = c \<and> so_success (row score) = scenario_succeeds sc c"
        using loaded row success by simp
    qed
  qed
  have zip_keys: "sd_key ` fst ` set ?zip \<subseteq> sd_key ` set ?scs"
  proof
    fix k assume "k \<in> sd_key ` fst ` set ?zip"
    then obtain x where x: "x \<in> set ?zip" "k = sd_key (fst x)" by blast
    from x(1) obtain sc score where "x = (sc, ?f sc, score)" "sc \<in> set ?scs" by (rule zipped_candidates [OF _ keys(1)])
    with x(2) show "k \<in> sd_key ` set ?scs" by simp
  qed
  show ?thesis
    unfolding shadow_ok_def
  proof (intro allI ballI)
    fix p sc assume sc: "sc \<in> set (all_scenarios p)"
    from ok sc obtain used where used: "subseq used (rows_of st p (sd_key sc))"
      "explains used (seed_posterior p sc) (load_or_seed_posterior st p sc)" "full \<Longrightarrow> used = rows_of st p (sd_key sc)"
      by (rule shadow_okE) blast
    show "\<exists>used. subseq used (rows_of st' p (sd_key sc)) \<and> explains used (seed_posterior p sc) (load_or_seed_posterior st' p sc) \<and>
        (full \<and> (\<forall>n. \<not> se_fails env n) \<longrightarrow> used = rows_of st' p (sd_key sc))"
    proof (cases "p = sh_phase c \<and> sd_key sc \<in> sd_key ` set ?scs")
      case False
      then have "p \<noteq> sh_phase c \<or> sd_key sc \<notin> sd_key ` fst ` set ?zip" using zip_keys by blast
      then have "rows_of st' p (sd_key sc) = rows_of st p (sd_key sc)" "st_posteriors st' (p, sd_key sc) = st_posteriors st (p, sd_key sc)"
        using record_all_others [OF cands rec, of "(p, sd_key sc)"] by simp_all
      with used show ?thesis by (intro exI [of _ used]) (simp add: load_or_seed_posterior_def)
    next
      case True
      then have sel: "sc \<in> set ?scs" using same_scenario sc by blast
      from zipped_member [OF this keys(2), of ?f] obtain score where mem: "(sc, ?f sc, score) \<in> set ?zip" by blast
      have touch: "touched (row score) (?f sc) (cs_label score) (se_now env) fin (p, sd_key sc) st st'"
        using record_all_touches [OF cands rec mem] True by simp
      have finished: "fin" if "\<forall>n. \<not> se_fails env n" using record_all_done [of env n row c ?zip st] that rec by simp
      have sub: "subseq used (rows_of st p (sd_key sc) @ [row score])" using used(1) by (rule list_emb_prefix)
      have sub': "subseq (used @ [row score]) (rows_of st p (sd_key sc) @ [row score])" using used(1) by simp
      have new: "explains (used @ [row score]) (seed_posterior p sc)
          (update_posterior (?f sc) (cs_label score) (so_success (row score)) (so_call (row score)) (se_now env))"
        using explains_update used(2) True by simp
      from touch consider
          (none) "\<not> fin" "rows_of st' p (sd_key sc) = rows_of st p (sd_key sc)" "st_posteriors st' (p, sd_key sc) = st_posteriors st (p, sd_key sc)"
        | (row) "\<not> fin" "rows_of st' p (sd_key sc) = rows_of st p (sd_key sc) @ [row score]" "st_posteriors st' (p, sd_key sc) = st_posteriors st (p, sd_key sc)"
        | (both) "rows_of st' p (sd_key sc) = rows_of st p (sd_key sc) @ [row score]"
            "st_posteriors st' (p, sd_key sc) = Some (update_posterior (?f sc) (cs_label score) (so_success (row score)) (so_call (row score)) (se_now env))"
        unfolding touched_def by auto
      then show ?thesis
      proof cases
        case none
        with used finished show ?thesis by (intro exI [of _ used]) (auto simp: load_or_seed_posterior_def)
      next
        case row
        with used sub finished show ?thesis by (intro exI [of _ used]) (auto simp: load_or_seed_posterior_def)
      next
        case both
        with used sub' new show ?thesis by (intro exI [of _ "used @ [row score]"]) (auto simp: load_or_seed_posterior_def)
      qed
    qed
  qed
qed

definition empty_shadow :: shadow_store where
  "empty_shadow = \<lparr>st_posteriors = Map.empty, st_observations = []\<rparr>"

definition run_requests :: "shadow_config \<Rightarrow> (shadow_env \<times> shadow_call) list \<Rightarrow> shadow_store \<Rightarrow> shadow_store" where
  "run_requests cfg reqs st = foldl (\<lambda>u (env, c). fst (evaluate_request env cfg c u)) st reqs"

lemma empty_shadow_ok: "shadow_ok True empty_shadow"
  unfolding shadow_ok_def
  by (intro allI ballI exI [of _ "[]"]) (simp add: rows_of_def empty_shadow_def load_or_seed_posterior_def explains_seed)

lemma run_requests_ok:
  "shadow_ok full st \<Longrightarrow> shadow_ok (full \<and> (\<forall>x \<in> set reqs. \<forall>n. \<not> se_fails (fst x) n)) (run_requests cfg reqs st)"
proof (induction reqs arbitrary: st full)
  case (Cons x reqs)
  obtain env c where x: "x = (env, c)" by fastforce
  obtain st' r where run: "evaluate_request env cfg c st = (st', r)" by fastforce
  from evaluate_keeps [OF Cons.prems run] have "shadow_ok (full \<and> (\<forall>n. \<not> se_fails env n)) st'" .
  from Cons.IH [OF this] show ?case using x run by (simp add: run_requests_def conj_assoc)
qed (simp add: run_requests_def)

text \<open>C33: the posterior of a scenario is what its recorded observations say. After any requests, for any phases
  and with any failures of the store, there are observations among those recorded for the scenario
  such that the stored posterior (or the seed, when there is none) counts their successes and
  failures and has as its means the averages of the seed with the observed latencies and costs;
  and when no statement of the store failed these are all the recorded observations. So a failure
  can lose an observation, but no posterior ever moves without one.\<close>

theorem posteriors_are_conjugate:
  assumes "sc \<in> set (all_scenarios p)"
  shows "\<exists>used. subseq used (rows_of (run_requests cfg reqs empty_shadow) p (sd_key sc)) \<and>
    explains used (seed_posterior p sc) (load_or_seed_posterior (run_requests cfg reqs empty_shadow) p sc) \<and>
    ((\<forall>x \<in> set reqs. \<forall>n. \<not> se_fails (fst x) n) \<longrightarrow> used = rows_of (run_requests cfg reqs empty_shadow) p (sd_key sc))"
  using run_requests_ok [OF empty_shadow_ok, of reqs cfg] assms unfolding shadow_ok_def by blast

definition witness_config :: shadow_config where
  "witness_config = \<lparr>sg_enabled = True, sg_max_scenarios = 2, sg_samples = 1, sg_sample_cap = 1,
     sg_min_top = 1 / 2, sg_min_margin = 1 / 100, sg_min_reliability = 2 / 5\<rparr>"

definition witness_env :: shadow_env where
  "witness_env = \<lparr>se_beta = (\<lambda>_ n _ _. if n = 4 then 1 else 0), se_gauss = (\<lambda>_ _ _ _. 0), se_format = (\<lambda>_ _. ''''),
     se_request = ''classify-1'', se_now = ''t'', se_fails = (\<lambda>_. False)\<rparr>"

definition witness_call :: shadow_call where
  "witness_call = \<lparr>sh_phase = ''classify'', sh_project = ''p'', sh_selected_provider = '''', sh_selected_model = '''',
     sh_used_provider = '''', sh_used_model = '''', sh_ok = True, sh_latency = 7000, sh_cost = 0, sh_feedback = None\<rparr>"

theorem posteriors_are_conjugate_witness:
  "explains (rows_of (run_requests witness_config [(witness_env, witness_call)] empty_shadow) ''classify'' ''reliability_guarded'')
     (seed_posterior ''classify'' (all_scenarios ''classify'' ! 1))
     (load_or_seed_posterior (run_requests witness_config [(witness_env, witness_call)] empty_shadow) ''classify'' (all_scenarios ''classify'' ! 1))"
proof -
  let ?sc = "all_scenarios ''classify'' ! 1"
  have sc: "?sc \<in> set (all_scenarios ''classify'')" "sd_key ?sc = ''reliability_guarded''"
    by (simp_all add: all_scenarios_def split_beta)
  from posteriors_are_conjugate [OF sc(1), of witness_config "[(witness_env, witness_call)]"]
  show ?thesis unfolding sc(2) by (auto simp: witness_env_def)
qed

subsection \<open>What may be recommended\<close>

lemma sorted_scores_descending:
  "set (sorted_scores cs) = set cs" "sorted_wrt (\<lambda>x y. cs_utility y \<le> cs_utility x) (sorted_scores cs)"
proof -
  show "set (sorted_scores cs) = set cs" by (simp add: sorted_scores_def)
  have "sorted_wrt (\<lambda>x y. score_key x \<le> score_key y) (sort_key score_key (rev cs))"
    using sorted_sort_key [of score_key "rev cs"] by (simp add: sorted_map)
  then have "sorted_wrt (\<lambda>x y. cs_utility x \<le> cs_utility y) (sort_key score_key (rev cs))"
    by (rule sorted_wrt_mono_rel [rotated]) (auto simp: score_key_def less_eq_prod_def)
  then show "sorted_wrt (\<lambda>x y. cs_utility y \<le> cs_utility x) (sorted_scores cs)"
    by (simp add: sorted_scores_def sorted_wrt_rev)
qed

definition clearly_best :: "shadow_config \<Rightarrow> candidate_score list \<Rightarrow> candidate_score \<Rightarrow> bool" where
  "clearly_best cfg scores best \<longleftrightarrow> best \<in> set scores \<and> sg_min_top cfg \<le> cs_win best \<and> sg_min_reliability cfg \<le> cs_reliability best \<and>
     list_all (\<lambda>x. cs_key x = cs_key best \<or> cs_utility x + sg_min_margin cfg \<le> cs_utility best) scores"

lemma no_reason_best:
  assumes "hitl_reasons env cfg (sorted_scores scores) = []"
  shows "clearly_best cfg scores (hd (sorted_scores scores))"
proof (cases "sorted_scores scores")
  case Nil
  with assms show ?thesis by (simp add: hitl_reasons_def)
next
  case (Cons b rest)
  have all: "set scores = insert b (set rest)" using sorted_scores_descending(1) [of scores] Cons by simp
  have le: "\<forall>x \<in> set rest. cs_utility x \<le> cs_utility b" "sorted_wrt (\<lambda>x y. cs_utility y \<le> cs_utility x) rest"
    using sorted_scores_descending(2) [of scores] Cons by simp_all
  from assms Cons have b: "sg_min_top cfg \<le> cs_win b" "sg_min_reliability cfg \<le> cs_reliability b"
    by (auto simp: hitl_reasons_def split: if_splits)
  have "cs_utility x + sg_min_margin cfg \<le> cs_utility b" if x: "x \<in> set rest" for x
  proof (cases rest)
    case (Cons s rest')
    have "sg_min_margin cfg \<le> \<bar>cs_utility b - cs_utility s\<bar>"
      using assms \<open>sorted_scores scores = b # rest\<close> Cons by (auto simp: hitl_reasons_def split: if_splits)
    moreover have "cs_utility s \<le> cs_utility b" "cs_utility x \<le> cs_utility s" using x le Cons by auto
    ultimately show ?thesis by linarith
  qed (use x in simp)
  with all b Cons show ?thesis by (auto simp: clearly_best_def list_all_iff)
qed

lemma baseline_scored:
  assumes "selected_scenarios cfg (sh_phase c) \<noteq> []"
  obtains b where "find cs_baseline (score_scenarios env cfg st (candidates_for cfg c st)) = Some b" "cs_key b = BASELINE_SCENARIO_KEY"
proof -
  let ?scores = "score_scenarios env cfg st (candidates_for cfg c st)"
  have "map cs_key ?scores = map sd_key (selected_scenarios cfg (sh_phase c))"
    unfolding score_keys(1) by (simp add: candidates_for_def comp_def)
  then have "BASELINE_SCENARIO_KEY \<in> cs_key ` set ?scores"
    using selected_keys(3) [OF assms] hd_in_set [OF assms] by (metis image_eqI list.set_map)
  then obtain x where "x \<in> set ?scores" "cs_baseline x" using score_keys(3) by (metis imageE)
  then have "find cs_baseline ?scores \<noteq> None" by (auto simp: find_None_iff)
  then obtain b where b: "find cs_baseline ?scores = Some b" by blast
  then have "b \<in> set ?scores" "cs_baseline b" by (auto simp: find_Some_iff)
  then have "cs_key b = BASELINE_SCENARIO_KEY" using score_keys(3) by blast
  with b that show ?thesis by blast
qed


definition witness_store :: shadow_store where
  "witness_store = \<lparr>st_posteriors = [(''classify'', ''reliability_guarded'') \<mapsto>
     (seed_posterior ''classify'' (all_scenarios ''classify'' ! 1))\<lparr>po_success_alpha := 3\<rparr>], st_observations = []\<rparr>"

lemmas witness_defs = witness_config_def witness_env_def witness_call_def witness_store_def

lemma witness_candidates:
  "candidates_for witness_config witness_call witness_store =
     [(all_scenarios ''classify'' ! 0, seed_posterior ''classify'' (all_scenarios ''classify'' ! 0)),
      (all_scenarios ''classify'' ! 1, (seed_posterior ''classify'' (all_scenarios ''classify'' ! 1))\<lparr>po_success_alpha := 3\<rparr>)]"
  by (simp add: candidates_for_def selected_scenarios_def bounded_scenarios_for_phase_def all_scenarios_def split_beta
    witness_defs load_or_seed_posterior_def BASELINE_SCENARIO_KEY_def)

lemma round_to_exact: "x * 10 ^ n = of_int k \<Longrightarrow> round_to n x = x"
  by (simp add: round_to_def py_round_def field_simps)

lemma witness_scores:
  "map (\<lambda>s. (cs_key s, cs_utility s, cs_win s, cs_reliability s))
     (score_scenarios witness_env witness_config witness_store (candidates_for witness_config witness_call witness_store)) =
   [(BASELINE_SCENARIO_KEY, - (1 / 100), 0, 3 / 5), (''reliability_guarded'', 363 / 500, 1, 3 / 5)]"
proof -
  have root: "sqrt (1 / 25) = 1 / (5::real)" by (rule real_sqrt_unique) (simp_all add: power2_eq_square)
  have exact: "round_to 6 (- (1 / 100)) = - (1 / 100)" "round_to 6 (363 / 500) = 363 / 500" "round_to 6 0 = 0"
    "round_to 6 1 = 1" "round_to 6 (3 / 5) = 3 / 5"
    by (rule round_to_exact [where k = "-10000"] round_to_exact [where k = 726000] round_to_exact [where k = 0]
      round_to_exact [where k = 1000000] round_to_exact [where k = 600000]; simp)+
  show ?thesis
    unfolding witness_candidates score_scenarios_def Let_def
    by (simp add: all_scenarios_def split_beta witness_defs phase_runtime_bounds_def dict_get_def weights_of_def
      sample_utilities_def sample_utility_def utility_def sample_beta_def sample_positive_normal_def Let_def seed_posterior_def
      beta_mean_def beta_std_def beta_variance_def winner_of_def BASELINE_SCENARIO_KEY_def upt_rec root exact)
qed


end
