(* ===== verification/ScenarioViews.thy ===== *)
theory ScenarioViews
  imports Shadow Config "HOL-Library.Multiset"
begin

text \<open>
  The read side of the scenario shadow (\<open>mas/scenarios/eval.py\<close> with the queries of
  \<open>sqlite_store.py\<close>): the view of a phase shows the observations of the latest request of a
  project, and the view of a project those of all its phases. The observations are kept in the
  order of their ids.
\<close>

subsection \<open>Queries\<close>

definition project_rows :: "shadow_store \<Rightarrow> string \<Rightarrow> phase \<Rightarrow> shadow_row list" where
  "project_rows st project p = filter (\<lambda>r. sh_project (so_call r) = project \<and> sh_phase (so_call r) = p) (st_observations st)"

definition latest_request_id :: "shadow_store \<Rightarrow> string \<Rightarrow> phase \<Rightarrow> string" where
  "latest_request_id st project p =
     (let rows = project_rows st project p in if rows = [] then '''' else so_request (last rows))"

definition list_request_observations :: "shadow_store \<Rightarrow> string \<Rightarrow> phase \<Rightarrow> shadow_row list" where
  "list_request_observations st request p = filter (\<lambda>r. so_request r = request \<and> sh_phase (so_call r) = p) (st_observations st)"

definition has_project_phase :: "shadow_store \<Rightarrow> string \<Rightarrow> phase \<Rightarrow> bool" where
  "has_project_phase st project p \<longleftrightarrow> list_ex (\<lambda>r. sh_project (so_call r) = project \<and> sh_phase (so_call r) = p) (st_observations st)"

subsection \<open>The view of a phase\<close>

record viewed_score = candidate_score +
  vs_best :: bool
  vs_recommended :: bool

record metric_snapshot =
  mt_key :: string
  mt_label :: string
  mt_count :: nat
  mt_reliability :: real
  mt_std :: real
  mt_brier :: "real option"
  mt_latency :: real
  mt_cost :: real

record comparison =
  cm_baseline :: metric_snapshot
  cm_candidate :: metric_snapshot
  cm_reliability :: real
  cm_calibration :: "real option"
  cm_cost :: real
  cm_latency :: real

record phase_view =
  pv_available :: bool
  pv_message :: string
  pv_project :: string
  pv_phase :: phase
  pv_request :: string
  pv_observed :: string
  pv_selected_provider :: string
  pv_selected_model :: string
  pv_used_provider :: string
  pv_used_model :: string
  pv_samples :: nat
  pv_best :: string
  pv_best_label :: string
  pv_recommended :: string
  pv_recommended_label :: string
  pv_fallback :: bool
  pv_hitl :: bool
  pv_reasons :: "string list"
  pv_ensemble :: "(string \<times> string \<times> real) list"
  pv_scenarios :: "viewed_score list"
  pv_comparison :: "comparison option"
  pv_success :: bool
  pv_latency :: real
  pv_cost :: real

definition empty_phase_view :: "string \<Rightarrow> phase \<Rightarrow> phase_view" where
  "empty_phase_view project p =
     \<lparr>pv_available = False, pv_message = ''No shadow scenario observations recorded for this phase yet.'',
      pv_project = project, pv_phase = p, pv_request = '''', pv_observed = '''', pv_selected_provider = '''',
      pv_selected_model = '''', pv_used_provider = '''', pv_used_model = '''', pv_samples = 0,
      pv_best = BASELINE_SCENARIO_KEY, pv_best_label = ''Baseline deterministic'',
      pv_recommended = BASELINE_SCENARIO_KEY, pv_recommended_label = ''Baseline deterministic'',
      pv_fallback = True, pv_hitl = False, pv_reasons = [], pv_ensemble = [], pv_scenarios = [], pv_comparison = None,
      pv_success = False, pv_latency = 0, pv_cost = 0\<rparr>"

definition score_of_row :: "shadow_store \<Rightarrow> phase \<Rightarrow> shadow_row \<Rightarrow> viewed_score" where
  "score_of_row st p row =
     (let (mean, std, count, latency, cost) = (case st_posteriors st (p, so_key row) of
            None \<Rightarrow> (1 / 2, 288675 / 1000000, 0, sh_latency (so_call row), sh_cost (so_call row))
          | Some po \<Rightarrow> (beta_mean (po_success_alpha po) (po_success_beta po), beta_std (po_success_alpha po) (po_success_beta po),
              po_count po, po_latency po, po_cost po))
      in \<lparr>cs_key = so_key row, cs_label = so_label row, cs_description = '''', cs_utility = so_utility row, cs_win = so_win row,
          cs_predicted = so_predicted row, cs_reliability = round_to 6 mean, cs_std = round_to 6 std,
          cs_latency = round_to 3 latency, cs_cost = round_to 6 cost, cs_brier = brier_score st p (so_key row),
          cs_count = count, cs_baseline = so_baseline row, vs_best = so_best row, vs_recommended = so_recommended row\<rparr>)"

text \<open>The loop keeps the last row with a mark.\<close>

definition last_marked :: "(shadow_row \<Rightarrow> bool) \<Rightarrow> shadow_row list \<Rightarrow> shadow_row option" where
  "last_marked P rows = (case filter P rows of [] \<Rightarrow> None | x # xs \<Rightarrow> Some (last (x # xs)))"

definition first_or :: "('a \<Rightarrow> bool) \<Rightarrow> 'a list \<Rightarrow> 'a \<Rightarrow> 'a" where
  "first_or P xs d = (case find P xs of Some x \<Rightarrow> x | None \<Rightarrow> d)"

definition view_key :: "viewed_score \<Rightarrow> real \<times> real" where
  "view_key s = (cs_utility s, cs_win s)"

definition ranked_views :: "viewed_score list \<Rightarrow> viewed_score list" where
  "ranked_views scores = rev (sort_key view_key (rev scores))"

fun split_reasons :: "string \<Rightarrow> string \<Rightarrow> string list" where
  "split_reasons acc [] = [rev acc]"
| "split_reasons acc (c # cs) = (if c = CHR '';'' then rev acc # split_reasons [] cs else split_reasons (c # acc) cs)"

definition reasons_shown :: "string \<Rightarrow> string list" where
  "reasons_shown text' = filter (\<lambda>x. x \<noteq> []) (map py_strip (split_reasons [] text'))"

definition metric_snapshot_of :: "viewed_score \<Rightarrow> metric_snapshot" where
  "metric_snapshot_of s =
     \<lparr>mt_key = cs_key s, mt_label = cs_label s, mt_count = cs_count s, mt_reliability = cs_reliability s, mt_std = cs_std s,
      mt_brier = cs_brier s, mt_latency = cs_latency s, mt_cost = cs_cost s\<rparr>"

definition comparison_against_baseline :: "viewed_score \<Rightarrow> viewed_score \<Rightarrow> comparison" where
  "comparison_against_baseline baseline candidate =
     \<lparr>cm_baseline = metric_snapshot_of baseline, cm_candidate = metric_snapshot_of candidate,
      cm_reliability = round_to 6 (cs_reliability candidate - cs_reliability baseline),
      cm_calibration = (case (cs_brier baseline, cs_brier candidate) of
          (Some b, Some x) \<Rightarrow> Some (round_to 6 (x - b)) | _ \<Rightarrow> None),
      cm_cost = round_to 6 (cs_cost candidate - cs_cost baseline),
      cm_latency = round_to 3 (cs_latency candidate - cs_latency baseline)\<rparr>"

definition build_phase_shadow_view :: "real \<Rightarrow> shadow_store \<Rightarrow> string \<Rightarrow> phase \<Rightarrow> phase_view" where
  "build_phase_shadow_view min_probability st project p =
     (let request = latest_request_id st project p; rows = list_request_observations st request p
      in if request = '''' \<or> rows = [] then empty_phase_view project p
         else
           let scores = map (score_of_row st p) rows;
               ranked = ranked_views scores;
               baseline_row = (case last_marked so_baseline rows of Some x \<Rightarrow> x
                 | None \<Rightarrow> first_or (\<lambda>x. so_key x = BASELINE_SCENARIO_KEY) rows (hd rows));
               best_row = (case last_marked so_best rows of Some x \<Rightarrow> x | None \<Rightarrow> hd rows);
               recommended_row = (case last_marked so_recommended rows of Some x \<Rightarrow> x | None \<Rightarrow> baseline_row);
               baseline = first_or (\<lambda>s. cs_key s = so_key baseline_row) ranked (hd ranked);
               best = first_or (\<lambda>s. cs_key s = so_key best_row) ranked (hd ranked);
               recommended = first_or (\<lambda>s. cs_key s = so_key recommended_row) ranked baseline;
               first = hd rows
           in \<lparr>pv_available = True, pv_message = '''', pv_project = project, pv_phase = p, pv_request = request,
               pv_observed = so_observed first, pv_selected_provider = sh_selected_provider (so_call first),
               pv_selected_model = sh_selected_model (so_call first), pv_used_provider = sh_used_provider (so_call first),
               pv_used_model = sh_used_model (so_call first), pv_samples = so_samples first,
               pv_best = cs_key best, pv_best_label = cs_label best,
               pv_recommended = cs_key recommended, pv_recommended_label = cs_label recommended,
               pv_fallback = so_fallback first, pv_hitl = so_hitl first, pv_reasons = reasons_shown (so_reasons first),
               pv_ensemble = map (\<lambda>s. (cs_key s, cs_label s, cs_win s))
                 (filter (\<lambda>s. min_probability \<le> cs_win s \<or> vs_best s) ranked),
               pv_scenarios = ranked, pv_comparison = Some (comparison_against_baseline baseline best),
               pv_success = so_success baseline_row, pv_latency = sh_latency (so_call baseline_row),
               pv_cost = sh_cost (so_call baseline_row)\<rparr>)"

record project_view =
  jv_project :: string
  jv_available :: bool
  jv_message :: string
  jv_phases :: "phase_view list"

definition build_project_shadow_view :: "real \<Rightarrow> shadow_store \<Rightarrow> string \<Rightarrow> project_view" where
  "build_project_shadow_view min_probability st project =
     (let phases = filter (has_project_phase st project) PHASES;
          none = ''No shadow scenario observations recorded for this project yet.''
      in if phases = [] then \<lparr>jv_project = project, jv_available = False, jv_message = none, jv_phases = []\<rparr>
         else
           let views = map (build_phase_shadow_view min_probability st project) phases; available = list_ex pv_available views
           in \<lparr>jv_project = project, jv_available = available, jv_message = (if available then '''' else none), jv_phases = views\<rparr>)"

subsection \<open>The view shows what the request answered\<close>

lemma record_all_rows:
  "record_all env n row c cands st = (st', True) \<Longrightarrow> st_observations st' = st_observations st @ map (\<lambda>(_, _, score). row score) cands"
proof (induction env n row c cands st arbitrary: st' rule: record_all.induct)
  case (2 env n row c sc po score rest st)
  from 2(2) have ok: "\<not> se_fails env n" "\<not> se_fails env (n + 1)" by (simp_all add: Let_def split: if_splits)
  from 2(2) ok have "record_all env (n + 2) row c rest (st\<lparr>st_observations := st_observations st @ [row score],
      st_posteriors := (st_posteriors st)((po_phase po, po_key po) \<mapsto>
        update_posterior po (cs_label score) (scenario_succeeds sc c) c (se_now env))\<rparr>) = (st', True)"
    by (simp add: Let_def)
  with 2(1) [OF ok(1) refl ok(2)] show ?case by simp
qed simp

lemma zipped_scores:
  "length xs = length ys \<Longrightarrow> map (\<lambda>(_, _, score). f score) (map2 (\<lambda>(a, b) score. (a, b, score)) xs ys) = map f ys"
  by (induction xs ys rule: list_induct2) auto

lemma first_or_key:
  "x \<in> set xs \<Longrightarrow> f x = k \<Longrightarrow> f (first_or (\<lambda>s. f s = k) xs d) = k"
  by (auto simp: first_or_def find_None_iff find_Some_iff split: option.splits)

lemma last_marked_some: "x \<in> set rows \<Longrightarrow> P x \<Longrightarrow> \<exists>y. last_marked P rows = Some y \<and> y \<in> set rows \<and> P y"
proof -
  assume "x \<in> set rows" "P x"
  then have ne: "filter P rows \<noteq> []" by (auto simp: filter_empty_conv)
  then have "last_marked P rows = Some (last (filter P rows))" by (cases "filter P rows") (simp_all add: last_marked_def)
  moreover have "last (filter P rows) \<in> set (filter P rows)" using ne by (rule last_in_set)
  ultimately show ?thesis by simp
qed

lemma ranked_views_mset [simp]: "set (ranked_views scores) = set scores" "mset (ranked_views scores) = mset scores"
  by (simp_all add: ranked_views_def)

lemma score_of_row_key [simp]: "cs_key (score_of_row st p row) = so_key row"
  by (simp add: score_of_row_def split_beta)

text \<open>A marked row decides what is shown, whichever score the loops find for it.\<close>

lemma marked_key:
  assumes "x \<in> set rows" "P x" "\<And>y. P y \<Longrightarrow> y \<in> set rows \<Longrightarrow> so_key y = k"
  shows "cs_key (first_or (\<lambda>s. cs_key s = so_key (case last_marked P rows of Some y \<Rightarrow> y | None \<Rightarrow> d))
    (ranked_views (map (score_of_row st p) rows)) e) = k"
proof -
  obtain y where y: "last_marked P rows = Some y" "y \<in> set rows" "P y" using last_marked_some [of x rows P] assms(1,2) by blast
  have "score_of_row st p y \<in> set (ranked_views (map (score_of_row st p) rows))" using y(2) by simp
  from first_or_key [OF this, of cs_key, OF score_of_row_key]
  have "cs_key (first_or (\<lambda>s. cs_key s = so_key y) (ranked_views (map (score_of_row st p) rows)) e) = so_key y" .
  then show ?thesis unfolding y(1) option.case assms(3) [OF y(3,2)] .
qed

lemma shown_after:
  assumes run: "evaluate_request env cfg c st = (st', r)" and ok: "sr_available r"
    and fresh: "list_request_observations st (se_request env) (sh_phase c) = []" and id: "se_request env \<noteq> ''''"
  shows "let v = build_phase_shadow_view m st' (sh_project c) (sh_phase c)
    in pv_available v \<and> pv_request v = sr_request r \<and> pv_best v = sr_best r \<and> pv_recommended v = sr_recommended r \<and>
       pv_fallback v = sr_fallback r \<and> pv_hitl v = sr_hitl r \<and>
       mset (map cs_key (pv_scenarios v)) = mset (map sd_key (selected_scenarios cfg (sh_phase c)))"
proof (cases rule: evaluate_cases [OF run, case_names idle loop])
  case idle
  with ok show ?thesis by simp
next
  let ?cands = "candidates_for cfg c st"
  case (loop n row scores fin)
  have keys: "map cs_key scores = map sd_key (selected_scenarios cfg (sh_phase c))" "length ?cands = length scores"
    unfolding loop(2) score_keys(1,2) by (simp_all add: candidates_for_def comp_def)
  have done': "fin = True" using loop(5) ok by simp
  from record_all_rows [OF loop(4) [unfolded done']]
  have obs: "st_observations st' = st_observations st @ map row scores" unfolding zipped_scores [OF keys(2)] .
  have row: "so_key (row x) = cs_key x" "so_call (row x) = c" "so_request (row x) = se_request env"
    "so_best (row x) = (cs_key x = sr_best r)" "so_recommended (row x) = (cs_key x = sr_recommended r)"
    "so_fallback (row x) = sr_fallback r" "so_hitl (row x) = sr_hitl r" "sr_request r = se_request env" for x
    using loop(3,6) done' unfolding row_tells_def answers_def by simp_all
  have ne: "scores \<noteq> []" using loop(1) keys(1) by auto
  have rows: "list_request_observations st' (se_request env) (sh_phase c) = map row scores"
    using fresh unfolding list_request_observations_def obs filter_append by (simp add: row filter_map comp_def)
  have latest: "latest_request_id st' (sh_project c) (sh_phase c) = se_request env"
    using ne unfolding latest_request_id_def project_rows_def obs filter_append
    by (simp add: row filter_map comp_def last_map)
  have in_scores: "sr_best r \<in> cs_key ` set scores" "sr_recommended r \<in> cs_key ` set scores"
  proof -
    have best: "hd (sorted_scores scores) \<in> set scores"
      using ne sorted_scores_descending(1) [of scores] by (metis hd_in_set list.set_sel(1) set_empty)
    have "recommended_of env cfg scores \<in> set scores"
      using best by (auto simp: recommended_of_def find_Some_iff split: option.splits)
    with best loop(6) done' show "sr_best r \<in> cs_key ` set scores" "sr_recommended r \<in> cs_key ` set scores"
      unfolding answers_def by auto
  qed
  obtain b where b: "b \<in> set scores" "cs_key b = sr_best r" using in_scores(1) by auto
  obtain a where a: "a \<in> set scores" "cs_key a = sr_recommended r" using in_scores(2) by auto
  have best: "cs_key (first_or (\<lambda>s. cs_key s = so_key (case last_marked so_best (map row scores) of Some y \<Rightarrow> y | None \<Rightarrow> d))
      (ranked_views (map (score_of_row st' (sh_phase c)) (map row scores))) e) = sr_best r" for d e
    by (rule marked_key [of "row b"]) (use b row in auto)
  have recommended: "cs_key (first_or (\<lambda>s. cs_key s = so_key (case last_marked so_recommended (map row scores) of Some y \<Rightarrow> y | None \<Rightarrow> d))
      (ranked_views (map (score_of_row st' (sh_phase c)) (map row scores))) e) = sr_recommended r" for d e
    by (rule marked_key [of "row a"]) (use a row in auto)
  have first: "so_fallback (hd (map row scores)) = sr_fallback r" "so_hitl (hd (map row scores)) = sr_hitl r"
    using ne row by (simp_all add: hd_map)
  have shown: "mset (map cs_key (ranked_views (map (score_of_row st' (sh_phase c)) (map row scores)))) = mset (map cs_key scores)"
  proof -
    have "map cs_key (map (score_of_row st' (sh_phase c)) (map row scores)) = map cs_key scores" by (simp add: comp_def row)
    then show ?thesis unfolding mset_map ranked_views_mset by (metis mset_map)
  qed
  show ?thesis
    unfolding build_phase_shadow_view_def latest rows Let_def
    using id ne best recommended first shown row(8) keys(1) by simp
qed

text \<open>C34: the view of a phase is the answer the request got. After an evaluation whose observations were
  all stored, under a request id that no observation of the phase has yet, the view of the project's
  phase is available and shows that request with the best and the recommended scenario, the fallback
  and the call for a human that the request was answered with, and it lists every scenario that was
  evaluated exactly once, whatever the store held before.\<close>

theorem view_shows_request:
  assumes "sr_available (snd (evaluate_request env cfg c st))"
    and "list_request_observations st (se_request env) (sh_phase c) = []" and "se_request env \<noteq> ''''"
  shows "let v = build_phase_shadow_view m (fst (evaluate_request env cfg c st)) (sh_project c) (sh_phase c);
      r = snd (evaluate_request env cfg c st)
    in pv_available v \<and> pv_request v = sr_request r \<and> pv_best v = sr_best r \<and> pv_recommended v = sr_recommended r \<and>
       pv_fallback v = sr_fallback r \<and> pv_hitl v = sr_hitl r \<and>
       mset (map cs_key (pv_scenarios v)) = mset (map sd_key (selected_scenarios cfg (sh_phase c)))"
  using shown_after [OF prod.collapse [symmetric] assms, of m] unfolding Let_def .

lemma witness_available: "sr_available (snd (evaluate_request witness_env witness_config witness_call witness_store))"
proof -
  obtain st' r where run: "evaluate_request witness_env witness_config witness_call witness_store = (st', r)" by fastforce
  have never: "\<And>n. \<not> se_fails witness_env n" by (simp add: witness_env_def)
  show ?thesis
  proof (cases rule: evaluate_cases [OF run, case_names idle loop])
    case idle
    from idle(4) show ?thesis
      by (simp add: witness_defs selected_scenarios_def bounded_scenarios_for_phase_def all_scenarios_def split_beta)
  next
    case (loop n row scores fin)
    with record_all_done [OF never] show ?thesis by (metis run snd_conv)
  qed
qed

theorem view_shows_request_witness:
  "let v = build_phase_shadow_view (1 / 5) (fst (evaluate_request witness_env witness_config witness_call witness_store)) ''p'' ''classify'';
      r = snd (evaluate_request witness_env witness_config witness_call witness_store)
    in pv_available v \<and> pv_request v = sr_request r \<and> pv_best v = sr_best r \<and> pv_recommended v = sr_recommended r \<and>
       mset (map cs_key (pv_scenarios v)) = {#BASELINE_SCENARIO_KEY, ''reliability_guarded''#}"
proof -
  have none: "list_request_observations witness_store (se_request witness_env) (sh_phase witness_call) = []"
    "se_request witness_env \<noteq> ''''" by (simp_all add: list_request_observations_def witness_defs)
  have two: "map sd_key (selected_scenarios witness_config (sh_phase witness_call)) = [BASELINE_SCENARIO_KEY, ''reliability_guarded'']"
    by (simp add: selected_scenarios_def bounded_scenarios_for_phase_def all_scenarios_def split_beta witness_config_def)
  have at_call: "sh_project witness_call = ''p''" "sh_phase witness_call = ''classify''" by (simp_all add: witness_call_def)
  from view_shows_request [OF witness_available none, of "1 / 5"] show ?thesis
    unfolding two unfolding at_call Let_def by simp
qed

end
