(* ===== verification/EvidenceUse.thy ===== *)
theory EvidenceUse
  imports CanonicalJson Sha256 "HOL-Library.Product_Lexorder" "HOL-Library.Multiset"
begin

text \<open>
  Which evidence an Automation ROI calculation may use
  (\<open>mas/research_evidence/automation_roi_use_policy.py\<close>, with the commands and retries of
  \<open>automation_roi_use_models.py\<close> and \<open>automation_roi_use_repository.py\<close>): a set of six bindings, one
  for each role, is judged by a fixed policy whose parameters are identified by the digest of their
  canonical text. Ids and texts are strings, an instant is a number.
\<close>

subsection \<open>Bindings\<close>

datatype consumer_disposition = Meets_contract | Disposition_qualified | Does_not_meet_contract | Disposition_indeterminate

datatype binding_review_status = Review_not_assessed | Review_approved | Review_rejected | Review_needs_revision | Review_withdrawn

datatype freshness_status = Fresh | Stale | Freshness_unknown | Freshness_not_applicable

datatype drift_status = Drift_not_assessed | No_material_drift | Material_drift | Drift_indeterminate

record binding =
  bn_id :: string
  bn_project :: string
  bn_contract :: string
  bn_contract_version :: string
  bn_set :: string
  bn_key :: string
  bn_kind :: "string option"
  bn_policy :: string
  bn_policy_version :: string
  bn_parameters :: jval
  bn_fingerprint :: string
  bn_evaluator :: string
  bn_as_of :: int
  bn_available :: bool
  bn_lineage_current :: bool
  bn_review :: binding_review_status
  bn_freshness :: freshness_status
  bn_drift :: drift_status
  bn_disposition :: consumer_disposition
  bn_reasons :: "string list"
  bn_claim :: "string option"
  bn_support :: "string option"
  bn_locator :: "string option"
  bn_linkage :: "string option"
  bn_relationship :: "string option"

subsection \<open>The policy\<close>

definition CONSUMER_CONTRACT :: string where "CONSUMER_CONTRACT = ''deterministic_calculation''"
definition CONSUMER_CONTRACT_VERSION :: string where "CONSUMER_CONTRACT_VERSION = ''automation_roi.evidence_input.v1''"
definition POLICY_IDENTIFIER :: string where "POLICY_IDENTIFIER = ''automation_roi.evidence_use''"
definition POLICY_VERSION :: string where "POLICY_VERSION = ''1''"
definition EVALUATOR_VERSION :: string where "EVALUATOR_VERSION = ''automation_roi.evidence_use.evaluator.v1''"
definition CALCULATION_KIND :: string where "CALCULATION_KIND = ''automation_roi''"

definition REQUIRED_ROLES :: "string list" where
  "REQUIRED_ROLES = [''baseline_hours_per_period'', ''post_automation_hours_per_period'', ''fully_loaded_rate_per_hour'',
     ''periods_per_year'', ''annual_recurring_cost'', ''one_time_implementation_cost'']"

definition texts :: "string list \<Rightarrow> jval" where
  "texts xs = JList (map JStr xs)"

definition POLICY_PARAMETERS :: jval where
  "POLICY_PARAMETERS = JObj
     [(''binding_record_must_be_current'', JBool True),
      (''calculation_kind'', JStr CALCULATION_KIND),
      (''consumer_contract'', JStr CONSUMER_CONTRACT),
      (''does_not_satisfy'', JObj
        [(''availability_status'', JList [JBool False]),
         (''consumer_disposition'', texts [''does_not_meet_contract'']),
         (''disposition_reasons'', texts [''contradiction_declared'']),
         (''drift_status'', texts [''material_drift'']),
         (''lineage_is_current'', JList [JBool False]),
         (''review_status'', texts [''rejected'', ''needs_revision'', ''withdrawn''])]),
      (''indeterminate'', JObj
        [(''consumer_disposition'', texts [''indeterminate'']),
         (''drift_status'', texts [''not_assessed'', ''indeterminate'']),
         (''freshness_status'', texts [''unknown'']),
         (''review_status'', texts [''not_assessed''])]),
      (''qualified'', JObj
        [(''consumer_disposition'', texts [''qualified'']),
         (''freshness_status'', texts [''stale''])]),
      (''required_roles'', texts REQUIRED_ROLES),
      (''satisfies'', JObj
        [(''availability_status'', JBool True),
         (''consumer_disposition'', JStr ''meets_contract''),
         (''drift_status'', JStr ''no_material_drift''),
         (''freshness_status'', JStr ''fresh''),
         (''lineage_is_current'', JBool True),
         (''review_status'', JStr ''approved'')]),
      (''status_precedence'', texts [''does_not_satisfy'', ''indeterminate'', ''qualified'', ''satisfies''])]"

text \<open>There is no float in the parameters, so the text of floats does not matter.\<close>

definition canonical_policy_json :: string where
  "canonical_policy_json = canonical_json (\<lambda>_. '''') POLICY_PARAMETERS"

definition POLICY_FINGERPRINT :: string where
  "POLICY_FINGERPRINT = sha256_hex (utf8 canonical_policy_json)"

text \<open>\<open>==\<close> of Python on decoded JSON: a boolean is the number 0 or 1, a dict has no order.\<close>

fun py_number :: "jval \<Rightarrow> real option" where
  "py_number (JBool b) = Some (if b then 1 else 0)"
| "py_number (JInt i) = Some (real_of_int i)"
| "py_number (JNum r) = Some r"
| "py_number _ = None"

function py_equal :: "jval \<Rightarrow> jval \<Rightarrow> bool" where
  "py_equal (JList xs) w = (case w of JList ys \<Rightarrow> length xs = length ys \<and> list_all (\<lambda>p. py_equal (fst p) (snd p)) (zip xs ys) | _ \<Rightarrow> False)"
| "py_equal (JObj ms) w = (case w of
     JObj ns \<Rightarrow> length ms = length ns \<and>
       list_all (\<lambda>m. case map_of ns (fst m) of Some u \<Rightarrow> py_equal (snd m) u | None \<Rightarrow> False) ms
   | _ \<Rightarrow> False)"
| "py_equal (JStr s) w = (w = JStr s)"
| "py_equal JNull w = (w = JNull)"
| "py_equal (JBool b) w = (py_number w = Some (if b then 1 else 0))"
| "py_equal (JInt i) w = (py_number w = Some (real_of_int i))"
| "py_equal (JNum r) w = (py_number w = Some r)"
  by pat_completeness auto
termination
proof (relation "measure (\<lambda>(v, w). size v)")
  fix xs :: "jval list" and w :: jval and ys :: "jval list" and p
  assume "p \<in> set (zip xs ys)"
  then have "fst p \<in> set xs" by (metis prod.collapse set_zip_leftD)
  then have "size (fst p) \<le> size_list size xs" by (rule size_list_estimation') simp
  then show "((fst p, snd p), JList xs, w) \<in> measure (\<lambda>(v, w). size v)" by (simp add: split_beta)
next
  fix ms :: "(string \<times> jval) list" and w u :: jval and m
  assume m: "m \<in> set ms"
  have "size (snd m) \<le> size_prod (\<lambda>x. 0) size m" by (cases m) simp
  from m this have "size (snd m) \<le> size_list (size_prod (\<lambda>x. 0) size) ms" by (rule size_list_estimation')
  then show "((snd m, u), JObj ms, w) \<in> measure (\<lambda>(v, w). size v)" by simp
qed simp

definition role_order :: "string \<Rightarrow> nat \<times> string" where
  "role_order role = (length (takeWhile (\<lambda>r. r \<noteq> role) REQUIRED_ROLES), role)"

definition use_reason :: "string \<Rightarrow> string \<Rightarrow> string" where
  "use_reason role code' = ''role:'' @ role @ '':'' @ code'"

text \<open>What was asked for: the project, the set, the instant and the bindings that have a successor.\<close>

record use_query =
  uq_project :: string
  uq_set :: string
  uq_as_of :: int
  uq_successors :: "string set"

definition code_if :: "bool \<Rightarrow> string \<Rightarrow> string list" where
  "code_if b c = (if b then [c] else [])"

definition set_mismatches :: "use_query \<Rightarrow> binding \<Rightarrow> string list" where
  "set_mismatches q b =
     code_if (bn_project b \<noteq> uq_project q) ''project_mismatch'' @
     code_if (bn_contract b \<noteq> CONSUMER_CONTRACT) ''consumer_contract_mismatch'' @
     code_if (bn_contract_version b \<noteq> CONSUMER_CONTRACT_VERSION) ''consumer_contract_version_mismatch'' @
     code_if (bn_set b \<noteq> uq_set q) ''binding_set_mismatch'' @
     code_if (bn_kind b \<noteq> Some CALCULATION_KIND) ''calculation_kind_mismatch'' @
     code_if (bn_policy b \<noteq> POLICY_IDENTIFIER) ''policy_identifier_mismatch'' @
     code_if (bn_policy_version b \<noteq> POLICY_VERSION) ''policy_version_mismatch'' @
     code_if (\<not> py_equal (bn_parameters b) POLICY_PARAMETERS) ''policy_parameters_mismatch'' @
     code_if (bn_fingerprint b \<noteq> POLICY_FINGERPRINT) ''policy_fingerprint_mismatch'' @
     code_if (bn_evaluator b \<noteq> EVALUATOR_VERSION) ''evaluator_version_mismatch'' @
     code_if (bn_as_of b \<noteq> uq_as_of q) ''freshness_as_of_mismatch'' @
     code_if (list_ex (\<lambda>v. v \<noteq> None) [bn_claim b, bn_support b, bn_locator b, bn_linkage b, bn_relationship b]) ''claim_semantics_present''"

definition review_name :: "binding_review_status \<Rightarrow> string" where
  "review_name r = (case r of Review_not_assessed \<Rightarrow> ''not_assessed'' | Review_approved \<Rightarrow> ''approved''
     | Review_rejected \<Rightarrow> ''rejected'' | Review_needs_revision \<Rightarrow> ''needs_revision'' | Review_withdrawn \<Rightarrow> ''withdrawn'')"

definition drift_name :: "drift_status \<Rightarrow> string" where
  "drift_name d = (case d of Drift_not_assessed \<Rightarrow> ''not_assessed'' | No_material_drift \<Rightarrow> ''no_material_drift''
     | Material_drift \<Rightarrow> ''material_drift'' | Drift_indeterminate \<Rightarrow> ''indeterminate'')"

definition hard_codes :: "use_query \<Rightarrow> binding \<Rightarrow> string list" where
  "hard_codes q b =
     set_mismatches q b @
     code_if (bn_id b \<in> uq_successors q) ''binding_record_superseded'' @
     code_if (\<not> bn_available b) ''evidence_unavailable'' @
     code_if (\<not> bn_lineage_current b) ''lineage_not_current'' @
     code_if (bn_review b \<in> {Review_rejected, Review_needs_revision, Review_withdrawn}) (''review_'' @ review_name (bn_review b)) @
     code_if (bn_drift b = Material_drift) ''material_drift'' @
     code_if (bn_disposition b = Does_not_meet_contract) ''consumer_does_not_meet_contract'' @
     code_if (''contradiction_declared'' \<in> set (bn_reasons b)) ''contradiction_declared''"

definition indeterminate_codes :: "binding \<Rightarrow> string list" where
  "indeterminate_codes b =
     code_if (bn_review b = Review_not_assessed) ''review_not_assessed'' @
     code_if (bn_freshness b = Freshness_unknown) ''freshness_unknown'' @
     code_if (bn_drift b \<in> {Drift_not_assessed, Drift_indeterminate}) (''drift_'' @ drift_name (bn_drift b)) @
     code_if (bn_disposition b = Disposition_indeterminate) ''consumer_indeterminate''"

definition qualified_codes :: "binding \<Rightarrow> string list" where
  "qualified_codes b =
     code_if (bn_freshness b = Stale) ''freshness_stale'' @
     code_if (bn_disposition b = Disposition_qualified) ''consumer_qualified''"

datatype use_status = Does_not_satisfy | Use_indeterminate | Use_qualified | Satisfies

definition reasons_of :: "(binding \<Rightarrow> string list) \<Rightarrow> binding list \<Rightarrow> string list" where
  "reasons_of codes bs = dedupe_key id {} (concat (map (\<lambda>b. map (use_reason (bn_key b)) (codes b)) bs))"

definition evaluate_binding_set :: "use_query \<Rightarrow> binding list \<Rightarrow> use_status \<times> string list" where
  "evaluate_binding_set q bs =
     (let ordered = sort_key (role_order \<circ> bn_key) bs;
          hard = reasons_of (hard_codes q) ordered;
          indeterminate = reasons_of indeterminate_codes ordered;
          qualified = reasons_of qualified_codes ordered
      in if hard \<noteq> [] then (Does_not_satisfy, hard)
         else if indeterminate \<noteq> [] then (Use_indeterminate, indeterminate)
         else if qualified \<noteq> [] then (Use_qualified, qualified)
         else (Satisfies, [''policy_satisfied'']))"

subsection \<open>What the policy decides\<close>

lemma reasons_of_empty: "reasons_of codes bs = [] \<longleftrightarrow> (\<forall>b \<in> set bs. codes b = [])"
proof -
  have "set (reasons_of codes bs) = set (concat (map (\<lambda>b. map (use_reason (bn_key b)) (codes b)) bs))"
    unfolding reasons_of_def using dedupe_key_keys [of id "{}"] by (simp only: image_id id_apply Diff_empty)
  then have "reasons_of codes bs = [] \<longleftrightarrow> concat (map (\<lambda>b. map (use_reason (bn_key b)) (codes b)) bs) = []" by (metis set_empty)
  then show ?thesis by simp
qed

lemma code_if_empty [simp]: "code_if b c = [] \<longleftrightarrow> \<not> b"
  by (simp add: code_if_def)

definition fits_query :: "use_query \<Rightarrow> binding \<Rightarrow> bool" where
  "fits_query q b \<longleftrightarrow> bn_project b = uq_project q \<and> bn_set b = uq_set q \<and> bn_as_of b = uq_as_of q \<and>
     bn_contract b = CONSUMER_CONTRACT \<and> bn_contract_version b = CONSUMER_CONTRACT_VERSION \<and> bn_kind b = Some CALCULATION_KIND \<and>
     bn_policy b = POLICY_IDENTIFIER \<and> bn_policy_version b = POLICY_VERSION \<and> bn_fingerprint b = POLICY_FINGERPRINT \<and>
     py_equal (bn_parameters b) POLICY_PARAMETERS \<and> bn_evaluator b = EVALUATOR_VERSION \<and>
     bn_claim b = None \<and> bn_support b = None \<and> bn_locator b = None \<and> bn_linkage b = None \<and> bn_relationship b = None"

definition usable :: "use_query \<Rightarrow> binding \<Rightarrow> bool" where
  "usable q b \<longleftrightarrow> fits_query q b \<and> bn_id b \<notin> uq_successors q \<and> bn_available b \<and> bn_lineage_current b \<and>
     bn_review b = Review_approved \<and> bn_freshness b \<in> {Fresh, Freshness_not_applicable} \<and> bn_drift b = No_material_drift \<and>
     bn_disposition b = Meets_contract \<and> ''contradiction_declared'' \<notin> set (bn_reasons b)"

definition ruled_out :: "use_query \<Rightarrow> binding \<Rightarrow> bool" where
  "ruled_out q b \<longleftrightarrow> \<not> fits_query q b \<or> bn_id b \<in> uq_successors q \<or> \<not> bn_available b \<or> \<not> bn_lineage_current b \<or>
     bn_review b \<in> {Review_rejected, Review_needs_revision, Review_withdrawn} \<or> bn_drift b = Material_drift \<or>
     bn_disposition b = Does_not_meet_contract \<or> ''contradiction_declared'' \<in> set (bn_reasons b)"

lemma hard_codes_empty: "hard_codes q b = [] \<longleftrightarrow> \<not> ruled_out q b"
  unfolding hard_codes_def set_mismatches_def ruled_out_def fits_query_def by auto

lemma all_codes_empty:
  "hard_codes q b = [] \<and> indeterminate_codes b = [] \<and> qualified_codes b = [] \<longleftrightarrow> usable q b"
  unfolding hard_codes_empty ruled_out_def usable_def indeterminate_codes_def qualified_codes_def
  by (cases "bn_review b"; cases "bn_freshness b"; cases "bn_drift b"; cases "bn_disposition b") auto

lemma role_order_inj: "role_order r = role_order s \<Longrightarrow> r = s"
  by (simp add: role_order_def)

lemma singleton_list: "distinct xs \<Longrightarrow> set xs = {x} \<Longrightarrow> xs = [x]"
proof (cases xs)
  case (Cons y ys)
  assume "distinct xs" "set xs = {x}"
  with Cons have "y = x" "set ys \<subseteq> {x}" "x \<notin> set ys" by auto
  then have "set ys = {}" using subset_singletonD [of "set ys" x] by auto
  with Cons \<open>y = x\<close> show ?thesis by simp
qed simp

lemma sorted_bindings:
  assumes "distinct (map bn_key bs)" "mset bs = mset bs'"
  shows "sort_key (role_order \<circ> bn_key) bs = sort_key (role_order \<circ> bn_key) bs'"
proof (rule properties_for_sort_key)
  show "mset (sort_key (role_order \<circ> bn_key) bs') = mset bs" using assms(2) by simp
  show "sorted (map (role_order \<circ> bn_key) (sort_key (role_order \<circ> bn_key) bs'))" by (rule sorted_sort_key)
  fix k assume "k \<in> set (sort_key (role_order \<circ> bn_key) bs')"
  then have "k \<in> set bs" using assms(2) by (metis mset_eq_setD set_sort)
  have inj: "inj_on bn_key (set bs)" "distinct bs" using assms(1) by (simp_all add: distinct_map)
  have dist': "distinct bs'" using inj(2) assms(2) by (metis mset_eq_imp_distinct_iff)
  have sets: "set bs' = set bs" using assms(2) by (metis mset_eq_setD)
  let ?P = "\<lambda>x. (role_order \<circ> bn_key) k = (role_order \<circ> bn_key) x"
  have one: "x = k" if "x \<in> set bs" "?P x" for x
    using that inj(1) \<open>k \<in> set bs\<close> role_order_inj by (fastforce simp: inj_on_def)
  have "filter ?P xs = [k]" if "distinct xs" "set xs = set bs" for xs
  proof -
    have "set (filter ?P xs) = {k}" using one that(2) \<open>k \<in> set bs\<close> by auto
    moreover have "distinct (filter ?P xs)" using that(1) by simp
    ultimately show ?thesis by (rule singleton_list [rotated])
  qed
  then show "filter ?P (sort_key (role_order \<circ> bn_key) bs') = filter ?P bs" using inj(2) dist' sets by simp
qed


definition sample_binding :: "string \<Rightarrow> string \<Rightarrow> freshness_status \<Rightarrow> binding" where
  "sample_binding role i fresh = \<lparr>bn_id = i, bn_project = ''p'', bn_contract = CONSUMER_CONTRACT,
     bn_contract_version = CONSUMER_CONTRACT_VERSION, bn_set = ''s'', bn_key = role, bn_kind = Some CALCULATION_KIND,
     bn_policy = POLICY_IDENTIFIER, bn_policy_version = POLICY_VERSION, bn_parameters = POLICY_PARAMETERS,
     bn_fingerprint = POLICY_FINGERPRINT, bn_evaluator = EVALUATOR_VERSION, bn_as_of = 0, bn_available = True,
     bn_lineage_current = True, bn_review = Review_approved, bn_freshness = fresh, bn_drift = No_material_drift,
     bn_disposition = Meets_contract, bn_reasons = [''inputs_observed''], bn_claim = None, bn_support = None,
     bn_locator = None, bn_linkage = None, bn_relationship = None\<rparr>"

definition sample_query :: use_query where
  "sample_query = \<lparr>uq_project = ''p'', uq_set = ''s'', uq_as_of = 0, uq_successors = {''9''}\<rparr>"

lemma parameters_equal: "py_equal POLICY_PARAMETERS POLICY_PARAMETERS"
  by (simp add: POLICY_PARAMETERS_def texts_def REQUIRED_ROLES_def)

lemma sample_usable:
  "usable sample_query (sample_binding role i fresh) \<longleftrightarrow> i \<noteq> ''9'' \<and> fresh \<in> {Fresh, Freshness_not_applicable}"
  by (auto simp: usable_def fits_query_def sample_binding_def sample_query_def parameters_equal)


text \<open>The parameters of the policy name only fresh evidence as satisfying, but evidence whose freshness does not
  apply satisfies it too.\<close>

lemma freshness_need_not_apply:
  "fst (evaluate_binding_set sample_query (map (\<lambda>r. sample_binding r ''1'' Freshness_not_applicable) REQUIRED_ROLES)) = Satisfies"
proof -
  let ?bs = "map (\<lambda>r. sample_binding r ''1'' Freshness_not_applicable) REQUIRED_ROLES"
  have "usable sample_query b" if "b \<in> set ?bs" for b using that sample_usable by auto
  then have "\<forall>b \<in> set ?bs. hard_codes sample_query b = [] \<and> indeterminate_codes b = [] \<and> qualified_codes b = []"
    using all_codes_empty by blast
  then show ?thesis unfolding evaluate_binding_set_def Let_def by (simp add: reasons_of_empty del: set_map)
qed

subsection \<open>Commands and retries\<close>

record snapshot_command =
  sk_project :: string
  sk_set :: string
  sk_ids :: "string list"
  sk_request :: string
  sk_as_of :: int
  sk_by :: string

record use_snapshot =
  ss_id :: string
  ss_project :: string
  ss_set :: string
  ss_request :: string
  ss_as_of :: int
  ss_by :: string
  ss_bindings :: "(string \<times> string) list"

datatype use_error =
    Use_invalid "string list"
  | Use_disabled
  | Use_autocommit
  | Request_conflict
  | Integrity_error string
  | Database_error string string

definition nonblank_error :: "string \<Rightarrow> string \<Rightarrow> string list" where
  "nonblank_error field value = code_if (py_strip value = '''') (field @ '' must not be blank'')"

definition ids_error :: "string list \<Rightarrow> string list" where
  "ids_error ids =
     (if list_ex (\<lambda>i. py_strip i = '''') ids then [''binding_record_ids must not be blank'']
      else if length ids \<noteq> length REQUIRED_ROLES then [''exactly six binding_record_ids are required'']
      else code_if (\<not> distinct (map py_strip ids)) ''binding_record_ids must be distinct'')"

definition validate_command :: "snapshot_command \<Rightarrow> (use_error, snapshot_command) result" where
  "validate_command cmd =
     (let errors = nonblank_error ''project_id'' (sk_project cmd) @ nonblank_error ''binding_set_id'' (sk_set cmd) @
            ids_error (sk_ids cmd) @ nonblank_error ''request_id'' (sk_request cmd) @ nonblank_error ''evaluated_by'' (sk_by cmd)
      in if errors \<noteq> [] then Err (Use_invalid errors)
         else Ok (cmd\<lparr>sk_project := py_strip (sk_project cmd), sk_set := py_strip (sk_set cmd), sk_ids := map py_strip (sk_ids cmd),
           sk_request := py_strip (sk_request cmd), sk_by := py_strip (sk_by cmd)\<rparr>))"

definition ensure_retry_matches :: "use_snapshot \<Rightarrow> snapshot_command \<Rightarrow> (use_error, use_snapshot) result" where
  "ensure_retry_matches existing cmd =
     (if ss_project existing \<noteq> sk_project cmd \<or> ss_set existing \<noteq> sk_set cmd \<or> ss_request existing \<noteq> sk_request cmd \<or>
         ss_as_of existing \<noteq> sk_as_of cmd \<or> ss_by existing \<noteq> sk_by cmd \<or>
         sort (map snd (ss_bindings existing)) \<noteq> sort (sk_ids cmd)
      then Err Request_conflict else Ok existing)"

definition snapshot_by_request :: "use_snapshot list \<Rightarrow> snapshot_command \<Rightarrow> use_snapshot option" where
  "snapshot_by_request table cmd =
     find (\<lambda>s. ss_project s = sk_project cmd \<and> ss_set s = sk_set cmd \<and> ss_request s = sk_request cmd) table"

text \<open>What the controlled function of the database answers (the id it created and the row under it, or an
  error with its state and constraint), and the snapshots that are visible after the rollback of a failed call.\<close>

record database_answer =
  da_result :: "(string \<times> string, use_snapshot option) result"
  da_visible :: "use_snapshot list"

definition insert_use_snapshot :: "database_answer \<Rightarrow> snapshot_command \<Rightarrow> (use_error, use_snapshot) result" where
  "insert_use_snapshot db cmd =
     (case da_result db of
        Inr (Some s) \<Rightarrow> Ok s
      | Inr None \<Rightarrow> Err (Integrity_error ''database write did not return an Automation ROI snapshot'')
      | Inl (state, name) \<Rightarrow>
          (case (if name = ''uq_rearois_scope_request'' then snapshot_by_request (da_visible db) cmd else None) of
             Some existing \<Rightarrow> ensure_retry_matches existing cmd
           | None \<Rightarrow>
               if starts_with ''23'' state then Err (Integrity_error ''Automation ROI snapshot violates the immutable database contract'')
               else Err (Database_error state name)))"

definition record_automation_roi_input_snapshot ::
  "bool \<Rightarrow> bool \<Rightarrow> use_snapshot list \<Rightarrow> database_answer \<Rightarrow> snapshot_command \<Rightarrow> (use_error, use_snapshot) result" where
  "record_automation_roi_input_snapshot enabled autocommit table db cmd =
     bind_result (validate_command cmd) (\<lambda>cmd.
       if \<not> enabled then Err Use_disabled
       else if autocommit then Err Use_autocommit
       else case snapshot_by_request table cmd of
           Some existing \<Rightarrow> ensure_retry_matches existing cmd
         | None \<Rightarrow> insert_use_snapshot db cmd)"

text \<open>A retry answers with the snapshot that is there, or with a conflict; it never reaches the database.\<close>

lemma retry_answers:
  assumes "validate_command cmd = Ok clean" "snapshot_by_request table clean = Some s"
  shows "record_automation_roi_input_snapshot True False table db cmd =
    (if ss_as_of s = sk_as_of clean \<and> ss_by s = sk_by clean \<and> mset (map snd (ss_bindings s)) = mset (sk_ids clean)
     then Ok s else Err Request_conflict)"
proof -
  have "ss_project s = sk_project clean" "ss_set s = sk_set clean" "ss_request s = sk_request clean"
    using assms(2) by (auto simp: snapshot_by_request_def find_Some_iff)
  moreover have "sort xs = sort ys \<longleftrightarrow> mset xs = mset ys" for xs ys :: "string list"
    by (metis mset_sort properties_for_sort sorted_sort)
  ultimately show ?thesis
    by (simp add: record_automation_roi_input_snapshot_def assms ensure_retry_matches_def del: mset_map)
qed

end
