(* ===== verification/RoiExecution.thy ===== *)
theory RoiExecution
  imports Roi CanonicalJson
begin

text \<open>
  The second calculator of the Automation ROI (\<open>mas/research_evidence/automation_roi_execution_policy.py\<close>,
  with the result contract of \<open>automation_roi_execution_models.py\<close> and the conflict recovery of
  \<open>automation_roi_execution_repository.py\<close> and \<open>_service.py\<close>): a fixed formula over a manifest of the
  six roles, under the same version of the formula as the calculator of theory Roi.
\<close>

subsection \<open>Contracts\<close>

record manifest_item =
  mi_role :: string
  mi_value :: decimal
  mi_unit :: string
  mi_period :: "string option"
  mi_currency :: "string option"
  mi_time_unit :: "string option"
  mi_binding :: string
  mi_input :: string
  mi_fact :: string
  mi_decision :: string

type_synonym manifest = "(string \<times> manifest_item) list"

definition FORMULA_IDENTIFIER :: string where "FORMULA_IDENTIFIER = ''automation_roi''"
definition EXECUTION_FORMULA_VERSION :: string where "EXECUTION_FORMULA_VERSION = ''automation_roi.v1''"
definition ASSUMPTION_SET_VERSION :: string where "ASSUMPTION_SET_VERSION = ''automation_roi.assumptions.v1''"

definition EXECUTION_ROLES :: "string list" where
  "EXECUTION_ROLES = [''baseline_hours_per_period'', ''post_automation_hours_per_period'', ''fully_loaded_rate_per_hour'',
     ''periods_per_year'', ''annual_recurring_cost'', ''one_time_implementation_cost'']"

definition FORMULA_CONTRACT :: jval where
  "FORMULA_CONTRACT = JObj
     [(''assumption_rules'', JObj
        [(''approved_snapshot_is_execution_authority'', JBool True),
         (''annual_recurring_cost_is_subtracted_annually'', JBool True),
         (''one_time_implementation_cost_is_subtracted_in_first_year'', JBool True),
         (''periods_per_year_is_the_annualization_multiplier'', JBool True)]),
      (''currency_rules'', JObj
        [(''fx_conversion'', JBool False),
         (''money_roles_must_share_one_currency'', JBool True)]),
      (''equations'', JObj
        [(''annual_labor_savings'', JStr ''(baseline_hours_per_period-post_automation_hours_per_period)*fully_loaded_rate_per_hour*periods_per_year''),
         (''annual_net_benefit'', JStr ''annual_labor_savings-annual_recurring_cost''),
         (''first_year_net_benefit'', JStr ''annual_net_benefit-one_time_implementation_cost''),
         (''first_year_roi_percent'', JStr ''first_year_net_benefit/one_time_implementation_cost*100'')]),
      (''negative_savings_behavior'', JStr ''valid_with_negative_hours_delta_diagnostic''),
      (''period_rules'', JObj
        [(''hours_roles_must_share_one_nonblank_period'', JBool True),
         (''periods_per_year_must_be_integral_and_at_least_one'', JBool True)]),
      (''required_roles'', JList (map JStr EXECUTION_ROLES)),
      (''rounding_policy'', JStr ''no_calculation_time_rounding_full_numeric_precision''),
      (''unit_rules'', JObj
        [(''fully_loaded_rate_per_hour'', JObj [(''unit'', JStr ''per_hour'')]),
         (''hours_roles'', JObj [(''time_unit'', JStr ''hours'')])]),
      (''zero_cost_behavior'', JStr ''roi_percent_not_applicable'')]"

definition ASSUMPTIONS :: jval where
  "ASSUMPTIONS = JObj
     [(''annualization'', JStr ''periods_per_year''),
      (''currency_conversion'', JStr ''none''),
      (''execution_authority'', JStr ''immutable_v59_snapshot_stored_policy_status''),
      (''first_year_cost_treatment'', JStr ''annual_recurring_plus_one_time_implementation''),
      (''rounding'', JStr ''none'')]"

definition OUTPUT_UNITS :: jval where
  "OUTPUT_UNITS = JObj
     [(''annual_labor_savings'', JStr ''currency_per_year''),
      (''annual_net_benefit'', JStr ''currency_per_year''),
      (''first_year_net_benefit'', JStr ''currency_first_year''),
      (''first_year_roi_percent'', JStr ''percent'')]"

subsection \<open>Digests\<close>

text \<open>\<open>json.dumps(..., ensure_ascii=False)\<close>: only control characters are escaped. The texts hold no floats.\<close>

definition escape_unicode :: "char \<Rightarrow> string" where
  "escape_unicode c = (if code c < 127 then escape_char c else [c])"

fun execution_json :: "jval \<Rightarrow> string" where
  "execution_json JNull = ''null''"
| "execution_json (JBool b) = (if b then ''true'' else ''false'')"
| "execution_json (JInt i) = py_str_int i"
| "execution_json (JNum r) = ''''"
| "execution_json (JStr s) = CHR 0x22 # concat (map escape_unicode s) @ [CHR 0x22]"
| "execution_json (JList xs) = ''['' @ join_with '','' (map execution_json xs) @ '']''"
| "execution_json (JObj ms) =
     ''{'' @ join_with '','' (map (\<lambda>(k, t). execution_json (JStr k) @ '':'' @ t)
       (sort_key fst (map (\<lambda>(k, v). (k, execution_json v)) ms))) @ ''}''"

definition json_sha256 :: "jval \<Rightarrow> string" where
  "json_sha256 v = sha256_hex (execution_json v)"

definition FORMULA_FINGERPRINT :: string where
  "FORMULA_FINGERPRINT = json_sha256 FORMULA_CONTRACT"

definition ASSUMPTION_FINGERPRINT :: string where
  "ASSUMPTION_FINGERPRINT = json_sha256 ASSUMPTIONS"

datatype execution_error = Wrong_shape string | Not_finite | Decimal_signal decimal_error

definition trap :: "(decimal_error, 'a) result \<Rightarrow> (execution_error, 'a) result" where
  "trap r = (case r of Inl e \<Rightarrow> Err (Decimal_signal e) | Inr x \<Rightarrow> Ok x)"

definition execution_decimal :: "decimal \<Rightarrow> (execution_error, string) result" where
  "execution_decimal value =
     (if \<not> finite_decimal value then Err Not_finite
      else trap (bind_result (normalize_decimal value) (\<lambda>norm.
        map_result (\<lambda>zero. if zero then ''0'' else decimal_plain norm) (eq_decimal norm (dec_of_nat 0)))))"

text \<open>Read only when every role has an item.\<close>

definition manifest_of :: "manifest \<Rightarrow> string \<Rightarrow> manifest_item" where
  "manifest_of inputs role = (case map_of inputs role of Some it \<Rightarrow> it | None \<Rightarrow>
     \<lparr>mi_role = role, mi_value = NaN True, mi_unit = '''', mi_period = None, mi_currency = None, mi_time_unit = None,
      mi_binding = '''', mi_input = '''', mi_fact = '''', mi_decision = ''''\<rparr>)"

definition json_opt :: "string option \<Rightarrow> jval" where
  "json_opt v = (case v of None \<Rightarrow> JNull | Some t \<Rightarrow> JStr t)"

definition value_member :: "manifest \<Rightarrow> string \<Rightarrow> (execution_error, string \<times> jval) result" where
  "value_member inputs role =
     (let it = manifest_of inputs role
      in map_result (\<lambda>number. (role, JObj [(''currency_code'', json_opt (mi_currency it)), (''numeric_value'', JStr number),
           (''period'', json_opt (mi_period it)), (''time_unit'', json_opt (mi_time_unit it)), (''unit'', JStr (mi_unit it))]))
         (execution_decimal (mi_value it)))"

definition input_digest :: "manifest \<Rightarrow> (execution_error, string) result" where
  "input_digest inputs = map_result (\<lambda>ms. json_sha256 (JObj ms)) (all_results (map (value_member inputs) EXECUTION_ROLES))"

definition execution_provenance :: "manifest \<Rightarrow> string" where
  "execution_provenance inputs = json_sha256 (JObj (map (\<lambda>role. let it = manifest_of inputs role
     in (role, JObj [(''approved_calculation_input_id'', JStr (mi_input it)), (''approval_decision_id'', JStr (mi_decision it)),
       (''binding_id'', JStr (mi_binding it)), (''candidate_fact_revision_id'', JStr (mi_fact it))])) EXECUTION_ROLES))"

subsection \<open>The calculation\<close>

record execution =
  ex_status :: roi_status
  ex_percent_status :: percent_status
  ex_currency :: "string option"
  ex_labor_savings :: "decimal option"
  ex_net_benefit :: "decimal option"
  ex_first_year :: "decimal option"
  ex_roi_percent :: "decimal option"
  ex_diagnostics :: "(string \<times> string) list"

definition blocked :: "string \<Rightarrow> execution" where
  "blocked code' = \<lparr>ex_status = Roi_blocked, ex_percent_status = Percent_blocked, ex_currency = None, ex_labor_savings = None,
     ex_net_benefit = None, ex_first_year = None, ex_roi_percent = None, ex_diagnostics = [(code', code')]\<rparr>"

definition HOURS :: "string list" where
  "HOURS = [''baseline_hours_per_period'', ''post_automation_hours_per_period'']"

definition MONEY :: "string list" where
  "MONEY = [''fully_loaded_rate_per_hour'', ''annual_recurring_cost'', ''one_time_implementation_cost'']"

text \<open>One shared text that is neither missing nor empty.\<close>

definition shares_no_text :: "string option list \<Rightarrow> bool" where
  "shares_no_text vs \<longleftrightarrow> length (remdups vs) \<noteq> 1 \<or> None \<in> set vs \<or> Some '''' \<in> set vs"

definition shape_error :: "manifest \<Rightarrow> string option" where
  "shape_error inputs =
     (if set (map fst inputs) \<noteq> set EXECUTION_ROLES \<or> length inputs \<noteq> length EXECUTION_ROLES
      then Some ''calculation requires exactly the six canonical roles''
      else if list_ex (\<lambda>role. mi_role (manifest_of inputs role) \<noteq> role) EXECUTION_ROLES
      then Some ''manifest role keys do not match items''
      else None)"

definition incompatible :: "manifest \<Rightarrow> string option" where
  "incompatible inputs =
     (if list_ex (\<lambda>role. mi_time_unit (manifest_of inputs role) \<noteq> Some ''hours'') HOURS then Some ''unit_incompatibility''
      else if mi_unit (manifest_of inputs ''fully_loaded_rate_per_hour'') \<noteq> ''per_hour'' then Some ''unit_incompatibility''
      else if shares_no_text (map (mi_period \<circ> manifest_of inputs) HOURS) then Some ''period_incompatibility''
      else if shares_no_text (map (mi_currency \<circ> manifest_of inputs) MONEY) then Some ''currency_incompatibility''
      else None)"

text \<open>\<open>periods < 1 or periods != periods.to_integral()\<close>\<close>

definition bad_periods :: "decimal \<Rightarrow> (decimal_error, bool) result" where
  "bad_periods v =
     bind_result (less_decimal v (dec_of_nat 1)) (\<lambda>small.
       if small then Ok True
       else bind_result (to_integral_value v) (\<lambda>whole. map_result Not (eq_decimal v whole)))"

definition execution_values :: "manifest \<Rightarrow> (decimal_error, execution) result" where
  "execution_values inputs =
     (let value = (\<lambda>role. mi_value (manifest_of inputs role)); one_time = value ''one_time_implementation_cost'';
          currency = mi_currency (manifest_of inputs ''fully_loaded_rate_per_hour'')
      in bind_result (sub_decimal (value ''baseline_hours_per_period'') (value ''post_automation_hours_per_period'')) (\<lambda>delta.
         bind_result (mul_decimal delta (value ''fully_loaded_rate_per_hour'')) (\<lambda>per_period.
         bind_result (mul_decimal per_period (value ''periods_per_year'')) (\<lambda>savings.
         bind_result (sub_decimal savings (value ''annual_recurring_cost'')) (\<lambda>net.
         bind_result (sub_decimal net one_time) (\<lambda>first_year.
         bind_result (less_decimal delta (dec_of_nat 0)) (\<lambda>negative.
         bind_result (eq_decimal one_time (dec_of_nat 0)) (\<lambda>free.
         let diagnostics = (if negative then [(''negative_hours_delta'', ''post_automation_hours_exceed_baseline'')] else [])
         in if free
            then Ok \<lparr>ex_status = Roi_not_applicable, ex_percent_status = Percent_not_applicable, ex_currency = currency,
                   ex_labor_savings = Some savings, ex_net_benefit = Some net, ex_first_year = Some first_year,
                   ex_roi_percent = None,
                   ex_diagnostics = diagnostics @ [(''roi_percent'', ''not_applicable_zero_implementation_cost'')]\<rparr>
            else bind_result (div_decimal first_year one_time) (\<lambda>ratio.
                 map_result (\<lambda>percent. \<lparr>ex_status = Roi_valid, ex_percent_status = Percent_computed, ex_currency = currency,
                   ex_labor_savings = Some savings, ex_net_benefit = Some net, ex_first_year = Some first_year,
                   ex_roi_percent = Some percent, ex_diagnostics = diagnostics\<rparr>) (mul_decimal ratio (dec_of_nat 100)))))))))))"

definition calculate_automation_roi :: "manifest \<Rightarrow> (execution_error, execution) result" where
  "calculate_automation_roi inputs =
     (case shape_error inputs of
        Some m \<Rightarrow> Err (Wrong_shape m)
      | None \<Rightarrow>
          (case incompatible inputs of
             Some code' \<Rightarrow> Ok (blocked code')
           | None \<Rightarrow> bind_result (trap (bad_periods (mi_value (manifest_of inputs ''periods_per_year'')))) (\<lambda>bad.
               if bad then Ok (blocked ''period_incompatibility'') else trap (execution_values inputs))))"

text \<open>The shape of a stored result (\<open>_validate_status_shape\<close>).\<close>

definition status_shape_error :: "execution \<Rightarrow> string option" where
  "status_shape_error r =
     (let money = [ex_labor_savings r, ex_net_benefit r, ex_first_year r]
      in case ex_status r of
           Roi_blocked \<Rightarrow>
             if ex_percent_status r \<noteq> Percent_blocked then Some ''blocked result requires blocked ROI status''
             else if ex_currency r \<noteq> None \<or> list_ex (\<lambda>v. v \<noteq> None) money
             then Some ''blocked result cannot contain calculated money outputs''
             else if ex_roi_percent r \<noteq> None then Some ''blocked result cannot contain ROI percent''
             else None
         | Roi_not_applicable \<Rightarrow>
             if ex_percent_status r \<noteq> Percent_not_applicable then Some ''not_applicable result requires matching ROI status''
             else if ex_currency r = None \<or> list_ex (\<lambda>v. v = None) money
             then Some ''not_applicable result requires calculated money outputs''
             else if ex_roi_percent r \<noteq> None then Some ''not_applicable result cannot contain ROI percent''
             else None
         | Roi_valid \<Rightarrow>
             if ex_percent_status r \<noteq> Percent_computed then Some ''valid result requires computed ROI status''
             else if ex_currency r = None \<or> list_ex (\<lambda>v. v = None) money \<or> ex_roi_percent r = None
             then Some ''valid result requires every output''
             else None)"

subsection \<open>The two calculators\<close>

definition resolved_of :: "manifest_item \<Rightarrow> resolved_input" where
  "resolved_of it = \<lparr>ri_role = mi_role it, ri_value = mi_value it, ri_unit = mi_unit it, ri_currency = mi_currency it,
     ri_period = mi_period it, ri_time_unit = mi_time_unit it, ri_input_id = Some (mi_input it), ri_fact_id = Some (mi_fact it),
     ri_decision_id = Some (mi_decision it)\<rparr>"

definition resolved_inputs :: "manifest \<Rightarrow> role_inputs" where
  "resolved_inputs inputs = map (\<lambda>(role, it). (role, resolved_of it)) inputs"

type_synonym numbers =
  "roi_status \<times> percent_status \<times> string option \<times> decimal option \<times> decimal option \<times> decimal option \<times> decimal option"

definition numbers_of :: "roi_computation \<Rightarrow> numbers" where
  "numbers_of c = (rc_status c, rc_percent_status c, rc_currency c, rc_labor_savings c, rc_net_benefit c, rc_first_year c, rc_roi_percent c)"

definition execution_numbers :: "execution \<Rightarrow> numbers" where
  "execution_numbers c = (ex_status c, ex_percent_status c, ex_currency c, ex_labor_savings c, ex_net_benefit c, ex_first_year c, ex_roi_percent c)"

definition returned :: "('e, 'a) result \<Rightarrow> 'a option" where
  "returned r = (case r of Inl e \<Rightarrow> None | Inr x \<Rightarrow> Some x)"

lemma returned_simps [simp]: "returned (Ok x) = Some x" "returned (Err e) = None"
  by (simp_all add: returned_def)

lemma returned_arith [simp]: "returned (arith r) = returned r" "returned (trap r) = returned r"
  by (simp_all add: returned_def arith_def trap_def split: sum.splits)

lemma roles_same: "EXECUTION_ROLES = ROLES" "HOURS = HOURS_ROLES" "MONEY = MONEY_ROLES"
  by (simp_all add: EXECUTION_ROLES_def ROLES_def HOURS_def HOURS_ROLES_def MONEY_def MONEY_ROLES_def)

lemma map_of_resolved: "map_of (resolved_inputs inputs) role = map_option resolved_of (map_of inputs role)"
  by (simp add: resolved_inputs_def map_of_map)

lemma item_fields:
  "ri_value (role_item (resolved_inputs inputs) role) = mi_value (manifest_of inputs role)"
  "ri_unit (role_item (resolved_inputs inputs) role) = mi_unit (manifest_of inputs role)"
  "ri_currency (role_item (resolved_inputs inputs) role) = mi_currency (manifest_of inputs role)"
  "ri_period (role_item (resolved_inputs inputs) role) = mi_period (manifest_of inputs role)"
  "ri_time_unit (role_item (resolved_inputs inputs) role) = mi_time_unit (manifest_of inputs role)"
  by (simp_all add: role_item_def manifest_of_def map_of_resolved resolved_of_def split: option.splits)

lemma returned_bind:
  "(\<And>x. map_option f (returned (g x)) = map_option f' (returned (g' x))) \<Longrightarrow>
   map_option f (returned (bind_result r g)) = map_option f' (returned (bind_result r g'))"
  by (cases r) simp_all

lemma returned_map:
  "(\<And>x. f (g x) = f' (g' x)) \<Longrightarrow> map_option f (returned (map_result g r)) = map_option f' (returned (map_result g' r))"
  by (cases r) simp_all

lemma values_same:
  "map_option execution_numbers (returned (execution_values inputs)) =
   map_option numbers_of (returned (compute_values (resolved_inputs inputs) digest provenance))"
  unfolding execution_values_def compute_values_def Let_def item_fields
  by (intro returned_bind) (auto simp: execution_numbers_def numbers_of_def intro!: returned_bind returned_map)

lemma same_shape:
  assumes "distinct (map fst inputs)"
  shows "shape_error inputs = None \<longleftrightarrow> require_six_roles (resolved_inputs inputs) = Ok ()"
proof (cases "set (map fst inputs) = set ROLES")
  case True
  have keys: "map fst (resolved_inputs inputs) = map fst inputs" by (simp add: resolved_inputs_def split_beta comp_def)
  have len: "length inputs = length ROLES"
    using True assms distinct_card [of "map fst inputs"] distinct_card [of ROLES] by (simp add: ROLES_def)
  have "(\<forall>role \<in> set ROLES. mi_role (manifest_of inputs role) = role) \<longleftrightarrow> (\<forall>p \<in> set inputs. mi_role (snd p) = fst p)"
  proof -
    have item: "manifest_of inputs (fst p) = snd p" if "p \<in> set inputs" for p
      using map_of_is_SomeI [OF assms, of "fst p" "snd p"] that by (simp add: manifest_of_def)
    then show ?thesis unfolding True [symmetric] by auto
  qed
  moreover have "find (\<lambda>(role, item). ri_role item \<noteq> role) (resolved_inputs inputs) = None \<longleftrightarrow> (\<forall>p \<in> set inputs. mi_role (snd p) = fst p)"
    by (auto simp: find_None_iff resolved_inputs_def resolved_of_def split_beta)
  ultimately show ?thesis
  proof -
    assume eq: "(\<forall>role \<in> set ROLES. mi_role (manifest_of inputs role) = role) \<longleftrightarrow> (\<forall>p \<in> set inputs. mi_role (snd p) = fst p)"
      "find (\<lambda>(role, item). ri_role item \<noteq> role) (resolved_inputs inputs) = None \<longleftrightarrow> (\<forall>p \<in> set inputs. mi_role (snd p) = fst p)"
    have "shape_error inputs = None \<longleftrightarrow> (\<forall>role \<in> set ROLES. mi_role (manifest_of inputs role) = role)"
      unfolding shape_error_def roles_same True len list_ex_iff by simp
    moreover have "require_six_roles (resolved_inputs inputs) = Ok () \<longleftrightarrow>
        find (\<lambda>(role, item). ri_role item \<noteq> role) (resolved_inputs inputs) = None"
      unfolding require_six_roles_def Let_def keys True
      by (cases "find (\<lambda>(role, item). ri_role item \<noteq> role) (resolved_inputs inputs)") auto
    ultimately show ?thesis unfolding eq by simp
  qed
next
  case False
  then show ?thesis by (simp add: shape_error_def require_six_roles_def roles_same resolved_inputs_def split_beta comp_def Let_def image_comp)
qed

lemma compatible_not_blocked:
  "incompatible inputs = None \<Longrightarrow> blocking_reason (resolved_inputs inputs) [] = None"
  unfolding incompatible_def blocking_reason_def shares_no_text_def Let_def roles_same
  by (simp add: comp_def item_fields split: if_splits)

lemma six_computed:
  assumes "distinct (map fst inputs)" "shape_error inputs = None"
    and "\<And>role. role \<in> set EXECUTION_ROLES \<Longrightarrow> finite_decimal (mi_value (manifest_of inputs role)) \<and>
      representable (dval (mi_value (manifest_of inputs role)))"
  obtains d p where "compute_automation_roi (resolved_inputs inputs) [] =
    (case blocking_reason (resolved_inputs inputs) [] of Some (key, detail) \<Rightarrow> Ok (blocked_result d p key detail)
     | None \<Rightarrow> arith (compute_values (resolved_inputs inputs) d p))"
proof -
  obtain d where "formula_input_digest (resolved_inputs inputs) = Ok d"
    using digest_returns [of "resolved_inputs inputs"] assms(3) unfolding item_fields roles_same by blast
  moreover have "require_six_roles (resolved_inputs inputs) = Ok ()" using same_shape assms(1,2) by blast
  ultimately show thesis by (intro that) (simp add: compute_automation_roi_def Let_def arith_def)
qed

text \<open>What the second calculator does not block the first one does not block, and the numbers are the same.\<close>

lemma execution_is_stricter:
  assumes "distinct (map fst inputs)" "calculate_automation_roi inputs = Ok c" "ex_status c \<noteq> Roi_blocked"
    and "\<And>role. role \<in> set EXECUTION_ROLES \<Longrightarrow> finite_decimal (mi_value (manifest_of inputs role)) \<and>
      representable (dval (mi_value (manifest_of inputs role)))"
  shows "\<exists>r. compute_automation_roi (resolved_inputs inputs) [] = Ok r \<and> numbers_of r = execution_numbers c"
proof -
  have none: "shape_error inputs = None" "incompatible inputs = None"
    using assms(2,3) by (auto simp: calculate_automation_roi_def blocked_def split: option.splits)
  obtain d p where first: "compute_automation_roi (resolved_inputs inputs) [] = arith (compute_values (resolved_inputs inputs) d p)"
    using six_computed [OF assms(1) none(1) assms(4)] compatible_not_blocked [OF none(2)] by auto
  have "trap (execution_values inputs) = Ok c"
    using assms(2,3) none
    by (auto simp: calculate_automation_roi_def blocked_def bind_result_eq_Ok split: if_splits)
  then have "returned (execution_values inputs) = Some c" by (metis returned_arith(2) returned_simps(1))
  with values_same [of inputs d p] obtain r where "returned (compute_values (resolved_inputs inputs) d p) = Some r" "numbers_of r = execution_numbers c"
    by (cases "returned (compute_values (resolved_inputs inputs) d p)") auto
  with first show ?thesis by (auto simp: arith_def returned_def split: sum.splits)
qed

definition frozen_compatible :: "manifest \<Rightarrow> bool" where
  "frozen_compatible inputs \<longleftrightarrow> list_all (\<lambda>role. let it = manifest_of inputs role in
       finite_decimal (mi_value it) \<and> representable (dval (mi_value it)) \<and>
       input_compatibility_reason role (mi_value it) (Some (mi_unit it)) (mi_currency it) (mi_time_unit it) = Ok None) EXECUTION_ROLES \<and>
     list_all (\<lambda>role. mi_period (manifest_of inputs role) \<noteq> None \<and> mi_period (manifest_of inputs role) \<noteq> Some '''') HOURS"

lemma money_compatible:
  assumes "input_compatibility_reason role v u cur t = Ok None" "role \<in> set MONEY"
  shows "cur \<noteq> None \<and> cur \<noteq> Some ''''"
proof -
  have "\<not> empty_opt cur"
  proof
    assume "empty_opt cur"
    with assms show False by (simp add: input_compatibility_reason_def HOURS_ROLES_def MONEY_def split: if_splits) auto
  qed
  then show ?thesis by (cases cur) (auto simp: empty_opt_def opt_or_def)
qed

lemma periods_compatible:
  assumes "input_compatibility_reason ''periods_per_year'' v u cur t = Ok None"
  shows "bad_periods v = Ok False"
proof -
  have "bind_result (to_integral_value v) (\<lambda>whole. bind_result (eq_decimal v whole) (\<lambda>integral.
      if \<not> integral then Ok (Some Periods_integral)
      else map_result (\<lambda>small. if small then Some Periods_integral else None) (less_decimal v (dec_of_nat 1)))) = Ok None"
    using assms unfolding input_compatibility_reason_def by (simp add: HOURS_ROLES_def)
  then obtain whole integral where w: "to_integral_value v = Ok whole" "eq_decimal v whole = Ok integral"
    "(if \<not> integral then Ok (Some Periods_integral)
      else map_result (\<lambda>small. if small then Some Periods_integral else None) (less_decimal v (dec_of_nat 1))) = Ok None"
    unfolding bind_result_eq_Ok by blast
  then have "integral" by (cases integral) simp_all
  with w(3) obtain small where "less_decimal v (dec_of_nat 1) = Ok small" "\<not> small" by (auto split: if_splits)
  with w(1,2) \<open>integral\<close> show ?thesis by (simp add: bad_periods_def)
qed

lemma frozen_compatibleD:
  assumes "frozen_compatible inputs"
  shows "\<And>role. role \<in> set EXECUTION_ROLES \<Longrightarrow> finite_decimal (mi_value (manifest_of inputs role)) \<and>
      representable (dval (mi_value (manifest_of inputs role)))"
    and "incompatible inputs = None \<longleftrightarrow> blocking_reason (resolved_inputs inputs) [] = None"
    and "bad_periods (mi_value (manifest_of inputs ''periods_per_year'')) = Ok False"
proof -
  show "\<And>role. role \<in> set EXECUTION_ROLES \<Longrightarrow> finite_decimal (mi_value (manifest_of inputs role)) \<and>
      representable (dval (mi_value (manifest_of inputs role)))"
    using assms by (auto simp: frozen_compatible_def list_all_iff Let_def)
  have reasons: "input_compatibility_reason role (mi_value (manifest_of inputs role)) (Some (mi_unit (manifest_of inputs role)))
      (mi_currency (manifest_of inputs role)) (mi_time_unit (manifest_of inputs role)) = Ok None" if "role \<in> set EXECUTION_ROLES" for role
    using assms that by (auto simp: frozen_compatible_def list_all_iff Let_def)
  have hours: "mi_time_unit (manifest_of inputs r) = Some ''hours''" if "r \<in> set HOURS" for r
    using reasons [of r] that by (auto simp: input_compatibility_reason_def HOURS_def HOURS_ROLES_def EXECUTION_ROLES_def split: if_splits)
  have rate: "mi_unit (manifest_of inputs ''fully_loaded_rate_per_hour'') = ''per_hour''"
    using reasons [of "''fully_loaded_rate_per_hour''"]
    by (auto simp: input_compatibility_reason_def HOURS_ROLES_def EXECUTION_ROLES_def split: if_splits)
  have money: "mi_currency (manifest_of inputs r) \<noteq> None \<and> mi_currency (manifest_of inputs r) \<noteq> Some ''''" if "r \<in> set MONEY" for r
  proof -
    have "r \<in> set EXECUTION_ROLES" using that by (auto simp: MONEY_def EXECUTION_ROLES_def)
    from money_compatible [OF reasons [OF this] that] show ?thesis .
  qed
  have periods: "mi_period (manifest_of inputs r) \<noteq> None \<and> mi_period (manifest_of inputs r) \<noteq> Some ''''" if "r \<in> set HOURS" for r
    using assms that by (auto simp: frozen_compatible_def list_all_iff)
  show "incompatible inputs = None \<longleftrightarrow> blocking_reason (resolved_inputs inputs) [] = None"
  proof -
    have here: "None \<notin> set (map (mi_period \<circ> manifest_of inputs) HOURS)" "Some '''' \<notin> set (map (mi_period \<circ> manifest_of inputs) HOURS)"
      "None \<notin> set (map (mi_currency \<circ> manifest_of inputs) MONEY)" "Some '''' \<notin> set (map (mi_currency \<circ> manifest_of inputs) MONEY)"
      "\<not> list_ex (\<lambda>role. mi_time_unit (manifest_of inputs role) \<noteq> Some ''hours'') HOURS"
      using hours money periods unfolding list_ex_iff by fastforce+
    have same: "map (ri_currency \<circ> role_item (resolved_inputs inputs)) MONEY = map (mi_currency \<circ> manifest_of inputs) MONEY"
      "map (ri_period \<circ> role_item (resolved_inputs inputs)) HOURS = map (mi_period \<circ> manifest_of inputs) HOURS"
      by (simp_all add: comp_def item_fields)
    let ?P = "map (mi_period \<circ> manifest_of inputs) HOURS"
    let ?C = "map (mi_currency \<circ> manifest_of inputs) MONEY"
    have shares: "shares_no_text ?P \<longleftrightarrow> length (remdups ?P) \<noteq> 1" "shares_no_text ?C \<longleftrightarrow> length (remdups ?C) \<noteq> 1"
      unfolding shares_no_text_def using here(1-4) by blast+
    have "incompatible inputs = (if length (remdups ?P) \<noteq> 1 then Some ''period_incompatibility''
        else if length (remdups ?C) \<noteq> 1 then Some ''currency_incompatibility'' else None)"
      unfolding incompatible_def shares if_not_P [OF here(5)] rate by (simp only: simp_thms if_False)
    then have second: "incompatible inputs = None \<longleftrightarrow> length (remdups ?P) = 1 \<and> length (remdups ?C) = 1"
      by (simp only: option.distinct simp_thms split: if_split) blast
    have "blocking_reason (resolved_inputs inputs) [] = None \<longleftrightarrow>
        \<not> (length (remdups ?C) \<noteq> 1 \<or> None \<in> set ?C) \<and> \<not> length (remdups ?P) \<noteq> 1"
      unfolding blocking_reason_def Let_def roles_same [symmetric] same item_fields if_not_P [OF here(5)]
      by (simp only: option.distinct simp_thms if_False split: if_split) blast
    then show ?thesis unfolding second using here(3) by blast
  qed
  show "bad_periods (mi_value (manifest_of inputs ''periods_per_year'')) = Ok False"
    by (rule periods_compatible [OF reasons]) (simp add: EXECUTION_ROLES_def)
qed

lemma calculators_same:
  assumes "distinct (map fst inputs)" "frozen_compatible inputs"
  shows "map_option execution_numbers (returned (calculate_automation_roi inputs)) =
    map_option numbers_of (returned (compute_automation_roi (resolved_inputs inputs) []))"
proof (cases "shape_error inputs")
  case None
  note ok = frozen_compatibleD [OF assms(2)]
  obtain d p where first: "compute_automation_roi (resolved_inputs inputs) [] =
    (case blocking_reason (resolved_inputs inputs) [] of Some (key, detail) \<Rightarrow> Ok (blocked_result d p key detail)
     | None \<Rightarrow> arith (compute_values (resolved_inputs inputs) d p))"
    using six_computed [OF assms(1) None ok(1)] by blast
  show ?thesis
  proof (cases "incompatible inputs")
    case (Some code')
    then obtain key detail where "blocking_reason (resolved_inputs inputs) [] = Some (key, detail)" using ok(2) by fastforce
    with first None Some show ?thesis
      by (simp add: calculate_automation_roi_def execution_numbers_def numbers_of_def blocked_def blocked_result_def)
  next
    case none: None
    then have "blocking_reason (resolved_inputs inputs) [] = None" using ok(2) by blast
    with first None none ok(3) values_same [of inputs d p] show ?thesis
      by (simp add: calculate_automation_roi_def trap_def [of "Ok False"])
  qed
next
  case (Some m)
  have "require_six_roles (resolved_inputs inputs) \<noteq> Ok ()" using same_shape [OF assms(1)] Some by simp
  then obtain e where "require_six_roles (resolved_inputs inputs) = Err e" by (cases "require_six_roles (resolved_inputs inputs)") auto
  with Some show ?thesis by (simp add: calculate_automation_roi_def compute_automation_roi_def)
qed

lemma blocked_shape: "status_shape_error (blocked code') = None"
  by (simp add: status_shape_error_def blocked_def Let_def)

lemma calculated_shape:
  assumes "calculate_automation_roi inputs = Ok c"
  shows "status_shape_error c = None"
proof (cases "c = blocked ''unit_incompatibility'' \<or> c = blocked ''period_incompatibility'' \<or> c = blocked ''currency_incompatibility''")
  case True
  then show ?thesis by (elim disjE) (simp_all only: blocked_shape)
next
  case False
  then have vals: "incompatible inputs = None" "trap (execution_values inputs) = Ok c"
    using assms
    by (auto simp: calculate_automation_roi_def incompatible_def bind_result_eq_Ok split: option.splits if_splits)
  have "execution_values inputs = Ok c" using vals(2) by (auto simp: trap_def split: sum.splits)
  then have "ex_currency c = mi_currency (manifest_of inputs ''fully_loaded_rate_per_hour'') \<and>
      (\<exists>s n f. ex_labor_savings c = Some s \<and> ex_net_benefit c = Some n \<and> ex_first_year c = Some f \<and>
        (ex_status c = Roi_not_applicable \<and> ex_percent_status c = Percent_not_applicable \<and> ex_roi_percent c = None \<or>
         ex_status c = Roi_valid \<and> ex_percent_status c = Percent_computed \<and> ex_roi_percent c \<noteq> None))"
    unfolding execution_values_def Let_def bind_result_eq_Ok
    by (elim exE conjE) (auto simp: bind_result_eq_Ok split: if_splits)
  moreover have "mi_currency (manifest_of inputs ''fully_loaded_rate_per_hour'') \<noteq> None"
    using vals(1) by (auto simp: incompatible_def shares_no_text_def MONEY_def split: if_splits)
  ultimately show ?thesis by (auto simp: status_shape_error_def Let_def)
qed

text \<open>C36: the two calculators of the program agree. On every manifest whose six values are compatible with their
  roles and whose hours have a period, the calculator over the evidence manifest and the calculator
  over frozen inputs return together, block the same inputs, and give the same status, the same
  currency and the same decimal numbers. A result of the first always has the shape that its stored
  record requires.\<close>

theorem calculators_agree:
  assumes "distinct (map fst inputs)" "frozen_compatible inputs"
  shows "map_option execution_numbers (returned (calculate_automation_roi inputs)) =
      map_option numbers_of (returned (compute_automation_roi (resolved_inputs inputs) [])) \<and>
    pred_option (\<lambda>c. status_shape_error c = None) (returned (calculate_automation_roi inputs))"
  using calculators_same [OF assms] calculated_shape [of inputs]
  by (cases "calculate_automation_roi inputs") auto

definition sample_manifest_item :: "string option \<Rightarrow> string \<Rightarrow> decimal \<Rightarrow> string \<times> manifest_item" where
  "sample_manifest_item period role v = (role, \<lparr>mi_role = role, mi_value = v,
     mi_unit = (if role = ''fully_loaded_rate_per_hour'' then ''per_hour'' else ''u''), mi_period = period,
     mi_currency = Some ''USD'', mi_time_unit = Some ''hours'', mi_binding = ''b'', mi_input = ''i'', mi_fact = ''f'', mi_decision = ''d''\<rparr>)"

definition sample_manifest :: "string option \<Rightarrow> manifest" where
  "sample_manifest period = map2 (sample_manifest_item period) EXECUTION_ROLES sample_values"

lemma sample_manifest_keys: "map fst (sample_manifest period) = EXECUTION_ROLES" "distinct EXECUTION_ROLES"
  by (simp_all add: sample_manifest_def EXECUTION_ROLES_def sample_values_def sample_manifest_item_def)

lemma sample_manifest_values:
  "list_all (\<lambda>role. finite_decimal (mi_value (manifest_of (sample_manifest period) role)) \<and>
     representable (dval (mi_value (manifest_of (sample_manifest period) role)))) EXECUTION_ROLES"
proof -
  have repr: "representable (dval (Fin False n e))" if "n < 10 ^ 28" "e \<in> {0, - 1}" for n e
    unfolding representable_def using that by (intro exI [of _ "int n"] exI [of _ e]) (auto simp: ETINY_def ETOP_def)
  show ?thesis
    by (simp add: sample_manifest_def EXECUTION_ROLES_def sample_values_def sample_manifest_item_def manifest_of_def repr del: dval.simps)
qed

lemma sample_manifest_same:
  "role \<in> set ROLES \<Longrightarrow> ri_value (role_item (resolved_inputs (sample_manifest period)) role) = ri_value (role_item (sample_inputs sample_values) role)"
  unfolding item_fields
  by (auto simp: sample_manifest_def EXECUTION_ROLES_def ROLES_def sample_manifest_item_def manifest_of_def sample_values_def
    sample_items [OF refl] sample_item_def)

lemma sample_execution:
  "\<exists>c. execution_values (sample_manifest period) = Ok c \<and> ex_status c = Roi_valid \<and> map_option dval (ex_first_year c) = Some 48800"
proof -
  let ?in = "resolved_inputs (sample_manifest period)"
  have "in_range ?in"
    using sample_in_range sample_manifest_same [of _ period] unfolding in_range_def Let_def by (simp add: ROLES_def)
  from compute_values_exact [OF this refl refl refl refl, of "''''" "''''"]
  obtain r f where r: "compute_values ?in '''' '''' = Ok r" "rc_status r = Roi_valid" "rc_first_year r = Some f" "dval f = 48800"
    using sample_manifest_same [of _ period]
    by (auto simp: ROLES_def sample_items [OF sample_values_def] sample_item_def power_int_minus split: if_splits)
  from values_same [of "sample_manifest period" "''''" "''''"] r(1)
  obtain c where "returned (execution_values (sample_manifest period)) = Some c" "execution_numbers c = numbers_of r"
    by (cases "returned (execution_values (sample_manifest period))") auto
  with r show ?thesis by (auto simp: execution_numbers_def numbers_of_def returned_def split: sum.splits)
qed

lemma sample_manifest_compatible: "frozen_compatible (sample_manifest (Some ''month''))"
  unfolding frozen_compatible_def
proof
  have reasons: "list_all (\<lambda>role. let it = manifest_of (sample_manifest (Some ''month'')) role in
      input_compatibility_reason role (mi_value it) (Some (mi_unit it)) (mi_currency it) (mi_time_unit it) = Ok None) EXECUTION_ROLES"
    by code_simp
  show "list_all (\<lambda>role. let it = manifest_of (sample_manifest (Some ''month'')) role in
      finite_decimal (mi_value it) \<and> representable (dval (mi_value it)) \<and>
      input_compatibility_reason role (mi_value it) (Some (mi_unit it)) (mi_currency it) (mi_time_unit it) = Ok None) EXECUTION_ROLES"
    using reasons sample_manifest_values by (auto simp: list_all_iff Let_def)
  show "list_all (\<lambda>role. mi_period (manifest_of (sample_manifest (Some ''month'')) role) \<noteq> None \<and>
      mi_period (manifest_of (sample_manifest (Some ''month'')) role) \<noteq> Some '''') HOURS"
    by code_simp
qed

theorem calculators_agree_witness:
  "map_option execution_numbers (returned (calculate_automation_roi (sample_manifest (Some ''month'')))) =
     map_option numbers_of (returned (compute_automation_roi (resolved_inputs (sample_manifest (Some ''month''))) [])) \<and>
   map_option (map_option dval \<circ> ex_first_year) (returned (calculate_automation_roi (sample_manifest (Some ''month'')))) = Some (Some 48800)"
proof -
  have keys: "distinct (map fst (sample_manifest (Some ''month'')))" unfolding sample_manifest_keys(1) by (rule sample_manifest_keys(2))
  have "shape_error (sample_manifest (Some ''month'')) = None" "incompatible (sample_manifest (Some ''month'')) = None"
    by code_simp+
  with frozen_compatibleD(3) [OF sample_manifest_compatible] sample_execution [of "Some ''month''"]
  have "map_option (map_option dval \<circ> ex_first_year) (returned (calculate_automation_roi (sample_manifest (Some ''month'')))) = Some (Some 48800)"
    by (auto simp: calculate_automation_roi_def trap_def)
  with calculators_agree [OF keys sample_manifest_compatible] show ?thesis by blast
qed

text \<open>Without a period of the hours the calculators differ, though both carry the version \<open>automation_roi.v1\<close>.\<close>

lemma missing_period_divides:
  "calculate_automation_roi (sample_manifest None) = Ok (blocked ''period_incompatibility'')"
  "\<exists>r. compute_automation_roi (resolved_inputs (sample_manifest None)) [] = Ok r \<and> rc_status r = Roi_valid"
  "EXECUTION_FORMULA_VERSION = FORMULA_VERSION"
proof -
  show "calculate_automation_roi (sample_manifest None) = Ok (blocked ''period_incompatibility'')" by code_simp
  show "EXECUTION_FORMULA_VERSION = FORMULA_VERSION" by (simp add: EXECUTION_FORMULA_VERSION_def FORMULA_VERSION_def)
  have keys: "distinct (map fst (sample_manifest None))" unfolding sample_manifest_keys(1) by (rule sample_manifest_keys(2))
  have shape: "shape_error (sample_manifest None) = None" by code_simp
  obtain d p where first: "compute_automation_roi (resolved_inputs (sample_manifest None)) [] =
      (case blocking_reason (resolved_inputs (sample_manifest None)) [] of Some (key, detail) \<Rightarrow> Ok (blocked_result d p key detail)
       | None \<Rightarrow> arith (compute_values (resolved_inputs (sample_manifest None)) d p))"
    using six_computed [OF keys shape] sample_manifest_values [of None] unfolding list_all_iff by blast
  have free: "blocking_reason (resolved_inputs (sample_manifest None)) [] = None" by code_simp
  obtain c where c: "returned (execution_values (sample_manifest None)) = Some c" "ex_status c = Roi_valid"
    using sample_execution [of None] by auto
  with values_same [of "sample_manifest None" d p]
  obtain r where r: "returned (compute_values (resolved_inputs (sample_manifest None)) d p) = Some r" "numbers_of r = execution_numbers c"
    by (cases "returned (compute_values (resolved_inputs (sample_manifest None)) d p)") auto
  then have "arith (compute_values (resolved_inputs (sample_manifest None)) d p) = Ok r"
    by (simp add: arith_def returned_def split: sum.splits)
  with first free r(2) c(2) show "\<exists>r. compute_automation_roi (resolved_inputs (sample_manifest None)) [] = Ok r \<and> rc_status r = Roi_valid"
    by (auto simp: numbers_of_def execution_numbers_def)
qed

subsection \<open>Execution through the database\<close>

text \<open>The identity of an operation: the same request for the same snapshot is the same operation.\<close>

definition operation_digest :: "string \<Rightarrow> string \<Rightarrow> string" where
  "operation_digest project snapshot =
     sha256_hex (join_with [CHR 0x1F] [project, snapshot, FORMULA_IDENTIFIER, EXECUTION_FORMULA_VERSION, FORMULA_FINGERPRINT])"

record stored_result =
  xr_id :: string
  xr_project :: string
  xr_key :: string
  xr_operation :: string

record execution_request =
  xq_project :: string
  xq_snapshot :: string
  xq_key :: string

datatype execution_failure =
    Execution_disabled
  | Blank_actor
  | Execution_autocommit
  | Execution_conflict
  | Execution_rejected
  | Execution_integrity string
  | Execution_database string string

text \<open>What the controlled function answers (the stored row under the id it returned, or an error with its
  state and constraint), and the results that are visible after the rollback to the savepoint.\<close>

record execution_answer =
  xa_result :: "(string \<times> string, stored_result option) result"
  xa_visible :: "stored_result list"

definition result_by_request :: "stored_result list \<Rightarrow> execution_request \<Rightarrow> stored_result option" where
  "result_by_request table q = find (\<lambda>r. xr_project r = xq_project q \<and> xr_key r = xq_key q) table"

definition result_by_operation :: "stored_result list \<Rightarrow> string \<Rightarrow> string \<Rightarrow> stored_result option" where
  "result_by_operation table project digest = find (\<lambda>r. xr_project r = project \<and> xr_operation r = digest) table"

definition other_failure :: "string \<Rightarrow> string \<Rightarrow> execution_failure" where
  "other_failure state name =
     (if state \<in> {''22023'', ''23503'', ''23514''} then Execution_rejected
      else if starts_with ''23'' state then Execution_integrity ''Automation ROI result violates its immutable contract''
      else Execution_database state name)"

definition execute :: "execution_answer \<Rightarrow> execution_request \<Rightarrow> (execution_failure, stored_result) result" where
  "execute db q =
     (case xa_result db of
        Inr (Some r) \<Rightarrow> Ok r
      | Inr None \<Rightarrow> Err (Execution_integrity ''controlled execution result is not visible'')
      | Inl (state, name) \<Rightarrow>
          if state = ''23505'' then
            let expected = operation_digest (xq_project q) (xq_snapshot q)
            in case result_by_request (xa_visible db) q of
                 Some r \<Rightarrow> if xr_operation r = expected then Ok r else Err Execution_conflict
               | None \<Rightarrow>
                   (case result_by_operation (xa_visible db) (xq_project q) expected of
                      Some r \<Rightarrow> Ok r
                    | None \<Rightarrow> if name = ''uq_rearoicr_project_idempotency'' then Err Execution_conflict else Err (other_failure state name))
          else Err (other_failure state name))"

definition execute_automation_roi ::
  "bool \<Rightarrow> bool \<Rightarrow> execution_answer \<Rightarrow> execution_request \<Rightarrow> string \<Rightarrow> (execution_failure, stored_result) result" where
  "execute_automation_roi enabled autocommit db q actor =
     (if \<not> enabled then Err Execution_disabled
      else if py_strip actor = '''' then Err Blank_actor
      else if autocommit then Err Execution_autocommit
      else execute db q)"

text \<open>After a conflict of keys the answer is a result of the very operation that was asked for, or an error.\<close>

lemma conflict_recovers:
  assumes "xa_result db = Inl (''23505'', name)" "execute db q = Ok r"
  shows "r \<in> set (xa_visible db) \<and> xr_project r = xq_project q \<and> xr_operation r = operation_digest (xq_project q) (xq_snapshot q)"
proof (cases "result_by_request (xa_visible db) q")
  case (Some x)
  with assms have "x = r" "xr_operation r = operation_digest (xq_project q) (xq_snapshot q)"
    by (simp_all add: execute_def Let_def split: if_splits)
  with Some show ?thesis by (auto simp: result_by_request_def find_Some_iff)
next
  case None
  with assms have "result_by_operation (xa_visible db) (xq_project q) (operation_digest (xq_project q) (xq_snapshot q)) = Some r"
    by (simp add: execute_def Let_def split: option.splits if_splits)
  then show ?thesis by (auto simp: result_by_operation_def find_Some_iff)
qed

end
