(* ===== verification/Spec2Isabelle.thy ===== *)
theory Spec2Isabelle
  imports Workflow Policy PolicyApi Config State Scoring JsonText Llm Recovery Orchestrator Runner
    Execution Graph Routing Cache Gateway Governance Table RunState WorkQueue Dispatch
    Decimal Sha256 Roi FactTypes Evidence RoiLedger RoiApi RoiHistory RoiClaims RoiViews
    Sha1 CanonicalJson Clarifications EffectiveInput Coherence Store
    Scenarios Shadow ScenarioViews EvidenceUse RoiExecution
begin

text \<open>
  A model of the decision workflow of the repository (package \<open>src/mas\<close>): a project goes through
  a fixed sequence of phases, each answered by a language model, under a deterministic policy
  layer that caps the budget, can be stopped by a kill switch and records what it does.

  Parts and how they interact

  \<^item> \<open>workflow_templates.py\<close> names the project types and their phase sequences (theory Workflow).
  \<^item> \<open>policy.py\<close> is the gate asked before every phase and every model call, with the budget, the
    three-state breaker, the kill switch and the append-only log (theory Policy); the operator
    endpoints of \<open>api.py\<close> that change these attributes are in theory PolicyApi.
  \<^item> \<open>config.py\<close> holds the routing tables, exit gates, re-entry triggers, the invalidation map and
    the readers of environment variables (theory Config).
  \<^item> \<open>state.py\<close> is the blackboard every component reads and writes. Its policy fields are the record
    \<open>policy_state\<close> of theory Policy, which the record \<open>project_state\<close> of theory State extends by
    the life cycle and the outputs; the strategy contract, the dependency cone of a strategy and
    the reconstruction of a persisted state are there too.
  \<^item> \<open>tools/scoring.py\<close> has the exit gates, re-entry triggers, invalidation of downstream outputs
    and the scores (theory Scoring).
  \<^item> \<open>llm_client.py\<close>: JSON root extraction (theory JsonText), the provider circuit breaker, prices
    and the response record (theory Llm).
  \<^item> \<open>runtime/provider_gateway.py\<close>: which models a call tries (theory Routing), and the call itself
    with retries, fallbacks, the provider breaker, the usage ledger and the cache (theory Gateway);
    \<open>runtime/cache.py\<close> with its contract in \<open>extensions/runtime.py\<close> is theory Cache. The hook
    of the orchestrator that asks the policy gate again before every provider attempt joins the
    gateway to the policy layer (theory Governance).
  \<^item> \<open>orchestrator.py\<close>: recovery of payloads and their storing (theory Recovery), one phase
    execution, the sequential runner and the graph (theory Orchestrator).
  \<^item> \<open>runtime/run_state.py\<close> and \<open>runtime/work_queue.py\<close> keep the runs of the projects and the jobs
    that execute them (theories RunState and WorkQueue, over the tables of theory Table); \<open>api.py\<close>
    starts a run, drains the queue and executes a job around the sequential runner (theory
    Dispatch).
  \<^item> \<open>knowledge/evidence_snapshot\<close> keeps what a project has as evidence: blobs, snapshots, ingest
    operations, typed facts and retention events. \<open>validation.py\<close> is theory FactTypes;
    \<open>repository.py\<close>, \<open>capture.py\<close> and \<open>fact_service.py\<close> are theory Evidence.
  \<^item> \<open>knowledge/automation_roi\<close> turns approved facts into a return on investment: the calculator
    (theory Roi, over the decimal numbers of theory Decimal and the digests of Sha256), the ledger
    of approvals, frozen inputs, results and idempotent requests (theory RoiLedger), the endpoints
    of \<open>automation_roi_api.py\<close> that write it (theory RoiApi), and the views of a result and of a
    project (theory RoiViews). A fact of the ledger is a fact of the evidence store.
  \<^item> \<open>clarifications.py\<close> keeps the questions put to the operator and the answers (theory
    Clarifications). \<open>state_coherence.py\<close> identifies what is material for an analysis, the
    authoritative answers included, by the digest of a canonical text (theory EffectiveInput,
    over the texts of CanonicalJson and the digests of Sha1 and Sha256), and keeps which analysis
    of a decision is current, with the tables and functions of the migration v64 (theory
    Coherence). \<open>store.py\<close> saves and loads the states, and \<open>_accept_completed_analysis\<close> of
    \<open>api.py\<close> makes the result of a run the current analysis (theory Store).
  \<^item> \<open>scenarios\<close> holds beta distributions over hypotheses: \<open>models.py\<close> and \<open>update.py\<close> update a
    scenario by evidence (theory Scenarios); \<open>policy.py\<close>, \<open>posteriors.py\<close>, \<open>engine.py\<close> and
    \<open>sqlite_store.py\<close> score the alternatives of a model call in the shadow of the call and learn
    from its outcome (theory Shadow), and \<open>eval.py\<close> shows what was recorded (theory ScenarioViews).
  \<^item> \<open>research_evidence\<close> decides which evidence a calculation may use
    (\<open>automation_roi_use_policy.py\<close>, theory EvidenceUse) and has a second calculator over a manifest of
    that evidence (\<open>automation_roi_execution_policy.py\<close>, theory RoiExecution), compared there with the
    calculator of theory Roi.

  A phase execution (\<open>run_phase_node\<close>) is split into the stages the code goes through in order:
  \<open>enter_phase\<close>, \<open>gate_phase\<close>, \<open>start_phase\<close>, \<open>execute_phase\<close>. A stage returns from the function
  (\<open>Return\<close>) or goes on (\<open>Continue\<close>).

  What the lemmas show

  \<^item> Policy, PolicyApi: what the gate decides, that metered calls respect the caps, that the
    dictionary form of the budget refines the dataclass form, that the kill switch is irrevocable
    and the log append-only over the step relation of all operations on the policy attributes.
  \<^item> State, Scoring: the exact effect of the two invalidations, well-formedness of every
    reconstructed state, the exit gates, bounds of the scores, and that the worklist search over
    the invalidation map terminates with the reachable phases.
  \<^item> JsonText, Llm: the reader commits to the first root of a text; a field is recovered from
    the outermost object only; the breaker is a sliding window over the recorded failures.
  \<^item> Runner: frame lemmas of a phase execution and the stopping condition of the runner's loop.
    Execution: a phase execution returns and ends completed or failed, a refused phase makes no
    call, calls are charged and bounded, and a run stops only at a failure or at the end.
  \<^item> Routing, Cache, Gateway: a selection is well-formed and never without a supported model; a hit
    is the response last stored; a call goes through its candidates in order within the retry
    limit, reports the usage of all its attempts, succeeds only with a usable text, and moves
    the breaker only by successes and transport failures.
  \<^item> Governance: no provider call escapes the policy gate, and what the orchestrator charges is
    what the provider calls cost.
  \<^item> Table, RunState, WorkQueue: an insert or update of a table keeps its unique index or fails;
    a project has at most one active run under every history of creations, marks and recoveries,
    in the database and in the process-local store; a job is claimed at most once.
  \<^item> Dispatch: when a request starts a run, and that an executed job always ends with its run.
  \<^item> Graph: three behaviours of the graph and of a rerun that differ from the comments.
  \<^item> Decimal, Roi: addition, subtraction, multiplication and division of decimals with 28 digits
    denote the correctly rounded real numbers; on inputs of a realistic size the calculation is
    exact, and two sets of inputs have one digest exactly when they have the same values.
  \<^item> FactTypes, Evidence: a validated fact keeps the contract of its type and the checks of its
    table; the keys and references of the evidence store hold over every history, a captured
    upload is kept, and its bytes cannot be deleted.
  \<^item> RoiHistory, RoiClaims: the invariant of the ledger over every history of the endpoints; the
    approvals of a fact take turns with their revocations, a calculation is answered once per
    set of inputs, withdrawn or redacted evidence gives no new number, every stored result can be
    recomputed from its links, and the checks of the database refuse nothing that the code let
    through.
  \<^item> RoiViews: the views show the stored numbers, the client view depends on nothing but its
    allowlist, and the workspace offers exactly what the endpoints accept.

  \<^item> Clarifications, EffectiveInput: which answers have authority does not depend on the order of the
    records; an answer that is recorded decides its question; two states have one canonical text
    exactly when they agree on all that is material.
  \<^item> Coherence, Store: the accepted analyses of a decision form an append-only log with one
    compare-and-append operation, under every history of transactions; a superseded run cannot
    come back; the acceptance of a run is all or nothing, and succeeds for every run that the
    runner ends as complete; a listing of the projects can defeat a first acceptance.

  \<^item> Scenarios, Shadow, ScenarioViews: an update by evidence counts sources, not observations, in every
    order; a posterior is what the recorded observations say, under any failures of its store; an
    alternative is recommended only when it is clearly better; and the view of a phase is the answer
    that the request got.
  \<^item> EvidenceUse, RoiExecution: the evidence policy is decided by every binding of the set in any order;
    the two calculators give the same numbers on compatible inputs, and differ when the hours have no
    period.

  Interfaces. The budget meters (tokens, cost, calls) are interpretations of the locales \<open>meter\<close>
  and \<open>strict_meter\<close>, the provider breaker one of \<open>windowed_breaker\<close>, both caches of
  \<open>semantic_cache\<close>, the table of runs and the process-local store of \<open>run_store\<close>, and the invariants of the gateway's loop are interpretations of
  \<open>gateway_invariant\<close>, whose induction over candidates and retries is done once; the properties
  rest on the facts of these interpretations.

  Loops and bounds. Every loop of the modelled code is a total function: the worklist search of
  \<open>collect_downstream_phases\<close> terminates by the number of unseen keys of the map, the scanners of
  JsonText consume a character per step (the search for object members gives up with \<open>None\<close> when
  the decoder returns no shorter rest, which the decoder of the code never does). No fuel is used.

  Parameters. Clocks are arguments (\<open>now\<close>, \<open>monotonic\<close>). The JSON decoder, the pydantic
  constructors, the model call, the brief sanitiser, the evidence and retrieval lookups, the
  redaction expressions and the renderers of text with numbers are fields of the records
  \<open>decoder\<close>, \<open>models\<close> and \<open>orchestrator_env\<close>; what providers answer, when the hook refuses and
  what the clocks of the gateway read are functions of the number of calls made, in the record
  \<open>gateway_env\<close>; the ids \<open>uuid4\<close> returns and the instants of SQL statements are arguments. In theory Scenarios the
  quantile of the beta distribution (scipy) is the argument \<open>ppf\<close>; in theory Shadow the samplers of
  Python's generator, by seed and position of the draw, and which statements raise are fields of
  \<open>shadow_env\<close>. In theory Dispatch
  the lookups of \<open>state_coherence.py\<close> around a run are fields of \<open>dispatch_env\<close>; theory Store has
  them on the tables. The texts of floats and instants are fields of \<open>text_env\<close>, pydantic's dump and
  validation of a whole state fields of \<open>coherence_env\<close>. Python floats are real numbers; the module
  \<open>decimal\<close> is written out with its context of 28 digits, without the limits of its exponent. The
  evidence store and the ledger are tables of a database: a transaction commits as a whole or not
  at all and transactions follow one another, a \<open>NUMERIC\<close> column gives back the number with no
  positive exponent, and a UUID is the text that the database prints. Texts are sequences of
  bytes.

  Not modelled. The prompts and phase summaries (text), decision objects and events (copies of
  the state for audit), the telemetry of provider attempts, schema
  migrations, concurrent transactions, the storage of evidence bytes on the file system, the calibration
  adapter of scenarios, the generation of clarification questions, the deletion of projects, exporters, report
  quality heuristics, the rest of the research evidence and telemetry (SQL repositories), the evaluation
  harness, knowledge files, and the HTTP and view-model glue. Of \<open>project_state\<close> the fields
  for knowledge, observations, decision quality and decision objects are left
  out; no modelled operation reads them.
\<close>

end
